(* ===== verification/Prelude.thy ===== *)
theory Prelude
  imports Main "HOL-Library.Word" "HOL-Library.Char_ord" "HOL-Library.List_Lexorder" "HOL-Library.Multiset"
begin

text \<open>
  What every component of the model shares: Go's fixed-width signed integers as HOL integers with
  the wrap-around written out, association-list dictionaries, bounded index access, Go's string
  comparison and the string helpers of package strings that the gateway uses.
  A Go string is a sequence of bytes; it is modelled by \<^typ>\<open>string\<close>, whose characters are bytes.
\<close>

named_theorems model_simps "unfolding rules of the small accessor definitions"
named_theorems int64_simps "facts that remove a wrap-around that cannot happen"

section \<open>Go int64\<close>

definition int64_max :: int where "int64_max = 9223372036854775807"
definition int64_min :: int where "int64_min = -9223372036854775808"

definition i64 :: "int \<Rightarrow> int" where
  "i64 x = (x + 9223372036854775808) mod 18446744073709551616 - 9223372036854775808"

definition is_i64 :: "int \<Rightarrow> bool" where
  "is_i64 x = (int64_min \<le> x \<and> x \<le> int64_max)"

lemma i64_id [int64_simps]: "is_i64 x \<Longrightarrow> i64 x = x"
  by (simp add: is_i64_def i64_def int64_min_def int64_max_def)

lemma i64_range [simp, intro]: "is_i64 (i64 x)"
proof -
  have "0 \<le> (x + 9223372036854775808) mod 18446744073709551616"
       "(x + 9223372036854775808) mod 18446744073709551616 < 18446744073709551616" by simp_all
  then show ?thesis unfolding is_i64_def i64_def int64_min_def int64_max_def by linarith
qed

lemma i64_small [int64_simps]: "0 \<le> x \<Longrightarrow> x \<le> int64_max \<Longrightarrow> i64 x = x"
  by (rule i64_id) (simp add: is_i64_def int64_min_def)

lemma i64_idem [simp]: "i64 (i64 x) = i64 x"
  by (rule i64_id) simp

lemma i64_zero [simp]: "i64 0 = 0"
  by (simp add: i64_def)

section \<open>Options and results\<close>

definition the_or :: "'a \<Rightarrow> 'a option \<Rightarrow> 'a" where
  "the_or d x = (case x of None \<Rightarrow> d | Some y \<Rightarrow> y)"

lemma the_or_simps [simp]: "the_or d None = d" "the_or d (Some y) = y"
  by (simp_all add: the_or_def)

section \<open>Dictionaries as association lists\<close>

text \<open>
  A Go map whose iteration order is observable is an association list without duplicate keys, the
  iteration order being the order of the list; a map used by key alone is a HOL map.
\<close>

fun alist_set :: "'k \<Rightarrow> 'v \<Rightarrow> ('k \<times> 'v) list \<Rightarrow> ('k \<times> 'v) list" where
  "alist_set k v [] = [(k, v)]"
| "alist_set k v ((k', v') # m) = (if k = k' then (k, v) # m else (k', v') # alist_set k v m)"

definition alist_delete :: "'k \<Rightarrow> ('k \<times> 'v) list \<Rightarrow> ('k \<times> 'v) list" where
  "alist_delete k m = filter (\<lambda>(k', _). k' \<noteq> k) m"

lemma map_of_alist_set [simp]: "map_of (alist_set k v m) = (map_of m)(k \<mapsto> v)"
  by (induction m) (auto simp: fun_eq_iff)

lemma map_of_alist_delete [simp]: "map_of (alist_delete k m) = (map_of m)(k := None)"
  by (induction m) (auto simp: alist_delete_def fun_eq_iff)

lemma keys_alist_set: "fst ` set (alist_set k v m) = insert k (fst ` set m)"
proof (induction m)
  case (Cons p m) then show ?case by (cases p) (simp add: insert_commute)
qed simp

lemma distinct_alist_set [simp]: "distinct (map fst m) \<Longrightarrow> distinct (map fst (alist_set k v m))"
proof (induction m)
  case (Cons p m) then show ?case by (cases p) (simp add: keys_alist_set)
qed simp

lemma distinct_alist_delete [simp]: "distinct (map fst m) \<Longrightarrow> distinct (map fst (alist_delete k m))"
  by (induction m) (auto simp: alist_delete_def)

section \<open>Strings\<close>

fun has_prefix :: "string \<Rightarrow> string \<Rightarrow> bool" where
  "has_prefix s [] = True"
| "has_prefix [] (_ # _) = False"
| "has_prefix (c # s) (d # p) = (c = d \<and> has_prefix s p)"

lemma has_prefix_append [simp]: "has_prefix (p @ s) p"
  by (induction p) auto

lemma has_prefixE: "has_prefix s p \<Longrightarrow> \<exists>r. s = p @ r"
  by (induction s p rule: has_prefix.induct) auto

definition has_suffix :: "string \<Rightarrow> string \<Rightarrow> bool" where
  "has_suffix s p = has_prefix (rev s) (rev p)"

fun contains_str :: "string \<Rightarrow> string \<Rightarrow> bool" where
  "contains_str s p = (has_prefix s p \<or> (case s of [] \<Rightarrow> False | _ # r \<Rightarrow> contains_str r p))"

declare contains_str.simps [simp del]

definition char_in :: "char \<Rightarrow> nat \<Rightarrow> nat \<Rightarrow> bool" where
  "char_in c lo hi = (lo \<le> of_char c \<and> of_char c \<le> hi)"

text \<open>ASCII lower-casing. strings.ToLower also maps non-ASCII letters; the names the gateway
  lower-cases are ASCII header names, model aliases and client labels.\<close>
definition lower_char :: "char \<Rightarrow> char" where
  "lower_char c = (if char_in c 65 90 then char_of (of_char c + 32 :: nat) else c)"

definition to_lower :: "string \<Rightarrow> string" where
  "to_lower s = map lower_char s"

definition is_space :: "char \<Rightarrow> bool" where
  "is_space c = (of_char c = (32::nat) \<or> char_in c 9 13)"

definition trim_left :: "string \<Rightarrow> string" where
  "trim_left s = dropWhile is_space s"

definition trim_space :: "string \<Rightarrow> string" where
  "trim_space s = rev (dropWhile is_space (rev (dropWhile is_space s)))"

lemma to_lower_idem [simp]: "to_lower (to_lower s) = to_lower s"
proof -
  have "lower_char (lower_char c) = lower_char c" for c
    by (auto simp: lower_char_def char_in_def)
  then show ?thesis by (simp add: to_lower_def)
qed

lemma dropWhile_idem: "dropWhile P (dropWhile P xs) = dropWhile P xs"
  by (induction xs) auto

lemma hd_dropWhile_last:
  assumes "xs \<noteq> []" and "\<not> P (hd xs)"
  shows "dropWhile P (rev (dropWhile P (rev xs))) = rev (dropWhile P (rev xs))"
proof (cases xs)
  case (Cons a ys)
  with assms have a: "\<not> P a" by simp
  have "\<exists>zs. dropWhile P (us @ [a]) = zs @ [a]" for us
    using a by (induction us) auto
  then obtain zs where "dropWhile P (rev ys @ [a]) = zs @ [a]" by blast
  then show ?thesis using Cons a by simp
qed (use assms in simp)

lemma trim_space_idem [simp]: "trim_space (trim_space s) = trim_space s"
proof (cases "dropWhile is_space s")
  case Nil then show ?thesis unfolding trim_space_def by (simp only: Nil) simp
next
  case (Cons a ys)
  then have "\<not> is_space (hd (dropWhile is_space s))" by (metis hd_dropWhile list.distinct(1))
  then have *: "dropWhile is_space (rev (dropWhile is_space (rev (dropWhile is_space s))))
      = rev (dropWhile is_space (rev (dropWhile is_space s)))"
    by (rule hd_dropWhile_last[rotated]) (simp add: Cons)
  then show ?thesis by (simp add: trim_space_def dropWhile_idem)
qed

section \<open>Runes: Go's range over a string\<close>

text \<open>utf8.DecodeRuneInString, as used by Go's range loop over a string: the rune and its width; an
  invalid sequence yields U+FFFD with width 1.\<close>

definition utf8_cont :: "nat \<Rightarrow> nat \<Rightarrow> nat list \<Rightarrow> nat \<Rightarrow> bool" where
  "utf8_cont lo hi bs k =
     (k \<le> length bs \<and> lo \<le> bs ! 0 \<and> bs ! 0 \<le> hi \<and> (\<forall>b \<in> set (take (k - 1) (tl bs)). 128 \<le> b \<and> b \<le> 191))"

definition utf8_bounds :: "nat \<Rightarrow> nat \<times> nat" where
  "utf8_bounds b = (if b = 224 then (160, 191) else if b = 237 then (128, 159)
     else if b = 240 then (144, 191) else if b = 244 then (128, 143) else (128, 191))"

definition decode_rune :: "nat \<Rightarrow> nat list \<Rightarrow> nat \<times> nat" where
  "decode_rune b bs =
     (let (lo, hi) = utf8_bounds b in
      if b < 128 then (b, 1)
      else if 194 \<le> b \<and> b \<le> 223 \<and> utf8_cont lo hi bs 1
        then ((b mod 32) * 64 + bs ! 0 mod 64, 2)
      else if 224 \<le> b \<and> b \<le> 239 \<and> utf8_cont lo hi bs 2
        then ((b mod 16) * 4096 + (bs ! 0 mod 64) * 64 + bs ! 1 mod 64, 3)
      else if 240 \<le> b \<and> b \<le> 244 \<and> utf8_cont lo hi bs 3
        then ((b mod 8) * 262144 + (bs ! 0 mod 64) * 4096 + (bs ! 1 mod 64) * 64 + bs ! 2 mod 64, 4)
      else (65533, 1))"

fun go_runes :: "nat list \<Rightarrow> nat list" where
  "go_runes [] = []"
| "go_runes (b # bs) = fst (decode_rune b bs) # go_runes (drop (snd (decode_rune b bs) - 1) bs)"

definition string_runes :: "string \<Rightarrow> nat list" where
  "string_runes s = go_runes (map of_char s)"

lemma decode_rune_ascii [simp]: "b < 128 \<Longrightarrow> decode_rune b bs = (b, 1)"
  by (simp add: decode_rune_def case_prod_beta)

lemma go_runes_ascii: "\<forall>b \<in> set bs. b < 128 \<Longrightarrow> go_runes bs = bs"
  by (induction bs) auto

section \<open>Decimal numbers\<close>

text \<open>strconv.FormatInt in base 10, and the verb d of package fmt.\<close>
fun digits :: "nat \<Rightarrow> string" where
  "digits n = (if n < 10 then [char_of (48 + n)] else digits (n div 10) @ [char_of (48 + n mod 10)])"

declare digits.simps [simp del]

definition itoa :: "int \<Rightarrow> string" where
  "itoa i = (if i < 0 then CHR ''-'' # digits (nat (- i)) else digits (nat i))"

end
