(* ===== verification/Crypto.thy ===== *)
theory Crypto
  imports Prelude
begin

text \<open>
  Package crypto: the base62 codec (base62.go), the self-checking API key format (apikey.go, and the
  key generation of handleCreateKey in admin/handle_keys.go), and the framing of the AES-GCM
  envelope (aes.go). HMAC-SHA256 and AES-GCM are Go standard library primitives and enter as
  function parameters. Bytes are \<^typ>\<open>8 word\<close>; big.Int values are naturals.
\<close>

type_synonym bytes = "8 word list"

section \<open>base62.go\<close>

definition base62Alphabet :: string where
  "base62Alphabet = ''0123456789ABCDEFGHIJKLMNOPQRSTUVWXYZabcdefghijklmnopqrstuvwxyz''"

definition set_bytes :: "bytes \<Rightarrow> nat" where
  "set_bytes bs = foldl (\<lambda>n b. n * 256 + unat b) 0 bs"

fun big_bytes :: "nat \<Rightarrow> bytes" where
  "big_bytes n = (if n = 0 then [] else big_bytes (n div 256) @ [word_of_nat (n mod 256)])"

declare big_bytes.simps [simp del]

text \<open>The digit loop of Base62Encode: n is the remaining value, k is pos + 1. None is the panic
  when the fixed length is too small.\<close>
fun encode_loop :: "nat \<Rightarrow> nat \<Rightarrow> string \<Rightarrow> string option" where
  "encode_loop n 0 buf = (if n = 0 then Some buf else None)"
| "encode_loop n (Suc pos) buf =
     (if n = 0 then Some buf
      else encode_loop (n div 62) pos (buf[pos := base62Alphabet ! (n mod 62)]))"

definition Base62Encode :: "bytes \<Rightarrow> nat \<Rightarrow> string option" where
  "Base62Encode data fixedLen =
     encode_loop (set_bytes data) fixedLen (replicate fixedLen (base62Alphabet ! 0))"

definition base62Index :: "nat \<Rightarrow> int" where
  "base62Index c =
     (if 48 \<le> c \<and> c \<le> 57 then int c - 48
      else if 65 \<le> c \<and> c \<le> 90 then int c - 65 + 10
      else if 97 \<le> c \<and> c \<le> 122 then int c - 97 + 36
      else -1)"

datatype base62_error = InvalidBase62Char nat | DecodedTooLong nat nat

text \<open>The loop of Base62Decode ranges over runes and truncates each to a byte.\<close>
fun decode_loop :: "nat list \<Rightarrow> nat \<Rightarrow> base62_error + nat" where
  "decode_loop [] n = Inr n"
| "decode_loop (c # cs) n =
     (let idx = base62Index (c mod 256) in
      if idx < 0 then Inl (InvalidBase62Char c) else decode_loop cs (n * 62 + nat idx))"

definition Base62Decode :: "string \<Rightarrow> nat \<Rightarrow> base62_error + bytes" where
  "Base62Decode s expectedByteLen =
     (case decode_loop (string_runes s) 0 of
        Inl e \<Rightarrow> Inl e
      | Inr n \<Rightarrow>
          (let raw = big_bytes n in
           if length raw > expectedByteLen then Inl (DecodedTooLong (length raw) expectedByteLen)
           else Inr (replicate (expectedByteLen - length raw) 0 @ raw)))"

section \<open>apikey.go and key generation\<close>

definition APIKeyRandomLen :: nat where "APIKeyRandomLen = 32"
definition APIKeyChecksumLen :: nat where "APIKeyChecksumLen = 4"
definition APIKeyBodyLen :: nat where "APIKeyBodyLen = 49"
definition APIKeyPrefix :: string where "APIKeyPrefix = ''ms-''"

definition apiKeyHMACLabel :: bytes where
  "apiKeyHMACLabel = map (\<lambda>c. word_of_nat (of_char c)) ''apikey-checksum''"

text \<open>\<^term>\<open>hmac key message\<close> is the full HMAC-SHA256 output (32 bytes).\<close>
definition deriveSubkey :: "(bytes \<Rightarrow> bytes \<Rightarrow> bytes) \<Rightarrow> bytes \<Rightarrow> bytes" where
  "deriveSubkey hmac encKey = hmac encKey apiKeyHMACLabel"

definition ComputeAPIKeyChecksum :: "(bytes \<Rightarrow> bytes \<Rightarrow> bytes) \<Rightarrow> bytes \<Rightarrow> bytes \<Rightarrow> bytes" where
  "ComputeAPIKeyChecksum hmac encKey randomBytes =
     take APIKeyChecksumLen (hmac (deriveSubkey hmac encKey) randomBytes)"

definition ValidateAPIKeyChecksum :: "(bytes \<Rightarrow> bytes \<Rightarrow> bytes) \<Rightarrow> bytes \<Rightarrow> string \<Rightarrow> bool" where
  "ValidateAPIKeyChecksum hmac encKey keyBody =
     (case Base62Decode keyBody (APIKeyRandomLen + APIKeyChecksumLen) of
        Inl _ \<Rightarrow> False
      | Inr raw \<Rightarrow>
          ComputeAPIKeyChecksum hmac encKey (take APIKeyRandomLen raw) = drop APIKeyRandomLen raw)"

text \<open>handleCreateKey: random bytes and their checksum, base62-encoded behind the prefix.\<close>
definition generate_key :: "(bytes \<Rightarrow> bytes \<Rightarrow> bytes) \<Rightarrow> bytes \<Rightarrow> bytes \<Rightarrow> string option" where
  "generate_key hmac encKey randomBytes =
     map_option (\<lambda>body. APIKeyPrefix @ body)
       (Base62Encode (randomBytes @ ComputeAPIKeyChecksum hmac encKey randomBytes) APIKeyBodyLen)"

section \<open>aes.go\<close>

text \<open>\<^term>\<open>newGCM\<close> returns the AEAD of a key, or None where aes.NewCipher rejects the key size: its
  seal and open functions on a nonce. \<^term>\<open>nonceSize\<close> is 12 for cipher.NewGCM.\<close>
record aead =
  seal :: "bytes \<Rightarrow> bytes \<Rightarrow> bytes"
  unseal :: "bytes \<Rightarrow> bytes \<Rightarrow> bytes option"
  nonceSize :: nat

datatype aes_error = NewCipherFailed | NonceFailed | CiphertextTooShort | OpenFailed

definition Encrypt :: "(bytes \<Rightarrow> aead option) \<Rightarrow> (nat \<Rightarrow> bytes option) \<Rightarrow> bytes \<Rightarrow> bytes \<Rightarrow> aes_error + bytes" where
  "Encrypt newGCM readRand key plaintext =
     (case newGCM key of
        None \<Rightarrow> Inl NewCipherFailed
      | Some gcm \<Rightarrow>
          (case readRand (nonceSize gcm) of
             None \<Rightarrow> Inl NonceFailed
           | Some nonce \<Rightarrow> Inr (nonce @ seal gcm nonce plaintext)))"

definition Decrypt :: "(bytes \<Rightarrow> aead option) \<Rightarrow> bytes \<Rightarrow> bytes \<Rightarrow> aes_error + bytes" where
  "Decrypt newGCM key ciphertext =
     (case newGCM key of
        None \<Rightarrow> Inl NewCipherFailed
      | Some gcm \<Rightarrow>
          (if length ciphertext < nonceSize gcm then Inl CiphertextTooShort
           else (case unseal gcm (take (nonceSize gcm) ciphertext) (drop (nonceSize gcm) ciphertext) of
                   None \<Rightarrow> Inl OpenFailed
                 | Some p \<Rightarrow> Inr p)))"

text \<open>hex.DecodeString on the key: two hex digits of either case per byte.\<close>
definition hex_digit :: "char \<Rightarrow> nat option" where
  "hex_digit c = (if char_in c 48 57 then Some (of_char c - 48)
     else if char_in c 97 102 then Some (of_char c - 97 + 10)
     else if char_in c 65 70 then Some (of_char c - 65 + 10) else None)"

fun hex_decode :: "string \<Rightarrow> bytes option" where
  "hex_decode [] = Some []"
| "hex_decode [_] = None"
| "hex_decode (a # b # s) =
     (case (hex_digit a, hex_digit b) of
        (Some x, Some y) \<Rightarrow> map_option (\<lambda>r. word_of_nat (x * 16 + y) # r) (hex_decode s)
      | _ \<Rightarrow> None)"

datatype hex_key_error = InvalidHexKey | HexKeyLength nat

definition ParseHexKey :: "string \<Rightarrow> hex_key_error + bytes" where
  "ParseHexKey hexKey =
     (case hex_decode hexKey of
        None \<Rightarrow> Inl InvalidHexKey
      | Some key \<Rightarrow> if length key \<noteq> 32 then Inl (HexKeyLength (length key)) else Inr key)"

section \<open>The codec\<close>

definition digit_val :: "char \<Rightarrow> nat" where
  "digit_val c = nat (base62Index (of_char c))"

definition base62_digits :: "string \<Rightarrow> bool" where
  "base62_digits s = (\<forall>c \<in> set s. (of_char c :: nat) < 128 \<and> 0 \<le> base62Index (of_char c))"

definition digits_val :: "string \<Rightarrow> nat" where
  "digits_val s = foldl (\<lambda>n c. n * 62 + digit_val c) 0 s"

lemma alphabet_vals: "map digit_val base62Alphabet = [0..<62]"
  by (simp add: base62Alphabet_def digit_val_def base62Index_def upt_rec)

lemma alphabet_digits: "base62_digits base62Alphabet"
  by (simp add: base62_digits_def base62Alphabet_def base62Index_def)

lemma length_alphabet [simp]: "length base62Alphabet = 62"
  by (simp add: base62Alphabet_def)

lemma alphabet_digit:
  assumes "d < 62"
  shows "digit_val (base62Alphabet ! d) = d" "(of_char (base62Alphabet ! d) :: nat) < 128"
    "0 \<le> base62Index (of_char (base62Alphabet ! d))"
proof -
  have "map digit_val base62Alphabet ! d = [0..<62] ! d" by (simp only: alphabet_vals)
  then show "digit_val (base62Alphabet ! d) = d" using assms by (simp del: upt_rec_numeral)
  show "(of_char (base62Alphabet ! d) :: nat) < 128" "0 \<le> base62Index (of_char (base62Alphabet ! d))"
    using alphabet_digits assms by (simp_all add: base62_digits_def)
qed

lemma foldl_val: "foldl (\<lambda>n c. n * 62 + digit_val c) a s = a * 62 ^ length s + digits_val s"
proof (induction s arbitrary: a)
  case (Cons c s)
  have "digits_val (c # s) = digit_val c * 62 ^ length s + digits_val s"
    unfolding digits_val_def using Cons.IH[of "digit_val c", unfolded digits_val_def] by simp
  then show ?case unfolding foldl.simps Cons.IH by (simp add: algebra_simps)
qed (simp add: digits_val_def)

lemma digits_val_append [simp]: "digits_val (s @ t) = digits_val s * 62 ^ length t + digits_val t"
  using foldl_val[of "digits_val s" t] by (simp only: digits_val_def foldl_append)

lemma digits_val_simps [simp]: "digits_val [] = 0" "digits_val (c # s) = digit_val c * 62 ^ length s + digits_val s"
  using digits_val_append[of "[c]" s] by (simp_all add: digits_val_def)

lemma digits_val_zeros [simp]: "digits_val (replicate k (base62Alphabet ! 0)) = 0"
  by (induction k) (simp_all add: alphabet_digit)

lemma encode_loop_inv:
  assumes "k \<le> length buf" "take k buf = replicate k (base62Alphabet ! 0)" "base62_digits buf"
    and "encode_loop n k buf = Some r"
  shows "length r = length buf \<and> base62_digits r
    \<and> digits_val r = n * 62 ^ (length buf - k) + digits_val (drop k buf)"
  using assms
proof (induction n k buf rule: encode_loop.induct)
  case (1 n buf) then show ?case by (auto split: if_splits)
next
  case (2 n pos buf)
  show ?case
  proof (cases "n = 0")
    case True
    have "digits_val buf = digits_val (take (Suc pos) buf @ drop (Suc pos) buf)" by simp
    also have "\<dots> = digits_val (drop (Suc pos) buf)"
      unfolding digits_val_append 2(3) digits_val_zeros by simp
    finally show ?thesis using True 2(2-) by simp
  next
    case False
    let ?b = "buf[pos := base62Alphabet ! (n mod 62)]"
    have pos: "pos < length buf" using 2(2) by simp
    have t: "take pos ?b = replicate pos (base62Alphabet ! 0)"
    proof -
      have "take pos buf = take pos (take (Suc pos) buf)" by (simp add: min_def)
      also have "\<dots> = replicate pos (base62Alphabet ! 0)"
        unfolding 2(3) take_replicate by (simp only: min_def) simp
      finally show ?thesis by simp
    qed
    have d: "base62_digits ?b"
      using 2(4) alphabet_digit(2,3)[of "n mod 62"] set_update_subset_insert[of buf pos "base62Alphabet ! (n mod 62)"]
      unfolding base62_digits_def by force
    have dr: "drop pos ?b = base62Alphabet ! (n mod 62) # drop (Suc pos) buf"
      using pos by (simp add: Cons_nth_drop_Suc[symmetric])
    have "length r = length ?b \<and> base62_digits r
      \<and> digits_val r = n div 62 * 62 ^ (length ?b - pos) + digits_val (drop pos ?b)"
      using 2(1)[OF False] pos t d 2(5) False by simp
    moreover have "length buf - pos = Suc (length buf - Suc pos)" using pos by simp
    moreover have "n div 62 * (62 * q) + n mod 62 * q = n * q" for q :: nat
    proof -
      have "n div 62 * (62 * q) + n mod 62 * q = (n div 62 * 62 + n mod 62) * q" by (simp only: algebra_simps)
      then show ?thesis by simp
    qed
    ultimately show ?thesis by (simp add: dr alphabet_digit(1))
  qed
qed

lemma encode_loop_total: "n < 62 ^ k \<Longrightarrow> \<exists>r. encode_loop n k buf = Some r"
  by (induction n k buf rule: encode_loop.induct) (auto simp: less_mult_imp_div_less mult.commute)

lemma decode_loop_digits:
  "base62_digits s \<Longrightarrow> decode_loop (map of_char s) n = Inr (n * 62 ^ length s + digits_val s)"
proof (induction s arbitrary: n)
  case (Cons c s)
  then have "(of_char c :: nat) < 128" "0 \<le> base62Index (of_char c)" "base62_digits s"
    by (auto simp: base62_digits_def)
  then show ?case using Cons.IH by (simp add: digit_val_def algebra_simps)
qed simp

lemma string_runes_digits: "base62_digits s \<Longrightarrow> string_runes s = map of_char s"
  unfolding string_runes_def by (rule go_runes_ascii) (auto simp: base62_digits_def)

section \<open>Big-endian byte strings\<close>

lemma set_bytes_snoc [simp]: "set_bytes (bs @ [b]) = set_bytes bs * 256 + unat b"
  by (simp add: set_bytes_def)

lemma set_bytes_Nil [simp]: "set_bytes [] = 0"
  by (simp add: set_bytes_def)

lemma set_bytes_bound: "set_bytes bs < 256 ^ length bs"
proof (induction bs rule: rev_induct)
  case (snoc b bs)
  have "unat b < 256" using unsigned_less[of b, where ?'a = nat] by simp
  then have "set_bytes bs * 256 + unat b < (set_bytes bs + 1) * 256" by simp
  also have "\<dots> \<le> 256 ^ length bs * 256" using snoc by (intro mult_right_mono) simp_all
  finally show ?case by (simp add: mult.commute)
qed simp

lemma big_bytes_set_bytes:
  "replicate (length bs - length (big_bytes (set_bytes bs))) 0 @ big_bytes (set_bytes bs) = bs
   \<and> length (big_bytes (set_bytes bs)) \<le> length bs"
proof (induction bs rule: rev_induct)
  case (snoc b bs)
  have b: "unat b < 256" using unsigned_less[of b, where ?'a = nat] by simp
  let ?n = "set_bytes (bs @ [b])"
  show ?case
  proof (cases "?n = 0")
    case True
    then have z: "set_bytes bs = 0" "b = 0" by (auto simp: unat_eq_0)
    then have "replicate (length bs) 0 @ [0] = bs @ [b]" using snoc by (simp add: big_bytes.simps[of 0])
    then show ?thesis using z by (simp add: big_bytes.simps[of 0] replicate_append_same)
  next
    case False
    have "?n div 256 = set_bytes bs" "?n mod 256 = unat b" using b by simp_all
    then have "big_bytes ?n = big_bytes (set_bytes bs) @ [b]"
      using False by (subst big_bytes.simps) simp
    then show ?thesis using snoc by simp
  qed
qed (simp add: big_bytes.simps)

lemma Base62Encode_decode:
  assumes "Base62Encode data k = Some s"
  shows "Base62Decode s (length data) = Inr data" and "length s = k" and "base62_digits s"
proof -
  let ?z = "replicate k (base62Alphabet ! 0)"
  have z: "base62_digits ?z" using alphabet_digit(2,3)[of 0] by (simp add: base62_digits_def)
  have *: "length s = k \<and> base62_digits s \<and> digits_val s = set_bytes data"
    using encode_loop_inv[of k ?z "set_bytes data" s] assms z by (simp add: Base62Encode_def)
  then have "decode_loop (string_runes s) 0 = Inr (set_bytes data)"
    by (simp add: string_runes_digits decode_loop_digits)
  then show "Base62Decode s (length data) = Inr data"
    using big_bytes_set_bytes[of data] by (auto simp: Base62Decode_def Let_def)
  show "length s = k" "base62_digits s" using * by simp_all
qed

lemma Base62Encode_total:
  assumes "256 ^ length data \<le> (62::nat) ^ k"
  shows "\<exists>s. Base62Encode data k = Some s"
  unfolding Base62Encode_def by (rule encode_loop_total) (use set_bytes_bound[of data] assms in linarith)

lemma alphabet_index_table:
  "list_all (\<lambda>n. 0 \<le> base62Index n \<longrightarrow> of_char (base62Alphabet ! nat (base62Index n)) = n) [0..<123]"
  by (simp add: upt_rec base62Index_def base62Alphabet_def)

lemma digit_val_char:
  assumes "0 \<le> base62Index (of_char c)"
  shows "digit_val c < 62 \<and> base62Alphabet ! digit_val c = c"
proof -
  have "(of_char c :: nat) < 123" "digit_val c < 62"
    using assms by (auto simp: base62Index_def digit_val_def split: if_splits)
  then have "(of_char (base62Alphabet ! digit_val c) :: nat) = of_char c"
    using alphabet_index_table assms by (simp add: list_all_iff digit_val_def del: upt_rec_numeral)
  then show ?thesis using \<open>digit_val c < 62\<close> by simp
qed

lemma digits_val_inj:
  assumes "length s = length t" "base62_digits s" "base62_digits t" "digits_val s = digits_val t"
  shows "s = t"
  using assms
proof (induction s t rule: rev_induct2)
  case (4 c s d t)
  have lt: "digit_val c < 62" "digit_val d < 62" and ch: "base62Alphabet ! digit_val c = c" "base62Alphabet ! digit_val d = d"
    using 4(3,4) digit_val_char by (auto simp: base62_digits_def)
  have e: "digits_val s * 62 + digit_val c = digits_val t * 62 + digit_val d" using 4(5) by simp
  have "digit_val c = (digits_val s * 62 + digit_val c) mod 62" using lt by simp
  also have "\<dots> = digit_val d" unfolding e using lt by simp
  finally have c: "digit_val c = digit_val d" .
  then have "digits_val s = digits_val t" using e by simp
  then have "s = t" using 4 by (simp add: base62_digits_def)
  moreover have "c = d" using c ch by metis
  ultimately show ?case by simp
qed simp_all

lemma base62_digits_unicode: "base62_digits s \<Longrightarrow> decode_loop (string_runes s) 0 = Inr (digits_val s)"
  by (simp add: string_runes_digits decode_loop_digits)

lemma set_bytes_pad [simp]: "set_bytes (replicate k 0 @ bs) = set_bytes bs"
  by (induction k) (simp_all add: set_bytes_def)

lemma set_bytes_big_bytes [simp]: "set_bytes (big_bytes n) = n"
proof (induction n rule: big_bytes.induct)
  case (1 n)
  show ?case
  proof (cases "n = 0")
    case False
    have "unat (word_of_nat (n mod 256) :: 8 word) = n mod 256"
      by (simp add: unat_of_nat take_bit_eq_mod)
    then show ?thesis using 1[OF False] False by (subst big_bytes.simps) simp
  qed (simp add: big_bytes.simps)
qed

lemma Base62Decode_value:
  "base62_digits s \<Longrightarrow> Base62Decode s k = Inr raw \<Longrightarrow> length raw = k \<and> set_bytes raw = digits_val s"
  by (auto simp: Base62Decode_def base62_digits_unicode Let_def split: if_splits)

lemma checksum_length:
  "(\<And>k m. length (hmac k m) = 32) \<Longrightarrow> length (ComputeAPIKeyChecksum hmac e r) = APIKeyChecksumLen"
  by (simp add: ComputeAPIKeyChecksum_def APIKeyChecksumLen_def)

lemma key_capacity: "length bs = 36 \<Longrightarrow> 256 ^ length bs \<le> (62::nat) ^ APIKeyBodyLen"
  by (simp add: APIKeyBodyLen_def)

lemmas api_key_lens = APIKeyRandomLen_def APIKeyChecksumLen_def

section \<open>Properties\<close>

text \<open>Base62 is a lossless fixed-length code: if the data fits the length (256^|data| at most
  62^k), Base62Encode does not panic, produces exactly k characters, all of the alphabet, and
  Base62Decode returns the original bytes, leading zero bytes included.\<close>
lemma base62_roundtrip:
  assumes "256 ^ length data \<le> (62::nat) ^ k"
  shows "\<exists>s. Base62Encode data k = Some s \<and> length s = k \<and> base62_digits s
    \<and> Base62Decode s (length data) = Inr data"
  using Base62Encode_total[OF assms] Base62Encode_decode by blast

lemma base62_roundtrip_witness:
  "\<exists>s. Base62Encode [0, 255, 7] 6 = Some s \<and> length s = 6 \<and> base62_digits s
    \<and> Base62Decode s (length [0, 255, 7 :: 8 word]) = Inr [0, 255, 7]"
  using base62_roundtrip[of "[0, 255, 7]" 6] by simp

text \<open>A key minted by handleCreateKey is always well formed and accepted: for 32 random bytes the
  encoding never panics, the key is ms- followed by 49 base62 characters, and
  ValidateAPIKeyChecksum accepts its body under the same encryption key. The only fact used of
  HMAC-SHA256 is that its output has 32 bytes.\<close>
lemma generated_key_validates:
  assumes "\<And>k m. length (hmac k m) = 32" and "length randomBytes = APIKeyRandomLen"
  shows "\<exists>body. generate_key hmac encKey randomBytes = Some (APIKeyPrefix @ body)
    \<and> length body = APIKeyBodyLen \<and> base62_digits body
    \<and> ValidateAPIKeyChecksum hmac encKey body"
proof -
  let ?raw = "randomBytes @ ComputeAPIKeyChecksum hmac encKey randomBytes"
  have len: "length ?raw = 36" using assms checksum_length[of hmac] by (simp add: api_key_lens)
  obtain body where b: "Base62Encode ?raw APIKeyBodyLen = Some body"
    using Base62Encode_total[OF key_capacity[OF len]] by blast
  have "Base62Decode body 36 = Inr ?raw" using Base62Encode_decode(1)[OF b] len by simp
  then have "ValidateAPIKeyChecksum hmac encKey body"
    using assms(2) by (simp add: ValidateAPIKeyChecksum_def api_key_lens)
  then show ?thesis using Base62Encode_decode(2,3)[OF b] b by (simp add: generate_key_def)
qed

lemma generated_key_validates_witness:
  "\<exists>body. generate_key (\<lambda>k m. replicate 32 (of_nat (length m))) [1, 2] (replicate 32 9)
      = Some (APIKeyPrefix @ body)
    \<and> length body = APIKeyBodyLen \<and> base62_digits body
    \<and> ValidateAPIKeyChecksum (\<lambda>k m. replicate 32 (of_nat (length m))) [1, 2] body"
  by (rule generated_key_validates) (simp_all add: api_key_lens)



text \<open>The AES-GCM envelope of upstream secrets round-trips: whenever Encrypt succeeds, Decrypt under
  the same key returns the plaintext. Relied on of the standard library: a random read returns as
  many bytes as asked for, and Open inverts Seal under the same nonce.\<close>
lemma Encrypt_Decrypt:
  assumes "\<And>n r. readRand n = Some r \<Longrightarrow> length r = n"
    and "\<And>g n p. newGCM key = Some g \<Longrightarrow> unseal g n (seal g n p) = Some p"
    and "Encrypt newGCM readRand key plaintext = Inr c"
  shows "Decrypt newGCM key c = Inr plaintext"
  using assms by (fastforce simp: Encrypt_def Decrypt_def split: option.splits)

lemma Encrypt_Decrypt_witness:
  "Decrypt (\<lambda>k. Some \<lparr>seal = (\<lambda>n p. map ((+) 1) p), unseal = (\<lambda>n c. Some (map (\<lambda>x. x - 1) c)), nonceSize = 2\<rparr>)
     [5] [0, 0, 8, 9] = Inr [7, 8]"
  by (rule Encrypt_Decrypt[where readRand = "\<lambda>n. Some (replicate n 0)"])
    (auto simp: Encrypt_def comp_def numeral_2_eq_2)

text \<open>Base62Decode truncates each rune to its low byte before looking it up, so it accepts strings
  outside the alphabet: the two-byte UTF-8 string of U+0130 decodes like the digit 0, and both
  decode to the same byte. The API-key path is protected only by the isBase62 check of its caller.\<close>
lemma base62_decode_accepts_foreign_rune:
  "Base62Decode [CHR 0xC4, CHR 0xB0] 1 = Base62Decode ''0'' 1
    \<and> Base62Decode ''0'' 1 = Inr [0] \<and> \<not> base62_digits [CHR 0xC4, CHR 0xB0]"
  by (simp add: Base62Decode_def string_runes_def decode_rune_def utf8_bounds_def utf8_cont_def
      base62Index_def big_bytes.simps base62_digits_def)

end
