(* ===== verification/GoFloat.thy ===== *)
theory GoFloat
  imports Prelude Complex_Main
begin

text \<open>
  Go float64 arithmetic. A finite float64 is modelled by the rational it denotes; each operation
  computes the exact result and rounds it to 53 significant bits, ties to even, as IEEE 754 double
  precision does. The exponent is unbounded here: infinities, NaN, subnormal rounding and the sign
  of zero are not represented (credit rates, token counts and prices are many orders of magnitude
  away from 2^1024 and 2^-1022). Rounding is shown monotone and exact on small integers.
\<close>

type_synonym float64 = rat

fun bitlen :: "nat \<Rightarrow> nat" where
  "bitlen n = (if n = 0 then 0 else Suc (bitlen (n div 2)))"

declare bitlen.simps [simp del]

definition pow2 :: "int \<Rightarrow> rat" where
  "pow2 e = (if 0 \<le> e then 2 ^ nat e else 1 / 2 ^ nat (- e))"

text \<open>The binary exponent of a positive x: pow2 e <= x < pow2 (e + 1).\<close>
definition exponent :: "rat \<Rightarrow> int" where
  "exponent x = (if 1 \<le> x then int (bitlen (nat \<lfloor>x\<rfloor>)) - 1 else - int (bitlen (nat (\<lceil>1 / x\<rceil> - 1))))"

definition round_even :: "rat \<Rightarrow> int" where
  "round_even x =
     (let f = \<lfloor>x\<rfloor>; d = x - of_int f in
      if d < 1 / 2 then f else if 1 / 2 < d then f + 1 else if even f then f else f + 1)"

definition round_pos :: "rat \<Rightarrow> rat" where
  "round_pos x = of_int (round_even (x / pow2 (exponent x - 52))) * pow2 (exponent x - 52)"

definition round64 :: "rat \<Rightarrow> float64" where
  "round64 x = (if 0 < x then round_pos x else if x < 0 then - round_pos (- x) else 0)"

definition fadd :: "float64 \<Rightarrow> float64 \<Rightarrow> float64" where "fadd x y = round64 (x + y)"
definition fsub :: "float64 \<Rightarrow> float64 \<Rightarrow> float64" where "fsub x y = round64 (x - y)"
definition fmul :: "float64 \<Rightarrow> float64 \<Rightarrow> float64" where "fmul x y = round64 (x * y)"
definition fdiv :: "float64 \<Rightarrow> float64 \<Rightarrow> float64" where "fdiv x y = round64 (x / y)"

text \<open>float64(n) of an int64.\<close>
definition float_of :: "int \<Rightarrow> float64" where "float_of n = round64 (of_int n)"

text \<open>int64(x): truncation towards zero; out of range it yields the minimum int64, as amd64 does.\<close>
definition int_of_float :: "float64 \<Rightarrow> int" where
  "int_of_float x = (let t = (if 0 \<le> x then \<lfloor>x\<rfloor> else \<lceil>x\<rceil>) in if is_i64 t then t else int64_min)"

section \<open>The exponent\<close>

lemma bitlen_bounds: "0 < n \<Longrightarrow> 2 ^ (bitlen n - 1) \<le> n \<and> n < 2 ^ bitlen n \<and> 0 < bitlen n"
proof (induction n rule: bitlen.induct)
  case (1 n)
  show ?case
  proof (cases "n div 2 = 0")
    case True
    then have "n = 1" using 1(2) by auto
    then show ?thesis by (simp add: bitlen.simps)
  next
    case False
    with 1 have IH: "2 ^ (bitlen (n div 2) - 1) \<le> n div 2" "n div 2 < 2 ^ bitlen (n div 2)" "0 < bitlen (n div 2)"
      by auto
    then obtain k where k: "bitlen (n div 2) = Suc k" by (cases "bitlen (n div 2)") auto
    have "bitlen n = Suc (Suc k)" using 1(2) k by (simp add: bitlen.simps[of n])
    then show ?thesis using IH k by auto
  qed
qed

lemma pow2_pos [simp]: "0 < pow2 e" "pow2 e \<noteq> 0" "0 \<le> pow2 e"
  by (simp_all add: pow2_def)

lemma pow2_powi: "pow2 e = 2 powi e"
  by (simp add: pow2_def power_int_def power_one_over inverse_eq_divide)

lemma pow2_add: "pow2 (a + b) = pow2 a * pow2 b"
  by (simp add: pow2_powi power_int_add)

lemma pow2_mono: "a \<le> b \<Longrightarrow> pow2 a \<le> pow2 b"
  by (simp add: pow2_powi power_int_increasing)

lemma pow2_nat [simp]: "pow2 (int n) = 2 ^ n" "pow2 52 = 4503599627370496" "pow2 53 = 9007199254740992"
  by (simp_all add: pow2_def)

lemma exponent_bounds:
  assumes "0 < x"
  shows "pow2 (exponent x) \<le> x \<and> x < pow2 (exponent x + 1)"
proof (cases "1 \<le> x")
  case True
  let ?n = "nat \<lfloor>x\<rfloor>"
  have n: "0 < ?n" "of_nat ?n \<le> x" "x < of_nat ?n + 1" using True by (auto simp: of_nat_nat) linarith
  obtain k where k: "bitlen ?n = Suc k" using bitlen_bounds[OF n(1)] by (cases "bitlen ?n") auto
  have b: "2 ^ k \<le> ?n" "?n + 1 \<le> 2 ^ Suc k" using bitlen_bounds[OF n(1)] k by auto
  have "(of_nat (2 ^ k) :: rat) \<le> of_nat ?n" "(of_nat (?n + 1) :: rat) \<le> of_nat (2 ^ Suc k)"
    using b by (simp_all only: of_nat_le_iff)
  then have r: "(2::rat) ^ k \<le> x" "x < 2 ^ Suc k" using n(2,3) by (simp_all only: of_nat_power of_nat_numeral of_nat_add of_nat_1)
  have "exponent x = int k" "exponent x + 1 = int (Suc k)" using True k by (simp_all add: exponent_def)
  then show ?thesis using r by (simp only: pow2_nat)
next
  case False
  let ?m = "nat (\<lceil>1 / x\<rceil> - 1)"
  have x1: "1 < 1 / x" using False assms by simp
  then have m: "0 < ?m" "of_nat ?m < 1 / x" "1 / x \<le> of_nat ?m + 1" by (auto simp: of_nat_nat) linarith+
  obtain k where k: "bitlen ?m = Suc k" using bitlen_bounds[OF m(1)] by (cases "bitlen ?m") auto
  have b: "2 ^ k \<le> ?m" "?m + 1 \<le> 2 ^ Suc k" using bitlen_bounds[OF m(1)] k by auto
  have "(of_nat (2 ^ k) :: rat) \<le> of_nat ?m" "(of_nat (?m + 1) :: rat) \<le> of_nat (2 ^ Suc k)"
    using b by (simp_all only: of_nat_le_iff)
  then have r: "(2::rat) ^ k < 1 / x" "1 / x \<le> 2 ^ Suc k"
    using m(2,3) by (simp_all only: of_nat_power of_nat_numeral of_nat_add of_nat_1)
  have e: "exponent x = - int (Suc k)" using False k by (simp add: exponent_def)
  have "pow2 (- int (Suc k)) = 1 / 2 ^ Suc k" by (simp add: pow2_def nat_add_distrib)
  moreover have "pow2 (- int (Suc k) + 1) = 1 / 2 ^ k" by (simp add: pow2_def)
  moreover have "1 / 2 ^ Suc k \<le> x" "x < 1 / 2 ^ k" using r assms by (simp_all add: field_simps)
  ultimately show ?thesis unfolding e by simp
qed

lemma exponent_unique:
  assumes "0 < x" "pow2 e \<le> x" "x < pow2 (e + 1)"
  shows "exponent x = e"
proof (rule ccontr)
  assume "exponent x \<noteq> e"
  then consider "exponent x + 1 \<le> e" | "e + 1 \<le> exponent x" by linarith
  then show False
    using exponent_bounds[OF assms(1)] assms(2,3) pow2_mono[of "exponent x + 1" e] pow2_mono[of "e + 1" "exponent x"]
    by cases auto
qed

section \<open>Rounding is monotone\<close>

lemma round_even_floor: "\<lfloor>x\<rfloor> \<le> round_even x \<and> round_even x \<le> \<lfloor>x\<rfloor> + 1"
  by (simp add: round_even_def Let_def)

lemma round_even_of_int [simp]: "round_even (of_int n) = n"
  by (simp add: round_even_def)

lemma round_even_mono:
  assumes "x \<le> y"
  shows "round_even x \<le> round_even y"
proof (cases "\<lfloor>x\<rfloor> = \<lfloor>y\<rfloor>")
  case True
  have "x - of_int \<lfloor>x\<rfloor> \<le> y - of_int \<lfloor>y\<rfloor>" using assms True by simp
  then show ?thesis using True by (auto simp: round_even_def Let_def)
next
  case False
  then have "\<lfloor>x\<rfloor> + 1 \<le> \<lfloor>y\<rfloor>" using floor_mono[OF assms] by linarith
  then show ?thesis using round_even_floor[of x] round_even_floor[of y] by linarith
qed

lemma round_pos_bounds:
  assumes "0 < x"
  shows "pow2 (exponent x) \<le> round_pos x \<and> round_pos x \<le> pow2 (exponent x + 1)"
proof -
  let ?s = "pow2 (exponent x - 52)"
  have s: "pow2 (exponent x) = pow2 52 * ?s" "pow2 (exponent x + 1) = pow2 53 * ?s"
    by (simp_all only: pow2_add[symmetric] add_diff_cancel_left) (simp_all add: algebra_simps)
  have "pow2 52 \<le> x / ?s" "x / ?s \<le> pow2 53"
    using exponent_bounds[OF assms] unfolding s by (simp_all only: pos_le_divide_eq pos_divide_le_eq pow2_pos) (simp_all add: less_imp_le)
  then have "round_even (of_int 4503599627370496) \<le> round_even (x / ?s)"
      "round_even (x / ?s) \<le> round_even (of_int 9007199254740992)"
    by (intro round_even_mono, simp)+
  then have "(4503599627370496::rat) \<le> of_int (round_even (x / ?s))" "of_int (round_even (x / ?s)) \<le> (9007199254740992::rat)"
    unfolding round_even_of_int by linarith+
  then show ?thesis unfolding round_pos_def s by (simp add: mult_right_mono)
qed

lemma round_pos_mono:
  assumes "0 < x" "x \<le> y"
  shows "round_pos x \<le> round_pos y"
proof -
  have y: "0 < y" using assms by linarith
  have "\<not> exponent y + 1 \<le> exponent x"
    using exponent_bounds[OF assms(1)] exponent_bounds[OF y] pow2_mono[of "exponent y + 1" "exponent x"] assms(2)
    by linarith
  then consider "exponent x = exponent y" | "exponent x + 1 \<le> exponent y" by linarith
  then show ?thesis
  proof cases
    case 1
    have "x / pow2 (exponent y - 52) \<le> y / pow2 (exponent y - 52)" using assms by (simp add: divide_right_mono)
    then show ?thesis unfolding round_pos_def 1 using round_even_mono by (simp add: mult_right_mono)
  next
    case 2
    then show ?thesis using round_pos_bounds[OF assms(1)] round_pos_bounds[OF y] pow2_mono[OF 2] by linarith
  qed
qed

lemma round64_pos [simp, intro]: "0 < x \<Longrightarrow> 0 < round64 x"
proof -
  assume x: "0 < x"
  have "0 < round_pos x" using round_pos_bounds[OF x] pow2_pos(1)[of "exponent x"] by linarith
  then show ?thesis using x by (simp add: round64_def)
qed

lemma round64_nonneg [simp, intro]: "0 \<le> x \<Longrightarrow> 0 \<le> round64 x"
  using round64_pos[of x] by (cases "x = 0") (simp_all add: round64_def)

lemma round64_mono: "x \<le> y \<Longrightarrow> round64 x \<le> round64 y"
proof -
  assume xy: "x \<le> y"
  show ?thesis
  proof (cases "0 < x")
    case True then show ?thesis using xy round_pos_mono by (simp add: round64_def)
  next
    case False
    show ?thesis
    proof (cases "0 \<le> y")
      case True
      have "round64 x \<le> 0"
      proof (cases "x < 0")
        case True
        then have "0 < round_pos (- x)" using round_pos_bounds[of "- x"] pow2_pos(1)[of "exponent (- x)"] by linarith
        then show ?thesis using True by (simp add: round64_def)
      qed (use False in \<open>simp add: round64_def\<close>)
      then show ?thesis using round64_nonneg[OF True] by linarith
    next
      case neg: False
      then show ?thesis using xy round_pos_mono[of "- y" "- x"] by (simp add: round64_def)
    qed
  qed
qed

lemma round64_0 [simp]: "round64 0 = 0"
  by (simp add: round64_def)

lemma round64_minus: "round64 (- x) = - round64 x"
  by (simp add: round64_def)

section \<open>Integers up to 2^53 are exact\<close>

lemma round_pos_of_int:
  assumes "0 < n" "n \<le> 9007199254740992"
  shows "round_pos (of_int n) = of_int n"
proof -
  let ?x = "of_int n :: rat" let ?e = "exponent ?x"
  have x: "0 < ?x" using assms by simp
  have "?e \<le> 53"
  proof (rule ccontr)
    assume "\<not> ?e \<le> 53"
    then have "pow2 54 \<le> pow2 ?e" by (intro pow2_mono) simp
    moreover have "pow2 54 = 18014398509481984" by (simp add: pow2_def)
    ultimately show False using exponent_bounds[OF x] assms(2) by linarith
  qed
  then consider "?e = 53" | "?e - 52 \<le> 0" by linarith
  then show ?thesis
  proof cases
    case 1
    then have "9007199254740992 \<le> ?x" using exponent_bounds[OF x] by simp
    then have "n = 2 * 4503599627370496" using assms by linarith
    then show ?thesis using 1 round_even_of_int[of 4503599627370496] by (simp add: round_pos_def pow2_def)
  next
    case 2
    define k where "k = nat (52 - ?e)"
    have p: "pow2 (?e - 52) = 1 / 2 ^ k" using 2 by (auto simp: pow2_def k_def)
    have "?x / pow2 (?e - 52) = of_int (n * 2 ^ k)" by (simp add: p)
    then show ?thesis unfolding round_pos_def by (simp only: round_even_of_int) (simp add: p)
  qed
qed

lemma round64_of_int: "\<bar>n\<bar> \<le> 9007199254740992 \<Longrightarrow> round64 (of_int n) = of_int n"
  using round_pos_of_int[of n] round_pos_of_int[of "- n"] by (auto simp: round64_def)

lemma float_of_exact: "\<bar>n\<bar> \<le> 9007199254740992 \<Longrightarrow> float_of n = of_int n"
  by (simp add: float_of_def round64_of_int)

section \<open>The operations\<close>

lemma float_of_nonneg [simp]: "0 \<le> n \<Longrightarrow> 0 \<le> float_of n"
  by (simp add: float_of_def)

lemma float_of_mono: "m \<le> n \<Longrightarrow> float_of m \<le> float_of n"
  by (simp add: float_of_def round64_mono)

lemma float_of_0 [simp]: "float_of 0 = 0"
  by (simp add: float_of_def)

lemma fadd_nonneg [simp]: "0 \<le> x \<Longrightarrow> 0 \<le> y \<Longrightarrow> 0 \<le> fadd x y"
  by (simp add: fadd_def)

lemma fmul_nonneg [simp]: "0 \<le> x \<Longrightarrow> 0 \<le> y \<Longrightarrow> 0 \<le> fmul x y"
  by (simp add: fmul_def)

lemma fadd_mono: "x \<le> x' \<Longrightarrow> y \<le> y' \<Longrightarrow> fadd x y \<le> fadd x' y'"
  by (simp add: fadd_def round64_mono)

lemma fmul_mono: "0 \<le> x \<Longrightarrow> x \<le> x' \<Longrightarrow> 0 \<le> y \<Longrightarrow> y \<le> y' \<Longrightarrow> fmul x y \<le> fmul x' y'"
  unfolding fmul_def by (intro round64_mono mult_mono) auto

lemma fmul_0 [simp]: "fmul 0 y = 0" "fmul x 0 = 0"
  by (simp_all add: fmul_def)

text \<open>The rationals that are float64 values: the fixed points of rounding.\<close>
definition is_float64 :: "rat \<Rightarrow> bool" where "is_float64 x = (round64 x = x)"

lemma is_float64_of_int [simp]: "\<bar>n\<bar> \<le> 9007199254740992 \<Longrightarrow> is_float64 (of_int n)"
  by (simp add: is_float64_def round64_of_int)

lemma fmul_ge:
  assumes "is_float64 x" "0 \<le> x" "1 \<le> m"
  shows "x \<le> fmul x m"
proof -
  have "x * 1 \<le> x * m" using assms by (intro mult_left_mono) auto
  then have "round64 x \<le> round64 (x * m)" by (intro round64_mono) simp
  then show ?thesis using assms(1) by (simp add: is_float64_def fmul_def)
qed

lemmas go_float_ops = fadd_def fsub_def fmul_def fdiv_def float_of_def

end
