(* ===== verification/Types.thy ===== *)
theory Types
  imports GoFloat
begin

text \<open>
  Package types: the shared data model. Structs are records with the source's fields (the
  CreatedAt/UpdatedAt timestamps and display-only fields that no modelled operation reads are left
  out), string enumerations keep their string values, time.Time and time.Duration are integers
  counting nanoseconds, pointers that may be nil are options, maps read by key are HOL maps.
\<close>

type_synonym go_time = int
type_synonym duration = int

section \<open>Enumerations\<close>

abbreviation (input) ClientBucketOther :: string where "ClientBucketOther \<equiv> ''other''"

definition AllClientBuckets :: "string list" where
  "AllClientBuckets = [''claude-code-cli'', ''claude-desktop'', ''codex-cli'', ''codex-desktop'', ''other'']"

definition IsValidClientBucket :: "string \<Rightarrow> bool" where
  "IsValidClientBucket s = list_ex (\<lambda>b. b = s) AllClientBuckets"

definition MapClientKindToBucket :: "string \<Rightarrow> string" where
  "MapClientKindToBucket kind =
     (if kind = ''claude-code'' then ''claude-code-cli''
      else if kind = ''claude-desktop'' then ''claude-desktop''
      else if kind = ''codex'' then ''codex-cli''
      else ClientBucketOther)"

definition AllRequestKinds :: "string list" where
  "AllRequestKinds = [''anthropic_messages'', ''anthropic_count_tokens'', ''openai_chat_completions'',
     ''openai_responses'', ''openai_responses_websocket'', ''openai_responses_compact'',
     ''openai_images_generations'', ''openai_images_edits'', ''google_generate_content'']"

definition IsValidRequestKind :: "string \<Rightarrow> bool" where
  "IsValidRequestKind s = list_ex (\<lambda>k. k = s) AllRequestKinds"

definition AllProviders :: "string list" where
  "AllProviders = [''anthropic'', ''openai'', ''gemini'', ''bedrock-anthropic'', ''bedrock-openai'',
     ''claudecode'', ''vertex-anthropic'', ''vertex-google'', ''vertex-openai'', ''codex'']"

definition IsValidProvider :: "string \<Rightarrow> bool" where
  "IsValidProvider s = list_ex (\<lambda>p. p = s) AllProviders"

definition IsValidProjectRole :: "string \<Rightarrow> bool" where
  "IsValidProjectRole role = (role = ''owner'' \<or> role = ''maintainer'' \<or> role = ''developer'')"

lemma MapClientKindToBucket_valid [simp]: "IsValidClientBucket (MapClientKindToBucket k)"
  by (simp add: IsValidClientBucket_def AllClientBuckets_def MapClientKindToBucket_def)

section \<open>Pagination (common.go)\<close>

record PaginationParams =
  Page :: int
  PerPage :: int
  SortBy :: string
  OrderDir :: string

definition DefaultPagination :: PaginationParams where
  "DefaultPagination = \<lparr>Page = 1, PerPage = 20, SortBy = ''created_at'', OrderDir = ''desc''\<rparr>"

definition Offset :: "PaginationParams \<Rightarrow> int" where
  "Offset p = i64 (i64 (Page p - 1) * PerPage p)"

definition Limit :: "PaginationParams \<Rightarrow> int" where
  "Limit p = (if PerPage p > 100 then 100 else if PerPage p \<le> 0 then 20 else PerPage p)"

section \<open>Policies and credit rates (policy.go)\<close>

record LongContextCreditRate =
  ThresholdInputTokens :: int
  InputMultiplier :: float64
  OutputMultiplier :: float64

record CreditRate =
  InputRate :: float64
  OutputRate :: float64
  CacheCreationRate :: float64
  CacheReadRate :: float64
  LongContext :: "LongContextCreditRate option"

record ImageCreditRate =
  TextInputRate :: float64
  TextCachedInputRate :: float64
  TextOutputRate :: float64
  ImageInputRate :: float64
  ImageCachedInputRate :: float64
  ImageOutputRate :: float64

record CreditRule =
  Window :: string
  WindowType :: string
  MaxCredits :: int
  Scope :: string
  AnchorTime :: "go_time option"

record ClassicRule =
  Metric :: string
  RuleLimit :: int
  PerModel :: bool

record RateLimitPolicy =
  policy_ID :: string
  policy_ProjectID :: string
  policy_Name :: string
  policy_CreditRules :: "CreditRule list"
  policy_ModelCreditRates :: "string \<rightharpoonup> CreditRate"
  policy_ClientModelCreditRates :: "string \<rightharpoonup> (string \<rightharpoonup> CreditRate)"
  policy_ClassicRules :: "ClassicRule list"
  policy_StartsAt :: "go_time option"
  policy_ExpiresAt :: "go_time option"

text \<open>The clock is read once; \<^term>\<open>now\<close> is its reading.\<close>
definition policy_IsActive :: "RateLimitPolicy \<Rightarrow> go_time \<Rightarrow> bool" where
  "policy_IsActive p now =
     (if (case policy_StartsAt p of Some s \<Rightarrow> now < s | None \<Rightarrow> False) then False
      else if (case policy_ExpiresAt p of Some e \<Rightarrow> now > e | None \<Rightarrow> False) then False
      else True)"

definition EffectiveScope :: "CreditRule \<Rightarrow> string" where
  "EffectiveScope r = (if Scope r = '''' then ''project'' else Scope r)"

definition ApplyLongContextCreditRate :: "CreditRate \<Rightarrow> int \<Rightarrow> CreditRate" where
  "ApplyLongContextCreditRate rate totalInputTokens =
     (case LongContext rate of
        None \<Rightarrow> rate
      | Some lc \<Rightarrow>
          if ThresholdInputTokens lc \<le> 0 \<or> totalInputTokens \<le> ThresholdInputTokens lc
             \<or> InputMultiplier lc \<le> 0 \<or> OutputMultiplier lc \<le> 0
          then rate
          else rate\<lparr>InputRate := fmul (InputRate rate) (InputMultiplier lc),
                    CacheCreationRate := fmul (CacheCreationRate rate) (InputMultiplier lc),
                    CacheReadRate := fmul (CacheReadRate rate) (InputMultiplier lc),
                    OutputRate := fmul (OutputRate rate) (OutputMultiplier lc)\<rparr>)"

text \<open>The arithmetic at the end of ComputeCreditsForClient, on the resolved rate.\<close>
definition rate_credits :: "CreditRate \<Rightarrow> int \<Rightarrow> int \<Rightarrow> int \<Rightarrow> int \<Rightarrow> float64" where
  "rate_credits rate0 inputTokens outputTokens cacheCreationTokens cacheReadTokens =
     (let rate = ApplyLongContextCreditRate rate0 (i64 (i64 (inputTokens + cacheCreationTokens) + cacheReadTokens)) in
      fadd (fadd (fadd (fmul (InputRate rate) (float_of inputTokens))
                       (fmul (OutputRate rate) (float_of outputTokens)))
                 (fmul (CacheCreationRate rate) (float_of cacheCreationTokens)))
           (fmul (CacheReadRate rate) (float_of cacheReadTokens)))"

definition resolve_rate :: "RateLimitPolicy \<Rightarrow> string \<Rightarrow> string \<Rightarrow> CreditRate option \<Rightarrow> CreditRate option" where
  "resolve_rate p model client catalogDefault =
     (let step1 = (if client \<noteq> '''' then
                     (case policy_ClientModelCreditRates p client of
                        Some perClient \<Rightarrow> perClient model
                      | None \<Rightarrow> None)
                   else None);
          step2 = (case step1 of Some r \<Rightarrow> Some r | None \<Rightarrow> policy_ModelCreditRates p model);
          step3 = (case step2 of Some r \<Rightarrow> Some r | None \<Rightarrow> catalogDefault);
          step4 = (case step3 of Some r \<Rightarrow> Some r | None \<Rightarrow> policy_ModelCreditRates p ''_default'')
      in step4)"

definition ComputeCreditsForClient ::
  "RateLimitPolicy \<Rightarrow> string \<Rightarrow> string \<Rightarrow> CreditRate option \<Rightarrow> int \<Rightarrow> int \<Rightarrow> int \<Rightarrow> int \<Rightarrow> float64" where
  "ComputeCreditsForClient p model client catalogDefault inputTokens outputTokens cacheCreationTokens cacheReadTokens =
     (case resolve_rate p model client catalogDefault of
        None \<Rightarrow> 0
      | Some rate \<Rightarrow> rate_credits rate inputTokens outputTokens cacheCreationTokens cacheReadTokens)"

definition ComputeCredits :: "RateLimitPolicy \<Rightarrow> string \<Rightarrow> int \<Rightarrow> int \<Rightarrow> int \<Rightarrow> int \<Rightarrow> float64" where
  "ComputeCredits p model i out cc cr = ComputeCreditsForClient p model '''' None i out cc cr"

definition ComputeCreditsWithDefault ::
  "RateLimitPolicy \<Rightarrow> string \<Rightarrow> CreditRate option \<Rightarrow> int \<Rightarrow> int \<Rightarrow> int \<Rightarrow> int \<Rightarrow> float64" where
  "ComputeCreditsWithDefault p model d i out cc cr = ComputeCreditsForClient p model '''' d i out cc cr"

section \<open>Subscriptions and plans (policy.go, plan.go)\<close>

record Subscription =
  sub_ID :: string
  sub_ProjectID :: string
  sub_PlanID :: string
  sub_PlanName :: string
  sub_Status :: string
  sub_StartsAt :: go_time
  sub_ExpiresAt :: go_time
  sub_Currency :: string

definition sub_IsActive :: "Subscription \<Rightarrow> go_time \<Rightarrow> bool" where
  "sub_IsActive s now = (sub_Status s = ''active'' \<and> \<not> now < sub_StartsAt s \<and> \<not> now > sub_ExpiresAt s)"

record Plan =
  plan_ID :: string
  plan_Name :: string
  plan_Slug :: string
  plan_TierLevel :: int
  plan_GroupTag :: string
  plan_PriceCNYFen :: int
  plan_PriceUSDCents :: int
  plan_PeriodMonths :: int
  plan_CreditRules :: "CreditRule list"
  plan_ModelCreditRates :: "string \<rightharpoonup> CreditRate"
  plan_ClientModelCreditRates :: "string \<rightharpoonup> (string \<rightharpoonup> CreditRate)"
  plan_ClassicRules :: "ClassicRule list"
  plan_IsActive :: bool

definition plan_IsFree :: "Plan \<Rightarrow> bool" where
  "plan_IsFree p = (plan_PriceCNYFen p = 0 \<and> plan_PriceUSDCents p = 0)"

definition ToPolicy :: "Plan \<Rightarrow> string \<Rightarrow> go_time option \<Rightarrow> RateLimitPolicy" where
  "ToPolicy p projectID subscriptionStartsAt =
     \<lparr>policy_ID = ''plan:'' @ plan_ID p, policy_ProjectID = projectID, policy_Name = plan_Name p,
      policy_CreditRules =
        (case subscriptionStartsAt of
           None \<Rightarrow> plan_CreditRules p
         | Some t \<Rightarrow> map (\<lambda>r. if WindowType r = ''fixed'' then r\<lparr>AnchorTime := Some t\<rparr> else r)
                       (plan_CreditRules p)),
      policy_ModelCreditRates = plan_ModelCreditRates p,
      policy_ClientModelCreditRates = plan_ClientModelCreditRates p,
      policy_ClassicRules = plan_ClassicRules p,
      policy_StartsAt = None, policy_ExpiresAt = None\<rparr>"

section \<open>Upstreams, groups and routes (upstream.go, upstream_group.go, route.go)\<close>

record Upstream =
  up_ID :: string
  up_Provider :: string
  up_Name :: string
  up_BaseURL :: string
  up_APIKeyEncrypted :: "8 word list"
  up_ProxyMode :: string
  up_SocksProxyURL :: string
  up_SupportedModels :: "string list"
  up_ModelMap :: "(string \<rightharpoonup> string) option"
  up_Weight :: int
  up_MaxConcurrent :: int
  up_ReadTimeout :: duration
  up_TestModel :: string
  up_Status :: string

definition EffectiveProxyMode :: "Upstream \<Rightarrow> string" where
  "EffectiveProxyMode u = (if up_ProxyMode u = '''' then ''environment'' else up_ProxyMode u)"

definition ResolveModel :: "Upstream \<Rightarrow> string \<Rightarrow> string" where
  "ResolveModel u requestModel =
     (case up_ModelMap u of
        None \<Rightarrow> requestModel
      | Some m \<Rightarrow> (case m requestModel of Some mapped \<Rightarrow> mapped | None \<Rightarrow> requestModel))"

record RetryPolicy =
  MaxRetries :: int
  RetryOn :: "string list"
  RetryDelay :: duration

record UpstreamGroup =
  grp_ID :: string
  grp_Name :: string
  grp_LBPolicy :: string
  grp_RetryPolicy :: "RetryPolicy option"
  grp_Status :: string

record UpstreamGroupMember =
  mem_UpstreamGroupID :: string
  mem_UpstreamID :: string
  mem_Weight :: "int option"
  mem_IsBackup :: bool

record Route =
  route_ID :: string
  route_ProjectID :: string
  route_ModelNames :: "string list"
  route_RequestKinds :: "string list"
  route_Clients :: "string list"
  route_UpstreamGroupID :: string
  route_MatchPriority :: int
  route_Conditions :: "string \<rightharpoonup> string"
  route_Status :: string

section \<open>Catalog models (model.go)\<close>

record ModelMetadata =
  ContextWindow :: int
  Capabilities :: "string list"
  ProviderHint :: string
  Icon :: string
  Category :: string
  ReplacedBy :: string
  ExtraUsageOnly :: bool

record Model =
  model_Name :: string
  model_DisplayName :: string
  model_Description :: string
  model_Aliases :: "string list"
  model_DefaultCreditRate :: "CreditRate option"
  model_DefaultImageCreditRate :: "ImageCreditRate option"
  model_Status :: string
  model_Publisher :: string
  model_Metadata :: ModelMetadata

section \<open>Tenancy: keys, projects, users (apikey.go, project.go, user.go)\<close>

record APIKey =
  key_ID :: string
  key_ProjectID :: string
  key_CreatedBy :: string
  key_KeyHash :: string
  key_KeySuffix :: string
  key_Name :: string
  key_Status :: string
  key_AllowedModels :: "string list"
  key_ExpiresAt :: "go_time option"

record Project =
  proj_ID :: string
  proj_Name :: string
  proj_CreatedBy :: string
  proj_Status :: string
  proj_BillingTags :: "string list"

record User =
  user_ID :: string
  user_Email :: string
  user_IsSuperadmin :: bool
  user_MaxProjects :: int
  user_Status :: string

record ProjectMember =
  member_UserID :: string
  member_ProjectID :: string
  member_Role :: string
  member_CreditQuotaPct :: "float64 option"
  member_DeniedModels :: "string list"

section \<open>Orders and the extra-usage ledger (order.go, extra_usage.go)\<close>

record Order =
  order_ID :: string
  order_ProjectID :: string
  order_PlanID :: string
  order_Periods :: int
  order_UnitPrice :: int
  order_Amount :: int
  order_Currency :: string
  order_Status :: string
  order_Channel :: string
  order_PaymentRef :: string
  order_PaymentURL :: string
  order_ExistingSubscriptionID :: string
  order_Metadata :: string
  order_OrderType :: string
  order_ExtraUsageAmountCredits :: int
  order_CreatedAt :: go_time

record ExtraUsageSettings =
  eus_ProjectID :: string
  eus_Enabled :: bool
  eus_BalanceCredits :: int
  eus_MonthlyLimitCredits :: int
  eus_BypassBalanceCheck :: bool

record ExtraUsageTransaction =
  eut_ProjectID :: string
  eut_Type :: string
  eut_AmountCredits :: int
  eut_BalanceAfterCredits :: int
  eut_RequestID :: string
  eut_OrderID :: string
  eut_Reason :: string
  eut_Description :: string
  eut_CreatedAt :: go_time

record TokenUsage =
  tu_InputTokens :: int
  tu_OutputTokens :: int
  tu_CacheCreationTokens :: int
  tu_CacheReadTokens :: int

section \<open>Rates: sign, precedence and monotonicity\<close>

text \<open>A rate as operators configure it: float64 values that are not negative, and long-context
  multipliers of at least one.\<close>
definition rate_ok :: "CreditRate \<Rightarrow> bool" where
  "rate_ok r =
     (list_all (\<lambda>x. 0 \<le> x \<and> is_float64 x) [InputRate r, OutputRate r, CacheCreationRate r, CacheReadRate r]
      \<and> (case LongContext r of None \<Rightarrow> True | Some lc \<Rightarrow> 1 \<le> InputMultiplier lc \<and> 1 \<le> OutputMultiplier lc))"

lemma apply_long_context_ge:
  assumes "rate_ok r" "n \<le> n'"
  defines "a \<equiv> ApplyLongContextCreditRate r n" and "b \<equiv> ApplyLongContextCreditRate r n'"
  shows "0 \<le> InputRate a \<and> InputRate a \<le> InputRate b"
    and "0 \<le> OutputRate a \<and> OutputRate a \<le> OutputRate b"
    and "0 \<le> CacheCreationRate a \<and> CacheCreationRate a \<le> CacheCreationRate b"
    and "0 \<le> CacheReadRate a \<and> CacheReadRate a \<le> CacheReadRate b"
  using assms
  by (auto simp: a_def b_def ApplyLongContextCreditRate_def rate_ok_def fmul_ge split: option.splits)

lemma tokens_sum_i64:
  assumes "0 \<le> i" "0 \<le> cc" "0 \<le> cr" "i + cc + cr \<le> int64_max"
  shows "i64 (i64 (i + cc) + cr) = i + cc + cr"
  using assms by (simp add: int64_simps)

lemma rate_credits_mono:
  assumes "rate_ok r"
    and "0 \<le> i" "i \<le> i'" "0 \<le> out" "out \<le> out'" "0 \<le> cc" "cc \<le> cc'" "0 \<le> cr" "cr \<le> cr'"
    and "i' + cc' + cr' \<le> int64_max"
  shows "0 \<le> rate_credits r i out cc cr \<and> rate_credits r i out cc cr \<le> rate_credits r i' out' cc' cr'"
proof -
  have s: "i64 (i64 (i + cc) + cr) = i + cc + cr" "i64 (i64 (i' + cc') + cr') = i' + cc' + cr'"
    using assms by (auto intro!: tokens_sum_i64)
  have le: "i + cc + cr \<le> i' + cc' + cr'" using assms by linarith
  note ge = apply_long_context_ge[OF assms(1) le]
  show ?thesis
    unfolding rate_credits_def s Let_def
    by (intro conjI fadd_mono fmul_mono fadd_nonneg fmul_nonneg float_of_mono float_of_nonneg)
      (use ge assms in auto)
qed

section \<open>Properties\<close>

text \<open>Billing is monotone: under a well-formed rate (non-negative float64 rates, long-context
  multipliers of at least one) and token totals that fit int64, ComputeCreditsForClient is never
  negative and never decreases when any of the four token counts grows - across the long-context
  threshold too, and with every float64 rounding step of the code accounted for.\<close>
lemma credits_monotone:
  assumes "pred_option rate_ok (resolve_rate p model client d)"
    and "0 \<le> i" "i \<le> i'" "0 \<le> out" "out \<le> out'" "0 \<le> cc" "cc \<le> cc'" "0 \<le> cr" "cr \<le> cr'"
    and "i' + cc' + cr' \<le> int64_max"
  shows "0 \<le> ComputeCreditsForClient p model client d i out cc cr
    \<and> ComputeCreditsForClient p model client d i out cc cr
        \<le> ComputeCreditsForClient p model client d i' out' cc' cr'"
  using assms rate_credits_mono
  by (cases "resolve_rate p model client d") (simp_all add: ComputeCreditsForClient_def)

definition sample_rate :: CreditRate where
  "sample_rate = \<lparr>InputRate = 3, OutputRate = 15, CacheCreationRate = 4, CacheReadRate = 1,
     LongContext = Some \<lparr>ThresholdInputTokens = 200, InputMultiplier = 2, OutputMultiplier = 2\<rparr>\<rparr>"

definition sample_policy :: RateLimitPolicy where
  "sample_policy = \<lparr>policy_ID = ''p'', policy_ProjectID = ''proj'', policy_Name = ''n'',
     policy_CreditRules = [], policy_ModelCreditRates = [''m'' \<mapsto> sample_rate],
     policy_ClientModelCreditRates = Map.empty, policy_ClassicRules = [],
     policy_StartsAt = None, policy_ExpiresAt = None\<rparr>"

lemma sample_rate_ok [simp]: "rate_ok sample_rate"
  using is_float64_of_int[of 3] is_float64_of_int[of 15] is_float64_of_int[of 4] is_float64_of_int[of 1]
  by (simp add: rate_ok_def sample_rate_def)

lemma sample_resolve [simp]: "resolve_rate sample_policy ''m'' '''' None = Some sample_rate"
  by (simp add: resolve_rate_def sample_policy_def)

lemma credits_monotone_witness:
  "0 \<le> ComputeCreditsForClient sample_policy ''m'' '''' None 150 10 0 20
    \<and> ComputeCreditsForClient sample_policy ''m'' '''' None 150 10 0 20
        \<le> ComputeCreditsForClient sample_policy ''m'' '''' None 190 10 5 20"
  by (rule credits_monotone) (simp_all add: int64_max_def)

text \<open>The anchor of a plan's rules: ToPolicy changes nothing but the AnchorTime of fixed-window
  rules, which become the subscription start; the rules' number, order, windows, budgets and scopes
  are the plan's, and the credits of every request are those of the plan's own rate maps whatever
  the subscription start.\<close>
lemma ToPolicy_anchors:
  "map (\<lambda>r. r\<lparr>AnchorTime := None\<rparr>) (policy_CreditRules (ToPolicy plan pid start))
      = map (\<lambda>r. r\<lparr>AnchorTime := None\<rparr>) (plan_CreditRules plan)
   \<and> map AnchorTime (policy_CreditRules (ToPolicy plan pid (Some t)))
      = map (\<lambda>r. if WindowType r = ''fixed'' then Some t else AnchorTime r) (plan_CreditRules plan)
   \<and> policy_CreditRules (ToPolicy plan pid None) = plan_CreditRules plan
   \<and> ComputeCreditsForClient (ToPolicy plan pid start) m c d i out cc cr
      = ComputeCreditsForClient (ToPolicy plan pid' None) m c d i out cc cr
   \<and> policy_IsActive (ToPolicy plan pid start) now"
  by (auto simp: ToPolicy_def ComputeCreditsForClient_def resolve_rate_def policy_IsActive_def
      split: option.splits)

end
