(* ===== verification/Catalog.thy ===== *)
theory Catalog
  imports Types "HOL-Library.Product_Lexorder"
begin

text \<open>
  Package modelcatalog: the in-memory model catalog (catalog.go) and the misspelling suggestions
  (suggestions.go). The state is the index from lower-cased names and aliases to rows, the rows, and
  the lookup counters. Index entries are pointers into a private copy of the rows that is never
  written again, so they are modelled by the rows themselves; sync.Map counters are HOL maps.
\<close>

section \<open>State and operations\<close>

record catalog =
  index :: "string \<rightharpoonup> Model"
  rows :: "Model list"
  aliasHits :: "string \<rightharpoonup> int"
  unknown :: "string \<rightharpoonup> int"
  unknownN :: int

definition maxUnknownCardinality :: int where "maxUnknownCardinality = 200"

definition index_row :: "(string \<rightharpoonup> Model) \<Rightarrow> Model \<Rightarrow> (string \<rightharpoonup> Model)" where
  "index_row idx row =
     foldl (\<lambda>m a. m(to_lower a \<mapsto> row)) (idx(to_lower (model_Name row) \<mapsto> row)) (model_Aliases row)"

definition Swap :: "catalog \<Rightarrow> Model list \<Rightarrow> catalog" where
  "Swap c models = c\<lparr>index := foldl index_row Map.empty models, rows := models\<rparr>"

definition New :: "Model list \<Rightarrow> catalog" where
  "New models = Swap \<lparr>index = Map.empty, rows = [], aliasHits = Map.empty, unknown = Map.empty, unknownN = 0\<rparr> models"

definition Snapshot :: "catalog \<Rightarrow> Model list" where "Snapshot c = rows c"

definition bumpAlias :: "catalog \<Rightarrow> string \<Rightarrow> catalog" where
  "bumpAlias c key =
     (case aliasHits c key of
        Some v \<Rightarrow> c\<lparr>aliasHits := (aliasHits c)(key \<mapsto> i64 (v + 1))\<rparr>
      | None \<Rightarrow> c\<lparr>aliasHits := (aliasHits c)(key \<mapsto> 1)\<rparr>)"

definition bumpUnknown :: "catalog \<Rightarrow> string \<Rightarrow> catalog" where
  "bumpUnknown c key =
     (case unknown c key of
        Some v \<Rightarrow> c\<lparr>unknown := (unknown c)(key \<mapsto> i64 (v + 1))\<rparr>
      | None \<Rightarrow>
          if unknownN c \<ge> maxUnknownCardinality then c
          else c\<lparr>unknown := (unknown c)(key \<mapsto> 1), unknownN := unknownN c + 1\<rparr>)"

definition Lookup :: "catalog \<Rightarrow> string \<Rightarrow> catalog \<times> Model option" where
  "Lookup c name =
     (let lc = to_lower name in
      case index c lc of
        None \<Rightarrow> (bumpUnknown c lc, None)
      | Some m \<Rightarrow> (if lc \<noteq> to_lower (model_Name m) then bumpAlias c lc else c, Some m))"

text \<open>strings.EqualFold, on ASCII names.\<close>
definition EqualFold :: "string \<Rightarrow> string \<Rightarrow> bool" where
  "EqualFold a b = (to_lower a = to_lower b)"

definition Get :: "catalog \<Rightarrow> string \<Rightarrow> Model option" where
  "Get c canonical =
     (case index c (to_lower canonical) of
        None \<Rightarrow> None
      | Some m \<Rightarrow> if \<not> EqualFold (model_Name m) canonical then None else Some m)"

text \<open>The inner loop of sortStrings: the element at position j is swapped towards the front.\<close>
fun sift :: "nat \<Rightarrow> 'a::linorder list \<Rightarrow> 'a list" where
  "sift 0 s = s"
| "sift (Suc j) s = (if s ! j > s ! Suc j then sift j (s[j := s ! Suc j, Suc j := s ! j]) else s)"

definition sortStrings :: "'a::linorder list \<Rightarrow> 'a list" where
  "sortStrings s = foldl (\<lambda>s i. sift i s) s [1..<length s]"

text \<open>The set of unknown names is collected in a Go map; its iteration order is arbitrary and is
  erased by the sort (here: the order of first occurrence).\<close>
definition NormalizeNames :: "catalog \<Rightarrow> string list \<Rightarrow> string list + string list" where
  "NormalizeNames c names =
     (if names = [] then Inr []
      else let out = concat (map (\<lambda>raw. case index c (to_lower raw) of Some m \<Rightarrow> [model_Name m] | None \<Rightarrow> []) names);
               unknownSet = remdups (filter (\<lambda>raw. index c (to_lower raw) = None) names)
           in if unknownSet \<noteq> [] then Inl (sortStrings unknownSet) else Inr out)"

record Stats =
  st_AliasResolved :: "string \<rightharpoonup> int"
  st_Unknown :: "string \<rightharpoonup> int"

definition catalog_Stats :: "catalog \<Rightarrow> Stats" where
  "catalog_Stats c = \<lparr>st_AliasResolved = aliasHits c, st_Unknown = unknown c\<rparr>"

section \<open>Suggestions\<close>

text \<open>One row of the two-row dynamic program: \<^term>\<open>left\<close> is curr[j-1], the list after it prev[j-1..].\<close>
fun lev_inner :: "nat \<Rightarrow> nat list \<Rightarrow> nat list \<Rightarrow> nat \<Rightarrow> nat list" where
  "lev_inner a (b # bs) (p0 # p1 # ps) left =
     (let cost = (if a = b then 0 else 1);
          del = p1 + 1;
          ins = left + 1;
          sub = p0 + cost;
          m1 = (if ins < del then ins else del);
          m = (if sub < m1 then sub else m1)
      in m # lev_inner a bs (p1 # ps) m)"
| "lev_inner a _ _ left = []"

fun lev_rows :: "nat \<Rightarrow> nat list \<Rightarrow> nat list \<Rightarrow> nat list \<Rightarrow> nat list" where
  "lev_rows i [] rb prev = prev"
| "lev_rows i (a # ra) rb prev = lev_rows (Suc i) ra rb (i # lev_inner a rb prev i)"

definition levenshtein_runes :: "nat list \<Rightarrow> nat list \<Rightarrow> nat" where
  "levenshtein_runes ra0 rb0 =
     (let (ra, rb) = (if length ra0 < length rb0 then (rb0, ra0) else (ra0, rb0)) in
      if length rb = 0 then length ra
      else lev_rows 1 ra rb [0..<Suc (length rb)] ! length rb)"

definition levenshtein :: "string \<Rightarrow> string \<Rightarrow> nat" where
  "levenshtein a b = (if a = b then 0 else levenshtein_runes (string_runes a) (string_runes b))"

definition name_candidates :: "Model list \<Rightarrow> string list" where
  "name_candidates snap = concat (map (\<lambda>m. model_Name m # model_Aliases m) snap)"

text \<open>sort.Slice with the comparison by distance, then name.\<close>
definition Suggest :: "catalog \<Rightarrow> string \<Rightarrow> nat \<Rightarrow> nat \<Rightarrow> string list" where
  "Suggest c raw maxDist maxN =
     (let out = filter (\<lambda>(d, name). d \<le> maxDist)
                  (map (\<lambda>name. (levenshtein raw name, name)) (name_candidates (Snapshot c)))
      in map snd (take maxN (sort out)))"

section \<open>sortStrings\<close>

lemma sift_split:
  "\<exists>A1 A2. A = A1 @ A2 \<and> sift (length A) (A @ x # C) = A1 @ x # A2 @ C
     \<and> (\<forall>a \<in> set A2. x < a) \<and> (A1 = [] \<or> last A1 \<le> x)"
proof (induction A arbitrary: C rule: rev_induct)
  case (snoc y A)
  show ?case
  proof (cases "x < y")
    case True
    have "sift (length (A @ [y])) ((A @ [y]) @ x # C) = sift (length A) (A @ x # y # C)"
      using True by (simp add: nth_append list_update_append)
    moreover obtain A1 A2 where "A = A1 @ A2" "sift (length A) (A @ x # y # C) = A1 @ x # A2 @ y # C"
        "\<forall>a \<in> set A2. x < a" "A1 = [] \<or> last A1 \<le> x"
      using snoc[of "y # C"] by blast
    ultimately show ?thesis using True by (intro exI[of _ A1] exI[of _ "A2 @ [y]"]) auto
  next
    case False
    then have "sift (length (A @ [y])) ((A @ [y]) @ x # C) = (A @ [y]) @ x # C"
      by (simp add: nth_append)
    then show ?thesis using False by (intro exI[of _ "A @ [y]"] exI[of _ "[]"]) auto
  qed
qed simp

lemma sift_sorts:
  assumes "sorted (take k s)" "k < length s"
  shows "sorted (take (Suc k) (sift k s)) \<and> mset (sift k s) = mset s \<and> length (sift k s) = length s"
proof -
  obtain A x C where s: "s = A @ x # C" "length A = k"
    using assms(2) id_take_nth_drop[of k s] by (metis length_take min.absorb4)
  obtain A1 A2 where d: "A = A1 @ A2" "sift (length A) (A @ x # C) = A1 @ x # A2 @ C"
      "\<forall>a \<in> set A2. x < a" "A1 = [] \<or> last A1 \<le> x"
    using sift_split by blast
  have "sorted (A1 @ A2)" using assms(1) s d(1) by simp
  moreover have "\<forall>a \<in> set A1. a \<le> x"
  proof (cases A1 rule: rev_cases)
    case (snoc B b)
    then show ?thesis using \<open>sorted (A1 @ A2)\<close> d(4) by (auto simp: sorted_append intro: order_trans)
  qed simp
  ultimately have "sorted (A1 @ x # A2)" using d(3) by (auto simp: sorted_append less_imp_le intro: order_trans)
  then show ?thesis using s d by (auto simp: Suc_diff_le)
qed

lemma sortStrings_prefix:
  assumes "n \<le> length s"
  shows "sorted (take n (foldl (\<lambda>s i. sift i s) s [1..<n])) \<and> mset (foldl (\<lambda>s i. sift i s) s [1..<n]) = mset s"
  using assms
proof (induction n)
  case (Suc n)
  show ?case
  proof (cases n)
    case 0 then show ?thesis using Suc by (cases s) auto
  next
    case (Suc m)
    let ?t = "foldl (\<lambda>s i. sift i s) s [1..<n]"
    have IH: "sorted (take n ?t)" "mset ?t = mset s" using Suc.IH Suc.prems by auto
    then have "n < length ?t" using Suc.prems by (metis Suc_le_eq size_mset)
    then show ?thesis using sift_sorts[OF IH(1)] IH(2) Suc by simp
  qed
qed simp

lemma sortStrings_correct: "sorted (sortStrings s) \<and> mset (sortStrings s) = mset s"
proof -
  have m: "mset (sortStrings s) = mset s" and "sorted (take (length s) (sortStrings s))"
    using sortStrings_prefix[of "length s" s] by (simp_all add: sortStrings_def)
  moreover have "length (sortStrings s) = length s" using m by (metis size_mset)
  ultimately show ?thesis by simp
qed

lemma sortStrings_sort: "sortStrings s = sort s"
  using sortStrings_correct[of s] by (metis properties_for_sort)

lemma set_sortStrings [simp]: "set (sortStrings s) = set s"
  and distinct_sortStrings [simp]: "distinct (sortStrings s) = distinct s"
  by (simp_all add: sortStrings_sort)

section \<open>The index\<close>

definition row_keys :: "Model \<Rightarrow> string set" where
  "row_keys m = to_lower ` set (model_Name m # model_Aliases m)"

text \<open>No two rows share a name or an alias, up to case: what the admin handlers enforce on writes.\<close>
definition collision_free :: "Model list \<Rightarrow> bool" where
  "collision_free ms = (\<forall>i < length ms. \<forall>j < length ms. row_keys (ms ! i) \<inter> row_keys (ms ! j) \<noteq> {} \<longrightarrow> ms ! i = ms ! j)"

lemma index_row_apply: "index_row idx row k = (if k \<in> row_keys row then Some row else idx k)"
proof -
  have "foldl (\<lambda>m a. m(to_lower a \<mapsto> row)) f as k = (if k \<in> to_lower ` set as then Some row else f k)" for as f
    by (induction as arbitrary: f) auto
  then show ?thesis by (auto simp: index_row_def row_keys_def)
qed

lemma index_fold_Some:
  "foldl index_row f ms k = Some m \<Longrightarrow> (m \<in> set ms \<and> k \<in> row_keys m) \<or> f k = Some m"
proof (induction ms arbitrary: f)
  case (Cons a ms)
  then consider "m \<in> set ms \<and> k \<in> row_keys m" | "index_row f a k = Some m" by fastforce
  then show ?case by cases (auto simp: index_row_apply split: if_splits)
qed simp

lemma index_fold_None: "foldl index_row f ms k = None \<longleftrightarrow> f k = None \<and> (\<forall>m \<in> set ms. k \<notin> row_keys m)"
  by (induction ms arbitrary: f) (auto simp: index_row_apply)

lemma index_Swap:
  "index (Swap c ms) k = Some m \<Longrightarrow> m \<in> set ms \<and> k \<in> row_keys m"
  "index (Swap c ms) k = None \<longleftrightarrow> (\<forall>m \<in> set ms. k \<notin> row_keys m)"
  using index_fold_Some[of Map.empty ms k m] index_fold_None[of Map.empty ms k] by (simp_all add: Swap_def)

lemma index_Swap_iff:
  assumes "collision_free ms"
  shows "index (Swap c ms) k = Some m \<longleftrightarrow> m \<in> set ms \<and> k \<in> row_keys m"
proof
  assume m: "m \<in> set ms \<and> k \<in> row_keys m"
  then obtain m' where m': "index (Swap c ms) k = Some m'" using index_Swap(2)[of c ms k] by fastforce
  have "m' \<in> set ms" "k \<in> row_keys m'" using index_Swap(1)[OF m'] by auto
  then have "m' = m" using m assms unfolding collision_free_def in_set_conv_nth by blast
  then show "index (Swap c ms) k = Some m" using m' by simp
qed (rule index_Swap(1))

lemma index_bump [simp]:
  "index (bumpAlias c k) = index c" "index (bumpUnknown c k) = index c"
  "rows (bumpAlias c k) = rows c" "rows (bumpUnknown c k) = rows c"
  "unknown (bumpAlias c k) = unknown c" "unknownN (bumpAlias c k) = unknownN c"
  by (auto simp: bumpAlias_def bumpUnknown_def split: option.splits)

lemma index_Lookup [simp]: "index (fst (Lookup c n)) = index c" "rows (fst (Lookup c n)) = rows c"
  by (auto simp: Lookup_def Let_def split: option.splits)

lemma snd_Lookup [simp]: "snd (Lookup c n) = index c (to_lower n)"
  by (auto simp: Lookup_def Let_def split: option.splits)

section \<open>The unknown-name counters\<close>

definition unknown_inv :: "catalog \<Rightarrow> bool" where
  "unknown_inv c = (finite (dom (unknown c)) \<and> int (card (dom (unknown c))) = unknownN c
     \<and> unknownN c \<le> maxUnknownCardinality)"

lemma unknown_inv_bump: "unknown_inv c \<Longrightarrow> unknown_inv (bumpUnknown c k)"
  by (auto simp: unknown_inv_def bumpUnknown_def insert_absorb domI domIff card_insert_if split: option.splits)

lemma unknown_inv_Lookup: "unknown_inv c \<Longrightarrow> unknown_inv (fst (Lookup c n))"
  using unknown_inv_bump[of c "to_lower n"] by (auto simp: Lookup_def Let_def unknown_inv_def split: option.splits)

lemma unknown_inv_Swap [simp]: "unknown_inv (Swap c ms) = unknown_inv c"
  by (simp add: unknown_inv_def Swap_def)

lemma unknown_inv_New [simp]: "unknown_inv (New ms)"
  by (simp add: New_def) (simp add: unknown_inv_def maxUnknownCardinality_def)

text \<open>The operations a running server performs on its catalog.\<close>
datatype catalog_op = OpLookup string | OpSwap "Model list"

definition catalog_step :: "catalog \<Rightarrow> catalog_op \<Rightarrow> catalog" where
  "catalog_step c op = (case op of OpLookup n \<Rightarrow> fst (Lookup c n) | OpSwap ms \<Rightarrow> Swap c ms)"

section \<open>Properties of the catalog\<close>

text \<open>The catalog answers exactly what was loaded: after Swap with rows whose names and aliases do
  not collide, and after any number of lookups, Lookup of a name returns the row that carries the name
  or has it as an alias (in any letter case) and nothing for other names, and Get accepts a name
  only when it is the row's canonical name.\<close>
lemma lookup_after_swap:
  fixes c ms earlier
  defines "c' \<equiv> foldl (\<lambda>c n. fst (Lookup c n)) (Swap c ms) earlier"
  assumes "collision_free ms"
  shows "(snd (Lookup c' name) = Some m \<longleftrightarrow> m \<in> set ms \<and> to_lower name \<in> row_keys m)
    \<and> (Get c' name = Some m \<longleftrightarrow> m \<in> set ms \<and> EqualFold name (model_Name m))"
proof -
  have i: "index (foldl (\<lambda>c n. fst (Lookup c n)) c0 earlier) = index c0" for c0
    by (induction earlier arbitrary: c0) simp_all
  have k: "to_lower (model_Name x) \<in> row_keys x" for x by (simp add: row_keys_def)
  note ix = index_Swap_iff[OF assms(2), of c "to_lower name"]
  have "Get (Swap c ms) name = Some m \<longleftrightarrow> m \<in> set ms \<and> EqualFold name (model_Name m)"
  proof
    assume "m \<in> set ms \<and> EqualFold name (model_Name m)"
    then have "index (Swap c ms) (to_lower name) = Some m" "to_lower name = to_lower (model_Name m)"
      using ix[of m] k[of m] by (simp_all add: EqualFold_def)
    then show "Get (Swap c ms) name = Some m" by (simp add: Get_def EqualFold_def)
  next
    assume "Get (Swap c ms) name = Some m"
    then have "index (Swap c ms) (to_lower name) = Some m" "EqualFold (model_Name m) name"
      by (auto simp: Get_def split: option.splits if_splits)
    then show "m \<in> set ms \<and> EqualFold name (model_Name m)" using ix[of m] by (simp add: EqualFold_def)
  qed
  then show ?thesis using ix[of m] by (simp add: c'_def i Get_def)
qed

definition sample_model :: "string \<Rightarrow> string list \<Rightarrow> Model" where
  "sample_model n as = \<lparr>model_Name = n, model_DisplayName = n, model_Description = '''', model_Aliases = as,
     model_DefaultCreditRate = Some sample_rate, model_DefaultImageCreditRate = None,
     model_Status = ''active'', model_Publisher = ''anthropic'',
     model_Metadata = \<lparr>ContextWindow = 0, Capabilities = [], ProviderHint = '''', Icon = '''',
       Category = '''', ReplacedBy = '''', ExtraUsageOnly = False\<rparr>\<rparr>"

lemma lookup_after_swap_witness:
  "snd (Lookup (foldl (\<lambda>c n. fst (Lookup c n)) (Swap (New []) [sample_model ''opus'' [''Best'']]) [''x'']) ''BEST'')
      = Some (sample_model ''opus'' [''Best''])"
proof -
  have "to_lower ''BEST'' \<in> row_keys (sample_model ''opus'' [''Best''])"
  proof -
    have "to_lower ''BEST'' = to_lower ''Best''" by code_simp
    then show ?thesis by (simp add: row_keys_def sample_model_def)
  qed
  then show ?thesis
    using lookup_after_swap[of "[sample_model ''opus'' [''Best'']]" "New []" "[''x'']" "''BEST''"
      "sample_model ''opus'' [''Best'']"] by (simp add: collision_free_def)
qed

text \<open>The unknown-name metric cannot be blown up by clients: whatever sequence of lookups and
  reloads runs from a fresh catalog, the number of distinct unknown names remembered equals the
  counter and never exceeds 200 (operations executed one at a time).\<close>
lemma unknown_cardinality_bounded:
  "int (card (dom (unknown (foldl catalog_step (New ms) ops)))) = unknownN (foldl catalog_step (New ms) ops)
   \<and> unknownN (foldl catalog_step (New ms) ops) \<le> 200"
proof -
  have "unknown_inv c \<Longrightarrow> unknown_inv (foldl catalog_step c ops)" for c
    by (induction ops arbitrary: c)
      (auto simp: catalog_step_def unknown_inv_Lookup split: catalog_op.splits)
  from this[OF unknown_inv_New] show ?thesis by (simp add: unknown_inv_def maxUnknownCardinality_def)
qed

text \<open>NormalizeNames is all or nothing: it succeeds exactly when every name is known, and then maps
  each name to the canonical name of its row in order; otherwise it fails with all unknown names,
  each once and in ascending order.\<close>
lemma NormalizeNames_spec:
  "case NormalizeNames c names of
     Inr out \<Rightarrow> map Some out = map (\<lambda>n. map_option model_Name (index c (to_lower n))) names
   | Inl bad \<Rightarrow> bad \<noteq> [] \<and> sorted bad \<and> distinct bad
       \<and> set bad = {n \<in> set names. index c (to_lower n) = None}"
proof -
  have "filter (\<lambda>raw. index c (to_lower raw) = None) names = [] \<Longrightarrow>
     map Some (concat (map (\<lambda>raw. case index c (to_lower raw) of Some m \<Rightarrow> [model_Name m] | None \<Rightarrow> []) names))
       = map (\<lambda>n. map_option model_Name (index c (to_lower n))) names"
    by (induction names) (auto split: if_splits)
  then show ?thesis
    by (auto simp: NormalizeNames_def Let_def sortStrings_correct simp flip: set_empty)
qed

section \<open>Edit distance\<close>

text \<open>The specification of levenshtein: the cost of an edit script from one rune list to the other.\<close>
inductive edit :: "nat list \<Rightarrow> nat list \<Rightarrow> nat \<Rightarrow> bool" where
  edit_nil: "edit [] [] 0"
| edit_del: "edit xs ys n \<Longrightarrow> edit (x # xs) ys (Suc n)"
| edit_ins: "edit xs ys n \<Longrightarrow> edit xs (y # ys) (Suc n)"
| edit_sub: "edit xs ys n \<Longrightarrow> edit (x # xs) (y # ys) (n + (if x = y then 0 else 1))"

fun lev :: "nat list \<Rightarrow> nat list \<Rightarrow> nat" where
  "lev [] ys = length ys"
| "lev xs [] = length xs"
| "lev (x # xs) (y # ys) =
     min (min (lev xs (y # ys) + 1) (lev (x # xs) ys + 1)) (lev xs ys + (if x = y then 0 else 1))"

lemma lev_Nil2 [simp]: "lev xs [] = length xs"
  by (cases xs) simp_all

lemma lev_Cons1: "lev (x # xs) ys \<le> Suc (lev xs ys)"
  by (cases ys) auto

lemma lev_Cons2: "lev xs (y # ys) \<le> Suc (lev xs ys)"
  by (cases xs) auto

lemma edit_self: "edit xs xs 0"
proof (induction xs)
  case (Cons x xs) then show ?case using edit_sub[OF Cons, of x x] by simp
qed (rule edit_nil)

lemma edit_Nil1: "edit [] ys (length ys)"
  by (induction ys) (auto intro: edit.intros)

lemma edit_Nil2: "edit xs [] (length xs)"
  by (induction xs) (auto intro: edit.intros)

lemma edit_lev: "edit xs ys (lev xs ys)"
proof (induction xs ys rule: lev.induct)
  case (3 x xs y ys)
  show ?case
    using edit_del[OF 3(1), of x] edit_ins[OF 3(2), of y] edit_sub[OF 3(3), of x y]
    by (auto simp: min_def)
qed (use edit_Nil1 edit_Nil2[of "_ # _"] in auto)

lemma lev_le_edit: "edit xs ys n \<Longrightarrow> lev xs ys \<le> n"
proof (induction rule: edit.induct)
  case (edit_del xs ys n x) then show ?case using lev_Cons1[of x xs ys] by linarith
next
  case (edit_ins xs ys n y) then show ?case using lev_Cons2[of xs y ys] by linarith
qed auto

lemma edit_sym: "edit xs ys n \<Longrightarrow> edit ys xs n"
proof (induction rule: edit.induct)
  case (edit_sub xs ys n x y)
  then show ?case using edit.edit_sub[OF edit_sub.IH, of y x] by (simp add: eq_commute)
qed (auto intro: edit.intros)

lemma edit_snoc:
  assumes "edit xs ys n"
  shows "edit (xs @ [x]) ys (Suc n)" and "edit xs (ys @ [y]) (Suc n)"
    and "edit (xs @ [x]) (ys @ [y]) (n + (if x = y then 0 else 1))"
  using assms
proof (induction)
  case edit_nil
  { case 1 show ?case by (simp add: edit.edit_nil edit.edit_del) }
  { case 2 show ?case by (simp add: edit.edit_nil edit.edit_ins) }
  { case 3 show ?case using edit.edit_sub[OF edit.edit_nil, of x y] by simp }
next
  case (edit_del xs ys n z)
  { case 1 show ?case using edit.edit_del[OF edit_del.IH(1), of z] by simp }
  { case 2 show ?case using edit.edit_del[OF edit_del.IH(2), of z] by simp }
  { case 3 show ?case using edit.edit_del[OF edit_del.IH(3), of z] by simp }
next
  case (edit_ins xs ys n z)
  { case 1 show ?case using edit.edit_ins[OF edit_ins.IH(1), of z] by simp }
  { case 2 show ?case using edit.edit_ins[OF edit_ins.IH(2), of z] by simp }
  { case 3 show ?case using edit.edit_ins[OF edit_ins.IH(3), of z] by simp }
next
  case (edit_sub xs ys n z w)
  { case 1 show ?case using edit.edit_sub[OF edit_sub.IH(1), of z w] by simp }
  { case 2 show ?case using edit.edit_sub[OF edit_sub.IH(2), of z w] by simp }
  { case 3 show ?case using edit.edit_sub[OF edit_sub.IH(3), of z w] by (simp add: add.commute add.left_commute) }
qed

lemma edit_rev: "edit xs ys n \<Longrightarrow> edit (rev xs) (rev ys) n"
proof (induction rule: edit.induct)
  case (edit_sub xs ys n x y) then show ?case using edit_snoc(3)[OF edit_sub.IH, of x y] by simp
qed (auto intro: edit.edit_nil edit_snoc)

lemma lev_rev: "lev (rev xs) (rev ys) = lev xs ys"
  using lev_le_edit[OF edit_rev[OF edit_lev[of xs ys]]]
    lev_le_edit[OF edit_rev[OF edit_lev[of "rev xs" "rev ys"]]] by simp

lemma lev_sym: "lev xs ys = lev ys xs"
  by (meson edit_lev edit_sym le_antisym lev_le_edit)

text \<open>The row of the dynamic program after the reversed prefix xs: distances to all prefixes of rb.\<close>
definition lev_row :: "nat list \<Rightarrow> nat list \<Rightarrow> nat list \<Rightarrow> nat list" where
  "lev_row xs ys rb = map (\<lambda>k. lev xs (rev (take k rb) @ ys)) [0..<Suc (length rb)]"

lemma lev_row_Nil: "lev_row xs ys [] = [lev xs ys]"
  by (simp add: lev_row_def)

lemma lev_row_Cons: "lev_row xs ys (b # rb) = lev xs ys # lev_row xs (b # ys) rb"
  by (simp add: lev_row_def map_upt_Suc del: upt_Suc)

lemma lev_row_hd: "\<exists>r. lev_row xs ys rb = lev xs ys # r"
  by (cases rb) (simp_all add: lev_row_Nil lev_row_Cons)

lemma lev_inner_min:
  "lev_inner a (b # bs) (p0 # p1 # ps) left =
     (let m = min (min (p1 + 1) (left + 1)) (p0 + (if a = b then 0 else 1)) in m # lev_inner a bs (p1 # ps) m)"
  by (auto simp: Let_def min_def)

lemma lev_inner_row:
  "lev (a # xs) ys # lev_inner a rb (lev_row xs ys rb) (lev (a # xs) ys) = lev_row (a # xs) ys rb"
proof (induction rb arbitrary: ys)
  case (Cons b rb)
  obtain r where r: "lev_row xs (b # ys) rb = lev xs (b # ys) # r" using lev_row_hd by blast
  have "lev_inner a (b # rb) (lev_row xs ys (b # rb)) (lev (a # xs) ys)
      = lev (a # xs) (b # ys) # lev_inner a rb (lev_row xs (b # ys) rb) (lev (a # xs) (b # ys))"
    unfolding lev_row_Cons r lev_inner_min lev.simps(3) by (simp only: Let_def)
  then show ?case using Cons[of "b # ys"] by (simp only: lev_row_Cons)
qed (simp add: lev_row_Nil)

lemma lev_rows_correct:
  "lev_rows (Suc (length xs)) ra rb (lev_row xs [] rb) = lev_row (rev ra @ xs) [] rb"
proof (induction ra arbitrary: xs)
  case (Cons a ra)
  have "Suc (length xs) # lev_inner a rb (lev_row xs [] rb) (Suc (length xs)) = lev_row (a # xs) [] rb"
    using lev_inner_row[of a xs "[]" rb] by simp
  then show ?case using Cons[of "a # xs"] by simp
qed simp

lemma levenshtein_runes_lev: "levenshtein_runes a b = lev a b"
proof -
  have main: "lev_rows 1 ra rb [0..<Suc (length rb)] ! length rb = lev ra rb" for ra rb
  proof -
    have "[0..<Suc (length rb)] = lev_row [] [] rb"
      by (rule nth_equalityI) (simp_all add: lev_row_def nth_append del: upt_Suc)
    then have "lev_rows 1 ra rb [0..<Suc (length rb)] ! length rb = lev_row (rev ra) [] rb ! length rb"
      using lev_rows_correct[of "[]" ra rb] by simp
    also have "\<dots> = lev (rev ra) (rev rb)" by (simp add: lev_row_def nth_append)
    finally show ?thesis by (simp add: lev_rev)
  qed
  have "lev a b = lev b a" by (rule lev_sym)
  then show ?thesis
    by (auto simp: levenshtein_runes_def Let_def main[simplified])
qed

section \<open>Properties of the suggestions\<close>

text \<open>The two-row dynamic program of levenshtein computes the true edit distance: the least cost of
  any script of rune deletions, insertions and substitutions, including the equal-string shortcut, the
  swap that makes the shorter string the row, and the empty-row case.\<close>
lemma levenshtein_is_edit_distance:
  "levenshtein a b = (LEAST n. edit (string_runes a) (string_runes b) n)"
proof -
  have l: "levenshtein a b = lev (string_runes a) (string_runes b)"
    using lev_le_edit[OF edit_self[of "string_runes b"]] by (simp add: levenshtein_def levenshtein_runes_lev)
  show ?thesis unfolding l by (rule Least_equality[symmetric]) (auto intro: edit_lev lev_le_edit)
qed

definition rank :: "string \<Rightarrow> string \<Rightarrow> nat \<times> string" where
  "rank raw name = (levenshtein raw name, name)"

text \<open>Suggest returns the best candidates: at most max names, ordered by edit distance and then
  alphabetically; together with the names left out they are exactly the catalog names and aliases
  within maxDist, and no name left out ranks before a returned one.\<close>
lemma Suggest_best:
  "\<exists>rest. mset (Suggest c raw maxDist maxN) + mset rest
        = mset (filter (\<lambda>n. levenshtein raw n \<le> maxDist) (name_candidates (rows c)))
    \<and> length (Suggest c raw maxDist maxN) \<le> maxN
    \<and> sorted (map (rank raw) (Suggest c raw maxDist maxN))
    \<and> (\<forall>s \<in> set (Suggest c raw maxDist maxN). \<forall>r \<in> set rest. rank raw s \<le> rank raw r)"
proof -
  let ?cs = "filter (\<lambda>n. levenshtein raw n \<le> maxDist) (name_candidates (rows c))"
  let ?o = "map (rank raw) ?cs"
  have out: "filter (\<lambda>(d, name). d \<le> maxDist) (map (\<lambda>name. (levenshtein raw name, name)) (name_candidates (rows c))) = ?o"
    by (simp add: filter_map comp_def rank_def)
  have S: "Suggest c raw maxDist maxN = map snd (take maxN (sort ?o))"
    by (simp add: Suggest_def Snapshot_def out Let_def)
  have r: "\<forall>x \<in> set (sort ?o). rank raw (snd x) = x" by (auto simp: rank_def)
  then have map_r: "map (rank raw) (map snd xs) = xs" if "set xs \<subseteq> set (sort ?o)" for xs
    using that by (induction xs) auto
  have sub: "set (take maxN (sort ?o)) \<subseteq> set (sort ?o)" "set (drop maxN (sort ?o)) \<subseteq> set (sort ?o)"
    by (rule set_take_subset, rule set_drop_subset)
  let ?rest = "map snd (drop maxN (sort ?o))"
  have "mset (map snd (take maxN (sort ?o))) + mset ?rest = mset (map snd (sort ?o))"
    by (simp only: map_append[symmetric] mset_append[symmetric] append_take_drop_id)
  also have "\<dots> = image_mset snd (mset ?o)" by (simp only: mset_map mset_sort)
  also have "\<dots> = mset ?cs" by (simp add: image_mset.compositionality comp_def rank_def)
  finally have m: "mset (Suggest c raw maxDist maxN) + mset ?rest = mset ?cs" by (simp only: S)
  have so: "sorted (take maxN (sort ?o) @ drop maxN (sort ?o))" by simp
  have "\<forall>s \<in> set (map snd (take maxN (sort ?o))). \<forall>r \<in> set ?rest. rank raw s \<le> rank raw r"
  proof (intro ballI)
    fix s t assume "s \<in> set (map snd (take maxN (sort ?o)))" "t \<in> set ?rest"
    then obtain x y where x: "x \<in> set (take maxN (sort ?o))" "s = snd x" and y: "y \<in> set (drop maxN (sort ?o))" "t = snd y"
      by auto
    have "x \<le> y" using so x(1) y(1) by (simp only: sorted_append)
    moreover have "rank raw (snd x) = x" "rank raw (snd y) = y" using r sub x(1) y(1) by blast+
    ultimately show "rank raw s \<le> rank raw t" using x(2) y(2) by simp
  qed
  moreover have "sorted (map (rank raw) (map snd (take maxN (sort ?o))))"
    unfolding map_r[OF sub(1)] by (rule sorted_wrt_take) simp
  ultimately show ?thesis using m by (intro exI[of _ ?rest]) (simp add: S)
qed

lemma Suggest_best_witness:
  "\<exists>rest. mset (Suggest (New [sample_model ''opus'' []]) ''opos'' 2 3) + mset rest = {#''opus''#}"
proof -
  have "levenshtein ''opos'' ''opus'' \<le> 2" by code_simp
  then have "filter (\<lambda>n. levenshtein ''opos'' n \<le> 2) (name_candidates (rows (New [sample_model ''opus'' []]))) = [''opus'']"
    by (simp add: name_candidates_def New_def Swap_def sample_model_def)
  then show ?thesis using Suggest_best[of "New [sample_model ''opus'' []]" "''opos''" 2 3] by auto
qed

end
