(* ===== verification/Authz.thy ===== *)
theory Authz
  imports Catalog
begin

text \<open>
  Package authz and the authorization half of the admin API server (api/admin/v1/server.go):
  permissions and their scopes (permission.go), project roles and capability sets (role.go),
  principals (principal.go), access policies, their constructors and Validate (access.go,
  system_on_project_path.go), the conditional policies (policy.go, policy_key_owned.go,
  policy_member_self.go, policies_registry.go), and the decision the authorization middleware takes for
  a request. String enumerations are the source's strings. A capability set (a Go map used as a
  set) is the list of its members in iteration order. Token validation, UUID syntax and the
  database reads are parameters.
\<close>

section \<open>Permissions\<close>

definition permissionScopes :: "(string \<times> string) list" where
  "permissionScopes = [
     (''system.users.read'', ''system''), (''system.users.write'', ''system''),
     (''system.plans.read'', ''system''), (''system.plans.manage'', ''system''),
     (''system.models.read'', ''system''), (''system.models.manage'', ''system''),
     (''system.projects.read'', ''system''), (''system.requests.read'', ''system''),
     (''system.extra_usage.read'', ''system''), (''system.extra_usage.manage'', ''system''),
     (''system.upstreams.read'', ''system''), (''system.upstreams.manage'', ''system''),
     (''system.upstream_groups.read'', ''system''),
     (''system.upstream_groups.manage'', ''system''), (''system.oauth_clients.read'', ''system''),
     (''system.oauth_clients.manage'', ''system''), (''system.routing.read'', ''system''),
     (''system.routing.manage'', ''system''), (''system.subscription.override'', ''system''),
     (''system.notifications.read'', ''system''), (''system.notifications.manage'', ''system''),
     (''project.read'', ''project''), (''project.settings.write'', ''project''),
     (''project.archive'', ''project''), (''project.ownership.transfer'', ''project''),
     (''project.models.read'', ''project''), (''project.members.read'', ''project''),
     (''project.members.manage'', ''project''), (''project.keys.create'', ''project''),
     (''project.keys.read'', ''project''), (''project.keys.manage'', ''project''),
     (''project.oauth_grants.read'', ''project''), (''project.oauth_grants.manage'', ''project''),
     (''project.policies.read'', ''project''), (''project.policies.manage'', ''project''),
     (''project.subscriptions.read'', ''project''), (''project.plans.read'', ''project''),
     (''project.orders.read'', ''project''), (''project.orders.create'', ''project''),
     (''project.orders.manage'', ''project''), (''project.billing.read'', ''project''),
     (''project.billing.manage'', ''project''), (''project.requests.read'', ''project''),
     (''project.usage.read'', ''project''), (''project.traces.read'', ''project''),
     (''project.members.usage.read'', ''project''), (''project.extra_usage.read'', ''project''),
     (''project.extra_usage.write'', ''project''), (''project.extra_usage.topup'', ''project'')]"

definition Permission_Valid :: "string \<Rightarrow> bool" where
  "Permission_Valid p = (map_of permissionScopes p \<noteq> None)"

definition Permission_Scope :: "string \<Rightarrow> string \<times> bool" where
  "Permission_Scope p = (case map_of permissionScopes p of None \<Rightarrow> (''none'', False) | Some s \<Rightarrow> (s, True))"

text \<open>sort.Slice by string comparison.\<close>
definition AllPermissions :: "string list" where
  "AllPermissions = sort (map fst permissionScopes)"

definition permissionsInScope :: "string \<Rightarrow> string list" where
  "permissionsInScope scope = map fst (filter (\<lambda>(p, s). s = scope) permissionScopes)"

section \<open>Roles and capability sets\<close>

definition AllProjectRoles :: "string list" where
  "AllProjectRoles = [''owner'', ''maintainer'', ''developer'']"

definition Role_Valid :: "string \<Rightarrow> bool" where
  "Role_Valid r = (r = ''owner'' \<or> r = ''maintainer'' \<or> r = ''developer'')"

definition appendPermissions :: "string list \<Rightarrow> string list \<Rightarrow> string list" where
  "appendPermissions base additions = base @ additions"

definition developerPermissions :: "string list" where
  "developerPermissions = [
     ''project.read'', ''project.models.read'', ''project.members.read'',
     ''project.members.usage.read'', ''project.keys.create'', ''project.keys.read'',
     ''project.keys.manage'', ''project.oauth_grants.read'', ''project.policies.read'',
     ''project.subscriptions.read'', ''project.plans.read'', ''project.orders.read'',
     ''project.billing.read'', ''project.requests.read'', ''project.usage.read'',
     ''project.traces.read'', ''project.extra_usage.read'']"

definition maintainerPermissions :: "string list" where
  "maintainerPermissions = appendPermissions developerPermissions [
     ''project.settings.write'', ''project.members.manage'', ''project.oauth_grants.manage'',
     ''project.policies.manage'', ''project.orders.create'', ''project.orders.manage'',
     ''project.billing.manage'', ''project.extra_usage.write'', ''project.extra_usage.topup'']"

definition ownerPermissions :: "string list" where
  "ownerPermissions = appendPermissions maintainerPermissions [
     ''project.archive'', ''project.ownership.transfer'']"

definition permissionsByRole :: "(string \<times> string list) list" where
  "permissionsByRole = [(''developer'', developerPermissions), (''maintainer'', maintainerPermissions),
     (''owner'', ownerPermissions)]"

type_synonym CapabilitySet = "string list"

definition NewCapabilitySet :: "string list \<Rightarrow> CapabilitySet" where
  "NewCapabilitySet permissions = remdups (filter Permission_Valid permissions)"

definition Has :: "CapabilitySet \<Rightarrow> string \<Rightarrow> bool" where "Has s p = (p \<in> set s)"

definition Len :: "CapabilitySet \<Rightarrow> nat" where "Len s = length s"

text \<open>sortPermissions is the same swap loop as sortStrings of package modelcatalog.\<close>
definition sortPermissions :: "string list \<Rightarrow> string list" where
  "sortPermissions permissions = foldl (\<lambda>s i. sift i s) permissions [1..<length permissions]"

definition Permissions :: "CapabilitySet \<Rightarrow> string list" where
  "Permissions s = sortPermissions s"

definition Strings :: "CapabilitySet \<Rightarrow> string list" where
  "Strings s = map (\<lambda>p. p) (Permissions s)"

definition PermissionsForRole :: "string \<Rightarrow> CapabilitySet \<times> bool" where
  "PermissionsForRole role =
     (case map_of permissionsByRole role of
        None \<Rightarrow> ([], False)
      | Some ps \<Rightarrow> (NewCapabilitySet ps, True))"

section \<open>Principals\<close>

record Principal =
  pr_UserID :: string
  pr_Superadmin :: bool

definition Authenticated :: "Principal \<Rightarrow> bool" where
  "Authenticated p = (trim_space (pr_UserID p) \<noteq> '''')"

datatype principal_error = AnonymousSuperadmin | UserIDRequired

definition Principal_Validate :: "Principal \<Rightarrow> principal_error option" where
  "Principal_Validate p =
     (if \<not> Authenticated p then
        if pr_Superadmin p then Some AnonymousSuperadmin else Some UserIDRequired
      else None)"

definition ProjectCapabilities :: "Principal \<Rightarrow> string \<Rightarrow> CapabilitySet" where
  "ProjectCapabilities pr role =
     (if \<not> Authenticated pr then []
      else if pr_Superadmin pr then NewCapabilitySet (permissionsInScope ''project'')
      else (case PermissionsForRole role of (permissions, ok) \<Rightarrow> if \<not> ok then [] else permissions))"

definition SystemCapabilities :: "Principal \<Rightarrow> CapabilitySet" where
  "SystemCapabilities pr =
     (if \<not> Authenticated pr \<or> \<not> pr_Superadmin pr then []
      else NewCapabilitySet (permissionsInScope ''system''))"

definition HasProjectPermission :: "Principal \<Rightarrow> string \<Rightarrow> string \<Rightarrow> bool" where
  "HasProjectPermission pr role permission =
     (case Permission_Scope permission of (scope, valid) \<Rightarrow>
        valid \<and> scope = ''project'' \<and> Has (ProjectCapabilities pr role) permission)"

definition HasSystemPermission :: "Principal \<Rightarrow> string \<Rightarrow> bool" where
  "HasSystemPermission pr permission =
     (case Permission_Scope permission of (scope, valid) \<Rightarrow>
        valid \<and> scope = ''system'' \<and> Has (SystemCapabilities pr) permission)"

section \<open>Access policies\<close>

definition Scope_Valid :: "string \<Rightarrow> bool" where
  "Scope_Valid s = (s = ''none'' \<or> s = ''system'' \<or> s = ''project'')"

definition Mode_Valid :: "string \<Rightarrow> bool" where
  "Mode_Valid m = (m = ''public'' \<or> m = ''authenticated'' \<or> m = ''rbac'' \<or> m = ''hmac'')"

record ResourceBinding =
  rb_ResourceType :: string
  rb_IDPathParam :: string

record AccessPolicy =
  ap_Mode :: string
  ap_Scope :: string
  ap_Permission :: string
  ap_ProjectIDPathParam :: string
  ap_Resource :: "ResourceBinding option"
  ap_Policies :: "string list"
  ap_Superadmin :: string
  ap_SystemOnProjectPath :: bool

text \<open>The composite literals of the constructors; unset fields have their zero value.\<close>
definition plain_access :: "string \<Rightarrow> AccessPolicy" where
  "plain_access mode = \<lparr>ap_Mode = mode, ap_Scope = ''none'', ap_Permission = '''', ap_ProjectIDPathParam = '''',
     ap_Resource = None, ap_Policies = [], ap_Superadmin = ''none'', ap_SystemOnProjectPath = False\<rparr>"

definition Public_access :: AccessPolicy where "Public_access = plain_access ''public''"
definition Authenticated_access :: AccessPolicy where "Authenticated_access = plain_access ''authenticated''"
definition HMAC_access :: AccessPolicy where "HMAC_access = plain_access ''hmac''"

definition System_access :: "string \<Rightarrow> (AccessPolicy \<Rightarrow> AccessPolicy) list \<Rightarrow> AccessPolicy" where
  "System_access permission options =
     foldl (\<lambda>a opt. opt a)
       \<lparr>ap_Mode = ''rbac'', ap_Scope = ''system'', ap_Permission = permission, ap_ProjectIDPathParam = '''',
        ap_Resource = None, ap_Policies = [], ap_Superadmin = ''required'', ap_SystemOnProjectPath = False\<rparr>
       options"

definition Project_access :: "string \<Rightarrow> string \<Rightarrow> (AccessPolicy \<Rightarrow> AccessPolicy) list \<Rightarrow> AccessPolicy" where
  "Project_access permission projectIDPathParam options =
     foldl (\<lambda>a opt. opt a)
       \<lparr>ap_Mode = ''rbac'', ap_Scope = ''project'', ap_Permission = permission,
        ap_ProjectIDPathParam = projectIDPathParam,
        ap_Resource = None, ap_Policies = [], ap_Superadmin = ''bypass'', ap_SystemOnProjectPath = False\<rparr>
       options"

definition WithResource :: "string \<Rightarrow> string \<Rightarrow> AccessPolicy \<Rightarrow> AccessPolicy" where
  "WithResource resourceType idPathParam access =
     access\<lparr>ap_Resource := Some \<lparr>rb_ResourceType = resourceType, rb_IDPathParam = idPathParam\<rparr>\<rparr>"

definition WithPolicies :: "string list \<Rightarrow> AccessPolicy \<Rightarrow> AccessPolicy" where
  "WithPolicies policies access = access\<lparr>ap_Policies := policies\<rparr>"

definition RequireProjectMembership :: "AccessPolicy \<Rightarrow> AccessPolicy" where
  "RequireProjectMembership access = access\<lparr>ap_Superadmin := ''none''\<rparr>"

definition SystemOnProjectPath :: "string \<Rightarrow> string \<Rightarrow> AccessPolicy" where
  "SystemOnProjectPath permission projectIDPathParam =
     (System_access permission [])\<lparr>ap_ProjectIDPathParam := projectIDPathParam, ap_SystemOnProjectPath := True\<rparr>"

text \<open>Validate: None is success, Some the error returned.\<close>

datatype access_error =
  InvalidAccessMode string | InvalidScope string | MustUseScopeNone string | CannotDeclareRBAC string
  | CannotGrantSuperadmin string | UnknownPermission string | WrongPermissionScope string string string
  | SystemRequiresSuperadmin | SystemOnProjectPathNeedsParam | SystemCannotDeclareParam
  | ProjectRequiresParam | ProjectInvalidSuperadmin string | RBACCannotUseScope string
  | ResourceTypeRequired | ResourceIDParamRequired | PolicyIDRequired | DuplicatePolicy string

fun check_policies :: "string list \<Rightarrow> string list \<Rightarrow> access_error option" where
  "check_policies seen [] = None"
| "check_policies seen (policy # rest) =
     (if trim_space policy = '''' then Some PolicyIDRequired
      else if policy \<in> set seen then Some (DuplicatePolicy policy)
      else check_policies (policy # seen) rest)"

definition validate_scope :: "AccessPolicy \<Rightarrow> access_error option" where
  "validate_scope a =
     (if ap_Scope a = ''system'' then
        (if ap_Superadmin a \<noteq> ''required'' then Some SystemRequiresSuperadmin
         else if ap_SystemOnProjectPath a then
           (if trim_space (ap_ProjectIDPathParam a) = '''' then Some SystemOnProjectPathNeedsParam else None)
         else if ap_ProjectIDPathParam a \<noteq> '''' then Some SystemCannotDeclareParam
         else None)
      else if ap_Scope a = ''project'' then
        (if trim_space (ap_ProjectIDPathParam a) = '''' then Some ProjectRequiresParam
         else if ap_Superadmin a \<noteq> ''bypass'' \<and> ap_Superadmin a \<noteq> ''none''
           then Some (ProjectInvalidSuperadmin (ap_Superadmin a))
         else None)
      else Some (RBACCannotUseScope (ap_Scope a)))"

definition validate_resource :: "AccessPolicy \<Rightarrow> access_error option" where
  "validate_resource a =
     (case ap_Resource a of
        None \<Rightarrow> None
      | Some r \<Rightarrow>
          if trim_space (rb_ResourceType r) = '''' then Some ResourceTypeRequired
          else if trim_space (rb_IDPathParam r) = '''' then Some ResourceIDParamRequired
          else None)"

definition validateRBAC :: "AccessPolicy \<Rightarrow> access_error option" where
  "validateRBAC a =
     (case Permission_Scope (ap_Permission a) of (permissionScope, ok) \<Rightarrow>
        if \<not> ok then Some (UnknownPermission (ap_Permission a))
        else if permissionScope \<noteq> ap_Scope a
          then Some (WrongPermissionScope (ap_Permission a) permissionScope (ap_Scope a))
        else (case validate_scope a of Some e \<Rightarrow> Some e
              | None \<Rightarrow> (case validate_resource a of Some e \<Rightarrow> Some e
                        | None \<Rightarrow> check_policies [] (ap_Policies a))))"

definition Access_Validate :: "AccessPolicy \<Rightarrow> access_error option" where
  "Access_Validate a =
     (if \<not> Mode_Valid (ap_Mode a) then Some (InvalidAccessMode (ap_Mode a))
      else if \<not> Scope_Valid (ap_Scope a) then Some (InvalidScope (ap_Scope a))
      else if ap_Mode a \<noteq> ''rbac'' then
        (if ap_Scope a \<noteq> ''none'' then Some (MustUseScopeNone (ap_Mode a))
         else if ap_Permission a \<noteq> '''' \<or> ap_ProjectIDPathParam a \<noteq> '''' \<or> ap_Resource a \<noteq> None
             \<or> length (ap_Policies a) \<noteq> 0 then Some (CannotDeclareRBAC (ap_Mode a))
         else if ap_Superadmin a \<noteq> ''none'' then Some (CannotGrantSuperadmin (ap_Mode a))
         else None)
      else validateRBAC a)"

section \<open>Conditional policies\<close>

record Resource =
  res_Type :: string
  res_ID :: string
  res_ProjectID :: string
  res_OwnerID :: string

record PolicyInput =
  pi_Principal :: Principal
  pi_Access :: AccessPolicy
  pi_Role :: string
  pi_ProjectID :: string
  pi_Resource :: "Resource option"

definition KeyOwnedByCallerForDeveloper_Evaluate :: "PolicyInput \<Rightarrow> bool" where
  "KeyOwnedByCallerForDeveloper_Evaluate input =
     (if pr_Superadmin (pi_Principal input) then True
      else if pi_Role input = ''owner'' \<or> pi_Role input = ''maintainer'' then True
      else (case pi_Resource input of
              None \<Rightarrow> False
            | Some r \<Rightarrow>
                if pr_UserID (pi_Principal input) = '''' \<or> res_OwnerID r = '''' then False
                else pr_UserID (pi_Principal input) = res_OwnerID r))"

definition MemberSelfOrElevated_Evaluate :: "PolicyInput \<Rightarrow> bool" where
  "MemberSelfOrElevated_Evaluate input =
     (if pr_Superadmin (pi_Principal input) then True
      else if pi_Role input = ''owner'' \<or> pi_Role input = ''maintainer'' then True
      else (case pi_Resource input of
              None \<Rightarrow> False
            | Some r \<Rightarrow>
                if pr_UserID (pi_Principal input) = '''' then False
                else res_ID r = pr_UserID (pi_Principal input)))"

definition DefaultPolicies :: "string \<Rightarrow> (PolicyInput \<Rightarrow> bool) option" where
  "DefaultPolicies pid =
     (if pid = ''key-owned-by-caller-for-developer'' then Some KeyOwnedByCallerForDeveloper_Evaluate
      else if pid = ''member-self-or-elevated'' then Some MemberSelfOrElevated_Evaluate
      else None)"

section \<open>The authorization middleware (api/admin/v1/server.go)\<close>

text \<open>A decision: the HTTP status, code and message of the error written, or the authorization put in
  the request context.\<close>
record requestAuthorization =
  ra_Principal :: Principal
  ra_ProjectID :: string
  ra_Role :: string
  ra_Resource :: "Resource option"

datatype denial = Denial int string string

text \<open>What the middleware reads of its environment: the path parameters, uuid.Parse, the store's
  membership read (Inl is a database error), the resource resolvers by type (their argument is the
  resource id and the project id of the path), and the policy registry.\<close>
record authz_env =
  ae_Param :: "string \<Rightarrow> string"
  ae_uuid_ok :: "string \<Rightarrow> bool"
  ae_GetProjectMember :: "string \<Rightarrow> string \<Rightarrow> unit + ProjectMember option"
  ae_Resolvers :: "string \<Rightarrow> (string \<Rightarrow> string \<Rightarrow> unit + Resource) option"
  ae_Policies :: "string \<Rightarrow> (PolicyInput \<Rightarrow> unit + bool) option"

definition resolve_resource :: "authz_env \<Rightarrow> AccessPolicy \<Rightarrow> requestAuthorization \<Rightarrow> denial + requestAuthorization" where
  "resolve_resource env access auth =
     (case ap_Resource access of
        None \<Rightarrow> Inr auth
      | Some b \<Rightarrow>
          (case ae_Resolvers env (rb_ResourceType b) of
             None \<Rightarrow> Inl (Denial 500 ''internal'' ''resource authorization is not configured'')
           | Some resolver \<Rightarrow>
               (case resolver (ae_Param env (rb_IDPathParam b)) (ra_ProjectID auth) of
                  Inl _ \<Rightarrow> Inl (Denial 404 ''not_found'' ''resource not found'')
                | Inr res \<Rightarrow>
                    if res_ID res = '''' \<or> res_ProjectID res \<noteq> ra_ProjectID auth
                    then Inl (Denial 404 ''not_found'' ''resource not found'')
                    else Inr (auth\<lparr>ra_Resource := Some res\<rparr>))))"

fun evaluate_policies :: "authz_env \<Rightarrow> AccessPolicy \<Rightarrow> requestAuthorization \<Rightarrow> string list \<Rightarrow> denial option" where
  "evaluate_policies env access auth [] = None"
| "evaluate_policies env access auth (policyID # rest) =
     (case ae_Policies env policyID of
        None \<Rightarrow> Some (Denial 500 ''internal'' ''authorization policy is not configured'')
      | Some policy \<Rightarrow>
          (case policy \<lparr>pi_Principal = ra_Principal auth, pi_Access = access, pi_Role = ra_Role auth,
                        pi_ProjectID = ra_ProjectID auth, pi_Resource = ra_Resource auth\<rparr> of
             Inl _ \<Rightarrow> Some (Denial 403 ''forbidden'' ''insufficient permissions'')
           | Inr allowed \<Rightarrow>
               if \<not> allowed then Some (Denial 403 ''forbidden'' ''insufficient permissions'')
               else evaluate_policies env access auth rest))"

definition resolveAndEvaluatePolicies :: "authz_env \<Rightarrow> AccessPolicy \<Rightarrow> requestAuthorization \<Rightarrow> denial + requestAuthorization" where
  "resolveAndEvaluatePolicies env access auth =
     (case resolve_resource env access auth of
        Inl d \<Rightarrow> Inl d
      | Inr auth' \<Rightarrow>
          (case evaluate_policies env access auth' (ap_Policies access) of
             Some d \<Rightarrow> Inl d
           | None \<Rightarrow> Inr auth'))"

definition authorizeRBAC :: "authz_env \<Rightarrow> AccessPolicy \<Rightarrow> requestAuthorization \<Rightarrow> denial + requestAuthorization" where
  "authorizeRBAC env access auth =
     (if ap_Scope access = ''system'' then
        (if \<not> HasSystemPermission (ra_Principal auth) (ap_Permission access)
         then Inl (Denial 403 ''forbidden'' ''superadmin access required'')
         else Inr auth)
      else if ap_Scope access = ''project'' then
        (let projectID = ae_Param env (ap_ProjectIDPathParam access) in
         if projectID = '''' then Inl (Denial 400 ''bad_request'' ''missing project ID'')
         else if \<not> ae_uuid_ok env projectID then Inl (Denial 422 ''bad_request'' ''invalid project ID'')
         else
           let auth1 = auth\<lparr>ra_ProjectID := projectID\<rparr> in
           if pr_Superadmin (ra_Principal auth1) \<and> ap_Superadmin access = ''bypass''
           then resolveAndEvaluatePolicies env access auth1
           else (case ae_GetProjectMember env projectID (pr_UserID (ra_Principal auth1)) of
                   Inl _ \<Rightarrow> Inl (Denial 500 ''internal'' ''failed to check project membership'')
                 | Inr None \<Rightarrow> Inl (Denial 403 ''forbidden'' ''you are not a member of this project'')
                 | Inr (Some member) \<Rightarrow>
                     let role = member_Role member in
                     if \<not> Role_Valid role \<or> \<not> HasProjectPermission (ra_Principal auth1) role (ap_Permission access)
                     then Inl (Denial 403 ''forbidden'' ''insufficient permissions'')
                     else resolveAndEvaluatePolicies env access (auth1\<lparr>ra_Role := role\<rparr>)))
      else Inl (Denial 500 ''internal'' ''invalid authorization scope''))"

definition bearerToken :: "string \<Rightarrow> string" where
  "bearerToken header =
     (if \<not> has_prefix header ''Bearer '' then '''' else trim_space (drop 7 header))"

record token_claims =
  tc_TokenType :: string
  tc_UserID :: string

text \<open>The middleware on a configured server. \<^term>\<open>validate\<close> is the token manager, \<^term>\<open>getUser\<close> the
  user read.\<close>
definition authorizationMiddleware ::
  "(string \<Rightarrow> token_claims option) \<Rightarrow> (string \<Rightarrow> User option) \<Rightarrow> authz_env \<Rightarrow> AccessPolicy \<Rightarrow> string
   \<Rightarrow> denial + requestAuthorization" where
  "authorizationMiddleware validate getUser env access header =
     (let token = bearerToken header in
      if token = '''' then Inl (Denial 401 ''unauthorized'' ''missing or invalid authorization header'')
      else (case validate token of
              None \<Rightarrow> Inl (Denial 401 ''unauthorized'' ''invalid or expired token'')
            | Some claims \<Rightarrow>
                if tc_TokenType claims \<noteq> ''access'' then Inl (Denial 401 ''unauthorized'' ''expected access token'')
                else (case getUser (tc_UserID claims) of
                        None \<Rightarrow> Inl (Denial 401 ''unauthorized'' ''user not found'')
                      | Some user \<Rightarrow>
                          if user_Status user \<noteq> ''active'' then Inl (Denial 403 ''forbidden'' ''user account is disabled'')
                          else
                            let auth = \<lparr>ra_Principal = \<lparr>pr_UserID = user_ID user, pr_Superadmin = user_IsSuperadmin user\<rparr>,
                                        ra_ProjectID = '''', ra_Role = '''', ra_Resource = None\<rparr> in
                            if ap_Mode access = ''rbac'' then authorizeRBAC env access auth else Inr auth)))"

section \<open>The permission catalog\<close>

lemma permissionScopes_distinct: "distinct (map fst permissionScopes)"
  by code_simp

lemma scopes_are: "list_all (\<lambda>(p, s). s = ''system'' \<or> s = ''project'') permissionScopes"
  by code_simp

lemma Permission_Scope_iff: "Permission_Scope p = (s, True) \<longleftrightarrow> (p, s) \<in> set permissionScopes"
  using map_of_eq_Some_iff[OF permissionScopes_distinct, of p s]
  by (auto simp: Permission_Scope_def split: option.splits dest: map_of_SomeD)

lemma Permission_Valid_iff: "Permission_Valid p \<longleftrightarrow> p \<in> fst ` set permissionScopes"
  by (simp add: Permission_Valid_def map_of_eq_None_iff)

lemma in_scope_iff: "p \<in> set (permissionsInScope s) \<longleftrightarrow> Permission_Scope p = (s, True)"
  by (force simp: permissionsInScope_def Permission_Scope_iff)

lemma in_scope_valid: "p \<in> set (permissionsInScope s) \<Longrightarrow> Permission_Valid p"
  by (force simp: permissionsInScope_def Permission_Valid_iff)

lemma Has_scope [simp]: "Has (NewCapabilitySet (permissionsInScope s)) p \<longleftrightarrow> Permission_Scope p = (s, True)"
  using in_scope_iff[of p s] in_scope_valid[of p s] by (auto simp: Has_def NewCapabilitySet_def)

lemma Has_Nil [simp]: "\<not> Has [] p"
  by (simp add: Has_def)

lemma role_permissions_project:
  "list_all (\<lambda>p. Permission_Scope p = (''project'', True)) ownerPermissions"
  by code_simp

lemma owner_permissions_complete: "list_all (\<lambda>p. List.member ownerPermissions p) (permissionsInScope ''project'')"
  by code_simp

lemma owner_permissions: "p \<in> set ownerPermissions \<longleftrightarrow> Permission_Scope p = (''project'', True)"
  using role_permissions_project owner_permissions_complete in_scope_iff[of p "''project''"]
  by (auto simp: list_all_iff)

lemma role_subset:
  "set developerPermissions \<subseteq> set maintainerPermissions" "set maintainerPermissions \<subseteq> set ownerPermissions"
  unfolding maintainerPermissions_def ownerPermissions_def appendPermissions_def set_append
  by (rule Un_upper1)+

lemma role_strict:
  "\<not> List.member developerPermissions ''project.settings.write''"
  "List.member maintainerPermissions ''project.settings.write''"
  "\<not> List.member maintainerPermissions ''project.archive''"
  "List.member ownerPermissions ''project.archive''"
  by code_simp+

lemma NewCapabilitySet_role:
  assumes "set ps \<subseteq> set ownerPermissions"
  shows "set (NewCapabilitySet ps) = set ps"
proof -
  have "p \<in> set ps \<Longrightarrow> Permission_Valid p" for p
    using assms owner_permissions[of p] in_scope_valid in_scope_iff by blast
  then show ?thesis by (auto simp: NewCapabilitySet_def)
qed

lemma PermissionsForRole_cases:
  "PermissionsForRole ''developer'' = (NewCapabilitySet developerPermissions, True)"
  "PermissionsForRole ''maintainer'' = (NewCapabilitySet maintainerPermissions, True)"
  "PermissionsForRole ''owner'' = (NewCapabilitySet ownerPermissions, True)"
  "\<not> Role_Valid r \<Longrightarrow> PermissionsForRole r = ([], False)"
  by (auto simp: PermissionsForRole_def permissionsByRole_def Role_Valid_def)

lemma role_capabilities:
  "set (fst (PermissionsForRole ''developer'')) = set developerPermissions"
  "set (fst (PermissionsForRole ''maintainer'')) = set maintainerPermissions"
  "set (fst (PermissionsForRole ''owner'')) = set ownerPermissions"
  using role_subset by (auto simp: PermissionsForRole_cases NewCapabilitySet_role)

lemma ProjectCapabilities_user:
  "Authenticated u \<Longrightarrow> \<not> pr_Superadmin u \<Longrightarrow> ProjectCapabilities u r = fst (PermissionsForRole r)"
  by (auto simp: ProjectCapabilities_def PermissionsForRole_def split: option.splits)

lemma HasProjectPermission_iff:
  "HasProjectPermission u r p \<longleftrightarrow> Permission_Scope p = (''project'', True) \<and> Authenticated u
     \<and> (pr_Superadmin u \<or> p \<in> set (fst (PermissionsForRole r)))"
proof (cases "Authenticated u \<and> \<not> pr_Superadmin u")
  case True
  then show ?thesis
    by (cases "Permission_Scope p") (auto simp: HasProjectPermission_def ProjectCapabilities_user Has_def)
next
  case False
  then show ?thesis
    by (cases "Permission_Scope p") (auto simp: HasProjectPermission_def ProjectCapabilities_def Has_Nil)
qed

lemma HasSystemPermission_iff:
  "HasSystemPermission u p \<longleftrightarrow> Permission_Scope p = (''system'', True) \<and> Authenticated u \<and> pr_Superadmin u"
  by (cases "Permission_Scope p") (auto simp: HasSystemPermission_def SystemCapabilities_def Has_Nil)

lemma sortPermissions_sortStrings: "sortPermissions ps = sortStrings ps"
  by (simp add: sortPermissions_def sortStrings_def)

section \<open>Properties of roles and capabilities\<close>

text \<open>The role hierarchy: an authenticated ordinary member gains strictly more permissions from
  developer to maintainer to owner; an owner holds exactly the project-scoped permissions, the same
  as a superadmin; and a role outside the catalog grants nothing at all.\<close>
lemma role_hierarchy:
  assumes "Authenticated u" "\<not> pr_Superadmin u" "\<not> Role_Valid r"
  shows "set (ProjectCapabilities u ''developer'') \<subset> set (ProjectCapabilities u ''maintainer'')
    \<and> set (ProjectCapabilities u ''maintainer'') \<subset> set (ProjectCapabilities u ''owner'')
    \<and> set (ProjectCapabilities u ''owner'') = {p. Permission_Scope p = (''project'', True)}
    \<and> set (ProjectCapabilities u ''owner'') = set (ProjectCapabilities (u\<lparr>pr_Superadmin := True\<rparr>) r)
    \<and> ProjectCapabilities u r = []"
proof -
  have o: "set ownerPermissions = {p. Permission_Scope p = (''project'', True)}"
    using owner_permissions by auto
  have "Authenticated (u\<lparr>pr_Superadmin := True\<rparr>)" using assms(1) by (simp add: Authenticated_def)
  then have "set (ProjectCapabilities (u\<lparr>pr_Superadmin := True\<rparr>) r) = {p. Permission_Scope p = (''project'', True)}"
    using Has_scope[of "''project''"] by (auto simp: ProjectCapabilities_def Has_def)
  then show ?thesis
    using role_subset role_strict
    by (auto simp: ProjectCapabilities_user[OF assms(1,2)] role_capabilities o PermissionsForRole_cases(4)[OF assms(3)])
qed

lemma role_hierarchy_witness:
  "ProjectCapabilities \<lparr>pr_UserID = ''u1'', pr_Superadmin = False\<rparr> ''admin'' = []"
  using role_hierarchy[of "\<lparr>pr_UserID = ''u1'', pr_Superadmin = False\<rparr>" "''admin''"]
  by (simp add: Authenticated_def trim_space_def is_space_def char_in_def Role_Valid_def)

text \<open>Default deny: a project permission is held exactly by authenticated principals that are
  superadmins or whose role is known and lists it, and only if it is a project-scoped permission of
  the catalog; a system permission is held exactly by authenticated superadmins, and only if it is
  system-scoped. No permission is held through both scopes.\<close>
lemma permission_default_deny:
  "(HasProjectPermission u r p \<longleftrightarrow> Permission_Scope p = (''project'', True) \<and> Authenticated u
      \<and> (pr_Superadmin u
         \<or> (r = ''developer'' \<and> p \<in> set developerPermissions)
         \<or> (r = ''maintainer'' \<and> p \<in> set maintainerPermissions)
         \<or> (r = ''owner'' \<and> p \<in> set ownerPermissions)))
   \<and> (HasSystemPermission u p \<longleftrightarrow> Permission_Scope p = (''system'', True) \<and> Authenticated u \<and> pr_Superadmin u)
   \<and> \<not> (HasProjectPermission u r p \<and> HasSystemPermission u' p)"
proof -
  have "p \<in> set (fst (PermissionsForRole r)) \<longleftrightarrow> (r = ''developer'' \<and> p \<in> set developerPermissions)
         \<or> (r = ''maintainer'' \<and> p \<in> set maintainerPermissions)
         \<or> (r = ''owner'' \<and> p \<in> set ownerPermissions)"
  proof (cases "Role_Valid r")
    case True
    then consider "r = ''developer''" | "r = ''maintainer''" | "r = ''owner''" by (auto simp: Role_Valid_def)
    then show ?thesis by cases (simp_all add: role_capabilities)
  next
    case False
    then show ?thesis using PermissionsForRole_cases(4)[OF False] by (auto simp: Role_Valid_def)
  qed
  then show ?thesis by (simp add: HasProjectPermission_iff HasSystemPermission_iff)
qed

text \<open>A capability set reported to clients lists each held permission once in ascending order, and
  AllPermissions is the whole catalog, each permission once, ascending.\<close>
lemma capability_listing:
  "sorted (Strings (NewCapabilitySet ps)) \<and> distinct (Strings (NewCapabilitySet ps))
   \<and> set (Strings (NewCapabilitySet ps)) = {p \<in> set ps. Permission_Valid p}
   \<and> length (Strings (NewCapabilitySet ps)) = Len (NewCapabilitySet ps)
   \<and> sorted AllPermissions \<and> distinct AllPermissions \<and> set AllPermissions = {p. Permission_Valid p}"
proof -
  have "length (sortStrings xs) = length xs" for xs :: "string list" by (simp add: sortStrings_sort)
  then show ?thesis
    using permissionScopes_distinct
    by (auto simp: Strings_def Permissions_def sortPermissions_sortStrings sortStrings_correct NewCapabilitySet_def
        Len_def AllPermissions_def Permission_Valid_iff)
qed

section \<open>Properties of the middleware\<close>

lemma resolve_resource_Inr:
  assumes "resolve_resource env access auth = Inr auth'"
  shows "ra_Principal auth' = ra_Principal auth" "ra_ProjectID auth' = ra_ProjectID auth" "ra_Role auth' = ra_Role auth"
    "ap_Resource access \<noteq> None \<Longrightarrow> \<exists>res. ra_Resource auth' = Some res \<and> res_ProjectID res = ra_ProjectID auth \<and> res_ID res \<noteq> ''''"
  using assms by (auto simp: resolve_resource_def split: option.splits sum.splits if_splits)

lemma evaluate_policies_None:
  "evaluate_policies env access auth ps = None \<Longrightarrow> pid \<in> set ps \<Longrightarrow>
     \<exists>f. ae_Policies env pid = Some f \<and>
       f \<lparr>pi_Principal = ra_Principal auth, pi_Access = access, pi_Role = ra_Role auth,
          pi_ProjectID = ra_ProjectID auth, pi_Resource = ra_Resource auth\<rparr> = Inr True"
  by (induction env access auth ps rule: evaluate_policies.induct)
    (auto split: option.splits sum.splits if_splits)

definition policies_hold :: "authz_env \<Rightarrow> AccessPolicy \<Rightarrow> requestAuthorization \<Rightarrow> bool" where
  "policies_hold env access auth =
     list_all (\<lambda>pid. \<exists>f. ae_Policies env pid = Some f \<and>
       f \<lparr>pi_Principal = ra_Principal auth, pi_Access = access, pi_Role = ra_Role auth,
          pi_ProjectID = ra_ProjectID auth, pi_Resource = ra_Resource auth\<rparr> = Inr True) (ap_Policies access)"

text \<open>What an accepted project-scoped request has been checked for.\<close>
definition project_grant :: "authz_env \<Rightarrow> AccessPolicy \<Rightarrow> requestAuthorization \<Rightarrow> bool" where
  "project_grant env access auth =
     (ra_ProjectID auth = ae_Param env (ap_ProjectIDPathParam access) \<and> ra_ProjectID auth \<noteq> ''''
      \<and> ae_uuid_ok env (ra_ProjectID auth)
      \<and> ((pr_Superadmin (ra_Principal auth) \<and> ap_Superadmin access = ''bypass'')
         \<or> (\<exists>m. ae_GetProjectMember env (ra_ProjectID auth) (pr_UserID (ra_Principal auth)) = Inr (Some m)
              \<and> Role_Valid (member_Role m) \<and> ra_Role auth = member_Role m
              \<and> HasProjectPermission (ra_Principal auth) (member_Role m) (ap_Permission access)))
      \<and> (case ap_Resource access of None \<Rightarrow> True
         | Some b \<Rightarrow> (\<exists>res. ra_Resource auth = Some res \<and> res_ProjectID res = ra_ProjectID auth))
      \<and> policies_hold env access auth)"

lemma resolveAndEvaluate_grant:
  assumes "resolveAndEvaluatePolicies env access auth = Inr auth'"
  shows "ra_Principal auth' = ra_Principal auth \<and> ra_ProjectID auth' = ra_ProjectID auth \<and> ra_Role auth' = ra_Role auth
    \<and> (case ap_Resource access of None \<Rightarrow> True
       | Some b \<Rightarrow> (\<exists>res. ra_Resource auth' = Some res \<and> res_ProjectID res = ra_ProjectID auth'))
    \<and> policies_hold env access auth'"
  using assms evaluate_policies_None[of env access auth' "ap_Policies access"]
  by (auto simp: resolveAndEvaluatePolicies_def policies_hold_def list_all_iff resolve_resource_Inr
      split: sum.splits option.splits dest!: resolve_resource_Inr(4))

lemma authorizeRBAC_grant:
  assumes "authorizeRBAC env access auth = Inr auth'"
  shows "ra_Principal auth' = ra_Principal auth
    \<and> ((ap_Scope access = ''system'' \<and> HasSystemPermission (ra_Principal auth) (ap_Permission access))
       \<or> (ap_Scope access = ''project'' \<and> project_grant env access auth'))"
proof (cases "ap_Scope access = ''system''")
  case True
  then show ?thesis using assms by (auto simp: authorizeRBAC_def split: if_splits)
next
  case False
  then have p: "ap_Scope access = ''project''" using assms by (auto simp: authorizeRBAC_def split: if_splits)
  let ?id = "ae_Param env (ap_ProjectIDPathParam access)"
  have id: "?id \<noteq> ''''" "ae_uuid_ok env ?id"
    using assms p by (auto simp: authorizeRBAC_def Let_def split: if_splits)
  show ?thesis
  proof (cases "pr_Superadmin (ra_Principal auth) \<and> ap_Superadmin access = ''bypass''")
    case True
    then have "resolveAndEvaluatePolicies env access (auth\<lparr>ra_ProjectID := ?id\<rparr>) = Inr auth'"
      using assms p id by (simp add: authorizeRBAC_def Let_def)
    from resolveAndEvaluate_grant[OF this] show ?thesis using p id True by (simp add: project_grant_def)
  next
    case False
    then obtain m where m: "ae_GetProjectMember env ?id (pr_UserID (ra_Principal auth)) = Inr (Some m)"
        "Role_Valid (member_Role m)" "HasProjectPermission (ra_Principal auth) (member_Role m) (ap_Permission access)"
        "resolveAndEvaluatePolicies env access (auth\<lparr>ra_ProjectID := ?id, ra_Role := member_Role m\<rparr>) = Inr auth'"
      using assms p id by (auto simp: authorizeRBAC_def Let_def split: if_splits sum.splits option.splits)
    from resolveAndEvaluate_grant[OF m(4)] show ?thesis using p id m(1-3) by (simp add: project_grant_def)
  qed
qed


definition sample_user :: "string \<Rightarrow> bool \<Rightarrow> User" where
  "sample_user uid sa = \<lparr>user_ID = uid, user_Email = '''', user_IsSuperadmin = sa, user_MaxProjects = 1, user_Status = ''active''\<rparr>"

definition sample_env :: "string \<Rightarrow> authz_env" where
  "sample_env role = \<lparr>ae_Param = (\<lambda>_. ''p1''), ae_uuid_ok = (\<lambda>_. True),
     ae_GetProjectMember = (\<lambda>p u. Inr (Some \<lparr>member_UserID = u, member_ProjectID = p, member_Role = role,
        member_CreditQuotaPct = None, member_DeniedModels = []\<rparr>)),
     ae_Resolvers = (\<lambda>_. None), ae_Policies = (\<lambda>_. None)\<rparr>"

lemma sample_facts:
  "Permission_Scope ''project.archive'' = (''project'', True)"
  "Permission_Scope ''project.read'' = (''project'', True)"
  "List.member ownerPermissions ''project.read''"
  "bearerToken ''Bearer t'' = ''t''"
  "trim_space ''u1'' = ''u1''"
  by code_simp+


text \<open>RequireProjectMembership does not make a superadmin's membership role matter: a superadmin who
  is only a developer member passes an operation that demands project.archive with membership
  required, although no developer holds that permission. The option only demands that some
  membership row exists.\<close>
lemma membership_required_ignores_role:
  "(\<exists>auth. authorizeRBAC (sample_env ''developer'') (Project_access ''project.archive'' ''projectID'' [RequireProjectMembership])
      \<lparr>ra_Principal = \<lparr>pr_UserID = ''u1'', pr_Superadmin = True\<rparr>, ra_ProjectID = '''', ra_Role = '''', ra_Resource = None\<rparr>
      = Inr auth \<and> ra_Role auth = ''developer'')
   \<and> \<not> HasProjectPermission \<lparr>pr_UserID = ''u1'', pr_Superadmin = False\<rparr> ''developer'' ''project.archive''"
proof -
  have "HasProjectPermission \<lparr>pr_UserID = ''u1'', pr_Superadmin = True\<rparr> ''developer'' ''project.archive''"
    using sample_facts by (simp add: HasProjectPermission_iff Authenticated_def)
  then have "\<exists>auth. authorizeRBAC (sample_env ''developer'') (Project_access ''project.archive'' ''projectID'' [RequireProjectMembership])
      \<lparr>ra_Principal = \<lparr>pr_UserID = ''u1'', pr_Superadmin = True\<rparr>, ra_ProjectID = '''', ra_Role = '''', ra_Resource = None\<rparr>
      = Inr auth \<and> ra_Role auth = ''developer''"
    by (simp add: authorizeRBAC_def sample_env_def Role_Valid_def Project_access_def RequireProjectMembership_def
        resolveAndEvaluatePolicies_def resolve_resource_def Let_def)
  moreover have "\<not> List.member developerPermissions ''project.archive''" by code_simp
  ultimately show ?thesis by (auto simp: HasProjectPermission_iff role_capabilities)
qed

text \<open>Validate accepts exactly the coherent RBAC declarations the constructors can build: a system
  declaration validates iff its permission is system-scoped; SystemOnProjectPath iff moreover its
  path parameter is not blank; a project declaration, with or without RequireProjectMembership, iff
  the permission is project-scoped and the path parameter is not blank; and the three plain modes
  always validate.\<close>
lemma constructors_validate:
  "(Access_Validate (System_access p []) = None \<longleftrightarrow> Permission_Scope p = (''system'', True))
   \<and> (Access_Validate (SystemOnProjectPath p path) = None
        \<longleftrightarrow> Permission_Scope p = (''system'', True) \<and> trim_space path \<noteq> '''')
   \<and> (Access_Validate (Project_access p path []) = None
        \<longleftrightarrow> Permission_Scope p = (''project'', True) \<and> trim_space path \<noteq> '''')
   \<and> (Access_Validate (Project_access p path [RequireProjectMembership]) = None
        \<longleftrightarrow> Permission_Scope p = (''project'', True) \<and> trim_space path \<noteq> '''')
   \<and> Access_Validate Public_access = None \<and> Access_Validate Authenticated_access = None
   \<and> Access_Validate HMAC_access = None"
  by (cases "Permission_Scope p")
    (auto simp: Access_Validate_def System_access_def SystemOnProjectPath_def Project_access_def
      RequireProjectMembership_def Mode_Valid_def Scope_Valid_def validateRBAC_def validate_scope_def
      validate_resource_def Public_access_def Authenticated_access_def HMAC_access_def plain_access_def)

end
