(* ===== verification/GoTime.thy ===== *)
theory GoTime
  imports GoFloat
begin

text \<open>
  The parts of Go's package time the gateway uses. A time.Time is the number of nanoseconds since
  1970-01-01T00:00:00Z (an unbounded integer, as time.Time's range far exceeds int64 nanoseconds); a
  Duration is an int64 number of nanoseconds. Dates are proleptic Gregorian, in UTC or at a fixed
  offset from it; time.ParseDuration is modelled in full, with its overflow checks and its float64
  arithmetic on fractions.
\<close>

definition nanosecond :: int where "nanosecond = 1"
definition second :: int where "second = 1000000000"
definition minute :: int where "minute = 60000000000"
definition hour :: int where "hour = 3600000000000"
definition day :: int where "day = 86400000000000"

lemmas duration_units = nanosecond_def second_def minute_def hour_def day_def

text \<open>Time.Sub saturates at the int64 range.\<close>
definition time_sub :: "int \<Rightarrow> int \<Rightarrow> int" where
  "time_sub a b = max int64_min (min int64_max (a - b))"

lemma time_sub_id [simp]: "is_i64 (a - b) \<Longrightarrow> time_sub a b = a - b"
  by (simp add: time_sub_def is_i64_def)

section \<open>Dates\<close>

definition is_leap :: "int \<Rightarrow> bool" where
  "is_leap y = (y mod 4 = 0 \<and> (y mod 100 \<noteq> 0 \<or> y mod 400 = 0))"

text \<open>Days from 1970-01-01 to January 1st of year y.\<close>
definition days_before_year :: "int \<Rightarrow> int" where
  "days_before_year y = 365 * (y - 1970) + (y - 1) div 4 - (y - 1) div 100 + (y - 1) div 400 - 477"

text \<open>Days before month m (1 to 13) in a year; Feb 29 shifts the later months.\<close>
definition days_before_month :: "bool \<Rightarrow> int \<Rightarrow> int" where
  "days_before_month leap m =
     (let t = (if m = 1 then 0 else if m = 2 then 31 else if m = 3 then 59 else if m = 4 then 90
               else if m = 5 then 120 else if m = 6 then 151 else if m = 7 then 181 else if m = 8 then 212
               else if m = 9 then 243 else if m = 10 then 273 else if m = 11 then 304 else if m = 12 then 334
               else 365)
      in if leap \<and> 3 \<le> m then t + 1 else t)"

definition year_of_days :: "int \<Rightarrow> int" where
  "year_of_days d =
     (let e = 1970 + (d * 400) div 146097 in
      if d < days_before_year e then e - 1
      else if days_before_year (e + 1) \<le> d then e + 1
      else e)"

definition month_of_yday :: "bool \<Rightarrow> int \<Rightarrow> int" where
  "month_of_yday leap yd =
     (let b = days_before_month leap in
      if yd < b 2 then 1 else if yd < b 3 then 2 else if yd < b 4 then 3 else if yd < b 5 then 4
      else if yd < b 6 then 5 else if yd < b 7 then 6 else if yd < b 8 then 7 else if yd < b 9 then 8
      else if yd < b 10 then 9 else if yd < b 11 then 10 else if yd < b 12 then 11 else 12)"

definition days_of :: "int \<Rightarrow> int" where "days_of t = t div day"

definition year :: "int \<Rightarrow> int" where "year t = year_of_days (days_of t)"

definition yday :: "int \<Rightarrow> int" where "yday t = days_of t - days_before_year (year t)"

definition month :: "int \<Rightarrow> int" where "month t = month_of_yday (is_leap (year t)) (yday t)"

definition mday :: "int \<Rightarrow> int" where
  "mday t = yday t - days_before_month (is_leap (year t)) (month t) + 1"

text \<open>Weekday: Sunday is 0; 1970-01-01 was a Thursday.\<close>
definition weekday :: "int \<Rightarrow> int" where "weekday t = (days_of t + 4) mod 7"

text \<open>time.Date(y, m, d, 0, 0, 0, 0, UTC): the month is normalised into the year, the day counts on.\<close>
definition date :: "int \<Rightarrow> int \<Rightarrow> int \<Rightarrow> int" where
  "date y m d =
     (let y' = y + (m - 1) div 12; m' = (m - 1) mod 12 + 1 in
      (days_before_year y' + days_before_month (is_leap y') m' + d - 1) * day)"

text \<open>AddDate(0, 0, n) keeps the time of day.\<close>
definition add_days :: "int \<Rightarrow> int \<Rightarrow> int" where "add_days t n = t + n * day"

lemma div_bounds: "0 < (k::int) \<Longrightarrow> k * (x div k) \<le> x \<and> x < k * (x div k) + k"
  using mult_div_mod_eq[of k x] pos_mod_bound[of k x] pos_mod_sign[of k x] by linarith

lemma div_pred:
  assumes "0 < (k::int)"
  shows "y div k = (y - 1) div k + (if y mod k = 0 then 1 else 0)"
proof -
  let ?q = "(y - 1) div k" and ?r = "(y - 1) mod k"
  have y: "y = k * ?q + (?r + 1)" using mult_div_mod_eq[of k "y - 1"] by linarith
  have r: "0 \<le> ?r" "?r < k" using assms by simp_all
  show ?thesis
  proof (cases "?r + 1 = k")
    case True
    then have "y = k * (?q + 1)" using y by (simp add: algebra_simps)
    then have "y div k = ?q + 1" "y mod k = 0"
      using assms by (metis nonzero_mult_div_cancel_left less_irrefl, metis mod_mult_self1_is_0)
    then show ?thesis by simp
  next
    case False
    then have "?r + 1 < k" "0 \<le> ?r + 1" using r by linarith+
    then have "y div k = ?q" "y mod k = ?r + 1"
      using int_div_pos_eq[OF y] int_mod_pos_eq[OF y] by blast+
    then show ?thesis using r by simp
  qed
qed

lemma year_arith:
  fixes y :: int
  assumes "A = A' + p" "B = B' + q" "C = C' + r"
  shows "365 * (y + 1 - 1970) + A - B + C - 477 = (365 * (y - 1970) + A' - B' + C' - 477) + (365 + p - q + r)"
  using assms by simp

lemma days_before_year_Suc: "days_before_year (y + 1) = days_before_year y + (if is_leap y then 366 else 365)"
proof -
  have "(400::int) = 4 * 100" "(100::int) = 25 * 4" by simp_all
  then have "400 dvd y \<Longrightarrow> 100 dvd y" "100 dvd y \<Longrightarrow> 4 dvd y" by (metis dvd_mult_right)+
  then have f: "y mod 400 = 0 \<Longrightarrow> y mod 100 = 0" "y mod 100 = 0 \<Longrightarrow> y mod 4 = 0"
    unfolding mod_eq_0_iff_dvd by blast+
  have i: "(if is_leap y then 366 else 365) = 365 + (if y mod 4 = 0 then 1 else 0)
      - (if y mod 100 = 0 then 1 else 0) + (if y mod 400 = 0 then 1 else (0::int))"
    unfolding is_leap_def using f by (cases "y mod 400 = 0"; cases "y mod 100 = 0"; cases "y mod 4 = 0") (simp_all only: if_True if_False, simp_all)
  have e: "days_before_year (y + 1) = 365 * (y + 1 - 1970) + y div 4 - y div 100 + y div 400 - 477"
      "days_before_year y = 365 * (y - 1970) + (y - 1) div 4 - (y - 1) div 100 + (y - 1) div 400 - 477"
    by (simp_all add: days_before_year_def)
  show ?thesis unfolding i e by (rule year_arith; rule div_pred) simp_all
qed

lemma days_before_year_bounds:
  "400 * days_before_year y \<le> 146097 * (y - 1970) + 800 \<and> 146097 * (y - 1970) - 800 \<le> 400 * days_before_year y"
proof -
  define a b c where "a = (y - 1) div 4" and "b = (y - 1) div 100" and "c = (y - 1) div 400"
  have "4 * a \<le> y - 1 \<and> y - 1 < 4 * a + 4" "100 * b \<le> y - 1 \<and> y - 1 < 100 * b + 100"
       "400 * c \<le> y - 1 \<and> y - 1 < 400 * c + 400"
    unfolding a_def b_def c_def by (rule div_bounds, simp)+
  then have "400 * a \<le> 100 * y - 100" "100 * y - 400 \<le> 400 * a" "400 * b \<le> 4 * y - 4" "4 * y - 400 \<le> 400 * b"
       "400 * c \<le> y - 1" "y - 400 \<le> 400 * c" by linarith+
  moreover have "400 * days_before_year y = 146000 * y - 146000 * 1970 + 400 * a - 400 * b + 400 * c - 190800"
    by (simp add: days_before_year_def a_def b_def c_def)
  moreover have "146097 * (y - 1970) = 146097 * y - 146097 * 1970" by simp
  ultimately show ?thesis by linarith
qed

lemma year_of_days_correct:
  "days_before_year (year_of_days d) \<le> d \<and> d < days_before_year (year_of_days d + 1)"
proof -
  define e where "e = 1970 + (d * 400) div 146097"
  have e: "146097 * (e - 1970) \<le> 400 * d" "400 * d < 146097 * (e - 1970) + 146097"
    using div_bounds[of 146097 "d * 400"] unfolding e_def by (simp_all add: algebra_simps)
  have "days_before_year (e - 1) \<le> d" "d < days_before_year (e + 1 + 1)"
    using days_before_year_bounds[of "e - 1"] days_before_year_bounds[of "e + 2"] e by (simp_all add: algebra_simps)
  then show ?thesis
    unfolding year_of_days_def Let_def e_def[symmetric] by auto
qed

lemma days_before_month_table [simp]:
  "days_before_month l 1 = 0" "days_before_month l 2 = 31" "days_before_month l 3 = (if l then 60 else 59)"
  "days_before_month l 4 = (if l then 91 else 90)" "days_before_month l 5 = (if l then 121 else 120)"
  "days_before_month l 6 = (if l then 152 else 151)" "days_before_month l 7 = (if l then 182 else 181)"
  "days_before_month l 8 = (if l then 213 else 212)" "days_before_month l 9 = (if l then 244 else 243)"
  "days_before_month l 10 = (if l then 274 else 273)" "days_before_month l 11 = (if l then 305 else 304)"
  "days_before_month l 12 = (if l then 335 else 334)" "days_before_month l 13 = (if l then 366 else 365)"
  by (simp_all add: days_before_month_def)

lemma month_of_yday_correct:
  assumes "0 \<le> yd" "yd < (if leap then 366 else 365)"
  defines "m \<equiv> month_of_yday leap yd"
  shows "1 \<le> m \<and> m \<le> 12 \<and> days_before_month leap m \<le> yd \<and> yd < days_before_month leap (m + 1)"
  using assms(1,2) unfolding m_def month_of_yday_def Let_def by (cases leap) (simp_all split: if_split)

lemma yday_bounds: "0 \<le> yday t \<and> yday t < (if is_leap (year t) then 366 else 365)"
  using year_of_days_correct[of "days_of t"] days_before_year_Suc[of "year t"]
  by (simp add: yday_def year_def)

lemmas month_correct = month_of_yday_correct[OF conjunct1[OF yday_bounds] conjunct2[OF yday_bounds], folded month_def]

text \<open>time.Date on the components of a time gives the midnight that starts its day.\<close>
lemma date_components: "date (year t) (month t) (mday t) = days_of t * day"
proof -
  have "1 \<le> month t" "month t \<le> 12" using month_correct[of t] by auto
  then have "(month t - 1) div 12 = 0" "(month t - 1) mod 12 + 1 = month t" by presburger+
  then show ?thesis by (simp add: date_def mday_def yday_def Let_def)
qed

lemma date_shift: "date (year t) (month t) (mday t + n) = (days_of t + n) * day"
  using date_components[of t] by (simp add: date_def Let_def algebra_simps)

lemma month_start_le: "date (year t) (month t) 1 \<le> t" "t < date (year t) (month t + 1) 1"
proof -
  note m = month_correct[of t]
  have d: "days_of t * day \<le> t" "t < (days_of t + 1) * day"
    using div_bounds[of day t] by (simp_all add: days_of_def day_def algebra_simps)
  have "1 \<le> month t" "month t \<le> 12" using m by auto
  then have s: "(month t - 1) div 12 = 0" "(month t - 1) mod 12 + 1 = month t" by presburger+
  have "date (year t) (month t) 1 = (days_before_year (year t) + days_before_month (is_leap (year t)) (month t)) * day"
    unfolding date_def Let_def s by simp
  also have "\<dots> \<le> days_of t * day"
    using m by (intro mult_right_mono) (auto simp: yday_def day_def)
  finally show "date (year t) (month t) 1 \<le> t" using d by linarith
  have "days_of t + 1 \<le> days_before_year (year t) + days_before_month (is_leap (year t)) (month t + 1)"
    using m by (simp add: yday_def)
  also have "\<dots> = (let y' = year t + month t div 12; m' = month t mod 12 + 1 in
        days_before_year y' + days_before_month (is_leap y') m')"
  proof (cases "month t = 12")
    case True
    then show ?thesis using days_before_year_Suc[of "year t"] by (simp add: Let_def)
  next
    case False
    then have "month t div 12 = 0" "month t mod 12 + 1 = month t + 1" using \<open>1 \<le> month t\<close> \<open>month t \<le> 12\<close> by presburger+
    then show ?thesis by (simp only: Let_def)  (simp add: add.commute)
  qed
  finally have le: "days_of t + 1 \<le> (let y' = year t + month t div 12; m' = month t mod 12 + 1 in
        days_before_year y' + days_before_month (is_leap y') m')" .
  have "date (year t) (month t + 1) 1 = (let y' = year t + month t div 12; m' = month t mod 12 + 1 in
        days_before_year y' + days_before_month (is_leap y') m') * day"
    unfolding date_def Let_def add_diff_cancel_right' ..
  then have "(days_of t + 1) * day \<le> date (year t) (month t + 1) 1"
    using mult_right_mono[OF le, of day] by (simp add: day_def)
  then show "t < date (year t) (month t + 1) 1" using d by linarith
qed

section \<open>ParseDuration\<close>

definition is_digit :: "char \<Rightarrow> bool" where "is_digit c = char_in c 48 57"

definition digit_of :: "char \<Rightarrow> int" where "digit_of c = of_char c - 48"

text \<open>leadingInt: None is its overflow error; otherwise the value and the rest of the string.\<close>
fun leadingInt :: "int \<Rightarrow> string \<Rightarrow> (int \<times> string) option" where
  "leadingInt x [] = Some (x, [])"
| "leadingInt x (c # s) =
     (if \<not> is_digit c then Some (x, c # s)
      else if x > 922337203685477580 then None
      else
        let y = x * 10 + digit_of c in
        if y > 9223372036854775808 then None else leadingInt y s)"

fun leadingFraction :: "int \<Rightarrow> float64 \<Rightarrow> bool \<Rightarrow> string \<Rightarrow> int \<times> float64 \<times> string" where
  "leadingFraction x scale overflow [] = (x, scale, [])"
| "leadingFraction x scale overflow (c # s) =
     (if \<not> is_digit c then (x, scale, c # s)
      else if overflow then leadingFraction x scale True s
      else if x > 922337203685477580 then leadingFraction x scale True s
      else
        let y = x * 10 + digit_of c in
        if y > 9223372036854775808 then leadingFraction x scale True s
        else leadingFraction y (fmul scale 10) False s)"

definition unit_map :: "(string \<times> int) list" where
  "unit_map = [(''ns'', 1), (''us'', 1000), ([CHR 0xC2, CHR 0xB5, CHR ''s''], 1000),
     ([CHR 0xCE, CHR 0xBC, CHR ''s''], 1000), (''ms'', 1000000), (''s'', second), (''m'', minute), (''h'', hour)]"

definition unit_char :: "char \<Rightarrow> bool" where
  "unit_char c = (\<not> (c = CHR ''.'' \<or> is_digit c))"

text \<open>The number of an item: integer part, fraction, its scale, and the rest of the string.\<close>
definition parse_number :: "string \<Rightarrow> (int \<times> int \<times> float64 \<times> string) option" where
  "parse_number s =
     (case leadingInt 0 s of
        None \<Rightarrow> None
      | Some (v, s1) \<Rightarrow>
          let pre = (length s1 \<noteq> length s) in
          if s1 \<noteq> [] \<and> hd s1 = CHR ''.'' then
            (case leadingFraction 0 1 False (tl s1) of
               (f, scale, s2) \<Rightarrow>
                 let post = (length s2 \<noteq> length (tl s1)) in
                 if \<not> pre \<and> \<not> post then None else Some (v, f, scale, s2))
          else if \<not> pre then None else Some (v, 0, 1, s1))"

definition item_value :: "int \<Rightarrow> int \<Rightarrow> float64 \<Rightarrow> int \<Rightarrow> int option" where
  "item_value v f scale un =
     (if v > 9223372036854775808 div un then None
      else
        let v1 = v * un;
            v2 = (if f > 0 then v1 + \<lfloor>fmul (float_of f) (fdiv (float_of un) scale)\<rfloor> else v1)
        in if f > 0 \<and> v2 > 9223372036854775808 then None else Some v2)"

text \<open>One number-and-unit item: its value and the rest, or None for any of the errors.\<close>
definition parse_item :: "string \<Rightarrow> (int \<times> string) option" where
  "parse_item s =
     (if s = [] \<or> unit_char (hd s) then None
      else (case parse_number s of
              None \<Rightarrow> None
            | Some (v, f, scale, s2) \<Rightarrow>
                let u = takeWhile unit_char s2; rest = dropWhile unit_char s2 in
                if u = [] then None
                else (case map_of unit_map u of
                        None \<Rightarrow> None
                      | Some un \<Rightarrow> map_option (\<lambda>x. (x, rest)) (item_value v f scale un))))"

lemma leadingInt_length: "leadingInt x s = Some (v, r) \<Longrightarrow> length r \<le> length s"
  by (induction x s rule: leadingInt.induct) (auto simp: Let_def split: if_splits)

lemma leadingFraction_length: "length (snd (snd (leadingFraction x sc ov s))) \<le> length s"
  by (induction s arbitrary: x sc ov) (auto simp: Let_def intro: le_SucI)

lemma leadingFraction_rest: "leadingFraction x sc ov s = (f, sc', r) \<Longrightarrow> length r \<le> length s"
  using leadingFraction_length[of x sc ov s] by simp

lemma parse_number_length: "parse_number s = Some (v, f, sc, r) \<Longrightarrow> length r \<le> length s"
proof -
  assume p: "parse_number s = Some (v, f, sc, r)"
  then obtain s1 where s1: "leadingInt 0 s = Some (v, s1)" by (auto simp: parse_number_def Let_def split: option.splits if_splits prod.splits)
  then consider "r = s1" | "leadingFraction 0 1 False (tl s1) = (f, sc, r)"
    using p by (auto simp: parse_number_def Let_def split: if_splits prod.splits)
  then show "length r \<le> length s"
    using leadingInt_length[OF s1] leadingFraction_rest[of 0 1 False "tl s1" f sc r] by cases auto
qed

lemma parse_item_shorter:
  assumes "parse_item s = Some (v, rest)"
  shows "length rest < length s"
proof -
  obtain w f sc s2 where n: "parse_number s = Some (w, f, sc, s2)"
      and u: "takeWhile unit_char s2 \<noteq> []" "rest = dropWhile unit_char s2"
    using assms by (auto simp: parse_item_def Let_def split: option.splits if_splits)
  have "length s2 = length (takeWhile unit_char s2) + length (dropWhile unit_char s2)"
    by (metis length_append takeWhile_dropWhile_id)
  then show ?thesis using parse_number_length[OF n] u by (cases "takeWhile unit_char s2") auto
qed

function parse_items :: "int \<Rightarrow> string \<Rightarrow> int option" where
  "parse_items d s =
     (if s = [] then Some d
      else (case parse_item s of
              None \<Rightarrow> None
            | Some (v, rest) \<Rightarrow> if d + v > 9223372036854775808 then None else parse_items (d + v) rest))"
  by pat_completeness auto
termination by (relation "measure (\<lambda>(d, s). length s)") (auto dest: parse_item_shorter)

declare parse_items.simps [simp del]

definition ParseDuration :: "string \<Rightarrow> int option" where
  "ParseDuration s =
     (let neg = (s \<noteq> [] \<and> hd s = CHR ''-'');
          s1 = (if s \<noteq> [] \<and> (hd s = CHR ''-'' \<or> hd s = CHR ''+'') then tl s else s)
      in if s1 = ''0'' then Some 0
         else if s1 = '''' then None
         else (case parse_items 0 s1 of
                 None \<Rightarrow> None
               | Some d \<Rightarrow> if neg then Some (i64 (- d)) else if d > int64_max then None else Some d))"

section \<open>Uniqueness of the calendar decomposition\<close>

lemma days_before_year_mono: "y \<le> y' \<Longrightarrow> days_before_year y \<le> days_before_year y'"
proof (induction rule: int_ge_induct)
  case (step i) then show ?case using days_before_year_Suc[of i] by simp
qed simp

lemma year_unique:
  assumes "days_before_year y \<le> d" "d < days_before_year (y + 1)"
  shows "year_of_days d = y"
proof (rule ccontr)
  let ?z = "year_of_days d"
  assume "?z \<noteq> y"
  then consider "?z + 1 \<le> y" | "y + 1 \<le> ?z" by linarith
  then show False
    using assms year_of_days_correct[of d] days_before_year_mono[of "?z + 1" y] days_before_year_mono[of "y + 1" ?z]
    by cases linarith+
qed

lemma month_range_cases:
  assumes "1 \<le> (m::int)" "m \<le> 12"
  obtains "m = 1" | "m = 2" | "m = 3" | "m = 4" | "m = 5" | "m = 6" | "m = 7" | "m = 8" | "m = 9"
    | "m = 10" | "m = 11" | "m = 12"
proof -
  have "m = 1 \<or> m = 2 \<or> m = 3 \<or> m = 4 \<or> m = 5 \<or> m = 6 \<or> m = 7 \<or> m = 8 \<or> m = 9 \<or> m = 10 \<or> m = 11 \<or> m = 12"
    using assms by presburger
  then show thesis using that by blast
qed

lemma month_of_yday_unique:
  assumes "1 \<le> m" "m \<le> 12" "days_before_month l m \<le> yd" "yd < days_before_month l (m + 1)"
  shows "month_of_yday l yd = m" and "0 \<le> yd" and "yd < (if l then 366 else 365)"
  using assms(3,4) by (cases rule: month_range_cases[OF assms(1,2)]; cases l; simp add: month_of_yday_def)+

lemma year_month_unique:
  assumes "1 \<le> m" "m \<le> 12"
    and "days_before_year y + days_before_month (is_leap y) m \<le> days_of t"
    and "days_of t < days_before_year y + days_before_month (is_leap y) (m + 1)"
  shows "year t = y \<and> month t = m"
proof -
  let ?yd = "days_of t - days_before_year y"
  have b: "days_before_month (is_leap y) m \<le> ?yd" "?yd < days_before_month (is_leap y) (m + 1)" using assms(3,4) by simp_all
  note u = month_of_yday_unique[OF assms(1,2) b]
  have "year t = y" unfolding year_def
    by (rule year_unique) (use u(2,3) days_before_year_Suc[of y] in auto)
  then show ?thesis using u(1) by (simp add: month_def yday_def)
qed

lemma days_of_mult: "days_of (n * day) = n"
  by (simp add: days_of_def day_def)

lemma days_of_mono: "a \<le> b \<Longrightarrow> days_of a \<le> days_of b"
  by (simp add: days_of_def day_def zdiv_mono1)

lemma days_of_less: "t < n * day \<Longrightarrow> days_of t < n"
proof -
  assume "t < n * day"
  moreover have "days_of t * day \<le> t" using div_bounds[of day t] by (simp add: days_of_def day_def algebra_simps)
  ultimately have "days_of t * day < n * day" by linarith
  then show "days_of t < n" by (simp add: day_def)
qed

text \<open>The first days of this and of the next month, as day numbers.\<close>
lemma month_date:
  "date (year t) (month t) 1 = (days_before_year (year t) + days_before_month (is_leap (year t)) (month t)) * day"
  "date (year t) (month t + 1) 1
     = (days_before_year (year t) + days_before_month (is_leap (year t)) (month t + 1)) * day"
proof -
  have m: "1 \<le> month t" "month t \<le> 12" using month_correct[of t] by auto
  then have "(month t - 1) div 12 = 0" "(month t - 1) mod 12 + 1 = month t" by presburger+
  then show "date (year t) (month t) 1 = (days_before_year (year t) + days_before_month (is_leap (year t)) (month t)) * day"
    by (simp add: date_def Let_def)
  show "date (year t) (month t + 1) 1
     = (days_before_year (year t) + days_before_month (is_leap (year t)) (month t + 1)) * day"
  proof (cases "month t = 12")
    case True
    then show ?thesis using days_before_year_Suc[of "year t"] by (simp add: date_def Let_def)
  next
    case False
    then have "month t div 12 = 0" "month t mod 12 + 1 = month t + 1" using m by presburger+
    then show ?thesis by (simp add: date_def Let_def add.commute)
  qed
qed

text \<open>Every time of the month has the same first day of the month.\<close>
lemma same_month:
  assumes "date (year t) (month t) 1 \<le> u" "u < date (year t) (month t + 1) 1"
  shows "year u = year t \<and> month u = month t"
proof (rule year_month_unique)
  show "1 \<le> month t" "month t \<le> 12" using month_correct[of t] by auto
  show "days_before_year (year t) + days_before_month (is_leap (year t)) (month t) \<le> days_of u"
    using days_of_mono[OF assms(1)] by (simp only: month_date days_of_mult)
  show "days_of u < days_before_year (year t) + days_before_month (is_leap (year t)) (month t + 1)"
    using days_of_less assms(2) by (simp only: month_date)
qed

lemma month_length: "date (year t) (month t + 1) 1 - date (year t) (month t) 1 \<le> 31 * day"
proof -
  have "days_before_month l (m + 1) - days_before_month l m \<le> 31" if "1 \<le> m" "m \<le> 12" for l m
    by (cases rule: month_range_cases[OF that]; cases l; simp)
  from this[of "month t" "is_leap (year t)"] month_correct[of t]
  have "(days_before_month (is_leap (year t)) (month t + 1) - days_before_month (is_leap (year t)) (month t)) * day \<le> 31 * day"
    by (intro mult_right_mono) (auto simp: day_def)
  then show ?thesis unfolding month_date by (simp add: algebra_simps)
qed

end
