(* ===== verification/Ledger.thy ===== *)
theory Ledger
  imports Types GoTime
begin

text \<open>
  The billing rows of package store: extra-usage settings and their append-only ledger
  (extra_usage.go), orders (orders.go) and subscriptions (subscriptions.go). A database is the
  tables the queries touch; each store function is one transaction on it, with its WHERE clauses,
  its ON CONFLICT clauses and the unique indexes of the migrations as conditions, and a BIGINT
  result outside 64 bits an error. The argument \<^term>\<open>up\<close> says whether the database answers; a
  transaction that fails is rolled back. Keys and times the database generates are arguments.
\<close>

record database =
  db_settings :: "string \<rightharpoonup> ExtraUsageSettings"
  db_txs :: "ExtraUsageTransaction list"
  db_orders :: "Order list"
  db_subs :: "Subscription list"

definition empty_db :: database where
  "empty_db = \<lparr>db_settings = Map.empty, db_txs = [], db_orders = [], db_subs = []\<rparr>"

datatype store_error = ErrExtraUsageNotEnabled | ErrInsufficientBalance | ErrMonthlyLimitReached | ErrNoTopup | ErrDB

section \<open>Extra-usage settings (extra_usage.go)\<close>

definition MonthWindowStart :: "go_time \<Rightarrow> go_time" where
  "MonthWindowStart now = date (year now) (month now) 1"

definition DayWindowStart :: "go_time \<Rightarrow> go_time" where
  "DayWindowStart now = date (year now) (month now) (mday now)"

definition GetExtraUsageSettings :: "database \<Rightarrow> bool \<Rightarrow> string \<Rightarrow> store_error + ExtraUsageSettings option" where
  "GetExtraUsageSettings db up p = (if up then Inr (db_settings db p) else Inl ErrDB)"

definition default_settings :: "string \<Rightarrow> ExtraUsageSettings" where
  "default_settings p = \<lparr>eus_ProjectID = p, eus_Enabled = False, eus_BalanceCredits = 0,
     eus_MonthlyLimitCredits = 0, eus_BypassBalanceCheck = False\<rparr>"

definition UpsertExtraUsageSettings ::
  "database \<Rightarrow> bool \<Rightarrow> string \<Rightarrow> bool \<Rightarrow> int \<Rightarrow> (store_error + ExtraUsageSettings) \<times> database" where
  "UpsertExtraUsageSettings db up p enabled limit =
     (if \<not> up then (Inl ErrDB, db)
      else let s = (the_or (default_settings p) (db_settings db p))
                     \<lparr>eus_Enabled := enabled, eus_MonthlyLimitCredits := limit\<rparr>
           in (Inr s, db\<lparr>db_settings := (db_settings db)(p \<mapsto> s)\<rparr>))"

definition SetExtraUsageBypass ::
  "database \<Rightarrow> bool \<Rightarrow> string \<Rightarrow> bool \<Rightarrow> (store_error + ExtraUsageSettings) \<times> database" where
  "SetExtraUsageBypass db up p bypass =
     (if \<not> up then (Inl ErrDB, db)
      else let s = (the_or (default_settings p) (db_settings db p))\<lparr>eus_BypassBalanceCheck := bypass\<rparr>
           in (Inr s, db\<lparr>db_settings := (db_settings db)(p \<mapsto> s)\<rparr>))"

section \<open>Deduction (extra_usage.go)\<close>

record DeductExtraUsageReq =
  ded_ProjectID :: string
  ded_AmountCredits :: int
  ded_RequestID :: string
  ded_Reason :: string
  ded_Description :: string
  ded_MonthWindowStart :: go_time

text \<open>The sum of the project's deductions since a time.\<close>
definition month_spend :: "database \<Rightarrow> string \<Rightarrow> go_time \<Rightarrow> int" where
  "month_spend db p start =
     sum_list (map (\<lambda>t. - eut_AmountCredits t)
       (filter (\<lambda>t. eut_ProjectID t = p \<and> eut_Type t = ''deduction'' \<and> start \<le> eut_CreatedAt t) (db_txs db)))"

definition classifyDeductFailure :: "database \<Rightarrow> string \<Rightarrow> int \<Rightarrow> go_time \<Rightarrow> store_error" where
  "classifyDeductFailure db p amount monthStart =
     (case db_settings db p of
        None \<Rightarrow> ErrExtraUsageNotEnabled
      | Some s \<Rightarrow>
          if \<not> eus_BypassBalanceCheck s \<and> \<not> eus_Enabled s then ErrExtraUsageNotEnabled
          else if \<not> eus_BypassBalanceCheck s \<and> eus_BalanceCredits s < amount then ErrInsufficientBalance
          else if eus_MonthlyLimitCredits s > 0 \<and> month_spend db p monthStart + amount > eus_MonthlyLimitCredits s
          then ErrMonthlyLimitReached
          else ErrInsufficientBalance)"

definition deduct_allowed :: "ExtraUsageSettings \<Rightarrow> int \<Rightarrow> int \<Rightarrow> bool" where
  "deduct_allowed s spent amount =
     ((eus_BypassBalanceCheck s \<or> eus_Enabled s)
      \<and> (eus_BypassBalanceCheck s \<or> eus_BalanceCredits s \<ge> amount)
      \<and> (eus_MonthlyLimitCredits s = 0 \<or> spent + amount \<le> eus_MonthlyLimitCredits s))"

definition DeductExtraUsage ::
  "database \<Rightarrow> bool \<Rightarrow> DeductExtraUsageReq \<Rightarrow> go_time \<Rightarrow> (store_error + int) \<times> database" where
  "DeductExtraUsage db up req now =
     (let p = ded_ProjectID req; amount = ded_AmountCredits req;
          spent = month_spend db p (ded_MonthWindowStart req)
      in if \<not> up then (Inl ErrDB, db)
         else case db_settings db p of
           None \<Rightarrow> (Inl (classifyDeductFailure db p amount (ded_MonthWindowStart req)), db)
         | Some s \<Rightarrow>
             if \<not> deduct_allowed s spent amount
             then (Inl (classifyDeductFailure db p amount (ded_MonthWindowStart req)), db)
             else (let newBalance = eus_BalanceCredits s - amount in
                   if \<not> is_i64 newBalance then (Inl ErrDB, db)
                   else (Inr newBalance,
                         db\<lparr>db_settings := (db_settings db)(p \<mapsto> s\<lparr>eus_BalanceCredits := newBalance\<rparr>),
                            db_txs := db_txs db @
                              [\<lparr>eut_ProjectID = p, eut_Type = ''deduction'', eut_AmountCredits = - amount,
                                eut_BalanceAfterCredits = newBalance, eut_RequestID = ded_RequestID req,
                                eut_OrderID = '''', eut_Reason = ded_Reason req,
                                eut_Description = ded_Description req, eut_CreatedAt = now\<rparr>]\<rparr>)))"

section \<open>Top-ups and refunds (extra_usage.go)\<close>

record TopUpExtraUsageReq =
  top_ProjectID :: string
  top_AmountCredits :: int
  top_OrderID :: string
  top_Reason :: string
  top_Description :: string

text \<open>The row of a type for an order; at most one can exist by the partial unique indexes.\<close>
definition order_row :: "database \<Rightarrow> string \<Rightarrow> string \<Rightarrow> ExtraUsageTransaction option" where
  "order_row db ty orderID = List.find (\<lambda>t. eut_OrderID t = orderID \<and> eut_Type t = ty) (db_txs db)"

definition TopUpExtraUsage ::
  "database \<Rightarrow> bool \<Rightarrow> TopUpExtraUsageReq \<Rightarrow> go_time \<Rightarrow> (store_error + int) \<times> database" where
  "TopUpExtraUsage db up req now =
     (let p = top_ProjectID req; orderID = top_OrderID req;
          existing = (if orderID = '''' then None
                      else Option.bind (order_row db ''topup'' orderID) (\<lambda>t. db_settings db (eut_ProjectID t)))
      in if \<not> up then (Inl ErrDB, db)
         else case existing of
           Some s \<Rightarrow> (Inr (eus_BalanceCredits s), db)
         | None \<Rightarrow>
             (let s = the_or (default_settings p) (db_settings db p);
                  newBalance = eus_BalanceCredits s + top_AmountCredits req
              in if \<not> is_i64 newBalance then (Inl ErrDB, db)
                 else if orderID \<noteq> '''' \<and> order_row db ''topup'' orderID \<noteq> None then (Inl ErrDB, db)
                 else (Inr newBalance,
                       db\<lparr>db_settings := (db_settings db)(p \<mapsto> s\<lparr>eus_BalanceCredits := newBalance\<rparr>),
                          db_txs := db_txs db @
                            [\<lparr>eut_ProjectID = p, eut_Type = ''topup'', eut_AmountCredits = top_AmountCredits req,
                              eut_BalanceAfterCredits = newBalance, eut_RequestID = '''',
                              eut_OrderID = orderID, eut_Reason = top_Reason req,
                              eut_Description = top_Description req, eut_CreatedAt = now\<rparr>]\<rparr>)))"

definition RefundExtraUsageTopup ::
  "database \<Rightarrow> bool \<Rightarrow> string \<Rightarrow> go_time \<Rightarrow> (store_error + int) \<times> database" where
  "RefundExtraUsageTopup db up orderID now =
     (if \<not> up then (Inl ErrDB, db)
      else case order_row db ''topup'' orderID of
        None \<Rightarrow> (Inl ErrNoTopup, db)
      | Some t \<Rightarrow>
          (let projectID = eut_ProjectID t; creditsOrig = eut_AmountCredits t in
           case db_settings db projectID of
             None \<Rightarrow> (Inl ErrDB, db)
           | Some s \<Rightarrow>
               (let newBalance = eus_BalanceCredits s - creditsOrig in
                if \<not> is_i64 newBalance then (Inl ErrDB, db)
                else if order_row db ''refund'' orderID \<noteq> None then (Inr (eus_BalanceCredits s), db)
                else (Inr newBalance,
                      db\<lparr>db_settings := (db_settings db)(projectID \<mapsto> s\<lparr>eus_BalanceCredits := newBalance\<rparr>),
                         db_txs := db_txs db @
                           [\<lparr>eut_ProjectID = projectID, eut_Type = ''refund'', eut_AmountCredits = - creditsOrig,
                             eut_BalanceAfterCredits = newBalance, eut_RequestID = '''',
                             eut_OrderID = orderID, eut_Reason = ''admin_refund'',
                             eut_Description = ''refund of topup order '' @ orderID @ '' (credits='' @ itoa creditsOrig @ '')'',
                             eut_CreatedAt = now\<rparr>]\<rparr>))))"

definition GetMonthlyExtraSpendCredits :: "database \<Rightarrow> bool \<Rightarrow> string \<Rightarrow> go_time \<Rightarrow> store_error + int" where
  "GetMonthlyExtraSpendCredits db up p start = (if up then Inr (month_spend db p start) else Inl ErrDB)"

section \<open>Orders (orders.go)\<close>

definition GetOrderByID :: "database \<Rightarrow> string \<Rightarrow> Order option" where
  "GetOrderByID db oid = List.find (\<lambda>ord. order_ID ord = oid) (db_orders db)"

text \<open>The row is inserted with a type; the caller's order only gets the generated columns. The column
  periods is a 32-bit INTEGER.\<close>
definition CreateOrder :: "database \<Rightarrow> bool \<Rightarrow> string \<Rightarrow> Order \<Rightarrow> go_time \<Rightarrow> (Order \<times> database) option" where
  "CreateOrder db up newID ord now =
     (if \<not> up \<or> \<not> (-2147483648 \<le> order_Periods ord \<and> order_Periods ord \<le> 2147483647) then None
      else let r = ord\<lparr>order_ID := newID, order_CreatedAt := now\<rparr>;
               row = r\<lparr>order_OrderType := (if order_OrderType ord = '''' then ''subscription'' else order_OrderType ord)\<rparr>
           in Some (r, db\<lparr>db_orders := db_orders db @ [row]\<rparr>))"

definition update_orders :: "(Order \<Rightarrow> bool) \<Rightarrow> (Order \<Rightarrow> Order) \<Rightarrow> database \<Rightarrow> database" where
  "update_orders P f db = db\<lparr>db_orders := map (\<lambda>ord. if P ord then f ord else ord) (db_orders db)\<rparr>"

definition HasPayingOrder :: "database \<Rightarrow> string \<Rightarrow> bool" where
  "HasPayingOrder db p = list_ex (\<lambda>ord. order_ProjectID ord = p \<and> order_Status ord = ''paying'') (db_orders db)"

definition SumDailyExtraUsageTopupCredits :: "database \<Rightarrow> string \<Rightarrow> go_time \<Rightarrow> int" where
  "SumDailyExtraUsageTopupCredits db p dayStart =
     sum_list (map order_ExtraUsageAmountCredits
       (filter (\<lambda>ord. order_ProjectID ord = p \<and> order_OrderType ord = ''extra_usage_topup''
          \<and> List.member [''paying'', ''paid'', ''delivered''] (order_Status ord)
          \<and> dayStart \<le> order_CreatedAt ord) (db_orders db)))"

definition cancellable :: "Order \<Rightarrow> bool" where
  "cancellable ord = (order_Status ord = ''pending'' \<or> order_Status ord = ''paying'')"

text \<open>The result is whether a row was affected.\<close>
definition CancelOrder :: "database \<Rightarrow> string \<Rightarrow> bool \<times> database" where
  "CancelOrder db oid =
     (let P = (\<lambda>ord. order_ID ord = oid \<and> cancellable ord) in
      (list_ex P (db_orders db), update_orders P (\<lambda>ord. ord\<lparr>order_Status := ''cancelled''\<rparr>) db))"

definition CancelOrderForProject :: "database \<Rightarrow> string \<Rightarrow> string \<Rightarrow> bool \<times> database" where
  "CancelOrderForProject db p oid =
     (let P = (\<lambda>ord. order_ID ord = oid \<and> order_ProjectID ord = p \<and> cancellable ord) in
      (list_ex P (db_orders db), update_orders P (\<lambda>ord. ord\<lparr>order_Status := ''cancelled''\<rparr>) db))"

definition UpdateOrderStatus :: "database \<Rightarrow> string \<Rightarrow> string \<Rightarrow> database" where
  "UpdateOrderStatus db oid st = update_orders (\<lambda>ord. order_ID ord = oid) (\<lambda>ord. ord\<lparr>order_Status := st\<rparr>) db"

definition UpdateOrderPayment :: "database \<Rightarrow> string \<Rightarrow> string \<Rightarrow> string \<Rightarrow> string \<Rightarrow> database" where
  "UpdateOrderPayment db oid paymentRef paymentURL st =
     update_orders (\<lambda>ord. order_ID ord = oid)
       (\<lambda>ord. ord\<lparr>order_PaymentRef := paymentRef, order_PaymentURL := paymentURL, order_Status := st\<rparr>) db"

section \<open>Subscriptions (subscriptions.go)\<close>

text \<open>AddDate(0, n, 0): the month is normalised into the year and a day past the end of the month counts on.\<close>
definition add_months :: "go_time \<Rightarrow> int \<Rightarrow> go_time" where
  "add_months t n = date (year t) (month t + n) (mday t) + t mod day"

definition GetActiveSubscription :: "database \<Rightarrow> string \<Rightarrow> go_time \<Rightarrow> Subscription option" where
  "GetActiveSubscription db p now =
     List.find (\<lambda>s. sub_ProjectID s = p \<and> sub_Status s = ''active'' \<and> sub_StartsAt s \<le> now \<and> now \<le> sub_ExpiresAt s)
       (rev (db_subs db))"

definition GetSubscriptionByID :: "database \<Rightarrow> string \<Rightarrow> Subscription option" where
  "GetSubscriptionByID db sid = List.find (\<lambda>s. sub_ID s = sid) (db_subs db)"

text \<open>The unique index idx_subscriptions_one_active_per_project.\<close>
definition has_active :: "Subscription list \<Rightarrow> string \<Rightarrow> bool" where
  "has_active subs p = list_ex (\<lambda>s. sub_ProjectID s = p \<and> sub_Status s = ''active'') subs"

definition insert_sub :: "Subscription list \<Rightarrow> Subscription \<Rightarrow> Subscription list option" where
  "insert_sub subs s =
     (if sub_Status s = ''active'' \<and> has_active subs (sub_ProjectID s) then None else Some (subs @ [s]))"

definition set_sub_status :: "string \<Rightarrow> string \<Rightarrow> Subscription list \<Rightarrow> Subscription list" where
  "set_sub_status sid st subs = map (\<lambda>s. if sub_ID s = sid then s\<lparr>sub_Status := st\<rparr> else s) subs"

definition CreateSubscription :: "database \<Rightarrow> Subscription \<Rightarrow> database option" where
  "CreateSubscription db s = map_option (\<lambda>subs. db\<lparr>db_subs := subs\<rparr>) (insert_sub (db_subs db) s)"

definition CreateSubscriptionFromPlan ::
  "database \<Rightarrow> string \<Rightarrow> string \<Rightarrow> Plan \<Rightarrow> go_time \<Rightarrow> go_time \<Rightarrow> (Subscription \<times> database) option" where
  "CreateSubscriptionFromPlan db newID p plan startsAt expiresAt =
     (let s = \<lparr>sub_ID = newID, sub_ProjectID = p, sub_PlanID = plan_ID plan, sub_PlanName = plan_Slug plan,
               sub_Status = ''active'', sub_StartsAt = startsAt, sub_ExpiresAt = expiresAt, sub_Currency = ''''\<rparr>
      in map_option (\<lambda>db'. (s, db')) (CreateSubscription db s))"

definition expired_paid :: "go_time \<Rightarrow> Subscription \<Rightarrow> bool" where
  "expired_paid now s = (sub_Status s = ''active'' \<and> sub_PlanName s \<noteq> ''free'' \<and> sub_ExpiresAt s < now)"

text \<open>One transaction per expired subscription; the first that fails ends the loop.\<close>
fun fallback_loop :: "Plan \<Rightarrow> go_time \<Rightarrow> (string \<Rightarrow> string) \<Rightarrow> Subscription list \<Rightarrow> Subscription list \<Rightarrow> int \<Rightarrow> int \<times> bool \<times> Subscription list" where
  "fallback_loop free now newID [] subs cnt = (cnt, True, subs)"
| "fallback_loop free now newID (e # items) subs cnt =
     (case insert_sub (set_sub_status (sub_ID e) ''expired'' subs)
             \<lparr>sub_ID = newID (sub_ID e), sub_ProjectID = sub_ProjectID e, sub_PlanID = plan_ID free,
              sub_PlanName = plan_Slug free, sub_Status = ''active'', sub_StartsAt = now,
              sub_ExpiresAt = add_months now 1200, sub_Currency = ''''\<rparr> of
        None \<Rightarrow> (cnt, False, subs)
      | Some subs' \<Rightarrow> fallback_loop free now newID items subs' (cnt + 1))"

definition ExpireAndFallbackToFree ::
  "database \<Rightarrow> Plan option \<Rightarrow> (string \<Rightarrow> string) \<Rightarrow> go_time \<Rightarrow> int \<times> bool \<times> database" where
  "ExpireAndFallbackToFree db freePlan newID now =
     (let items = filter (expired_paid now) (db_subs db) in
      case freePlan of
        Some free \<Rightarrow>
          if plan_IsActive free then
            (case fallback_loop free now newID items (db_subs db) 0 of (cnt, ok, subs) \<Rightarrow> (cnt, ok, db\<lparr>db_subs := subs\<rparr>))
          else (int (length items), True,
                db\<lparr>db_subs := map (\<lambda>s. if expired_paid now s then s\<lparr>sub_Status := ''expired''\<rparr> else s) (db_subs db)\<rparr>)
      | None \<Rightarrow> (int (length items), True,
                 db\<lparr>db_subs := map (\<lambda>s. if expired_paid now s then s\<lparr>sub_Status := ''expired''\<rparr> else s) (db_subs db)\<rparr>))"

text \<open>DeliverOrder; Inl carries the error.\<close>
definition DeliverOrder ::
  "database \<Rightarrow> string \<Rightarrow> string \<Rightarrow> Plan \<Rightarrow> go_time \<Rightarrow> (string + Subscription) \<times> database" where
  "DeliverOrder db newID orderID plan now =
     (case GetOrderByID db orderID of
        None \<Rightarrow> (Inl ''fetch order'', db)
      | Some ord \<Rightarrow>
          if order_Status ord = ''delivered'' then
            (case (if order_ExistingSubscriptionID ord \<noteq> '''' then GetSubscriptionByID db (order_ExistingSubscriptionID ord)
                   else None) of
               Some s \<Rightarrow> (Inr s, db)
             | None \<Rightarrow> (case GetActiveSubscription db (order_ProjectID ord) now of
                          Some s \<Rightarrow> (Inr s, db)
                        | None \<Rightarrow> (Inl ''order already delivered but subscription not found'', db)))
          else if order_Status ord \<noteq> ''paying'' then (Inl ''order status'', db)
          else if order_ExistingSubscriptionID ord = '''' then (Inl ''order has no existing subscription ID'', db)
          else case GetSubscriptionByID db (order_ExistingSubscriptionID ord) of
            None \<Rightarrow> (Inl ''get old subscription'', db)
          | Some old \<Rightarrow>
              (let subs1 = set_sub_status (order_ExistingSubscriptionID ord) ''revoked'' (db_subs db);
                   months = i64 (plan_PeriodMonths plan * order_Periods ord);
                   newExpiresAt = (if sub_PlanName old = plan_Slug plan then add_months (sub_ExpiresAt old) months
                                   else add_months now months);
                   s = \<lparr>sub_ID = newID, sub_ProjectID = order_ProjectID ord, sub_PlanID = plan_ID plan,
                        sub_PlanName = plan_Slug plan, sub_Status = ''active'', sub_StartsAt = now,
                        sub_ExpiresAt = newExpiresAt, sub_Currency = order_Currency ord\<rparr>
               in case insert_sub subs1 s of
                    None \<Rightarrow> (Inl ''create subscription'', db)
                  | Some subs2 \<Rightarrow> (Inr s, UpdateOrderStatus (db\<lparr>db_subs := subs2\<rparr>) orderID ''delivered'')))"

section \<open>The ledger invariant\<close>

datatype ledger_op =
    OpDeduct DeductExtraUsageReq
  | OpTopUp TopUpExtraUsageReq
  | OpRefund string
  | OpUpsert string bool int
  | OpBypass string bool

text \<open>A history is a sequence of store calls, each with the state of the connection and its time.\<close>
fun run_op :: "database \<Rightarrow> ledger_op \<times> bool \<times> go_time \<Rightarrow> database" where
  "run_op db (OpDeduct r, up, now) = snd (DeductExtraUsage db up r now)"
| "run_op db (OpTopUp r, up, now) = snd (TopUpExtraUsage db up r now)"
| "run_op db (OpRefund oid, up, now) = snd (RefundExtraUsageTopup db up oid now)"
| "run_op db (OpUpsert p e l, up, now) = snd (UpsertExtraUsageSettings db up p e l)"
| "run_op db (OpBypass p b, up, now) = snd (SetExtraUsageBypass db up p b)"

definition txs_of :: "string \<Rightarrow> ExtraUsageTransaction list \<Rightarrow> ExtraUsageTransaction list" where
  "txs_of p txs = filter (\<lambda>t. eut_ProjectID t = p) txs"

definition balance_of :: "database \<Rightarrow> string \<Rightarrow> int" where
  "balance_of db p = eus_BalanceCredits (the_or (default_settings p) (db_settings db p))"

text \<open>Every row's balance snapshot is the previous balance plus its amount.\<close>
fun audit_ok :: "int \<Rightarrow> ExtraUsageTransaction list \<Rightarrow> bool" where
  "audit_ok b [] = True"
| "audit_ok b (t # ts) = (eut_BalanceAfterCredits t = b + eut_AmountCredits t \<and> audit_ok (b + eut_AmountCredits t) ts)"

definition rows_for :: "string \<Rightarrow> string \<Rightarrow> ExtraUsageTransaction list \<Rightarrow> ExtraUsageTransaction list" where
  "rows_for ty oid txs = filter (\<lambda>t. eut_OrderID t = oid \<and> eut_Type t = ty) txs"

definition ledger_ok :: "database \<Rightarrow> bool" where
  "ledger_ok db = ((\<forall>p. balance_of db p = sum_list (map eut_AmountCredits (txs_of p (db_txs db)))
                      \<and> audit_ok 0 (txs_of p (db_txs db)))
     \<and> (\<forall>oid. oid \<noteq> '''' \<longrightarrow> length (rows_for ''topup'' oid (db_txs db)) \<le> 1)
     \<and> (\<forall>oid. oid \<noteq> '''' \<longrightarrow> length (rows_for ''refund'' oid (db_txs db)) \<le> 1))"

lemma audit_ok_append [simp]:
  "audit_ok b (xs @ [t]) \<longleftrightarrow> audit_ok b xs \<and> eut_BalanceAfterCredits t = b + sum_list (map eut_AmountCredits xs) + eut_AmountCredits t"
  by (induction xs arbitrary: b) (simp_all add: add.assoc)

lemma order_row_None: "order_row db ty oid = None \<longleftrightarrow> rows_for ty oid (db_txs db) = []"
  unfolding order_row_def rows_for_def by (auto simp: find_None_iff filter_empty_conv)

lemma find_None_filter: "List.find P xs = None \<longleftrightarrow> filter P xs = []"
  by (auto simp: find_None_iff filter_empty_conv)

lemma find_append: "List.find P (xs @ ys) = (case List.find P xs of Some x \<Rightarrow> Some x | None \<Rightarrow> List.find P ys)"
  by (induction xs) auto

text \<open>One row appended for project p with the balance moved by its amount.\<close>
definition append_row :: "database \<Rightarrow> ExtraUsageSettings \<Rightarrow> ExtraUsageTransaction \<Rightarrow> database" where
  "append_row db s t = db\<lparr>db_settings := (db_settings db)(eut_ProjectID t \<mapsto> s\<lparr>eus_BalanceCredits := eut_BalanceAfterCredits t\<rparr>),
                         db_txs := db_txs db @ [t]\<rparr>"

lemma order_row_append:
  "order_row (append_row db s t) ty oid = (case order_row db ty oid of Some x \<Rightarrow> Some x
     | None \<Rightarrow> if eut_OrderID t = oid \<and> eut_Type t = ty then Some t else None)"
  by (auto simp: order_row_def append_row_def find_append split: option.split)

lemma order_row_Some: "order_row db ty oid = Some t \<Longrightarrow> t \<in> set (db_txs db) \<and> eut_OrderID t = oid \<and> eut_Type t = ty"
  unfolding order_row_def by (auto simp: find_Some_iff)

lemma append_row_ok:
  assumes "ledger_ok db"
    and "s = the_or (default_settings (eut_ProjectID t)) (db_settings db (eut_ProjectID t))"
    and "eut_BalanceAfterCredits t = eus_BalanceCredits s + eut_AmountCredits t"
    and "eut_OrderID t = '''' \<or> rows_for (eut_Type t) (eut_OrderID t) (db_txs db) = []"
  shows "ledger_ok (append_row db s t)"
proof -
  have b: "balance_of db (eut_ProjectID t) = eus_BalanceCredits s" using assms(2) by (simp add: balance_of_def)
  have "balance_of (append_row db s t) p = sum_list (map eut_AmountCredits (txs_of p (db_txs db @ [t])))
      \<and> audit_ok 0 (txs_of p (db_txs db @ [t]))" for p
    using assms(1,3) b
    by (cases "p = eut_ProjectID t") (auto simp: ledger_ok_def append_row_def txs_of_def balance_of_def)
  moreover have "length (rows_for ty oid (db_txs db @ [t])) \<le> 1" if "oid \<noteq> ''''" "ty \<in> {''topup'', ''refund''}" for ty oid
    using assms(1,4) that by (cases "oid = eut_OrderID t \<and> ty = eut_Type t") (auto simp: ledger_ok_def rows_for_def)
  ultimately show ?thesis by (simp add: ledger_ok_def append_row_def)
qed

definition deduction_row :: "DeductExtraUsageReq \<Rightarrow> int \<Rightarrow> go_time \<Rightarrow> ExtraUsageTransaction" where
  "deduction_row req newBalance now =
     \<lparr>eut_ProjectID = ded_ProjectID req, eut_Type = ''deduction'', eut_AmountCredits = - ded_AmountCredits req,
      eut_BalanceAfterCredits = newBalance, eut_RequestID = ded_RequestID req, eut_OrderID = '''',
      eut_Reason = ded_Reason req, eut_Description = ded_Description req, eut_CreatedAt = now\<rparr>"

definition topup_row :: "TopUpExtraUsageReq \<Rightarrow> int \<Rightarrow> go_time \<Rightarrow> ExtraUsageTransaction" where
  "topup_row req newBalance now =
     \<lparr>eut_ProjectID = top_ProjectID req, eut_Type = ''topup'', eut_AmountCredits = top_AmountCredits req,
      eut_BalanceAfterCredits = newBalance, eut_RequestID = '''', eut_OrderID = top_OrderID req,
      eut_Reason = top_Reason req, eut_Description = top_Description req, eut_CreatedAt = now\<rparr>"

lemma Deduct_success:
  assumes "DeductExtraUsage db up req now = (Inr b, db')"
  obtains s where "db_settings db (ded_ProjectID req) = Some s"
    "deduct_allowed s (month_spend db (ded_ProjectID req) (ded_MonthWindowStart req)) (ded_AmountCredits req)"
    "b = eus_BalanceCredits s - ded_AmountCredits req" "is_i64 b" "db' = append_row db s (deduction_row req b now)"
  using assms
  by (auto simp: DeductExtraUsage_def Let_def append_row_def deduction_row_def split: if_splits option.splits)

lemma Deduct_failure: "DeductExtraUsage db up req now = (Inl e, db') \<Longrightarrow> db' = db"
  by (auto simp: DeductExtraUsage_def Let_def split: if_splits option.splits)

lemma TopUp_success:
  assumes "TopUpExtraUsage db up req now = (Inr b, db')"
  obtains (existing) t s where "db' = db" "top_OrderID req \<noteq> ''''" "order_row db ''topup'' (top_OrderID req) = Some t"
      "db_settings db (eut_ProjectID t) = Some s" "b = eus_BalanceCredits s"
  | (applied) "b = balance_of db (top_ProjectID req) + top_AmountCredits req" "is_i64 b"
      "top_OrderID req = '''' \<or> rows_for ''topup'' (top_OrderID req) (db_txs db) = []"
      "db' = append_row db (the_or (default_settings (top_ProjectID req)) (db_settings db (top_ProjectID req))) (topup_row req b now)"
proof (cases "if top_OrderID req = '''' then None
              else Option.bind (order_row db ''topup'' (top_OrderID req)) (\<lambda>t. db_settings db (eut_ProjectID t))")
  case (Some s)
  then obtain t where "top_OrderID req \<noteq> ''''" "order_row db ''topup'' (top_OrderID req) = Some t" "db_settings db (eut_ProjectID t) = Some s"
    by (auto simp: bind_eq_Some_conv split: if_splits)
  with Some assms show ?thesis by (intro existing[of t s]) (auto simp: TopUpExtraUsage_def Let_def split: if_splits)
next
  case None
  then show ?thesis
    using assms unfolding TopUpExtraUsage_def Let_def None
    by (intro applied; simp add: balance_of_def append_row_def topup_row_def order_row_None[symmetric] split: if_splits)
       (erule conjE, hypsubst, rule refl)?
qed

lemma TopUp_failure: "TopUpExtraUsage db up req now = (Inl e, db') \<Longrightarrow> db' = db"
  by (auto simp: TopUpExtraUsage_def Let_def split: if_splits option.splits)

definition refund_row :: "string \<Rightarrow> ExtraUsageTransaction \<Rightarrow> int \<Rightarrow> go_time \<Rightarrow> ExtraUsageTransaction" where
  "refund_row oid t newBalance now =
     \<lparr>eut_ProjectID = eut_ProjectID t, eut_Type = ''refund'', eut_AmountCredits = - eut_AmountCredits t,
      eut_BalanceAfterCredits = newBalance, eut_RequestID = '''', eut_OrderID = oid, eut_Reason = ''admin_refund'',
      eut_Description = ''refund of topup order '' @ oid @ '' (credits='' @ itoa (eut_AmountCredits t) @ '')'', eut_CreatedAt = now\<rparr>"

lemma Refund_success:
  assumes "RefundExtraUsageTopup db up oid now = (Inr b, db')"
  obtains (repeated) t s where "db' = db" "order_row db ''topup'' oid = Some t" "order_row db ''refund'' oid \<noteq> None"
      "db_settings db (eut_ProjectID t) = Some s" "b = eus_BalanceCredits s"
  | (applied) t s where "order_row db ''topup'' oid = Some t" "db_settings db (eut_ProjectID t) = Some s"
      "b = eus_BalanceCredits s - eut_AmountCredits t" "is_i64 b" "rows_for ''refund'' oid (db_txs db) = []"
      "db' = append_row db s (refund_row oid t b now)"
  using assms
  by (auto simp: RefundExtraUsageTopup_def Let_def append_row_def refund_row_def order_row_None[symmetric]
      split: if_splits option.splits)

lemma Refund_failure: "RefundExtraUsageTopup db up oid now = (Inl e, db') \<Longrightarrow> db' = db"
  by (auto simp: RefundExtraUsageTopup_def Let_def split: if_splits option.splits)

lemma settings_ok:
  assumes "ledger_ok db" "eus_BalanceCredits s = balance_of db p"
  shows "ledger_ok (db\<lparr>db_settings := (db_settings db)(p \<mapsto> s)\<rparr>)"
  using assms by (auto simp: ledger_ok_def balance_of_def)

lemma run_op_ledger: "ledger_ok db \<Longrightarrow> ledger_ok (run_op db x)"
proof (induction db x rule: run_op.induct)
  case (1 db r up now)
  obtain res db' where e: "DeductExtraUsage db up r now = (res, db')" by force
  show ?case
  proof (cases res)
    case (Inl err) then show ?thesis using e Deduct_failure 1 by (auto dest!: Deduct_failure)
  next
    case (Inr b)
    show ?thesis by (rule Deduct_success[OF e[unfolded Inr]]) (auto simp: e 1 deduction_row_def intro!: append_row_ok)
  qed
next
  case (2 db r up now)
  obtain res db' where e: "TopUpExtraUsage db up r now = (res, db')" by force
  show ?case
  proof (cases res)
    case (Inl err) then show ?thesis using e 2 by (auto dest!: TopUp_failure)
  next
    case (Inr b)
    show ?thesis
      by (rule TopUp_success[OF e[unfolded Inr]]) (auto simp: e 2 topup_row_def balance_of_def intro!: append_row_ok)
  qed
next
  case (3 db oid up now)
  obtain res db' where e: "RefundExtraUsageTopup db up oid now = (res, db')" by force
  show ?case
  proof (cases res)
    case (Inl err) then show ?thesis using e 3 by (auto dest!: Refund_failure)
  next
    case (Inr b)
    show ?thesis
      by (rule Refund_success[OF e[unfolded Inr]]) (auto simp: e 3 refund_row_def intro!: append_row_ok)
  qed
next
  case (4 db p e l up now)
  then show ?case by (auto simp: UpsertExtraUsageSettings_def Let_def balance_of_def intro: settings_ok)
next
  case (5 db p b up now)
  then show ?case by (auto simp: SetExtraUsageBypass_def Let_def balance_of_def intro: settings_ok)
qed

lemma empty_ledger: "ledger_ok empty_db"
  by (simp add: ledger_ok_def empty_db_def balance_of_def txs_of_def rows_for_def default_settings_def)

lemma foldl_run_op: "ledger_ok db \<Longrightarrow> ledger_ok (foldl run_op db history)"
  by (induction history arbitrary: db) (auto intro: run_op_ledger)

text \<open>C1: the ledger is conserved: after any sequence of deductions, top-ups, refunds, settings and bypass
  changes, failed ones included, every project's balance is the sum of its ledger rows, every row's
  balance snapshot is right, and no order is credited twice or refunded twice.\<close>
theorem ledger_conserved: "ledger_ok (foldl run_op empty_db history)"
  by (intro foldl_run_op empty_ledger)

lemma month_spend_append:
  "month_spend (append_row db s t) p start = month_spend db p start +
     (if eut_ProjectID t = p \<and> eut_Type t = ''deduction'' \<and> start \<le> eut_CreatedAt t then - eut_AmountCredits t else 0)"
  by (simp add: month_spend_def append_row_def)

lemma balance_append: "balance_of (append_row db s t) (eut_ProjectID t) = eut_BalanceAfterCredits t"
  by (simp add: balance_of_def append_row_def)

text \<open>A deduction that succeeds respects every limit that was set: the project was enabled or bypassed,
  without bypass the balance stays non-negative, the month's spend (which grows by exactly the amount)
  stays within a non-zero monthly limit, and exactly one ledger row is written; a deduction that fails
  changes nothing.\<close>
lemma deduct_respects_limits:
  assumes "DeductExtraUsage db up req now = (r, db')" and "ded_MonthWindowStart req \<le> now"
  shows "(case r of
     Inl e \<Rightarrow> db' = db
   | Inr b \<Rightarrow> \<exists>s row. db_settings db (ded_ProjectID req) = Some s
        \<and> (eus_BypassBalanceCheck s \<or> eus_Enabled s) \<and> (eus_BypassBalanceCheck s \<or> 0 \<le> b)
        \<and> b = balance_of db (ded_ProjectID req) - ded_AmountCredits req \<and> balance_of db' (ded_ProjectID req) = b
        \<and> month_spend db' (ded_ProjectID req) (ded_MonthWindowStart req)
            = month_spend db (ded_ProjectID req) (ded_MonthWindowStart req) + ded_AmountCredits req
        \<and> (eus_MonthlyLimitCredits s = 0
            \<or> month_spend db' (ded_ProjectID req) (ded_MonthWindowStart req) \<le> eus_MonthlyLimitCredits s)
        \<and> db_txs db' = db_txs db @ [row] \<and> eut_AmountCredits row = - ded_AmountCredits req)"
proof (cases r)
  case (Inl e) then show ?thesis using assms(1) Deduct_failure by fastforce
next
  case (Inr b)
  then have e: "DeductExtraUsage db up req now = (Inr b, db')" using assms(1) by simp
  obtain s where s: "db_settings db (ded_ProjectID req) = Some s"
    "deduct_allowed s (month_spend db (ded_ProjectID req) (ded_MonthWindowStart req)) (ded_AmountCredits req)"
    "b = eus_BalanceCredits s - ded_AmountCredits req" "db' = append_row db s (deduction_row req b now)"
    using Deduct_success[OF e] by blast
  have "balance_of db (ded_ProjectID req) = eus_BalanceCredits s" using s(1) by (simp add: balance_of_def)
  moreover have "balance_of db' (ded_ProjectID req) = b"
    using balance_append[of db s "deduction_row req b now"] s(4) by (simp add: deduction_row_def)
  moreover have "month_spend db' (ded_ProjectID req) (ded_MonthWindowStart req)
      = month_spend db (ded_ProjectID req) (ded_MonthWindowStart req) + ded_AmountCredits req"
    using assms(2) s(4) by (simp add: month_spend_append deduction_row_def)
  moreover have "db_txs db' = db_txs db @ [deduction_row req b now]" using s(4) by (simp add: append_row_def)
  ultimately show ?thesis
    using s(1-3) Inr by (auto simp: deduct_allowed_def deduction_row_def)
qed

definition demo_db :: database where
  "demo_db = empty_db\<lparr>db_settings := [''p'' \<mapsto> \<lparr>eus_ProjectID = ''p'', eus_Enabled = True, eus_BalanceCredits = 100,
     eus_MonthlyLimitCredits = 50, eus_BypassBalanceCheck = False\<rparr>]\<rparr>"

definition demo_req :: "int \<Rightarrow> DeductExtraUsageReq" where
  "demo_req n = \<lparr>ded_ProjectID = ''p'', ded_AmountCredits = n, ded_RequestID = ''r'', ded_Reason = ''rate_limited'',
     ded_Description = '''', ded_MonthWindowStart = 0\<rparr>"

lemma demo_deduct:
  "DeductExtraUsage demo_db True (demo_req 40) 7 = (Inr 60, snd (DeductExtraUsage demo_db True (demo_req 40) 7))"
  by (simp add: DeductExtraUsage_def demo_db_def demo_req_def month_spend_def empty_db_def deduct_allowed_def
      is_i64_def int64_max_def int64_min_def Let_def)

lemma deduct_respects_limits_witness:
  "month_spend (snd (DeductExtraUsage demo_db True (demo_req 40) 7)) ''p'' 0 \<le> 50
     \<and> balance_of (snd (DeductExtraUsage demo_db True (demo_req 40) 7)) ''p'' = 60"
  using deduct_respects_limits[OF demo_deduct] by (auto simp: demo_req_def demo_db_def empty_db_def)

lemma Refund_apply:
  assumes "order_row db ''topup'' oid = Some t" "db_settings db (eut_ProjectID t) = Some s"
    and "order_row db ''refund'' oid = None" "is_i64 (eus_BalanceCredits s - eut_AmountCredits t)"
  shows "RefundExtraUsageTopup db True oid now = (Inr (eus_BalanceCredits s - eut_AmountCredits t),
           append_row db s (refund_row oid t (eus_BalanceCredits s - eut_AmountCredits t) now))"
  using assms by (simp add: RefundExtraUsageTopup_def Let_def refund_row_def append_row_def)

lemma Refund_repeat:
  assumes "order_row db ''refund'' oid \<noteq> None" shows "snd (RefundExtraUsageTopup db True oid now) = db"
  using assms by (auto simp: RefundExtraUsageTopup_def Let_def split: option.split)

text \<open>A delivered top-up order is credited exactly once and a refund takes back exactly what it credited,
  once: for a fresh order id, repeating the top-up or the refund (as a retried webhook does) changes
  nothing, and after both the balance is what it was.\<close>
lemma topup_refund_once:
  assumes "top_OrderID req \<noteq> ''''" and "rows_for ''topup'' (top_OrderID req) (db_txs db) = []"
    and "rows_for ''refund'' (top_OrderID req) (db_txs db) = []"
    and "is_i64 (balance_of db (top_ProjectID req))" and "is_i64 (balance_of db (top_ProjectID req) + top_AmountCredits req)"
  shows "(let db1 = snd (TopUpExtraUsage db True req t1); db2 = snd (TopUpExtraUsage db1 True req t2);
              db3 = snd (RefundExtraUsageTopup db2 True (top_OrderID req) t3);
              db4 = snd (RefundExtraUsageTopup db3 True (top_OrderID req) t4)
          in db2 = db1 \<and> balance_of db1 (top_ProjectID req) = balance_of db (top_ProjectID req) + top_AmountCredits req
             \<and> balance_of db3 (top_ProjectID req) = balance_of db (top_ProjectID req) \<and> db4 = db3)"
proof -
  let ?p = "top_ProjectID req" and ?o = "top_OrderID req"
  let ?s = "the_or (default_settings ?p) (db_settings db ?p)"
  let ?b = "balance_of db ?p + top_AmountCredits req"
  let ?r = "topup_row req ?b t1"
  have n: "order_row db ''topup'' ?o = None" "order_row db ''refund'' ?o = None"
    using assms(2,3) by (simp_all add: order_row_None)
  have 1: "snd (TopUpExtraUsage db True req t1) = append_row db ?s ?r"
    using assms n by (simp add: TopUpExtraUsage_def Let_def append_row_def topup_row_def balance_of_def)
  have o1: "order_row (append_row db ?s ?r) ''topup'' ?o = Some ?r"
    using n by (simp add: order_row_append topup_row_def)
  have o1': "order_row (append_row db ?s ?r) ''refund'' ?o = None"
    using n by (simp add: order_row_append topup_row_def)
  have s1: "db_settings (append_row db ?s ?r) ?p = Some (?s\<lparr>eus_BalanceCredits := ?b\<rparr>)"
    by (simp add: append_row_def topup_row_def)
  have 2: "snd (TopUpExtraUsage (append_row db ?s ?r) True req t2) = append_row db ?s ?r"
    using assms(1) o1 s1 by (simp add: TopUpExtraUsage_def topup_row_def)
  let ?d1 = "append_row db ?s ?r" and ?s1 = "?s\<lparr>eus_BalanceCredits := ?b\<rparr>"
  let ?f = "refund_row ?o ?r (eus_BalanceCredits ?s1 - eut_AmountCredits ?r) t3"
  have p: "eut_ProjectID ?r = ?p" "eus_BalanceCredits ?s1 - eut_AmountCredits ?r = balance_of db ?p"
    by (simp_all add: topup_row_def)
  have 3: "snd (RefundExtraUsageTopup ?d1 True ?o t3) = append_row ?d1 ?s1 ?f"
    using Refund_apply[OF o1 _ o1', of ?s1 t3] s1 p assms(4) by simp
  have "order_row (append_row ?d1 ?s1 ?f) ''refund'' ?o \<noteq> None"
    using o1' by (simp add: order_row_append refund_row_def)
  then have 4: "snd (RefundExtraUsageTopup (append_row ?d1 ?s1 ?f) True ?o t4) = append_row ?d1 ?s1 ?f"
    by (rule Refund_repeat)
  have "balance_of ?d1 ?p = ?b" using balance_append[of db ?s ?r] p by (simp add: topup_row_def)
  moreover have "balance_of (append_row ?d1 ?s1 ?f) ?p = balance_of db ?p"
    using balance_append[of ?d1 ?s1 ?f] p(2) by (simp add: refund_row_def topup_row_def)
  ultimately show ?thesis by (simp only: Let_def 1 2 3 4 simp_thms)
qed

definition demo_topup :: TopUpExtraUsageReq where
  "demo_topup = \<lparr>top_ProjectID = ''p'', top_AmountCredits = 30, top_OrderID = ''o1'', top_Reason = ''user_topup'', top_Description = ''''\<rparr>"

lemma topup_refund_once_witness:
  "let db1 = snd (TopUpExtraUsage demo_db True demo_topup 1); db2 = snd (TopUpExtraUsage db1 True demo_topup 2);
       db3 = snd (RefundExtraUsageTopup db2 True ''o1'' 3); db4 = snd (RefundExtraUsageTopup db3 True ''o1'' 4)
   in db2 = db1 \<and> balance_of db1 ''p'' = 130 \<and> balance_of db3 ''p'' = 100 \<and> db4 = db3"
proof -
  have p: "top_ProjectID demo_topup = ''p''" "top_OrderID demo_topup = ''o1''" "top_AmountCredits demo_topup = 30"
    "balance_of demo_db ''p'' = 100" "db_txs demo_db = []"
    by (simp_all add: demo_topup_def demo_db_def empty_db_def balance_of_def)
  show ?thesis
    using topup_refund_once[of demo_topup demo_db 1 2 3 4] by (simp add: p rows_for_def is_i64_def int64_max_def int64_min_def)
qed

section \<open>Subscriptions: one active per project\<close>

definition one_active :: "Subscription list \<Rightarrow> bool" where
  "one_active subs = (\<forall>p. length (filter (\<lambda>s. sub_ProjectID s = p \<and> sub_Status s = ''active'') subs) \<le> 1)"

lemma insert_sub_one_active:
  assumes "one_active subs" "insert_sub subs s = Some subs'" shows "one_active subs'"
proof -
  have "length (filter (\<lambda>x. sub_ProjectID x = p \<and> sub_Status x = ''active'') subs') \<le> 1" for p
    using assms by (cases "sub_ProjectID s = p \<and> sub_Status s = ''active''")
      (auto simp: insert_sub_def one_active_def has_active_def list_ex_iff filter_empty_conv split: if_splits)
  then show ?thesis by (simp add: one_active_def)
qed

lemma length_filter_map_le:
  "(\<And>x. P (f x) \<Longrightarrow> P x) \<Longrightarrow> length (filter P (map f xs)) \<le> length (filter P xs)"
  by (induction xs) (auto intro: le_SucI)

lemma set_status_one_active:
  assumes "one_active subs" "st \<noteq> ''active''" shows "one_active (set_sub_status sid st subs)"
proof -
  have "length (filter (\<lambda>s. sub_ProjectID s = p \<and> sub_Status s = ''active'') (set_sub_status sid st subs))
      \<le> length (filter (\<lambda>s. sub_ProjectID s = p \<and> sub_Status s = ''active'') subs)" for p
    unfolding set_sub_status_def using assms(2) by (intro length_filter_map_le) (auto split: if_splits)
  then show ?thesis using assms(1) le_trans unfolding one_active_def by blast
qed

lemma expire_all_one_active:
  assumes "one_active subs" shows "one_active (map (\<lambda>s. if P s then s\<lparr>sub_Status := ''expired''\<rparr> else s) subs)"
proof -
  have "length (filter (\<lambda>s. sub_ProjectID s = p \<and> sub_Status s = ''active'') (map (\<lambda>s. if P s then s\<lparr>sub_Status := ''expired''\<rparr> else s) subs))
      \<le> length (filter (\<lambda>s. sub_ProjectID s = p \<and> sub_Status s = ''active'') subs)" for p
    by (intro length_filter_map_le) (auto split: if_splits)
  then show ?thesis using assms le_trans unfolding one_active_def by blast
qed

lemma replace_one_active:
  "one_active subs \<Longrightarrow> insert_sub (set_sub_status sid st subs) s = Some subs' \<Longrightarrow> st \<noteq> ''active'' \<Longrightarrow> one_active subs'"
  using insert_sub_one_active set_status_one_active by blast

lemma fallback_loop_one_active:
  "one_active subs \<Longrightarrow> one_active (snd (snd (fallback_loop free now newID items subs cnt)))"
proof (induction free now newID items subs cnt rule: fallback_loop.induct)
  case (2 free now newID e items subs cnt)
  show ?case
    by (auto simp: 2 split: option.split intro!: 2 replace_one_active[of subs "sub_ID e" "''expired''"])
qed simp

text \<open>The subscription a delivery creates: a renewal extends from the old expiry, anything else starts now.\<close>
definition delivered_sub :: "Order \<Rightarrow> Subscription \<Rightarrow> string \<Rightarrow> Plan \<Rightarrow> go_time \<Rightarrow> Subscription" where
  "delivered_sub ord old newID plan now =
     \<lparr>sub_ID = newID, sub_ProjectID = order_ProjectID ord, sub_PlanID = plan_ID plan, sub_PlanName = plan_Slug plan,
      sub_Status = ''active'', sub_StartsAt = now,
      sub_ExpiresAt = add_months (if sub_PlanName old = plan_Slug plan then sub_ExpiresAt old else now)
                        (i64 (plan_PeriodMonths plan * order_Periods ord)),
      sub_Currency = order_Currency ord\<rparr>"

lemma Deliver_paying:
  assumes "GetOrderByID db oid = Some ord" "order_Status ord = ''paying''"
    "order_ExistingSubscriptionID ord \<noteq> ''''" "GetSubscriptionByID db (order_ExistingSubscriptionID ord) = Some old"
  shows "DeliverOrder db newID oid plan now =
    (case insert_sub (set_sub_status (order_ExistingSubscriptionID ord) ''revoked'' (db_subs db)) (delivered_sub ord old newID plan now) of
       None \<Rightarrow> (Inl ''create subscription'', db)
     | Some subs \<Rightarrow> (Inr (delivered_sub ord old newID plan now), UpdateOrderStatus (db\<lparr>db_subs := subs\<rparr>) oid ''delivered''))"
  using assms by (cases "sub_PlanName old = plan_Slug plan") (simp_all add: DeliverOrder_def delivered_sub_def Let_def cong: option.case_cong)

lemma Deliver_other:
  assumes "\<nexists>ord old. GetOrderByID db oid = Some ord \<and> order_Status ord = ''paying''
    \<and> order_ExistingSubscriptionID ord \<noteq> '''' \<and> GetSubscriptionByID db (order_ExistingSubscriptionID ord) = Some old"
  shows "snd (DeliverOrder db newID oid plan now) = db"
  using assms by (auto simp: DeliverOrder_def split: option.split)

lemma subs_UpdateOrderStatus [simp]: "db_subs (UpdateOrderStatus d x y) = db_subs d"
  by (simp add: UpdateOrderStatus_def update_orders_def)

lemma Deliver_one_active:
  assumes "one_active (db_subs db)" shows "one_active (db_subs (snd (DeliverOrder db newID oid plan now)))"
proof (cases "\<exists>ord old. GetOrderByID db oid = Some ord \<and> order_Status ord = ''paying''
    \<and> order_ExistingSubscriptionID ord \<noteq> '''' \<and> GetSubscriptionByID db (order_ExistingSubscriptionID ord) = Some old")
  case False then show ?thesis using assms Deliver_other by fastforce
next
  case True
  then obtain ord old where "GetOrderByID db oid = Some ord" "order_Status ord = ''paying''"
    "order_ExistingSubscriptionID ord \<noteq> ''''" "GetSubscriptionByID db (order_ExistingSubscriptionID ord) = Some old" by blast
  then show ?thesis using assms
    by (auto simp: Deliver_paying split: option.split intro: replace_one_active)
qed

lemma two_in_list: "x \<in> set xs \<Longrightarrow> y \<in> set xs \<Longrightarrow> x \<noteq> y \<Longrightarrow> 2 \<le> length xs"
  by (cases xs; cases "tl xs") auto

lemma find_map_same:
  "(\<And>x. P (f x) = P x) \<Longrightarrow> List.find P (map f xs) = map_option f (List.find P xs)"
  by (induction xs) auto

lemma GetOrder_UpdateOrderStatus:
  "GetOrderByID (UpdateOrderStatus db oid st) oid = map_option (\<lambda>ord. ord\<lparr>order_Status := st\<rparr>) (GetOrderByID db oid)"
proof -
  have "GetOrderByID (UpdateOrderStatus db oid st) oid
      = map_option (\<lambda>ord. if order_ID ord = oid then ord\<lparr>order_Status := st\<rparr> else ord) (GetOrderByID db oid)"
    unfolding GetOrderByID_def UpdateOrderStatus_def update_orders_def by (simp add: find_map_same)
  also have "\<dots> = map_option (\<lambda>ord. ord\<lparr>order_Status := st\<rparr>) (GetOrderByID db oid)"
    by (intro option.map_cong) (auto simp: GetOrderByID_def find_Some_iff)
  finally show ?thesis .
qed

text \<open>A project never has two active subscriptions, and a paid order is delivered at most once: on a
  database with at most one active subscription per project, delivering an order keeps that; if it
  delivers, the order is marked delivered, its predecessor is revoked and the project's active
  subscription is the new one, renewed from the old expiry when the plan is the same and counted from
  now otherwise; delivering the same order again changes nothing.\<close>
lemma delivery_once:
  assumes "one_active (db_subs db)" and "GetOrderByID db oid = Some ord" and "order_Status ord = ''paying''"
    and "order_ExistingSubscriptionID ord \<noteq> ''''"
    and "GetSubscriptionByID db (order_ExistingSubscriptionID ord) = Some old"
    and "sub_ProjectID old = order_ProjectID ord" and "sub_Status old = ''active''"
  shows "\<exists>db'. DeliverOrder db newID oid plan now = (Inr (delivered_sub ord old newID plan now), db')
    \<and> one_active (db_subs db') \<and> delivered_sub ord old newID plan now \<in> set (db_subs db')
    \<and> map_option order_Status (GetOrderByID db' oid) = Some ''delivered''
    \<and> snd (DeliverOrder db' newID' oid plan now') = db'"
proof -
  let ?s = "delivered_sub ord old newID plan now"
  let ?subs = "set_sub_status (order_ExistingSubscriptionID ord) ''revoked'' (db_subs db)"
  have old: "old \<in> set (db_subs db)" "sub_ID old = order_ExistingSubscriptionID ord"
    using assms(5) unfolding GetSubscriptionByID_def by (auto simp: find_Some_iff)
  have "\<not> has_active ?subs (order_ProjectID ord)"
  proof
    assume "has_active ?subs (order_ProjectID ord)"
    then obtain x where x: "x \<in> set (db_subs db)" "sub_ProjectID x = order_ProjectID ord" "sub_Status x = ''active''" "sub_ID x \<noteq> sub_ID old"
      using old(2) by (auto simp: has_active_def list_ex_iff set_sub_status_def split: if_splits)
    let ?f = "filter (\<lambda>s. sub_ProjectID s = order_ProjectID ord \<and> sub_Status s = ''active'') (db_subs db)"
    have "x \<in> set ?f" "old \<in> set ?f" "x \<noteq> old" using x old assms(6,7) by auto
    then have "2 \<le> length ?f" by (rule two_in_list)
    then show False using assms(1)[unfolded one_active_def, rule_format, of "order_ProjectID ord"] by linarith
  qed
  then have i: "insert_sub ?subs ?s = Some (?subs @ [?s])" by (simp add: insert_sub_def delivered_sub_def)
  let ?db' = "UpdateOrderStatus (db\<lparr>db_subs := ?subs @ [?s]\<rparr>) oid ''delivered''"
  have d: "DeliverOrder db newID oid plan now = (Inr ?s, ?db')"
    using assms i by (simp add: Deliver_paying)
  have st: "map_option order_Status (GetOrderByID ?db' oid) = Some ''delivered''"
    using GetOrder_UpdateOrderStatus[of "db\<lparr>db_subs := ?subs @ [?s]\<rparr>" oid "''delivered''"] assms(2)
    by (simp add: GetOrderByID_def)
  have "snd (DeliverOrder ?db' newID' oid plan now') = ?db'"
  proof (rule Deliver_other)
    obtain ord' where "GetOrderByID ?db' oid = Some ord'" "order_Status ord' = ''delivered''" using st by blast
    then show "\<nexists>ord old. GetOrderByID ?db' oid = Some ord \<and> order_Status ord = ''paying''
      \<and> order_ExistingSubscriptionID ord \<noteq> '''' \<and> GetSubscriptionByID ?db' (order_ExistingSubscriptionID ord) = Some old"
      by simp
  qed
  moreover have "one_active (db_subs ?db')" using Deliver_one_active[OF assms(1), of newID oid plan now] d by simp
  ultimately show ?thesis using d st by (intro exI[of _ ?db']) simp
qed

definition demo_order :: Order where
  "demo_order = \<lparr>order_ID = ''o'', order_ProjectID = ''p'', order_PlanID = ''pro'', order_Periods = 1, order_UnitPrice = 100,
     order_Amount = 100, order_Currency = ''CNY'', order_Status = ''paying'', order_Channel = ''wechat'', order_PaymentRef = '''',
     order_PaymentURL = '''', order_ExistingSubscriptionID = ''s'', order_Metadata = ''{}'', order_OrderType = ''subscription'',
     order_ExtraUsageAmountCredits = 0, order_CreatedAt = 0\<rparr>"

definition demo_plan :: "string \<Rightarrow> Plan" where
  "demo_plan slug = \<lparr>plan_ID = slug, plan_Name = slug, plan_Slug = slug, plan_TierLevel = 1, plan_GroupTag = '''',
     plan_PriceCNYFen = 100, plan_PriceUSDCents = 10, plan_PeriodMonths = 1, plan_CreditRules = [],
     plan_ModelCreditRates = Map.empty, plan_ClientModelCreditRates = Map.empty, plan_ClassicRules = [], plan_IsActive = True\<rparr>"

definition demo_sub :: Subscription where
  "demo_sub = \<lparr>sub_ID = ''s'', sub_ProjectID = ''p'', sub_PlanID = ''pro'', sub_PlanName = ''pro'', sub_Status = ''active'',
     sub_StartsAt = 0, sub_ExpiresAt = 100, sub_Currency = ''CNY''\<rparr>"

definition demo_sub_db :: database where
  "demo_sub_db = empty_db\<lparr>db_orders := [demo_order], db_subs := [demo_sub]\<rparr>"

lemma delivery_once_witness:
  "\<exists>db'. DeliverOrder demo_sub_db ''s2'' ''o'' (demo_plan ''pro'') 50 = (Inr (delivered_sub demo_order demo_sub ''s2'' (demo_plan ''pro'') 50), db')
    \<and> one_active (db_subs db') \<and> delivered_sub demo_order demo_sub ''s2'' (demo_plan ''pro'') 50 \<in> set (db_subs db')
    \<and> map_option order_Status (GetOrderByID db' ''o'') = Some ''delivered''
    \<and> snd (DeliverOrder db' ''s3'' ''o'' (demo_plan ''pro'') 60) = db'"
  by (rule delivery_once)
     (simp_all add: demo_sub_db_def demo_order_def demo_sub_def empty_db_def one_active_def GetOrderByID_def GetSubscriptionByID_def)

text \<open>A renewal that is paid after the expiry job has run can never be delivered: the job has put the
  project on an active free subscription, delivery revokes only the order's own predecessor, and the
  insert then breaks the one-active-per-project index, so every retry fails and changes nothing.\<close>
lemma delivery_after_fallback_fails:
  assumes "GetOrderByID db oid = Some ord" and "order_Status ord = ''paying''" and "order_ExistingSubscriptionID ord \<noteq> ''''"
    and "GetSubscriptionByID db (order_ExistingSubscriptionID ord) = Some old"
    and "list_ex (\<lambda>s. sub_ProjectID s = order_ProjectID ord \<and> sub_Status s = ''active''
           \<and> sub_ID s \<noteq> order_ExistingSubscriptionID ord) (db_subs db)"
  shows "DeliverOrder db newID oid plan now = (Inl ''create subscription'', db)"
proof -
  have "has_active (set_sub_status (order_ExistingSubscriptionID ord) ''revoked'' (db_subs db)) (order_ProjectID ord)"
    using assms(5) by (auto simp: has_active_def set_sub_status_def list_ex_iff)
  then have "insert_sub (set_sub_status (order_ExistingSubscriptionID ord) ''revoked'' (db_subs db)) (delivered_sub ord old newID plan now) = None"
    by (simp add: insert_sub_def delivered_sub_def)
  then show ?thesis using assms by (simp add: Deliver_paying)
qed

definition demo_fallen_back :: database where
  "demo_fallen_back = snd (snd (ExpireAndFallbackToFree demo_sub_db (Some (demo_plan ''free'')) (\<lambda>s. ''free-'' @ s) 200))"

lemma demo_fallen_back: "demo_fallen_back = demo_sub_db\<lparr>db_subs := [demo_sub\<lparr>sub_Status := ''expired''\<rparr>,
    \<lparr>sub_ID = ''free-s'', sub_ProjectID = ''p'', sub_PlanID = ''free'', sub_PlanName = ''free'', sub_Status = ''active'',
     sub_StartsAt = 200, sub_ExpiresAt = add_months 200 1200, sub_Currency = ''''\<rparr>]\<rparr>"
  by (simp add: demo_fallen_back_def ExpireAndFallbackToFree_def demo_sub_db_def demo_sub_def demo_plan_def expired_paid_def
      insert_sub_def set_sub_status_def has_active_def empty_db_def)

lemma delivery_after_fallback_fails_witness:
  "DeliverOrder demo_fallen_back ''s2'' ''o'' (demo_plan ''pro'') 300 = (Inl ''create subscription'', demo_fallen_back)"
  by (rule delivery_after_fallback_fails[of _ _ demo_order "demo_sub\<lparr>sub_Status := ''expired''\<rparr>"])
     (simp_all add: demo_fallen_back demo_sub_db_def demo_order_def demo_sub_def empty_db_def GetOrderByID_def GetSubscriptionByID_def)

end
