(* ===== verification/RateLimit.thy ===== *)
theory RateLimit
  imports Types GoTime
begin

text \<open>
  Package ratelimit: in-memory counters (memory.go), the classic RPM/RPD/TPM/TPD limiter
  (classic.go), the credit cache (cache.go), the windows and the composite limiter
  (composite.go, engine.go). The clock is an argument \<^term>\<open>now\<close>, read once per operation; the credit
  sums of the database are parameters that may fail. None is a Go panic (division by a zero
  window).
\<close>

section \<open>Counters (memory.go)\<close>

record MemoryCounters =
  mc_requests :: "string \<rightharpoonup> go_time list"
  mc_tokens :: "string \<rightharpoonup> (go_time \<times> int) list"

definition NewMemoryCounters :: MemoryCounters where
  "NewMemoryCounters = \<lparr>mc_requests = Map.empty, mc_tokens = Map.empty\<rparr>"

definition AddRequest :: "MemoryCounters \<Rightarrow> string \<Rightarrow> go_time \<Rightarrow> MemoryCounters" where
  "AddRequest m key now = m\<lparr>mc_requests := (mc_requests m)(key \<mapsto> the_or [] (mc_requests m key) @ [now])\<rparr>"

definition AddTokens :: "MemoryCounters \<Rightarrow> string \<Rightarrow> int \<Rightarrow> go_time \<Rightarrow> MemoryCounters" where
  "AddTokens m key cnt now = m\<lparr>mc_tokens := (mc_tokens m)(key \<mapsto> the_or [] (mc_tokens m key) @ [(now, cnt)])\<rparr>"

definition CountRequests :: "MemoryCounters \<Rightarrow> string \<Rightarrow> duration \<Rightarrow> go_time \<Rightarrow> int" where
  "CountRequests m key window now =
     (let cutoff = now - window in
      foldl (\<lambda>count t. if t > cutoff then i64 (count + 1) else count) 0 (the_or [] (mc_requests m key)))"

definition SumTokens :: "MemoryCounters \<Rightarrow> string \<Rightarrow> duration \<Rightarrow> go_time \<Rightarrow> int" where
  "SumTokens m key window now =
     (let cutoff = now - window in
      foldl (\<lambda>total (tm, count). if tm > cutoff then i64 (total + count) else total) 0 (the_or [] (mc_tokens m key)))"

definition keep_or_delete :: "('a \<Rightarrow> bool) \<Rightarrow> 'a list \<Rightarrow> 'a list option" where
  "keep_or_delete P xs = (if filter P xs = [] then None else Some (filter P xs))"

definition Cleanup :: "MemoryCounters \<Rightarrow> duration \<Rightarrow> go_time \<Rightarrow> MemoryCounters" where
  "Cleanup m maxAge now =
     (let cutoff = now - maxAge in
      \<lparr>mc_requests = (\<lambda>k. Option.bind (mc_requests m k) (keep_or_delete (\<lambda>t. t > cutoff))),
       mc_tokens = (\<lambda>k. Option.bind (mc_tokens m k) (keep_or_delete (\<lambda>e. fst e > cutoff)))\<rparr>)"

section \<open>The classic limiter (classic.go)\<close>

definition counterKey :: "string \<Rightarrow> string \<Rightarrow> string \<Rightarrow> bool \<Rightarrow> string" where
  "counterKey apiKeyID metric model perModel =
     (if perModel then apiKeyID @ '':'' @ metric @ '':'' @ model else apiKeyID @ '':'' @ metric)"

definition metricWindow :: "string \<Rightarrow> duration" where
  "metricWindow metric =
     (if metric = ''rpm'' \<or> metric = ''tpm'' then minute
      else if metric = ''rpd'' \<or> metric = ''tpd'' then 24 * hour
      else minute)"

definition isRequestMetric :: "string \<Rightarrow> bool" where "isRequestMetric m = (m = ''rpm'' \<or> m = ''rpd'')"
definition isTokenMetric :: "string \<Rightarrow> bool" where "isTokenMetric m = (m = ''tpm'' \<or> m = ''tpd'')"

definition rule_current :: "MemoryCounters \<Rightarrow> string \<Rightarrow> string \<Rightarrow> ClassicRule \<Rightarrow> go_time \<Rightarrow> int" where
  "rule_current m apiKeyID model rule now =
     (let window = metricWindow (Metric rule);
          key = counterKey apiKeyID (Metric rule) model (PerModel rule)
      in if isRequestMetric (Metric rule) then CountRequests m key window now
         else if isTokenMetric (Metric rule) then SumTokens m key window now
         else 0)"

fun classic_Check :: "MemoryCounters \<Rightarrow> string \<Rightarrow> string \<Rightarrow> ClassicRule list \<Rightarrow> go_time \<Rightarrow> bool \<times> duration" where
  "classic_Check m apiKeyID model [] now = (True, 0)"
| "classic_Check m apiKeyID model (rule # rules) now =
     (if rule_current m apiKeyID model rule now \<ge> RuleLimit rule then (False, metricWindow (Metric rule))
      else classic_Check m apiKeyID model rules now)"

definition classic_Record :: "MemoryCounters \<Rightarrow> string \<Rightarrow> string \<Rightarrow> TokenUsage \<Rightarrow> go_time \<Rightarrow> MemoryCounters" where
  "classic_Record m apiKeyID model usage now =
     (let totalTokens = i64 (tu_InputTokens usage + tu_OutputTokens usage);
          m1 = foldl (\<lambda>m metric. AddRequest (AddRequest m (counterKey apiKeyID metric model False) now)
                                   (counterKey apiKeyID metric model True) now) m [''rpm'', ''rpd'']
      in foldl (\<lambda>m metric. AddTokens (AddTokens m (counterKey apiKeyID metric model False) totalTokens now)
                             (counterKey apiKeyID metric model True) totalTokens now) m1 [''tpm'', ''tpd''])"

section \<open>The credit cache (cache.go)\<close>

record cacheEntry =
  ce_value :: float64
  ce_expiresAt :: go_time

record creditCache =
  cch_entries :: "string \<rightharpoonup> cacheEntry"
  cch_ttl :: duration

definition NewCreditCache :: "duration \<Rightarrow> creditCache" where
  "NewCreditCache ttl = \<lparr>cch_entries = Map.empty, cch_ttl = ttl\<rparr>"

definition cache_Get :: "creditCache \<Rightarrow> string \<Rightarrow> go_time \<Rightarrow> float64 option" where
  "cache_Get c key now =
     (case cch_entries c key of
        None \<Rightarrow> None
      | Some e \<Rightarrow> if now > ce_expiresAt e then None else Some (ce_value e))"

definition cache_Set :: "creditCache \<Rightarrow> string \<Rightarrow> float64 \<Rightarrow> go_time \<Rightarrow> creditCache" where
  "cache_Set c key value now =
     c\<lparr>cch_entries := (cch_entries c)(key \<mapsto> \<lparr>ce_value = value, ce_expiresAt = now + cch_ttl c\<rparr>)\<rparr>"

definition invalidatePrefix :: "creditCache \<Rightarrow> string \<Rightarrow> creditCache" where
  "invalidatePrefix c prefix = c\<lparr>cch_entries := (\<lambda>k. if has_prefix k prefix then None else cch_entries c k)\<rparr>"

section \<open>Windows (composite.go)\<close>

text \<open>ParseDurationStr: Go durations, and the suffixes d and w; anything else is one hour.\<close>
definition ParseDurationStr :: "string \<Rightarrow> duration" where
  "ParseDurationStr s =
     (case ParseDuration s of
        Some d \<Rightarrow> d
      | None \<Rightarrow>
          if length s > 1 then
            (let suffix = last s; numPart = butlast s in
             if suffix = CHR ''d'' then
               (case ParseDuration (numPart @ ''h'') of Some d \<Rightarrow> i64 (d * 24) | None \<Rightarrow> hour)
             else if suffix = CHR ''w'' then
               (case ParseDuration (numPart @ ''h'') of Some d \<Rightarrow> i64 (i64 (d * 24) * 7) | None \<Rightarrow> hour)
             else hour)
          else hour)"

text \<open>Go's integer quotient truncates towards zero; division by zero panics.\<close>
definition go_quot :: "int \<Rightarrow> int \<Rightarrow> int option" where
  "go_quot a b = (if b = 0 then None else Some (sgn a * sgn b * (\<bar>a\<bar> div \<bar>b\<bar>)))"

definition iso_weekday :: "go_time \<Rightarrow> int" where
  "iso_weekday now = (if weekday now = 0 then 7 else weekday now)"

definition WindowStartTimeAt :: "go_time \<Rightarrow> string \<Rightarrow> string \<Rightarrow> go_time option \<Rightarrow> go_time option" where
  "WindowStartTimeAt now window windowType anchorTime =
     (if windowType = ''calendar'' \<and> window = ''1w'' then
        (let start = add_days now (- (iso_weekday now - 1)) in
         Some (date (year start) (month start) (mday start)))
      else if windowType = ''calendar'' \<and> window = ''1M'' then
        Some (date (year now) (month now) 1)
      else if windowType = ''fixed'' then
        (case anchorTime of
           None \<Rightarrow> Some (now - ParseDurationStr window)
         | Some anchor \<Rightarrow>
             (let d = ParseDurationStr window; elapsed = time_sub now anchor in
              if elapsed < 0 then Some anchor
              else map_option (\<lambda>windowIndex. anchor + i64 (windowIndex * d)) (go_quot elapsed d)))
      else Some (now - ParseDurationStr window))"

definition WindowResetDurationAt :: "go_time \<Rightarrow> string \<Rightarrow> string \<Rightarrow> go_time option \<Rightarrow> duration option" where
  "WindowResetDurationAt now window windowType anchorTime =
     (if windowType = ''calendar'' \<and> window = ''1w'' then
        Some (time_sub (date (year now) (month now) (mday now + (8 - iso_weekday now))) now)
      else if windowType = ''calendar'' \<and> window = ''1M'' then
        Some (time_sub (date (year now) (month now + 1) 1) now)
      else if windowType = ''fixed'' then
        map_option (\<lambda>windowStart. time_sub (windowStart + ParseDurationStr window) now)
          (WindowStartTimeAt now window windowType anchorTime)
      else Some (ParseDurationStr window))"

section \<open>The composite limiter (composite.go, engine.go)\<close>

record PreCheckResult =
  pcr_Allowed :: bool
  pcr_RetryAfter :: duration
  pcr_LimitType :: string

text \<open>The credit sums of package store: Inl is a query error.\<close>
record credit_store =
  cs_ByProject :: "string \<Rightarrow> go_time \<Rightarrow> unit + float64"
  cs_ByKey :: "string \<Rightarrow> go_time \<Rightarrow> unit + float64"
  cs_ByUser :: "string \<Rightarrow> string \<Rightarrow> go_time \<Rightarrow> unit + float64"

record CompositeRateLimiter =
  crl_classic :: MemoryCounters
  crl_cache :: creditCache

definition NewCompositeRateLimiter :: CompositeRateLimiter where
  "NewCompositeRateLimiter = \<lparr>crl_classic = NewMemoryCounters, crl_cache = NewCreditCache (10 * second)\<rparr>"

definition credit_key :: "string \<Rightarrow> string \<Rightarrow> CreditRule \<Rightarrow> string" where
  "credit_key projectID apiKeyID rule =
     (if EffectiveScope rule = ''project''
      then ''p:'' @ projectID @ ''|'' @ Window rule @ ''|'' @ WindowType rule
      else projectID @ ''|'' @ apiKeyID @ ''|'' @ Window rule @ ''|'' @ WindowType rule)"

text \<open>A cached credit sum: the cache, else the query whose result is cached.\<close>
definition cached_sum :: "creditCache \<Rightarrow> string \<Rightarrow> go_time \<Rightarrow> unit + float64 \<Rightarrow> (unit + float64) \<times> creditCache" where
  "cached_sum c key now query =
     (case cache_Get c key now of
        Some cached \<Rightarrow> (Inr cached, c)
      | None \<Rightarrow> (case query of Inl e \<Rightarrow> (Inl e, c) | Inr used \<Rightarrow> (Inr used, cache_Set c key used now)))"

datatype credit_outcome = CreditPass | CreditHit duration | CreditQueryFailed

fun check_credit_rules ::
  "credit_store \<Rightarrow> string \<Rightarrow> string \<Rightarrow> go_time \<Rightarrow> creditCache \<Rightarrow> CreditRule list \<Rightarrow> (credit_outcome \<times> creditCache) option" where
  "check_credit_rules st projectID apiKeyID now c [] = Some (CreditPass, c)"
| "check_credit_rules st projectID apiKeyID now c (rule # rules) =
     (case WindowStartTimeAt now (Window rule) (WindowType rule) (AnchorTime rule) of
        None \<Rightarrow> None
      | Some windowStart \<Rightarrow>
          (let query = (if EffectiveScope rule = ''project'' then cs_ByProject st projectID windowStart
                        else cs_ByKey st apiKeyID windowStart) in
           case cached_sum c (credit_key projectID apiKeyID rule) now query of
             (Inl _, c') \<Rightarrow> Some (CreditQueryFailed, c')
           | (Inr used, c') \<Rightarrow>
               if used \<ge> float_of (MaxCredits rule) then
                 (case WindowResetDurationAt now (Window rule) (WindowType rule) (AnchorTime rule) of
                    None \<Rightarrow> None
                  | Some retryAfter \<Rightarrow> Some (CreditHit retryAfter, c'))
               else check_credit_rules st projectID apiKeyID now c' rules))"

abbreviation (input) allowed_result :: PreCheckResult where
  "allowed_result \<equiv> \<lparr>pcr_Allowed = True, pcr_RetryAfter = 0, pcr_LimitType = ''''\<rparr>"

definition PreCheck ::
  "credit_store \<Rightarrow> CompositeRateLimiter \<Rightarrow> string \<Rightarrow> string \<Rightarrow> string \<Rightarrow> RateLimitPolicy option \<Rightarrow> go_time
   \<Rightarrow> (PreCheckResult \<times> CompositeRateLimiter) option" where
  "PreCheck st c projectID apiKeyID model policy now =
     (case policy of
        None \<Rightarrow> Some (allowed_result, c)
      | Some p \<Rightarrow>
          (case check_credit_rules st projectID apiKeyID now (crl_cache c) (policy_CreditRules p) of
             None \<Rightarrow> None
           | Some (outcome, cache') \<Rightarrow>
               (let c' = c\<lparr>crl_cache := cache'\<rparr>;
                    (allowed, retryAfter) =
                      (if policy_ClassicRules p \<noteq> [] then classic_Check (crl_classic c) apiKeyID model (policy_ClassicRules p) now
                       else (True, 0))
                in case outcome of
                     CreditQueryFailed \<Rightarrow> Some (allowed_result, c')
                   | _ \<Rightarrow>
                       if \<not> allowed then
                         Some (\<lparr>pcr_Allowed = False, pcr_RetryAfter = retryAfter, pcr_LimitType = ''classic''\<rparr>, c')
                       else (case outcome of
                               CreditHit ra \<Rightarrow>
                                 Some (\<lparr>pcr_Allowed = False, pcr_RetryAfter = ra, pcr_LimitType = ''credit''\<rparr>, c')
                             | _ \<Rightarrow> Some (allowed_result, c')))))"

definition PreCheckClassicOnly ::
  "CompositeRateLimiter \<Rightarrow> string \<Rightarrow> string \<Rightarrow> RateLimitPolicy option \<Rightarrow> go_time \<Rightarrow> PreCheckResult" where
  "PreCheckClassicOnly c apiKeyID model policy now =
     (case policy of
        None \<Rightarrow> allowed_result
      | Some p \<Rightarrow>
          if policy_ClassicRules p = [] then allowed_result
          else (case classic_Check (crl_classic c) apiKeyID model (policy_ClassicRules p) now of
                  (allowed, retryAfter) \<Rightarrow>
                    if \<not> allowed then \<lparr>pcr_Allowed = False, pcr_RetryAfter = retryAfter, pcr_LimitType = ''classic''\<rparr>
                    else allowed_result))"

definition user_key :: "string \<Rightarrow> string \<Rightarrow> CreditRule \<Rightarrow> string" where
  "user_key projectID userID rule = ''u:'' @ projectID @ '':'' @ userID @ ''|'' @ Window rule @ ''|'' @ WindowType rule"

fun check_quota_rules ::
  "credit_store \<Rightarrow> string \<Rightarrow> string \<Rightarrow> float64 \<Rightarrow> go_time \<Rightarrow> creditCache \<Rightarrow> CreditRule list
   \<Rightarrow> ((bool \<times> duration) \<times> creditCache) option" where
  "check_quota_rules st projectID userID quotaPct now c [] = Some ((True, 0), c)"
| "check_quota_rules st projectID userID quotaPct now c (rule # rules) =
     (if EffectiveScope rule \<noteq> ''project'' then check_quota_rules st projectID userID quotaPct now c rules
      else (case WindowStartTimeAt now (Window rule) (WindowType rule) (AnchorTime rule) of
              None \<Rightarrow> None
            | Some windowStart \<Rightarrow>
                (let userLimit = fmul (float_of (MaxCredits rule)) (fdiv quotaPct 100) in
                 case cached_sum c (user_key projectID userID rule) now (cs_ByUser st projectID userID windowStart) of
                   (Inl _, c') \<Rightarrow> Some ((True, 0), c')
                 | (Inr used, c') \<Rightarrow>
                     if used \<ge> userLimit then
                       (case WindowResetDurationAt now (Window rule) (WindowType rule) (AnchorTime rule) of
                          None \<Rightarrow> None
                        | Some retryAfter \<Rightarrow> Some ((False, retryAfter), c'))
                     else check_quota_rules st projectID userID quotaPct now c' rules)))"

definition CheckUserQuota ::
  "credit_store \<Rightarrow> CompositeRateLimiter \<Rightarrow> string \<Rightarrow> string \<Rightarrow> float64 \<Rightarrow> RateLimitPolicy option \<Rightarrow> go_time
   \<Rightarrow> ((bool \<times> duration) \<times> CompositeRateLimiter) option" where
  "CheckUserQuota st c projectID userID quotaPct policy now =
     (case policy of
        None \<Rightarrow> Some ((True, 0), c)
      | Some p \<Rightarrow>
          map_option (\<lambda>(r, cache'). (r, c\<lparr>crl_cache := cache'\<rparr>))
            (check_quota_rules st projectID userID quotaPct now (crl_cache c) (policy_CreditRules p)))"

definition PostRecord ::
  "CompositeRateLimiter \<Rightarrow> string \<Rightarrow> string \<Rightarrow> string \<Rightarrow> string \<Rightarrow> TokenUsage \<Rightarrow> go_time \<Rightarrow> CompositeRateLimiter" where
  "PostRecord c projectID apiKeyID userID model usage now =
     (let classic' = classic_Record (crl_classic c) apiKeyID model usage now;
          cache1 = invalidatePrefix (crl_cache c) apiKeyID;
          cache2 = invalidatePrefix cache1 (''p:'' @ projectID);
          cache3 = (if userID \<noteq> '''' then invalidatePrefix cache2 (''u:'' @ projectID @ '':'' @ userID) else cache2)
      in \<lparr>crl_classic = classic', crl_cache = cache3\<rparr>)"

section \<open>Counters\<close>

lemma foldl_count:
  assumes "0 \<le> n" "n + int (length xs) \<le> int64_max"
  shows "foldl (\<lambda>c t. if P t then i64 (c + 1) else c) n xs = n + int (length (filter P xs))"
  using assms
proof (induction xs arbitrary: n)
  case (Cons x xs)
  have "i64 (n + 1) = n + 1" using Cons.prems by (intro i64_small) simp_all
  then show ?case using Cons.IH[of n] Cons.IH[of "n + 1"] Cons.prems by simp
qed simp

lemma CountRequests_length:
  "int (length (the_or [] (mc_requests m k))) \<le> int64_max \<Longrightarrow>
     CountRequests m k w now = int (length (filter (\<lambda>t. t > now - w) (the_or [] (mc_requests m k))))"
  by (simp add: CountRequests_def foldl_count)

lemma foldl_skip:
  assumes "\<And>x. x \<in> set xs \<Longrightarrow> P x \<Longrightarrow> Q x"
  shows "foldl (\<lambda>c x. if P x then f c x else c) n (filter Q xs) = foldl (\<lambda>c x. if P x then f c x else c) n xs"
  using assms by (induction xs arbitrary: n) auto

lemma the_or_bind: "the_or [] (Option.bind x (keep_or_delete P)) = filter P (the_or [] x)"
  by (cases x) (auto simp: keep_or_delete_def)

text \<open>The background cleanup is invisible: dropping entries older than maxAge (the limiter uses 24
  hours) never changes what any later check counts, for every window up to maxAge, on requests and
  on tokens.\<close>
lemma cleanup_invisible:
  assumes "window \<le> maxAge" and "t0 \<le> now"
  shows "CountRequests (Cleanup m maxAge t0) key window now = CountRequests m key window now
    \<and> SumTokens (Cleanup m maxAge t0) key window now = SumTokens m key window now"
proof -
  have k: "t > now - window \<Longrightarrow> t > t0 - maxAge" for t using assms by linarith
  have "CountRequests (Cleanup m maxAge t0) key window now = CountRequests m key window now"
    using foldl_skip[of "the_or [] (mc_requests m key)" "\<lambda>t. t > now - window" "\<lambda>t. t > t0 - maxAge" "\<lambda>c t. i64 (c + 1)" 0] k
    by (simp add: CountRequests_def Cleanup_def Let_def the_or_bind)
  moreover have "SumTokens (Cleanup m maxAge t0) key window now = SumTokens m key window now"
    unfolding SumTokens_def Let_def case_prod_beta
    using foldl_skip[of "the_or [] (mc_tokens m key)" "\<lambda>e. fst e > now - window" "\<lambda>e. fst e > t0 - maxAge" "\<lambda>c e. i64 (c + snd e)" 0] k
    by (simp add: Cleanup_def Let_def the_or_bind case_prod_beta)
  ultimately show ?thesis ..
qed

lemma cleanup_invisible_witness:
  "CountRequests (Cleanup (AddRequest (AddRequest NewMemoryCounters ''k'' 5) ''k'' 100) 60 70) ''k'' 30 110
     = CountRequests (AddRequest (AddRequest NewMemoryCounters ''k'' 5) ''k'' 100) ''k'' 30 110"
  using cleanup_invisible[of 30 60 70 110 "AddRequest (AddRequest NewMemoryCounters ''k'' 5) ''k'' 100" "''k''"] by simp

section \<open>The classic limiter\<close>

lemma requests_Record:
  "mc_requests (classic_Record m a model u now) k =
     (if k \<in> {counterKey a ''rpm'' model False, counterKey a ''rpm'' model True,
              counterKey a ''rpd'' model False, counterKey a ''rpd'' model True}
      then Some (the_or [] (mc_requests m k) @ [now]) else mc_requests m k)"
  by (auto simp: classic_Record_def AddRequest_def AddTokens_def counterKey_def Let_def)

lemma tokens_Record:
  "mc_tokens (classic_Record m a model u now) k =
     (if k \<in> {counterKey a ''tpm'' model False, counterKey a ''tpm'' model True,
              counterKey a ''tpd'' model False, counterKey a ''tpd'' model True}
      then Some (the_or [] (mc_tokens m k) @ [(now, i64 (tu_InputTokens u + tu_OutputTokens u))]) else mc_tokens m k)"
  by (auto simp: classic_Record_def AddRequest_def AddTokens_def counterKey_def Let_def)

definition rpm_key :: "string \<Rightarrow> string" where "rpm_key a = counterKey a ''rpm'' '''' False"

text \<open>Requests of one key served one after the other: a request that passes Check is recorded.\<close>
definition admit :: "ClassicRule list \<Rightarrow> string \<Rightarrow> MemoryCounters \<Rightarrow> string \<times> TokenUsage \<times> go_time \<Rightarrow> MemoryCounters" where
  "admit rules a m req = (case req of (model, u, now) \<Rightarrow>
     if fst (classic_Check m a model rules now) then classic_Record m a model u now else m)"

lemma classic_Check_True:
  "fst (classic_Check m a model rules now) \<longleftrightarrow> list_all (\<lambda>r. rule_current m a model r now < RuleLimit r) rules"
  by (induction rules) auto

lemma admit_requests:
  "mc_requests (admit rules a m (model, u, now)) (rpm_key a) =
     (if fst (classic_Check m a model rules now) then Some (the_or [] (mc_requests m (rpm_key a)) @ [now])
      else mc_requests m (rpm_key a))"
  by (simp add: admit_def requests_Record rpm_key_def counterKey_def)

lemma admit_refused: "\<not> fst (classic_Check m a model rules now) \<Longrightarrow> admit rules a m (model, u, now) = m"
  by (simp add: admit_def)

lemma admit_length:
  "length (the_or [] (mc_requests (foldl (admit rules a) NewMemoryCounters reqs) (rpm_key a))) \<le> length reqs"
proof (induction reqs rule: rev_induct)
  case (snoc r reqs)
  obtain model u now where "r = (model, u, now)" by (cases r)
  then show ?case using snoc by (simp add: admit_requests)
qed (simp add: NewMemoryCounters_def)

lemma length_filter_imp: "(\<And>x. P x \<Longrightarrow> Q x) \<Longrightarrow> length (filter P xs) \<le> length (filter Q xs)"
  by (induction xs) (auto intro: le_SucI)

text \<open>The RPM limit is enforced: if the requests of a key are checked and recorded one after the other,
  at non-decreasing times, then at any later time at most Limit of them lie within the last minute,
  whatever other rules there are. (Concurrent requests are checked before earlier ones are recorded,
  so the bound is on serialised traffic.)\<close>
lemma rpm_limit_enforced:
  assumes "\<lparr>Metric = ''rpm'', RuleLimit = L, PerModel = False\<rparr> \<in> set rules"
    and "sorted (map (snd \<circ> snd) reqs)" and "0 \<le> L" and "int (length reqs) \<le> int64_max"
    and "list_all (\<lambda>r. snd (snd r) \<le> now) reqs"
  shows "CountRequests (foldl (admit rules a) NewMemoryCounters reqs) (rpm_key a) minute now \<le> L"
  using assms(2,4,5)
proof (induction reqs arbitrary: now rule: rev_induct)
  case Nil then show ?case using assms(3) by (simp add: CountRequests_def NewMemoryCounters_def)
next
  case (snoc r reqs)
  obtain model u t where r: "r = (model, u, t)" by (cases r)
  let ?m = "foldl (admit rules a) NewMemoryCounters reqs"
  have s: "sorted (map (snd \<circ> snd) reqs)" "list_all (\<lambda>r. snd (snd r) \<le> t) reqs" "t \<le> now" "int (length reqs) + 1 \<le> int64_max"
    using snoc.prems r by (auto simp: sorted_append list_all_iff comp_def)
  have l: "int (length (the_or [] (mc_requests ?m (rpm_key a)))) + 1 \<le> int64_max"
    using admit_length[of rules a reqs] s(4) by linarith
  have IH: "CountRequests ?m (rpm_key a) minute n \<le> L" if "t \<le> n" for n
  proof -
    have "list_all (\<lambda>r. snd (snd r) \<le> n) reqs" using s(2) that by (auto simp: list_all_iff)
    then show ?thesis using snoc.IH[OF s(1), of n] s(4) by simp
  qed
  show ?case
  proof (cases "fst (classic_Check ?m a model rules t)")
    case False then show ?thesis using IH[OF s(3)] r by (simp add: admit_refused)
  next
    case True
    let ?rs = "the_or [] (mc_requests ?m (rpm_key a))"
    have "rule_current ?m a model \<lparr>Metric = ''rpm'', RuleLimit = L, PerModel = False\<rparr> t < L"
      using True assms(1) by (auto simp: classic_Check_True list_all_iff)
    then have lt: "int (length (filter (\<lambda>x. x > t - minute) ?rs)) < L"
      using l by (simp add: rule_current_def isRequestMetric_def metricWindow_def CountRequests_length rpm_key_def counterKey_def)
    have m: "the_or [] (mc_requests (admit rules a ?m (model, u, t)) (rpm_key a)) = ?rs @ [t]"
      using True by (simp add: admit_requests)
    have "CountRequests (admit rules a ?m (model, u, t)) (rpm_key a) minute now
        = int (length (filter (\<lambda>x. x > now - minute) (?rs @ [t])))"
      using l m by (subst CountRequests_length) simp_all
    also have "\<dots> \<le> int (length (filter (\<lambda>x. x > t - minute) ?rs)) + 1"
    proof -
      have "length (filter (\<lambda>x. x > now - minute) ?rs) \<le> length (filter (\<lambda>x. x > t - minute) ?rs)"
        using s(3) by (intro length_filter_imp) linarith
      then show ?thesis by simp
    qed
    also have "\<dots> \<le> L" using lt by simp
    finally show ?thesis using r by simp
  qed
qed

lemma rpm_limit_enforced_witness:
  "CountRequests (foldl (admit [\<lparr>Metric = ''rpm'', RuleLimit = 2, PerModel = False\<rparr>] ''k'') NewMemoryCounters
     [(''m'', \<lparr>tu_InputTokens = 1, tu_OutputTokens = 1, tu_CacheCreationTokens = 0, tu_CacheReadTokens = 0\<rparr>, 1),
      (''m'', \<lparr>tu_InputTokens = 1, tu_OutputTokens = 1, tu_CacheCreationTokens = 0, tu_CacheReadTokens = 0\<rparr>, 2),
      (''m'', \<lparr>tu_InputTokens = 1, tu_OutputTokens = 1, tu_CacheCreationTokens = 0, tu_CacheReadTokens = 0\<rparr>, 3)])
     (rpm_key ''k'') minute 5 \<le> 2"
  by (rule rpm_limit_enforced) (simp_all add: int64_max_def)

section \<open>Windows\<close>

lemma ParseDuration_le: "ParseDuration s = Some d \<Longrightarrow> d \<le> int64_max"
  using i64_range
  by (auto simp: ParseDuration_def Let_def is_i64_def int64_max_def split: if_splits option.splits)

lemma ParseDurationStr_le: "ParseDurationStr s \<le> int64_max"
  using i64_range by (auto simp: ParseDurationStr_def Let_def is_i64_def hour_def int64_max_def[THEN eq_reflection, symmetric] dest: ParseDuration_le split: option.split) (simp_all add: int64_max_def)

text \<open>A fixed window is the one of the anchored partition that holds now: it starts a whole number of
  windows after the anchor, not after now, ends after now, and the reset duration is exactly the
  time left in it.\<close>
lemma fixed_window:
  assumes "0 < ParseDurationStr w" and "anchor \<le> now" and "is_i64 (now - anchor)"
  shows "\<exists>start. WindowStartTimeAt now w ''fixed'' (Some anchor) = Some start
    \<and> ParseDurationStr w dvd (start - anchor) \<and> anchor \<le> start \<and> start \<le> now \<and> now < start + ParseDurationStr w
    \<and> WindowResetDurationAt now w ''fixed'' (Some anchor) = Some (start + ParseDurationStr w - now)"
proof -
  let ?d = "ParseDurationStr w" and ?e = "now - anchor"
  let ?q = "?e div ?d"
  have b: "?d * ?q \<le> ?e" "?e < ?d * ?q + ?d" using div_bounds[OF assms(1), of ?e] by simp_all
  have q: "0 \<le> ?q" using assms by (simp add: pos_imp_zdiv_nonneg_iff)
  have p: "0 \<le> ?d * ?q" using assms(1) q by simp
  have i: "i64 (?q * ?d) = ?q * ?d"
    using b(1) p assms(3) by (intro i64_small) (simp_all add: is_i64_def mult.commute)
  have quot: "go_quot ?e ?d = Some ?q"
    using assms by (auto simp: go_quot_def sgn_if)
  have s: "WindowStartTimeAt now w ''fixed'' (Some anchor) = Some (anchor + ?q * ?d)"
    using assms quot i by (simp add: WindowStartTimeAt_def Let_def)
  have "is_i64 (anchor + ?q * ?d + ?d - now)"
    using b p ParseDurationStr_le[of w] by (simp add: is_i64_def mult.commute int64_max_def int64_min_def)
  then have r: "WindowResetDurationAt now w ''fixed'' (Some anchor) = Some (anchor + ?q * ?d + ?d - now)"
    using s by (simp add: WindowResetDurationAt_def)
  show ?thesis using s r b p by (intro exI[of _ "anchor + ?q * ?d"]) (simp add: mult.commute)
qed

lemma fixed_window_witness:
  "\<exists>start. WindowStartTimeAt (25 * hour) ''1d'' ''fixed'' (Some 0) = Some start
    \<and> ParseDurationStr ''1d'' dvd (start - 0) \<and> 0 \<le> start \<and> start \<le> 25 * hour \<and> 25 * hour < start + ParseDurationStr ''1d''
    \<and> WindowResetDurationAt (25 * hour) ''1d'' ''fixed'' (Some 0) = Some (start + ParseDurationStr ''1d'' - 25 * hour)"
proof (rule fixed_window)
  show "0 < ParseDurationStr ''1d''" by code_simp
  show "0 \<le> 25 * hour" "is_i64 (25 * hour - 0)" by (simp_all add: hour_def is_i64_def int64_max_def int64_min_def)
qed

lemma weekday_of_mult: "weekday (n * day) = (n + 4) mod 7"
  by (simp add: weekday_def days_of_mult)

lemma iso_weekday_mod: "(days_of t + 4 - iso_weekday t) mod 7 = 0 \<and> 1 \<le> iso_weekday t \<and> iso_weekday t \<le> 7"
proof (cases "(days_of t + 4) mod 7 = 0")
  case False
  have "0 \<le> (days_of t + 4) mod 7" "(days_of t + 4) mod 7 < 7" by simp_all
  then have "1 \<le> (days_of t + 4) mod 7" "(days_of t + 4) mod 7 \<le> 7" using False by linarith+
  moreover have "(days_of t + 4 - (days_of t + 4) mod 7) mod 7 = 0" by (simp add: minus_mod_eq_mult_div)
  ultimately show ?thesis using False by (simp add: iso_weekday_def weekday_def)
next
  case True
  then have "(days_of t + 4 - 7) mod 7 = 0" by presburger
  then show ?thesis using True by (simp add: iso_weekday_def weekday_def)
qed

lemma calendar_week_start:
  "WindowStartTimeAt now ''1w'' ''calendar'' a = Some ((days_of now - (iso_weekday now - 1)) * day)"
proof -
  have "days_of (now + n * day) = days_of now + n" for n
    by (simp add: days_of_def day_def)
  from this[of "- (iso_weekday now - 1)"] show ?thesis
    by (simp only: WindowStartTimeAt_def Let_def add_days_def date_components simp_thms if_True) simp
qed

lemma calendar_week_reset:
  "WindowResetDurationAt now ''1w'' ''calendar'' a = Some (time_sub ((days_of now + (8 - iso_weekday now)) * day) now)"
  using date_shift[of now "8 - iso_weekday now"] by (simp add: WindowResetDurationAt_def)

lemma day_part: "days_of t * day \<le> t \<and> t < (days_of t + 1) * day"
  using div_bounds[of day t] by (simp add: days_of_def day_def algebra_simps)

text \<open>Calendar weeks are the ISO weeks: the window starts on a Monday at midnight, holds now, is seven
  days long, and the reset duration is the time left in it.\<close>
lemma calendar_week:
  "\<exists>start. WindowStartTimeAt now ''1w'' ''calendar'' a = Some start
    \<and> weekday start = 1 \<and> day dvd start \<and> start \<le> now \<and> now < start + 7 * day
    \<and> WindowResetDurationAt now ''1w'' ''calendar'' a = Some (start + 7 * day - now)"
proof -
  let ?n = "days_of now - (iso_weekday now - 1)"
  note i = iso_weekday_mod[of now] and d = day_part[of now]
  have D: "day = 86400000000000" by (simp add: day_def)
  have wd: "(?n + 4) mod 7 = 1" using i by presburger
  have i': "1 \<le> iso_weekday now" "iso_weekday now \<le> 7" using i by simp_all
  have le: "?n * day \<le> now" using i' d unfolding D by (simp add: algebra_simps)
  have lt: "now < ?n * day + 7 * day" using i' d unfolding D by (simp add: algebra_simps)
  have e: "(days_of now + (8 - iso_weekday now)) * day = ?n * day + 7 * day" by (simp add: algebra_simps)
  have "is_i64 (?n * day + 7 * day - now)" using le lt unfolding D is_i64_def int64_max_def int64_min_def by linarith
  then have r: "WindowResetDurationAt now ''1w'' ''calendar'' a = Some (?n * day + 7 * day - now)"
    unfolding calendar_week_reset e by simp
  show ?thesis
    using le lt wd r by (intro exI[of _ "?n * day"]) (simp add: calendar_week_start weekday_of_mult)
qed

lemma month_first: "year (date (year t) (month t) 1) = year t \<and> month (date (year t) (month t) 1) = month t"
  using same_month[of t "date (year t) (month t) 1"] month_start_le[of t] by linarith

text \<open>Calendar months: the window holds now, ends where the next month starts, and two times have the same
  window exactly when they lie in the same month of the same year.\<close>
lemma calendar_month:
  "(\<exists>start. WindowStartTimeAt now ''1M'' ''calendar'' a = Some start \<and> start \<le> now
      \<and> WindowResetDurationAt now ''1M'' ''calendar'' a = Some (date (year now) (month now + 1) 1 - now)
      \<and> now < date (year now) (month now + 1) 1)
   \<and> (WindowStartTimeAt now ''1M'' ''calendar'' a = WindowStartTimeAt t ''1M'' ''calendar'' a
        \<longleftrightarrow> year now = year t \<and> month now = month t)"
proof -
  have b: "date (year now) (month now) 1 \<le> now" "now < date (year now) (month now + 1) 1"
    using month_start_le by simp_all
  have "is_i64 (date (year now) (month now + 1) 1 - now)"
    using b month_length[of now] unfolding is_i64_def int64_max_def int64_min_def day_def by linarith
  then have "WindowResetDurationAt now ''1M'' ''calendar'' a = Some (date (year now) (month now + 1) 1 - now)"
    by (simp add: WindowResetDurationAt_def)
  moreover have "date (year now) (month now) 1 = date (year t) (month t) 1 \<longleftrightarrow> year now = year t \<and> month now = month t"
    using month_first[of now] month_first[of t] by metis
  ultimately show ?thesis using b by (simp add: WindowStartTimeAt_def)
qed

text \<open>A monthly window that is not a calendar window is one hour long: "1M" is not a Go duration nor a
  d/w suffix, so the credit rule comment's own example "1M" silently means one hour.\<close>
lemma month_window_is_an_hour:
  "WindowStartTimeAt now ''1M'' ''sliding'' a = Some (now - hour) \<and> WindowResetDurationAt now ''1M'' ''sliding'' a = Some hour"
proof -
  have "ParseDurationStr ''1M'' = hour" by code_simp
  then show ?thesis by (simp add: WindowStartTimeAt_def WindowResetDurationAt_def)
qed

section \<open>Admission\<close>

text \<open>The decision table of PreCheck: without a query error the request is allowed exactly when every
  classic rule and every credit rule has room; a classic violation is reported as classic whatever
  the credit rules say; and the result never carries another limit type.\<close>
lemma precheck_decision:
  assumes "PreCheck st c proj key model (Some p) now = Some (r, c')"
  shows "\<exists>outcome cache'. check_credit_rules st proj key now (crl_cache c) (policy_CreditRules p) = Some (outcome, cache')
     \<and> crl_classic c' = crl_classic c \<and> crl_cache c' = cache'
     \<and> (pcr_Allowed r \<longleftrightarrow> outcome = CreditQueryFailed
          \<or> (outcome = CreditPass \<and> list_all (\<lambda>rule. rule_current (crl_classic c) key model rule now < RuleLimit rule) (policy_ClassicRules p)))
     \<and> (pcr_LimitType r = ''classic'' \<longleftrightarrow> outcome \<noteq> CreditQueryFailed
          \<and> \<not> list_all (\<lambda>rule. rule_current (crl_classic c) key model rule now < RuleLimit rule) (policy_ClassicRules p))
     \<and> pcr_LimitType r \<in> {'''', ''classic'', ''credit''}"
proof -
  obtain outcome cache' where o: "check_credit_rules st proj key now (crl_cache c) (policy_CreditRules p) = Some (outcome, cache')"
    using assms by (auto simp: PreCheck_def split: option.splits)
  have cl: "fst (classic_Check (crl_classic c) key model (policy_ClassicRules p) now) \<longleftrightarrow>
     list_all (\<lambda>rule. rule_current (crl_classic c) key model rule now < RuleLimit rule) (policy_ClassicRules p)"
    by (rule classic_Check_True)
  show ?thesis
    using assms o cl
    by (cases outcome; cases "policy_ClassicRules p = []")
       (auto simp: PreCheck_def Let_def split: if_splits prod.splits)
qed

definition demo_policy :: RateLimitPolicy where
  "demo_policy = \<lparr>policy_ID = [], policy_ProjectID = [], policy_Name = [], policy_CreditRules = [],
     policy_ModelCreditRates = Map.empty, policy_ClientModelCreditRates = Map.empty,
     policy_ClassicRules = [\<lparr>Metric = ''rpm'', RuleLimit = 0, PerModel = False\<rparr>],
     policy_StartsAt = None, policy_ExpiresAt = None\<rparr>"

definition demo_store :: credit_store where
  "demo_store = \<lparr>cs_ByProject = \<lambda>_ _. Inl (), cs_ByKey = \<lambda>_ _. Inl (), cs_ByUser = \<lambda>_ _ _. Inl ()\<rparr>"

lemma demo_PreCheck:
  "PreCheck demo_store NewCompositeRateLimiter ''p'' ''k'' ''m'' (Some demo_policy) 7
     = Some (\<lparr>pcr_Allowed = False, pcr_RetryAfter = minute, pcr_LimitType = ''classic''\<rparr>, NewCompositeRateLimiter)"
  by (simp add: PreCheck_def demo_policy_def rule_current_def CountRequests_def NewCompositeRateLimiter_def
      NewMemoryCounters_def isRequestMetric_def metricWindow_def)

lemma precheck_decision_witness:
  "\<exists>outcome cache'. check_credit_rules demo_store ''p'' ''k'' 7 (crl_cache NewCompositeRateLimiter) (policy_CreditRules demo_policy)
       = Some (outcome, cache')
     \<and> \<not> list_all (\<lambda>rule. rule_current (crl_classic NewCompositeRateLimiter) ''k'' ''m'' rule 7 < RuleLimit rule) (policy_ClassicRules demo_policy)"
  using precheck_decision[OF demo_PreCheck] by auto

text \<open>The tokens and requests of a model are recorded under the model's name, but the middleware checks
  the limits with an empty model name before the model is resolved, so a rule with per_model set reads
  a counter nothing ever increments: whatever was recorded for the key, its current value is 0.\<close>
lemma per_model_rules_never_fire:
  assumes "list_all (\<lambda>(model, u, t). model \<noteq> '''') reqs"
  shows "rule_current (foldl (\<lambda>m (model, u, t). classic_Record m a model u t) NewMemoryCounters reqs) a ''''
           \<lparr>Metric = metric, RuleLimit = L, PerModel = True\<rparr> now = 0"
proof -
  have "mc_requests (foldl (\<lambda>m (model, u, t). classic_Record m a model u t) NewMemoryCounters reqs) (counterKey a metric '''' True) = None
    \<and> mc_tokens (foldl (\<lambda>m (model, u, t). classic_Record m a model u t) NewMemoryCounters reqs) (counterKey a metric '''' True) = None"
    if "isRequestMetric metric \<or> isTokenMetric metric"
    using assms
  proof (induction reqs rule: rev_induct)
    case Nil show ?case by (simp add: NewMemoryCounters_def)
  next
    case (snoc r reqs)
    obtain model u t where "r = (model, u, t)" by (cases r)
    then show ?case using snoc that
      by (auto simp: requests_Record tokens_Record counterKey_def isRequestMetric_def isTokenMetric_def)
  qed
  then show ?thesis
    by (cases "isRequestMetric metric"; cases "isTokenMetric metric")
       (simp_all add: rule_current_def CountRequests_def SumTokens_def Let_def)
qed

lemma per_model_rules_never_fire_witness:
  "rule_current (foldl (\<lambda>m (model, u, t). classic_Record m ''k'' model u t) NewMemoryCounters
       [(''m'', \<lparr>tu_InputTokens = 1, tu_OutputTokens = 1, tu_CacheCreationTokens = 0, tu_CacheReadTokens = 0\<rparr>, 1)]) ''k'' ''''
     \<lparr>Metric = ''rpm'', RuleLimit = 1, PerModel = True\<rparr> 2 = 0"
  by (rule per_model_rules_never_fire) simp

text \<open>When a credit sum cannot be read the request is admitted at once, before the classic rules are
  looked at, so a database error also lifts the classic limits, which are meant to protect the
  upstreams whatever the credit state.\<close>
lemma query_error_skips_classic_rules:
  "map_option (pcr_Allowed \<circ> fst)
     (PreCheck demo_store \<lparr>crl_classic = m, crl_cache = NewCreditCache ttl\<rparr> proj key model
        (Some (p\<lparr>policy_CreditRules := \<lparr>Window = w, WindowType = ''sliding'', MaxCredits = n, Scope = sc, AnchorTime = a\<rparr> # rs\<rparr>)) now)
   = Some True"
  by (simp add: PreCheck_def WindowStartTimeAt_def cached_sum_def cache_Get_def NewCreditCache_def demo_store_def
      split: prod.split)

lemma prefix_diff:
  assumes "length x = length y" "x \<noteq> y" shows "\<not> has_prefix (x @ z) y"
  using assms by (auto dest!: has_prefixE)

lemma has_prefix_hd: "has_prefix (x @ z) (c # y) \<Longrightarrow> x \<noteq> [] \<Longrightarrow> hd x = c"
  by (cases x) auto

text \<open>After a request is recorded, no cached sum of its project is read again (every project-scope entry
  of it is dropped), but a key-scope entry survives: its key starts with the project id and the
  prefix dropped is the key id (for ids of the same length, as UUIDs are), so key-scope rules keep
  using a sum up to the cache's ttl old.\<close>
lemma post_record_invalidation:
  assumes "length keyID = length proj" and "keyID \<noteq> proj" and "hd proj \<noteq> CHR ''p''" and "hd proj \<noteq> CHR ''u''" and "proj \<noteq> []"
  shows "cch_entries (crl_cache (PostRecord c proj keyID user model u now)) (credit_key proj keyID rule)
    = (if EffectiveScope rule = ''project'' then None else cch_entries (crl_cache c) (credit_key proj keyID rule))"
proof (cases "EffectiveScope rule = ''project''")
  case True
  have "has_prefix (''p:'' @ proj @ z) (''p:'' @ proj)" for z by simp
  then show ?thesis using True
    by (simp add: PostRecord_def credit_key_def invalidatePrefix_def Let_def)
next
  case False
  have "\<not> has_prefix (proj @ z) keyID" for z using assms(1,2) prefix_diff[of proj keyID] by auto
  moreover have "\<not> has_prefix (proj @ z) (''p:'' @ y)" "\<not> has_prefix (proj @ z) (''u:'' @ y)" for y z
    using assms(3-5) has_prefix_hd[of proj z] by auto
  ultimately show ?thesis using False
    by (auto simp: PostRecord_def credit_key_def invalidatePrefix_def Let_def)
qed

lemma post_record_invalidation_witness:
  "cch_entries (crl_cache (PostRecord \<lparr>crl_classic = NewMemoryCounters,
        crl_cache = cache_Set (NewCreditCache (10 * second)) ''a1|b2|1h|sliding'' 5 100\<rparr> ''a1'' ''b2'' '''' ''m''
        \<lparr>tu_InputTokens = 1, tu_OutputTokens = 1, tu_CacheCreationTokens = 0, tu_CacheReadTokens = 0\<rparr> 200))
     (credit_key ''a1'' ''b2'' \<lparr>Window = ''1h'', WindowType = ''sliding'', MaxCredits = 1, Scope = ''key'', AnchorTime = None\<rparr>)
   = Some \<lparr>ce_value = 5, ce_expiresAt = 100 + 10 * second\<rparr>"
  by (subst post_record_invalidation)
     (simp_all add: EffectiveScope_def credit_key_def cache_Set_def NewCreditCache_def)

end
