(* ===== verification/Billing.thy ===== *)
theory Billing
  imports Ledger RateLimit
begin

text \<open>
  The billing handlers of package admin (handle_orders.go, handle_extra_usage.go, handle_delivery.go,
  handle_refund.go, admin.go) and package billing (channel.go, savings.go, hmac_middleware.go), on the database
  of Ledger. A handler is a function of the database, the decoded body (None when it does not
  decode), the time and the generated ids, and returns the response and the database. The argument
  \<^term>\<open>up\<close> says which store call succeeds, \<^term>\<open>pay\<close> is the payment provider, which is not part of the
  repository: None when it is not configured, else a function that may fail.
\<close>

datatype 'a response = Success int 'a | Failure int string

section \<open>Helpers (admin.go, resource_scope.go, channel.go)\<close>

definition requireRole :: "User option \<Rightarrow> ProjectMember option \<Rightarrow> string list \<Rightarrow> bool" where
  "requireRole user mem roles =
     (case mem of
        None \<Rightarrow> (case user of Some u \<Rightarrow> user_IsSuperadmin u | None \<Rightarrow> False)
      | Some m \<Rightarrow> List.member roles (member_Role m))"

text \<open>parse is uuid.Parse of the package github.com/google/uuid.\<close>
definition sameProjectID :: "(string \<Rightarrow> 'u option) \<Rightarrow> string \<Rightarrow> string \<Rightarrow> bool" where
  "sameProjectID parse l r = (if l = r then True
     else (case (parse l, parse r) of (Some a, Some b) \<Rightarrow> a = b | _ \<Rightarrow> False))"

definition ChannelPricing :: "string \<Rightarrow> Plan \<Rightarrow> string \<times> int \<times> bool" where
  "ChannelPricing channel plan =
     (if channel = ''wechat'' \<or> channel = ''alipay'' then (''CNY'', plan_PriceCNYFen plan, plan_PriceCNYFen plan > 0)
      else if channel = ''stripe'' then (''USD'', plan_PriceUSDCents plan, plan_PriceUSDCents plan > 0)
      else ('''', 0, False))"

text \<open>math.Round: half away from zero.\<close>
definition go_round :: "float64 \<Rightarrow> float64" where
  "go_round x = round64 (of_int (if x < 0 then - \<lfloor>- x + 1 / 2\<rfloor> else \<lfloor>x + 1 / 2\<rfloor>))"

record PaymentRequest =
  pr_OrderID :: string
  pr_Channel :: string
  pr_Currency :: string
  pr_Amount :: int
  pr_ReturnURL :: string

record PaymentResponse =
  PaymentRef :: string
  PaymentURL :: string

definition trim_right_slash :: "string \<Rightarrow> string" where
  "trim_right_slash s = rev (dropWhile (\<lambda>c. c = CHR ''/'') (rev s))"

definition buildReturnURL :: "string \<Rightarrow> string \<Rightarrow> string" where
  "buildReturnURL base projectID =
     (if base = '''' then '''' else trim_right_slash base @ ''/'' @ projectID @ ''/subscription'')"

section \<open>Subscription orders (handle_orders.go)\<close>

text \<open>The value of the unused part of a subscription.\<close>
definition remaining_value :: "duration \<Rightarrow> duration \<Rightarrow> int \<Rightarrow> int" where
  "remaining_value totalDuration usedDuration activeBase =
     (if totalDuration > 0 \<and> usedDuration < totalDuration then
        (let fraction = fdiv (float_of (i64 (totalDuration - usedDuration))) (float_of totalDuration)
         in int_of_float (go_round (fmul fraction (float_of activeBase))))
      else 0)"

text \<open>The price of an order: the unit price, the amount and the periods; None when the active plan has
  no price in the channel's currency.\<close>
definition order_price ::
  "string \<Rightarrow> Plan \<Rightarrow> Subscription \<Rightarrow> bool \<Rightarrow> int \<Rightarrow> int \<Rightarrow> go_time \<Rightarrow> (int \<times> int \<times> int) option" where
  "order_price channel activePlan activeSub isRenewal basePrice periods now =
     (if isRenewal \<or> plan_IsFree activePlan then Some (basePrice, i64 (basePrice * periods), periods)
      else (case ChannelPricing channel activePlan of
        (_, activeBase, ok) \<Rightarrow>
          if \<not> ok then None
          else (let totalDuration = time_sub (sub_ExpiresAt activeSub) (sub_StartsAt activeSub);
                    usedDuration = time_sub now (sub_StartsAt activeSub);
                    remainingValue = remaining_value totalDuration usedDuration activeBase;
                    unitPrice = i64 (basePrice - remainingValue);
                    unitPrice' = (if unitPrice < 0 then 0 else unitPrice)
                in Some (unitPrice', unitPrice', 1))))"

record order_body =
  ob_PlanSlug :: string
  ob_Periods :: int
  ob_Channel :: string

definition plan_available :: "Plan \<Rightarrow> Project \<Rightarrow> bool" where
  "plan_available plan project = (plan_GroupTag plan = '''' \<or> List.member (proj_BillingTags project) (plan_GroupTag plan))"

text \<open>After the checks: the order is created, the provider asked, and its answer recorded.\<close>
definition place_order ::
  "(string \<Rightarrow> bool) \<Rightarrow> (PaymentRequest \<Rightarrow> PaymentResponse option) option \<Rightarrow> int \<times> string \<Rightarrow> string \<Rightarrow> database \<Rightarrow> string \<Rightarrow> Order \<Rightarrow> go_time
   \<Rightarrow> Order response \<times> database" where
  "place_order up pay payFail returnURL db newID order now =
     (case CreateOrder db (up ''CreateOrder'') newID order now of
        None \<Rightarrow> (Failure 500 ''internal'', db)
      | Some (ord, db1) \<Rightarrow>
          (let failed = (if up ''UpdateOrderStatus'' then UpdateOrderStatus db1 newID ''failed'' else db1) in
           case pay of
             None \<Rightarrow> (Failure 503 ''payment_not_configured'', failed)
           | Some provider \<Rightarrow>
               (case provider \<lparr>pr_OrderID = newID, pr_Channel = order_Channel ord, pr_Currency = order_Currency ord,
                               pr_Amount = order_Amount ord, pr_ReturnURL = returnURL\<rparr> of
                  None \<Rightarrow> (Failure (fst payFail) (snd payFail), failed)
                | Some resp \<Rightarrow>
                    if \<not> up ''UpdateOrderPayment'' then (Failure 500 ''internal'', db1)
                    else (Success 201 (ord\<lparr>order_PaymentRef := PaymentRef resp, order_PaymentURL := PaymentURL resp,
                                          order_Status := ''paying''\<rparr>),
                          UpdateOrderPayment db1 newID (PaymentRef resp) (PaymentURL resp) ''paying''))))"

definition handleCreateOrder ::
  "(string \<Rightarrow> bool) \<Rightarrow> (string \<Rightarrow> Plan option) \<Rightarrow> (string \<Rightarrow> Project option)
   \<Rightarrow> (PaymentRequest \<Rightarrow> PaymentResponse option) option \<Rightarrow> string \<Rightarrow> database \<Rightarrow> string \<Rightarrow> string \<Rightarrow> order_body option \<Rightarrow> go_time
   \<Rightarrow> Order response \<times> database" where
  "handleCreateOrder up plans projects pay returnBase db newID projectID body now =
     (case body of None \<Rightarrow> (Failure 400 ''bad_request'', db) | Some b \<Rightarrow>
      if ob_PlanSlug b = '''' then (Failure 400 ''bad_request'', db)
      else let periods = (if ob_Periods b \<le> 0 then 1 else ob_Periods b) in
      if \<not> up ''GetPlanBySlug'' then (Failure 500 ''internal'', db)
      else case plans (ob_PlanSlug b) of None \<Rightarrow> (Failure 404 ''not_found'', db) | Some plan \<Rightarrow>
      if \<not> plan_IsActive plan then (Failure 404 ''not_found'', db)
      else case projects projectID of None \<Rightarrow> (Failure 404 ''not_found'', db) | Some project \<Rightarrow>
      if \<not> plan_available plan project then (Failure 403 ''forbidden'', db)
      else if \<not> up ''GetActiveSubscription'' then (Failure 500 ''internal'', db)
      else case GetActiveSubscription db projectID now of None \<Rightarrow> (Failure 400 ''no_subscription'', db) | Some activeSub \<Rightarrow>
      let isRenewal = (sub_PlanID activeSub = plan_ID plan \<or> sub_PlanName activeSub = plan_Slug plan) in
      case plans (sub_PlanName activeSub) of None \<Rightarrow> (Failure 500 ''internal'', db) | Some activePlan \<Rightarrow>
      case ChannelPricing (ob_Channel b) plan of (orderCurrency, basePrice, ok) \<Rightarrow>
      if \<not> ok then (Failure 400 ''bad_request'', db)
      else if sub_Currency activeSub \<noteq> '''' \<and> sub_Currency activeSub \<noteq> orderCurrency then (Failure 409 ''currency_mismatch'', db)
      else if \<not> isRenewal \<and> plan_TierLevel plan \<le> plan_TierLevel activePlan then (Failure 409 ''downgrade_not_allowed'', db)
      else if \<not> up ''HasPayingOrder'' then (Failure 500 ''internal'', db)
      else if HasPayingOrder db projectID then (Failure 409 ''paying_order_exists'', db)
      else case order_price (ob_Channel b) activePlan activeSub isRenewal basePrice periods now of
        None \<Rightarrow> (Failure 409 ''currency_mismatch'', db)
      | Some (unitPrice, amount, periods') \<Rightarrow>
          place_order up pay (502, ''payment_error'') (buildReturnURL returnBase projectID) db newID
            \<lparr>order_ID = '''', order_ProjectID = projectID, order_PlanID = plan_ID plan, order_Periods = periods',
             order_UnitPrice = unitPrice, order_Amount = amount, order_Currency = orderCurrency, order_Status = ''pending'',
             order_Channel = ob_Channel b, order_PaymentRef = '''', order_PaymentURL = '''',
             order_ExistingSubscriptionID = sub_ID activeSub, order_Metadata = ''{}'', order_OrderType = '''',
             order_ExtraUsageAmountCredits = 0, order_CreatedAt = 0\<rparr> now)"

text \<open>Two statements: the order is read from the database \<^term>\<open>seen\<close>, and the conditional update runs on the
  database \<^term>\<open>db\<close>, which other requests may have changed in between. The column project_id is a
  uuid, so the update compares project ids as UUIDs: an equal one is written here as the row's own text.\<close>
definition handleCancelOrder ::
  "(string \<Rightarrow> bool) \<Rightarrow> (string \<Rightarrow> 'u option) \<Rightarrow> database \<Rightarrow> database \<Rightarrow> string \<Rightarrow> string \<Rightarrow> Order response \<times> database" where
  "handleCancelOrder up parse seen db projectID orderID =
     (case (if up ''GetOrderByID'' then GetOrderByID seen orderID else None) of
        None \<Rightarrow> (Failure 404 ''not_found'', db)
      | Some ord \<Rightarrow>
          if \<not> sameProjectID parse (order_ProjectID ord) projectID then (Failure 404 ''not_found'', db)
          else if \<not> cancellable ord then (Failure 409 ''not_cancellable'', db)
          else if \<not> up ''CancelOrderForProject'' then (Failure 500 ''internal'', db)
          else (case CancelOrderForProject db (order_ProjectID ord) orderID of
                  (ok, db') \<Rightarrow> if ok then (Success 200 (ord\<lparr>order_Status := ''cancelled''\<rparr>), db')
                               else (Failure 409 ''not_cancellable'', db')))"

section \<open>Extra-usage handlers (handle_extra_usage.go)\<close>

record ExtraUsageConfig =
  euc_Enabled :: bool
  euc_CreditPriceCNYFen :: int
  euc_CreditPriceUSDCents :: int
  euc_MinTopupCNYFen :: int
  euc_MaxTopupCNYFen :: int
  euc_MinTopupUSDCents :: int
  euc_MaxTopupUSDCents :: int
  euc_DailyTopupLimitCredits :: int

record topup_body =
  tb_Channel :: string
  tb_AmountFen :: "int option"
  tb_AmountCents :: "int option"

text \<open>The amount of one channel: its own field is required, the other forbidden, within the bounds; the
  credits it buys (a zero price panics: None) with the currency and the amount.\<close>
definition topup_amount :: "int option \<Rightarrow> int option \<Rightarrow> int \<Rightarrow> int \<Rightarrow> int \<Rightarrow> string \<Rightarrow> ((int \<times> string) + (int \<times> string \<times> int)) option" where
  "topup_amount own other lo hi price currency =
     (case own of
        None \<Rightarrow> Some (Inl (400, ''bad_request''))
      | Some amt \<Rightarrow>
          if other \<noteq> None then Some (Inl (400, ''bad_request''))
          else if amt < lo then Some (Inl (400, ''bad_request''))
          else if amt > hi then Some (Inl (400, ''bad_request''))
          else map_option (\<lambda>credits. Inr (credits, currency, amt)) (go_quot (i64 (amt * 1000000)) price))"

definition topup_credits :: "ExtraUsageConfig \<Rightarrow> topup_body \<Rightarrow> ((int \<times> string) + (int \<times> string \<times> int)) option" where
  "topup_credits cfg b =
     (if tb_Channel b = ''wechat'' \<or> tb_Channel b = ''alipay'' then
        topup_amount (tb_AmountFen b) (tb_AmountCents b) (euc_MinTopupCNYFen cfg) (euc_MaxTopupCNYFen cfg) (euc_CreditPriceCNYFen cfg) ''CNY''
      else if tb_Channel b = ''stripe'' then
        topup_amount (tb_AmountCents b) (tb_AmountFen b) (euc_MinTopupUSDCents cfg) (euc_MaxTopupUSDCents cfg) (euc_CreditPriceUSDCents cfg) ''USD''
      else Some (Inl (400, ''bad_request'')))"

definition handleCreateExtraUsageTopup ::
  "(string \<Rightarrow> bool) \<Rightarrow> User option \<Rightarrow> ProjectMember option \<Rightarrow> ExtraUsageConfig \<Rightarrow> (PaymentRequest \<Rightarrow> PaymentResponse option) option
   \<Rightarrow> string \<Rightarrow> database \<Rightarrow> string \<Rightarrow> string \<Rightarrow> topup_body option \<Rightarrow> go_time \<Rightarrow> (Order response \<times> database) option" where
  "handleCreateExtraUsageTopup up user mem cfg pay returnURL db newID projectID body now =
     (if \<not> requireRole user mem [''owner'', ''maintainer''] then Some (Failure 403 ''forbidden'', db)
      else case body of None \<Rightarrow> Some (Failure 400 ''bad_request'', db) | Some b \<Rightarrow>
      case topup_credits cfg b of
        None \<Rightarrow> None
      | Some (Inl (st, code)) \<Rightarrow> Some (Failure st code, db)
      | Some (Inr (credits, currency, paymentAmount)) \<Rightarrow>
          if \<not> up ''SumDaily'' then Some (Failure 500 ''internal'', db)
          else (let todayCredits = SumDailyExtraUsageTopupCredits db projectID (DayWindowStart now) in
            if euc_DailyTopupLimitCredits cfg > 0 \<and> i64 (todayCredits + credits) > euc_DailyTopupLimitCredits cfg
            then Some (Failure 409 ''daily_topup_limit'', db)
            else Some (place_order up pay (503, ''payment_provider_error'') returnURL db newID
              \<lparr>order_ID = '''', order_ProjectID = projectID, order_PlanID = '''', order_Periods = 1,
               order_UnitPrice = paymentAmount, order_Amount = paymentAmount, order_Currency = currency, order_Status = ''pending'',
               order_Channel = tb_Channel b, order_PaymentRef = '''', order_PaymentURL = '''',
               order_ExistingSubscriptionID = '''', order_Metadata = ''{}'', order_OrderType = ''extra_usage_topup'',
               order_ExtraUsageAmountCredits = credits, order_CreatedAt = 0\<rparr> now)))"

definition handleUpdateExtraUsage ::
  "(string \<Rightarrow> bool) \<Rightarrow> User option \<Rightarrow> ProjectMember option \<Rightarrow> database \<Rightarrow> string \<Rightarrow> (bool option \<times> int option) option
   \<Rightarrow> ExtraUsageSettings response \<times> database" where
  "handleUpdateExtraUsage up user mem db projectID body =
     (if \<not> requireRole user mem [''owner'', ''maintainer''] then (Failure 403 ''forbidden'', db)
      else case body of None \<Rightarrow> (Failure 400 ''bad_request'', db) | Some (bEnabled, bLimit) \<Rightarrow>
      case GetExtraUsageSettings db (up ''GetExtraUsageSettings'') projectID of
        Inl e \<Rightarrow> (Failure 500 ''internal'', db)
      | Inr existing \<Rightarrow>
          (let enabled0 = (case existing of Some s \<Rightarrow> eus_Enabled s | None \<Rightarrow> False);
               limit0 = (case existing of Some s \<Rightarrow> eus_MonthlyLimitCredits s | None \<Rightarrow> 0);
               enabled = the_or enabled0 bEnabled
           in if (case bLimit of Some l \<Rightarrow> l < 0 | None \<Rightarrow> False) then (Failure 400 ''bad_request'', db)
              else case UpsertExtraUsageSettings db (up ''Upsert'') projectID enabled (the_or limit0 bLimit) of
                (Inl e, db') \<Rightarrow> (Failure 500 ''internal'', db')
              | (Inr s, db') \<Rightarrow> (Success 200 s, db')))"

definition handleAdminExtraUsageDirectTopup ::
  "(string \<Rightarrow> bool) \<Rightarrow> database \<Rightarrow> string \<Rightarrow> (int \<times> string) option \<Rightarrow> go_time \<Rightarrow> int response \<times> database" where
  "handleAdminExtraUsageDirectTopup up db projectID body now =
     (case body of None \<Rightarrow> (Failure 400 ''bad_request'', db) | Some (amount, description) \<Rightarrow>
      if amount \<le> 0 then (Failure 400 ''bad_request'', db)
      else case TopUpExtraUsage db (up ''TopUp'')
                  \<lparr>top_ProjectID = projectID, top_AmountCredits = amount, top_OrderID = '''',
                   top_Reason = ''admin_adjust'', top_Description = description\<rparr> now of
             (Inl e, db') \<Rightarrow> (Failure 500 ''internal'', db')
           | (Inr bal, db') \<Rightarrow> (Success 200 bal, db'))"

definition handleAdminExtraUsageSetBypass ::
  "(string \<Rightarrow> bool) \<Rightarrow> database \<Rightarrow> string \<Rightarrow> bool option option \<Rightarrow> ExtraUsageSettings response \<times> database" where
  "handleAdminExtraUsageSetBypass up db projectID body =
     (case body of
        None \<Rightarrow> (Failure 400 ''bad_request'', db)
      | Some None \<Rightarrow> (Failure 400 ''bad_request'', db)
      | Some (Some bypass) \<Rightarrow>
          (case SetExtraUsageBypass db (up ''SetBypass'') projectID bypass of
             (Inl e, db') \<Rightarrow> (Failure 500 ''internal'', db')
           | (Inr s, db') \<Rightarrow> (Success 200 s, db')))"

text \<open>deliverExtraUsageTopupOrder: the top-up, then the status; Inl when either fails.\<close>
definition deliverExtraUsageTopupOrder :: "(string \<Rightarrow> bool) \<Rightarrow> database \<Rightarrow> Order \<Rightarrow> go_time \<Rightarrow> (string + int) \<times> database" where
  "deliverExtraUsageTopupOrder up db ord now =
     (if order_OrderType ord \<noteq> ''extra_usage_topup'' then (Inl ''not an extra-usage topup order'', db)
      else if order_ExtraUsageAmountCredits ord \<le> 0 then (Inl ''topup order has zero amount'', db)
      else case TopUpExtraUsage db (up ''TopUp'')
                  \<lparr>top_ProjectID = order_ProjectID ord, top_AmountCredits = order_ExtraUsageAmountCredits ord,
                   top_OrderID = order_ID ord, top_Reason = ''user_topup'',
                   top_Description = ''order='' @ order_ID ord @ '' channel='' @ order_Channel ord @ '' currency='' @ order_Currency ord\<rparr> now of
             (Inl e, db') \<Rightarrow> (Inl ''apply topup'', db')
           | (Inr bal, db') \<Rightarrow>
               if \<not> up ''UpdateOrderStatus'' then (Inl ''topup applied but mark delivered failed'', db')
               else (Inr bal, UpdateOrderStatus db' (order_ID ord) ''delivered''))"

section \<open>Webhooks (handle_delivery.go, handle_refund.go)\<close>

record DeliveryPayload =
  dp_OrderID :: string
  dp_PaymentRef :: string
  dp_Status :: string
  dp_PaidAmount :: int
  dp_PaidAt :: string

definition handleDeliveryWebhook ::
  "(string \<Rightarrow> bool) \<Rightarrow> (string \<Rightarrow> Plan option) \<Rightarrow> (string \<Rightarrow> Project option) \<Rightarrow> database \<Rightarrow> database \<Rightarrow> string
   \<Rightarrow> DeliveryPayload option \<Rightarrow> go_time \<Rightarrow> string response \<times> database" where
  "handleDeliveryWebhook up plans projects seen db newID payload now =
     (case payload of None \<Rightarrow> (Failure 400 ''bad_request'', db) | Some pl \<Rightarrow>
      if dp_OrderID pl = '''' then (Failure 400 ''bad_request'', db)
      else case (if up ''GetOrderByID'' then GetOrderByID seen (dp_OrderID pl) else None) of
        None \<Rightarrow> (Failure 404 ''not_found'', db)
      | Some ord \<Rightarrow>
          if order_Status ord = ''delivered'' then (Success 200 ''delivered'', db)
          else if order_Status ord \<noteq> ''paying'' then (Failure 409 ''invalid_status'', db)
          else if dp_PaidAmount pl < order_Amount ord then (Failure 400 ''insufficient_payment'', db)
          else if order_OrderType ord = ''extra_usage_topup'' then
            (case deliverExtraUsageTopupOrder up db ord now of
               (Inl e, db') \<Rightarrow> (Failure 500 ''delivery_failed'', db')
             | (Inr bal, db') \<Rightarrow> (Success 200 ''delivered'', db'))
          else if order_OrderType ord = '''' \<or> order_OrderType ord = ''subscription'' then
            (if order_PlanID ord = '''' then (Failure 500 ''internal'', db)
             else case plans (order_PlanID ord) of
                    None \<Rightarrow> (Failure 500 ''internal'', db)
                  | Some plan \<Rightarrow>
                      (case projects (order_ProjectID ord) of
                         None \<Rightarrow> (Failure 500 ''internal'', db)
                       | Some project \<Rightarrow>
                           if \<not> up ''DeliverOrder'' then (Failure 500 ''delivery_failed'', db)
                           else (case DeliverOrder db newID (order_ID ord) plan now of
                                   (Inl e, db') \<Rightarrow> (Failure 500 ''delivery_failed'', db')
                                 | (Inr s, db') \<Rightarrow> (Success 200 ''delivered'', db'))))
          else (Failure 400 ''bad_request'', db))"

record RefundBody =
  rb_OrderID :: string
  rb_Amount :: int
  rb_Currency :: string

definition handleBillingRefundWebhook ::
  "(string \<Rightarrow> bool) \<Rightarrow> database \<Rightarrow> database \<Rightarrow> RefundBody option \<Rightarrow> go_time \<Rightarrow> string response \<times> database" where
  "handleBillingRefundWebhook up seen db body now =
     (case body of None \<Rightarrow> (Failure 400 ''bad_request'', db) | Some b \<Rightarrow>
      if rb_OrderID b = '''' then (Failure 400 ''bad_request'', db)
      else case (if up ''GetOrderByID'' then GetOrderByID seen (rb_OrderID b) else None) of
        None \<Rightarrow> (Failure 404 ''not_found'', db)
      | Some ord \<Rightarrow>
          if order_OrderType ord = ''extra_usage_topup'' then
            (if rb_Amount b \<noteq> order_Amount ord \<or> rb_Currency b \<noteq> order_Currency ord
             then (Failure 422 ''partial_refund_unsupported'', db)
             else if order_Status ord = ''refunded'' then (Success 200 ''already_refunded'', db)
             else if order_Status ord \<noteq> ''delivered'' then (Failure 409 ''not_refundable'', db)
             else case RefundExtraUsageTopup db (up ''Refund'') (rb_OrderID b) now of
                    (Inl e, db') \<Rightarrow> (Failure 500 ''internal'', db')
                  | (Inr bal, db') \<Rightarrow>
                      (Success 200 ''refunded'',
                       if up ''UpdateOrderStatus'' then UpdateOrderStatus db' (rb_OrderID b) ''refunded'' else db'))
          else if order_OrderType ord = ''subscription'' then (Success 202 ''unhandled'', db)
          else (Failure 400 ''bad_request'', db))"

section \<open>Webhook authentication (hmac_middleware.go)\<close>

text \<open>mac is HMAC-SHA256 in hexadecimal; hmac.Equal is equality of the byte strings.\<close>
definition HMACAuthMiddleware :: "(string \<Rightarrow> string \<Rightarrow> string) \<Rightarrow> string \<Rightarrow> string \<Rightarrow> string option \<Rightarrow> (string \<Rightarrow> 'a) \<Rightarrow> int + 'a" where
  "HMACAuthMiddleware mac secret signature body next_handler =
     (if signature = '''' then Inl 401
      else case body of
        None \<Rightarrow> Inl 400
      | Some b \<Rightarrow> if mac secret b \<noteq> signature then Inl 401 else Inr (next_handler b))"

section \<open>Prices\<close>

lemma int_of_float_of_int: "\<bar>n\<bar> \<le> 9007199254740992 \<Longrightarrow> int_of_float (of_int n) = n"
  by (auto simp: int_of_float_def is_i64_def int64_max_def int64_min_def)

lemma go_round_bounds:
  assumes "0 \<le> x" "x \<le> of_int n" "n \<le> 9007199254740992"
  shows "\<exists>k. go_round x = of_int k \<and> 0 \<le> k \<and> k \<le> n"
proof -
  let ?k = "\<lfloor>x + 1 / 2\<rfloor>"
  have k: "0 \<le> ?k" "?k \<le> n" using assms by (auto simp: floor_le_iff)
  then have "go_round x = of_int ?k" using assms round64_of_int[of ?k] by (simp add: go_round_def)
  then show ?thesis using k by blast
qed

lemma remaining_value_bounds:
  assumes "0 \<le> used" "is_i64 tot" "0 \<le> base" "base \<le> 9007199254740992"
  shows "0 \<le> remaining_value tot used base \<and> remaining_value tot used base \<le> base"
proof (cases "0 < tot \<and> used < tot")
  case False then show ?thesis using assms(3) by (auto simp: remaining_value_def)
next
  case True
  then have assms: "0 < tot" "0 \<le> used" "used < tot" "is_i64 tot" "0 \<le> base" "base \<le> 9007199254740992" using assms by simp_all
  have i: "i64 (tot - used) = tot - used" using assms by (intro i64_small) (auto simp: is_i64_def)
  let ?f = "fdiv (float_of (i64 (tot - used))) (float_of tot)"
  have t: "0 < float_of tot" using assms(1) by (simp add: float_of_def)
  have "float_of (tot - used) \<le> float_of tot" using assms(2) by (intro float_of_mono) simp
  then have "float_of (tot - used) / float_of tot \<le> 1" using t by simp
  then have "?f \<le> 1" unfolding i fdiv_def using round64_mono[of _ 1] round64_of_int[of 1] by simp
  moreover have f0: "0 \<le> ?f" unfolding i fdiv_def using t assms(3) by (intro round64_nonneg divide_nonneg_pos float_of_nonneg) simp_all
  moreover have b: "float_of base = of_int base" using assms by (intro float_of_exact) simp
  ultimately have "?f * float_of base \<le> of_int base" using assms(5) mult_right_mono[of ?f 1 "of_int base"] by simp
  then have "fmul ?f (float_of base) \<le> of_int base"
    unfolding fmul_def using round64_mono[of _ "of_int base"] round64_of_int[of base] assms by fastforce
  moreover have "0 \<le> fmul ?f (float_of base)" using f0 b assms(5) by simp
  ultimately obtain k where "go_round (fmul ?f (float_of base)) = of_int k" "0 \<le> k" "k \<le> base"
    using go_round_bounds assms(6) by blast
  then show ?thesis using int_of_float_of_int[of k] assms True by (simp add: remaining_value_def Let_def)
qed

text \<open>The price of a paid-to-paid upgrade is the new plan's base price less a credit for the unused part of
  the active subscription, never negative and never above the base price; the credit is at most one
  period's price of the active plan, however many periods the active subscription was bought for.\<close>
lemma upgrade_price_bounds:
  assumes "ChannelPricing channel activePlan = (cur, activeBase, True)" and "\<not> plan_IsFree activePlan"
    and "sub_StartsAt activeSub \<le> now" and "is_i64 (sub_ExpiresAt activeSub - sub_StartsAt activeSub)"
    and "is_i64 (now - sub_StartsAt activeSub)"
    and "activeBase \<le> 9007199254740992" and "0 \<le> basePrice" and "basePrice \<le> 9007199254740992"
  shows "\<exists>u. order_price channel activePlan activeSub False basePrice periods now = Some (u, u, 1)
     \<and> 0 \<le> u \<and> u \<le> basePrice \<and> basePrice - activeBase \<le> u"
proof -
  let ?tot = "sub_ExpiresAt activeSub - sub_StartsAt activeSub" and ?used = "now - sub_StartsAt activeSub"
  let ?rem = "remaining_value ?tot ?used activeBase"
  have b: "0 < activeBase" using assms(1) by (auto simp: ChannelPricing_def split: if_splits)
  have r: "0 \<le> ?rem" "?rem \<le> activeBase"
    using remaining_value_bounds[of ?used ?tot activeBase] assms b by simp_all
  have i: "i64 (basePrice - ?rem) = basePrice - ?rem"
    using r assms(6-8) by (intro i64_id) (simp add: is_i64_def int64_max_def int64_min_def)
  let ?u = "if basePrice - ?rem < 0 then 0 else basePrice - ?rem"
  have "order_price channel activePlan activeSub False basePrice periods now = Some (?u, ?u, 1)"
    unfolding order_price_def assms(1) Let_def using assms(2,4,5) i by simp
  then show ?thesis using r assms(7) by (intro exI[of _ ?u]) simp
qed

lemma upgrade_price_bounds_witness:
  "\<exists>u. order_price ''wechat'' (demo_plan ''pro'') demo_sub False 300 1 50 = Some (u, u, 1) \<and> 0 \<le> u \<and> u \<le> 300 \<and> 300 - 100 \<le> u"
  by (rule upgrade_price_bounds[of _ _ "''CNY''"])
     (simp_all add: ChannelPricing_def demo_plan_def demo_sub_def plan_IsFree_def is_i64_def int64_max_def int64_min_def)

section \<open>Webhooks and the ledger\<close>

lemma txs_UpdateOrderStatus [simp]:
  "db_txs (UpdateOrderStatus d x y) = db_txs d" "db_settings (UpdateOrderStatus d x y) = db_settings d"
  by (simp_all add: UpdateOrderStatus_def update_orders_def)

lemma ledger_ok_cong: "db_txs d = db_txs d' \<Longrightarrow> db_settings d = db_settings d' \<Longrightarrow> ledger_ok d = ledger_ok d'"
  by (simp add: ledger_ok_def balance_of_def)

lemma ledger_ok_status [simp]: "ledger_ok (UpdateOrderStatus d x y) = ledger_ok d"
  by (rule ledger_ok_cong) simp_all

lemma ledger_ok_Deliver: "ledger_ok d \<Longrightarrow> ledger_ok (snd (DeliverOrder d newID oid plan now))"
  using ledger_ok_cong[of "snd (DeliverOrder d newID oid plan now)" d]
  by (auto simp: DeliverOrder_def Let_def split: option.split)

lemma ledger_ok_TopUp: "ledger_ok d \<Longrightarrow> TopUpExtraUsage d up r now = (x, d') \<Longrightarrow> ledger_ok d'"
  using run_op_ledger[of d "(OpTopUp r, up, now)"] by simp

lemma ledger_ok_Refund: "ledger_ok d \<Longrightarrow> RefundExtraUsageTopup d up oid now = (x, d') \<Longrightarrow> ledger_ok d'"
  using run_op_ledger[of d "(OpRefund oid, up, now)"] by simp

lemma ledger_ok_topup_order: "ledger_ok d \<Longrightarrow> deliverExtraUsageTopupOrder up d ord now = (x, d') \<Longrightarrow> ledger_ok d'"
  by (auto simp: deliverExtraUsageTopupOrder_def split: if_splits prod.splits sum.splits dest: ledger_ok_TopUp)

lemma snd_response [simp]: "snd (case x of (r, d) \<Rightarrow> (case r of Inl e \<Rightarrow> (f e, d) | Inr b \<Rightarrow> (g b, d))) = snd x"
  by (simp split: prod.split sum.split)

lemma ledger_ok_delivery:
  assumes "ledger_ok db" shows "ledger_ok (snd (handleDeliveryWebhook up plans projects seen db newID payload now))"
proof -
  have "ledger_ok (snd (deliverExtraUsageTopupOrder up db ord now))" for ord
    using ledger_ok_topup_order[OF assms] by (metis prod.collapse)
  then show ?thesis
    using assms ledger_ok_Deliver[OF assms] unfolding handleDeliveryWebhook_def
    by (simp add: ledger_ok_Deliver split: option.split)
qed

lemma ledger_ok_refund_webhook:
  assumes "ledger_ok db" shows "ledger_ok (snd (handleBillingRefundWebhook up seen db body now))"
proof -
  have "ledger_ok (snd (RefundExtraUsageTopup db u oid now))" for u oid
    using ledger_ok_Refund[OF assms] by (metis prod.collapse)
  then have "RefundExtraUsageTopup db u oid now = (x, d) \<Longrightarrow> ledger_ok d" for u oid x d by (metis snd_conv)
  then show ?thesis
    using assms unfolding handleBillingRefundWebhook_def
    by (simp split: option.split prod.split sum.split)
qed

text \<open>Whatever the payment provider sends (repeated, reordered, stale or concurrent deliveries and refunds:
  the order may be read from a state other requests have since changed), and whichever store calls fail,
  the webhooks never credit or refund an order twice and never leave a balance that its ledger does not add
  up to.\<close>
lemma webhooks_keep_ledger:
  assumes "ledger_ok db"
  shows "ledger_ok (snd (handleBillingRefundWebhook up1 seen1
           (snd (handleDeliveryWebhook up2 plans projects seen2 db newID payload t2)) body t1))"
  by (intro ledger_ok_refund_webhook ledger_ok_delivery assms)

lemma webhooks_keep_ledger_witness:
  "ledger_ok (snd (handleBillingRefundWebhook (\<lambda>_. True) demo_sub_db
     (snd (handleDeliveryWebhook (\<lambda>_. True) (\<lambda>_. Some (demo_plan ''pro'')) (\<lambda>_. None) demo_sub_db empty_db ''n''
        (Some \<lparr>dp_OrderID = ''o'', dp_PaymentRef = '''', dp_Status = ''paid'', dp_PaidAmount = 100, dp_PaidAt = ''''\<rparr>) 5))
     (Some \<lparr>rb_OrderID = ''o'', rb_Amount = 100, rb_Currency = ''CNY''\<rparr>) 6))"
  by (rule webhooks_keep_ledger) (rule empty_ledger)

text \<open>Nothing is delivered without payment: if the delivery webhook changes the database, the order it read
  was in status paying, the paid amount covers its amount, and its type is one of the two known ones.\<close>
lemma delivery_requires_payment:
  assumes "snd (handleDeliveryWebhook up plans projects seen db newID payload now) \<noteq> db"
  shows "\<exists>pl ord. payload = Some pl \<and> GetOrderByID seen (dp_OrderID pl) = Some ord \<and> order_Status ord = ''paying''
     \<and> order_Amount ord \<le> dp_PaidAmount pl
     \<and> order_OrderType ord \<in> {'''', ''subscription'', ''extra_usage_topup''}"
proof -
  obtain pl where pl: "payload = Some pl" "dp_OrderID pl \<noteq> ''''"
    using assms by (cases payload) (auto simp: handleDeliveryWebhook_def split: if_splits)
  obtain ord where ord: "GetOrderByID seen (dp_OrderID pl) = Some ord" "up ''GetOrderByID''"
    using assms pl by (cases "GetOrderByID seen (dp_OrderID pl)") (auto simp: handleDeliveryWebhook_def split: if_splits)
  have "order_Status ord = ''paying''"
  proof (rule ccontr)
    assume "order_Status ord \<noteq> ''paying''"
    then show False using assms pl ord by (simp add: handleDeliveryWebhook_def split: if_splits)
  qed
  moreover have "order_Amount ord \<le> dp_PaidAmount pl"
  proof (rule ccontr)
    assume "\<not> order_Amount ord \<le> dp_PaidAmount pl"
    then show False using assms pl ord by (simp add: handleDeliveryWebhook_def split: if_splits)
  qed
  moreover have "order_OrderType ord \<in> {'''', ''subscription'', ''extra_usage_topup''}"
  proof (rule ccontr)
    assume "order_OrderType ord \<notin> {'''', ''subscription'', ''extra_usage_topup''}"
    then show False using assms pl ord by (simp add: handleDeliveryWebhook_def split: if_splits)
  qed
  ultimately show ?thesis using pl ord by blast
qed

lemma demo_delivery:
  "snd (handleDeliveryWebhook (\<lambda>_. True) (\<lambda>_. Some (demo_plan ''pro'')) (\<lambda>_. Some \<lparr>proj_ID = ''p'', proj_Name = '''', proj_CreatedBy = '''',
       proj_Status = ''active'', proj_BillingTags = []\<rparr>) demo_sub_db demo_sub_db ''n''
     (Some \<lparr>dp_OrderID = ''o'', dp_PaymentRef = '''', dp_Status = ''paid'', dp_PaidAmount = 100, dp_PaidAt = ''''\<rparr>) 5) \<noteq> demo_sub_db"
  by (simp add: handleDeliveryWebhook_def DeliverOrder_def demo_sub_db_def demo_order_def demo_sub_def demo_plan_def empty_db_def
      GetOrderByID_def GetSubscriptionByID_def insert_sub_def set_sub_status_def has_active_def UpdateOrderStatus_def update_orders_def Let_def)

lemma delivery_requires_payment_witness:
  "\<exists>pl ord. Some \<lparr>dp_OrderID = ''o'', dp_PaymentRef = '''', dp_Status = ''paid'', dp_PaidAmount = 100, dp_PaidAt = ''''\<rparr> = Some pl
     \<and> GetOrderByID demo_sub_db (dp_OrderID pl) = Some ord \<and> order_Status ord = ''paying'' \<and> order_Amount ord \<le> dp_PaidAmount pl
     \<and> order_OrderType ord \<in> {'''', ''subscription'', ''extra_usage_topup''}"
  by (rule delivery_requires_payment[OF demo_delivery])

section \<open>Orders\<close>

text \<open>A cancellation never touches an order that is past payment: whatever happened between the read and the
  conditional update, an order that is neither pending nor paying when the update runs keeps its
  status, and a successful cancellation leaves it cancelled and answers so.\<close>
lemma cancel_only_unpaid:
  assumes "GetOrderByID db oid = Some ord" and "distinct (map order_ID (db_orders db))"
    and "handleCancelOrder up parse seen db projectID oid' = (r, db')"
  shows "(cancellable ord \<or> GetOrderByID db' oid = Some ord)
    \<and> (case r of Success st o' \<Rightarrow> oid' \<noteq> oid \<or> (cancellable ord \<and> map_option order_Status (GetOrderByID db' oid) = Some ''cancelled'')
         | Failure st code \<Rightarrow> GetOrderByID db' oid = Some ord)"
proof -
  have ord: "ord \<in> set (db_orders db)" "order_ID ord = oid" using assms(1) by (auto simp: GetOrderByID_def find_Some_iff)
  let ?P = "\<lambda>p x. order_ID x = oid' \<and> order_ProjectID x = p \<and> cancellable x"
  let ?f = "\<lambda>p x. if ?P p x then x\<lparr>order_Status := ''cancelled''\<rparr> else x"
  have g: "GetOrderByID (snd (CancelOrderForProject db p oid')) oid = Some (?f p ord)" for p
    using assms(1) by (simp add: GetOrderByID_def CancelOrderForProject_def update_orders_def find_map_same)
  have uniq: "?P p ord" if "fst (CancelOrderForProject db p oid')" "oid' = oid" for p
  proof -
    obtain x where "x \<in> set (db_orders db)" "?P p x" using \<open>fst (CancelOrderForProject db p oid')\<close>
      by (auto simp: CancelOrderForProject_def list_ex_iff Let_def)
    then show ?thesis using assms(2) ord \<open>oid' = oid\<close> by (metis distinct_map inj_onD)
  qed
  have nop: "snd (CancelOrderForProject db p oid') = db" if "\<not> fst (CancelOrderForProject db p oid')" for p
  proof -
    have "map (?f p) (db_orders db) = db_orders db"
      using that by (intro map_idI) (auto simp: CancelOrderForProject_def list_ex_iff Let_def)
    then show ?thesis by (simp add: CancelOrderForProject_def update_orders_def)
  qed
  have "(\<exists>st code. r = Failure st code \<and> db' = db) \<or> (\<exists>p o'. r = Success 200 o' \<and> CancelOrderForProject db p oid' = (True, db'))"
  proof (cases "if up ''GetOrderByID'' then GetOrderByID seen oid' else None")
    case None then show ?thesis using assms(3) by (auto simp: handleCancelOrder_def)
  next
    case (Some x)
    obtain ok d where c: "CancelOrderForProject db (order_ProjectID x) oid' = (ok, d)" by force
    then have "\<not> ok \<Longrightarrow> d = db" using nop[of "order_ProjectID x"] by simp
    then show ?thesis using assms(3) c unfolding handleCancelOrder_def Some by (auto split: if_splits)
  qed
  then show ?thesis
  proof (elim disjE exE conjE)
    fix p o' assume "r = Success 200 o'" and c: "CancelOrderForProject db p oid' = (True, db')"
    then show ?thesis using g[of p] uniq[of p] by (cases "oid' = oid") (auto simp: ord)
  next
    fix st code assume "r = Failure st code" "db' = db"
    then show ?thesis using assms(1) by simp
  qed
qed

lemma cancel_only_unpaid_witness:
  "map_option order_Status (GetOrderByID (snd (handleCancelOrder (\<lambda>_. True) (\<lambda>_. None :: unit option) demo_sub_db
      (UpdateOrderStatus demo_sub_db ''o'' ''delivered'') ''p'' ''o'')) ''o'') = Some ''delivered''"
proof -
  let ?db = "UpdateOrderStatus demo_sub_db ''o'' ''delivered''"
  have g: "GetOrderByID ?db ''o'' = Some (demo_order\<lparr>order_Status := ''delivered''\<rparr>)"
    by (simp add: GetOrderByID_def demo_sub_db_def UpdateOrderStatus_def update_orders_def empty_db_def demo_order_def)
  have d: "distinct (map order_ID (db_orders ?db))"
    by (simp add: demo_sub_db_def UpdateOrderStatus_def update_orders_def empty_db_def)
  have "handleCancelOrder (\<lambda>_. True) (\<lambda>_. None :: unit option) demo_sub_db ?db ''p'' ''o''
      = (fst (handleCancelOrder (\<lambda>_. True) (\<lambda>_. None :: unit option) demo_sub_db ?db ''p'' ''o''),
         snd (handleCancelOrder (\<lambda>_. True) (\<lambda>_. None :: unit option) demo_sub_db ?db ''p'' ''o''))" by simp
  from cancel_only_unpaid[OF g d this] show ?thesis by (simp add: cancellable_def)
qed

end
