(* ===== verification/Auth.thy ===== *)
theory Auth
  imports Crypto RateLimit
begin

text \<open>
  proxy/auth_middleware.go: who may call the proxy. The three member caches and the introspection
  cache are explicit state; a store lookup that fails is Inl. SHA-256, HMAC and the token
  introspector (an external service) are arguments.
\<close>

section \<open>Caches with a time to live\<close>

type_synonym 'a ttl_cache = "string \<rightharpoonup> 'a \<times> go_time"

definition ttl_get :: "'a ttl_cache \<Rightarrow> string \<Rightarrow> go_time \<Rightarrow> 'a option" where
  "ttl_get c key now = (case c key of None \<Rightarrow> None | Some (v, expiresAt) \<Rightarrow> if now > expiresAt then None else Some v)"

definition ttl_set :: "duration \<Rightarrow> 'a ttl_cache \<Rightarrow> string \<Rightarrow> 'a \<Rightarrow> go_time \<Rightarrow> 'a ttl_cache" where
  "ttl_set ttl c key v now = c(key \<mapsto> (v, now + ttl))"

definition deniedModelsCacheGet :: "string list ttl_cache \<Rightarrow> string \<Rightarrow> go_time \<Rightarrow> string list option" where
  "deniedModelsCacheGet = ttl_get"
definition deniedModelsCacheSet :: "string list ttl_cache \<Rightarrow> string \<Rightarrow> string list \<Rightarrow> go_time \<Rightarrow> string list ttl_cache" where
  "deniedModelsCacheSet = ttl_set (10 * second)"
definition InvalidateDeniedModelsCache :: "string list ttl_cache \<Rightarrow> string \<Rightarrow> string \<Rightarrow> string list ttl_cache" where
  "InvalidateDeniedModelsCache c projectID userID = c(projectID @ '':'' @ userID := None)"

definition memberPresentCacheGet :: "bool ttl_cache \<Rightarrow> string \<Rightarrow> go_time \<Rightarrow> bool option" where
  "memberPresentCacheGet = ttl_get"
definition memberPresentCacheSet :: "bool ttl_cache \<Rightarrow> string \<Rightarrow> bool \<Rightarrow> go_time \<Rightarrow> bool ttl_cache" where
  "memberPresentCacheSet = ttl_set (10 * second)"
definition InvalidateMemberPresentCache :: "bool ttl_cache \<Rightarrow> string \<Rightarrow> string \<Rightarrow> bool ttl_cache" where
  "InvalidateMemberPresentCache c projectID userID = c(projectID @ '':'' @ userID := None)"

record auth_caches =
  ac_present :: "bool ttl_cache"
  ac_quota :: creditCache
  ac_denied :: "string list ttl_cache"

definition empty_caches :: auth_caches where
  "empty_caches = \<lparr>ac_present = Map.empty, ac_quota = NewCreditCache (10 * second), ac_denied = Map.empty\<rparr>"

section \<open>Hydration of a member's presence, quota and denylist\<close>

type_synonym member_lookup = "string \<Rightarrow> string \<Rightarrow> unit + ProjectMember option"

definition member_key :: "string \<Rightarrow> string \<Rightarrow> string" where "member_key projectID userID = projectID @ '':'' @ userID"

text \<open>One lookup on a miss of any of the three; Inl is the status of the rejection.\<close>
definition hydrate ::
  "member_lookup \<Rightarrow> string \<Rightarrow> string \<Rightarrow> go_time \<Rightarrow> auth_caches \<Rightarrow> (int + (float64 option \<times> string list)) \<times> auth_caches" where
  "hydrate getMember projectID userID now c =
     (let key = member_key projectID userID;
          presence = memberPresentCacheGet (ac_present c) key now;
          quotaC = cache_Get (ac_quota c) key now;
          deniedC = deniedModelsCacheGet (ac_denied c) key now;
          userQuotaPct = (case quotaC of Some v \<Rightarrow> if v \<ge> 0 then Some v else None | None \<Rightarrow> None);
          userDenied = the_or [] deniedC
      in if presence \<noteq> None \<and> quotaC \<noteq> None \<and> deniedC \<noteq> None then
           (if presence = Some True then (Inr (userQuotaPct, userDenied), c) else (Inl 401, c))
         else case getMember projectID userID of
           Inl e \<Rightarrow> (Inl 503, c)
         | Inr None \<Rightarrow>
             (Inl 401, \<lparr>ac_present = memberPresentCacheSet (ac_present c) key False now,
                        ac_quota = (if quotaC = None then cache_Set (ac_quota c) key (-1) now else ac_quota c),
                        ac_denied = (if deniedC = None then deniedModelsCacheSet (ac_denied c) key [] now else ac_denied c)\<rparr>)
         | Inr (Some m) \<Rightarrow>
             (Inr (if quotaC = None then member_CreditQuotaPct m else userQuotaPct,
                   if deniedC = None then member_DeniedModels m else userDenied),
              \<lparr>ac_present = memberPresentCacheSet (ac_present c) key True now,
               ac_quota = (if quotaC = None then cache_Set (ac_quota c) key (the_or (-1) (member_CreditQuotaPct m)) now else ac_quota c),
               ac_denied = (if deniedC = None then deniedModelsCacheSet (ac_denied c) key (member_DeniedModels m) now else ac_denied c)\<rparr>))"

text \<open>checkMembership, the check of callers that need presence only: None is admission.\<close>
definition checkMembership :: "member_lookup \<Rightarrow> string \<Rightarrow> string \<Rightarrow> go_time \<Rightarrow> bool ttl_cache \<Rightarrow> int option \<times> bool ttl_cache" where
  "checkMembership getMember projectID userID now c =
     (let key = projectID @ '':'' @ userID in
      case memberPresentCacheGet c key now of
        Some present \<Rightarrow> (if \<not> present then Some 401 else None, c)
      | None \<Rightarrow>
          (case getMember projectID userID of
             Inl e \<Rightarrow> (Some 503, c)
           | Inr m \<Rightarrow> (if m = None then Some 401 else None, memberPresentCacheSet c key (m \<noteq> None) now)))"

section \<open>Policy resolution\<close>

record auth_store =
  as_GetAPIKeyByHash :: "string \<Rightarrow> unit + APIKey option"
  as_GetProjectByID :: "string \<Rightarrow> Project option"
  as_GetActiveSubscription :: "string \<Rightarrow> Subscription option"
  as_GetPlanByID :: "string \<Rightarrow> Plan option"
  as_GetDefaultPolicy :: "string \<Rightarrow> RateLimitPolicy option"
  as_GetProjectMember :: member_lookup
  as_GetOAuthGrant :: "string \<Rightarrow> string \<Rightarrow> string \<Rightarrow> string option"

text \<open>Errors of the subscription, plan and policy lookups are discarded by the code: None is an error too.\<close>
definition resolve_policy :: "auth_store \<Rightarrow> string \<Rightarrow> go_time \<Rightarrow> RateLimitPolicy option" where
  "resolve_policy st projectID now =
     (let subscription = as_GetActiveSubscription st projectID;
          policy1 = (case subscription of
             None \<Rightarrow> None
           | Some s \<Rightarrow> if sub_PlanID s = '''' then None
                       else map_option (\<lambda>plan. ToPolicy plan projectID (Some (sub_StartsAt s))) (as_GetPlanByID st (sub_PlanID s)));
          policy2 = (case policy1 of None \<Rightarrow> as_GetDefaultPolicy st projectID | Some p \<Rightarrow> Some p)
      in case policy2 of
           None \<Rightarrow> None
         | Some p \<Rightarrow> if \<not> policy_IsActive p now then None else Some p)"

section \<open>API keys and tokens\<close>

definition is_base62 :: "string \<Rightarrow> bool" where
  "is_base62 s = list_all (\<lambda>c. 48 \<le> c \<and> c \<le> 57 \<or> 65 \<le> c \<and> c \<le> 90 \<or> 97 \<le> c \<and> c \<le> 122) (string_runes s)"

text \<open>The headers are a function of the header name, the empty string when absent.\<close>
definition extractAPIKey :: "(string \<Rightarrow> string) \<Rightarrow> string" where
  "extractAPIKey header =
     (if header ''x-api-key'' \<noteq> '''' then header ''x-api-key''
      else if header ''x-goog-api-key'' \<noteq> '''' then header ''x-goog-api-key''
      else if has_prefix (header ''Authorization'') ''Bearer '' then drop 7 (header ''Authorization'')
      else '''')"

record TokenIntrospectResult =
  tir_Active :: bool
  tir_Sub :: string
  tir_Ext :: "string \<rightharpoonup> string"
  tir_ClientID :: string

type_synonym introspect_cache = "string \<rightharpoonup> TokenIntrospectResult \<times> go_time"

definition getIntrospectCache :: "introspect_cache \<Rightarrow> string \<Rightarrow> go_time \<Rightarrow> TokenIntrospectResult option \<times> introspect_cache" where
  "getIntrospectCache c tokenHash now =
     (case c tokenHash of
        None \<Rightarrow> (None, c)
      | Some (result, cachedAt) \<Rightarrow>
          if time_sub now cachedAt > 30 * second then (None, c(tokenHash := None)) else (Some result, c))"

definition setIntrospectCache :: "introspect_cache \<Rightarrow> string \<Rightarrow> TokenIntrospectResult \<Rightarrow> go_time \<Rightarrow> introspect_cache" where
  "setIntrospectCache c tokenHash result now = c(tokenHash \<mapsto> (result, now))"

record auth_context =
  actx_APIKey :: APIKey
  actx_Project :: Project
  actx_Policy :: "RateLimitPolicy option"
  actx_Subscription :: "Subscription option"
  actx_QuotaPct :: "float64 option"
  actx_DeniedModels :: "string list"
  actx_OAuthGrantID :: string

datatype auth_result = AuthReject int | AuthOK auth_context

record auth_state =
  ast_caches :: auth_caches
  ast_introspect :: introspect_cache

text \<open>The introspector: None is its error.\<close>
definition handleTokenIntrospectionAuth ::
  "auth_store \<Rightarrow> (string \<Rightarrow> string) \<Rightarrow> (string \<Rightarrow> TokenIntrospectResult option) \<Rightarrow> string \<Rightarrow> go_time \<Rightarrow> auth_state
   \<Rightarrow> auth_result \<times> auth_state" where
  "handleTokenIntrospectionAuth st sha introspect rawToken now s =
     (let tokenHash = sha rawToken;
          (cached, ic) = getIntrospectCache (ast_introspect s) tokenHash now;
          (res, ic') = (case cached of
             Some r \<Rightarrow> (Some r, ic)
           | None \<Rightarrow> (case introspect rawToken of
                        None \<Rightarrow> (None, ic)
                      | Some r \<Rightarrow> (Some r, setIntrospectCache ic tokenHash r now)));
          s1 = s\<lparr>ast_introspect := ic'\<rparr>
      in case res of
        None \<Rightarrow> (AuthReject 401, s1)
      | Some result \<Rightarrow>
          if \<not> tir_Active result then (AuthReject 401, s1)
          else let projectID = the_or '''' (tir_Ext result ''project_id''); userID = the_or '''' (tir_Ext result ''user_id'') in
          if projectID = '''' then (AuthReject 401, s1)
          else case as_GetProjectByID st projectID of
            None \<Rightarrow> (AuthReject 401, s1)
          | Some project \<Rightarrow>
              if proj_Status project \<noteq> ''active'' then (AuthReject 403, s1)
              else let syntheticKey = \<lparr>key_ID = '''', key_ProjectID = proj_ID project, key_CreatedBy = userID, key_KeyHash = '''',
                                       key_KeySuffix = '''', key_Name = ''hydra-token'', key_Status = ''active'',
                                       key_AllowedModels = [], key_ExpiresAt = None\<rparr>;
                       policy = resolve_policy st (proj_ID project) now;
                       (hyd, caches') = (if userID \<noteq> '''' then hydrate (as_GetProjectMember st) (proj_ID project) userID now (ast_caches s1)
                                         else (Inr (None, []), ast_caches s1));
                       s2 = s1\<lparr>ast_caches := caches'\<rparr>
                   in case hyd of
                     Inl status \<Rightarrow> (AuthReject status, s2)
                   | Inr (quota, denied) \<Rightarrow>
                       (AuthOK \<lparr>actx_APIKey = syntheticKey, actx_Project = project, actx_Policy = policy,
                                actx_Subscription = as_GetActiveSubscription st (proj_ID project),
                                actx_QuotaPct = quota, actx_DeniedModels = denied,
                                actx_OAuthGrantID = (if tir_ClientID result \<noteq> ''''
                                   then the_or '''' (as_GetOAuthGrant st (proj_ID project) userID (tir_ClientID result)) else '''')\<rparr>, s2))"

text \<open>The format check: with an encryption key configured, a key of the server's prefix must have the body
  length, be base62 and carry its checksum.\<close>
definition valid_format :: "(bytes \<Rightarrow> bytes \<Rightarrow> bytes) \<Rightarrow> bytes \<Rightarrow> string \<Rightarrow> bool" where
  "valid_format hmac encKey rawKey =
     (if encKey \<noteq> [] \<and> has_prefix rawKey APIKeyPrefix then
        (let keyBody = drop (length APIKeyPrefix) rawKey in
         if length keyBody \<noteq> APIKeyBodyLen \<or> \<not> is_base62 keyBody then False
         else ValidateAPIKeyChecksum hmac encKey keyBody)
      else True)"

definition AuthMiddleware ::
  "auth_store \<Rightarrow> (bytes \<Rightarrow> bytes \<Rightarrow> bytes) \<Rightarrow> (string \<Rightarrow> string) \<Rightarrow> bytes \<Rightarrow> (string \<Rightarrow> TokenIntrospectResult option) option
   \<Rightarrow> (string \<Rightarrow> string) \<Rightarrow> go_time \<Rightarrow> auth_state \<Rightarrow> auth_result \<times> auth_state" where
  "AuthMiddleware st hmac sha encKey introspector header now s =
     (let rawKey = extractAPIKey header;
          fallback = (case introspector of None \<Rightarrow> (AuthReject 401, s)
                                         | Some i \<Rightarrow> handleTokenIntrospectionAuth st sha i rawKey now s)
      in if rawKey = '''' then (AuthReject 401, s)
         else if \<not> valid_format hmac encKey rawKey then fallback
         else if \<not> has_prefix rawKey APIKeyPrefix then fallback
         else case as_GetAPIKeyByHash st (sha rawKey) of
           Inl e \<Rightarrow> (AuthReject 500, s)
         | Inr None \<Rightarrow> fallback
         | Inr (Some apiKey) \<Rightarrow>
             if key_Status apiKey \<noteq> ''active'' then (AuthReject 401, s)
             else if (case key_ExpiresAt apiKey of Some e \<Rightarrow> e < now | None \<Rightarrow> False) then (AuthReject 401, s)
             else case as_GetProjectByID st (key_ProjectID apiKey) of
               None \<Rightarrow> (AuthReject 500, s)
             | Some project \<Rightarrow>
                 if proj_Status project \<noteq> ''active'' then (AuthReject 403, s)
                 else case hydrate (as_GetProjectMember st) (proj_ID project) (key_CreatedBy apiKey) now (ast_caches s) of
                   (Inl status, c') \<Rightarrow> (AuthReject status, s\<lparr>ast_caches := c'\<rparr>)
                 | (Inr (quota, denied), c') \<Rightarrow>
                     (AuthOK \<lparr>actx_APIKey = apiKey, actx_Project = project,
                              actx_Policy = resolve_policy st (proj_ID project) now,
                              actx_Subscription = as_GetActiveSubscription st (proj_ID project),
                              actx_QuotaPct = quota, actx_DeniedModels = denied, actx_OAuthGrantID = ''''\<rparr>,
                      s\<lparr>ast_caches := c'\<rparr>))"

section \<open>The contract of a cache\<close>

locale ttl_store =
  fixes get :: "'c \<Rightarrow> string \<Rightarrow> go_time \<Rightarrow> 'v option"
    and put :: "'c \<Rightarrow> string \<Rightarrow> 'v \<Rightarrow> go_time \<Rightarrow> 'c"
    and ok :: "'c \<Rightarrow> bool"
    and ttl :: duration
  assumes ok_put: "ok c \<Longrightarrow> ok (put c k v t)"
    and get_put: "ok c \<Longrightarrow> get (put c k v t) k now = (if now > t + ttl then None else Some v)"
    and get_other: "k \<noteq> k' \<Longrightarrow> get (put c k v t) k' now = get c k' now"
begin

definition puts :: "'c \<Rightarrow> (string \<times> 'v \<times> go_time) list \<Rightarrow> 'c" where
  "puts c ws = foldl (\<lambda>c (k, v, t). put c k v t) c ws"

lemma ok_puts: "ok c \<Longrightarrow> ok (puts c ws)"
  by (induction ws arbitrary: c) (auto simp: puts_def ok_put)

text \<open>What a read returns was in the cache from the start, or was written no longer than the ttl ago.\<close>
lemma read_is_recent:
  assumes "ok c" "get (puts c ws) k now = Some v"
  shows "get c k now = Some v \<or> (\<exists>t. (k, v, t) \<in> set ws \<and> now \<le> t + ttl)"
  using assms(2)
proof (induction ws rule: rev_induct)
  case (snoc w ws)
  obtain k' v' t where w: "w = (k', v', t)" by (cases w)
  show ?case
  proof (cases "k' = k")
    case True
    then show ?thesis using snoc.prems w get_put[OF ok_puts[OF assms(1), of ws], of k v' t now]
      by (auto simp: puts_def split: if_splits)
  next
    case False
    then show ?thesis using snoc w get_other[OF False] by (auto simp: puts_def)
  qed
qed (simp add: puts_def)

end

lemma cache_ttl_Set [simp]: "cch_ttl (cache_Set c k v t) = cch_ttl c"
  by (simp add: cache_Set_def)

interpretation presence: ttl_store memberPresentCacheGet memberPresentCacheSet "\<lambda>_. True" "10 * second"
  by unfold_locales (auto simp: memberPresentCacheGet_def memberPresentCacheSet_def ttl_get_def ttl_set_def)

interpretation denylist: ttl_store deniedModelsCacheGet deniedModelsCacheSet "\<lambda>_. True" "10 * second"
  by unfold_locales (auto simp: deniedModelsCacheGet_def deniedModelsCacheSet_def ttl_get_def ttl_set_def)

interpretation quota: ttl_store cache_Get cache_Set "\<lambda>c. cch_ttl c = 10 * second" "10 * second"
  by unfold_locales (auto simp: cache_Get_def cache_Set_def)

section \<open>Membership\<close>

lemma member_key_inj:
  "CHR '':'' \<notin> set p \<Longrightarrow> CHR '':'' \<notin> set p' \<Longrightarrow> member_key p u = member_key p' u' \<longleftrightarrow> p = p' \<and> u = u'"
proof (induction p arbitrary: p')
  case Nil then show ?case by (cases p') (auto simp: member_key_def)
next
  case (Cons a p) then show ?case by (cases p') (auto simp: member_key_def)
qed

text \<open>The presence cache after a hydration: unchanged, or one write at the time of the call of what the store said.\<close>
lemma hydrate_present:
  "ac_present (snd (hydrate gm p u now c)) = ac_present c
   \<or> (\<exists>m. gm p u = Inr m \<and> ac_present (snd (hydrate gm p u now c)) = memberPresentCacheSet (ac_present c) (member_key p u) (m \<noteq> None) now)"
  by (auto simp: hydrate_def Let_def split: sum.split option.split)

lemma hydrate_absent:
  assumes "gm p u = Inr None" "memberPresentCacheGet (ac_present c) (member_key p u) now \<noteq> Some True"
  shows "fst (hydrate gm p u now c) = Inl 401"
  using assms by (simp add: hydrate_def Let_def)

text \<open>Hydrations one after the other, all against the same store.\<close>
definition hydrations :: "member_lookup \<Rightarrow> auth_caches \<Rightarrow> (string \<times> string \<times> go_time) list \<Rightarrow> auth_caches" where
  "hydrations gm c calls = foldl (\<lambda>c (p, u, t). snd (hydrate gm p u t c)) c calls"

lemma hydrations_stay_absent:
  assumes "gm p u = Inr None" "memberPresentCacheGet (ac_present c) (member_key p u) now \<noteq> Some True"
    and "CHR '':'' \<notin> set p" "list_all (\<lambda>(p', u', t). CHR '':'' \<notin> set p') calls"
  shows "memberPresentCacheGet (ac_present (hydrations gm c calls)) (member_key p u) now \<noteq> Some True"
  using assms(4)
proof (induction calls rule: rev_induct)
  case Nil then show ?case using assms(2) by (simp add: hydrations_def)
next
  case (snoc x calls)
  obtain p' u' t where x: "x = (p', u', t)" by (cases x)
  let ?c = "hydrations gm c calls"
  have IH: "memberPresentCacheGet (ac_present ?c) (member_key p u) now \<noteq> Some True" using snoc by simp
  have e: "hydrations gm c (calls @ [x]) = snd (hydrate gm p' u' t ?c)" by (simp add: hydrations_def x)
  consider "ac_present (snd (hydrate gm p' u' t ?c)) = ac_present ?c"
    | m where "gm p' u' = Inr m" "ac_present (snd (hydrate gm p' u' t ?c)) = memberPresentCacheSet (ac_present ?c) (member_key p' u') (m \<noteq> None) t"
    using hydrate_present by blast
  then show ?case
  proof cases
    case 1 then show ?thesis using IH e by simp
  next
    case 2
    show ?thesis
    proof (cases "member_key p' u' = member_key p u")
      case True
      then have "p' = p" "u' = u" using member_key_inj[of p' p] assms(3) snoc.prems x by auto
      then show ?thesis using 2 assms(1) e True presence.get_put by simp
    next
      case False
      then show ?thesis using 2 IH e presence.get_other[OF False] by simp
    qed
  qed
qed

text \<open>A removed member is locked out within the cache's ten seconds: once the membership row is gone at
  time t0 (every cached positive answer was written by then), every request more than 10 s later is
  refused with 401, whatever requests of this or other members were made meanwhile.\<close>
lemma removed_member_locked_out:
  assumes "gm p u = Inr None" and "CHR '':'' \<notin> set p" and "list_all (\<lambda>(p', u', t). CHR '':'' \<notin> set p') calls"
    and "case ac_present c (member_key p u) of Some (True, e) \<Rightarrow> e \<le> t0 + 10 * second | _ \<Rightarrow> True"
    and "t0 + 10 * second < now"
  shows "fst (hydrate gm p u now (hydrations gm c calls)) = Inl 401"
proof -
  have "memberPresentCacheGet (ac_present c) (member_key p u) now \<noteq> Some True"
    using assms(4,5) by (auto simp: memberPresentCacheGet_def ttl_get_def split: option.splits prod.splits bool.splits if_splits)
  then show ?thesis using assms hydrations_stay_absent hydrate_absent by blast
qed

lemma removed_member_locked_out_witness:
  "fst (hydrate (\<lambda>p u. Inr None) ''p'' ''u'' (12 * second) (hydrations (\<lambda>p u. Inr None)
     (empty_caches\<lparr>ac_present := memberPresentCacheSet Map.empty (member_key ''p'' ''u'') True 0\<rparr>) [(''p'', ''u'', 5), (''q'', ''v'', 6)])) = Inl 401"
  by (rule removed_member_locked_out[where ?t0.0 = 0])
     (simp_all add: memberPresentCacheSet_def ttl_set_def second_def)

text \<open>The membership gate fails closed: when the lookup fails and the cached answers are not complete, the
  request is answered 503, the failure is not cached, and no request is ever admitted without a
  cached or a fresh positive answer.\<close>
lemma membership_fails_closed:
  "(fst (hydrate gm p u now c) = Inl 503 \<longleftrightarrow> gm p u = Inl () \<and>
      (memberPresentCacheGet (ac_present c) (member_key p u) now = None \<or> cache_Get (ac_quota c) (member_key p u) now = None
        \<or> deniedModelsCacheGet (ac_denied c) (member_key p u) now = None))
   \<and> (fst (hydrate gm p u now c) = Inl 503 \<longrightarrow> snd (hydrate gm p u now c) = c)
   \<and> (fst (hydrate gm p u now c) = Inr x \<longrightarrow>
        memberPresentCacheGet (ac_present c) (member_key p u) now = Some True \<or> (\<exists>m. gm p u = Inr (Some m)))"
  by (auto simp: hydrate_def Let_def split: sum.split option.split)

lemma membership_fails_closed_witness:
  "fst (hydrate (\<lambda>p u. Inl ()) ''p'' ''u'' 5 empty_caches) = Inl 503 \<and> snd (hydrate (\<lambda>p u. Inl ()) ''p'' ''u'' 5 empty_caches) = empty_caches"
proof -
  have "memberPresentCacheGet (ac_present empty_caches) (member_key ''p'' ''u'') 5 = None"
    by (simp add: empty_caches_def memberPresentCacheGet_def ttl_get_def)
  then show ?thesis using membership_fails_closed[of "\<lambda>p u. Inl ()" "''p''" "''u''" 5 empty_caches] by blast
qed

section \<open>Soundness of authentication\<close>

definition member_ok :: "auth_store \<Rightarrow> auth_state \<Rightarrow> string \<Rightarrow> string \<Rightarrow> go_time \<Rightarrow> bool" where
  "member_ok st s p u now = (memberPresentCacheGet (ac_present (ast_caches s)) (member_key p u) now = Some True
     \<or> (\<exists>m. as_GetProjectMember st p u = Inr (Some m)))"

lemma hydrate_ok: "hydrate gm p u now c = (Inr x, c') \<Longrightarrow>
    memberPresentCacheGet (ac_present c) (member_key p u) now = Some True \<or> (\<exists>m. gm p u = Inr (Some m))"
  by (auto simp: hydrate_def Let_def split: sum.splits option.splits if_splits)

lemma resolve_policy_active: "resolve_policy st p now = Some pol \<Longrightarrow> policy_IsActive pol now"
  by (auto simp: resolve_policy_def Let_def split: option.splits if_splits)

lemma token_auth_sound:
  assumes "handleTokenIntrospectionAuth st sha introspect raw now s = (AuthOK ctx, s')"
  shows "key_ID (actx_APIKey ctx) = '''' \<and> proj_Status (actx_Project ctx) = ''active''
    \<and> actx_Policy ctx = resolve_policy st (proj_ID (actx_Project ctx)) now
    \<and> (key_CreatedBy (actx_APIKey ctx) = '''' \<or> member_ok st s (proj_ID (actx_Project ctx)) (key_CreatedBy (actx_APIKey ctx)) now)"
proof -
  obtain cached ic where c: "getIntrospectCache (ast_introspect s) (sha raw) now = (cached, ic)" by force
  obtain res ic' where r: "(case cached of Some r \<Rightarrow> (Some r, ic)
           | None \<Rightarrow> (case introspect raw of None \<Rightarrow> (None, ic) | Some r \<Rightarrow> (Some r, setIntrospectCache ic (sha raw) r now))) = (res, ic')"
    by force
  note e = assms[unfolded handleTokenIntrospectionAuth_def Let_def c prod.case r]
  obtain result where res: "res = Some result" using e by (cases res) auto
  obtain project where p: "as_GetProjectByID st (the_or '''' (tir_Ext result ''project_id'')) = Some project" "proj_Status project = ''active''"
    using e res by (auto split: if_splits option.splits)
  let ?u = "the_or '''' (tir_Ext result ''user_id'')"
  obtain hyd caches' where h: "(if ?u \<noteq> '''' then hydrate (as_GetProjectMember st) (proj_ID project) ?u now (ast_caches s) else (Inr (None, []), ast_caches s)) = (hyd, caches')"
    by force
  obtain quota denied where hy: "hyd = Inr (quota, denied)" using e res p h by (auto split: if_splits sum.splits)
  then have "?u = '''' \<or> member_ok st s (proj_ID project) ?u now"
    using h hydrate_ok[of "as_GetProjectMember st" "proj_ID project" ?u now "ast_caches s"] by (auto simp: member_ok_def split: if_splits)
  then show ?thesis using e res p h hy by (auto split: if_splits)
qed

text \<open>What authentication establishes of the context it puts on the request.\<close>
definition entitled ::
  "auth_store \<Rightarrow> (bytes \<Rightarrow> bytes \<Rightarrow> bytes) \<Rightarrow> (string \<Rightarrow> string) \<Rightarrow> bytes \<Rightarrow> (string \<Rightarrow> TokenIntrospectResult option) option
   \<Rightarrow> string \<Rightarrow> go_time \<Rightarrow> auth_state \<Rightarrow> auth_context \<Rightarrow> bool" where
  "entitled st hmac sha encKey intro raw now s ctx \<longleftrightarrow> raw \<noteq> '''' \<and> proj_Status (actx_Project ctx) = ''active''
    \<and> (case actx_Policy ctx of Some p \<Rightarrow> policy_IsActive p now | None \<Rightarrow> True)
    \<and> ((as_GetAPIKeyByHash st (sha raw) = Inr (Some (actx_APIKey ctx))
         \<and> valid_format hmac encKey raw \<and> has_prefix raw APIKeyPrefix
         \<and> key_Status (actx_APIKey ctx) = ''active''
         \<and> (case key_ExpiresAt (actx_APIKey ctx) of Some e \<Rightarrow> now \<le> e | None \<Rightarrow> True)
         \<and> member_ok st s (proj_ID (actx_Project ctx)) (key_CreatedBy (actx_APIKey ctx)) now)
       \<or> (intro \<noteq> None \<and> key_ID (actx_APIKey ctx) = ''''
         \<and> (key_CreatedBy (actx_APIKey ctx) = '''' \<or> member_ok st s (proj_ID (actx_Project ctx)) (key_CreatedBy (actx_APIKey ctx)) now)))"

lemma AuthOK_entitled:
  assumes "AuthMiddleware st hmac sha encKey intro header now s = (AuthOK ctx, s')"
  shows "entitled st hmac sha encKey intro (extractAPIKey header) now s ctx"
proof -
  let ?raw = "extractAPIKey header"
  let ?fb = "case intro of None \<Rightarrow> (AuthReject 401, s) | Some i \<Rightarrow> handleTokenIntrospectionAuth st sha i ?raw now s"
  have act: "case resolve_policy st p now of Some p \<Rightarrow> policy_IsActive p now | None \<Rightarrow> True" for p
    using resolve_policy_active by (auto split: option.split)
  have token: ?thesis if fb: "?fb = (AuthOK ctx, s')" "?raw \<noteq> ''''"
  proof -
    obtain i where i: "intro = Some i" "handleTokenIntrospectionAuth st sha i ?raw now s = (AuthOK ctx, s')"
      using fb(1) by (cases intro) auto
    note t = token_auth_sound[OF i(2)]
    have "case actx_Policy ctx of Some p \<Rightarrow> policy_IsActive p now | None \<Rightarrow> True" using t act by simp
    then show ?thesis using t i(1) fb(2) by (simp add: entitled_def)
  qed
  have nz: "?raw \<noteq> ''''" using assms by (auto simp: AuthMiddleware_def)
  show ?thesis
  proof (cases "valid_format hmac encKey ?raw \<and> has_prefix ?raw APIKeyPrefix \<and> (\<exists>k. as_GetAPIKeyByHash st (sha ?raw) = Inr (Some k))")
    case False
    then have "?fb = (AuthOK ctx, s')"
      using assms nz by (auto simp: AuthMiddleware_def Let_def split: if_splits sum.splits option.splits)
    then show ?thesis using token nz by blast
  next
    case True
    then obtain k where k: "as_GetAPIKeyByHash st (sha ?raw) = Inr (Some k)" by blast
    note e = assms[unfolded AuthMiddleware_def Let_def k sum.case option.case]
    obtain project where p: "as_GetProjectByID st (key_ProjectID k) = Some project" "proj_Status project = ''active''"
      "key_Status k = ''active''" "\<not> (case key_ExpiresAt k of Some e \<Rightarrow> e < now | None \<Rightarrow> False)"
      using e nz True by (auto split: if_splits option.splits)
    obtain hyd c' where h: "hydrate (as_GetProjectMember st) (proj_ID project) (key_CreatedBy k) now (ast_caches s) = (hyd, c')" by force
    obtain q d where hy: "hyd = Inr (q, d)" using e nz True p h by (cases hyd) auto
    have "member_ok st s (proj_ID project) (key_CreatedBy k) now"
      using hydrate_ok h hy unfolding member_ok_def by blast
    moreover have "ctx = \<lparr>actx_APIKey = k, actx_Project = project, actx_Policy = resolve_policy st (proj_ID project) now,
        actx_Subscription = as_GetActiveSubscription st (proj_ID project), actx_QuotaPct = q, actx_DeniedModels = d, actx_OAuthGrantID = ''''\<rparr>"
      using e nz True p h hy by simp
    ultimately show ?thesis using True k p nz act[of "proj_ID project"] by (auto simp: entitled_def split: option.splits)
  qed
qed


definition demo_project :: "string \<Rightarrow> Project" where
  "demo_project p = \<lparr>proj_ID = p, proj_Name = p, proj_CreatedBy = ''u'', proj_Status = ''active'', proj_BillingTags = []\<rparr>"

definition demo_key :: APIKey where
  "demo_key = \<lparr>key_ID = ''k'', key_ProjectID = ''p'', key_CreatedBy = ''u'', key_KeyHash = ''ms-x'', key_KeySuffix = ''x'', key_Name = ''n'',
     key_Status = ''active'', key_AllowedModels = [], key_ExpiresAt = None\<rparr>"

definition demo_auth_store :: auth_store where
  "demo_auth_store = \<lparr>as_GetAPIKeyByHash = (\<lambda>h. Inr (if h = ''ms-x'' then Some demo_key else None)),
     as_GetProjectByID = (\<lambda>p. Some (demo_project p)), as_GetActiveSubscription = (\<lambda>_. None), as_GetPlanByID = (\<lambda>_. None),
     as_GetDefaultPolicy = (\<lambda>_. None),
     as_GetProjectMember = (\<lambda>p u. Inr (Some \<lparr>member_UserID = u, member_ProjectID = p, member_Role = ''developer'',
        member_CreditQuotaPct = None, member_DeniedModels = []\<rparr>)),
     as_GetOAuthGrant = (\<lambda>_ _ _. None)\<rparr>"

definition demo_auth_state :: auth_state where
  "demo_auth_state = \<lparr>ast_caches = empty_caches, ast_introspect = Map.empty\<rparr>"

definition demo_token :: "string \<Rightarrow> TokenIntrospectResult option" where
  "demo_token raw = Some \<lparr>tir_Active = True, tir_Sub = ''u'', tir_Ext = [''project_id'' \<mapsto> raw, ''user_id'' \<mapsto> ''u''], tir_ClientID = ''''\<rparr>"

abbreviation demo_auth :: "auth_result \<times> auth_state" where
  "demo_auth \<equiv> AuthMiddleware demo_auth_store (\<lambda>_ _. []) id [] None (\<lambda>h. if h = ''x-api-key'' then ''ms-x'' else '''') 5 demo_auth_state"

abbreviation demo_ctx :: auth_context where
  "demo_ctx \<equiv> \<lparr>actx_APIKey = demo_key, actx_Project = demo_project ''p'', actx_Policy = None, actx_Subscription = None,
     actx_QuotaPct = None, actx_DeniedModels = [], actx_OAuthGrantID = ''''\<rparr>"

lemma demo_auth_ok: "demo_auth = (AuthOK demo_ctx, snd demo_auth)"
  by (simp add: AuthMiddleware_def extractAPIKey_def valid_format_def APIKeyPrefix_def demo_auth_store_def demo_key_def demo_project_def
      demo_auth_state_def hydrate_def empty_caches_def memberPresentCacheGet_def ttl_get_def cache_Get_def NewCreditCache_def
      deniedModelsCacheGet_def resolve_policy_def Let_def)


lemma demo_token_auth:
  "handleTokenIntrospectionAuth demo_auth_store id demo_token p now demo_auth_state
     = (AuthOK \<lparr>actx_APIKey = demo_key\<lparr>key_ID := '''', key_ProjectID := p, key_KeyHash := '''', key_KeySuffix := '''', key_Name := ''hydra-token''\<rparr>,
          actx_Project = demo_project p, actx_Policy = None, actx_Subscription = None,
          actx_QuotaPct = None, actx_DeniedModels = [], actx_OAuthGrantID = ''''\<rparr>,
        snd (handleTokenIntrospectionAuth demo_auth_store id demo_token p now demo_auth_state))" if "p \<noteq> ''''"
  using that
  by (simp add: handleTokenIntrospectionAuth_def getIntrospectCache_def setIntrospectCache_def demo_auth_store_def demo_key_def demo_project_def
      demo_auth_state_def demo_token_def hydrate_def empty_caches_def memberPresentCacheGet_def ttl_get_def cache_Get_def NewCreditCache_def
      deniedModelsCacheGet_def resolve_policy_def Let_def)

text \<open>All OAuth callers share one set of classic counters: the key a token is given has the empty id, and the
  counters are keyed by that id alone, so a request recorded for one token counts against the
  requests-per-minute limit of every other token, of any project.\<close>
lemma oauth_callers_share_counters:
  assumes "handleTokenIntrospectionAuth st sha i raw now s = (AuthOK ctx, s1)"
    and "handleTokenIntrospectionAuth st' sha' i' raw' now' s' = (AuthOK ctx', s1')"
  shows "mc_requests (crl_classic (PostRecord c (proj_ID (actx_Project ctx)) (key_ID (actx_APIKey ctx)) user model u t))
           (counterKey (key_ID (actx_APIKey ctx')) ''rpm'' m False)
    = Some (the_or [] (mc_requests (crl_classic c) (counterKey (key_ID (actx_APIKey ctx')) ''rpm'' m False)) @ [t])"
  using token_auth_sound[OF assms(1)] token_auth_sound[OF assms(2)]
  by (simp add: PostRecord_def requests_Record counterKey_def Let_def)

lemma oauth_callers_share_counters_witness:
  "mc_requests (crl_classic (PostRecord NewCompositeRateLimiter ''a'' '''' ''u'' ''m''
      \<lparr>tu_InputTokens = 1, tu_OutputTokens = 1, tu_CacheCreationTokens = 0, tu_CacheReadTokens = 0\<rparr> 9)) (counterKey '''' ''rpm'' '''' False)
    = Some [9]"
  using oauth_callers_share_counters[OF demo_token_auth[of "''a''" 1] demo_token_auth[of "''b''" 2], of NewCompositeRateLimiter "''u''" "''m''"
     "\<lparr>tu_InputTokens = 1, tu_OutputTokens = 1, tu_CacheCreationTokens = 0, tu_CacheReadTokens = 0\<rparr>" 9 "''''"]
  by (simp add: demo_project_def NewCompositeRateLimiter_def NewMemoryCounters_def)

end
