(* ===== verification/Admission.thy ===== *)
theory Admission
  imports Auth Ledger
begin

text \<open>
  The admission middlewares of package proxy, in the order of their chain (router.go): subscription
  eligibility (subscription_eligibility_middleware.go), rate limits (ratelimit_middleware.go) and the
  extra-usage guard (extra_usage_guard_middleware.go); and the settlement the executor runs after the
  response (executor.go, image_extra_usage_cost.go). The rate limiter is an interface
  (ratelimit/engine.go): the middleware takes its operations as arguments, and the locale below states
  what it may rely on.
\<close>

section \<open>Eligibility\<close>

record SubscriptionEligibility =
  Eligible :: bool
  EligReason :: string

definition isAnthropicSubscriptionClient :: "string \<Rightarrow> bool" where
  "isAnthropicSubscriptionClient kind = (kind = ''claude-code'' \<or> kind = ''claude-desktop'')"

definition SubscriptionEligibilityMiddleware :: "Model option \<Rightarrow> string \<Rightarrow> SubscriptionEligibility" where
  "SubscriptionEligibilityMiddleware m kind =
     (case m of
        None \<Rightarrow> \<lparr>Eligible = True, EligReason = ''''\<rparr>
      | Some m \<Rightarrow>
          if ExtraUsageOnly (model_Metadata m) then \<lparr>Eligible = False, EligReason = ''client_restriction''\<rparr>
          else if model_Publisher m = '''' then \<lparr>Eligible = True, EligReason = ''''\<rparr>
          else if model_Publisher m = ''anthropic'' \<and> \<not> isAnthropicSubscriptionClient kind
          then \<lparr>Eligible = False, EligReason = ''client_restriction''\<rparr>
          else \<lparr>Eligible = True, EligReason = ''''\<rparr>)"

section \<open>The rate limit middleware\<close>

text \<open>Next carries the extra-usage intent put in the context.\<close>
datatype mw_result = Next "string option" | RejectLimited duration

definition withExtraUsageIntent :: "string \<Rightarrow> string option" where
  "withExtraUsageIntent reason = (if reason = '''' then None else Some reason)"

text \<open>A limiter call returns an error or a result, and the limiter's next state; None is a panic.\<close>
type_synonym 's precheck = "'s \<Rightarrow> string \<Rightarrow> string \<Rightarrow> string \<Rightarrow> RateLimitPolicy \<Rightarrow> go_time \<Rightarrow> ((unit + PreCheckResult) \<times> 's) option"
type_synonym 's quota_check = "'s \<Rightarrow> string \<Rightarrow> string \<Rightarrow> float64 \<Rightarrow> RateLimitPolicy \<Rightarrow> go_time \<Rightarrow> ((unit + bool \<times> duration) \<times> 's) option"

definition RateLimitMiddleware ::
  "'s precheck \<Rightarrow> 's precheck \<Rightarrow> 's quota_check \<Rightarrow> RateLimitPolicy option \<Rightarrow> APIKey option \<Rightarrow> Project option
   \<Rightarrow> SubscriptionEligibility \<Rightarrow> float64 option \<Rightarrow> go_time \<Rightarrow> 's \<Rightarrow> (mw_result \<times> 's) option" where
  "RateLimitMiddleware pre classic_only quota policy apiKey project elig quotaPct now s =
     (case policy of None \<Rightarrow> Some (Next None, s) | Some p \<Rightarrow>
      case (apiKey, project) of
        (Some k, Some pr) \<Rightarrow>
          if \<not> Eligible elig then
            (case classic_only s (proj_ID pr) (key_ID k) '''' p now of
               None \<Rightarrow> None
             | Some (Inl e, s1) \<Rightarrow> Some (Next None, s1)
             | Some (Inr res, s1) \<Rightarrow>
                 if \<not> pcr_Allowed res then Some (RejectLimited (pcr_RetryAfter res), s1)
                 else Some (Next (withExtraUsageIntent (EligReason elig)), s1))
          else
            (case pre s (proj_ID pr) (key_ID k) '''' p now of
               None \<Rightarrow> None
             | Some (Inl e, s1) \<Rightarrow> Some (Next None, s1)
             | Some (Inr res, s1) \<Rightarrow>
                 if pcr_Allowed res then
                   (case quotaPct of
                      None \<Rightarrow> Some (Next None, s1)
                    | Some pct \<Rightarrow>
                        (case quota s1 (proj_ID pr) (key_CreatedBy k) pct p now of
                           None \<Rightarrow> None
                         | Some (Inl e, s2) \<Rightarrow> Some (Next None, s2)
                         | Some (Inr (uAllowed, uRetryAfter), s2) \<Rightarrow>
                             if \<not> uAllowed then Some (RejectLimited uRetryAfter, s2) else Some (Next None, s2)))
                 else if pcr_LimitType res = ''credit'' then Some (Next (withExtraUsageIntent ''rate_limited''), s1)
                 else Some (RejectLimited (pcr_RetryAfter res), s1))
      | _ \<Rightarrow> Some (Next None, s))"

text \<open>The response of a rejection: its status, the Retry-After seconds and the error type.\<close>
definition writeRateLimitError :: "duration \<Rightarrow> int \<times> int \<times> string" where
  "writeRateLimitError retryAfter =
     (let retrySeconds = int_of_float (fdiv (float_of retryAfter) (float_of second));
          retrySeconds' = (if retrySeconds < 1 then 1 else retrySeconds)
      in (400, retrySeconds', ''rate_limit_error''))"

section \<open>The extra-usage guard\<close>

record ExtraUsageContext =
  euctx_Reason :: string
  euctx_BalanceCreditsAtEntry :: int
  euctx_MonthlyLimitCredits :: int
  euctx_MonthlySpentCredits :: int

record guardStateRejected =
  gs_Enabled :: bool
  gs_BalanceCredits :: int
  gs_Message :: string

datatype guard_result =
    GuardPass
  | GuardApproved ExtraUsageContext
  | GuardRejected int string guardStateRejected

definition rejectedMessage :: "string \<Rightarrow> string \<Rightarrow> string" where
  "rejectedMessage reason subReason =
     (let fallback = (if subReason = ''model_unpriced''
                      then ''extra usage cannot price this model (missing default rate or platform credit price)''
                      else ''extra usage unavailable: '' @ subReason)
      in if reason = ''client_restriction'' then
           (if subReason = ''not_enabled'' then ''this client cannot use subscription for anthropic models; enable extra usage''
            else if subReason = ''balance_depleted'' then ''extra usage balance depleted for this client restriction''
            else if subReason = ''monthly_limit'' then ''extra usage monthly limit reached for this client restriction''
            else fallback)
         else if reason = ''rate_limited'' then
           (if subReason = ''not_enabled'' then ''rate limit reached; enable extra usage to continue''
            else if subReason = ''balance_depleted'' then ''rate limit reached; extra usage balance depleted''
            else if subReason = ''monthly_limit'' then ''rate limit reached; extra usage monthly limit reached''
            else if subReason = ''model_unpriced''
            then ''rate limit reached; extra usage cannot price this model (missing default rate or platform credit price)''
            else fallback)
         else fallback)"

definition ExtraUsageGuardMiddleware ::
  "bool \<Rightarrow> int \<Rightarrow> (string \<Rightarrow> bool) \<Rightarrow> database \<Rightarrow> string \<Rightarrow> string option \<Rightarrow> Project option \<Rightarrow> Model option \<Rightarrow> go_time \<Rightarrow> guard_result" where
  "ExtraUsageGuardMiddleware enabled creditPrice up db path intent project m now =
     (if path = ''/v1/messages/count_tokens'' then GuardPass
      else case intent of None \<Rightarrow> GuardPass | Some reason \<Rightarrow>
      let reject = (\<lambda>status en bal msg. GuardRejected status reason \<lparr>gs_Enabled = en, gs_BalanceCredits = bal, gs_Message = msg\<rparr>) in
      if \<not> enabled then reject 429 False 0 ''extra usage temporarily disabled''
      else case project of None \<Rightarrow> reject 500 False 0 ''missing project context'' | Some pr \<Rightarrow>
      case GetExtraUsageSettings db (up ''GetExtraUsageSettings'') (proj_ID pr) of
        Inl e \<Rightarrow> reject 500 False 0 ''extra usage lookup failed''
      | Inr None \<Rightarrow> reject 429 False 0 (rejectedMessage reason ''not_enabled'')
      | Inr (Some s) \<Rightarrow>
          let bypass = eus_BypassBalanceCheck s in
          if \<not> bypass \<and> \<not> eus_Enabled s then reject 429 False 0 (rejectedMessage reason ''not_enabled'')
          else if \<not> bypass \<and> eus_BalanceCredits s \<le> 0 then reject 429 True (eus_BalanceCredits s) (rejectedMessage reason ''balance_depleted'')
          else if \<not> bypass \<and> creditPrice \<le> 0 then reject 429 True (eus_BalanceCredits s) (rejectedMessage reason ''model_unpriced'')
          else if \<not> bypass \<and> Option.bind m model_DefaultCreditRate = None
          then reject 429 True (eus_BalanceCredits s) (rejectedMessage reason ''model_unpriced'')
          else if eus_MonthlyLimitCredits s > 0 then
            (case GetMonthlyExtraSpendCredits db (up ''GetMonthlyExtraSpendCredits'') (proj_ID pr) (MonthWindowStart now) of
               Inl e \<Rightarrow> reject 500 False 0 ''extra usage monthly check failed''
             | Inr spent \<Rightarrow>
                 if spent \<ge> eus_MonthlyLimitCredits s
                 then reject 429 True (eus_BalanceCredits s) (rejectedMessage reason ''monthly_limit'')
                 else GuardApproved \<lparr>euctx_Reason = reason, euctx_BalanceCreditsAtEntry = eus_BalanceCredits s,
                        euctx_MonthlyLimitCredits = eus_MonthlyLimitCredits s, euctx_MonthlySpentCredits = spent\<rparr>)
          else GuardApproved \<lparr>euctx_Reason = reason, euctx_BalanceCreditsAtEntry = eus_BalanceCredits s,
                 euctx_MonthlyLimitCredits = eus_MonthlyLimitCredits s, euctx_MonthlySpentCredits = 0\<rparr>)"

section \<open>The chain\<close>

datatype admission = Served "ExtraUsageContext option" | Refused int | Limited duration

text \<open>The chain of router.go after authentication and model resolution, with the composite limiter, whose
  calls never return an error.\<close>
definition composite_pre :: "credit_store \<Rightarrow> CompositeRateLimiter precheck" where
  "composite_pre st s p k m pol now = map_option (\<lambda>(r, s'). (Inr r, s')) (PreCheck st s p k m (Some pol) now)"

definition composite_classic_only :: "CompositeRateLimiter precheck" where
  "composite_classic_only s p k m pol now = Some (Inr (PreCheckClassicOnly s k m (Some pol) now), s)"

definition composite_quota :: "credit_store \<Rightarrow> CompositeRateLimiter quota_check" where
  "composite_quota st s p u pct pol now = map_option (\<lambda>(r, s'). (Inr r, s')) (CheckUserQuota st s p u pct (Some pol) now)"

definition admission_chain ::
  "credit_store \<Rightarrow> bool \<Rightarrow> int \<Rightarrow> (string \<Rightarrow> bool) \<Rightarrow> database \<Rightarrow> string \<Rightarrow> auth_context \<Rightarrow> Model option \<Rightarrow> string \<Rightarrow> go_time
   \<Rightarrow> CompositeRateLimiter \<Rightarrow> (admission \<times> CompositeRateLimiter) option" where
  "admission_chain st enabled creditPrice up db path ctx m kind now s =
     map_option (\<lambda>(r, s'). (case r of
          RejectLimited d \<Rightarrow> Limited d
        | Next intent \<Rightarrow>
            (case ExtraUsageGuardMiddleware enabled creditPrice up db path intent (Some (actx_Project ctx)) m now of
               GuardPass \<Rightarrow> Served None
             | GuardApproved c \<Rightarrow> Served (Some c)
             | GuardRejected status reason g \<Rightarrow> Refused status), s'))
       (RateLimitMiddleware (composite_pre st) composite_classic_only (composite_quota st) (actx_Policy ctx)
          (Some (actx_APIKey ctx)) (Some (actx_Project ctx)) (SubscriptionEligibilityMiddleware m kind) (actx_QuotaPct ctx) now s)"

section \<open>Settlement (executor.go, image_extra_usage_cost.go)\<close>

text \<open>math.Ceil and the conversion to int64.\<close>
definition ceil_int :: "float64 \<Rightarrow> int" where "ceil_int x = int_of_float (of_int \<lceil>x\<rceil>)"

text \<open>None is ErrMissingDefaultCreditRate.\<close>
definition usage_credits :: "CreditRate \<Rightarrow> TokenUsage \<Rightarrow> float64" where
  "usage_credits rate u =
     fadd (fadd (fadd (fmul (InputRate rate) (float_of (tu_InputTokens u))) (fmul (OutputRate rate) (float_of (tu_OutputTokens u))))
       (fmul (CacheCreationRate rate) (float_of (tu_CacheCreationTokens u)))) (fmul (CacheReadRate rate) (float_of (tu_CacheReadTokens u)))"

definition computeExtraUsageCostCredits :: "Model option \<Rightarrow> TokenUsage \<Rightarrow> int option" where
  "computeExtraUsageCostCredits m u =
     (case Option.bind m model_DefaultCreditRate of
        None \<Rightarrow> None
      | Some r \<Rightarrow>
          (let rate = ApplyLongContextCreditRate r (i64 (i64 (tu_InputTokens u + tu_CacheCreationTokens u) + tu_CacheReadTokens u));
               credits = usage_credits rate u
           in if credits \<le> 0 then Some 0 else Some (ceil_int credits)))"

record ImageTokenUsage =
  itu_InputTokens :: int
  itu_OutputTokens :: int
  itu_TotalTokens :: int
  itu_TextInputTokens :: int
  itu_ImageInputTokens :: int
  itu_CachedInputTokens :: int
  itu_TextOutputTokens :: int
  itu_ImageOutputTokens :: int

text \<open>The cached tokens are split over text and image input in proportion.\<close>
definition image_split :: "ImageTokenUsage \<Rightarrow> int \<times> int" where
  "image_split u =
     (let totalInput = i64 (itu_TextInputTokens u + itu_ImageInputTokens u) in
      if totalInput > 0 \<and> itu_CachedInputTokens u > 0 then
        (let cachedText = the_or 0 (go_quot (i64 (itu_CachedInputTokens u * itu_TextInputTokens u)) totalInput)
         in (cachedText, i64 (itu_CachedInputTokens u - cachedText)))
      else (0, 0))"

definition computeImageCredits :: "Model option \<Rightarrow> ImageTokenUsage \<Rightarrow> float64 option" where
  "computeImageCredits m u =
     (case Option.bind m model_DefaultImageCreditRate of
        None \<Rightarrow> None
      | Some r \<Rightarrow>
          (let (cachedText, cachedImage) = image_split u;
               billedText = max 0 (i64 (itu_TextInputTokens u - cachedText));
               billedImage = max 0 (i64 (itu_ImageInputTokens u - cachedImage))
           in Some (fadd (fadd (fadd (fadd (fadd
                (fmul (TextInputRate r) (float_of billedText)) (fmul (ImageInputRate r) (float_of billedImage)))
                (fmul (TextCachedInputRate r) (float_of cachedText))) (fmul (ImageCachedInputRate r) (float_of cachedImage)))
                (fmul (TextOutputRate r) (float_of (itu_TextOutputTokens u)))) (fmul (ImageOutputRate r) (float_of (itu_ImageOutputTokens u))))))"

definition computeImageExtraUsageCostCredits :: "Model option \<Rightarrow> ImageTokenUsage \<Rightarrow> int option" where
  "computeImageExtraUsageCostCredits m u =
     map_option (\<lambda>credits. if credits \<le> 0 then 0 else if ceil_int credits < 1 then 1 else ceil_int credits) (computeImageCredits m u)"

text \<open>The fields of the request context settlement reads and writes.\<close>
record settle_ctx =
  sc_ProjectID :: string
  sc_RequestID :: string
  sc_Model :: string
  sc_ModelRef :: "Model option"
  sc_RequestKind :: string
  sc_ExtraUsageCtx :: "ExtraUsageContext option"
  sc_CostCredits :: int
  sc_BalanceAfterCredits :: int

text \<open>The deduction of a computed cost; the label is the metric's.\<close>
definition settle_cost ::
  "bool \<Rightarrow> database \<Rightarrow> settle_ctx \<Rightarrow> string \<Rightarrow> string \<Rightarrow> int \<Rightarrow> go_time \<Rightarrow> string \<times> settle_ctx \<times> database" where
  "settle_cost up db rc reason description cost now =
     (let rc1 = rc\<lparr>sc_CostCredits := cost\<rparr> in
      case DeductExtraUsage db up \<lparr>ded_ProjectID = sc_ProjectID rc, ded_AmountCredits = cost, ded_RequestID = sc_RequestID rc,
             ded_Reason = reason, ded_Description = description, ded_MonthWindowStart = MonthWindowStart now\<rparr> now of
        (Inr newBal, db') \<Rightarrow> (if newBal < 0 then ''overdraft'' else ''ok'', rc1\<lparr>sc_BalanceAfterCredits := newBal\<rparr>, db')
      | (Inl ErrInsufficientBalance, db') \<Rightarrow> (''insufficient'', rc1, db')
      | (Inl ErrMonthlyLimitReached, db') \<Rightarrow> (''monthly_limit'', rc1, db')
      | (Inl ErrExtraUsageNotEnabled, db') \<Rightarrow> (''not_enabled'', rc1, db')
      | (Inl _, db') \<Rightarrow> (''err'', rc1, db'))"

definition settleExtraUsage :: "bool \<Rightarrow> database \<Rightarrow> settle_ctx \<Rightarrow> TokenUsage \<Rightarrow> go_time \<Rightarrow> string \<times> settle_ctx \<times> database" where
  "settleExtraUsage up db rc usage now =
     (case sc_ExtraUsageCtx rc of
        None \<Rightarrow> ('''', rc, db)
      | Some eu \<Rightarrow>
          if i64 (i64 (i64 (tu_InputTokens usage + tu_OutputTokens usage) + tu_CacheCreationTokens usage) + tu_CacheReadTokens usage) = 0
          then (''no_usage'', rc, db)
          else case computeExtraUsageCostCredits (sc_ModelRef rc) usage of
            None \<Rightarrow> (''missing_rate'', rc, db)
          | Some cost \<Rightarrow>
              settle_cost up db rc (euctx_Reason eu)
                (euctx_Reason eu @ '' | credits='' @ itoa cost @ '' | model='' @ sc_Model rc) cost now)"

definition settleImageExtraUsage :: "bool \<Rightarrow> database \<Rightarrow> settle_ctx \<Rightarrow> ImageTokenUsage \<Rightarrow> go_time \<Rightarrow> string \<times> settle_ctx \<times> database" where
  "settleImageExtraUsage up db rc usage now =
     (case sc_ExtraUsageCtx rc of
        None \<Rightarrow> ('''', rc, db)
      | Some eu \<Rightarrow>
          if i64 (itu_InputTokens usage + itu_OutputTokens usage) = 0 then (''no_usage'', rc, db)
          else case computeImageExtraUsageCostCredits (sc_ModelRef rc) usage of
            None \<Rightarrow> (''missing_rate'', rc, db)
          | Some cost \<Rightarrow>
              settle_cost up db rc (euctx_Reason eu)
                (euctx_Reason eu @ '' | credits='' @ itoa cost @ '' | model='' @ sc_Model rc @ '' | kind='' @ sc_RequestKind rc) cost now)"

section \<open>The limiter's contract and the middleware\<close>

text \<open>What the middleware relies on: \<^term>\<open>room\<close> says that every classic limit has room.\<close>
locale rate_limiter =
  fixes pre :: "'s precheck" and classic_only :: "'s precheck" and quota :: "'s quota_check"
    and room :: "'s \<Rightarrow> string \<Rightarrow> string \<Rightarrow> RateLimitPolicy \<Rightarrow> go_time \<Rightarrow> bool"
  assumes classic_only_result: "\<exists>r. classic_only s p k m pol now = Some (Inr r, s) \<and> (pcr_Allowed r \<longleftrightarrow> room s k m pol now)"
    and pre_result: "pre s p k m pol now = Some (x, s') \<Longrightarrow>
          \<exists>r. x = Inr r \<and> (pcr_Allowed r \<or> pcr_LimitType r = ''credit'' \<and> room s k m pol now
                         \<or> pcr_LimitType r = ''classic'' \<and> \<not> room s k m pol now)"
    and quota_result: "quota s p u pct pol now = Some (y, s') \<Longrightarrow> \<exists>b d. y = Inr (b, d)"
begin

text \<open>An extra-usage intent is set only when the classic limits have room.\<close>
lemma intent_room:
  assumes "RateLimitMiddleware pre classic_only quota policy (Some k) (Some pr) elig pct now s = Some (Next (Some reason), s')"
  shows "\<exists>p. policy = Some p \<and> room s (key_ID k) '''' p now
    \<and> (if Eligible elig then reason = ''rate_limited'' else reason = EligReason elig)"
proof (cases policy)
  case None then show ?thesis using assms by (simp add: RateLimitMiddleware_def)
next
  case (Some p)
  show ?thesis
  proof (cases "Eligible elig")
    case False
    obtain r where r: "classic_only s (proj_ID pr) (key_ID k) '''' p now = Some (Inr r, s)" "pcr_Allowed r \<longleftrightarrow> room s (key_ID k) '''' p now"
      using classic_only_result by blast
    then show ?thesis using assms Some False
      by (auto simp: RateLimitMiddleware_def withExtraUsageIntent_def split: if_splits)
  next
    case True
    obtain x s1 where x: "pre s (proj_ID pr) (key_ID k) '''' p now = Some (x, s1)"
      using assms Some True by (auto simp: RateLimitMiddleware_def split: option.splits)
    obtain r where r: "x = Inr r" "pcr_Allowed r \<or> pcr_LimitType r = ''credit'' \<and> room s (key_ID k) '''' p now
                         \<or> pcr_LimitType r = ''classic'' \<and> \<not> room s (key_ID k) '''' p now"
      using pre_result[OF x] by blast
    have "\<not> pcr_Allowed r" using assms Some True x r
      by (auto simp: RateLimitMiddleware_def split: option.splits sum.splits prod.splits if_splits)
    then show ?thesis using assms Some True x r
      by (auto simp: RateLimitMiddleware_def withExtraUsageIntent_def split: if_splits)
  qed
qed

text \<open>A client that may not use the subscription is either limited or handed to the guard with its reason.\<close>
lemma ineligible_outcome:
  assumes "\<not> Eligible elig" "EligReason elig \<noteq> ''''"
  shows "\<exists>d. RateLimitMiddleware pre classic_only quota (Some p) (Some k) (Some pr) elig pct now s
     = Some (if room s (key_ID k) '''' p now then Next (Some (EligReason elig)) else RejectLimited d, s)"
proof -
  obtain r where r: "classic_only s (proj_ID pr) (key_ID k) '''' p now = Some (Inr r, s)" "pcr_Allowed r \<longleftrightarrow> room s (key_ID k) '''' p now"
    using classic_only_result by blast
  then show ?thesis using assms by (auto simp: RateLimitMiddleware_def withExtraUsageIntent_def)
qed

end

definition classic_room :: "CompositeRateLimiter \<Rightarrow> string \<Rightarrow> string \<Rightarrow> RateLimitPolicy \<Rightarrow> go_time \<Rightarrow> bool" where
  "classic_room c key model p now =
     list_all (\<lambda>rule. rule_current (crl_classic c) key model rule now < RuleLimit rule) (policy_ClassicRules p)"

lemma PreCheck_result:
  assumes "PreCheck st c proj key model (Some p) now = Some (r, c')"
  shows "pcr_Allowed r \<or> pcr_LimitType r = ''credit'' \<and> classic_room c key model p now
    \<or> pcr_LimitType r = ''classic'' \<and> \<not> classic_room c key model p now"
proof -
  obtain outcome cache' where o: "check_credit_rules st proj key now (crl_cache c) (policy_CreditRules p) = Some (outcome, cache')"
    using assms by (auto simp: PreCheck_def split: option.splits)
  show ?thesis
    using assms o classic_Check_True[of "crl_classic c" key model "policy_ClassicRules p" now]
    by (cases outcome; cases "policy_ClassicRules p = []")
       (auto simp: PreCheck_def Let_def classic_room_def split: if_splits prod.splits)
qed

interpretation composite: rate_limiter "composite_pre st" composite_classic_only "composite_quota st" classic_room
proof unfold_locales
  fix s p k m pol now
  show "\<exists>r. composite_classic_only s p k m pol now = Some (Inr r, s) \<and> (pcr_Allowed r \<longleftrightarrow> classic_room s k m pol now)"
    using classic_Check_True[of "crl_classic s" k m "policy_ClassicRules pol" now]
    by (auto simp: composite_classic_only_def PreCheckClassicOnly_def classic_room_def split: prod.split)
next
  fix s p k m pol now x s'
  assume "composite_pre st s p k m pol now = Some (x, s')"
  then obtain r where "x = Inr r" "PreCheck st s p k m (Some pol) now = Some (r, s')"
    by (auto simp: composite_pre_def)
  then show "\<exists>r. x = Inr r \<and> (pcr_Allowed r \<or> pcr_LimitType r = ''credit'' \<and> classic_room s k m pol now
                         \<or> pcr_LimitType r = ''classic'' \<and> \<not> classic_room s k m pol now)"
    using PreCheck_result by blast
next
  fix s p u pct pol now y s'
  assume "composite_quota st s p u pct pol now = Some (y, s')"
  then show "\<exists>b d. y = Inr (b, d)" by (auto simp: composite_quota_def)
qed

section \<open>Admission through the chain\<close>

lemma guard_pass: "ExtraUsageGuardMiddleware en price up db path (Some reason) pr m now = GuardPass \<longleftrightarrow> path = ''/v1/messages/count_tokens''"
  by (auto simp: ExtraUsageGuardMiddleware_def Let_def split: option.split sum.split)

lemma guard_no_intent: "ExtraUsageGuardMiddleware en price up db path None pr m now = GuardPass"
  by (simp add: ExtraUsageGuardMiddleware_def)

lemma restricted_admission:
  assumes "ExtraUsageOnly (model_Metadata mdl)
      \<or> model_Publisher mdl = ''anthropic'' \<and> kind \<noteq> ''claude-code'' \<and> kind \<noteq> ''claude-desktop''"
    and "actx_Policy ctx = Some p" and "path \<noteq> ''/v1/messages/count_tokens''"
    and "admission_chain st en price up db path ctx (Some mdl) kind now s = Some (Served x, s')"
  shows "\<exists>c. x = Some c \<and> euctx_Reason c = ''client_restriction'' \<and> s' = s
    \<and> classic_room s (key_ID (actx_APIKey ctx)) '''' p now"
proof -
  let ?m = "Some mdl"
  let ?e = "SubscriptionEligibilityMiddleware ?m kind"
  have r: "EligReason ?e = ''client_restriction''" "\<not> Eligible ?e"
    using assms(1) by (auto simp: SubscriptionEligibilityMiddleware_def isAnthropicSubscriptionClient_def)
  obtain d where mw: "RateLimitMiddleware (composite_pre st) composite_classic_only (composite_quota st) (Some p)
      (Some (actx_APIKey ctx)) (Some (actx_Project ctx)) ?e (actx_QuotaPct ctx) now s
     = Some (if classic_room s (key_ID (actx_APIKey ctx)) '''' p now then Next (Some (EligReason ?e)) else RejectLimited d, s)"
    using composite.ineligible_outcome[of ?e] r by fastforce
  let ?g = "ExtraUsageGuardMiddleware en price up db path (Some ''client_restriction'') (Some (actx_Project ctx)) ?m now"
  have room: "classic_room s (key_ID (actx_APIKey ctx)) '''' p now"
    using assms(2,4) mw by (auto simp: admission_chain_def split: if_splits)
  then have s: "s' = s" "(case ?g of GuardPass \<Rightarrow> Served None | GuardApproved c \<Rightarrow> Served (Some c) | GuardRejected st r g \<Rightarrow> Refused st) = Served x"
    using assms(2,4) mw r by (auto simp: admission_chain_def)
  have "?g \<noteq> GuardPass" using assms(3) guard_pass by blast
  then obtain c where c: "?g = GuardApproved c" "x = Some c" using s(2) by (cases ?g) auto
  then have "euctx_Reason c = ''client_restriction''"
    by (auto simp: ExtraUsageGuardMiddleware_def Let_def split: if_splits option.splits sum.splits)
  then show ?thesis using c room s(1) by blast
qed

text \<open>C6: a request that may not consume the subscription (a premium model, or an anthropic model asked for by
  another client than Claude Code or Claude Desktop) is never served on it: when the project has a policy,
  it is served only with an approved extra-usage context, apart from token counting, and the approval
  carries the reason client_restriction.\<close>
theorem restricted_never_on_subscription:
  assumes "ExtraUsageOnly (model_Metadata mdl)
      \<or> model_Publisher mdl = ''anthropic'' \<and> kind \<noteq> ''claude-code'' \<and> kind \<noteq> ''claude-desktop''"
    and "actx_Policy ctx = Some p" and "path \<noteq> ''/v1/messages/count_tokens''"
    and "admission_chain st en price up db path ctx (Some mdl) kind now s = Some (Served x, s')"
  shows "\<exists>c. x = Some c \<and> euctx_Reason c = ''client_restriction'' \<and> s' = s
    \<and> classic_room s (key_ID (actx_APIKey ctx)) '''' p now"
  using assms by (rule restricted_admission)

text \<open>Without a policy nothing is limited: when the project has no active subscription and no default policy
  (or their lookup failed, which the authentication step ignores), every request is served at once, the
  premium models that must only be billed as extra usage included, with extra usage disabled, and
  nothing will be settled.\<close>
lemma no_policy_serves_everything:
  "admission_chain st en price up db path (ctx\<lparr>actx_Policy := None\<rparr>) m kind now s = Some (Served None, s)"
  by (simp add: admission_chain_def RateLimitMiddleware_def guard_no_intent)

text \<open>C7: extra usage is only granted within its limits: a request served with an extra-usage context has room
  under every classic limit, the feature is enabled, and the project either has the bypass or is enabled
  with a positive balance and a priced model, and in both cases has spent less than a positive monthly
  limit; the context reports the balance and the spend of that moment.\<close>
theorem extra_usage_admission_sound:
  assumes "admission_chain st en price up db path ctx m kind now s = Some (Served (Some c), s')"
  shows "\<exists>p row. actx_Policy ctx = Some p \<and> classic_room s (key_ID (actx_APIKey ctx)) '''' p now \<and> en
    \<and> db_settings db (proj_ID (actx_Project ctx)) = Some row
    \<and> (eus_BypassBalanceCheck row \<or> eus_Enabled row \<and> 0 < eus_BalanceCredits row \<and> 0 < price
         \<and> Option.bind m model_DefaultCreditRate \<noteq> None)
    \<and> (eus_MonthlyLimitCredits row \<le> 0
       \<or> month_spend db (proj_ID (actx_Project ctx)) (MonthWindowStart now) < eus_MonthlyLimitCredits row
         \<and> euctx_MonthlySpentCredits c = month_spend db (proj_ID (actx_Project ctx)) (MonthWindowStart now))
    \<and> euctx_BalanceCreditsAtEntry c = eus_BalanceCredits row"
proof -
  let ?e = "SubscriptionEligibilityMiddleware m kind"
  let ?g = "\<lambda>intent. ExtraUsageGuardMiddleware en price up db path intent (Some (actx_Project ctx)) m now"
  obtain intent s1 where mw: "RateLimitMiddleware (composite_pre st) composite_classic_only (composite_quota st) (actx_Policy ctx)
      (Some (actx_APIKey ctx)) (Some (actx_Project ctx)) ?e (actx_QuotaPct ctx) now s = Some (Next intent, s1)"
    and g: "?g intent = GuardApproved c"
  proof -
    obtain r where r: "RateLimitMiddleware (composite_pre st) composite_classic_only (composite_quota st) (actx_Policy ctx)
        (Some (actx_APIKey ctx)) (Some (actx_Project ctx)) ?e (actx_QuotaPct ctx) now s = Some (r, s')"
      using assms by (auto simp: admission_chain_def)
    then obtain intent where n: "r = Next intent" using assms by (cases r) (auto simp: admission_chain_def)
    have "?g intent = GuardApproved c"
      using assms r n by (cases "?g intent") (auto simp: admission_chain_def)
    then show ?thesis using that r n by blast
  qed
  obtain reason where i: "intent = Some reason" using g guard_no_intent by (cases intent) auto
  have "\<exists>p. actx_Policy ctx = Some p \<and> classic_room s (key_ID (actx_APIKey ctx)) '''' p now"
    using composite.intent_room mw unfolding i by blast
  then show ?thesis using g unfolding i
    by (auto simp: ExtraUsageGuardMiddleware_def GetExtraUsageSettings_def GetMonthlyExtraSpendCredits_def Let_def
        split: if_splits option.splits sum.splits)
qed

definition demo_limits :: RateLimitPolicy where
  "demo_limits = demo_policy\<lparr>policy_ClassicRules := [\<lparr>Metric = ''rpm'', RuleLimit = 5, PerModel = False\<rparr>]\<rparr>"

definition demo_model :: Model where
  "demo_model = \<lparr>model_Name = ''claude'', model_DisplayName = [], model_Description = [], model_Aliases = [],
     model_DefaultCreditRate = Some \<lparr>InputRate = 1, OutputRate = 2, CacheCreationRate = 0, CacheReadRate = 0, LongContext = None\<rparr>,
     model_DefaultImageCreditRate = None, model_Status = ''active'', model_Publisher = ''anthropic'',
     model_Metadata = \<lparr>ContextWindow = 0, Capabilities = [], ProviderHint = [], Icon = [], Category = [], ReplacedBy = [], ExtraUsageOnly = False\<rparr>\<rparr>"

definition demo_eu :: ExtraUsageContext where
  "demo_eu = \<lparr>euctx_Reason = ''client_restriction'', euctx_BalanceCreditsAtEntry = 100, euctx_MonthlyLimitCredits = 50, euctx_MonthlySpentCredits = 0\<rparr>"

lemma demo_not_eligible: "\<not> Eligible (SubscriptionEligibilityMiddleware (Some demo_model) ''curl'')"
  by (simp add: SubscriptionEligibilityMiddleware_def demo_model_def isAnthropicSubscriptionClient_def)

lemma demo_guard:
  "ExtraUsageGuardMiddleware True 1 (\<lambda>_. True) demo_db ''/v1/messages'' (Some ''client_restriction'') (Some (demo_project ''p'')) (Some demo_model) now
     = GuardApproved demo_eu"
  by (simp add: ExtraUsageGuardMiddleware_def GetExtraUsageSettings_def GetMonthlyExtraSpendCredits_def demo_db_def demo_project_def
      demo_model_def demo_eu_def month_spend_def empty_db_def Let_def)

lemma demo_admission:
  "admission_chain demo_store True 1 (\<lambda>_. True) demo_db ''/v1/messages'' (demo_ctx\<lparr>actx_Policy := Some demo_limits\<rparr>) (Some demo_model) ''curl'' 9
     NewCompositeRateLimiter = Some (Served (Some demo_eu), NewCompositeRateLimiter)"
proof -
  have e: "SubscriptionEligibilityMiddleware (Some demo_model) ''curl'' = \<lparr>Eligible = False, EligReason = ''client_restriction''\<rparr>"
    by (simp add: SubscriptionEligibilityMiddleware_def demo_model_def isAnthropicSubscriptionClient_def)
  have c: "PreCheckClassicOnly NewCompositeRateLimiter ''k'' '''' (Some demo_limits) 9 = \<lparr>pcr_Allowed = True, pcr_RetryAfter = 0, pcr_LimitType = ''''\<rparr>"
    by (simp add: PreCheckClassicOnly_def demo_limits_def demo_policy_def rule_current_def CountRequests_def NewCompositeRateLimiter_def
        NewMemoryCounters_def isRequestMetric_def)
  show ?thesis
    by (simp add: admission_chain_def RateLimitMiddleware_def e composite_classic_only_def demo_key_def c demo_guard withExtraUsageIntent_def)
qed

lemma restricted_never_on_subscription_witness:
  "\<exists>c. Some demo_eu = Some c \<and> euctx_Reason c = ''client_restriction''
     \<and> classic_room NewCompositeRateLimiter ''k'' '''' demo_limits 9"
  using restricted_never_on_subscription[OF _ _ _ demo_admission] by (simp add: demo_key_def demo_model_def)

lemma extra_usage_admission_sound_witness:
  "classic_room NewCompositeRateLimiter ''k'' '''' demo_limits 9 \<and> euctx_MonthlySpentCredits demo_eu = month_spend demo_db ''p'' (MonthWindowStart 9)"
  using extra_usage_admission_sound[OF demo_admission] by (auto simp: demo_key_def demo_project_def demo_db_def)

section \<open>Settlement\<close>

text \<open>Extra usage is priced at the catalog rate rounded up to a whole credit: never below the usage's
  price and less than one credit above it, and zero usage of value costs nothing.\<close>
lemma cost_rounds_up:
  assumes "computeExtraUsageCostCredits (Some m) u = Some cost" and "model_DefaultCreditRate m = Some r"
    and "usage_credits (ApplyLongContextCreditRate r (i64 (i64 (tu_InputTokens u + tu_CacheCreationTokens u) + tu_CacheReadTokens u))) u = credits"
    and "credits \<le> 4611686018427387904"
  shows "0 \<le> cost \<and> credits \<le> of_int cost \<and> (of_int cost < credits + 1 \<or> cost = 0)"
proof (cases "credits \<le> 0")
  case True then show ?thesis using assms by (auto simp: computeExtraUsageCostCredits_def Let_def)
next
  case False
  then have c: "0 < \<lceil>credits\<rceil>" "\<lceil>credits\<rceil> \<le> 4611686018427387904" using assms(4) by (simp_all add: ceiling_le_iff)
  then have "ceil_int credits = \<lceil>credits\<rceil>"
    by (simp add: ceil_int_def int_of_float_def is_i64_def int64_max_def int64_min_def)
  then have "cost = \<lceil>credits\<rceil>" using assms(1,2) False unfolding assms(3)[symmetric] by (simp add: computeExtraUsageCostCredits_def Let_def)
  then show ?thesis using c ceiling_correct[of credits] by linarith
qed

lemma settle_cost_outcome:
  assumes "settle_cost up db rc reason desc cost now = (label, rc', db')"
  shows "sc_CostCredits rc' = cost \<and>
    (if label \<in> {''ok'', ''overdraft''}
     then (\<exists>row. db_txs db' = db_txs db @ [row] \<and> eut_AmountCredits row = - cost \<and> eut_ProjectID row = sc_ProjectID rc)
          \<and> balance_of db' (sc_ProjectID rc) = balance_of db (sc_ProjectID rc) - cost
          \<and> sc_BalanceAfterCredits rc' = balance_of db' (sc_ProjectID rc)
     else db' = db)"
proof -
  define req where "req = \<lparr>ded_ProjectID = sc_ProjectID rc, ded_AmountCredits = cost, ded_RequestID = sc_RequestID rc,
             ded_Reason = reason, ded_Description = desc, ded_MonthWindowStart = MonthWindowStart now\<rparr>"
  obtain r d where e: "DeductExtraUsage db up req now = (r, d)" by force
  show ?thesis
  proof (cases r)
    case (Inl err)
    then show ?thesis using assms e Deduct_failure[of db up req now err d] unfolding settle_cost_def req_def[symmetric]
      by (cases err) (auto simp: Let_def)
  next
    case (Inr b)
    obtain s where s: "db_settings db (ded_ProjectID req) = Some s" "b = eus_BalanceCredits s - ded_AmountCredits req"
      "d = append_row db s (deduction_row req b now)"
      using Deduct_success[OF e[unfolded Inr]] by blast
    have "balance_of d (ded_ProjectID req) = b" using balance_append[of db s "deduction_row req b now"] s by (simp add: deduction_row_def)
    moreover have "balance_of db (ded_ProjectID req) = eus_BalanceCredits s" using s by (simp add: balance_of_def)
    moreover have "db_txs d = db_txs db @ [deduction_row req b now]" using s by (simp add: append_row_def)
    moreover have "label \<in> {''ok'', ''overdraft''}" "rc' = rc\<lparr>sc_CostCredits := cost, sc_BalanceAfterCredits := b\<rparr>" "db' = d"
      using assms e Inr unfolding settle_cost_def req_def[symmetric] by (auto simp: Let_def)
    ultimately show ?thesis using s(2) by (auto simp: req_def deduction_row_def)
  qed
qed

definition demo_usage :: "int \<Rightarrow> TokenUsage" where
  "demo_usage n = \<lparr>tu_InputTokens = n, tu_OutputTokens = 0, tu_CacheCreationTokens = 0, tu_CacheReadTokens = 0\<rparr>"

abbreviation demo_rate :: CreditRate where
  "demo_rate \<equiv> \<lparr>InputRate = 1, OutputRate = 2, CacheCreationRate = 0, CacheReadRate = 0, LongContext = None\<rparr>"

lemma demo_cost:
  assumes "0 < n" "n \<le> 1000000"
  shows "usage_credits demo_rate (demo_usage n) = of_int n" "computeExtraUsageCostCredits (Some demo_model) (demo_usage n) = Some n"
proof -
  have r: "round64 (of_int n) = of_int n" using assms by (intro round64_of_int) simp
  then show u: "usage_credits demo_rate (demo_usage n) = of_int n" by (simp add: usage_credits_def demo_usage_def go_float_ops)
  have "ceil_int (of_int n) = n" using assms by (simp add: ceil_int_def int_of_float_def is_i64_def int64_max_def int64_min_def)
  then show "computeExtraUsageCostCredits (Some demo_model) (demo_usage n) = Some n"
    using assms u by (simp add: computeExtraUsageCostCredits_def demo_model_def ApplyLongContextCreditRate_def Let_def)
qed

lemma cost_rounds_up_witness: "0 \<le> (3::int) \<and> usage_credits demo_rate (demo_usage 3) \<le> of_int 3"
proof -
  have m: "model_DefaultCreditRate demo_model = Some demo_rate" by (simp add: demo_model_def)
  show ?thesis using cost_rounds_up[OF demo_cost(2)[of 3] m refl] demo_cost(1)[of 3] by (simp add: ApplyLongContextCreditRate_def)
qed


definition demo_settle :: settle_ctx where
  "demo_settle = \<lparr>sc_ProjectID = ''p'', sc_RequestID = ''r'', sc_Model = ''claude'', sc_ModelRef = Some demo_model, sc_RequestKind = ''anthropic_messages'',
     sc_ExtraUsageCtx = Some demo_eu, sc_CostCredits = 0, sc_BalanceAfterCredits = 0\<rparr>"


lemma free_ride_deduct:
  assumes "db_settings db p = Some row" "\<not> eus_BypassBalanceCheck row" "eus_Enabled row" "eus_BalanceCredits row < cost"
    "ded_ProjectID req = p" "ded_AmountCredits req = cost"
  shows "DeductExtraUsage db True req now = (Inl ErrInsufficientBalance, db)"
  using assms by (simp add: DeductExtraUsage_def deduct_allowed_def classifyDeductFailure_def Let_def)

text \<open>A small positive balance is never spent: the guard admits on a positive balance, the deduction wants the
  whole cost, and when the balance does not cover it nothing at all is debited, so the project keeps its
  balance and the next request is admitted and served just the same, without end.\<close>
lemma small_balance_rides_free:
  assumes "db_settings db (proj_ID pr) = Some row" and "\<not> eus_BypassBalanceCheck row" and "eus_Enabled row"
    and "0 < eus_BalanceCredits row" and "eus_MonthlyLimitCredits row = 0"
    and "model_DefaultCreditRate m \<noteq> None" and "0 < price" and "path \<noteq> ''/v1/messages/count_tokens''"
    and "computeExtraUsageCostCredits (Some m) usage = Some cost" and "eus_BalanceCredits row < cost"
    and "sc_ProjectID rc = proj_ID pr" and "sc_ModelRef rc = Some m" and "sc_ExtraUsageCtx rc = Some eu"
  shows "(\<exists>c. ExtraUsageGuardMiddleware True price (\<lambda>_. True) db path (Some reason) (Some pr) (Some m) now = GuardApproved c)
    \<and> snd (snd (settleExtraUsage True db rc usage now)) = db"
proof -
  have "\<exists>c. ExtraUsageGuardMiddleware True price (\<lambda>_. True) db path (Some reason) (Some pr) (Some m) now = GuardApproved c"
    using assms by (simp add: ExtraUsageGuardMiddleware_def GetExtraUsageSettings_def Let_def)
  moreover have "snd (snd (settle_cost True db rc r d cost now)) = db" for r d
    using free_ride_deduct[OF assms(1-3,10)] assms(11) by (simp add: settle_cost_def Let_def)
  then have "snd (snd (settleExtraUsage True db rc usage now)) = db"
    using assms(9,12,13) by (simp add: settleExtraUsage_def)
  ultimately show ?thesis by blast
qed

definition poor_row :: ExtraUsageSettings where
  "poor_row = \<lparr>eus_ProjectID = ''p'', eus_Enabled = True, eus_BalanceCredits = 1,
     eus_MonthlyLimitCredits = 0, eus_BypassBalanceCheck = False\<rparr>"

definition poor_db :: database where "poor_db = demo_db\<lparr>db_settings := [''p'' \<mapsto> poor_row]\<rparr>"

lemma small_balance_rides_free_witness:
  "snd (snd (settleExtraUsage True poor_db demo_settle (demo_usage 500000) 7))
   = poor_db"
  by (rule conjunct2[OF small_balance_rides_free[where row = poor_row and pr = "demo_project ''p''" and m = demo_model and price = 1 and path = "''x''"
        and cost = 500000 and reason = "''r''" and eu = demo_eu]])
     (simp_all add: poor_db_def poor_row_def demo_settle_def demo_project_def demo_model_def demo_cost(2)[unfolded demo_model_def])

text \<open>Image requests on a model without an image rate are free: the guard only asks for the text rate, which
  the image settlement does not use, so a priced-looking model is admitted and its settlement skipped
  whatever the usage, the case the guard's own check is there to refuse.\<close>
lemma image_without_rate_rides_free:
  assumes "db_settings db (proj_ID pr) = Some row" and "eus_Enabled row" and "0 < eus_BalanceCredits row" and "eus_MonthlyLimitCredits row = 0"
    and "model_DefaultCreditRate m \<noteq> None" and "model_DefaultImageCreditRate m = None" and "0 < price"
    and "sc_ModelRef rc = Some m"
  shows "(ExtraUsageGuardMiddleware True price (\<lambda>_. True) db ''/v1/images/generations'' (Some reason) (Some pr) (Some m) now
           = GuardApproved \<lparr>euctx_Reason = reason, euctx_BalanceCreditsAtEntry = eus_BalanceCredits row,
                euctx_MonthlyLimitCredits = 0, euctx_MonthlySpentCredits = 0\<rparr>)
    \<and> snd (snd (settleImageExtraUsage True db rc usage now)) = db"
  using assms
  by (simp add: ExtraUsageGuardMiddleware_def GetExtraUsageSettings_def settleImageExtraUsage_def computeImageExtraUsageCostCredits_def
      computeImageCredits_def Let_def split: option.split)

lemma image_without_rate_rides_free_witness:
  "snd (snd (settleImageExtraUsage True poor_db demo_settle
     \<lparr>itu_InputTokens = 9, itu_OutputTokens = 9, itu_TotalTokens = 18, itu_TextInputTokens = 9, itu_ImageInputTokens = 0,
      itu_CachedInputTokens = 0, itu_TextOutputTokens = 0, itu_ImageOutputTokens = 9\<rparr> 7))
   = poor_db"
  by (rule conjunct2[OF image_without_rate_rides_free[where row = poor_row and pr = "demo_project ''p''" and m = demo_model and price = 1 and reason = "''r''"]])
     (simp_all add: poor_db_def poor_row_def demo_settle_def demo_project_def demo_model_def)

end
