(* ===== verification/LoadBalancer.thy ===== *)
theory LoadBalancer
  imports Types "HOL-Library.Product_Lexorder"
begin

text \<open>
  Package proxy/lb: the balancer with its three policies (balancer.go), the connection tracker
  (connection_tracker.go) and the outcome counters (metrics.go). A panic is None. The round-robin
  counter is a 64-bit word; math/rand is a parameter: \<^term>\<open>draws i t\<close> is the result of the i-th call
  of rand.Intn, whose documented contract is a value in [0, t).
\<close>

section \<open>Candidates and selection\<close>

record CandidateInfo =
  ci_Upstream :: Upstream
  ci_Weight :: int
  ci_IsBackup :: bool
  ci_ActiveConns :: int

record Balancer =
  bal_policy :: string
  bal_counter :: "64 word"
  bal_draws :: nat

definition NewBalancer :: "string \<Rightarrow> Balancer" where
  "NewBalancer policy = \<lparr>bal_policy = policy, bal_counter = 0, bal_draws = 0\<rparr>"

type_synonym pick_result = "((Upstream option \<times> int) \<times> Balancer) option"

definition effective_weight :: "CandidateInfo \<Rightarrow> int" where
  "effective_weight c = (if ci_Weight c \<le> 0 then 1 else ci_Weight c)"

definition total_weight :: "CandidateInfo list \<Rightarrow> int" where
  "total_weight cs = foldl (\<lambda>t c. i64 (t + effective_weight c)) 0 cs"

text \<open>The cumulative scan; the fallback after the loop is the last candidate.\<close>
fun weighted_scan :: "int \<Rightarrow> int \<Rightarrow> int \<Rightarrow> CandidateInfo list \<Rightarrow> (CandidateInfo \<times> int) option" where
  "weighted_scan r cumulative i [] = None"
| "weighted_scan r cumulative i (c # cs) =
     (let cum = i64 (cumulative + effective_weight c) in
      if r < cum then Some (c, i) else weighted_scan r cum (i + 1) cs)"

definition weightedRandomIdx :: "(nat \<Rightarrow> int \<Rightarrow> int) \<Rightarrow> Balancer \<Rightarrow> CandidateInfo list \<Rightarrow> pick_result" where
  "weightedRandomIdx draws b candidates =
     (let totalWeight = total_weight candidates in
      if totalWeight = 0 then Some ((None, -1), b)
      else if totalWeight < 0 then None
      else
        let r = draws (bal_draws b) totalWeight; b' = b\<lparr>bal_draws := Suc (bal_draws b)\<rparr> in
        (case weighted_scan r 0 0 candidates of
           Some (c, i) \<Rightarrow> Some ((Some (ci_Upstream c), i), b')
         | None \<Rightarrow> Some ((Some (ci_Upstream (last candidates)), int (length candidates) - 1), b')))"

text \<open>\<open>int(counter.Add(1)-1) % len\<close>: the conversion reinterprets the sign bit, Go's remainder has the
  sign of the dividend, and a negative index panics.\<close>
definition roundRobinIdx :: "Balancer \<Rightarrow> CandidateInfo list \<Rightarrow> pick_result" where
  "roundRobinIdx b candidates =
     (if candidates = [] then None
      else
        let v = sint (bal_counter b); l = int (length candidates);
            idx = (if 0 \<le> v then v mod l else - ((- v) mod l));
            b' = b\<lparr>bal_counter := bal_counter b + 1\<rparr>
        in if idx < 0 then None else Some ((Some (ci_Upstream (candidates ! nat idx)), idx), b'))"

fun least_conn_scan :: "nat \<Rightarrow> int \<Rightarrow> int \<Rightarrow> nat \<Rightarrow> CandidateInfo list \<Rightarrow> nat" where
  "least_conn_scan bestIdx bestConns bestWeight i [] = bestIdx"
| "least_conn_scan bestIdx bestConns bestWeight i (c # cs) =
     (if ci_ActiveConns c < bestConns \<or> (ci_ActiveConns c = bestConns \<and> ci_Weight c > bestWeight)
      then least_conn_scan i (ci_ActiveConns c) (ci_Weight c) (Suc i) cs
      else least_conn_scan bestIdx bestConns bestWeight (Suc i) cs)"

definition leastConnIdx :: "Balancer \<Rightarrow> CandidateInfo list \<Rightarrow> pick_result" where
  "leastConnIdx b candidates =
     (case candidates of
        [] \<Rightarrow> None
      | c # cs \<Rightarrow>
          (let best = least_conn_scan 0 (ci_ActiveConns c) (ci_Weight c) 1 cs in
           Some ((Some (ci_Upstream (candidates ! best)), int best), b)))"

definition policy_pick :: "(nat \<Rightarrow> int \<Rightarrow> int) \<Rightarrow> Balancer \<Rightarrow> CandidateInfo list \<Rightarrow> pick_result" where
  "policy_pick draws b cs =
     (if bal_policy b = ''round_robin'' then roundRobinIdx b cs
      else if bal_policy b = ''least_conn'' then leastConnIdx b cs
      else weightedRandomIdx draws b cs)"

definition lb_Select :: "(nat \<Rightarrow> int \<Rightarrow> int) \<Rightarrow> Balancer \<Rightarrow> CandidateInfo list \<Rightarrow> (Upstream option \<times> Balancer) option" where
  "lb_Select draws b candidates =
     (if candidates = [] then Some (None, b)
      else map_option (\<lambda>((u, _), b'). (u, b')) (policy_pick draws b candidates))"

definition remove_nth :: "nat \<Rightarrow> 'a list \<Rightarrow> 'a list" where
  "remove_nth i xs = take i xs @ drop (Suc i) xs"

text \<open>The loop of SelectN: k iterations are left.\<close>
fun selectN_loop ::
  "(Balancer \<Rightarrow> CandidateInfo list \<Rightarrow> pick_result) \<Rightarrow> nat \<Rightarrow> Balancer \<Rightarrow> CandidateInfo list \<Rightarrow> Upstream list
   \<Rightarrow> (Upstream list \<times> Balancer) option" where
  "selectN_loop pick 0 b remaining result = Some (result, b)"
| "selectN_loop pick (Suc k) b remaining result =
     (if remaining = [] then Some (result, b)
      else (case pick b remaining of
              None \<Rightarrow> None
            | Some ((None, _), b') \<Rightarrow> selectN_loop pick k b' remaining result
            | Some ((Some u, i), b') \<Rightarrow> selectN_loop pick k b' (remove_nth (nat i) remaining) (result @ [u])))"

text \<open>A negative n makes the allocation of the result panic.\<close>
definition SelectN ::
  "(nat \<Rightarrow> int \<Rightarrow> int) \<Rightarrow> Balancer \<Rightarrow> CandidateInfo list \<Rightarrow> int \<Rightarrow> (Upstream list \<times> Balancer) option" where
  "SelectN draws b candidates n =
     (if candidates = [] then Some ([], b)
      else
        let n' = (if n > int (length candidates) then int (length candidates) else n) in
        if n' < 0 then None else selectN_loop (policy_pick draws) (nat n') b candidates [])"

section \<open>Connection tracking\<close>

type_synonym ConnectionTracker = "string \<rightharpoonup> int"

definition getOrCreate :: "ConnectionTracker \<Rightarrow> string \<Rightarrow> ConnectionTracker \<times> int" where
  "getOrCreate ct u = (case ct u of Some v \<Rightarrow> (ct, v) | None \<Rightarrow> (ct(u \<mapsto> 0), 0))"

definition Acquire :: "ConnectionTracker \<Rightarrow> string \<Rightarrow> ConnectionTracker" where
  "Acquire ct u = (case getOrCreate ct u of (ct', v) \<Rightarrow> ct'(u \<mapsto> i64 (v + 1)))"

text \<open>Without interference the compare-and-swap succeeds at once; the interleaved version is below.\<close>
definition Release :: "ConnectionTracker \<Rightarrow> string \<Rightarrow> ConnectionTracker" where
  "Release ct u = (case getOrCreate ct u of (ct', cur) \<Rightarrow> if cur \<le> 0 then ct' else ct'(u \<mapsto> cur - 1))"

definition Count :: "ConnectionTracker \<Rightarrow> string \<Rightarrow> ConnectionTracker \<times> int" where
  "Count ct u = getOrCreate ct u"

text \<open>One counter under concurrency: each goroutine in Release is at the head of its loop, or has loaded
  a positive value and is about to compare-and-swap, or has returned.\<close>
datatype release_pc = AtLoad | AtCAS int | Returned

record counter_conf =
  cc_count :: int
  cc_pcs :: "release_pc list"

inductive release_step :: "counter_conf \<Rightarrow> counter_conf \<Rightarrow> bool" where
  acquire: "cc_count s < int64_max \<Longrightarrow> release_step s (s\<lparr>cc_count := cc_count s + 1\<rparr>)"
| enter: "release_step s (s\<lparr>cc_pcs := cc_pcs s @ [AtLoad]\<rparr>)"
| load_zero: "t < length (cc_pcs s) \<Longrightarrow> cc_pcs s ! t = AtLoad \<Longrightarrow> cc_count s \<le> 0 \<Longrightarrow>
    release_step s (s\<lparr>cc_pcs := (cc_pcs s)[t := Returned]\<rparr>)"
| load_pos: "t < length (cc_pcs s) \<Longrightarrow> cc_pcs s ! t = AtLoad \<Longrightarrow> 0 < cc_count s \<Longrightarrow>
    release_step s (s\<lparr>cc_pcs := (cc_pcs s)[t := AtCAS (cc_count s)]\<rparr>)"
| cas_ok: "t < length (cc_pcs s) \<Longrightarrow> cc_pcs s ! t = AtCAS cur \<Longrightarrow> cc_count s = cur \<Longrightarrow>
    release_step s (s\<lparr>cc_count := cur - 1, cc_pcs := (cc_pcs s)[t := Returned]\<rparr>)"
| cas_fail: "t < length (cc_pcs s) \<Longrightarrow> cc_pcs s ! t = AtCAS cur \<Longrightarrow> cc_count s \<noteq> cur \<Longrightarrow>
    release_step s (s\<lparr>cc_pcs := (cc_pcs s)[t := AtLoad]\<rparr>)"

inductive_cases release_stepE: "release_step s s'"

section \<open>Outcome counters\<close>

record UpstreamStats =
  us_TotalRequests :: int
  us_RecentErrors :: int
  us_ConsecutiveFails :: int
  us_LastErrorAt :: "go_time option"
  us_LastSuccessAt :: "go_time option"

type_synonym UpstreamMetrics = "string \<rightharpoonup> UpstreamStats"

definition empty_stats :: UpstreamStats where
  "empty_stats = \<lparr>us_TotalRequests = 0, us_RecentErrors = 0, us_ConsecutiveFails = 0,
     us_LastErrorAt = None, us_LastSuccessAt = None\<rparr>"

definition stats_getOrCreate :: "UpstreamMetrics \<Rightarrow> string \<Rightarrow> UpstreamStats" where
  "stats_getOrCreate m u = (case m u of Some s \<Rightarrow> s | None \<Rightarrow> empty_stats)"

definition RecordSuccess :: "UpstreamMetrics \<Rightarrow> string \<Rightarrow> go_time \<Rightarrow> UpstreamMetrics" where
  "RecordSuccess m u now =
     (let s = stats_getOrCreate m u in
      m(u \<mapsto> s\<lparr>us_TotalRequests := i64 (us_TotalRequests s + 1), us_ConsecutiveFails := 0,
              us_LastSuccessAt := Some now\<rparr>))"

definition RecordError :: "UpstreamMetrics \<Rightarrow> string \<Rightarrow> go_time \<Rightarrow> UpstreamMetrics" where
  "RecordError m u now =
     (let s = stats_getOrCreate m u in
      m(u \<mapsto> s\<lparr>us_TotalRequests := i64 (us_TotalRequests s + 1), us_RecentErrors := i64 (us_RecentErrors s + 1),
              us_ConsecutiveFails := i64 (us_ConsecutiveFails s + 1), us_LastErrorAt := Some now\<rparr>))"

definition GetStats :: "UpstreamMetrics \<Rightarrow> string \<Rightarrow> UpstreamStats option" where
  "GetStats m u = m u"

section \<open>Weighted scan\<close>

definition weight_sum :: "CandidateInfo list \<Rightarrow> int" where
  "weight_sum cs = sum_list (map effective_weight cs)"

definition weights_fit :: "CandidateInfo list \<Rightarrow> bool" where
  "weights_fit cs = (weight_sum cs \<le> int64_max)"

lemma effective_weight_pos [simp]: "0 < effective_weight c"
  by (simp add: effective_weight_def)

lemma weight_sum_simps [simp]:
  "weight_sum [] = 0" "weight_sum (c # cs) = effective_weight c + weight_sum cs"
  "weight_sum (xs @ ys) = weight_sum xs + weight_sum ys"
  by (simp_all add: weight_sum_def)

lemma weight_sum_nonneg [simp]: "0 \<le> weight_sum cs"
  by (induction cs) (auto simp: less_imp_le)

lemma weight_sum_pos: "cs \<noteq> [] \<Longrightarrow> 0 < weight_sum cs"
  using weight_sum_nonneg[of "tl cs"] effective_weight_pos[of "hd cs"]
  by (cases cs) (simp_all add: add_pos_nonneg del: weight_sum_nonneg effective_weight_pos)

lemma total_weight_sum: "weights_fit cs \<Longrightarrow> total_weight cs = weight_sum cs"
proof -
  have "0 \<le> t \<Longrightarrow> t + weight_sum cs \<le> int64_max \<Longrightarrow>
      foldl (\<lambda>t c. i64 (t + effective_weight c)) t cs = t + weight_sum cs" for t
  proof (induction cs arbitrary: t)
    case (Cons c cs)
    have "0 \<le> t + effective_weight c" "t + effective_weight c \<le> int64_max"
      using Cons.prems weight_sum_nonneg[of cs] effective_weight_pos[of c] unfolding weight_sum_simps by linarith+
    then show ?case using Cons.IH[of "t + effective_weight c"] Cons.prems by (simp add: int64_simps)
  qed simp
  then show "weights_fit cs \<Longrightarrow> total_weight cs = weight_sum cs"
    by (simp add: total_weight_def weights_fit_def)
qed

lemma weighted_scan_spec:
  assumes "0 \<le> acc" "acc + weight_sum cs \<le> int64_max" "acc \<le> r" "r < acc + weight_sum cs"
  shows "\<exists>j < length cs. weighted_scan r acc i cs = Some (cs ! j, i + int j)
    \<and> acc + weight_sum (take j cs) \<le> r \<and> r < acc + weight_sum (take (Suc j) cs)"
  using assms
proof (induction cs arbitrary: acc i)
  case (Cons c cs)
  let ?a = "acc + effective_weight c"
  have a: "0 \<le> ?a" "?a \<le> int64_max" "i64 ?a = ?a"
    using Cons.prems weight_sum_nonneg[of cs] effective_weight_pos[of c] unfolding weight_sum_simps
    by (simp_all add: int64_simps del: weight_sum_nonneg effective_weight_pos)
  show ?case
  proof (cases "r < ?a")
    case True
    then show ?thesis using Cons.prems a by (intro exI[of _ 0]) simp
  next
    case False
    then obtain j where "j < length cs" "weighted_scan r ?a (i + 1) cs = Some (cs ! j, i + 1 + int j)"
        "?a + weight_sum (take j cs) \<le> r" "r < ?a + weight_sum (take (Suc j) cs)"
      using Cons.IH[of ?a "i + 1"] Cons.prems a by (auto simp: algebra_simps)
    then show ?thesis using False a by (intro exI[of _ "Suc j"]) (simp add: algebra_simps)
  qed
qed simp

lemma weight_sum_take_mono: "i \<le> j \<Longrightarrow> weight_sum (take i cs) \<le> weight_sum (take j cs)"
proof -
  assume "i \<le> j"
  then have "take j cs = take i cs @ take (j - i) (drop i cs)" by (metis le_add_diff_inverse take_add)
  then show ?thesis using weight_sum_nonneg[of "take (j - i) (drop i cs)"] by simp
qed

lemma weighted_scan_iff:
  assumes "weights_fit cs" "0 \<le> r" "r < weight_sum cs" "j < length cs"
  shows "weighted_scan r 0 0 cs = Some (cs ! j, int j)
    \<longleftrightarrow> weight_sum (take j cs) \<le> r \<and> r < weight_sum (take (Suc j) cs)"
proof -
  obtain i where i: "i < length cs" "weighted_scan r 0 0 cs = Some (cs ! i, int i)"
      "weight_sum (take i cs) \<le> r" "r < weight_sum (take (Suc i) cs)"
    using weighted_scan_spec[of 0 cs r 0] assms by (auto simp: weights_fit_def)
  have "i = j" if "weight_sum (take j cs) \<le> r" "r < weight_sum (take (Suc j) cs)"
  proof (rule ccontr)
    assume "i \<noteq> j"
    then consider "Suc i \<le> j" | "Suc j \<le> i" by linarith
    then show False using i(3,4) that weight_sum_take_mono[of "Suc i" j cs] weight_sum_take_mono[of "Suc j" i cs]
      by cases linarith+
  qed
  then show ?thesis using i by auto
qed

section \<open>The selection contract\<close>

text \<open>
  What SelectN relies on from a policy: on a non-empty pool it picks a valid position and returns the
  upstream at it; \<^term>\<open>ready k\<close> says the balancer can serve k more picks.
\<close>

locale selection_policy =
  fixes pick :: "Balancer \<Rightarrow> CandidateInfo list \<Rightarrow> pick_result"
    and ready :: "nat \<Rightarrow> Balancer \<Rightarrow> bool"
    and fits :: "CandidateInfo list \<Rightarrow> bool"
  assumes pick_some: "cs \<noteq> [] \<Longrightarrow> fits cs \<Longrightarrow> ready (Suc k) b \<Longrightarrow>
      \<exists>i b'. pick b cs = Some ((Some (ci_Upstream (cs ! i)), int i), b') \<and> i < length cs \<and> ready k b'"
    and fits_remove: "i < length cs \<Longrightarrow> fits cs \<Longrightarrow> fits (remove_nth i cs)"
    and ready_mono: "ready (Suc k) b \<Longrightarrow> ready k b"
begin

lemma ready_less: "ready (k + j) b \<Longrightarrow> ready j b"
  by (induction k) (auto dest: ready_mono)

lemma loop_selects:
  assumes "ready (k + j) b" "fits cs"
  shows "\<exists>sel rest b'. selectN_loop pick k b cs acc = Some (acc @ map ci_Upstream sel, b')
    \<and> mset sel + mset rest = mset cs \<and> length sel = min k (length cs) \<and> ready j b'"
  using assms
proof (induction k arbitrary: b cs acc)
  case 0 then show ?case by (intro exI[of _ "[]"] exI[of _ cs]) simp
next
  case (Suc k)
  show ?case
  proof (cases "cs = []")
    case True then show ?thesis using ready_less[OF Suc.prems(1)] by (intro exI[of _ "[]"]) simp
  next
    case False
    obtain i b' where i: "pick b cs = Some ((Some (ci_Upstream (cs ! i)), int i), b')" "i < length cs" "ready (k + j) b'"
      using pick_some[OF False Suc.prems(2) Suc.prems(1)[unfolded add_Suc]] by blast
    have m: "mset cs = {#cs ! i#} + mset (remove_nth i cs)"
      using i(2) by (subst id_take_nth_drop[OF i(2)]) (simp add: remove_nth_def)
    obtain sel rest b'' where s:
        "selectN_loop pick k b' (remove_nth i cs) (acc @ [ci_Upstream (cs ! i)])
           = Some ((acc @ [ci_Upstream (cs ! i)]) @ map ci_Upstream sel, b'')"
        "mset sel + mset rest = mset (remove_nth i cs)" "length sel = min k (length (remove_nth i cs))" "ready j b''"
      using Suc.IH[OF i(3) fits_remove[OF i(2) Suc.prems(2)]] by blast
    have "length cs = Suc (length (remove_nth i cs))"
      using m by (metis add.commute plus_1_eq_Suc size_mset size_single size_union)
    then show ?thesis
      using False i s m by (intro exI[of _ "cs ! i # sel"] exI[of _ rest] exI[of _ b'']) simp
  qed
qed

end

lemma weight_sum_remove: "i < length cs \<Longrightarrow> weight_sum cs = effective_weight (cs ! i) + weight_sum (remove_nth i cs)"
  by (subst id_take_nth_drop) (simp_all add: remove_nth_def algebra_simps)

lemma weights_fit_remove: "i < length cs \<Longrightarrow> weights_fit cs \<Longrightarrow> weights_fit (remove_nth i cs)"
  using weight_sum_remove[of i cs] effective_weight_pos[of "cs ! i"] unfolding weights_fit_def by linarith

definition intn_ok :: "(nat \<Rightarrow> int \<Rightarrow> int) \<Rightarrow> bool" where
  "intn_ok draws = (\<forall>i t. 0 < t \<longrightarrow> 0 \<le> draws i t \<and> draws i t < t)"

lemma weightedRandom_pick:
  assumes "cs \<noteq> []" "weights_fit cs" "intn_ok draws"
  shows "\<exists>i. weightedRandomIdx draws b cs
      = Some ((Some (ci_Upstream (cs ! i)), int i), b\<lparr>bal_draws := Suc (bal_draws b)\<rparr>) \<and> i < length cs
    \<and> weighted_scan (draws (bal_draws b) (weight_sum cs)) 0 0 cs = Some (cs ! i, int i)"
proof -
  let ?r = "draws (bal_draws b) (weight_sum cs)"
  have r: "0 \<le> ?r" "?r < weight_sum cs" using assms weight_sum_pos by (simp_all add: intn_ok_def)
  obtain i where "i < length cs" "weighted_scan ?r 0 0 cs = Some (cs ! i, int i)"
    using weighted_scan_spec[of 0 cs ?r 0] r assms(2) by (auto simp: weights_fit_def)
  then show ?thesis using weight_sum_pos[OF assms(1)]
    by (auto simp: weightedRandomIdx_def total_weight_sum[OF assms(2)] Let_def)
qed

lemma sint_small: "uint (w :: 64 word) < 2 ^ 63 \<Longrightarrow> sint w = uint w"
proof -
  have "0 \<le> uint w" by simp
  then have "- 9223372036854775808 \<le> uint w" by linarith
  then show "uint w < 2 ^ 63 \<Longrightarrow> sint w = uint w" by (simp add: sint_uint signed_take_bit_int_eq_self_iff)
qed

lemma roundRobin_pick:
  assumes "cs \<noteq> []" "uint (bal_counter b) < 2 ^ 63"
  shows "roundRobinIdx b cs = Some ((Some (ci_Upstream (cs ! (nat (uint (bal_counter b)) mod length cs))),
      int (nat (uint (bal_counter b)) mod length cs)), b\<lparr>bal_counter := bal_counter b + 1\<rparr>)"
proof -
  have "sint (bal_counter b) = int (nat (uint (bal_counter b)))" by (simp add: sint_small[OF assms(2)])
  moreover have "int (nat (uint (bal_counter b))) mod int (length cs) = int (nat (uint (bal_counter b)) mod length cs)"
    by (simp only: zmod_int)
  ultimately show ?thesis using assms(1) by (simp add: roundRobinIdx_def Let_def)
qed

lemma uint_counter_Suc: "uint (w :: 64 word) + int (Suc k) \<le> 2 ^ 63 \<Longrightarrow> uint (w + 1) = uint w + 1"
  by (simp add: uint_word_ariths)

lemma least_conn_scan_bound: "best < n \<Longrightarrow> least_conn_scan best bc bw n cs < n + length cs"
proof (induction cs arbitrary: best bc bw n)
  case (Cons c cs)
  show ?case using Cons.IH[of n "Suc n"] Cons.IH[of best "Suc n"] Cons.prems by auto
qed simp

lemma leastConn_pick:
  "cs \<noteq> [] \<Longrightarrow> \<exists>i. leastConnIdx b cs = Some ((Some (ci_Upstream (cs ! i)), int i), b) \<and> i < length cs"
  using least_conn_scan_bound[of 0 1] by (cases cs) (auto simp: leastConnIdx_def Let_def)

interpretation wr: selection_policy "weightedRandomIdx draws" "\<lambda>k b. intn_ok draws" weights_fit for draws
proof unfold_locales
  fix cs b assume "cs \<noteq> []" "weights_fit cs" "intn_ok draws"
  then show "\<exists>i b'. weightedRandomIdx draws b cs = Some ((Some (ci_Upstream (cs ! i)), int i), b')
      \<and> i < length cs \<and> intn_ok draws"
    using weightedRandom_pick by blast
qed (auto intro: weights_fit_remove)

interpretation lc: selection_policy leastConnIdx "\<lambda>k b. True" "\<lambda>cs. True"
  using leastConn_pick by unfold_locales blast+

interpretation rr: selection_policy roundRobinIdx "\<lambda>k b. uint (bal_counter b) + int k \<le> 2 ^ 63" "\<lambda>cs. True"
proof unfold_locales
  fix cs :: "CandidateInfo list" and k and b :: Balancer
  assume cs: "cs \<noteq> []" and r: "uint (bal_counter b) + int (Suc k) \<le> 2 ^ 63"
  then have "uint (bal_counter b) < 2 ^ 63" by simp
  from roundRobin_pick[OF cs this] uint_counter_Suc[OF r] r cs
  show "\<exists>i b'. roundRobinIdx b cs = Some ((Some (ci_Upstream (cs ! i)), int i), b')
      \<and> i < length cs \<and> uint (bal_counter b') + int k \<le> 2 ^ 63" by simp
qed (simp, linarith)

text \<open>The three policies behind SelectN.\<close>
definition bal_ready :: "(nat \<Rightarrow> int \<Rightarrow> int) \<Rightarrow> nat \<Rightarrow> Balancer \<Rightarrow> bool" where
  "bal_ready draws k b =
     (if bal_policy b = ''round_robin'' then uint (bal_counter b) + int k \<le> 2 ^ 63
      else if bal_policy b = ''least_conn'' then True else intn_ok draws)"

interpretation pol: selection_policy "policy_pick draws" "bal_ready draws" weights_fit for draws
proof unfold_locales
  fix cs :: "CandidateInfo list" and k and b :: Balancer
  assume cs: "cs \<noteq> []" "weights_fit cs" and r: "bal_ready draws (Suc k) b"
  show "\<exists>i b'. policy_pick draws b cs = Some ((Some (ci_Upstream (cs ! i)), int i), b')
      \<and> i < length cs \<and> bal_ready draws k b'"
  proof (cases "bal_policy b = ''round_robin''")
    case True
    then have "uint (bal_counter b) + int (Suc k) \<le> 2 ^ 63" using r by (simp add: bal_ready_def)
    moreover from this have "uint (bal_counter b) < 2 ^ 63" by simp
    ultimately show ?thesis
      using roundRobin_pick[OF cs(1)] uint_counter_Suc[of "bal_counter b" k] True cs(1)
      by (simp add: policy_pick_def bal_ready_def)
  next
    case False
    then show ?thesis
      using leastConn_pick[OF cs(1), of b] weightedRandom_pick[OF cs, of draws b] r
      by (fastforce simp: policy_pick_def bal_ready_def)
  qed
qed (auto intro: weights_fit_remove simp: bal_ready_def split: if_splits)

text \<open>SelectN serves, and leaves the balancer ready for j more picks.\<close>
lemma SelectN_serves:
  assumes "bal_ready draws (nat n + j) b" and "weights_fit cs" and "0 \<le> n"
  shows "\<exists>sel rest b'. SelectN draws b cs n = Some (map ci_Upstream sel, b')
    \<and> mset sel + mset rest = mset cs \<and> length sel = min (nat n) (length cs) \<and> bal_ready draws j b'"
proof (cases "cs = []")
  case True then show ?thesis using pol.ready_less[OF assms(1)] by (simp add: SelectN_def)
next
  case False
  define m where "m = (if n > int (length cs) then int (length cs) else n)"
  have m: "0 \<le> m" "nat m \<le> nat n" "min (nat m) (length cs) = min (nat n) (length cs)"
    using assms(3) by (auto simp: m_def)
  have "bal_ready draws (nat m + j) b"
    using assms(1) m(2) by (auto simp: bal_ready_def split: if_splits)
  from pol.loop_selects[OF this assms(2), of "[]"] m(3)
  obtain sel rest b' where "selectN_loop (policy_pick draws) (nat m) b cs [] = Some (map ci_Upstream sel, b')"
      "mset sel + mset rest = mset cs" "length sel = min (nat n) (length cs)" "bal_ready draws j b'"
    by auto
  then show ?thesis using False m(1) by (auto simp: SelectN_def Let_def m_def)
qed

lemma SelectN_selects:
  assumes "bal_ready draws (nat n) b" and "weights_fit cs" and "0 \<le> n"
  shows "\<exists>sel rest b'. SelectN draws b cs n = Some (map ci_Upstream sel, b')
    \<and> mset sel + mset rest = mset cs \<and> length sel = min (nat n) (length cs)"
  using SelectN_serves[of draws n 0 b cs] assms by auto

lemma weights_fit_filter: "weights_fit cs \<Longrightarrow> weights_fit (filter P cs)"
proof -
  have "weight_sum (filter P cs) \<le> weight_sum cs" by (induction cs) (auto simp: less_imp_le add_increasing)
  then show "weights_fit cs \<Longrightarrow> weights_fit (filter P cs)" by (simp add: weights_fit_def)
qed

lemma lb_Select_some:
  "cs \<noteq> [] \<Longrightarrow> weights_fit cs \<Longrightarrow> bal_ready draws (Suc k) b \<Longrightarrow>
     \<exists>i b'. lb_Select draws b cs = Some (Some (ci_Upstream (cs ! i)), b') \<and> i < length cs \<and> bal_ready draws k b'"
  using pol.pick_some[of cs draws k b] by (auto simp: lb_Select_def)

section \<open>Properties of the balancer\<close>

text \<open>SelectN never panics and never repeats a candidate: whatever the policy, it returns the
  upstreams of min(n, number of candidates) candidates, each candidate used at most once; asking for
  all of them yields a permutation. Assumed: the round-robin counter has not yet reached 2^63,
  rand.Intn meets its contract, and the weights do not overflow an int.\<close>
lemma SelectN_distinct:
  assumes "bal_ready draws (nat n) b" and "weights_fit cs" and "0 \<le> n"
  shows "\<exists>sel rest b'. SelectN draws b cs n = Some (map ci_Upstream sel, b')
    \<and> mset sel + mset rest = mset cs \<and> length sel = min (nat n) (length cs)"
  using SelectN_selects[OF assms] .

definition sample_upstream :: "string \<Rightarrow> Upstream" where
  "sample_upstream i = \<lparr>up_ID = i, up_Provider = ''anthropic'', up_Name = i, up_BaseURL = '''', up_APIKeyEncrypted = [],
     up_ProxyMode = '''', up_SocksProxyURL = '''', up_SupportedModels = [''m''], up_ModelMap = None, up_Weight = 1,
     up_MaxConcurrent = 0, up_ReadTimeout = 0, up_TestModel = '''', up_Status = ''active''\<rparr>"

definition sample_candidate :: "string \<Rightarrow> int \<Rightarrow> int \<Rightarrow> CandidateInfo" where
  "sample_candidate i w a = \<lparr>ci_Upstream = sample_upstream i, ci_Weight = w, ci_IsBackup = False, ci_ActiveConns = a\<rparr>"

lemma SelectN_distinct_witness:
  "\<exists>sel rest b'. SelectN (\<lambda>i t. t - 1) (NewBalancer ''weighted_random'') [sample_candidate ''a'' 3 0, sample_candidate ''b'' 0 0] 2
      = Some (map ci_Upstream sel, b')
    \<and> mset sel + mset rest = mset [sample_candidate ''a'' 3 0, sample_candidate ''b'' 0 0] \<and> length sel = 2"
  using SelectN_distinct[of "\<lambda>i t. t - 1" 2 "NewBalancer ''weighted_random''"
      "[sample_candidate ''a'' 3 0, sample_candidate ''b'' 0 0]"]
  by (simp add: bal_ready_def NewBalancer_def intn_ok_def weights_fit_def effective_weight_def sample_candidate_def
      int64_max_def numeral_2_eq_2)

text \<open>Weighted random selection is fair by weight: of the equally likely values of the random draw,
  exactly as many select candidate j as its effective weight (a weight of 0 or less counts as 1).\<close>
lemma weighted_random_fair:
  assumes "weights_fit cs" and "j < length cs"
  shows "card {r. 0 \<le> r \<and> r < total_weight cs \<and> weighted_scan r 0 0 cs = Some (cs ! j, int j)}
    = nat (effective_weight (cs ! j))"
proof -
  have le: "weight_sum (take (Suc j) cs) \<le> weight_sum cs"
    using weight_sum_take_mono[of "Suc j" "length cs" cs] assms(2) by simp
  have ge: "weight_sum (take j cs) \<le> x \<Longrightarrow> 0 \<le> x" for x
    using weight_sum_nonneg[of "take j cs"] by linarith
  have "{r. 0 \<le> r \<and> r < total_weight cs \<and> weighted_scan r 0 0 cs = Some (cs ! j, int j)}
      = {weight_sum (take j cs)..<weight_sum (take (Suc j) cs)}"
    using weighted_scan_iff[OF assms(1) _ _ assms(2)] le
    by (auto simp: total_weight_sum[OF assms(1)] dest: ge) (metis ge less_le_trans)+
  moreover have "weight_sum (take (Suc j) cs) - weight_sum (take j cs) = effective_weight (cs ! j)"
    using assms(2) by (simp add: take_Suc_conv_app_nth)
  ultimately show ?thesis by simp
qed

lemma weighted_random_fair_witness:
  "card {r. 0 \<le> r \<and> r < total_weight [sample_candidate ''a'' 3 0, sample_candidate ''b'' 0 0]
      \<and> weighted_scan r 0 0 [sample_candidate ''a'' 3 0, sample_candidate ''b'' 0 0] = Some (sample_candidate ''a'' 3 0, int 0)} = 3"
  using weighted_random_fair[of "[sample_candidate ''a'' 3 0, sample_candidate ''b'' 0 0]" 0]
  by (simp add: weights_fit_def effective_weight_def sample_candidate_def int64_max_def)

lemma least_conn_scan_best:
  assumes "best < n" "cs = pre @ rest" "length pre = n"
    "bc = ci_ActiveConns (cs ! best)" "bw = ci_Weight (cs ! best)"
    "\<And>j. j < n \<Longrightarrow> (bc, - bw, best) \<le> (ci_ActiveConns (cs ! j), - ci_Weight (cs ! j), j)"
  defines "m \<equiv> least_conn_scan best bc bw n rest"
  shows "m < length cs \<and> (\<forall>j < length cs. (ci_ActiveConns (cs ! m), - ci_Weight (cs ! m), m)
      \<le> (ci_ActiveConns (cs ! j), - ci_Weight (cs ! j), j))"
  using assms(1-6) unfolding m_def
proof (induction rest arbitrary: best bc bw n pre)
  case (Cons c rest)
  let ?P = "\<lambda>m. \<forall>j < length cs. (ci_ActiveConns (cs ! m), - ci_Weight (cs ! m), m)
      \<le> (ci_ActiveConns (cs ! j), - ci_Weight (cs ! j), j)"
  have c: "cs ! n = c" using Cons.prems(2,3) by (simp add: nth_append)
  have p: "cs = (pre @ [c]) @ rest" "length (pre @ [c]) = Suc n" using Cons.prems(2,3) by simp_all
  show ?case
  proof (cases "ci_ActiveConns c < bc \<or> (ci_ActiveConns c = bc \<and> ci_Weight c > bw)")
    case True
    have "j < Suc n \<Longrightarrow> (ci_ActiveConns c, - ci_Weight c, n) \<le> (ci_ActiveConns (cs ! j), - ci_Weight (cs ! j), j)" for j
      using Cons.prems(6)[of j] True c by (cases "j = n") (auto simp: less_Suc_eq)
    then have "least_conn_scan n (ci_ActiveConns c) (ci_Weight c) (Suc n) rest < length cs \<and> ?P (least_conn_scan n (ci_ActiveConns c) (ci_Weight c) (Suc n) rest)"
      using p c by (intro Cons.IH[of n "Suc n" "pre @ [c]" "ci_ActiveConns c" "ci_Weight c"]) simp_all
    then show ?thesis using True by simp
  next
    case False
    have "j < Suc n \<Longrightarrow> (bc, - bw, best) \<le> (ci_ActiveConns (cs ! j), - ci_Weight (cs ! j), j)" for j
      using Cons.prems(1) Cons.prems(6)[of j] False c by (cases "j = n") (auto simp: less_Suc_eq)
    then have "least_conn_scan best bc bw (Suc n) rest < length cs \<and> ?P (least_conn_scan best bc bw (Suc n) rest)"
      using p Cons.prems(1,4,5) by (intro Cons.IH[of best "Suc n" "pre @ [c]" bc bw]) simp_all
    then show ?thesis unfolding least_conn_scan.simps if_not_P[OF False] .
  qed
qed simp

text \<open>Least_conn picks the first candidate among those with the fewest active connections and, of
  these, the highest weight: its (connections, -weight, position) is the lexicographic minimum.\<close>
lemma least_conn_minimal:
  "case leastConnIdx b cs of
     None \<Rightarrow> cs = []
   | Some ((u, i), b') \<Rightarrow> b' = b \<and> 0 \<le> i \<and> nat i < length cs \<and> u = Some (ci_Upstream (cs ! nat i))
       \<and> (ci_ActiveConns (cs ! nat i), - ci_Weight (cs ! nat i), nat i)
           = Min ((\<lambda>j. (ci_ActiveConns (cs ! j), - ci_Weight (cs ! j), j)) ` {..<length cs})"
proof (cases cs)
  case (Cons c rest)
  let ?m = "least_conn_scan 0 (ci_ActiveConns c) (ci_Weight c) 1 rest"
  have m: "?m < length cs" "\<forall>j < length cs. (ci_ActiveConns (cs ! ?m), - ci_Weight (cs ! ?m), ?m)
      \<le> (ci_ActiveConns (cs ! j), - ci_Weight (cs ! j), j)"
    using least_conn_scan_best[of 0 1 cs "[c]" rest] Cons by auto
  have "(ci_ActiveConns (cs ! ?m), - ci_Weight (cs ! ?m), ?m)
      = Min ((\<lambda>j. (ci_ActiveConns (cs ! j), - ci_Weight (cs ! j), j)) ` {..<length cs})"
    by (rule Min_eqI[symmetric]) (use m in auto)
  then show ?thesis using Cons m(1) by (simp add: leastConnIdx_def Let_def)
qed (simp add: leastConnIdx_def)

text \<open>The primaries of m consecutive SelectN calls over the same candidates.\<close>
fun primaries ::
  "(nat \<Rightarrow> int \<Rightarrow> int) \<Rightarrow> CandidateInfo list \<Rightarrow> int \<Rightarrow> nat \<Rightarrow> Balancer \<Rightarrow> Upstream option list option" where
  "primaries draws cs n 0 b = Some []"
| "primaries draws cs n (Suc m) b =
     (case SelectN draws b cs n of
        None \<Rightarrow> None
      | Some (us, b') \<Rightarrow>
          map_option (\<lambda>r. (case us of [] \<Rightarrow> None | u # _ \<Rightarrow> Some u) # r) (primaries draws cs n m b'))"

lemma rr_loop_counter:
  assumes "bal_policy b = ''round_robin''" "k \<le> length cs" "uint (bal_counter b) + int k \<le> 2 ^ 63"
  shows "\<exists>us b'. selectN_loop (policy_pick draws) k b cs acc = Some (acc @ us, b')
    \<and> bal_policy b' = ''round_robin'' \<and> uint (bal_counter b') = uint (bal_counter b) + int k
    \<and> (0 < k \<longrightarrow> hd us = ci_Upstream (cs ! (nat (uint (bal_counter b)) mod length cs)) \<and> us \<noteq> [])"
  using assms
proof (induction k arbitrary: b cs acc)
  case (Suc k)
  let ?i = "nat (uint (bal_counter b)) mod length cs" and ?b = "b\<lparr>bal_counter := bal_counter b + 1\<rparr>"
  have ne: "cs \<noteq> []" and lt: "uint (bal_counter b) < 2 ^ 63" using Suc.prems by auto
  have pick: "policy_pick draws b cs = Some ((Some (ci_Upstream (cs ! ?i)), int ?i), ?b)"
    using roundRobin_pick[OF ne lt] Suc.prems(1) by (simp add: policy_pick_def)
  have u: "uint (bal_counter ?b) = uint (bal_counter b) + 1"
    using uint_counter_Suc[of "bal_counter b" k] Suc.prems(3) by simp
  have "?i < length cs" using ne by simp
  then have len: "length (remove_nth ?i cs) = length cs - 1" unfolding remove_nth_def by (simp add: min_def)
  have k: "bal_policy ?b = ''round_robin''" "k \<le> length (remove_nth ?i cs)" "uint (bal_counter ?b) + int k \<le> 2 ^ 63"
    using Suc.prems len u by simp_all
  obtain us b' where "selectN_loop (policy_pick draws) k ?b (remove_nth ?i cs) (acc @ [ci_Upstream (cs ! ?i)])
      = Some ((acc @ [ci_Upstream (cs ! ?i)]) @ us, b')" "bal_policy b' = ''round_robin''"
      "uint (bal_counter b') = uint (bal_counter ?b) + int k"
    using Suc.IH[OF k, of "acc @ [ci_Upstream (cs ! ?i)]"] by blast
  then show ?case using ne pick u by (intro exI[of _ "ci_Upstream (cs ! ?i) # us"] exI[of _ b']) simp
qed simp

text \<open>Round robin does not rotate when the retry list covers the pool: each SelectN call advances the
  counter once per position, so when n is at least the number of candidates the counter moves by a
  multiple of the pool size and the primary of every call is the same first candidate. All traffic goes
  to one upstream as long as it keeps answering (until the counter reaches 2^63).\<close>
lemma round_robin_starves:
  assumes "cs \<noteq> []" and "int (length cs) \<le> n" and "int m * int (length cs) \<le> 2 ^ 63"
  shows "primaries draws cs n m (NewBalancer ''round_robin'') = Some (replicate m (Some (ci_Upstream (cs ! 0))))"
proof -
  have "primaries draws cs n m b = Some (replicate m (Some (ci_Upstream (cs ! 0))))"
    if "bal_policy b = ''round_robin''" "uint (bal_counter b) = int j * int (length cs)"
      "uint (bal_counter b) + int m * int (length cs) \<le> 2 ^ 63" for b j
    using that
  proof (induction m arbitrary: b j)
    case (Suc m)
    let ?l = "length cs"
    have m0: "0 \<le> int m * int ?l" by simp
    have fit: "uint (bal_counter b) + int ?l \<le> 2 ^ 63"
    proof -
      have "uint (bal_counter b) + (int ?l + int m * int ?l) \<le> 2 ^ 63"
        using Suc.prems(3) by (simp add: algebra_simps)
      then show ?thesis using m0 by linarith
    qed
    obtain us b' where l: "selectN_loop (policy_pick draws) ?l b cs [] = Some (us, b')"
        "bal_policy b' = ''round_robin''" "uint (bal_counter b') = uint (bal_counter b) + int ?l"
        "hd us = ci_Upstream (cs ! (nat (uint (bal_counter b)) mod ?l))" "us \<noteq> []"
      using rr_loop_counter[OF Suc.prems(1) order_refl fit, of draws "[]"] assms(1) by auto
    have "nat (uint (bal_counter b)) = j * ?l"
      unfolding Suc.prems(2) by (metis nat_int of_nat_mult)
    then obtain r where h: "us = ci_Upstream (cs ! 0) # r" using l(4,5) by (cases us) auto
    have S: "SelectN draws b cs n = Some (us, b')"
      using assms(1,2) l(1) by (auto simp: SelectN_def Let_def)
    have "primaries draws cs n m b' = Some (replicate m (Some (ci_Upstream (cs ! 0))))"
      using Suc.IH[of b' "Suc j"] l Suc.prems by (simp add: algebra_simps)
    then show ?case using S h by (simp split: list.splits)
  qed simp
  from this[of "NewBalancer ''round_robin''" 0] assms(3) show ?thesis by (simp add: NewBalancer_def)
qed

lemma round_robin_starves_witness:
  "primaries (\<lambda>i t. 0) [sample_candidate ''a'' 1 0, sample_candidate ''b'' 1 0] 3 4 (NewBalancer ''round_robin'')
    = Some (replicate 4 (Some (sample_upstream ''a'')))"
  using round_robin_starves[of "[sample_candidate ''a'' 1 0, sample_candidate ''b'' 1 0]" 3 4 "\<lambda>i t. 0"]
  by (simp add: sample_candidate_def)

section \<open>Properties of the tracker and the counters\<close>

text \<open>The connection count of an upstream is never negative under any interleaving of Acquire and
  Release: starting from zero with no goroutine in Release, every reachable state has a count of at
  least zero, and every goroutine about to compare-and-swap holds a positive value, so the
  decrement it installs is not negative either.\<close>
lemma release_never_negative:
  assumes "release_step\<^sup>*\<^sup>* \<lparr>cc_count = 0, cc_pcs = []\<rparr> s"
  shows "0 \<le> cc_count s \<and> list_all (\<lambda>pc. case pc of AtCAS v \<Rightarrow> 0 < v | _ \<Rightarrow> True) (cc_pcs s)"
  using assms
proof (induction rule: rtranclp_induct)
  case (step s s')
  let ?ok = "\<lambda>pc. case pc of AtCAS v \<Rightarrow> 0 < v | _ \<Rightarrow> True"
  have upd: "list_all ?ok (cc_pcs s) \<Longrightarrow> ?ok pc \<Longrightarrow> list_all ?ok ((cc_pcs s)[t := pc])" for t pc
    by (auto simp: list_all_iff dest!: set_mp[OF set_update_subset_insert])
  have nth: "t < length (cc_pcs s) \<Longrightarrow> list_all ?ok (cc_pcs s) \<Longrightarrow> ?ok (cc_pcs s ! t)" for t
    by (simp add: list_all_length)
  from step.hyps(2) show ?case
  proof (rule release_stepE)
    fix t assume t: "s' = s\<lparr>cc_count := cc_count s - 1, cc_pcs := (cc_pcs s)[t := Returned]\<rparr>"
      "t < length (cc_pcs s)" "cc_pcs s ! t = AtCAS (cc_count s)"
    then have "0 < cc_count s" using nth[of t] step.IH by simp
    then show ?thesis using t step.IH upd[of Returned t] by simp
  qed (use step.IH upd in auto)
qed simp

lemma release_never_negative_witness:
  "0 \<le> cc_count \<lparr>cc_count = 1, cc_pcs = [AtCAS 1]\<rparr> \<and> list_all (\<lambda>pc. case pc of AtCAS v \<Rightarrow> 0 < v | _ \<Rightarrow> True) [AtCAS 1]"
proof -
  have a: "release_step \<lparr>cc_count = 0, cc_pcs = []\<rparr> \<lparr>cc_count = 1, cc_pcs = []\<rparr>"
    using release_step.acquire[of "\<lparr>cc_count = 0, cc_pcs = []\<rparr>"] by (simp add: int64_max_def)
  have b: "release_step \<lparr>cc_count = 1, cc_pcs = []\<rparr> \<lparr>cc_count = 1, cc_pcs = [AtLoad]\<rparr>"
    using release_step.enter[of "\<lparr>cc_count = 1, cc_pcs = []\<rparr>"] by simp
  have c: "release_step \<lparr>cc_count = 1, cc_pcs = [AtLoad]\<rparr> \<lparr>cc_count = 1, cc_pcs = [AtCAS 1]\<rparr>"
    using release_step.load_pos[of 0 "\<lparr>cc_count = 1, cc_pcs = [AtLoad]\<rparr>"] by simp
  have "release_step\<^sup>*\<^sup>* \<lparr>cc_count = 0, cc_pcs = []\<rparr> \<lparr>cc_count = 1, cc_pcs = [AtCAS 1]\<rparr>"
    using a b c by (meson converse_rtranclp_into_rtranclp rtranclp.rtrancl_refl)
  from release_never_negative[OF this] show ?thesis by simp
qed

text \<open>The outcomes of one upstream's requests, in order: True is a success.\<close>
definition record_outcome :: "string \<Rightarrow> UpstreamMetrics \<Rightarrow> bool \<times> go_time \<Rightarrow> UpstreamMetrics" where
  "record_outcome u m ev = (if fst ev then RecordSuccess m u (snd ev) else RecordError m u (snd ev))"

lemma record_outcome_other: "v \<noteq> u \<Longrightarrow> foldl (record_outcome u) m os v = m v"
  by (induction os arbitrary: m) (simp_all add: record_outcome_def RecordSuccess_def RecordError_def Let_def)

lemma stats_after [simp]:
  "stats_getOrCreate (RecordSuccess m u now) u =
     (let s = stats_getOrCreate m u in
      s\<lparr>us_TotalRequests := i64 (us_TotalRequests s + 1), us_ConsecutiveFails := 0, us_LastSuccessAt := Some now\<rparr>)"
  "stats_getOrCreate (RecordError m u now) u =
     (let s = stats_getOrCreate m u in
      s\<lparr>us_TotalRequests := i64 (us_TotalRequests s + 1), us_RecentErrors := i64 (us_RecentErrors s + 1),
        us_ConsecutiveFails := i64 (us_ConsecutiveFails s + 1), us_LastErrorAt := Some now\<rparr>)"
  by (simp_all add: RecordSuccess_def RecordError_def Let_def stats_getOrCreate_def)

lemma outcome_stats:
  assumes "int (length os) \<le> int64_max"
  shows "us_TotalRequests (stats_getOrCreate (foldl (record_outcome u) Map.empty os) u) = int (length os)
    \<and> us_RecentErrors (stats_getOrCreate (foldl (record_outcome u) Map.empty os) u) = int (length (filter (\<lambda>ev. \<not> fst ev) os))
    \<and> us_ConsecutiveFails (stats_getOrCreate (foldl (record_outcome u) Map.empty os) u)
        = int (length (takeWhile (\<lambda>ev. \<not> fst ev) (rev os)))"
  using assms
proof (induction os rule: rev_induct)
  case (snoc ev os)
  let ?f = "length (filter (\<lambda>ev. \<not> fst ev) os)" and ?t = "length (takeWhile (\<lambda>ev. \<not> fst ev) (rev os))"
  have "?f \<le> length os" by (rule length_filter_le)
  moreover have "?t \<le> length os" using length_takeWhile_le[of "\<lambda>ev. \<not> fst ev" "rev os"] by simp
  moreover have "int (length os) + 1 \<le> int64_max" using snoc.prems by simp
  ultimately have "int ?f + 1 \<le> int64_max" "int ?t + 1 \<le> int64_max" "int (length os) + 1 \<le> int64_max"
    by linarith+
  then have "i64 (int ?f + 1) = int ?f + 1" "i64 (int ?t + 1) = int ?t + 1" "i64 (int (length os) + 1) = int (length os) + 1"
    by (simp_all add: int64_simps)
  then show ?case using snoc
    by (auto simp: record_outcome_def Let_def)
qed (simp add: stats_getOrCreate_def empty_stats_def)

text \<open>The outcome counters mean what they say: after any sequence of recorded outcomes of an upstream,
  TotalRequests is their number, RecentErrors the number of failures, ConsecutiveFails the length of
  the final run of failures, and the counters of every other upstream are untouched.\<close>
lemma metrics_meaning:
  assumes "int (length os) \<le> int64_max" and "os \<noteq> []" and "v \<noteq> u"
  shows "\<exists>s. GetStats (foldl (record_outcome u) Map.empty os) u = Some s
    \<and> us_TotalRequests s = int (length os)
    \<and> us_RecentErrors s = int (length (filter (\<lambda>ev. \<not> fst ev) os))
    \<and> us_ConsecutiveFails s = int (length (takeWhile (\<lambda>ev. \<not> fst ev) (rev os)))
    \<and> GetStats (foldl (record_outcome u) Map.empty os) v = None"
proof -
  obtain os' ev where "os = os' @ [ev]" using assms(2) by (cases os rule: rev_cases) auto
  then have "foldl (record_outcome u) Map.empty os u \<noteq> None"
    by (simp add: record_outcome_def RecordSuccess_def RecordError_def Let_def)
  then obtain s where s: "foldl (record_outcome u) Map.empty os u = Some s" by blast
  then show ?thesis
    using outcome_stats[OF assms(1), of u] record_outcome_other[OF assms(3), of Map.empty os]
    by (simp add: GetStats_def stats_getOrCreate_def)
qed

lemma metrics_meaning_witness:
  "\<exists>s. GetStats (foldl (record_outcome ''a'') Map.empty [(False, 1), (True, 2), (False, 3), (False, 4)]) ''a'' = Some s
    \<and> us_TotalRequests s = 4 \<and> us_ConsecutiveFails s = 2"
  using metrics_meaning[of "[(False, 1), (True, 2), (False, 3), (False, 4)]" "''b''" "''a''"]
  by (auto simp: int64_max_def)

end
