(* ===== verification/RouterEngine.thy ===== *)
theory RouterEngine
  imports LoadBalancer Catalog Crypto
begin

text \<open>
  proxy/router_engine.go: the routing engine. The state is the configuration maps built by buildMaps,
  one balancer per group, the connection tracker, and the session-affinity map. The operations are
  Match and MatrixGlobal (which group serves a request), SelectWithRetry and SelectCapacityFallbacks
  (which upstreams are tried, in which order), the session bindings, Reload and ActiveModels.
  A Go panic is None. The clock is read once per operation. sort.Slice on the routes is not stable;
  it is modelled by a stable sort, and Match is shown not to depend on the order. The OAuth and
  Vertex token managers that buildMaps also feeds are separate components.
\<close>

section \<open>State\<close>

record sessionBinding =
  sb_upstreamID :: string
  sb_usedAt :: go_time

record groupMember =
  gm_upstream :: Upstream
  gm_weight :: int
  gm_isBackup :: bool

record resolvedGroup =
  rg_group :: UpstreamGroup
  rg_members :: "groupMember list"

record SelectedUpstream =
  sel_Upstream :: Upstream
  sel_APIKey :: string

record Router =
  rt_upstreams :: "string \<rightharpoonup> Upstream"
  rt_groups :: "string \<rightharpoonup> resolvedGroup"
  rt_routes :: "Route list"
  rt_decryptedKeys :: "string \<rightharpoonup> string"
  rt_balancers :: "string \<rightharpoonup> Balancer"
  rt_connTracker :: ConnectionTracker
  rt_sessionMap :: "string \<times> string \<rightharpoonup> sessionBinding"
  rt_sessionTTL :: duration
  rt_catalog :: "catalog option"

section \<open>Configuration\<close>

text \<open>decrypt is crypto.Decrypt under the server's key; None is its error, which is logged.\<close>
definition decryptUpstreamKeys :: "(bytes \<Rightarrow> bytes option) \<Rightarrow> bytes \<Rightarrow> Upstream list \<Rightarrow> (string \<rightharpoonup> string)" where
  "decryptUpstreamKeys decrypt encKey upstreams =
     (if encKey = [] then Map.empty
      else foldl (\<lambda>keys u.
             if up_APIKeyEncrypted u = [] then keys
             else (case decrypt (up_APIKeyEncrypted u) of
                     None \<Rightarrow> keys
                   | Some plaintext \<Rightarrow> keys(up_ID u \<mapsto> map (\<lambda>b. char_of (unat b)) plaintext)))
           Map.empty upstreams)"

definition resolve_members :: "(string \<rightharpoonup> Upstream) \<Rightarrow> UpstreamGroupMember list \<Rightarrow> groupMember list" where
  "resolve_members um members =
     concat (map (\<lambda>md. case um (mem_UpstreamID md) of
                         None \<Rightarrow> []
                       | Some u \<Rightarrow> [\<lparr>gm_upstream = u,
                                    gm_weight = (case mem_Weight md of Some w \<Rightarrow> w | None \<Rightarrow> up_Weight u),
                                    gm_isBackup = mem_IsBackup md\<rparr>]) members)"

definition buildMaps ::
  "(bytes \<Rightarrow> bytes option) \<Rightarrow> Router \<Rightarrow> Upstream list \<Rightarrow> (UpstreamGroup \<times> UpstreamGroupMember list) list
   \<Rightarrow> Route list \<Rightarrow> bytes \<Rightarrow> Router" where
  "buildMaps decrypt r upstreams groups routes encKey =
     (let um = foldl (\<lambda>m u. m(up_ID u \<mapsto> u)) Map.empty upstreams;
          keys = decryptUpstreamKeys decrypt encKey upstreams;
          gm = foldl (\<lambda>m (g, ms). m(grp_ID g \<mapsto> \<lparr>rg_group = g, rg_members = resolve_members um ms\<rparr>)) Map.empty groups;
          balancers = foldl (\<lambda>m (g, ms). m(grp_ID g \<mapsto>
              NewBalancer (if grp_LBPolicy g = '''' then ''weighted_random'' else grp_LBPolicy g))) Map.empty groups;
          sortedRoutes = sort_key (\<lambda>rt. - route_MatchPriority rt) routes
      in r\<lparr>rt_upstreams := um, rt_groups := gm, rt_routes := sortedRoutes, rt_decryptedKeys := keys,
           rt_balancers := balancers\<rparr>)"

definition NewRouter ::
  "(bytes \<Rightarrow> bytes option) \<Rightarrow> Upstream list \<Rightarrow> (UpstreamGroup \<times> UpstreamGroupMember list) list
   \<Rightarrow> Route list \<Rightarrow> bytes \<Rightarrow> duration \<Rightarrow> catalog option \<Rightarrow> Router" where
  "NewRouter decrypt upstreams groups routes encKey sessionTTL cat =
     buildMaps decrypt
       \<lparr>rt_upstreams = Map.empty, rt_groups = Map.empty, rt_routes = [], rt_decryptedKeys = Map.empty,
        rt_balancers = Map.empty, rt_connTracker = Map.empty, rt_sessionMap = Map.empty,
        rt_sessionTTL = sessionTTL, rt_catalog = cat\<rparr>
       upstreams groups routes encKey"

definition Reload ::
  "(bytes \<Rightarrow> bytes option) \<Rightarrow> Router \<Rightarrow> Upstream list \<Rightarrow> (UpstreamGroup \<times> UpstreamGroupMember list) list
   \<Rightarrow> Route list \<Rightarrow> bytes \<Rightarrow> Router" where
  "Reload decrypt r upstreams groups routes encKey = buildMaps decrypt r upstreams groups routes encKey"

definition GetUpstreamKey :: "Router \<Rightarrow> string \<Rightarrow> string" where
  "GetUpstreamKey r uid = the_or '''' (rt_decryptedKeys r uid)"

section \<open>Matching\<close>

definition matchesGlobalRoute :: "Route \<Rightarrow> string \<Rightarrow> string \<Rightarrow> string \<Rightarrow> string \<Rightarrow> bool" where
  "matchesGlobalRoute route projectID model kind client =
     (if route_Status route \<noteq> ''active'' then False
      else if route_ProjectID route \<noteq> projectID then False
      else if model \<notin> set (route_ModelNames route) then False
      else if kind \<notin> set (route_RequestKinds route) then False
      else if length (route_Clients route) > 0 \<and> client \<notin> set (route_Clients route) then False
      else True)"

definition specificity :: "Route \<Rightarrow> int" where
  "specificity route = (if route_ProjectID route \<noteq> '''' then 10 else 0) + (if length (route_Clients route) > 0 then 1 else 0)"

text \<open>The comparison by which a later route replaces the best so far.\<close>
definition beats :: "int \<Rightarrow> Route \<Rightarrow> int \<Rightarrow> Route \<Rightarrow> bool" where
  "beats spec route bestSpec best =
     (spec > bestSpec
      \<or> (spec = bestSpec \<and> route_MatchPriority route > route_MatchPriority best)
      \<or> (spec = bestSpec \<and> route_MatchPriority route = route_MatchPriority best \<and> route_ID route < route_ID best))"

definition consider_route :: "Router \<Rightarrow> (Route \<times> int) option \<Rightarrow> Route \<Rightarrow> (Route \<times> int) option" where
  "consider_route r best route =
     (if rt_groups r (route_UpstreamGroupID route) = None then best
      else
        let spec = specificity route in
        (case best of
           None \<Rightarrow> Some (route, spec)
         | Some (b, bspec) \<Rightarrow> if beats spec route bspec b then Some (route, spec) else best))"

definition match_step ::
  "Router \<Rightarrow> string \<Rightarrow> string \<Rightarrow> string \<Rightarrow> string \<Rightarrow> (Route \<times> int) option \<Rightarrow> Route \<Rightarrow> (Route \<times> int) option" where
  "match_step r projectID model kind client best route =
     (if matchesGlobalRoute route projectID model kind client then consider_route r best route
      else if matchesGlobalRoute route '''' model kind client then consider_route r best route
      else best)"

datatype route_error = NoRoute string string string

definition Match :: "Router \<Rightarrow> string \<Rightarrow> string \<Rightarrow> string \<Rightarrow> string \<Rightarrow> route_error + resolvedGroup" where
  "Match r projectID model kind client =
     (case foldl (match_step r projectID model kind client) None (rt_routes r) of
        None \<Rightarrow> Inl (NoRoute model kind client)
      | Some (route, _) \<Rightarrow>
          (case rt_groups r (route_UpstreamGroupID route) of
             Some g \<Rightarrow> Inr g
           | None \<Rightarrow> Inl (NoRoute model kind client)))"

record MatrixCell =
  mc_Model :: string
  mc_Kind :: string
  mc_Client :: string
  mc_UpstreamGroupID :: string
  mc_RouteID :: string
  mc_MatchPriority :: int
  mc_Clients :: "string list"

text \<open>The inner loop of MatrixGlobal, with its own copy of the scoring.\<close>
definition matrix_step ::
  "Router \<Rightarrow> string \<Rightarrow> string \<Rightarrow> string \<Rightarrow> (Route \<times> int) option \<Rightarrow> Route \<Rightarrow> (Route \<times> int) option" where
  "matrix_step r model kind client best route =
     (if \<not> matchesGlobalRoute route '''' model kind client then best
      else if rt_groups r (route_UpstreamGroupID route) = None then best
      else
        let spec = (if length (route_Clients route) > 0 then 1 else 0) in
        (case best of
           None \<Rightarrow> Some (route, spec)
         | Some (b, bspec) \<Rightarrow> if beats spec route bspec b then Some (route, spec) else best))"

definition matrix_cell :: "Router \<Rightarrow> string \<Rightarrow> string \<Rightarrow> string \<Rightarrow> MatrixCell list" where
  "matrix_cell r model kind client =
     (case foldl (matrix_step r model kind client) None (rt_routes r) of
        None \<Rightarrow> []
      | Some (best, _) \<Rightarrow>
          [\<lparr>mc_Model = model, mc_Kind = kind, mc_Client = client, mc_UpstreamGroupID = route_UpstreamGroupID best,
            mc_RouteID = route_ID best, mc_MatchPriority = route_MatchPriority best, mc_Clients = route_Clients best\<rparr>])"

definition MatrixGlobal :: "Router \<Rightarrow> string list \<Rightarrow> string \<Rightarrow> MatrixCell list" where
  "MatrixGlobal r models filterClient =
     (if models = [] then []
      else
        let clients = (if filterClient \<noteq> '''' then [filterClient] else AllClientBuckets) in
        concat (map (\<lambda>model. concat (map (\<lambda>kind. concat (map (matrix_cell r model kind) clients)) AllRequestKinds)) models))"

definition SnapshotGroupNames :: "Router \<Rightarrow> (string \<rightharpoonup> string)" where
  "SnapshotGroupNames r = (\<lambda>gid. map_option (\<lambda>g. grp_Name (rg_group g)) (rt_groups r gid))"

section \<open>Selection\<close>

text \<open>ConnectionTracker.Count; the zero entry it may create reads back the same.\<close>
definition conn_count :: "ConnectionTracker \<Rightarrow> string \<Rightarrow> int" where
  "conn_count ct u = snd (Count ct u)"

definition eligible :: "ConnectionTracker \<Rightarrow> groupMember \<Rightarrow> bool" where
  "eligible ct m =
     (let u = gm_upstream m in
      if up_Status u = ''disabled'' then False
      else if up_Status u = ''draining'' then False
      else if up_MaxConcurrent u > 0 \<and> conn_count ct (up_ID u) \<ge> up_MaxConcurrent u then False
      else True)"

definition candidate_of :: "ConnectionTracker \<Rightarrow> groupMember \<Rightarrow> CandidateInfo" where
  "candidate_of ct m =
     \<lparr>ci_Upstream = gm_upstream m, ci_Weight = gm_weight m, ci_IsBackup = gm_isBackup m,
      ci_ActiveConns = conn_count ct (up_ID (gm_upstream m))\<rparr>"

text \<open>The candidate loop shared by SelectWithRetry (nothing excluded) and SelectCapacityFallbacks:
  primaries, or backups when no primary is left.\<close>
definition build_candidates :: "ConnectionTracker \<Rightarrow> string set \<Rightarrow> groupMember list \<Rightarrow> CandidateInfo list" where
  "build_candidates ct excluded members =
     (let ok = filter (\<lambda>m. up_ID (gm_upstream m) \<notin> excluded \<and> eligible ct m) members;
          primaryCandidates = map (candidate_of ct) (filter (\<lambda>m. \<not> gm_isBackup m) ok);
          backupCandidates = map (candidate_of ct) (filter gm_isBackup ok)
      in if primaryCandidates = [] then backupCandidates else primaryCandidates)"

definition group_balancer :: "Router \<Rightarrow> resolvedGroup \<Rightarrow> Balancer" where
  "group_balancer r g =
     (case rt_balancers r (grp_ID (rg_group g)) of
        Some b \<Rightarrow> b
      | None \<Rightarrow> NewBalancer (grp_LBPolicy (rg_group g)))"

text \<open>A balancer created on the fly is not stored.\<close>
definition store_balancer :: "Router \<Rightarrow> resolvedGroup \<Rightarrow> Balancer \<Rightarrow> Router" where
  "store_balancer r g b =
     (case rt_balancers r (grp_ID (rg_group g)) of
        Some _ \<Rightarrow> r\<lparr>rt_balancers := (rt_balancers r)(grp_ID (rg_group g) \<mapsto> b)\<rparr>
      | None \<Rightarrow> r)"

definition selected :: "Router \<Rightarrow> Upstream \<Rightarrow> SelectedUpstream" where
  "selected r u = \<lparr>sel_Upstream = u, sel_APIKey = the_or '''' (rt_decryptedKeys r (up_ID u))\<rparr>"

definition findInCandidates :: "CandidateInfo list \<Rightarrow> string \<Rightarrow> Upstream option" where
  "findInCandidates candidates uid = map_option ci_Upstream (find (\<lambda>c. up_ID (ci_Upstream c) = uid) candidates)"

definition usable_binding :: "Router \<Rightarrow> string \<times> string \<Rightarrow> CandidateInfo list \<Rightarrow> go_time \<Rightarrow> Upstream option" where
  "usable_binding r key candidates now =
     (case rt_sessionMap r key of
        None \<Rightarrow> None
      | Some binding \<Rightarrow>
          if now - sb_usedAt binding < rt_sessionTTL r then findInCandidates candidates (sb_upstreamID binding) else None)"

text \<open>The slow path after the balancer's pick: LoadOrStore, and what follows it.\<close>
definition pin_claim :: "Router \<Rightarrow> string \<times> string \<Rightarrow> CandidateInfo list \<Rightarrow> go_time \<Rightarrow> Upstream \<Rightarrow> Upstream \<times> Router" where
  "pin_claim r key candidates now primary =
     (let newBinding = \<lparr>sb_upstreamID = up_ID primary, sb_usedAt = now\<rparr>;
          r_new = r\<lparr>rt_sessionMap := (rt_sessionMap r)(key \<mapsto> newBinding)\<rparr> in
      case rt_sessionMap r key of
        None \<Rightarrow> (primary, r_new)
      | Some _ \<Rightarrow>
          (case usable_binding r key candidates now of
             Some u \<Rightarrow> (u, r)
           | None \<Rightarrow> (primary, r_new)))"

definition pinSessionToUpstream ::
  "(nat \<Rightarrow> int \<Rightarrow> int) \<Rightarrow> Router \<Rightarrow> string \<times> string \<Rightarrow> CandidateInfo list \<Rightarrow> Balancer \<Rightarrow> go_time
   \<Rightarrow> (Upstream option \<times> Router \<times> Balancer) option" where
  "pinSessionToUpstream draws r key candidates balancer now =
     (case usable_binding r key candidates now of
        Some u \<Rightarrow>
          Some (Some u, r\<lparr>rt_sessionMap := (rt_sessionMap r)(key \<mapsto> \<lparr>sb_upstreamID = up_ID u, sb_usedAt = now\<rparr>)\<rparr>, balancer)
      | None \<Rightarrow>
          (case lb_Select draws balancer candidates of
             None \<Rightarrow> None
           | Some (None, balancer') \<Rightarrow> Some (None, r, balancer')
           | Some (Some primary, balancer') \<Rightarrow>
               (case pin_claim r key candidates now primary of (u, r') \<Rightarrow> Some (Some u, r', balancer'))))"

definition resultWithPrimary ::
  "(nat \<Rightarrow> int \<Rightarrow> int) \<Rightarrow> Router \<Rightarrow> Upstream \<Rightarrow> CandidateInfo list \<Rightarrow> Balancer \<Rightarrow> int
   \<Rightarrow> (SelectedUpstream list \<times> Balancer) option" where
  "resultWithPrimary draws r primary candidates balancer n =
     (if n < 0 then None
      else if n \<le> 1 \<or> length candidates \<le> 1 then Some ([selected r primary], balancer)
      else
        let remaining = filter (\<lambda>c. up_ID (ci_Upstream c) \<noteq> up_ID primary) candidates in
        map_option (\<lambda>(us, b'). (selected r primary # map (selected r) us, b')) (SelectN draws balancer remaining (n - 1)))"

definition SelectWithRetry ::
  "(nat \<Rightarrow> int \<Rightarrow> int) \<Rightarrow> Router \<Rightarrow> resolvedGroup \<Rightarrow> string \<Rightarrow> string \<Rightarrow> go_time
   \<Rightarrow> (SelectedUpstream list \<times> Router) option" where
  "SelectWithRetry draws r grp sessionID model now =
     (let maxRetries = (case grp_RetryPolicy (rg_group grp) of Some p \<Rightarrow> MaxRetries p | None \<Rightarrow> 0);
          n = i64 (1 + maxRetries);
          candidates = build_candidates (rt_connTracker r) {} (rg_members grp);
          balancer = group_balancer r grp;
          plain = (\<lambda>r b. map_option (\<lambda>(us, b'). (map (selected r) us, store_balancer r grp b')) (SelectN draws b candidates n))
      in
      if candidates = [] then Some ([], r)
      else if sessionID \<noteq> '''' \<and> model \<noteq> '''' then
        (case pinSessionToUpstream draws r (sessionID, model) candidates balancer now of
           None \<Rightarrow> None
         | Some (Some primary, r', b') \<Rightarrow>
             map_option (\<lambda>(sels, b''). (sels, store_balancer r' grp b'')) (resultWithPrimary draws r' primary candidates b' n)
         | Some (None, r', b') \<Rightarrow> plain r' b')
      else plain r balancer)"

definition SelectCapacityFallbacks ::
  "(nat \<Rightarrow> int \<Rightarrow> int) \<Rightarrow> Router \<Rightarrow> resolvedGroup \<Rightarrow> string set \<Rightarrow> (SelectedUpstream list \<times> Router) option" where
  "SelectCapacityFallbacks draws r grp excluded =
     (let candidates = build_candidates (rt_connTracker r) excluded (rg_members grp) in
      if candidates = [] then Some ([], r)
      else map_option (\<lambda>(us, b'). (map (selected r) us, store_balancer r grp b'))
             (SelectN draws (group_balancer r grp) candidates (int (length candidates))))"

section \<open>Session bindings\<close>

definition BindSession :: "Router \<Rightarrow> string \<Rightarrow> string \<Rightarrow> string \<Rightarrow> go_time \<Rightarrow> Router" where
  "BindSession r sessionID model upstreamID now =
     (if sessionID = '''' \<or> model = '''' then r
      else r\<lparr>rt_sessionMap := (rt_sessionMap r)((sessionID, model) \<mapsto> \<lparr>sb_upstreamID = upstreamID, sb_usedAt = now\<rparr>)\<rparr>)"

definition UnbindSessionFromUpstream :: "Router \<Rightarrow> string \<Rightarrow> string \<Rightarrow> string \<Rightarrow> Router" where
  "UnbindSessionFromUpstream r sessionID model upstreamID =
     (if sessionID = '''' \<or> model = '''' \<or> upstreamID = '''' then r
      else (case rt_sessionMap r (sessionID, model) of
              None \<Rightarrow> r
            | Some binding \<Rightarrow>
                if sb_upstreamID binding \<noteq> upstreamID then r
                else r\<lparr>rt_sessionMap := (rt_sessionMap r)((sessionID, model) := None)\<rparr>))"

text \<open>One tick of StartSessionCleanup.\<close>
definition session_cleanup :: "Router \<Rightarrow> go_time \<Rightarrow> Router" where
  "session_cleanup r now =
     r\<lparr>rt_sessionMap := (\<lambda>key. case rt_sessionMap r key of
         Some b \<Rightarrow> if now - sb_usedAt b > rt_sessionTTL r then None else Some b
       | None \<Rightarrow> None)\<rparr>"

section \<open>Active models\<close>

definition model_active :: "Router \<Rightarrow> string \<Rightarrow> bool" where
  "model_active r name =
     (case rt_catalog r of
        None \<Rightarrow> True
      | Some c \<Rightarrow> (case Get c name of None \<Rightarrow> False | Some m \<Rightarrow> model_Status m = ''active''))"

definition model_supported :: "resolvedGroup \<Rightarrow> string \<Rightarrow> bool" where
  "model_supported g name =
     list_ex (\<lambda>mem. up_Status (gm_upstream mem) = ''active'' \<and> name \<in> set (up_SupportedModels (gm_upstream mem)))
       (rg_members g)"

definition active_models_route :: "Router \<Rightarrow> string list \<Rightarrow> Route \<Rightarrow> string list" where
  "active_models_route r models route =
     (if route_Status route \<noteq> ''active'' then models
      else (case rt_groups r (route_UpstreamGroupID route) of
              None \<Rightarrow> models
            | Some g \<Rightarrow>
                foldl (\<lambda>ms name. if name \<in> set ms then ms
                                 else if \<not> model_active r name then ms
                                 else if \<not> model_supported g name then ms
                                 else ms @ [name]) models (route_ModelNames route)))"

definition ActiveModels :: "Router \<Rightarrow> string list" where
  "ActiveModels r = foldl (active_models_route r) [] (rt_routes r)"

section \<open>Matching: the best eligible route\<close>

definition route_key :: "Route \<Rightarrow> int \<times> int \<times> string" where
  "route_key route = (- specificity route, - route_MatchPriority route, route_ID route)"

definition routable :: "Router \<Rightarrow> string \<Rightarrow> string \<Rightarrow> string \<Rightarrow> string \<Rightarrow> Route \<Rightarrow> bool" where
  "routable r projectID model kind client route =
     ((matchesGlobalRoute route projectID model kind client \<or> matchesGlobalRoute route '''' model kind client)
      \<and> rt_groups r (route_UpstreamGroupID route) \<noteq> None)"

lemma beats_key: "beats (specificity a) a (specificity b) b \<longleftrightarrow> route_key a < route_key b"
  by (auto simp: beats_def route_key_def)

lemma match_step_cases:
  "match_step r p m k c best route =
     (if routable r p m k c route
      then (case best of None \<Rightarrow> Some (route, specificity route)
            | Some (b, bspec) \<Rightarrow> if beats (specificity route) route bspec b then Some (route, specificity route) else best)
      else best)"
  by (auto simp: match_step_def consider_route_def routable_def Let_def)

lemma match_fold:
  "case foldl (match_step r p m k c) None rs of
     None \<Rightarrow> filter (routable r p m k c) rs = []
   | Some (b, s) \<Rightarrow> b \<in> set (filter (routable r p m k c) rs) \<and> s = specificity b
       \<and> list_all (\<lambda>e. route_key b \<le> route_key e) (filter (routable r p m k c) rs)"
proof (induction rs rule: rev_induct)
  case (snoc e rs)
  show ?case
  proof (cases "routable r p m k c e")
    case False
    then have "match_step r p m k c x e = x" for x by (simp add: match_step_cases)
    then show ?thesis using snoc False by (auto split: option.splits)
  next
    case True
    show ?thesis
    proof (cases "foldl (match_step r p m k c) None rs")
      case None then show ?thesis using snoc True by (simp add: match_step_cases[of r p m k c _ e])
    next
      case (Some bs)
      obtain b s where bs: "bs = (b, s)" by (cases bs)
      have IH: "b \<in> set (filter (routable r p m k c) rs)" "s = specificity b"
          "list_all (\<lambda>e. route_key b \<le> route_key e) (filter (routable r p m k c) rs)"
        using snoc Some bs by auto
      show ?thesis
      proof (cases "route_key e < route_key b")
        case lt: True
        then have "list_all (\<lambda>x. route_key e \<le> route_key x) (filter (routable r p m k c) rs)"
          using IH(3) by (auto simp: list_all_iff intro: order_trans less_imp_le)
        then show ?thesis using True lt Some bs IH by (simp add: match_step_cases[of r p m k c _ e] beats_key)
      next
        case False then show ?thesis using True Some bs IH by (auto simp: match_step_cases[of r p m k c _ e] beats_key)
      qed
    qed
  qed
qed simp

lemma match_best:
  assumes "foldl (match_step r p m k c) None rs = Some (b, s)"
  shows "b \<in> set rs" "routable r p m k c b" "route_key b = Min (route_key ` set (filter (routable r p m k c) rs))"
proof -
  have "b \<in> set (filter (routable r p m k c) rs)" "list_all (\<lambda>e. route_key b \<le> route_key e) (filter (routable r p m k c) rs)"
    using match_fold[of r p m k c rs] assms by auto
  then show "b \<in> set rs" "routable r p m k c b" "route_key b = Min (route_key ` set (filter (routable r p m k c) rs))"
    by (auto simp: list_all_iff intro!: Min_eqI[symmetric])
qed

lemma route_key_inj: "distinct (map route_ID rs) \<Longrightarrow> a \<in> set rs \<Longrightarrow> b \<in> set rs \<Longrightarrow> route_key a = route_key b \<Longrightarrow> a = b"
  by (auto simp: route_key_def distinct_map inj_on_def)

lemma match_fold_perm:
  assumes "mset rs = mset rs'" "distinct (map route_ID rs)"
  shows "foldl (match_step r p m k c) None rs = foldl (match_step r p m k c) None rs'"
proof -
  have s: "set rs = set rs'" using assms(1) by (metis set_mset_mset)
  note f = match_fold[of r p m k c rs] match_fold[of r p m k c rs']
  show ?thesis
  proof (cases "foldl (match_step r p m k c) None rs")
    case None
    then show ?thesis using f s
      by (cases "foldl (match_step r p m k c) None rs'") (auto simp: filter_empty_conv)
  next
    case (Some x)
    obtain b sp where x: "x = (b, sp)" by (cases x)
    note b = match_best[OF Some[unfolded x]]
    have "filter (routable r p m k c) rs' \<noteq> []" using b(1,2) s by (auto simp: filter_empty_conv)
    then obtain b' sp' where 2: "foldl (match_step r p m k c) None rs' = Some (b', sp')" using f(2)
      by (cases "foldl (match_step r p m k c) None rs'") auto
    note b' = match_best[OF 2]
    have "route_key b = route_key b'" using b(3) b'(3) s by simp
    then have "b = b'" using route_key_inj[OF assms(2)] b(1) b'(1) s by blast
    then show ?thesis using Some 2 x f by auto
  qed
qed

text \<open>C8: match picks the best route: among the routes that are active, belong to the project or are
  global, list the model and the request kind, accept the client, and whose group is loaded, it uses
  the one with the greatest specificity (project over global, then client-specific over agnostic),
  then the highest priority, then the smallest ID; it fails exactly when there is none.\<close>
theorem Match_best_route:
  "case Match r projectID model kind client of
     Inl e \<Rightarrow> e = NoRoute model kind client \<and> filter (routable r projectID model kind client) (rt_routes r) = []
   | Inr g \<Rightarrow> (\<exists>b. b \<in> set (rt_routes r) \<and> routable r projectID model kind client b
       \<and> rt_groups r (route_UpstreamGroupID b) = Some g
       \<and> route_key b = Min (route_key ` set (filter (routable r projectID model kind client) (rt_routes r))))"
proof (cases "foldl (match_step r projectID model kind client) None (rt_routes r)")
  case None
  then show ?thesis using match_fold[of r projectID model kind client "rt_routes r"] by (simp add: Match_def)
next
  case (Some x)
  obtain b s where x: "x = (b, s)" by (cases x)
  note b = match_best[OF Some[unfolded x]]
  then obtain g where "rt_groups r (route_UpstreamGroupID b) = Some g" by (auto simp: routable_def)
  then show ?thesis using Some x b by (auto simp: Match_def)
qed

text \<open>The order in which routes are loaded or sorted is irrelevant: with distinct route IDs, any two
  orders of the same routes give the same Match - in particular the unstable sort by priority in
  buildMaps cannot change a routing decision.\<close>
lemma Match_order_irrelevant:
  assumes "mset rs = mset rs'" and "distinct (map route_ID rs)"
  shows "Match (r\<lparr>rt_routes := rs\<rparr>) projectID model kind client = Match (r\<lparr>rt_routes := rs'\<rparr>) projectID model kind client"
proof -
  have "match_step (r\<lparr>rt_routes := xs\<rparr>) = match_step r" for xs
    by (simp add: fun_eq_iff match_step_def consider_route_def)
  then show ?thesis using match_fold_perm[OF assms] by (auto simp: Match_def split: option.splits)
qed

definition sample_route :: "string \<Rightarrow> string \<Rightarrow> string list \<Rightarrow> int \<Rightarrow> Route" where
  "sample_route i p cs prio = \<lparr>route_ID = i, route_ProjectID = p, route_ModelNames = [''m''],
     route_RequestKinds = [''anthropic_messages''], route_Clients = cs, route_UpstreamGroupID = ''g'',
     route_MatchPriority = prio, route_Conditions = Map.empty, route_Status = ''active''\<rparr>"

lemma Match_order_irrelevant_witness:
  "Match (r\<lparr>rt_routes := [sample_route ''a'' '''' [] 5, sample_route ''b'' '''' [] 5]\<rparr>) '''' ''m'' ''k'' ''other''
    = Match (r\<lparr>rt_routes := [sample_route ''b'' '''' [] 5, sample_route ''a'' '''' [] 5]\<rparr>) '''' ''m'' ''k'' ''other''"
  by (rule Match_order_irrelevant) (simp_all add: sample_route_def)

section \<open>The matrix agrees with Match\<close>

lemma matrix_step_match: "matrix_step r model kind client = match_step r '''' model kind client"
proof -
  have "specificity route = (if length (route_Clients route) > 0 then 1 else 0)"
    if "matchesGlobalRoute route '''' model kind client" for route
    using that by (auto simp: matchesGlobalRoute_def specificity_def split: if_splits)
  then show ?thesis by (auto simp: fun_eq_iff matrix_step_def match_step_def consider_route_def Let_def)
qed

text \<open>The routing matrix shown to administrators is the truth: for every model asked for, request
  kind and client bucket, MatrixGlobal has a cell exactly when Match routes a request without a
  project there, and the cell's group is the group Match returns.\<close>
lemma MatrixGlobal_agrees:
  "(set (MatrixGlobal r models '''') =
      (\<Union>model \<in> set models. \<Union>kind \<in> set AllRequestKinds. \<Union>client \<in> set AllClientBuckets. set (matrix_cell r model kind client)))
   \<and> map (\<lambda>c. (mc_Model c, mc_Kind c, mc_Client c, rt_groups r (mc_UpstreamGroupID c))) (matrix_cell r model kind client)
      = (case Match r '''' model kind client of Inl _ \<Rightarrow> [] | Inr g \<Rightarrow> [(model, kind, client, Some g)])"
proof
  show "set (MatrixGlobal r models '''') =
      (\<Union>model \<in> set models. \<Union>kind \<in> set AllRequestKinds. \<Union>client \<in> set AllClientBuckets. set (matrix_cell r model kind client))"
    by (auto simp: MatrixGlobal_def)
  show "map (\<lambda>c. (mc_Model c, mc_Kind c, mc_Client c, rt_groups r (mc_UpstreamGroupID c))) (matrix_cell r model kind client)
      = (case Match r '''' model kind client of Inl _ \<Rightarrow> [] | Inr g \<Rightarrow> [(model, kind, client, Some g)])"
  proof (cases "foldl (match_step r '''' model kind client) None (rt_routes r)")
    case None then show ?thesis by (simp add: matrix_cell_def Match_def matrix_step_match)
  next
    case (Some x)
    obtain b s where x: "x = (b, s)" by (cases x)
    obtain g where "rt_groups r (route_UpstreamGroupID b) = Some g"
      using match_best(2)[OF Some[unfolded x]] by (auto simp: routable_def)
    then show ?thesis using Some x by (simp add: matrix_cell_def Match_def matrix_step_match)
  qed
qed

section \<open>Selection\<close>

lemma findInCandidates_Some:
  assumes "findInCandidates cs uid = Some u"
  shows "u \<in> ci_Upstream ` set cs" "up_ID u = uid"
  using assms by (auto simp: findInCandidates_def find_Some_iff)

lemma findInCandidates_complete:
  assumes "uid \<in> (up_ID \<circ> ci_Upstream) ` set cs"
  shows "\<exists>u. findInCandidates cs uid = Some u \<and> up_ID u = uid"
proof -
  have "find (\<lambda>c. up_ID (ci_Upstream c) = uid) cs \<noteq> None"
    using assms by (auto simp: find_None_iff)
  then obtain c where "find (\<lambda>c. up_ID (ci_Upstream c) = uid) cs = Some c" by blast
  then show ?thesis by (auto simp: findInCandidates_def find_Some_iff)
qed

lemma usable_binding_Some:
  assumes "usable_binding r key cs now = Some u"
  shows "u \<in> ci_Upstream ` set cs"
  using assms findInCandidates_Some by (auto simp: usable_binding_def split: option.splits if_splits)

lemma selected_router [simp]: "selected (r\<lparr>rt_sessionMap := m\<rparr>) = selected r"
  by (simp add: selected_def fun_eq_iff)

text \<open>What a pin does: a candidate is returned, the binding names it and is fresh, nothing else of the
  router changes, and at most one pick is spent.\<close>
lemma pinSession_some:
  assumes "cs \<noteq> []" "weights_fit cs" "bal_ready draws (Suc k) b"
  shows "\<exists>u b'. pinSessionToUpstream draws r key cs b now
      = Some (Some u, r\<lparr>rt_sessionMap := (rt_sessionMap r)(key \<mapsto> \<lparr>sb_upstreamID = up_ID u, sb_usedAt = now\<rparr>)\<rparr>, b')
    \<and> u \<in> ci_Upstream ` set cs \<and> bal_ready draws k b'"
proof (cases "usable_binding r key cs now")
  case (Some u)
  have "bal_ready draws k b" using assms(3) by (auto simp: bal_ready_def split: if_splits)
  then show ?thesis using Some usable_binding_Some[OF Some] by (simp add: pinSessionToUpstream_def)
next
  case None
  obtain i b' where "lb_Select draws b cs = Some (Some (ci_Upstream (cs ! i)), b')" "i < length cs" "bal_ready draws k b'"
    using lb_Select_some[OF assms] by blast
  then show ?thesis using None
    by (auto simp: pinSessionToUpstream_def pin_claim_def Let_def split: option.splits)
qed

lemma build_candidates_sound:
  assumes "c \<in> set (build_candidates ct ex ms)"
  shows "\<exists>m \<in> set ms. c = candidate_of ct m \<and> eligible ct m \<and> up_ID (gm_upstream m) \<notin> ex
    \<and> (gm_isBackup m \<longrightarrow> (\<forall>m' \<in> set ms. eligible ct m' \<and> up_ID (gm_upstream m') \<notin> ex \<longrightarrow> gm_isBackup m'))"
  using assms by (auto simp: build_candidates_def Let_def filter_empty_conv split: if_splits)

lemma build_candidates_empty:
  "build_candidates ct ex ms = [] \<longleftrightarrow> filter (\<lambda>m. up_ID (gm_upstream m) \<notin> ex \<and> eligible ct m) ms = []"
  by (auto simp: build_candidates_def Let_def filter_empty_conv)

lemma build_candidates_distinct:
  assumes "distinct (map (up_ID \<circ> gm_upstream) ms)"
  shows "distinct (map (up_ID \<circ> ci_Upstream) (build_candidates ct ex ms))"
proof -
  have "map (up_ID \<circ> ci_Upstream) (map (candidate_of ct) xs) = map (up_ID \<circ> gm_upstream) xs" for xs
    by (simp add: candidate_of_def comp_def)
  then show ?thesis using assms
    by (simp add: build_candidates_def Let_def distinct_map_filter del: map_map)
qed

definition select_count :: "resolvedGroup \<Rightarrow> int" where
  "select_count g = 1 + (case grp_RetryPolicy (rg_group g) of Some p \<Rightarrow> MaxRetries p | None \<Rightarrow> 0)"

text \<open>A group the router can serve from: the configuration bounds under which no arithmetic of the
  balancer overflows, and upstream IDs that are unique within the group.\<close>
definition group_ok :: "(nat \<Rightarrow> int \<Rightarrow> int) \<Rightarrow> Router \<Rightarrow> resolvedGroup \<Rightarrow> bool" where
  "group_ok draws r g =
     (distinct (map (up_ID \<circ> gm_upstream) (rg_members g))
      \<and> 1 \<le> select_count g \<and> select_count g \<le> int64_max
      \<and> bal_ready draws (nat (select_count g)) (group_balancer r g)
      \<and> weights_fit (build_candidates (rt_connTracker r) {} (rg_members g)))"

lemma distinct_sel:
  assumes "mset sel + mset rest = mset cs" "distinct (map f cs)"
  shows "distinct (map f sel) \<and> set sel \<subseteq> set cs"
proof -
  have "mset (sel @ rest) = mset cs" using assms(1) by simp
  then have "mset (map f (sel @ rest)) = mset (map f cs)" "set (sel @ rest) = set cs"
    by (metis mset_map) (metis \<open>mset (sel @ rest) = mset cs\<close> set_mset_mset)
  then have "distinct (map f (sel @ rest))" using assms(2) by (metis mset_eq_imp_distinct_iff)
  then show ?thesis using \<open>set (sel @ rest) = set cs\<close> by auto
qed

lemma length_filter_key:
  "distinct (map f cs) \<Longrightarrow> c \<in> set cs \<Longrightarrow> length (filter (\<lambda>x. f x = f c) cs) = 1"
proof (induction cs)
  case (Cons a cs)
  show ?case
  proof (cases "c \<in> set cs")
    case True
    then have "f a \<noteq> f c" using Cons.prems by auto
    then show ?thesis using True Cons by simp
  next
    case False
    then have "a = c" "f c \<notin> f ` set cs" using Cons.prems by auto
    then have "filter (\<lambda>x. f x = f c) cs = []" unfolding filter_empty_conv by (metis imageI)
    note this \<open>a = c\<close>
    then show ?thesis by simp
  qed
qed simp

lemma resultWithPrimary_some:
  assumes "distinct (map (up_ID \<circ> ci_Upstream) cs)" "weights_fit cs" "bal_ready draws (nat (n - 1)) b"
    and "u \<in> ci_Upstream ` set cs" "1 \<le> n"
  shows "\<exists>us b'. resultWithPrimary draws r u cs b n = Some (map (selected r) (u # us), b')
    \<and> set us \<subseteq> ci_Upstream ` set cs \<and> distinct (map up_ID (u # us)) \<and> length (u # us) = min (nat n) (length cs)"
proof (cases "n \<le> 1 \<or> length cs \<le> 1")
  case True
  moreover have "1 \<le> length cs" using assms(4) by (cases cs) auto
  ultimately have "min (nat n) (length cs) = 1" using assms(5) by (auto simp: min_def)
  then show ?thesis using True assms(5) by (auto simp: resultWithPrimary_def)
next
  case False
  let ?rem = "filter (\<lambda>c. up_ID (ci_Upstream c) \<noteq> up_ID u) cs"
  obtain c where c: "c \<in> set cs" "u = ci_Upstream c" using assms(4) by auto
  have one: "length (filter (\<lambda>c. up_ID (ci_Upstream c) = up_ID u) cs) = 1"
    using length_filter_key[OF assms(1) c(1)] c(2) by (simp add: comp_def)
  have len: "length ?rem = length cs - 1"
    using sum_length_filter_compl[of "\<lambda>c. up_ID (ci_Upstream c) = up_ID u" cs] one by simp
  obtain sel rest b' where s: "SelectN draws b ?rem (n - 1) = Some (map ci_Upstream sel, b')"
      "mset sel + mset rest = mset ?rem" "length sel = min (nat (n - 1)) (length ?rem)"
    using SelectN_selects[OF assms(3) weights_fit_filter[OF assms(2)]] False by fastforce
  have d: "distinct (map (up_ID \<circ> ci_Upstream) sel) \<and> set sel \<subseteq> set ?rem"
    using distinct_sel[OF s(2), of "up_ID \<circ> ci_Upstream"] assms(1) by (simp add: distinct_map_filter)
  have "length (u # map ci_Upstream sel) = min (nat n) (length cs)" using s(3) len False by auto
  moreover have "distinct (map up_ID (u # map ci_Upstream sel))" using d by (auto simp: comp_def)
  moreover have "resultWithPrimary draws r u cs b n = Some (map (selected r) (u # map ci_Upstream sel), b')"
    using False assms(5) s(1) by (simp add: resultWithPrimary_def)
  ultimately show ?thesis using d by (intro exI[of _ "map ci_Upstream sel"] exI[of _ b']) auto
qed

lemma SelectWithRetry_some:
  assumes "group_ok draws r g"
  defines "cs \<equiv> build_candidates (rt_connTracker r) {} (rg_members g)"
  shows "\<exists>us r'. SelectWithRetry draws r g sid model now = Some (map (selected r) us, r')
    \<and> set us \<subseteq> ci_Upstream ` set cs \<and> distinct (map up_ID us) \<and> length us = min (nat (select_count g)) (length cs)
    \<and> (cs \<noteq> [] \<and> sid \<noteq> '''' \<and> model \<noteq> '''' \<longrightarrow>
        rt_sessionMap r' (sid, model) = Some \<lparr>sb_upstreamID = up_ID (hd us), sb_usedAt = now\<rparr>
        \<and> rt_sessionTTL r' = rt_sessionTTL r)"
proof -
  let ?n = "select_count g" and ?b = "group_balancer r g"
  have n: "i64 (1 + (case grp_RetryPolicy (rg_group g) of Some p \<Rightarrow> MaxRetries p | None \<Rightarrow> 0)) = ?n"
    using assms(1) int64_simps(2)[of ?n] by (simp add: group_ok_def select_count_def)
  have ok: "1 \<le> ?n" "bal_ready draws (nat ?n) ?b" "weights_fit cs"
    using assms(1) by (simp_all add: group_ok_def cs_def)
  have dist: "distinct (map (up_ID \<circ> ci_Upstream) cs)"
    using assms(1) build_candidates_distinct by (simp add: group_ok_def cs_def)
  show ?thesis
  proof (cases "cs = []")
    case True then show ?thesis using cs_def by (simp add: SelectWithRetry_def Let_def)
  next
    case ne: False
    show ?thesis
    proof (cases "sid \<noteq> '''' \<and> model \<noteq> ''''")
      case True
      have k: "nat ?n = Suc (nat (?n - 1))" using ok(1) by simp
      obtain u b' where u: "pinSessionToUpstream draws r (sid, model) cs ?b now
          = Some (Some u, r\<lparr>rt_sessionMap := (rt_sessionMap r)((sid, model) \<mapsto> \<lparr>sb_upstreamID = up_ID u, sb_usedAt = now\<rparr>)\<rparr>, b')"
          "u \<in> ci_Upstream ` set cs" "bal_ready draws (nat (?n - 1)) b'"
        using pinSession_some[OF ne ok(3) ok(2)[unfolded k], of r "(sid, model)" now] by blast
      let ?r = "r\<lparr>rt_sessionMap := (rt_sessionMap r)((sid, model) \<mapsto> \<lparr>sb_upstreamID = up_ID u, sb_usedAt = now\<rparr>)\<rparr>"
      obtain us b'' where us: "resultWithPrimary draws ?r u cs b' ?n = Some (map (selected r) (u # us), b'')"
          "set us \<subseteq> ci_Upstream ` set cs" "distinct (map up_ID (u # us))" "length (u # us) = min (nat ?n) (length cs)"
        using resultWithPrimary_some[OF dist ok(3) u(3,2) ok(1), of ?r] by auto
      have "SelectWithRetry draws r g sid model now = Some (map (selected r) (u # us), store_balancer ?r g b'')"
        using ne True u(1) us(1) n by (simp add: SelectWithRetry_def Let_def flip: cs_def)
      moreover have "rt_sessionMap (store_balancer ?r g b'') = rt_sessionMap ?r"
          "rt_sessionTTL (store_balancer ?r g b'') = rt_sessionTTL r"
        by (simp_all add: store_balancer_def split: option.splits)
      ultimately show ?thesis using us u(2) by (intro exI[of _ "u # us"] exI[of _ "store_balancer ?r g b''"]) auto
    next
      case False
      obtain sel rest b' where s: "SelectN draws ?b cs ?n = Some (map ci_Upstream sel, b')"
          "mset sel + mset rest = mset cs" "length sel = min (nat ?n) (length cs)"
        using SelectN_selects[OF ok(2,3), of] ok(1) by auto
      have "SelectWithRetry draws r g sid model now = Some (map (selected r) (map ci_Upstream sel), store_balancer r g b')"
        using ne False s(1) n by (auto simp: SelectWithRetry_def Let_def simp flip: cs_def)
      then show ?thesis using distinct_sel[OF s(2) dist] s(3) ne False
        by (intro exI[of _ "map ci_Upstream sel"] exI[of _ "store_balancer r g b'"]) (auto simp: comp_def)
    qed
  qed
qed

section \<open>Properties of selection\<close>


definition sample_group :: resolvedGroup where
  "sample_group = \<lparr>rg_group = \<lparr>grp_ID = ''g'', grp_Name = ''g'', grp_LBPolicy = ''least_conn'',
       grp_RetryPolicy = Some \<lparr>MaxRetries = 1, RetryOn = [], RetryDelay = 0\<rparr>, grp_Status = ''active''\<rparr>,
     rg_members = [\<lparr>gm_upstream = sample_upstream ''a'', gm_weight = 1, gm_isBackup = False\<rparr>,
                   \<lparr>gm_upstream = sample_upstream ''b'', gm_weight = 2, gm_isBackup = False\<rparr>]\<rparr>"

definition sample_router :: Router where
  "sample_router = NewRouter (\<lambda>_. None) [] [] [] [] 600 None"

lemma sample_group_ok [simp]: "group_ok draws sample_router sample_group"
  by (simp add: group_ok_def sample_group_def sample_router_def NewRouter_def buildMaps_def Let_def select_count_def
      sample_upstream_def bal_ready_def group_balancer_def NewBalancer_def int64_max_def weights_fit_def
      build_candidates_def eligible_def candidate_of_def effective_weight_def)

lemma sample_candidates [simp]:
  "length (build_candidates (rt_connTracker sample_router) {} (rg_members sample_group)) = 2"
  by (simp add: sample_group_def sample_upstream_def build_candidates_def eligible_def Let_def)


text \<open>Session affinity: if a request with a session and a model was given a list headed by some
  upstream, then any later request of the same (session, model) within the TTL - against any
  router state that still has the binding - is headed by the same upstream, as long as that upstream
  is still a candidate; whatever the balancer would have picked.\<close>
lemma session_affinity:
  assumes "group_ok draws r g" "sid \<noteq> ''''" "model \<noteq> ''''"
    and "SelectWithRetry draws r g sid model now = Some (s # ss, r')"
    and "group_ok draws r2 g2"
    and "rt_sessionMap r2 (sid, model) = rt_sessionMap r' (sid, model)" "rt_sessionTTL r2 = rt_sessionTTL r'"
    and "now2 - now < rt_sessionTTL r"
    and "up_ID (sel_Upstream s) \<in> (up_ID \<circ> ci_Upstream) ` set (build_candidates (rt_connTracker r2) {} (rg_members g2))"
  shows "\<exists>s2 ss2 r2'. SelectWithRetry draws r2 g2 sid model now2 = Some (s2 # ss2, r2')
    \<and> up_ID (sel_Upstream s2) = up_ID (sel_Upstream s)"
proof -
  let ?cs = "build_candidates (rt_connTracker r) {} (rg_members g)"
  let ?cs2 = "build_candidates (rt_connTracker r2) {} (rg_members g2)"
  have ne: "?cs \<noteq> []"
    using assms(4) by (auto simp: SelectWithRetry_def Let_def)
  obtain us r'' where us': "SelectWithRetry draws r g sid model now = Some (map (selected r) us, r'')"
      "?cs \<noteq> [] \<and> sid \<noteq> '''' \<and> model \<noteq> '''' \<longrightarrow>
        rt_sessionMap r'' (sid, model) = Some \<lparr>sb_upstreamID = up_ID (hd us), sb_usedAt = now\<rparr>
        \<and> rt_sessionTTL r'' = rt_sessionTTL r"
    using SelectWithRetry_some[OF assms(1), of sid model now] by blast
  then have us: "s # ss = map (selected r) us"
      "rt_sessionMap r' (sid, model) = Some \<lparr>sb_upstreamID = up_ID (hd us), sb_usedAt = now\<rparr>" "rt_sessionTTL r' = rt_sessionTTL r"
    using assms(2,3,4) ne by simp_all
  then have hd: "up_ID (hd us) = up_ID (sel_Upstream s)" by (cases us) (auto simp: selected_def)
  obtain u where u: "findInCandidates ?cs2 (up_ID (sel_Upstream s)) = Some u" "up_ID u = up_ID (sel_Upstream s)"
    using findInCandidates_complete[OF assms(9)] by blast
  then have "usable_binding r2 (sid, model) ?cs2 now2 = Some u"
    using us(2,3) hd assms(6,7,8) by (simp add: usable_binding_def)
  then have pin: "pinSessionToUpstream draws r2 (sid, model) ?cs2 (group_balancer r2 g2) now2
      = Some (Some u, r2\<lparr>rt_sessionMap := (rt_sessionMap r2)((sid, model) \<mapsto> \<lparr>sb_upstreamID = up_ID u, sb_usedAt = now2\<rparr>)\<rparr>,
              group_balancer r2 g2)"
    by (simp add: pinSessionToUpstream_def)
  have ne2: "?cs2 \<noteq> []" using assms(9) by auto
  obtain us2 r2' where sel2: "SelectWithRetry draws r2 g2 sid model now2 = Some (map (selected r2) us2, r2')"
    using SelectWithRetry_some[OF assms(5), of sid model now2] by blast
  moreover have "\<exists>s2 ss2. map (selected r2) us2 = s2 # ss2 \<and> sel_Upstream s2 = u"
    using sel2 pin ne2 assms(2,3)
    by (auto simp: SelectWithRetry_def Let_def resultWithPrimary_def selected_def split: if_splits)
  ultimately show ?thesis using u(2) by auto
qed

lemma sample_group_ok2:
  "group_ok draws (sample_router\<lparr>rt_sessionMap := m\<rparr>) sample_group"
  by (simp add: group_ok_def sample_group_def sample_router_def NewRouter_def buildMaps_def Let_def select_count_def
      sample_upstream_def bal_ready_def group_balancer_def NewBalancer_def int64_max_def weights_fit_def
      build_candidates_def eligible_def candidate_of_def effective_weight_def)

lemma session_affinity_witness:
  "\<exists>s ss r' s2 ss2 r2'. SelectWithRetry (\<lambda>_ _. 0) sample_router sample_group ''s'' ''m'' 5 = Some (s # ss, r')
    \<and> SelectWithRetry (\<lambda>_ _. 0) (sample_router\<lparr>rt_sessionMap := rt_sessionMap r'\<rparr>) sample_group ''s'' ''m'' 9 = Some (s2 # ss2, r2')
    \<and> up_ID (sel_Upstream s2) = up_ID (sel_Upstream s)"
proof -
  let ?r = sample_router and ?g = sample_group
  let ?cs = "build_candidates (rt_connTracker ?r) {} (rg_members ?g)"
  obtain us r' where us: "SelectWithRetry (\<lambda>_ _. 0) ?r ?g ''s'' ''m'' 5 = Some (map (selected ?r) us, r')"
      "set us \<subseteq> ci_Upstream ` set ?cs" "length us = min (nat (select_count ?g)) (length ?cs)"
      "?cs \<noteq> [] \<and> ''s'' \<noteq> '''' \<and> ''m'' \<noteq> '''' \<longrightarrow>
        rt_sessionMap r' (''s'', ''m'') = Some \<lparr>sb_upstreamID = up_ID (hd us), sb_usedAt = 5\<rparr>
        \<and> rt_sessionTTL r' = rt_sessionTTL ?r"
    using SelectWithRetry_some[OF sample_group_ok, of "\<lambda>_ _. 0" "''s''" "''m''" 5] by blast
  have "select_count ?g = 2" by (simp add: select_count_def sample_group_def)
  then have "length us = 2" using us(3) by simp
  then obtain u us' where u: "us = u # us'" by (cases us) simp_all
  have "?cs \<noteq> []" using sample_candidates by force
  then have ttl: "rt_sessionTTL r' = rt_sessionTTL ?r" using us(4) by simp
  have "u \<in> ci_Upstream ` set ?cs" using us(2) u by simp
  then have cand: "up_ID (sel_Upstream (selected ?r u)) \<in> (up_ID \<circ> ci_Upstream) ` set ?cs"
    by (auto simp: selected_def)
  have "rt_sessionTTL ?r = 600" by (simp add: sample_router_def NewRouter_def buildMaps_def Let_def)
  then show ?thesis
    using session_affinity[OF sample_group_ok _ _ us(1)[unfolded u list.map] sample_group_ok2, of "rt_sessionMap r'" 9] ttl cand us(1) u
    by auto
qed

text \<open>Concurrent requests of one session converge: a request that lost the race - it saw no usable
  binding and made its own pick, but another request has meanwhile installed a binding - returns
  the installed upstream and leaves the binding alone, as long as that binding is fresh and its upstream
  is one of the loser's candidates.\<close>
lemma concurrent_pins_converge:
  assumes "pin_claim r key cs1 t1 p1 = (u1, r1)" and "rt_sessionMap r key = None"
    and "t2 - t1 < rt_sessionTTL r" and "up_ID u1 \<in> (up_ID \<circ> ci_Upstream) ` set cs2"
  shows "\<exists>u2. pin_claim r1 key cs2 t2 p2 = (u2, r1) \<and> up_ID u2 = up_ID u1 \<and> u1 = p1"
proof -
  have r1: "u1 = p1" "r1 = r\<lparr>rt_sessionMap := (rt_sessionMap r)(key \<mapsto> \<lparr>sb_upstreamID = up_ID p1, sb_usedAt = t1\<rparr>)\<rparr>"
    using assms(1,2) by (auto simp: pin_claim_def Let_def)
  obtain u where "findInCandidates cs2 (up_ID u1) = Some u" "up_ID u = up_ID u1"
    using findInCandidates_complete[OF assms(4)] by blast
  then show ?thesis using r1 assms(3) by (simp add: pin_claim_def usable_binding_def Let_def)
qed

lemma concurrent_pins_converge_witness:
  "\<exists>u2. pin_claim (snd (pin_claim sample_router (''s'', ''m'') [sample_candidate ''a'' 1 0] 5 (sample_upstream ''a''))) (''s'', ''m'')
      [sample_candidate ''b'' 1 0, sample_candidate ''a'' 1 0] 6 (sample_upstream ''b'')
      = (u2, snd (pin_claim sample_router (''s'', ''m'') [sample_candidate ''a'' 1 0] 5 (sample_upstream ''a'')))
    \<and> up_ID u2 = ''a''"
proof -
  have r: "rt_sessionMap sample_router = Map.empty" "rt_sessionTTL sample_router = 600"
    by (simp_all add: sample_router_def NewRouter_def buildMaps_def Let_def)
  have "pin_claim sample_router (''s'', ''m'') [sample_candidate ''a'' 1 0] 5 (sample_upstream ''a'')
      = (sample_upstream ''a'', snd (pin_claim sample_router (''s'', ''m'') [sample_candidate ''a'' 1 0] 5 (sample_upstream ''a'')))"
    by (simp add: pin_claim_def r Let_def)
  from concurrent_pins_converge[OF this] show ?thesis
    by (simp add: r sample_candidate_def sample_upstream_def)
qed

section \<open>Properties of bindings and of the model list\<close>

text \<open>Bindings are only dropped for cause: UnbindSessionFromUpstream removes a binding only if it still
  names the failed upstream (a newer binding to another upstream survives) and touches no other
  session; the periodic cleanup removes exactly the bindings idle longer than the TTL, so it can never
  remove one that a request would still follow.\<close>
lemma binding_removal:
  "(rt_sessionMap (UnbindSessionFromUpstream r sid model uid) k \<noteq> rt_sessionMap r k
      \<longleftrightarrow> sid \<noteq> '''' \<and> model \<noteq> '''' \<and> uid \<noteq> '''' \<and> k = (sid, model)
          \<and> map_option sb_upstreamID (rt_sessionMap r k) = Some uid)
   \<and> (rt_sessionMap (session_cleanup r now) k \<noteq> rt_sessionMap r k
      \<longleftrightarrow> (\<exists>b. rt_sessionMap r k = Some b \<and> now - sb_usedAt b > rt_sessionTTL r))
   \<and> usable_binding (session_cleanup r now) k cs now = usable_binding r k cs now"
  by (auto simp: UnbindSessionFromUpstream_def session_cleanup_def usable_binding_def split: option.splits)

lemma active_models_route_set:
  "set (active_models_route r ms route) = set ms \<union>
     (if route_Status route = ''active''
      then (case rt_groups r (route_UpstreamGroupID route) of None \<Rightarrow> {}
            | Some g \<Rightarrow> {n \<in> set (route_ModelNames route). model_active r n \<and> model_supported g n})
      else {})
   \<and> (distinct ms \<longrightarrow> distinct (active_models_route r ms route))"
proof -
  have "set (foldl (\<lambda>ms name. if name \<in> set ms then ms else if \<not> model_active r name then ms
          else if \<not> model_supported g name then ms else ms @ [name]) ms ns)
        = set ms \<union> {n \<in> set ns. model_active r n \<and> model_supported g n}
      \<and> (distinct ms \<longrightarrow> distinct (foldl (\<lambda>ms name. if name \<in> set ms then ms else if \<not> model_active r name then ms
          else if \<not> model_supported g name then ms else ms @ [name]) ms ns))" for g ns
    by (induction ns arbitrary: ms) auto
  then show ?thesis by (auto simp: active_models_route_def split: option.splits)
qed

text \<open>/v1/models lists each routable model once and nothing else: a name is listed iff some active
  route with a loaded group names it, the catalog (when present) has it as active, and an active
  member of that very group supports it.\<close>
lemma ActiveModels_exact:
  "distinct (ActiveModels r)
   \<and> (name \<in> set (ActiveModels r) \<longleftrightarrow>
      (\<exists>route g. route \<in> set (rt_routes r) \<and> route_Status route = ''active''
        \<and> rt_groups r (route_UpstreamGroupID route) = Some g \<and> name \<in> set (route_ModelNames route)
        \<and> model_active r name \<and> model_supported g name))"
proof -
  have "set (foldl (active_models_route r) ms rs) = set ms \<union>
      {n. \<exists>route g. route \<in> set rs \<and> route_Status route = ''active''
        \<and> rt_groups r (route_UpstreamGroupID route) = Some g \<and> n \<in> set (route_ModelNames route)
        \<and> model_active r n \<and> model_supported g n}
      \<and> (distinct ms \<longrightarrow> distinct (foldl (active_models_route r) ms rs))" for ms rs
  proof (induction rs arbitrary: ms)
    case (Cons x rs)
    show ?case using Cons[of "active_models_route r ms x"] active_models_route_set[of r ms x]
      by (auto split: option.splits if_splits)
  qed simp
  from this[of "[]" "rt_routes r"] show ?thesis by (auto simp: ActiveModels_def)
qed

text \<open>A member weight of 0 does not disable the upstream, although the field's documentation says it
  does: effective_weight is at least 1, and with weights 1 and 0 one of the two equally likely draws
  selects the upstream of weight 0.\<close>
lemma weight_zero_still_selected:
  "build_candidates ct {} [\<lparr>gm_upstream = sample_upstream ''a'', gm_weight = 1, gm_isBackup = False\<rparr>,
      \<lparr>gm_upstream = sample_upstream ''b'', gm_weight = 0, gm_isBackup = False\<rparr>]
     = [sample_candidate ''a'' 1 (conn_count ct ''a''), sample_candidate ''b'' 0 (conn_count ct ''b'')]
   \<and> total_weight [sample_candidate ''a'' 1 m, sample_candidate ''b'' 0 n] = 2
   \<and> weightedRandomIdx (\<lambda>_ _. 1) bal [sample_candidate ''a'' 1 m, sample_candidate ''b'' 0 n]
     = Some ((Some (sample_upstream ''b''), 1), bal\<lparr>bal_draws := Suc (bal_draws bal)\<rparr>)"
  by (simp add: build_candidates_def eligible_def candidate_of_def sample_candidate_def sample_upstream_def
      total_weight_def effective_weight_def weightedRandomIdx_def i64_def Let_def)

end
