(* ===== verification/Gateway.thy ===== *)
theory Gateway
  imports Catalog Admission RouterEngine
begin

text \<open>
  The ingress of package proxy: client classification and trace extraction (trace_middleware.go), the
  early model resolution (resolve_model_middleware.go), the handlers that resolve the model again, apply
  the member's and the key's model lists and build the request context (handler.go, multipart_util.go),
  and the model listing (router.go). A request is a record of what the standard library makes of it: the
  header lookup, the media type, the JSON document of the body, the parts of a multipart body. gjson is a
  third-party library: its results are arguments. A body whose transfer breaks off is one on which every
  reader gives up; the trace middleware leaves the truncated body to the handlers, which then decode no
  model from it and refuse the request with another status.
\<close>

section \<open>Requests\<close>

text \<open>A JSON document; an object keeps its members in order, duplicates included.\<close>
datatype json = JNull | JBool bool | JNum | JStr string | JArr "json list" | JObj "(string \<times> json) list"

text \<open>A gjson result: missing, a string, an array of results with its text, anything else with its text.\<close>
datatype gj = GNone | GStr string | GArr string "gj list" | GOther string

record http_body =
  bd_Size :: int
  bd_ReadErr :: bool
  bd_JSON :: "json option"
  bd_gjson :: "string \<Rightarrow> gj"
  bd_Parts :: "(string \<times> string) list"
  bd_PartsEOF :: bool

record http_request =
  rq_Method :: string
  rq_Path :: string
  rq_Wildcard :: string
  rq_Header :: "string \<Rightarrow> string"
  rq_MediaType :: string
  rq_MediaErr :: bool
  rq_Boundary :: string
  rq_Body :: http_body

text \<open>Result.String() of gjson.\<close>
fun gj_String :: "gj \<Rightarrow> string" where
  "gj_String GNone = ''''"
| "gj_String (GStr s) = s"
| "gj_String (GArr s _) = s"
| "gj_String (GOther s) = s"

text \<open>encoding/json folds case when it matches object keys with field names; U+017F folds to s.\<close>
fun unfold_long_s :: "string \<Rightarrow> string" where
  "unfold_long_s (c # d # s) =
     (if of_char c = (197::nat) \<and> of_char d = (191::nat) then CHR ''s'' # unfold_long_s s else c # unfold_long_s (d # s))"
| "unfold_long_s s = s"

definition key_matches :: "string \<Rightarrow> string \<Rightarrow> bool" where
  "key_matches field k = (to_lower (unfold_long_s k) = field)"

text \<open>json.Unmarshal into a struct field: every member with a matching key is decoded in turn, a value of
  another type is skipped.\<close>
definition unmarshal_string :: "json option \<Rightarrow> string \<Rightarrow> string" where
  "unmarshal_string doc field =
     (case doc of
        Some (JObj ms) \<Rightarrow>
          foldl (\<lambda>v (k, j). case j of JStr s \<Rightarrow> if key_matches field k then s else v | _ \<Rightarrow> v) '''' ms
      | _ \<Rightarrow> '''')"

definition unmarshal_bool :: "json option \<Rightarrow> string \<Rightarrow> bool" where
  "unmarshal_bool doc field =
     (case doc of
        Some (JObj ms) \<Rightarrow>
          foldl (\<lambda>v (k, j). case j of JBool b \<Rightarrow> if key_matches field k then b else v | _ \<Rightarrow> v) False ms
      | _ \<Rightarrow> False)"

definition last_index :: "char \<Rightarrow> string \<Rightarrow> nat option" where
  "last_index c s =
     (if c \<in> set s then Some (length s - 1 - length (takeWhile (\<lambda>d. d \<noteq> c) (rev s))) else None)"

section \<open>Trace identifiers (trace_middleware.go)\<close>

record TraceConfig =
  TraceHeader :: string
  ExtraTraceHeaders :: "string list"
  ExtraTraceBodyFields :: "string list"
  ClaudeCodeTraceEnabled :: bool
  CodexTraceEnabled :: bool
  OpenClawTraceEnabled :: bool
  RequireSession :: bool

definition is_post :: "http_request \<Rightarrow> bool" where "is_post r = (rq_Method r = ''POST'')"

definition codexSessionIDFromRequest :: "http_request \<Rightarrow> string" where
  "codexSessionIDFromRequest r =
     (let i = trim_space (rq_Header r ''Session-Id'') in
      if i \<noteq> '''' then i else trim_space (rq_Header r ''Session_id''))"

text \<open>The regular expression of the legacy user id. Its literals fold case: a letter s also matches U+017F.\<close>
fun match_lit :: "string \<Rightarrow> string \<Rightarrow> string option" where
  "match_lit [] s = Some s"
| "match_lit (c # cs) [] = None"
| "match_lit (c # cs) (d # ds) =
     (if lower_char d = c then match_lit cs ds
      else if c = CHR ''s'' \<and> of_char d = (197::nat) \<and> (case ds of [] \<Rightarrow> False | e # _ \<Rightarrow> of_char e = (191::nat))
      then match_lit cs (tl ds) else None)"

definition is_hex :: "char \<Rightarrow> bool" where
  "is_hex c = (char_in c 48 57 \<or> char_in c 97 102 \<or> char_in c 65 70)"

definition match_hex :: "nat \<Rightarrow> string \<Rightarrow> string option" where
  "match_hex n s = (if length s \<ge> n \<and> list_all is_hex (take n s) then Some (drop n s) else None)"

definition match_uuid :: "string \<Rightarrow> string option" where
  "match_uuid s =
     foldl (\<lambda>acc n. Option.bind (Option.bind acc (match_lit ''-'')) (match_hex n)) (match_hex 8 s) [4, 4, 4, 12]"

definition legacy_session :: "string \<Rightarrow> string option" where
  "legacy_session u =
     (case Option.bind (Option.bind (match_lit ''user_'' u) (match_hex 64)) (match_lit ''_account_'') of
        None \<Rightarrow> None
      | Some r \<Rightarrow>
          (case match_lit ''_session_'' (the_or r (match_uuid r)) of
             None \<Rightarrow> None
           | Some sess \<Rightarrow> if match_uuid sess = Some [] then Some sess else None))"

text \<open>gjson reads the user id as a document of its own.\<close>
definition extractClaudeTraceID :: "(string \<Rightarrow> string \<Rightarrow> gj) \<Rightarrow> string \<Rightarrow> string" where
  "extractClaudeTraceID gjson_text userID =
     (let sessionID = gj_String (gjson_text userID ''session_id'') in
      if sessionID \<noteq> '''' then trim_space sessionID
      else (case legacy_session userID of None \<Rightarrow> '''' | Some s \<Rightarrow> trim_space s))"

definition body_unreadable :: "http_body \<Rightarrow> bool" where
  "body_unreadable b = (bd_ReadErr b \<or> bd_Size b = 0)"

definition tryExtractClaudeCodeTraceID :: "(string \<Rightarrow> string \<Rightarrow> gj) \<Rightarrow> http_request \<Rightarrow> string" where
  "tryExtractClaudeCodeTraceID gt r =
     (if \<not> is_post r \<or> rq_Path r \<noteq> ''/v1/messages'' \<or> body_unreadable (rq_Body r) then ''''
      else let userID = gj_String (bd_gjson (rq_Body r) ''metadata.user_id'') in
           if userID = '''' then '''' else extractClaudeTraceID gt userID)"

definition claudeAgentSDKSystemPrompt :: string where
  "claudeAgentSDKSystemPrompt = ''You are a Claude agent, built on Anthropic'' @ [CHR 0x27] @ ''s Claude Agent SDK.''"

text \<open>The text field of an array item is gjson's lookup in it.\<close>
definition systemPromptInAgentSDKAllowlist :: "(gj \<Rightarrow> string \<Rightarrow> gj) \<Rightarrow> http_body \<Rightarrow> bool" where
  "systemPromptInAgentSDKAllowlist item_get b =
     (case bd_gjson b ''system'' of
        GStr s \<Rightarrow> s = claudeAgentSDKSystemPrompt
      | GArr _ items \<Rightarrow> list_ex (\<lambda>i. item_get i ''text'' = GStr claudeAgentSDKSystemPrompt) items
      | _ \<Rightarrow> False)"

definition classifyClaudeAgentSDK :: "(gj \<Rightarrow> string \<Rightarrow> gj) \<Rightarrow> http_request \<Rightarrow> string" where
  "classifyClaudeAgentSDK item_get r =
     (if \<not> is_post r \<or> rq_Path r \<noteq> ''/v1/messages'' \<or> body_unreadable (rq_Body r) then ''''
      else if \<not> systemPromptInAgentSDKAllowlist item_get (rq_Body r) then ''''
      else if has_prefix (rq_Header r ''User-Agent'') ''Python-urllib/''
              \<and> bd_gjson (rq_Body r) ''output_config.format.type'' = GStr ''json_schema''
      then ''plugin:security-guidance'' else ''claude-agent-sdk'')"

definition isOpenClawRequest :: "http_request \<Rightarrow> bool" where
  "isOpenClawRequest r =
     (if contains_str (to_lower (rq_Header r ''User-Agent'')) ''openclaw/'' then True
      else EqualFold (rq_Header r ''originator'') ''openclaw'')"

definition isCompletionEndpoint :: "string \<Rightarrow> bool" where
  "isCompletionEndpoint path = (path = ''/v1/messages'' \<or> path = ''/v1/responses'')"

record gjson_lib =
  gl_text :: "string \<Rightarrow> string \<Rightarrow> gj"
  gl_item :: "gj \<Rightarrow> string \<Rightarrow> gj"

definition deriveClientKind :: "gjson_lib \<Rightarrow> http_request \<Rightarrow> string \<times> string" where
  "deriveClientKind gl r =
     (let src = classifyClaudeAgentSDK (gl_item gl) r; ua = to_lower (rq_Header r ''User-Agent'') in
      if tryExtractClaudeCodeTraceID (gl_text gl) r \<noteq> '''' then (''claude-code'', '''')
      else if src \<noteq> '''' then (''claude-code'', src)
      else if contains_str ua ''opencode/'' \<or> trim_space (rq_Header r ''X-Opencode-Session'') \<noteq> '''' then (''opencode'', '''')
      else if contains_str ua ''claude/'' \<and> contains_str ua ''electron/'' then (''claude-desktop'', '''')
      else if isOpenClawRequest r then (''openclaw'', '''')
      else if codexSessionIDFromRequest r \<noteq> '''' then (''codex'', '''')
      else (''unknown'', ''''))"

definition first_nonempty :: "string list \<Rightarrow> string" where
  "first_nonempty xs = (case find (\<lambda>x. x \<noteq> '''') xs of Some x \<Rightarrow> x | None \<Rightarrow> '''')"

definition tryExtractTraceIDFromBody :: "http_request \<Rightarrow> string list \<Rightarrow> string" where
  "tryExtractTraceIDFromBody r paths =
     (if body_unreadable (rq_Body r) then '''' else first_nonempty (map (\<lambda>f. gj_String (bd_gjson (rq_Body r) f)) paths))"

definition extractTraceID :: "gjson_lib \<Rightarrow> TraceConfig \<Rightarrow> APIKey option \<Rightarrow> http_request \<Rightarrow> string \<times> string" where
  "extractTraceID gl cfg apiKey r =
     (let hdr = rq_Header r (TraceHeader cfg);
          extra = first_nonempty (map (rq_Header r) (ExtraTraceHeaders cfg));
          claude = tryExtractClaudeCodeTraceID (gl_text gl) r;
          opencode = trim_space (rq_Header r ''X-Opencode-Session'');
          codex = codexSessionIDFromRequest r;
          body = tryExtractTraceIDFromBody r (ExtraTraceBodyFields cfg)
      in if hdr \<noteq> '''' then (hdr, ''header'')
         else if extra \<noteq> '''' then (extra, ''header'')
         else if ClaudeCodeTraceEnabled cfg \<and> claude \<noteq> '''' then (claude, ''claude-code'')
         else if opencode \<noteq> '''' then (opencode, ''opencode'')
         else if CodexTraceEnabled cfg \<and> codex \<noteq> '''' then
           (codex, if contains_str (to_lower (rq_Header r ''User-Agent'')) ''opencode/'' then ''opencode'' else ''codex'')
         else if OpenClawTraceEnabled cfg \<and> isOpenClawRequest r \<and> apiKey \<noteq> None then
           (the_or '''' (map_option key_ID apiKey), ''openclaw'')
         else if body \<noteq> '''' then (body, ''body'')
         else ('''', ''''))"

record trace_context =
  tc_TraceID :: string
  tc_TraceSource :: string
  tc_ClientKind :: string
  tc_ClientBucket :: string
  tc_SDKSource :: string

text \<open>None: rejected with status 400. Recording the trace row is best effort and left out.\<close>
definition TraceMiddleware :: "gjson_lib \<Rightarrow> TraceConfig \<Rightarrow> APIKey option \<Rightarrow> http_request \<Rightarrow> trace_context option" where
  "TraceMiddleware gl cfg apiKey r =
     (case extractTraceID gl cfg apiKey r of (traceID, source) \<Rightarrow>
        if RequireSession cfg \<and> traceID = '''' \<and> is_post r \<and> isCompletionEndpoint (rq_Path r) then None
        else (case deriveClientKind gl r of (kind, sdk) \<Rightarrow>
                Some \<lparr>tc_TraceID = traceID, tc_TraceSource = (if traceID \<noteq> '''' then source else ''''),
                      tc_ClientKind = kind, tc_ClientBucket = MapClientKindToBucket kind, tc_SDKSource = sdk\<rparr>))"


section \<open>Early model resolution (resolve_model_middleware.go)\<close>

definition gemini_model :: "string \<Rightarrow> (string \<times> string) option" where
  "gemini_model wildcard =
     (case last_index (CHR '':'') wildcard of
        Some i \<Rightarrow> Some (take i wildcard, drop (Suc i) wildcard)
      | None \<Rightarrow>
          (case last_index (CHR ''/'') wildcard of
             Some i \<Rightarrow> Some (take i wildcard, drop (Suc i) wildcard)
           | None \<Rightarrow> None))"

definition extractModelFromMultipart :: "http_request \<Rightarrow> int \<Rightarrow> string" where
  "extractModelFromMultipart r maxBodySize =
     (let limit = (if maxBodySize \<le> 0 then 200 * 1048576 else maxBodySize); b = rq_Body r in
      if bd_ReadErr b \<or> bd_Size b > limit \<or> rq_MediaErr r \<or> rq_Boundary r = '''' then ''''
      else (case find (\<lambda>p. fst p = ''model'') (bd_Parts b) of
              None \<Rightarrow> ''''
            | Some p \<Rightarrow> trim_space (take 256 (snd p))))"

definition extractModelFromRequest :: "http_request \<Rightarrow> int \<Rightarrow> int \<Rightarrow> string" where
  "extractModelFromRequest r maxBodySize multipartMax =
     (if has_prefix (rq_Path r) ''/v1beta/models/'' then
        (let w = (if rq_Wildcard r = '''' then drop (length ''/v1beta/models/'') (rq_Path r) else rq_Wildcard r) in
         case gemini_model w of Some (m, _) \<Rightarrow> m | None \<Rightarrow> '''')
      else if rq_MediaType r = ''multipart/form-data'' then extractModelFromMultipart r multipartMax
      else
        (let limit = (if maxBodySize \<le> 0 then 16 * 1048576 else maxBodySize); b = rq_Body r in
         if bd_ReadErr b \<or> bd_Size b > limit then '''' else unmarshal_string (bd_JSON b) ''model''))"

text \<open>The model put in the context, and the catalog with its counters.\<close>
definition ResolveModelMiddleware :: "catalog option \<Rightarrow> int \<Rightarrow> int \<Rightarrow> http_request \<Rightarrow> Model option \<times> catalog option" where
  "ResolveModelMiddleware cat maxBodySize multipartMax r =
     (case cat of
        None \<Rightarrow> (None, None)
      | Some c \<Rightarrow>
          (let raw = extractModelFromRequest r maxBodySize multipartMax in
           if raw = '''' then (None, Some c)
           else (case Lookup c raw of (c', m) \<Rightarrow> (m, Some c'))))"

section \<open>Handlers (handler.go)\<close>

text \<open>A response of the handler itself: status and message, or the unsupported-model envelope
  (raw name, suggestions, reason), which has status 400.\<close>
datatype gate_error = GateError int string | UnsupportedModel string "string list" string

definition gate_status :: "gate_error \<Rightarrow> int" where
  "gate_status e = (case e of GateError s _ \<Rightarrow> s | UnsupportedModel _ _ _ \<Rightarrow> 400)"

definition resolveModel :: "catalog option \<Rightarrow> string \<Rightarrow> (gate_error + string) \<times> catalog option" where
  "resolveModel cat rawModel =
     (case cat of
        None \<Rightarrow> (Inr rawModel, None)
      | Some c \<Rightarrow>
          (case Lookup c rawModel of
             (c', None) \<Rightarrow> (Inl (UnsupportedModel rawModel (Suggest c' (to_lower rawModel) 2 3) ''unknown''), Some c')
           | (c', Some m) \<Rightarrow>
               if model_Status m = ''disabled'' then (Inl (UnsupportedModel rawModel [] ''disabled''), Some c')
               else (Inr (model_Name m), Some c')))"

definition modelInList :: "string list \<Rightarrow> string \<Rightarrow> bool" where
  "modelInList xs model = list_ex (\<lambda>m. m = model) xs"

definition checkModelAllowed :: "string list \<Rightarrow> APIKey \<Rightarrow> string \<Rightarrow> gate_error option" where
  "checkModelAllowed denied apiKey canonical =
     (if denied \<noteq> [] \<and> modelInList denied canonical then Some (GateError 403 ''model denied for this member by project policy'')
      else if key_AllowedModels apiKey \<noteq> [] \<and> \<not> modelInList (key_AllowedModels apiKey) canonical
      then Some (GateError 403 ''model not allowed for this API key'')
      else None)"

text \<open>The request context handed to the executor; rc_BodyModel is the name written into the body, if any.\<close>
record RequestContext =
  rc_ProjectID :: string
  rc_APIKeyID :: string
  rc_OAuthGrantID :: string
  rc_UserID :: string
  rc_Model :: string
  rc_ModelRef :: "Model option"
  rc_IsStream :: bool
  rc_RequestKind :: string
  rc_TraceID :: string
  rc_TraceSource :: string
  rc_SessionID :: string
  rc_Policy :: "RateLimitPolicy option"
  rc_HttpLogEnabled :: bool
  rc_BodyModel :: "string option"

definition new_context :: "auth_context \<Rightarrow> trace_context \<Rightarrow> Model option \<Rightarrow> string \<Rightarrow> string \<Rightarrow> bool \<Rightarrow> string option \<Rightarrow> RequestContext" where
  "new_context a t m kind model isStream bodyModel =
     \<lparr>rc_ProjectID = proj_ID (actx_Project a), rc_APIKeyID = key_ID (actx_APIKey a), rc_OAuthGrantID = actx_OAuthGrantID a,
      rc_UserID = key_CreatedBy (actx_APIKey a), rc_Model = model, rc_ModelRef = m, rc_IsStream = isStream,
      rc_RequestKind = kind, rc_TraceID = tc_TraceID t, rc_TraceSource = tc_TraceSource t, rc_SessionID = tc_TraceID t,
      rc_Policy = actx_Policy a, rc_HttpLogEnabled = False, rc_BodyModel = bodyModel\<rparr>"

record handler_config =
  hc_maxBodySize :: int
  hc_imagesMaxBodySize :: int
  hc_httpLogger :: bool
  hc_publishers :: "string list"

definition buildHttpLogAllowlist :: "string list \<Rightarrow> string list" where
  "buildHttpLogAllowlist pubs = map (\<lambda>p. to_lower (trim_space p)) pubs"

definition httpLogAllowsPublisher :: "string list \<Rightarrow> string \<Rightarrow> bool" where
  "httpLogAllowsPublisher allow pub = List.member allow (to_lower (trim_space pub))"

text \<open>http.MaxBytesReader fails on the first byte beyond the limit.\<close>
definition read_body :: "http_body \<Rightarrow> int \<Rightarrow> bool" where
  "read_body b limit = (\<not> bd_ReadErr b \<and> bd_Size b \<le> limit)"

type_synonym gate_result = "(gate_error + RequestContext) \<times> catalog option"

text \<open>Resolution and the model lists, common to the handlers; the continuation builds the context.\<close>
definition resolve_and_check :: "catalog option \<Rightarrow> auth_context \<Rightarrow> string \<Rightarrow> (string \<Rightarrow> RequestContext) \<Rightarrow> gate_result" where
  "resolve_and_check cat a raw k =
     (case resolveModel cat raw of
        (Inl e, cat') \<Rightarrow> (Inl e, cat')
      | (Inr canonical, cat') \<Rightarrow>
          (case checkModelAllowed (actx_DeniedModels a) (actx_APIKey a) canonical of
             Some e \<Rightarrow> (Inl e, cat')
           | None \<Rightarrow> (Inr (k canonical), cat')))"

definition handleProxyRequest ::
  "handler_config \<Rightarrow> catalog option \<Rightarrow> auth_context \<Rightarrow> trace_context \<Rightarrow> Model option \<Rightarrow> http_request \<Rightarrow> string \<Rightarrow> gate_result" where
  "handleProxyRequest cfg cat a t m r kind =
     (if \<not> read_body (rq_Body r) (hc_maxBodySize cfg) then (Inl (GateError 413 ''request body too large''), cat)
      else
        (let raw = unmarshal_string (bd_JSON (rq_Body r)) ''model''; isStream = unmarshal_bool (bd_JSON (rq_Body r)) ''stream''
         in resolve_and_check cat a raw (\<lambda>canonical.
              (new_context a t m kind canonical isStream (if canonical \<noteq> raw then Some canonical else None))
                \<lparr>rc_HttpLogEnabled := hc_httpLogger cfg
                    \<and> (case m of None \<Rightarrow> False | Some x \<Rightarrow> httpLogAllowsPublisher (buildHttpLogAllowlist (hc_publishers cfg)) (model_Publisher x))\<rparr>)))"

definition HandleCountTokens ::
  "handler_config \<Rightarrow> catalog option \<Rightarrow> auth_context \<Rightarrow> trace_context \<Rightarrow> Model option \<Rightarrow> http_request \<Rightarrow> gate_result" where
  "HandleCountTokens cfg cat a t m r =
     (if \<not> read_body (rq_Body r) (hc_maxBodySize cfg) then (Inl (GateError 413 ''request body too large''), cat)
      else
        (let raw = unmarshal_string (bd_JSON (rq_Body r)) ''model''
         in resolve_and_check cat a raw (\<lambda>canonical.
              new_context a t m ''anthropic_count_tokens'' canonical False (if canonical \<noteq> raw then Some canonical else None))))"

definition HandleGemini ::
  "handler_config \<Rightarrow> catalog option \<Rightarrow> auth_context \<Rightarrow> trace_context \<Rightarrow> Model option \<Rightarrow> http_request \<Rightarrow> gate_result" where
  "HandleGemini cfg cat a t m r =
     (case gemini_model (rq_Wildcard r) of
        None \<Rightarrow> (Inl (GateError 400 ''invalid Gemini API path: missing method separator (: or /)''), cat)
      | Some (model, method) \<Rightarrow>
          if model = '''' then (Inl (GateError 400 ''invalid Gemini API path: missing model''), cat)
          else if list_ex (\<lambda>c. c \<in> {CHR ''?'', CHR ''#'', CHR 0x5C}) model \<or> contains_str model ''..''
          then (Inl (GateError 400 ''invalid model name''), cat)
          else if method \<noteq> ''generateContent'' \<and> method \<noteq> ''streamGenerateContent''
          then (Inl (GateError 400 (''unsupported Gemini method: '' @ method)), cat)
          else if \<not> read_body (rq_Body r) (hc_maxBodySize cfg) then (Inl (GateError 413 ''request body too large''), cat)
          else resolve_and_check cat a model (\<lambda>canonical.
                 new_context a t m ''google_generate_content'' canonical (method = ''streamGenerateContent'') None))"

definition parseMultipartBool :: "string \<Rightarrow> bool" where
  "parseMultipartBool s = List.member [''1'', ''t'', ''true'', ''yes'', ''on''] (to_lower (trim_space s))"

text \<open>The last model and stream parts; None when the parts end in an error.\<close>
definition peek_part :: "string \<times> bool \<Rightarrow> string \<times> string \<Rightarrow> string \<times> bool" where
  "peek_part acc part =
     (if fst part = ''model'' then (trim_space (take 1024 (snd part)), snd acc)
      else if fst part = ''stream'' then (fst acc, parseMultipartBool (take 1024 (snd part))) else acc)"

definition peekMultipartFields :: "http_body \<Rightarrow> (string \<times> bool) option" where
  "peekMultipartFields b =
     (if \<not> bd_PartsEOF b then None else Some (foldl peek_part ('''', False) (bd_Parts b)))"

text \<open>multipart.Writer.SetBoundary accepts fewer boundaries than the reader.\<close>
definition valid_boundary :: "string \<Rightarrow> bool" where
  "valid_boundary b =
     (1 \<le> length b \<and> length b \<le> 70
      \<and> list_all (\<lambda>c. char_in c 97 122 \<or> char_in c 65 90 \<or> char_in c 48 57 \<or> c \<in> set ([CHR 0x27] @ ''()+_,-./:=? '')) b
      \<and> last b \<noteq> CHR '' '')"

text \<open>The parts of the rewritten body; None is an error.\<close>
definition rewriteMultipartField :: "http_body \<Rightarrow> string \<Rightarrow> string \<Rightarrow> string \<Rightarrow> (string \<times> string) list option" where
  "rewriteMultipartField b boundary field value =
     (if \<not> valid_boundary boundary \<or> \<not> bd_PartsEOF b then None
      else Some (map (\<lambda>(n, v). if n = field then (n, value) else (n, v)) (bd_Parts b)))"

text \<open>The rewrite follows the resolution and the lists.\<close>
definition rewrite_upload :: "http_request \<Rightarrow> gate_result \<Rightarrow> gate_result" where
  "rewrite_upload r g =
     (case g of
        (Inr rc, cat) \<Rightarrow>
          (case rc_BodyModel rc of
             Some canonical \<Rightarrow>
               (case rewriteMultipartField (rq_Body r) (rq_Boundary r) ''model'' canonical of
                  None \<Rightarrow> (Inl (GateError 500 ''multipart rewrite failed''), cat)
                | Some _ \<Rightarrow> g)
           | None \<Rightarrow> g)
      | _ \<Rightarrow> g)"

definition handleImagesEditsMultipart ::
  "handler_config \<Rightarrow> catalog option \<Rightarrow> auth_context \<Rightarrow> trace_context \<Rightarrow> Model option \<Rightarrow> http_request \<Rightarrow> gate_result" where
  "handleImagesEditsMultipart cfg cat a t m r =
     (let limit = (if hc_imagesMaxBodySize cfg \<le> 0 then hc_maxBodySize cfg else hc_imagesMaxBodySize cfg) in
      if \<not> read_body (rq_Body r) limit then (Inl (GateError 413 ''request body too large''), cat)
      else if rq_MediaErr r \<or> rq_Boundary r = '''' then (Inl (GateError 400 ''invalid multipart request''), cat)
      else (case peekMultipartFields (rq_Body r) of
              None \<Rightarrow> (Inl (GateError 400 ''multipart parse failed''), cat)
            | Some (model, isStream) \<Rightarrow>
                rewrite_upload r (resolve_and_check cat a model (\<lambda>canonical.
                  new_context a t m ''openai_images_edits'' canonical isStream (if canonical \<noteq> model then Some canonical else None)))))"

definition HandleImagesEdits ::
  "handler_config \<Rightarrow> catalog option \<Rightarrow> auth_context \<Rightarrow> trace_context \<Rightarrow> Model option \<Rightarrow> http_request \<Rightarrow> gate_result" where
  "HandleImagesEdits cfg cat a t m r =
     (if rq_MediaType r = ''multipart/form-data'' then handleImagesEditsMultipart cfg cat a t m r
      else if rq_MediaType r = ''application/json'' \<or> rq_MediaType r = ''''
      then handleProxyRequest cfg cat a t m r ''openai_images_edits''
      else (Inl (GateError 415 ''unsupported content type''), cat))"

section \<open>Dispatch and the model listing (router.go)\<close>

text \<open>The proxied endpoints of MountRoutes; None is an endpoint that proxies nothing.\<close>
definition dispatch ::
  "handler_config \<Rightarrow> catalog option \<Rightarrow> auth_context \<Rightarrow> trace_context \<Rightarrow> Model option \<Rightarrow> http_request \<Rightarrow> gate_result option" where
  "dispatch cfg cat a t m r =
     (let path = rq_Path r; proxied = (\<lambda>kind. Some (handleProxyRequest cfg cat a t m r kind)) in
      if \<not> is_post r then None
      else if path = ''/v1/messages'' then proxied ''anthropic_messages''
      else if path = ''/v1/messages/count_tokens'' then Some (HandleCountTokens cfg cat a t m r)
      else if path = ''/v1/responses'' then proxied ''openai_responses''
      else if path = ''/v1/responses/compact'' then proxied ''openai_responses_compact''
      else if path = ''/v1/chat/completions'' then proxied ''openai_chat_completions''
      else if path = ''/v1/images/generations'' then proxied ''openai_images_generations''
      else if path = ''/v1/images/edits'' then Some (HandleImagesEdits cfg cat a t m r)
      else if has_prefix path ''/v1beta/models/'' then Some (HandleGemini cfg cat a t m r)
      else None)"

definition subtractStrings :: "string list \<Rightarrow> string list \<Rightarrow> string list" where
  "subtractStrings a b = (if b = [] then a else filter (\<lambda>s. \<not> modelInList b s) a)"

text \<open>The names listed; active is what ActiveModels of the routing engine gives.\<close>
definition HandleListModels :: "string list \<Rightarrow> APIKey \<Rightarrow> string list \<Rightarrow> string list" where
  "HandleListModels active apiKey denied =
     (let names = (if key_AllowedModels apiKey \<noteq> [] then key_AllowedModels apiKey else active) in
      if denied \<noteq> [] then subtractStrings names denied else names)"

section \<open>Resolution and the model lists\<close>

lemma modelInList_iff [simp]: "modelInList xs m \<longleftrightarrow> m \<in> set xs"
  by (auto simp: modelInList_def list_ex_iff)

lemma checkModelAllowed_None:
  "checkModelAllowed denied k m = None \<longleftrightarrow> m \<notin> set denied \<and> (key_AllowedModels k = [] \<or> m \<in> set (key_AllowedModels k))"
  by (auto simp: checkModelAllowed_def)

lemma checkModelAllowed_Some:
  "checkModelAllowed denied k m = Some e \<Longrightarrow>
     gate_status e = 403 \<and> (m \<in> set denied \<or> key_AllowedModels k \<noteq> [] \<and> m \<notin> set (key_AllowedModels k))"
  by (auto simp: checkModelAllowed_def gate_status_def split: if_splits)

text \<open>The outcome of resolving a name: which row it denotes, or why it is refused.\<close>
definition resolves :: "catalog \<Rightarrow> auth_context \<Rightarrow> string \<Rightarrow> Model \<Rightarrow> bool" where
  "resolves c a raw mdl =
     (index c (to_lower raw) = Some mdl \<and> model_Status mdl \<noteq> ''disabled'' \<and> model_Name mdl \<notin> set (actx_DeniedModels a)
      \<and> (key_AllowedModels (actx_APIKey a) = [] \<or> model_Name mdl \<in> set (key_AllowedModels (actx_APIKey a))))"

definition refusal :: "catalog \<Rightarrow> auth_context \<Rightarrow> string \<Rightarrow> gate_error \<Rightarrow> bool" where
  "refusal c a raw e =
     (case e of
        UnsupportedModel n sugg reason \<Rightarrow>
          n = raw \<and> (reason = ''unknown'' \<and> index c (to_lower raw) = None
            \<or> reason = ''disabled'' \<and> sugg = [] \<and> (\<exists>mdl. index c (to_lower raw) = Some mdl \<and> model_Status mdl = ''disabled''))
      | GateError s _ \<Rightarrow>
          s = 403 \<and> (\<exists>mdl. index c (to_lower raw) = Some mdl \<and> model_Status mdl \<noteq> ''disabled'' \<and> \<not> resolves c a raw mdl))"

lemma resolve_and_check_cases:
  obtains (ok) mdl where "resolves c a raw mdl" "resolve_and_check (Some c) a raw k = (Inr (k (model_Name mdl)), Some (fst (Lookup c raw)))"
  | (refused) e where "refusal c a raw e" "resolve_and_check (Some c) a raw k = (Inl e, Some (fst (Lookup c raw)))"
proof (cases "index c (to_lower raw)")
  case None
  then have "Lookup c raw = (bumpUnknown c (to_lower raw), None)" by (simp add: Lookup_def)
  then have "resolve_and_check (Some c) a raw k
      = (Inl (UnsupportedModel raw (Suggest (bumpUnknown c (to_lower raw)) (to_lower raw) 2 3) ''unknown''), Some (fst (Lookup c raw)))"
    by (simp add: resolve_and_check_def resolveModel_def)
  moreover have "refusal c a raw (UnsupportedModel raw s ''unknown'')" for s using None by (simp add: refusal_def)
  ultimately show ?thesis using refused by blast
next
  case (Some mdl)
  obtain c' where l: "Lookup c raw = (c', Some mdl)" using Some by (simp add: Lookup_def Let_def)
  show ?thesis
  proof (cases "model_Status mdl = ''disabled''")
    case True
    then have "resolve_and_check (Some c) a raw k = (Inl (UnsupportedModel raw [] ''disabled''), Some (fst (Lookup c raw)))"
      using l by (simp add: resolve_and_check_def resolveModel_def)
    moreover have "refusal c a raw (UnsupportedModel raw [] ''disabled'')" using Some True by (simp add: refusal_def)
    ultimately show ?thesis using refused by blast
  next
    case False
    then have r: "resolveModel (Some c) raw = (Inr (model_Name mdl), Some (fst (Lookup c raw)))"
      using l by (simp add: resolveModel_def)
    show ?thesis
    proof (cases "checkModelAllowed (actx_DeniedModels a) (actx_APIKey a) (model_Name mdl)")
      case None
      then have "resolves c a raw mdl" using Some False by (simp add: resolves_def checkModelAllowed_None)
      moreover have "resolve_and_check (Some c) a raw k = (Inr (k (model_Name mdl)), Some (fst (Lookup c raw)))"
        using None r by (simp add: resolve_and_check_def)
      ultimately show ?thesis by (rule ok)
    next
      case S: (Some e)
      have "refusal c a raw e" using S Some False
        by (cases e) (auto simp: refusal_def resolves_def checkModelAllowed_def split: if_splits)
      then show ?thesis using refused[of e] r S by (simp add: resolve_and_check_def)
    qed
  qed
qed

lemma resolve_and_check_resolves:
  assumes "resolves c a raw mdl"
  shows "resolve_and_check (Some c) a raw k = (Inr (k (model_Name mdl)), Some (fst (Lookup c raw)))"
proof (cases rule: resolve_and_check_cases[of c a raw k])
  case (ok mdl')
  then show ?thesis using assms by (auto simp: resolves_def)
next
  case (refused e)
  then show ?thesis using assms by (auto simp: refusal_def resolves_def split: gate_error.splits)
qed

text \<open>The name a handler resolves, where it gets that far.\<close>
definition requested_model :: "http_request \<Rightarrow> string" where
  "requested_model r =
     (if has_prefix (rq_Path r) ''/v1beta/models/'' then (case gemini_model (rq_Wildcard r) of Some (m, _) \<Rightarrow> m | None \<Rightarrow> '''')
      else if rq_Path r = ''/v1/images/edits'' \<and> rq_MediaType r = ''multipart/form-data''
      then (case peekMultipartFields (rq_Body r) of Some (m, _) \<Rightarrow> m | None \<Rightarrow> '''')
      else unmarshal_string (bd_JSON (rq_Body r)) ''model'')"

text \<open>A handler answers by resolving the requested name with a context of its own, or refuses the request
  before it looks at the catalog.\<close>
definition gate_shape :: "catalog option \<Rightarrow> auth_context \<Rightarrow> Model option \<Rightarrow> string \<Rightarrow> gate_result \<Rightarrow> bool" where
  "gate_shape cat a m raw g \<longleftrightarrow>
     (\<exists>s msg. g = (Inl (GateError s msg), cat) \<and> s \<in> {400, 413, 415})
   \<or> (\<exists>k. (g = resolve_and_check cat a raw k \<or> g = (Inl (GateError 500 ''multipart rewrite failed''), snd (resolve_and_check cat a raw k)))
         \<and> (\<forall>n. rc_Model (k n) = n \<and> rc_ModelRef (k n) = m \<and> rc_ProjectID (k n) = proj_ID (actx_Project a)
               \<and> rc_APIKeyID (k n) = key_ID (actx_APIKey a) \<and> rc_UserID (k n) = key_CreatedBy (actx_APIKey a)
               \<and> rc_Policy (k n) = actx_Policy a \<and> (rc_BodyModel (k n) = None \<or> rc_BodyModel (k n) = Some n)))"


lemma gate_shape_early [intro]: "s \<in> {400, 413, 415} \<Longrightarrow> gate_shape cat a m raw (Inl (GateError s msg), cat)"
  by (auto simp: gate_shape_def)

lemma gate_shape_resolve:
  "(\<And>n. b n = None \<or> b n = Some n) \<Longrightarrow>
     gate_shape cat a m raw (resolve_and_check cat a raw (\<lambda>n. (new_context a t m kind n st (b n))\<lparr>rc_HttpLogEnabled := h n\<rparr>))"
  "(\<And>n. b n = None \<or> b n = Some n) \<Longrightarrow> gate_shape cat a m raw (resolve_and_check cat a raw (\<lambda>n. new_context a t m kind n st (b n)))"
  unfolding gate_shape_def
   by (rule disjI2, rule exI, rule conjI, rule disjI1, rule refl, simp add: new_context_def)+

lemma rewrite_upload_cases: "rewrite_upload r g = g \<or> rewrite_upload r g = (Inl (GateError 500 ''multipart rewrite failed''), snd g)"
  by (auto simp: rewrite_upload_def split: prod.split sum.split option.split)

lemma rewrite_upload_id: "valid_boundary (rq_Boundary r) \<Longrightarrow> bd_PartsEOF (rq_Body r) \<Longrightarrow> rewrite_upload r g = g"
  by (auto simp: rewrite_upload_def rewriteMultipartField_def split: prod.split sum.split option.split)

lemma valid_boundary_nonempty: "valid_boundary b \<Longrightarrow> b \<noteq> ''''"
  by (auto simp: valid_boundary_def)

lemma gate_shape_rewrite:
  "(\<And>n. b n = None \<or> b n = Some n) \<Longrightarrow>
     gate_shape cat a m raw (rewrite_upload r (resolve_and_check cat a raw (\<lambda>n. new_context a t m kind n st (b n))))"
  unfolding gate_shape_def
  by (rule disjI2, rule exI, rule conjI, rule rewrite_upload_cases, simp add: new_context_def)

lemma gate_shape_proxy: "gate_shape cat a m (unmarshal_string (bd_JSON (rq_Body r)) ''model'') (handleProxyRequest cfg cat a t m r kind)"
  by (auto simp: handleProxyRequest_def Let_def intro!: gate_shape_resolve split: if_splits)

lemma gate_shape_count_tokens: "gate_shape cat a m (unmarshal_string (bd_JSON (rq_Body r)) ''model'') (HandleCountTokens cfg cat a t m r)"
  by (auto simp: HandleCountTokens_def Let_def intro!: gate_shape_resolve split: if_splits)

lemma gate_shape_gemini:
  "gate_shape cat a m (case gemini_model (rq_Wildcard r) of Some (n, _) \<Rightarrow> n | None \<Rightarrow> '''') (HandleGemini cfg cat a t m r)"
  by (auto simp: HandleGemini_def intro!: gate_shape_resolve split: option.split if_splits)

lemma gate_shape_multipart:
  "gate_shape cat a m (case peekMultipartFields (rq_Body r) of Some (n, _) \<Rightarrow> n | None \<Rightarrow> '''') (handleImagesEditsMultipart cfg cat a t m r)"
  by (auto simp: handleImagesEditsMultipart_def Let_def intro!: gate_shape_rewrite split: option.split if_splits)

lemma gate_shape_dispatch:
  assumes "dispatch cfg cat a t m r = Some g"
  shows "gate_shape cat a m (requested_model r) g"
proof -
  have p: "has_prefix p ''/v1beta/models/'' \<Longrightarrow> p \<noteq> ''/v1/messages'' \<and> p \<noteq> ''/v1/messages/count_tokens'' \<and> p \<noteq> ''/v1/responses''
      \<and> p \<noteq> ''/v1/responses/compact'' \<and> p \<noteq> ''/v1/chat/completions'' \<and> p \<noteq> ''/v1/images/generations'' \<and> p \<noteq> ''/v1/images/edits''" for p
    by auto
  have "gate_shape cat a m (requested_model r) (HandleImagesEdits cfg cat a t m r)" if "rq_Path r = ''/v1/images/edits''"
    using that gate_shape_multipart[of cat a m r cfg t] gate_shape_proxy[of cat a m r cfg t]
    by (auto simp: HandleImagesEdits_def requested_model_def)
  moreover have "requested_model r = unmarshal_string (bd_JSON (rq_Body r)) ''model''"
    if "\<not> has_prefix (rq_Path r) ''/v1beta/models/''" "rq_Path r \<noteq> ''/v1/images/edits''"
    using that by (simp add: requested_model_def)
  ultimately show ?thesis
    using assms p[of "rq_Path r"] gate_shape_proxy[of cat a m r cfg t] gate_shape_count_tokens[of cat a m r cfg t] gate_shape_gemini[of cat a m r cfg t]
    by (auto simp: dispatch_def Let_def requested_model_def split: if_splits)
qed

text \<open>A request that reaches the catalog has been read within the limit.\<close>
lemma resolved_body:
  "fst (handleProxyRequest cfg cat a t m r kind) = Inr rc \<Longrightarrow> read_body (rq_Body r) (hc_maxBodySize cfg)"
  "fst (HandleCountTokens cfg cat a t m r) = Inr rc \<Longrightarrow> read_body (rq_Body r) (hc_maxBodySize cfg)"
  "fst (HandleGemini cfg cat a t m r) = Inr rc \<Longrightarrow> rq_Wildcard r \<noteq> ''''"
  by (auto simp: handleProxyRequest_def HandleCountTokens_def HandleGemini_def gemini_model_def last_index_def split: if_splits)

lemma dispatch_proxy:
  assumes "dispatch cfg cat a t m r = Some g" and "\<not> has_prefix (rq_Path r) ''/v1beta/models/''"
    and "rq_Path r \<noteq> ''/v1/messages/count_tokens''" and "rq_MediaType r \<noteq> ''multipart/form-data''"
  shows "(\<exists>kind. g = handleProxyRequest cfg cat a t m r kind) \<or> g = (Inl (GateError 415 ''unsupported content type''), cat)"
proof -
  have "(\<exists>kind. HandleImagesEdits cfg cat a t m r = handleProxyRequest cfg cat a t m r kind)
      \<or> HandleImagesEdits cfg cat a t m r = (Inl (GateError 415 ''unsupported content type''), cat)"
    using assms(4) by (auto simp: HandleImagesEdits_def)
  then show ?thesis using assms(1-3) by (simp add: dispatch_def Let_def split: if_splits) blast+
qed

lemma middleware_model:
  "fst (ResolveModelMiddleware (Some c) mx mmax r)
     = (if extractModelFromRequest r mx mmax = '''' then None else index c (to_lower (extractModelFromRequest r mx mmax)))"
  "\<exists>c'. snd (ResolveModelMiddleware (Some c) mx mmax r) = Some c' \<and> index c' = index c"
  by (simp_all add: ResolveModelMiddleware_def Let_def case_prod_beta)

lemma served_extracts:
  assumes "dispatch cfg cat a t m r = Some (Inr rc, cat')" and "rq_MediaType r \<noteq> ''multipart/form-data''"
  shows "extractModelFromRequest r (hc_maxBodySize cfg) mmax = requested_model r"
proof (cases "has_prefix (rq_Path r) ''/v1beta/models/''")
  case True
  then have "fst (HandleGemini cfg cat a t m r) = Inr rc" using assms(1) by (auto simp: dispatch_def Let_def split: if_splits)
  then have "rq_Wildcard r \<noteq> ''''" by (rule resolved_body)
  then show ?thesis using True by (simp add: extractModelFromRequest_def requested_model_def)
next
  case False
  have "read_body (rq_Body r) (hc_maxBodySize cfg)"
  proof (cases "rq_Path r = ''/v1/messages/count_tokens''")
    case True
    then have "fst (HandleCountTokens cfg cat a t m r) = Inr rc" using assms(1) by (auto simp: dispatch_def Let_def split: if_splits)
    then show ?thesis by (rule resolved_body)
  next
    case nct: False
    then obtain kind where "fst (handleProxyRequest cfg cat a t m r kind) = Inr rc"
      using dispatch_proxy[OF assms(1) False _ assms(2)] by (metis Inl_Inr_False fst_conv)
    then show ?thesis by (rule resolved_body)
  qed
  then show ?thesis using False assms(2) by (auto simp: extractModelFromRequest_def requested_model_def read_body_def Let_def)
qed

section \<open>The gate\<close>

lemma dispatch_resolves:
  assumes "dispatch cfg (Some c) a t m r = Some (Inr rc, cat')"
  shows "\<exists>mdl. resolves c a (requested_model r) mdl \<and> rc_Model rc = model_Name mdl \<and> rc_ModelRef rc = m
    \<and> rc_ProjectID rc = proj_ID (actx_Project a) \<and> rc_UserID rc = key_CreatedBy (actx_APIKey a)
    \<and> rc_APIKeyID rc = key_ID (actx_APIKey a)"
proof -
  obtain k where k: "(Inr rc, cat') = resolve_and_check (Some c) a (requested_model r) k"
      "\<And>n. rc_Model (k n) = n \<and> rc_ModelRef (k n) = m \<and> rc_ProjectID (k n) = proj_ID (actx_Project a)
               \<and> rc_APIKeyID (k n) = key_ID (actx_APIKey a) \<and> rc_UserID (k n) = key_CreatedBy (actx_APIKey a)"
    using gate_shape_dispatch[OF assms] by (auto simp: gate_shape_def)
  show ?thesis
  proof (cases rule: resolve_and_check_cases[of c a "requested_model r" k])
    case (ok mdl) then show ?thesis using k by auto
  next
    case (refused e) then show ?thesis using k by auto
  qed
qed


lemma served_in_context:
  assumes "rq_MediaType r \<noteq> ''multipart/form-data''" and "index c '''' = None"
    and "ResolveModelMiddleware (Some c) (hc_maxBodySize cfg) mmax r = (m, cat)"
    and "dispatch cfg cat a t m r = Some (Inr rc, cat')"
  shows "\<exists>mdl. m = Some mdl \<and> rc_Model rc = model_Name mdl \<and> rc_ModelRef rc = Some mdl"
proof -
  obtain c1 where c1: "cat = Some c1" "index c1 = index c"
    using middleware_model(2)[of c "hc_maxBodySize cfg" mmax r] assms(3) by auto
  obtain k where k: "(Inr rc, cat') = resolve_and_check (Some c1) a (requested_model r) k" "\<And>n. rc_Model (k n) = n \<and> rc_ModelRef (k n) = m"
    using gate_shape_dispatch[OF assms(4)] c1 by (auto simp: gate_shape_def)
  obtain mdl where mdl: "resolves c1 a (requested_model r) mdl" "rc = k (model_Name mdl)"
    using k(1) resolve_and_check_cases[of c1 a "requested_model r" k] by (metis Inl_Inr_False Inr_inject prod.inject)
  then have i: "index c (to_lower (requested_model r)) = Some mdl" using c1 by (simp add: resolves_def)
  have "extractModelFromRequest r (hc_maxBodySize cfg) mmax = requested_model r"
    by (rule served_extracts[OF assms(4,1)])
  then have "m = Some mdl"
    using assms(2,3) i middleware_model(1)[of c "hc_maxBodySize cfg" mmax r] by (auto simp: to_lower_def)
  then show ?thesis using mdl(2) k(2) by simp
qed

text \<open>Without a multipart body the two resolutions agree: when the middleware and the handler accept the same
  body sizes, the model the eligibility and the billing decisions were taken for is the model that is
  served.\<close>
lemma context_model_is_served:
  assumes "rq_MediaType r \<noteq> ''multipart/form-data''" and "index c '''' = None"
    and "ResolveModelMiddleware (Some c) (hc_maxBodySize cfg) mmax r = (m, cat)"
    and "dispatch cfg cat a t m r = Some (Inr rc, cat')"
  shows "\<exists>mdl. m = Some mdl \<and> rc_Model rc = model_Name mdl \<and> rc_ModelRef rc = Some mdl"
  using assms by (rule served_in_context)


definition demo_request :: "string \<Rightarrow> string \<Rightarrow> string \<Rightarrow> (string \<times> json) list \<Rightarrow> (string \<times> string) list \<Rightarrow> http_request" where
  "demo_request path media boundary ms parts =
     \<lparr>rq_Method = ''POST'', rq_Path = path, rq_Wildcard = '''', rq_Header = (\<lambda>_. ''''), rq_MediaType = media,
      rq_MediaErr = False, rq_Boundary = boundary,
      rq_Body = \<lparr>bd_Size = 9, bd_ReadErr = False, bd_JSON = Some (JObj ms), bd_gjson = (\<lambda>_. GNone), bd_Parts = parts, bd_PartsEOF = True\<rparr>\<rparr>"

definition demo_config :: handler_config where
  "demo_config = \<lparr>hc_maxBodySize = 99, hc_imagesMaxBodySize = 99, hc_httpLogger = False, hc_publishers = []\<rparr>"

definition demo_trace :: trace_context where
  "demo_trace = \<lparr>tc_TraceID = '''', tc_TraceSource = '''', tc_ClientKind = ''unknown'', tc_ClientBucket = ''other'', tc_SDKSource = ''''\<rparr>"

abbreviation demo_catalog :: catalog where
  "demo_catalog \<equiv> New [sample_model ''opus'' [''Best''], sample_model ''mini'' []]"


abbreviation demo_in_context :: "http_request \<Rightarrow> Model option \<times> catalog option" where
  "demo_in_context r \<equiv> ResolveModelMiddleware (Some demo_catalog) 99 99 r"

abbreviation demo_dispatch :: "http_request \<Rightarrow> gate_result option" where
  "demo_dispatch r \<equiv> dispatch demo_config (snd (demo_in_context r)) demo_ctx demo_trace (fst (demo_in_context r)) r"

abbreviation demo_alias :: http_request where
  "demo_alias \<equiv> demo_request ''/v1/messages'' ''application/json'' '''' [(''stream'', JBool True), (''model'', JStr ''BEST'')] []"

lemma demo_served:
  "case demo_dispatch demo_alias of
     Some (Inr rc, _) \<Rightarrow> rc_Model rc = ''opus'' \<and> rc_IsStream rc \<and> rc_BodyModel rc = Some ''opus'' | _ \<Rightarrow> False"
  by code_simp

lemma demo_resolved: "\<exists>c. snd (demo_in_context r) = Some c \<and> index c = index demo_catalog"
  by (rule middleware_model(2))


lemma context_model_is_served_witness:
  "\<exists>mdl rc cat'. fst (demo_in_context demo_alias) = Some mdl \<and> demo_dispatch demo_alias = Some (Inr rc, cat') \<and> rc_Model rc = model_Name mdl"
proof -
  obtain rc cat' where d: "demo_dispatch demo_alias = Some (Inr rc, cat')"
    using demo_served by (auto split: option.splits sum.splits prod.splits)
  have "index demo_catalog '''' = None" by code_simp
  moreover have "rq_MediaType demo_alias \<noteq> ''multipart/form-data''" by (simp add: demo_request_def)
  moreover have "hc_maxBodySize demo_config = 99" by (simp add: demo_config_def)
  ultimately show ?thesis
    using context_model_is_served[of demo_alias demo_catalog demo_config 99 "fst (demo_in_context demo_alias)" "snd (demo_in_context demo_alias)"
        demo_ctx demo_trace rc cat'] d by auto
qed


text \<open>A JSON body declared as multipart/form-data evades the billing decision: the middleware reads the model
  from the declared media type and finds none, so the request counts as eligible for the subscription
  and carries no model to bill; the handler of /v1/messages ignores the media type and serves the model
  the JSON names, whatever its restrictions.\<close>
lemma json_as_multipart_evades_billing:
  assumes "is_post r" "rq_Path r = ''/v1/messages''" "rq_MediaType r = ''multipart/form-data''"
    and "bd_Parts (rq_Body r) = []" "read_body (rq_Body r) (hc_maxBodySize cfg)"
    and "resolves c a (unmarshal_string (bd_JSON (rq_Body r)) ''model'') mdl"
  shows "ResolveModelMiddleware (Some c) mx mmax r = (None, Some c)
    \<and> Eligible (SubscriptionEligibilityMiddleware (fst (ResolveModelMiddleware (Some c) mx mmax r)) kind)
    \<and> (\<exists>rc cat'. dispatch cfg (Some c) a t None r = Some (Inr rc, cat') \<and> rc_Model rc = model_Name mdl \<and> rc_ModelRef rc = None)"
proof -
  let ?raw = "unmarshal_string (bd_JSON (rq_Body r)) ''model''"
  have m: "ResolveModelMiddleware (Some c) mx mmax r = (None, Some c)"
    using assms(2-4) by (simp add: ResolveModelMiddleware_def extractModelFromRequest_def extractModelFromMultipart_def Let_def)
  have d: "dispatch cfg (Some c) a t None r = Some (handleProxyRequest cfg (Some c) a t None r ''anthropic_messages'')"
    using assms(1,2) by (simp add: dispatch_def)
  obtain k where k: "handleProxyRequest cfg (Some c) a t None r ''anthropic_messages'' = resolve_and_check (Some c) a ?raw k"
      "\<And>n. rc_Model (k n) = n \<and> rc_ModelRef (k n) = None"
    using assms(5) by (auto simp: handleProxyRequest_def Let_def new_context_def)
  have "resolve_and_check (Some c) a ?raw k = (Inr (k (model_Name mdl)), Some (fst (Lookup c ?raw)))"
    using resolve_and_check_resolves[OF assms(6)] by simp
  then show ?thesis using m d k by (simp add: SubscriptionEligibilityMiddleware_def)
qed

text \<open>An upload with two model parts is admitted for the first and served for the last: the middleware stops
  at the first part, the handler keeps the last, so the eligibility and billing decisions are taken for
  one model and the request is routed and sent to another.\<close>
lemma two_model_parts_confuse:
  assumes "is_post r" "rq_Path r = ''/v1/images/edits''" "rq_MediaType r = ''multipart/form-data''" "\<not> rq_MediaErr r" "valid_boundary (rq_Boundary r)"
    and "bd_Parts (rq_Body r) = [(''model'', x), (''model'', y)]" "bd_PartsEOF (rq_Body r)"
    and "read_body (rq_Body r) (hc_imagesMaxBodySize cfg)" "hc_imagesMaxBodySize cfg > 0"
    and "length x \<le> 256" "trim_space x \<noteq> ''''" "length y \<le> 1024"
    and "index c (to_lower (trim_space x)) = Some cheap" "resolves c a (trim_space y) premium"
  shows "\<exists>cat rc cat'. ResolveModelMiddleware (Some c) mx (hc_imagesMaxBodySize cfg) r = (Some cheap, cat)
    \<and> dispatch cfg cat a t (Some cheap) r = Some (Inr rc, cat') \<and> rc_Model rc = model_Name premium \<and> rc_ModelRef rc = Some cheap"
proof -
  let ?L = "hc_imagesMaxBodySize cfg"
  have e: "extractModelFromRequest r mx ?L = trim_space x"
    using assms(2-4,6,8-11) valid_boundary_nonempty[OF assms(5)]
    by (simp add: extractModelFromRequest_def extractModelFromMultipart_def Let_def read_body_def)
  obtain c' where m: "ResolveModelMiddleware (Some c) mx ?L r = (Some cheap, Some c')" "index c' = index c"
    using middleware_model[of c mx ?L r] e assms(11,13) by (cases "ResolveModelMiddleware (Some c) mx ?L r") auto
  have p: "peekMultipartFields (rq_Body r) = Some (trim_space y, False)"
    using assms(6,7,12) by (simp add: peekMultipartFields_def peek_part_def)
  have "rewrite_upload r g = g" for g using rewrite_upload_id assms(5,7) by blast
  then obtain k where k: "dispatch cfg (Some c') a t (Some cheap) r = Some (resolve_and_check (Some c') a (trim_space y) k)"
      "\<And>n. rc_Model (k n) = n \<and> rc_ModelRef (k n) = Some cheap"
    using assms(1-4,8,9) valid_boundary_nonempty[OF assms(5)] p
    by (auto simp: dispatch_def HandleImagesEdits_def handleImagesEditsMultipart_def Let_def new_context_def)
  have "resolves c' a (trim_space y) premium" using assms(14) m(2) by (simp add: resolves_def)
  note resolve_and_check_resolves[OF this, of k]
  then show ?thesis using m(1) k by (metis (no_types, lifting))
qed

lemma demo_keys: "key_matches ''model'' ''model''" "key_matches ''model'' ''Model''"
  by code_simp+

text \<open>What a case-sensitive reader takes from a document: the last member with exactly this key.\<close>
definition exact_member :: "json option \<Rightarrow> string \<Rightarrow> json option" where
  "exact_member doc k = (case doc of Some (JObj ms) \<Rightarrow> map_option snd (find (\<lambda>p. fst p = k) (rev ms)) | _ \<Rightarrow> None)"

text \<open>The key's allow list, the member's deny list and the billing can be satisfied with one model while
  another is sent upstream: encoding/json matches the key ''Model'' as well and lets the last member
  win, and a body whose winning name is canonical is forwarded unchanged, with the member ''model''
  naming any model at all.\<close>
lemma case_folded_key_smuggles_model:
  assumes "is_post r" "rq_Path r = ''/v1/messages''" "rq_MediaType r \<noteq> ''multipart/form-data''"
    and "bd_JSON (rq_Body r) = Some (JObj [(''model'', JStr smuggled), (''Model'', JStr (model_Name mdl))])"
    and "read_body (rq_Body r) (hc_maxBodySize cfg)" "resolves c a (model_Name mdl) mdl" "model_Name mdl \<noteq> ''''"
  shows "\<exists>cat rc cat'. ResolveModelMiddleware (Some c) (hc_maxBodySize cfg) mmax r = (Some mdl, cat)
    \<and> dispatch cfg cat a t (Some mdl) r = Some (Inr rc, cat') \<and> rc_Model rc = model_Name mdl \<and> rc_BodyModel rc = None
    \<and> exact_member (bd_JSON (rq_Body r)) ''model'' = Some (JStr smuggled)"
proof -
  let ?n = "model_Name mdl"
  have u: "unmarshal_string (bd_JSON (rq_Body r)) ''model'' = ?n"
    using assms(4) demo_keys by (simp add: unmarshal_string_def)
  have e: "extractModelFromRequest r (hc_maxBodySize cfg) mmax = ?n"
    using assms(2,3,5) u by (auto simp: extractModelFromRequest_def Let_def read_body_def)
  obtain c' where m: "ResolveModelMiddleware (Some c) (hc_maxBodySize cfg) mmax r = (Some mdl, Some c')" "index c' = index c"
    using middleware_model[of c "hc_maxBodySize cfg" mmax r] e assms(6,7)
    by (cases "ResolveModelMiddleware (Some c) (hc_maxBodySize cfg) mmax r") (auto simp: resolves_def)
  obtain k where k: "dispatch cfg (Some c') a t (Some mdl) r = Some (resolve_and_check (Some c') a ?n k)"
      "rc_Model (k ?n) = ?n \<and> rc_BodyModel (k ?n) = None"
    using assms(1,2,5) u by (auto simp: dispatch_def handleProxyRequest_def Let_def new_context_def)
  have "resolves c' a ?n mdl" using assms(6) m(2) by (simp add: resolves_def)
  note resolve_and_check_resolves[OF this, of k]
  moreover have "exact_member (bd_JSON (rq_Body r)) ''model'' = Some (JStr smuggled)" using assms(4) by (simp add: exact_member_def)
  ultimately show ?thesis using m(1) k by (metis (no_types, lifting))
qed

text \<open>The listing is exact: a name is listed if and only if the gate would let a request for it through the
  key's and the member's lists, among the key's own names when it has a list and the active models of
  the routing engine otherwise.\<close>
lemma listing_agrees_with_gate:
  "n \<in> set (HandleListModels active k denied)
     \<longleftrightarrow> checkModelAllowed denied k n = None \<and> (n \<in> set active \<or> key_AllowedModels k \<noteq> [])"
  by (auto simp: HandleListModels_def subtractStrings_def checkModelAllowed_None)


lemma demo_opus: "resolves demo_catalog demo_ctx ''BEST'' (sample_model ''opus'' [''Best''])"
    "resolves demo_catalog demo_ctx ''opus'' (sample_model ''opus'' [''Best''])"
  and demo_mini: "index demo_catalog (to_lower (trim_space ''mini'')) = Some (sample_model ''mini'' [])"
proof -
  have i: "index demo_catalog k = (if k = ''mini'' then Some (sample_model ''mini'' [])
      else if k = ''best'' \<or> k = ''opus'' then Some (sample_model ''opus'' [''Best'']) else None)" for k
  proof -
    have "to_lower ''Best'' = ''best''" "to_lower ''opus'' = ''opus''" "to_lower ''mini'' = ''mini''" by code_simp+
    then show ?thesis by (simp add: New_def Swap_def index_row_def sample_model_def)
  qed
  have l: "to_lower ''BEST'' = ''best''" "to_lower ''opus'' = ''opus''" "to_lower (trim_space ''mini'') = ''mini''" by code_simp+
  show "resolves demo_catalog demo_ctx ''BEST'' (sample_model ''opus'' [''Best''])"
    "resolves demo_catalog demo_ctx ''opus'' (sample_model ''opus'' [''Best''])"
    "index demo_catalog (to_lower (trim_space ''mini'')) = Some (sample_model ''mini'' [])"
    using i l by (simp_all add: resolves_def sample_model_def demo_key_def)
qed

lemma json_as_multipart_evades_billing_witness:
  "\<exists>rc cat'. dispatch demo_config (Some demo_catalog) demo_ctx demo_trace None
      (demo_request ''/v1/messages'' ''multipart/form-data'' ''b'' [(''model'', JStr ''BEST'')] []) = Some (Inr rc, cat')
    \<and> rc_Model rc = ''opus'' \<and> rc_ModelRef rc = None"
proof -
  let ?r = "demo_request ''/v1/messages'' ''multipart/form-data'' ''b'' [(''model'', JStr ''BEST'')] []"
  have "unmarshal_string (bd_JSON (rq_Body ?r)) ''model'' = ''BEST''" by code_simp
  then show ?thesis
    using json_as_multipart_evades_billing[of ?r demo_config demo_catalog demo_ctx "sample_model ''opus'' [''Best'']" 99 99 "''x''" demo_trace] demo_opus(1)
    by (simp add: demo_request_def is_post_def read_body_def demo_config_def sample_model_def)
qed

lemma two_model_parts_confuse_witness:
  "\<exists>cat rc cat'. ResolveModelMiddleware (Some demo_catalog) 99 99
        (demo_request ''/v1/images/edits'' ''multipart/form-data'' ''b'' [] [(''model'', ''mini''), (''model'', ''BEST'')]) = (Some (sample_model ''mini'' []), cat)
    \<and> dispatch demo_config cat demo_ctx demo_trace (Some (sample_model ''mini'' []))
        (demo_request ''/v1/images/edits'' ''multipart/form-data'' ''b'' [] [(''model'', ''mini''), (''model'', ''BEST'')]) = Some (Inr rc, cat')
    \<and> rc_Model rc = ''opus''"
proof -
  let ?r = "demo_request ''/v1/images/edits'' ''multipart/form-data'' ''b'' [] [(''model'', ''mini''), (''model'', ''BEST'')]"
  have "trim_space ''BEST'' = ''BEST''" "trim_space ''mini'' = ''mini''" "valid_boundary ''b''" by code_simp+
  moreover have "hc_imagesMaxBodySize demo_config = 99" by (simp add: demo_config_def)
  ultimately show ?thesis
    using two_model_parts_confuse[of ?r "''mini''" "''BEST''" demo_config demo_catalog "sample_model ''mini'' []" demo_ctx
      "sample_model ''opus'' [''Best'']" 99 demo_trace] demo_opus(1) demo_mini
    by (auto simp: demo_request_def is_post_def read_body_def sample_model_def)
qed

lemma case_folded_key_smuggles_model_witness:
  "exact_member (Some (JObj [(''model'', JStr ''secret''), (''Model'', JStr ''opus'')])) ''model'' = Some (JStr ''secret'')
    \<and> (\<exists>cat rc cat'. dispatch demo_config cat demo_ctx demo_trace (Some (sample_model ''opus'' [''Best'']))
        (demo_request ''/v1/messages'' ''application/json'' '''' [(''model'', JStr ''secret''), (''Model'', JStr ''opus'')] []) = Some (Inr rc, cat')
       \<and> rc_Model rc = ''opus'' \<and> rc_BodyModel rc = None)"
  using case_folded_key_smuggles_model[of "demo_request ''/v1/messages'' ''application/json'' '''' [(''model'', JStr ''secret''), (''Model'', JStr ''opus'')] []"
      "''secret''" "sample_model ''opus'' [''Best'']" demo_config demo_catalog demo_ctx 99 demo_trace] demo_opus(2)
  by (auto simp: demo_request_def is_post_def read_body_def demo_config_def sample_model_def)


lemma resolve_and_check_Inr: "resolve_and_check cat a raw k = (Inr rc, cat') \<Longrightarrow> \<exists>n. rc = k n"
  unfolding resolve_and_check_def
  by (cases "resolveModel cat raw") (auto split: sum.splits option.splits)

lemma dispatch_policy:
  assumes "dispatch cfg cat a t m r = Some (Inr rc, cat')"
  shows "rc_Policy rc = actx_Policy a"
proof -
  obtain k where k: "resolve_and_check cat a (requested_model r) k = (Inr rc, cat')" "\<And>n. rc_Policy (k n) = actx_Policy a"
    using gate_shape_dispatch[OF assms] unfolding gate_shape_def by (metis Inl_Inr_False fst_conv)
  then show ?thesis using resolve_and_check_Inr[OF k(1)] by auto
qed


lemma rewritten_model:
  "\<exists>p \<in> set ps. fst p = ''model'' \<Longrightarrow>
     fst (foldl peek_part acc (map (\<lambda>(n, v). if n = ''model'' then (n, value) else (n, v)) ps)) = trim_space (take 1024 value)"
proof (induction ps rule: rev_induct)
  case (snoc p ps) then show ?case by (cases p) (auto simp: peek_part_def)
qed simp

lemma rewritten_stream:
  "snd (foldl peek_part acc (map (\<lambda>(n, v). if n = ''model'' then (n, value) else (n, v)) ps)) = snd (foldl peek_part acc ps)"
proof (induction ps rule: rev_induct)
  case (snoc p ps) then show ?case by (cases p) (auto simp: peek_part_def)
qed simp

lemma unnamed_model: "\<forall>p \<in> set ps. fst p \<noteq> ''model'' \<Longrightarrow> fst (foldl peek_part acc ps) = fst acc"
  by (induction ps arbitrary: acc) (auto simp: peek_part_def)

text \<open>Rewriting and reading round-trip: the rewritten upload names the canonical model wherever it named one,
  every other part and the stream flag are as they were.\<close>
lemma rewritten_upload_reads_back:
  assumes "rewriteMultipartField b boundary ''model'' canonical = Some ps" and "peekMultipartFields b = Some (model, stream)"
    and "model \<noteq> ''''" and "trim_space (take 1024 canonical) = canonical"
  shows "peekMultipartFields (b\<lparr>bd_Parts := ps\<rparr>) = Some (canonical, stream)
    \<and> filter (\<lambda>p. fst p \<noteq> ''model'') ps = filter (\<lambda>p. fst p \<noteq> ''model'') (bd_Parts b)"
proof -
  let ?rw = "\<lambda>(n, v). if n = ''model'' then (n, canonical) else (n, v)"
  have ps: "ps = map ?rw (bd_Parts b)" and eof: "bd_PartsEOF b"
    using assms(1) by (auto simp: rewriteMultipartField_def split: if_splits)
  have f: "foldl peek_part ('''', False) (bd_Parts b) = (model, stream)" using assms(2) eof by (simp add: peekMultipartFields_def)
  then have "\<exists>p \<in> set (bd_Parts b). fst p = ''model''" using unnamed_model[of "bd_Parts b" "('''', False)"] assms(3) by auto
  then have "foldl peek_part ('''', False) ps = (canonical, stream)"
    using rewritten_model[of "bd_Parts b" "('''', False)" canonical] rewritten_stream[of "('''', False)" canonical "bd_Parts b"] f assms(4)
    by (simp add: ps prod_eq_iff)
  moreover have "filter (\<lambda>p. fst p \<noteq> ''model'') (map ?rw xs) = filter (\<lambda>p. fst p \<noteq> ''model'') xs" for xs by (induction xs) (auto split: if_splits)
  ultimately show ?thesis using eof ps by (simp add: peekMultipartFields_def)
qed

end
