(* ===== verification/Streams.thy ===== *)
theory Streams
  imports Gateway
begin

text \<open>
  The streamed responses of package proxy: the interceptors that read usage from a server-sent event
  stream as it passes (stream.go, openai_stream.go, chatcompletions_stream.go, gemini_stream.go), the copy
  loop of executor.go that drives them, and the look-ahead of codex_capacity_retry.go. A source is the list
  of what its Read calls return: the bytes, and the error that came with them, if any. encoding/json and
  gjson are arguments: what they make of an event. The time to the first token is left out.
\<close>

section \<open>Reading\<close>

datatype read_error = EOF | ReadError string

type_synonym reads = "(string \<times> read_error option) list"

definition newline :: char where "newline = CHR 0x0A"

text \<open>ReadBytes('\n') until it fails: the complete lines, with their newline, and the rest of the buffer.\<close>
fun read_lines :: "string \<Rightarrow> string list \<times> string" where
  "read_lines [] = ([], [])"
| "read_lines (c # s) =
     (case read_lines s of (ls, rest) \<Rightarrow>
        if c = newline then ([c] # ls, rest)
        else (case ls of [] \<Rightarrow> ([], c # rest) | l # ls' \<Rightarrow> ((c # l) # ls', rest)))"

text \<open>The payload of a line: its data field without one leading space; None for other lines and for [DONE].\<close>
definition sse_data :: "string \<Rightarrow> string option" where
  "sse_data line =
     (let l = trim_space line in
      if \<not> has_prefix l ''data:'' then None
      else let d = drop 5 l; data = (case d of c # r \<Rightarrow> if c = CHR '' '' then r else d | [] \<Rightarrow> d)
           in if data = ''[DONE]'' then None else Some data)"

section \<open>Events\<close>

record raw_usage =
  ru_Input :: int
  ru_Output :: int
  ru_CacheCreation :: int
  ru_Cached :: int
  ru_Thoughts :: int

definition no_usage :: raw_usage where
  "no_usage = \<lparr>ru_Input = 0, ru_Output = 0, ru_CacheCreation = 0, ru_Cached = 0, ru_Thoughts = 0\<rparr>"

text \<open>What json.Unmarshal finds: the type, the model, id and usage of the nested message or response (or of the
  document itself for the formats without one), the usage beside it, and whether there is a usage.\<close>
record sse_json =
  sj_Type :: string
  sj_Model :: string
  sj_ID :: string
  sj_Usage :: raw_usage
  sj_DeltaUsage :: raw_usage
  sj_UsagePresent :: bool

record stream_event =
  ev_Type :: string
  ev_Model :: string
  ev_ID :: string
  ev_Usage :: raw_usage
  ev_HasUsage :: bool

definition no_event :: stream_event where
  "no_event = \<lparr>ev_Type = '''', ev_Model = '''', ev_ID = '''', ev_Usage = no_usage, ev_HasUsage = False\<rparr>"

definition ParseStreamEvent :: "sse_json option \<Rightarrow> stream_event" where
  "ParseStreamEvent doc =
     (case doc of None \<Rightarrow> no_event
      | Some j \<Rightarrow>
          if sj_Type j = ''message_start''
          then \<lparr>ev_Type = sj_Type j, ev_Model = sj_Model j, ev_ID = sj_ID j, ev_Usage = sj_Usage j, ev_HasUsage = True\<rparr>
          else if sj_Type j = ''message_delta''
          then \<lparr>ev_Type = sj_Type j, ev_Model = '''', ev_ID = '''', ev_Usage = sj_DeltaUsage j, ev_HasUsage = True\<rparr>
          else no_event\<lparr>ev_Type := sj_Type j\<rparr>)"

definition terminal_response :: "string \<Rightarrow> bool" where
  "terminal_response t = (t = ''response.completed'' \<or> t = ''response.incomplete'' \<or> t = ''response.failed'')"

definition ParseOpenAIStreamEvent :: "sse_json option \<Rightarrow> stream_event" where
  "ParseOpenAIStreamEvent doc =
     (case doc of None \<Rightarrow> no_event
      | Some j \<Rightarrow>
          if sj_Type j = ''response.created''
          then no_event\<lparr>ev_Type := sj_Type j, ev_Model := sj_Model j, ev_ID := sj_ID j\<rparr>
          else if terminal_response (sj_Type j)
          then \<lparr>ev_Type = sj_Type j, ev_Model = sj_Model j, ev_ID = sj_ID j, ev_Usage = sj_Usage j, ev_HasUsage = True\<rparr>
          else no_event\<lparr>ev_Type := sj_Type j\<rparr>)"

definition ParseChatCompletionsStreamEvent :: "sse_json option \<Rightarrow> stream_event" where
  "ParseChatCompletionsStreamEvent doc =
     (case doc of None \<Rightarrow> no_event
      | Some j \<Rightarrow> \<lparr>ev_Type = '''', ev_Model = sj_Model j, ev_ID = sj_ID j,
                     ev_Usage = (if sj_UsagePresent j then sj_Usage j else no_usage), ev_HasUsage = sj_UsagePresent j\<rparr>)"

definition ParseGeminiStreamEvent :: "sse_json option \<Rightarrow> stream_event" where
  "ParseGeminiStreamEvent doc =
     (case doc of None \<Rightarrow> no_event
      | Some j \<Rightarrow> \<lparr>ev_Type = '''', ev_Model = sj_Model j, ev_ID = sj_ID j, ev_Usage = sj_Usage j, ev_HasUsage = True\<rparr>)"

section \<open>Interceptors\<close>

text \<open>IOpenAI carries reportCapacityError.\<close>
datatype interceptor = IAnthropic | IOpenAI bool | IChat | IGemini

definition GetProviderTransformer :: "string \<Rightarrow> string \<Rightarrow> interceptor" where
  "GetProviderTransformer provider kind =
     (if provider = ''openai'' \<and> kind = ''openai_chat_completions'' then IChat
      else if provider = ''openai'' then IOpenAI False
      else if provider = ''codex'' then IOpenAI True
      else if provider = ''bedrock-openai'' \<or> provider = ''vertex-openai'' then IChat
      else if provider = ''gemini'' \<or> provider = ''vertex-google'' then IGemini
      else IAnthropic)"

record stream_acc =
  sa_Model :: string
  sa_MsgID :: string
  sa_Usage :: raw_usage
  sa_HasUsage :: bool
  sa_Capacity :: bool

definition stream_start :: stream_acc where
  "stream_start = \<lparr>sa_Model = '''', sa_MsgID = '''', sa_Usage = no_usage, sa_HasUsage = False, sa_Capacity = False\<rparr>"

record stream_world =
  sw_json :: "string \<Rightarrow> sse_json option"
  sw_capacity :: "string \<Rightarrow> bool"

definition take_names :: "stream_event \<Rightarrow> stream_acc \<Rightarrow> stream_acc" where
  "take_names e a =
     a\<lparr>sa_Model := (if ev_Model e \<noteq> '''' then ev_Model e else sa_Model a), sa_MsgID := (if ev_ID e \<noteq> '''' then ev_ID e else sa_MsgID a)\<rparr>"

definition anthropic_usage :: "stream_event \<Rightarrow> raw_usage \<Rightarrow> raw_usage" where
  "anthropic_usage e u =
     (if \<not> ev_HasUsage e then u
      else if ev_Type e = ''message_start''
      then u\<lparr>ru_Input := ru_Input (ev_Usage e), ru_CacheCreation := ru_CacheCreation (ev_Usage e), ru_Cached := ru_Cached (ev_Usage e)\<rparr>
      else if ev_Type e = ''message_delta'' then u\<lparr>ru_Output := ru_Output (ev_Usage e)\<rparr> else u)"

definition anthropic_line :: "stream_world \<Rightarrow> string \<Rightarrow> stream_acc \<Rightarrow> stream_acc" where
  "anthropic_line w data a =
     (let e = ParseStreamEvent (sw_json w data) in (take_names e a)\<lparr>sa_Usage := anthropic_usage e (sa_Usage a)\<rparr>)"

definition openai_line :: "stream_world \<Rightarrow> string \<Rightarrow> stream_acc \<Rightarrow> stream_acc" where
  "openai_line w data a =
     (let e = ParseOpenAIStreamEvent (sw_json w data);
          a1 = (take_names e a)\<lparr>sa_Capacity := (sa_Capacity a \<or> sw_capacity w data)\<rparr>
      in if ev_HasUsage e then a1\<lparr>sa_Usage := ev_Usage e, sa_HasUsage := True\<rparr> else a1)"

definition chat_line :: "stream_world \<Rightarrow> string \<Rightarrow> stream_acc \<Rightarrow> stream_acc" where
  "chat_line w data a =
     (let e = ParseChatCompletionsStreamEvent (sw_json w data); a1 = take_names e a
      in if ev_HasUsage e then a1\<lparr>sa_Usage := ev_Usage e, sa_HasUsage := True\<rparr> else a1)"

definition gemini_line :: "stream_world \<Rightarrow> string \<Rightarrow> stream_acc \<Rightarrow> stream_acc" where
  "gemini_line w data a = (let e = ParseGeminiStreamEvent (sw_json w data) in (take_names e a)\<lparr>sa_Usage := ev_Usage e\<rparr>)"

definition parseLine :: "interceptor \<Rightarrow> stream_world \<Rightarrow> stream_acc \<Rightarrow> string \<Rightarrow> stream_acc" where
  "parseLine i w a line =
     (case sse_data line of None \<Rightarrow> a
      | Some data \<Rightarrow>
          (case i of
             IAnthropic \<Rightarrow> anthropic_line w data a
           | IOpenAI _ \<Rightarrow> openai_line w data a
           | IChat \<Rightarrow> chat_line w data a
           | IGemini \<Rightarrow> gemini_line w data a))"

lemmas parseLine_defs = parseLine_def anthropic_line_def openai_line_def chat_line_def gemini_line_def

record StreamMetrics =
  sm_Model :: string
  sm_MsgID :: string
  sm_Usage :: TokenUsage
  sm_InterruptErr :: "string option"
  sm_CodexCapacityError :: bool

definition metrics_with :: "stream_acc \<Rightarrow> int \<Rightarrow> int \<Rightarrow> int \<Rightarrow> int \<Rightarrow> StreamMetrics" where
  "metrics_with a inp out cc cr =
     \<lparr>sm_Model = sa_Model a, sm_MsgID = sa_MsgID a,
      sm_Usage = \<lparr>tu_InputTokens = inp, tu_OutputTokens = out, tu_CacheCreationTokens = cc, tu_CacheReadTokens = cr\<rparr>,
      sm_InterruptErr = None, sm_CodexCapacityError = False\<rparr>"

definition anthropic_metrics :: "stream_acc \<Rightarrow> StreamMetrics" where
  "anthropic_metrics a = (let u = sa_Usage a in metrics_with a (ru_Input u) (ru_Output u) (ru_CacheCreation u) (ru_Cached u))"

definition openai_metrics :: "bool \<Rightarrow> stream_acc \<Rightarrow> StreamMetrics option" where
  "openai_metrics report a =
     (if sa_HasUsage a \<or> report \<and> sa_Capacity a
      then (let u = sa_Usage a; inp = i64 (ru_Input u - ru_Cached u) in
            Some ((metrics_with a (if inp < 0 then 0 else inp) (ru_Output u) 0 (ru_Cached u))\<lparr>sm_CodexCapacityError := report \<and> sa_Capacity a\<rparr>))
      else None)"

definition chat_metrics :: "stream_acc \<Rightarrow> StreamMetrics" where
  "chat_metrics a = (let u = sa_Usage a in metrics_with a (ru_Input u) (ru_Output u) 0 0)"

definition gemini_metrics :: "stream_acc \<Rightarrow> StreamMetrics" where
  "gemini_metrics a = (let u = sa_Usage a in metrics_with a (ru_Input u) (i64 (ru_Output u + ru_Thoughts u)) 0 (ru_Cached u))"

text \<open>The metrics handed to the completion callback; None when finish does not call it.\<close>
definition stream_metrics :: "interceptor \<Rightarrow> stream_acc \<Rightarrow> StreamMetrics option" where
  "stream_metrics i a =
     (case i of
        IAnthropic \<Rightarrow> Some (anthropic_metrics a)
      | IOpenAI report \<Rightarrow> openai_metrics report a
      | IChat \<Rightarrow> Some (chat_metrics a)
      | IGemini \<Rightarrow> Some (gemini_metrics a))"

lemmas stream_metrics_defs = stream_metrics_def openai_metrics_def

text \<open>An interceptor at work: its line buffer, sync.Once and the callbacks it has made, each with the
  interruption that was recorded when it ran.\<close>
record stream_state =
  ss_buf :: string
  ss_acc :: stream_acc
  ss_once :: bool
  ss_calls :: "(StreamMetrics \<times> string option) list"

definition si_new :: stream_state where
  "si_new = \<lparr>ss_buf = '''', ss_acc = stream_start, ss_once = False, ss_calls = []\<rparr>"

definition processLines :: "interceptor \<Rightarrow> stream_world \<Rightarrow> stream_state \<Rightarrow> stream_state" where
  "processLines i w s =
     (case read_lines (ss_buf s) of (ls, rest) \<Rightarrow> s\<lparr>ss_acc := foldl (parseLine i w) (ss_acc s) ls, ss_buf := rest\<rparr>)"

definition flushRemaining :: "interceptor \<Rightarrow> stream_world \<Rightarrow> stream_state \<Rightarrow> stream_state" where
  "flushRemaining i w s =
     (if ss_buf s \<noteq> '''' then s\<lparr>ss_acc := parseLine i w (ss_acc s) (ss_buf s), ss_buf := ''''\<rparr> else s)"

definition si_finish :: "interceptor \<Rightarrow> string option \<Rightarrow> stream_state \<Rightarrow> stream_state" where
  "si_finish i interrupt s =
     (if ss_once s then s
      else s\<lparr>ss_once := True,
             ss_calls := ss_calls s @ (case stream_metrics i (ss_acc s) of None \<Rightarrow> [] | Some m \<Rightarrow> [(m, interrupt)])\<rparr>)"

definition si_Read :: "interceptor \<Rightarrow> stream_world \<Rightarrow> string \<times> read_error option \<Rightarrow> stream_state \<Rightarrow> stream_state" where
  "si_Read i w rd s =
     (let s1 = (if fst rd \<noteq> '''' then processLines i w (s\<lparr>ss_buf := ss_buf s @ fst rd\<rparr>) else s)
      in if snd rd = Some EOF then si_finish i None (flushRemaining i w s1) else s1)"

definition si_Close :: "interceptor \<Rightarrow> stream_world \<Rightarrow> string option \<Rightarrow> stream_state \<Rightarrow> stream_state" where
  "si_Close i w interrupt s = si_finish i interrupt (flushRemaining i w s)"

text \<open>The copy loop over a source with its reader: what reached the client, the error and the reader. The k-th write
  fails when write k is False. A source that has not ended yields no result.\<close>
fun copyWithFlush ::
  "(string \<times> read_error option \<Rightarrow> 's \<Rightarrow> 's) \<Rightarrow> (nat \<Rightarrow> bool) \<Rightarrow> nat \<Rightarrow> reads \<Rightarrow> 's \<Rightarrow> (string \<times> string option \<times> 's) option" where
  "copyWithFlush rd_step write k [] s = None"
| "copyWithFlush rd_step write k (rd # rds) s =
     (let s1 = rd_step rd s in
      if fst rd \<noteq> '''' \<and> \<not> write k then Some ('''', Some ''write error'', s1)
      else case snd rd of
             Some EOF \<Rightarrow> Some (fst rd, None, s1)
           | Some (ReadError e) \<Rightarrow> Some (fst rd, Some e, s1)
           | None \<Rightarrow> map_option (\<lambda>(out, e, s'). (fst rd @ out, e, s'))
                       (copyWithFlush rd_step write (if fst rd \<noteq> '''' then Suc k else k) rds s1))"

text \<open>commitStreamingResponse: copy, publish the error, close.\<close>
definition stream_to_client ::
  "interceptor \<Rightarrow> stream_world \<Rightarrow> (nat \<Rightarrow> bool) \<Rightarrow> reads \<Rightarrow> (string \<times> (StreamMetrics \<times> string option) list) option" where
  "stream_to_client i w write rds =
     map_option (\<lambda>(out, e, s). (out, ss_calls (si_Close i w e s))) (copyWithFlush (si_Read i w) write 0 rds si_new)"

section \<open>The contract of an interceptor\<close>

text \<open>What the copy loop needs of a reader: \<^term>\<open>got b s\<close> says that it has passed on the bytes b and not finished,
  \<^term>\<open>ended b s\<close> that it has met the end of the source behind them.\<close>
locale stream_reader =
  fixes rd_step :: "string \<times> read_error option \<Rightarrow> 's \<Rightarrow> 's"
    and got :: "string \<Rightarrow> 's \<Rightarrow> bool" and ended :: "string \<Rightarrow> 's \<Rightarrow> bool"
  assumes read_more: "got b s \<Longrightarrow> snd rd \<noteq> Some EOF \<Longrightarrow> got (b @ fst rd) (rd_step rd s)"
    and read_eof: "got b s \<Longrightarrow> snd rd = Some EOF \<Longrightarrow> ended (b @ fst rd) (rd_step rd s)"
begin

text \<open>How a copy ends: after the first read that failed, at the end of the source, or because of a write.\<close>
lemma copy_ends:
  assumes "got b s" and "copyWithFlush rd_step write k rds s = Some (out, e, s')"
  shows "\<exists>n. n < length rds \<and> (\<forall>j < n. snd (rds ! j) = None)
    \<and> (if snd (rds ! n) = Some EOF then ended (b @ concat (map fst (take (Suc n) rds))) s'
       else e \<noteq> None \<and> got (b @ concat (map fst (take (Suc n) rds))) s')
    \<and> (\<exists>rest. concat (map fst (take (Suc n) rds)) = out @ rest)
    \<and> (e = None \<longrightarrow> out = concat (map fst (take (Suc n) rds)))"
  using assms
proof (induction rds arbitrary: k b s out)
  case (Cons rd rds)
  define s1 where "s1 = rd_step rd s"
  have rc: "if snd rd = Some EOF then ended (b @ fst rd) s1 else got (b @ fst rd) s1"
    using read_more[OF Cons.prems(1)] read_eof[OF Cons.prems(1)] by (simp add: s1_def)
  consider (wfail) "fst rd \<noteq> '''' \<and> \<not> write k" | (eof) "\<not> (fst rd \<noteq> '''' \<and> \<not> write k)" "snd rd = Some EOF"
    | (err) x where "\<not> (fst rd \<noteq> '''' \<and> \<not> write k)" "snd rd = Some (ReadError x)"
    | (go) "\<not> (fst rd \<noteq> '''' \<and> \<not> write k)" "snd rd = None"
    by (metis option.exhaust read_error.exhaust)
  then show ?case
  proof cases
    case wfail
    then have "out = ''''" "e = Some ''write error''" "s' = s1" using Cons.prems(2) by (simp_all add: s1_def)
    then show ?thesis using rc by (intro exI[of _ 0]) auto
  next
    case eof
    then have "out = fst rd" "e = None" "s' = s1" using Cons.prems(2) by (auto simp: s1_def Let_def)
    then show ?thesis using rc eof by (intro exI[of _ 0]) auto
  next
    case err
    then have "out = fst rd" "e = Some x" "s' = s1" using Cons.prems(2) by (auto simp: s1_def Let_def)
    then show ?thesis using rc err by (intro exI[of _ 0]) auto
  next
    case go
    then obtain out' where o: "copyWithFlush rd_step write (if fst rd \<noteq> '''' then Suc k else k) rds s1 = Some (out', e, s')" "out = fst rd @ out'"
      using Cons.prems(2) by (auto simp: s1_def Let_def)
    have h: "got (b @ fst rd) s1" using rc go by simp
    from Cons.IH[OF h o(1)] obtain n where n: "n < length rds" "\<forall>j < n. snd (rds ! j) = None"
        "if snd (rds ! n) = Some EOF then ended ((b @ fst rd) @ concat (map fst (take (Suc n) rds))) s'
         else e \<noteq> None \<and> got ((b @ fst rd) @ concat (map fst (take (Suc n) rds))) s'"
        "\<exists>rest. concat (map fst (take (Suc n) rds)) = out' @ rest" "e = None \<longrightarrow> out' = concat (map fst (take (Suc n) rds))" by blast
    show ?thesis using n o(2) go(2) by (intro exI[of _ "Suc n"]) (auto simp: nth_Cons split: nat.splits)
  qed
qed simp

end

section \<open>Line splitting\<close>

text \<open>The lines a whole text is read as: the last one may lack its newline.\<close>
definition text_lines :: "string \<Rightarrow> string list" where
  "text_lines s = (case read_lines s of (ls, rest) \<Rightarrow> if rest = '''' then ls else ls @ [rest])"

lemma read_lines_append:
  "read_lines (s @ t) = (fst (read_lines s) @ fst (read_lines (snd (read_lines s) @ t)), snd (read_lines (snd (read_lines s) @ t)))"
proof (induction s)
  case (Cons c s)
  obtain ls rest where e: "read_lines s = (ls, rest)" by force
  show ?case
  proof (cases "c = newline")
    case True then show ?thesis using Cons e by simp
  next
    case False
    then show ?thesis using Cons e by (cases ls) (auto split: list.splits prod.splits)
  qed
qed simp


text \<open>The state of an interceptor that has read the bytes b and not finished.\<close>
definition has_read :: "interceptor \<Rightarrow> stream_world \<Rightarrow> string \<Rightarrow> stream_state \<Rightarrow> bool" where
  "has_read i w b s =
     (ss_buf s = snd (read_lines b) \<and> ss_acc s = foldl (parseLine i w) stream_start (fst (read_lines b))
      \<and> \<not> ss_once s \<and> ss_calls s = [])"

text \<open>The callbacks of a stream of which the bytes b were read.\<close>
definition callbacks :: "interceptor \<Rightarrow> stream_world \<Rightarrow> string \<Rightarrow> string option \<Rightarrow> (StreamMetrics \<times> string option) list" where
  "callbacks i w b e =
     (case stream_metrics i (foldl (parseLine i w) stream_start (text_lines b)) of None \<Rightarrow> [] | Some m \<Rightarrow> [(m, e)])"

lemma has_read_new: "has_read i w '''' si_new" by (simp add: has_read_def si_new_def)

lemma has_read_more:
  assumes "has_read i w b s"
  shows "has_read i w (b @ d) (if d \<noteq> '''' then processLines i w (s\<lparr>ss_buf := ss_buf s @ d\<rparr>) else s)"
proof (cases "d = ''''")
  case True then show ?thesis using assms by simp
next
  case False then show ?thesis using assms read_lines_append[of b d] by (simp add: has_read_def processLines_def case_prod_beta)
qed

lemma finish_flushed:
  assumes "has_read i w b s"
  shows "ss_once (si_finish i e (flushRemaining i w s))" "ss_calls (si_finish i e (flushRemaining i w s)) = callbacks i w b e"
  using assms by (auto simp: has_read_def si_finish_def flushRemaining_def callbacks_def text_lines_def case_prod_beta)

lemma Close_once: "ss_once s \<Longrightarrow> ss_calls (si_Close i w e s) = ss_calls s"
  by (simp add: si_Close_def si_finish_def flushRemaining_def)

lemma Read_cases:
  assumes "has_read i w b s"
  shows "if snd rd = Some EOF then ss_once (si_Read i w rd s) \<and> ss_calls (si_Read i w rd s) = callbacks i w (b @ fst rd) None
    else has_read i w (b @ fst rd) (si_Read i w rd s)"
  using has_read_more[OF assms, of "fst rd"] finish_flushed
  by (auto simp: si_Read_def Let_def simp del: append_is_Nil_conv)

interpretation sse: stream_reader "si_Read i w" "has_read i w" "\<lambda>b s. ss_once s \<and> ss_calls s = callbacks i w b None" for i w
proof unfold_locales
  show "has_read i w (b @ fst rd) (si_Read i w rd s)" if "has_read i w b s" "snd rd \<noteq> Some EOF" for b s rd
    using Read_cases[OF that(1), of rd] that(2) by simp
  show "ss_once (si_Read i w rd s) \<and> ss_calls (si_Read i w rd s) = callbacks i w (b @ fst rd) None"
    if "has_read i w b s" "snd rd = Some EOF" for b s rd
    using Read_cases[OF that(1), of rd] that(2) by simp
qed

lemma stream_metrics_exact_raw:
  assumes "stream_to_client i w write rds = Some (out, calls)"
  shows "\<exists>n e. n < length rds \<and> (\<forall>j < n. snd (rds ! j) = None)
    \<and> calls = callbacks i w (concat (map fst (take (Suc n) rds))) e
    \<and> (e = None \<longleftrightarrow> snd (rds ! n) = Some EOF)
    \<and> (\<exists>rest. concat (map fst (take (Suc n) rds)) = out @ rest)
    \<and> length calls \<le> 1 \<and> ((\<forall>report. i \<noteq> IOpenAI report) \<longrightarrow> length calls = 1)"
proof -
  obtain err s' where c: "copyWithFlush (si_Read i w) write 0 rds si_new = Some (out, err, s')" "calls = ss_calls (si_Close i w err s')"
    using assms by (auto simp: stream_to_client_def)
  obtain n where n: "n < length rds" "\<forall>j < n. snd (rds ! j) = None"
      "if snd (rds ! n) = Some EOF then ss_once s' \<and> ss_calls s' = callbacks i w (concat (map fst (take (Suc n) rds))) None
       else err \<noteq> None \<and> has_read i w (concat (map fst (take (Suc n) rds))) s'"
      "\<exists>rest. concat (map fst (take (Suc n) rds)) = out @ rest"
    using sse.copy_ends[OF has_read_new c(1)] unfolding append_Nil by blast
  let ?b = "concat (map fst (take (Suc n) rds))"
  have len: "length (callbacks i w ?b e) \<le> 1 \<and> ((\<forall>report. i \<noteq> IOpenAI report) \<longrightarrow> length (callbacks i w ?b e) = 1)" for e
    by (cases i) (auto simp: callbacks_def stream_metrics_defs Let_def split: option.splits)
  show ?thesis
  proof (cases "snd (rds ! n) = Some EOF")
    case True
    then have "calls = callbacks i w ?b None" using n(3) c(2) Close_once[of s' i w err] by simp
    then show ?thesis using n True len[of None] by (intro exI[of _ n] exI[of _ None]) auto
  next
    case False
    then have h: "has_read i w ?b s'" "err \<noteq> None" using n(3) by auto
    then have "calls = callbacks i w ?b err" using finish_flushed(2)[OF h(1), of err] c(2) by (simp add: si_Close_def)
    then show ?thesis using n False h(2) len[of err] by (intro exI[of _ n] exI[of _ err]) auto
  qed
qed

text \<open>C24: what is recorded of a stream does not depend on how the network cut it into reads: the callback gets the
  metrics of the whole text that was read, line by line, together with the reason of an interruption;
  it runs at most once, and always unless the interceptor is that of the Responses API; the client got a
  prefix of what was read.\<close>
theorem stream_metrics_exact:
  assumes "stream_to_client i w write rds = Some (out, calls)"
  shows "\<exists>n e. n < length rds \<and> (\<forall>j < n. snd (rds ! j) = None)
    \<and> calls = callbacks i w (concat (map fst (take (Suc n) rds))) e
    \<and> (e = None \<longleftrightarrow> snd (rds ! n) = Some EOF)
    \<and> (\<exists>rest. concat (map fst (take (Suc n) rds)) = out @ rest)
    \<and> length calls \<le> 1 \<and> ((\<forall>report. i \<noteq> IOpenAI report) \<longrightarrow> length calls = 1)"
  using assms by (rule stream_metrics_exact_raw)


text \<open>An upload read in two pieces: the usage of both events is found across the cut.\<close>
definition demo_world :: stream_world where
  "demo_world = \<lparr>sw_json = \<lambda>d. if d = ''s'' then Some \<lparr>sj_Type = ''message_start'', sj_Model = ''m'', sj_ID = ''i'',
        sj_Usage = no_usage\<lparr>ru_Input := 7\<rparr>, sj_DeltaUsage = no_usage, sj_UsagePresent = True\<rparr>
      else if d = ''d'' then Some \<lparr>sj_Type = ''message_delta'', sj_Model = '''', sj_ID = '''',
        sj_Usage = no_usage, sj_DeltaUsage = no_usage\<lparr>ru_Output := 5\<rparr>, sj_UsagePresent = True\<rparr>
      else None, sw_capacity = \<lambda>_. False\<rparr>"

definition demo_reads :: reads where
  "demo_reads = [(''data: s'' @ [newline] @ ''da'', None), (''ta: d'', Some EOF)]"

lemma demo_stream:
  "map_option (\<lambda>(out, calls). map (\<lambda>(m, e). (sm_Model m, tu_InputTokens (sm_Usage m), tu_OutputTokens (sm_Usage m), e)) calls)
     (stream_to_client IAnthropic demo_world (\<lambda>_. True) demo_reads) = Some [(''m'', 7, 5, None)]"
  by code_simp

lemma stream_metrics_exact_witness:
  "\<exists>out calls n. stream_to_client IAnthropic demo_world (\<lambda>_. True) demo_reads = Some (out, calls) \<and> length calls = 1
    \<and> calls = callbacks IAnthropic demo_world (concat (map fst (take (Suc n) demo_reads))) None"
proof -
  obtain out m where e: "stream_to_client IAnthropic demo_world (\<lambda>_. True) demo_reads = Some (out, [(m, None)])"
    using demo_stream by auto
  from stream_metrics_exact[OF e] obtain n er where
    "[(m, None)] = callbacks IAnthropic demo_world (concat (map fst (take (Suc n) demo_reads))) er" by blast
  moreover from this have "er = None" by (auto simp: callbacks_def split: option.splits)
  ultimately have "stream_to_client IAnthropic demo_world (\<lambda>_. True) demo_reads = Some (out, [(m, None)]) \<and> length [(m, None)] = 1
    \<and> [(m, None)] = callbacks IAnthropic demo_world (concat (map fst (take (Suc n) demo_reads))) None" using e by simp
  then show ?thesis by blast
qed

text \<open>The interceptor of the Responses API does not call back for a stream that ended, or was interrupted,
  before a terminal event: neither the connection, nor the context, nor the request row is settled.\<close>
lemma no_terminal_event_no_callback:
  assumes "stream_to_client (IOpenAI report) w writes rds = Some (out, calls)"
    and "\<And>d. \<not> ev_HasUsage (ParseOpenAIStreamEvent (sw_json w d))" and "\<And>d. \<not> sw_capacity w d"
  shows "calls = []"
proof -
  have step: "\<not> sa_HasUsage (parseLine (IOpenAI report) w a l) \<and> \<not> sa_Capacity (parseLine (IOpenAI report) w a l)"
    if "\<not> sa_HasUsage a \<and> \<not> sa_Capacity a" for a l
    using that assms(2,3) by (auto simp: parseLine_defs take_names_def Let_def split: option.split)
  have "\<not> sa_HasUsage (foldl (parseLine (IOpenAI report) w) a ls) \<and> \<not> sa_Capacity (foldl (parseLine (IOpenAI report) w) a ls)"
    if "\<not> sa_HasUsage a \<and> \<not> sa_Capacity a" for a ls
    using that step by (induction ls arbitrary: a) auto
  then have "callbacks (IOpenAI report) w b e = []" for b e
    by (simp add: callbacks_def stream_metrics_defs stream_start_def Let_def)
  moreover obtain b e where "calls = callbacks (IOpenAI report) w b e" using stream_metrics_exact_raw[OF assms(1)] by blast
  ultimately show ?thesis by simp
qed

section \<open>Complete bodies\<close>

record ResponseMetrics =
  rm_Model :: string
  rm_MsgID :: string
  rm_Usage :: TokenUsage

text \<open>ParseResponse of the transformers, on what json.Unmarshal finds in the body; None is its error.\<close>
definition ParseAnthropicResponse :: "sse_json option \<Rightarrow> ResponseMetrics option" where
  "ParseAnthropicResponse doc = map_option (\<lambda>j. let u = sj_Usage j in
     \<lparr>rm_Model = sj_Model j, rm_MsgID = sj_ID j, rm_Usage = \<lparr>tu_InputTokens = ru_Input u, tu_OutputTokens = ru_Output u,
        tu_CacheCreationTokens = ru_CacheCreation u, tu_CacheReadTokens = ru_Cached u\<rparr>\<rparr>) doc"

definition ParseOpenAIResponse :: "sse_json option \<Rightarrow> ResponseMetrics option" where
  "ParseOpenAIResponse doc = map_option (\<lambda>j. let u = sj_Usage j; inp = i64 (ru_Input u - ru_Cached u) in
     \<lparr>rm_Model = sj_Model j, rm_MsgID = sj_ID j, rm_Usage = \<lparr>tu_InputTokens = (if inp < 0 then 0 else inp), tu_OutputTokens = ru_Output u,
        tu_CacheCreationTokens = 0, tu_CacheReadTokens = ru_Cached u\<rparr>\<rparr>) doc"

definition ParseChatCompletionsResponse :: "sse_json option \<Rightarrow> ResponseMetrics option" where
  "ParseChatCompletionsResponse doc = map_option (\<lambda>j. let u = sj_Usage j in
     \<lparr>rm_Model = sj_Model j, rm_MsgID = sj_ID j, rm_Usage = \<lparr>tu_InputTokens = ru_Input u, tu_OutputTokens = ru_Output u,
        tu_CacheCreationTokens = 0, tu_CacheReadTokens = 0\<rparr>\<rparr>) doc"

definition ParseGeminiResponse :: "sse_json option \<Rightarrow> ResponseMetrics option" where
  "ParseGeminiResponse doc = map_option (\<lambda>j. let u = sj_Usage j in
     \<lparr>rm_Model = sj_Model j, rm_MsgID = sj_ID j, rm_Usage = \<lparr>tu_InputTokens = ru_Input u, tu_OutputTokens = i64 (ru_Output u + ru_Thoughts u),
        tu_CacheCreationTokens = 0, tu_CacheReadTokens = ru_Cached u\<rparr>\<rparr>) doc"

definition ParseResponse :: "interceptor \<Rightarrow> sse_json option \<Rightarrow> ResponseMetrics option" where
  "ParseResponse i doc =
     (case i of IAnthropic \<Rightarrow> ParseAnthropicResponse doc | IOpenAI _ \<Rightarrow> ParseOpenAIResponse doc
      | IChat \<Rightarrow> ParseChatCompletionsResponse doc | IGemini \<Rightarrow> ParseGeminiResponse doc)"

text \<open>A streamed answer is accounted like a complete one: whatever usage the interceptor has gathered, its
  callback gets the token counts that the same provider's parser gives a body with that usage.\<close>
lemma stream_counts_like_body:
  assumes "stream_metrics i a = Some m" and "ParseResponse i (Some j) = Some r" and "sj_Usage j = sa_Usage a"
  shows "sm_Usage m = rm_Usage r"
  using assms
  by (cases i) (auto simp: stream_metrics_defs ParseResponse_def ParseAnthropicResponse_def ParseOpenAIResponse_def
      ParseChatCompletionsResponse_def ParseGeminiResponse_def anthropic_metrics_def chat_metrics_def gemini_metrics_def
      metrics_with_def Let_def split: if_splits)

lemma stream_counts_like_body_witness:
  "sm_Usage (gemini_metrics (stream_start\<lparr>sa_Usage := no_usage\<lparr>ru_Output := 3, ru_Thoughts := 4\<rparr>\<rparr>))
     = \<lparr>tu_InputTokens = 0, tu_OutputTokens = 7, tu_CacheCreationTokens = 0, tu_CacheReadTokens = 0\<rparr>"
proof -
  let ?a = "stream_start\<lparr>sa_Usage := no_usage\<lparr>ru_Output := 3, ru_Thoughts := 4\<rparr>\<rparr>"
  let ?j = "\<lparr>sj_Type = '''', sj_Model = '''', sj_ID = '''', sj_Usage = no_usage\<lparr>ru_Output := 3, ru_Thoughts := 4\<rparr>,
      sj_DeltaUsage = no_usage, sj_UsagePresent = True\<rparr>"
  have "stream_metrics IGemini ?a = Some (gemini_metrics ?a)" by (simp add: stream_metrics_def)
  moreover have "ParseResponse IGemini (Some ?j) = Some \<lparr>rm_Model = '''', rm_MsgID = '''',
      rm_Usage = \<lparr>tu_InputTokens = 0, tu_OutputTokens = 7, tu_CacheCreationTokens = 0, tu_CacheReadTokens = 0\<rparr>\<rparr>"
    by (simp add: ParseResponse_def ParseGeminiResponse_def no_usage_def i64_def)
  ultimately have "sm_Usage (gemini_metrics ?a) = rm_Usage \<lparr>rm_Model = '''', rm_MsgID = '''',
      rm_Usage = \<lparr>tu_InputTokens = 0, tu_OutputTokens = 7, tu_CacheCreationTokens = 0, tu_CacheReadTokens = 0\<rparr>\<rparr>"
    by (rule stream_counts_like_body) (simp add: stream_start_def)
  then show ?thesis by simp
qed

text \<open>The Gemini interceptor keeps the usage of the last data line, also of one that is not JSON or carries no
  usage: such a line behind the final event makes the stream free.\<close>
lemma gemini_last_line_decides:
  assumes "sse_data l = Some d" and "sw_json w d = None"
  shows "sa_Usage (parseLine IGemini w a l) = no_usage"
  using assms by (simp add: parseLine_defs ParseGeminiStreamEvent_def no_event_def take_names_def Let_def)

section \<open>The look-ahead for capacity errors (codex_capacity_retry.go)\<close>

text \<open>bytes.Index.\<close>
fun index_of :: "string \<Rightarrow> string \<Rightarrow> nat option" where
  "index_of s p =
     (if has_prefix s p then Some 0 else (case s of [] \<Rightarrow> None | _ # r \<Rightarrow> map_option Suc (index_of r p)))"

declare index_of.simps [simp del]

definition cr :: char where "cr = CHR 0x0D"

definition sseEventEnd :: "string \<Rightarrow> (nat \<times> nat) option" where
  "sseEventEnd raw =
     (case (index_of raw [newline, newline], index_of raw [cr, newline, cr, newline]) of
        (lf, Some c) \<Rightarrow> (case lf of Some l \<Rightarrow> if c < l then Some (c, 4) else Some (l, 2) | None \<Rightarrow> Some (c, 4))
      | (Some l, None) \<Rightarrow> Some (l, 2)
      | (None, None) \<Rightarrow> None)"

text \<open>bytes.Split at newlines.\<close>
fun split_newline :: "string \<Rightarrow> string list" where
  "split_newline [] = ['''']"
| "split_newline (c # s) =
     (if c = newline then '''' # split_newline s else (c # hd (split_newline s)) # tl (split_newline s))"

definition parse_sse_line :: "string \<times> string \<Rightarrow> string \<Rightarrow> string \<times> string" where
  "parse_sse_line acc line =
     (let l = trim_space line in
      if has_prefix l ''event:'' then (trim_space (drop 6 l), snd acc)
      else if has_prefix l ''data:'' then
        (fst acc, (if snd acc \<noteq> '''' then snd acc @ [newline] else snd acc) @ trim_space (drop 5 l))
      else acc)"

definition parseCodexSSEEvent :: "string \<Rightarrow> string \<times> string" where
  "parseCodexSSEEvent event = foldl parse_sse_line ('''', '''') (split_newline event)"

text \<open>strings.Fields, joined by single spaces.\<close>
fun fields_of :: "string \<Rightarrow> string list" where
  "fields_of [] = []"
| "fields_of (c # s) =
     (if is_space c then fields_of s
      else (case s of [] \<Rightarrow> [[c]]
            | d # _ \<Rightarrow> if is_space d then [c] # fields_of s else (c # hd (fields_of s)) # tl (fields_of s)))"

fun join_space :: "string list \<Rightarrow> string" where
  "join_space [] = ''''"
| "join_space [x] = x"
| "join_space (x # xs) = x @ '' '' @ join_space xs"

definition codexCapacityMessage :: string where
  "codexCapacityMessage = ''selected model is at capacity. please try a different model.''"

definition containsCodexCapacityText :: "string \<Rightarrow> bool" where
  "containsCodexCapacityText v = contains_str (join_space (fields_of (to_lower v))) codexCapacityMessage"

definition isCodexCapacityCode :: "string \<Rightarrow> bool" where
  "isCodexCapacityCode code = list_ex (EqualFold code)
     [''server_is_overloaded'', ''server_overloaded'', ''overloaded_error'', ''model_at_capacity'', ''slow_down'']"

definition code_key :: "string \<Rightarrow> bool" where
  "code_key n = List.member [''code'', ''error_code'', ''errorcode'', ''codex_error_info''] n"

definition message_key :: "string \<Rightarrow> bool" where
  "message_key n = List.member [''message'', ''detail'', ''reason'', ''description''] n"

definition error_key :: "string \<Rightarrow> bool" where
  "error_key n = List.member [''error'', ''errors'', ''failure'', ''cause''] n"

text \<open>A document is taken without duplicate keys: Go's map keeps the last of them.\<close>
fun isCodexCapacityJSONValue :: "json \<Rightarrow> bool \<Rightarrow> bool \<Rightarrow> bool"
  and capacity_items :: "json list \<Rightarrow> bool \<Rightarrow> bool"
  and capacity_members :: "(string \<times> json) list \<Rightarrow> bool \<Rightarrow> bool \<Rightarrow> bool" where
  "isCodexCapacityJSONValue (JStr s) atRoot ctx = ((atRoot \<or> ctx) \<and> containsCodexCapacityText s)"
| "isCodexCapacityJSONValue (JArr xs) atRoot ctx = capacity_items xs ctx"
| "isCodexCapacityJSONValue (JObj ms) atRoot ctx = capacity_members ms atRoot ctx"
| "isCodexCapacityJSONValue JNull atRoot ctx = False"
| "isCodexCapacityJSONValue (JBool b) atRoot ctx = False"
| "isCodexCapacityJSONValue JNum atRoot ctx = False"
| "capacity_items [] ctx = False"
| "capacity_items (x # xs) ctx = (isCodexCapacityJSONValue x False ctx \<or> capacity_items xs ctx)"
| "capacity_members [] atRoot ctx = False"
| "capacity_members ((k, v) # ms) atRoot ctx =
     ((let n = to_lower (trim_space k) in
       if error_key n then isCodexCapacityJSONValue v False True
       else (code_key n \<and> (case v of JStr s \<Rightarrow> isCodexCapacityCode s | _ \<Rightarrow> False))
          \<or> (message_key n \<and> (case v of JStr s \<Rightarrow> (atRoot \<or> ctx) \<and> containsCodexCapacityText s | _ \<Rightarrow> False))
          \<or> isCodexCapacityJSONValue v False ctx)
      \<or> capacity_members ms atRoot ctx)"


text \<open>What encoding/json and gjson make of an event's payload: whether it is JSON, the value, its type field, a
  string at a path, the items of an array with a text or a refusal, and whether a terminal event already
  carries output (codexCapacityTerminalHasOutput, which only asks gjson).\<close>
record codex_world =
  cw_valid :: "string \<Rightarrow> bool"
  cw_value :: "string \<Rightarrow> json option"
  cw_type :: "string \<Rightarrow> string"
  cw_string :: "string \<Rightarrow> string \<Rightarrow> string"
  cw_itemText :: "string \<Rightarrow> bool"
  cw_terminalOutput :: "string \<Rightarrow> bool"

definition trim_bom :: "string \<Rightarrow> string" where
  "trim_bom s = (if has_prefix s [CHR 0xEF, CHR 0xBB, CHR 0xBF] then drop 3 s else s)"

definition quoted :: "string \<Rightarrow> string" where "quoted s = [CHR 0x22] @ s @ [CHR 0x22]"

definition isCodexCapacityErrorBody :: "codex_world \<Rightarrow> string \<Rightarrow> bool" where
  "isCodexCapacityErrorBody w body =
     (if body = '''' then False
      else let trimmed = trim_bom (trim_space body) in
           if cw_valid w trimmed
           then (case cw_value w trimmed of Some v \<Rightarrow> isCodexCapacityJSONValue v True False | None \<Rightarrow> False)
           else containsCodexCapacityText trimmed
             \<or> list_ex (\<lambda>c. contains_str (to_lower trimmed) (quoted c)) [''server_is_overloaded'', ''server_overloaded'', ''slow_down''])"

definition isCodexCapacitySSEEvent :: "codex_world \<Rightarrow> string \<Rightarrow> bool" where
  "isCodexCapacitySSEEvent w event =
     (case parseCodexSSEEvent event of (name, data) \<Rightarrow>
        if \<not> list_ex (\<lambda>n. EqualFold n ''response.failed'' \<or> EqualFold n ''error'') [name, cw_type w data] then False
        else if data \<noteq> '''' then (if cw_terminalOutput w data then False else isCodexCapacityErrorBody w data)
        else isCodexCapacityErrorBody w event)"

definition codexResponsePayloadHasOutput :: "codex_world \<Rightarrow> string \<Rightarrow> bool" where
  "codexResponsePayloadHasOutput w payload =
     (let typ = cw_type w payload; nonEmpty = (\<lambda>path. cw_string w payload path \<noteq> ''''); is = List.member
      in if typ = '''' then False
         else if is [''response.completed'', ''response.done'', ''response.incomplete'', ''response.failed'', ''error''] typ then True
         else if is [''response.reasoning_summary_text.delta'', ''response.reasoning.delta'', ''response.reasoning_text.delta'',
                ''response.output_text.delta'', ''response.text.delta'', ''response.function_call_arguments.delta'',
                ''response.custom_tool_call_input.delta'', ''response.code_interpreter_call_code.delta'',
                ''response.mcp_call_arguments.delta'', ''response.shell_call_command.delta'', ''response.refusal.delta'',
                ''response.audio.transcript.delta''] typ then nonEmpty ''delta''
         else if typ = ''response.audio.delta'' then nonEmpty ''delta'' \<or> nonEmpty ''data''
         else if typ = ''response.image_generation_call.partial_image'' then nonEmpty ''partial_image_b64''
         else if is [''response.shell_call_command.added'', ''response.shell_call_command.done''] typ then nonEmpty ''command''
         else if is [''response.reasoning_summary_text.done'', ''response.reasoning_text.done'', ''response.output_text.done''] typ
         then nonEmpty ''text''
         else if typ = ''response.refusal.done'' then nonEmpty ''refusal''
         else if is [''response.function_call_arguments.done'', ''response.mcp_call_arguments.done''] typ then nonEmpty ''arguments''
         else if typ = ''response.custom_tool_call_input.done'' then nonEmpty ''input''
         else if typ = ''response.code_interpreter_call_code.done'' then nonEmpty ''code''
         else if typ = ''response.reasoning_summary_part.done'' then nonEmpty ''part.text''
         else if typ = ''response.content_part.done'' then nonEmpty ''part.text'' \<or> nonEmpty ''part.refusal''
         else if typ = ''response.output_item.done'' then
           (let item = cw_string w payload ''item.type'' in
            if item = ''function_call'' then nonEmpty ''item.arguments''
            else if item = ''custom_tool_call'' then nonEmpty ''item.input''
            else item = ''message'' \<and> cw_itemText w payload)
         else False)"

text \<open>The first data line decides.\<close>
definition codexStreamEventAllowsCommit :: "codex_world \<Rightarrow> string \<Rightarrow> bool" where
  "codexStreamEventAllowsCommit w event =
     (case find (\<lambda>l. has_prefix (trim_space l) ''data:'') (split_newline event) of
        None \<Rightarrow> False
      | Some l \<Rightarrow> let data = trim_space (drop 5 (trim_space l)) in
                  if \<not> cw_valid w data then True else codexResponsePayloadHasOutput w data)"

lemma index_of_Nil: "p \<noteq> [] \<Longrightarrow> index_of [] p = None"
  by (cases p) (simp_all add: index_of.simps)

lemma sseEventEnd_Nil: "sseEventEnd [] = None"
  by (simp add: sseEventEnd_def index_of_Nil)

lemma sseEventEnd_pos: "sseEventEnd raw = Some (e, d) \<Longrightarrow> raw \<noteq> [] \<and> 0 < d"
  using sseEventEnd_Nil by (cases "raw = []") (auto simp: sseEventEnd_def split: option.splits if_splits)

text \<open>The events of the buffered bytes: Inl is a decision (to retry, or to commit), Inr what is left.\<close>
function probe_events :: "codex_world \<Rightarrow> string \<Rightarrow> bool + string" where
  "probe_events w raw =
     (case sseEventEnd raw of
        None \<Rightarrow> Inr raw
      | Some (e, d) \<Rightarrow>
          let event = take (e + d) raw in
          if isCodexCapacitySSEEvent w event then Inl True
          else if codexStreamEventAllowsCommit w event then Inl False
          else probe_events w (drop (e + d) raw))"
  by pat_completeness auto
termination
  by (relation "measure (\<lambda>(w, raw). length raw)") (auto dest: sseEventEnd_pos)

declare probe_events.simps [simp del]

text \<open>What a source still returns after a read that came with an error: the error again.\<close>
definition tail_reads :: "read_error option \<Rightarrow> reads \<Rightarrow> reads" where
  "tail_reads e rds = (case e of None \<Rightarrow> rds | Some x \<Rightarrow> [('''', Some x)])"

definition codexCapacityProbeMaxBytes :: int where "codexCapacityProbeMaxBytes = 64 * 1024"

text \<open>The result and the body that replaces the response's; None: the source has not ended.\<close>
fun probeCodexCapacityStream :: "codex_world \<Rightarrow> string \<Rightarrow> string \<Rightarrow> reads \<Rightarrow> (bool \<times> reads) option" where
  "probeCodexCapacityStream w pre pending [] = None"
| "probeCodexCapacityStream w pre pending ((b, e) # rds) =
     (let pre' = pre @ b;
          at_error = (\<lambda>p. case e of
              None \<Rightarrow> probeCodexCapacityStream w pre' p rds
            | Some x \<Rightarrow>
                if isCodexCapacitySSEEvent w p \<or> isCodexCapacityErrorBody w p then Some (True, [(pre', None), ('''', Some EOF)])
                else Some (False, [(pre', None), ('''', Some x)]))
      in if b = '''' then at_error pending
         else (case probe_events w (pending @ b) of
                 Inl True \<Rightarrow> Some (True, [(pre', None), ('''', Some EOF)])
               | Inl False \<Rightarrow> Some (False, (pre', None) # tail_reads e rds)
               | Inr p \<Rightarrow> if int (length pre') \<ge> codexCapacityProbeMaxBytes then Some (False, (pre', None) # tail_reads e rds)
                          else at_error p))"


text \<open>What a reader of the source gets: the bytes up to the first error, and that error.\<close>
fun stream_content :: "reads \<Rightarrow> string \<times> read_error option" where
  "stream_content [] = ('''', None)"
| "stream_content ((b, e) # rds) =
     (case e of Some x \<Rightarrow> (b, Some x) | None \<Rightarrow> (b @ fst (stream_content rds), snd (stream_content rds)))"

lemma content_tail: "stream_content ((pre, None) # tail_reads e rds) = (pre @ fst (stream_content (('''', e) # rds)), snd (stream_content (('''', e) # rds)))"
  by (cases e) (simp_all add: tail_reads_def)

lemma probe_replay:
  "probeCodexCapacityStream w pre pending rds = Some (False, replay) \<Longrightarrow>
     stream_content replay = (pre @ fst (stream_content rds), snd (stream_content rds))"
proof (induction w pre pending rds rule: probeCodexCapacityStream.induct)
  case (2 w pre pending b e rds)
  have IH: "e = None \<Longrightarrow> probeCodexCapacityStream w (pre @ b) p rds = Some (False, replay) \<Longrightarrow>
             stream_content replay = ((pre @ b) @ fst (stream_content rds), snd (stream_content rds))" for p
    using 2(1) by simp
  have at_error: "stream_content replay = (pre @ fst (stream_content ((b, e) # rds)), snd (stream_content ((b, e) # rds)))"
    if "(case e of None \<Rightarrow> probeCodexCapacityStream w (pre @ b) p rds
           | Some x \<Rightarrow> if isCodexCapacitySSEEvent w p \<or> isCodexCapacityErrorBody w p then Some (True, [(pre @ b, None), ('''', Some EOF)])
                else Some (False, [(pre @ b, None), ('''', Some x)])) = Some (False, replay)" for p
    using that IH[of p] by (cases e) (auto split: if_splits)
  have dec: "stream_content ((pre @ b, None) # tail_reads e rds) = (pre @ fst (stream_content ((b, e) # rds)), snd (stream_content ((b, e) # rds)))"
    unfolding content_tail by (cases e) simp_all
  show ?case
  proof (cases "b = ''''")
    case True
    show ?thesis using 2(2) True at_error[of pending] by (cases e) (simp_all split: if_splits)
  next
    case False
    show ?thesis
    proof (cases "probe_events w (pending @ b)")
      case (Inl x)
      then show ?thesis using 2(2) False dec by (cases x) auto
    next
      case (Inr p)
      show ?thesis
      proof (cases "int (length (pre @ b)) \<ge> codexCapacityProbeMaxBytes")
        case True then show ?thesis using 2(2) False Inr dec by auto
      next
        case le: False
        then show ?thesis using 2(2) False Inr at_error[of p] by (simp add: Let_def del: length_append)
      qed
    qed
  qed
qed simp

text \<open>C25: looking ahead for a capacity error changes nothing of a stream that is kept: whatever the reads, the body
  that replaces the response's yields the same bytes and ends in the same error.\<close>
theorem probe_replays_exactly:
  assumes "probeCodexCapacityStream w '''' '''' rds = Some (False, replay)"
  shows "stream_content replay = stream_content rds"
  using probe_replay[OF assms] by simp

text \<open>The events already passed over, and what is pending behind them.\<close>
definition skipped :: "codex_world \<Rightarrow> string \<Rightarrow> string \<Rightarrow> bool" where
  "skipped w consumed pending \<longleftrightarrow>
     (\<exists>evs. consumed = concat evs @ pending \<and> (\<forall>e \<in> set evs. \<not> codexStreamEventAllowsCommit w e))"

definition capacity_found :: "codex_world \<Rightarrow> string \<Rightarrow> bool" where
  "capacity_found w consumed \<longleftrightarrow>
     (\<exists>evs found rest. consumed = concat evs @ found @ rest \<and> (\<forall>e \<in> set evs. \<not> codexStreamEventAllowsCommit w e)
        \<and> (isCodexCapacitySSEEvent w found \<or> isCodexCapacityErrorBody w found))"

lemma skipped_more: "skipped w consumed pending \<Longrightarrow> skipped w (consumed @ b) (pending @ b)"
  by (auto simp: skipped_def)

lemma probe_events_skip:
  "skipped w consumed raw \<Longrightarrow>
     (case probe_events w raw of Inl True \<Rightarrow> capacity_found w consumed | Inl False \<Rightarrow> True | Inr p \<Rightarrow> skipped w consumed p)"
proof (induction w raw rule: probe_events.induct)
  case (1 w raw)
  show ?case
  proof (cases "sseEventEnd raw")
    case None then show ?thesis using 1(2) by (simp add: probe_events.simps)
  next
    case (Some ed)
    obtain e d where ed: "ed = (e, d)" by force
    let ?ev = "take (e + d) raw"
    obtain evs where evs: "consumed = concat evs @ raw" "\<forall>x \<in> set evs. \<not> codexStreamEventAllowsCommit w x"
      using 1(2) by (auto simp: skipped_def)
    consider "isCodexCapacitySSEEvent w ?ev" | "\<not> isCodexCapacitySSEEvent w ?ev" "codexStreamEventAllowsCommit w ?ev"
      | "\<not> isCodexCapacitySSEEvent w ?ev" "\<not> codexStreamEventAllowsCommit w ?ev" by blast
    then show ?thesis
    proof cases
      case 1
      then have "capacity_found w consumed" using evs unfolding capacity_found_def
        by (intro exI[of _ evs] exI[of _ ?ev] exI[of _ "drop (e + d) raw"]) simp
      then show ?thesis using 1 Some ed by (simp add: probe_events.simps Let_def)
    next
      case 2 then show ?thesis using Some ed by (simp add: probe_events.simps Let_def)
    next
      case 3
      have "skipped w consumed (drop (e + d) raw)" using evs 3(2) unfolding skipped_def
        by (intro exI[of _ "evs @ [?ev]"]) auto
      then show ?thesis using 1(1)[OF Some ed[symmetric] refl 3] Some ed 3 by (simp add: probe_events.simps[of w raw] Let_def)
    qed
  qed
qed

lemma probe_retry:
  assumes "probeCodexCapacityStream w pre pending rds = Some (True, replay)" and "skipped w pre pending"
  shows "capacity_found w (fst (stream_content replay)) \<and> snd (stream_content replay) = Some EOF
    \<and> (\<exists>n. fst (stream_content replay) = pre @ concat (map fst (take n rds)))"
  using assms
proof (induction w pre pending rds rule: probeCodexCapacityStream.induct)
  case (2 w pre pending b e rds)
  let ?goal = "capacity_found w (fst (stream_content replay)) \<and> snd (stream_content replay) = Some EOF
    \<and> (\<exists>n. fst (stream_content replay) = pre @ concat (map fst (take n ((b, e) # rds))))"
  have one: "\<exists>n. pre @ b = pre @ concat (map fst (take n ((b, e) # rds)))" by (intro exI[of _ 1]) simp
  have IH: "skipped w (pre @ b) p \<Longrightarrow> e = None \<Longrightarrow> probeCodexCapacityStream w (pre @ b) p rds = Some (True, replay) \<Longrightarrow> capacity_found w (fst (stream_content replay))
        \<and> snd (stream_content replay) = Some EOF \<and> (\<exists>n. fst (stream_content replay) = (pre @ b) @ concat (map fst (take n rds)))" for p
    using 2(1) by simp
  have at_error: ?goal
    if r: "(case e of None \<Rightarrow> probeCodexCapacityStream w (pre @ b) p rds
           | Some x \<Rightarrow> if isCodexCapacitySSEEvent w p \<or> isCodexCapacityErrorBody w p then Some (True, [(pre @ b, None), ('''', Some EOF)])
                else Some (False, [(pre @ b, None), ('''', Some x)])) = Some (True, replay)"
      and sk: "skipped w (pre @ b) p" for p
  proof (cases e)
    case None
    then obtain n where "fst (stream_content replay) = (pre @ b) @ concat (map fst (take n rds))" using IH[OF sk] r by auto
    then show ?thesis using IH[OF sk] r None by (auto intro!: exI[of _ "Suc n"])
  next
    case (Some x)
    then have rp: "replay = [(pre @ b, None), ('''', Some EOF)]" "isCodexCapacitySSEEvent w p \<or> isCodexCapacityErrorBody w p"
      using r by (auto split: if_splits)
    have "capacity_found w (pre @ b)" using sk rp(2) unfolding capacity_found_def skipped_def by (metis append_Nil2)
    then show ?thesis using rp one by simp
  qed
  show ?case
  proof (cases "b = ''''")
    case True
    then have "skipped w (pre @ b) pending" using 2(3) by simp
    then show ?thesis using 2(2) True at_error[of pending] by (cases e) (simp_all split: if_splits)
  next
    case False
    have sk: "skipped w (pre @ b) (pending @ b)" using 2(3) by (rule skipped_more)
    note pe = probe_events_skip[OF sk]
    show ?thesis
    proof (cases "probe_events w (pending @ b)")
      case (Inl x)
      then have "x" "replay = [(pre @ b, None), ('''', Some EOF)]" using 2(2) False by (cases x; auto)+
      then show ?thesis using pe Inl one by simp
    next
      case (Inr p)
      then have "skipped w (pre @ b) p" using pe by simp
      moreover have "\<not> int (length (pre @ b)) \<ge> codexCapacityProbeMaxBytes" using 2(2) False Inr by (auto simp: Let_def)
      ultimately show ?thesis using 2(2) False Inr at_error[of p] by (simp add: Let_def del: length_append)
    qed
  qed
qed simp


definition codex_sample :: codex_world where
  "codex_sample = \<lparr>cw_valid = \<lambda>d. True, cw_value = \<lambda>d. Some (JObj [(''error'', JObj [(''code'', JStr d)])]),
     cw_type = \<lambda>d. if d = ''slow_down'' then ''error'' else ''response.created'', cw_string = \<lambda>_ _. '''',
     cw_itemText = \<lambda>_. False, cw_terminalOutput = \<lambda>_. False\<rparr>"

abbreviation created_read :: "string \<times> read_error option" where
  "created_read \<equiv> (''data: created'' @ [newline, newline], None)"

lemma demo_probe:
  "probeCodexCapacityStream codex_sample '''' '''' [created_read, (''data: slow_down'' @ [newline, newline], None)]
     = Some (True, [((''data: created'' @ [newline, newline]) @ ''data: slow_down'' @ [newline, newline], None), ('''', Some EOF)])"
  "probeCodexCapacityStream codex_sample '''' '''' [created_read, (''data: x'', Some EOF)]
     = Some (False, [((''data: created'' @ [newline, newline]) @ ''data: x'', None), ('''', Some EOF)])"
  by code_simp+


lemma probe_replays_exactly_witness:
  "stream_content [((''data: created'' @ [newline, newline]) @ ''data: x'', None), ('''', Some EOF)]
     = stream_content [created_read, (''data: x'', Some EOF)]"
  by (rule probe_replays_exactly[OF demo_probe(2)])

end
