(* ===== verification/ImageStream.thy ===== *)
theory ImageStream
  imports Streams Admission
begin

text \<open>
  The image responses of package proxy: image_parser.go and the interceptor of image_stream.go, which reads
  the usage from the events of a stream as it passes. Unlike the text interceptors it joins the data lines
  of an event, and stops parsing for good at an event above ten MiB. encoding/json is an argument; the time to
  the first image is left out.
\<close>

section \<open>Parsing (image_parser.go)\<close>

record imageUsagePayload =
  iup_InputTokens :: int
  iup_OutputTokens :: int
  iup_TotalTokens :: int
  iup_InputDetails :: "(int \<times> int \<times> int) option"
  iup_OutputDetails :: "(int \<times> int) option"

record imageEnvelope =
  ie_Type :: string
  ie_Model :: string
  ie_Usage :: "imageUsagePayload option"

record ImageResponseMetrics =
  irm_Model :: string
  irm_Usage :: ImageTokenUsage
  irm_UsagePresent :: bool

type_synonym image_json = "string \<Rightarrow> imageEnvelope option"

definition no_image_usage :: ImageTokenUsage where
  "no_image_usage = \<lparr>itu_InputTokens = 0, itu_OutputTokens = 0, itu_TotalTokens = 0, itu_TextInputTokens = 0,
     itu_ImageInputTokens = 0, itu_CachedInputTokens = 0, itu_TextOutputTokens = 0, itu_ImageOutputTokens = 0\<rparr>"

definition imageUsageFromPayload :: "imageUsagePayload \<Rightarrow> ImageTokenUsage" where
  "imageUsageFromPayload p =
     (let u = no_image_usage\<lparr>itu_InputTokens := iup_InputTokens p, itu_OutputTokens := iup_OutputTokens p, itu_TotalTokens := iup_TotalTokens p\<rparr>;
          u1 = (case iup_InputDetails p of None \<Rightarrow> u
                | Some (t, i, c) \<Rightarrow> u\<lparr>itu_TextInputTokens := t, itu_ImageInputTokens := i, itu_CachedInputTokens := c\<rparr>);
          u2 = (case iup_OutputDetails p of None \<Rightarrow> u1
                | Some (t, i) \<Rightarrow> u1\<lparr>itu_TextOutputTokens := t, itu_ImageOutputTokens := i\<rparr>)
      in if iup_OutputTokens p > 0 \<and> itu_TextOutputTokens u2 = 0 \<and> itu_ImageOutputTokens u2 = 0
         then u2\<lparr>itu_ImageOutputTokens := iup_OutputTokens p\<rparr> else u2)"

definition ParseImageNonStreamingResponse :: "image_json \<Rightarrow> string \<Rightarrow> ImageResponseMetrics option" where
  "ParseImageNonStreamingResponse js body =
     (case js body of None \<Rightarrow> None
      | Some env \<Rightarrow>
          Some (case ie_Usage env of
              None \<Rightarrow> \<lparr>irm_Model = ie_Model env, irm_Usage = no_image_usage, irm_UsagePresent = False\<rparr>
            | Some p \<Rightarrow> \<lparr>irm_Model = ie_Model env, irm_Usage = imageUsageFromPayload p, irm_UsagePresent = True\<rparr>))"

definition ParseImageStreamEvent :: "image_json \<Rightarrow> string \<Rightarrow> string \<times> string \<times> ImageTokenUsage \<times> bool" where
  "ParseImageStreamEvent js data =
     (case js data of None \<Rightarrow> ('''', '''', no_image_usage, False)
      | Some env \<Rightarrow> (case ie_Usage env of
          None \<Rightarrow> (ie_Type env, ie_Model env, no_image_usage, False)
        | Some p \<Rightarrow> (ie_Type env, ie_Model env, imageUsageFromPayload p, True)))"

section \<open>The interceptor (image_stream.go)\<close>

definition maxImageStreamEventBytes :: int where "maxImageStreamEventBytes = 10 * 1024 * 1024"

record image_acc =
  ia_eventData :: string
  ia_model :: string
  ia_usage :: ImageTokenUsage
  ia_hasUsage :: bool
  ia_gotFirst :: bool
  ia_parseOff :: bool

record image_state =
  is_lineBuf :: string
  is_acc :: image_acc
  is_once :: bool
  is_calls :: "(ImageTokenUsage \<times> bool \<times> string option) list"

definition newImageStreamInterceptor :: image_state where
  "newImageStreamInterceptor = \<lparr>is_lineBuf = '''', is_acc = \<lparr>ia_eventData = '''', ia_model = '''', ia_usage = no_image_usage,
     ia_hasUsage = False, ia_gotFirst = False, ia_parseOff = False\<rparr>, is_once = False, is_calls = []\<rparr>"

definition image_parseEvent :: "image_json \<Rightarrow> string \<Rightarrow> image_acc \<Rightarrow> image_acc" where
  "image_parseEvent js data a =
     (case ParseImageStreamEvent js data of (typ, model, usage, hasUsage) \<Rightarrow>
        let a1 = (if model \<noteq> '''' then a\<lparr>ia_model := model\<rparr> else a);
            a2 = (if typ = ''image_generation.partial_image'' \<or> typ = ''image_edit.partial_image'' then a1\<lparr>ia_gotFirst := True\<rparr> else a1)
        in if (typ = ''image_generation.completed'' \<or> typ = ''image_edit.completed'') \<and> hasUsage
           then a2\<lparr>ia_usage := usage, ia_hasUsage := True\<rparr> else a2)"

text \<open>The event that is complete, if there is one, is parsed and the buffer emptied.\<close>
definition close_event :: "image_json \<Rightarrow> image_acc \<Rightarrow> image_acc" where
  "close_event js a =
     (if ia_eventData a \<noteq> '''' then (image_parseEvent js (ia_eventData a) a)\<lparr>ia_eventData := ''''\<rparr> else a)"

definition disableParsing :: "image_acc \<Rightarrow> image_acc" where
  "disableParsing a = a\<lparr>ia_parseOff := True, ia_eventData := ''''\<rparr>"

definition trim_eol :: "string \<Rightarrow> string" where
  "trim_eol s = rev (dropWhile (\<lambda>c. c = cr \<or> c = newline) (rev s))"

definition image_parseLine :: "image_json \<Rightarrow> image_acc \<Rightarrow> string \<Rightarrow> image_acc" where
  "image_parseLine js a raw =
     (let line = trim_eol raw in
      if trim_space line = '''' then close_event js a
      else if \<not> has_prefix line ''data:'' then a
      else let d = drop 5 line; data = (case d of c # r \<Rightarrow> if c = CHR '' '' then r else d | [] \<Rightarrow> d) in
           if trim_space data = ''[DONE]'' then a
           else if ia_eventData a \<noteq> '''' \<and> int (length (ia_eventData a)) + 1 > maxImageStreamEventBytes then disableParsing a
           else let ev = (if ia_eventData a \<noteq> '''' then ia_eventData a @ [newline] else '''') in
                if int (length ev) + int (length data) > maxImageStreamEventBytes then disableParsing a
                else a\<lparr>ia_eventData := ev @ data\<rparr>)"

text \<open>processLines over the complete lines: it stops where parsing is switched off.\<close>
fun image_lines :: "image_json \<Rightarrow> image_acc \<Rightarrow> string list \<Rightarrow> image_acc" where
  "image_lines js a [] = a"
| "image_lines js a (l # ls) =
     (let a1 = image_parseLine js a l in if ia_parseOff a1 then a1 else image_lines js a1 ls)"

definition image_processLines :: "image_json \<Rightarrow> image_state \<Rightarrow> image_state" where
  "image_processLines js s =
     (case read_lines (is_lineBuf s) of (ls, rest) \<Rightarrow>
        let a = image_lines js (is_acc s) ls in s\<lparr>is_acc := a, is_lineBuf := (if ia_parseOff a then '''' else rest)\<rparr>)"

definition image_flush :: "image_json \<Rightarrow> image_acc \<Rightarrow> string \<Rightarrow> image_acc" where
  "image_flush js a rest =
     (if ia_parseOff a then a else close_event js (if rest \<noteq> '''' then image_parseLine js a rest else a))"

definition image_flushRemaining :: "image_json \<Rightarrow> image_state \<Rightarrow> image_state" where
  "image_flushRemaining js s =
     (if ia_parseOff (is_acc s) then s else s\<lparr>is_acc := image_flush js (is_acc s) (is_lineBuf s), is_lineBuf := ''''\<rparr>)"

definition image_finish :: "string option \<Rightarrow> image_state \<Rightarrow> image_state" where
  "image_finish interrupt s =
     (if is_once s then s
      else s\<lparr>is_once := True, is_calls := is_calls s @ [(ia_usage (is_acc s), ia_hasUsage (is_acc s), interrupt)]\<rparr>)"

definition image_Read :: "image_json \<Rightarrow> string \<times> read_error option \<Rightarrow> image_state \<Rightarrow> image_state" where
  "image_Read js rd s =
     (let s1 = (if fst rd \<noteq> '''' \<and> \<not> ia_parseOff (is_acc s)
                then image_processLines js (s\<lparr>is_lineBuf := is_lineBuf s @ fst rd\<rparr>) else s)
      in if snd rd = Some EOF then image_finish None (image_flushRemaining js s1) else s1)"

definition image_Close :: "image_json \<Rightarrow> string option \<Rightarrow> image_state \<Rightarrow> image_state" where
  "image_Close js interrupt s = image_finish interrupt (image_flushRemaining js s)"

text \<open>commitStreamingResponse for an image request.\<close>
definition image_to_client ::
  "image_json \<Rightarrow> (nat \<Rightarrow> bool) \<Rightarrow> reads \<Rightarrow> (string \<times> (ImageTokenUsage \<times> bool \<times> string option) list) option" where
  "image_to_client js write rds =
     map_option (\<lambda>(out, e, s). (out, is_calls (image_Close js e s)))
       (copyWithFlush (image_Read js) write 0 rds newImageStreamInterceptor)"

section \<open>Reads do not matter\<close>

lemma close_event_off [simp]: "ia_parseOff (close_event js a) = ia_parseOff a"
  by (auto simp: close_event_def image_parseEvent_def Let_def split: prod.splits)

lemma image_lines_append:
  "\<not> ia_parseOff a \<Longrightarrow> image_lines js a (xs @ ys) =
     (if ia_parseOff (image_lines js a xs) then image_lines js a xs else image_lines js (image_lines js a xs) ys)"
  by (induction xs arbitrary: a) (auto simp: Let_def)

text \<open>What a whole text amounts to: the lines, then the rest.\<close>
definition image_start :: image_acc where "image_start = is_acc newImageStreamInterceptor"

definition image_read :: "image_json \<Rightarrow> string \<Rightarrow> image_acc" where
  "image_read js b = image_lines js image_start (fst (read_lines b))"

definition image_result :: "image_json \<Rightarrow> string \<Rightarrow> image_acc" where
  "image_result js b = image_flush js (image_read js b) (snd (read_lines b))"

definition image_got :: "image_json \<Rightarrow> string \<Rightarrow> image_state \<Rightarrow> bool" where
  "image_got js b s =
     (is_acc s = image_read js b \<and> (\<not> ia_parseOff (is_acc s) \<longrightarrow> is_lineBuf s = snd (read_lines b)) \<and> \<not> is_once s \<and> is_calls s = [])"

definition image_ended :: "image_json \<Rightarrow> string \<Rightarrow> image_state \<Rightarrow> bool" where
  "image_ended js b s = (is_once s \<and> is_calls s = [(ia_usage (image_result js b), ia_hasUsage (image_result js b), None)])"

lemma image_start_on: "\<not> ia_parseOff image_start"
  by (simp add: image_start_def newImageStreamInterceptor_def)

lemma image_read_append:
  "image_read js (b @ d) = (if ia_parseOff (image_read js b) then image_read js b
     else image_lines js (image_read js b) (fst (read_lines (snd (read_lines b) @ d))))"
  by (simp add: image_read_def read_lines_append[of b d] image_lines_append[OF image_start_on])

lemma image_got_more:
  assumes "image_got js b s"
  shows "image_got js (b @ d) (if d \<noteq> '''' \<and> \<not> ia_parseOff (is_acc s) then image_processLines js (s\<lparr>is_lineBuf := is_lineBuf s @ d\<rparr>) else s)"
proof (cases "d = ''''")
  case True then show ?thesis using assms by simp
next
  case False
  then show ?thesis using assms read_lines_append[of b d]
    by (auto simp: image_got_def image_read_append image_processLines_def Let_def case_prod_beta)
qed

lemma image_flushed:
  assumes "image_got js b s"
  shows "is_once (image_finish e (image_flushRemaining js s))"
    "is_calls (image_finish e (image_flushRemaining js s)) = [(ia_usage (image_result js b), ia_hasUsage (image_result js b), e)]"
  using assms by (auto simp: image_got_def image_finish_def image_flushRemaining_def image_result_def image_flush_def)

lemma image_Close_once: "is_once s \<Longrightarrow> is_calls (image_Close js e s) = is_calls s"
  by (simp add: image_Close_def image_finish_def image_flushRemaining_def)

interpretation img: stream_reader "image_Read js" "image_got js" "image_ended js" for js
proof unfold_locales
  show "image_got js (b @ fst rd) (image_Read js rd s)" if "image_got js b s" "snd rd \<noteq> Some EOF" for b s rd
    using image_got_more[OF that(1), of "fst rd"] that(2) by (simp add: image_Read_def Let_def)
  show "image_ended js (b @ fst rd) (image_Read js rd s)" if "image_got js b s" "snd rd = Some EOF" for b s rd
    using image_flushed[OF image_got_more[OF that(1), of "fst rd"], of None] that(2)
    unfolding image_ended_def image_Read_def Let_def by simp
qed

lemma image_stream_ends:
  assumes "image_to_client js write rds = Some (out, calls)"
  shows "\<exists>n e. n < length rds \<and> (\<forall>j < n. snd (rds ! j) = None) \<and> (e = None \<longleftrightarrow> snd (rds ! n) = Some EOF)
    \<and> (let r = image_result js (concat (map fst (take (Suc n) rds))) in calls = [(ia_usage r, ia_hasUsage r, e)])
    \<and> (\<exists>rest. concat (map fst (take (Suc n) rds)) = out @ rest)"
proof -
  obtain err s' where c: "copyWithFlush (image_Read js) write 0 rds newImageStreamInterceptor = Some (out, err, s')"
      "calls = is_calls (image_Close js err s')"
    using assms by (auto simp: image_to_client_def)
  have "image_got js '''' newImageStreamInterceptor"
    by (simp add: image_got_def image_read_def image_start_def newImageStreamInterceptor_def)
  from img.copy_ends[OF this c(1)] obtain n where n: "n < length rds" "\<forall>j < n. snd (rds ! j) = None"
      "if snd (rds ! n) = Some EOF then image_ended js (concat (map fst (take (Suc n) rds))) s'
       else err \<noteq> None \<and> image_got js (concat (map fst (take (Suc n) rds))) s'"
      "\<exists>rest. concat (map fst (take (Suc n) rds)) = out @ rest"
    unfolding append_Nil by blast
  show ?thesis
  proof (cases "snd (rds ! n) = Some EOF")
    case True
    then show ?thesis using n c(2) image_Close_once[of s' js err]
      by (intro exI[of _ n] exI[of _ None]) (simp add: image_ended_def Let_def)
  next
    case False
    then show ?thesis using n c(2) image_flushed(2)[of js _ s' err]
      by (intro exI[of _ n] exI[of _ err]) (simp add: image_Close_def Let_def)
  qed
qed

section \<open>The events of a stream\<close>

text \<open>The payload of a line: Inl tells a blank line, Inr None a line that is ignored.\<close>
definition image_payload :: "string \<Rightarrow> unit + string option" where
  "image_payload raw =
     (let line = trim_eol raw in
      if trim_space line = '''' then Inl ()
      else if \<not> has_prefix line ''data:'' then Inr None
      else let d = drop 5 line; data = (case d of c # r \<Rightarrow> if c = CHR '' '' then r else d | [] \<Rightarrow> d)
           in if trim_space data = ''[DONE]'' then Inr None else Inr (Some data))"

definition extend_event :: "string \<Rightarrow> string \<Rightarrow> string" where
  "extend_event cur data = (if cur \<noteq> '''' then cur @ [newline] else '''') @ data"

text \<open>The reference: the data lines up to a blank line or the end, joined by newlines, are an event.\<close>
fun image_events :: "string \<Rightarrow> string list \<Rightarrow> string list" where
  "image_events cur [] = (if cur \<noteq> '''' then [cur] else [])"
| "image_events cur (l # ls) =
     (case image_payload l of
        Inl _ \<Rightarrow> (if cur \<noteq> '''' then [cur] else []) @ image_events '''' ls
      | Inr None \<Rightarrow> image_events cur ls
      | Inr (Some data) \<Rightarrow> image_events (extend_event cur data) ls)"

definition completed_usage :: "image_json \<Rightarrow> string \<Rightarrow> ImageTokenUsage option" where
  "completed_usage js ev =
     (case ParseImageStreamEvent js ev of (typ, model, usage, hasUsage) \<Rightarrow>
        if (typ = ''image_generation.completed'' \<or> typ = ''image_edit.completed'') \<and> hasUsage then Some usage else None)"

text \<open>The usage of the last event that reports one.\<close>
definition reported_usage :: "image_json \<Rightarrow> string list \<Rightarrow> ImageTokenUsage \<times> bool" where
  "reported_usage js evs =
     (case rev (List.map_filter (completed_usage js) evs) of [] \<Rightarrow> (no_image_usage, False) | u # _ \<Rightarrow> (u, True))"

lemma image_parseLine_payload:
  "image_parseLine js a l =
     (case image_payload l of
        Inl _ \<Rightarrow> close_event js a
      | Inr None \<Rightarrow> a
      | Inr (Some data) \<Rightarrow>
          if ia_eventData a \<noteq> '''' \<and> int (length (ia_eventData a)) + 1 > maxImageStreamEventBytes
             \<or> int (length (extend_event (ia_eventData a) data)) > maxImageStreamEventBytes
          then disableParsing a else a\<lparr>ia_eventData := extend_event (ia_eventData a) data\<rparr>)"
  by (simp add: image_parseLine_def image_payload_def extend_event_def Let_def)

lemma payload_cases [case_names blank other data]:
  fixes p :: "unit + string option"
  obtains "p = Inl ()" | "p = Inr None" | d where "p = Inr (Some d)"
proof (cases p)
  case (Inl a) then show ?thesis using that(1) by simp
next
  case (Inr b) then show ?thesis using that(2,3) by (cases b) auto
qed

lemma image_events_extend:
  "cur \<noteq> '''' \<Longrightarrow> \<exists>r evs. image_events cur ls = (cur @ r) # evs"
proof (induction ls arbitrary: cur)
  case (Cons l ls)
  show ?case
  proof (cases "image_payload l" rule: payload_cases)
    case (data d)
    then show ?thesis using Cons.IH[of "extend_event cur d"] Cons.prems by (auto simp: extend_event_def)
  qed (use Cons in auto)
qed simp

lemma parseEvent_eventData:
  "image_parseEvent js ev (a\<lparr>ia_eventData := x\<rparr>) = (image_parseEvent js ev a)\<lparr>ia_eventData := x\<rparr>"
  by (auto simp: image_parseEvent_def Let_def split: prod.splits)

lemma image_lines_events:
  assumes "\<not> ia_parseOff a" and "\<forall>ev \<in> set (image_events (ia_eventData a) ls). int (length ev) \<le> maxImageStreamEventBytes"
  shows "\<not> ia_parseOff (image_lines js a ls) \<and> close_event js (image_lines js a ls)
    = foldl (\<lambda>a ev. image_parseEvent js ev a) (a\<lparr>ia_eventData := ''''\<rparr>) (image_events (ia_eventData a) ls)"
  using assms
proof (induction ls arbitrary: a)
  case Nil
  then show ?case by (auto simp: close_event_def parseEvent_eventData)
next
  case (Cons l ls)
  show ?case
  proof (cases "image_payload l" rule: payload_cases)
    case blank
    have "ia_eventData (close_event js a) = ''''" by (auto simp: close_event_def)
    moreover have "foldl (\<lambda>a ev. image_parseEvent js ev a) (a\<lparr>ia_eventData := ''''\<rparr>) ((if ia_eventData a \<noteq> '''' then [ia_eventData a] else []) @ xs)
        = foldl (\<lambda>a ev. image_parseEvent js ev a) ((close_event js a)\<lparr>ia_eventData := ''''\<rparr>) xs" for xs
      by (auto simp: close_event_def parseEvent_eventData)
    ultimately show ?thesis using Cons.prems blank Cons.IH[of "close_event js a"]
      by (simp add: image_parseLine_payload Let_def del: foldl_append)
  next
    case other
    then show ?thesis using Cons by (simp add: image_parseLine_payload Let_def)
  next
    case (data d)
    let ?cur = "extend_event (ia_eventData a) d"
    have fits: "int (length ?cur) \<le> maxImageStreamEventBytes"
    proof (cases "?cur = ''''")
      case False
      then show ?thesis using image_events_extend[of ?cur ls] Cons.prems(2) data by auto
    qed (simp add: maxImageStreamEventBytes_def)
    then have "\<not> (ia_eventData a \<noteq> '''' \<and> int (length (ia_eventData a)) + 1 > maxImageStreamEventBytes)"
      by (auto simp: extend_event_def)
    then have "image_parseLine js a l = a\<lparr>ia_eventData := ?cur\<rparr>" using fits data by (auto simp: image_parseLine_payload)
    then show ?thesis using Cons.prems data Cons.IH[of "a\<lparr>ia_eventData := ?cur\<rparr>"] by (simp add: Let_def)
  qed
qed

lemma image_result_events:
  assumes "\<forall>ev \<in> set (image_events '''' (text_lines b)). int (length ev) \<le> maxImageStreamEventBytes"
  shows "image_result js b = foldl (\<lambda>a ev. image_parseEvent js ev a) image_start (image_events '''' (text_lines b))"
proof -
  obtain ls rest where b: "read_lines b = (ls, rest)" by force
  have start: "ia_eventData image_start = ''''" "image_start\<lparr>ia_eventData := ''''\<rparr> = image_start"
    by (simp_all add: image_start_def newImageStreamInterceptor_def)
  note all = image_lines_events[OF image_start_on, unfolded start, of "text_lines b" js, OF assms]
  show ?thesis
  proof (cases "rest = ''''")
    case True
    then show ?thesis using all b by (simp add: text_lines_def image_result_def image_read_def image_flush_def)
  next
    case False
    then have tl: "text_lines b = ls @ [rest]" using b by (simp add: text_lines_def)
    have on: "\<not> ia_parseOff (image_lines js image_start ls)"
      using all unfolding tl by (auto simp: image_lines_append[OF image_start_on] split: if_splits)
    then have "image_lines js image_start (ls @ [rest]) = image_parseLine js (image_lines js image_start ls) rest"
      by (simp add: image_lines_append[OF image_start_on] Let_def)
    then show ?thesis using all on b False unfolding tl by (simp add: image_result_def image_read_def image_flush_def)
  qed
qed

lemma foldl_reported:
  "(ia_usage (foldl (\<lambda>a ev. image_parseEvent js ev a) a evs), ia_hasUsage (foldl (\<lambda>a ev. image_parseEvent js ev a) a evs))
     = (case rev (List.map_filter (completed_usage js) evs) of [] \<Rightarrow> (ia_usage a, ia_hasUsage a) | u # _ \<Rightarrow> (u, True))"
proof (induction evs rule: rev_induct)
  case (snoc ev evs)
  let ?a = "foldl (\<lambda>a ev. image_parseEvent js ev a) a evs"
  have "(ia_usage (image_parseEvent js ev ?a), ia_hasUsage (image_parseEvent js ev ?a))
      = (case completed_usage js ev of Some u \<Rightarrow> (u, True) | None \<Rightarrow> (ia_usage ?a, ia_hasUsage ?a))"
    by (auto simp: image_parseEvent_def completed_usage_def Let_def split: prod.splits)
  then show ?case using snoc by (auto simp: List.map_filter_def split: option.splits)
qed (simp add: List.map_filter_def)

text \<open>C26: an image stream is billed for what it reports: the callback runs exactly once, with the usage of the last
  completed event among the bytes read, however the network cut them into reads, and with the reason of
  an interruption, as long as no event exceeds ten MiB.\<close>
theorem image_usage_exact:
  assumes "image_to_client js write rds = Some (out, calls)"
    and "\<forall>m \<le> length rds. \<forall>ev \<in> set (image_events '''' (text_lines (concat (map fst (take m rds))))). int (length ev) \<le> maxImageStreamEventBytes"
  shows "\<exists>n e usage present. n < length rds \<and> (\<forall>j < n. snd (rds ! j) = None) \<and> (e = None \<longleftrightarrow> snd (rds ! n) = Some EOF)
    \<and> reported_usage js (image_events '''' (text_lines (concat (map fst (take (Suc n) rds))))) = (usage, present)
    \<and> calls = [(usage, present, e)]
    \<and> (\<exists>rest. concat (map fst (take (Suc n) rds)) = out @ rest)"
proof -
  obtain n e where n: "n < length rds" "\<forall>j < n. snd (rds ! j) = None" "e = None \<longleftrightarrow> snd (rds ! n) = Some EOF"
      "let r = image_result js (concat (map fst (take (Suc n) rds))) in calls = [(ia_usage r, ia_hasUsage r, e)]"
      "\<exists>rest. concat (map fst (take (Suc n) rds)) = out @ rest"
    using image_stream_ends[OF assms(1)] by blast
  let ?b = "concat (map fst (take (Suc n) rds))"
  have r: "image_result js ?b = foldl (\<lambda>a ev. image_parseEvent js ev a) image_start (image_events '''' (text_lines ?b))"
    by (rule image_result_events) (use assms(2)[rule_format, of "Suc n"] n(1) in auto)
  have "(ia_usage (image_result js ?b), ia_hasUsage (image_result js ?b)) = reported_usage js (image_events '''' (text_lines ?b))"
    unfolding r foldl_reported reported_usage_def by (simp add: image_start_def newImageStreamInterceptor_def cong: list.case_cong)
  then show ?thesis using n by (metis prod.inject)
qed

text \<open>Parsing stops for good at an event above the limit: a usage behind it is never seen, and the settlement is
  skipped for want of one.\<close>
lemma oversize_event_hides_usage:
  assumes "\<not> ia_parseOff a" and "image_payload l = Inr (Some d)" and "int (length d) > maxImageStreamEventBytes"
  shows "ia_hasUsage (image_lines js a (l # ls)) = ia_hasUsage a \<and> ia_parseOff (image_lines js a (l # ls))"
proof -
  have "int (length (extend_event (ia_eventData a) d)) > maxImageStreamEventBytes" using assms(3) by (auto simp: extend_event_def)
  then show ?thesis using assms(2) by (simp add: image_parseLine_payload disableParsing_def Let_def)
qed

definition image_sample :: image_json where
  "image_sample d = (if d = ''u'' then Some \<lparr>ie_Type = ''image_edit.completed'', ie_Model = '''', ie_Usage = Some
       \<lparr>iup_InputTokens = 3, iup_OutputTokens = 4, iup_TotalTokens = 7, iup_InputDetails = None, iup_OutputDetails = None\<rparr>\<rparr> else None)"

definition image_sample_reads :: reads where
  "image_sample_reads = [(''data'', None), ('': u'', Some EOF)]"

lemma demo_image:
  "map_option (\<lambda>(out, calls). map (\<lambda>(u, p, e). (itu_InputTokens u, itu_ImageOutputTokens u, p, e)) calls)
     (image_to_client image_sample (\<lambda>_. True) image_sample_reads) = Some [(3, 4, True, None)]"
  by code_simp

lemma demo_image_events:
  "list_all (\<lambda>m. image_events '''' (text_lines (concat (map fst (take m image_sample_reads)))) = (if m < 2 then [] else [''u''])) [0, 1, 2]"
  by code_simp

lemma image_usage_exact_witness:
  "\<exists>out usage. image_to_client image_sample (\<lambda>_. True) image_sample_reads = Some (out, [(usage, True, None)]) \<and> itu_InputTokens usage = 3
    \<and> (\<exists>n. reported_usage image_sample (image_events '''' (text_lines (concat (map fst (take (Suc n) image_sample_reads))))) = (usage, True))"
proof -
  obtain out usage where e: "image_to_client image_sample (\<lambda>_. True) image_sample_reads = Some (out, [(usage, True, None)])" "itu_InputTokens usage = 3"
    using demo_image by auto
  have "\<forall>m \<le> length image_sample_reads. \<forall>ev \<in> set (image_events '''' (text_lines (concat (map fst (take m image_sample_reads))))).
      int (length ev) \<le> maxImageStreamEventBytes"
  proof (intro allI impI)
    fix m assume "m \<le> length image_sample_reads"
    then have "m \<in> {0, 1, 2}" by (auto simp: image_sample_reads_def)
    then show "\<forall>ev \<in> set (image_events '''' (text_lines (concat (map fst (take m image_sample_reads))))). int (length ev) \<le> maxImageStreamEventBytes"
      using demo_image_events by (auto simp: maxImageStreamEventBytes_def)
  qed
  from image_usage_exact[OF e(1) this] obtain n e' us pr where
    "reported_usage image_sample (image_events '''' (text_lines (concat (map fst (take (Suc n) image_sample_reads))))) = (us, pr)"
    "[(usage, True, None)] = [(us, pr, e')]" by blast
  then show ?thesis using e by blast
qed

end
