(* ===== verification/Executor.thy ===== *)
theory Executor
  imports RouterEngine Auth
begin

text \<open>
  proxy/executor.go: the retry loop of Execute. What happens outside the repository is an argument:
  the answers of the upstreams (one per call), the outcome of building a request for a candidate, of
  resolving its outbound client and of refreshing an OAuth token; the inspection of bodies
  (codex_capacity_retry.go, codex_encrypted_retry.go) is a predicate on the answer. The router, with its
  connection tracker and session bindings, and the upstream metrics are explicit state. The clock is
  read once per request. None is a panic of the balancer.
\<close>

section \<open>Answers and their classification\<close>

text \<open>A transport error: whether it is a net.Error, whether that reports a timeout, whether it is a net.OpError.\<close>
record go_net_error =
  err_isNetError :: bool
  err_Timeout :: bool
  err_isOpError :: bool

text \<open>http.Client returns a response or an error.\<close>
datatype answer = Resp int string | NetErr go_net_error

definition isConnectionError :: "go_net_error \<Rightarrow> bool" where
  "isConnectionError e = (if err_isNetError e then \<not> err_Timeout e else err_isOpError e)"

definition isTimeoutError :: "go_net_error \<Rightarrow> bool" where
  "isTimeoutError e = (err_isNetError e \<and> err_Timeout e)"

definition retryReason :: "answer \<Rightarrow> string" where
  "retryReason a =
     (case a of
        NetErr e \<Rightarrow> if isTimeoutError e then ''timeout'' else ''connection_error''
      | Resp st body \<Rightarrow> if st = 429 then ''429'' else if st \<ge> 500 \<and> st < 600 then ''5xx'' else ''retryable_error'')"

text \<open>evaluateResponse: True is proxyResultRetryable.\<close>
definition evaluateResponse :: "answer \<Rightarrow> RetryPolicy option \<Rightarrow> bool" where
  "evaluateResponse a policy =
     (case policy of
        None \<Rightarrow> False
      | Some p \<Rightarrow>
          (let retryOn = (\<lambda>r. List.member (RetryOn p) r) in
           case a of
             NetErr e \<Rightarrow>
               if isConnectionError e \<and> retryOn ''connection_error'' then True
               else if isTimeoutError e \<and> retryOn ''timeout'' then True
               else if retryOn ''connection_error'' then True
               else False
           | Resp st body \<Rightarrow>
               if st \<ge> 500 \<and> st < 600 \<and> retryOn ''5xx'' then True
               else if st = 429 \<and> retryOn ''429'' then True
               else False))"

definition upstreamTimeout :: "Upstream \<Rightarrow> bool \<Rightarrow> duration" where
  "upstreamTimeout u isStream = (if up_ReadTimeout u > 0 then up_ReadTimeout u else if isStream then 0 else 5 * minute)"

section \<open>State and environment\<close>

record exec_env =
  ee_prepare :: "SelectedUpstream \<Rightarrow> bool"
  ee_client :: "Upstream \<Rightarrow> bool"
  ee_send :: "nat \<Rightarrow> Upstream \<Rightarrow> answer"
  ee_capacity :: "answer \<Rightarrow> bool"
  ee_refresh :: "Upstream \<Rightarrow> bool"
  ee_invalidEncrypted :: "answer \<Rightarrow> bool"
  ee_strip :: bool
  ee_completes :: "SelectedUpstream \<Rightarrow> answer \<Rightarrow> bool"
  ee_ws :: "(string + SelectedUpstream list option) option"
  ee_wsEstablished :: "nat \<Rightarrow> bool"
  ee_multipart :: bool
  ee_body :: "int option"
  ee_kind :: string
  ee_session :: string
  ee_model :: string
  ee_draws :: "nat \<Rightarrow> int \<Rightarrow> int"
  ee_now :: go_time

record exec_state =
  xs_router :: Router
  xs_metrics :: UpstreamMetrics
  xs_calls :: nat
  xs_attempted :: "string list"
  xs_claudeRetried :: bool
  xs_codexRetried :: bool
  xs_encryptedRetried :: bool
  xs_Attempt :: int
  xs_RetryStatus :: string
  xs_RetryReason :: string
  xs_CodexCapacityError :: bool

datatype exec_result =
    Committed SelectedUpstream answer
  | AuthFailed int
  | AllUpstreamsFailed
  | NoRouteMatched
  | NoUpstreams
  | WebsocketUnavailable string
  | UpgradeRequired
  | BodyUnreadable
  | BodyTooLarge

definition sel_id :: "SelectedUpstream \<Rightarrow> string" where "sel_id c = up_ID (sel_Upstream c)"

definition xs_acquire :: "string \<Rightarrow> exec_state \<Rightarrow> exec_state" where
  "xs_acquire u s = s\<lparr>xs_router := (xs_router s)\<lparr>rt_connTracker := Acquire (rt_connTracker (xs_router s)) u\<rparr>\<rparr>"

definition xs_release :: "string \<Rightarrow> exec_state \<Rightarrow> exec_state" where
  "xs_release u s = s\<lparr>xs_router := (xs_router s)\<lparr>rt_connTracker := Release (rt_connTracker (xs_router s)) u\<rparr>\<rparr>"

definition xs_error :: "exec_env \<Rightarrow> string \<Rightarrow> exec_state \<Rightarrow> exec_state" where
  "xs_error env u s = s\<lparr>xs_metrics := RecordError (xs_metrics s) u (ee_now env)\<rparr>"

definition xs_success :: "exec_env \<Rightarrow> string \<Rightarrow> exec_state \<Rightarrow> exec_state" where
  "xs_success env u s = s\<lparr>xs_metrics := RecordSuccess (xs_metrics s) u (ee_now env)\<rparr>"

definition xs_send :: "exec_env \<Rightarrow> Upstream \<Rightarrow> exec_state \<Rightarrow> answer \<times> exec_state" where
  "xs_send env u s = (ee_send env (xs_calls s) u, s\<lparr>xs_calls := Suc (xs_calls s)\<rparr>)"

definition markRetryableAttempt :: "string \<Rightarrow> exec_state \<Rightarrow> exec_state" where
  "markRetryableAttempt reason s =
     (let s1 = s\<lparr>xs_RetryStatus := ''retryable_error''\<rparr> in if reason \<noteq> '''' then s1\<lparr>xs_RetryReason := reason\<rparr> else s1)"

definition markRetryExhausted :: "exec_state \<Rightarrow> exec_state" where
  "markRetryExhausted s = s\<lparr>xs_RetryStatus := ''retry_exhausted''\<rparr>"

text \<open>applyRetryFields: the retry status a final request record carries.\<close>
definition final_retry_status :: "exec_state \<Rightarrow> string \<Rightarrow> string" where
  "final_retry_status s requestStatus =
     (if xs_RetryStatus s \<noteq> '''' then xs_RetryStatus s
      else if requestStatus = ''success'' then ''normal'' else ''non_retryable_error'')"

section \<open>Codex capacity (the closure handleCodexCapacity)\<close>

text \<open>The fallbacks that are not candidates yet.\<close>
fun add_unknown :: "string list \<Rightarrow> SelectedUpstream list \<Rightarrow> SelectedUpstream list" where
  "add_unknown known [] = []"
| "add_unknown known (f # fs) =
     (if List.member known (sel_id f) then add_unknown known fs else f # add_unknown (sel_id f # known) fs)"

text \<open>The result is detected, retry, the candidates appended, and the state. Every candidate before the current
  one has been attempted, so only \<^term>\<open>todo\<close> can still be next.\<close>
definition handleCodexCapacity ::
  "exec_env \<Rightarrow> resolvedGroup \<Rightarrow> Upstream \<Rightarrow> SelectedUpstream list \<Rightarrow> answer \<Rightarrow> exec_state
   \<Rightarrow> (bool \<times> bool \<times> SelectedUpstream list \<times> exec_state) option" where
  "handleCodexCapacity env grp u todo a s =
     (if ee_wsEstablished env (xs_calls s) \<or> up_Provider u \<noteq> ''codex'' \<or> \<not> ee_capacity env a then Some (False, False, [], s)
      else
        let r1 = UnbindSessionFromUpstream (xs_router s) (ee_session env) (ee_model env) (up_ID u);
            hasNext = list_ex (\<lambda>c. \<not> List.member (xs_attempted s) (sel_id c)) todo
        in case SelectCapacityFallbacks (ee_draws env) r1 grp (set (xs_attempted s)) of
             None \<Rightarrow> None
           | Some (fallbacks, r2) \<Rightarrow>
               (let added = add_unknown (xs_attempted s @ map sel_id todo) fallbacks;
                    s1 = s\<lparr>xs_router := r2\<rparr>
                in if \<not> (hasNext \<or> added \<noteq> [])
                   then Some (True, False, [], markRetryExhausted (s1\<lparr>xs_RetryReason := ''codex_capacity_no_fallback''\<rparr>))
                   else Some (True, True, added,
                          xs_error env (up_ID u) (xs_release (up_ID u) (markRetryableAttempt ''codex_capacity'' s1)))))"

section \<open>Same-upstream recovery\<close>

definition is_auth_error :: "answer \<Rightarrow> bool" where
  "is_auth_error a = (case a of Resp st body \<Rightarrow> st = 401 \<or> st = 403 | NetErr e \<Rightarrow> False)"

definition answer_status :: "answer \<Rightarrow> int" where
  "answer_status a = (case a of Resp st body \<Rightarrow> st | NetErr e \<Rightarrow> 0)"

text \<open>Release, refresh, acquire again and replay; Inl when the refresh fails, with the connection released.\<close>
definition oauth_replay :: "exec_env \<Rightarrow> Upstream \<Rightarrow> answer \<Rightarrow> exec_state \<Rightarrow> (exec_result \<times> exec_state) + (answer \<times> exec_state)" where
  "oauth_replay env u a s =
     (let s1 = xs_release (up_ID u) s in
      if \<not> ee_refresh env u then Inl (AuthFailed (answer_status a), s1)
      else Inr (xs_send env u (xs_acquire (up_ID u) s1)))"

definition claude_recovery :: "exec_env \<Rightarrow> Upstream \<Rightarrow> answer \<Rightarrow> exec_state \<Rightarrow> (exec_result \<times> exec_state) + (answer \<times> exec_state)" where
  "claude_recovery env u a s =
     (if up_Provider u = ''claudecode'' \<and> is_auth_error a \<and> \<not> xs_claudeRetried s
      then oauth_replay env u a (s\<lparr>xs_claudeRetried := True\<rparr>) else Inr (a, s))"

definition codex_recovery :: "exec_env \<Rightarrow> Upstream \<Rightarrow> answer \<Rightarrow> exec_state \<Rightarrow> (exec_result \<times> exec_state) + (bool \<times> answer \<times> exec_state)" where
  "codex_recovery env u a s =
     (if up_Provider u = ''codex'' \<and> is_auth_error a \<and> \<not> xs_codexRetried s
      then map_sum id (\<lambda>(a', s'). (True, a', s')) (oauth_replay env u a (s\<lparr>xs_codexRetried := True\<rparr>))
      else Inr (False, a, s))"

definition encrypted_recovery :: "exec_env \<Rightarrow> Upstream \<Rightarrow> answer \<Rightarrow> exec_state \<Rightarrow> bool \<times> answer \<times> exec_state" where
  "encrypted_recovery env u a s =
     (if \<not> xs_encryptedRetried s \<and> answer_status a = 400
         \<and> (ee_kind env = ''openai_responses'' \<or> ee_kind env = ''openai_responses_compact'')
         \<and> ee_invalidEncrypted env a
      then (let s1 = s\<lparr>xs_encryptedRetried := True\<rparr> in
            if ee_strip env then (True, xs_send env u (xs_acquire (up_ID u) (xs_release (up_ID u) s1)))
            else (False, a, s1))
      else (False, a, s))"


text \<open>The three recoveries in the order of the code; the flag says whether a replay was inspected for capacity again.\<close>
definition recoveries :: "exec_env \<Rightarrow> Upstream \<Rightarrow> answer \<Rightarrow> exec_state \<Rightarrow> (exec_result \<times> exec_state) + (bool \<times> answer \<times> exec_state)" where
  "recoveries env u a s =
     (case claude_recovery env u a s of
        Inl r \<Rightarrow> Inl r
      | Inr (a1, s1) \<Rightarrow>
          (case codex_recovery env u a1 s1 of
             Inl r \<Rightarrow> Inl r
           | Inr (replayed, a2, s2) \<Rightarrow>
               (case encrypted_recovery env u a2 s2 of
                  (replayed', a3, s3) \<Rightarrow> Inr (replayed \<or> replayed', a3, s3))))"

section \<open>The retry loop\<close>

definition answer_ok :: "answer \<Rightarrow> bool \<Rightarrow> bool" where
  "answer_ok a capacity = (case a of Resp st body \<Rightarrow> st < 500 \<and> \<not> capacity | NetErr e \<Rightarrow> False)"

text \<open>The commit: metrics, session binding and commitResponse. Its paths release the connection once, but a
  committed stream leaves the release to the completion callback of its interceptor: ee_completes says
  whether that callback runs (and holds of every answer that is not streamed).\<close>
definition commit_attempt :: "exec_env \<Rightarrow> SelectedUpstream \<Rightarrow> bool \<Rightarrow> answer \<Rightarrow> exec_state \<Rightarrow> exec_result \<times> exec_state" where
  "commit_attempt env c capacity a s =
     (let uid = sel_id c;
          s1 = s\<lparr>xs_CodexCapacityError := capacity\<rparr>;
          s2 = (if answer_ok a capacity then xs_success env uid s1 else xs_error env uid s1);
          s3 = (if ee_session env \<noteq> '''' \<and> answer_ok a capacity
                then s2\<lparr>xs_router := BindSession (xs_router s2) (ee_session env) (ee_model env) uid (ee_now env)\<rparr> else s2)
      in (Committed c a, if ee_completes env c a then xs_release uid s3 else s3))"

datatype attempt_result = NextCandidate "SelectedUpstream list" | Finished exec_result

definition finish_attempt ::
  "exec_env \<Rightarrow> resolvedGroup \<Rightarrow> SelectedUpstream \<Rightarrow> SelectedUpstream list \<Rightarrow> bool \<Rightarrow> answer \<Rightarrow> exec_state
   \<Rightarrow> (attempt_result \<times> exec_state) option" where
  "finish_attempt env grp c todo capacity a s =
     (case recoveries env (sel_Upstream c) a s of
        Inl (res, s') \<Rightarrow> Some (Finished res, s')
      | Inr (replayed, a', s') \<Rightarrow>
          if \<not> replayed then Some (map_prod Finished id (commit_attempt env c capacity a' s'))
          else (case handleCodexCapacity env grp (sel_Upstream c) todo a' s' of
                  None \<Rightarrow> None
                | Some (detected, retry, added, s'') \<Rightarrow>
                    if retry then Some (NextCandidate (todo @ added), s'')
                    else Some (map_prod Finished id (commit_attempt env c (capacity \<or> detected) a' s''))))"

text \<open>One iteration for the candidate c, with the candidates still to come.\<close>
definition attempt ::
  "exec_env \<Rightarrow> resolvedGroup \<Rightarrow> RetryPolicy option \<Rightarrow> SelectedUpstream \<Rightarrow> SelectedUpstream list \<Rightarrow> exec_state
   \<Rightarrow> (attempt_result \<times> exec_state) option" where
  "attempt env grp policy c todo s0 =
     (let u = sel_Upstream c; uid = up_ID u;
          s = s0\<lparr>xs_attempted := xs_attempted s0 @ [uid], xs_Attempt := int (length (xs_attempted s0)) + 1\<rparr>
      in if \<not> ee_prepare env c then Some (NextCandidate todo, s)
         else if \<not> ee_client env u then Some (NextCandidate todo, xs_error env uid s)
         else (case xs_send env u (xs_acquire uid s) of (a, s1) \<Rightarrow>
           (case handleCodexCapacity env grp u todo a s1 of
              None \<Rightarrow> None
            | Some (detected, retry, added, s2) \<Rightarrow>
                if retry then Some (NextCandidate (todo @ added), s2)
                else if \<not> detected \<and> evaluateResponse a policy then
                  (let s3 = s2\<lparr>xs_RetryReason := retryReason a\<rparr>;
                       s4 = (if todo = [] then markRetryExhausted s3 else markRetryableAttempt (retryReason a) s3)
                   in Some (NextCandidate todo, xs_error env uid (xs_release uid s4)))
                else finish_attempt env grp c todo detected a s2)))"

subsection \<open>The loop ends\<close>

definition group_ids :: "resolvedGroup \<Rightarrow> string set" where
  "group_ids g = (up_ID \<circ> gm_upstream) ` set (rg_members g)"

text \<open>The candidates to come, and the members of the group that no candidate list has named yet.\<close>
definition loop_measure :: "resolvedGroup \<Rightarrow> SelectedUpstream list \<Rightarrow> exec_state \<Rightarrow> nat" where
  "loop_measure g todo s = length todo + card (group_ids g - (set (xs_attempted s) \<union> sel_id ` set todo))"

lemma policy_pick_in:
  assumes "cs \<noteq> []" and "policy_pick draws b cs = Some ((Some u, i), b')"
  shows "u \<in> ci_Upstream ` set cs"
proof -
  have scan: "weighted_scan r cum k xs = Some (c, j) \<Longrightarrow> c \<in> set xs" for r cum k xs c j
    by (induction r cum k xs rule: weighted_scan.induct) (auto simp: Let_def split: if_splits)
  have nth: "nat (sint v mod int (length cs)) < length cs" for v :: "64 word"
    using assms(1) by (simp add: nat_less_iff)
  have lc: "least_conn_scan 0 (ci_ActiveConns x) (ci_Weight x) 1 xs < length (x # xs)" for x xs
    using least_conn_scan_bound[of 0 1] by simp
  show ?thesis
  proof (cases "bal_policy b = ''round_robin''")
    case True
    then show ?thesis using assms nth[of "bal_counter b"]
      by (auto simp: policy_pick_def roundRobinIdx_def Let_def split: if_splits intro!: imageI nth_mem)
  next
    case rr: False
    show ?thesis
    proof (cases "bal_policy b = ''least_conn''")
      case True
      obtain x xs where cs: "cs = x # xs" using assms(1) by (cases cs) auto
      show ?thesis using assms(2) True rr nth_mem[OF lc[of x xs]]
        by (simp add: cs policy_pick_def leastConnIdx_def Let_def) (metis imageI)
    next
      case False
      then show ?thesis using assms rr
        by (auto simp: policy_pick_def weightedRandomIdx_def Let_def split: if_splits option.splits dest: scan)
    qed
  qed
qed

lemma selectN_loop_subset:
  assumes "selectN_loop (policy_pick draws) k b cs acc = Some (us, b')"
  shows "set us \<subseteq> set acc \<union> ci_Upstream ` set cs"
  using assms
proof (induction k arbitrary: b cs acc)
  case (Suc k)
  have "set (remove_nth (nat i) cs) \<subseteq> set cs" for i
    by (auto simp: remove_nth_def dest: in_set_takeD in_set_dropD)
  then show ?case using Suc policy_pick_in[of cs draws b]
    by (fastforce split: if_splits option.splits)
qed simp

lemma SelectN_subset:
  "SelectN draws b cs n = Some (us, b') \<Longrightarrow> set us \<subseteq> ci_Upstream ` set cs"
  using selectN_loop_subset[of draws _ b cs "[]" us b'] by (auto simp: SelectN_def Let_def split: if_splits)


definition conn :: "exec_state \<Rightarrow> string \<Rightarrow> int" where
  "conn s = conn_count (rt_connTracker (xs_router s))"

text \<open>The state f of the counters with one more connection to u.\<close>
definition holding :: "(string \<Rightarrow> int) \<Rightarrow> string \<Rightarrow> exec_state \<Rightarrow> bool" where
  "holding f u s = (conn s = f(u := f u + 1) \<and> 0 \<le> f u \<and> f u < int64_max)"

lemma conn_acquire [simp]: "conn (xs_acquire u s) = (conn s)(u := i64 (conn s u + 1))"
  by (auto simp: conn_def conn_count_def Count_def xs_acquire_def Acquire_def getOrCreate_def split: option.splits)

lemma conn_release [simp]: "conn (xs_release u s) = (conn s)(u := if conn s u \<le> 0 then conn s u else conn s u - 1)"
  by (auto simp: conn_def conn_count_def Count_def xs_release_def Release_def getOrCreate_def split: option.splits)

lemma conn_frame [simp]:
  "conn (xs_error env u s) = conn s" "conn (xs_success env u s) = conn s"
  "conn (markRetryExhausted s) = conn s" "conn (markRetryableAttempt r s) = conn s"
  "conn (snd (xs_send env v s)) = conn s"
  by (simp_all add: conn_def xs_error_def xs_success_def markRetryExhausted_def markRetryableAttempt_def Let_def xs_send_def)

lemma holding_frame [simp]:
  "holding f u (xs_error env v s) = holding f u s" "holding f u (xs_success env v s) = holding f u s"
  "holding f u (markRetryExhausted s) = holding f u s" "holding f u (markRetryableAttempt r s) = holding f u s"
  "holding f u (snd (xs_send env w s)) = holding f u s"
  by (simp_all add: holding_def)

lemma acquire_holding: "conn s = f \<Longrightarrow> 0 \<le> f u \<Longrightarrow> f u < int64_max \<Longrightarrow> holding f u (xs_acquire u s)"
  by (auto simp: holding_def fun_eq_iff int64_simps int64_max_def)

lemma holding_release: "holding f u s \<Longrightarrow> conn (xs_release u s) = f"
  by (auto simp: holding_def fun_eq_iff)

lemma holding_replay: "holding f u s \<Longrightarrow> holding f u (xs_acquire u (xs_release u s))"
  using acquire_holding[of "xs_release u s" f u] holding_release[of f u s] by (simp add: holding_def)

text \<open>What an operation leaves alone: the attempts, the calls, the retry policy's bookkeeping.\<close>
lemma xs_frame [simp]:
  "xs_attempted (xs_acquire u s) = xs_attempted s" "xs_attempted (xs_release u s) = xs_attempted s"
  "xs_attempted (xs_error env u s) = xs_attempted s" "xs_attempted (xs_success env u s) = xs_attempted s"
  "xs_attempted (markRetryExhausted s) = xs_attempted s" "xs_attempted (markRetryableAttempt r s) = xs_attempted s"
  "xs_attempted (snd (xs_send env v s)) = xs_attempted s"
  "xs_calls (xs_acquire u s) = xs_calls s" "xs_calls (xs_release u s) = xs_calls s"
  "xs_calls (xs_error env u s) = xs_calls s" "xs_calls (xs_success env u s) = xs_calls s"
  "xs_calls (markRetryExhausted s) = xs_calls s" "xs_calls (markRetryableAttempt r s) = xs_calls s"
  "xs_calls (snd (xs_send env v s)) = Suc (xs_calls s)"
  by (simp_all add: xs_acquire_def xs_release_def xs_error_def xs_success_def markRetryExhausted_def
      markRetryableAttempt_def Let_def xs_send_def)

lemma add_unknown_spec:
  "distinct (map sel_id (add_unknown known fs)) \<and> set (add_unknown known fs) \<subseteq> set fs
   \<and> sel_id ` set (add_unknown known fs) \<inter> set known = {}"
proof (induction known fs rule: add_unknown.induct)
  case (2 known f fs)
  show ?case
  proof (cases "List.member known (sel_id f)")
    case True then show ?thesis using 2 by auto
  next
    case False then show ?thesis using 2 by auto
  qed
qed simp

lemma fallbacks_frame:
  assumes "SelectCapacityFallbacks draws r grp ex = Some (fs, r')"
  shows "sel_id ` set fs \<subseteq> group_ids grp - ex \<and> rt_connTracker r' = rt_connTracker r \<and> rt_sessionMap r' = rt_sessionMap r"
proof -
  have st: "rt_connTracker (store_balancer r grp b) = rt_connTracker r \<and> rt_sessionMap (store_balancer r grp b) = rt_sessionMap r" for b
    by (simp add: store_balancer_def split: option.splits)
  have sub: "up_ID u \<in> group_ids grp - ex" if "u \<in> ci_Upstream ` set (build_candidates (rt_connTracker r) ex (rg_members grp))" for u
    using that by (auto simp: group_ids_def candidate_of_def dest!: build_candidates_sound)
  have sid: "sel_id (selected r u) = up_ID u" for u by (simp add: sel_id_def selected_def)
  let ?cs = "build_candidates (rt_connTracker r) ex (rg_members grp)"
  show ?thesis
  proof (cases "?cs = []")
    case True then show ?thesis using assms by (simp add: SelectCapacityFallbacks_def)
  next
    case False
    then obtain us b where us: "SelectN draws (group_balancer r grp) ?cs (int (length ?cs)) = Some (us, b)"
        "fs = map (selected r) us" "r' = store_balancer r grp b"
      using assms by (auto simp: SelectCapacityFallbacks_def Let_def)
    have "sel_id ` set fs = up_ID ` set us" using us(2) by (simp add: sid image_image)
    then show ?thesis using us(3) st sub SelectN_subset[OF us(1)] by auto
  qed
qed

lemma unbind_frame [simp]:
  "rt_connTracker (UnbindSessionFromUpstream r s m u) = rt_connTracker r"
  by (simp add: UnbindSessionFromUpstream_def split: option.splits)

lemma bind_frame [simp]:
  "rt_connTracker (BindSession r s m u t) = rt_connTracker r"
  by (simp add: BindSession_def)

text \<open>The three outcomes: not detected, detected without a fallback, detected with something to try.\<close>
lemma handle_cases:
  assumes "handleCodexCapacity env grp u todo a s = Some (detected, retry, added, s')"
  obtains (none) "\<not> detected" "\<not> retry" "added = []" "s' = s"
  | (exhausted) fs r1 where "detected" "\<not> retry" "added = []"
      "SelectCapacityFallbacks (ee_draws env)
         (UnbindSessionFromUpstream (xs_router s) (ee_session env) (ee_model env) (up_ID u)) grp (set (xs_attempted s)) = Some (fs, r1)"
      "s' = markRetryExhausted (s\<lparr>xs_router := r1, xs_RetryReason := ''codex_capacity_no_fallback''\<rparr>)"
  | (retry) fs r1 where "detected" "retry"
      "SelectCapacityFallbacks (ee_draws env)
         (UnbindSessionFromUpstream (xs_router s) (ee_session env) (ee_model env) (up_ID u)) grp (set (xs_attempted s)) = Some (fs, r1)"
      "added = add_unknown (xs_attempted s @ map sel_id todo) fs"
      "s' = xs_error env (up_ID u) (xs_release (up_ID u) (markRetryableAttempt ''codex_capacity'' (s\<lparr>xs_router := r1\<rparr>)))"
proof (cases "ee_wsEstablished env (xs_calls s) \<or> up_Provider u \<noteq> ''codex'' \<or> \<not> ee_capacity env a")
  case True
  then show ?thesis using assms none by (simp add: handleCodexCapacity_def)
next
  case False
  let ?sel = "SelectCapacityFallbacks (ee_draws env)
         (UnbindSessionFromUpstream (xs_router s) (ee_session env) (ee_model env) (up_ID u)) grp (set (xs_attempted s))"
  obtain fs r1 where sel: "?sel = Some (fs, r1)"
    using assms False by (cases ?sel; cases "the ?sel") (simp_all add: handleCodexCapacity_def Let_def)
  define h where "h = (list_ex (\<lambda>c. \<not> List.member (xs_attempted s) (sel_id c)) todo \<or> add_unknown (xs_attempted s @ map sel_id todo) fs \<noteq> [])"
  have eq: "handleCodexCapacity env grp u todo a s =
      (if \<not> h then Some (True, False, [], markRetryExhausted (s\<lparr>xs_router := r1, xs_RetryReason := ''codex_capacity_no_fallback''\<rparr>))
       else Some (True, True, add_unknown (xs_attempted s @ map sel_id todo) fs,
              xs_error env (up_ID u) (xs_release (up_ID u) (markRetryableAttempt ''codex_capacity'' (s\<lparr>xs_router := r1\<rparr>)))))"
    using False by (simp only: handleCodexCapacity_def Let_def sel h_def) simp
  show ?thesis
  proof (cases h)
    case True then show ?thesis using assms eq retry[OF _ _ sel] by simp
  next
    case False then show ?thesis using assms eq exhausted[OF _ _ _ sel] by simp
  qed
qed

lemma handle_frame:
  assumes "handleCodexCapacity env grp u todo a s = Some (detected, retry, added, s')"
  shows "xs_attempted s' = xs_attempted s \<and> xs_calls s' = xs_calls s
    \<and> distinct (map sel_id added) \<and> sel_id ` set added \<subseteq> group_ids grp - (set (xs_attempted s) \<union> sel_id ` set todo)
    \<and> (retry \<longrightarrow> detected \<and> conn s' = conn (xs_release (up_ID u) s))
    \<and> (\<not> retry \<longrightarrow> added = [] \<and> conn s' = conn s)"
  using assms
proof (cases rule: handle_cases)
  case none then show ?thesis by simp
next
  case (exhausted fs r1)
  then show ?thesis using fallbacks_frame[OF exhausted(4)] by (simp add: conn_def markRetryExhausted_def)
next
  case (retry fs r1)
  have "conn (s\<lparr>xs_router := r1\<rparr>) = conn s" using fallbacks_frame[OF retry(3)] by (simp add: conn_def)
  then show ?thesis
    using retry fallbacks_frame[OF retry(3)] add_unknown_spec[of "xs_attempted s @ map sel_id todo" fs] by auto
qed


text \<open>How many of the three recoveries the request has spent.\<close>
definition recoveries_used :: "exec_state \<Rightarrow> nat" where
  "recoveries_used s = of_bool (xs_claudeRetried s) + of_bool (xs_codexRetried s) + of_bool (xs_encryptedRetried s)"

lemma used_frame [simp]:
  "recoveries_used (xs_acquire u s) = recoveries_used s" "recoveries_used (xs_release u s) = recoveries_used s"
  "recoveries_used (xs_error env u s) = recoveries_used s" "recoveries_used (xs_success env u s) = recoveries_used s"
  "recoveries_used (markRetryExhausted s) = recoveries_used s" "recoveries_used (markRetryableAttempt r s) = recoveries_used s"
  "recoveries_used (snd (xs_send env v s)) = recoveries_used s"
  by (simp_all add: recoveries_used_def xs_acquire_def xs_release_def xs_error_def xs_success_def markRetryExhausted_def
      markRetryableAttempt_def Let_def xs_send_def)

lemma handle_used:
  "handleCodexCapacity env grp u todo a s = Some (d, r, added, s') \<Longrightarrow> recoveries_used s' = recoveries_used s"
  by (erule handle_cases) (simp_all, simp_all add: recoveries_used_def)

text \<open>What a recovery may do to the state: spend its flag for one more call, keeping the attempts.\<close>
definition spent :: "exec_state \<Rightarrow> exec_state \<Rightarrow> bool" where
  "spent s s' = (xs_attempted s' = xs_attempted s \<and> xs_calls s' + recoveries_used s \<le> xs_calls s + recoveries_used s')"

lemma spent_refl [simp]: "spent s s" by (simp add: spent_def)

lemma spent_trans: "spent s t \<Longrightarrow> spent t u \<Longrightarrow> spent s u" by (simp add: spent_def)

lemma flag_holding [simp]:
  "holding f u (s\<lparr>xs_claudeRetried := b\<rparr>) = holding f u s" "holding f u (s\<lparr>xs_codexRetried := b\<rparr>) = holding f u s"
  "holding f u (s\<lparr>xs_encryptedRetried := b\<rparr>) = holding f u s"
  by (simp_all add: holding_def conn_def)

text \<open>A replay on the same upstream.\<close>
definition replayed_from :: "(string \<Rightarrow> int) \<Rightarrow> string \<Rightarrow> exec_state \<Rightarrow> exec_state \<Rightarrow> bool" where
  "replayed_from f u s s' = ((holding f u s \<longrightarrow> holding f u s') \<and> xs_attempted s' = xs_attempted s
     \<and> xs_calls s' = Suc (xs_calls s) \<and> recoveries_used s' = recoveries_used s)"

lemma send_replay: "replayed_from f u s (snd (xs_send env v (xs_acquire u (xs_release u s))))"
  using holding_replay[of f u s] by (simp add: replayed_from_def del: conn_acquire conn_release)

lemma oauth_replay_cases:
  obtains "oauth_replay env u a s = Inl (AuthFailed (answer_status a), xs_release (up_ID u) s)"
      "holding f (up_ID u) s \<longrightarrow> conn (xs_release (up_ID u) s) = f"
  | a' s' where "oauth_replay env u a s = Inr (a', s')" "replayed_from f (up_ID u) s s'"
proof (cases "ee_refresh env u")
  case True
  then have "oauth_replay env u a s = Inr (xs_send env u (xs_acquire (up_ID u) (xs_release (up_ID u) s)))"
    by (simp add: oauth_replay_def)
  then show ?thesis using send_replay[of f "up_ID u" s env u] that(2) by (metis prod.collapse)
next
  case False
  then show ?thesis using that(1) holding_release[of f "up_ID u" s] by (simp add: oauth_replay_def del: conn_release)
qed

lemma spent_replay:
  "replayed_from f u (s\<lparr>xs_claudeRetried := True\<rparr>) s' \<Longrightarrow> \<not> xs_claudeRetried s \<Longrightarrow> spent s s'"
  "replayed_from f u (s\<lparr>xs_codexRetried := True\<rparr>) s' \<Longrightarrow> \<not> xs_codexRetried s \<Longrightarrow> spent s s'"
  "replayed_from f u (s\<lparr>xs_encryptedRetried := True\<rparr>) s' \<Longrightarrow> \<not> xs_encryptedRetried s \<Longrightarrow> spent s s'"
  by (simp_all add: replayed_from_def spent_def recoveries_used_def)

lemma spent_flag [simp]:
  "spent s (xs_release u (s\<lparr>xs_claudeRetried := True\<rparr>))" "spent s (xs_release u (s\<lparr>xs_codexRetried := True\<rparr>))"
  "spent s (s\<lparr>xs_encryptedRetried := True\<rparr>)"
  by (simp_all add: spent_def) (simp_all add: recoveries_used_def)

text \<open>The counters at the end of a request that started from f: a stream that never completes keeps its
  connection.\<close>
definition held_after :: "exec_env \<Rightarrow> exec_result \<Rightarrow> (string \<Rightarrow> int) \<Rightarrow> string \<Rightarrow> int" where
  "held_after env res f =
     (case res of Committed c a \<Rightarrow> if ee_completes env c a then f else f(sel_id c := f (sel_id c) + 1) | _ \<Rightarrow> f)"

lemma held_after_simps [simp]:
  "held_after env (AuthFailed st) f = f" "held_after env AllUpstreamsFailed f = f"
  "held_after env (Committed c a) f = (if ee_completes env c a then f else f(sel_id c := f (sel_id c) + 1))"
  by (simp_all add: held_after_def)

text \<open>What a recovery keeps, whether it ends the request (Inl) or goes on (Inr).\<close>
definition recovered :: "(string \<Rightarrow> int) \<Rightarrow> string \<Rightarrow> exec_state \<Rightarrow> (exec_result \<times> exec_state) + exec_state \<Rightarrow> bool" where
  "recovered f u s r =
     (case r of Inl (res, s') \<Rightarrow> (\<exists>st. res = AuthFailed st) \<and> (holding f u s \<longrightarrow> conn s' = f) \<and> spent s s'
      | Inr s' \<Rightarrow> (holding f u s \<longrightarrow> holding f u s') \<and> spent s s')"

lemma recovered_refl [simp]: "recovered f u s (Inr s)" by (simp add: recovered_def)

lemma recovered_trans: "recovered f u s (Inr t) \<Longrightarrow> recovered f u t r \<Longrightarrow> recovered f u s r"
  by (auto simp: recovered_def split: sum.splits intro: spent_trans)

lemma claude_frame: "recovered f (up_ID u) s (map_sum id snd (claude_recovery env u a s))"
proof (cases "up_Provider u = ''claudecode'' \<and> is_auth_error a \<and> \<not> xs_claudeRetried s")
  case True
  show ?thesis
  proof (cases rule: oauth_replay_cases[of env u a "s\<lparr>xs_claudeRetried := True\<rparr>" f])
    case 1 then show ?thesis using True by (simp add: claude_recovery_def recovered_def del: conn_release)
  next
    case (2 a' s')
    then show ?thesis using True spent_replay(1)[OF 2(2)]
      by (simp add: claude_recovery_def recovered_def replayed_from_def)
  qed
next
  case False show ?thesis by (simp only: claude_recovery_def False if_False) simp
qed

lemma codex_frame: "recovered f (up_ID u) s (map_sum id (snd \<circ> snd) (codex_recovery env u a s))"
proof (cases "up_Provider u = ''codex'' \<and> is_auth_error a \<and> \<not> xs_codexRetried s")
  case True
  show ?thesis
  proof (cases rule: oauth_replay_cases[of env u a "s\<lparr>xs_codexRetried := True\<rparr>" f])
    case 1 then show ?thesis using True by (simp add: codex_recovery_def recovered_def del: conn_release)
  next
    case (2 a' s')
    then show ?thesis using True spent_replay(2)[OF 2(2)]
      by (simp add: codex_recovery_def recovered_def replayed_from_def)
  qed
next
  case False show ?thesis by (simp only: codex_recovery_def False if_False) simp
qed

lemma encrypted_frame: "recovered f (up_ID u) s (Inr (snd (snd (encrypted_recovery env u a s))))"
proof -
  note r = send_replay[of f "up_ID u" "s\<lparr>xs_encryptedRetried := True\<rparr>" env u]
  show ?thesis using r spent_replay(3)[OF r]
    by (simp add: encrypted_recovery_def Let_def recovered_def replayed_from_def)
qed

lemma recoveries_frame: "recovered f (up_ID u) s (map_sum id (snd \<circ> snd) (recoveries env u a s))"
proof (cases "claude_recovery env u a s")
  case (Inl r) then show ?thesis using claude_frame[of f u s env a] by (simp add: recoveries_def)
next
  case c: (Inr p)
  obtain a1 s1 where p: "p = (a1, s1)" by force
  have s1: "recovered f (up_ID u) s (Inr s1)" using claude_frame[of f u s env a] c p by simp
  show ?thesis
  proof (cases "codex_recovery env u a1 s1")
    case (Inl r)
    then show ?thesis using recovered_trans[OF s1, of "Inl r"] codex_frame[of f u s1 env a1] c p by (simp add: recoveries_def)
  next
    case (Inr q)
    obtain b a2 s2 where q: "q = (b, a2, s2)" by (cases q)
    obtain b' a3 s3 where e: "encrypted_recovery env u a2 s2 = (b', a3, s3)" by (cases "encrypted_recovery env u a2 s2")
    have "recovered f (up_ID u) s (Inr s2)" using recovered_trans[OF s1] codex_frame[of f u s1 env a1] Inr q by simp
    then have "recovered f (up_ID u) s (Inr s3)" using recovered_trans encrypted_frame[of f u s2 env a2] e by fastforce
    then show ?thesis using c p Inr q e by (simp add: recoveries_def)
  qed
qed

lemma commit_frame:
  "fst (commit_attempt env c cap a s) = Committed c a
   \<and> (holding f (sel_id c) s \<longrightarrow> conn (snd (commit_attempt env c cap a s)) = held_after env (Committed c a) f)
   \<and> spent s (snd (commit_attempt env c cap a s))"
proof -
  define t where "t = (if answer_ok a cap then xs_success env (sel_id c) (s\<lparr>xs_CodexCapacityError := cap\<rparr>)
     else xs_error env (sel_id c) (s\<lparr>xs_CodexCapacityError := cap\<rparr>))"
  define w where "w = (if ee_session env \<noteq> '''' \<and> answer_ok a cap
     then t\<lparr>xs_router := BindSession (xs_router t) (ee_session env) (ee_model env) (sel_id c) (ee_now env)\<rparr> else t)"
  have eq: "commit_attempt env c cap a s = (Committed c a, if ee_completes env c a then xs_release (sel_id c) w else w)"
    unfolding commit_attempt_def Let_def t_def w_def by (rule refl)
  have t: "conn t = conn s" "xs_attempted t = xs_attempted s" "xs_calls t = xs_calls s" "recoveries_used t = recoveries_used s"
    by (simp_all add: t_def conn_def xs_success_def xs_error_def recoveries_used_def)
  have w: "conn w = conn t" "xs_attempted w = xs_attempted t" "xs_calls w = xs_calls t" "recoveries_used w = recoveries_used t"
    by (simp_all add: w_def conn_def recoveries_used_def)
  have "holding f (sel_id c) s \<Longrightarrow> conn (xs_release (sel_id c) w) = f \<and> conn w = f(sel_id c := f (sel_id c) + 1)"
    using holding_release[of f "sel_id c" w] t(1) w(1) by (simp add: holding_def del: conn_release)
  then show ?thesis using t w by (simp add: eq spent_def del: conn_release)
qed

text \<open>What an attempt that started in s may append to the candidates.\<close>
definition grown :: "resolvedGroup \<Rightarrow> SelectedUpstream list \<Rightarrow> exec_state \<Rightarrow> SelectedUpstream list \<Rightarrow> bool" where
  "grown grp todo s added = (distinct (map sel_id added)
     \<and> sel_id ` set added \<subseteq> group_ids grp - (set (xs_attempted s) \<union> sel_id ` set todo))"

lemma grown_Nil [simp]: "grown grp todo s []" by (simp add: grown_def)

lemma finish_frame:
  assumes "finish_attempt env grp c todo cap a s = Some (r, s')"
  shows "spent s s' \<and> (holding f (sel_id c) s \<longrightarrow> conn s' = (case r of Finished res \<Rightarrow> held_after env res f | NextCandidate _ \<Rightarrow> f))
    \<and> (\<forall>todo'. r = NextCandidate todo' \<longrightarrow> (\<exists>added. todo' = todo @ added \<and> grown grp todo s added))"
proof (cases "recoveries env (sel_Upstream c) a s")
  case (Inl p)
  then show ?thesis using assms recoveries_frame[of f "sel_Upstream c" s env a]
    by (cases p) (auto simp: finish_attempt_def recovered_def sel_id_def)
next
  case (Inr p)
  obtain b a1 s1 where p: "p = (b, a1, s1)" by (cases p)
  have rec: "holding f (sel_id c) s \<longrightarrow> holding f (sel_id c) s1" "spent s s1"
    using recoveries_frame[of f "sel_Upstream c" s env a] Inr p by (simp_all add: recovered_def sel_id_def)
  have com: ?thesis if "map_prod Finished id (commit_attempt env c cap' a1 t) = (r, s')"
      "spent s1 t" "holding f (sel_id c) s1 \<longrightarrow> holding f (sel_id c) t" for cap' t
  proof -
    have "s' = snd (commit_attempt env c cap' a1 t)" "r = Finished (fst (commit_attempt env c cap' a1 t))"
      using that(1) by (cases "commit_attempt env c cap' a1 t"; simp)+
    moreover have "fst (commit_attempt env c cap' a1 t) = Committed c a1" using commit_frame by blast
    ultimately show ?thesis using commit_frame[of env c cap' a1 t f] rec that(2,3) spent_trans by auto
  qed
  show ?thesis
  proof (cases b)
    case False
    then show ?thesis using assms Inr p com[of cap s1] by (simp add: finish_attempt_def)
  next
    case True
    then obtain det rt added s2 where h: "handleCodexCapacity env grp (sel_Upstream c) todo a1 s1 = Some (det, rt, added, s2)"
      using assms Inr p by (auto simp: finish_attempt_def split: option.splits)
    note fr = handle_frame[OF h] handle_used[OF h]
    have sp: "spent s1 s2" using fr by (simp add: spent_def)
    show ?thesis
    proof (cases rt)
      case True
      then have eq: "r = NextCandidate (todo @ added)" "s' = s2"
        using assms Inr p \<open>b\<close> h by (simp_all add: finish_attempt_def)
      have "xs_attempted s1 = xs_attempted s" using rec(2) by (simp add: spent_def)
      then have "grown grp todo s added" using fr by (simp add: grown_def)
      moreover have "holding f (sel_id c) s1 \<longrightarrow> conn s2 = f"
        using fr True holding_release[of f "sel_id c" s1] by (simp add: sel_id_def del: conn_release)
      ultimately show ?thesis using eq rec sp spent_trans[of s s1 s2] by auto
    next
      case False
      have "holding f (sel_id c) s1 \<longrightarrow> holding f (sel_id c) s2" using fr False by (simp add: holding_def)
      then show ?thesis using assms Inr p \<open>b\<close> h False com[of "cap \<or> det" s2] sp by (simp add: finish_attempt_def)
    qed
  qed
qed


text \<open>Calls and recoveries of one attempt: at most one call beside the replays.\<close>
definition attempted_one :: "SelectedUpstream \<Rightarrow> exec_state \<Rightarrow> exec_state \<Rightarrow> bool" where
  "attempted_one c s s' = (xs_attempted s' = xs_attempted s @ [sel_id c]
     \<and> xs_calls s' + recoveries_used s \<le> Suc (xs_calls s) + recoveries_used s')"

lemma attempt_frame:
  assumes "attempt env grp policy c todo s = Some (r, s')"
  shows "attempted_one c s s' \<and> (conn s = f \<and> 0 \<le> f (sel_id c) \<and> f (sel_id c) < int64_max
        \<longrightarrow> conn s' = (case r of Finished res \<Rightarrow> held_after env res f | NextCandidate _ \<Rightarrow> f))
    \<and> (\<forall>todo'. r = NextCandidate todo' \<longrightarrow>
        (\<exists>added. todo' = todo @ added \<and> distinct (map sel_id added)
          \<and> sel_id ` set added \<subseteq> group_ids grp - (insert (sel_id c) (set (xs_attempted s)) \<union> sel_id ` set todo)))"
proof -
  let ?u = "sel_Upstream c"
  define s0 where "s0 = s\<lparr>xs_attempted := xs_attempted s @ [sel_id c], xs_Attempt := int (length (xs_attempted s)) + 1\<rparr>"
  have s0: "xs_attempted s0 = xs_attempted s @ [sel_id c]" "conn s0 = conn s" "xs_calls s0 = xs_calls s"
      "recoveries_used s0 = recoveries_used s"
    by (simp_all add: s0_def conn_def recoveries_used_def)
  define a where "a = fst (xs_send env ?u (xs_acquire (sel_id c) s0))"
  define s1 where "s1 = snd (xs_send env ?u (xs_acquire (sel_id c) s0))"
  have s1: "xs_attempted s1 = xs_attempted s @ [sel_id c]" "xs_calls s1 = Suc (xs_calls s)"
      "recoveries_used s1 = recoveries_used s" using s0 by (simp_all add: s1_def)
  have hold: "conn s = f \<and> 0 \<le> f (sel_id c) \<and> f (sel_id c) < int64_max \<longrightarrow> holding f (sel_id c) s1"
    using acquire_holding[of s0 f "sel_id c"] s0(2) by (simp add: s1_def)
  have unf: "attempt env grp policy c todo s =
     (if \<not> ee_prepare env c then Some (NextCandidate todo, s0)
      else if \<not> ee_client env ?u then Some (NextCandidate todo, xs_error env (sel_id c) s0)
      else (case handleCodexCapacity env grp ?u todo a s1 of
              None \<Rightarrow> None
            | Some (detected, retry, added, s2) \<Rightarrow>
                if retry then Some (NextCandidate (todo @ added), s2)
                else if \<not> detected \<and> evaluateResponse a policy then
                  Some (NextCandidate todo, xs_error env (sel_id c) (xs_release (sel_id c)
                    (let s3 = s2\<lparr>xs_RetryReason := retryReason a\<rparr> in
                     if todo = [] then markRetryExhausted s3 else markRetryableAttempt (retryReason a) s3)))
                else finish_attempt env grp c todo detected a s2))"
    by (simp add: attempt_def Let_def s0_def a_def s1_def sel_id_def xs_send_def cong: option.case_cong prod.case_cong if_cong)
  show ?thesis
  proof (cases "ee_prepare env c \<and> ee_client env ?u")
    case False
    then show ?thesis using assms s0 unfolding unf by (auto simp: attempted_one_def split: if_splits)
  next
    case True
    obtain det rt added s2 where h: "handleCodexCapacity env grp ?u todo a s1 = Some (det, rt, added, s2)"
      using assms True unfolding unf by (auto split: option.splits)
    note fr = handle_frame[OF h] handle_used[OF h]
    have s2: "xs_attempted s2 = xs_attempted s @ [sel_id c]" "xs_calls s2 = Suc (xs_calls s)"
      "recoveries_used s2 = recoveries_used s" "\<not> rt \<Longrightarrow> conn s2 = conn s1" using fr s1 by simp_all
    have hold2: "\<not> rt \<Longrightarrow> conn s = f \<and> 0 \<le> f (sel_id c) \<and> f (sel_id c) < int64_max \<longrightarrow> holding f (sel_id c) s2"
      using hold s2(4) by (simp add: holding_def)
    consider (fb) "rt" | (policy) "\<not> rt" "\<not> det \<and> evaluateResponse a policy" | (fin) "\<not> rt" "\<not> (\<not> det \<and> evaluateResponse a policy)"
      by blast
    then show ?thesis
    proof cases
      case fb
      then have eq: "r = NextCandidate (todo @ added)" "s' = s2" using assms True h unfolding unf by simp_all
      show ?thesis
        using eq s2 fr fb s1 hold holding_release[of f "sel_id c" s1]
        by (auto simp: attempted_one_def sel_id_def simp del: conn_release)
    next
      case policy
      define s3 where "s3 = (let s3 = s2\<lparr>xs_RetryReason := retryReason a\<rparr> in
                     if todo = [] then markRetryExhausted s3 else markRetryableAttempt (retryReason a) s3)"
      have s3: "xs_attempted s3 = xs_attempted s2" "xs_calls s3 = xs_calls s2" "recoveries_used s3 = recoveries_used s2" "conn s3 = conn s2"
        by (simp_all add: s3_def Let_def) (simp_all add: recoveries_used_def conn_def)
      have eq: "r = NextCandidate todo" "s' = xs_error env (sel_id c) (xs_release (sel_id c) s3)"
        using assms True h policy unfolding unf s3_def by simp_all
      have "holding f (sel_id c) s2 \<Longrightarrow> conn (xs_release (sel_id c) s3) = f"
        using s3 holding_release[of f "sel_id c" s3] by (simp add: holding_def del: conn_release)
      then show ?thesis using eq s2 s3 hold2[OF policy(1)]
        by (auto simp: attempted_one_def simp del: conn_release)
    next
      case fin
      then have "finish_attempt env grp c todo det a s2 = Some (r, s')"
        using assms True h unfolding unf by (simp split: if_splits)
      from finish_frame[OF this, of f] s2 hold2[OF fin(1)]
      show ?thesis by (auto simp: attempted_one_def spent_def grown_def)
    qed
  qed
qed


lemma attempt_measure:
  assumes "attempt env grp policy c todo s = Some (NextCandidate todo', s')"
  shows "loop_measure grp todo' s' < loop_measure grp (c # todo) s"
proof -
  let ?K = "insert (sel_id c) (set (xs_attempted s)) \<union> sel_id ` set todo"
  obtain added where a: "todo' = todo @ added" "distinct (map sel_id added)" "sel_id ` set added \<subseteq> group_ids grp - ?K"
      "set (xs_attempted s') = insert (sel_id c) (set (xs_attempted s))"
    using attempt_frame[OF assms, of "conn s"] by (auto simp: attempted_one_def)
  have fin: "finite (group_ids grp - ?K)" by (simp add: group_ids_def)
  have "length added = card (sel_id ` set added)" using a(2) by (metis distinct_card length_map list.set_map)
  then have "length added + card ((group_ids grp - ?K) - sel_id ` set added) = card (group_ids grp - ?K)"
    using a(3) fin by (metis card_Diff_subset card_mono finite_subset le_add_diff_inverse)
  moreover have "group_ids grp - (set (xs_attempted s') \<union> sel_id ` set todo') = (group_ids grp - ?K) - sel_id ` set added"
    using a(1,4) by auto
  moreover have "set (xs_attempted s) \<union> sel_id ` set (c # todo) = ?K" by auto
  ultimately show ?thesis using a(1) by (simp only: loop_measure_def) simp
qed

function exec_loop ::
  "exec_env \<Rightarrow> resolvedGroup \<Rightarrow> RetryPolicy option \<Rightarrow> SelectedUpstream list \<Rightarrow> exec_state
   \<Rightarrow> (exec_result \<times> exec_state) option" where
  "exec_loop env grp policy [] s =
     Some (AllUpstreamsFailed, if xs_RetryStatus s = ''retryable_error'' then markRetryExhausted s else s)"
| "exec_loop env grp policy (c # todo) s =
     (case attempt env grp policy c todo s of
        None \<Rightarrow> None
      | Some (Finished res, s') \<Rightarrow> Some (res, s')
      | Some (NextCandidate todo', s') \<Rightarrow> exec_loop env grp policy todo' s')"
  by pat_completeness auto
termination
  by (relation "measure (\<lambda>(env, grp, policy, todo, s). loop_measure grp todo s)") (auto intro: attempt_measure)

section \<open>Execute\<close>

record exec_config =
  ec_maxBodySize :: int
  ec_imagesMaxBodySize :: int

definition body_limit :: "exec_config \<Rightarrow> exec_env \<Rightarrow> int" where
  "body_limit cfg env =
     (if ee_kind env = ''openai_images_edits'' \<and> ee_multipart env \<and> ec_imagesMaxBodySize cfg > 0
      then ec_imagesMaxBodySize cfg else ec_maxBodySize cfg)"

text \<open>The members that speak native Responses WebSocket.\<close>
definition ws_filter :: "resolvedGroup \<Rightarrow> resolvedGroup" where
  "ws_filter g = g\<lparr>rg_members := filter (\<lambda>m. up_Provider (gm_upstream m) = ''openai'' \<or> up_Provider (gm_upstream m) = ''codex'') (rg_members g)\<rparr>"

text \<open>The candidates of a connection already bound to an upstream are an argument (ee_ws); None asks the router.\<close>
definition exec_candidates ::
  "exec_env \<Rightarrow> Router \<Rightarrow> resolvedGroup \<Rightarrow> (exec_result + (resolvedGroup \<times> SelectedUpstream list \<times> Router)) option" where
  "exec_candidates env r grp =
     (let select = (\<lambda>g. map_option (\<lambda>(cs, r'). Inr (g, cs, r')) (SelectWithRetry (ee_draws env) r g (ee_session env) (ee_model env) (ee_now env)))
      in case ee_ws env of
           None \<Rightarrow> select grp
         | Some (Inl e) \<Rightarrow> Some (Inl (WebsocketUnavailable e))
         | Some (Inr (Some cs)) \<Rightarrow> Some (Inr (grp, cs, r))
         | Some (Inr None) \<Rightarrow>
             if rg_members (ws_filter grp) = [] then Some (Inl UpgradeRequired) else select (ws_filter grp))"

definition exec_start :: "Router \<Rightarrow> UpstreamMetrics \<Rightarrow> exec_state" where
  "exec_start r m = \<lparr>xs_router = r, xs_metrics = m, xs_calls = 0, xs_attempted = [], xs_claudeRetried = False,
     xs_codexRetried = False, xs_encryptedRetried = False, xs_Attempt = 0, xs_RetryStatus = '''', xs_RetryReason = '''',
     xs_CodexCapacityError = False\<rparr>"

definition Execute ::
  "exec_config \<Rightarrow> exec_env \<Rightarrow> Router \<Rightarrow> UpstreamMetrics \<Rightarrow> string \<Rightarrow> string \<Rightarrow> (exec_result \<times> exec_state) option" where
  "Execute cfg env r m projectID client =
     (case Match r projectID (ee_model env) (ee_kind env) client of
        Inl e \<Rightarrow> Some (NoRouteMatched, exec_start r m)
      | Inr grp \<Rightarrow>
          (case exec_candidates env r grp of
             None \<Rightarrow> None
           | Some (Inl res) \<Rightarrow> Some (res, exec_start r m)
           | Some (Inr (grp', cs, r')) \<Rightarrow>
               if cs = [] then Some (NoUpstreams, exec_start r' m)
               else (case ee_body env of
                       None \<Rightarrow> Some (BodyUnreadable, exec_start r' m)
                     | Some len \<Rightarrow>
                         if len > body_limit cfg env then Some (BodyTooLarge, exec_start r' m)
                         else exec_loop env grp' (grp_RetryPolicy (rg_group grp')) cs (exec_start r' m))))"


section \<open>What the loop keeps\<close>

definition loop_kept :: "exec_env \<Rightarrow> resolvedGroup \<Rightarrow> SelectedUpstream list \<Rightarrow> exec_state \<Rightarrow> exec_result \<Rightarrow> exec_state \<Rightarrow> bool" where
  "loop_kept env grp todo s res s' =
     ((distinct (xs_attempted s @ map sel_id todo) \<longrightarrow> distinct (xs_attempted s'))
      \<and> set (xs_attempted s') \<subseteq> set (xs_attempted s) \<union> sel_id ` set todo \<union> group_ids grp
      \<and> xs_calls s' + recoveries_used s + length (xs_attempted s) \<le> xs_calls s + recoveries_used s' + length (xs_attempted s')
      \<and> ((\<forall>v. 0 \<le> conn s v \<and> conn s v < int64_max) \<longrightarrow> conn s' = held_after env res (conn s)))"

lemma loop_kept_finished:
  assumes "attempt env grp policy c todo s = Some (Finished res, s')"
  shows "loop_kept env grp (c # todo) s res s'"
proof -
  from attempt_frame[OF assms, of "conn s"]
  have "xs_attempted s' = xs_attempted s @ [sel_id c]" "xs_calls s' + recoveries_used s \<le> Suc (xs_calls s) + recoveries_used s'"
    "0 \<le> conn s (sel_id c) \<and> conn s (sel_id c) < int64_max \<longrightarrow> conn s' = held_after env res (conn s)"
    by (simp_all add: attempted_one_def)
  then show ?thesis unfolding loop_kept_def by auto
qed

lemma loop_kept_next:
  assumes "attempt env grp policy c todo s = Some (NextCandidate todo', t)" and "loop_kept env grp todo' t res s'"
  shows "loop_kept env grp (c # todo) s res s'"
proof -
  from attempt_frame[OF assms(1), of "conn s"] obtain added where
    a: "xs_attempted t = xs_attempted s @ [sel_id c]" "xs_calls t + recoveries_used s \<le> Suc (xs_calls s) + recoveries_used t"
      "0 \<le> conn s (sel_id c) \<and> conn s (sel_id c) < int64_max \<longrightarrow> conn t = conn s"
      "todo' = todo @ added" "distinct (map sel_id added)"
      "sel_id ` set added \<subseteq> group_ids grp - (insert (sel_id c) (set (xs_attempted s)) \<union> sel_id ` set todo)"
    by (simp add: attempted_one_def) blast
  have "distinct (xs_attempted s @ map sel_id (c # todo)) \<Longrightarrow> distinct (xs_attempted t @ map sel_id todo')"
    using a(1,4,5,6) by auto
  then have 1: "distinct (xs_attempted s @ map sel_id (c # todo)) \<longrightarrow> distinct (xs_attempted s')"
    using assms(2) unfolding loop_kept_def by blast
  have todo': "sel_id ` set todo' \<subseteq> sel_id ` set todo \<union> group_ids grp" using a(4,6) by auto
  have "set (xs_attempted s') \<subseteq> set (xs_attempted t) \<union> sel_id ` set todo' \<union> group_ids grp"
    using assms(2) unfolding loop_kept_def by blast
  then have 2: "set (xs_attempted s') \<subseteq> set (xs_attempted s) \<union> sel_id ` set (c # todo) \<union> group_ids grp"
    using todo' a(1) by auto
  have "xs_calls s' + recoveries_used t + length (xs_attempted t) \<le> xs_calls t + recoveries_used s' + length (xs_attempted s')"
    using assms(2) unfolding loop_kept_def by blast
  then have 3: "xs_calls s' + recoveries_used s + length (xs_attempted s) \<le> xs_calls s + recoveries_used s' + length (xs_attempted s')"
    using a(1,2) by simp
  have "(\<forall>v. 0 \<le> conn t v \<and> conn t v < int64_max) \<longrightarrow> conn s' = held_after env res (conn t)"
    using assms(2) unfolding loop_kept_def by blast
  then have 4: "(\<forall>v. 0 \<le> conn s v \<and> conn s v < int64_max) \<longrightarrow> conn s' = held_after env res (conn s)" using a(3) by simp
  show ?thesis unfolding loop_kept_def using 1 2 3 4 by blast
qed

lemma exec_loop_frame: "exec_loop env grp policy todo s = Some (res, s') \<Longrightarrow> loop_kept env grp todo s res s'"
proof (induction env grp policy todo s rule: exec_loop.induct)
  case (1 env grp policy s)
  have "conn (markRetryExhausted s) = conn s" by simp
  then show ?case using 1 by (auto simp: loop_kept_def split: if_splits)
next
  case (2 env grp policy c todo s)
  show ?case
  proof (cases "attempt env grp policy c todo s")
    case None then show ?thesis using 2 by simp
  next
    case (Some p)
    obtain r t where p: "p = (r, t)" by force
    show ?thesis
    proof (cases r)
      case (NextCandidate todo')
      then show ?thesis using 2 Some p loop_kept_next by simp
    next
      case (Finished x)
      then show ?thesis using 2 Some p loop_kept_finished by simp
    qed
  qed
qed


section \<open>The loop returns\<close>

definition members_fit :: "resolvedGroup \<Rightarrow> bool" where
  "members_fit grp = weights_fit (map (candidate_of (\<lambda>_. None)) (rg_members grp))"

text \<open>The group's balancer can serve k more picks.\<close>
definition ready_for :: "exec_env \<Rightarrow> resolvedGroup \<Rightarrow> nat \<Rightarrow> exec_state \<Rightarrow> bool" where
  "ready_for env grp k s = bal_ready (ee_draws env) k (group_balancer (xs_router s) grp)"

lemma build_candidates_filter:
  "\<exists>P. build_candidates ct ex ms = map (candidate_of ct) (filter P ms)"
  by (auto simp: build_candidates_def Let_def)

lemma build_candidates_fit:
  assumes "weights_fit (map (candidate_of ct') ms)"
  shows "weights_fit (build_candidates ct ex ms) \<and> length (build_candidates ct ex ms) \<le> length ms"
proof -
  obtain P where P: "build_candidates ct ex ms = map (candidate_of ct) (filter P ms)"
    using build_candidates_filter by blast
  have ew: "effective_weight (candidate_of ct m) = effective_weight (candidate_of ct' m)" for m
    by (simp add: effective_weight_def candidate_of_def)
  have "weight_sum (map (candidate_of ct) (filter P ms)) \<le> weight_sum (map (candidate_of ct') ms)"
    by (induction ms) (auto simp: ew less_imp_le add_increasing)
  then show ?thesis using assms by (simp add: P weights_fit_def)
qed

lemma fallbacks_ready:
  assumes "members_fit grp" and "bal_ready draws (length (rg_members grp) + j) (group_balancer r grp)"
  shows "\<exists>fs r'. SelectCapacityFallbacks draws r grp ex = Some (fs, r') \<and> bal_ready draws j (group_balancer r' grp)"
proof -
  let ?cs = "build_candidates (rt_connTracker r) ex (rg_members grp)"
  let ?j = "length (rg_members grp) - length ?cs + j"
  have cs: "weights_fit ?cs" "length ?cs \<le> length (rg_members grp)"
    using build_candidates_fit assms(1) by (auto simp: members_fit_def)
  have j: "bal_ready draws j b" if "bal_ready draws (k + j) b" for k b using pol.ready_less[OF that] .
  show ?thesis
  proof (cases "?cs = []")
    case True then show ?thesis using j assms(2) by (simp add: SelectCapacityFallbacks_def)
  next
    case False
    have "bal_ready draws (nat (int (length ?cs)) + ?j) (group_balancer r grp)" using assms(2) cs(2) by simp
    from SelectN_serves[OF this cs(1)] obtain us b' where
      s: "SelectN draws (group_balancer r grp) ?cs (int (length ?cs)) = Some (us, b')" "bal_ready draws ?j b'"
      by auto
    have "group_balancer (store_balancer r grp b') grp = b' \<or> group_balancer (store_balancer r grp b') grp = group_balancer r grp"
      by (cases "rt_balancers r (grp_ID (rg_group grp))") (simp_all add: store_balancer_def group_balancer_def)
    then have "bal_ready draws j (group_balancer (store_balancer r grp b') grp)" using j s(2) assms(2) by metis
    then show ?thesis using False s(1) by (simp add: SelectCapacityFallbacks_def Let_def)
  qed
qed

lemma ready_frame [simp]:
  "ready_for env grp k (xs_acquire u s) = ready_for env grp k s" "ready_for env grp k (xs_release u s) = ready_for env grp k s"
  "ready_for env grp k (xs_error env' u s) = ready_for env grp k s"
  "ready_for env grp k (markRetryExhausted s) = ready_for env grp k s"
  "ready_for env grp k (markRetryableAttempt r s) = ready_for env grp k s"
  "ready_for env grp k (snd (xs_send env' v s)) = ready_for env grp k s"
  "ready_for env grp k (s\<lparr>xs_claudeRetried := b\<rparr>) = ready_for env grp k s"
  "ready_for env grp k (s\<lparr>xs_codexRetried := b\<rparr>) = ready_for env grp k s"
  "ready_for env grp k (s\<lparr>xs_encryptedRetried := b\<rparr>) = ready_for env grp k s"
  by (simp_all add: ready_for_def group_balancer_def xs_acquire_def xs_release_def xs_error_def markRetryExhausted_def
      markRetryableAttempt_def Let_def xs_send_def)

lemma ready_for_less: "ready_for env grp (k + j) s \<Longrightarrow> ready_for env grp j s"
  using pol.ready_less by (simp add: ready_for_def)

lemma handle_ready:
  assumes "members_fit grp" and "ready_for env grp (length (rg_members grp) + j) s"
  shows "\<exists>d rt added s'. handleCodexCapacity env grp u todo a s = Some (d, rt, added, s') \<and> ready_for env grp j s'"
proof (cases "ee_wsEstablished env (xs_calls s) \<or> up_Provider u \<noteq> ''codex'' \<or> \<not> ee_capacity env a")
  case True
  then have "handleCodexCapacity env grp u todo a s = Some (False, False, [], s)" by (simp add: handleCodexCapacity_def)
  then show ?thesis using ready_for_less[OF assms(2)] by blast
next
  case False
  let ?r = "UnbindSessionFromUpstream (xs_router s) (ee_session env) (ee_model env) (up_ID u)"
  have "group_balancer ?r grp = group_balancer (xs_router s) grp"
    by (simp add: group_balancer_def UnbindSessionFromUpstream_def split: option.splits)
  then obtain fs r1 where f: "SelectCapacityFallbacks (ee_draws env) ?r grp (set (xs_attempted s)) = Some (fs, r1)"
      "bal_ready (ee_draws env) j (group_balancer r1 grp)"
    using fallbacks_ready[OF assms(1), of "ee_draws env" j ?r "set (xs_attempted s)"] assms(2) by (auto simp: ready_for_def)
  have up: "ready_for env grp j (s\<lparr>xs_router := r1\<rparr>)" "ready_for env grp j (s\<lparr>xs_router := r1, xs_RetryReason := x\<rparr>)" for x
    using f(2) by (simp_all add: ready_for_def)
  show ?thesis using False f(1) up by (simp add: handleCodexCapacity_def Let_def) blast
qed

lemma recoveries_ready:
  assumes "recoveries env u a s = Inr (b, a', s')" and "ready_for env grp k s"
  shows "ready_for env grp k s'"
proof -
  have snd_send: "ready_for env grp k s2" if "xs_send env u s1 = (a2, s2)" "ready_for env grp k s1" for a2 s1 s2
    using that(2) ready_frame(6)[of env grp k env u s1] by (simp add: that(1))
  have oauth: "ready_for env grp k s2" if "oauth_replay env u x s1 = Inr (a2, s2)" "ready_for env grp k s1" for x a2 s1 s2
    using that snd_send by (fastforce simp: oauth_replay_def Let_def split: if_splits)
  have claude: "ready_for env grp k s2" if "claude_recovery env u x s1 = Inr (a2, s2)" "ready_for env grp k s1" for x a2 s1 s2
    using that oauth by (fastforce simp: claude_recovery_def split: if_splits)
  have codex: "ready_for env grp k s2" if "codex_recovery env u x s1 = Inr (c, a2, s2)" "ready_for env grp k s1" for x c a2 s1 s2
  proof (cases "up_Provider u = ''codex'' \<and> is_auth_error x \<and> \<not> xs_codexRetried s1")
    case True
    then show ?thesis using that oauth[of x "s1\<lparr>xs_codexRetried := True\<rparr>"]
      by (cases "oauth_replay env u x (s1\<lparr>xs_codexRetried := True\<rparr>)") (auto simp: codex_recovery_def)
  next
    case False
    then have "codex_recovery env u x s1 = Inr (False, x, s1)" by (simp only: codex_recovery_def if_False)
    then show ?thesis using that by simp
  qed
  have enc: "ready_for env grp k s2" if "encrypted_recovery env u x s1 = (c, a2, s2)" "ready_for env grp k s1" for x c a2 s1 s2
    using that snd_send by (fastforce simp: encrypted_recovery_def Let_def split: if_splits)
  obtain a1 s1 c a2 s2 d where "claude_recovery env u a s = Inr (a1, s1)" "codex_recovery env u a1 s1 = Inr (c, a2, s2)"
      "encrypted_recovery env u a2 s2 = (d, a', s')"
    using assms(1) by (auto simp: recoveries_def split: sum.splits prod.splits)
  then show ?thesis using claude codex enc assms(2) by blast
qed


lemma finish_ready:
  assumes "members_fit grp" and "ready_for env grp (length (rg_members grp) + j) s"
  shows "\<exists>r s'. finish_attempt env grp c todo cap a s = Some (r, s') \<and> (\<forall>todo'. r = NextCandidate todo' \<longrightarrow> ready_for env grp j s')"
proof (cases "recoveries env (sel_Upstream c) a s")
  case (Inl p) then show ?thesis by (cases p) (simp add: finish_attempt_def)
next
  case (Inr p)
  obtain b a1 s1 where p: "p = (b, a1, s1)" by (cases p)
  have "ready_for env grp (length (rg_members grp) + j) s1" using recoveries_ready Inr p assms(2) by blast
  from handle_ready[OF assms(1) this, of "sel_Upstream c" todo a1] obtain d rt added s2 where
    h: "handleCodexCapacity env grp (sel_Upstream c) todo a1 s1 = Some (d, rt, added, s2)" "ready_for env grp j s2"
    by blast
  have m: "\<exists>r s'. map_prod Finished id q = (r, s') \<and> (\<forall>todo'. r \<noteq> NextCandidate todo')" for q :: "exec_result \<times> exec_state"
    by (cases q) simp
  show ?thesis
  proof (cases "b \<and> rt")
    case True then show ?thesis using Inr p h by (simp add: finish_attempt_def)
  next
    case False
    then show ?thesis using Inr p h(1) m[of "commit_attempt env c cap a1 s1"] m[of "commit_attempt env c (cap \<or> d) a1 s2"]
      by (cases b) (auto simp: finish_attempt_def)
  qed
qed

lemma attempt_ready:
  assumes "members_fit grp" and "ready_for env grp (2 * length (rg_members grp) + j) s"
  shows "\<exists>r s'. attempt env grp policy c todo s = Some (r, s') \<and> (\<forall>todo'. r = NextCandidate todo' \<longrightarrow> ready_for env grp j s')"
proof -
  let ?u = "sel_Upstream c"
  define s0 where "s0 = s\<lparr>xs_attempted := xs_attempted s @ [sel_id c], xs_Attempt := int (length (xs_attempted s)) + 1\<rparr>"
  define a where "a = fst (xs_send env ?u (xs_acquire (sel_id c) s0))"
  define s1 where "s1 = snd (xs_send env ?u (xs_acquire (sel_id c) s0))"
  have s0: "ready_for env grp k s0 = ready_for env grp k s" for k by (simp add: s0_def ready_for_def)
  have "ready_for env grp (length (rg_members grp) + (length (rg_members grp) + j)) s1"
    using assms(2) s0 by (simp add: s1_def mult_2 add.assoc)
  from handle_ready[OF assms(1) this, of ?u todo a] obtain d rt added s2 where
    h: "handleCodexCapacity env grp ?u todo a s1 = Some (d, rt, added, s2)" "ready_for env grp (length (rg_members grp) + j) s2"
    by blast
  have j: "ready_for env grp j s2" "ready_for env grp j s0"
    using ready_for_less[OF h(2)] ready_for_less[of env grp "2 * length (rg_members grp)" j s] assms(2) s0 by simp_all
  have rr: "ready_for env grp j (s2\<lparr>xs_RetryReason := x\<rparr>)" for x using j(1) by (simp add: ready_for_def)
  note f = finish_ready[OF assms(1) h(2), of c todo d a]
  have unf: "attempt env grp policy c todo s =
     (if \<not> ee_prepare env c then Some (NextCandidate todo, s0)
      else if \<not> ee_client env ?u then Some (NextCandidate todo, xs_error env (sel_id c) s0)
      else if rt then Some (NextCandidate (todo @ added), s2)
      else if \<not> d \<and> evaluateResponse a policy then
        Some (NextCandidate todo, xs_error env (sel_id c) (xs_release (sel_id c)
          (if todo = [] then markRetryExhausted (s2\<lparr>xs_RetryReason := retryReason a\<rparr>)
           else markRetryableAttempt (retryReason a) (s2\<lparr>xs_RetryReason := retryReason a\<rparr>))))
      else finish_attempt env grp c todo d a s2)"
    using h(1) by (simp add: attempt_def Let_def s0_def a_def s1_def sel_id_def xs_send_def cong: option.case_cong prod.case_cong if_cong)
  show ?thesis unfolding unf using j rr f by simp
qed

lemma exec_loop_ready:
  assumes "members_fit grp" and "ready_for env grp (2 * length (rg_members grp) * loop_measure grp todo s) s"
  shows "\<exists>res s'. exec_loop env grp policy todo s = Some (res, s')"
  using assms
proof (induction env grp policy todo s rule: exec_loop.induct)
  case (2 env grp policy c todo s)
  let ?m = "2 * length (rg_members grp)"
  obtain k where k: "loop_measure grp (c # todo) s = Suc k" by (cases "loop_measure grp (c # todo) s") (simp_all add: loop_measure_def)
  have "ready_for env grp (?m + ?m * k) s" using 2(3) k by simp
  from attempt_ready[OF 2(2) this, of policy c todo] obtain r t where
    a: "attempt env grp policy c todo s = Some (r, t)" "\<forall>todo'. r = NextCandidate todo' \<longrightarrow> ready_for env grp (?m * k) t"
    by blast
  show ?case
  proof (cases r)
    case (Finished x) then show ?thesis using a by simp
  next
    case (NextCandidate todo')
    have "loop_measure grp todo' t \<le> k" using attempt_measure a(1) NextCandidate k by fastforce
    then obtain i where "k = i + loop_measure grp todo' t" by (metis add.commute le_Suc_ex)
    then have "ready_for env grp (?m * loop_measure grp todo' t) t"
      using a(2) NextCandidate ready_for_less[of env grp "?m * i" "?m * loop_measure grp todo' t" t]
      by (simp add: distrib_left)
    then show ?thesis using 2(1)[OF a(1)] NextCandidate a(1) 2(2) by auto
  qed
qed simp


lemma store_frame [simp]:
  "rt_connTracker (store_balancer r grp b) = rt_connTracker r"
  by (simp add: store_balancer_def split: option.splits)

lemma pinSession_conn:
  "pinSessionToUpstream draws r key cs b now = Some (u, r', b') \<Longrightarrow> rt_connTracker r' = rt_connTracker r \<and> rt_balancers r' = rt_balancers r"
  by (auto simp: pinSessionToUpstream_def pin_claim_def Let_def split: option.splits prod.splits)

lemma SelectWithRetry_conn:
  assumes "SelectWithRetry draws r g sid model now = Some (cs, r')"
  shows "rt_connTracker r' = rt_connTracker r"
proof -
  let ?cs = "build_candidates (rt_connTracker r) {} (rg_members g)"
  show ?thesis
  proof (cases "pinSessionToUpstream draws r (sid, model) ?cs (group_balancer r g) now")
    case None then show ?thesis using assms by (auto simp: SelectWithRetry_def Let_def split: if_splits)
  next
    case (Some p)
    obtain u r1 b1 where p: "p = (u, r1, b1)" by (cases p)
    have "rt_connTracker r1 = rt_connTracker r" using pinSession_conn Some p by blast
    then show ?thesis using assms Some p
      by (cases u) (auto simp: SelectWithRetry_def Let_def split: if_splits)
  qed
qed

lemma exec_candidates_conn:
  "exec_candidates env r grp = Some (Inr (g, cs, r')) \<Longrightarrow> rt_connTracker r' = rt_connTracker r"
  by (auto simp: exec_candidates_def Let_def split: option.splits sum.splits if_splits dest: SelectWithRetry_conn)

lemma start_simps [simp]:
  "conn (exec_start r m) = conn_count (rt_connTracker r)" "xs_attempted (exec_start r m) = []"
  "xs_calls (exec_start r m) = 0" "recoveries_used (exec_start r m) = 0"
  by (simp_all add: exec_start_def conn_def recoveries_used_def)

lemma recoveries_used_le: "recoveries_used s \<le> 3"
  by (simp add: recoveries_used_def)

lemma Execute_cases:
  assumes "Execute cfg env r m p client = Some (res, s')"
  obtains (early) r' where "s' = exec_start r' m" "rt_connTracker r' = rt_connTracker r" "\<forall>c a. res \<noteq> Committed c a"
  | (loop) grp grp' cs r' where "Match r p (ee_model env) (ee_kind env) client = Inr grp"
      "exec_candidates env r grp = Some (Inr (grp', cs, r'))" "rt_connTracker r' = rt_connTracker r" "cs \<noteq> []"
      "exec_loop env grp' (grp_RetryPolicy (rg_group grp')) cs (exec_start r' m) = Some (res, s')"
proof (cases "Match r p (ee_model env) (ee_kind env) client")
  case (Inl e) then show ?thesis using assms early[of r] by (simp add: Execute_def)
next
  case M: (Inr grp)
  show ?thesis
  proof (cases "exec_candidates env r grp")
    case None then show ?thesis using assms M by (simp add: Execute_def)
  next
    case (Some q)
    show ?thesis
    proof (cases q)
      case (Inl x)

      have "\<forall>c a. x \<noteq> Committed c a" using Some Inl
        by (auto simp: exec_candidates_def Let_def split: option.splits sum.splits if_splits)
      then show ?thesis using assms M Some Inl early[of r] by (simp add: Execute_def)
    next
      case (Inr t)
      obtain g cs r' where t: "t = (g, cs, r')" by (cases t)
      have c: "rt_connTracker r' = rt_connTracker r" using exec_candidates_conn Some Inr t by blast
      show ?thesis
        using assms M Some Inr t c early[of r'] loop[of grp g cs r'] by (auto simp: Execute_def split: if_splits option.splits)
    qed
  qed
qed


lemma resultWithPrimary_ready:
  assumes "resultWithPrimary draws r u cs b n = Some (x, b')" "weights_fit cs" "bal_ready draws (nat (n - 1) + j) b"
  shows "bal_ready draws j b'"
proof (cases "n \<le> 1 \<or> length cs \<le> 1")
  case True
  then show ?thesis using assms pol.ready_less[OF assms(3)] by (auto simp: resultWithPrimary_def split: if_splits)
next
  case False
  let ?rem = "filter (\<lambda>c. up_ID (ci_Upstream c) \<noteq> up_ID u) cs"
  have "0 \<le> n - 1" using False by simp
  from SelectN_serves[OF assms(3) weights_fit_filter[OF assms(2), of "\<lambda>c. up_ID (ci_Upstream c) \<noteq> up_ID u"] this]
  obtain us b1 where "SelectN draws b ?rem (n - 1) = Some (us, b1)" "bal_ready draws j b1" by blast
  then show ?thesis using assms(1) False by (auto simp: resultWithPrimary_def Let_def)
qed

lemma SelectWithRetry_ready:
  assumes sel: "SelectWithRetry draws r g sid model now = Some (cs, r')" and ok: "group_ok draws r g"
    and "bal_ready draws (nat (select_count g) + j) (group_balancer r g)"
  shows "bal_ready draws j (group_balancer r' g)"
proof -
  let ?cs = "build_candidates (rt_connTracker r) {} (rg_members g)" and ?b = "group_balancer r g" and ?n = "select_count g"
  have n: "i64 (1 + (case grp_RetryPolicy (rg_group g) of Some p \<Rightarrow> MaxRetries p | None \<Rightarrow> 0)) = ?n"
    using ok int64_simps(2)[of ?n] by (simp add: group_ok_def select_count_def)
  have ok': "1 \<le> ?n" "weights_fit ?cs" using ok by (simp_all add: group_ok_def)
  have st: "bal_ready draws j (group_balancer (store_balancer r1 g b) g)"
    if "bal_ready draws j b" "rt_balancers r1 = rt_balancers r" for r1 b
    using that pol.ready_less[OF assms(3)]
    by (cases "rt_balancers r (grp_ID (rg_group g))") (simp_all add: store_balancer_def group_balancer_def)
  show ?thesis
  proof (cases "?cs = []")
    case True then show ?thesis using sel pol.ready_less[OF assms(3)] by (simp add: SelectWithRetry_def Let_def)
  next
    case ne: False
    show ?thesis
    proof (cases "sid \<noteq> '''' \<and> model \<noteq> ''''")
      case False
      then show ?thesis using sel ne n SelectN_serves[OF assms(3) ok'(2)] ok'(1) st[OF _ refl]
        by (auto simp: SelectWithRetry_def Let_def)
    next
      case True
      have "bal_ready draws (Suc (nat (?n - 1) + j)) ?b" using assms(3) ok'(1) by (simp add: nat_diff_distrib)
      from pinSession_some[OF ne ok'(2) this, of r "(sid, model)" now] obtain u b' where
        u: "pinSessionToUpstream draws r (sid, model) ?cs ?b now
           = Some (Some u, r\<lparr>rt_sessionMap := (rt_sessionMap r)((sid, model) \<mapsto> \<lparr>sb_upstreamID = up_ID u, sb_usedAt = now\<rparr>)\<rparr>, b')"
        "bal_ready draws (nat (?n - 1) + j) b'" by blast
      let ?r = "r\<lparr>rt_sessionMap := (rt_sessionMap r)((sid, model) \<mapsto> \<lparr>sb_upstreamID = up_ID u, sb_usedAt = now\<rparr>)\<rparr>"
      obtain x b'' where "resultWithPrimary draws ?r u ?cs b' ?n = Some (x, b'')" "r' = store_balancer ?r g b''"
        using sel ne True u(1) n by (auto simp: SelectWithRetry_def Let_def)
      then show ?thesis using resultWithPrimary_ready[OF _ ok'(2) u(2)] st[of b'' ?r] by simp
    qed
  qed
qed

lemma sel_id_selected [simp]: "sel_id (selected r u) = up_ID u"
  by (simp add: sel_id_def selected_def)

text \<open>Every candidate is a different member of the group.\<close>
lemma SelectWithRetry_members:
  assumes "group_ok draws r g" and "SelectWithRetry draws r g sid model now = Some (cs, r')"
  shows "distinct (map sel_id cs) \<and> sel_id ` set cs \<subseteq> group_ids g"
proof -
  let ?cs = "build_candidates (rt_connTracker r) {} (rg_members g)"
  obtain us where us: "cs = map (selected r) us" "set us \<subseteq> ci_Upstream ` set ?cs" "distinct (map up_ID us)"
    using SelectWithRetry_some[OF assms(1), of sid model now] assms(2) by auto
  have "up_ID u \<in> group_ids g" if "u \<in> ci_Upstream ` set ?cs" for u
    using that by (auto simp: group_ids_def candidate_of_def dest!: build_candidates_sound)
  then show ?thesis using us by (auto simp: comp_def)
qed


section \<open>What is committed\<close>

lemma oauth_replay_flags:
  "oauth_replay env u a s = Inr (a', s') \<Longrightarrow>
     xs_claudeRetried s' = xs_claudeRetried s \<and> xs_codexRetried s' = xs_codexRetried s"
  by (auto simp: oauth_replay_def Let_def xs_send_def xs_acquire_def xs_release_def split: if_splits)

lemma claude_flags: "claude_recovery env u a s = Inr (a', s') \<Longrightarrow> a' = a \<or> xs_claudeRetried s'"
  by (auto simp: claude_recovery_def split: if_splits dest: oauth_replay_flags)

lemma codex_flags:
  assumes "codex_recovery env u a s = Inr (b, a', s')"
  shows "(a' = a \<or> xs_codexRetried s') \<and> (xs_claudeRetried s \<longrightarrow> xs_claudeRetried s')"
proof (cases "up_Provider u = ''codex'' \<and> is_auth_error a \<and> \<not> xs_codexRetried s")
  case True
  then show ?thesis using assms
    by (cases "oauth_replay env u a (s\<lparr>xs_codexRetried := True\<rparr>)") (auto simp: codex_recovery_def dest: oauth_replay_flags)
next
  case False
  then have "codex_recovery env u a s = Inr (False, a, s)" by (simp only: codex_recovery_def if_False)
  then show ?thesis using assms by simp
qed

lemma encrypted_flags:
  "encrypted_recovery env u a s = (b, a', s') \<Longrightarrow>
     (a' = a \<or> xs_encryptedRetried s') \<and> xs_claudeRetried s' = xs_claudeRetried s \<and> xs_codexRetried s' = xs_codexRetried s"
  by (auto simp: encrypted_recovery_def Let_def xs_send_def xs_acquire_def xs_release_def split: if_splits)

lemma recoveries_flags:
  assumes "recoveries env u a s = Inr (b, a', s')"
  shows "a' = a \<or> 0 < recoveries_used s'"
proof -
  obtain a1 s1 c a2 s2 d where st: "claude_recovery env u a s = Inr (a1, s1)" "codex_recovery env u a1 s1 = Inr (c, a2, s2)"
      "encrypted_recovery env u a2 s2 = (d, a', s')"
    using assms by (auto simp: recoveries_def split: sum.splits prod.splits)
  show ?thesis using claude_flags[OF st(1)] codex_flags[OF st(2)] encrypted_flags[OF st(3)]
    by (auto simp: recoveries_used_def)
qed

lemma finish_replayed: "finish_attempt env grp c todo cap a s = Some (Finished (Committed c' a'), s') \<Longrightarrow>
  c' = c \<and> (\<exists>t cap'. (Committed c a', s') = commit_attempt env c cap' a' t \<and> (cap \<longrightarrow> cap') \<and> (a' = a \<or> 0 < recoveries_used t))"
proof (cases "recoveries env (sel_Upstream c) a s")
  case (Inl p)
  moreover have "fst p \<noteq> Committed c' a'"
  proof -
    have o: "oauth_replay env u x s1 = Inl (r, t) \<Longrightarrow> r = AuthFailed (answer_status x)" for u x s1 r t
      by (auto simp: oauth_replay_def Let_def split: if_splits)
    have "claude_recovery env u x s1 = Inl q \<Longrightarrow> \<exists>y. fst q = AuthFailed y" for u x s1 q
      by (cases q) (auto simp: claude_recovery_def split: if_splits dest!: o)
    moreover have "codex_recovery env u x s1 = Inl q \<Longrightarrow> \<exists>y. fst q = AuthFailed y" for u x s1 q
      using o[of u x "s1\<lparr>xs_codexRetried := True\<rparr>"]
      by (cases "oauth_replay env u x (s1\<lparr>xs_codexRetried := True\<rparr>)"; cases q) (auto simp: codex_recovery_def split: if_splits dest!: o)
    ultimately show ?thesis using Inl by (fastforce simp: recoveries_def split: sum.splits prod.splits)
  qed
  moreover assume "finish_attempt env grp c todo cap a s = Some (Finished (Committed c' a'), s')"
  ultimately show ?thesis by (cases p) (simp add: finish_attempt_def)
next
  case (Inr p)
  assume f: "finish_attempt env grp c todo cap a s = Some (Finished (Committed c' a'), s')"
  obtain b a1 s1 where p: "p = (b, a1, s1)" by (cases p)
  have fl: "a1 = a \<or> 0 < recoveries_used s1" by (rule recoveries_flags[OF Inr[unfolded p]])
  have ca: "c' = c \<and> a' = a1" if "(Committed c' a', s') = commit_attempt env c k a1 t" for k t
    using commit_frame[of env c k a1 t] that by (metis exec_result.inject(1) fst_conv)
  show ?thesis
  proof (cases b)
    case False
    then have "(Committed c' a', s') = commit_attempt env c cap a1 s1"
      using f Inr p by (cases "commit_attempt env c cap a1 s1") (simp add: finish_attempt_def)
    from ca[OF this] this show ?thesis using fl by blast
  next
    case True
    obtain d rt added s2 where h: "handleCodexCapacity env grp (sel_Upstream c) todo a1 s1 = Some (d, rt, added, s2)"
      using f Inr p True by (auto simp: finish_attempt_def split: option.splits)
    have "\<not> rt" using f Inr p True h by (auto simp: finish_attempt_def)
    then have "(Committed c' a', s') = commit_attempt env c (cap \<or> d) a1 s2"
      using f Inr p True h by (cases "commit_attempt env c (cap \<or> d) a1 s2") (simp add: finish_attempt_def)
    from ca[OF this] this show ?thesis using fl handle_used[OF h] by metis
  qed
qed


text \<open>What holds when the loop commits an answer.\<close>
definition committed_ok :: "exec_env \<Rightarrow> RetryPolicy option \<Rightarrow> SelectedUpstream \<Rightarrow> answer \<Rightarrow> exec_state \<Rightarrow> bool" where
  "committed_ok env policy c a s' =
     (\<exists>t cap. (Committed c a, s') = commit_attempt env c cap a t
        \<and> (cap \<or> 0 < recoveries_used t \<or> \<not> evaluateResponse a policy))"

lemma attempt_committed:
  assumes "attempt env grp policy c todo s = Some (Finished (Committed c' a), s')"
  shows "c' = c \<and> committed_ok env policy c a s'"
proof -
  let ?u = "sel_Upstream c" and ?uid = "up_ID (sel_Upstream c)"
  define s0 where "s0 = s\<lparr>xs_attempted := xs_attempted s @ [?uid], xs_Attempt := int (length (xs_attempted s)) + 1\<rparr>"
  obtain a0 s1 where send: "xs_send env ?u (xs_acquire ?uid s0) = (a0, s1)" by (cases "xs_send env ?u (xs_acquire ?uid s0)")
  have pc: "ee_prepare env c" "ee_client env ?u"
    using assms by (auto simp: attempt_def Let_def split: if_splits)
  have unf: "attempt env grp policy c todo s =
      (case handleCodexCapacity env grp ?u todo a0 s1 of
              None \<Rightarrow> None
            | Some (detected, retry, added, s2) \<Rightarrow>
                if retry then Some (NextCandidate (todo @ added), s2)
                else if \<not> detected \<and> evaluateResponse a0 policy then
                  (let s3 = s2\<lparr>xs_RetryReason := retryReason a0\<rparr>;
                       s4 = (if todo = [] then markRetryExhausted s3 else markRetryableAttempt (retryReason a0) s3)
                   in Some (NextCandidate todo, xs_error env ?uid (xs_release ?uid s4)))
                else finish_attempt env grp c todo detected a0 s2)"
    using pc send unfolding attempt_def Let_def s0_def by simp
  obtain d rt added s2 where h: "handleCodexCapacity env grp ?u todo a0 s1 = Some (d, rt, added, s2)"
    using assms unfolding unf by (auto split: option.splits)
  have fin: "finish_attempt env grp c todo d a0 s2 = Some (Finished (Committed c' a), s')" "d \<or> \<not> evaluateResponse a0 policy"
    using assms h unfolding unf by (auto simp: Let_def split: if_splits)
  from finish_replayed[OF fin(1)] fin(2) show ?thesis unfolding committed_ok_def by blast
qed

lemma exec_loop_committed:
  "exec_loop env grp policy todo s = Some (Committed c a, s') \<Longrightarrow> committed_ok env policy c a s'"
proof (induction env grp policy todo s rule: exec_loop.induct)
  case (1 env grp policy s) then show ?case by simp
next
  case (2 env grp policy c0 todo s)
  show ?case
  proof (cases "attempt env grp policy c0 todo s")
    case None then show ?thesis using 2 by simp
  next
    case (Some p)
    obtain r t where p: "p = (r, t)" by force
    show ?thesis
    proof (cases r)
      case (NextCandidate todo') then show ?thesis using 2 Some p by simp
    next
      case (Finished x)
      then have "attempt env grp policy c0 todo s = Some (Finished (Committed c a), s')" using 2(2) Some p by simp
      then show ?thesis using attempt_committed by blast
    qed
  qed
qed

lemma commit_state:
  assumes "(Committed c a, s') = commit_attempt env c cap a t"
  shows "xs_CodexCapacityError s' = cap" "recoveries_used s' = recoveries_used t"
    "ee_session env \<noteq> '''' \<Longrightarrow> ee_model env \<noteq> '''' \<Longrightarrow> answer_ok a cap \<Longrightarrow>
       rt_sessionMap (xs_router s') (ee_session env, ee_model env) = Some \<lparr>sb_upstreamID = sel_id c, sb_usedAt = ee_now env\<rparr>"
    "\<not> answer_ok a cap \<Longrightarrow> rt_sessionMap (xs_router s') = rt_sessionMap (xs_router t)"
proof -
  have s': "s' = snd (commit_attempt env c cap a t)" using assms by (metis snd_conv)
  show "xs_CodexCapacityError s' = cap" "recoveries_used s' = recoveries_used t"
    unfolding s' by (simp_all add: commit_attempt_def Let_def recoveries_used_def xs_release_def xs_error_def xs_success_def)
  show "ee_session env \<noteq> '''' \<Longrightarrow> ee_model env \<noteq> '''' \<Longrightarrow> answer_ok a cap \<Longrightarrow>
       rt_sessionMap (xs_router s') (ee_session env, ee_model env) = Some \<lparr>sb_upstreamID = sel_id c, sb_usedAt = ee_now env\<rparr>"
    unfolding s' by (simp add: commit_attempt_def Let_def xs_release_def xs_success_def BindSession_def)
  show "\<not> answer_ok a cap \<Longrightarrow> rt_sessionMap (xs_router s') = rt_sessionMap (xs_router t)"
    unfolding s' by (simp add: commit_attempt_def Let_def xs_release_def xs_error_def)
qed


section \<open>Properties of Execute\<close>

text \<open>The group of a request, and the balancer picks its retry loop may need.\<close>
definition can_serve :: "exec_env \<Rightarrow> Router \<Rightarrow> resolvedGroup \<Rightarrow> bool" where
  "can_serve env r grp =
     (group_ok (ee_draws env) r grp \<and> members_fit grp
      \<and> bal_ready (ee_draws env) (nat (select_count grp) + 2 * length (rg_members grp) * length (rg_members grp)) (group_balancer r grp))"

lemma Execute_serves:
  assumes "Match r p (ee_model env) (ee_kind env) client = Inr grp" and "ee_ws env = None" and "can_serve env r grp"
  shows "\<exists>res s'. Execute cfg env r m p client = Some (res, s') \<and> distinct (xs_attempted s')
    \<and> set (xs_attempted s') \<subseteq> group_ids grp
    \<and> length (xs_attempted s') \<le> length (rg_members grp) \<and> xs_calls s' \<le> length (xs_attempted s') + 3"
proof -
  let ?M = "length (rg_members grp)"
  have ok: "group_ok (ee_draws env) r grp" "members_fit grp" using assms(3) by (simp_all add: can_serve_def)
  obtain cs r' where sel: "SelectWithRetry (ee_draws env) r grp (ee_session env) (ee_model env) (ee_now env) = Some (cs, r')"
    using SelectWithRetry_some[OF ok(1)] by blast
  have cand: "exec_candidates env r grp = Some (Inr (grp, cs, r'))" using assms(2) sel by (simp add: exec_candidates_def)
  have cs: "distinct (map sel_id cs)" "sel_id ` set cs \<subseteq> group_ids grp" using SelectWithRetry_members[OF ok(1) sel] by simp_all
  have card: "card (group_ids grp) \<le> ?M" by (simp add: group_ids_def card_length le_trans[OF card_image_le])
  have fin: "finite (group_ids grp)" by (simp add: group_ids_def)
  have "length cs = card (sel_id ` set cs)" using cs(1) by (metis distinct_card length_map list.set_map)
  then have "loop_measure grp cs (exec_start r' m) = card (group_ids grp)"
    using cs(2) fin by (simp add: loop_measure_def) (metis card_Diff_subset card_mono finite_subset le_add_diff_inverse)
  then have meas: "2 * ?M * loop_measure grp cs (exec_start r' m) \<le> 2 * ?M * ?M" using card by simp
  have "bal_ready (ee_draws env) (2 * ?M * ?M) (group_balancer r' grp)"
    using SelectWithRetry_ready[OF sel ok(1)] assms(3) by (simp add: can_serve_def)
  then have "ready_for env grp (2 * ?M * ?M) (exec_start r' m)" by (simp add: ready_for_def exec_start_def)
  then have "ready_for env grp (2 * ?M * loop_measure grp cs (exec_start r' m)) (exec_start r' m)"
    using meas ready_for_less by (metis le_add_diff_inverse2)
  then obtain res s' where loop: "exec_loop env grp (grp_RetryPolicy (rg_group grp)) cs (exec_start r' m) = Some (res, s')"
    using exec_loop_ready[OF ok(2)] by blast
  have bounds: "distinct (xs_attempted t) \<and> set (xs_attempted t) \<subseteq> group_ids grp
      \<and> length (xs_attempted t) \<le> ?M \<and> xs_calls t \<le> length (xs_attempted t) + 3"
    if "t = s' \<or> t = exec_start r' m" for t
  proof (cases "t = s'")
    case True
    from exec_loop_frame[OF loop] have a0: "distinct (map sel_id cs) \<longrightarrow> distinct (xs_attempted s')"
        "set (xs_attempted s') \<subseteq> sel_id ` set cs \<union> group_ids grp"
        "xs_calls s' \<le> recoveries_used s' + length (xs_attempted s')"
      by (simp_all add: loop_kept_def)
    have a: "distinct (xs_attempted s')" "set (xs_attempted s') \<subseteq> group_ids grp"
        "xs_calls s' \<le> recoveries_used s' + length (xs_attempted s')"
      using a0 cs by blast+
    have "length (xs_attempted s') \<le> card (group_ids grp)" using a(1,2) fin by (metis card_mono distinct_card)
    then show ?thesis using True a card recoveries_used_le[of s'] by simp
  next
    case False then show ?thesis using that by simp
  qed
  have "\<exists>res s''. Execute cfg env r m p client = Some (res, s'') \<and> (s'' = s' \<or> s'' = exec_start r' m)"
    using assms(1) cand loop by (cases "cs = []"; cases "ee_body env") (simp_all add: Execute_def)
  then show ?thesis using bounds by blast
qed


definition exec_group :: resolvedGroup where
  "exec_group = sample_group\<lparr>rg_group := (rg_group sample_group)\<lparr>grp_RetryPolicy := Some \<lparr>MaxRetries = 1, RetryOn = [''5xx''], RetryDelay = 0\<rparr>\<rparr>\<rparr>"

definition exec_router :: Router where
  "exec_router = sample_router\<lparr>rt_routes := [sample_route ''r'' '''' [] 5], rt_groups := [''g'' \<mapsto> exec_group]\<rparr>"

text \<open>The first upstream called answers 503, any later one 200.\<close>
definition exec_sample :: exec_env where
  "exec_sample = \<lparr>ee_prepare = \<lambda>_. True, ee_client = \<lambda>_. True,
     ee_send = \<lambda>n u. if n = 0 then Resp 503 [] else Resp 200 [], ee_capacity = \<lambda>_. False, ee_refresh = \<lambda>_. True,
     ee_invalidEncrypted = \<lambda>_. False, ee_strip = False, ee_completes = \<lambda>_ _. True, ee_ws = None, ee_wsEstablished = \<lambda>_. False, ee_multipart = False,
     ee_body = Some 10, ee_kind = ''anthropic_messages'', ee_session = ''s'', ee_model = ''m'', ee_draws = \<lambda>_ _. 0, ee_now = 7\<rparr>"

lemma exec_group_simps [simp]:
  "rg_members exec_group = rg_members sample_group" "grp_ID (rg_group exec_group) = ''g''"
  "grp_RetryPolicy (rg_group exec_group) = Some \<lparr>MaxRetries = 1, RetryOn = [''5xx''], RetryDelay = 0\<rparr>"
  "grp_LBPolicy (rg_group exec_group) = ''least_conn''"
  by (simp_all add: exec_group_def sample_group_def)

lemma exec_sample_match [simp]: "Match exec_router '''' (ee_model exec_sample) (ee_kind exec_sample) ''other'' = Inr exec_group"
  by (simp add: Match_def exec_router_def match_step_def matchesGlobalRoute_def consider_route_def sample_route_def exec_sample_def
      sample_router_def NewRouter_def buildMaps_def Let_def)

lemma exec_sample_serves [simp]: "can_serve exec_sample exec_router exec_group"
  by (simp add: can_serve_def group_ok_def exec_router_def sample_group_def sample_router_def NewRouter_def buildMaps_def Let_def
      select_count_def sample_upstream_def bal_ready_def group_balancer_def NewBalancer_def int64_max_def weights_fit_def
      members_fit_def build_candidates_def eligible_def candidate_of_def effective_weight_def)



lemma Execute_counts:
  assumes "Execute cfg env r m p client = Some (res, s')"
    and "\<forall>v. 0 \<le> conn_count (rt_connTracker r) v \<and> conn_count (rt_connTracker r) v < int64_max"
  shows "conn_count (rt_connTracker (xs_router s')) = held_after env res (conn_count (rt_connTracker r))"
  using assms(1)
proof (cases rule: Execute_cases)
  case (early r')
  then show ?thesis by (cases res) (simp_all add: exec_start_def held_after_def)
next
  case (loop grp grp' cs r')
  from exec_loop_frame[OF loop(5)] loop(3) assms(2)
  have "conn s' = held_after env res (conn_count (rt_connTracker r'))" by (simp add: loop_kept_def)
  then show ?thesis using loop(3) by (simp add: conn_def)
qed


lemma exec_sample_counts: "conn_count (rt_connTracker exec_router) = (\<lambda>_. 0)"
  by (simp add: fun_eq_iff conn_count_def Count_def getOrCreate_def exec_router_def sample_router_def NewRouter_def buildMaps_def Let_def)


text \<open>What a committed answer means: it is never one the group's retry policy retries, unless it is a
  capacity error without a fallback or follows a same-upstream recovery (whose answer the policy does
  not see); and when it counts as a success - status below 500, no capacity error - the session is bound
  to the upstream that gave it, at the time of the request.\<close>
lemma committed_answer:
  assumes "Execute cfg env r m p client = Some (Committed c a, s')"
  shows "\<exists>grp. Match r p (ee_model env) (ee_kind env) client = Inr grp
      \<and> (xs_CodexCapacityError s' \<or> 0 < recoveries_used s' \<or> \<not> evaluateResponse a (grp_RetryPolicy (rg_group grp)))
      \<and> (ee_session env \<noteq> '''' \<and> ee_model env \<noteq> '''' \<and> answer_ok a (xs_CodexCapacityError s') \<longrightarrow>
          rt_sessionMap (xs_router s') (ee_session env, ee_model env)
            = Some \<lparr>sb_upstreamID = up_ID (sel_Upstream c), sb_usedAt = ee_now env\<rparr>)"
proof -
  obtain grp grp' cs r' where l: "Match r p (ee_model env) (ee_kind env) client = Inr grp"
      "exec_candidates env r grp = Some (Inr (grp', cs, r'))"
      "exec_loop env grp' (grp_RetryPolicy (rg_group grp')) cs (exec_start r' m) = Some (Committed c a, s')"
    using assms by (cases rule: Execute_cases) simp_all
  have pol: "rg_group grp' = rg_group grp"
    using l(2) by (auto simp: exec_candidates_def ws_filter_def Let_def split: option.splits sum.splits if_splits)
  obtain t cap where c: "(Committed c a, s') = commit_attempt env c cap a t"
      "cap \<or> 0 < recoveries_used t \<or> \<not> evaluateResponse a (grp_RetryPolicy (rg_group grp'))"
    using exec_loop_committed[OF l(3)] unfolding committed_ok_def by blast
  note st = commit_state[OF c(1)]
  show ?thesis using l(1) c(2) pol st(1,2,3) by (auto simp: sel_id_def)
qed


lemma exec_sample_result:
  "case Execute \<lparr>ec_maxBodySize = 100, ec_imagesMaxBodySize = 0\<rparr> exec_sample exec_router Map.empty '''' ''other'' of
     Some (Committed c a, s') \<Rightarrow> sel_id c = ''a'' \<and> a = Resp 200 [] \<and> \<not> xs_CodexCapacityError s' \<and> recoveries_used s' = 0
   | _ \<Rightarrow> False"
  by code_simp

text \<open>After the 503 of the first upstream the second one's 200 is committed, and the session moves to it.\<close>
lemma committed_answer_witness:
  "\<exists>c s'. Execute \<lparr>ec_maxBodySize = 100, ec_imagesMaxBodySize = 0\<rparr> exec_sample exec_router Map.empty '''' ''other''
      = Some (Committed c (Resp 200 []), s')
    \<and> \<not> evaluateResponse (Resp 200 []) (grp_RetryPolicy (rg_group exec_group))
    \<and> rt_sessionMap (xs_router s') (''s'', ''m'') = Some \<lparr>sb_upstreamID = ''a'', sb_usedAt = 7\<rparr>"
proof -
  obtain c s' where e: "Execute \<lparr>ec_maxBodySize = 100, ec_imagesMaxBodySize = 0\<rparr> exec_sample exec_router Map.empty '''' ''other''
      = Some (Committed c (Resp 200 []), s')" and c: "sel_id c = ''a''" "\<not> xs_CodexCapacityError s'" "recoveries_used s' = 0"
    using exec_sample_result by (auto split: option.splits prod.splits exec_result.splits)
  have "ee_session exec_sample = ''s''" "ee_model exec_sample = ''m''" "ee_now exec_sample = 7" by (simp_all add: exec_sample_def)
  then show ?thesis using committed_answer[OF e] e c exec_sample_match by (auto simp: answer_ok_def sel_id_def)
qed

end
