(* ===== verification/RequestLog.thy ===== *)
theory RequestLog
  imports Types
begin

text \<open>
  The log of requests: the struct of types/request.go, the statements of store/requests.go that write the
  table requests. A text column that may be NULL is the empty string, as the queries read it. Metadata is a map without an
  order; the listing queries are not modelled.
\<close>

section \<open>Rows (types/request.go)\<close>

record Request =
  req_ProjectID :: string
  req_APIKeyID :: string
  req_OAuthGrantID :: string
  req_TraceID :: string
  req_MsgID :: string
  req_Provider :: string
  req_RequestKind :: string
  req_Model :: string
  req_Streaming :: bool
  req_Status :: string
  req_RetryStatus :: string
  req_Usage :: TokenUsage
  req_CreditsConsumed :: float64
  req_LatencyMs :: int
  req_ClientIP :: string
  req_ErrorMessage :: string
  req_CreatedBy :: string
  req_UpstreamID :: string
  req_Attempt :: int
  req_RetryReason :: string
  req_Metadata :: "string \<rightharpoonup> string"
  req_IsExtraUsage :: bool
  req_ExtraUsageCostCredits :: int
  req_ExtraUsageReason :: string
  req_HttpLogPath :: string

definition no_tokens :: TokenUsage where
  "no_tokens = \<lparr>tu_InputTokens = 0, tu_OutputTokens = 0, tu_CacheCreationTokens = 0, tu_CacheReadTokens = 0\<rparr>"

text \<open>The zero value of the struct.\<close>
definition zero_request :: Request where
  "zero_request = \<lparr>req_ProjectID = '''', req_APIKeyID = '''', req_OAuthGrantID = '''', req_TraceID = '''', req_MsgID = '''',
     req_Provider = '''', req_RequestKind = '''', req_Model = '''', req_Streaming = False, req_Status = '''', req_RetryStatus = '''',
     req_Usage = no_tokens, req_CreditsConsumed = 0, req_LatencyMs = 0, req_ClientIP = '''', req_ErrorMessage = '''',
     req_CreatedBy = '''', req_UpstreamID = '''', req_Attempt = 0, req_RetryReason = '''', req_Metadata = Map.empty,
     req_IsExtraUsage = False, req_ExtraUsageCostCredits = 0, req_ExtraUsageReason = '''', req_HttpLogPath = ''''\<rparr>"

type_synonym request_table = "string \<rightharpoonup> Request"

section \<open>The statements (store/requests.go)\<close>

definition normalizeRequestRetryStatus :: "Request \<Rightarrow> Request" where
  "normalizeRequestRetryStatus r =
     (if req_RetryStatus r \<noteq> '''' then r
      else if req_Status r = ''success'' \<or> req_Status r = ''processing'' then r\<lparr>req_RetryStatus := ''normal''\<rparr>
      else r\<lparr>req_RetryStatus := ''non_retryable_error''\<rparr>)"

text \<open>What an INSERT of CreateRequest stores: the columns it does not name have their defaults.\<close>
definition created_row :: "Request \<Rightarrow> Request" where
  "created_row r =
     (normalizeRequestRetryStatus r)\<lparr>req_Attempt := 1, req_RetryReason := '''', req_IsExtraUsage := False,
        req_ExtraUsageCostCredits := 0, req_ExtraUsageReason := '''', req_HttpLogPath := ''''\<rparr>"

text \<open>CreateRequest under the id the database gives the row; None: the database refused it.\<close>
definition CreateRequest :: "string option \<Rightarrow> request_table \<Rightarrow> Request \<Rightarrow> string option \<times> request_table" where
  "CreateRequest newID tab r =
     (case newID of None \<Rightarrow> (None, tab) | Some i \<Rightarrow> (Some i, tab(i \<mapsto> created_row r)))"

definition completed_row :: "Request \<Rightarrow> Request \<Rightarrow> Request" where
  "completed_row row r0 =
     (let r = normalizeRequestRetryStatus r0 in
      row\<lparr>req_Status := req_Status r, req_MsgID := req_MsgID r, req_Usage := req_Usage r,
          req_CreditsConsumed := req_CreditsConsumed r, req_LatencyMs := req_LatencyMs r,
          req_ErrorMessage := req_ErrorMessage r, req_ClientIP := req_ClientIP r,
          req_UpstreamID := (if req_UpstreamID r \<noteq> '''' then req_UpstreamID r else req_UpstreamID row),
          req_Provider := (if req_Provider r \<noteq> '''' then req_Provider r else req_Provider row),
          req_Attempt := (if req_Attempt r > 0 then req_Attempt r else req_Attempt row),
          req_RetryReason := req_RetryReason r, req_IsExtraUsage := req_IsExtraUsage r,
          req_ExtraUsageCostCredits := req_ExtraUsageCostCredits r, req_ExtraUsageReason := req_ExtraUsageReason r,
          req_RetryStatus := req_RetryStatus r,
          req_Metadata := req_Metadata row ++ req_Metadata r\<rparr>)"

text \<open>An UPDATE of a row that is not there changes nothing and is no error.\<close>
definition CompleteRequest :: "request_table \<Rightarrow> string \<Rightarrow> Request \<Rightarrow> request_table" where
  "CompleteRequest tab i r = (case tab i of None \<Rightarrow> tab | Some row \<Rightarrow> tab(i \<mapsto> completed_row row r))"

definition UpdateRequestUpstream :: "request_table \<Rightarrow> string \<Rightarrow> string \<Rightarrow> string \<Rightarrow> int \<Rightarrow> request_table" where
  "UpdateRequestUpstream tab i upstreamID provider attempt =
     (case tab i of None \<Rightarrow> tab
      | Some row \<Rightarrow>
          if req_Status row \<noteq> ''processing'' then tab
          else tab(i \<mapsto> row\<lparr>req_UpstreamID := upstreamID, req_Provider := provider, req_Attempt := attempt\<rparr>))"

definition UpdateHttpLogPath :: "request_table \<Rightarrow> string \<Rightarrow> string \<Rightarrow> request_table" where
  "UpdateHttpLogPath tab i path = (case tab i of None \<Rightarrow> tab | Some row \<Rightarrow> tab(i \<mapsto> row\<lparr>req_HttpLogPath := path\<rparr>))"

text \<open>What BatchCreateRequests stores of a record: the extra-usage columns are not among those it names.\<close>
definition batch_row :: "Request \<Rightarrow> Request" where
  "batch_row r0 =
     (let r = normalizeRequestRetryStatus r0 in
      r\<lparr>req_Attempt := (if req_Attempt r \<le> 0 then 1 else req_Attempt r), req_IsExtraUsage := False,
        req_ExtraUsageCostCredits := 0, req_ExtraUsageReason := '''', req_HttpLogPath := ''''\<rparr>)"

text \<open>One transaction: the rows are inserted one by one under the ids the database gives; at the first that it
  refuses all are rolled back.\<close>
fun batch_insert :: "string option list \<Rightarrow> request_table \<Rightarrow> Request list \<Rightarrow> request_table option" where
  "batch_insert ids tab [] = Some tab"
| "batch_insert (Some i # ids) tab (r # rs) = batch_insert ids (tab(i \<mapsto> batch_row r)) rs"
| "batch_insert _ tab (r # rs) = None"

definition BatchCreateRequests :: "string option list \<Rightarrow> request_table \<Rightarrow> Request list \<Rightarrow> bool \<times> request_table" where
  "BatchCreateRequests ids tab rs =
     (case batch_insert ids tab rs of None \<Rightarrow> (False, tab) | Some tab' \<Rightarrow> (True, tab'))"

section \<open>The life of a row\<close>

definition final_status :: "string \<Rightarrow> bool" where
  "final_status s \<longleftrightarrow> s = ''success'' \<or> s = ''error'' \<or> s = ''rate_limited''"

text \<open>What happens to the row of a request after its creation, in any order and any number of times.\<close>
inductive row_step :: "string \<Rightarrow> request_table \<Rightarrow> request_table \<Rightarrow> bool" for i where
  upstream: "row_step i tab (UpdateRequestUpstream tab i u p n)"
| complete: "final_status (req_Status r) \<Longrightarrow> row_step i tab (CompleteRequest tab i r)"
| log_path: "row_step i tab (UpdateHttpLogPath tab i path)"
| other_row: "j \<noteq> i \<Longrightarrow> tab' i = tab i \<Longrightarrow> row_step i tab tab'"

inductive_cases row_step_cases: "row_step i tab tab'"

inductive row_steps :: "string \<Rightarrow> request_table \<Rightarrow> request_table \<Rightarrow> bool" for i where
  refl: "row_steps i tab tab"
| step: "row_steps i tab tab1 \<Longrightarrow> row_step i tab1 tab2 \<Longrightarrow> row_steps i tab tab2"

lemmas row_op_defs = UpdateRequestUpstream_def CompleteRequest_def UpdateHttpLogPath_def

lemma normalized_status [simp]: "req_Status (normalizeRequestRetryStatus r) = req_Status r"
  by (simp add: normalizeRequestRetryStatus_def)

lemma normalized_retry [simp]: "req_RetryStatus (normalizeRequestRetryStatus r) \<noteq> ''''"
  by (simp add: normalizeRequestRetryStatus_def)

lemma normalized_idem [simp]: "normalizeRequestRetryStatus (normalizeRequestRetryStatus r) = normalizeRequestRetryStatus r"
  by (simp add: normalizeRequestRetryStatus_def)

lemma completed_row_simps [simp]:
  "req_Status (completed_row row r) = req_Status r" "req_RetryStatus (completed_row row r) \<noteq> ''''"
  "req_Model (completed_row row r) = req_Model row" "req_ProjectID (completed_row row r) = req_ProjectID row"
  "req_CreatedBy (completed_row row r) = req_CreatedBy row" "req_RequestKind (completed_row row r) = req_RequestKind row"
  by (simp_all add: completed_row_def Let_def)

text \<open>What a row keeps once it is there.\<close>
definition row_ok :: "Request \<Rightarrow> Request \<Rightarrow> bool" where
  "row_ok row0 row \<longleftrightarrow>
     (req_Status row = ''processing'' \<or> final_status (req_Status row)) \<and> req_RetryStatus row \<noteq> ''''
     \<and> req_Model row = req_Model row0 \<and> req_ProjectID row = req_ProjectID row0 \<and> req_CreatedBy row = req_CreatedBy row0
     \<and> req_RequestKind row = req_RequestKind row0
     \<and> (final_status (req_Status row0) \<longrightarrow> final_status (req_Status row))"

lemma row_step_ok:
  assumes "row_step i tab tab'" and "tab i = Some row" and "row_ok row0 row"
  obtains row' where "tab' i = Some row'" "row_ok row0 row'" "final_status (req_Status row) \<Longrightarrow> final_status (req_Status row')"
  using assms by cases (auto simp: row_op_defs row_ok_def split: if_splits)

lemma row_steps_ok:
  assumes "row_steps i tab tab'" and "tab i = Some row" and "row_ok row row"
  obtains row' where "tab' i = Some row'" "row_ok row row'"
  using assms
proof (induction arbitrary: thesis rule: row_steps.induct)
  case (step tab tab1 tab2)
  then obtain row1 where "tab1 i = Some row1" "row_ok row row1" by blast
  then show ?case using row_step_ok[OF step.hyps(2)] step.prems(1) by metis
qed blast


definition log_sample :: Request where
  "log_sample = zero_request\<lparr>req_Model := ''m'', req_Status := ''processing''\<rparr>"


text \<open>A record that reaches the table through the collector has lost its extra-usage attribution.\<close>
lemma batch_row_drops_extra_usage:
  "\<not> req_IsExtraUsage (batch_row r) \<and> req_ExtraUsageCostCredits (batch_row r) = 0 \<and> req_ExtraUsageReason (batch_row r) = ''''"
  by (simp add: batch_row_def Let_def)

lemma batch_all_or_nothing:
  "BatchCreateRequests ids tab rs = (ok, tab') \<Longrightarrow> \<not> ok \<Longrightarrow> tab' = tab"
  by (auto simp: BatchCreateRequests_def split: option.splits)

end
