(* ===== verification/Headers.thy ===== *)
theory Headers
  imports Prelude
begin

text \<open>
  The headers the gateway exchanges with an upstream (executor.go, and the SetUpstream of the provider_*.go
  transformers with the directors they call): what is forwarded of the client's, what the provider sets, the
  allow list applied at the end, and the hop-by-hop headers left out of the answer. A header map is keyed by
  canonical names, as net/http builds it. Parsing URLs, JSON credentials and tokens are arguments; URLs and
  bodies are not modelled here.
\<close>

section \<open>http.Header\<close>

type_synonym headers = "string \<rightharpoonup> string list"

definition upper_char :: "char \<Rightarrow> char" where
  "upper_char c = (if char_in c 97 122 then char_of (of_char c - 32 :: nat) else c)"

definition token_char :: "char \<Rightarrow> bool" where
  "token_char c \<longleftrightarrow> char_in c 48 57 \<or> char_in c 65 90 \<or> char_in c 94 122 \<or> List.member ''!#$%&*+-.|~'' c \<or> c = CHR 0x27"

fun canonical_chars :: "bool \<Rightarrow> string \<Rightarrow> string" where
  "canonical_chars upper [] = []"
| "canonical_chars upper (c # s) = (if upper then upper_char c else lower_char c) # canonical_chars (c = CHR ''-'') s"

text \<open>http.CanonicalHeaderKey; a name with an invalid character is left alone.\<close>
definition CanonicalHeaderKey :: "string \<Rightarrow> string" where
  "CanonicalHeaderKey s = (if list_all token_char s then canonical_chars True s else s)"

definition hdr_Values :: "headers \<Rightarrow> string \<Rightarrow> string list" where
  "hdr_Values h k = (case h (CanonicalHeaderKey k) of None \<Rightarrow> [] | Some vs \<Rightarrow> vs)"

definition hdr_Get :: "headers \<Rightarrow> string \<Rightarrow> string" where
  "hdr_Get h k = (case hdr_Values h k of [] \<Rightarrow> '''' | v # _ \<Rightarrow> v)"

definition hdr_Set :: "headers \<Rightarrow> string \<Rightarrow> string \<Rightarrow> headers" where "hdr_Set h k v = h(CanonicalHeaderKey k \<mapsto> [v])"

definition hdr_Del :: "headers \<Rightarrow> string \<Rightarrow> headers" where "hdr_Del h k = h(CanonicalHeaderKey k := None)"

section \<open>Forwarding and filtering (executor.go)\<close>

definition hopByHopHeaders :: "string list" where
  "hopByHopHeaders = [''Connection'', ''Keep-Alive'', ''Proxy-Authenticate'', ''Proxy-Authorization'', ''Te'', ''Trailers'',
     ''Transfer-Encoding'', ''Upgrade'']"

definition isHopByHopHeader :: "string \<Rightarrow> bool" where
  "isHopByHopHeader k = List.member hopByHopHeaders (CanonicalHeaderKey k)"

text \<open>The response headers that are added to the client's answer.\<close>
definition end_to_end :: "headers \<Rightarrow> headers" where
  "end_to_end h = (\<lambda>k. if isHopByHopHeader k then None else h k)"

definition forwarded_names :: "string list" where
  "forwarded_names = [''Anthropic-Beta'', ''Anthropic-Dangerous-Direct-Browser-Access'', ''Anthropic-Version'', ''Accept'',
     ''Session-Id'', ''Thread-Id'', ''Session_id'', ''Thread_id'', ''User-Agent'', ''X-App'', ''X-Claude-Code-Session-Id'',
     ''X-Client-Request-Id'', ''X-Client-App'', ''X-Anthropic-Additional-Protection'', ''X-Claude-Remote-Container-Id'',
     ''X-Claude-Remote-Session-Id'']"

definition header_family :: "string \<Rightarrow> bool" where
  "header_family k \<longleftrightarrow> list_ex (has_prefix k) [''X-Stainless-'', ''X-Codex-'', ''X-Openai-'', ''X-Oai-'']"

definition forwardClientHeaders :: "headers \<Rightarrow> headers \<Rightarrow> headers" where
  "forwardClientHeaders dst src =
     (let dst1 = foldl (\<lambda>d k. if hdr_Get src k \<noteq> '''' then hdr_Set d k (hdr_Get src k) else d) dst forwarded_names
      in (\<lambda>k. if header_family k \<and> src k \<noteq> None then src k else dst1 k))"

definition allowed_names :: "string list" where
  "allowed_names = [''Content-Type'', ''User-Agent'', ''X-App'', ''Anthropic-Beta'', ''Anthropic-Dangerous-Direct-Browser-Access'',
     ''Anthropic-Version'', ''X-Api-Key'', ''Authorization'', ''X-Claude-Code-Session-Id'', ''X-Client-Request-Id'', ''X-Client-App'',
     ''X-Anthropic-Additional-Protection'', ''X-Claude-Remote-Container-Id'', ''X-Claude-Remote-Session-Id'', ''X-Goog-Api-Key'',
     ''Accept'', ''Openai-Organization'', ''Openai-Project'', ''X-Responsesapi-Include-Timing-Metrics'', ''Chatgpt-Account-Id'',
     ''Originator'', ''Session-Id'', ''Thread-Id'']"

definition header_allowed :: "string \<Rightarrow> bool" where
  "header_allowed k \<longleftrightarrow> List.member allowed_names k \<or> header_family k"

definition sanitizeOutboundHeaders :: "headers \<Rightarrow> headers" where
  "sanitizeOutboundHeaders h = (\<lambda>k. if header_allowed k then h k else None)"

section \<open>Providers\<close>

text \<open>Whether the upstream's URL parses, the field of a JSON credential, the token manager of Vertex, the betas in a
  Vertex body, two random session ids and whether the rewritten path is that of a stream.\<close>
record header_world =
  hw_urlOk :: bool
  hw_json :: "string \<Rightarrow> string \<Rightarrow> string option"
  hw_vertexToken :: "string option"
  hw_vertexBetas :: "string list option"
  hw_sessionIDs :: "string \<times> string"
  hw_streamingPath :: bool

text \<open>strings.Split at commas, trimmed, without the empty pieces.\<close>
fun split_commas :: "string \<Rightarrow> string list" where
  "split_commas [] = ['''']"
| "split_commas (c # s) =
     (if c = CHR '','' then '''' # split_commas s else (c # hd (split_commas s)) # tl (split_commas s))"

definition splitBetaHeaders :: "string list \<Rightarrow> string list" where
  "splitBetaHeaders vs = filter (\<lambda>b. b \<noteq> '''') (map trim_space (concat (map split_commas vs)))"

fun join_commas :: "string list \<Rightarrow> string" where
  "join_commas [] = ''''"
| "join_commas [x] = x"
| "join_commas (x # xs) = x @ '','' @ join_commas xs"

definition claudeCodeRequiredBetas :: "string list" where "claudeCodeRequiredBetas = [''oauth-2025-04-20'']"

definition claudeCodeExcludedBetas :: "string list" where
  "claudeCodeExcludedBetas = [''fine-grained-tool-streaming-2025-05-14'']"

text \<open>The two loops of mergeClaudeCodeBetaHeaders; the names seen are those merged.\<close>
definition merge_betas :: "string list \<Rightarrow> string list" where
  "merge_betas client =
     (let required = foldl (\<lambda>m b. if List.member m b then m else m @ [b]) [] claudeCodeRequiredBetas
      in foldl (\<lambda>m b. if List.member m b \<or> List.member claudeCodeExcludedBetas b then m else m @ [b]) required client)"

definition mergeClaudeCodeBetaHeaders :: "headers \<Rightarrow> headers" where
  "mergeClaudeCodeBetaHeaders h =
     hdr_Set h ''Anthropic-Beta'' (join_commas (merge_betas (splitBetaHeaders (hdr_Values h ''Anthropic-Beta''))))"

definition directorSetUpstream :: "string \<Rightarrow> headers \<Rightarrow> headers" where
  "directorSetUpstream apiKey h = hdr_Set (hdr_Set h ''x-api-key'' apiKey) ''anthropic-version'' ''2023-06-01''"

definition directorSetOpenAIUpstream :: "string \<Rightarrow> headers \<Rightarrow> headers" where
  "directorSetOpenAIUpstream apiKey h = hdr_Set h ''Authorization'' (''Bearer '' @ apiKey)"

definition directorSetClaudeCodeUpstream :: "string \<Rightarrow> headers \<Rightarrow> headers" where
  "directorSetClaudeCodeUpstream accessToken h =
     (let h1 = hdr_Set (hdr_Set (hdr_Del h ''x-api-key'') ''Authorization'' (''Bearer '' @ accessToken)) ''Connection'' ''keep-alive'';
          h2 = mergeClaudeCodeBetaHeaders h1;
          h3 = (if hdr_Get h2 ''Anthropic-Version'' = '''' then hdr_Set h2 ''Anthropic-Version'' ''2023-06-01'' else h2)
      in hdr_Set (hdr_Set h3 ''Anthropic-Dangerous-Direct-Browser-Access'' ''true'') ''X-App'' ''cli'')"

definition migrateCodexLegacySessionHeader :: "string \<Rightarrow> string \<Rightarrow> headers \<Rightarrow> headers" where
  "migrateCodexLegacySessionHeader legacy modern h =
     (let val = hdr_Get h legacy in
      if val = '''' then h
      else let h1 = hdr_Del h legacy in if hdr_Get h1 modern = '''' then hdr_Set h1 modern val else h1)"

definition fill_header :: "string \<Rightarrow> string \<Rightarrow> headers \<Rightarrow> headers" where
  "fill_header k v h = (if hdr_Get h k = '''' then hdr_Set h k v else h)"

definition directorSetCodexUpstream :: "header_world \<Rightarrow> string \<Rightarrow> string \<Rightarrow> headers \<Rightarrow> headers" where
  "directorSetCodexUpstream w accessToken accountID h =
     (let h1 = hdr_Set (hdr_Del h ''x-api-key'') ''Authorization'' (''Bearer '' @ accessToken);
          h2 = (if accountID \<noteq> '''' then hdr_Set h1 ''ChatGPT-Account-ID'' accountID else h1);
          h3 = hdr_Set (hdr_Set h2 ''User-Agent'' ''codex_cli_rs/0.144.1 (Linux; x64) Codex'') ''Originator'' ''codex_cli_rs'';
          h4 = migrateCodexLegacySessionHeader ''thread_id'' ''thread-id'' (migrateCodexLegacySessionHeader ''session_id'' ''session-id'' h3);
          h5 = fill_header ''thread-id'' (snd (hw_sessionIDs w)) (fill_header ''session-id'' (fst (hw_sessionIDs w)) h4)
      in if hw_streamingPath w then fill_header ''Accept'' ''text/event-stream'' h5 else h5)"

definition directorSetGeminiUpstream :: "header_world \<Rightarrow> string \<Rightarrow> headers \<Rightarrow> headers" where
  "directorSetGeminiUpstream w apiKey h =
     (if \<not> hw_urlOk w then hdr_Set h ''x-goog-api-key'' apiKey
      else hdr_Del (hdr_Del (hdr_Del (hdr_Set h ''x-goog-api-key'' apiKey) ''x-api-key'') ''anthropic-version'') ''anthropic-beta'')"

text \<open>directorSetVertexAnthropicUpstream and directorSetVertexGoogleUpstream set the same headers.\<close>
definition directorSetVertexUpstream :: "header_world \<Rightarrow> string \<Rightarrow> headers \<Rightarrow> headers" where
  "directorSetVertexUpstream w accessToken h =
     (let h1 = hdr_Set h ''Authorization'' (''Bearer '' @ accessToken) in
      if \<not> hw_urlOk w then h1 else hdr_Del (hdr_Del (hdr_Del h1 ''x-api-key'') ''anthropic-version'') ''anthropic-beta'')"

definition directorSetVertexOpenAIUpstream :: "header_world \<Rightarrow> string \<Rightarrow> headers \<Rightarrow> headers" where
  "directorSetVertexOpenAIUpstream w accessToken h =
     (let h1 = hdr_Set h ''Authorization'' (''Bearer '' @ accessToken) in
      if \<not> hw_urlOk w then h1
      else hdr_Del (hdr_Del (hdr_Del (hdr_Del h1 ''x-api-key'') ''x-goog-api-key'') ''anthropic-version'') ''anthropic-beta'')"

definition directorSetBedrockUpstream :: "header_world \<Rightarrow> string \<Rightarrow> headers \<Rightarrow> headers option" where
  "directorSetBedrockUpstream w apiKey h =
     (if \<not> hw_urlOk w then None
      else Some (hdr_Set (hdr_Del (hdr_Del (hdr_Del h ''x-api-key'') ''anthropic-version'') ''anthropic-beta'') ''Authorization'' (''Bearer '' @ apiKey)))"

definition directorSetBedrockOpenAIUpstream :: "header_world \<Rightarrow> string \<Rightarrow> headers \<Rightarrow> headers" where
  "directorSetBedrockOpenAIUpstream w apiKey h =
     (let h1 = hdr_Set h ''Authorization'' (''Bearer '' @ apiKey) in
      if \<not> hw_urlOk w then h1
      else hdr_Del (hdr_Del (hdr_Del (hdr_Del h1 ''x-api-key'') ''anthropic-version'') ''anthropic-beta'') ''x-goog-api-key'')"

definition ParseClaudeCodeAccessToken :: "header_world \<Rightarrow> string \<Rightarrow> string" where
  "ParseClaudeCodeAccessToken w raw = the_or '''' (hw_json w raw ''access_token'')"

definition ParseCodexAccessTokenAndAccount :: "header_world \<Rightarrow> string \<Rightarrow> string \<times> string" where
  "ParseCodexAccessTokenAndAccount w raw =
     (if \<not> has_prefix raw ''{'' then (raw, '''')
      else (the_or '''' (hw_json w raw ''access_token''), the_or '''' (hw_json w raw ''chatgpt_account_id'')))"

text \<open>The token a provider authenticates with; None: SetUpstream fails for want of one.\<close>
definition upstream_token :: "header_world \<Rightarrow> string \<Rightarrow> string \<Rightarrow> string option" where
  "upstream_token w provider apiKey =
     (if provider = ''claudecode''
      then Some (if has_prefix apiKey ''{'' \<and> ParseClaudeCodeAccessToken w apiKey \<noteq> '''' then ParseClaudeCodeAccessToken w apiKey else apiKey)
      else if provider = ''codex'' then Some (fst (ParseCodexAccessTokenAndAccount w apiKey))
      else if provider = ''vertex-anthropic'' \<or> provider = ''vertex-google'' \<or> provider = ''vertex-openai'' then hw_vertexToken w
      else Some apiKey)"

definition SetUpstream :: "header_world \<Rightarrow> string \<Rightarrow> string \<Rightarrow> headers \<Rightarrow> headers option" where
  "SetUpstream w provider apiKey h =
     (case upstream_token w provider apiKey of None \<Rightarrow> None
      | Some token \<Rightarrow>
          if provider = ''claudecode'' then Some (directorSetClaudeCodeUpstream token h)
          else if provider = ''codex'' then Some (directorSetCodexUpstream w token (snd (ParseCodexAccessTokenAndAccount w apiKey)) h)
          else if provider = ''openai'' then Some (directorSetOpenAIUpstream token h)
          else if provider = ''gemini'' then Some (directorSetGeminiUpstream w token h)
          else if provider = ''vertex-google'' then Some (directorSetVertexUpstream w token h)
          else if provider = ''vertex-anthropic'' then
            (let h1 = directorSetVertexUpstream w token h in
             Some (case hw_vertexBetas w of None \<Rightarrow> h1
                   | Some bs \<Rightarrow> if bs \<noteq> [] then hdr_Set h1 ''anthropic-beta'' (join_commas bs) else h1))
          else if provider = ''vertex-openai'' then Some (directorSetVertexOpenAIUpstream w token h)
          else if provider = ''bedrock-anthropic'' then directorSetBedrockUpstream w token h
          else if provider = ''bedrock-openai'' then Some (directorSetBedrockOpenAIUpstream w token h)
          else Some (directorSetUpstream token h))"

text \<open>normalize_identity.go: the client's identity is replaced by a fixed one.\<close>
definition normalizeClientIdentity :: "headers \<Rightarrow> headers" where
  "normalizeClientIdentity h =
     (let set = foldl (\<lambda>h (k, v). hdr_Set h k v) h
        [(''User-Agent'', ''claude-cli/2.1.179 (external, cli)''), (''X-App'', ''cli''), (''X-Stainless-Lang'', ''js''),
         (''X-Stainless-Package-Version'', ''0.94.0''), (''X-Stainless-Os'', ''Linux''), (''X-Stainless-Runtime'', ''node''),
         (''X-Stainless-Runtime-Version'', ''v24.3.0''), (''X-Stainless-Arch'', ''x64'')]
      in foldl hdr_Del set [''X-Client-App'', ''X-Claude-Remote-Container-Id'', ''X-Claude-Remote-Session-Id'',
           ''X-Anthropic-Additional-Protection''])"

text \<open>Steps 6c to 6d2 of Execute: the headers of the request that is sent, for an HTTP request or a websocket.\<close>
definition outbound_headers :: "header_world \<Rightarrow> bool \<Rightarrow> bool \<Rightarrow> string \<Rightarrow> string \<Rightarrow> headers \<Rightarrow> headers option" where
  "outbound_headers w ws multipart provider apiKey client =
     (let h0 = hdr_Set Map.empty ''Content-Type'' (if multipart then hdr_Get client ''Content-Type'' else ''application/json'');
          h1 = forwardClientHeaders h0 client;
          h2 = (if ws then foldl hdr_Del client [''Authorization'', ''X-Api-Key'', ''X-Goog-Api-Key'', ''Chatgpt-Account-Id''] else h1)
      in map_option (\<lambda>h. sanitizeOutboundHeaders (if provider = ''claudecode'' then normalizeClientIdentity h else h))
           (SetUpstream w provider apiKey h2))"

section \<open>No client credential goes upstream\<close>

lemma canonical_names [simp]:
  "CanonicalHeaderKey ''x-api-key'' = ''X-Api-Key''" "CanonicalHeaderKey ''x-goog-api-key'' = ''X-Goog-Api-Key''"
  "CanonicalHeaderKey ''Authorization'' = ''Authorization''" "CanonicalHeaderKey ''X-Api-Key'' = ''X-Api-Key''"
  "CanonicalHeaderKey ''X-Goog-Api-Key'' = ''X-Goog-Api-Key''" "CanonicalHeaderKey ''Chatgpt-Account-Id'' = ''Chatgpt-Account-Id''"
  "CanonicalHeaderKey ''ChatGPT-Account-ID'' = ''Chatgpt-Account-Id''" "CanonicalHeaderKey ''anthropic-version'' = ''Anthropic-Version''"
  "CanonicalHeaderKey ''anthropic-beta'' = ''Anthropic-Beta''" "CanonicalHeaderKey ''Anthropic-Beta'' = ''Anthropic-Beta''"
  "CanonicalHeaderKey ''Anthropic-Version'' = ''Anthropic-Version''" "CanonicalHeaderKey ''Content-Type'' = ''Content-Type''"
  "CanonicalHeaderKey ''session_id'' = ''Session_id''" "CanonicalHeaderKey ''thread_id'' = ''Thread_id''"
  "CanonicalHeaderKey ''session-id'' = ''Session-Id''" "CanonicalHeaderKey ''thread-id'' = ''Thread-Id''"
  "CanonicalHeaderKey ''Accept'' = ''Accept''" "CanonicalHeaderKey ''User-Agent'' = ''User-Agent''"
  "CanonicalHeaderKey ''Originator'' = ''Originator''" "CanonicalHeaderKey ''Connection'' = ''Connection''"
  "CanonicalHeaderKey ''X-App'' = ''X-App''"
  "CanonicalHeaderKey ''Anthropic-Dangerous-Direct-Browser-Access'' = ''Anthropic-Dangerous-Direct-Browser-Access''"
  by code_simp+

lemma forwarded_canonical: "list_all (\<lambda>k. CanonicalHeaderKey k = k) forwarded_names"
  by code_simp

text \<open>The names whose values a provider may read or that survive the allow list.\<close>
definition relevant :: "string \<Rightarrow> bool" where
  "relevant k \<longleftrightarrow> header_allowed k \<or> k = ''Session_id'' \<or> k = ''Thread_id''"

definition credential_names :: "string list" where
  "credential_names = [''Authorization'', ''X-Api-Key'', ''X-Goog-Api-Key'', ''Chatgpt-Account-Id'']"

definition agree :: "headers \<Rightarrow> headers \<Rightarrow> bool" where "agree h h' \<longleftrightarrow> (\<forall>k. relevant k \<longrightarrow> h k = h' k)"

lemma agree_Set [intro]: "agree h h' \<Longrightarrow> agree (hdr_Set h k v) (hdr_Set h' k v)"
  by (simp add: agree_def hdr_Set_def)

lemma agree_Del [intro]: "agree h h' \<Longrightarrow> agree (hdr_Del h k) (hdr_Del h' k)"
  by (simp add: agree_def hdr_Del_def)

lemma agree_Get: "agree h h' \<Longrightarrow> relevant (CanonicalHeaderKey k) \<Longrightarrow> hdr_Get h k = hdr_Get h' k"
  by (simp add: agree_def hdr_Get_def hdr_Values_def)

lemma relevant_names [simp]:
  "relevant ''Anthropic-Beta''" "relevant ''Anthropic-Version''" "relevant ''Session_id''" "relevant ''Thread_id''"
  "relevant ''Session-Id''" "relevant ''Thread-Id''" "relevant ''Accept''" "relevant ''Content-Type''"
  by code_simp+

lemma agree_fill: "agree h h' \<Longrightarrow> relevant (CanonicalHeaderKey k) \<Longrightarrow> agree (fill_header k v h) (fill_header k v h')"
  by (auto simp: fill_header_def agree_Get)

lemma agree_migrate:
  assumes "agree h h'" and "relevant (CanonicalHeaderKey a)" and "relevant (CanonicalHeaderKey b)"
  shows "agree (migrateCodexLegacySessionHeader a b h) (migrateCodexLegacySessionHeader a b h')"
  using assms agree_Get[OF assms(1,2)] agree_Get[OF agree_Del[OF assms(1)] assms(3)]
  by (auto simp: migrateCodexLegacySessionHeader_def Let_def)

lemma agree_merge:
  assumes "agree h h'" shows "agree (mergeClaudeCodeBetaHeaders h) (mergeClaudeCodeBetaHeaders h')"
proof -
  have "hdr_Values h ''Anthropic-Beta'' = hdr_Values h' ''Anthropic-Beta''" using assms by (simp add: agree_def hdr_Values_def)
  then show ?thesis using assms by (auto simp: mergeClaudeCodeBetaHeaders_def)
qed

lemma agree_directors:
  assumes "agree h h'"
  shows "agree (directorSetUpstream t h) (directorSetUpstream t h')"
    "agree (directorSetOpenAIUpstream t h) (directorSetOpenAIUpstream t h')"
    "agree (directorSetClaudeCodeUpstream t h) (directorSetClaudeCodeUpstream t h')"
    "agree (directorSetCodexUpstream w t acc h) (directorSetCodexUpstream w t acc h')"
    "agree (directorSetGeminiUpstream w t h) (directorSetGeminiUpstream w t h')"
    "agree (directorSetVertexUpstream w t h) (directorSetVertexUpstream w t h')"
    "agree (directorSetVertexOpenAIUpstream w t h) (directorSetVertexOpenAIUpstream w t h')"
    "agree (directorSetBedrockOpenAIUpstream w t h) (directorSetBedrockOpenAIUpstream w t h')"
    "rel_option agree (directorSetBedrockUpstream w t h) (directorSetBedrockUpstream w t h')"
proof -
  show "agree (directorSetClaudeCodeUpstream t h) (directorSetClaudeCodeUpstream t h')"
  proof -
    let ?h1 = "\<lambda>h. hdr_Set (hdr_Set (hdr_Del h ''x-api-key'') ''Authorization'' (''Bearer '' @ t)) ''Connection'' ''keep-alive''"
    have "agree (mergeClaudeCodeBetaHeaders (?h1 h)) (mergeClaudeCodeBetaHeaders (?h1 h'))" using assms by (blast intro: agree_merge)
    from agree_fill[OF this, of "''Anthropic-Version''" "''2023-06-01''"] show ?thesis
      unfolding directorSetClaudeCodeUpstream_def Let_def fill_header_def by (simp add: agree_Set)
  qed
  show "agree (directorSetCodexUpstream w t acc h) (directorSetCodexUpstream w t acc h')"
    using assms unfolding directorSetCodexUpstream_def Let_def
    by (cases "hw_streamingPath w"; cases "acc = ''''") (auto intro!: agree_fill agree_migrate agree_Set agree_Del)
qed (use assms in \<open>auto simp: directorSetUpstream_def directorSetOpenAIUpstream_def directorSetGeminiUpstream_def
    directorSetVertexUpstream_def directorSetVertexOpenAIUpstream_def directorSetBedrockOpenAIUpstream_def
    directorSetBedrockUpstream_def Let_def intro!: agree_Set agree_Del\<close>)

lemma agree_SetUpstream: "agree h h' \<Longrightarrow> rel_option agree (SetUpstream w provider key h) (SetUpstream w provider key h')"
  by (auto simp: SetUpstream_def Let_def agree_directors agree_Set split: option.split)

lemma agree_normalize: "agree h h' \<Longrightarrow> agree (normalizeClientIdentity h) (normalizeClientIdentity h')"
  unfolding normalizeClientIdentity_def Let_def by (auto intro!: agree_Set agree_Del)

lemma agree_sanitize: "agree h h' \<Longrightarrow> sanitizeOutboundHeaders h = sanitizeOutboundHeaders h'"
  by (auto simp: sanitizeOutboundHeaders_def agree_def relevant_def)

lemma forwarded_relevant: "list_all (\<lambda>k. relevant k \<and> \<not> List.member credential_names k) forwarded_names"
  by code_simp

lemma credentials_not_family: "list_all (\<lambda>k. \<not> header_family k) credential_names"
  by code_simp

lemma forward_cong:
  assumes "\<forall>k. relevant k \<and> \<not> List.member credential_names k \<longrightarrow> c k = c' k"
  shows "forwardClientHeaders h c = forwardClientHeaders h c'"
proof -
  have "hdr_Get c k = hdr_Get c' k" if "k \<in> set forwarded_names" for k
    using that forwarded_relevant forwarded_canonical assms by (auto simp: list_all_iff hdr_Get_def hdr_Values_def)
  then have "foldl (\<lambda>d k. if hdr_Get c k \<noteq> '''' then hdr_Set d k (hdr_Get c k) else d) h forwarded_names
      = foldl (\<lambda>d k. if hdr_Get c' k \<noteq> '''' then hdr_Set d k (hdr_Get c' k) else d) h forwarded_names"
    by (intro foldl_cong) auto
  moreover have "c k = c' k" if "header_family k" for k
    using that assms credentials_not_family by (auto simp: relevant_def header_allowed_def list_all_iff)
  ultimately show ?thesis by (auto simp: forwardClientHeaders_def Let_def fun_eq_iff)
qed

text \<open>Only the upstream's own credential under the names that carry one.\<close>
definition own_credentials :: "string \<Rightarrow> headers \<Rightarrow> bool" where
  "own_credentials t h \<longleftrightarrow> (\<forall>k \<in> {''Authorization'', ''X-Api-Key'', ''X-Goog-Api-Key''}. h k = None \<or> h k = Some [t] \<or> h k = Some [''Bearer '' @ t])"

lemma own_Set:
  "own_credentials t h \<Longrightarrow> CanonicalHeaderKey k \<notin> {''Authorization'', ''X-Api-Key'', ''X-Goog-Api-Key''} \<or> v = t \<or> v = ''Bearer '' @ t
     \<Longrightarrow> own_credentials t (hdr_Set h k v)"
  by (auto simp: own_credentials_def hdr_Set_def)

lemma own_Del: "own_credentials t h \<Longrightarrow> own_credentials t (hdr_Del h k)"
  by (auto simp: own_credentials_def hdr_Del_def)

lemma own_fill: "own_credentials t h \<Longrightarrow> CanonicalHeaderKey k \<notin> {''Authorization'', ''X-Api-Key'', ''X-Goog-Api-Key''} \<Longrightarrow> own_credentials t (fill_header k v h)"
  by (simp add: fill_header_def own_Set)

lemma own_migrate: "own_credentials t h \<Longrightarrow> CanonicalHeaderKey b \<notin> {''Authorization'', ''X-Api-Key'', ''X-Goog-Api-Key''}
    \<Longrightarrow> own_credentials t (migrateCodexLegacySessionHeader a b h)"
  by (simp add: migrateCodexLegacySessionHeader_def Let_def own_Set own_Del)

lemmas own_ops = own_Set own_Del own_fill own_migrate

lemma own_directors:
  assumes "own_credentials t h"
  shows "own_credentials t (directorSetUpstream t h)" "own_credentials t (directorSetOpenAIUpstream t h)"
    "own_credentials t (directorSetClaudeCodeUpstream t h)" "own_credentials t (directorSetCodexUpstream w t acc h)"
    "own_credentials t (directorSetGeminiUpstream w t h)" "own_credentials t (directorSetVertexUpstream w t h)"
    "own_credentials t (directorSetVertexOpenAIUpstream w t h)" "own_credentials t (directorSetBedrockOpenAIUpstream w t h)"
    "directorSetBedrockUpstream w t h = Some h' \<Longrightarrow> own_credentials t h'"
  using assms
  by (auto simp: directorSetUpstream_def directorSetOpenAIUpstream_def directorSetClaudeCodeUpstream_def mergeClaudeCodeBetaHeaders_def
      directorSetCodexUpstream_def directorSetGeminiUpstream_def directorSetVertexUpstream_def directorSetVertexOpenAIUpstream_def
      directorSetBedrockOpenAIUpstream_def directorSetBedrockUpstream_def Let_def intro!: own_ops split: if_splits)

lemma own_SetUpstream:
  assumes "own_credentials t h" and "upstream_token w provider key = Some t" and "SetUpstream w provider key h = Some h'"
  shows "own_credentials t h'"
  using assms by (auto simp: SetUpstream_def Let_def own_directors own_Set split: option.splits if_splits)

lemma own_start: "(\<forall>k \<in> {''Authorization'', ''X-Api-Key'', ''X-Goog-Api-Key''}. h k = None) \<Longrightarrow> own_credentials t h"
  by (simp add: own_credentials_def)

lemma forward_no_credentials:
  assumes "h k = None" and "k \<in> {''Authorization'', ''X-Api-Key'', ''X-Goog-Api-Key''}"
  shows "forwardClientHeaders h c k = None"
proof -
  have k: "\<not> header_family k" "k \<notin> set forwarded_names"
    using assms(2) credentials_not_family forwarded_relevant
    by (auto simp: list_all_iff credential_names_def)
  have "foldl (\<lambda>d k. if hdr_Get c k \<noteq> '''' then hdr_Set d k (hdr_Get c k) else d) h ks k = None"
    if "set ks \<subseteq> set forwarded_names" "h k = None" for ks h
    using that
  proof (induction ks arbitrary: h)
    case (Cons x ks)
    have "CanonicalHeaderKey x = x" "x \<noteq> k" using Cons.prems k(2) forwarded_canonical by (auto simp: list_all_iff)
    then show ?case using Cons by (simp add: hdr_Set_def)
  qed simp
  then show ?thesis using k assms(1) by (simp add: forwardClientHeaders_def Let_def)
qed

lemma outbound_agree:
  assumes "\<forall>k. relevant k \<and> \<not> List.member credential_names k \<longrightarrow> c k = c' k"
  shows "outbound_headers w ws multipart provider key c = outbound_headers w ws multipart provider key c'"
proof -
  let ?dels = "\<lambda>c. foldl hdr_Del c [''Authorization'', ''X-Api-Key'', ''X-Goog-Api-Key'', ''Chatgpt-Account-Id'']"
  let ?h0 = "\<lambda>c. hdr_Set Map.empty ''Content-Type'' (if multipart then hdr_Get c ''Content-Type'' else ''application/json'')"
  have "\<not> List.member credential_names ''Content-Type''" by code_simp
  then have "hdr_Get c ''Content-Type'' = hdr_Get c' ''Content-Type''"
    using assms by (simp add: hdr_Get_def hdr_Values_def del: List.member_iff)
  then have fwd: "forwardClientHeaders (?h0 c) c = forwardClientHeaders (?h0 c') c'" using forward_cong[OF assms] by simp
  have "agree (?dels c) (?dels c')" using assms by (auto simp: agree_def hdr_Del_def credential_names_def)
  then have "agree (if ws then ?dels c else forwardClientHeaders (?h0 c) c) (if ws then ?dels c' else forwardClientHeaders (?h0 c') c')"
    using fwd by (simp add: agree_def)
  from agree_SetUpstream[OF this, of w provider key] show ?thesis
    unfolding outbound_headers_def Let_def
    by (cases rule: option.rel_cases) (auto intro: agree_sanitize agree_normalize)
qed

lemma outbound_own:
  assumes "outbound_headers w ws multipart provider key c = Some h"
  shows "\<exists>t. upstream_token w provider key = Some t \<and> own_credentials t h"
proof -
  let ?h0 = "hdr_Set Map.empty ''Content-Type'' (if multipart then hdr_Get c ''Content-Type'' else ''application/json'')"
  let ?h2 = "if ws then foldl hdr_Del c [''Authorization'', ''X-Api-Key'', ''X-Goog-Api-Key'', ''Chatgpt-Account-Id'']
             else forwardClientHeaders ?h0 c"
  obtain h3 where h3: "SetUpstream w provider key ?h2 = Some h3"
      "h = sanitizeOutboundHeaders (if provider = ''claudecode'' then normalizeClientIdentity h3 else h3)"
    using assms unfolding outbound_headers_def Let_def by (auto simp: map_option_eq_Some)
  obtain t where t: "upstream_token w provider key = Some t" using h3(1) by (auto simp: SetUpstream_def split: option.splits)
  have "own_credentials t ?h2"
  proof (rule own_start, intro ballI)
    fix k assume k: "k \<in> {''Authorization'', ''X-Api-Key'', ''X-Goog-Api-Key''}"
    have "?h0 k = None" using k by (auto simp: hdr_Set_def)
    then show "?h2 k = None" using k forward_no_credentials[of ?h0 k c] by (auto simp: hdr_Del_def)
  qed
  then have own: "own_credentials t h3" using own_SetUpstream t h3(1) by blast
  have "own_credentials t (normalizeClientIdentity h3)"
  proof -
    have c: "list_all (\<lambda>k. CanonicalHeaderKey k \<notin> {''Authorization'', ''X-Api-Key'', ''X-Goog-Api-Key''})
        [''User-Agent'', ''X-App'', ''X-Stainless-Lang'', ''X-Stainless-Package-Version'', ''X-Stainless-Os'',
         ''X-Stainless-Runtime'', ''X-Stainless-Runtime-Version'', ''X-Stainless-Arch'']" by code_simp
    show ?thesis unfolding normalizeClientIdentity_def Let_def foldl.simps prod.case
      by (intro own_Del own_Set own disjI1) (use c in simp_all)
  qed
  then show ?thesis using own t h3(2) by (auto simp: own_credentials_def sanitizeOutboundHeaders_def split: if_splits)
qed

text \<open>C22: no credential of a client reaches an upstream: the headers sent do not depend on what the client put
  under the names that carry credentials, nor on any header that is neither on the allow list nor a legacy
  session id (cookies, say), for every provider, over HTTP and over a websocket; and under those names
  stands nothing but the token of the upstream.\<close>
theorem credentials_isolated:
  assumes "\<forall>k. relevant k \<and> \<not> List.member credential_names k \<longrightarrow> c k = c' k"
  shows "outbound_headers w ws multipart provider key c = outbound_headers w ws multipart provider key c'
    \<and> (\<forall>h. outbound_headers w ws multipart provider key c = Some h \<longrightarrow>
        (\<exists>t. upstream_token w provider key = Some t
          \<and> (\<forall>k \<in> {''Authorization'', ''X-Api-Key'', ''X-Goog-Api-Key''}. h k = None \<or> h k = Some [t] \<or> h k = Some [''Bearer '' @ t])))"
  using outbound_agree[OF assms] outbound_own unfolding own_credentials_def by blast

definition header_sample :: header_world where
  "header_sample = \<lparr>hw_urlOk = True, hw_json = \<lambda>_ _. None, hw_vertexToken = None, hw_vertexBetas = None,
     hw_sessionIDs = (''s'', ''t''), hw_streamingPath = True\<rparr>"

lemma demo_outbound:
  "(case outbound_headers header_sample False False ''openai'' ''up'' Map.empty of
      None \<Rightarrow> False | Some h \<Rightarrow> h ''Authorization'' = Some [''Bearer up''])"
  by code_simp

lemma credentials_isolated_witness:
  "\<exists>h. outbound_headers header_sample False False ''openai'' ''up''
         [''X-Api-Key'' \<mapsto> [''ms-secret''], ''Cookie'' \<mapsto> [''c'']] = Some h \<and> h ''Authorization'' = Some [''Bearer up'']"
proof -
  have irrelevant: "\<not> relevant ''Cookie''" "List.member credential_names ''X-Api-Key''" by code_simp+
  have "\<forall>k. relevant k \<and> \<not> List.member credential_names k \<longrightarrow> [''X-Api-Key'' \<mapsto> [''ms-secret''], ''Cookie'' \<mapsto> [''c'']] k = Map.empty k"
    using irrelevant by auto
  from credentials_isolated[OF this, of header_sample False False "''openai''" "''up''"]
  have eq: "outbound_headers header_sample False False ''openai'' ''up'' [''X-Api-Key'' \<mapsto> [''ms-secret''], ''Cookie'' \<mapsto> [''c'']]
      = outbound_headers header_sample False False ''openai'' ''up'' Map.empty" by (rule conjunct1)
  show ?thesis unfolding eq using demo_outbound by (simp split: option.splits)
qed

section \<open>Beta flags\<close>

lemma merge_step:
  "set (foldl (\<lambda>m b. if List.member m b \<or> List.member ex b then m else m @ [b]) m bs) = set m \<union> (set bs - set ex)
   \<and> (distinct m \<longrightarrow> distinct (foldl (\<lambda>m b. if List.member m b \<or> List.member ex b then m else m @ [b]) m bs))
   \<and> (\<exists>r. foldl (\<lambda>m b. if List.member m b \<or> List.member ex b then m else m @ [b]) m bs = m @ r)"
proof (induction bs arbitrary: m)
  case (Cons b bs)
  show ?case
  proof (cases "List.member m b \<or> List.member ex b")
    case True
    then have "foldl (\<lambda>m b. if List.member m b \<or> List.member ex b then m else m @ [b]) m (b # bs)
        = foldl (\<lambda>m b. if List.member m b \<or> List.member ex b then m else m @ [b]) m bs" by simp
    then show ?thesis using Cons[of m] True by auto
  next
    case False
    then have "foldl (\<lambda>m b. if List.member m b \<or> List.member ex b then m else m @ [b]) m (b # bs)
        = foldl (\<lambda>m b. if List.member m b \<or> List.member ex b then m else m @ [b]) (m @ [b]) bs" by simp
    then show ?thesis using Cons[of "m @ [b]"] False by (auto simp: append_assoc)
  qed
qed simp

text \<open>The betas sent to Claude Code: the required one first, each once, none excluded, and all others of the client.\<close>
lemma merge_betas_correct:
  "distinct (merge_betas bs) \<and> set (merge_betas bs) = set claudeCodeRequiredBetas \<union> (set bs - set claudeCodeExcludedBetas)
   \<and> (\<exists>r. merge_betas bs = claudeCodeRequiredBetas @ r)"
proof -
  have "foldl (\<lambda>m b. if List.member m b then m else m @ [b]) [] claudeCodeRequiredBetas = claudeCodeRequiredBetas"
    by (simp add: claudeCodeRequiredBetas_def)
  then have "merge_betas bs = foldl (\<lambda>m b. if List.member m b \<or> List.member claudeCodeExcludedBetas b then m else m @ [b]) claudeCodeRequiredBetas bs"
    by (simp add: merge_betas_def)
  then show ?thesis using merge_step[of claudeCodeExcludedBetas claudeCodeRequiredBetas bs] by (simp add: claudeCodeRequiredBetas_def)
qed

end
