(* ===== verification/Completion.thy ===== *)
theory Completion
  imports ImageStream Executor RequestLog Headers
begin

text \<open>
  The second half of proxy/executor.go: what happens to a response the retry loop has committed. It goes to
  the client, its usage is parsed and settled, the connection is released, the request row completed (or a
  record handed to the collector) and the limiter's counters advanced. The parsers of complete bodies are
  arguments; statement failures leave the row as it is. The code completes the row in a goroutine; here the
  statement runs at its call. The keepalive and idle-timeout wrappers, the HTTP log, the tee in front of it,
  bodies of the Responses websocket and the latencies are left out.
\<close>

section \<open>State\<close>

record completion_ctx =
  cc_RC :: RequestContext
  cc_RequestID :: string
  cc_ClientIP :: string
  cc_ClientBucket :: string
  cc_ExtraUsage :: "ExtraUsageContext option"
  cc_CostCredits :: int
  cc_BalanceAfter :: int
  cc_CodexCapacityError :: bool
  cc_Attempt :: int
  cc_RetryStatus :: string
  cc_RetryReason :: string

record completion_state =
  cs_ctx :: completion_ctx
  cs_router :: Router
  cs_metrics :: UpstreamMetrics
  cs_db :: database
  cs_requests :: request_table
  cs_records :: "Request list"
  cs_limiter :: "CompositeRateLimiter option"

text \<open>The world of one completion: whether the ledger and the request table answer, the catalog, the clock, the
  latency measured.\<close>
record completion_world =
  cw_ledgerUp :: bool
  cw_logUp :: bool
  cw_catalog :: "catalog option"
  cw_now :: go_time
  cw_latency :: int

section \<open>Records\<close>

definition applyRetryFields :: "completion_ctx \<Rightarrow> Request \<Rightarrow> Request" where
  "applyRetryFields cc r =
     r\<lparr>req_Attempt := (if cc_Attempt cc > 0 then cc_Attempt cc else req_Attempt r),
       req_RetryReason := cc_RetryReason cc,
       req_RetryStatus := (if cc_RetryStatus cc \<noteq> '''' then cc_RetryStatus cc
                           else if req_Status r = ''success'' then ''normal'' else ''non_retryable_error'')\<rparr>"

definition extra_usage_fields :: "completion_ctx \<Rightarrow> Request \<Rightarrow> Request" where
  "extra_usage_fields cc r =
     r\<lparr>req_IsExtraUsage := (cc_ExtraUsage cc \<noteq> None), req_ExtraUsageCostCredits := cc_CostCredits cc,
       req_ExtraUsageReason := (case cc_ExtraUsage cc of None \<Rightarrow> '''' | Some eu \<Rightarrow> euctx_Reason eu)\<rparr>"

definition buildEarlyErrorRequest :: "completion_world \<Rightarrow> completion_ctx \<Rightarrow> string \<Rightarrow> Request" where
  "buildEarlyErrorRequest w cc msg =
     applyRetryFields cc (extra_usage_fields cc (zero_request\<lparr>req_OAuthGrantID := rc_OAuthGrantID (cc_RC cc), req_Status := ''error'',
       req_LatencyMs := cw_latency w, req_ErrorMessage := msg, req_ClientIP := cc_ClientIP cc\<rparr>))"

text \<open>The fields every record of an attempted request has.\<close>
definition attempted_request :: "completion_world \<Rightarrow> completion_ctx \<Rightarrow> SelectedUpstream \<Rightarrow> Request" where
  "attempted_request w cc c =
     extra_usage_fields cc (zero_request\<lparr>req_ProjectID := rc_ProjectID (cc_RC cc), req_APIKeyID := rc_APIKeyID (cc_RC cc),
       req_OAuthGrantID := rc_OAuthGrantID (cc_RC cc), req_UpstreamID := sel_id c, req_TraceID := rc_TraceID (cc_RC cc),
       req_Provider := up_Provider (sel_Upstream c), req_RequestKind := rc_RequestKind (cc_RC cc),
       req_LatencyMs := cw_latency w, req_ClientIP := cc_ClientIP cc\<rparr>)"

definition complete_row :: "completion_world \<Rightarrow> Request \<Rightarrow> completion_state \<Rightarrow> completion_state" where
  "complete_row w r s =
     (if cw_logUp w then s\<lparr>cs_requests := CompleteRequest (cs_requests s) (cc_RequestID (cs_ctx s)) r\<rparr> else s)"

text \<open>The pending row if there is one, else the collector.\<close>
definition record_request :: "completion_world \<Rightarrow> Request \<Rightarrow> completion_state \<Rightarrow> completion_state" where
  "record_request w r s =
     (if cc_RequestID (cs_ctx s) \<noteq> '''' then complete_row w r s else s\<lparr>cs_records := cs_records s @ [r]\<rparr>)"

definition finalizeEarlyError :: "completion_world \<Rightarrow> string \<Rightarrow> completion_state \<Rightarrow> completion_state" where
  "finalizeEarlyError w msg s =
     (if cc_RequestID (cs_ctx s) = '''' then s else complete_row w (buildEarlyErrorRequest w (cs_ctx s) msg) s)"

definition release_upstream :: "SelectedUpstream \<Rightarrow> completion_state \<Rightarrow> completion_state" where
  "release_upstream c s =
     s\<lparr>cs_router := (cs_router s)\<lparr>rt_connTracker := Release (rt_connTracker (cs_router s)) (sel_id c)\<rparr>\<rparr>"

section \<open>Accounting\<close>

definition catalogDefaultRate :: "completion_world \<Rightarrow> string \<Rightarrow> CreditRate option" where
  "catalogDefaultRate w canonical = Option.bind (cw_catalog w) (\<lambda>c. Option.bind (Get c canonical) model_DefaultCreditRate)"

definition settle_view :: "completion_ctx \<Rightarrow> settle_ctx" where
  "settle_view cc =
     \<lparr>sc_ProjectID = rc_ProjectID (cc_RC cc), sc_RequestID = cc_RequestID cc, sc_Model = rc_Model (cc_RC cc),
      sc_ModelRef = rc_ModelRef (cc_RC cc), sc_RequestKind = rc_RequestKind (cc_RC cc), sc_ExtraUsageCtx = cc_ExtraUsage cc,
      sc_CostCredits = cc_CostCredits cc, sc_BalanceAfterCredits = cc_BalanceAfter cc\<rparr>"

definition settled :: "string \<times> settle_ctx \<times> database \<Rightarrow> completion_state \<Rightarrow> completion_state" where
  "settled r s =
     (case r of (label, sc, db) \<Rightarrow>
        s\<lparr>cs_db := db, cs_ctx := (cs_ctx s)\<lparr>cc_CostCredits := sc_CostCredits sc, cc_BalanceAfter := sc_BalanceAfterCredits sc\<rparr>\<rparr>)"

definition settle_text :: "completion_world \<Rightarrow> TokenUsage \<Rightarrow> completion_state \<Rightarrow> completion_state" where
  "settle_text w usage s = settled (settleExtraUsage (cw_ledgerUp w) (cs_db s) (settle_view (cs_ctx s)) usage (cw_now w)) s"

definition settle_image :: "completion_world \<Rightarrow> ImageTokenUsage \<Rightarrow> completion_state \<Rightarrow> completion_state" where
  "settle_image w usage s = settled (settleImageExtraUsage (cw_ledgerUp w) (cs_db s) (settle_view (cs_ctx s)) usage (cw_now w)) s"

definition text_credits :: "completion_world \<Rightarrow> completion_ctx \<Rightarrow> string \<Rightarrow> TokenUsage \<Rightarrow> float64" where
  "text_credits w cc model u =
     (case rc_Policy (cc_RC cc) of None \<Rightarrow> 0
      | Some p \<Rightarrow> ComputeCreditsForClient p model (cc_ClientBucket cc) (catalogDefaultRate w model)
                    (tu_InputTokens u) (tu_OutputTokens u) (tu_CacheCreationTokens u) (tu_CacheReadTokens u))"

definition image_credits :: "completion_ctx \<Rightarrow> ImageTokenUsage \<Rightarrow> bool \<Rightarrow> float64" where
  "image_credits cc usage present =
     (if present then case computeImageCredits (rc_ModelRef (cc_RC cc)) usage of Some c \<Rightarrow> c | None \<Rightarrow> 0 else 0)"

definition imageTokenUsageForRecord :: "ImageTokenUsage \<Rightarrow> TokenUsage" where
  "imageTokenUsageForRecord u =
     \<lparr>tu_InputTokens = itu_InputTokens u, tu_OutputTokens = itu_OutputTokens u, tu_CacheCreationTokens = 0,
      tu_CacheReadTokens = itu_CachedInputTokens u\<rparr>"

definition imageUsageMetadata :: "ImageTokenUsage \<Rightarrow> (string \<rightharpoonup> string)" where
  "imageUsageMetadata u =
     [''image_text_input_tokens'' \<mapsto> itoa (itu_TextInputTokens u), ''image_image_input_tokens'' \<mapsto> itoa (itu_ImageInputTokens u),
      ''image_text_output_tokens'' \<mapsto> itoa (itu_TextOutputTokens u), ''image_image_output_tokens'' \<mapsto> itoa (itu_ImageOutputTokens u)]"

definition post_record :: "completion_world \<Rightarrow> string \<Rightarrow> TokenUsage \<Rightarrow> completion_state \<Rightarrow> completion_state" where
  "post_record w model usage s =
     s\<lparr>cs_limiter := map_option (\<lambda>l. PostRecord l (rc_ProjectID (cc_RC (cs_ctx s))) (rc_APIKeyID (cc_RC (cs_ctx s)))
         (rc_UserID (cc_RC (cs_ctx s))) model usage (cw_now w)) (cs_limiter s)\<rparr>"

definition isImageRequestKind :: "string \<Rightarrow> bool" where
  "isImageRequestKind kind \<longleftrightarrow> kind = ''openai_images_generations'' \<or> kind = ''openai_images_edits''"

section \<open>Headers for the client\<close>

definition writeExtraUsageSuccessHeaders :: "completion_ctx \<Rightarrow> (string \<times> string) list" where
  "writeExtraUsageSuccessHeaders cc =
     (case cc_ExtraUsage cc of None \<Rightarrow> []
      | Some eu \<Rightarrow>
          [(''X-Extra-Usage'', ''true'')]
          @ (if euctx_Reason eu \<noteq> '''' then [(''X-Extra-Usage-Reason'', euctx_Reason eu)] else [])
          @ (if cc_CostCredits cc > 0 then [(''X-Extra-Usage-Cost-Credits'', itoa (cc_CostCredits cc))] else [])
          @ [(''X-Extra-Usage-Balance-Credits'', itoa (cc_BalanceAfter cc))])"

section \<open>Streams\<close>

datatype interruption = CodexCapacity | Interrupted string

definition requestStatusFromMetrics :: "interruption option \<Rightarrow> string \<times> string" where
  "requestStatusFromMetrics e =
     (case e of None \<Rightarrow> (''success'', '''')
      | Some CodexCapacity \<Rightarrow> (''error'', codexCapacityMessage)
      | Some (Interrupted msg) \<Rightarrow> (''error'', ''stream_interrupted: '' @ msg))"

definition completeStreamingRequest ::
  "completion_world \<Rightarrow> SelectedUpstream \<Rightarrow> StreamMetrics \<Rightarrow> interruption option \<Rightarrow> completion_state \<Rightarrow> completion_state" where
  "completeStreamingRequest w c m e s =
     (let s1 = release_upstream c s;
          model = (if sm_Model m = '''' then rc_Model (cc_RC (cs_ctx s)) else sm_Model m);
          credits = text_credits w (cs_ctx s) model (sm_Usage m);
          s2 = settle_text w (sm_Usage m) s1;
          r = (attempted_request w (cs_ctx s2) c)\<lparr>req_MsgID := sm_MsgID m, req_Model := model, req_Streaming := True,
                 req_Usage := sm_Usage m, req_CreditsConsumed := credits,
                 req_Status := fst (requestStatusFromMetrics e), req_ErrorMessage := snd (requestStatusFromMetrics e)\<rparr>
      in post_record w model (sm_Usage m) (record_request w (applyRetryFields (cs_ctx s2) r) s2))"

text \<open>The closure completeStream of commitStreamingResponse: \<^term>\<open>i\<close> is the interruption published when it ran.\<close>
definition note_capacity :: "completion_world \<Rightarrow> SelectedUpstream \<Rightarrow> string option \<Rightarrow> completion_state \<Rightarrow> completion_state" where
  "note_capacity w c i s =
     (let cc = cs_ctx s; rc = cc_RC cc in
      s\<lparr>cs_ctx := cc\<lparr>cc_CodexCapacityError := True, cc_RetryReason := ''codex_capacity_after_commit'', cc_RetryStatus := ''retry_exhausted''\<rparr>,
        cs_router := UnbindSessionFromUpstream (cs_router s) (rc_SessionID rc) (rc_Model rc) (sel_id c),
        cs_metrics := (if i = None then RecordError (cs_metrics s) (sel_id c) (cw_now w) else cs_metrics s)\<rparr>)"

definition complete_stream ::
  "completion_world \<Rightarrow> SelectedUpstream \<Rightarrow> StreamMetrics \<Rightarrow> string option \<Rightarrow> completion_state \<Rightarrow> completion_state" where
  "complete_stream w c m i s =
     (let s1 = (if sm_CodexCapacityError m then note_capacity w c i s else s);
          e = (case i of Some msg \<Rightarrow> Some (Interrupted msg)
               | None \<Rightarrow> if cc_CodexCapacityError (cs_ctx s1) then Some CodexCapacity else None)
      in completeStreamingRequest w c m e s1)"

definition completeImageStreamingRequest ::
  "completion_world \<Rightarrow> SelectedUpstream \<Rightarrow> ImageTokenUsage \<Rightarrow> bool \<Rightarrow> string option \<Rightarrow> completion_state \<Rightarrow> completion_state" where
  "completeImageStreamingRequest w c usage present i s =
     (let s1 = release_upstream c s;
          s2 = (if present then settle_image w usage s1 else s1);
          model = rc_Model (cc_RC (cs_ctx s));
          tokens = imageTokenUsageForRecord usage;
          r = (attempted_request w (cs_ctx s2) c)\<lparr>req_Model := model, req_Streaming := True, req_Usage := tokens,
                 req_CreditsConsumed := image_credits (cs_ctx s) usage present,
                 req_Status := (if i \<noteq> None then ''error'' else ''success''),
                 req_ErrorMessage := (case i of None \<Rightarrow> '''' | Some msg \<Rightarrow> ''stream_interrupted: '' @ msg)\<rparr>;
          r1 = applyRetryFields (cs_ctx s2) r;
          r2 = (if present then r1\<lparr>req_Metadata := imageUsageMetadata usage\<rparr> else r1)
      in post_record w model tokens (record_request w r2 s2))"

text \<open>What the client gets.\<close>
record client_reply =
  cl_status :: int
  cl_headers :: headers
  cl_body :: string

text \<open>The error of the copy is recorded between the callbacks of its reads and the one of Close.\<close>
definition finish_copy ::
  "completion_world \<Rightarrow> SelectedUpstream \<Rightarrow> ('m \<Rightarrow> completion_state \<Rightarrow> completion_state) \<Rightarrow> 'm list \<Rightarrow> 'm list \<Rightarrow> string option
   \<Rightarrow> completion_state \<Rightarrow> completion_state" where
  "finish_copy w c run before after err s =
     (let s1 = foldl (\<lambda>s m. run m s) s before;
          s2 = (if err \<noteq> None then s1\<lparr>cs_metrics := RecordError (cs_metrics s1) (sel_id c) (cw_now w)\<rparr> else s1)
      in foldl (\<lambda>s m. run m s) s2 after)"

definition commitStreamingResponse ::
  "completion_world \<Rightarrow> stream_world \<Rightarrow> image_json \<Rightarrow> (nat \<Rightarrow> bool) \<Rightarrow> SelectedUpstream \<Rightarrow> reads \<Rightarrow> completion_state
   \<Rightarrow> (string \<times> completion_state) option" where
  "commitStreamingResponse w sw js write c rds s =
     (let kind = rc_RequestKind (cc_RC (cs_ctx s)) in
      if isImageRequestKind kind
      then map_option (\<lambda>(out, err, st). let after = is_calls (image_Close js err st) in
             (out, finish_copy w c (\<lambda>(u, p, i). completeImageStreamingRequest w c u p i) (is_calls st) (List.drop (length (is_calls st)) after) err s))
             (copyWithFlush (image_Read js) write 0 rds newImageStreamInterceptor)
      else let it = GetProviderTransformer (up_Provider (sel_Upstream c)) kind in
           map_option (\<lambda>(out, err, st). let after = ss_calls (si_Close it sw err st) in
             (out, finish_copy w c (\<lambda>(m, i). complete_stream w c m i) (ss_calls st) (List.drop (length (ss_calls st)) after) err s))
             (copyWithFlush (si_Read it sw) write 0 rds si_new))"

section \<open>Answers that are not streamed\<close>

definition commitImageNonStreamingResponseBody ::
  "completion_world \<Rightarrow> image_json \<Rightarrow> SelectedUpstream \<Rightarrow> string \<Rightarrow> completion_state \<Rightarrow> (string \<times> string) list \<times> completion_state" where
  "commitImageNonStreamingResponseBody w js c body s =
     (let im = (case ParseImageNonStreamingResponse js body of Some im \<Rightarrow> im
                | None \<Rightarrow> \<lparr>irm_Model = '''', irm_Usage = no_image_usage, irm_UsagePresent = False\<rparr>);
          s1 = (if cc_ExtraUsage (cs_ctx s) \<noteq> None \<and> irm_UsagePresent im then settle_image w (irm_Usage im) s else s);
          extra = (if cc_ExtraUsage (cs_ctx s) \<noteq> None then writeExtraUsageSuccessHeaders (cs_ctx s1) else []);
          model = (if irm_Model im = '''' then rc_Model (cc_RC (cs_ctx s)) else irm_Model im);
          tokens = imageTokenUsageForRecord (irm_Usage im);
          r = (attempted_request w (cs_ctx s1) c)\<lparr>req_Model := model, req_Streaming := False, req_Status := ''success'',
                 req_Usage := tokens, req_CreditsConsumed := image_credits (cs_ctx s) (irm_Usage im) (irm_UsagePresent im)\<rparr>;
          r1 = applyRetryFields (cs_ctx s1) r;
          r2 = (if irm_UsagePresent im then r1\<lparr>req_Metadata := imageUsageMetadata (irm_Usage im)\<rparr> else r1)
      in (extra, post_record w model tokens (record_request w r2 s1)))"

text \<open>After the body is read: \<^term>\<open>parse\<close> is json.Unmarshal; the extra-usage settlement comes before
  the headers are written.\<close>
definition commit_text_body ::
  "completion_world \<Rightarrow> (string \<Rightarrow> sse_json option) \<Rightarrow> SelectedUpstream \<Rightarrow> string \<Rightarrow> completion_state
   \<Rightarrow> (string \<times> string) list \<times> completion_state" where
  "commit_text_body w parse c body s =
     (let cc = cs_ctx s; rc = cc_RC cc;
          parsed = (if rc_RequestKind rc \<noteq> ''anthropic_count_tokens'' then ParseResponse (GetProviderTransformer (up_Provider (sel_Upstream c)) (rc_RequestKind rc)) (parse body) else None);
          s1 = (case (cc_ExtraUsage cc, parsed) of (Some _, Some m) \<Rightarrow> settle_text w (rm_Usage m) s | _ \<Rightarrow> s);
          extra = (if cc_ExtraUsage cc \<noteq> None then writeExtraUsageSuccessHeaders (cs_ctx s1) else []);
          m = (case parsed of Some m \<Rightarrow> m | None \<Rightarrow> \<lparr>rm_Model = '''', rm_MsgID = '''', rm_Usage = no_tokens\<rparr>);
          model = (if rm_Model m = '''' then rc_Model rc else rm_Model m);
          r = (attempted_request w (cs_ctx s1) c)\<lparr>req_MsgID := rm_MsgID m, req_Model := model, req_Streaming := False,
                 req_Status := (if cc_CodexCapacityError cc then ''error'' else ''success''),
                 req_ErrorMessage := (if cc_CodexCapacityError cc then body else ''''),
                 req_Usage := rm_Usage m, req_CreditsConsumed := text_credits w cc model (rm_Usage m)\<rparr>
      in (extra, post_record w model (rm_Usage m) (record_request w (applyRetryFields (cs_ctx s1) r) s1)))"

text \<open>The answer of the upstream.\<close>
record upstream_response =
  ur_status :: int
  ur_headers :: headers
  ur_reads :: reads

definition add_headers :: "headers \<Rightarrow> (string \<times> string) list \<Rightarrow> headers" where
  "add_headers h kvs = foldl (\<lambda>h (k, v). hdr_Set h k v) h kvs"

definition commitNonStreamingResponse ::
  "completion_world \<Rightarrow> image_json \<Rightarrow> (string \<Rightarrow> sse_json option) \<Rightarrow> SelectedUpstream \<Rightarrow> upstream_response \<Rightarrow> completion_state
   \<Rightarrow> (client_reply \<times> completion_state) option" where
  "commitNonStreamingResponse w js parse c resp s =
     (case stream_content (ur_reads resp) of
        (body, None) \<Rightarrow> None
      | (body, Some (ReadError e)) \<Rightarrow>
          Some (\<lparr>cl_status = 502, cl_headers = Map.empty, cl_body = ''failed to read upstream response body''\<rparr>,
                finalizeEarlyError w (''failed to read upstream response body: '' @ e) (release_upstream c s))
      | (body, Some EOF) \<Rightarrow>
          (case (if isImageRequestKind (rc_RequestKind (cc_RC (cs_ctx s)))
                 then commitImageNonStreamingResponseBody w js c body (release_upstream c s)
                 else commit_text_body w parse c body (release_upstream c s)) of
             (extra, s') \<Rightarrow>
               Some (\<lparr>cl_status = ur_status resp,
                      cl_headers = hdr_Set (add_headers (end_to_end (ur_headers resp)) extra) ''Content-Length'' (itoa (int (length body))),
                      cl_body = body\<rparr>, s')))"

text \<open>The first 4096 bytes of an error body; None: the source keeps the reader waiting.\<close>
definition error_body :: "reads \<Rightarrow> string option" where
  "error_body rds =
     (case stream_content rds of (b, e) \<Rightarrow> if e = None \<and> length b < 4096 then None else Some (take 4096 b))"

definition commitErrorResponse ::
  "completion_world \<Rightarrow> SelectedUpstream \<Rightarrow> upstream_response \<Rightarrow> completion_state \<Rightarrow> (client_reply \<times> completion_state) option" where
  "commitErrorResponse w c resp s =
     (case error_body (ur_reads resp) of None \<Rightarrow> None
      | Some body \<Rightarrow>
          (let s1 = release_upstream c s;
               cc = cs_ctx s;
               r = (attempted_request w cc c)\<lparr>req_Model := rc_Model (cc_RC cc), req_Streaming := rc_IsStream (cc_RC cc),
                     req_Status := (if ur_status resp = 429 then ''rate_limited'' else ''error''), req_ErrorMessage := body\<rparr>
           in Some (\<lparr>cl_status = ur_status resp, cl_headers = end_to_end (ur_headers resp), cl_body = body\<rparr>,
                    record_request w (applyRetryFields cc r) s1)))"

text \<open>commitResponse; None as the response: doUpstreamRequest returned none.\<close>
definition commitResponse ::
  "completion_world \<Rightarrow> stream_world \<Rightarrow> image_json \<Rightarrow> (string \<Rightarrow> sse_json option) \<Rightarrow> (nat \<Rightarrow> bool) \<Rightarrow> SelectedUpstream
   \<Rightarrow> upstream_response option \<Rightarrow> completion_state \<Rightarrow> (client_reply \<times> completion_state) option" where
  "commitResponse w sw js parse write c answer s =
     (case answer of
        None \<Rightarrow> Some (\<lparr>cl_status = 502, cl_headers = Map.empty, cl_body = ''upstream returned no response''\<rparr>,
                     finalizeEarlyError w ''upstream returned no response'' (release_upstream c s))
      | Some resp \<Rightarrow>
          if ur_status resp < 200 \<or> ur_status resp \<ge> 300 then commitErrorResponse w c resp s
          else if rc_IsStream (cc_RC (cs_ctx s)) then
            map_option (\<lambda>(out, s').
                (\<lparr>cl_status = ur_status resp,
                  cl_headers = add_headers (if up_Provider (sel_Upstream c) = ''bedrock-anthropic''
                        then hdr_Set (end_to_end (ur_headers resp)) ''Content-Type'' ''text/event-stream'' else end_to_end (ur_headers resp))
                      (case cc_ExtraUsage (cs_ctx s) of None \<Rightarrow> []
                       | Some eu \<Rightarrow> [(''X-Extra-Usage'', ''true''), (''X-Extra-Usage-Reason'', euctx_Reason eu)]),
                  cl_body = out\<rparr>, s'))
              (commitStreamingResponse w sw js write c (ur_reads resp) s)
          else commitNonStreamingResponse w js parse c resp s)"

section \<open>Every response is accounted for\<close>

definition held :: "completion_state \<Rightarrow> string \<Rightarrow> int" where "held s = conn_count (rt_connTracker (cs_router s))"

text \<open>What a database has been charged to a project: nothing, or a ledger row of the cost.\<close>
definition charged :: "string \<Rightarrow> int \<Rightarrow> database \<Rightarrow> database \<Rightarrow> bool" where
  "charged p cost db db' \<longleftrightarrow>
     db' = db \<or> (\<exists>t. db_txs db' = db_txs db @ [t] \<and> eut_AmountCredits t = - cost \<and> eut_ProjectID t = p
                    \<and> balance_of db' p = balance_of db p - cost)"

definition accounted :: "SelectedUpstream \<Rightarrow> completion_state \<Rightarrow> completion_state \<Rightarrow> bool" where
  "accounted c s s' \<longleftrightarrow>
     held s' = (held s)(sel_id c := held s (sel_id c) - 1)
     \<and> (\<exists>row. cs_requests s' = (cs_requests s)(cc_RequestID (cs_ctx s) \<mapsto> row) \<and> final_status (req_Status row)
          \<and> req_RetryStatus row \<noteq> ''''
          \<and> (req_IsExtraUsage row \<longleftrightarrow> cc_ExtraUsage (cs_ctx s) \<noteq> None)
          \<and> req_ExtraUsageCostCredits row = cc_CostCredits (cs_ctx s'))
     \<and> charged (rc_ProjectID (cc_RC (cs_ctx s))) (cc_CostCredits (cs_ctx s')) (cs_db s) (cs_db s')
     \<and> cs_records s' = cs_records s"

definition pending :: "completion_world \<Rightarrow> SelectedUpstream \<Rightarrow> completion_state \<Rightarrow> bool" where
  "pending w c s \<longleftrightarrow>
     cw_logUp w \<and> cc_RequestID (cs_ctx s) \<noteq> '''' \<and> cs_requests s (cc_RequestID (cs_ctx s)) \<noteq> None \<and> 0 < held s (sel_id c)"

lemma released_held: "0 < held s (sel_id c) \<Longrightarrow> held (release_upstream c s) = (held s)(sel_id c := held s (sel_id c) - 1)"
  by (auto simp: held_def conn_count_def Count_def release_upstream_def Release_def getOrCreate_def fun_eq_iff split: option.splits)

lemma release_simps [simp]:
  "cs_ctx (release_upstream c s) = cs_ctx s" "cs_requests (release_upstream c s) = cs_requests s"
  "cs_db (release_upstream c s) = cs_db s" "cs_records (release_upstream c s) = cs_records s"
  "cs_metrics (release_upstream c s) = cs_metrics s"
  by (simp_all add: release_upstream_def)

lemma settled_simps [simp]:
  "held (settled r s) = held s" "cs_requests (settled r s) = cs_requests s" "cs_records (settled r s) = cs_records s"
  "cs_router (settled r s) = cs_router s" "cc_RequestID (cs_ctx (settled r s)) = cc_RequestID (cs_ctx s)"
  "cc_ExtraUsage (cs_ctx (settled r s)) = cc_ExtraUsage (cs_ctx s)" "cc_RC (cs_ctx (settled r s)) = cc_RC (cs_ctx s)"
  by (simp_all add: settled_def held_def split: prod.split)

lemma settle_cost_charged:
  assumes "settle_cost up db sc reason desc cost now = (label, sc', db')"
  shows "charged (sc_ProjectID sc) (sc_CostCredits sc') db db'"
  using settle_cost_outcome[OF assms] by (auto simp: charged_def split: if_splits)

lemma settle_text_charged:
  "charged (rc_ProjectID (cc_RC (cs_ctx s))) (cc_CostCredits (cs_ctx (settle_text w u s))) (cs_db s) (cs_db (settle_text w u s))"
proof -
  obtain l sc db where e: "settleExtraUsage (cw_ledgerUp w) (cs_db s) (settle_view (cs_ctx s)) u (cw_now w) = (l, sc, db)" by (metis prod_cases3)
  have "charged (sc_ProjectID (settle_view (cs_ctx s))) (sc_CostCredits sc) (cs_db s) db"
    using e settle_cost_charged
    by (fastforce simp: settleExtraUsage_def charged_def split: option.splits if_splits)
  then show ?thesis using e by (simp add: settle_text_def settled_def settle_view_def)
qed

lemma settle_image_charged:
  "charged (rc_ProjectID (cc_RC (cs_ctx s))) (cc_CostCredits (cs_ctx (settle_image w u s))) (cs_db s) (cs_db (settle_image w u s))"
proof -
  obtain l sc db where e: "settleImageExtraUsage (cw_ledgerUp w) (cs_db s) (settle_view (cs_ctx s)) u (cw_now w) = (l, sc, db)" by (metis prod_cases3)
  have "charged (sc_ProjectID (settle_view (cs_ctx s))) (sc_CostCredits sc) (cs_db s) db"
    using e settle_cost_charged
    by (fastforce simp: settleImageExtraUsage_def charged_def split: option.splits if_splits)
  then show ?thesis using e by (simp add: settle_image_def settled_def settle_view_def)
qed

lemma settle_simps [simp]:
  "held (settle_text w u s) = held s" "cs_requests (settle_text w u s) = cs_requests s" "cs_records (settle_text w u s) = cs_records s"
  "cc_RequestID (cs_ctx (settle_text w u s)) = cc_RequestID (cs_ctx s)"
  "cc_ExtraUsage (cs_ctx (settle_text w u s)) = cc_ExtraUsage (cs_ctx s)" "cc_RC (cs_ctx (settle_text w u s)) = cc_RC (cs_ctx s)"
  "held (settle_image w i s) = held s" "cs_requests (settle_image w i s) = cs_requests s" "cs_records (settle_image w i s) = cs_records s"
  "cc_RequestID (cs_ctx (settle_image w i s)) = cc_RequestID (cs_ctx s)"
  "cc_ExtraUsage (cs_ctx (settle_image w i s)) = cc_ExtraUsage (cs_ctx s)" "cc_RC (cs_ctx (settle_image w i s)) = cc_RC (cs_ctx s)"
  by (simp_all add: settle_text_def settle_image_def)

lemma post_record_simps [simp]:
  "held (post_record w m u s) = held s" "cs_requests (post_record w m u s) = cs_requests s" "cs_records (post_record w m u s) = cs_records s"
  "cs_ctx (post_record w m u s) = cs_ctx s" "cs_db (post_record w m u s) = cs_db s"
  by (simp_all add: post_record_def held_def)

text \<open>A completion whose record carries the extra-usage fields of the context it runs in.\<close>
lemma record_accounted:
  assumes "pending w c s" and "held s2 = (held s)(sel_id c := held s (sel_id c) - 1)"
    and "cs_requests s2 = cs_requests s" "cs_records s2 = cs_records s"
    and "cc_RequestID (cs_ctx s2) = cc_RequestID (cs_ctx s)" "cc_ExtraUsage (cs_ctx s2) = cc_ExtraUsage (cs_ctx s)"
    and "charged (rc_ProjectID (cc_RC (cs_ctx s))) (cc_CostCredits (cs_ctx s2)) (cs_db s) (cs_db s2)"
    and "final_status (req_Status r)" "req_RetryStatus r \<noteq> ''''"
    and "req_IsExtraUsage r \<longleftrightarrow> cc_ExtraUsage (cs_ctx s2) \<noteq> None" "req_ExtraUsageCostCredits r = cc_CostCredits (cs_ctx s2)"
  shows "accounted c s (record_request w r s2)"
    and "\<exists>row0. cs_requests s (cc_RequestID (cs_ctx s)) = Some row0
      \<and> cs_requests (record_request w r s2) = (cs_requests s)(cc_RequestID (cs_ctx s) \<mapsto> completed_row row0 r)"
proof -
  obtain row0 where row0: "cs_requests s (cc_RequestID (cs_ctx s)) = Some row0" using assms(1) by (auto simp: pending_def)
  have r: "record_request w r s2 = s2\<lparr>cs_requests := (cs_requests s)(cc_RequestID (cs_ctx s) \<mapsto> completed_row row0 r)\<rparr>"
    using assms(1,3,5) row0 by (simp add: record_request_def complete_row_def CompleteRequest_def pending_def)
  have row: "req_IsExtraUsage (completed_row row0 r) = req_IsExtraUsage r"
      "req_ExtraUsageCostCredits (completed_row row0 r) = req_ExtraUsageCostCredits r"
    by (simp_all add: completed_row_def Let_def normalizeRequestRetryStatus_def)
  show "accounted c s (record_request w r s2)"
    using assms r row by (auto simp: accounted_def held_def)
  show "\<exists>row0. cs_requests s (cc_RequestID (cs_ctx s)) = Some row0
      \<and> cs_requests (record_request w r s2) = (cs_requests s)(cc_RequestID (cs_ctx s) \<mapsto> completed_row row0 r)"
    using r row0 by simp
qed

lemma applied_simps [simp]:
  "req_RetryStatus (applyRetryFields cc r) \<noteq> ''''" "req_Status (applyRetryFields cc r) = req_Status r"
  "req_IsExtraUsage (applyRetryFields cc r) = req_IsExtraUsage r" "req_Usage (applyRetryFields cc r) = req_Usage r"
  "req_ExtraUsageCostCredits (applyRetryFields cc r) = req_ExtraUsageCostCredits r"
  by (simp_all add: applyRetryFields_def)

lemma attempted_simps [simp]:
  "req_IsExtraUsage (attempted_request w cc c) \<longleftrightarrow> cc_ExtraUsage cc \<noteq> None"
  "req_ExtraUsageCostCredits (attempted_request w cc c) = cc_CostCredits cc"
  by (simp_all add: attempted_request_def extra_usage_fields_def)

lemma status_final [simp]: "final_status (fst (requestStatusFromMetrics e))"
  by (simp add: requestStatusFromMetrics_def final_status_def split: option.split interruption.split)

lemma accounted_post [simp]: "accounted c s (post_record w m u s') = accounted c s s'"
  by (simp add: accounted_def)

lemma unbind_tracker [simp]: "rt_connTracker (UnbindSessionFromUpstream r a b d) = rt_connTracker r"
  by (simp add: UnbindSessionFromUpstream_def split: option.split)

lemma streaming_request_accounted:
  assumes "pending w c s"
  shows "accounted c s (completeStreamingRequest w c m e s)"
    and "\<exists>row. cs_requests (completeStreamingRequest w c m e s) (cc_RequestID (cs_ctx s)) = Some row
      \<and> req_Usage row = sm_Usage m \<and> req_Status row = fst (requestStatusFromMetrics e)"
proof -
  let ?s2 = "settle_text w (sm_Usage m) (release_upstream c s)"
  define model where "model = (if sm_Model m = '''' then rc_Model (cc_RC (cs_ctx s)) else sm_Model m)"
  define r where "r = (attempted_request w (cs_ctx ?s2) c)\<lparr>req_MsgID := sm_MsgID m, req_Model := model, req_Streaming := True,
      req_Usage := sm_Usage m, req_CreditsConsumed := text_credits w (cs_ctx s) model (sm_Usage m),
      req_Status := fst (requestStatusFromMetrics e), req_ErrorMessage := snd (requestStatusFromMetrics e)\<rparr>"
  have eq: "completeStreamingRequest w c m e s = post_record w model (sm_Usage m) (record_request w (applyRetryFields (cs_ctx ?s2) r) ?s2)"
    by (simp add: completeStreamingRequest_def Let_def r_def model_def)
  have p: "held ?s2 = (held s)(sel_id c := held s (sel_id c) - 1)" using released_held assms by (simp add: pending_def)
  have ch: "charged (rc_ProjectID (cc_RC (cs_ctx s))) (cc_CostCredits (cs_ctx ?s2)) (cs_db s) (cs_db ?s2)"
    using settle_text_charged[of "release_upstream c s" w "sm_Usage m"] by simp
  note rec = record_accounted[OF assms p _ _ _ _ ch, of "applyRetryFields (cs_ctx ?s2) r"]
  show "accounted c s (completeStreamingRequest w c m e s)" unfolding eq accounted_post by (rule rec(1)) (simp_all add: r_def)
  have "\<exists>row0. cs_requests s (cc_RequestID (cs_ctx s)) = Some row0 \<and> cs_requests (record_request w (applyRetryFields (cs_ctx ?s2) r) ?s2)
      = (cs_requests s)(cc_RequestID (cs_ctx s) \<mapsto> completed_row row0 (applyRetryFields (cs_ctx ?s2) r))"
    by (rule rec(2)) (simp_all add: r_def)
  then show "\<exists>row. cs_requests (completeStreamingRequest w c m e s) (cc_RequestID (cs_ctx s)) = Some row
      \<and> req_Usage row = sm_Usage m \<and> req_Status row = fst (requestStatusFromMetrics e)"
    unfolding eq by (auto simp: r_def completed_row_def normalizeRequestRetryStatus_def applyRetryFields_def Let_def)
qed

lemma complete_stream_accounted:
  assumes "pending w c s"
  shows "accounted c s (complete_stream w c m i s)"
    and "\<exists>row. cs_requests (complete_stream w c m i s) (cc_RequestID (cs_ctx s)) = Some row
      \<and> req_Usage row = sm_Usage m
      \<and> (req_Status row = ''success'' \<longleftrightarrow> i = None \<and> \<not> sm_CodexCapacityError m \<and> \<not> cc_CodexCapacityError (cs_ctx s))"
proof -
  define s1 where "s1 = (if sm_CodexCapacityError m then note_capacity w c i s else s)"
  define e where "e = (case i of Some msg \<Rightarrow> Some (Interrupted msg)
               | None \<Rightarrow> if cc_CodexCapacityError (cs_ctx s1) then Some CodexCapacity else None)"
  have s1: "complete_stream w c m i s = completeStreamingRequest w c m e s1"
      "held s1 = held s" "cs_requests s1 = cs_requests s" "cs_records s1 = cs_records s" "cs_db s1 = cs_db s"
      "cc_RequestID (cs_ctx s1) = cc_RequestID (cs_ctx s)" "cc_ExtraUsage (cs_ctx s1) = cc_ExtraUsage (cs_ctx s)"
      "cc_RC (cs_ctx s1) = cc_RC (cs_ctx s)"
      "e = None \<longleftrightarrow> i = None \<and> \<not> sm_CodexCapacityError m \<and> \<not> cc_CodexCapacityError (cs_ctx s)"
    by (auto simp: complete_stream_def Let_def s1_def e_def note_capacity_def held_def split: option.split)
  have p: "pending w c s1" using assms s1 by (simp add: pending_def)
  show "accounted c s (complete_stream w c m i s)"
    using streaming_request_accounted(1)[OF p, of m e] s1 by (simp add: accounted_def)
  have "fst (requestStatusFromMetrics e) = ''success'' \<longleftrightarrow> e = None"
    by (auto simp: requestStatusFromMetrics_def split: option.splits interruption.splits)
  then show "\<exists>row. cs_requests (complete_stream w c m i s) (cc_RequestID (cs_ctx s)) = Some row
      \<and> req_Usage row = sm_Usage m
      \<and> (req_Status row = ''success'' \<longleftrightarrow> i = None \<and> \<not> sm_CodexCapacityError m \<and> \<not> cc_CodexCapacityError (cs_ctx s))"
    using streaming_request_accounted(2)[OF p, of m e] s1 by auto
qed

lemma image_stream_accounted:
  assumes "pending w c s"
  shows "accounted c s (completeImageStreamingRequest w c usage present i s)"
proof -
  let ?s2 = "if present then settle_image w usage (release_upstream c s) else release_upstream c s"
  have p: "held ?s2 = (held s)(sel_id c := held s (sel_id c) - 1)" using released_held assms by (simp add: pending_def)
  have ch: "charged (rc_ProjectID (cc_RC (cs_ctx s))) (cc_CostCredits (cs_ctx ?s2)) (cs_db s) (cs_db ?s2)"
    using settle_image_charged[of "release_upstream c s" w usage] by (cases present) (simp_all add: charged_def)
  show ?thesis unfolding completeImageStreamingRequest_def Let_def accounted_post
    by (rule record_accounted(1)[OF assms p _ _ _ _ ch]) (simp_all add: final_status_def)
qed

lemma early_error_accounted:
  assumes "pending w c s" shows "accounted c s (finalizeEarlyError w msg (release_upstream c s))"
proof -
  have r: "finalizeEarlyError w msg (release_upstream c s) = record_request w (buildEarlyErrorRequest w (cs_ctx s) msg) (release_upstream c s)"
    using assms by (simp add: finalizeEarlyError_def record_request_def pending_def)
  have p: "held (release_upstream c s) = (held s)(sel_id c := held s (sel_id c) - 1)" using released_held assms by (simp add: pending_def)
  have ch: "charged (rc_ProjectID (cc_RC (cs_ctx s))) (cc_CostCredits (cs_ctx (release_upstream c s))) (cs_db s) (cs_db (release_upstream c s))"
    by (simp add: charged_def)
  show ?thesis unfolding r
    by (rule record_accounted(1)[OF assms p _ _ _ _ ch]) (simp_all add: buildEarlyErrorRequest_def extra_usage_fields_def final_status_def)
qed

lemma error_response_accounted:
  assumes "pending w c s" and "commitErrorResponse w c resp s = Some (reply, s')"
  shows "accounted c s s' \<and> cl_status reply = ur_status resp"
proof -
  obtain body where b: "error_body (ur_reads resp) = Some body" using assms(2) by (auto simp: commitErrorResponse_def split: option.splits)
  have p: "held (release_upstream c s) = (held s)(sel_id c := held s (sel_id c) - 1)" using released_held assms by (simp add: pending_def)
  have ch: "charged (rc_ProjectID (cc_RC (cs_ctx s))) (cc_CostCredits (cs_ctx (release_upstream c s))) (cs_db s) (cs_db (release_upstream c s))"
    by (simp add: charged_def)
  show ?thesis using assms(2) b record_accounted(1)[OF assms(1) p _ _ _ _ ch]
    by (auto simp: commitErrorResponse_def Let_def final_status_def)
qed

lemma text_body_accounted:
  assumes "pending w c s" shows "accounted c s (snd (commit_text_body w parse c body (release_upstream c s)))"
proof -
  let ?s0 = "release_upstream c s" and ?cc = "cs_ctx s"
  let ?parsed = "if rc_RequestKind (cc_RC ?cc) \<noteq> ''anthropic_count_tokens''
    then ParseResponse (GetProviderTransformer (up_Provider (sel_Upstream c)) (rc_RequestKind (cc_RC ?cc))) (parse body) else None"
  define s1 where "s1 = (case (cc_ExtraUsage ?cc, ?parsed) of (Some _, Some m) \<Rightarrow> settle_text w (rm_Usage m) ?s0 | _ \<Rightarrow> ?s0)"
  have k: "held s1 = held ?s0" "cs_requests s1 = cs_requests s" "cs_records s1 = cs_records s"
      "cc_RequestID (cs_ctx s1) = cc_RequestID ?cc" "cc_ExtraUsage (cs_ctx s1) = cc_ExtraUsage ?cc"
      "charged (rc_ProjectID (cc_RC ?cc)) (cc_CostCredits (cs_ctx s1)) (cs_db s) (cs_db s1)"
    using settle_text_charged[of ?s0 w]
    by (auto simp: s1_def charged_def split: option.splits)
  have p: "held s1 = (held s)(sel_id c := held s (sel_id c) - 1)" using released_held assms k(1) by (simp add: pending_def)
  show ?thesis unfolding commit_text_body_def Let_def release_simps s1_def[symmetric] snd_conv accounted_post
    by (rule record_accounted(1)[OF assms p k(2,3,4,5,6)]) (simp_all add: final_status_def)
qed

lemma image_body_accounted:
  assumes "pending w c s" shows "accounted c s (snd (commitImageNonStreamingResponseBody w js c body (release_upstream c s)))"
proof -
  let ?s0 = "release_upstream c s" and ?cc = "cs_ctx s"
  define im where "im = (case ParseImageNonStreamingResponse js body of Some im \<Rightarrow> im
                | None \<Rightarrow> \<lparr>irm_Model = '''', irm_Usage = no_image_usage, irm_UsagePresent = False\<rparr>)"
  define s1 where "s1 = (if cc_ExtraUsage ?cc \<noteq> None \<and> irm_UsagePresent im then settle_image w (irm_Usage im) ?s0 else ?s0)"
  have k: "held s1 = held ?s0" "cs_requests s1 = cs_requests s" "cs_records s1 = cs_records s"
      "cc_RequestID (cs_ctx s1) = cc_RequestID ?cc" "cc_ExtraUsage (cs_ctx s1) = cc_ExtraUsage ?cc"
      "charged (rc_ProjectID (cc_RC ?cc)) (cc_CostCredits (cs_ctx s1)) (cs_db s) (cs_db s1)"
    using settle_image_charged[of ?s0 w] by (auto simp: s1_def charged_def)
  have p: "held s1 = (held s)(sel_id c := held s (sel_id c) - 1)" using released_held assms k(1) by (simp add: pending_def)
  show ?thesis unfolding commitImageNonStreamingResponseBody_def Let_def release_simps im_def[symmetric] s1_def[symmetric] snd_conv accounted_post
    by (rule record_accounted(1)[OF assms p k(2,3,4,5,6)]) (simp_all add: final_status_def)
qed

lemma metrics_irrelevant [simp]:
  "accounted c s (s'\<lparr>cs_metrics := m\<rparr>) = accounted c s s'" "accounted c (s\<lparr>cs_metrics := m\<rparr>) s' = accounted c s s'"
  "pending w c (s\<lparr>cs_metrics := m\<rparr>) = pending w c s" "held (s\<lparr>cs_metrics := m\<rparr>) = held s"
  by (simp_all add: accounted_def pending_def held_def)

text \<open>One callback: it runs once, whichever side of the copy's error it falls on.\<close>
lemma finish_copy_one:
  assumes "before @ after = [x]"
  obtains m1 m2 where "finish_copy w c run before after err s = (run x (s\<lparr>cs_metrics := m1\<rparr>))\<lparr>cs_metrics := m2\<rparr>"
proof -
  consider "before = [x]" "after = []" | "before = []" "after = [x]" using assms by (cases before) auto
  then show ?thesis
  proof cases
    case 1
    then show ?thesis
      by (intro that[of "if err \<noteq> None then RecordError (cs_metrics (run x s)) (sel_id c) (cw_now w) else cs_metrics (run x s)" "cs_metrics s"])
        (auto simp: finish_copy_def Let_def)
  next
    case 2
    let ?m1 = "if err \<noteq> None then RecordError (cs_metrics s) (sel_id c) (cw_now w) else cs_metrics s"
    show ?thesis using 2 by (intro that[of "cs_metrics (run x (s\<lparr>cs_metrics := ?m1\<rparr>))" ?m1]) (auto simp: finish_copy_def Let_def)
  qed
qed

lemma finish_copy_none: "\<exists>m. finish_copy w c run [] [] err s = s\<lparr>cs_metrics := m\<rparr>"
  by (cases "err = None") (auto simp: finish_copy_def Let_def intro: exI[of _ "cs_metrics s"])

lemma Close_prefix: "ss_calls st @ List.drop (length (ss_calls st)) (ss_calls (si_Close i w e st)) = ss_calls (si_Close i w e st)"
  by (auto simp: si_Close_def si_finish_def flushRemaining_def)

lemma image_Close_prefix: "is_calls st @ List.drop (length (is_calls st)) (is_calls (image_Close js e st)) = is_calls (image_Close js e st)"
  by (auto simp: image_Close_def image_finish_def image_flushRemaining_def)

definition text_kind :: "completion_state \<Rightarrow> bool" where "text_kind s \<longleftrightarrow> \<not> isImageRequestKind (rc_RequestKind (cc_RC (cs_ctx s)))"

definition stream_interceptor :: "SelectedUpstream \<Rightarrow> completion_state \<Rightarrow> interceptor" where
  "stream_interceptor c s = GetProviderTransformer (up_Provider (sel_Upstream c)) (rc_RequestKind (cc_RC (cs_ctx s)))"

text \<open>The metrics of the bytes read.\<close>
definition metrics_of :: "interceptor \<Rightarrow> stream_world \<Rightarrow> string \<Rightarrow> StreamMetrics option" where
  "metrics_of i sw b = stream_metrics i (foldl (parseLine i sw) stream_start (text_lines b))"

lemma text_stream_ends:
  assumes "commitStreamingResponse w sw js write c rds s = Some (out, s')" and "text_kind s"
  shows "\<exists>n e. n < length rds \<and> (\<forall>j < n. snd (rds ! j) = None) \<and> (e = None \<longleftrightarrow> snd (rds ! n) = Some EOF)
    \<and> (\<exists>rest. concat (map fst (take (Suc n) rds)) = out @ rest)
    \<and> ((\<forall>report. stream_interceptor c s \<noteq> IOpenAI report) \<longrightarrow> metrics_of (stream_interceptor c s) sw (concat (map fst (take (Suc n) rds))) \<noteq> None)
    \<and> (case metrics_of (stream_interceptor c s) sw (concat (map fst (take (Suc n) rds))) of
         None \<Rightarrow> (\<exists>m. s' = s\<lparr>cs_metrics := m\<rparr>)
       | Some m \<Rightarrow> (\<exists>m1 m2. s' = (complete_stream w c m e (s\<lparr>cs_metrics := m1\<rparr>))\<lparr>cs_metrics := m2\<rparr>))"
proof -
  let ?i = "stream_interceptor c s"
  obtain err st where cp: "copyWithFlush (si_Read ?i sw) write 0 rds si_new = Some (out, err, st)"
      and s': "s' = finish_copy w c (\<lambda>(m, i). complete_stream w c m i) (ss_calls st)
            (List.drop (length (ss_calls st)) (ss_calls (si_Close ?i sw err st))) err s"
    using assms by (auto simp: commitStreamingResponse_def text_kind_def stream_interceptor_def Let_def)
  let ?calls = "ss_calls (si_Close ?i sw err st)"
  have "stream_to_client ?i sw write rds = Some (out, ?calls)" using cp by (simp add: stream_to_client_def)
  from stream_metrics_exact_raw[OF this] obtain n e where n: "n < length rds" "\<forall>j < n. snd (rds ! j) = None"
      "?calls = callbacks ?i sw (concat (map fst (take (Suc n) rds))) e" "e = None \<longleftrightarrow> snd (rds ! n) = Some EOF"
      "\<exists>rest. concat (map fst (take (Suc n) rds)) = out @ rest" "(\<forall>report. ?i \<noteq> IOpenAI report) \<longrightarrow> length ?calls = 1"
    by blast
  let ?m = "metrics_of ?i sw (concat (map fst (take (Suc n) rds)))"
  have calls: "?calls = (case ?m of None \<Rightarrow> [] | Some m \<Rightarrow> [(m, e)])" using n(3) by (simp add: callbacks_def metrics_of_def)
  have "case ?m of None \<Rightarrow> (\<exists>m. s' = s\<lparr>cs_metrics := m\<rparr>)
       | Some m \<Rightarrow> (\<exists>m1 m2. s' = (complete_stream w c m e (s\<lparr>cs_metrics := m1\<rparr>))\<lparr>cs_metrics := m2\<rparr>)"
  proof (cases ?m)
    case None
    then have "ss_calls st = []" "?calls = []" using calls Close_prefix[of st ?i sw err] by auto
    then show ?thesis using finish_copy_none[of w c _ err s] s' None by simp
  next
    case (Some m)
    then have "ss_calls st @ List.drop (length (ss_calls st)) ?calls = [(m, e)]" using calls Close_prefix[of st ?i sw err] by simp
    then obtain m1 m2 where "s' = ((\<lambda>(m, i). complete_stream w c m i) (m, e) (s\<lparr>cs_metrics := m1\<rparr>))\<lparr>cs_metrics := m2\<rparr>"
      unfolding s' by (rule finish_copy_one)
    then show ?thesis using Some by auto
  qed
  then show ?thesis using n calls by (intro exI[of _ n] exI[of _ e]) (auto split: option.splits)
qed

lemma image_stream_ends_accounted:
  assumes "commitStreamingResponse w sw js write c rds s = Some (out, s')" and "\<not> text_kind s" and "pending w c s"
  shows "accounted c s s'"
proof -
  obtain err st where cp: "copyWithFlush (image_Read js) write 0 rds newImageStreamInterceptor = Some (out, err, st)"
      and s': "s' = finish_copy w c (\<lambda>(u, p, i). completeImageStreamingRequest w c u p i) (is_calls st)
            (List.drop (length (is_calls st)) (is_calls (image_Close js err st))) err s"
    using assms by (auto simp: commitStreamingResponse_def text_kind_def Let_def)
  have "image_to_client js write rds = Some (out, is_calls (image_Close js err st))" using cp by (simp add: image_to_client_def)
  from image_stream_ends[OF this] obtain u p e where "is_calls (image_Close js err st) = [(u, p, e)]" by (auto simp: Let_def)
  then have "is_calls st @ List.drop (length (is_calls st)) (is_calls (image_Close js err st)) = [(u, p, e)]"
    using image_Close_prefix[of st js err] by simp
  then obtain m1 m2 where "s' = ((\<lambda>(u, p, i). completeImageStreamingRequest w c u p i) (u, p, e) (s\<lparr>cs_metrics := m1\<rparr>))\<lparr>cs_metrics := m2\<rparr>"
    unfolding s' by (rule finish_copy_one)
  then have s2: "s' = (completeImageStreamingRequest w c u p e (s\<lparr>cs_metrics := m1\<rparr>))\<lparr>cs_metrics := m2\<rparr>" by simp
  have "pending w c (s\<lparr>cs_metrics := m1\<rparr>)" using assms(3) by simp
  from image_stream_accounted[OF this] show ?thesis unfolding s2 by simp
qed

text \<open>A text stream is accounted for, or its interceptor never reported, and then nothing has changed but the metrics.\<close>
lemma text_stream_accounted:
  assumes "commitStreamingResponse w sw js write c rds s = Some (out, s')" "text_kind s" "pending w c s"
  shows "accounted c s s'
    \<or> held s' = held s \<and> cs_requests s' = cs_requests s \<and> cs_db s' = cs_db s
       \<and> (\<exists>report. stream_interceptor c s = IOpenAI report)
       \<and> (\<exists>n. metrics_of (stream_interceptor c s) sw (concat (map fst (take (Suc n) rds))) = None)"
proof -
  obtain n e where n: "(\<forall>report. stream_interceptor c s \<noteq> IOpenAI report) \<longrightarrow> metrics_of (stream_interceptor c s) sw (concat (map fst (take (Suc n) rds))) \<noteq> None"
      "case metrics_of (stream_interceptor c s) sw (concat (map fst (take (Suc n) rds))) of
         None \<Rightarrow> (\<exists>m. s' = s\<lparr>cs_metrics := m\<rparr>)
       | Some m \<Rightarrow> (\<exists>m1 m2. s' = (complete_stream w c m e (s\<lparr>cs_metrics := m1\<rparr>))\<lparr>cs_metrics := m2\<rparr>)"
    using text_stream_ends[OF assms(1,2)] by blast
  show ?thesis
  proof (cases "metrics_of (stream_interceptor c s) sw (concat (map fst (take (Suc n) rds)))")
    case None
    then show ?thesis using n by (auto simp: held_def)
  next
    case (Some m)
    then obtain m1 m2 where s': "s' = (complete_stream w c m e (s\<lparr>cs_metrics := m1\<rparr>))\<lparr>cs_metrics := m2\<rparr>" using n(2) by auto
    have "pending w c (s\<lparr>cs_metrics := m1\<rparr>)" using assms(3) by simp
    from complete_stream_accounted(1)[OF this] show ?thesis unfolding s' by simp
  qed
qed

text \<open>C19: every response that is committed is accounted for: the connection is released once; the request row
  gets a final status and carries the extra usage it was admitted with and the cost that was computed; the
  ledger of the project is charged that cost or nothing; no other row is touched. The one exception is a
  stream of the Responses API that ends without an event with usage: it leaves connection, row and ledger as
  they were, so the connection stays counted and the row in processing.\<close>
theorem response_accounted:
  assumes "commitResponse w sw js parse write c answer s = Some (reply, s')" and "pending w c s"
  shows "accounted c s s'
    \<or> held s' = held s \<and> cs_requests s' = cs_requests s \<and> cs_db s' = cs_db s
       \<and> rc_IsStream (cc_RC (cs_ctx s)) \<and> (\<exists>report. stream_interceptor c s = IOpenAI report)
       \<and> (\<exists>resp n. answer = Some resp \<and> metrics_of (stream_interceptor c s) sw (concat (map fst (take (Suc n) (ur_reads resp)))) = None)"
proof (cases answer)
  case None
  then show ?thesis using assms early_error_accounted by (auto simp: commitResponse_def)
next
  case (Some resp)
  show ?thesis
  proof (cases "ur_status resp < 200 \<or> ur_status resp \<ge> 300")
    case True
    then show ?thesis using assms Some error_response_accounted by (auto simp: commitResponse_def)
  next
    case ok: False
    show ?thesis
    proof (cases "rc_IsStream (cc_RC (cs_ctx s))")
      case True
      then obtain out where st: "commitStreamingResponse w sw js write c (ur_reads resp) s = Some (out, s')"
        using assms(1) Some ok by (auto simp: commitResponse_def)
      show ?thesis
      proof (cases "text_kind s")
        case False
        then show ?thesis using image_stream_ends_accounted[OF st] assms(2) by blast
      next
        case tk: True
        show ?thesis using text_stream_accounted[OF st tk assms(2)] Some True by blast
      qed
    next
      case False
      then have "commitNonStreamingResponse w js parse c resp s = Some (reply, s')" using assms(1) Some ok by (simp add: commitResponse_def)
      then show ?thesis
        using early_error_accounted[OF assms(2)] text_body_accounted[OF assms(2)] image_body_accounted[OF assms(2)]
        by (auto simp: commitNonStreamingResponse_def split: prod.splits option.splits read_error.splits if_splits)
          (metis snd_conv)+
    qed
  qed
qed


lemma no_terminal_metrics:
  assumes "\<forall>l \<in> set (text_lines b). \<forall>d. sse_data l = Some d \<longrightarrow> \<not> ev_HasUsage (ParseOpenAIStreamEvent (sw_json sw d)) \<and> \<not> sw_capacity sw d"
  shows "metrics_of (IOpenAI report) sw b = None"
proof -
  have "\<not> sa_HasUsage (foldl (parseLine (IOpenAI report) sw) a ls) \<and> \<not> sa_Capacity (foldl (parseLine (IOpenAI report) sw) a ls)"
    if "\<not> sa_HasUsage a \<and> \<not> sa_Capacity a" and "set ls \<subseteq> set (text_lines b)" for a ls
    using that
  proof (induction ls arbitrary: a)
    case (Cons l ls)
    have "\<not> sa_HasUsage (parseLine (IOpenAI report) sw a l) \<and> \<not> sa_Capacity (parseLine (IOpenAI report) sw a l)"
      using Cons.prems assms by (auto simp: parseLine_defs take_names_def Let_def split: option.split)
    then show ?case using Cons by simp
  qed simp
  from this[of stream_start "text_lines b"] show ?thesis by (simp add: metrics_of_def stream_metrics_defs stream_start_def Let_def)
qed

lemma interrupted_stream_keeps_all:
  assumes "commitStreamingResponse w sw js write c rds s = Some (out, s')" and "text_kind s" and "stream_interceptor c s = IOpenAI report"
    and "\<forall>k \<le> length rds. \<forall>l \<in> set (text_lines (concat (map fst (take k rds)))). \<forall>d. sse_data l = Some d
        \<longrightarrow> \<not> ev_HasUsage (ParseOpenAIStreamEvent (sw_json sw d)) \<and> \<not> sw_capacity sw d"
  shows "\<exists>m. s' = s\<lparr>cs_metrics := m\<rparr>"
proof -
  obtain n e where n: "n < length rds"
      "case metrics_of (stream_interceptor c s) sw (concat (map fst (take (Suc n) rds))) of
         None \<Rightarrow> (\<exists>m. s' = s\<lparr>cs_metrics := m\<rparr>)
       | Some m \<Rightarrow> (\<exists>m1 m2. s' = (complete_stream w c m e (s\<lparr>cs_metrics := m1\<rparr>))\<lparr>cs_metrics := m2\<rparr>)"
    using text_stream_ends[OF assms(1,2)] by blast
  have "metrics_of (stream_interceptor c s) sw (concat (map fst (take (Suc n) rds))) = None"
    unfolding assms(3) by (rule no_terminal_metrics) (use assms(4)[rule_format, of "Suc n"] n(1) in auto)
  then show ?thesis using n(2) by simp
qed

text \<open>C23: a stream of the Responses API that ends or is cut off before a terminal event is never completed: the
  connection stays counted against the upstream, the request row stays in processing, and nothing is
  settled or counted for the project, whatever was delivered to the client.\<close>
theorem interrupted_responses_stream_leaks:
  assumes "commitStreamingResponse w sw js write c rds s = Some (out, s')" and "text_kind s" and "stream_interceptor c s = IOpenAI report"
    and "\<forall>k \<le> length rds. \<forall>l \<in> set (text_lines (concat (map fst (take k rds)))). \<forall>d. sse_data l = Some d
        \<longrightarrow> \<not> ev_HasUsage (ParseOpenAIStreamEvent (sw_json sw d)) \<and> \<not> sw_capacity sw d"
  shows "held s' = held s \<and> cs_requests s' = cs_requests s \<and> cs_records s' = cs_records s \<and> cs_db s' = cs_db s
    \<and> cs_limiter s' = cs_limiter s"
  using interrupted_stream_keeps_all[OF assms] by auto

text \<open>A model name that the upstream reports and that neither the policy nor the catalog knows makes the request
  free for the subscription: credits are computed for that name, not for the model that was asked for.\<close>
lemma foreign_model_name_is_free:
  assumes "rc_Policy (cc_RC cc) = Some p" and "resolve_rate p model (cc_ClientBucket cc) (catalogDefaultRate w model) = None"
  shows "text_credits w cc model u = 0"
  using assms by (simp add: text_credits_def ComputeCreditsForClient_def)

section \<open>Samples\<close>

definition completion_sample :: "string \<Rightarrow> completion_state" where
  "completion_sample kind =
     \<lparr>cs_ctx = \<lparr>cc_RC = \<lparr>rc_ProjectID = ''p'', rc_APIKeyID = ''k'', rc_OAuthGrantID = '''', rc_UserID = ''u'', rc_Model = ''m'', rc_ModelRef = None,
          rc_IsStream = True, rc_RequestKind = kind, rc_TraceID = '''', rc_TraceSource = '''', rc_SessionID = '''', rc_Policy = None,
          rc_HttpLogEnabled = False, rc_BodyModel = None\<rparr>,
        cc_RequestID = ''r'', cc_ClientIP = '''', cc_ClientBucket = ''other'', cc_ExtraUsage = None, cc_CostCredits = 0, cc_BalanceAfter = 0,
        cc_CodexCapacityError = False, cc_Attempt = 1, cc_RetryStatus = '''', cc_RetryReason = ''''\<rparr>,
      cs_router = exec_router\<lparr>rt_connTracker := [''a'' \<mapsto> 1]\<rparr>, cs_metrics = Map.empty, cs_db = empty_db,
      cs_requests = [''r'' \<mapsto> log_sample], cs_records = [], cs_limiter = None\<rparr>"

definition completion_world_sample :: completion_world where
  "completion_world_sample = \<lparr>cw_ledgerUp = True, cw_logUp = True, cw_catalog = None, cw_now = 7, cw_latency = 3\<rparr>"

definition sample_selected :: "string \<Rightarrow> SelectedUpstream" where
  "sample_selected provider = \<lparr>sel_Upstream = (sample_upstream ''a'')\<lparr>up_Provider := provider\<rparr>, sel_APIKey = ''''\<rparr>"

lemma sample_pending: "pending completion_world_sample (sample_selected provider) (completion_sample kind)"
  by (simp add: pending_def completion_world_sample_def completion_sample_def held_def conn_count_def Count_def getOrCreate_def
      sample_selected_def sel_id_def sample_upstream_def)

lemma demo_commit:
  "(case commitResponse completion_world_sample demo_world image_sample (\<lambda>_. None) (\<lambda>_. True) (sample_selected ''anthropic'')
        (Some \<lparr>ur_status = 200, ur_headers = Map.empty, ur_reads = demo_reads\<rparr>) (completion_sample ''anthropic_messages'') of
      None \<Rightarrow> False
    | Some (reply, s') \<Rightarrow> cl_status reply = 200 \<and> held s' ''a'' = 0)"
  by code_simp

lemma response_accounted_witness:
  "\<exists>reply s'. commitResponse completion_world_sample demo_world image_sample (\<lambda>_. None) (\<lambda>_. True) (sample_selected ''anthropic'')
        (Some \<lparr>ur_status = 200, ur_headers = Map.empty, ur_reads = demo_reads\<rparr>) (completion_sample ''anthropic_messages'') = Some (reply, s')
    \<and> accounted (sample_selected ''anthropic'') (completion_sample ''anthropic_messages'') s'"
proof -
  obtain reply s' where e: "commitResponse completion_world_sample demo_world image_sample (\<lambda>_. None) (\<lambda>_. True) (sample_selected ''anthropic'')
        (Some \<lparr>ur_status = 200, ur_headers = Map.empty, ur_reads = demo_reads\<rparr>) (completion_sample ''anthropic_messages'') = Some (reply, s')"
    using demo_commit by (auto split: option.splits prod.splits)
  have "stream_interceptor (sample_selected ''anthropic'') (completion_sample ''anthropic_messages'') = IAnthropic"
    by (simp add: stream_interceptor_def GetProviderTransformer_def sample_selected_def)
  then show ?thesis using response_accounted[OF e sample_pending] e by auto
qed

lemma demo_commit_stream:
  "(case commitStreamingResponse completion_world_sample demo_world image_sample (\<lambda>_. True) (sample_selected ''anthropic'') demo_reads
       (completion_sample ''anthropic_messages'') of None \<Rightarrow> False | Some _ \<Rightarrow> True)"
  by code_simp


definition cut_reads :: reads where
  "cut_reads = [(''data: s'' @ [newline], None), ('''', Some (ReadError ''reset''))]"

lemma demo_cut:
  "(case commitStreamingResponse completion_world_sample demo_world image_sample (\<lambda>_. True) (sample_selected ''openai'') cut_reads
       (completion_sample ''openai_responses'') of None \<Rightarrow> False | Some (out, s') \<Rightarrow> out \<noteq> '''')"
  "list_all (\<lambda>k. text_lines (concat (map fst (take k cut_reads))) = (if k = 0 then [] else [''data: s'' @ [newline]])) [0, 1, 2]"
  "sse_data (''data: s'' @ [newline]) = Some ''s''"
  "\<not> ev_HasUsage (ParseOpenAIStreamEvent (sw_json demo_world ''s''))" "\<not> sw_capacity demo_world ''s''"
  by code_simp+

lemma interrupted_responses_stream_leaks_witness:
  "\<exists>out s'. commitStreamingResponse completion_world_sample demo_world image_sample (\<lambda>_. True) (sample_selected ''openai'') cut_reads
       (completion_sample ''openai_responses'') = Some (out, s') \<and> out \<noteq> '''' \<and> held s' ''a'' = 1
    \<and> cs_requests s' ''r'' = Some log_sample"
proof -
  obtain out s' where e: "commitStreamingResponse completion_world_sample demo_world image_sample (\<lambda>_. True) (sample_selected ''openai'') cut_reads
       (completion_sample ''openai_responses'') = Some (out, s')" "out \<noteq> ''''"
    using demo_cut(1) by (auto split: option.splits)
  have tk: "text_kind (completion_sample ''openai_responses'')" by (simp add: text_kind_def isImageRequestKind_def completion_sample_def)
  have i: "stream_interceptor (sample_selected ''openai'') (completion_sample ''openai_responses'') = IOpenAI False"
    by (simp add: stream_interceptor_def GetProviderTransformer_def sample_selected_def completion_sample_def)
  have "\<forall>k \<le> length cut_reads. \<forall>l \<in> set (text_lines (concat (map fst (take k cut_reads)))). \<forall>d. sse_data l = Some d
        \<longrightarrow> \<not> ev_HasUsage (ParseOpenAIStreamEvent (sw_json demo_world d)) \<and> \<not> sw_capacity demo_world d"
  proof (intro allI impI ballI)
    fix k l d assume k: "k \<le> length cut_reads" "l \<in> set (text_lines (concat (map fst (take k cut_reads))))" "sse_data l = Some d"
    then have "k \<in> {0, 1, 2}" by (auto simp: cut_reads_def)
    then have "l = ''data: s'' @ [newline]" using k(2) demo_cut(2) by (auto split: if_splits)
    then have "d = ''s''" using k(3) demo_cut(3) by simp
    then show "\<not> ev_HasUsage (ParseOpenAIStreamEvent (sw_json demo_world d)) \<and> \<not> sw_capacity demo_world d" using demo_cut(4,5) by simp
  qed
  note kept = interrupted_responses_stream_leaks[OF e(1) tk i this]
  have "held (completion_sample ''openai_responses'') ''a'' = 1" "cs_requests (completion_sample ''openai_responses'') ''r'' = Some log_sample"
    by (simp_all add: completion_sample_def held_def conn_count_def Count_def getOrCreate_def)
  then show ?thesis using kept e by (intro exI[of _ out] exI[of _ s']) simp
qed

end
