(* ===== verification/Collector.thy ===== *)
theory Collector
  imports RequestLog
begin

text \<open>
  The collector (collector/collector.go): a buffered channel of request records and one goroutine that writes
  them in batches. Its steps interleave with the callers of Record in any order. A write is the batch it was
  given and whether it succeeded; a batch whose write failed is lost, as in the code, which only logs it.
\<close>

section \<open>Operations\<close>

record collector_config =
  cfg_BatchSize :: int
  cfg_FlushInterval :: duration
  cfg_BufferSize :: int

record collector =
  co_config :: collector_config
  co_events :: "Request list"
  co_closed :: bool
  co_batch :: "Request list"
  co_done :: bool
  co_writes :: "(Request list \<times> bool) list"

text \<open>New, with the collector's goroutine not yet at work.\<close>
definition New_collector :: "collector_config \<Rightarrow> collector" where
  "New_collector c =
     \<lparr>co_config = \<lparr>cfg_BatchSize = (if cfg_BatchSize c \<le> 0 then 100 else cfg_BatchSize c),
                   cfg_FlushInterval = (if cfg_FlushInterval c \<le> 0 then 1000000000 else cfg_FlushInterval c),
                   cfg_BufferSize = (if cfg_BufferSize c \<le> 0 then 10000 else cfg_BufferSize c)\<rparr>,
      co_events = [], co_closed = False, co_batch = [], co_done = False, co_writes = []\<rparr>"

text \<open>Record: whether the record was accepted; a send on the closed channel panics.\<close>
definition Record :: "collector \<Rightarrow> Request \<Rightarrow> (bool \<times> collector) option" where
  "Record c r =
     (if co_closed c then None
      else if int (length (co_events c)) < cfg_BufferSize (co_config c) then Some (True, c\<lparr>co_events := co_events c @ [r]\<rparr>)
      else Some (False, c))"

definition flush_batch :: "bool \<Rightarrow> collector \<Rightarrow> collector" where
  "flush_batch ok c = c\<lparr>co_writes := co_writes c @ [(co_batch c, ok)], co_batch := []\<rparr>"

text \<open>The goroutine receives: an event, or that the channel is closed and drained. None: it has to wait.\<close>
definition run_receive :: "bool \<Rightarrow> collector \<Rightarrow> collector option" where
  "run_receive ok c =
     (if co_done c then None
      else case co_events c of
          e # es \<Rightarrow>
            (let c1 = c\<lparr>co_events := es, co_batch := co_batch c @ [e]\<rparr>
             in Some (if int (length (co_batch c1)) \<ge> cfg_BatchSize (co_config c1) then flush_batch ok c1 else c1))
        | [] \<Rightarrow> if \<not> co_closed c then None
               else Some ((if co_batch c \<noteq> [] then flush_batch ok c else c)\<lparr>co_done := True\<rparr>))"

definition run_tick :: "bool \<Rightarrow> collector \<Rightarrow> collector option" where
  "run_tick ok c =
     (if co_done c then None else Some (if co_batch c \<noteq> [] then flush_batch ok c else c))"

text \<open>Stop closes the channel; closing it twice panics.\<close>
definition Stop_collector :: "collector \<Rightarrow> collector option" where
  "Stop_collector c = (if co_closed c then None else Some (c\<lparr>co_closed := True\<rparr>))"

section \<open>Runs\<close>

text \<open>A run: the collector reached, the records accepted and those dropped, in order.\<close>
inductive collects :: "collector_config \<Rightarrow> collector \<Rightarrow> Request list \<Rightarrow> Request list \<Rightarrow> bool" for cfg where
  new: "collects cfg (New_collector cfg) [] []"
| accept: "collects cfg c acc lost \<Longrightarrow> Record c r = Some (True, c') \<Longrightarrow> collects cfg c' (acc @ [r]) lost"
| refuse: "collects cfg c acc lost \<Longrightarrow> Record c r = Some (False, c') \<Longrightarrow> collects cfg c' acc (lost @ [r])"
| receive: "collects cfg c acc lost \<Longrightarrow> run_receive ok c = Some c' \<Longrightarrow> collects cfg c' acc lost"
| tick: "collects cfg c acc lost \<Longrightarrow> run_tick ok c = Some c' \<Longrightarrow> collects cfg c' acc lost"
| stop: "collects cfg c acc lost \<Longrightarrow> Stop_collector c = Some c' \<Longrightarrow> collects cfg c' acc lost"

lemmas collector_op_defs = Record_def run_receive_def run_tick_def Stop_collector_def flush_batch_def

definition collector_inv :: "collector \<Rightarrow> Request list \<Rightarrow> bool" where
  "collector_inv c acc \<longleftrightarrow>
     0 < cfg_BatchSize (co_config c)
     \<and> concat (map fst (co_writes c)) @ co_batch c @ co_events c = acc
     \<and> int (length (co_batch c)) < cfg_BatchSize (co_config c)
     \<and> (\<forall>(b, ok) \<in> set (co_writes c). b \<noteq> [] \<and> int (length b) \<le> cfg_BatchSize (co_config c))
     \<and> (co_done c \<longrightarrow> co_closed c \<and> co_batch c = [] \<and> co_events c = [])"

lemma collects_inv: "collects cfg c acc lost \<Longrightarrow> collector_inv c acc"
proof (induction rule: collects.induct)
  case new
  then show ?case by (simp add: collector_inv_def New_collector_def)
next
  case (accept c acc lost r c')
  then show ?case by (auto simp: collector_inv_def Record_def split: if_splits)
next
  case (refuse c acc lost r c')
  then show ?case by (auto simp: collector_inv_def Record_def split: if_splits)
next
  case (receive c acc lost ok c')
  then show ?case
    by (cases "co_events c") (auto simp: collector_inv_def run_receive_def flush_batch_def Let_def split: if_splits)
next
  case (tick c acc lost ok c')
  then show ?case by (auto simp: collector_inv_def run_tick_def flush_batch_def split: if_splits)
next
  case (stop c acc lost c')
  then show ?case by (auto simp: collector_inv_def Stop_collector_def split: if_splits)
qed

text \<open>The collector neither loses, repeats nor reorders what it accepted: the batches written so far, the
  one being filled and the channel are together the accepted records in order; no batch is empty or larger
  than the batch size; and once the goroutine has ended, every accepted record was in exactly one write.\<close>
lemma collector_conserves:
  assumes "collects cfg c acc lost"
  shows "concat (map fst (co_writes c)) @ co_batch c @ co_events c = acc
    \<and> (\<forall>(b, ok) \<in> set (co_writes c). b \<noteq> [] \<and> int (length b) \<le> cfg_BatchSize (co_config c))
    \<and> (co_done c \<longrightarrow> concat (map fst (co_writes c)) = acc)"
  using collects_inv[OF assms] by (auto simp: collector_inv_def)

section \<open>Stopping\<close>

text \<open>The goroutine alone, whatever the outcomes of its writes.\<close>
fun drain :: "bool list \<Rightarrow> collector \<Rightarrow> collector" where
  "drain [] c = c"
| "drain (ok # oks) c = (case run_receive ok c of None \<Rightarrow> c | Some c' \<Rightarrow> drain oks c')"

lemma drain_done:
  "co_closed c \<Longrightarrow> length oks > length (co_events c) \<Longrightarrow> co_done (drain oks c)"
proof (induction oks arbitrary: c)
  case (Cons ok oks)
  show ?case
  proof (cases "run_receive ok c")
    case None
    then show ?thesis using Cons.prems by (auto simp: run_receive_def Let_def split: list.splits if_splits)
  next
    case (Some c')
    show ?thesis
    proof (cases "co_events c")
      case Nil
      then have "co_done c'" using Some Cons.prems by (auto simp: run_receive_def split: if_splits)
      then have "drain oks c' = c'" by (cases oks) (simp_all add: run_receive_def)
      then show ?thesis using Some \<open>co_done c'\<close> by simp
    next
      case (Cons e es)
      then have "co_closed c'" "co_events c' = es" using Some Cons.prems
        by (auto simp: run_receive_def flush_batch_def Let_def split: if_splits)
      then show ?thesis using Some Cons.IH[of c'] Cons.prems Cons by simp
    qed
  qed
qed simp

lemma drain_collects: "collects cfg c acc lost \<Longrightarrow> collects cfg (drain oks c) acc lost"
  by (induction oks arbitrary: c) (auto split: option.split intro: collects.receive)

text \<open>Stopping the collector flushes it: after Stop the goroutine ends within one receive more than the
  channel holds, whether its writes succeed or fail, and everything ever accepted has been handed to the
  database by then.\<close>
lemma stop_flushes:
  assumes "collects cfg c acc lost" and "Stop_collector c = Some c'" and "length oks > length (co_events c)"
  shows "co_done (drain oks c') \<and> concat (map fst (co_writes (drain oks c'))) = acc"
proof -
  have c: "collects cfg c' acc lost" by (rule collects.stop[OF assms(1,2)])
  have "co_closed c'" "co_events c' = co_events c" using assms(2) by (auto simp: Stop_collector_def split: if_splits)
  then have d: "co_done (drain oks c')" using drain_done[of c' oks] assms(3) by simp
  then show ?thesis using collects_inv[OF drain_collects[OF c, of oks]] by (auto simp: collector_inv_def)
qed

definition collector_sample :: collector_config where
  "collector_sample = \<lparr>cfg_BatchSize = 2, cfg_FlushInterval = 0, cfg_BufferSize = 1\<rparr>"

lemma sample_collects:
  "\<exists>c. collects collector_sample c [zero_request] [log_sample] \<and> co_events c = [zero_request] \<and> \<not> co_closed c"
proof -
  let ?c = "New_collector collector_sample" and ?d = "(New_collector collector_sample)\<lparr>co_events := [zero_request]\<rparr>"
  have "Record ?c zero_request = Some (True, ?d)" by (simp add: Record_def New_collector_def collector_sample_def)
  then have "collects collector_sample ?d ([] @ [zero_request]) []" by (rule collects.accept[OF collects.new])
  moreover have "Record ?d log_sample = Some (False, ?d)" by (simp add: Record_def New_collector_def collector_sample_def)
  ultimately have "collects collector_sample ?d ([] @ [zero_request]) ([] @ [log_sample])" by (rule collects.refuse)
  then show ?thesis by (intro exI[of _ ?d]) (simp add: New_collector_def)
qed

lemma collector_conserves_witness:
  "\<exists>c. collects collector_sample c [zero_request] [log_sample] \<and> concat (map fst (co_writes c)) @ co_batch c @ co_events c = [zero_request]"
  using sample_collects collector_conserves by blast

lemma stop_flushes_witness:
  "\<exists>c c'. collects collector_sample c [zero_request] [log_sample] \<and> Stop_collector c = Some c'
    \<and> co_done (drain [True, False] c') \<and> concat (map fst (co_writes (drain [True, False] c'))) = [zero_request]"
proof -
  obtain c where c: "collects collector_sample c [zero_request] [log_sample]" "co_events c = [zero_request]" "\<not> co_closed c"
    using sample_collects by blast
  then have s: "Stop_collector c = Some (c\<lparr>co_closed := True\<rparr>)" by (simp add: Stop_collector_def)
  have "length [True, False] > length (co_events c)" using c(2) by simp
  from stop_flushes[OF c(1) s this] show ?thesis using c(1) s by blast
qed

text \<open>A record sent after Stop panics.\<close>
lemma record_after_stop_panics: "Stop_collector c = Some c' \<Longrightarrow> Record c' r = None"
  by (auto simp: Stop_collector_def Record_def split: if_splits)

end
