(* ===== verification/Pipeline.thy ===== *)
theory Pipeline
  imports Gateway Executor
begin

text \<open>
  The composition of package proxy: MountRoutes (router.go) puts every proxied endpoint behind one chain
  (authentication, trace, model resolution, eligibility, rate limits, extra-usage guard), and the handlers
  hand the request context they build to the executor. The theory runs the theories of the parts one after
  the other on one request and states what holds from the first byte to the settlement.
\<close>

record gw_env =
  ge_auth :: auth_store
  ge_hmac :: "bytes \<Rightarrow> bytes \<Rightarrow> bytes"
  ge_sha :: "string \<Rightarrow> string"
  ge_encKey :: bytes
  ge_introspector :: "(string \<Rightarrow> TokenIntrospectResult option) option"
  ge_gjson :: gjson_lib
  ge_trace :: TraceConfig
  ge_handler :: handler_config
  ge_credits :: credit_store
  ge_euEnabled :: bool
  ge_creditPrice :: int
  ge_up :: "string \<Rightarrow> bool"
  ge_exec :: exec_config
  ge_world :: exec_env

record gw_state =
  gs_auth :: auth_state
  gs_catalog :: "catalog option"
  gs_limiter :: CompositeRateLimiter
  gs_router :: Router
  gs_metrics :: UpstreamMetrics
  gs_db :: database

datatype response =
    Unauthorized int
  | SessionRequired
  | RateLimited duration
  | ExtraUsageRefused int
  | GateRefused gate_error
  | NotProxied
  | Executed RequestContext "ExtraUsageContext option" exec_result

text \<open>The fields of the world the request context fixes.\<close>
definition exec_env_of :: "exec_env \<Rightarrow> RequestContext \<Rightarrow> http_request \<Rightarrow> go_time \<Rightarrow> exec_env" where
  "exec_env_of w rc r now =
     w\<lparr>ee_kind := rc_RequestKind rc, ee_session := rc_SessionID rc, ee_model := rc_Model rc,
       ee_multipart := (rq_MediaType r = ''multipart/form-data''), ee_ws := None, ee_now := now\<rparr>"

text \<open>The chain around a handler; None is a panic or a runaway in one of the parts.\<close>
definition serve :: "gw_env \<Rightarrow> http_request \<Rightarrow> go_time \<Rightarrow> gw_state \<Rightarrow> (response \<times> gw_state) option" where
  "serve env r now s =
     (case AuthMiddleware (ge_auth env) (ge_hmac env) (ge_sha env) (ge_encKey env) (ge_introspector env) (rq_Header r) now (gs_auth s) of
        (AuthReject status, a) \<Rightarrow> Some (Unauthorized status, s\<lparr>gs_auth := a\<rparr>)
      | (AuthOK ctx, a) \<Rightarrow>
          (case TraceMiddleware (ge_gjson env) (ge_trace env) (Some (actx_APIKey ctx)) r of
             None \<Rightarrow> Some (SessionRequired, s\<lparr>gs_auth := a\<rparr>)
           | Some t \<Rightarrow>
               (case ResolveModelMiddleware (gs_catalog s) (hc_maxBodySize (ge_handler env)) (hc_imagesMaxBodySize (ge_handler env)) r of
                  (m, cat) \<Rightarrow>
                    (case admission_chain (ge_credits env) (ge_euEnabled env) (ge_creditPrice env) (ge_up env) (gs_db s) (rq_Path r)
                            ctx m (tc_ClientKind t) now (gs_limiter s) of
                       None \<Rightarrow> None
                     | Some (verdict, l) \<Rightarrow>
                         let s1 = s\<lparr>gs_auth := a, gs_catalog := cat, gs_limiter := l\<rparr> in
                         (case verdict of
                            Refused status \<Rightarrow> Some (ExtraUsageRefused status, s1)
                          | Limited d \<Rightarrow> Some (RateLimited d, s1)
                          | Served eu \<Rightarrow>
                              (case dispatch (ge_handler env) cat ctx t m r of
                                 None \<Rightarrow> Some (NotProxied, s1)
                               | Some (Inl e, cat') \<Rightarrow> Some (GateRefused e, s1\<lparr>gs_catalog := cat'\<rparr>)
                               | Some (Inr rc, cat') \<Rightarrow>
                                   map_option (\<lambda>(res, x). (Executed rc eu res,
                                       s1\<lparr>gs_catalog := cat', gs_router := xs_router x, gs_metrics := xs_metrics x\<rparr>))
                                     (Execute (ge_exec env) (exec_env_of (ge_world env) rc r now) (gs_router s) (gs_metrics s)
                                        (rc_ProjectID rc) (tc_ClientBucket t))))))))"

text \<open>The settlement fields of a request that was executed.\<close>
definition settle_ctx_of :: "RequestContext \<Rightarrow> ExtraUsageContext option \<Rightarrow> string \<Rightarrow> settle_ctx" where
  "settle_ctx_of rc eu requestID =
     \<lparr>sc_ProjectID = rc_ProjectID rc, sc_RequestID = requestID, sc_Model = rc_Model rc, sc_ModelRef = rc_ModelRef rc,
      sc_RequestKind = rc_RequestKind rc, sc_ExtraUsageCtx = eu, sc_CostCredits = 0, sc_BalanceAfterCredits = 0\<rparr>"

lemma serve_executed:
  assumes "serve env r now s = Some (Executed rc eu res, s')"
  obtains ctx a t m cat l cat' x where
    "AuthMiddleware (ge_auth env) (ge_hmac env) (ge_sha env) (ge_encKey env) (ge_introspector env) (rq_Header r) now (gs_auth s) = (AuthOK ctx, a)"
    "TraceMiddleware (ge_gjson env) (ge_trace env) (Some (actx_APIKey ctx)) r = Some t"
    "ResolveModelMiddleware (gs_catalog s) (hc_maxBodySize (ge_handler env)) (hc_imagesMaxBodySize (ge_handler env)) r = (m, cat)"
    "admission_chain (ge_credits env) (ge_euEnabled env) (ge_creditPrice env) (ge_up env) (gs_db s) (rq_Path r) ctx m (tc_ClientKind t) now (gs_limiter s)
       = Some (Served eu, l)"
    "dispatch (ge_handler env) cat ctx t m r = Some (Inr rc, cat')"
    "Execute (ge_exec env) (exec_env_of (ge_world env) rc r now) (gs_router s) (gs_metrics s) (rc_ProjectID rc) (tc_ClientBucket t) = Some (res, x)"
    "s' = s\<lparr>gs_auth := a, gs_catalog := cat', gs_limiter := l, gs_router := xs_router x, gs_metrics := xs_metrics x\<rparr>"
proof -
  obtain ctx a where au: "AuthMiddleware (ge_auth env) (ge_hmac env) (ge_sha env) (ge_encKey env) (ge_introspector env) (rq_Header r) now (gs_auth s) = (AuthOK ctx, a)"
    using assms by (auto simp: serve_def split: prod.splits auth_result.splits)
  obtain t where t: "TraceMiddleware (ge_gjson env) (ge_trace env) (Some (actx_APIKey ctx)) r = Some t"
    using assms au by (auto simp: serve_def split: option.splits)
  obtain m cat where m: "ResolveModelMiddleware (gs_catalog s) (hc_maxBodySize (ge_handler env)) (hc_imagesMaxBodySize (ge_handler env)) r = (m, cat)"
    by force
  note e = assms[unfolded serve_def au t m prod.case auth_result.case option.case Let_def]
  obtain eu' l where ad: "admission_chain (ge_credits env) (ge_euEnabled env) (ge_creditPrice env) (ge_up env) (gs_db s) (rq_Path r) ctx m (tc_ClientKind t) now (gs_limiter s)
       = Some (Served eu', l)"
    using e by (auto split: option.splits prod.splits admission.splits)
  obtain g cat' where d: "dispatch (ge_handler env) cat ctx t m r = Some (g, cat')"
    using e ad by (auto split: option.splits)
  obtain rc' where g: "g = Inr rc'" using e ad d by (cases g) auto
  then show ?thesis using e ad d g that[OF au t m _ _ _] by auto
qed


section \<open>From the credential to the executor\<close>

lemma no_route_only_without_match:
  assumes "Execute cfg env r m p client = Some (res, x)" and "res \<noteq> NoRouteMatched"
  shows "\<exists>grp. Match r p (ee_model env) (ee_kind env) client = Inr grp"
  using assms by (auto simp: Execute_def split: sum.splits)


section \<open>From admission to the ledger\<close>

lemma settle_charges:
  assumes "sc_ExtraUsageCtx rc = Some eu" "computeExtraUsageCostCredits (sc_ModelRef rc) usage = Some cost"
    and "i64 (i64 (i64 (tu_InputTokens usage + tu_OutputTokens usage) + tu_CacheCreationTokens usage) + tu_CacheReadTokens usage) \<noteq> 0"
    and "db_settings db (sc_ProjectID rc) = Some row" "deduct_allowed row (month_spend db (sc_ProjectID rc) (MonthWindowStart now)) cost"
    and "is_i64 (eus_BalanceCredits row - cost)"
  shows "balance_of (snd (snd (settleExtraUsage True db rc usage now))) (sc_ProjectID rc) = balance_of db (sc_ProjectID rc) - cost"
proof -
  obtain label rc' db' where r: "settle_cost True db rc (euctx_Reason eu)
      (euctx_Reason eu @ '' | credits='' @ itoa cost @ '' | model='' @ sc_Model rc) cost now = (label, rc', db')" by (metis prod_cases3)
  have "label \<in> {''ok'', ''overdraft''}"
    using r assms(4-6) by (auto simp: settle_cost_def DeductExtraUsage_def Let_def split: if_splits)
  then show ?thesis using settle_cost_outcome[OF r] r assms(1-3) by (simp add: settleExtraUsage_def)
qed



section \<open>A run\<close>

definition demo_env :: gw_env where
  "demo_env = \<lparr>ge_auth = demo_auth_store\<lparr>as_GetDefaultPolicy := \<lambda>_. Some demo_limits\<rparr>, ge_hmac = \<lambda>_ _. [], ge_sha = \<lambda>h. h, ge_encKey = [],
     ge_introspector = None, ge_gjson = \<lparr>gl_text = \<lambda>_ _. GNone, gl_item = \<lambda>_ _. GNone\<rparr>,
     ge_trace = \<lparr>TraceHeader = ''X-Trace'', ExtraTraceHeaders = [], ExtraTraceBodyFields = [], ClaudeCodeTraceEnabled = True,
       CodexTraceEnabled = True, OpenClawTraceEnabled = True, RequireSession = False\<rparr>,
     ge_handler = demo_config, ge_credits = demo_store, ge_euEnabled = True, ge_creditPrice = 1, ge_up = \<lambda>_. True,
     ge_exec = \<lparr>ec_maxBodySize = 100, ec_imagesMaxBodySize = 0\<rparr>, ge_world = exec_sample\<rparr>"

definition demo_state :: gw_state where
  "demo_state = \<lparr>gs_auth = demo_auth_state, gs_catalog = Some (New [demo_model\<lparr>model_Name := ''m''\<rparr>]), gs_limiter = NewCompositeRateLimiter,
     gs_router = exec_router, gs_metrics = Map.empty, gs_db = demo_db\<rparr>"

definition demo_post :: http_request where
  "demo_post = (demo_request ''/v1/messages'' ''application/json'' '''' [(''model'', JStr ''M'')] [])
     \<lparr>rq_Header := \<lambda>h. if h = ''x-api-key'' then ''ms-x'' else ''''\<rparr>"

lemma demo_serve:
  "case serve demo_env demo_post 9 demo_state of
     Some (Executed rc eu res, _) \<Rightarrow> rc_ProjectID rc = ''p'' \<and> rc_Model rc = ''m'' \<and> rc_BodyModel rc = Some ''m''
       \<and> (case rc_Policy rc of None \<Rightarrow> False | Some _ \<Rightarrow> True) \<and> (case eu of None \<Rightarrow> False | Some _ \<Rightarrow> True)
       \<and> (case res of Committed c a \<Rightarrow> True | _ \<Rightarrow> False)
   | _ \<Rightarrow> False"
  by code_simp


lemma demo_executed:
  obtains rc e res s' p where "serve demo_env demo_post 9 demo_state = Some (Executed rc (Some e) res, s')"
    "rc_ProjectID rc = ''p''" "rc_Model rc = ''m''" "rc_Policy rc = Some p"
  using demo_serve by (auto split: option.splits prod.splits response.splits)

lemma demo_state_catalog: "gs_catalog demo_state = Some (New [demo_model\<lparr>model_Name := ''m''\<rparr>])"
  by (simp add: demo_state_def)



section \<open>Any number of requests\<close>

text \<open>The requests one gateway serves, one after the other, and the answers it gives, the last first.\<close>
inductive gateway_run :: "gw_env \<Rightarrow> gw_state \<Rightarrow> response list \<Rightarrow> gw_state \<Rightarrow> bool" for env where
  start: "gateway_run env s [] s"
| request: "gateway_run env s rs t \<Longrightarrow> serve env r now t = Some (resp, u) \<Longrightarrow> gateway_run env s (resp # rs) u"

inductive_cases gateway_run_cases: "gateway_run env s rs u"

text \<open>The answer leaves the connection of an upstream counted: its stream never completes.\<close>
definition leaks :: "gw_env \<Rightarrow> string \<Rightarrow> response \<Rightarrow> bool" where
  "leaks env v resp = (case resp of
     Executed rc eu res \<Rightarrow> (case res of Committed c a \<Rightarrow> sel_id c = v \<and> \<not> ee_completes (ge_world env) c a | _ \<Rightarrow> False) | _ \<Rightarrow> False)"

definition in_flight :: "gw_state \<Rightarrow> string \<Rightarrow> int" where "in_flight s = conn_count (rt_connTracker (gs_router s))"

definition resolution :: "gw_state \<Rightarrow> string \<Rightarrow> Model option" where
  "resolution s n = Option.bind (gs_catalog s) (\<lambda>c. index c (to_lower n))"

lemma middleware_resolution:
  "ResolveModelMiddleware cat mx mmax r = (m, cat') \<Longrightarrow> map_option index cat' = map_option index cat"
  by (cases cat) (auto simp: ResolveModelMiddleware_def Let_def case_prod_beta split: if_splits)

lemma dispatch_resolution:
  assumes "dispatch cfg cat a t m r = Some (g, cat')"
  shows "map_option index cat' = map_option index cat"
proof -
  have "map_option index (snd (resolve_and_check cat a raw k)) = map_option index cat" for raw k
  proof (cases cat)
    case None
    then show ?thesis by (simp add: resolve_and_check_def resolveModel_def split: option.split)
  next
    case (Some c)
    then show ?thesis by (cases rule: resolve_and_check_cases[of c a raw k]) auto
  qed
  then show ?thesis using gate_shape_dispatch[OF assms] unfolding gate_shape_def by (metis prod.inject snd_conv)
qed

lemma serve_state:
  assumes "serve env r now s = Some (resp, s')"
  shows "gs_db s' = gs_db s \<and> map_option index (gs_catalog s') = map_option index (gs_catalog s)
    \<and> ((\<forall>v. 0 \<le> in_flight s v \<and> in_flight s v < int64_max)
        \<longrightarrow> in_flight s' = (\<lambda>v. in_flight s v + (if leaks env v resp then 1 else 0)))"
proof -
  obtain au a where au: "AuthMiddleware (ge_auth env) (ge_hmac env) (ge_sha env) (ge_encKey env) (ge_introspector env) (rq_Header r) now (gs_auth s) = (au, a)"
    by force
  show ?thesis
  proof (cases au)
    case (AuthReject st)
    then show ?thesis using assms au by (auto simp: serve_def in_flight_def leaks_def)
  next
    case (AuthOK ctx)
    show ?thesis
    proof (cases "TraceMiddleware (ge_gjson env) (ge_trace env) (Some (actx_APIKey ctx)) r")
      case None
      then show ?thesis using assms au AuthOK by (auto simp: serve_def in_flight_def leaks_def)
    next
      case (Some t)
      obtain m cat where m: "ResolveModelMiddleware (gs_catalog s) (hc_maxBodySize (ge_handler env)) (hc_imagesMaxBodySize (ge_handler env)) r = (m, cat)"
        by force
      note e = assms[unfolded serve_def au AuthOK Some m prod.case auth_result.case option.case Let_def]
      note cat = middleware_resolution[OF m]
      obtain v l where ad: "admission_chain (ge_credits env) (ge_euEnabled env) (ge_creditPrice env) (ge_up env) (gs_db s) (rq_Path r) ctx m (tc_ClientKind t) now (gs_limiter s)
         = Some (v, l)" using e by (auto split: option.splits prod.splits)
      show ?thesis
      proof (cases v)
        case (Served eu)
        show ?thesis
        proof (cases "dispatch (ge_handler env) cat ctx t m r")
          case None
          then show ?thesis using e ad Served cat by (auto simp: in_flight_def leaks_def)
        next
          case d: (Some gc)
          obtain g cat' where gc: "gc = (g, cat')" by force
          note cat' = dispatch_resolution[OF d[unfolded gc]]
          show ?thesis
          proof (cases g)
            case (Inl err)
            then show ?thesis using e ad Served cat cat' d gc by (auto simp: in_flight_def leaks_def)
          next
            case (Inr rc)
            then obtain res x where ex: "Execute (ge_exec env) (exec_env_of (ge_world env) rc r now) (gs_router s) (gs_metrics s) (rc_ProjectID rc) (tc_ClientBucket t) = Some (res, x)"
                "s' = s\<lparr>gs_auth := a, gs_catalog := cat', gs_limiter := l, gs_router := xs_router x, gs_metrics := xs_metrics x\<rparr>"
                "resp = Executed rc eu res"
              using e ad Served d gc by auto
            have "held_after (exec_env_of (ge_world env) rc r now) res f = (\<lambda>v. f v + (if leaks env v resp then 1 else 0))" for f
              by (cases res) (auto simp: ex(3) leaks_def held_after_def exec_env_of_def)
            then show ?thesis using Execute_counts[OF ex(1)] ex(2) cat cat' by (simp add: in_flight_def)
          qed
        qed
      qed (use e ad cat in \<open>auto simp: in_flight_def leaks_def\<close>)
    qed
  qed
qed

text \<open>A gateway that starts idle ends idle but for the streams that never completed: after any number of
  requests, however they ended, the count of each upstream is the number of those sent to it; and no
  request changes what a model name denotes, or the ledger (which only the settlement after the response
  touches).\<close>
lemma gateway_invariant:
  assumes "gateway_run env s rs u" and "\<forall>v. in_flight s v = 0" and "int (length rs) < int64_max"
  shows "(\<forall>v. in_flight u v = int (length (filter (leaks env v) rs))) \<and> (\<forall>n. resolution u n = resolution s n) \<and> gs_db u = gs_db s"
  using assms
proof (induction rule: gateway_run.induct)
  case (request s rs t r now resp u)
  have "map_option index (gs_catalog u) = map_option index (gs_catalog t)" using serve_state[OF request.hyps(2)] by blast
  then have res: "resolution u n = resolution t n" for n
    by (cases "gs_catalog u"; cases "gs_catalog t") (auto simp: resolution_def)
  have "int (length (filter (leaks env v) rs)) < int64_max" for v
    using request.prems(2) length_filter_le[of "leaks env v" rs] by (simp, linarith)
  then show ?case using request serve_state[OF request.hyps(2)] res by auto
qed simp

lemma gateway_invariant_witness: "\<exists>rs u. gateway_run demo_env demo_state rs u \<and> length rs = 1 \<and> in_flight u ''a'' = 0"
proof -
  obtain rc e res s' p where "serve demo_env demo_post 9 demo_state = Some (Executed rc (Some e) res, s')" by (rule demo_executed)
  then have run: "gateway_run demo_env demo_state [Executed rc (Some e) res] s'" by (blast intro: gateway_run.intros)
  have "\<forall>v. in_flight demo_state v = 0" by (simp add: in_flight_def demo_state_def exec_sample_counts)
  moreover have "\<not> leaks demo_env v (Executed rc (Some e) res)" for v
    by (cases res) (simp_all add: leaks_def demo_env_def exec_sample_def)
  ultimately have "in_flight s' ''a'' = 0" using gateway_invariant[OF run] by (simp add: int64_max_def)
  then show ?thesis using run by (intro exI conjI) (assumption | simp)+
qed

end
