(* ===== verification/Accounts.thy ===== *)
theory Accounts
  imports Types
begin

text \<open>
  The rows behind users, projects, memberships, API keys and OAuth grants: store/users.go, store/projects.go,
  store/keys.go and store/oauth_grants.go. A statement that inserts gets the id the database generates; the
  primary and unique keys and the checks of the migrations may refuse it. \<^term>\<open>up\<close> says whether the statement
  reaches the database. Timestamps, the listing queries and an account's free-text columns are left out.
\<close>

section \<open>Tables\<close>

record UserRow = User +
  user_Nickname :: string
  user_Picture :: string

record KeyRow = APIKey +
  key_Deleted :: bool

record OAuthConnection =
  conn_UserID :: string
  conn_Provider :: string
  conn_ProviderID :: string

record OAuthGrant =
  og_ID :: nat
  og_ProjectID :: string
  og_UserID :: string
  og_ClientID :: string
  og_ClientName :: string
  og_Scopes :: "string list"

record grant_table =
  gt_rows :: "OAuthGrant list"
  gt_next :: nat

record accounts =
  ac_users :: "UserRow list"
  ac_connections :: "OAuthConnection list"
  ac_projects :: "Project list"
  ac_members :: "ProjectMember list"
  ac_keys :: "KeyRow list"
  ac_grants :: grant_table

definition no_accounts :: accounts where
  "no_accounts = \<lparr>ac_users = [], ac_connections = [], ac_projects = [], ac_members = [], ac_keys = [], ac_grants = \<lparr>gt_rows = [], gt_next = 0\<rparr>\<rparr>"

section \<open>Users (store/users.go)\<close>

definition GetUserByID :: "string \<Rightarrow> accounts \<Rightarrow> UserRow option" where
  "GetUserByID i a = find (\<lambda>u. user_ID u = i) (ac_users a)"

definition GetUserByEmail :: "string \<Rightarrow> accounts \<Rightarrow> UserRow option" where
  "GetUserByEmail email a = find (\<lambda>u. user_Email u = email) (ac_users a)"

definition GetUserByOAuth :: "string \<Rightarrow> string \<Rightarrow> accounts \<Rightarrow> UserRow option" where
  "GetUserByOAuth provider providerID a =
     (case find (\<lambda>c. conn_Provider c = provider \<and> conn_ProviderID c = providerID) (ac_connections a) of
        None \<Rightarrow> None
      | Some c \<Rightarrow> GetUserByID (conn_UserID c) a)"

definition UserExists :: "accounts \<Rightarrow> bool" where
  "UserExists a \<longleftrightarrow> ac_users a \<noteq> []"

definition CreateUser :: "bool \<Rightarrow> string \<Rightarrow> UserRow \<Rightarrow> accounts \<Rightarrow> accounts option" where
  "CreateUser up newID u a =
     (if \<not> up \<or> GetUserByEmail (user_Email u) a \<noteq> None \<or> GetUserByID newID a \<noteq> None then None
      else Some (a\<lparr>ac_users := ac_users a @ [u\<lparr>user_ID := newID\<rparr>]\<rparr>))"

definition UpdateUser :: "string \<Rightarrow> (UserRow \<Rightarrow> UserRow) \<Rightarrow> accounts \<Rightarrow> accounts" where
  "UpdateUser i f a = a\<lparr>ac_users := map (\<lambda>u. if user_ID u = i then f u else u) (ac_users a)\<rparr>"

text \<open>ON CONFLICT (provider, provider_id) DO NOTHING.\<close>
definition CreateOAuthConnection :: "string \<Rightarrow> string \<Rightarrow> string \<Rightarrow> accounts \<Rightarrow> accounts" where
  "CreateOAuthConnection userID provider providerID a =
     (if GetUserByID userID a = None
         \<or> list_ex (\<lambda>c. conn_Provider c = provider \<and> conn_ProviderID c = providerID) (ac_connections a) then a
      else a\<lparr>ac_connections := ac_connections a @ [\<lparr>conn_UserID = userID, conn_Provider = provider, conn_ProviderID = providerID\<rparr>]\<rparr>)"

definition CountUserOwnedProjects :: "string \<Rightarrow> accounts \<Rightarrow> int" where
  "CountUserOwnedProjects userID a = int (length (filter (\<lambda>m. member_UserID m = userID \<and> member_Role m = ''owner'') (ac_members a)))"

section \<open>Projects and members (store/projects.go)\<close>

definition GetProjectByID :: "string \<Rightarrow> accounts \<Rightarrow> Project option" where
  "GetProjectByID i a = find (\<lambda>p. proj_ID p = i) (ac_projects a)"

definition is_member :: "string \<Rightarrow> string \<Rightarrow> ProjectMember \<Rightarrow> bool" where
  "is_member projectID userID m \<longleftrightarrow> member_ProjectID m = projectID \<and> member_UserID m = userID"

definition GetProjectMember :: "string \<Rightarrow> string \<Rightarrow> accounts \<Rightarrow> ProjectMember option" where
  "GetProjectMember projectID userID a = find (is_member projectID userID) (ac_members a)"

definition update_member :: "string \<Rightarrow> string \<Rightarrow> (ProjectMember \<Rightarrow> ProjectMember) \<Rightarrow> accounts \<Rightarrow> accounts" where
  "update_member projectID userID f a =
     a\<lparr>ac_members := map (\<lambda>m. if is_member projectID userID m then f m else m) (ac_members a)\<rparr>"

definition new_member :: "string \<Rightarrow> string \<Rightarrow> string \<Rightarrow> ProjectMember" where
  "new_member projectID userID role =
     \<lparr>member_UserID = userID, member_ProjectID = projectID, member_Role = role, member_CreditQuotaPct = None, member_DeniedModels = []\<rparr>"

text \<open>One transaction: the project, and its creator as owner.\<close>
definition CreateProject :: "bool \<Rightarrow> string \<Rightarrow> Project \<Rightarrow> accounts \<Rightarrow> accounts option" where
  "CreateProject up newID p a =
     (if \<not> up \<or> GetProjectByID newID a \<noteq> None \<or> GetUserByID (proj_CreatedBy p) a = None then None
      else Some (a\<lparr>ac_projects := ac_projects a @ [p\<lparr>proj_ID := newID\<rparr>],
                   ac_members := ac_members a @ [new_member newID (proj_CreatedBy p) ''owner'']\<rparr>))"

definition UpdateProject :: "string \<Rightarrow> (Project \<Rightarrow> Project) \<Rightarrow> accounts \<Rightarrow> accounts" where
  "UpdateProject i f a = a\<lparr>ac_projects := map (\<lambda>p. if proj_ID p = i then f p else p) (ac_projects a)\<rparr>"

text \<open>ON CONFLICT (user, project) only the role changes.\<close>
definition AddProjectMember :: "bool \<Rightarrow> string \<Rightarrow> string \<Rightarrow> string \<Rightarrow> accounts \<Rightarrow> accounts option" where
  "AddProjectMember up projectID userID role a =
     (if \<not> IsValidProjectRole role \<or> \<not> up \<or> GetProjectByID projectID a = None \<or> GetUserByID userID a = None then None
      else if GetProjectMember projectID userID a \<noteq> None then Some (update_member projectID userID (\<lambda>m. m\<lparr>member_Role := role\<rparr>) a)
      else Some (a\<lparr>ac_members := ac_members a @ [new_member projectID userID role]\<rparr>))"

definition quota_in_range :: "float64 option \<Rightarrow> bool" where
  "quota_in_range q = (case q of None \<Rightarrow> True | Some x \<Rightarrow> 0 \<le> x \<and> x \<le> 100)"

text \<open>An absent argument leaves its column alone; \<^term>\<open>Some None\<close> as quota clears it.\<close>
definition member_columns :: "string option \<Rightarrow> float64 option option \<Rightarrow> string list option \<Rightarrow> ProjectMember \<Rightarrow> ProjectMember" where
  "member_columns role quota denied m =
     m\<lparr>member_Role := the_or (member_Role m) role,
       member_CreditQuotaPct := (if role = Some ''owner'' then None else the_or (member_CreditQuotaPct m) quota),
       member_DeniedModels := the_or (member_DeniedModels m) denied\<rparr>"

definition UpdateProjectMember ::
  "bool \<Rightarrow> string \<Rightarrow> string \<Rightarrow> string option \<Rightarrow> float64 option option \<Rightarrow> string list option \<Rightarrow> accounts \<Rightarrow> accounts option" where
  "UpdateProjectMember up projectID userID role quota denied a =
     (if role = None \<and> quota = None \<and> denied = None then Some a
      else if (case role of Some r \<Rightarrow> \<not> IsValidProjectRole r | None \<Rightarrow> False) then None
      else if \<not> up \<or> (role \<noteq> Some ''owner'' \<and> \<not> quota_in_range (the_or None quota)) then None
      else Some (update_member projectID userID (member_columns role quota denied) a))"

definition keys_of :: "string \<Rightarrow> string \<Rightarrow> KeyRow \<Rightarrow> bool" where
  "keys_of projectID userID k \<longleftrightarrow> key_ProjectID k = projectID \<and> key_CreatedBy k = userID"

definition grants_of :: "string \<Rightarrow> string \<Rightarrow> OAuthGrant \<Rightarrow> bool" where
  "grants_of projectID userID g \<longleftrightarrow> og_ProjectID g = projectID \<and> og_UserID g = userID"

text \<open>One transaction: revoke the keys, delete the grants, delete the membership.\<close>
definition RemoveProjectMember :: "bool \<Rightarrow> string \<Rightarrow> string \<Rightarrow> accounts \<Rightarrow> ((int \<times> OAuthGrant list) \<times> accounts) option" where
  "RemoveProjectMember up projectID userID a =
     (if \<not> up then None
      else Some ((int (length (filter (\<lambda>k. keys_of projectID userID k \<and> key_Status k = ''active'') (ac_keys a))),
                  filter (grants_of projectID userID) (gt_rows (ac_grants a))),
                 a\<lparr>ac_keys := map (\<lambda>k. if keys_of projectID userID k \<and> key_Status k = ''active'' then k\<lparr>key_Status := ''revoked''\<rparr> else k) (ac_keys a),
                   ac_grants := (ac_grants a)\<lparr>gt_rows := filter (\<lambda>g. \<not> grants_of projectID userID g) (gt_rows (ac_grants a))\<rparr>,
                   ac_members := filter (\<lambda>m. \<not> is_member projectID userID m) (ac_members a)\<rparr>))"

definition CountActiveKeysForMember :: "string \<Rightarrow> string \<Rightarrow> accounts \<Rightarrow> int" where
  "CountActiveKeysForMember projectID userID a =
     int (length (filter (\<lambda>k. keys_of projectID userID k \<and> key_Status k = ''active'') (ac_keys a)))"

section \<open>API keys (store/keys.go)\<close>

definition CreateAPIKey :: "bool \<Rightarrow> string \<Rightarrow> APIKey \<Rightarrow> accounts \<Rightarrow> accounts option" where
  "CreateAPIKey up newID k a =
     (if \<not> up \<or> list_ex (\<lambda>r. key_KeyHash r = key_KeyHash k \<or> key_ID r = newID) (ac_keys a) then None
      else Some (a\<lparr>ac_keys := ac_keys a @ [APIKey.extend (k\<lparr>key_ID := newID, key_ExpiresAt := None\<rparr>) \<lparr>key_Deleted = False\<rparr>]\<rparr>))"

definition GetAPIKeyByHash :: "string \<Rightarrow> accounts \<Rightarrow> KeyRow option" where
  "GetAPIKeyByHash hash a = find (\<lambda>k. key_KeyHash k = hash) (ac_keys a)"

definition GetAPIKeyByID :: "string \<Rightarrow> accounts \<Rightarrow> KeyRow option" where
  "GetAPIKeyByID i a = find (\<lambda>k. key_ID k = i \<and> \<not> key_Deleted k) (ac_keys a)"

text \<open>Whether a row was changed, and the table. The database compares the project's id as a UUID: \<^term>\<open>same\<close>.\<close>
definition update_key :: "(string \<Rightarrow> string \<Rightarrow> bool) \<Rightarrow> string \<Rightarrow> string \<Rightarrow> (KeyRow \<Rightarrow> KeyRow) \<Rightarrow> accounts \<Rightarrow> bool \<times> accounts" where
  "update_key same projectID i f a =
     (let hit = (\<lambda>k. key_ID k = i \<and> same (key_ProjectID k) projectID \<and> \<not> key_Deleted k) in
      (list_ex hit (ac_keys a), a\<lparr>ac_keys := map (\<lambda>k. if hit k then f k else k) (ac_keys a)\<rparr>))"

definition UpdateAPIKeyForProject ::
  "(string \<Rightarrow> string \<Rightarrow> bool) \<Rightarrow> bool \<Rightarrow> string \<Rightarrow> string \<Rightarrow> (KeyRow \<Rightarrow> KeyRow) \<Rightarrow> accounts \<Rightarrow> (bool \<times> accounts) option" where
  "UpdateAPIKeyForProject same up projectID i f a = (if \<not> up then None else Some (update_key same projectID i f a))"

definition DeleteAPIKeyForProject :: "(string \<Rightarrow> string \<Rightarrow> bool) \<Rightarrow> bool \<Rightarrow> string \<Rightarrow> string \<Rightarrow> accounts \<Rightarrow> (bool \<times> accounts) option" where
  "DeleteAPIKeyForProject same up projectID i a =
     (if \<not> up then None else Some (update_key same projectID i (\<lambda>k. k\<lparr>key_Deleted := True\<rparr>) a))"

section \<open>Grants (store/oauth_grants.go)\<close>

definition same_grant :: "OAuthGrant \<Rightarrow> OAuthGrant \<Rightarrow> bool" where
  "same_grant g h \<longleftrightarrow> og_ProjectID g = og_ProjectID h \<and> og_UserID g = og_UserID h \<and> og_ClientID g = og_ClientID h"

text \<open>ON CONFLICT (project, user, client) the row keeps its id and takes the new name and scopes.\<close>
definition CreateOAuthGrant :: "OAuthGrant \<Rightarrow> grant_table \<Rightarrow> grant_table" where
  "CreateOAuthGrant g t =
     (if list_ex (same_grant g) (gt_rows t)
      then t\<lparr>gt_rows := map (\<lambda>h. if same_grant g h then h\<lparr>og_ClientName := og_ClientName g, og_Scopes := og_Scopes g\<rparr> else h) (gt_rows t)\<rparr>
      else \<lparr>gt_rows = gt_rows t @ [g\<lparr>og_ID := gt_next t\<rparr>], gt_next = Suc (gt_next t)\<rparr>)"

definition GetOAuthGrantByID :: "nat \<Rightarrow> grant_table \<Rightarrow> OAuthGrant option" where
  "GetOAuthGrantByID i t = find (\<lambda>g. og_ID g = i) (gt_rows t)"

definition GetOAuthGrantByProjectUserClient :: "string \<Rightarrow> string \<Rightarrow> string \<Rightarrow> grant_table \<Rightarrow> OAuthGrant option" where
  "GetOAuthGrantByProjectUserClient projectID userID clientID t =
     find (\<lambda>g. grants_of projectID userID g \<and> og_ClientID g = clientID) (gt_rows t)"

definition DeleteOAuthGrant :: "nat \<Rightarrow> grant_table \<Rightarrow> grant_table" where
  "DeleteOAuthGrant i t = t\<lparr>gt_rows := filter (\<lambda>g. og_ID g \<noteq> i) (gt_rows t)\<rparr>"

end
