(* ===== verification/GoText.thy ===== *)
theory GoText
  imports Crypto
begin

text \<open>
  The parts of Go's standard library the login and device flows compute with: strings.Fields, SplitN and
  Join, strconv.ParseInt in base 10, hex.EncodeToString, the two alphabets-for-URLs of encoding/base64, and
  url.QueryEscape. Strings are byte sequences; letters outside ASCII are left alone.
\<close>

section \<open>strings\<close>

fun fields_from :: "string \<Rightarrow> string \<Rightarrow> string list" where
  "fields_from cur [] = (if cur = [] then [] else [rev cur])"
| "fields_from cur (c # s) =
     (if is_space c then (if cur = [] then fields_from [] s else rev cur # fields_from [] s)
      else fields_from (c # cur) s)"

definition string_fields :: "string \<Rightarrow> string list" where
  "string_fields s = fields_from [] s"

fun string_join :: "string list \<Rightarrow> string \<Rightarrow> string" where
  "string_join [] sep = ''''"
| "string_join [s] sep = s"
| "string_join (s # t # r) sep = s @ sep @ string_join (t # r) sep"

text \<open>strings.SplitN(s, sep, 2) for a one-byte separator; the single part when it is absent.\<close>
definition split_two :: "char \<Rightarrow> string \<Rightarrow> (string \<times> string) option" where
  "split_two sep s =
     (case dropWhile (\<lambda>c. c \<noteq> sep) s of [] \<Rightarrow> None | _ # r \<Rightarrow> Some (takeWhile (\<lambda>c. c \<noteq> sep) s, r))"

lemma split_two_append [simp]: "\<forall>c \<in> set a. c \<noteq> sep \<Longrightarrow> split_two sep (a @ sep # b) = Some (a, b)"
  by (simp add: split_two_def dropWhile_append takeWhile_append)

section \<open>strconv.ParseInt(s, 10, 64)\<close>

definition digit_of :: "char \<Rightarrow> nat" where "digit_of c = of_char c - 48"

definition parse_nat :: "string \<Rightarrow> nat option" where
  "parse_nat s = (if s \<noteq> [] \<and> list_all (\<lambda>c. char_in c 48 57) s then Some (foldl (\<lambda>n c. n * 10 + digit_of c) 0 s) else None)"

definition ParseInt :: "string \<Rightarrow> int option" where
  "ParseInt s =
     (let neg = (s \<noteq> [] \<and> hd s = CHR ''-''); d = (if s \<noteq> [] \<and> (hd s = CHR ''-'' \<or> hd s = CHR ''+'') then tl s else s) in
      case parse_nat d of None \<Rightarrow> None
      | Some n \<Rightarrow> (let i = (if neg then - int n else int n) in if is_i64 i then Some i else None))"

lemma digit_char:
  assumes "d < 10"
  shows "char_in (char_of (48 + d)) 48 57" and "digit_of (char_of (48 + d)) = d"
  using assms by (simp_all add: char_in_def digit_of_def)

lemma digits_parse: "digits n \<noteq> [] \<and> list_all (\<lambda>c. char_in c 48 57) (digits n) \<and> foldl (\<lambda>n c. n * 10 + digit_of c) 0 (digits n) = n"
proof (induction n rule: digits.induct)
  case (1 n)
  show ?case
  proof (cases "n < 10")
    case True then show ?thesis using digit_char[of n] by (simp add: digits.simps[of n])
  next
    case False
    then show ?thesis using 1 digit_char[of "n mod 10"] by (simp add: digits.simps[of n])
  qed
qed

lemma parse_digits [simp]: "parse_nat (digits n) = Some n"
  using digits_parse[of n] by (simp add: parse_nat_def)

lemma digits_head: "hd (digits n) \<noteq> CHR ''-'' \<and> hd (digits n) \<noteq> CHR ''+''"
proof -
  have "char_in (hd (digits n)) 48 57" using digits_parse[of n] by (cases "digits n") auto
  then show ?thesis by (auto simp: char_in_def)
qed

lemma ParseInt_itoa: "is_i64 i \<Longrightarrow> ParseInt (itoa i) = Some i"
  using digits_head[of "nat i"] digits_parse[of "nat i"] digits_parse[of "nat (- i)"]
  by (cases "i < 0") (simp_all add: ParseInt_def itoa_def)

section \<open>encoding/hex\<close>

definition hex_char :: "nat \<Rightarrow> char" where
  "hex_char n = (if n < 10 then char_of (48 + n) else char_of (87 + n))"

definition hex_encode :: "bytes \<Rightarrow> string" where
  "hex_encode bs = concat (map (\<lambda>b. [hex_char (unat b div 16), hex_char (unat b mod 16)]) bs)"

lemma hex_char_inj: "m < 16 \<Longrightarrow> n < 16 \<Longrightarrow> hex_char m = hex_char n \<longleftrightarrow> m = n"
proof
  assume "m < 16" "n < 16" "hex_char m = hex_char n"
  then have "(of_char (hex_char m) :: nat) = of_char (hex_char n)" by simp
  then show "m = n" using \<open>m < 16\<close> \<open>n < 16\<close> by (simp add: hex_char_def split: if_splits)
qed simp

lemma hex_encode_inj: "hex_encode a = hex_encode b \<longleftrightarrow> a = b"
proof (induction a arbitrary: b)
  case Nil then show ?case by (cases b) (auto simp: hex_encode_def)
next
  case (Cons x a)
  show ?case
  proof (cases b)
    case Nil then show ?thesis by (simp add: hex_encode_def)
  next
    case (Cons y c)
    have lt: "unat x < 256" "unat y < 256" using unsigned_less[of x, where ?'a = nat] unsigned_less[of y, where ?'a = nat] by simp_all
    have "hex_encode (x # a) = hex_encode (y # c) \<longleftrightarrow> unat x div 16 = unat y div 16 \<and> unat x mod 16 = unat y mod 16 \<and> hex_encode a = hex_encode c"
      using lt by (auto simp: hex_encode_def hex_char_inj)
    also have "\<dots> \<longleftrightarrow> unat x = unat y \<and> hex_encode a = hex_encode c" by (metis div_mult_mod_eq)
    finally show ?thesis using Cons Cons.IH[of c] by (simp add: word_unat_eq_iff)
  qed
qed

lemma length_hex_encode [simp]: "length (hex_encode bs) = 2 * length bs"
  by (induction bs) (simp_all add: hex_encode_def)

section \<open>net/url.QueryEscape\<close>

definition url_unreserved :: "char \<Rightarrow> bool" where
  "url_unreserved c \<longleftrightarrow> char_in c 48 57 \<or> char_in c 65 90 \<or> char_in c 97 122 \<or> List.member ''-_.~'' c"

definition upper_hex :: "nat \<Rightarrow> char" where
  "upper_hex n = (if n < 10 then char_of (48 + n) else char_of (55 + n))"

definition QueryEscape :: "string \<Rightarrow> string" where
  "QueryEscape s = concat (map (\<lambda>c. if url_unreserved c then [c] else if c = CHR '' '' then ''+''
      else [CHR ''%'', upper_hex (of_char c div 16), upper_hex (of_char c mod 16)]) s)"

lemma QueryEscape_id: "list_all url_unreserved s \<Longrightarrow> QueryEscape s = s"
  by (induction s) (auto simp: QueryEscape_def)

section \<open>encoding/base64, URLEncoding and RawURLEncoding\<close>

definition b64_char :: "nat \<Rightarrow> char" where
  "b64_char n = (if n < 26 then char_of (65 + n) else if n < 52 then char_of (71 + n) else if n < 62 then char_of (n - 4)
     else if n = 62 then CHR ''-'' else CHR ''_'')"

definition b64_val :: "char \<Rightarrow> nat option" where
  "b64_val c = (if char_in c 65 90 then Some (of_char c - 65) else if char_in c 97 122 then Some (of_char c - 71)
     else if char_in c 48 57 then Some (of_char c + 4) else if c = CHR ''-'' then Some 62 else if c = CHR ''_'' then Some 63 else None)"

fun b64_encode :: "nat list \<Rightarrow> string" where
  "b64_encode [] = []"
| "b64_encode [a] = [b64_char (a div 4), b64_char (a mod 4 * 16)]"
| "b64_encode [a, b] = [b64_char (a div 4), b64_char (a mod 4 * 16 + b div 16), b64_char (b mod 16 * 4)]"
| "b64_encode (a # b # c # r) =
     b64_char (a div 4) # b64_char (a mod 4 * 16 + b div 16) # b64_char (b mod 16 * 4 + c div 64) # b64_char (c mod 64) # b64_encode r"

text \<open>The decoder without strict mode: bits left over in the last character are dropped.\<close>
fun b64_decode :: "string \<Rightarrow> nat list option" where
  "b64_decode [] = Some []"
| "b64_decode [_] = None"
| "b64_decode [w, x] = (case (b64_val w, b64_val x) of (Some a, Some b) \<Rightarrow> Some [a * 4 + b div 16] | _ \<Rightarrow> None)"
| "b64_decode [w, x, y] =
     (case (b64_val w, b64_val x, b64_val y) of
        (Some a, Some b, Some c) \<Rightarrow> Some [a * 4 + b div 16, b mod 16 * 16 + c div 4] | _ \<Rightarrow> None)"
| "b64_decode (w # x # y # z # r) =
     (case (b64_val w, b64_val x, b64_val y, b64_val z, b64_decode r) of
        (Some a, Some b, Some c, Some d, Some bs) \<Rightarrow> Some ((a * 4 + b div 16) # (b mod 16 * 16 + c div 4) # (c mod 4 * 64 + d) # bs)
      | _ \<Rightarrow> None)"

definition line_break :: "char \<Rightarrow> bool" where "line_break c \<longleftrightarrow> c = CHR 0x0A \<or> c = CHR 0x0D"

definition base64_raw_encode :: "bytes \<Rightarrow> string" where
  "base64_raw_encode bs = b64_encode (map unat bs)"

definition base64_raw_decode :: "string \<Rightarrow> bytes option" where
  "base64_raw_decode s = map_option (map word_of_nat) (b64_decode (filter (\<lambda>c. \<not> line_break c) s))"

definition base64_pad :: "string \<Rightarrow> string" where
  "base64_pad s = s @ (if length s mod 4 = 2 then ''=='' else if length s mod 4 = 3 then ''='' else '''')"

definition base64_encode :: "bytes \<Rightarrow> string" where
  "base64_encode bs = base64_pad (base64_raw_encode bs)"

text \<open>With padding the text comes in blocks of four and ends in at most two padding characters.\<close>
definition base64_decode :: "string \<Rightarrow> bytes option" where
  "base64_decode s =
     (let t = filter (\<lambda>c. \<not> line_break c) s; core = takeWhile (\<lambda>c. c \<noteq> CHR ''='') t in
      if base64_pad core = t \<and> length t mod 4 = 0 then base64_raw_decode core else None)"

lemma b64_val_char: "n < 64 \<Longrightarrow> b64_val (b64_char n) = Some n"
  by (auto simp: b64_char_def b64_val_def char_in_def)

lemma b64_char_plain: "n < 64 \<Longrightarrow> \<not> line_break (b64_char n) \<and> b64_char n \<noteq> CHR ''=''"
  using b64_val_char[of n] by (auto simp: line_break_def b64_val_def char_in_def split: if_splits)

lemma two_digits:
  fixes m n k :: nat
  assumes "n < k"
  shows "(m * k + n) div k = m" "(m * k + n) mod k = n"
  using assms by simp_all

lemma b64_six:
  fixes a b c :: nat
  assumes "a < 256" "b < 256" "c < 256"
  shows "a div 4 < 64" "a mod 4 * 16 < 64" "a mod 4 * 16 + b div 16 < 64" "b mod 16 * 4 < 64" "b mod 16 * 4 + c div 64 < 64" "c mod 64 < 64"
proof -
  have "a mod 4 < 4" "b mod 16 < 16" "b div 16 < 16" "c div 64 < 4" "a div 4 < 64" "c mod 64 < 64" using assms by simp_all
  then show "a div 4 < 64" "a mod 4 * 16 < 64" "a mod 4 * 16 + b div 16 < 64" "b mod 16 * 4 < 64" "b mod 16 * 4 + c div 64 < 64" "c mod 64 < 64"
    by linarith+
qed

lemma b64_eight:
  fixes a b c :: nat
  assumes "a < 256" "b < 256" "c < 256"
  shows "a div 4 * 4 + (a mod 4 * 16 + b div 16) div 16 = a" "(a mod 4 * 16 + b div 16) mod 16 * 16 + (b mod 16 * 4 + c div 64) div 4 = b"
    "(b mod 16 * 4 + c div 64) mod 4 * 64 + c mod 64 = c" "a div 4 * 4 + (a mod 4 * 16) div 16 = a"
    "(a mod 4 * 16 + b div 16) mod 16 * 16 + (b mod 16 * 4) div 4 = b"
proof -
  have lt: "b div 16 < 16" "c div 64 < 4" using assms by simp_all
  show "a div 4 * 4 + (a mod 4 * 16 + b div 16) div 16 = a" by (simp only: two_digits[OF lt(1)] div_mult_mod_eq)
  show "(a mod 4 * 16 + b div 16) mod 16 * 16 + (b mod 16 * 4 + c div 64) div 4 = b"
    by (simp only: two_digits[OF lt(1)] two_digits[OF lt(2)] div_mult_mod_eq)
  show "(b mod 16 * 4 + c div 64) mod 4 * 64 + c mod 64 = c" by (simp only: two_digits[OF lt(2)] div_mult_mod_eq)
  show "a div 4 * 4 + (a mod 4 * 16) div 16 = a" by simp
  have "(b mod 16 * 4) div 4 = b mod 16" by simp
  then show "(a mod 4 * 16 + b div 16) mod 16 * 16 + (b mod 16 * 4) div 4 = b"
    by (simp only: two_digits[OF lt(1)] div_mult_mod_eq)
qed

lemma b64_roundtrip: "\<forall>b \<in> set bs. b < 256 \<Longrightarrow> b64_decode (b64_encode bs) = Some bs"
proof (induction bs rule: b64_encode.induct)
  case (2 a)
  then show ?case using b64_six[of a 0 0] b64_eight[of a 0 0] by (simp add: b64_val_char)
next
  case (3 a b)
  then show ?case using b64_six[of a b 0] b64_eight[of a b 0] by (simp add: b64_val_char)
next
  case (4 a b c r)
  then show ?case using b64_six[of a b c] b64_eight[of a b c] by (simp add: b64_val_char)
qed simp

lemma b64_encode_plain: "\<forall>b \<in> set bs. b < 256 \<Longrightarrow> \<forall>c \<in> set (b64_encode bs). \<not> line_break c \<and> c \<noteq> CHR ''=''"
proof (induction bs rule: b64_encode.induct)
  case (2 a) then show ?case using b64_six[of a 0 0] by (simp add: b64_char_plain)
next
  case (3 a b) then show ?case using b64_six[of a b 0] by (simp add: b64_char_plain)
next
  case (4 a b c r) then show ?case using b64_six[of a b c] by (simp add: b64_char_plain)
qed simp

lemma byte_nats: "\<forall>b \<in> set (map unat (bs :: bytes)). b < 256"
  using unsigned_less[where ?'a = nat and ?'b = 8] by auto

lemma raw_plain: "filter (\<lambda>c. \<not> line_break c) (base64_raw_encode bs) = base64_raw_encode bs"
  using b64_encode_plain[OF byte_nats[of bs]] by (auto simp: base64_raw_encode_def filter_id_conv)

lemma base64_raw_roundtrip [simp]: "base64_raw_decode (base64_raw_encode bs) = Some bs"
  unfolding base64_raw_decode_def raw_plain
  using b64_roundtrip[OF byte_nats[of bs]] by (simp add: base64_raw_encode_def map_idI)

lemma b64_encode_length: "length (b64_encode bs) mod 4 \<noteq> 1"
  by (induction bs rule: b64_encode.induct) auto

lemma base64_roundtrip [simp]: "base64_decode (base64_encode bs) = Some bs"
proof -
  let ?r = "base64_raw_encode bs" and ?t = "base64_encode bs"
  have no_pad: "\<forall>c \<in> set ?r. c \<noteq> CHR ''=''" using b64_encode_plain[OF byte_nats[of bs]] by (auto simp: base64_raw_encode_def)
  have t: "filter (\<lambda>c. \<not> line_break c) ?t = ?t"
    using raw_plain[of bs] by (simp add: base64_encode_def base64_pad_def line_break_def)
  have core: "takeWhile (\<lambda>c. c \<noteq> CHR ''='') ?t = ?r"
    using no_pad by (simp add: base64_encode_def base64_pad_def takeWhile_append)
  have m: "length ?r mod 4 \<in> {0, 2, 3}" using b64_encode_length[of "map unat bs"] by (auto simp: base64_raw_encode_def)
  then have "length ?t mod 4 = 0" by (auto simp: base64_encode_def base64_pad_def) presburger+
  then show ?thesis using t core by (simp add: base64_decode_def Let_def base64_encode_def)
qed

section \<open>Conversions between strings and byte slices\<close>

definition string_bytes :: "string \<Rightarrow> bytes" where "string_bytes s = map (\<lambda>c. word_of_nat (of_char c)) s"

definition bytes_string :: "bytes \<Rightarrow> string" where "bytes_string bs = map (\<lambda>b. char_of (unat b)) bs"

lemma bytes_string_bytes [simp]: "bytes_string (string_bytes s) = s"
proof -
  have "unat (word_of_nat (of_char c) :: 8 word) = of_char c" for c by (simp add: unsigned_of_nat take_bit_eq_mod)
  then show ?thesis by (induction s) (simp_all add: bytes_string_def string_bytes_def)
qed

end
