(* ===== verification/Members.thy ===== *)
theory Members
  imports Accounts GoText Billing Catalog
begin

text \<open>
  Projects, members, API keys and grants as the management handlers change them: admin/handle_projects.go,
  admin/quota_permissions.go, admin/handle_keys.go and admin/handle_oauth_grants.go over the rows of Accounts. The
  caller's user and membership are what the middleware of the request has put into its context. A body
  that does not decode is None; the argument \<^term>\<open>up\<close> says which statements succeed. The listings are left out.
\<close>

section \<open>Projects (handle_projects.go)\<close>

definition AssignFreePlan :: "(string \<Rightarrow> Plan option) \<Rightarrow> string \<Rightarrow> string \<Rightarrow> go_time \<Rightarrow> database \<Rightarrow> database" where
  "AssignFreePlan getPlan newID projectID now db =
     (case getPlan ''free'' of None \<Rightarrow> db
      | Some plan \<Rightarrow> if \<not> plan_IsActive plan then db
          else (case CreateSubscriptionFromPlan db newID projectID plan now (add_months now 1200) of None \<Rightarrow> db | Some (_, db') \<Rightarrow> db'))"

text \<open>A failing count is taken for 0. The body is the name.\<close>
definition handleCreateProject ::
  "(string \<Rightarrow> bool) \<Rightarrow> (string \<Rightarrow> Plan option) \<Rightarrow> string \<Rightarrow> string \<Rightarrow> User \<Rightarrow> string option \<Rightarrow> go_time \<Rightarrow> accounts \<times> database
   \<Rightarrow> string response \<times> accounts \<times> database" where
  "handleCreateProject up getPlan newID subID user body now = (\<lambda>(a, db).
     case body of None \<Rightarrow> (Failure 400 ''bad_request'', a, db)
     | Some name \<Rightarrow>
         if name = '''' then (Failure 400 ''bad_request'', a, db)
         else if \<not> user_IsSuperadmin user
                \<and> (if up ''Count'' then CountUserOwnedProjects (user_ID user) a else 0) \<ge> user_MaxProjects user
           then (Failure 403 ''forbidden'', a, db)
         else (case CreateProject (up ''Create'') newID
                  \<lparr>proj_ID = '''', proj_Name = name, proj_CreatedBy = user_ID user, proj_Status = ''active'', proj_BillingTags = []\<rparr> a of
                 None \<Rightarrow> (Failure 500 ''internal'', a, db)
               | Some a' \<Rightarrow> (Success 201 newID, a', AssignFreePlan getPlan subID newID now db)))"

text \<open>The fields a body may carry; \<^term>\<open>pp_other\<close>: the description or the settings are among them.\<close>
record project_patch =
  pp_name :: "string option"
  pp_tags :: "string list option"
  pp_other :: bool

definition handleUpdateProject ::
  "bool \<Rightarrow> User option \<Rightarrow> ProjectMember option \<Rightarrow> string \<Rightarrow> project_patch option \<Rightarrow> accounts \<Rightarrow> Project option response \<times> accounts" where
  "handleUpdateProject up user mem projectID body a =
     (if \<not> requireRole user mem [''owner'', ''maintainer''] then (Failure 403 ''forbidden'', a)
      else case body of None \<Rightarrow> (Failure 400 ''bad_request'', a)
      | Some b \<Rightarrow>
          if pp_name b = None \<and> pp_tags b = None \<and> \<not> pp_other b then (Failure 400 ''bad_request'', a)
          else if \<not> up then (Failure 500 ''internal'', a)
          else (let a' = UpdateProject projectID (\<lambda>p. p\<lparr>proj_Name := the_or (proj_Name p) (pp_name b),
                                                      proj_BillingTags := the_or (proj_BillingTags p) (pp_tags b)\<rparr>) a
                in (Success 200 (GetProjectByID projectID a'), a')))"

definition handleArchiveProject ::
  "bool \<Rightarrow> User option \<Rightarrow> ProjectMember option \<Rightarrow> string \<Rightarrow> accounts \<Rightarrow> Project option response \<times> accounts" where
  "handleArchiveProject up user mem projectID a =
     (if \<not> requireRole user mem [''owner''] then (Failure 403 ''forbidden'', a)
      else if \<not> up then (Failure 500 ''internal'', a)
      else (let a' = UpdateProject projectID (\<lambda>p. p\<lparr>proj_Status := ''archived''\<rparr>) a in (Success 200 (GetProjectByID projectID a'), a')))"

definition handleUnarchiveProject ::
  "(string \<Rightarrow> bool) \<Rightarrow> User option \<Rightarrow> ProjectMember option \<Rightarrow> string \<Rightarrow> accounts \<Rightarrow> Project option response \<times> accounts" where
  "handleUnarchiveProject up user mem projectID a =
     (if \<not> requireRole user mem [''owner''] then (Failure 403 ''forbidden'', a)
      else case (if up ''Get'' then GetProjectByID projectID a else None) of
        None \<Rightarrow> (Failure 404 ''not_found'', a)
      | Some p \<Rightarrow>
          if proj_Status p \<noteq> ''archived'' then (Failure 400 ''bad_request'', a)
          else if \<not> up ''Update'' then (Failure 500 ''internal'', a)
          else (let a' = UpdateProject projectID (\<lambda>p. p\<lparr>proj_Status := ''active''\<rparr>) a in (Success 200 (GetProjectByID projectID a'), a')))"

section \<open>Members\<close>

text \<open>None: allowed; otherwise the answer (quota_permissions.go).\<close>
definition canSetMemberQuota :: "ProjectMember option \<Rightarrow> bool \<Rightarrow> string \<Rightarrow> (int \<times> string) option" where
  "canSetMemberQuota caller callerIsSuperadmin targetRole =
     (if callerIsSuperadmin then None
      else case caller of None \<Rightarrow> Some (403, ''forbidden'')
      | Some m \<Rightarrow>
          if member_Role m = ''owner'' then None
          else if member_Role m = ''maintainer'' then (if targetRole = ''owner'' then Some (403, ''forbidden'') else None)
          else Some (403, ''forbidden''))"

record add_member_body =
  am_Email :: string
  am_Role :: string
  am_Quota :: "float64 option"

definition handleAddMember ::
  "(string \<Rightarrow> bool) \<Rightarrow> User option \<Rightarrow> ProjectMember option \<Rightarrow> string \<Rightarrow> add_member_body option \<Rightarrow> accounts \<Rightarrow> unit response \<times> accounts" where
  "handleAddMember up caller mem projectID body a =
     (if \<not> requireRole caller mem [''owner'', ''maintainer''] then (Failure 403 ''forbidden'', a)
      else case body of None \<Rightarrow> (Failure 400 ''bad_request'', a)
      | Some b \<Rightarrow>
          if am_Email b = '''' \<or> am_Role b = '''' then (Failure 400 ''bad_request'', a)
          else if \<not> IsValidProjectRole (am_Role b) then (Failure 400 ''invalid_role'', a)
          else (case (if up ''GetUser'' then GetUserByEmail (am_Email b) a else None) of
            None \<Rightarrow> (Failure 400 ''bad_request'', a)
          | Some u \<Rightarrow>
              if am_Quota b \<noteq> None \<and> \<not> quota_in_range (am_Quota b) then (Failure 400 ''bad_request'', a)
              else (case (if am_Quota b = None then None
                          else canSetMemberQuota mem (case caller of None \<Rightarrow> False | Some c \<Rightarrow> user_IsSuperadmin c) (am_Role b)) of
                Some (st, code) \<Rightarrow> (Failure st code, a)
              | None \<Rightarrow>
                  (case AddProjectMember (up ''Add'') projectID (user_ID u) (am_Role b) a of
                     None \<Rightarrow> (Failure 500 ''internal'', a)
                   | Some a1 \<Rightarrow>
                       if am_Quota b = None then (Success 201 (), a1)
                       else (case UpdateProjectMember (up ''Update'') projectID (user_ID u) None (Some (am_Quota b)) None a1 of
                               None \<Rightarrow> (Failure 500 ''internal'', a1)
                             | Some a2 \<Rightarrow> (Success 201 (), a2))))))"

definition deniedModelsMaxEntries :: nat where "deniedModelsMaxEntries = 256"

fun normalize_denied :: "string list \<Rightarrow> string list \<Rightarrow> string list" where
  "normalize_denied out [] = out"
| "normalize_denied out (raw # rest) =
     (let s = trim_space raw in
      if s = '''' \<or> List.member out s then normalize_denied out rest else normalize_denied (out @ [s]) rest)"

definition normalizeDeniedModels :: "string list \<Rightarrow> string list option" where
  "normalizeDeniedModels names =
     (let out = normalize_denied [] names in if length out > deniedModelsMaxEntries then None else Some out)"

record update_member_body =
  um_Role :: "string option"
  um_Quota :: "float64 option"
  um_ClearQuota :: bool
  um_Denied :: "string list option"

definition quota_argument :: "update_member_body \<Rightarrow> float64 option option" where
  "quota_argument b = (if um_ClearQuota b then Some None else case um_Quota b of Some q \<Rightarrow> Some (Some q) | None \<Rightarrow> None)"

definition handleUpdateMember ::
  "(string \<Rightarrow> bool) \<Rightarrow> User \<Rightarrow> ProjectMember option \<Rightarrow> string \<Rightarrow> string \<Rightarrow> update_member_body option \<Rightarrow> accounts \<Rightarrow> unit response \<times> accounts" where
  "handleUpdateMember up caller mem projectID userID body a =
     (if \<not> requireRole (Some caller) mem [''owner'', ''maintainer''] then (Failure 403 ''forbidden'', a)
      else case body of None \<Rightarrow> (Failure 400 ''bad_request'', a)
      | Some b \<Rightarrow>
          if um_Role b = None \<and> um_Quota b = None \<and> \<not> um_ClearQuota b \<and> um_Denied b = None then (Failure 400 ''bad_request'', a)
          else if (case um_Role b of Some r \<Rightarrow> \<not> IsValidProjectRole r | None \<Rightarrow> False) then (Failure 400 ''invalid_role'', a)
          else if \<not> quota_in_range (um_Quota b) then (Failure 400 ''bad_request'', a)
          else (case map_option normalizeDeniedModels (um_Denied b) of
            Some None \<Rightarrow> (Failure 400 ''bad_request'', a)
          | denied \<Rightarrow>
              (case (if up ''Get'' then GetProjectMember projectID userID a else None) of
                 None \<Rightarrow> (Failure 404 ''not_found'', a)
               | Some target \<Rightarrow>
                   (case (if um_Quota b \<noteq> None \<or> um_ClearQuota b
                          then canSetMemberQuota mem (user_IsSuperadmin caller) (member_Role target) else None) of
                      Some (st, code) \<Rightarrow> (Failure st code, a)
                    | None \<Rightarrow>
                        (case UpdateProjectMember (up ''Update'') projectID userID (um_Role b) (quota_argument b) (the_or None denied) a of
                           None \<Rightarrow> (Failure 500 ''internal'', a)
                         | Some a' \<Rightarrow> (Success 204 (), a'))))))"

text \<open>The answer: revoked keys, deleted grants; and the consents the provider is asked to revoke.\<close>
definition handleRemoveMember ::
  "bool \<Rightarrow> User option \<Rightarrow> ProjectMember option \<Rightarrow> string \<Rightarrow> string \<Rightarrow> accounts \<Rightarrow> (int \<times> int) response \<times> (string \<times> string) list \<times> accounts" where
  "handleRemoveMember up caller mem projectID userID a =
     (if \<not> requireRole caller mem [''owner'', ''maintainer''] then (Failure 403 ''forbidden'', [], a)
      else case RemoveProjectMember up projectID userID a of
        None \<Rightarrow> (Failure 500 ''internal'', [], a)
      | Some ((revoked, deleted), a') \<Rightarrow>
          (Success 200 (revoked, int (length deleted)), map (\<lambda>g. (og_UserID g, og_ClientID g)) deleted, a'))"

definition handleCountAffectedKeysOnRemove ::
  "bool \<Rightarrow> User option \<Rightarrow> ProjectMember option \<Rightarrow> string \<Rightarrow> string \<Rightarrow> accounts \<Rightarrow> int response" where
  "handleCountAffectedKeysOnRemove up caller mem projectID userID a =
     (if \<not> requireRole caller mem [''owner'', ''maintainer''] then Failure 403 ''forbidden''
      else if \<not> up then Failure 500 ''internal'' else Success 200 (CountActiveKeysForMember projectID userID a))"

definition handleMyMembership :: "bool \<Rightarrow> User \<Rightarrow> string \<Rightarrow> accounts \<Rightarrow> ProjectMember response" where
  "handleMyMembership up caller projectID a =
     (case (if up then GetProjectMember projectID (user_ID caller) a else None) of
        Some m \<Rightarrow> Success 200 m
      | None \<Rightarrow> if user_IsSuperadmin caller then Success 200 (new_member projectID (user_ID caller) ''owner'') else Failure 404 ''not_found'')"

section \<open>API keys (handle_keys.go)\<close>

definition canAccessKey :: "User option \<Rightarrow> ProjectMember option \<Rightarrow> KeyRow \<Rightarrow> bool" where
  "canAccessKey user mem key =
     (case mem of
        None \<Rightarrow> (case user of Some u \<Rightarrow> user_IsSuperadmin u | None \<Rightarrow> False)
      | Some m \<Rightarrow>
          if member_Role m = ''owner'' \<or> member_Role m = ''maintainer'' then True
          else (case user of Some u \<Rightarrow> key_CreatedBy key = user_ID u | None \<Rightarrow> False))"

record create_key_body =
  ck_Name :: string
  ck_AllowedModels :: "string list"

text \<open>The membership check in front: the middleware leaves a superadmin's membership out of the context.\<close>
definition creator_check :: "bool \<Rightarrow> User \<Rightarrow> ProjectMember option \<Rightarrow> string \<Rightarrow> accounts \<Rightarrow> (int \<times> string) option" where
  "creator_check up user mem projectID a =
     (if mem \<noteq> None then None
      else if \<not> up then Some (500, ''internal'')
      else if GetProjectMember projectID (user_ID user) a = None then Some (403, ''forbidden'') else None)"

text \<open>\<^term>\<open>sha256\<close> is the digest of the standard library, \<^term>\<open>draw\<close> the 32 random bytes or None. The result is None
  where base62 panics.\<close>
definition handleCreateKey ::
  "(string \<Rightarrow> bool) \<Rightarrow> catalog \<Rightarrow> (bytes \<Rightarrow> bytes \<Rightarrow> bytes) \<Rightarrow> (bytes \<Rightarrow> bytes) \<Rightarrow> bytes \<Rightarrow> bytes option \<Rightarrow> string \<Rightarrow> User
   \<Rightarrow> ProjectMember option \<Rightarrow> string \<Rightarrow> create_key_body option \<Rightarrow> accounts \<Rightarrow> (string response \<times> accounts) option" where
  "handleCreateKey up cat hmac sha256 encKey draw newID user mem projectID body a =
     (case creator_check (up ''GetMember'') user mem projectID a of
        Some (st, code) \<Rightarrow> Some (Failure st code, a)
      | None \<Rightarrow>
          (case body of None \<Rightarrow> Some (Failure 400 ''bad_request'', a)
           | Some b \<Rightarrow>
               if ck_Name b = '''' then Some (Failure 400 ''bad_request'', a)
               else (case NormalizeNames cat (ck_AllowedModels b) of
                 Inl unknown_names \<Rightarrow> Some (Failure 400 ''unknown_model'', a)
               | Inr allowed \<Rightarrow>
                   (case draw of None \<Rightarrow> Some (Failure 500 ''internal'', a)
                    | Some randomBytes \<Rightarrow>
                        (case generate_key hmac encKey randomBytes of
                           None \<Rightarrow> None
                         | Some plaintext \<Rightarrow>
                             Some (case CreateAPIKey (up ''Create'') newID
                                \<lparr>key_ID = '''', key_ProjectID = projectID, key_CreatedBy = user_ID user,
                                 key_KeyHash = hex_encode (sha256 (string_bytes plaintext)),
                                 key_KeySuffix = drop (length plaintext - 4) plaintext, key_Name = ck_Name b, key_Status = ''active'',
                                 key_AllowedModels = allowed, key_ExpiresAt = None\<rparr> a of
                                None \<Rightarrow> (Failure 500 ''internal'', a)
                              | Some a' \<Rightarrow> (Success 201 plaintext, a')))))))"

text \<open>The key of the request's project; \<^term>\<open>parse\<close> is uuid.Parse.\<close>
definition project_key :: "bool \<Rightarrow> (string \<Rightarrow> 'u option) \<Rightarrow> string \<Rightarrow> string \<Rightarrow> accounts \<Rightarrow> KeyRow option" where
  "project_key up parse projectID keyID a =
     (case (if up then GetAPIKeyByID keyID a else None) of
        None \<Rightarrow> None
      | Some k \<Rightarrow> if sameProjectID parse (key_ProjectID k) projectID then Some k else None)"

definition handleGetKey ::
  "bool \<Rightarrow> (string \<Rightarrow> 'u option) \<Rightarrow> User option \<Rightarrow> ProjectMember option \<Rightarrow> string \<Rightarrow> string \<Rightarrow> accounts \<Rightarrow> KeyRow response" where
  "handleGetKey up parse user mem projectID keyID a =
     (case project_key up parse projectID keyID a of
        None \<Rightarrow> Failure 404 ''not_found''
      | Some k \<Rightarrow> if \<not> canAccessKey user mem k then Failure 403 ''forbidden'' else Success 200 k)"

text \<open>The fields of the body that count; \<^term>\<open>kp_allowed\<close> is \<^term>\<open>Some None\<close> when it is not a list of strings.\<close>
record key_patch =
  kp_name :: "string option"
  kp_description :: bool
  kp_status :: "string option"
  kp_allowed :: "string list option option"

definition patch_key :: "key_patch \<Rightarrow> string list option \<Rightarrow> KeyRow \<Rightarrow> KeyRow" where
  "patch_key b allowed k =
     k\<lparr>key_Name := the_or (key_Name k) (kp_name b), key_Status := the_or (key_Status k) (kp_status b),
       key_AllowedModels := the_or (key_AllowedModels k) allowed\<rparr>"

definition handleUpdateKey ::
  "(string \<Rightarrow> bool) \<Rightarrow> (string \<Rightarrow> 'u option) \<Rightarrow> catalog \<Rightarrow> User option \<Rightarrow> ProjectMember option \<Rightarrow> string \<Rightarrow> string \<Rightarrow> key_patch option
   \<Rightarrow> accounts \<Rightarrow> KeyRow option response \<times> accounts" where
  "handleUpdateKey up parse cat user mem projectID keyID body a =
     (case project_key (up ''Get'') parse projectID keyID a of
        None \<Rightarrow> (Failure 404 ''not_found'', a)
      | Some k \<Rightarrow>
          if \<not> canAccessKey user mem k then (Failure 403 ''forbidden'', a)
          else (case body of None \<Rightarrow> (Failure 400 ''bad_request'', a)
            | Some b \<Rightarrow>
                (case (case kp_allowed b of None \<Rightarrow> Inr None
                       | Some None \<Rightarrow> Inl ''bad_request''
                       | Some (Some names) \<Rightarrow> (case NormalizeNames cat names of Inl u \<Rightarrow> Inl ''unknown_model'' | Inr ns \<Rightarrow> Inr (Some ns))) of
                   Inl code \<Rightarrow> (Failure 400 code, a)
                 | Inr allowed \<Rightarrow>
                     if kp_name b = None \<and> \<not> kp_description b \<and> kp_status b = None \<and> allowed = None then (Failure 400 ''bad_request'', a)
                     else (case UpdateAPIKeyForProject (sameProjectID parse) (up ''Update'') projectID keyID (patch_key b allowed) a of
                             None \<Rightarrow> (Failure 500 ''internal'', a)
                           | Some (updated, a') \<Rightarrow>
                               if \<not> updated then (Failure 404 ''not_found'', a') else (Success 200 (GetAPIKeyByID keyID a'), a')))))"

definition handleDeleteKey ::
  "(string \<Rightarrow> bool) \<Rightarrow> (string \<Rightarrow> 'u option) \<Rightarrow> User option \<Rightarrow> ProjectMember option \<Rightarrow> string \<Rightarrow> string \<Rightarrow> accounts \<Rightarrow> unit response \<times> accounts" where
  "handleDeleteKey up parse user mem projectID keyID a =
     (if \<not> requireRole user mem [''maintainer'', ''owner''] then (Failure 403 ''forbidden'', a)
      else case project_key (up ''Get'') parse projectID keyID a of
        None \<Rightarrow> (Failure 404 ''not_found'', a)
      | Some k \<Rightarrow>
          if key_Status k \<noteq> ''revoked'' then (Failure 400 ''bad_request'', a)
          else (case DeleteAPIKeyForProject (sameProjectID parse) (up ''Delete'') projectID keyID a of
                  None \<Rightarrow> (Failure 500 ''internal'', a)
                | Some (deleted, a') \<Rightarrow> if \<not> deleted then (Failure 404 ''not_found'', a') else (Success 204 (), a')))"

section \<open>Grants (handle_oauth_grants.go)\<close>

text \<open>The consent the provider is asked to revoke, and its failure is only logged.\<close>
definition handleRevokeOAuthGrant ::
  "(string \<Rightarrow> bool) \<Rightarrow> bool \<Rightarrow> User option \<Rightarrow> ProjectMember option \<Rightarrow> string \<Rightarrow> nat \<Rightarrow> accounts \<Rightarrow> unit response \<times> (string \<times> string) list \<times> accounts" where
  "handleRevokeOAuthGrant up hydra user mem projectID grantID a =
     (if \<not> requireRole user mem [''maintainer'', ''owner''] then (Failure 403 ''forbidden'', [], a)
      else if \<not> up ''Get'' then (Failure 500 ''internal'', [], a)
      else case GetOAuthGrantByID grantID (ac_grants a) of
        None \<Rightarrow> (Failure 404 ''not_found'', [], a)
      | Some g \<Rightarrow>
          if og_ProjectID g \<noteq> projectID then (Failure 403 ''forbidden'', [], a)
          else (let revoked = (if hydra then [(og_UserID g, og_ClientID g)] else []) in
                if \<not> up ''Delete'' then (Failure 500 ''internal'', revoked, a)
                else (Success 204 (), revoked, a\<lparr>ac_grants := DeleteOAuthGrant grantID (ac_grants a)\<rparr>)))"

section \<open>What the handlers keep\<close>

definition denied_ok :: "string list \<Rightarrow> bool" where
  "denied_ok ds \<longleftrightarrow> distinct ds \<and> length ds \<le> deniedModelsMaxEntries \<and> list_all (\<lambda>d. d \<noteq> '''' \<and> trim_space d = d) ds"

definition member_ok :: "ProjectMember \<Rightarrow> bool" where
  "member_ok m \<longleftrightarrow> IsValidProjectRole (member_Role m) \<and> quota_in_range (member_CreditQuotaPct m) \<and> denied_ok (member_DeniedModels m)"

definition member_key :: "ProjectMember \<Rightarrow> string \<times> string" where "member_key m = (member_ProjectID m, member_UserID m)"

definition members_ok :: "accounts \<Rightarrow> bool" where
  "members_ok a \<longleftrightarrow> distinct (map member_key (ac_members a)) \<and> (\<forall>m \<in> set (ac_members a). member_ok m)"

definition member_exists :: "accounts \<Rightarrow> string \<Rightarrow> string \<Rightarrow> bool" where
  "member_exists a projectID userID \<longleftrightarrow> (\<exists>m \<in> set (ac_members a). is_member projectID userID m)"

definition keys_owned :: "accounts \<Rightarrow> bool" where
  "keys_owned a \<longleftrightarrow> (\<forall>k \<in> set (ac_keys a). key_Status k = ''active'' \<longrightarrow> member_exists a (key_ProjectID k) (key_CreatedBy k))"

lemma normalize_denied_ok:
  "distinct out \<Longrightarrow> list_all (\<lambda>d. d \<noteq> '''' \<and> trim_space d = d) out \<Longrightarrow>
     distinct (normalize_denied out names) \<and> list_all (\<lambda>d. d \<noteq> '''' \<and> trim_space d = d) (normalize_denied out names)
     \<and> set (normalize_denied out names) = set out \<union> ({trim_space n |n. n \<in> set names} - {''''})"
  by (induction out names rule: normalize_denied.induct) (auto simp: Let_def)

lemma normalizeDeniedModels_ok: "normalizeDeniedModels names = Some ds \<Longrightarrow> denied_ok ds \<and> set ds = {trim_space n |n. n \<in> set names} - {''''}"
  using normalize_denied_ok[of "[]" names] by (auto simp: normalizeDeniedModels_def denied_ok_def Let_def split: if_splits)

lemma find_member_exists: "(GetProjectMember p u a \<noteq> None) = member_exists a p u"
  by (auto simp: GetProjectMember_def member_exists_def find_None_iff)

lemma update_member_keys [simp]:
  assumes "\<And>m. member_key (f m) = member_key m"
  shows "map member_key (ac_members (update_member p u f a)) = map member_key (ac_members a)"
  using assms by (simp add: update_member_def)

lemma update_member_other [simp]: "ac_keys (update_member p u f a) = ac_keys a" "ac_grants (update_member p u f a) = ac_grants a"
  by (simp_all add: update_member_def)

lemma member_exists_keys: "member_exists a p u \<longleftrightarrow> (p, u) \<in> member_key ` set (ac_members a)"
  by (auto simp: member_exists_def is_member_def member_key_def)

lemma same_member_keys: "map member_key (ac_members a') = map member_key (ac_members a) \<Longrightarrow> member_exists a' p u = member_exists a p u"
  by (metis member_exists_keys set_map)

lemma update_member_ok:
  assumes "members_ok a" "\<And>m. member_key (f m) = member_key m" "\<And>m. member_ok m \<Longrightarrow> member_ok (f m)"
  shows "members_ok (update_member p u f a)"
  unfolding members_ok_def
proof (intro conjI ballI)
  show "distinct (map member_key (ac_members (update_member p u f a)))" using assms(1,2) by (simp add: members_ok_def)
  fix m assume "m \<in> set (ac_members (update_member p u f a))"
  then show "member_ok m" using assms(1,3) by (auto simp: update_member_def members_ok_def)
qed

text \<open>The statements on memberships.\<close>
lemma AddProjectMember_keeps:
  assumes "AddProjectMember up p u role a = Some a'"
  shows "members_ok a \<Longrightarrow> members_ok a'" "ac_keys a' = ac_keys a" "member_exists a q v \<Longrightarrow> member_exists a' q v" "member_exists a' p u"
proof -
  have valid: "IsValidProjectRole role" using assms by (simp add: AddProjectMember_def split: if_splits)
  have cases: "(member_exists a p u \<and> a' = update_member p u (\<lambda>m. m\<lparr>member_Role := role\<rparr>) a)
      \<or> (\<not> member_exists a p u \<and> a' = a\<lparr>ac_members := ac_members a @ [new_member p u role]\<rparr>)"
    using assms unfolding find_member_exists[symmetric] by (auto simp: AddProjectMember_def split: if_splits)
  have keys: "map member_key (ac_members (update_member p u (\<lambda>m. m\<lparr>member_Role := role\<rparr>) a)) = map member_key (ac_members a)"
    by (simp add: member_key_def)
  have new: "member_key (new_member p u role) = (p, u)" "member_ok (new_member p u role)"
    using valid by (simp_all add: member_key_def new_member_def member_ok_def quota_in_range_def denied_ok_def)
  show "ac_keys a' = ac_keys a" using cases by auto
  show "member_exists a q v \<Longrightarrow> member_exists a' q v" using cases same_member_keys[OF keys] by (auto simp: member_exists_def)
  show "member_exists a' p u" using cases same_member_keys[OF keys, of p u] new by (auto simp: member_exists_keys image_iff)
  assume ok: "members_ok a"
  have "member_ok (m\<lparr>member_Role := role\<rparr>)" if "member_ok m" for m using that valid by (simp add: member_ok_def)
  then have "members_ok (update_member p u (\<lambda>m. m\<lparr>member_Role := role\<rparr>) a)" by (intro update_member_ok[OF ok]) (simp_all add: member_key_def)
  then show "members_ok a'" using cases ok new by (auto simp: members_ok_def member_exists_keys)
qed

lemma UpdateProjectMember_keeps:
  assumes "UpdateProjectMember up p u role quota denied a = Some a'"
  shows "members_ok a \<Longrightarrow> (\<forall>ds. denied = Some ds \<longrightarrow> denied_ok ds) \<Longrightarrow> members_ok a'" "ac_keys a' = ac_keys a" "member_exists a' q v = member_exists a q v"
proof -
  have cases: "a' = a \<or> (a' = update_member p u (member_columns role quota denied) a
      \<and> (\<forall>r. role = Some r \<longrightarrow> IsValidProjectRole r) \<and> (role = Some ''owner'' \<or> quota_in_range (the_or None quota)))"
    using assms by (auto simp: UpdateProjectMember_def split: if_splits option.splits)
  have keys: "map member_key (ac_members (update_member p u (member_columns role quota denied) a)) = map member_key (ac_members a)"
    by (simp add: member_key_def member_columns_def)
  show "ac_keys a' = ac_keys a" using cases by auto
  show "member_exists a' q v = member_exists a q v" using cases same_member_keys[OF keys] by auto
  assume ok: "members_ok a" and ds: "\<forall>ds. denied = Some ds \<longrightarrow> denied_ok ds"
  show "members_ok a'"
  proof (cases "a' = a")
    case False
    with cases have c: "a' = update_member p u (member_columns role quota denied) a" "\<forall>r. role = Some r \<longrightarrow> IsValidProjectRole r"
        "role = Some ''owner'' \<or> quota_in_range (the_or None quota)" by auto
    have "member_ok (member_columns role quota denied m)" if "member_ok m" for m
      using that c(2,3) ds by (cases role; cases quota; cases denied) (auto simp: member_ok_def member_columns_def quota_in_range_def)
    then show ?thesis unfolding c(1) by (intro update_member_ok[OF ok]) (simp_all add: member_key_def member_columns_def)
  qed (use ok in simp)
qed

lemma RemoveProjectMember_keeps:
  assumes "RemoveProjectMember up p u a = Some ((n, gs), a')"
  shows "members_ok a \<Longrightarrow> members_ok a'" "keys_owned a \<Longrightarrow> keys_owned a'"
proof -
  have a': "ac_members a' = filter (\<lambda>m. \<not> is_member p u m) (ac_members a)"
      "ac_keys a' = map (\<lambda>k. if keys_of p u k \<and> key_Status k = ''active'' then k\<lparr>key_Status := ''revoked''\<rparr> else k) (ac_keys a)"
    using assms by (auto simp: RemoveProjectMember_def split: if_splits)
  show "members_ok a \<Longrightarrow> members_ok a'" using a' by (auto simp: members_ok_def distinct_map_filter)
  assume own: "keys_owned a"
  have stays: "member_exists a' q v" if "member_exists a q v" "(q, v) \<noteq> (p, u)" for q v
    using that a'(1) by (auto simp: member_exists_def is_member_def)
  show "keys_owned a'" unfolding keys_owned_def
  proof (intro ballI impI)
    fix k assume k: "k \<in> set (ac_keys a')" "key_Status k = ''active''"
    then obtain k0 where "k0 \<in> set (ac_keys a)" "k = k0" "\<not> keys_of p u k0" unfolding a'(2) by (auto split: if_splits)
    then show "member_exists a' (key_ProjectID k) (key_CreatedBy k)"
      using own stays k(2) by (auto simp: keys_owned_def keys_of_def)
  qed
qed

section \<open>Any sequence of requests\<close>

text \<open>A request finds in its context the caller's membership of the project, or none when the caller is a superadmin.\<close>
definition context_fresh :: "User \<Rightarrow> ProjectMember option \<Rightarrow> string \<Rightarrow> accounts \<Rightarrow> bool" where
  "context_fresh user mem projectID a \<longleftrightarrow> mem = None \<or> mem = GetProjectMember projectID (user_ID user) a"

inductive management_step :: "bool \<Rightarrow> accounts \<Rightarrow> accounts \<Rightarrow> bool" for reactivation where
  new_user: "CreateUser up newID u a = Some a' \<Longrightarrow> management_step reactivation a a'"
| create_project: "handleCreateProject up getPlan newID subID user body now (a, db) = (r, a', db') \<Longrightarrow> management_step reactivation a a'"
| update_project: "handleUpdateProject ok caller mem p patch a = (r, a') \<Longrightarrow> management_step reactivation a a'"
| archive: "handleArchiveProject ok caller mem p a = (r, a') \<Longrightarrow> management_step reactivation a a'"
| unarchive: "handleUnarchiveProject up caller mem p a = (r, a') \<Longrightarrow> management_step reactivation a a'"
| add_member: "handleAddMember up caller mem p add a = (ra, a') \<Longrightarrow> management_step reactivation a a'"
| update_member: "handleUpdateMember up user mem p u upd a = (ra, a') \<Longrightarrow> management_step reactivation a a'"
| remove_member: "handleRemoveMember ok caller mem p u a = (rr, consents, a') \<Longrightarrow> management_step reactivation a a'"
| create_key: "handleCreateKey up cat hmac sha256 encKey draw newID user mem p ck a = Some (rk, a') \<Longrightarrow> context_fresh user mem p a
    \<Longrightarrow> management_step reactivation a a'"
| update_key: "handleUpdateKey up (parse :: string \<Rightarrow> string option) cat caller mem p i kp a = (rp, a') \<Longrightarrow>
    reactivation \<or> (\<forall>b. kp = Some b \<longrightarrow> kp_status b \<noteq> Some ''active'') \<Longrightarrow> management_step reactivation a a'"
| delete_key: "handleDeleteKey up (parse :: string \<Rightarrow> string option) caller mem p i a = (ra, a') \<Longrightarrow> management_step reactivation a a'"
| revoke_grant: "handleRevokeOAuthGrant up hydra caller mem p g a = (ra, consents, a') \<Longrightarrow> management_step reactivation a a'"

definition project_ids :: "accounts \<Rightarrow> string list" where "project_ids a = map proj_ID (ac_projects a)"

definition accounts_ok :: "accounts \<Rightarrow> bool" where
  "accounts_ok a \<longleftrightarrow> members_ok a \<and> (\<forall>m \<in> set (ac_members a). member_ProjectID m \<in> set (project_ids a))"

lemma find_project: "(GetProjectByID p a = None) = (p \<notin> set (project_ids a))"
  by (auto simp: GetProjectByID_def project_ids_def find_None_iff)

lemma UpdateProject_keeps:
  assumes "\<And>p. proj_ID (f p) = proj_ID p"
  shows "accounts_ok (UpdateProject i f a) = accounts_ok a" "keys_owned (UpdateProject i f a) = keys_owned a"
proof -
  have "project_ids (UpdateProject i f a) = project_ids a" using assms by (simp add: project_ids_def UpdateProject_def)
  then show "accounts_ok (UpdateProject i f a) = accounts_ok a" by (simp add: accounts_ok_def members_ok_def) (simp add: UpdateProject_def)
  show "keys_owned (UpdateProject i f a) = keys_owned a" by (simp add: keys_owned_def member_exists_def UpdateProject_def)
qed

lemma CreateProject_keeps:
  assumes "CreateProject up newID pr a = Some a'"
  shows "accounts_ok a \<Longrightarrow> accounts_ok a'" "keys_owned a \<Longrightarrow> keys_owned a'"
proof -
  have a': "a' = a\<lparr>ac_projects := ac_projects a @ [pr\<lparr>proj_ID := newID\<rparr>],
                   ac_members := ac_members a @ [new_member newID (proj_CreatedBy pr) ''owner'']\<rparr>" "newID \<notin> set (project_ids a)"
    using assms by (auto simp: CreateProject_def find_project split: if_splits)
  show "keys_owned a \<Longrightarrow> keys_owned a'" using a'(1) by (auto simp: keys_owned_def member_exists_def)
  assume ok: "accounts_ok a"
  then have "(newID, u) \<notin> member_key ` set (ac_members a)" for u using a'(2) by (auto simp: accounts_ok_def member_key_def)
  moreover have "member_key (new_member newID u ''owner'') = (newID, u)" "member_ok (new_member newID u ''owner'')" for u
    by (simp_all add: member_key_def new_member_def member_ok_def quota_in_range_def denied_ok_def IsValidProjectRole_def)
  ultimately show "accounts_ok a'" using ok a'(1) by (auto simp: accounts_ok_def members_ok_def project_ids_def new_member_def)
qed

lemma member_statement_projects [simp]: "ac_projects (update_member p u f a) = ac_projects a"
  by (simp add: update_member_def)

lemma update_member_projects:
  "\<forall>m \<in> set (ac_members a). member_ProjectID m \<in> S \<Longrightarrow> \<forall>m. member_ProjectID (f m) = member_ProjectID m \<Longrightarrow>
     \<forall>m \<in> set (ac_members (update_member p u f a)). member_ProjectID m \<in> S"
  by (auto simp: update_member_def)

lemma Add_accounts:
  assumes "AddProjectMember up p u role a = Some a'" "accounts_ok a"
  shows "accounts_ok a'"
proof -
  have "project_ids a' = project_ids a" using assms(1) by (auto simp: AddProjectMember_def project_ids_def split: if_splits)
  moreover have "\<forall>m \<in> set (ac_members a'). member_ProjectID m \<in> set (project_ids a)"
    using assms by (auto simp: AddProjectMember_def accounts_ok_def find_project update_member_def new_member_def split: if_splits)
  ultimately show ?thesis using AddProjectMember_keeps(1)[OF assms(1)] assms(2) by (simp add: accounts_ok_def)
qed

lemma Update_accounts:
  assumes "UpdateProjectMember up p u role quota denied a = Some a'" "accounts_ok a" "\<forall>ds. denied = Some ds \<longrightarrow> denied_ok ds"
  shows "accounts_ok a'"
proof -
  have "project_ids a' = project_ids a" using assms(1) by (auto simp: UpdateProjectMember_def project_ids_def split: if_splits option.splits)
  moreover have "\<forall>m \<in> set (ac_members a'). member_ProjectID m \<in> set (project_ids a)"
    using assms by (auto simp: UpdateProjectMember_def accounts_ok_def update_member_def member_columns_def split: if_splits option.splits)
  ultimately show ?thesis using UpdateProjectMember_keeps(1)[OF assms(1)] assms(2,3) by (simp add: accounts_ok_def)
qed

text \<open>Changes to the key and grant tables alone.\<close>
lemma keys_only:
  assumes "ac_members a' = ac_members a" "ac_projects a' = ac_projects a"
  shows "accounts_ok a' = accounts_ok a" "member_exists a' = member_exists a"
  using assms by (simp_all add: accounts_ok_def members_ok_def project_ids_def member_exists_def fun_eq_iff)

lemma update_key_owned:
  assumes "keys_owned a" "\<And>k. key_ProjectID (f k) = key_ProjectID k" "\<And>k. key_CreatedBy (f k) = key_CreatedBy k"
    "\<And>k. key_Status (f k) = ''active'' \<Longrightarrow> key_Status k = ''active''"
  shows "keys_owned (snd (Accounts.update_key same p i f a))"
  using assms unfolding keys_owned_def by (fastforce simp: update_key_def Let_def member_exists_def)

lemma handler_accounts:
  assumes "management_step reactivation a a'" "accounts_ok a"
  shows "accounts_ok a'"
  using assms
proof (cases rule: management_step.cases)
  case (new_user up newID u)
  then have "a' = a\<lparr>ac_users := ac_users a @ [u\<lparr>user_ID := newID\<rparr>]\<rparr>" by (auto simp: CreateUser_def split: if_splits)
  then show ?thesis using assms(2) keys_only(1)[of a' a] by simp
next
  case (create_project up getPlan newID subID user body now db r db')
  then show ?thesis using assms(2) CreateProject_keeps(1)
    by (auto simp: handleCreateProject_def split: option.splits if_splits)
next
  case (update_project ok caller mem p patch r)
  then show ?thesis using assms(2) UpdateProject_keeps(1) by (auto simp: handleUpdateProject_def Let_def split: if_splits option.splits)
next
  case (archive ok caller mem p r)
  then show ?thesis using assms(2) UpdateProject_keeps(1) by (auto simp: handleArchiveProject_def Let_def split: if_splits)
next
  case (unarchive up caller mem p r)
  then show ?thesis using assms(2) UpdateProject_keeps(1) by (auto simp: handleUnarchiveProject_def Let_def split: if_splits option.splits)
next
  case (add_member up caller mem p add ra)
  then show ?thesis using assms(2) Add_accounts Update_accounts[where denied = None]
    by (auto simp: handleAddMember_def split: if_splits option.splits prod.splits)
next
  case (update_member up user mem p u upd ra)
  then show ?thesis using assms(2) Update_accounts normalizeDeniedModels_ok
    by (auto simp: handleUpdateMember_def split: if_splits option.splits prod.splits)
next
  case (remove_member ok caller mem p u rr consents)
  have "accounts_ok a''" if r: "RemoveProjectMember ok p u a = Some ((n, gs), a'')" for n gs a''
  proof -
    have "ac_projects a'' = ac_projects a" "set (ac_members a'') \<subseteq> set (ac_members a)" using r by (auto simp: RemoveProjectMember_def split: if_splits)
    then show ?thesis using RemoveProjectMember_keeps(1)[OF r] assms(2) by (auto simp: accounts_ok_def project_ids_def)
  qed
  then show ?thesis using remove_member assms(2) by (auto simp: handleRemoveMember_def split: if_splits option.splits)
next
  case (create_key up cat hmac sha256 encKey draw newID user mem p ck rk)
  then have "ac_members a' = ac_members a \<and> ac_projects a' = ac_projects a"
    by (auto simp: handleCreateKey_def CreateAPIKey_def split: if_splits option.splits sum.splits prod.splits)
  then show ?thesis using assms(2) keys_only(1)[of a' a] by simp
next
  case (update_key up parse cat caller mem p i kp rp)
  then have "ac_members a' = ac_members a \<and> ac_projects a' = ac_projects a"
    by (auto simp: handleUpdateKey_def UpdateAPIKeyForProject_def update_key_def Let_def split: if_splits option.splits sum.splits prod.splits)
  then show ?thesis using assms(2) keys_only(1)[of a' a] by simp
next
  case (delete_key up parse caller mem p i ra)
  then have "ac_members a' = ac_members a \<and> ac_projects a' = ac_projects a"
    by (auto simp: handleDeleteKey_def DeleteAPIKeyForProject_def update_key_def Let_def split: if_splits option.splits prod.splits)
  then show ?thesis using assms(2) keys_only(1)[of a' a] by simp
next
  case (revoke_grant up hydra caller mem p g ra consents)
  then have "ac_members a' = ac_members a \<and> ac_projects a' = ac_projects a"
    by (auto simp: handleRevokeOAuthGrant_def Let_def split: if_splits option.splits)
  then show ?thesis using assms(2) keys_only(1)[of a' a] by simp
qed

lemma same_members_owned:
  assumes "ac_members a' = ac_members a" "ac_keys a' = ac_keys a"
  shows "keys_owned a' = keys_owned a"
  using assms by (simp add: keys_owned_def member_exists_def)

lemma more_members_owned:
  assumes "keys_owned a" "ac_keys a' = ac_keys a" "\<And>q v. member_exists a q v \<Longrightarrow> member_exists a' q v"
  shows "keys_owned a'"
  using assms by (auto simp: keys_owned_def)

lemma created_key_row:
  assumes "handleCreateKey up cat hmac sha256 encKey draw newID user mem p ck a = Some (Success st plaintext, a')"
  shows "\<exists>allowed name. a' = a\<lparr>ac_keys := ac_keys a @
      [APIKey.extend \<lparr>key_ID = newID, key_ProjectID = p, key_CreatedBy = user_ID user, key_KeyHash = hex_encode (sha256 (string_bytes plaintext)),
         key_KeySuffix = drop (length plaintext - 4) plaintext, key_Name = name, key_Status = ''active'', key_AllowedModels = allowed,
         key_ExpiresAt = None\<rparr> \<lparr>key_Deleted = False\<rparr>]\<rparr>"
    and "creator_check (up ''GetMember'') user mem p a = None"
    and "\<exists>randomBytes. draw = Some randomBytes \<and> generate_key hmac encKey randomBytes = Some plaintext"
    and "\<not> list_ex (\<lambda>r. key_KeyHash r = hex_encode (sha256 (string_bytes plaintext))) (ac_keys a)"
  using assms by (auto simp: handleCreateKey_def CreateAPIKey_def list_ex_iff split: option.splits if_splits sum.splits prod.splits)

lemma create_key_failed:
  assumes "handleCreateKey up cat hmac sha256 encKey draw newID user mem p ck a = Some (Failure st code, a')"
  shows "a' = a"
  using assms by (auto simp: handleCreateKey_def split: option.splits if_splits sum.splits prod.splits)

lemma fresh_creator:
  assumes "creator_check up user mem p a = None" "context_fresh user mem p a"
  shows "member_exists a p (user_ID user)"
  using assms unfolding find_member_exists[symmetric]
  by (cases "GetProjectMember p (user_ID user) a") (auto simp: creator_check_def context_fresh_def split: if_splits)

lemma update_key_effect:
  assumes "handleUpdateKey up parse cat caller mem p i kp a = (r, a')"
  shows "a' = a \<or> (\<exists>b allowed k. kp = Some b \<and> project_key (up ''Get'') parse p i a = Some k \<and> canAccessKey caller mem k
           \<and> a' = snd (Accounts.update_key (sameProjectID parse) p i (patch_key b allowed) a))"
  using assms by (auto simp: handleUpdateKey_def UpdateAPIKeyForProject_def dest: sndI split: option.splits if_splits sum.splits prod.splits)

lemma handler_keys_owned:
  assumes "management_step False a a'" "keys_owned a"
  shows "keys_owned a'"
  using assms
proof (cases rule: management_step.cases)
  case (new_user up newID u)
  then have "ac_members a' = ac_members a" "ac_keys a' = ac_keys a" by (auto simp: CreateUser_def split: if_splits)
  then show ?thesis using assms(2) same_members_owned by blast
next
  case (create_project up getPlan newID subID user body now db r db')
  then show ?thesis using assms(2) CreateProject_keeps(2) by (auto simp: handleCreateProject_def split: option.splits if_splits)
next
  case (update_project ok caller mem p patch r)
  then show ?thesis using assms(2) UpdateProject_keeps(2) by (auto simp: handleUpdateProject_def Let_def split: if_splits option.splits)
next
  case (archive ok caller mem p r)
  then show ?thesis using assms(2) UpdateProject_keeps(2) by (auto simp: handleArchiveProject_def Let_def split: if_splits)
next
  case (unarchive up caller mem p r)
  then show ?thesis using assms(2) UpdateProject_keeps(2) by (auto simp: handleUnarchiveProject_def Let_def split: if_splits option.splits)
next
  case (add_member up caller mem p add ra)
  have add: "keys_owned a1" if "AddProjectMember w p' u role b = Some a1" "keys_owned b" for w p' u role b a1
    by (rule more_members_owned[OF that(2) AddProjectMember_keeps(2,3)[OF that(1)]])
  have upd: "keys_owned a2" if "UpdateProjectMember w p' u role q d b = Some a2" "keys_owned b" for w p' u role q d b a2
    by (rule more_members_owned[OF that(2) UpdateProjectMember_keeps(2)[OF that(1)]]) (simp add: UpdateProjectMember_keeps(3)[OF that(1)])
  show ?thesis using add_member assms(2) by (auto simp: handleAddMember_def dest: add upd split: if_splits option.splits prod.splits)
next
  case (update_member up user mem p u upd ra)
  have upd: "keys_owned a2" if "UpdateProjectMember w p' u role q d b = Some a2" "keys_owned b" for w p' u role q d b a2
    by (rule more_members_owned[OF that(2) UpdateProjectMember_keeps(2)[OF that(1)]]) (simp add: UpdateProjectMember_keeps(3)[OF that(1)])
  show ?thesis using update_member assms(2) by (auto simp: handleUpdateMember_def dest: upd split: if_splits option.splits prod.splits)
next
  case (remove_member ok caller mem p u rr consents)
  then show ?thesis using assms(2) RemoveProjectMember_keeps(2) by (auto simp: handleRemoveMember_def split: if_splits option.splits)
next
  case (create_key up cat hmac sha256 encKey draw newID user mem p ck rk)
  show ?thesis
  proof (cases rk)
    case (Success st plaintext)
    note r = created_key_row[OF create_key(1)[unfolded Success]]
    have "member_exists a p (user_ID user)" using fresh_creator[OF r(2) create_key(2)] .
    moreover have "member_exists a' = member_exists a" using r(1) by (auto simp: member_exists_def fun_eq_iff)
    ultimately show ?thesis using r(1) assms(2) by (auto simp: keys_owned_def APIKey.defs)
  next
    case (Failure st code)
    then show ?thesis using create_key_failed[OF create_key(1)[unfolded Failure]] assms(2) by simp
  qed
next
  case (update_key up parse cat caller mem p i kp rp)
  show ?thesis
  proof (cases "\<exists>b allowed. kp = Some b \<and> a' = snd (Accounts.update_key (sameProjectID parse) p i (patch_key b allowed) a)")
    case True
    then obtain b allowed where b: "kp = Some b" "a' = snd (Accounts.update_key (sameProjectID parse) p i (patch_key b allowed) a)" by blast
    show ?thesis unfolding b(2)
      by (rule update_key_owned[OF assms(2)]) (use update_key(2) b(1) in \<open>auto simp: patch_key_def the_or_def split: option.splits\<close>)
  next
    case False
    then have "a' = a" using update_key_effect[OF update_key(1)] by blast
    then show ?thesis using assms(2) by simp
  qed
next
  case (delete_key up parse caller mem p i ra)
  have "keys_owned (snd (Accounts.update_key (sameProjectID parse) p i (\<lambda>k. k\<lparr>key_Deleted := True\<rparr>) a))"
    by (rule update_key_owned[OF assms(2)]) simp_all
  then show ?thesis using delete_key assms(2)
    by (auto simp: handleDeleteKey_def DeleteAPIKeyForProject_def split: if_splits option.splits prod.splits)
next
  case (revoke_grant up hydra caller mem p g ra consents)
  then have "ac_members a' = ac_members a" "ac_keys a' = ac_keys a" by (auto simp: handleRevokeOAuthGrant_def Let_def split: if_splits option.splits)
  then show ?thesis using assms(2) same_members_owned by blast
qed

section \<open>Properties\<close>

lemma reachable_accounts_ok: "(management_step reactivation)\<^sup>*\<^sup>* no_accounts a \<Longrightarrow> accounts_ok a"
proof (induction rule: rtranclp_induct)
  case (step y z) then show ?case using handler_accounts by blast
qed (simp add: no_accounts_def accounts_ok_def members_ok_def)

lemma reachable_keys_owned: "(management_step False)\<^sup>*\<^sup>* no_accounts a \<Longrightarrow> keys_owned a"
proof (induction rule: rtranclp_induct)
  case (step y z) then show ?case using handler_keys_owned by blast
qed (simp add: no_accounts_def keys_owned_def)

text \<open>C18: whatever requests the management handlers serve in whatever order, every membership is well formed: one row
  per project and user, a known role, a quota between 0 and 100 percent or none, and a list of denied models
  that is trimmed, without duplicates or blanks, and at most 256 long; and its project exists.\<close>
theorem memberships_well_formed:
  assumes "(management_step reactivation)\<^sup>*\<^sup>* no_accounts a"
  shows "distinct (map member_key (ac_members a))
    \<and> (\<forall>m \<in> set (ac_members a). IsValidProjectRole (member_Role m) \<and> quota_in_range (member_CreditQuotaPct m)
         \<and> denied_ok (member_DeniedModels m) \<and> GetProjectByID (member_ProjectID m) a \<noteq> None)"
  using reachable_accounts_ok[OF assms] by (auto simp: accounts_ok_def members_ok_def member_ok_def find_project)

text \<open>C10: the invariant the comments of handleCreateKey and migration 055 rely on: as long as no request sets the status
  of a key to active, every active key's creator is a member of the key's project, whatever keys, members
  and projects are created, changed and removed.\<close>
theorem active_keys_have_members:
  assumes "(management_step False)\<^sup>*\<^sup>* no_accounts a" and "k \<in> set (ac_keys a)" and "key_Status k = ''active''"
  shows "GetProjectMember (key_ProjectID k) (key_CreatedBy k) a \<noteq> None"
  using reachable_keys_owned[OF assms(1)] assms(2,3) unfolding keys_owned_def find_member_exists by blast

text \<open>Removing a member leaves nothing of theirs behind: no membership, no active key and no grant of the project;
  the answer counts the keys revoked and the grants deleted, the provider is asked to revoke the consent of each deleted
  grant, and what belongs to anyone else stays as it was.\<close>
lemma removed_member_leaves_nothing:
  assumes "handleRemoveMember up caller mem projectID userID a = (Success 200 (revoked, deleted), consents, a')"
  shows "GetProjectMember projectID userID a' = None
    \<and> CountActiveKeysForMember projectID userID a' = 0 \<and> revoked = CountActiveKeysForMember projectID userID a
    \<and> filter (grants_of projectID userID) (gt_rows (ac_grants a')) = []
    \<and> deleted = int (length (filter (grants_of projectID userID) (gt_rows (ac_grants a))))
    \<and> consents = map (\<lambda>g. (userID, og_ClientID g)) (filter (grants_of projectID userID) (gt_rows (ac_grants a)))
    \<and> filter (\<lambda>m. \<not> is_member projectID userID m) (ac_members a') = filter (\<lambda>m. \<not> is_member projectID userID m) (ac_members a)
    \<and> filter (\<lambda>k. \<not> keys_of projectID userID k) (ac_keys a') = filter (\<lambda>k. \<not> keys_of projectID userID k) (ac_keys a)
    \<and> filter (\<lambda>g. \<not> grants_of projectID userID g) (gt_rows (ac_grants a')) = filter (\<lambda>g. \<not> grants_of projectID userID g) (gt_rows (ac_grants a))
    \<and> ac_users a' = ac_users a \<and> ac_projects a' = ac_projects a"
proof -
  let ?revoke = "\<lambda>k. if keys_of projectID userID k \<and> key_Status k = ''active'' then k\<lparr>key_Status := ''revoked''\<rparr> else k"
  have a': "a' = a\<lparr>ac_keys := map ?revoke (ac_keys a),
                   ac_grants := (ac_grants a)\<lparr>gt_rows := filter (\<lambda>g. \<not> grants_of projectID userID g) (gt_rows (ac_grants a))\<rparr>,
                   ac_members := filter (\<lambda>m. \<not> is_member projectID userID m) (ac_members a)\<rparr>"
      "revoked = CountActiveKeysForMember projectID userID a" "deleted = int (length (filter (grants_of projectID userID) (gt_rows (ac_grants a))))"
      "consents = map (\<lambda>g. (og_UserID g, og_ClientID g)) (filter (grants_of projectID userID) (gt_rows (ac_grants a)))"
    using assms by (auto simp: handleRemoveMember_def RemoveProjectMember_def CountActiveKeysForMember_def split: if_splits)
  have keys: "filter (\<lambda>k. \<not> keys_of projectID userID k) (map ?revoke ks) = filter (\<lambda>k. \<not> keys_of projectID userID k) ks"
    "filter (\<lambda>k. keys_of projectID userID k \<and> key_Status k = ''active'') (map ?revoke ks) = []" for ks
    by (induction ks) (auto simp: keys_of_def)
  have consents: "consents = map (\<lambda>g. (userID, og_ClientID g)) (filter (grants_of projectID userID) (gt_rows (ac_grants a)))"
    unfolding a'(4) by (rule map_cong) (auto simp: grants_of_def)
  have gone: "GetProjectMember projectID userID a' = None" unfolding a'(1) by (simp add: GetProjectMember_def find_None_iff)
  have ak: "ac_keys a' = map ?revoke (ac_keys a)" unfolding a'(1) by simp
  have k: "CountActiveKeysForMember projectID userID a' = 0"
      "filter (\<lambda>k. \<not> keys_of projectID userID k) (ac_keys a') = filter (\<lambda>k. \<not> keys_of projectID userID k) (ac_keys a)"
    unfolding CountActiveKeysForMember_def ak keys by simp_all
  have g: "filter (grants_of projectID userID) (gt_rows (ac_grants a')) = []"
      "filter (\<lambda>g. \<not> grants_of projectID userID g) (gt_rows (ac_grants a')) = filter (\<lambda>g. \<not> grants_of projectID userID g) (gt_rows (ac_grants a))"
    unfolding a'(1) by (simp_all add: filter_empty_conv)
  have m: "filter (\<lambda>m. \<not> is_member projectID userID m) (ac_members a') = filter (\<lambda>m. \<not> is_member projectID userID m) (ac_members a)"
      "ac_users a' = ac_users a" "ac_projects a' = ac_projects a"
    unfolding a'(1) by simp_all
  show ?thesis using gone k g m a'(2,3) consents by (intro conjI)
qed

text \<open>A key that handleCreateKey hands out works: it passes the checksum test of the proxy, and the lookup by its hash
  finds an active row of the request's project and user that no earlier key shares.\<close>
lemma created_key_authenticates:
  assumes "handleCreateKey up cat hmac sha256 encKey draw newID user mem projectID body a = Some (Success 201 plaintext, a')"
    and "\<And>k m. length (hmac k m) = 32" and "\<And>r. draw = Some r \<Longrightarrow> length r = APIKeyRandomLen"
  shows "\<exists>keyBody k. plaintext = APIKeyPrefix @ keyBody \<and> ValidateAPIKeyChecksum hmac encKey keyBody
    \<and> GetAPIKeyByHash (hex_encode (sha256 (string_bytes plaintext))) a' = Some k \<and> k \<in> set (ac_keys a') \<and> k \<notin> set (ac_keys a)
    \<and> key_ProjectID k = projectID \<and> key_CreatedBy k = user_ID user \<and> key_Status k = ''active'' \<and> \<not> key_Deleted k"
proof -
  note r = created_key_row[OF assms(1)]
  obtain rb where rb: "draw = Some rb" "generate_key hmac encKey rb = Some plaintext" using r(3) by blast
  then obtain keyBody where body: "Base62Encode (rb @ ComputeAPIKeyChecksum hmac encKey rb) APIKeyBodyLen = Some keyBody" "plaintext = APIKeyPrefix @ keyBody"
    by (auto simp: generate_key_def)
  have valid: "ValidateAPIKeyChecksum hmac encKey keyBody"
    using generated_key_validates[where hmac = hmac and randomBytes = rb and encKey = encKey, OF assms(2)] rb assms(3) body(2) by auto
  obtain k where k: "ac_keys a' = ac_keys a @ [k]" "key_KeyHash k = hex_encode (sha256 (string_bytes plaintext))" "key_ProjectID k = projectID"
      "key_CreatedBy k = user_ID user" "key_Status k = ''active''" "\<not> key_Deleted k"
    using r(1) by (auto simp: APIKey.defs)
  have fresh: "\<forall>r \<in> set (ac_keys a). key_KeyHash r \<noteq> key_KeyHash k" using r(4) k(2) by (auto simp: list_ex_iff)
  have "find (\<lambda>r. key_KeyHash r = h) (ks @ [k]) = Some k" if "\<forall>r \<in> set ks. key_KeyHash r \<noteq> h" "key_KeyHash k = h" for ks h
    using that by (induction ks) auto
  then have "GetAPIKeyByHash (hex_encode (sha256 (string_bytes plaintext))) a' = Some k" using k(1,2) fresh by (simp add: GetAPIKeyByHash_def)
  then show ?thesis using body(2) valid k fresh by auto
qed

section \<open>What the handlers allow\<close>

lemma find_map_member:
  "GetProjectMember p u a = Some m \<Longrightarrow> (\<And>m. member_key (f m) = member_key m) \<Longrightarrow> GetProjectMember p u (update_member p u f a) = Some (f m)"
proof -
  assume g: "GetProjectMember p u a = Some m" and f: "\<And>m. member_key (f m) = member_key m"
  have same: "is_member p u (f m) = is_member p u m" for m using f[of m] by (simp add: is_member_def member_key_def)
  have "find (is_member p u) ms = Some m \<Longrightarrow> find (is_member p u) (map (\<lambda>m. if is_member p u m then f m else m) ms) = Some (f m)" for ms
    by (induction ms) (auto simp: same split: if_splits)
  then show ?thesis using g by (simp add: GetProjectMember_def update_member_def)
qed

text \<open>Adding a member that exists changes their role, and a maintainer may add anyone in any role: a maintainer who
  enters their own address with the role owner becomes an owner, and may then do what only owners may.\<close>
lemma maintainer_becomes_owner:
  assumes "GetProjectMember projectID (user_ID caller) a = Some m" and "member_Role m = ''maintainer''"
    and "GetUserByEmail (user_Email caller) a = Some u" and "user_ID u = user_ID caller" and "user_Email caller \<noteq> ''''"
    and "GetProjectByID projectID a \<noteq> None" and "GetUserByID (user_ID caller) a \<noteq> None"
  shows "\<exists>a' m'. handleAddMember (\<lambda>_. True) (Some caller) (Some m) projectID
      (Some \<lparr>am_Email = user_Email caller, am_Role = ''owner'', am_Quota = None\<rparr>) a = (Success 201 (), a')
    \<and> GetProjectMember projectID (user_ID caller) a' = Some m' \<and> requireRole (Some caller) (Some m') [''owner'']"
proof -
  let ?a' = "update_member projectID (user_ID caller) (\<lambda>m. m\<lparr>member_Role := ''owner''\<rparr>) a"
  have "GetProjectMember projectID (user_ID caller) ?a' = Some (m\<lparr>member_Role := ''owner''\<rparr>)"
    by (rule find_map_member[OF assms(1)]) (simp add: member_key_def)
  moreover have "handleAddMember (\<lambda>_. True) (Some caller) (Some m) projectID
      (Some \<lparr>am_Email = user_Email caller, am_Role = ''owner'', am_Quota = None\<rparr>) a = (Success 201 (), ?a')"
    using assms by (simp add: handleAddMember_def AddProjectMember_def requireRole_def IsValidProjectRole_def)
  ultimately show ?thesis by (simp add: requireRole_def)
qed

text \<open>The status of a key is a field like any other: whoever may edit a key may set a revoked one active again, so a
  developer undoes the revocation of their own key.\<close>
lemma developer_reactivates_key:
  assumes "GetAPIKeyByID i a = Some k" and "key_ProjectID k = p" and "key_CreatedBy k = user_ID caller"
    and "member_Role m = ''developer''"
  shows "\<exists>a'. handleUpdateKey (\<lambda>_. True) parse cat (Some caller) (Some m) p i
        (Some \<lparr>kp_name = None, kp_description = False, kp_status = Some ''active'', kp_allowed = None\<rparr>) a = (Success 200 (GetAPIKeyByID i a'), a')
    \<and> GetAPIKeyByID i a' = Some (k\<lparr>key_Status := ''active''\<rparr>)"
proof -
  let ?b = "\<lparr>kp_name = None, kp_description = False, kp_status = Some ''active'', kp_allowed = None\<rparr>"
  let ?hit = "\<lambda>k. key_ID k = i \<and> sameProjectID parse (key_ProjectID k) p \<and> \<not> key_Deleted k"
  let ?a' = "a\<lparr>ac_keys := map (\<lambda>k. if ?hit k then patch_key ?b None k else k) (ac_keys a)\<rparr>"
  have same: "sameProjectID parse p p" by (simp add: sameProjectID_def)
  have patch: "key_ID (patch_key ?b None k) = key_ID k" "key_Deleted (patch_key ?b None k) = key_Deleted k" for k by (simp_all add: patch_key_def)
  have k: "k \<in> set (ac_keys a)" "key_ID k = i" "\<not> key_Deleted k" using assms(1) by (auto simp: GetAPIKeyByID_def find_Some_iff)
  have "find (\<lambda>k. key_ID k = i \<and> \<not> key_Deleted k) ks = Some k \<Longrightarrow>
     find (\<lambda>k. key_ID k = i \<and> \<not> key_Deleted k) (map (\<lambda>k. if ?hit k then patch_key ?b None k else k) ks) = Some (patch_key ?b None k)" for ks
    using same assms(2) by (induction ks) (auto simp: patch split: if_splits)
  then have new: "GetAPIKeyByID i ?a' = Some (k\<lparr>key_Status := ''active''\<rparr>)"
    using assms(1) by (simp add: GetAPIKeyByID_def) (simp add: patch_key_def)
  have "list_ex ?hit (ac_keys a)" using k same assms(2) by (auto simp: list_ex_iff)
  then have upd: "UpdateAPIKeyForProject (sameProjectID parse) True p i (patch_key ?b None) a = Some (True, ?a')"
    by (simp add: UpdateAPIKeyForProject_def Accounts.update_key_def Let_def)
  have "project_key True parse p i a = Some k" using assms(1,2) same by (simp add: project_key_def)
  then have "handleUpdateKey (\<lambda>_. True) parse cat (Some caller) (Some m) p i (Some ?b) a = (Success 200 (GetAPIKeyByID i ?a'), ?a')"
    using upd assms(3,4) by (simp add: handleUpdateKey_def canAccessKey_def)
  then show ?thesis using new by blast
qed

section \<open>A sample project\<close>

definition member_row :: "string \<Rightarrow> string \<Rightarrow> UserRow" where
  "member_row i email = \<lparr>user_ID = i, user_Email = email, user_IsSuperadmin = False, user_MaxProjects = 5, user_Status = ''active'',
     user_Nickname = '''', user_Picture = ''''\<rparr>"

definition sample_accounts :: "string \<Rightarrow> accounts" where
  "sample_accounts role = no_accounts\<lparr>ac_users := [member_row ''u'' ''u@x''],
     ac_projects := [\<lparr>proj_ID = ''p'', proj_Name = ''n'', proj_CreatedBy = ''u'', proj_Status = ''active'', proj_BillingTags = []\<rparr>],
     ac_members := [new_member ''p'' ''u'' role]\<rparr>"

definition sample_caller :: User where "sample_caller = User.truncate (member_row ''u'' ''u@x'')"

lemma sample_created:
  "CreateUser True ''u'' (member_row '''' ''u@x'') no_accounts = Some (no_accounts\<lparr>ac_users := [member_row ''u'' ''u@x'']\<rparr>)"
  "fst (snd (handleCreateProject (\<lambda>_. True) (\<lambda>_. None) ''p'' ''s'' sample_caller (Some ''n'') 0
      (no_accounts\<lparr>ac_users := [member_row ''u'' ''u@x'']\<rparr>, empty_db))) = sample_accounts ''owner''"
  by code_simp+

lemma sample_reachable: "(management_step strict)\<^sup>*\<^sup>* no_accounts (sample_accounts ''owner'')"
proof -
  let ?a = "no_accounts\<lparr>ac_users := [member_row ''u'' ''u@x'']\<rparr>"
  obtain r db' where "handleCreateProject (\<lambda>_. True) (\<lambda>_. None) ''p'' ''s'' sample_caller (Some ''n'') 0 (?a, empty_db)
      = (r, sample_accounts ''owner'', db')" using sample_created(2) by (metis prod.collapse)
  then have "management_step strict ?a (sample_accounts ''owner'')" by (rule management_step.create_project)
  moreover have "management_step strict no_accounts ?a" by (rule management_step.new_user[OF sample_created(1)])
  ultimately show ?thesis by (meson rtranclp.rtrancl_refl rtranclp.rtrancl_into_rtrancl)
qed

lemma memberships_well_formed_witness:
  "\<exists>a m. (management_step True)\<^sup>*\<^sup>* no_accounts a \<and> ac_members a = [m] \<and> IsValidProjectRole (member_Role m)"
proof -
  have "ac_members (sample_accounts ''owner'') = [new_member ''p'' ''u'' ''owner'']" by (simp add: sample_accounts_def)
  then show ?thesis using memberships_well_formed[OF sample_reachable[of True]] sample_reachable[of True] by auto
qed

definition demo_hmac :: "bytes \<Rightarrow> bytes \<Rightarrow> bytes" where "demo_hmac k m = replicate 32 (of_nat (length m))"

lemma sample_key:
  "\<exists>plaintext a'. handleCreateKey (\<lambda>_. True) cat demo_hmac (\<lambda>b. b) [1] (Some (replicate 32 9)) ''k'' sample_caller (Some (new_member ''p'' ''u'' ''owner''))
     ''p'' (Some \<lparr>ck_Name = ''n'', ck_AllowedModels = []\<rparr>) (sample_accounts ''owner'') = Some (Success 201 plaintext, a')"
proof -
  obtain body where "generate_key demo_hmac [1] (replicate 32 9) = Some (APIKeyPrefix @ body)"
    using generated_key_validates[where hmac = demo_hmac and randomBytes = "replicate 32 9" and encKey = "[1]"]
    by (auto simp: demo_hmac_def APIKeyRandomLen_def)
  then show ?thesis
    by (simp add: handleCreateKey_def creator_check_def NormalizeNames_def CreateAPIKey_def sample_accounts_def no_accounts_def)
qed

lemma created_key_authenticates_witness:
  "\<exists>plaintext a' k. handleCreateKey (\<lambda>_. True) (New []) demo_hmac (\<lambda>b. b) [1] (Some (replicate 32 9)) ''k'' sample_caller
       (Some (new_member ''p'' ''u'' ''owner'')) ''p'' (Some \<lparr>ck_Name = ''n'', ck_AllowedModels = []\<rparr>) (sample_accounts ''owner'')
       = Some (Success 201 plaintext, a')
     \<and> GetAPIKeyByHash (hex_encode (string_bytes plaintext)) a' = Some k \<and> key_CreatedBy k = ''u''"
proof -
  obtain plaintext a' where e: "handleCreateKey (\<lambda>_. True) (New []) demo_hmac (\<lambda>b. b) [1] (Some (replicate 32 9)) ''k'' sample_caller
       (Some (new_member ''p'' ''u'' ''owner'')) ''p'' (Some \<lparr>ck_Name = ''n'', ck_AllowedModels = []\<rparr>) (sample_accounts ''owner'')
       = Some (Success 201 plaintext, a')" using sample_key by blast
  have u: "user_ID sample_caller = ''u''" by (simp add: sample_caller_def member_row_def User.defs)
  obtain k where "GetAPIKeyByHash (hex_encode (string_bytes plaintext)) a' = Some k" "key_CreatedBy k = ''u''"
    using created_key_authenticates[OF e] u by (auto simp: demo_hmac_def APIKeyRandomLen_def)
  then show ?thesis using e by blast
qed

lemma active_keys_have_members_witness:
  "\<exists>a k. (management_step False)\<^sup>*\<^sup>* no_accounts a \<and> k \<in> set (ac_keys a) \<and> key_Status k = ''active''
     \<and> GetProjectMember (key_ProjectID k) (key_CreatedBy k) a \<noteq> None"
proof -
  obtain plaintext a' where e: "handleCreateKey (\<lambda>_. True) (New []) demo_hmac (\<lambda>b. b) [1] (Some (replicate 32 9)) ''k'' sample_caller
       (Some (new_member ''p'' ''u'' ''owner'')) ''p'' (Some \<lparr>ck_Name = ''n'', ck_AllowedModels = []\<rparr>) (sample_accounts ''owner'')
       = Some (Success 201 plaintext, a')" using sample_key by blast
  have "GetProjectMember ''p'' (user_ID sample_caller) (sample_accounts ''owner'') = Some (new_member ''p'' ''u'' ''owner'')" by code_simp
  then have "context_fresh sample_caller (Some (new_member ''p'' ''u'' ''owner'')) ''p'' (sample_accounts ''owner'')" by (simp add: context_fresh_def)
  then have r: "(management_step False)\<^sup>*\<^sup>* no_accounts a'"
    using management_step.create_key[OF e] sample_reachable[of False] by (meson rtranclp.rtrancl_into_rtrancl)
  obtain allowed name where "a' = sample_accounts ''owner''\<lparr>ac_keys := ac_keys (sample_accounts ''owner'') @
      [APIKey.extend \<lparr>key_ID = ''k'', key_ProjectID = ''p'', key_CreatedBy = user_ID sample_caller, key_KeyHash = hex_encode (string_bytes plaintext),
         key_KeySuffix = drop (length plaintext - 4) plaintext, key_Name = name, key_Status = ''active'', key_AllowedModels = allowed,
         key_ExpiresAt = None\<rparr> \<lparr>key_Deleted = False\<rparr>]\<rparr>" using created_key_row(1)[OF e] by blast
  then have "\<exists>k \<in> set (ac_keys a'). key_Status k = ''active''" by (simp add: APIKey.defs)
  then obtain k where "k \<in> set (ac_keys a')" "key_Status k = ''active''" by blast
  then show ?thesis using active_keys_have_members[OF r] r by blast
qed

definition sample_key_row :: "string \<Rightarrow> KeyRow" where
  "sample_key_row st = \<lparr>key_ID = ''k'', key_ProjectID = ''p'', key_CreatedBy = ''u'', key_KeyHash = ''h'', key_KeySuffix = '''', key_Name = '''',
     key_Status = st, key_AllowedModels = [], key_ExpiresAt = None, key_Deleted = False\<rparr>"

lemma removed_member_leaves_nothing_witness:
  "\<exists>consents a'. handleRemoveMember True (Some sample_caller) (Some (new_member ''p'' ''v'' ''owner'')) ''p'' ''u''
       (sample_accounts ''developer''\<lparr>ac_keys := [sample_key_row ''active'']\<rparr>) = (Success 200 (1, 0), consents, a')
     \<and> GetProjectMember ''p'' ''u'' a' = None \<and> CountActiveKeysForMember ''p'' ''u'' a' = 0"
proof -
  have "fst (handleRemoveMember True (Some sample_caller) (Some (new_member ''p'' ''v'' ''owner'')) ''p'' ''u''
       (sample_accounts ''developer''\<lparr>ac_keys := [sample_key_row ''active'']\<rparr>)) = Success 200 (1, 0)"
    by (simp add: handleRemoveMember_def requireRole_def new_member_def RemoveProjectMember_def sample_accounts_def no_accounts_def
        sample_key_row_def keys_of_def)
  then obtain consents a' where e: "handleRemoveMember True (Some sample_caller) (Some (new_member ''p'' ''v'' ''owner'')) ''p'' ''u''
       (sample_accounts ''developer''\<lparr>ac_keys := [sample_key_row ''active'']\<rparr>) = (Success 200 (1, 0), consents, a')"
    by (metis prod.collapse)
  then show ?thesis using removed_member_leaves_nothing[OF e] by blast
qed

lemma maintainer_becomes_owner_witness:
  "\<exists>a' m'. handleAddMember (\<lambda>_. True) (Some sample_caller) (Some (new_member ''p'' ''u'' ''maintainer'')) ''p''
      (Some \<lparr>am_Email = ''u@x'', am_Role = ''owner'', am_Quota = None\<rparr>) (sample_accounts ''maintainer'') = (Success 201 (), a')
    \<and> GetProjectMember ''p'' ''u'' a' = Some m' \<and> member_Role m' = ''owner''"
proof -
  have h: "GetProjectMember ''p'' (user_ID sample_caller) (sample_accounts ''maintainer'') = Some (new_member ''p'' ''u'' ''maintainer'')"
      "GetUserByEmail (user_Email sample_caller) (sample_accounts ''maintainer'') = Some (member_row ''u'' ''u@x'')"
      "GetProjectByID ''p'' (sample_accounts ''maintainer'') \<noteq> None" "GetUserByID (user_ID sample_caller) (sample_accounts ''maintainer'') \<noteq> None"
    by code_simp+
  have u: "user_ID sample_caller = ''u''" "user_Email sample_caller = ''u@x''" by (simp_all add: sample_caller_def member_row_def User.defs)
  show ?thesis using maintainer_becomes_owner[OF h(1) _ h(2) _ _ h(3,4)] u
    by (auto simp: member_row_def new_member_def requireRole_def)
qed

end
