(* ===== verification/Device.thy ===== *)
theory Device
  imports GoText Accounts
begin

text \<open>
  The OAuth device flow (RFC 8628): admin/device_flow.go over store/device_codes.go, and the grants it
  records. A row of the table is identified by a serial number. The handlers read
  the row in one statement and write it in another, so each is split where other requests may come between;
  the whole handler is the composition. The provider's token endpoint, its introspection, the AEAD and the
  random draws are arguments. Pages are their messages; a statement's success is an argument.
\<close>

section \<open>Rows (store/device_codes.go)\<close>

record DeviceCode =
  dc_ID :: nat
  dc_DeviceCode :: string
  dc_UserCode :: string
  dc_ClientID :: string
  dc_Scopes :: "string list"
  dc_Status :: string
  dc_VerificationNonce :: string
  dc_AccessToken :: bytes
  dc_RefreshToken :: bytes
  dc_TokenType :: string
  dc_TokenExpiresIn :: int
  dc_ExpiresAt :: go_time
  dc_PollInterval :: int
  dc_LastPolledAt :: "go_time option"

record device_db =
  dv_rows :: "DeviceCode list"
  dv_next :: nat
  dv_grants :: grant_table

definition update_device :: "nat \<Rightarrow> (DeviceCode \<Rightarrow> DeviceCode) \<Rightarrow> device_db \<Rightarrow> device_db" where
  "update_device i f db = db\<lparr>dv_rows := map (\<lambda>d. if dc_ID d = i then f d else d) (dv_rows db)\<rparr>"

definition remove_devices :: "(DeviceCode \<Rightarrow> bool) \<Rightarrow> device_db \<Rightarrow> device_db" where
  "remove_devices P db = db\<lparr>dv_rows := filter (\<lambda>d. \<not> P d) (dv_rows db)\<rparr>"

text \<open>The three unique columns of the table may refuse the insert.\<close>
definition CreateDeviceCode :: "bool \<Rightarrow> DeviceCode \<Rightarrow> device_db \<Rightarrow> device_db option" where
  "CreateDeviceCode up dc db =
     (if \<not> up \<or> list_ex (\<lambda>d. dc_DeviceCode d = dc_DeviceCode dc \<or> dc_UserCode d = dc_UserCode dc
                        \<or> dc_VerificationNonce d = dc_VerificationNonce dc) (dv_rows db) then None
      else Some (db\<lparr>dv_rows := dv_rows db @ [dc\<lparr>dc_ID := dv_next db, dc_Status := ''pending'', dc_AccessToken := [], dc_RefreshToken := [],
                    dc_TokenType := '''', dc_TokenExpiresIn := 0, dc_LastPolledAt := None\<rparr>], dv_next := Suc (dv_next db)\<rparr>))"

definition GetDeviceCodeByUserCode :: "string \<Rightarrow> go_time \<Rightarrow> device_db \<Rightarrow> DeviceCode option" where
  "GetDeviceCodeByUserCode code now db =
     find (\<lambda>d. dc_UserCode d = code \<and> dc_Status d = ''pending'' \<and> dc_ExpiresAt d > now) (dv_rows db)"

definition GetDeviceCodeByNonce :: "string \<Rightarrow> go_time \<Rightarrow> device_db \<Rightarrow> DeviceCode option" where
  "GetDeviceCodeByNonce nonce now db =
     find (\<lambda>d. dc_VerificationNonce d = nonce \<and> dc_Status d = ''pending'' \<and> dc_ExpiresAt d > now) (dv_rows db)"

definition GetDeviceCodeByCode :: "string \<Rightarrow> device_db \<Rightarrow> DeviceCode option" where
  "GetDeviceCodeByCode code db = find (\<lambda>d. dc_DeviceCode d = code) (dv_rows db)"

definition ApproveDeviceCode :: "nat \<Rightarrow> bytes \<Rightarrow> bytes \<Rightarrow> string \<Rightarrow> int \<Rightarrow> device_db \<Rightarrow> device_db" where
  "ApproveDeviceCode i access refresh tokenType expiresIn =
     update_device i (\<lambda>d. d\<lparr>dc_Status := ''approved'', dc_AccessToken := access, dc_RefreshToken := refresh,
                          dc_TokenType := tokenType, dc_TokenExpiresIn := expiresIn\<rparr>)"

definition DenyDeviceCode :: "nat \<Rightarrow> device_db \<Rightarrow> device_db" where
  "DenyDeviceCode i = update_device i (\<lambda>d. d\<lparr>dc_Status := ''denied''\<rparr>)"

definition UpdateDeviceCodePoll :: "nat \<Rightarrow> bool \<Rightarrow> go_time \<Rightarrow> device_db \<Rightarrow> device_db" where
  "UpdateDeviceCodePoll i slowDown now =
     update_device i (\<lambda>d. d\<lparr>dc_LastPolledAt := Some now, dc_PollInterval := dc_PollInterval d + (if slowDown then 5 else 0)\<rparr>)"

text \<open>DELETE ... RETURNING is one statement: the row and the table without it.\<close>
definition ConsumeApprovedDeviceCode :: "string \<Rightarrow> device_db \<Rightarrow> DeviceCode option \<times> device_db" where
  "ConsumeApprovedDeviceCode code db =
     (find (\<lambda>d. dc_DeviceCode d = code \<and> dc_Status d = ''approved'') (dv_rows db),
      remove_devices (\<lambda>d. dc_DeviceCode d = code \<and> dc_Status d = ''approved'') db)"

definition DeleteDeviceCode :: "nat \<Rightarrow> device_db \<Rightarrow> device_db" where
  "DeleteDeviceCode i = remove_devices (\<lambda>d. dc_ID d = i)"

definition DeleteExpiredDeviceCodes :: "go_time \<Rightarrow> device_db \<Rightarrow> device_db" where
  "DeleteExpiredDeviceCodes now = remove_devices (\<lambda>d. dc_ExpiresAt d < now)"

section \<open>Codes (device_flow.go)\<close>

definition userCodeCharset :: string where "userCodeCharset = ''BCDFGHJKLMNPQRSTVWXZ''"

definition generateDeviceCode :: "bytes option \<Rightarrow> string option" where
  "generateDeviceCode draw = map_option hex_encode draw"

definition generateUserCode :: "bytes option \<Rightarrow> string option" where
  "generateUserCode draw = map_option (map (\<lambda>b. userCodeCharset ! (unat b mod length userCodeCharset))) draw"

definition generateNonce :: "bytes option \<Rightarrow> string option" where
  "generateNonce draw = map_option hex_encode draw"

definition formatUserCode :: "string \<Rightarrow> string" where
  "formatUserCode code = (if length code \<noteq> 8 then code else take 4 code @ ''-'' @ drop 4 code)"

definition upper_ascii :: "char \<Rightarrow> char" where
  "upper_ascii c = (if char_in c 97 122 then char_of (of_char c - 32 :: nat) else c)"

definition normalizeUserCode :: "string \<Rightarrow> string" where
  "normalizeUserCode raw =
     filter (\<lambda>c. \<not> List.member [CHR ''-'', CHR '' '', CHR 0x09, CHR 0x0A, CHR 0x0D] c) (map upper_ascii raw)"

section \<open>Handlers\<close>

record device_config =
  df_ClientID :: string
  df_ClientSecret :: string
  df_CodeTTL :: int
  df_PollInterval :: int
  df_PublicURL :: string

datatype authorize_reply = AuthorizeError int string | DeviceIssued string string string string int int

text \<open>\<^term>\<open>request\<close>: the client id and the scope, or None when neither the form nor the JSON body parses.\<close>
definition HandleDeviceAuthorize ::
  "device_config \<Rightarrow> string \<Rightarrow> (string \<times> string) option \<Rightarrow> bytes option \<Rightarrow> bytes option \<Rightarrow> bytes option \<Rightarrow> bool \<Rightarrow> go_time
   \<Rightarrow> device_db \<Rightarrow> authorize_reply \<times> device_db" where
  "HandleDeviceAuthorize cfg base request r1 r2 r3 up now db =
     (case request of None \<Rightarrow> (AuthorizeError 400 ''invalid_request'', db)
      | Some (clientID, scope) \<Rightarrow>
          (let scopes = (if string_fields scope = [] then [''project:inference'', ''offline_access''] else string_fields scope) in
           case (generateDeviceCode r1, generateUserCode r2, generateNonce r3) of
             (Some deviceCode, Some userCode, Some nonce) \<Rightarrow>
               (let codeTTL = (if df_CodeTTL cfg \<le> 0 then 600 else df_CodeTTL cfg);
                    interval = (if df_PollInterval cfg \<le> 0 then 5 else df_PollInterval cfg);
                    dc = \<lparr>dc_ID = 0, dc_DeviceCode = deviceCode, dc_UserCode = userCode, dc_ClientID = clientID, dc_Scopes = scopes,
                      dc_Status = '''', dc_VerificationNonce = nonce, dc_AccessToken = [], dc_RefreshToken = [], dc_TokenType = '''',
                      dc_TokenExpiresIn = 0, dc_ExpiresAt = now + i64 (codeTTL * 1000000000), dc_PollInterval = interval,
                      dc_LastPolledAt = None\<rparr>
                in case CreateDeviceCode up dc db of None \<Rightarrow> (AuthorizeError 500 ''server_error'', db)
                   | Some db' \<Rightarrow>
                       (DeviceIssued deviceCode (formatUserCode userCode) (base @ ''/oauth/device'')
                          (base @ ''/oauth/device'' @ ''?user_code='' @ QueryEscape (formatUserCode userCode)) codeTTL interval, db'))
           | _ \<Rightarrow> (AuthorizeError 500 ''server_error'', db)))"

datatype page = FormError string string | ErrorPage string | RedirectTo string | SuccessPage

definition trim_right_slashes :: "string \<Rightarrow> string" where
  "trim_right_slashes s = rev (dropWhile (\<lambda>c. c = CHR ''/'') (rev s))"

text \<open>\<^term>\<open>form\<close>: the field user_code, or None when the form does not parse.\<close>
definition HandleVerifyUserCode ::
  "device_config \<Rightarrow> string \<Rightarrow> string option \<Rightarrow> bool \<Rightarrow> go_time \<Rightarrow> device_db \<Rightarrow> page" where
  "HandleVerifyUserCode cfg base form up now db =
     (case form of None \<Rightarrow> FormError '''' ''Invalid form data.''
      | Some raw \<Rightarrow>
          if normalizeUserCode raw = '''' then FormError raw ''Please enter a code.''
          else if \<not> up then FormError raw ''Something went wrong. Please try again.''
          else (case GetDeviceCodeByUserCode (normalizeUserCode raw) now db of
                  None \<Rightarrow> FormError raw ''Invalid or expired code. Please check and try again.''
                | Some dc \<Rightarrow> RedirectTo (trim_right_slashes (df_PublicURL cfg) @ ''/oauth2/auth?response_type=code&client_id='' @
                     QueryEscape (df_ClientID cfg) @ ''&redirect_uri='' @ QueryEscape (base @ ''/oauth/device/callback'') @ ''&scope='' @
                     QueryEscape (string_join (dc_Scopes dc) '' '') @ ''&state='' @ QueryEscape (dc_VerificationNonce dc))))"

record hydra_token =
  ht_AccessToken :: string
  ht_RefreshToken :: string
  ht_TokenType :: string
  ht_ExpiresIn :: int

text \<open>\<^term>\<open>post\<close>: the status and the decoded body of the answer, None when the request fails.\<close>
definition exchangeAuthCode ::
  "(string \<Rightarrow> (string \<times> string) list \<Rightarrow> (int \<times> hydra_token option) option) \<Rightarrow> string \<Rightarrow> string \<Rightarrow> string \<Rightarrow> string \<Rightarrow> string
   \<Rightarrow> hydra_token option" where
  "exchangeAuthCode post publicURL clientID clientSecret code redirectURI =
     (case post (publicURL @ ''/oauth2/token'')
             [(''grant_type'', ''authorization_code''), (''code'', code), (''client_id'', clientID), (''client_secret'', clientSecret),
              (''redirect_uri'', redirectURI)] of
        None \<Rightarrow> None
      | Some (status, decoded) \<Rightarrow> if status \<noteq> 200 then None else decoded)"

record callback_query =
  cb_state :: string
  cb_error :: string
  cb_errorDescription :: string
  cb_code :: string

text \<open>What lies outside of one callback: the statements' success, the provider, the key and the draws.\<close>
record callback_world =
  cw_read :: bool
  cw_approve :: bool
  cw_grant :: bool
  cw_post :: "string \<Rightarrow> (string \<times> string) list \<Rightarrow> (int \<times> hydra_token option) option"
  cw_introspect :: "string \<Rightarrow> (bool \<times> string \<times> string) option"
  cw_newGCM :: "bytes \<Rightarrow> aead option"
  cw_key :: bytes
  cw_rand1 :: "nat \<Rightarrow> bytes option"
  cw_rand2 :: "nat \<Rightarrow> bytes option"

definition record_grant :: "device_config \<Rightarrow> callback_world \<Rightarrow> DeviceCode \<Rightarrow> hydra_token \<Rightarrow> device_db \<Rightarrow> device_db" where
  "record_grant cfg w dc t db =
     (case cw_introspect w (ht_AccessToken t) of
        Some (active, projectID, userID) \<Rightarrow>
          if active \<and> projectID \<noteq> '''' \<and> userID \<noteq> '''' \<and> cw_grant w
          then db\<lparr>dv_grants := CreateOAuthGrant \<lparr>og_ID = 0, og_ProjectID = projectID, og_UserID = userID, og_ClientID = df_ClientID cfg,
                 og_ClientName = ''Device Flow'', og_Scopes = dc_Scopes dc\<rparr> (dv_grants db)\<rparr>
          else db
      | None \<Rightarrow> db)"

text \<open>HandleCallback behind its lookup: the third result is the token pair stored, if any.\<close>
definition callback_with ::
  "device_config \<Rightarrow> string \<Rightarrow> callback_world \<Rightarrow> callback_query \<Rightarrow> DeviceCode \<Rightarrow> device_db \<Rightarrow> page \<times> device_db \<times> hydra_token option" where
  "callback_with cfg base w q dc db =
     (if cb_error q \<noteq> '''' then
        (ErrorPage (if cb_errorDescription q = '''' then ''Authorization was denied.'' else cb_errorDescription q),
         if cw_approve w then DenyDeviceCode (dc_ID dc) db else db, None)
      else if cb_code q = '''' then (ErrorPage ''Missing authorization code.'', db, None)
      else case exchangeAuthCode (cw_post w) (trim_right_slashes (df_PublicURL cfg)) (df_ClientID cfg) (df_ClientSecret cfg) (cb_code q)
                  (base @ ''/oauth/device/callback'') of
             None \<Rightarrow> (ErrorPage ''Failed to complete authorization. Please try again.'', db, None)
           | Some t \<Rightarrow>
               (case (Encrypt (cw_newGCM w) (cw_rand1 w) (cw_key w) (string_bytes (ht_AccessToken t)),
                      Encrypt (cw_newGCM w) (cw_rand2 w) (cw_key w) (string_bytes (ht_RefreshToken t))) of
                  (Inr access, Inr refresh) \<Rightarrow>
                    if \<not> cw_approve w then (ErrorPage ''Failed to save authorization. Please try again.'', db, None)
                    else (SuccessPage,
                          record_grant cfg w dc t (ApproveDeviceCode (dc_ID dc) access refresh (ht_TokenType t) (ht_ExpiresIn t) db), Some t)
                | _ \<Rightarrow> (ErrorPage ''Internal error. Please try again.'', db, None)))"

definition HandleCallback ::
  "device_config \<Rightarrow> string \<Rightarrow> callback_world \<Rightarrow> callback_query \<Rightarrow> go_time \<Rightarrow> device_db \<Rightarrow> page \<times> device_db" where
  "HandleCallback cfg base w q now db =
     (if cb_state q = '''' then (ErrorPage ''Missing state parameter.'', db)
      else if \<not> cw_read w then (ErrorPage ''Something went wrong. Please try again.'', db)
      else case GetDeviceCodeByNonce (cb_state q) now db of
             None \<Rightarrow> (ErrorPage ''Invalid or expired authorization request.'', db)
           | Some dc \<Rightarrow> (case callback_with cfg base w q dc db of (page, db', _) \<Rightarrow> (page, db')))"

datatype poll_reply = PollError int string | PollSlowDown int | PollTokens string string string int

record poll_world =
  pw_read :: bool
  pw_write :: bool
  pw_newGCM :: "bytes \<Rightarrow> aead option"
  pw_key :: bytes

definition poll_too_fast :: "go_time \<Rightarrow> DeviceCode \<Rightarrow> bool" where
  "poll_too_fast now dc = (case dc_LastPolledAt dc of None \<Rightarrow> False | Some t \<Rightarrow> now - t < dc_PollInterval dc * 1000000000)"

definition poll_tokens :: "poll_world \<Rightarrow> DeviceCode \<Rightarrow> poll_reply" where
  "poll_tokens w dc =
     (case (Decrypt (pw_newGCM w) (pw_key w) (dc_AccessToken dc), Decrypt (pw_newGCM w) (pw_key w) (dc_RefreshToken dc)) of
        (Inr access, Inr refresh) \<Rightarrow> PollTokens (bytes_string access) (bytes_string refresh) (dc_TokenType dc) (dc_TokenExpiresIn dc)
      | _ \<Rightarrow> PollError 500 ''server_error'')"

text \<open>HandleTokenPoll behind its lookup.\<close>
definition poll_with :: "poll_world \<Rightarrow> go_time \<Rightarrow> string \<Rightarrow> DeviceCode \<Rightarrow> device_db \<Rightarrow> poll_reply \<times> device_db" where
  "poll_with w now code dc db =
     (let drop_row = (if pw_write w then DeleteDeviceCode (dc_ID dc) db else db) in
      if now > dc_ExpiresAt dc then (PollError 400 ''expired_token'', drop_row)
      else if dc_Status dc = ''denied'' then (PollError 400 ''access_denied'', drop_row)
      else if dc_Status dc = ''pending'' then
        (if poll_too_fast now dc then PollSlowDown (dc_PollInterval dc + 5) else PollError 400 ''authorization_pending'',
         if pw_write w then UpdateDeviceCodePoll (dc_ID dc) (poll_too_fast now dc) now db else db)
      else if dc_Status dc = ''approved'' then
        (if \<not> pw_write w then (PollError 500 ''server_error'', db)
         else case ConsumeApprovedDeviceCode code db of
                (None, db') \<Rightarrow> (PollError 400 ''invalid_grant'', db')
              | (Some consumed, db') \<Rightarrow> (poll_tokens w consumed, db'))
      else (PollError 400 ''invalid_grant'', db))"

text \<open>\<^term>\<open>request\<close>: grant type and device code, or None when neither the form nor the JSON body parses.\<close>
definition HandleTokenPoll ::
  "poll_world \<Rightarrow> (string \<times> string) option \<Rightarrow> go_time \<Rightarrow> device_db \<Rightarrow> poll_reply \<times> device_db" where
  "HandleTokenPoll w request now db =
     (case request of None \<Rightarrow> (PollError 400 ''invalid_request'', db)
      | Some (grantType, code) \<Rightarrow>
          if grantType \<noteq> ''urn:ietf:params:oauth:grant-type:device_code'' then (PollError 400 ''unsupported_grant_type'', db)
          else if code = '''' then (PollError 400 ''invalid_request'', db)
          else if \<not> pw_read w then (PollError 500 ''server_error'', db)
          else case GetDeviceCodeByCode code db of
                 None \<Rightarrow> (PollError 400 ''invalid_grant'', db)
               | Some dc \<Rightarrow> poll_with w now code dc db)"

section \<open>Any interleaving of requests\<close>

text \<open>Requests in flight are past their lookup and hold the row as they read it. The last three components are
  ghosts: what was issued, what callbacks stored and what polls delivered, each with the row it was about.\<close>
record device_system =
  ds_db :: device_db
  ds_callbacks :: "(callback_query \<times> DeviceCode) list"
  ds_polls :: "(string \<times> DeviceCode) list"
  ds_issued :: "(nat \<times> string \<times> string) list"
  ds_stored :: "(nat \<times> string \<times> string \<times> string) list"
  ds_delivered :: "(nat \<times> string \<times> string \<times> string) list"

inductive device_step :: "device_config \<Rightarrow> (bytes \<Rightarrow> aead option) \<Rightarrow> bytes \<Rightarrow> device_system \<Rightarrow> device_system \<Rightarrow> bool"
  for cfg newGCM key where
  authorize: "HandleDeviceAuthorize cfg base request r1 r2 r3 up now (ds_db s) = (DeviceIssued code user uri full ttl interval, db') \<Longrightarrow>
     generateNonce r3 = Some nonce \<Longrightarrow>
     device_step cfg newGCM key s (s\<lparr>ds_db := db', ds_issued := (dv_next (ds_db s), code, nonce) # ds_issued s\<rparr>)"
| callback_read: "GetDeviceCodeByNonce (cb_state q) now (ds_db s) = Some dc \<Longrightarrow> cb_state q \<noteq> '''' \<Longrightarrow>
     device_step cfg newGCM key s (s\<lparr>ds_callbacks := (q, dc) # ds_callbacks s\<rparr>)"
| callback_write: "(q, dc) \<in> set (ds_callbacks s) \<Longrightarrow> cw_newGCM w = newGCM \<Longrightarrow> cw_key w = key \<Longrightarrow>
     \<forall>n r. (cw_rand1 w n = Some r \<or> cw_rand2 w n = Some r) \<longrightarrow> length r = n \<Longrightarrow>
     callback_with cfg base w q dc (ds_db s) = (page, db', t) \<Longrightarrow>
     device_step cfg newGCM key s (s\<lparr>ds_db := db', ds_callbacks := remove1 (q, dc) (ds_callbacks s),
       ds_stored := (case t of None \<Rightarrow> [] | Some t \<Rightarrow> [(dc_ID dc, cb_state q, ht_AccessToken t, ht_RefreshToken t)]) @ ds_stored s\<rparr>)"
| poll_read: "GetDeviceCodeByCode code (ds_db s) = Some dc \<Longrightarrow>
     device_step cfg newGCM key s (s\<lparr>ds_polls := (code, dc) # ds_polls s\<rparr>)"
| poll_write: "(code, dc) \<in> set (ds_polls s) \<Longrightarrow> pw_newGCM w = newGCM \<Longrightarrow> pw_key w = key \<Longrightarrow>
     poll_with w now code dc (ds_db s) = (reply, db') \<Longrightarrow>
     device_step cfg newGCM key s (s\<lparr>ds_db := db', ds_polls := remove1 (code, dc) (ds_polls s),
       ds_delivered := (case (reply, fst (ConsumeApprovedDeviceCode code (ds_db s))) of
            (PollTokens access refresh _ _, Some row) \<Rightarrow> [(dc_ID row, code, access, refresh)] | _ \<Rightarrow> []) @ ds_delivered s\<rparr>)"
| cleanup: "device_step cfg newGCM key s (s\<lparr>ds_db := DeleteExpiredDeviceCodes now (ds_db s)\<rparr>)"

definition device_initial :: device_system where
  "device_initial = \<lparr>ds_db = \<lparr>dv_rows = [], dv_next = 0, dv_grants = \<lparr>gt_rows = [], gt_next = 0\<rparr>\<rparr>, ds_callbacks = [], ds_polls = [], ds_issued = [], ds_stored = [], ds_delivered = []\<rparr>"

definition device_reachable :: "device_config \<Rightarrow> (bytes \<Rightarrow> aead option) \<Rightarrow> bytes \<Rightarrow> device_system \<Rightarrow> bool" where
  "device_reachable cfg newGCM key s = (device_step cfg newGCM key)\<^sup>*\<^sup>* device_initial s"

section \<open>Tokens reach the holder of the code, once\<close>

definition device_keys :: "device_db \<Rightarrow> (nat \<times> string \<times> string) list" where
  "device_keys db = map (\<lambda>d. (dc_ID d, dc_DeviceCode d, dc_VerificationNonce d)) (dv_rows db)"

definition approved_rows :: "device_db \<Rightarrow> (nat \<times> bytes \<times> bytes) set" where
  "approved_rows db = (\<lambda>d. (dc_ID d, dc_AccessToken d, dc_RefreshToken d)) ` {d \<in> set (dv_rows db). dc_Status d = ''approved''}"

text \<open>What every statement but the insert does to the table: no new keys.\<close>
definition shrinks :: "device_db \<Rightarrow> device_db \<Rightarrow> bool" where
  "shrinks db db' \<longleftrightarrow> dv_next db' = dv_next db \<and> set (device_keys db') \<subseteq> set (device_keys db)
     \<and> (distinct (map fst (device_keys db)) \<longrightarrow> distinct (map fst (device_keys db')))"

lemma shrinks_refl [simp]: "shrinks db db" by (simp add: shrinks_def)

lemma shrinks_trans: "shrinks a b \<Longrightarrow> shrinks b c \<Longrightarrow> shrinks a c" by (auto simp: shrinks_def)

lemma map_fst_keys: "map fst (device_keys db) = map dc_ID (dv_rows db)" by (simp add: device_keys_def comp_def)

lemma shrinks_remove [simp]: "shrinks db (remove_devices P db)"
  by (auto simp: shrinks_def remove_devices_def device_keys_def comp_def distinct_map_filter)

lemma shrinks_update:
  assumes "\<And>d. dc_ID (f d) = dc_ID d" "\<And>d. dc_DeviceCode (f d) = dc_DeviceCode d" "\<And>d. dc_VerificationNonce (f d) = dc_VerificationNonce d"
  shows "shrinks db (update_device i f db)"
proof -
  have "device_keys (update_device i f db) = device_keys db" using assms by (simp add: device_keys_def update_device_def)
  then show ?thesis by (simp add: shrinks_def) (simp add: update_device_def)
qed

lemma shrinks_statements [simp]:
  "shrinks db (ApproveDeviceCode i a r t e db)" "shrinks db (DenyDeviceCode i db)" "shrinks db (UpdateDeviceCodePoll i slow now db)"
  "shrinks db (DeleteDeviceCode i db)" "shrinks db (DeleteExpiredDeviceCodes now db)" "shrinks db (snd (ConsumeApprovedDeviceCode code db))"
  by (simp_all add: ApproveDeviceCode_def DenyDeviceCode_def UpdateDeviceCodePoll_def DeleteDeviceCode_def DeleteExpiredDeviceCodes_def
      ConsumeApprovedDeviceCode_def shrinks_update)

lemma record_grant_rows [simp]: "dv_rows (record_grant cfg w dc t db) = dv_rows db" "dv_next (record_grant cfg w dc t db) = dv_next db"
  by (simp_all add: record_grant_def CreateOAuthGrant_def split: option.split)

lemma same_rows_keys:
  assumes "dv_rows db' = dv_rows db"
  shows "device_keys db' = device_keys db" "approved_rows db' = approved_rows db"
  using assms by (simp_all add: device_keys_def approved_rows_def)

lemma approved_statements [simp]:
  "approved_rows (DenyDeviceCode i db) \<subseteq> approved_rows db" "approved_rows (UpdateDeviceCodePoll i slow now db) \<subseteq> approved_rows db"
  "approved_rows (remove_devices P db) \<subseteq> approved_rows db"
  by (auto simp: approved_rows_def DenyDeviceCode_def UpdateDeviceCodePoll_def update_device_def remove_devices_def split: if_splits)

lemma approved_Approve: "approved_rows (ApproveDeviceCode i a r t e db) \<subseteq> insert (i, a, r) (approved_rows db)"
  by (auto simp: approved_rows_def ApproveDeviceCode_def update_device_def split: if_splits)

lemma callback_effect:
  assumes "callback_with cfg base w q dc db = (page, db', t)"
  shows "shrinks db db'"
    and "t = None \<Longrightarrow> approved_rows db' \<subseteq> approved_rows db"
    and "t = Some tok \<Longrightarrow> \<exists>a r. approved_rows db' \<subseteq> insert (dc_ID dc, a, r) (approved_rows db)
           \<and> Encrypt (cw_newGCM w) (cw_rand1 w) (cw_key w) (string_bytes (ht_AccessToken tok)) = Inr a
           \<and> Encrypt (cw_newGCM w) (cw_rand2 w) (cw_key w) (string_bytes (ht_RefreshToken tok)) = Inr r"
proof -
  have grant: "shrinks db (record_grant cfg w dc u (ApproveDeviceCode i a r ty e db))"
    "approved_rows (record_grant cfg w dc u (ApproveDeviceCode i a r ty e db)) \<subseteq> insert (i, a, r) (approved_rows db)" for u i a r ty e
    using shrinks_statements(1)[of db i a r ty e] approved_Approve[of i a r ty e db]
    by (simp_all add: shrinks_def same_rows_keys[OF record_grant_rows(1)])
  show "shrinks db db'" using assms grant by (auto simp: callback_with_def split: if_splits option.splits sum.splits)
  show "approved_rows db' \<subseteq> approved_rows db" if "t = None"
    using assms that by (auto simp: callback_with_def dest: subsetD[OF approved_statements(1)] split: if_splits option.splits sum.splits)
  show "\<exists>a r. approved_rows db' \<subseteq> insert (dc_ID dc, a, r) (approved_rows db)
           \<and> Encrypt (cw_newGCM w) (cw_rand1 w) (cw_key w) (string_bytes (ht_AccessToken tok)) = Inr a
           \<and> Encrypt (cw_newGCM w) (cw_rand2 w) (cw_key w) (string_bytes (ht_RefreshToken tok)) = Inr r" if "t = Some tok"
    using assms that by (auto simp: callback_with_def dest: subsetD[OF grant(2)] split: if_splits option.splits sum.splits)
qed

lemma poll_effect:
  assumes "poll_with w now code dc db = (reply, db')"
  shows "shrinks db db'" and "approved_rows db' \<subseteq> approved_rows db"
    and "reply = PollTokens a r ty e \<Longrightarrow> db' = snd (ConsumeApprovedDeviceCode code db)
      \<and> (\<exists>row. fst (ConsumeApprovedDeviceCode code db) = Some row \<and> poll_tokens w row = reply)"
  using assms shrinks_statements(6)[of db code]
  by (auto simp: poll_with_def Let_def DeleteDeviceCode_def ConsumeApprovedDeviceCode_def dest: subsetD[OF approved_statements(2)] subsetD[OF approved_statements(3)]
      split: if_splits option.splits prod.splits)

definition aead_correct :: "(bytes \<Rightarrow> aead option) \<Rightarrow> bytes \<Rightarrow> bool" where
  "aead_correct newGCM key \<longleftrightarrow> (\<forall>g n p. newGCM key = Some g \<longrightarrow> unseal g n (seal g n p) = Some p)"

definition issued_inv :: "device_system \<Rightarrow> bool" where
  "issued_inv s \<longleftrightarrow> distinct (map fst (device_keys (ds_db s))) \<and> set (device_keys (ds_db s)) \<subseteq> set (ds_issued s)
     \<and> distinct (map fst (ds_issued s)) \<and> (\<forall>x \<in> set (ds_issued s). fst x < dv_next (ds_db s))"

definition stored_inv :: "(bytes \<Rightarrow> aead option) \<Rightarrow> bytes \<Rightarrow> device_system \<Rightarrow> bool" where
  "stored_inv newGCM key s \<longleftrightarrow>
     (\<forall>(q, dc) \<in> set (ds_callbacks s). (dc_ID dc, dc_DeviceCode dc, cb_state q) \<in> set (ds_issued s))
     \<and> (\<forall>(i, n, a, r) \<in> set (ds_stored s). \<exists>c. (i, c, n) \<in> set (ds_issued s))
     \<and> (\<forall>(i, access, refresh) \<in> approved_rows (ds_db s). \<exists>n a r. (i, n, a, r) \<in> set (ds_stored s)
          \<and> Decrypt newGCM key access = Inr (string_bytes a) \<and> Decrypt newGCM key refresh = Inr (string_bytes r))"

definition delivered_inv :: "device_system \<Rightarrow> bool" where
  "delivered_inv s \<longleftrightarrow> distinct (map fst (ds_delivered s))
     \<and> fst ` set (ds_delivered s) \<inter> fst ` set (device_keys (ds_db s)) = {}
     \<and> (\<forall>(i, c, a, r) \<in> set (ds_delivered s). \<exists>n. (i, c, n) \<in> set (ds_issued s) \<and> (i, n, a, r) \<in> set (ds_stored s))"

lemma key_of_row: "d \<in> set (dv_rows db) \<Longrightarrow> (dc_ID d, dc_DeviceCode d, dc_VerificationNonce d) \<in> set (device_keys db)"
  by (simp add: device_keys_def)

lemma consumed_row:
  assumes "fst (ConsumeApprovedDeviceCode code db) = Some row"
  shows "(dc_ID row, dc_DeviceCode row, dc_VerificationNonce row) \<in> set (device_keys db)" "dc_DeviceCode row = code"
    "(dc_ID row, dc_AccessToken row, dc_RefreshToken row) \<in> approved_rows db"
    "distinct (map fst (device_keys db)) \<Longrightarrow> dc_ID row \<notin> fst ` set (device_keys (snd (ConsumeApprovedDeviceCode code db)))"
proof -
  have f: "row \<in> set (dv_rows db)" "dc_DeviceCode row = code" "dc_Status row = ''approved''"
    using assms by (auto simp: ConsumeApprovedDeviceCode_def find_Some_iff)
  show "dc_DeviceCode row = code" by (rule f(2))
  show "(dc_ID row, dc_DeviceCode row, dc_VerificationNonce row) \<in> set (device_keys db)" using f(1) by (rule key_of_row)
  show "(dc_ID row, dc_AccessToken row, dc_RefreshToken row) \<in> approved_rows db" using f by (auto simp: approved_rows_def)
  assume "distinct (map fst (device_keys db))"
  then have inj: "inj_on dc_ID (set (dv_rows db))" by (simp add: map_fst_keys distinct_map)
  show "dc_ID row \<notin> fst ` set (device_keys (snd (ConsumeApprovedDeviceCode code db)))"
    using f inj by (auto simp: ConsumeApprovedDeviceCode_def remove_devices_def device_keys_def inj_on_def)
qed

lemma issued_shrinks:
  assumes "issued_inv s" "shrinks (ds_db s) db'"
  shows "issued_inv (s\<lparr>ds_db := db'\<rparr>)"
  using assms by (auto simp: issued_inv_def shrinks_def)

lemma authorize_issued:
  assumes "HandleDeviceAuthorize cfg base request r1 r2 r3 up now db = (DeviceIssued code user uri full ttl interval, db')"
    "generateNonce r3 = Some nonce"
  shows "dv_next db' = Suc (dv_next db)" "device_keys db' = device_keys db @ [(dv_next db, code, nonce)]" "approved_rows db' = approved_rows db"
  using assms by (auto simp: HandleDeviceAuthorize_def CreateDeviceCode_def device_keys_def approved_rows_def Let_def
      split: option.splits if_splits)

lemma delivered_mono:
  assumes "delivered_inv s" "ds_delivered s' = ds_delivered s" "set (ds_issued s) \<subseteq> set (ds_issued s')" "set (ds_stored s) \<subseteq> set (ds_stored s')"
    "fst ` set (device_keys (ds_db s')) \<inter> fst ` set (ds_delivered s) \<subseteq> fst ` set (device_keys (ds_db s))"
  shows "delivered_inv s'"
  unfolding delivered_inv_def
proof (intro conjI ballI)
  show "distinct (map fst (ds_delivered s'))" using assms(1,2) by (simp add: delivered_inv_def)
  show "fst ` set (ds_delivered s') \<inter> fst ` set (device_keys (ds_db s')) = {}" 
  proof -
    have disj: "A \<inter> B = {} \<Longrightarrow> C \<inter> A \<subseteq> B \<Longrightarrow> A \<inter> C = {}" for A B C :: "nat set" by blast
    show ?thesis unfolding assms(2) by (rule disj[OF _ assms(5)]) (use assms(1) in \<open>simp add: delivered_inv_def\<close>)
  qed
  fix x assume x: "x \<in> set (ds_delivered s')"
  obtain i c a r where e: "x = (i, c, a, r)" by (cases x)
  from x have "\<exists>n. (i, c, n) \<in> set (ds_issued s) \<and> (i, n, a, r) \<in> set (ds_stored s)"
    using assms(1,2) unfolding delivered_inv_def e by auto
  then show "case x of (i, c, a, r) \<Rightarrow> \<exists>n. (i, c, n) \<in> set (ds_issued s') \<and> (i, n, a, r) \<in> set (ds_stored s')"
    using assms(3,4) unfolding e by auto
qed

lemma ball_anti: "\<forall>x \<in> A. P x \<Longrightarrow> B \<subseteq> A \<Longrightarrow> \<forall>x \<in> B. P x" by blast

lemma stored_mono:
  assumes "stored_inv newGCM key s" "set (ds_callbacks s') \<subseteq> set (ds_callbacks s)" "ds_issued s' = ds_issued s" "ds_stored s' = ds_stored s"
    "approved_rows (ds_db s') \<subseteq> approved_rows (ds_db s)"
  shows "stored_inv newGCM key s'"
  using assms(1) unfolding stored_inv_def assms(3,4)
  by (elim conjE) (intro conjI; (assumption | (rule ball_anti[OF _ assms(2)], assumption) | (rule ball_anti[OF _ assms(5)], assumption)))

lemma device_step_inv:
  assumes "device_step cfg newGCM key s s'" "aead_correct newGCM key" "issued_inv s" "stored_inv newGCM key s" "delivered_inv s"
  shows "issued_inv s' \<and> stored_inv newGCM key s' \<and> delivered_inv s'"
  using assms
proof (cases rule: device_step.cases)
  case (authorize base request r1 r2 r3 up now code user uri full ttl interval db' nonce)
  note a = authorize_issued[OF authorize(2,3)]
  have new: "dv_next (ds_db s) \<notin> fst ` set (ds_issued s)" using assms(3) by (auto simp: issued_inv_def)
  then have "dv_next (ds_db s) \<notin> fst ` set (device_keys (ds_db s))" using assms(3) by (auto simp: issued_inv_def)
  moreover have "dv_next (ds_db s) \<notin> fst ` set (ds_delivered s)"
    using new assms(5) by (force simp: delivered_inv_def)
  ultimately show ?thesis using assms(3-5) new unfolding authorize(1)
    by (auto simp: issued_inv_def stored_inv_def delivered_inv_def a less_Suc_eq)
next
  case (callback_read q now dc)
  have "dc \<in> set (dv_rows (ds_db s))" "dc_VerificationNonce dc = cb_state q"
    using callback_read(2) by (auto simp: GetDeviceCodeByNonce_def find_Some_iff)
  then have "(dc_ID dc, dc_DeviceCode dc, cb_state q) \<in> set (ds_issued s)"
    using key_of_row[of dc "ds_db s"] assms(3) by (auto simp: issued_inv_def)
  then show ?thesis using assms(3-5) unfolding callback_read(1) by (auto simp: issued_inv_def stored_inv_def delivered_inv_def)
next
  case (callback_write q dc w base page db' t)
  note e = callback_effect[OF callback_write(6)]
  have i: "(dc_ID dc, dc_DeviceCode dc, cb_state q) \<in> set (ds_issued s)" using callback_write(2) assms(4) by (auto simp: stored_inv_def)
  have cb: "\<forall>(q', dc') \<in> set (remove1 (q, dc) (ds_callbacks s)). (dc_ID dc', dc_DeviceCode dc', cb_state q') \<in> set (ds_issued s)"
    using assms(4) by (auto simp: stored_inv_def dest: notin_set_remove1[rotated])
  have sub: "fst ` set (device_keys db') \<subseteq> fst ` set (device_keys (ds_db s))" using e(1) by (auto simp: shrinks_def)
  have 1: "issued_inv s'" using assms(3) e(1) unfolding callback_write(1) by (auto simp: issued_inv_def shrinks_def)
  have 3: "delivered_inv s'" unfolding callback_write(1) by (rule delivered_mono[OF assms(5)]) (use sub in auto)
  have 2: "stored_inv newGCM key s'"
  proof (cases t)
    case None
    show ?thesis unfolding callback_write(1)
      by (rule stored_mono[OF assms(4)]) (use None e(2) in \<open>simp_all add: set_remove1_subset\<close>)
  next
    case (Some tok)
    obtain a r where ar: "approved_rows db' \<subseteq> insert (dc_ID dc, a, r) (approved_rows (ds_db s))"
        "Encrypt (cw_newGCM w) (cw_rand1 w) (cw_key w) (string_bytes (ht_AccessToken tok)) = Inr a"
        "Encrypt (cw_newGCM w) (cw_rand2 w) (cw_key w) (string_bytes (ht_RefreshToken tok)) = Inr r" using e(3)[OF Some] by blast
    have dec: "Decrypt newGCM key a = Inr (string_bytes (ht_AccessToken tok))" "Decrypt newGCM key r = Inr (string_bytes (ht_RefreshToken tok))"
      using Encrypt_Decrypt[OF _ _ ar(2)] Encrypt_Decrypt[OF _ _ ar(3)] callback_write(3-5) assms(2) by (auto simp: aead_correct_def)
    show ?thesis unfolding stored_inv_def
    proof (intro conjI)
      show "\<forall>(q, dc) \<in> set (ds_callbacks s'). (dc_ID dc, dc_DeviceCode dc, cb_state q) \<in> set (ds_issued s')"
        using cb unfolding callback_write(1) by simp
      show "\<forall>(i, n, a, r) \<in> set (ds_stored s'). \<exists>c. (i, c, n) \<in> set (ds_issued s')"
        using assms(4) i Some unfolding callback_write(1) by (auto simp: stored_inv_def)
      show "\<forall>(i, access, refresh) \<in> approved_rows (ds_db s'). \<exists>n a r. (i, n, a, r) \<in> set (ds_stored s')
          \<and> Decrypt newGCM key access = Inr (string_bytes a) \<and> Decrypt newGCM key refresh = Inr (string_bytes r)"
      proof
        fix x assume "x \<in> approved_rows (ds_db s')"
        then consider "x = (dc_ID dc, a, r)" | "x \<in> approved_rows (ds_db s)" using ar(1) unfolding callback_write(1) by auto
        then show "case x of (i, access, refresh) \<Rightarrow> \<exists>n a r. (i, n, a, r) \<in> set (ds_stored s')
          \<and> Decrypt newGCM key access = Inr (string_bytes a) \<and> Decrypt newGCM key refresh = Inr (string_bytes r)"
        proof cases
          case 1 then show ?thesis using dec Some unfolding callback_write(1) by auto
        next
          case 2
          then have "case x of (i, access, refresh) \<Rightarrow> \<exists>n a r. (i, n, a, r) \<in> set (ds_stored s)
            \<and> Decrypt newGCM key access = Inr (string_bytes a) \<and> Decrypt newGCM key refresh = Inr (string_bytes r)"
            using assms(4) unfolding stored_inv_def by blast
          then show ?thesis unfolding callback_write(1) by auto
        qed
      qed
    qed
  qed
  show ?thesis using 1 2 3 by simp
next
  case (poll_read code dc)
  then show ?thesis using assms(3-5) by (simp add: issued_inv_def stored_inv_def delivered_inv_def)
next
  case (poll_write code dc w now reply db')
  note e = poll_effect[OF poll_write(5)]
  have sub: "fst ` set (device_keys db') \<subseteq> fst ` set (device_keys (ds_db s))" using e(1) by (auto simp: shrinks_def)
  have 1: "issued_inv s'" using assms(3) e(1) unfolding poll_write(1) by (auto simp: issued_inv_def shrinks_def)
  have 2: "stored_inv newGCM key s'" unfolding poll_write(1) by (rule stored_mono[OF assms(4)]) (use e(2) in auto)
  have 3: "delivered_inv s'"
  proof (cases "\<exists>a r ty ex. reply = PollTokens a r ty ex")
    case False
    then have none: "(case (reply, fst (ConsumeApprovedDeviceCode code (ds_db s))) of
            (PollTokens access refresh _ _, Some row) \<Rightarrow> [(dc_ID row, code, access, refresh)] | _ \<Rightarrow> []) = []"
      by (auto split: poll_reply.split option.split)
    show ?thesis unfolding poll_write(1) none by (rule delivered_mono[OF assms(5)]) (use sub in auto)
  next
    case True
    then obtain a r ty ex where reply: "reply = PollTokens a r ty ex" by blast
    obtain row where row: "fst (ConsumeApprovedDeviceCode code (ds_db s)) = Some row" "poll_tokens w row = reply"
        and db': "db' = snd (ConsumeApprovedDeviceCode code (ds_db s))" using e(3)[OF reply] by blast
    note c = consumed_row[OF row(1)]
    obtain n a' r' where st: "(dc_ID row, n, a', r') \<in> set (ds_stored s)" "Decrypt newGCM key (dc_AccessToken row) = Inr (string_bytes a')"
        "Decrypt newGCM key (dc_RefreshToken row) = Inr (string_bytes r')" using c(3) assms(4) by (fastforce simp: stored_inv_def)
    have same: "a' = a" "r' = r" using row(2) reply st poll_write(3,4) by (auto simp: poll_tokens_def split: sum.splits)
    obtain c' where "(dc_ID row, c', n) \<in> set (ds_issued s)" using st(1) assms(4) by (fastforce simp: stored_inv_def)
    moreover have k: "(dc_ID row, code, dc_VerificationNonce row) \<in> set (ds_issued s)" using c(1,2) assms(3) by (auto simp: issued_inv_def)
    ultimately have "n = dc_VerificationNonce row" using assms(3) by (auto simp: issued_inv_def dest: eq_key_imp_eq_value)
    then have new: "\<exists>n. (dc_ID row, code, n) \<in> set (ds_issued s) \<and> (dc_ID row, n, a, r) \<in> set (ds_stored s)" using st(1) same k by blast
    have out: "dc_ID row \<notin> fst ` set (device_keys db')" using c(4) assms(3) unfolding db' by (simp add: issued_inv_def)
    have "dc_ID row \<in> fst ` set (device_keys (ds_db s))" using c(1) by force
    then have fresh: "dc_ID row \<notin> fst ` set (ds_delivered s)" using assms(5) by (auto simp: delivered_inv_def)
    have "delivered_inv (s\<lparr>ds_db := db', ds_polls := remove1 (code, dc) (ds_polls s)\<rparr>)"
      by (rule delivered_mono[OF assms(5)]) (use sub in auto)
    then show ?thesis using new out fresh unfolding poll_write(1) reply row(1) by (simp add: delivered_inv_def)
  qed
  show ?thesis using 1 2 3 by simp
next
  case (cleanup now)
  have s: "shrinks (ds_db s) (DeleteExpiredDeviceCodes now (ds_db s))" by simp
  have "approved_rows (DeleteExpiredDeviceCodes now (ds_db s)) \<subseteq> approved_rows (ds_db s)" by (simp add: DeleteExpiredDeviceCodes_def)
  then have "stored_inv newGCM key s'" unfolding cleanup by (intro stored_mono[OF assms(4)]) simp_all
  moreover have "delivered_inv s'" unfolding cleanup by (rule delivered_mono[OF assms(5)]) (use s in \<open>auto simp: shrinks_def\<close>)
  ultimately show ?thesis using issued_shrinks[OF assms(3) s] unfolding cleanup by simp
qed

lemma device_reachable_inv:
  assumes "device_reachable cfg newGCM key s" "aead_correct newGCM key"
  shows "issued_inv s \<and> stored_inv newGCM key s \<and> delivered_inv s"
  using assms(1) unfolding device_reachable_def
proof (induction rule: rtranclp_induct)
  case base
  show ?case by (simp add: device_initial_def issued_inv_def stored_inv_def delivered_inv_def device_keys_def approved_rows_def)
next
  case (step y z)
  then show ?case using device_step_inv[OF step.hyps(2) assms(2)] by blast
qed

text \<open>C9: however requests, callbacks, polls and cleanups interleave, tokens are delivered at most once for each
  device code issued, and those delivered to a poller are the ones the provider gave to a callback whose
  state was the nonce issued together with that poller's device code.\<close>
theorem device_tokens_authentic:
  assumes "device_reachable cfg newGCM key s" and "aead_correct newGCM key"
  shows "distinct (map fst (ds_delivered s))
    \<and> (\<forall>i code access refresh. (i, code, access, refresh) \<in> set (ds_delivered s) \<longrightarrow>
        (\<exists>nonce. (i, code, nonce) \<in> set (ds_issued s) \<and> (i, nonce, access, refresh) \<in> set (ds_stored s)))"
  using device_reachable_inv[OF assms] by (fastforce simp: delivered_inv_def)

section \<open>A run that reaches the end\<close>

lemma find_only_last: "\<forall>x \<in> set xs. \<not> P x \<Longrightarrow> P y \<Longrightarrow> find P (xs @ [y]) = Some y"
  by (induction xs) auto

lemma update_last: "\<forall>d \<in> set ds. dc_ID d \<noteq> i \<Longrightarrow> dc_ID d' = i \<Longrightarrow> map (\<lambda>d. if dc_ID d = i then f d else d) (ds @ [d']) = ds @ [f d']"
  by (induction ds) auto

text \<open>A user code survives its printed form.\<close>
lemma charset_chars: "c \<in> set userCodeCharset \<Longrightarrow> char_in c 65 90"
  by (auto simp: userCodeCharset_def char_in_def)

lemma normalize_charset: "list_all (\<lambda>c. char_in c 65 90) s \<Longrightarrow> normalizeUserCode s = s"
proof (induction s)
  case (Cons c s)
  then have "upper_ascii c = c" "\<not> List.member [CHR ''-'', CHR '' '', CHR 0x09, CHR 0x0A, CHR 0x0D] c"
    by (auto simp: upper_ascii_def char_in_def)
  then show ?case using Cons by (simp add: normalizeUserCode_def)
qed (simp add: normalizeUserCode_def)

lemma normalize_append: "normalizeUserCode (a @ b) = normalizeUserCode a @ normalizeUserCode b"
  by (simp add: normalizeUserCode_def)

lemma generated_user_code:
  assumes "generateUserCode (Some bs) = Some code"
  shows "list_all (\<lambda>c. char_in c 65 90) code" "length code = length bs"
proof -
  have "userCodeCharset ! (unat (b :: 8 word) mod length userCodeCharset) \<in> set userCodeCharset" for b
    by (rule nth_mem) (simp add: userCodeCharset_def)
  then show "list_all (\<lambda>c. char_in c 65 90) code" using assms charset_chars by (auto simp: generateUserCode_def list_all_iff)
  show "length code = length bs" using assms by (auto simp: generateUserCode_def)
qed

lemma format_normalize:
  assumes "list_all (\<lambda>c. char_in c 65 90) code"
  shows "normalizeUserCode (formatUserCode code) = code"
proof -
  have dash: "normalizeUserCode ''-'' = ''''" by code_simp
  have "normalizeUserCode (take 4 code @ ''-'' @ drop 4 code) = normalizeUserCode (take 4 code @ drop 4 code)"
    unfolding normalize_append dash by simp
  then show ?thesis using normalize_charset[OF assms] by (simp add: formatUserCode_def)
qed

text \<open>The row a fresh pair of codes gets, and what the statements find and change through it.\<close>
lemma issued_row:
  assumes "HandleDeviceAuthorize cfg base request r1 (Some b2) r3 up now db = (DeviceIssued code user uri full ttl interval, db')"
    and "\<forall>d \<in> set (dv_rows db). dc_ID d < dv_next db"
  obtains row nonce where "dv_rows db' = dv_rows db @ [row]" "\<forall>d \<in> set (dv_rows db). dc_ID d \<noteq> dc_ID row" "dc_Status row = ''pending''"
    "dc_DeviceCode row = code" "generateNonce r3 = Some nonce" "dc_VerificationNonce row = nonce" "generateUserCode (Some b2) = Some (dc_UserCode row)"
    "user = formatUserCode (dc_UserCode row)" "dc_ExpiresAt row = now + i64 (ttl * 1000000000)"
    "dc_PollInterval row = interval" "dc_LastPolledAt row = None" "dc_Scopes row \<noteq> []"
    "\<forall>d \<in> set (dv_rows db). dc_DeviceCode d \<noteq> code \<and> dc_UserCode d \<noteq> dc_UserCode row \<and> dc_VerificationNonce d \<noteq> nonce"
proof -
  obtain clientID scope where q: "request = Some (clientID, scope)"
    using assms(1) by (auto simp: HandleDeviceAuthorize_def split: option.splits)
  obtain userCode nonce where g: "generateUserCode (Some b2) = Some userCode" "generateNonce r3 = Some nonce"
    using assms(1) q by (auto simp: HandleDeviceAuthorize_def Let_def split: option.splits)
  define scopes where "scopes = (if string_fields scope = [] then [''project:inference'', ''offline_access''] else string_fields scope)"
  have p: "scopes \<noteq> []" by (simp add: scopes_def)
  have c: "generateDeviceCode r1 = Some code" "user = formatUserCode userCode"
      "CreateDeviceCode up \<lparr>dc_ID = 0, dc_DeviceCode = code, dc_UserCode = userCode, dc_ClientID = clientID, dc_Scopes = scopes,
                      dc_Status = '''', dc_VerificationNonce = nonce, dc_AccessToken = [], dc_RefreshToken = [], dc_TokenType = '''',
                      dc_TokenExpiresIn = 0, dc_ExpiresAt = now + i64 (ttl * 1000000000), dc_PollInterval = interval,
                      dc_LastPolledAt = None\<rparr> db = Some db'"
    using assms(1) q g unfolding HandleDeviceAuthorize_def Let_def scopes_def[symmetric] by (auto simp: scopes_def[symmetric] split: option.splits)
  let ?row = "\<lparr>dc_ID = dv_next db, dc_DeviceCode = code, dc_UserCode = userCode, dc_ClientID = clientID, dc_Scopes = scopes,
                      dc_Status = ''pending'', dc_VerificationNonce = nonce, dc_AccessToken = [], dc_RefreshToken = [], dc_TokenType = '''',
                      dc_TokenExpiresIn = 0, dc_ExpiresAt = now + i64 (ttl * 1000000000), dc_PollInterval = interval, dc_LastPolledAt = None\<rparr>"
  show ?thesis by (rule that[of ?row nonce]) (use p g c assms(2) in \<open>auto simp: CreateDeviceCode_def list_ex_iff split: if_splits\<close>)
qed

lemma only_row_nonce:
  assumes "dv_rows db' = rows @ [row]" "\<forall>d \<in> set rows. dc_VerificationNonce d \<noteq> nonce" "dc_VerificationNonce row = nonce"
    "dc_Status row = ''pending''" "now < dc_ExpiresAt row"
  shows "GetDeviceCodeByNonce nonce now db' = Some row"
  unfolding GetDeviceCodeByNonce_def assms(1) by (rule find_only_last) (use assms in auto)

lemma only_row_user:
  assumes "dv_rows db' = rows @ [row]" "\<forall>d \<in> set rows. dc_UserCode d \<noteq> dc_UserCode row" "dc_Status row = ''pending''" "now < dc_ExpiresAt row"
  shows "GetDeviceCodeByUserCode (dc_UserCode row) now db' = Some row"
  unfolding GetDeviceCodeByUserCode_def assms(1) by (rule find_only_last) (use assms in auto)

lemma only_row_code:
  assumes "dv_rows db' = rows @ [row]" "\<forall>d \<in> set rows. dc_DeviceCode d \<noteq> code" "dc_DeviceCode row = code"
  shows "GetDeviceCodeByCode code db' = Some row" "dc_Status row = ''approved'' \<Longrightarrow> fst (ConsumeApprovedDeviceCode code db') = Some row"
  unfolding GetDeviceCodeByCode_def ConsumeApprovedDeviceCode_def assms(1) fst_conv by (rule find_only_last; use assms in auto)+

lemma approved_last:
  assumes "dv_rows db = rows @ [row]" "\<forall>d \<in> set rows. dc_ID d \<noteq> dc_ID row"
  shows "dv_rows (ApproveDeviceCode (dc_ID row) a r ty e db) = rows @ [row\<lparr>dc_Status := ''approved'', dc_AccessToken := a, dc_RefreshToken := r,
           dc_TokenType := ty, dc_TokenExpiresIn := e\<rparr>]"
  using update_last[OF assms(2) refl, of "\<lambda>d. d\<lparr>dc_Status := ''approved'', dc_AccessToken := a, dc_RefreshToken := r,
           dc_TokenType := ty, dc_TokenExpiresIn := e\<rparr>"] assms(1)
  by (simp add: ApproveDeviceCode_def update_device_def del: map_append)

text \<open>The flow reaches its end: after a code has been issued, entering it as it is shown leads to the provider with
  the nonce of that code; when the provider comes back with a code it honours, the next poll with the device
  code gets exactly the tokens the provider gave, as long as the code has not expired.\<close>
lemma device_flow_completes:
  assumes issue: "HandleDeviceAuthorize cfg base request r1 (Some b2) r3 up t0 db = (DeviceIssued code user uri full ttl interval, db1)"
    and ids: "\<forall>d \<in> set (dv_rows db). dc_ID d < dv_next db"
    and codes: "length b2 = 8" "r1 \<noteq> Some []" "r3 \<noteq> Some []"
    and times: "t1 < t0 + i64 (ttl * 1000000000)" "t2 < t0 + i64 (ttl * 1000000000)" "t3 \<le> t0 + i64 (ttl * 1000000000)"
    and provider: "exchangeAuthCode (cw_post w) (trim_right_slashes (df_PublicURL cfg)) (df_ClientID cfg) (df_ClientSecret cfg) authcode
        (base @ ''/oauth/device/callback'') = Some t" "authcode \<noteq> ''''"
    and up: "cw_read w" "cw_approve w" "pw_read p" "pw_write p"
    and key: "aead_correct (cw_newGCM w) (cw_key w)" "pw_newGCM p = cw_newGCM w" "pw_key p = cw_key w"
    and draws: "Encrypt (cw_newGCM w) (cw_rand1 w) (cw_key w) (string_bytes (ht_AccessToken t)) = Inr ea"
      "Encrypt (cw_newGCM w) (cw_rand2 w) (cw_key w) (string_bytes (ht_RefreshToken t)) = Inr er"
      "\<forall>n x. cw_rand1 w n = Some x \<or> cw_rand2 w n = Some x \<longrightarrow> length x = n"
  shows "\<exists>nonce pre. generateNonce r3 = Some nonce
    \<and> HandleVerifyUserCode cfg base (Some user) True t1 db1 = RedirectTo (pre @ ''&state='' @ QueryEscape nonce)
    \<and> (\<exists>db2. HandleCallback cfg base w \<lparr>cb_state = nonce, cb_error = '''', cb_errorDescription = '''', cb_code = authcode\<rparr> t2 db1 = (SuccessPage, db2)
        \<and> fst (HandleTokenPoll p (Some (''urn:ietf:params:oauth:grant-type:device_code'', code)) t3 db2)
          = PollTokens (ht_AccessToken t) (ht_RefreshToken t) (ht_TokenType t) (ht_ExpiresIn t))"
proof -
  obtain row nonce where r: "dv_rows db1 = dv_rows db @ [row]" "\<forall>d \<in> set (dv_rows db). dc_ID d \<noteq> dc_ID row" "dc_Status row = ''pending''"
      "dc_DeviceCode row = code" "generateNonce r3 = Some nonce" "dc_VerificationNonce row = nonce" "generateUserCode (Some b2) = Some (dc_UserCode row)"
      "user = formatUserCode (dc_UserCode row)" "dc_ExpiresAt row = t0 + i64 (ttl * 1000000000)"
      "\<forall>d \<in> set (dv_rows db). dc_DeviceCode d \<noteq> code \<and> dc_UserCode d \<noteq> dc_UserCode row \<and> dc_VerificationNonce d \<noteq> nonce"
    by (rule issued_row[OF issue ids])
  have user: "normalizeUserCode user = dc_UserCode row" "dc_UserCode row \<noteq> ''''"
    using generated_user_code[OF r(7)] format_normalize codes(1) r(8) by auto
  have "hex_encode bs \<noteq> ''''" if "bs \<noteq> []" for bs using that by (metis length_0_conv length_hex_encode mult_eq_0_iff zero_neq_numeral)
  then have nonempty: "nonce \<noteq> ''''" "code \<noteq> ''''"
    using r(5) codes issue by (auto simp: generateNonce_def generateDeviceCode_def HandleDeviceAuthorize_def Let_def split: option.splits)
  have verify: "\<exists>pre. HandleVerifyUserCode cfg base (Some user) True t1 db1 = RedirectTo (pre @ ''&state='' @ QueryEscape nonce)"
    using user only_row_user[OF r(1) _ r(3), of t1] r(6,9,10) times(1) by (simp add: HandleVerifyUserCode_def)
  let ?row' = "row\<lparr>dc_Status := ''approved'', dc_AccessToken := ea, dc_RefreshToken := er, dc_TokenType := ht_TokenType t, dc_TokenExpiresIn := ht_ExpiresIn t\<rparr>"
  let ?db2 = "record_grant cfg w row t (ApproveDeviceCode (dc_ID row) ea er (ht_TokenType t) (ht_ExpiresIn t) db1)"
  have rows2: "dv_rows ?db2 = dv_rows db @ [?row']" using approved_last[OF r(1,2)] by simp
  have callback: "HandleCallback cfg base w \<lparr>cb_state = nonce, cb_error = '''', cb_errorDescription = '''', cb_code = authcode\<rparr> t2 db1 = (SuccessPage, ?db2)"
    using nonempty up only_row_nonce[OF r(1) _ r(6) r(3), of t2] r(9,10) times(2) provider draws
    by (simp add: HandleCallback_def callback_with_def)
  have dec: "Decrypt (cw_newGCM w) (cw_key w) ea = Inr (string_bytes (ht_AccessToken t))" "Decrypt (cw_newGCM w) (cw_key w) er = Inr (string_bytes (ht_RefreshToken t))"
    using Encrypt_Decrypt[OF _ _ draws(1)] Encrypt_Decrypt[OF _ _ draws(2)] draws(3) key(1) by (auto simp: aead_correct_def)
  have "GetDeviceCodeByCode code ?db2 = Some ?row'" "fst (ConsumeApprovedDeviceCode code ?db2) = Some ?row'"
    using only_row_code[OF rows2] r(4,10) by simp_all
  moreover from this obtain db3 where "ConsumeApprovedDeviceCode code ?db2 = (Some ?row', db3)" by (metis prod.collapse)
  ultimately have "fst (HandleTokenPoll p (Some (''urn:ietf:params:oauth:grant-type:device_code'', code)) t3 ?db2)
      = PollTokens (ht_AccessToken t) (ht_RefreshToken t) (ht_TokenType t) (ht_ExpiresIn t)"
    using nonempty up r(9) times(3) dec key by (simp add: HandleTokenPoll_def poll_with_def poll_tokens_def Let_def)
  then show ?thesis using r(5) verify callback by blast
qed

section \<open>Pacing and races\<close>

text \<open>The interval a poller was last told: the one of its slow_down answer, else the row's.\<close>
definition told_interval :: "poll_reply \<Rightarrow> DeviceCode \<Rightarrow> int" where
  "told_interval reply row = (case reply of PollSlowDown k \<Rightarrow> k | _ \<Rightarrow> dc_PollInterval row)"

lemma poll_row:
  assumes "dv_rows db = rows @ [row]" "\<forall>d \<in> set rows. dc_ID d \<noteq> dc_ID row"
  shows "dv_rows (UpdateDeviceCodePoll (dc_ID row) slow now db)
    = rows @ [row\<lparr>dc_LastPolledAt := Some now, dc_PollInterval := dc_PollInterval row + (if slow then 5 else 0)\<rparr>]"
  using update_last[OF assms(2) refl, of "\<lambda>d. d\<lparr>dc_LastPolledAt := Some now, dc_PollInterval := dc_PollInterval d + (if slow then 5 else 0)\<rparr>"] assms(1)
  by (simp add: UpdateDeviceCodePoll_def update_device_def del: map_append)

text \<open>A client that waits the interval it was told is not told to slow down.\<close>
lemma pacing_respected:
  assumes "dv_rows db = rows @ [row]" "\<forall>d \<in> set rows. dc_ID d \<noteq> dc_ID row \<and> dc_DeviceCode d \<noteq> code" "dc_DeviceCode row = code" "code \<noteq> ''''"
    and "dc_Status row = ''pending''" "pw_read p" "pw_write p" "t \<le> dc_ExpiresAt row" "t' \<le> dc_ExpiresAt row"
    and "HandleTokenPoll p (Some (''urn:ietf:params:oauth:grant-type:device_code'', code)) t db = (reply, db')"
    and "t' \<ge> t + told_interval reply row * 1000000000"
  shows "fst (HandleTokenPoll p (Some (''urn:ietf:params:oauth:grant-type:device_code'', code)) t' db') = PollError 400 ''authorization_pending''"
proof -
  let ?slow = "poll_too_fast t row"
  let ?row' = "row\<lparr>dc_LastPolledAt := Some t, dc_PollInterval := dc_PollInterval row + (if ?slow then 5 else 0)\<rparr>"
  have get: "GetDeviceCodeByCode code db = Some row" using only_row_code(1)[OF assms(1)] assms(2,3) by simp
  have r: "reply = (if ?slow then PollSlowDown (dc_PollInterval row + 5) else PollError 400 ''authorization_pending'')"
      "db' = UpdateDeviceCodePoll (dc_ID row) ?slow t db"
    using assms(4-8,10) get by (auto simp: HandleTokenPoll_def poll_with_def Let_def)
  have rows': "dv_rows db' = rows @ [?row']" unfolding r(2) by (rule poll_row) (use assms in auto)
  have get': "GetDeviceCodeByCode code db' = Some ?row'" using only_row_code(1)[OF rows'] assms(2,3) by simp
  have "\<not> poll_too_fast t' ?row'" using assms(11) r(1) by (simp add: poll_too_fast_def told_interval_def split: if_splits)
  then show ?thesis using assms(4-9) get' by (simp add: HandleTokenPoll_def poll_with_def Let_def)
qed

text \<open>ApproveDeviceCode does not look at the status: a callback that read the row before another one denied it
  approves it all the same.\<close>
lemma denied_code_is_approved:
  assumes "dv_rows db = rows @ [row]" "\<forall>d \<in> set rows. dc_ID d \<noteq> dc_ID row" "dc_Status row = ''denied''" "dc_ID dc = dc_ID row"
    and "callback_with cfg base w q dc db = (SuccessPage, db', t)"
  shows "\<exists>row'. dv_rows db' = rows @ [row'] \<and> dc_Status row' = ''approved'' \<and> dc_DeviceCode row' = dc_DeviceCode row"
  using assms(4,5) approved_last[OF assms(1,2)] by (auto simp: callback_with_def split: if_splits option.splits sum.splits)

section \<open>A sample run\<close>

definition flow_gcm :: "bytes \<Rightarrow> aead option" where
  "flow_gcm k = Some \<lparr>seal = (\<lambda>n p. map ((+) 1) p), unseal = (\<lambda>n c. Some (map (\<lambda>x. x - 1) c)), nonceSize = 1\<rparr>"

definition flow_config :: device_config where
  "flow_config = \<lparr>df_ClientID = ''cli'', df_ClientSecret = ''s'', df_CodeTTL = 0, df_PollInterval = 0, df_PublicURL = ''http://h/''\<rparr>"

definition flow_token :: hydra_token where
  "flow_token = \<lparr>ht_AccessToken = ''at'', ht_RefreshToken = ''rt'', ht_TokenType = ''bearer'', ht_ExpiresIn = 60\<rparr>"

definition flow_world :: callback_world where
  "flow_world = \<lparr>cw_read = True, cw_approve = True, cw_grant = True, cw_post = (\<lambda>_ _. Some (200, Some flow_token)),
     cw_introspect = (\<lambda>_. Some (True, ''p'', ''u'')), cw_newGCM = flow_gcm, cw_key = [1],
     cw_rand1 = (\<lambda>n. Some (replicate n 0)), cw_rand2 = (\<lambda>n. Some (replicate n 0))\<rparr>"

definition flow_poll :: poll_world where
  "flow_poll = \<lparr>pw_read = True, pw_write = True, pw_newGCM = flow_gcm, pw_key = [1]\<rparr>"

definition flow_empty :: device_db where "flow_empty = \<lparr>dv_rows = [], dv_next = 0, dv_grants = \<lparr>gt_rows = [], gt_next = 0\<rparr>\<rparr>"

definition flow_row :: "string \<Rightarrow> bytes \<Rightarrow> bytes \<Rightarrow> string \<Rightarrow> int \<Rightarrow> DeviceCode" where
  "flow_row status a r ty e = \<lparr>dc_ID = 0, dc_DeviceCode = ''01'', dc_UserCode = ''DDDDDDDD'', dc_ClientID = ''c'',
     dc_Scopes = [''project:inference'', ''offline_access''], dc_Status = status, dc_VerificationNonce = ''03'', dc_AccessToken = a,
     dc_RefreshToken = r, dc_TokenType = ty, dc_TokenExpiresIn = e, dc_ExpiresAt = 600000000000, dc_PollInterval = 5, dc_LastPolledAt = None\<rparr>"

definition flow_db1 :: device_db where
  "flow_db1 = flow_empty\<lparr>dv_rows := [flow_row ''pending'' [] [] '''' 0], dv_next := 1\<rparr>"

definition flow_callback :: callback_query where
  "flow_callback = \<lparr>cb_state = ''03'', cb_error = '''', cb_errorDescription = '''', cb_code = ''x''\<rparr>"

lemma flow_aead: "aead_correct flow_gcm [1]"
  by (auto simp: aead_correct_def flow_gcm_def comp_def)

lemma flow_issued:
  "HandleDeviceAuthorize flow_config ''b'' (Some (''c'', '''')) (Some [1]) (Some (replicate 8 2)) (Some [3]) True 0 flow_empty
   = (DeviceIssued ''01'' ''DDDD-DDDD'' ''b/oauth/device'' ''b/oauth/device?user_code=DDDD-DDDD'' 600 5, flow_db1)"
  by code_simp

lemma device_flow_completes_witness:
  "\<exists>db2. HandleCallback flow_config ''b'' flow_world flow_callback 2 flow_db1 = (SuccessPage, db2)
     \<and> fst (HandleTokenPoll flow_poll (Some (''urn:ietf:params:oauth:grant-type:device_code'', ''01'')) 3 db2) = PollTokens ''at'' ''rt'' ''bearer'' 60"
proof -
  have e: "Encrypt (cw_newGCM flow_world) (cw_rand1 flow_world) (cw_key flow_world) (string_bytes (ht_AccessToken flow_token)) = Inr [0, 98, 117]"
      "Encrypt (cw_newGCM flow_world) (cw_rand2 flow_world) (cw_key flow_world) (string_bytes (ht_RefreshToken flow_token)) = Inr [0, 115, 117]"
    by code_simp+
  have x: "exchangeAuthCode (cw_post flow_world) (trim_right_slashes (df_PublicURL flow_config)) (df_ClientID flow_config) (df_ClientSecret flow_config) ''x''
        (''b'' @ ''/oauth/device/callback'') = Some flow_token"
    by (simp add: exchangeAuthCode_def flow_world_def)
  have n: "generateNonce (Some [3]) = Some ''03''" by code_simp
  have i: "i64 (600 * 1000000000) = 600000000000" by (simp add: i64_def)
  show ?thesis
    using device_flow_completes[OF flow_issued, where ?t1.0 = 1 and ?t2.0 = 2 and ?t3.0 = 3 and w = flow_world and p = flow_poll and authcode = "''x''",
        OF _ _ _ _ _ _ _ x _ _ _ _ _ _ _ _ e] flow_aead n i
    by (simp add: flow_callback_def flow_world_def flow_poll_def flow_empty_def flow_token_def)
qed

definition flow_db2 :: device_db where
  "flow_db2 = \<lparr>dv_rows = [flow_row ''approved'' [0, 98, 117] [0, 115, 117] ''bearer'' 60], dv_next = 1,
     dv_grants = \<lparr>gt_rows = [\<lparr>og_ID = 0, og_ProjectID = ''p'', og_UserID = ''u'', og_ClientID = ''cli'', og_ClientName = ''Device Flow'',
       og_Scopes = [''project:inference'', ''offline_access'']\<rparr>], gt_next = 1\<rparr>\<rparr>"

lemma flow_called_back:
  "GetDeviceCodeByNonce ''03'' 1 flow_db1 = Some (flow_row ''pending'' [] [] '''' 0)"
  "callback_with flow_config ''b'' flow_world flow_callback (flow_row ''pending'' [] [] '''' 0) flow_db1 = (SuccessPage, flow_db2, Some flow_token)"
  by code_simp+

lemma flow_polled:
  "GetDeviceCodeByCode ''01'' flow_db2 = Some (flow_row ''approved'' [0, 98, 117] [0, 115, 117] ''bearer'' 60)"
  "poll_with flow_poll 3 ''01'' (flow_row ''approved'' [0, 98, 117] [0, 115, 117] ''bearer'' 60) flow_db2
    = (PollTokens ''at'' ''rt'' ''bearer'' 60, flow_db2\<lparr>dv_rows := []\<rparr>)"
  "fst (ConsumeApprovedDeviceCode ''01'' flow_db2) = Some (flow_row ''approved'' [0, 98, 117] [0, 115, 117] ''bearer'' 60)"
  by code_simp+

lemma flow_reaches:
  "\<exists>s. device_reachable flow_config flow_gcm [1] s \<and> ds_delivered s = [(0, ''01'', ''at'', ''rt'')]"
proof -
  let ?row = "flow_row ''pending'' [] [] '''' 0" and ?row' = "flow_row ''approved'' [0, 98, 117] [0, 115, 117] ''bearer'' 60"
  let ?R = "device_step flow_config flow_gcm [1]"
  define s1 where "s1 = device_initial\<lparr>ds_db := flow_db1, ds_issued := [(0, ''01'', ''03'')]\<rparr>"
  define s2 where "s2 = s1\<lparr>ds_callbacks := [(flow_callback, ?row)]\<rparr>"
  define s3 where "s3 = s2\<lparr>ds_db := flow_db2, ds_callbacks := [], ds_stored := [(0, ''03'', ''at'', ''rt'')]\<rparr>"
  define s4 where "s4 = s3\<lparr>ds_polls := [(''01'', ?row')]\<rparr>"
  define s5 where "s5 = s4\<lparr>ds_db := flow_db2\<lparr>dv_rows := []\<rparr>, ds_polls := [], ds_delivered := [(0, ''01'', ''at'', ''rt'')]\<rparr>"
  have n: "generateNonce (Some [3]) = Some ''03''" by code_simp
  have db: "ds_db device_initial = flow_empty" by (simp add: device_initial_def flow_empty_def)
  have "?R device_initial s1"
    using device_step.authorize[of flow_config _ _ _ _ _ _ _ device_initial, unfolded db, OF flow_issued n]
    by (simp add: s1_def flow_empty_def device_initial_def)
  moreover have "?R s1 s2"
    using device_step.callback_read[of flow_callback 1 s1 ?row flow_config flow_gcm "[1]"] flow_called_back(1)
    by (simp add: s2_def s1_def flow_callback_def device_initial_def)
  moreover have "?R s2 s3"
    using device_step.callback_write[of flow_callback ?row s2 flow_world flow_gcm "[1]" flow_config "''b''" SuccessPage flow_db2 "Some flow_token"]
      flow_called_back(2)
    by (simp add: s3_def s2_def s1_def device_initial_def flow_world_def flow_token_def flow_callback_def flow_row_def)
  moreover have "?R s3 s4"
    using device_step.poll_read[of "''01''" s3 ?row' flow_config flow_gcm "[1]"] flow_polled(1)
    by (simp add: s4_def s3_def s2_def s1_def device_initial_def)
  moreover have "?R s4 s5"
    using device_step.poll_write[of "''01''" ?row' s4 flow_poll flow_gcm "[1]" 3 "PollTokens ''at'' ''rt'' ''bearer'' 60" "flow_db2\<lparr>dv_rows := []\<rparr>" flow_config]
      flow_polled(2,3)
    by (simp add: s5_def s4_def s3_def s2_def s1_def device_initial_def flow_poll_def) (simp add: flow_row_def)
  ultimately have "?R\<^sup>*\<^sup>* device_initial s5"
    by (meson rtranclp.rtrancl_refl rtranclp.rtrancl_into_rtrancl)
  then show ?thesis by (intro exI[of _ s5]) (simp add: device_reachable_def s5_def)
qed

lemma device_tokens_authentic_witness:
  "\<exists>(s :: device_system) nonce. ds_delivered s = [(0, ''01'', ''at'', ''rt'')] \<and> (0, ''01'', nonce) \<in> set (ds_issued s) \<and> (0, nonce, ''at'', ''rt'') \<in> set (ds_stored s)"
proof -
  obtain s where s: "device_reachable flow_config flow_gcm [1] s" "ds_delivered s = [(0, ''01'', ''at'', ''rt'')]" using flow_reaches by blast
  have "(0, ''01'', ''at'', ''rt'') \<in> set (ds_delivered s)" using s(2) by simp
  then have "\<exists>nonce. (0, ''01'', nonce) \<in> set (ds_issued s) \<and> (0, nonce, ''at'', ''rt'') \<in> set (ds_stored s)"
    using device_tokens_authentic[OF s(1) flow_aead] by blast
  then show ?thesis using s(2) by blast
qed

end
