(* ===== verification/GoUrl.thy ===== *)
theory GoUrl
  imports GoText "HOL-Library.Char_ord" "HOL-Library.List_Lexorder"
begin

text \<open>
  The part of Go's net/url that rewrites query strings: unescaping, ParseQuery, Values.Get, Set and Encode. The
  values of a query are its pairs in order; Encode writes the keys sorted, as Go does. Cutting a URL into its
  parts and writing it back (url.Parse, URL.String) is the parameter \<^term>\<open>url_lib\<close> of the definitions that
  need it.
\<close>

record url =
  url_Scheme :: string
  url_Host :: string
  url_Path :: string
  url_RawQuery :: string

record url_lib =
  ul_Parse :: "string \<Rightarrow> url option"
  ul_String :: "url \<Rightarrow> string"

section \<open>Escapes\<close>

definition unhex :: "char \<Rightarrow> nat option" where
  "unhex c = (if char_in c 48 57 then Some (of_char c - 48) else if char_in c 65 70 then Some (of_char c - 55)
              else if char_in c 97 102 then Some (of_char c - 87) else None)"

fun QueryUnescape :: "string \<Rightarrow> string option" where
  "QueryUnescape [] = Some []"
| "QueryUnescape (c # s) =
     (if c = CHR ''%'' then
        (case s of a # b # r \<Rightarrow>
             (case (unhex a, unhex b) of (Some x, Some y) \<Rightarrow> map_option (Cons (char_of (16 * x + y))) (QueryUnescape r) | _ \<Rightarrow> None)
         | _ \<Rightarrow> None)
      else map_option (Cons (if c = CHR ''+'' then CHR '' '' else c)) (QueryUnescape s))"

lemma unhex_upper [simp]: "n < 16 \<Longrightarrow> unhex (upper_hex n) = Some n"
  by (auto simp: unhex_def upper_hex_def char_in_def)

lemma char_nibbles: "(of_char c :: nat) div 16 < 16" "(of_char c :: nat) mod 16 < 16"
  using nat_of_char_less_256[of c] by arith+

lemma QueryUnescape_QueryEscape_append: "QueryUnescape (QueryEscape s @ r) = map_option ((@) s) (QueryUnescape r)"
proof (induction s)
  case Nil then show ?case by (simp add: QueryEscape_def option.map_ident)
next
  case (Cons c s)
  note h = char_nibbles[of c]
  have r: "char_of (of_char c div 16 * 16 + of_char c mod 16 :: nat) = c" by simp
  have u: "url_unreserved c \<Longrightarrow> c \<noteq> CHR ''%'' \<and> c \<noteq> CHR ''+''" by (auto simp: url_unreserved_def char_in_def)
  have e: "QueryEscape (c # s) = QueryEscape [c] @ QueryEscape s" by (simp add: QueryEscape_def)
  show ?case using Cons h r u unfolding e by (auto simp: QueryEscape_def mult.commute option.map_comp comp_def)
qed

lemma QueryUnescape_QueryEscape [simp]: "QueryUnescape (QueryEscape s) = Some s"
  using QueryUnescape_QueryEscape_append[of s "[]"] by simp

lemma upper_hex_plain: "n < 16 \<Longrightarrow> upper_hex n \<noteq> CHR ''&'' \<and> upper_hex n \<noteq> CHR ''='' \<and> upper_hex n \<noteq> CHR '';''"
  using unhex_upper[of n] by (auto simp: unhex_def char_in_def simp del: unhex_upper)

lemma QueryEscape_plain: "c \<in> set (QueryEscape s) \<Longrightarrow> c \<noteq> CHR ''&'' \<and> c \<noteq> CHR ''='' \<and> c \<noteq> CHR '';''"
proof (induction s)
  case Nil then show ?case by (simp add: QueryEscape_def)
next
  case (Cons d s)
  have e: "QueryEscape (d # s) = QueryEscape [d] @ QueryEscape s" by (simp add: QueryEscape_def)
  have "c \<in> set (QueryEscape [d]) \<Longrightarrow> c \<noteq> CHR ''&'' \<and> c \<noteq> CHR ''='' \<and> c \<noteq> CHR '';''"
    using upper_hex_plain[OF char_nibbles(1)[of d]] upper_hex_plain[OF char_nibbles(2)[of d]]
    by (cases "url_unreserved d") (auto simp: QueryEscape_def url_unreserved_def char_in_def split: if_splits)
  then show ?case using Cons unfolding e by auto
qed

section \<open>url.Values\<close>

fun split_amp :: "string \<Rightarrow> string list" where
  "split_amp [] = [[]]"
| "split_amp (c # s) = (if c = CHR ''&'' then [] # split_amp s else (case split_amp s of [] \<Rightarrow> [[c]] | p # ps \<Rightarrow> (c # p) # ps))"

text \<open>One piece of a query; None: skipped (ParseQuery's error is ignored by URL.Query).\<close>
definition parse_pair :: "string \<Rightarrow> (string \<times> string) option" where
  "parse_pair p =
     (if p = [] \<or> CHR '';'' \<in> set p then None
      else (case (case split_two (CHR ''='') p of Some kv \<Rightarrow> kv | None \<Rightarrow> (p, [])) of
              (k, v) \<Rightarrow> (case (QueryUnescape k, QueryUnescape v) of (Some k, Some v) \<Rightarrow> Some (k, v) | _ \<Rightarrow> None)))"

definition ParseQuery :: "string \<Rightarrow> (string \<times> string) list" where
  "ParseQuery q = List.map_filter parse_pair (split_amp q)"

definition Values_Get :: "string \<Rightarrow> (string \<times> string) list \<Rightarrow> string" where
  "Values_Get k q = (case map_of q k of None \<Rightarrow> '''' | Some v \<Rightarrow> v)"

definition Values_Set :: "string \<Rightarrow> string \<Rightarrow> (string \<times> string) list \<Rightarrow> (string \<times> string) list" where
  "Values_Set k v q = filter (\<lambda>p. fst p \<noteq> k) q @ [(k, v)]"

definition Values_Encode :: "(string \<times> string) list \<Rightarrow> string" where
  "Values_Encode q = string_join (map (\<lambda>(k, v). QueryEscape k @ ''='' @ QueryEscape v) (sort_key fst q)) ''&''"

lemma split_amp_plain: "CHR ''&'' \<notin> set p \<Longrightarrow> split_amp p = [p]"
  by (induction p) auto

lemma split_amp_append: "CHR ''&'' \<notin> set p \<Longrightarrow> split_amp (p @ CHR ''&'' # s) = p # split_amp s"
  by (induction p) auto

lemma split_amp_join: "\<forall>p \<in> set ps. CHR ''&'' \<notin> set p \<Longrightarrow> ps \<noteq> [] \<Longrightarrow> split_amp (string_join ps ''&'') = ps"
  by (induction ps rule: induct_list012) (auto simp: split_amp_plain split_amp_append)

lemma parse_pair_encoded: "parse_pair (QueryEscape k @ CHR ''='' # QueryEscape v) = Some (k, v)"
  using QueryEscape_plain[of _ k] QueryEscape_plain[of _ v] by (auto simp: parse_pair_def)

lemma ParseQuery_Encode: "ParseQuery (Values_Encode q) = sort_key fst q"
proof (cases "q = []")
  case True then show ?thesis by (simp add: ParseQuery_def Values_Encode_def parse_pair_def List.map_filter_def)
next
  case False
  let ?e = "\<lambda>(k, v). QueryEscape k @ ''='' @ QueryEscape v"
  have "split_amp (Values_Encode q) = map ?e (sort_key fst q)" unfolding Values_Encode_def
    using False by (intro split_amp_join) (auto dest: QueryEscape_plain simp flip: set_empty)
  moreover have "List.map_filter parse_pair (map ?e ps) = ps" for ps
    by (induction ps) (auto simp: List.map_filter_def parse_pair_encoded)
  ultimately show ?thesis by (simp add: ParseQuery_def)
qed

lemma map_of_only:
  assumes "\<forall>p \<in> set ps. fst p = k \<longrightarrow> p = (k, v)" "(k, v) \<in> set ps"
  shows "map_of ps k = Some v"
  using assms by (induction ps) auto

text \<open>What Set and Encode write is what Query and Get read.\<close>
lemma Values_roundtrip: "Values_Get k (ParseQuery (Values_Encode (Values_Set k v q))) = v"
proof -
  have "set (sort_key fst (Values_Set k v q)) \<inter> {p. fst p = k} = {(k, v)}" by (auto simp: Values_Set_def)
  then have "\<forall>p \<in> set (sort_key fst (Values_Set k v q)). fst p = k \<longrightarrow> p = (k, v)"
    and "(k, v) \<in> set (sort_key fst (Values_Set k v q))" by blast+
  then have "map_of (sort_key fst (Values_Set k v q)) k = Some v" by (rule map_of_only)
  then show ?thesis by (simp add: Values_Get_def ParseQuery_Encode)
qed

end
