(* ===== verification/Login.thy ===== *)
theory Login
  imports Members Device GoUrl
begin

text \<open>
  Signing in: auth/*.go (the identity providers' answers, the JWT manager), the login handlers of
  admin/handle_auth.go and their typed copies in api/admin/v1/auth.go and oauth_helpers.go, and the login and
  consent pages of the OAuth server (admin/hydra_login.go, hydra_session.go, hydra_consent.go). The providers'
  and the OAuth server's answers, the JWT library, the JSON encoding of the session cookie, url.Parse and random
  draws are parameters; \<^term>\<open>up\<close> says of each statement whether it succeeds.
\<close>

section \<open>Identity providers (auth/github.go, google.go, oidc.go)\<close>

record OAuthUserInfo =
  oi_Email :: string
  oi_Name :: string
  oi_Picture :: string
  oi_ProviderID :: string
  oi_Provider :: string

record github_profile =
  gh_ID :: int
  gh_Login :: string
  gh_Name :: string
  gh_Email :: string
  gh_AvatarURL :: string

record github_email =
  ge_Email :: string
  ge_Primary :: bool
  ge_Verified :: bool

record google_profile =
  gp_ID :: string
  gp_Email :: string
  gp_Name :: string
  gp_Picture :: string

record oidc_claims =
  oc_Sub :: string
  oc_Email :: string
  oc_Name :: string
  oc_Nickname :: string
  oc_PreferredUsername :: string
  oc_Picture :: string

definition coalesce :: "string \<Rightarrow> string \<Rightarrow> string" where
  "coalesce a b = (if a \<noteq> '''' then a else b)"

text \<open>None where the list cannot be fetched or has no verified address.\<close>
definition fetchPrimaryEmail :: "github_email list option \<Rightarrow> string option" where
  "fetchPrimaryEmail answer =
     (case answer of None \<Rightarrow> None
      | Some emails \<Rightarrow>
          (case find (\<lambda>e. ge_Primary e \<and> ge_Verified e) emails of
             Some e \<Rightarrow> Some (ge_Email e)
           | None \<Rightarrow> map_option ge_Email (find ge_Verified emails)))"

text \<open>What the providers answer for a code: None where a call fails; the status and the decoded body otherwise.\<close>
record identity_world =
  iw_github :: "string \<Rightarrow> (int \<times> github_profile option) option"
  iw_emails :: "string \<Rightarrow> github_email list option"
  iw_google :: "string \<Rightarrow> (int \<times> google_profile option) option"
  iw_discovery :: bool
  iw_idtoken :: "string \<Rightarrow> oidc_claims option"

definition GitHub_ExchangeAndGetUser :: "identity_world \<Rightarrow> string \<Rightarrow> OAuthUserInfo option" where
  "GitHub_ExchangeAndGetUser w code =
     (case iw_github w code of
        Some (status, Some p) \<Rightarrow>
          if status \<noteq> 200 then None
          else Some \<lparr>oi_Email = (if gh_Email p = '''' then the_or '''' (fetchPrimaryEmail (iw_emails w code)) else gh_Email p),
                 oi_Name = coalesce (gh_Name p) (gh_Login p), oi_Picture = gh_AvatarURL p, oi_ProviderID = itoa (gh_ID p),
                 oi_Provider = ''github''\<rparr>
      | _ \<Rightarrow> None)"

definition Google_ExchangeAndGetUser :: "identity_world \<Rightarrow> string \<Rightarrow> OAuthUserInfo option" where
  "Google_ExchangeAndGetUser w code =
     (case iw_google w code of
        Some (status, Some p) \<Rightarrow>
          if status \<noteq> 200 then None
          else Some \<lparr>oi_Email = gp_Email p, oi_Name = gp_Name p, oi_Picture = gp_Picture p, oi_ProviderID = gp_ID p, oi_Provider = ''google''\<rparr>
      | _ \<Rightarrow> None)"

definition OIDC_ExchangeAndGetUser :: "identity_world \<Rightarrow> string \<Rightarrow> OAuthUserInfo option" where
  "OIDC_ExchangeAndGetUser w code =
     (case iw_idtoken w code of None \<Rightarrow> None
      | Some c \<Rightarrow>
          Some \<lparr>oi_Email = oc_Email c,
            oi_Name = (if oc_Name c \<noteq> '''' then oc_Name c else if oc_Nickname c \<noteq> '''' then oc_Nickname c else oc_PreferredUsername c),
            oi_Picture = oc_Picture c, oi_ProviderID = oc_Sub c, oi_Provider = ''oidc''\<rparr>)"

section \<open>JWT manager (auth/jwt.go)\<close>

record Claims =
  cl_UserID :: string
  cl_Email :: string
  cl_IsSuperadmin :: bool
  cl_TokenType :: string
  cl_ExpiresAt :: go_time
  cl_IssuedAt :: go_time
  cl_Subject :: string

record JWTManager =
  jm_secret :: bytes
  jm_accessTokenTTL :: int
  jm_refreshTokenTTL :: int

text \<open>The library: signing with HS256, and parsing with the key chosen by the algorithm, the methods allowed and the time.\<close>
record jwt_lib =
  jl_sign :: "bytes \<Rightarrow> Claims \<Rightarrow> string option"
  jl_parse :: "(string \<Rightarrow> bytes option) \<Rightarrow> string list \<Rightarrow> go_time \<Rightarrow> string \<Rightarrow> Claims option"

text \<open>jwt.NewNumericDate keeps whole seconds.\<close>
definition NewNumericDate :: "go_time \<Rightarrow> go_time" where
  "NewNumericDate t = t div 1000000000 * 1000000000"

definition GenerateTokenPair :: "jwt_lib \<Rightarrow> JWTManager \<Rightarrow> go_time \<Rightarrow> string \<Rightarrow> string \<Rightarrow> bool \<Rightarrow> (string \<times> string) option" where
  "GenerateTokenPair lib j now userID email isSuperadmin =
     (let claims = (\<lambda>ty ttl. \<lparr>cl_UserID = userID, cl_Email = email, cl_IsSuperadmin = isSuperadmin, cl_TokenType = ty,
              cl_ExpiresAt = NewNumericDate (now + ttl), cl_IssuedAt = NewNumericDate now, cl_Subject = userID\<rparr>)
      in case (jl_sign lib (jm_secret j) (claims ''access'' (jm_accessTokenTTL j)),
               jl_sign lib (jm_secret j) (claims ''refresh'' (jm_refreshTokenTTL j))) of
           (Some access, Some refresh) \<Rightarrow> Some (access, refresh) | _ \<Rightarrow> None)"

definition ValidateToken :: "jwt_lib \<Rightarrow> JWTManager \<Rightarrow> go_time \<Rightarrow> string \<Rightarrow> Claims option" where
  "ValidateToken lib j now token = jl_parse lib (\<lambda>alg. if alg = ''HS256'' then Some (jm_secret j) else None) [''HS256''] now token"

section \<open>Helpers of the login (handle_auth.go)\<close>

definition unix :: "go_time \<Rightarrow> int" where
  "unix t = t div 1000000000"

definition isValidReturnTo :: "url_lib \<Rightarrow> string \<Rightarrow> bool" where
  "isValidReturnTo ul raw =
     (has_prefix raw ''/oauth/login'' \<or>
      (case ul_Parse ul raw of None \<Rightarrow> False
       | Some u \<Rightarrow> (url_Scheme u = ''http'' \<or> url_Scheme u = ''https'') \<and> has_prefix (url_Path u) ''/oauth/login''))"

definition buildAuthToken :: "(bytes \<Rightarrow> aead option) \<Rightarrow> (nat \<Rightarrow> bytes option) \<Rightarrow> bytes \<Rightarrow> go_time \<Rightarrow> string \<Rightarrow> string" where
  "buildAuthToken newGCM rnd key now userID =
     (case Encrypt newGCM rnd key (string_bytes (userID @ ''|'' @ itoa (unix now))) of
        Inl _ \<Rightarrow> '''' | Inr ciphertext \<Rightarrow> base64_raw_encode ciphertext)"

definition verifyAuthToken :: "(bytes \<Rightarrow> aead option) \<Rightarrow> bytes \<Rightarrow> go_time \<Rightarrow> string \<Rightarrow> string option" where
  "verifyAuthToken newGCM key now token =
     (case base64_raw_decode token of None \<Rightarrow> None
      | Some ciphertext \<Rightarrow>
          (case Decrypt newGCM key ciphertext of Inl _ \<Rightarrow> None
           | Inr plaintext \<Rightarrow>
               (case split_two (CHR ''|'') (bytes_string plaintext) of None \<Rightarrow> None
                | Some (userID, s) \<Rightarrow>
                    (case ParseInt s of None \<Rightarrow> None
                     | Some ts \<Rightarrow> if i64 (unix now - ts) > 300 then None else Some userID))))"

definition appendQueryParam :: "url_lib \<Rightarrow> string \<Rightarrow> string \<Rightarrow> string \<Rightarrow> string" where
  "appendQueryParam ul rawURL k v =
     (case ul_Parse ul rawURL of None \<Rightarrow> rawURL
      | Some u \<Rightarrow> ul_String ul (u\<lparr>url_RawQuery := Values_Encode (Values_Set k v (ParseQuery (url_RawQuery u)))\<rparr>))"

text \<open>scheme and baseURL (hydra_login.go).\<close>
record http_origin =
  ho_TLS :: bool
  ho_ForwardedProto :: string
  ho_Host :: string

definition scheme :: "http_origin \<Rightarrow> string" where
  "scheme r = (if ho_TLS r then ''https'' else if ho_ForwardedProto r \<noteq> '''' then ho_ForwardedProto r else ''http'')"

definition baseURL :: "http_origin \<Rightarrow> string" where
  "baseURL r = scheme r @ ''://'' @ ho_Host r"

record oauth_config =
  cfg_GitHub_ClientID :: string
  cfg_Google_ClientID :: string
  cfg_OIDC_IssuerURL :: string
  cfg_OIDC_RedirectURI :: string
  cfg_OIDC_DisplayName :: string

section \<open>Tokens (handle_auth.go, admin.go)\<close>

datatype auth_reply = AuthError int string | AuthTokens string string UserRow | AuthRedirect string

text \<open>What lies outside of one request: the statements' success, the generated ids, the libraries, the key, the clock.\<close>
record login_world =
  lw_up :: "string \<Rightarrow> bool"
  lw_identity :: identity_world
  lw_getPlan :: "string \<Rightarrow> Plan option"
  lw_userID :: string
  lw_projectID :: string
  lw_subscriptionID :: string
  lw_jwt :: jwt_lib
  lw_manager :: JWTManager
  lw_url :: url_lib
  lw_newGCM :: "bytes \<Rightarrow> aead option"
  lw_rand :: "nat \<Rightarrow> bytes option"
  lw_key :: bytes
  lw_now :: go_time

definition issueTokens :: "login_world \<Rightarrow> UserRow \<Rightarrow> auth_reply" where
  "issueTokens w user =
     (case GenerateTokenPair (lw_jwt w) (lw_manager w) (lw_now w) (user_ID user) (user_Email user) (user_IsSuperadmin user) of
        None \<Rightarrow> AuthError 500 ''internal''
      | Some (access, refresh) \<Rightarrow> AuthTokens access refresh user)"

definition handleRefresh :: "login_world \<Rightarrow> string option \<Rightarrow> accounts \<Rightarrow> auth_reply" where
  "handleRefresh w body a =
     (case body of None \<Rightarrow> AuthError 400 ''bad_request''
      | Some token \<Rightarrow>
          if token = '''' then AuthError 400 ''bad_request''
          else (case ValidateToken (lw_jwt w) (lw_manager w) (lw_now w) token of
             None \<Rightarrow> AuthError 401 ''unauthorized''
           | Some claims \<Rightarrow>
               if cl_TokenType claims \<noteq> ''refresh'' then AuthError 401 ''unauthorized''
               else (case (if lw_up w ''Get'' then GetUserByID (cl_UserID claims) a else None) of
                       None \<Rightarrow> AuthError 401 ''unauthorized''
                     | Some user \<Rightarrow> if user_Status user \<noteq> ''active'' then AuthError 401 ''unauthorized'' else issueTokens w user)))"

text \<open>The middleware of the management API: the user a request runs as. The argument is the bearer token, empty when absent.\<close>
definition JWTAuthMiddleware :: "login_world \<Rightarrow> string \<Rightarrow> accounts \<Rightarrow> int \<times> string + UserRow" where
  "JWTAuthMiddleware w token a =
     (if token = '''' then Inl (401, ''unauthorized'')
      else case ValidateToken (lw_jwt w) (lw_manager w) (lw_now w) token of
        None \<Rightarrow> Inl (401, ''unauthorized'')
      | Some claims \<Rightarrow>
          if cl_TokenType claims \<noteq> ''access'' then Inl (401, ''unauthorized'')
          else (case (if lw_up w ''Get'' then GetUserByID (cl_UserID claims) a else None) of
                  None \<Rightarrow> Inl (401, ''unauthorized'')
                | Some user \<Rightarrow> if user_Status user \<noteq> ''active'' then Inl (403, ''forbidden'') else Inr user))"

section \<open>The OAuth callback (handle_auth.go)\<close>

definition exchange_code :: "oauth_config \<Rightarrow> identity_world \<Rightarrow> string \<Rightarrow> string \<Rightarrow> int \<times> string + OAuthUserInfo" where
  "exchange_code cfg w provider code =
     (let result = (\<lambda>info. case info of None \<Rightarrow> Inl (401, ''unauthorized'') | Some i \<Rightarrow> Inr i) in
      if provider = ''github'' then
        (if cfg_GitHub_ClientID cfg = '''' then Inl (501, ''not_configured'') else result (GitHub_ExchangeAndGetUser w code))
      else if provider = ''google'' then
        (if cfg_Google_ClientID cfg = '''' then Inl (501, ''not_configured'') else result (Google_ExchangeAndGetUser w code))
      else if provider = ''oidc'' then
        (if cfg_OIDC_IssuerURL cfg = '''' then Inl (501, ''not_configured'')
         else if \<not> iw_discovery w then Inl (500, ''internal'') else result (OIDC_ExchangeAndGetUser w code))
      else Inl (400, ''bad_request''))"

text \<open>An existing user: link the identity, copy a changed name and picture, and read the row again.\<close>
definition sync_oauth_user :: "(string \<Rightarrow> bool) \<Rightarrow> OAuthUserInfo \<Rightarrow> UserRow \<Rightarrow> accounts \<Rightarrow> UserRow \<times> accounts" where
  "sync_oauth_user up info user a =
     (let a1 = (if up ''Connect'' then CreateOAuthConnection (user_ID user) (oi_Provider info) (oi_ProviderID info) a else a);
          name = (oi_Name info \<noteq> '''' \<and> oi_Name info \<noteq> user_Nickname user);
          picture = (oi_Picture info \<noteq> '''' \<and> oi_Picture info \<noteq> user_Picture user)
      in if \<not> name \<and> \<not> picture then (user, a1)
         else (let a2 = (if up ''Update'' then UpdateUser (user_ID user)
                            (\<lambda>u. u\<lparr>user_Nickname := if name then oi_Name info else user_Nickname u,
                                   user_Picture := if picture then oi_Picture info else user_Picture u\<rparr>) a1 else a1)
               in (case (if up ''Fresh'' then GetUserByID (user_ID user) a2 else None) of Some fresh \<Rightarrow> fresh | None \<Rightarrow> user, a2)))"

definition new_oauth_user :: "OAuthUserInfo \<Rightarrow> bool \<Rightarrow> UserRow" where
  "new_oauth_user info isFirst =
     \<lparr>user_ID = '''', user_Email = oi_Email info, user_IsSuperadmin = isFirst, user_MaxProjects = (if isFirst then 100 else 5),
      user_Status = ''active'', user_Nickname = oi_Name info, user_Picture = oi_Picture info\<rparr>"

definition default_project :: "string \<Rightarrow> Project" where
  "default_project userID =
     \<lparr>proj_ID = '''', proj_Name = ''Default Project'', proj_CreatedBy = userID, proj_Status = ''active'', proj_BillingTags = []\<rparr>"

text \<open>No user yet: the first one becomes superadmin; None when neither the insert nor the second lookup finds a row.\<close>
definition create_oauth_user ::
  "login_world \<Rightarrow> OAuthUserInfo \<Rightarrow> accounts \<times> database \<Rightarrow> UserRow option \<times> accounts \<times> database" where
  "create_oauth_user w info = (\<lambda>(a, db).
     let isFirst = (lw_up w ''Exists'' \<and> \<not> UserExists a);
         connect = (\<lambda>user a. if lw_up w ''Connect2'' then CreateOAuthConnection (user_ID user) (oi_Provider info) (oi_ProviderID info) a else a)
     in case CreateUser (lw_up w ''CreateUser'') (lw_userID w) (new_oauth_user info isFirst) a of
          None \<Rightarrow>
            (case (if lw_up w ''Retry'' then GetUserByEmail (oi_Email info) a else None) of
               None \<Rightarrow> (None, a, db) | Some user \<Rightarrow> (Some user, connect user a, db))
        | Some a1 \<Rightarrow>
            (let user = (new_oauth_user info isFirst)\<lparr>user_ID := lw_userID w\<rparr> in
             case CreateProject (lw_up w ''CreateProject'') (lw_projectID w) (default_project (user_ID user)) a1 of
               None \<Rightarrow> (Some user, connect user a1, db)
             | Some a2 \<Rightarrow> (Some user, connect user a2, AssignFreePlan (lw_getPlan w) (lw_subscriptionID w) (lw_projectID w) (lw_now w) db)))"

definition find_oauth_user :: "(string \<Rightarrow> bool) \<Rightarrow> OAuthUserInfo \<Rightarrow> accounts \<Rightarrow> UserRow option" where
  "find_oauth_user up info a =
     (case (if up ''ByOAuth'' then GetUserByOAuth (oi_Provider info) (oi_ProviderID info) a else None) of
        Some user \<Rightarrow> Some user
      | None \<Rightarrow> if up ''ByEmail'' then GetUserByEmail (oi_Email info) a else None)"

definition oauth_user ::
  "login_world \<Rightarrow> OAuthUserInfo \<Rightarrow> accounts \<times> database \<Rightarrow> UserRow option \<times> accounts \<times> database" where
  "oauth_user w info = (\<lambda>(a, db).
     case find_oauth_user (lw_up w) info a of
       Some user \<Rightarrow> (case sync_oauth_user (lw_up w) info user a of (user', a') \<Rightarrow> (Some user', a', db))
     | None \<Rightarrow> create_oauth_user w info (a, db))"

text \<open>The state carries a return address after its first bar.\<close>
definition finish_callback :: "login_world \<Rightarrow> string \<Rightarrow> UserRow \<Rightarrow> auth_reply" where
  "finish_callback w state user =
     (if user_Status user \<noteq> ''active'' then AuthError 403 ''forbidden''
      else case split_two (CHR ''|'') state of
             Some (_, returnTo) \<Rightarrow>
               if isValidReturnTo (lw_url w) returnTo
               then AuthRedirect (appendQueryParam (lw_url w) returnTo ''auth_token''
                      (buildAuthToken (lw_newGCM w) (lw_rand w) (lw_key w) (lw_now w) (user_ID user)))
               else issueTokens w user
           | None \<Rightarrow> issueTokens w user)"

text \<open>\<^term>\<open>body\<close>: the code and the state, None when the body does not decode.\<close>
definition handleOAuthCallback ::
  "oauth_config \<Rightarrow> login_world \<Rightarrow> string \<Rightarrow> (string \<times> string) option \<Rightarrow> accounts \<times> database \<Rightarrow> auth_reply \<times> accounts \<times> database" where
  "handleOAuthCallback cfg w provider body = (\<lambda>(a, db).
     case body of None \<Rightarrow> (AuthError 400 ''bad_request'', a, db)
     | Some (code, state) \<Rightarrow>
         if code = '''' then (AuthError 400 ''bad_request'', a, db)
         else (case exchange_code cfg (lw_identity w) provider code of
            Inl (st, e) \<Rightarrow> (AuthError st e, a, db)
          | Inr info \<Rightarrow>
              if oi_Email info = '''' then (AuthError 400 ''bad_request'', a, db)
              else (case oauth_user w info (a, db) of
                 (None, a', db') \<Rightarrow> (AuthError 500 ''internal'', a', db')
               | (Some user, a', db') \<Rightarrow> (finish_callback w state user, a', db'))))"

section \<open>Starting a login, and the user rows (handle_auth.go)\<close>

text \<open>\<^term>\<open>authCodeURL\<close>: the OAuth library's URL for a provider, a state and a callback URL; \<^term>\<open>returnTo\<close> empty when absent.\<close>
definition handleOAuthRedirect ::
  "url_lib \<Rightarrow> oauth_config \<Rightarrow> bool \<Rightarrow> (string \<Rightarrow> string \<Rightarrow> string \<Rightarrow> string) \<Rightarrow> bytes \<Rightarrow> http_origin \<Rightarrow> string \<Rightarrow> string \<Rightarrow> auth_reply" where
  "handleOAuthRedirect ul cfg discovery authCodeURL stateBytes r returnTo provider =
     (let configured = (if provider = ''oidc'' then cfg_OIDC_RedirectURI cfg else '''');
          callbackURL = (if configured = '''' then scheme r @ ''://'' @ ho_Host r @ ''/auth/callback/'' @ provider else configured);
          state = hex_encode stateBytes @ (if returnTo \<noteq> '''' \<and> isValidReturnTo ul returnTo then ''|'' @ returnTo else '''');
          redirect = AuthRedirect (authCodeURL provider state callbackURL)
      in if provider = ''github'' then (if cfg_GitHub_ClientID cfg = '''' then AuthError 501 ''not_configured'' else redirect)
         else if provider = ''google'' then (if cfg_Google_ClientID cfg = '''' then AuthError 501 ''not_configured'' else redirect)
         else if provider = ''oidc'' then
           (if cfg_OIDC_IssuerURL cfg = '''' then AuthError 501 ''not_configured''
            else if \<not> discovery then AuthError 500 ''internal'' else redirect)
         else AuthError 400 ''bad_request'')"

definition handleAuthConfig :: "oauth_config \<Rightarrow> string list" where
  "handleAuthConfig cfg =
     (if cfg_GitHub_ClientID cfg \<noteq> '''' then [''github''] else []) @ (if cfg_Google_ClientID cfg \<noteq> '''' then [''google''] else [])
       @ (if cfg_OIDC_IssuerURL cfg \<noteq> '''' then [''oidc''] else [])"

definition handleGetUser :: "bool \<Rightarrow> string \<Rightarrow> accounts \<Rightarrow> UserRow response" where
  "handleGetUser up userID a =
     (case (if up then GetUserByID userID a else None) of None \<Rightarrow> Failure 404 ''not_found'' | Some u \<Rightarrow> Success 200 u)"

record user_patch =
  pu_nickname :: "string option"
  pu_status :: "string option"
  pu_superadmin :: "bool option"
  pu_max_projects :: "int option"

definition handleUpdateUser :: "bool \<Rightarrow> string \<Rightarrow> user_patch option \<Rightarrow> accounts \<Rightarrow> UserRow option response \<times> accounts" where
  "handleUpdateUser up userID body a =
     (case body of None \<Rightarrow> (Failure 400 ''bad_request'', a)
      | Some b \<Rightarrow>
          if pu_nickname b = None \<and> pu_status b = None \<and> pu_superadmin b = None \<and> pu_max_projects b = None
          then (Failure 400 ''bad_request'', a)
          else if \<not> up then (Failure 500 ''internal'', a)
          else (let a' = UpdateUser userID (\<lambda>u. u\<lparr>user_Nickname := the_or (user_Nickname u) (pu_nickname b),
                          user_Status := the_or (user_Status u) (pu_status b),
                          user_IsSuperadmin := the_or (user_IsSuperadmin u) (pu_superadmin b),
                          user_MaxProjects := the_or (user_MaxProjects u) (pu_max_projects b)\<rparr>) a
                in (Success 200 (GetUserByID userID a'), a')))"

section \<open>The session cookie (hydra_session.go)\<close>

record oauthSession =
  os_UserID :: string
  os_ExpiresAt :: go_time

text \<open>encoding/json on this struct.\<close>
record session_codec =
  sc_Marshal :: "oauthSession \<Rightarrow> string option"
  sc_Unmarshal :: "string \<Rightarrow> oauthSession option"

definition oauthSessionTTL :: int where "oauthSessionTTL = 86400000000000"

definition setOAuthSessionCookie :: "session_codec \<Rightarrow> login_world \<Rightarrow> string \<Rightarrow> string option" where
  "setOAuthSessionCookie codec w userID =
     (case sc_Marshal codec \<lparr>os_UserID = userID, os_ExpiresAt = lw_now w + oauthSessionTTL\<rparr> of None \<Rightarrow> None
      | Some plaintext \<Rightarrow>
          (case Encrypt (lw_newGCM w) (lw_rand w) (lw_key w) (string_bytes plaintext) of
             Inl _ \<Rightarrow> None | Inr ciphertext \<Rightarrow> Some (base64_encode ciphertext)))"

definition getOAuthSession :: "session_codec \<Rightarrow> login_world \<Rightarrow> string option \<Rightarrow> string option" where
  "getOAuthSession codec w cookie =
     (case cookie of None \<Rightarrow> None
      | Some value \<Rightarrow>
          (case base64_decode value of None \<Rightarrow> None
           | Some ciphertext \<Rightarrow>
               (case Decrypt (lw_newGCM w) (lw_key w) ciphertext of Inl _ \<Rightarrow> None
                | Inr plaintext \<Rightarrow>
                    (case sc_Unmarshal codec (bytes_string plaintext) of None \<Rightarrow> None
                     | Some sess \<Rightarrow> if lw_now w > os_ExpiresAt sess then None else Some (os_UserID sess)))))"

section \<open>The login page (hydra_login.go)\<close>

record consent_request =
  cq_Subject :: string
  cq_Scope :: "string list"
  cq_ClientID :: string
  cq_ClientName :: string

text \<open>The OAuth server's answers: the subject and the skip flag of a login request, and where an acceptance redirects to.\<close>
record hydra_world =
  hw_getLogin :: "string \<Rightarrow> (string \<times> bool) option"
  hw_acceptLogin :: "string \<Rightarrow> string \<Rightarrow> string option"
  hw_getConsent :: "string \<Rightarrow> consent_request option"
  hw_acceptConsent :: "string \<Rightarrow> string list \<Rightarrow> string \<times> string \<times> string \<Rightarrow> string option"

datatype login_reply = MissingChallenge | LoginErrorPage string string | LoginRedirect string | LoginPage string "(string \<times> string) list"

definition buildReturnToURL :: "http_origin \<Rightarrow> string \<Rightarrow> string" where
  "buildReturnToURL r challenge = baseURL r @ ''/oauth/login?'' @ Values_Encode (Values_Set ''login_challenge'' challenge [])"

definition buildProviders :: "oauth_config \<Rightarrow> http_origin \<Rightarrow> string \<Rightarrow> (string \<times> string) list" where
  "buildProviders cfg r returnTo =
     (let provider = (\<lambda>name label. (label, baseURL r @ ''/api/v1/auth/oauth/'' @ name @ ''/redirect?return_to='' @ QueryEscape returnTo)) in
      (if cfg_GitHub_ClientID cfg \<noteq> '''' then [provider ''github'' ''GitHub''] else [])
      @ (if cfg_Google_ClientID cfg \<noteq> '''' then [provider ''google'' ''Google''] else [])
      @ (if cfg_OIDC_IssuerURL cfg \<noteq> '''' then [provider ''oidc'' (coalesce (cfg_OIDC_DisplayName cfg) ''OIDC'')] else []))"

definition login_error :: "string \<Rightarrow> string \<Rightarrow> login_reply" where
  "login_error challenge message = LoginErrorPage message (''/oauth/login?login_challenge='' @ QueryEscape challenge)"

text \<open>The second component: the subject the OAuth server has been told.\<close>
definition accept_login :: "hydra_world \<Rightarrow> string \<Rightarrow> string \<Rightarrow> login_reply \<times> string option" where
  "accept_login hw challenge subject =
     (case hw_acceptLogin hw challenge subject of
        None \<Rightarrow> (login_error challenge ''Failed to complete login. Please try again.'', None)
      | Some redirect \<Rightarrow> (LoginRedirect redirect, Some subject))"

text \<open>The answer, the cookie it sets and the subject accepted. \<^term>\<open>token\<close> is the parameter auth_token, empty when absent.\<close>
definition LoginHandler_ServeHTTP ::
  "session_codec \<Rightarrow> hydra_world \<Rightarrow> oauth_config \<Rightarrow> login_world \<Rightarrow> http_origin \<Rightarrow> string \<Rightarrow> string \<Rightarrow> string option
   \<Rightarrow> login_reply \<times> string option \<times> string option" where
  "LoginHandler_ServeHTTP codec hw cfg w r challenge token cookie =
     (if challenge = '''' then (MissingChallenge, None, None)
      else case hw_getLogin hw challenge of
        None \<Rightarrow> (login_error challenge ''Failed to fetch login request. Please try again.'', None, None)
      | Some (subject, skip) \<Rightarrow>
          if skip then (case accept_login hw challenge subject of (reply, accepted) \<Rightarrow> (reply, None, accepted))
          else (case (if token = '''' then None else verifyAuthToken (lw_newGCM w) (lw_key w) (lw_now w) token) of
            Some userID \<Rightarrow>
              (case accept_login hw challenge userID of (reply, accepted) \<Rightarrow> (reply, setOAuthSessionCookie codec w userID, accepted))
          | None \<Rightarrow>
              (case getOAuthSession codec w cookie of
                 Some userID \<Rightarrow>
                   if userID \<noteq> '''' then (case accept_login hw challenge userID of (reply, accepted) \<Rightarrow> (reply, None, accepted))
                   else (LoginPage (buildReturnToURL r challenge) (buildProviders cfg r (buildReturnToURL r challenge)), None, None)
               | None \<Rightarrow> (LoginPage (buildReturnToURL r challenge) (buildProviders cfg r (buildReturnToURL r challenge)), None, None))))"

section \<open>The consent page (hydra_consent.go)\<close>

datatype consent_reply = ConsentBad | ConsentError string string | ConsentPage string "(Project \<times> string) list" | ConsentRedirect string

text \<open>\<^term>\<open>listing\<close>: the user's first hundred projects, None when the query fails; \<^term>\<open>up\<close>: the lookup of a project's member succeeds.\<close>
definition consent_handleGet ::
  "hydra_world \<Rightarrow> (string \<Rightarrow> Project list option) \<Rightarrow> (string \<Rightarrow> bool) \<Rightarrow> string \<Rightarrow> accounts \<Rightarrow> consent_reply" where
  "consent_handleGet hw listing up challenge a =
     (if challenge = '''' then ConsentBad
      else case hw_getConsent hw challenge of
        None \<Rightarrow> ConsentError '''' ''Failed to fetch consent request. Please try again.''
      | Some q \<Rightarrow>
          (case listing (cq_Subject q) of
             None \<Rightarrow> ConsentError (cq_ClientID q) ''Failed to load your projects. Please try again.''
           | Some projects \<Rightarrow>
               ConsentPage (cq_ClientID q)
                 (map (\<lambda>p. (p, case GetProjectMember (proj_ID p) (cq_Subject q) a of None \<Rightarrow> '''' | Some m \<Rightarrow> member_Role m))
                    (filter (\<lambda>p. up (proj_ID p)) projects))))"

text \<open>\<^term>\<open>form\<close>: challenge and project, None when it does not parse. The second component is what the OAuth server embeds
  in the token: project, its name, user.\<close>
definition consent_handlePost ::
  "hydra_world \<Rightarrow> (string \<Rightarrow> bool) \<Rightarrow> (string \<times> string) option \<Rightarrow> accounts \<Rightarrow> consent_reply \<times> (string \<times> string \<times> string) option \<times> accounts" where
  "consent_handlePost hw up form a =
     (case form of None \<Rightarrow> (ConsentBad, None, a)
      | Some (challenge, projectID) \<Rightarrow>
          if challenge = '''' \<or> projectID = '''' then (ConsentBad, None, a)
          else (case hw_getConsent hw challenge of
             None \<Rightarrow> (ConsentError '''' ''Failed to verify consent request. Please try again.'', None, a)
           | Some q \<Rightarrow>
               if \<not> up ''GetMember'' then (ConsentError (cq_ClientID q) ''Failed to verify project access. Please try again.'', None, a)
               else if GetProjectMember projectID (cq_Subject q) a = None
                 then (ConsentError (cq_ClientID q) ''You do not have access to the selected project.'', None, a)
               else if \<not> up ''GetProject'' then (ConsentError (cq_ClientID q) ''Failed to load project details. Please try again.'', None, a)
               else (case GetProjectByID projectID a of
                  None \<Rightarrow> (ConsentError (cq_ClientID q) ''Project not found.'', None, a)
                | Some p \<Rightarrow>
                    (case hw_acceptConsent hw challenge (cq_Scope q) (proj_ID p, proj_Name p, cq_Subject q) of
                       None \<Rightarrow> (ConsentError (cq_ClientID q) ''Failed to complete authorization. Please try again.'', None, a)
                     | Some redirect \<Rightarrow>
                         (ConsentRedirect redirect, Some (proj_ID p, proj_Name p, cq_Subject q),
                          if up ''Grant'' then a\<lparr>ac_grants := CreateOAuthGrant \<lparr>og_ID = 0, og_ProjectID = proj_ID p, og_UserID = cq_Subject q,
                              og_ClientID = cq_ClientID q, og_ClientName = cq_ClientName q, og_Scopes = cq_Scope q\<rparr> (ac_grants a)\<rparr>
                          else a)))))"

section \<open>The typed copies (api/admin/v1/auth.go, oauth_helpers.go)\<close>

definition v1_isValidReturnTo :: "url_lib \<Rightarrow> string \<Rightarrow> bool" where
  "v1_isValidReturnTo ul raw =
     (if has_prefix raw ''/oauth/login'' then True
      else case ul_Parse ul raw of None \<Rightarrow> False
        | Some u \<Rightarrow> List.member [''http'', ''https''] (url_Scheme u) \<and> has_prefix (url_Path u) ''/oauth/login'')"

definition v1_exchangeOAuthCode :: "oauth_config \<Rightarrow> identity_world \<Rightarrow> string \<Rightarrow> string \<Rightarrow> int \<times> string + OAuthUserInfo" where
  "v1_exchangeOAuthCode cfg w provider code =
     (if provider = ''github'' then
        (if cfg_GitHub_ClientID cfg = '''' then Inl (501, ''not_configured'')
         else case GitHub_ExchangeAndGetUser w code of None \<Rightarrow> Inl (401, ''unauthorized'') | Some info \<Rightarrow> Inr info)
      else if provider = ''google'' then
        (if cfg_Google_ClientID cfg = '''' then Inl (501, ''not_configured'')
         else case Google_ExchangeAndGetUser w code of None \<Rightarrow> Inl (401, ''unauthorized'') | Some info \<Rightarrow> Inr info)
      else if provider = ''oidc'' then
        (if cfg_OIDC_IssuerURL cfg = '''' then Inl (501, ''not_configured'')
         else if \<not> iw_discovery w then Inl (500, ''internal'')
         else case OIDC_ExchangeAndGetUser w code of None \<Rightarrow> Inl (401, ''unauthorized'') | Some info \<Rightarrow> Inr info)
      else Inl (400, ''bad_request''))"

text \<open>One function with an early return; \<^term>\<open>assign\<close> is the callback that assigns the free plan, None when none is configured.\<close>
definition v1_resolveOrCreateOAuthUser ::
  "login_world \<Rightarrow> (string \<Rightarrow> database \<Rightarrow> database) option \<Rightarrow> OAuthUserInfo \<Rightarrow> accounts \<times> database
   \<Rightarrow> ((int \<times> string) + UserRow) \<times> accounts \<times> database" where
  "v1_resolveOrCreateOAuthUser w assign info = (\<lambda>(a, db).
     let up = lw_up w;
         byOAuth = (if up ''ByOAuth'' then GetUserByOAuth (oi_Provider info) (oi_ProviderID info) a else None);
         existing = (if byOAuth \<noteq> None then byOAuth else if up ''ByEmail'' then GetUserByEmail (oi_Email info) a else None)
     in case existing of
       Some user \<Rightarrow>
         (let a1 = (if up ''Connect'' then CreateOAuthConnection (user_ID user) (oi_Provider info) (oi_ProviderID info) a else a);
              nickname = (if oi_Name info \<noteq> '''' \<and> oi_Name info \<noteq> user_Nickname user then Some (oi_Name info) else None);
              picture = (if oi_Picture info \<noteq> '''' \<and> oi_Picture info \<noteq> user_Picture user then Some (oi_Picture info) else None)
          in if nickname = None \<and> picture = None then (Inr user, a1, db)
             else (let a2 = (if up ''Update'' then UpdateUser (user_ID user)
                       (\<lambda>u. u\<lparr>user_Nickname := the_or (user_Nickname u) nickname, user_Picture := the_or (user_Picture u) picture\<rparr>) a1 else a1);
                       fresh = (if up ''Fresh'' then GetUserByID (user_ID user) a2 else None)
                   in (Inr (the_or user fresh), a2, db)))
     | None \<Rightarrow>
         (let isFirst = (up ''Exists'' \<and> \<not> UserExists a);
              user = \<lparr>user_ID = '''', user_Email = oi_Email info, user_IsSuperadmin = isFirst, user_MaxProjects = (if isFirst then 100 else 5),
                user_Status = ''active'', user_Nickname = oi_Name info, user_Picture = oi_Picture info\<rparr>;
              (result, a1, db1) =
                (case CreateUser (up ''CreateUser'') (lw_userID w) user a of
                   None \<Rightarrow> (if up ''Retry'' then GetUserByEmail (oi_Email info) a else None, a, db)
                 | Some a1 \<Rightarrow>
                     (case CreateProject (up ''CreateProject'') (lw_projectID w)
                             \<lparr>proj_ID = '''', proj_Name = ''Default Project'', proj_CreatedBy = lw_userID w, proj_Status = ''active'', proj_BillingTags = []\<rparr> a1 of
                        None \<Rightarrow> (Some (user\<lparr>user_ID := lw_userID w\<rparr>), a1, db)
                      | Some a2 \<Rightarrow> (Some (user\<lparr>user_ID := lw_userID w\<rparr>), a2, case assign of None \<Rightarrow> db | Some f \<Rightarrow> f (lw_projectID w) db)))
          in case result of None \<Rightarrow> (Inl (500, ''internal''), a1, db1)
             | Some user \<Rightarrow>
                 (Inr user, if up ''Connect2'' then CreateOAuthConnection (user_ID user) (oi_Provider info) (oi_ProviderID info) a1 else a1, db1)))"

definition v1_oauthCallback ::
  "oauth_config \<Rightarrow> login_world \<Rightarrow> (string \<Rightarrow> database \<Rightarrow> database) option \<Rightarrow> string \<Rightarrow> string \<Rightarrow> string \<Rightarrow> accounts \<times> database
   \<Rightarrow> auth_reply \<times> accounts \<times> database" where
  "v1_oauthCallback cfg w assign provider code state = (\<lambda>(a, db).
     case v1_exchangeOAuthCode cfg (lw_identity w) provider code of
       Inl (st, e) \<Rightarrow> (AuthError st e, a, db)
     | Inr info \<Rightarrow>
         if oi_Email info = '''' then (AuthError 400 ''bad_request'', a, db)
         else (case v1_resolveOrCreateOAuthUser w assign info (a, db) of
            (Inl (st, e), a', db') \<Rightarrow> (AuthError st e, a', db')
          | (Inr user, a', db') \<Rightarrow>
              (if user_Status user \<noteq> ''active'' then AuthError 403 ''forbidden''
               else (let tokens = (case GenerateTokenPair (lw_jwt w) (lw_manager w) (lw_now w) (user_ID user) (user_Email user) (user_IsSuperadmin user) of
                        None \<Rightarrow> AuthError 500 ''internal'' | Some (access, refresh) \<Rightarrow> AuthTokens access refresh user)
                     in case split_two (CHR ''|'') state of
                          None \<Rightarrow> tokens
                        | Some (_, returnTo) \<Rightarrow>
                            if v1_isValidReturnTo (lw_url w) returnTo
                            then AuthRedirect (appendQueryParam (lw_url w) returnTo ''auth_token''
                                   (buildAuthToken (lw_newGCM w) (lw_rand w) (lw_key w) (lw_now w) (user_ID user)))
                            else tokens), a', db')))"

definition v1_refresh :: "login_world \<Rightarrow> string \<Rightarrow> accounts \<Rightarrow> auth_reply" where
  "v1_refresh w token a =
     (case ValidateToken (lw_jwt w) (lw_manager w) (lw_now w) token of
        None \<Rightarrow> AuthError 401 ''unauthorized''
      | Some claims \<Rightarrow>
          if cl_TokenType claims \<noteq> ''refresh'' then AuthError 401 ''unauthorized''
          else (case (if lw_up w ''Get'' then GetUserByID (cl_UserID claims) a else None) of
             None \<Rightarrow> AuthError 401 ''unauthorized''
           | Some user \<Rightarrow>
               if user_Status user \<noteq> ''active'' then AuthError 401 ''unauthorized''
               else (case GenerateTokenPair (lw_jwt w) (lw_manager w) (lw_now w) (user_ID user) (user_Email user) (user_IsSuperadmin user) of
                       None \<Rightarrow> AuthError 500 ''internal'' | Some (access, refresh) \<Rightarrow> AuthTokens access refresh user)))"

section \<open>The copies agree\<close>

lemma v1_exchange_agrees: "v1_exchangeOAuthCode cfg w provider code = exchange_code cfg w provider code"
  by (simp add: v1_exchangeOAuthCode_def exchange_code_def Let_def)

lemma v1_return_agrees: "v1_isValidReturnTo ul raw = isValidReturnTo ul raw"
  by (auto simp: v1_isValidReturnTo_def isValidReturnTo_def split: option.splits)

definition assign_free_plan :: "login_world \<Rightarrow> string \<Rightarrow> database \<Rightarrow> database" where
  "assign_free_plan w projectID db = AssignFreePlan (lw_getPlan w) (lw_subscriptionID w) projectID (lw_now w) db"

lemma find_user_v1:
  "find_oauth_user up info a =
     (let byOAuth = (if up ''ByOAuth'' then GetUserByOAuth (oi_Provider info) (oi_ProviderID info) a else None)
      in if byOAuth \<noteq> None then byOAuth else if up ''ByEmail'' then GetUserByEmail (oi_Email info) a else None)"
  by (auto simp: find_oauth_user_def Let_def split: option.splits)

lemma the_or_case: "the_or d x = (case x of Some y \<Rightarrow> y | None \<Rightarrow> d)"
  by (cases x) simp_all

lemma v1_user_agrees:
  "v1_resolveOrCreateOAuthUser w (Some (assign_free_plan w)) info s =
     (case oauth_user w info s of (None, r) \<Rightarrow> (Inl (500, ''internal''), r) | (Some user, r) \<Rightarrow> (Inr user, r))"
proof (cases s)
  case (Pair a db)
  let ?q = "default_project (lw_userID w)" and ?n = "new_oauth_user info (lw_up w ''Exists'' \<and> \<not> UserExists a)"
  show ?thesis
  proof (cases "find_oauth_user (lw_up w) info a")
    case (Some user)
    note found = Some[unfolded find_user_v1 Let_def]
    define n where "n \<longleftrightarrow> oi_Name info \<noteq> [] \<and> oi_Name info \<noteq> user_Nickname user"
    define p where "p \<longleftrightarrow> oi_Picture info \<noteq> [] \<and> oi_Picture info \<noteq> user_Picture user"
    show ?thesis using found Some
      by (cases n; cases p) (simp_all add: Pair v1_resolveOrCreateOAuthUser_def oauth_user_def sync_oauth_user_def Let_def the_or_case
          flip: n_def p_def)
  next
    case None
    note found = None[unfolded find_user_v1 Let_def]
    show ?thesis
    proof (cases "CreateUser (lw_up w ''CreateUser'') (lw_userID w) ?n a")
      case c: None
      then show ?thesis using found None
        by (cases "if lw_up w ''Retry'' then GetUserByEmail (oi_Email info) a else None")
          (simp_all add: Pair v1_resolveOrCreateOAuthUser_def oauth_user_def create_oauth_user_def new_oauth_user_def Let_def)
    next
      case c: (Some a1)
      then show ?thesis using found None
        by (cases "CreateProject (lw_up w ''CreateProject'') (lw_projectID w) ?q a1")
          (simp_all add: Pair v1_resolveOrCreateOAuthUser_def oauth_user_def create_oauth_user_def new_oauth_user_def default_project_def assign_free_plan_def Let_def)
    qed
  qed
qed

lemma v1_finish:
  "(if user_Status user \<noteq> ''active'' then AuthError 403 ''forbidden''
    else (let tokens = (case GenerateTokenPair (lw_jwt w) (lw_manager w) (lw_now w) (user_ID user) (user_Email user) (user_IsSuperadmin user) of
             None \<Rightarrow> AuthError 500 ''internal'' | Some (access, refresh) \<Rightarrow> AuthTokens access refresh user)
          in case split_two (CHR ''|'') state of
               None \<Rightarrow> tokens
             | Some (_, returnTo) \<Rightarrow>
                 if v1_isValidReturnTo (lw_url w) returnTo
                 then AuthRedirect (appendQueryParam (lw_url w) returnTo ''auth_token''
                        (buildAuthToken (lw_newGCM w) (lw_rand w) (lw_key w) (lw_now w) (user_ID user)))
                 else tokens)) = finish_callback w state user"
  by (simp add: finish_callback_def issueTokens_def v1_return_agrees Let_def split: option.split)

text \<open>C34: the typed endpoints that replace the login handlers answer as they do, with the same effect on the rows: the
  callback of the three providers, on every branch, and the refresh of a token. The typed framework refuses an empty
  code or token before the handler runs.\<close>
theorem v1_login_agrees:
  assumes "code \<noteq> ''''" "token \<noteq> ''''"
  shows "v1_oauthCallback cfg w (Some (assign_free_plan w)) provider code state s = handleOAuthCallback cfg w provider (Some (code, state)) s
    \<and> v1_refresh w token a = handleRefresh w (Some token) a"
proof
  show "v1_oauthCallback cfg w (Some (assign_free_plan w)) provider code state s = handleOAuthCallback cfg w provider (Some (code, state)) s"
  proof (cases "v1_exchangeOAuthCode cfg (lw_identity w) provider code")
    case (Inl e) then show ?thesis using assms(1)
      by (cases s; cases e) (simp add: v1_oauthCallback_def handleOAuthCallback_def flip: v1_exchange_agrees)
  next
    case (Inr info)
    obtain user a' db' where u: "oauth_user w info s = (user, a', db')" by (cases "oauth_user w info s") auto
    show ?thesis using assms(1) Inr u
      by (cases s; cases user) (simp_all add: v1_oauthCallback_def handleOAuthCallback_def v1_user_agrees v1_finish flip: v1_exchange_agrees)
  qed
  show "v1_refresh w token a = handleRefresh w (Some token) a"
    using assms(2) by (auto simp: v1_refresh_def handleRefresh_def issueTokens_def split: option.split)
qed

section \<open>Token pairs\<close>

text \<open>The JWT library: a token it signed parses, under an algorithm allowed, to the claims signed until they expire.\<close>
definition jwt_correct :: "jwt_lib \<Rightarrow> bool" where
  "jwt_correct lib \<longleftrightarrow> (\<forall>secret c token keyOf methods now.
     jl_sign lib secret c = Some token \<longrightarrow> ''HS256'' \<in> set methods \<longrightarrow> keyOf ''HS256'' = Some secret \<longrightarrow>
       jl_parse lib keyOf methods now token = (if now < cl_ExpiresAt c then Some c else None))"

lemma pair_claims:
  assumes "jwt_correct lib" "GenerateTokenPair lib j t0 i email super = Some (access, refresh)"
  shows "ValidateToken lib j now access = (if now < NewNumericDate (t0 + jm_accessTokenTTL j)
            then Some \<lparr>cl_UserID = i, cl_Email = email, cl_IsSuperadmin = super, cl_TokenType = ''access'',
              cl_ExpiresAt = NewNumericDate (t0 + jm_accessTokenTTL j), cl_IssuedAt = NewNumericDate t0, cl_Subject = i\<rparr> else None)"
    and "ValidateToken lib j now refresh = (if now < NewNumericDate (t0 + jm_refreshTokenTTL j)
            then Some \<lparr>cl_UserID = i, cl_Email = email, cl_IsSuperadmin = super, cl_TokenType = ''refresh'',
              cl_ExpiresAt = NewNumericDate (t0 + jm_refreshTokenTTL j), cl_IssuedAt = NewNumericDate t0, cl_Subject = i\<rparr> else None)"
  using assms unfolding jwt_correct_def GenerateTokenPair_def ValidateToken_def
  by (auto simp: Let_def split: option.splits)

text \<open>The two tokens of a pair are not interchangeable, and each works until its own expiry and no longer, for as long as
  the account is active: the access token authenticates management requests as its user and refreshes nothing, the
  refresh token yields a new pair for the same user and authenticates nothing.\<close>
lemma token_pair_semantics:
  assumes "jwt_correct (lw_jwt w)"
    and "GenerateTokenPair (lw_jwt w) (lw_manager w) t0 i email super = Some (access, refresh)"
    and "access \<noteq> ''''" "refresh \<noteq> ''''" "lw_up w ''Get''"
  shows "(JWTAuthMiddleware w access a = Inr user \<longleftrightarrow>
            lw_now w < NewNumericDate (t0 + jm_accessTokenTTL (lw_manager w)) \<and> GetUserByID i a = Some user \<and> user_Status user = ''active'')
    \<and> ((\<exists>x y. handleRefresh w (Some refresh) a = AuthTokens x y user) \<longleftrightarrow>
            lw_now w < NewNumericDate (t0 + jm_refreshTokenTTL (lw_manager w)) \<and> GetUserByID i a = Some user \<and> user_Status user = ''active''
            \<and> GenerateTokenPair (lw_jwt w) (lw_manager w) (lw_now w) (user_ID user) (user_Email user) (user_IsSuperadmin user) \<noteq> None)
    \<and> JWTAuthMiddleware w refresh a = Inl (401, ''unauthorized'')
    \<and> handleRefresh w (Some access) a = AuthError 401 ''unauthorized''"
  using assms(3-5) pair_claims[OF assms(1,2), of "lw_now w"]
  by (intro conjI) (auto simp: JWTAuthMiddleware_def handleRefresh_def issueTokens_def split: option.splits)

section \<open>Signed and sealed\<close>

text \<open>Ids are generated by the database and hold no bar.\<close>
definition plain_id :: "string \<Rightarrow> bool" where
  "plain_id i \<longleftrightarrow> CHR ''|'' \<notin> set i"

text \<open>encoding/json on the session: what it writes reads back, holds no bar beyond the id's, and differs from an
  authentication token's text, which is no JSON object.\<close>
definition codec_correct :: "session_codec \<Rightarrow> bool" where
  "codec_correct codec \<longleftrightarrow>
     (\<forall>sess text. plain_id (os_UserID sess) \<longrightarrow> sc_Marshal codec sess = Some text \<longrightarrow>
        sc_Unmarshal codec text = Some sess \<and> CHR ''|'' \<notin> set text)
     \<and> (\<forall>i n. plain_id i \<longrightarrow> sc_Unmarshal codec (i @ ''|'' @ itoa n) = None)"

definition token_text :: "string \<Rightarrow> go_time \<Rightarrow> string" where
  "token_text userID t = userID @ ''|'' @ itoa (unix t)"

definition session_of :: "string \<Rightarrow> go_time \<Rightarrow> oauthSession" where
  "session_of userID t = \<lparr>os_UserID = userID, os_ExpiresAt = t + oauthSessionTTL\<rparr>"

definition clock_ok :: "go_time \<Rightarrow> bool" where
  "clock_ok t \<longleftrightarrow> 0 \<le> t \<and> is_i64 (unix t)"

lemma split_two_absent: "sep \<notin> set s \<Longrightarrow> split_two sep s = None"
proof -
  assume "sep \<notin> set s"
  then have d: "dropWhile (\<lambda>c. c \<noteq> sep) s = []" by auto
  show ?thesis unfolding split_two_def d by simp
qed

lemma unix_age: "clock_ok t \<Longrightarrow> clock_ok u \<Longrightarrow> (i64 (unix u - unix t) > 300) = (unix u - unix t > 300)"
proof -
  assume "clock_ok t" "clock_ok u"
  then have "0 \<le> unix t" "0 \<le> unix u" "unix u \<le> int64_max" "unix t \<le> int64_max" by (auto simp: clock_ok_def unix_def is_i64_def)
  then have "is_i64 (unix u - unix t)" by (simp add: is_i64_def int64_min_def int64_max_def)
  then show ?thesis by (simp add: i64_id)
qed

lemma unix_bound: "unix u - unix t \<le> 300 \<Longrightarrow> u < t + 301000000000"
  by (simp add: unix_def)

lemma token_text_opens:
  assumes "plain_id i" "clock_ok t" "clock_ok now"
    and "base64_raw_decode token = Some c" "Decrypt newGCM key c = Inr pt" "bytes_string pt = token_text i t"
  shows "verifyAuthToken newGCM key now token = (if unix now - unix t \<le> 300 then Some i else None)"
proof -
  have "split_two (CHR ''|'') (token_text i t) = Some (i, itoa (unix t))" using assms(1)
    unfolding token_text_def plain_id_def by (simp, subst split_two_append) auto
  then show ?thesis using assms(2-) ParseInt_itoa[of "unix t"] unix_age[OF assms(2,3)]
    by (auto simp: verifyAuthToken_def clock_ok_def)
qed

lemma session_text_is_no_token:
  assumes "codec_correct codec" "plain_id (os_UserID sess)" "sc_Marshal codec sess = Some text"
    and "base64_raw_decode token = Some c" "Decrypt newGCM key c = Inr pt" "bytes_string pt = text"
  shows "verifyAuthToken newGCM key now token = None"
proof -
  have "CHR ''|'' \<notin> set text" using assms(1-3) by (auto simp: codec_correct_def)
  then show ?thesis using assms(4-) by (simp add: verifyAuthToken_def split_two_absent)
qed

lemma session_text_opens:
  assumes "codec_correct codec" "plain_id (os_UserID sess)" "sc_Marshal codec sess = Some text"
    and "base64_decode value = Some c" "Decrypt (lw_newGCM w) (lw_key w) c = Inr pt" "bytes_string pt = text"
  shows "getOAuthSession codec w (Some value) = (if lw_now w > os_ExpiresAt sess then None else Some (os_UserID sess))"
proof -
  have "sc_Unmarshal codec text = Some sess" using assms(1-3) by (auto simp: codec_correct_def)
  then show ?thesis using assms(4-) by (simp add: getOAuthSession_def)
qed

lemma token_text_is_no_session:
  assumes "codec_correct codec" "plain_id i"
    and "base64_decode value = Some c" "Decrypt (lw_newGCM w) (lw_key w) c = Inr pt" "bytes_string pt = token_text i t"
  shows "getOAuthSession codec w (Some value) = None"
  using assms by (auto simp: codec_correct_def getOAuthSession_def token_text_def)

section \<open>Which users the callback signs in\<close>

definition user_ids :: "accounts \<Rightarrow> string set" where
  "user_ids a = user_ID ` set (ac_users a)"

lemma user_ids_update: "(\<And>u. user_ID (f u) = user_ID u) \<Longrightarrow> user_ids (UpdateUser i f a) = user_ids a"
proof -
  assume "\<And>u. user_ID (f u) = user_ID u"
  then have "map user_ID (ac_users (UpdateUser i f a)) = map user_ID (ac_users a)" by (simp add: UpdateUser_def)
  then show ?thesis unfolding user_ids_def by (metis set_map)
qed

lemma user_ids_statements:
  "user_ids (CreateOAuthConnection i p q a) = user_ids a"
  "CreateUser ok newID u a = Some a' \<Longrightarrow> user_ids a' = insert newID (user_ids a)"
  "CreateProject ok newID project a = Some a' \<Longrightarrow> user_ids a' = user_ids a"
  by (auto simp: user_ids_def CreateOAuthConnection_def CreateUser_def CreateProject_def split: if_splits)

lemma found_user_ids:
  "GetUserByID i a = Some u \<Longrightarrow> user_ID u \<in> user_ids a" "GetUserByEmail e a = Some u \<Longrightarrow> user_ID u \<in> user_ids a"
  "GetUserByOAuth p q a = Some u \<Longrightarrow> user_ID u \<in> user_ids a"
  by (auto simp: GetUserByID_def GetUserByEmail_def GetUserByOAuth_def user_ids_def find_Some_iff split: option.splits)

lemma oauth_user_ids:
  assumes "oauth_user w info (a, db) = (Some user, a', db')"
  shows "user_ids a' \<subseteq> insert (lw_userID w) (user_ids a)" "user_ID user \<in> insert (lw_userID w) (user_ids a)"
proof -
  have r: "user_ids (UpdateUser i (\<lambda>u. u\<lparr>user_Nickname := f u, user_Picture := g u\<rparr>) b) = user_ids b" for i f g b
    by (rule user_ids_update) simp
  have "user_ids a' \<subseteq> insert (lw_userID w) (user_ids a) \<and> user_ID user \<in> insert (lw_userID w) (user_ids a)"
  proof (cases "find_oauth_user (lw_up w) info a")
    case (Some u)
    then have "user_ID u \<in> user_ids a" by (auto simp: find_oauth_user_def dest: found_user_ids split: option.splits if_splits)
    then show ?thesis using assms Some
      by (auto simp: oauth_user_def sync_oauth_user_def Let_def r user_ids_statements split: if_splits option.splits dest: found_user_ids)
  next
    case None
    show ?thesis
    proof (cases "CreateUser (lw_up w ''CreateUser'') (lw_userID w) (new_oauth_user info (lw_up w ''Exists'' \<and> \<not> UserExists a)) a")
      case c: None
      then show ?thesis using assms None
        by (auto simp: oauth_user_def create_oauth_user_def Let_def user_ids_statements split: if_splits option.splits dest: found_user_ids)
    next
      case c: (Some a1)
      then show ?thesis using assms None user_ids_statements(2)[OF c]
        by (auto simp: oauth_user_def create_oauth_user_def Let_def user_ids_statements split: if_splits option.splits dest: user_ids_statements(3))
    qed
  qed
  then show "user_ids a' \<subseteq> insert (lw_userID w) (user_ids a)" "user_ID user \<in> insert (lw_userID w) (user_ids a)" by blast+
qed

section \<open>Any sequence of logins\<close>

text \<open>The last three components are ghosts: the texts sealed under the key and handed out, the callbacks that signed a
  user in, and the acceptances of the login page, with whether the OAuth server asked to skip the page.\<close>
record login_system =
  ls_accounts :: accounts
  ls_db :: database
  ls_now :: go_time
  ls_sealed :: "string list"
  ls_logins :: "(UserRow \<times> go_time) list"
  ls_accepted :: "(string \<times> go_time \<times> bool) list"

text \<open>A client can present any string, but one that opens under the key holds a text that was sealed and handed out; other
  ciphertexts under this key stay in the database.\<close>
definition presentable :: "(bytes \<Rightarrow> aead option) \<Rightarrow> bytes \<Rightarrow> string list \<Rightarrow> bytes option \<Rightarrow> bool" where
  "presentable newGCM key sealed presented \<longleftrightarrow>
     (\<forall>c pt. presented = Some c \<longrightarrow> Decrypt newGCM key c = Inr pt \<longrightarrow> bytes_string pt \<in> set sealed)"

definition sealed_session :: "session_codec \<Rightarrow> string option \<Rightarrow> go_time \<Rightarrow> string list" where
  "sealed_session codec userID now =
     (case userID of None \<Rightarrow> []
      | Some i \<Rightarrow> (case sc_Marshal codec (session_of i now) of None \<Rightarrow> [] | Some text \<Rightarrow> [text]))"

definition skip_flag :: "hydra_world \<Rightarrow> string \<Rightarrow> bool" where
  "skip_flag hw challenge = (case hw_getLogin hw challenge of Some (_, skip) \<Rightarrow> skip | None \<Rightarrow> False)"

inductive login_step :: "session_codec \<Rightarrow> (bytes \<Rightarrow> aead option) \<Rightarrow> bytes \<Rightarrow> login_system \<Rightarrow> login_system \<Rightarrow> bool" for codec newGCM key where
  callback: "handleOAuthCallback cfg w provider (Some (code, state)) (ls_accounts s, ls_db s) = (AuthRedirect location, a', db') \<Longrightarrow>
     exchange_code cfg (lw_identity w) provider code = Inr info \<Longrightarrow>
     oauth_user w info (ls_accounts s, ls_db s) = (Some user, a', db') \<Longrightarrow> plain_id (lw_userID w) \<Longrightarrow> lw_now w = ls_now s \<Longrightarrow>
     login_step codec newGCM key s (s\<lparr>ls_accounts := a', ls_db := db', ls_sealed := token_text (user_ID user) (ls_now s) # ls_sealed s,
       ls_logins := (user, ls_now s) # ls_logins s\<rparr>)"
| visit: "LoginHandler_ServeHTTP codec hw cfg w r challenge token cookie = (reply, set_cookie, accepted) \<Longrightarrow>
     lw_newGCM w = newGCM \<Longrightarrow> lw_key w = key \<Longrightarrow> lw_now w = ls_now s \<Longrightarrow>
     presentable newGCM key (ls_sealed s) (base64_raw_decode token) \<Longrightarrow>
     presentable newGCM key (ls_sealed s) (Option.bind cookie base64_decode) \<Longrightarrow>
     login_step codec newGCM key s
       (s\<lparr>ls_sealed := sealed_session codec (verifyAuthToken newGCM key (ls_now s) token) (ls_now s) @ ls_sealed s,
          ls_accepted := (case accepted of None \<Rightarrow> [] | Some i \<Rightarrow> [(i, ls_now s, skip_flag hw challenge)]) @ ls_accepted s\<rparr>)"
| tick: "ls_now s \<le> t \<Longrightarrow> clock_ok t \<Longrightarrow> login_step codec newGCM key s (s\<lparr>ls_now := t\<rparr>)"
| management: "\<forall>i \<in> user_ids a'. plain_id i \<Longrightarrow> login_step codec newGCM key s (s\<lparr>ls_accounts := a', ls_db := db'\<rparr>)"

definition login_initial :: "accounts \<Rightarrow> database \<Rightarrow> login_system" where
  "login_initial a db = \<lparr>ls_accounts = a, ls_db = db, ls_now = 0, ls_sealed = [], ls_logins = [], ls_accepted = []\<rparr>"

definition token_sealed :: "login_system \<Rightarrow> string \<Rightarrow> bool" where
  "token_sealed s text \<longleftrightarrow> (\<exists>(user, t) \<in> set (ls_logins s). text = token_text (user_ID user) t)"

definition session_sealed :: "session_codec \<Rightarrow> login_system \<Rightarrow> string \<Rightarrow> bool" where
  "session_sealed codec s text \<longleftrightarrow>
     (\<exists>(user, t) \<in> set (ls_logins s). \<exists>t1. t \<le> t1 \<and> t1 < t + 301000000000 \<and> t1 \<le> ls_now s \<and> sc_Marshal codec (session_of (user_ID user) t1) = Some text)"

definition signed_in :: "login_system \<Rightarrow> string \<Rightarrow> go_time \<Rightarrow> bool" where
  "signed_in s i t \<longleftrightarrow> (\<exists>(user, t0) \<in> set (ls_logins s). user_ID user = i \<and> t0 \<le> t \<and> t < t0 + 301000000000 + oauthSessionTTL)"

definition login_inv :: "session_codec \<Rightarrow> login_system \<Rightarrow> bool" where
  "login_inv codec s \<longleftrightarrow> clock_ok (ls_now s) \<and> (\<forall>i \<in> user_ids (ls_accounts s). plain_id i)
     \<and> (\<forall>(user, t) \<in> set (ls_logins s). t \<le> ls_now s \<and> clock_ok t \<and> plain_id (user_ID user) \<and> user_Status user = ''active'')
     \<and> (\<forall>text \<in> set (ls_sealed s). token_sealed s text \<or> session_sealed codec s text)
     \<and> (\<forall>(i, t, skip) \<in> set (ls_accepted s). skip \<or> signed_in s i t)"

lemma sealed_mono:
  assumes "set (ls_logins s) \<subseteq> set (ls_logins s')" "ls_now s \<le> ls_now s'"
  shows "token_sealed s text \<Longrightarrow> token_sealed s' text" "session_sealed codec s text \<Longrightarrow> session_sealed codec s' text"
    "signed_in s i t \<Longrightarrow> signed_in s' i t"
proof -
  show "token_sealed s text \<Longrightarrow> token_sealed s' text" using assms(1) unfolding token_sealed_def by fast
  show "signed_in s i t \<Longrightarrow> signed_in s' i t" using assms(1) unfolding signed_in_def by fast
  assume "session_sealed codec s text"
  then obtain user t t1 where "(user, t) \<in> set (ls_logins s)" "t \<le> t1" "t1 < t + 301000000000" "t1 \<le> ls_now s"
    "sc_Marshal codec (session_of (user_ID user) t1) = Some text" by (auto simp: session_sealed_def)
  moreover have "t1 \<le> ls_now s'" using calculation(4) assms(2) by simp
  ultimately show "session_sealed codec s' text" using assms(1) unfolding session_sealed_def by fast
qed

lemma accepted_cases:
  assumes "LoginHandler_ServeHTTP codec hw cfg w r challenge token cookie = (reply, set_cookie, Some i)"
  shows "skip_flag hw challenge \<or> verifyAuthToken (lw_newGCM w) (lw_key w) (lw_now w) token = Some i \<or> getOAuthSession codec w cookie = Some i"
  using assms by (auto simp: LoginHandler_ServeHTTP_def accept_login_def skip_flag_def split: if_splits option.splits)

lemma verified_token_sound:
  assumes "codec_correct codec" "login_inv codec s"
    and "presentable newGCM key (ls_sealed s) (base64_raw_decode token)"
    and "verifyAuthToken newGCM key (ls_now s) token = Some i"
  shows "\<exists>(user, t) \<in> set (ls_logins s). user_ID user = i \<and> t \<le> ls_now s \<and> ls_now s < t + 301000000000"
proof -
  obtain c pt where c: "base64_raw_decode token = Some c" "Decrypt newGCM key c = Inr pt"
    using assms(4) by (auto simp: verifyAuthToken_def split: option.splits sum.splits)
  then have "bytes_string pt \<in> set (ls_sealed s)" using assms(3) by (simp add: presentable_def)
  then consider (t) "token_sealed s (bytes_string pt)" | (s) "session_sealed codec s (bytes_string pt)"
    using assms(2) unfolding login_inv_def by blast
  then show ?thesis
  proof cases
    case t
    then obtain user t where u: "(user, t) \<in> set (ls_logins s)" "bytes_string pt = token_text (user_ID user) t" by (auto simp: token_sealed_def)
    then have ok: "plain_id (user_ID user)" "clock_ok t" "clock_ok (ls_now s)" "t \<le> ls_now s" using assms(2) by (auto simp: login_inv_def)
    then have "unix (ls_now s) - unix t \<le> 300" "user_ID user = i"
      using assms(4) token_text_opens[OF ok(1-3) c u(2)] by (auto split: if_splits)
    then show ?thesis using u(1) ok(4) unix_bound by blast
  next
    case s
    then obtain user t t1 where u: "(user, t) \<in> set (ls_logins s)" "sc_Marshal codec (session_of (user_ID user) t1) = Some (bytes_string pt)"
      by (auto simp: session_sealed_def)
    then have "plain_id (os_UserID (session_of (user_ID user) t1))" using assms(2) by (auto simp: login_inv_def session_of_def)
    from session_text_is_no_token[OF assms(1) this u(2) c refl] show ?thesis using assms(4) by simp
  qed
qed

lemma session_sound:
  assumes "codec_correct codec" "login_inv codec s" "lw_now w = ls_now s"
    and "presentable (lw_newGCM w) (lw_key w) (ls_sealed s) (Option.bind cookie base64_decode)"
    and "getOAuthSession codec w cookie = Some i"
  shows "signed_in s i (ls_now s)"
proof -
  obtain v c pt where c: "cookie = Some v" "base64_decode v = Some c" "Decrypt (lw_newGCM w) (lw_key w) c = Inr pt"
    using assms(5) by (auto simp: getOAuthSession_def split: option.splits sum.splits)
  then have "bytes_string pt \<in> set (ls_sealed s)" using assms(4) by (simp add: presentable_def)
  then consider (t) "token_sealed s (bytes_string pt)" | (s) "session_sealed codec s (bytes_string pt)"
    using assms(2) unfolding login_inv_def by blast
  then show ?thesis
  proof cases
    case t
    then obtain user t where u: "(user, t) \<in> set (ls_logins s)" "bytes_string pt = token_text (user_ID user) t" by (auto simp: token_sealed_def)
    then have "plain_id (user_ID user)" using assms(2) by (auto simp: login_inv_def)
    from token_text_is_no_session[OF assms(1) this c(2,3) u(2)] show ?thesis using assms(5) c(1) by simp
  next
    case s
    then obtain user t t1 where u: "(user, t) \<in> set (ls_logins s)" "t \<le> t1" "t1 < t + 301000000000" "t1 \<le> ls_now s"
      "sc_Marshal codec (session_of (user_ID user) t1) = Some (bytes_string pt)" by (auto simp: session_sealed_def)
    then have p: "plain_id (os_UserID (session_of (user_ID user) t1))" using assms(2) by (auto simp: login_inv_def session_of_def)
    have "ls_now s \<le> t1 + oauthSessionTTL" "user_ID user = i"
      using assms(3,5) c(1) session_text_opens[OF assms(1) p u(5) c(2,3) refl] by (auto simp: session_of_def split: if_splits)
    moreover from this u(2-4) have "t \<le> ls_now s" "ls_now s < t + 301000000000 + oauthSessionTTL" by linarith+
    ultimately show ?thesis using u(1) unfolding signed_in_def by blast
  qed
qed

lemma login_inv_step:
  assumes "codec_correct codec" "login_inv codec s" "login_step codec newGCM key s s'"
  shows "login_inv codec s'"
  using assms(3)
proof cases
  case (callback cfg w provider code state location a' db' info user)
  let ?s = "s\<lparr>ls_accounts := a', ls_db := db', ls_sealed := token_text (user_ID user) (ls_now s) # ls_sealed s,
       ls_logins := (user, ls_now s) # ls_logins s\<rparr>"
  have ids: "\<forall>i \<in> user_ids a'. plain_id i" "plain_id (user_ID user)"
    using assms(2) callback(5) oauth_user_ids[OF callback(4)] by (auto simp: login_inv_def)
  have "user_Status user = ''active''" using callback(2-4)
    by (auto simp: handleOAuthCallback_def finish_callback_def issueTokens_def split: if_splits option.splits)
  moreover have "token_sealed ?s (token_text (user_ID user) (ls_now s))" by (auto simp: token_sealed_def)
  moreover have "set (ls_logins s) \<subseteq> set (ls_logins ?s)" "ls_now s \<le> ls_now ?s" by auto
  note m = sealed_mono[OF this]
  ultimately show ?thesis using assms(2) ids m unfolding callback(1) login_inv_def by auto
next
  case (visit hw cfg w r challenge token cookie reply set_cookie accepted)
  let ?s = "s\<lparr>ls_sealed := sealed_session codec (verifyAuthToken newGCM key (ls_now s) token) (ls_now s) @ ls_sealed s,
          ls_accepted := (case accepted of None \<Rightarrow> [] | Some i \<Rightarrow> [(i, ls_now s, skip_flag hw challenge)]) @ ls_accepted s\<rparr>"
  have m: "token_sealed ?s = token_sealed s" "session_sealed codec ?s = session_sealed codec s" "signed_in ?s = signed_in s"
    by (simp_all add: token_sealed_def session_sealed_def signed_in_def fun_eq_iff)
  have tok: "session_sealed codec s x" if h: "x \<in> set (sealed_session codec (verifyAuthToken newGCM key (ls_now s) token) (ls_now s))" for x
  proof -
    obtain i where i: "verifyAuthToken newGCM key (ls_now s) token = Some i" "sc_Marshal codec (session_of i (ls_now s)) = Some x"
      using h by (cases "verifyAuthToken newGCM key (ls_now s) token"; cases "sc_Marshal codec (session_of (the (verifyAuthToken newGCM key (ls_now s) token)) (ls_now s))")
        (simp_all add: sealed_session_def)
    with verified_token_sound[OF assms(1,2) visit(6) i(1)] show ?thesis unfolding session_sealed_def by fastforce
  qed
  have acc: "skip_flag hw challenge \<or> signed_in s i (ls_now s)" if "accepted = Some i" for i
  proof -
    from that have "skip_flag hw challenge \<or> verifyAuthToken newGCM key (ls_now s) token = Some i \<or> getOAuthSession codec w cookie = Some i"
      using accepted_cases visit(2-5) by metis
    moreover have "verifyAuthToken newGCM key (ls_now s) token = Some i \<Longrightarrow> signed_in s i (ls_now s)"
      using verified_token_sound[OF assms(1,2) visit(6)] unfolding signed_in_def oauthSessionTTL_def by fastforce
    ultimately show ?thesis using session_sound[OF assms(1,2) visit(5)] visit(3,4,7) by blast
  qed
  show ?thesis using assms(2) tok acc unfolding visit(1) login_inv_def m by (auto split: option.splits)
next
  case (tick t)
  have "set (ls_logins s) \<subseteq> set (ls_logins s')" "ls_now s \<le> ls_now s'" using tick by simp_all
  note m = sealed_mono[OF this]
  show ?thesis using assms(2) tick m unfolding login_inv_def by fastforce
next
  case (management a' db')
  have "token_sealed s' = token_sealed s" "session_sealed codec s' = session_sealed codec s" "signed_in s' = signed_in s"
    by (simp_all add: management(1) token_sealed_def session_sealed_def signed_in_def fun_eq_iff)
  then show ?thesis using assms(2) management unfolding login_inv_def by simp
qed

lemma login_inv_reachable:
  assumes "(login_step codec newGCM key)\<^sup>*\<^sup>* (login_initial a db) s" "codec_correct codec" "\<forall>i \<in> user_ids a. plain_id i"
  shows "login_inv codec s"
  using assms(1)
proof induction
  case base then show ?case using assms(3)
    by (simp add: login_inv_def login_initial_def clock_ok_def unix_def is_i64_def int64_min_def int64_max_def)
next
  case (step s s') then show ?case using login_inv_step[OF assms(2)] by blast
qed

text \<open>C30: the login page tells the OAuth server that a user has signed in only when an identity provider's callback signed
  that very user in, with an active account, at most a day and five minutes (and the second the token's clock rounds away)
  before; or when the OAuth server itself asked to skip the page. So no token or cookie of one user speaks for another,
  neither kind passes for the other although both are sealed under one key, and no chain of visits prolongs a session.\<close>
theorem browser_login_sound:
  assumes "(login_step codec newGCM key)\<^sup>*\<^sup>* (login_initial a db) s"
    and "codec_correct codec" "\<forall>i \<in> user_ids a. plain_id i"
    and "(i, t, False) \<in> set (ls_accepted s)"
  shows "\<exists>user t0. (user, t0) \<in> set (ls_logins s) \<and> user_ID user = i \<and> user_Status user = ''active''
     \<and> t0 \<le> t \<and> t < t0 + 301000000000 + oauthSessionTTL"
proof -
  note inv = login_inv_reachable[OF assms(1-3)]
  have "signed_in s i t" using inv assms(4) unfolding login_inv_def by fastforce
  then show ?thesis using inv unfolding signed_in_def login_inv_def by fast
qed

section \<open>A login completes\<close>

text \<open>url.Parse and URL.String keep an encoded query.\<close>
definition url_lib_correct :: "url_lib \<Rightarrow> bool" where
  "url_lib_correct ul \<longleftrightarrow>
     (\<forall>raw u q. ul_Parse ul raw = Some u \<longrightarrow>
        (\<exists>u'. ul_Parse ul (ul_String ul (u\<lparr>url_RawQuery := Values_Encode q\<rparr>)) = Some u' \<and> url_RawQuery u' = Values_Encode q))"

definition seals :: "login_world \<Rightarrow> bool" where
  "seals w \<longleftrightarrow> aead_correct (lw_newGCM w) (lw_key w) \<and> (\<forall>n r. lw_rand w n = Some r \<longrightarrow> length r = n)
     \<and> (\<forall>g. lw_newGCM w (lw_key w) = Some g \<longrightarrow> 0 < nonceSize g) \<and> (\<forall>text. \<exists>c. Encrypt (lw_newGCM w) (lw_rand w) (lw_key w) text = Inr c)"

lemma sealed_opens:
  assumes "seals w" "Encrypt (lw_newGCM w) (lw_rand w) (lw_key w) p = Inr c"
  shows "Decrypt (lw_newGCM w) (lw_key w) c = Inr p"
  using Encrypt_Decrypt[OF _ _ assms(2)] assms(1) by (auto simp: seals_def aead_correct_def)

lemma auth_token_roundtrip:
  assumes "seals w" "plain_id i" "clock_ok (lw_now w)" "clock_ok now"
  shows "verifyAuthToken (lw_newGCM w) (lw_key w) now (buildAuthToken (lw_newGCM w) (lw_rand w) (lw_key w) (lw_now w) i)
      = (if unix now - unix (lw_now w) \<le> 300 then Some i else None)"
proof -
  obtain c where c: "Encrypt (lw_newGCM w) (lw_rand w) (lw_key w) (string_bytes (token_text i (lw_now w))) = Inr c"
    using assms(1) unfolding seals_def by blast
  have t: "buildAuthToken (lw_newGCM w) (lw_rand w) (lw_key w) (lw_now w) i = base64_raw_encode c"
    using c by (simp add: buildAuthToken_def token_text_def)
  show ?thesis unfolding t
    by (rule token_text_opens[OF assms(2-4) base64_raw_roundtrip sealed_opens[OF assms(1) c]]) simp
qed

lemma session_cookie_roundtrip:
  assumes "seals w" "codec_correct codec" "plain_id i" "setOAuthSessionCookie codec w i = Some value"
    and "lw_newGCM w2 = lw_newGCM w" "lw_key w2 = lw_key w"
  shows "getOAuthSession codec w2 (Some value) = (if lw_now w2 > lw_now w + oauthSessionTTL then None else Some i)"
proof -
  obtain p c where c: "sc_Marshal codec (session_of i (lw_now w)) = Some p"
      "Encrypt (lw_newGCM w) (lw_rand w) (lw_key w) (string_bytes p) = Inr c" "value = base64_encode c"
    using assms(4) by (auto simp: setOAuthSessionCookie_def session_of_def split: option.splits sum.splits)
  have d: "Decrypt (lw_newGCM w2) (lw_key w2) c = Inr (string_bytes p)" using sealed_opens[OF assms(1) c(2)] assms(5,6) by simp
  have "plain_id (os_UserID (session_of i (lw_now w)))" using assms(3) by (simp add: session_of_def)
  from session_text_opens[where w = w2, OF assms(2) this c(1) base64_roundtrip d] show ?thesis by (simp add: c(3) session_of_def)
qed

text \<open>Behind a callback whose state carries a return address.\<close>
definition redirected :: "oauth_config \<Rightarrow> login_world \<Rightarrow> string \<Rightarrow> string \<Rightarrow> string \<Rightarrow> string \<Rightarrow> accounts \<times> database \<Rightarrow> string \<Rightarrow> bool" where
  "redirected cfg w provider code rnd returnTo s location \<longleftrightarrow>
     CHR ''|'' \<notin> set rnd \<and> ul_Parse (lw_url w) returnTo \<noteq> None \<and> isValidReturnTo (lw_url w) returnTo
     \<and> fst (handleOAuthCallback cfg w provider (Some (code, rnd @ ''|'' @ returnTo)) s) = AuthRedirect location"

lemma callback_location:
  assumes "redirected cfg w provider code rnd returnTo (a, db) location"
  shows "\<exists>info user a' db'. exchange_code cfg (lw_identity w) provider code = Inr info \<and> oauth_user w info (a, db) = (Some user, a', db')
     \<and> user_Status user = ''active''
     \<and> handleOAuthCallback cfg w provider (Some (code, rnd @ ''|'' @ returnTo)) (a, db) = (AuthRedirect location, a', db')
     \<and> location = appendQueryParam (lw_url w) returnTo ''auth_token'' (buildAuthToken (lw_newGCM w) (lw_rand w) (lw_key w) (lw_now w) (user_ID user))"
proof -
  have s: "split_two (CHR ''|'') (rnd @ CHR ''|'' # returnTo) = Some (rnd, returnTo)" using assms by (subst split_two_append) (auto simp: redirected_def)
  show ?thesis using assms s
    by (auto simp: redirected_def handleOAuthCallback_def finish_callback_def split: if_splits option.splits sum.splits prod.splits)
qed

lemma location_token:
  assumes "url_lib_correct ul" "ul_Parse ul returnTo \<noteq> None"
  shows "\<exists>u. ul_Parse ul (appendQueryParam ul returnTo k v) = Some u \<and> Values_Get k (ParseQuery (url_RawQuery u)) = v"
proof -
  obtain u0 where "ul_Parse ul returnTo = Some u0" using assms(2) by blast
  with assms(1) obtain u where "ul_Parse ul (appendQueryParam ul returnTo k v) = Some u"
      "url_RawQuery u = Values_Encode (Values_Set k v (ParseQuery (url_RawQuery u0)))"
    unfolding url_lib_correct_def appendQueryParam_def by fastforce
  then show ?thesis by (simp add: Values_roundtrip)
qed

text \<open>For five minutes after \<^term>\<open>w\<close> the token signs the user in; for a day its cookie does.\<close>
definition token_signs_in :: "session_codec \<Rightarrow> oauth_config \<Rightarrow> login_world \<Rightarrow> string \<Rightarrow> string \<Rightarrow> bool" where
  "token_signs_in codec cfg w token i \<longleftrightarrow>
     (\<forall>w1 hw r challenge dest subject cookie. lw_newGCM w1 = lw_newGCM w \<longrightarrow> lw_key w1 = lw_key w \<longrightarrow> clock_ok (lw_now w1) \<longrightarrow>
          unix (lw_now w1) - unix (lw_now w) \<le> 300 \<longrightarrow> challenge \<noteq> '''' \<longrightarrow> hw_getLogin hw challenge = Some (subject, False) \<longrightarrow>
          hw_acceptLogin hw challenge i = Some dest \<longrightarrow>
          LoginHandler_ServeHTTP codec hw cfg w1 r challenge token cookie = (LoginRedirect dest, setOAuthSessionCookie codec w1 i, Some i))"

definition cookie_signs_in :: "session_codec \<Rightarrow> oauth_config \<Rightarrow> string \<Rightarrow> bool" where
  "cookie_signs_in codec cfg i \<longleftrightarrow>
     (\<forall>w1 w2 hw r challenge dest subject value. lw_newGCM w2 = lw_newGCM w1 \<longrightarrow> lw_key w2 = lw_key w1 \<longrightarrow> seals w1 \<longrightarrow>
          setOAuthSessionCookie codec w1 i = Some value \<longrightarrow> lw_now w2 \<le> lw_now w1 + oauthSessionTTL \<longrightarrow> i \<noteq> '''' \<longrightarrow>
          challenge \<noteq> '''' \<longrightarrow> hw_getLogin hw challenge = Some (subject, False) \<longrightarrow> hw_acceptLogin hw challenge i = Some dest \<longrightarrow>
          LoginHandler_ServeHTTP codec hw cfg w2 r challenge '''' (Some value) = (LoginRedirect dest, None, Some i))"

lemma completed_login:
  assumes "url_lib_correct (lw_url w)" "seals w" "clock_ok (lw_now w)" "\<forall>i \<in> insert (lw_userID w) (user_ids a). plain_id i"
    and "redirected cfg w provider code rnd returnTo (a, db) location"
  shows "\<exists>info user a' db' u. exchange_code cfg (lw_identity w) provider code = Inr info \<and> oauth_user w info (a, db) = (Some user, a', db')
     \<and> plain_id (user_ID user) \<and> user_Status user = ''active'' \<and> ul_Parse (lw_url w) location = Some u
     \<and> handleOAuthCallback cfg w provider (Some (code, rnd @ ''|'' @ returnTo)) (a, db) = (AuthRedirect location, a', db')
     \<and> token_signs_in codec cfg w (Values_Get ''auth_token'' (ParseQuery (url_RawQuery u))) (user_ID user)"
proof -
  obtain info user a' db' where h: "exchange_code cfg (lw_identity w) provider code = Inr info" "oauth_user w info (a, db) = (Some user, a', db')"
      "user_Status user = ''active''" "handleOAuthCallback cfg w provider (Some (code, rnd @ ''|'' @ returnTo)) (a, db) = (AuthRedirect location, a', db')"
    and l: "location = appendQueryParam (lw_url w) returnTo ''auth_token'' (buildAuthToken (lw_newGCM w) (lw_rand w) (lw_key w) (lw_now w) (user_ID user))"
    using callback_location[OF assms(5)] by blast
  let ?tok = "buildAuthToken (lw_newGCM w) (lw_rand w) (lw_key w) (lw_now w) (user_ID user)"
  have p: "plain_id (user_ID user)" using oauth_user_ids(2)[OF h(2)] assms(4) by blast
  obtain u where u: "ul_Parse (lw_url w) location = Some u" "Values_Get ''auth_token'' (ParseQuery (url_RawQuery u)) = ?tok"
    using location_token[OF assms(1)] assms(5) unfolding l redirected_def by blast
  have v: "verifyAuthToken (lw_newGCM w) (lw_key w) now ?tok = Some (user_ID user)" if "clock_ok now" "unix now - unix (lw_now w) \<le> 300" for now
    using auth_token_roundtrip[OF assms(2) p assms(3) that(1)] that(2) by simp
  have "?tok \<noteq> ''''"
  proof
    assume "?tok = ''''"
    with v[OF assms(3)] assms(2) show False
      by (auto simp: verifyAuthToken_def base64_raw_decode_def Decrypt_def seals_def split: option.splits if_splits sum.splits)
  qed
  then show ?thesis using h p u v by (intro exI[of _ info] exI[of _ user] exI[of _ a'] exI[of _ db'] exI[of _ u]) (simp add: token_signs_in_def LoginHandler_ServeHTTP_def accept_login_def)
qed


section \<open>What the login does not check\<close>

text \<open>The host of an absolute return address is free, and the token is written into it.\<close>
lemma token_goes_to_any_host:
  assumes "ul_Parse (lw_url w) returnTo = Some u" "url_Scheme u = ''https''" "url_Path u = ''/oauth/login''" "user_Status user = ''active''"
    and "CHR ''|'' \<notin> set rnd"
  shows "finish_callback w (rnd @ ''|'' @ returnTo) user = AuthRedirect (appendQueryParam (lw_url w) returnTo ''auth_token''
      (buildAuthToken (lw_newGCM w) (lw_rand w) (lw_key w) (lw_now w) (user_ID user)))"
proof -
  have "split_two (CHR ''|'') (rnd @ CHR ''|'' # returnTo) = Some (rnd, returnTo)" using assms(5) by (subst split_two_append) auto
  moreover have "has_prefix (url_Path u) ''/oauth/login''" using has_prefix_append[of "''/oauth/login''" "[]"] assms(3) by simp
  ultimately show ?thesis using assms(1-4) by (simp add: finish_callback_def isValidReturnTo_def)
qed

text \<open>An identity nobody has linked signs in as the user whose address it claims; OIDC's email_verified is not read.\<close>
lemma claimed_email_takes_over:
  assumes "iw_idtoken (lw_identity w) code = Some c" "oc_Email c = user_Email victim" "user_Email victim \<noteq> ''''"
    and "cfg_OIDC_IssuerURL cfg \<noteq> ''''" "iw_discovery (lw_identity w)" "lw_up w ''ByOAuth''" "lw_up w ''ByEmail''"
    and "GetUserByOAuth ''oidc'' (oc_Sub c) a = None" "GetUserByEmail (user_Email victim) a = Some victim"
  shows "\<exists>info user a'. exchange_code cfg (lw_identity w) ''oidc'' code = Inr info \<and> oauth_user w info (a, db) = (Some user, a', db)
     \<and> user_ID user = user_ID victim"
proof -
  obtain info where i: "exchange_code cfg (lw_identity w) ''oidc'' code = Inr info" "oi_Email info = oc_Email c" "oi_Provider info = ''oidc''" "oi_ProviderID info = oc_Sub c"
    using assms(1,4,5) by (simp add: exchange_code_def OIDC_ExchangeAndGetUser_def)
  then have f: "find_oauth_user (lw_up w) info a = Some victim" using assms(2,6-9) by (simp add: find_oauth_user_def)
  have same: "GetUserByID j b = Some v \<Longrightarrow> user_ID v = j" for j b v by (auto simp: GetUserByID_def find_Some_iff)
  obtain user a' where "sync_oauth_user (lw_up w) info victim a = (user, a')" by fastforce
  moreover from this have "user_ID user = user_ID victim" by (auto simp: sync_oauth_user_def Let_def dest: same split: if_splits option.splits)
  ultimately show ?thesis using i(1) f by (auto simp: oauth_user_def)
qed

text \<open>The login page never looks at the account behind a token or a cookie, so a disabled user stays signed in: the answer
  depends on the key, the clock and the two strings alone.\<close>
lemma disabled_user_stays_signed_in:
  assumes "seals w" "codec_correct codec" "plain_id i" "i \<noteq> ''''" "setOAuthSessionCookie codec w i = Some value"
    and "lw_now w \<le> t" "t \<le> lw_now w + oauthSessionTTL" "challenge \<noteq> ''''"
    and "hw_getLogin hw challenge = Some (subject, False)" "hw_acceptLogin hw challenge i = Some dest"
  shows "LoginHandler_ServeHTTP codec hw cfg (w\<lparr>lw_now := t\<rparr>) r challenge '''' (Some value) = (LoginRedirect dest, None, Some i)"
  using session_cookie_roundtrip[OF assms(1-3,5), of "w\<lparr>lw_now := t\<rparr>"] assms(4-) by (simp add: LoginHandler_ServeHTTP_def accept_login_def)

section \<open>Sample libraries and runs\<close>

definition sample_codec :: session_codec where
  "sample_codec =
     \<lparr>sc_Marshal = (\<lambda>sess. if plain_id (os_UserID sess) \<and> is_i64 (os_ExpiresAt sess) then Some (itoa (os_ExpiresAt sess) @ '':'' @ os_UserID sess) else None),
      sc_Unmarshal = (\<lambda>s. if CHR ''|'' \<in> set s then None
         else case split_two (CHR '':'') s of None \<Rightarrow> None
           | Some (n, i) \<Rightarrow> map_option (\<lambda>t. \<lparr>os_UserID = i, os_ExpiresAt = t\<rparr>) (ParseInt n))\<rparr>"

definition sample_url_lib :: url_lib where
  "sample_url_lib =
     \<lparr>ul_Parse = (\<lambda>raw. Some (case split_two (CHR ''?'') raw of
         None \<Rightarrow> \<lparr>url_Scheme = '''', url_Host = '''', url_Path = raw, url_RawQuery = ''''\<rparr>
       | Some (p, q) \<Rightarrow> \<lparr>url_Scheme = '''', url_Host = '''', url_Path = p, url_RawQuery = q\<rparr>)),
      ul_String = (\<lambda>u. url_Path u @ ''?'' @ url_RawQuery u)\<rparr>"

definition sample_claims :: "string \<Rightarrow> int \<Rightarrow> Claims" where
  "sample_claims ty ttl = \<lparr>cl_UserID = ''u'', cl_Email = ''u@x'', cl_IsSuperadmin = True, cl_TokenType = ty,
     cl_ExpiresAt = NewNumericDate ttl, cl_IssuedAt = NewNumericDate 0, cl_Subject = ''u''\<rparr>"

definition sample_jwt :: jwt_lib where
  "sample_jwt = (let a = sample_claims ''access'' 60000000000; r = sample_claims ''refresh'' 600000000000 in
     \<lparr>jl_sign = (\<lambda>secret c. if secret = [7] then (if c = a then Some ''A'' else if c = r then Some ''R'' else None) else None),
      jl_parse = (\<lambda>keyOf methods now token.
        if ''HS256'' \<in> set methods \<and> keyOf ''HS256'' = Some [7]
        then (if token = ''A'' \<and> now < cl_ExpiresAt a then Some a else if token = ''R'' \<and> now < cl_ExpiresAt r then Some r else None)
        else None)\<rparr>)"

definition sample_world :: login_world where
  "sample_world =
     \<lparr>lw_up = (\<lambda>_. True),
      lw_identity = \<lparr>iw_github = (\<lambda>_. Some (200, Some \<lparr>gh_ID = 1, gh_Login = ''u'', gh_Name = '''', gh_Email = ''u@x'', gh_AvatarURL = ''''\<rparr>)),
        iw_emails = (\<lambda>_. None), iw_google = (\<lambda>_. None), iw_discovery = False, iw_idtoken = (\<lambda>_. None)\<rparr>,
      lw_getPlan = (\<lambda>_. None), lw_userID = ''u'', lw_projectID = ''p'', lw_subscriptionID = ''s'', lw_jwt = sample_jwt,
      lw_manager = \<lparr>jm_secret = [7], jm_accessTokenTTL = 60000000000, jm_refreshTokenTTL = 600000000000\<rparr>, lw_url = sample_url_lib,
      lw_newGCM = flow_gcm, lw_rand = (\<lambda>n. Some (replicate n 0)), lw_key = [1], lw_now = 0\<rparr>"

definition sample_oauth :: oauth_config where
  "sample_oauth = \<lparr>cfg_GitHub_ClientID = ''g'', cfg_Google_ClientID = '''', cfg_OIDC_IssuerURL = '''', cfg_OIDC_RedirectURI = '''', cfg_OIDC_DisplayName = ''''\<rparr>"

definition sample_hydra :: hydra_world where
  "sample_hydra = \<lparr>hw_getLogin = (\<lambda>_. Some ('''', False)), hw_acceptLogin = (\<lambda>_ i. Some (''/done/'' @ i)), hw_getConsent = (\<lambda>_. None), hw_acceptConsent = (\<lambda>_ _ _. None)\<rparr>"

definition sample_origin :: http_origin where
  "sample_origin = \<lparr>ho_TLS = True, ho_ForwardedProto = '''', ho_Host = ''h''\<rparr>"

lemma itoa_chars: "c \<in> set (itoa i) \<Longrightarrow> c \<noteq> CHR '':'' \<and> c \<noteq> CHR ''|''"
  using digits_parse[of "nat i"] digits_parse[of "nat (- i)"] by (auto simp: itoa_def list_all_iff char_in_def split: if_splits)

lemma sample_codec_correct: "codec_correct sample_codec"
proof -
  have s: "split_two (CHR '':'') (itoa n @ CHR '':'' # i) = Some (itoa n, i)" for n i using itoa_chars by (subst split_two_append) auto
  show ?thesis using itoa_chars by (auto simp: codec_correct_def sample_codec_def s ParseInt_itoa plain_id_def split: if_splits)
qed

lemma sample_url_correct: "url_lib_correct sample_url_lib"
proof -
  have p: "CHR ''?'' \<notin> set (url_Path u)" if "ul_Parse sample_url_lib raw = Some u" for raw u
  proof (cases "CHR ''?'' \<in> set raw")
    case True then show ?thesis using that
      by (auto simp: sample_url_lib_def split_two_def dest: set_takeWhileD split: list.splits)
  next
    case False then show ?thesis using that by (auto simp: sample_url_lib_def split_two_absent)
  qed
  have "ul_Parse sample_url_lib (ul_String sample_url_lib (u\<lparr>url_RawQuery := q\<rparr>)) = Some \<lparr>url_Scheme = '''', url_Host = '''', url_Path = url_Path u, url_RawQuery = q\<rparr>"
    if "CHR ''?'' \<notin> set (url_Path u)" for u q
  proof -
    have "split_two (CHR ''?'') (url_Path u @ CHR ''?'' # q) = Some (url_Path u, q)" using that by (subst split_two_append) auto
    then show ?thesis by (simp add: sample_url_lib_def)
  qed
  then show ?thesis using p unfolding url_lib_correct_def by fastforce
qed

lemma sample_jwt_correct: "jwt_correct sample_jwt"
  unfolding jwt_correct_def sample_jwt_def by (auto simp: Let_def sample_claims_def split: if_splits)

lemma sample_seals: "lw_newGCM w = flow_gcm \<Longrightarrow> lw_rand w = (\<lambda>n. Some (replicate n 0)) \<Longrightarrow> seals w"
  by (simp add: seals_def flow_gcm_def aead_correct_def comp_def Encrypt_def)

lemma sample_callback: "\<exists>location. redirected sample_oauth sample_world ''github'' ''c'' ''r'' ''/oauth/login'' (no_accounts, empty_db) location"
proof -
  have s: "split_two (CHR ''|'') ''r|/oauth/login'' = Some (''r'', ''/oauth/login'')" by code_simp
  show ?thesis
    by (simp add: redirected_def handleOAuthCallback_def finish_callback_def exchange_code_def GitHub_ExchangeAndGetUser_def sample_oauth_def s
        sample_world_def oauth_user_def find_oauth_user_def create_oauth_user_def GetUserByOAuth_def GetUserByEmail_def GetUserByID_def CreateUser_def
        CreateProject_def no_accounts_def new_oauth_user_def default_project_def UserExists_def GetProjectByID_def Let_def
        isValidReturnTo_def sample_url_lib_def coalesce_def split: option.split)
qed

lemma sample_clock: "clock_ok 0"
  by (simp add: clock_ok_def unix_def is_i64_def int64_min_def int64_max_def)

lemma v1_login_agrees_witness:
  "v1_oauthCallback sample_oauth sample_world (Some (assign_free_plan sample_world)) ''github'' ''c'' ''s'' (no_accounts, empty_db)
     = handleOAuthCallback sample_oauth sample_world ''github'' (Some (''c'', ''s'')) (no_accounts, empty_db)
   \<and> v1_refresh sample_world ''R'' no_accounts = handleRefresh sample_world (Some ''R'') no_accounts"
  by (rule v1_login_agrees) simp_all

lemma token_pair_semantics_witness:
  "JWTAuthMiddleware sample_world ''R'' (sample_accounts ''owner'') = Inl (401, ''unauthorized'')
   \<and> handleRefresh sample_world (Some ''A'') (sample_accounts ''owner'') = AuthError 401 ''unauthorized''
   \<and> JWTAuthMiddleware sample_world ''A'' (sample_accounts ''owner'') = Inr (member_row ''u'' ''u@x'')"
proof -
  have g: "GenerateTokenPair (lw_jwt sample_world) (lw_manager sample_world) 0 ''u'' ''u@x'' True = Some (''A'', ''R'')" by code_simp
  have u: "GetUserByID ''u'' (sample_accounts ''owner'') = Some (member_row ''u'' ''u@x'')" "user_Status (member_row ''u'' ''u@x'') = ''active''"
      "lw_now sample_world < NewNumericDate (0 + jm_accessTokenTTL (lw_manager sample_world))" by code_simp+
  have j: "jwt_correct (lw_jwt sample_world)" by (simp add: sample_world_def sample_jwt_correct)
  from token_pair_semantics[OF j g, where a = "sample_accounts ''owner''" and user = "member_row ''u'' ''u@x''"] u
  show ?thesis by (simp add: sample_world_def)
qed

lemma sample_login:
  "\<exists>location u. ul_Parse sample_url_lib location = Some u \<and> redirected sample_oauth sample_world ''github'' ''c'' ''r'' ''/oauth/login'' (no_accounts, empty_db) location
     \<and> (\<exists>s. (login_step sample_codec flow_gcm [1])\<^sup>*\<^sup>* (login_initial no_accounts empty_db) s \<and> (\<exists>i. (i, 0, False) \<in> set (ls_accepted s)))"
proof -
  obtain location where l: "redirected sample_oauth sample_world ''github'' ''c'' ''r'' ''/oauth/login'' (no_accounts, empty_db) location"
    using sample_callback by blast
  have w: "lw_newGCM sample_world = flow_gcm" "lw_key sample_world = [1]" "lw_now sample_world = 0" "lw_url sample_world = sample_url_lib"
      "lw_userID sample_world = ''u''" "lw_rand sample_world = (\<lambda>n. Some (replicate n 0))" by (simp_all add: sample_world_def)
  have "\<forall>i \<in> insert (lw_userID sample_world) (user_ids no_accounts). plain_id i" by (simp add: w plain_id_def user_ids_def no_accounts_def)
  from completed_login[OF _ sample_seals _ this l, unfolded w, OF sample_url_correct refl refl sample_clock, of sample_codec]
  obtain info user a' db' u where h: "exchange_code sample_oauth (lw_identity sample_world) ''github'' ''c'' = Inr info"
      "oauth_user sample_world info (no_accounts, empty_db) = (Some user, a', db')" "ul_Parse sample_url_lib location = Some u"
      "handleOAuthCallback sample_oauth sample_world ''github'' (Some (''c'', ''r'' @ ''|'' @ ''/oauth/login'')) (no_accounts, empty_db) = (AuthRedirect location, a', db')"
      "token_signs_in sample_codec sample_oauth sample_world (Values_Get ''auth_token'' (ParseQuery (url_RawQuery u))) (user_ID user)"
      "plain_id (user_ID user)"
    by blast
  let ?s0 = "login_initial no_accounts empty_db" and ?tok = "Values_Get ''auth_token'' (ParseQuery (url_RawQuery u))"
  let ?s1 = "?s0\<lparr>ls_accounts := a', ls_db := db', ls_sealed := token_text (user_ID user) (ls_now ?s0) # ls_sealed ?s0, ls_logins := (user, ls_now ?s0) # ls_logins ?s0\<rparr>"
  have 1: "login_step sample_codec flow_gcm [1] ?s0 ?s1"
    by (rule login_step.callback[OF _ h(1)]) (use h w in \<open>simp_all add: login_initial_def plain_id_def\<close>)
  have "LoginHandler_ServeHTTP sample_codec sample_hydra sample_oauth sample_world sample_origin ''ch'' ?tok None
      = (LoginRedirect (''/done/'' @ user_ID user), setOAuthSessionCookie sample_codec sample_world (user_ID user), Some (user_ID user))"
    using h(5) sample_clock unfolding token_signs_in_def by (auto simp: w sample_hydra_def)
  moreover have "presentable flow_gcm [1] (ls_sealed ?s1) (base64_raw_decode ?tok)"
  proof -
    have t: "?tok = buildAuthToken flow_gcm (lw_rand sample_world) [1] 0 (user_ID user)"
      using callback_location[OF l] location_token[OF sample_url_correct, of "''/oauth/login''" "''auth_token''"] h(1-3)
      by (fastforce simp: w sample_url_lib_def)
    obtain c where c: "Encrypt flow_gcm (lw_rand sample_world) [1] (string_bytes (token_text (user_ID user) 0)) = Inr c"
      using sample_seals[of sample_world] by (auto simp: w seals_def)
    then show ?thesis using sealed_opens[of sample_world] sample_seals[of sample_world]
      unfolding t by (auto simp: buildAuthToken_def token_text_def presentable_def w login_initial_def)
  qed
  moreover have "presentable flow_gcm [1] (ls_sealed ?s1) (Option.bind None base64_decode)" by (simp add: presentable_def)
  ultimately have 2: "\<exists>s2. login_step sample_codec flow_gcm [1] ?s1 s2 \<and> (user_ID user, 0, False) \<in> set (ls_accepted s2)"
    using login_step.visit[where w = sample_world and s = ?s1 and hw = sample_hydra and newGCM = flow_gcm and key = "[1]" and cookie = None]
    by (fastforce simp: w login_initial_def skip_flag_def sample_hydra_def)
  show ?thesis using 1 2 l h(3) by (meson converse_rtranclp_into_rtranclp rtranclp.rtrancl_refl)
qed

lemma browser_login_sound_witness:
  "\<exists>s i user t0. (login_step sample_codec flow_gcm [1])\<^sup>*\<^sup>* (login_initial no_accounts empty_db) s \<and> (i, 0, False) \<in> set (ls_accepted s)
     \<and> (user, t0) \<in> set (ls_logins s) \<and> user_ID user = i"
proof -
  obtain s i where s: "(login_step sample_codec flow_gcm [1])\<^sup>*\<^sup>* (login_initial no_accounts empty_db) s" "(i, 0, False) \<in> set (ls_accepted s)"
    using sample_login by blast
  have "\<forall>j \<in> user_ids no_accounts. plain_id j" by (simp add: user_ids_def no_accounts_def)
  from browser_login_sound[OF s(1) sample_codec_correct this s(2)] show ?thesis using s by blast
qed


end
