(* ===== verification/TokenManager.thy ===== *)
theory TokenManager
  imports Types GoText
begin

text \<open>
  The OAuth token managers of the Claude Code and the Codex upstreams: proxy/claudecode_oauth.go and
  proxy/codex_oauth.go. The two are copies that differ in their credentials, in the answer of the token endpoint
  and in how it changes the credentials; \<^term>\<open>oauth_kind\<close> collects these differences and the operations are
  given once over it. Their critical sections interleave, so a refresh is also given as its four steps. JSON is a
  parameter of the kinds.
\<close>

section \<open>Credentials and answers\<close>

record ClaudeCodeCredentials =
  cc_AccessToken :: string
  cc_RefreshToken :: string
  cc_ExpiresAt :: int
  cc_ClientID :: string

record CodexCredentials =
  cx_IDToken :: string
  cx_AccessToken :: string
  cx_RefreshToken :: string
  cx_ChatGPTAccountID :: string
  cx_ExpiresAt :: int
  cx_ClientID :: string

text \<open>The body of the token endpoint's answer; an absent string of the first decodes to the empty one.\<close>
record claude_answer =
  ca_AccessToken :: string
  ca_RefreshToken :: string
  ca_ExpiresIn :: int

record codex_answer =
  xa_IDToken :: "string option"
  xa_AccessToken :: "string option"
  xa_RefreshToken :: "string option"
  xa_ExpiresIn :: int

fun split_dots :: "string \<Rightarrow> string \<Rightarrow> string list" where
  "split_dots part [] = [part]"
| "split_dots part (c # s) = (if c = CHR ''.'' then part # split_dots [] s else split_dots (part @ [c]) s)"

definition splitJWT :: "string \<Rightarrow> string list" where
  "splitJWT token = split_dots [] token"

text \<open>\<^term>\<open>claim\<close>: the account id in a JSON payload, None when it does not parse.\<close>
definition extractChatGPTAccountIDFromIDToken :: "(bytes \<Rightarrow> string option) \<Rightarrow> string \<Rightarrow> string" where
  "extractChatGPTAccountIDFromIDToken claim idToken =
     (case splitJWT idToken of
        [_, payload, _] \<Rightarrow> (case base64_raw_decode payload of None \<Rightarrow> '''' | Some p \<Rightarrow> the_or '''' (claim p))
      | _ \<Rightarrow> '''')"

definition unix_time :: "go_time \<Rightarrow> int" where
  "unix_time t = t div 1000000000"

text \<open>What the answer makes of the credentials in memory; None: the code dereferences a nil pointer.\<close>
definition claude_update :: "go_time \<Rightarrow> string \<Rightarrow> claude_answer \<Rightarrow> ClaudeCodeCredentials option \<Rightarrow> ClaudeCodeCredentials option" where
  "claude_update now clientID r cur =
     Some \<lparr>cc_AccessToken = ca_AccessToken r, cc_RefreshToken = ca_RefreshToken r, cc_ExpiresAt = i64 (unix_time now + ca_ExpiresIn r),
           cc_ClientID = clientID\<rparr>"

definition codex_merge :: "(bytes \<Rightarrow> string option) \<Rightarrow> go_time \<Rightarrow> string \<Rightarrow> codex_answer \<Rightarrow> CodexCredentials \<Rightarrow> CodexCredentials" where
  "codex_merge claim now clientID r c =
     (let account = (case xa_IDToken r of None \<Rightarrow> '''' | Some t \<Rightarrow> extractChatGPTAccountIDFromIDToken claim t) in
      \<lparr>cx_IDToken = the_or (cx_IDToken c) (xa_IDToken r), cx_AccessToken = the_or (cx_AccessToken c) (xa_AccessToken r),
       cx_RefreshToken = the_or (cx_RefreshToken c) (xa_RefreshToken r),
       cx_ChatGPTAccountID = (if account \<noteq> '''' then account else cx_ChatGPTAccountID c),
       cx_ExpiresAt = (if xa_ExpiresIn r > 0 then i64 (unix_time now + xa_ExpiresIn r) else cx_ExpiresAt c), cx_ClientID = clientID\<rparr>)"

definition codex_update :: "(bytes \<Rightarrow> string option) \<Rightarrow> go_time \<Rightarrow> string \<Rightarrow> codex_answer \<Rightarrow> CodexCredentials option \<Rightarrow> CodexCredentials option" where
  "codex_update claim now clientID r cur = map_option (codex_merge claim now clientID r) cur"

record ('c, 'r) oauth_kind =
  ok_provider :: string
  ok_default_client :: string
  ok_parse :: "string \<Rightarrow> 'c option"
  ok_access :: "'c \<Rightarrow> string"
  ok_refresh :: "'c \<Rightarrow> string"
  ok_expires :: "'c \<Rightarrow> int"
  ok_client :: "'c \<Rightarrow> string"
  ok_update :: "go_time \<Rightarrow> string \<Rightarrow> 'r \<Rightarrow> 'c option \<Rightarrow> 'c option"

definition claude_kind :: "(string \<Rightarrow> ClaudeCodeCredentials option) \<Rightarrow> (ClaudeCodeCredentials, claude_answer) oauth_kind" where
  "claude_kind parse = \<lparr>ok_provider = ''claudecode'', ok_default_client = ''9d1c250a-e61b-44d9-88ed-5944d1962f5e'', ok_parse = parse,
     ok_access = cc_AccessToken, ok_refresh = cc_RefreshToken, ok_expires = cc_ExpiresAt, ok_client = cc_ClientID, ok_update = claude_update\<rparr>"

definition codex_kind :: "(string \<Rightarrow> CodexCredentials option) \<Rightarrow> (bytes \<Rightarrow> string option) \<Rightarrow> (CodexCredentials, codex_answer) oauth_kind" where
  "codex_kind parse claim = \<lparr>ok_provider = ''codex'', ok_default_client = ''app_EMoamEEZ73f0CkXaXp7hrann'', ok_parse = parse,
     ok_access = cx_AccessToken, ok_refresh = cx_RefreshToken, ok_expires = cx_ExpiresAt, ok_client = cx_ClientID, ok_update = codex_update claim\<rparr>"

section \<open>The manager\<close>

record 'c token_manager =
  tm_credentials :: "string \<Rightarrow> 'c option"
  tm_upstreams :: "string \<Rightarrow> Upstream option"

definition New_manager :: "'c token_manager" where
  "New_manager = \<lparr>tm_credentials = Map.empty, tm_upstreams = Map.empty\<rparr>"

text \<open>One turn of the loop; \<^term>\<open>keys\<close>: the decrypted keys by upstream id.\<close>
definition load_one :: "('c, 'r) oauth_kind \<Rightarrow> (string \<Rightarrow> string option) \<Rightarrow> Upstream \<Rightarrow> 'c token_manager \<Rightarrow> 'c token_manager" where
  "load_one k keys u m =
     (if up_Provider u \<noteq> ok_provider k then m
      else case keys (up_ID u) of None \<Rightarrow> m
        | Some raw \<Rightarrow>
            if raw = '''' then m
            else (case ok_parse k raw of None \<Rightarrow> m
              | Some c \<Rightarrow> m\<lparr>tm_credentials := (tm_credentials m)(up_ID u \<mapsto> c), tm_upstreams := (tm_upstreams m)(up_ID u \<mapsto> u)\<rparr>))"

fun LoadCredentials :: "('c, 'r) oauth_kind \<Rightarrow> Upstream list \<Rightarrow> (string \<Rightarrow> string option) \<Rightarrow> 'c token_manager \<Rightarrow> 'c token_manager" where
  "LoadCredentials k [] keys m = m"
| "LoadCredentials k (u # us) keys m = LoadCredentials k us keys (load_one k keys u m)"

text \<open>What is loaded anew, except where the credentials in memory expire later.\<close>
definition Reload_manager :: "('c, 'r) oauth_kind \<Rightarrow> Upstream list \<Rightarrow> (string \<Rightarrow> string option) \<Rightarrow> 'c token_manager \<Rightarrow> 'c token_manager" where
  "Reload_manager k us keys m =
     (let fresh = LoadCredentials k us keys New_manager in
      \<lparr>tm_credentials = (\<lambda>i. case (tm_credentials fresh i, tm_credentials m i) of
           (Some new, Some existing) \<Rightarrow> Some (if ok_expires k existing > ok_expires k new then existing else new)
         | (new, _) \<Rightarrow> new),
       tm_upstreams = tm_upstreams fresh\<rparr>)"

text \<open>The first critical section of refreshToken and the choice of the client: the client id and the refresh token of the
  request. \<^term>\<open>outbound\<close>: the proxy lookup, when a factory is configured.\<close>
definition refresh_request :: "('c, 'r) oauth_kind \<Rightarrow> (Upstream \<Rightarrow> bool) option \<Rightarrow> string \<Rightarrow> 'c token_manager \<Rightarrow> (string \<times> string) option" where
  "refresh_request k outbound i m =
     (case tm_credentials m i of None \<Rightarrow> None
      | Some c \<Rightarrow>
          if (case outbound of None \<Rightarrow> True | Some clientFor \<Rightarrow> (case tm_upstreams m i of None \<Rightarrow> False | Some u \<Rightarrow> clientFor u))
          then Some (if ok_client k c = '''' then ok_default_client k else ok_client k c, ok_refresh k c) else None)"

text \<open>The second one.\<close>
definition refresh_store :: "('c, 'r) oauth_kind \<Rightarrow> go_time \<Rightarrow> string \<Rightarrow> string \<Rightarrow> 'r \<Rightarrow> 'c token_manager \<Rightarrow> ('c \<times> 'c token_manager) option" where
  "refresh_store k now i clientID r m =
     map_option (\<lambda>c. (c, m\<lparr>tm_credentials := (tm_credentials m)(i \<mapsto> c)\<rparr>)) (ok_update k now clientID r (tm_credentials m i))"

text \<open>What lies outside of one call: the endpoint's status and decoded answer (None: no answer), whether the new credentials
  marshal and seal, the clock.\<close>
record 'r refresh_world =
  rw_outbound :: "(Upstream \<Rightarrow> bool) option"
  rw_post :: "string \<Rightarrow> string \<Rightarrow> (int \<times> 'r option) option"
  rw_persistent :: bool
  rw_seals :: bool
  rw_now :: go_time

datatype 'c refresh_result = RefreshFailed | RefreshPanics | Refreshed 'c

text \<open>refreshToken without interference: the result, the manager and the credentials written to the row. A failing seal is an
  error after the memory has changed; a failing write is only logged.\<close>
definition refreshToken :: "('c, 'r) oauth_kind \<Rightarrow> 'r refresh_world \<Rightarrow> string \<Rightarrow> 'c token_manager \<Rightarrow> 'c refresh_result \<times> 'c token_manager \<times> 'c option" where
  "refreshToken k w i m =
     (case refresh_request k (rw_outbound w) i m of None \<Rightarrow> (RefreshFailed, m, None)
      | Some (clientID, refresh) \<Rightarrow>
          (case rw_post w clientID refresh of
             Some (status, Some r) \<Rightarrow>
               if status \<noteq> 200 then (RefreshFailed, m, None)
               else (case refresh_store k (rw_now w) i clientID r m of
                  None \<Rightarrow> (RefreshPanics, m, None)
                | Some (c, m') \<Rightarrow>
                    if \<not> rw_persistent w then (Refreshed c, m', None)
                    else if \<not> rw_seals w then (RefreshFailed, m', None)
                    else (Refreshed c, m', Some c))
           | _ \<Rightarrow> (RefreshFailed, m, None)))"

definition needs_refresh :: "('c, 'r) oauth_kind \<Rightarrow> go_time \<Rightarrow> 'c \<Rightarrow> bool" where
  "needs_refresh k now c \<longleftrightarrow> unix_time now > i64 (ok_expires k c - 300)"

datatype token_result = NoCredentials | TokenPanics | Token string

definition GetAccessToken :: "('c, 'r) oauth_kind \<Rightarrow> 'r refresh_world \<Rightarrow> string \<Rightarrow> 'c token_manager \<Rightarrow> token_result \<times> 'c token_manager \<times> 'c option" where
  "GetAccessToken k w i m =
     (case tm_credentials m i of None \<Rightarrow> (NoCredentials, m, None)
      | Some c \<Rightarrow>
          if \<not> needs_refresh k (rw_now w) c then (Token (ok_access k c), m, None)
          else (case refreshToken k w i m of
             (RefreshFailed, m', p) \<Rightarrow> (Token (ok_access k c), m', p)
           | (RefreshPanics, m', p) \<Rightarrow> (TokenPanics, m', p)
           | (Refreshed _, m', p) \<Rightarrow>
               (case tm_credentials m' i of None \<Rightarrow> (TokenPanics, m', p) | Some c' \<Rightarrow> (Token (ok_access k c'), m', p))))"

definition ForceRefreshAccessToken :: "('c, 'r) oauth_kind \<Rightarrow> 'r refresh_world \<Rightarrow> string \<Rightarrow> 'c token_manager \<Rightarrow> token_result \<times> 'c token_manager \<times> 'c option" where
  "ForceRefreshAccessToken k w i m =
     (case refreshToken k w i m of
        (RefreshFailed, m', p) \<Rightarrow> (NoCredentials, m', p)
      | (RefreshPanics, m', p) \<Rightarrow> (TokenPanics, m', p)
      | (Refreshed _, m', p) \<Rightarrow>
          (case tm_credentials m' i of None \<Rightarrow> (NoCredentials, m', p) | Some c' \<Rightarrow> (Token (ok_access k c'), m', p)))"

definition GetAccountID :: "string \<Rightarrow> CodexCredentials token_manager \<Rightarrow> string option" where
  "GetAccountID i m = map_option cx_ChatGPTAccountID (tm_credentials m i)"

text \<open>The Codex manager's own copies of the operations.\<close>
definition Codex_LoadCredentials :: "(string \<Rightarrow> CodexCredentials option) \<Rightarrow> (bytes \<Rightarrow> string option) \<Rightarrow> Upstream list \<Rightarrow> (string \<Rightarrow> string option)
   \<Rightarrow> CodexCredentials token_manager \<Rightarrow> CodexCredentials token_manager" where
  "Codex_LoadCredentials parse claim = LoadCredentials (codex_kind parse claim)"

definition Codex_Reload :: "(string \<Rightarrow> CodexCredentials option) \<Rightarrow> (bytes \<Rightarrow> string option) \<Rightarrow> Upstream list \<Rightarrow> (string \<Rightarrow> string option)
   \<Rightarrow> CodexCredentials token_manager \<Rightarrow> CodexCredentials token_manager" where
  "Codex_Reload parse claim = Reload_manager (codex_kind parse claim)"

definition Codex_refreshToken :: "(string \<Rightarrow> CodexCredentials option) \<Rightarrow> (bytes \<Rightarrow> string option) \<Rightarrow> codex_answer refresh_world \<Rightarrow> string
   \<Rightarrow> CodexCredentials token_manager \<Rightarrow> CodexCredentials refresh_result \<times> CodexCredentials token_manager \<times> CodexCredentials option" where
  "Codex_refreshToken parse claim = refreshToken (codex_kind parse claim)"

definition Codex_GetAccessToken :: "(string \<Rightarrow> CodexCredentials option) \<Rightarrow> (bytes \<Rightarrow> string option) \<Rightarrow> codex_answer refresh_world \<Rightarrow> string
   \<Rightarrow> CodexCredentials token_manager \<Rightarrow> token_result \<times> CodexCredentials token_manager \<times> CodexCredentials option" where
  "Codex_GetAccessToken parse claim = GetAccessToken (codex_kind parse claim)"

definition Codex_ForceRefreshAccessToken :: "(string \<Rightarrow> CodexCredentials option) \<Rightarrow> (bytes \<Rightarrow> string option) \<Rightarrow> codex_answer refresh_world \<Rightarrow> string
   \<Rightarrow> CodexCredentials token_manager \<Rightarrow> token_result \<times> CodexCredentials token_manager \<times> CodexCredentials option" where
  "Codex_ForceRefreshAccessToken parse claim = ForceRefreshAccessToken (codex_kind parse claim)"

section \<open>Loading\<close>

lemma load_one_cases:
  "tm_credentials (load_one k keys u m) i =
     (if up_ID u = i \<and> up_Provider u = ok_provider k
      then (case keys i of None \<Rightarrow> tm_credentials m i
        | Some raw \<Rightarrow> if raw = [] then tm_credentials m i else case ok_parse k raw of None \<Rightarrow> tm_credentials m i | Some c \<Rightarrow> Some c)
      else tm_credentials m i)"
  by (auto simp: load_one_def split: option.splits)

lemma LoadCredentials_origin:
  "tm_credentials (LoadCredentials k us keys m) i = Some c \<Longrightarrow>
     tm_credentials m i = Some c \<or> (\<exists>raw. keys i = Some raw \<and> ok_parse k raw = Some c)"
proof (induction us arbitrary: m)
  case Nil then show ?case by simp
next
  case (Cons u us)
  from Cons.IH[OF Cons.prems[simplified]] show ?case unfolding load_one_cases by (auto split: if_splits option.splits)
qed

lemma LoadCredentials_loads:
  assumes "keys i = Some raw" "raw \<noteq> []" "ok_parse k raw = Some c"
    and "(\<exists>u \<in> set us. up_ID u = i \<and> up_Provider u = ok_provider k) \<or> tm_credentials m i = Some c"
  shows "tm_credentials (LoadCredentials k us keys m) i = Some c"
  using assms(4)
proof (induction us arbitrary: m)
  case Nil then show ?case by simp
next
  case (Cons u us)
  have "(\<exists>u \<in> set us. up_ID u = i \<and> up_Provider u = ok_provider k) \<or> tm_credentials (load_one k keys u m) i = Some c"
    using Cons.prems assms(1-3) by (auto simp: load_one_cases)
  from Cons.IH[OF this] show ?case by simp
qed

lemma LoadCredentials_other:
  "\<forall>u \<in> set us. up_ID u = i \<longrightarrow> up_Provider u \<noteq> ok_provider k \<Longrightarrow>
     tm_credentials (LoadCredentials k us keys m) i = tm_credentials m i"
  by (induction us arbitrary: m) (auto simp: load_one_cases)

lemma Reload_origin:
  "tm_credentials (Reload_manager k us keys m) i = Some c \<Longrightarrow>
     tm_credentials m i = Some c \<or> (\<exists>raw. keys i = Some raw \<and> ok_parse k raw = Some c)"
  by (auto simp: Reload_manager_def Let_def New_manager_def dest: LoadCredentials_origin split: option.splits if_splits)

text \<open>A reload drops what the database no longer has and keeps, of what it has, the credentials that expire last, so a token
  refreshed a moment ago is not replaced by the older one a slow write has left in the row.\<close>
lemma reload_keeps_the_newest:
  assumes "keys i = Some raw" "raw \<noteq> ''''" "ok_parse k raw = Some stored" "u \<in> set us" "up_ID u = i" "up_Provider u = ok_provider k"
  shows "\<exists>c. tm_credentials (Reload_manager k us keys m) i = Some c \<and> ok_expires k stored \<le> ok_expires k c
     \<and> (\<forall>existing. tm_credentials m i = Some existing \<longrightarrow> ok_expires k existing \<le> ok_expires k c)
     \<and> (c = stored \<or> tm_credentials m i = Some c)"
proof -
  have "tm_credentials (LoadCredentials k us keys New_manager) i = Some stored"
    using assms by (intro LoadCredentials_loads) auto
  then show ?thesis by (auto simp: Reload_manager_def Let_def split: option.splits)
qed

lemma reload_drops:
  assumes "\<forall>u \<in> set us. up_ID u = i \<longrightarrow> up_Provider u \<noteq> ok_provider k"
  shows "tm_credentials (Reload_manager k us keys m) i = None"
proof -
  have "tm_credentials (LoadCredentials k us keys New_manager) i = None"
    by (simp add: LoadCredentials_other[OF assms] New_manager_def)
  then show ?thesis by (simp add: Reload_manager_def Let_def split: option.splits)
qed

section \<open>Any interleaving\<close>

datatype ('c, 'r) refresh_phase = Asked string string | Answered string 'r | Stored 'c

text \<open>A flight is one run of refreshToken: its key in the single-flight group, its upstream and where it is. Administrators
  refresh the row behind the manager's back (\<^term>\<open>ts_manual\<close>: the upstream, the credentials read, the answer once there),
  and a reload works on a snapshot it read earlier. \<^term>\<open>ts_stuck\<close>: a panic inside the second critical section leaves the
  mutex locked. The last three components are ghosts: the credentials administrators have entered, the answers of the
  endpoint with the refresh token they answer, and the access tokens handed out.\<close>
record ('c, 'r) token_system =
  ts_manager :: "'c token_manager"
  ts_rows :: "string \<Rightarrow> 'c option"
  ts_flights :: "(string \<times> string \<times> ('c, 'r) refresh_phase) list"
  ts_manual :: "(string \<times> 'c \<times> 'r option) list"
  ts_snapshots :: "(Upstream list \<times> (string \<Rightarrow> string option)) list"
  ts_stuck :: bool
  ts_logins :: "(string \<times> 'c) list"
  ts_answers :: "(string \<times> string \<times> 'r) list"
  ts_handed :: "(string \<times> string) list"

definition manual_client :: "('c, 'r) oauth_kind \<Rightarrow> 'c \<Rightarrow> string" where
  "manual_client k c = (if ok_client k c = '''' then ok_default_client k else ok_client k c)"

inductive token_step :: "('c, 'r) oauth_kind \<Rightarrow> ('c, 'r) token_system \<Rightarrow> ('c, 'r) token_system \<Rightarrow> bool" for k where
  begin_refresh: "key \<in> {i, ''force:'' @ i} \<Longrightarrow> key \<notin> fst ` set (ts_flights s) \<Longrightarrow> \<not> ts_stuck s \<Longrightarrow>
     refresh_request k outbound i (ts_manager s) = Some (clientID, refresh) \<Longrightarrow>
     token_step k s (s\<lparr>ts_flights := (key, i, Asked clientID refresh) # ts_flights s\<rparr>)"
| answer: "(key, i, Asked clientID refresh) \<in> set (ts_flights s) \<Longrightarrow>
     token_step k s (s\<lparr>ts_flights := (key, i, Answered clientID r) # remove1 (key, i, Asked clientID refresh) (ts_flights s),
       ts_answers := (i, refresh, r) # ts_answers s\<rparr>)"
| fail: "f \<in> set (ts_flights s) \<Longrightarrow> token_step k s (s\<lparr>ts_flights := remove1 f (ts_flights s)\<rparr>)"
| store: "(key, i, Answered clientID r) \<in> set (ts_flights s) \<Longrightarrow> \<not> ts_stuck s \<Longrightarrow>
     refresh_store k now i clientID r (ts_manager s) = Some (c, m') \<Longrightarrow>
     token_step k s (s\<lparr>ts_flights := (key, i, Stored c) # remove1 (key, i, Answered clientID r) (ts_flights s), ts_manager := m'\<rparr>)"
| panic: "(key, i, Answered clientID r) \<in> set (ts_flights s) \<Longrightarrow> \<not> ts_stuck s \<Longrightarrow>
     refresh_store k now i clientID r (ts_manager s) = None \<Longrightarrow>
     token_step k s (s\<lparr>ts_flights := remove1 (key, i, Answered clientID r) (ts_flights s), ts_stuck := True\<rparr>)"
| persist: "(key, i, Stored c) \<in> set (ts_flights s) \<Longrightarrow>
     token_step k s (s\<lparr>ts_flights := remove1 (key, i, Stored c) (ts_flights s), ts_rows := (if written then (ts_rows s)(i \<mapsto> c) else ts_rows s)\<rparr>)"
| hand_out: "tm_credentials (ts_manager s) i = Some c \<Longrightarrow> \<not> ts_stuck s \<Longrightarrow>
     token_step k s (s\<lparr>ts_handed := (i, ok_access k c) # ts_handed s\<rparr>)"
| snapshot: "\<forall>i raw c. keys i = Some raw \<longrightarrow> ok_parse k raw = Some c \<longrightarrow> ts_rows s i = Some c \<Longrightarrow>
     token_step k s (s\<lparr>ts_snapshots := (us, keys) # ts_snapshots s\<rparr>)"
| reload: "(us, keys) \<in> set (ts_snapshots s) \<Longrightarrow> \<not> ts_stuck s \<Longrightarrow>
     token_step k s (s\<lparr>ts_manager := Reload_manager k us keys (ts_manager s)\<rparr>)"
| login: "token_step k s (s\<lparr>ts_rows := (ts_rows s)(i \<mapsto> c), ts_logins := (i, c) # ts_logins s\<rparr>)"
| delete_row: "token_step k s (s\<lparr>ts_rows := (ts_rows s)(i := None)\<rparr>)"
| manual_read: "ts_rows s i = Some c \<Longrightarrow> token_step k s (s\<lparr>ts_manual := (i, c, None) # ts_manual s\<rparr>)"
| manual_answer: "(i, c, None) \<in> set (ts_manual s) \<Longrightarrow>
     token_step k s (s\<lparr>ts_manual := (i, c, Some r) # remove1 (i, c, None) (ts_manual s), ts_answers := (i, ok_refresh k c, r) # ts_answers s\<rparr>)"
| manual_write: "(i, c, Some r) \<in> set (ts_manual s) \<Longrightarrow> ok_update k now (manual_client k c) r (Some c) = Some c' \<Longrightarrow>
     token_step k s (s\<lparr>ts_manual := remove1 (i, c, Some r) (ts_manual s), ts_rows := (ts_rows s)(i \<mapsto> c')\<rparr>)"

definition token_initial :: "('c, 'r) token_system" where
  "token_initial = \<lparr>ts_manager = New_manager, ts_rows = Map.empty, ts_flights = [], ts_manual = [], ts_snapshots = [], ts_stuck = False,
     ts_logins = [], ts_answers = [], ts_handed = []\<rparr>"

section \<open>Where a token comes from\<close>

text \<open>\<^term>\<open>given\<close>: the tokens a login or an answer holds. A token of an upstream was entered for it or answered to it.\<close>
definition from_upstream :: "('c \<Rightarrow> string) \<Rightarrow> ('r \<Rightarrow> string set) \<Rightarrow> ('c, 'r) token_system \<Rightarrow> string \<Rightarrow> string \<Rightarrow> bool" where
  "from_upstream tok given s i t \<longleftrightarrow> (\<exists>c. (i, c) \<in> set (ts_logins s) \<and> tok c = t) \<or> (\<exists>sent r. (i, sent, r) \<in> set (ts_answers s) \<and> t \<in> given r)"

definition own :: "('c, 'r) oauth_kind \<Rightarrow> ('r \<Rightarrow> string set) \<Rightarrow> ('r \<Rightarrow> string set) \<Rightarrow> ('c, 'r) token_system \<Rightarrow> string \<Rightarrow> 'c \<Rightarrow> bool" where
  "own k access refresh s i c \<longleftrightarrow>
     from_upstream (ok_access k) access s i (ok_access k c) \<and> from_upstream (ok_refresh k) refresh s i (ok_refresh k c)"

text \<open>The contract of the two kinds: an update takes each token from the answer or leaves the one there was.\<close>
locale oauth_refresh =
  fixes k :: "('c, 'r) oauth_kind" and access :: "'r \<Rightarrow> string set" and refresh :: "'r \<Rightarrow> string set"
  assumes update_access: "ok_update k now clientID r cur = Some c \<Longrightarrow> ok_access k c \<in> access r \<or> (\<exists>c0. cur = Some c0 \<and> ok_access k c = ok_access k c0)"
    and update_refresh: "ok_update k now clientID r cur = Some c \<Longrightarrow> ok_refresh k c \<in> refresh r \<or> (\<exists>c0. cur = Some c0 \<and> ok_refresh k c = ok_refresh k c0)"
begin

lemma own_login: "(i, c) \<in> set (ts_logins s) \<Longrightarrow> own k access refresh s i c"
  by (auto simp: own_def from_upstream_def)

lemma own_update:
  assumes "ok_update k now clientID r cur = Some c" "(i, sent, r) \<in> set (ts_answers s)" "\<And>c0. cur = Some c0 \<Longrightarrow> own k access refresh s i c0"
  shows "own k access refresh s i c"
  using update_access[OF assms(1)] update_refresh[OF assms(1)] assms(2,3) unfolding own_def from_upstream_def by metis

end

text \<open>Everything the system holds for an upstream.\<close>
definition held :: "('c, 'r) oauth_kind \<Rightarrow> ('c, 'r) token_system \<Rightarrow> (string \<times> 'c) set" where
  "held k s = {(i, c). tm_credentials (ts_manager s) i = Some c \<or> ts_rows s i = Some c \<or> (\<exists>key. (key, i, Stored c) \<in> set (ts_flights s))
     \<or> (\<exists>r. (i, c, r) \<in> set (ts_manual s)) \<or> (\<exists>(us, keys) \<in> set (ts_snapshots s). \<exists>raw. keys i = Some raw \<and> ok_parse k raw = Some c)}"

definition answered_flights :: "('c, 'r) token_system \<Rightarrow> bool" where
  "answered_flights s \<longleftrightarrow> (\<forall>key i clientID r. (key, i, Answered clientID r) \<in> set (ts_flights s) \<longrightarrow> (\<exists>sent. (i, sent, r) \<in> set (ts_answers s)))
     \<and> (\<forall>i c a. (i, c, Some a) \<in> set (ts_manual s) \<longrightarrow> (\<exists>sent. (i, sent, a) \<in> set (ts_answers s)))"

definition token_inv :: "('c, 'r) oauth_kind \<Rightarrow> ('r \<Rightarrow> string set) \<Rightarrow> ('r \<Rightarrow> string set) \<Rightarrow> ('c, 'r) token_system \<Rightarrow> bool" where
  "token_inv k access refresh s \<longleftrightarrow>
     (\<forall>x \<in> held k s. own k access refresh s (fst x) (snd x)) \<and> answered_flights s
     \<and> (\<forall>x \<in> set (ts_handed s). from_upstream (ok_access k) access s (fst x) (snd x))
     \<and> (\<forall>x \<in> set (ts_answers s). from_upstream (ok_refresh k) refresh s (fst x) (fst (snd x)))
     \<and> (\<forall>key i clientID t. (key, i, Asked clientID t) \<in> set (ts_flights s) \<longrightarrow> from_upstream (ok_refresh k) refresh s i t)"

definition grows :: "('c, 'r) token_system \<Rightarrow> ('c, 'r) token_system \<Rightarrow> bool" where
  "grows s s' \<longleftrightarrow> set (ts_logins s) \<subseteq> set (ts_logins s') \<and> set (ts_answers s) \<subseteq> set (ts_answers s')"

lemma from_upstream_mono: "grows s s' \<Longrightarrow> from_upstream tok given s i t \<Longrightarrow> from_upstream tok given s' i t"
  unfolding grows_def from_upstream_def by blast

lemma own_mono: "grows s s' \<Longrightarrow> own k access refresh s i c \<Longrightarrow> own k access refresh s' i c"
  unfolding own_def by (blast intro: from_upstream_mono)

lemma in_remove1: "x \<in> set (remove1 y xs) \<Longrightarrow> x \<in> set xs"
  using set_remove1_subset by fast

text \<open>What a step has to show: the new entries.\<close>
lemma token_inv_intro:
  assumes "token_inv k access refresh s" "grows s s'"
    and "\<And>i c. (i, c) \<in> held k s' \<Longrightarrow> (i, c) \<in> held k s \<or> own k access refresh s' i c"
    and "\<And>key i cl r. (key, i, Answered cl r) \<in> set (ts_flights s') \<Longrightarrow> (key, i, Answered cl r) \<in> set (ts_flights s) \<or> (\<exists>sent. (i, sent, r) \<in> set (ts_answers s'))"
    and "\<And>i c r. (i, c, Some r) \<in> set (ts_manual s') \<Longrightarrow> (i, c, Some r) \<in> set (ts_manual s) \<or> (\<exists>sent. (i, sent, r) \<in> set (ts_answers s'))"
    and "\<And>i t. (i, t) \<in> set (ts_handed s') \<Longrightarrow> (i, t) \<in> set (ts_handed s) \<or> from_upstream (ok_access k) access s' i t"
    and "\<And>i t r. (i, t, r) \<in> set (ts_answers s') \<Longrightarrow> (i, t, r) \<in> set (ts_answers s) \<or> from_upstream (ok_refresh k) refresh s' i t"
    and "\<And>key i cl t. (key, i, Asked cl t) \<in> set (ts_flights s') \<Longrightarrow> (key, i, Asked cl t) \<in> set (ts_flights s) \<or> from_upstream (ok_refresh k) refresh s' i t"
  shows "token_inv k access refresh s'"
proof -
  have "own k access refresh s' (fst x) (snd x)" if "x \<in> held k s'" for x
    using assms(1,3) that own_mono[OF assms(2)] unfolding token_inv_def by (cases x) fastforce
  moreover have "from_upstream (ok_access k) access s' (fst x) (snd x)" if "x \<in> set (ts_handed s')" for x
    using assms(1,6) that from_upstream_mono[OF assms(2)] unfolding token_inv_def by (cases x) fastforce
  moreover have "from_upstream (ok_refresh k) refresh s' (fst x) (fst (snd x))" if "x \<in> set (ts_answers s')" for x
    using assms(1,7) that from_upstream_mono[OF assms(2)] unfolding token_inv_def by (cases x) fastforce
  moreover have "from_upstream (ok_refresh k) refresh s' i t" if "(key, i, Asked cl t) \<in> set (ts_flights s')" for key i cl t
    using assms(1,8) that from_upstream_mono[OF assms(2)] unfolding token_inv_def by blast
  moreover have "answered_flights s'"
  proof -
    have a: "answered_flights s" "set (ts_answers s) \<subseteq> set (ts_answers s')" using assms(1,2) by (simp_all add: token_inv_def grows_def)
    have "\<exists>sent. (i, sent, r) \<in> set (ts_answers s')" if "(key, i, Answered cl r) \<in> set (ts_flights s')" for key i cl r
      using assms(4)[OF that] a unfolding answered_flights_def by blast
    moreover have "\<exists>sent. (i, sent, r) \<in> set (ts_answers s')" if "(i, c, Some r) \<in> set (ts_manual s')" for i c r
      using assms(5)[OF that] a unfolding answered_flights_def by blast
    ultimately show ?thesis by (auto simp: answered_flights_def)
  qed
  ultimately show ?thesis unfolding token_inv_def by blast
qed

lemma held_cases:
  "(i, c) \<in> held k s \<longleftrightarrow> tm_credentials (ts_manager s) i = Some c \<or> ts_rows s i = Some c \<or> (\<exists>key. (key, i, Stored c) \<in> set (ts_flights s))
     \<or> (\<exists>r. (i, c, r) \<in> set (ts_manual s)) \<or> (\<exists>(us, keys) \<in> set (ts_snapshots s). \<exists>raw. keys i = Some raw \<and> ok_parse k raw = Some c)"
  by (simp add: held_def)

context oauth_refresh begin

lemma token_inv_step:
  assumes "token_inv k access refresh s" "token_step k s s'"
  shows "token_inv k access refresh s'"
proof -
  have inv: "\<And>i c. (i, c) \<in> held k s \<Longrightarrow> own k access refresh s i c" "answered_flights s"
      "\<And>key i cl t. (key, i, Asked cl t) \<in> set (ts_flights s) \<Longrightarrow> from_upstream (ok_refresh k) refresh s i t"
    using assms(1) unfolding token_inv_def by fastforce+
  show ?thesis using assms(2)
  proof cases
    case (begin_refresh key i outbound clientID t)
    have g: "grows s s'" by (simp add: grows_def begin_refresh(1))
    have "from_upstream (ok_refresh k) refresh s i t"
      using begin_refresh(5) inv(1)[of i] unfolding held_cases own_def by (auto simp: refresh_request_def split: option.splits if_splits)
    then show ?thesis using begin_refresh(1) inv(2) from_upstream_mono[OF g]
      by (intro token_inv_intro[OF assms(1) g]) (auto simp: held_cases)
  next
    case (answer key i clientID t r)
    have g: "grows s s'" by (auto simp: grows_def answer(1))
    show ?thesis using answer inv(2) from_upstream_mono[OF g inv(3)]
      by (intro token_inv_intro[OF assms(1) g]) (auto simp: held_cases dest!: in_remove1)
  next
    case (fail f)
    have g: "grows s s'" by (simp add: grows_def fail(1))
    show ?thesis using fail inv(2) by (intro token_inv_intro[OF assms(1) g]) (auto simp: held_cases dest!: in_remove1)
  next
    case (store key i clientID r now c m')
    have g: "grows s s'" by (simp add: grows_def store(1))
    obtain sent where "(i, sent, r) \<in> set (ts_answers s)" using inv(2) store(2) unfolding answered_flights_def by fastforce
    then have "own k access refresh s i c" using store(4) inv(1)[of i]
      by (auto simp: refresh_store_def held_cases intro: own_update)
    then have o: "own k access refresh s' i c" by (rule own_mono[OF g])
    have m: "m' = (ts_manager s)\<lparr>tm_credentials := (tm_credentials (ts_manager s))(i \<mapsto> c)\<rparr>" using store(4) by (auto simp: refresh_store_def)
    show ?thesis using store(1) inv(2) o m
      by (intro token_inv_intro[OF assms(1) g]) (auto simp: held_cases dest!: in_remove1 split: if_splits)
  next
    case (panic key i clientID r now)
    have g: "grows s s'" by (simp add: grows_def panic(1))
    show ?thesis using panic inv(2) by (intro token_inv_intro[OF assms(1) g]) (auto simp: held_cases dest!: in_remove1)
  next
    case (persist key i c written)
    have g: "grows s s'" by (simp add: grows_def persist(1))
    show ?thesis using persist inv(2)
      by (intro token_inv_intro[OF assms(1) g]) (auto simp: held_cases dest!: in_remove1 split: if_splits)
  next
    case (hand_out i c)
    have g: "grows s s'" by (simp add: grows_def hand_out(1))
    have "from_upstream (ok_access k) access s' i (ok_access k c)" using hand_out(2) inv(1)[of i c] from_upstream_mono[OF g] unfolding held_cases own_def by blast
    then show ?thesis using hand_out(1) inv(2) by (intro token_inv_intro[OF assms(1) g]) (auto simp: held_cases)
  next
    case (snapshot keys us)
    have g: "grows s s'" by (simp add: grows_def snapshot(1))
    show ?thesis using snapshot inv(2) by (intro token_inv_intro[OF assms(1) g]) (auto simp: held_cases)
  next
    case (reload us keys)
    have g: "grows s s'" by (simp add: grows_def reload(1))
    have "(i, c) \<in> held k s" if "tm_credentials (Reload_manager k us keys (ts_manager s)) i = Some c" for i c
      using Reload_origin[OF that] reload(2) unfolding held_cases by blast
    then show ?thesis using reload(1) inv(2) by (intro token_inv_intro[OF assms(1) g]) (auto simp: held_cases)
  next
    case (login i c)
    have g: "grows s s'" by (auto simp: grows_def login(1))
    have "own k access refresh s' i c" by (rule own_login) (simp add: login(1))
    then show ?thesis using login(1) inv(2) by (intro token_inv_intro[OF assms(1) g]) (auto simp: held_cases split: if_splits)
  next
    case (delete_row i)
    have g: "grows s s'" by (simp add: grows_def delete_row(1))
    show ?thesis using delete_row(1) inv(2) by (intro token_inv_intro[OF assms(1) g]) (auto simp: held_cases split: if_splits)
  next
    case (manual_read i c)
    have g: "grows s s'" by (simp add: grows_def manual_read(1))
    show ?thesis using manual_read inv(2) by (intro token_inv_intro[OF assms(1) g]) (auto simp: held_cases)
  next
    case (manual_answer i c r)
    have g: "grows s s'" by (auto simp: grows_def manual_answer(1))
    have "own k access refresh s i c" using manual_answer(2) inv(1) unfolding held_cases by blast
    then have "from_upstream (ok_refresh k) refresh s' i (ok_refresh k c)" using from_upstream_mono[OF g] unfolding own_def by blast
    then show ?thesis using manual_answer inv(2)
      by (intro token_inv_intro[OF assms(1) g]) (auto simp: held_cases dest!: in_remove1)
  next
    case (manual_write i c r now c')
    have g: "grows s s'" by (simp add: grows_def manual_write(1))
    obtain sent where "(i, sent, r) \<in> set (ts_answers s)" using inv(2) manual_write(2) unfolding answered_flights_def by fastforce
    then have "own k access refresh s i c'" using manual_write(2,3) inv(1)[of i] by (auto simp: held_cases intro: own_update)
    then have o: "own k access refresh s' i c'" by (rule own_mono[OF g])
    show ?thesis using manual_write(1) inv(2) o
      by (intro token_inv_intro[OF assms(1) g]) (auto simp: held_cases dest!: in_remove1 split: if_splits)
  qed
qed

lemma token_inv_reachable: "(token_step k)\<^sup>*\<^sup>* token_initial s \<Longrightarrow> token_inv k access refresh s"
proof (induction rule: rtranclp_induct)
  case base
  show ?case by (auto simp: token_inv_def token_initial_def held_def answered_flights_def New_manager_def)
next
  case (step s s') then show ?case using token_inv_step by blast
qed

lemma handed_tokens: "(token_step k)\<^sup>*\<^sup>* token_initial s \<Longrightarrow> (i, t) \<in> set (ts_handed s) \<Longrightarrow> from_upstream (ok_access k) access s i t"
  using token_inv_reachable unfolding token_inv_def by fastforce

lemma sent_tokens: "(token_step k)\<^sup>*\<^sup>* token_initial s \<Longrightarrow> (i, t, r) \<in> set (ts_answers s) \<Longrightarrow> from_upstream (ok_refresh k) refresh s i t"
  using token_inv_reachable unfolding token_inv_def by fastforce

lemma stored_credentials: "(token_step k)\<^sup>*\<^sup>* token_initial s \<Longrightarrow> ts_rows s i = Some c \<Longrightarrow> own k access refresh s i c"
  using token_inv_reachable unfolding token_inv_def held_def by fastforce

end

section \<open>The two kinds keep the contract\<close>

interpretation claude: oauth_refresh "claude_kind parse" "\<lambda>r. {ca_AccessToken r}" "\<lambda>r. {ca_RefreshToken r}" for parse
  by unfold_locales (auto simp: claude_kind_def claude_update_def)

interpretation codex: oauth_refresh "codex_kind parse claim" "\<lambda>r. set_option (xa_AccessToken r)" "\<lambda>r. set_option (xa_RefreshToken r)" for parse claim
  by unfold_locales (auto simp: codex_kind_def codex_update_def codex_merge_def the_or_def Let_def split: option.splits)


section \<open>How many refreshes\<close>

definition flight_key :: "string \<Rightarrow> string \<Rightarrow> bool" where
  "flight_key key i \<longleftrightarrow> key \<in> {i, ''force:'' @ i}"

definition flight_keys :: "(string \<times> string \<times> ('c, 'r) refresh_phase) list \<Rightarrow> bool" where
  "flight_keys fs \<longleftrightarrow> distinct (map fst fs) \<and> (\<forall>key i p. (key, i, p) \<in> set fs \<longrightarrow> flight_key key i)"

lemma distinct_fst_remove1: "distinct (map fst xs) \<Longrightarrow> distinct (map fst (remove1 x xs))"
  by (induction xs) (auto dest: in_remove1 simp: image_iff)

lemma fst_remove1: "distinct (map fst xs) \<Longrightarrow> (key, y) \<in> set xs \<Longrightarrow> key \<notin> fst ` set (remove1 (key, y) xs)"
  by (induction xs) (auto simp: image_iff dest: in_remove1)

lemma flight_keys_remove: "flight_keys fs \<Longrightarrow> flight_keys (remove1 f fs)"
  unfolding flight_keys_def by (blast intro: distinct_fst_remove1 dest: in_remove1)

lemma flight_keys_replace: "flight_keys fs \<Longrightarrow> (key, i, p) \<in> set fs \<Longrightarrow> flight_keys ((key, i, q) # remove1 (key, i, p) fs)"
  using flight_keys_remove[of fs "(key, i, p)"] fst_remove1[of fs key "(i, p)"] by (simp add: flight_keys_def) blast

lemma flight_keys_begin: "flight_keys fs \<Longrightarrow> key \<notin> fst ` set fs \<Longrightarrow> flight_key key i \<Longrightarrow> flight_keys ((key, i, q) # fs)"
  by (simp add: flight_keys_def)

lemma flight_keys_step: "flight_keys (ts_flights s) \<Longrightarrow> token_step k s s' \<Longrightarrow> flight_keys (ts_flights s')"
  by (erule token_step.cases)
    (simp_all add: flight_keys_remove flight_keys_replace flight_keys_begin flight_key_def)

lemma flight_keys_reachable: "(token_step k)\<^sup>*\<^sup>* token_initial s \<Longrightarrow> flight_keys (ts_flights s)"
proof (induction rule: rtranclp_induct)
  case base then show ?case by (simp add: flight_keys_def token_initial_def)
next
  case (step s s') then show ?case using flight_keys_step by blast
qed

text \<open>The single-flight groups bound the requests to the token endpoint: at any moment an upstream has at most two refreshes
  under way, however many requests wait for its token, one for expiry and one forced.\<close>
lemma refreshes_bounded:
  assumes "(token_step k)\<^sup>*\<^sup>* token_initial s"
  shows "length (filter (\<lambda>f. fst (snd f) = i) (ts_flights s)) \<le> 2"
proof -
  let ?f = "filter (\<lambda>f. fst (snd f) = i) (ts_flights s)"
  have k: "flight_keys (ts_flights s)" by (rule flight_keys_reachable[OF assms])
  then have "distinct (map fst ?f)" unfolding flight_keys_def by (simp add: distinct_map_filter)
  then have "length ?f = card (set (map fst ?f))" by (metis distinct_card length_map)
  also have "set (map fst ?f) \<subseteq> {i, ''force:'' @ i}" using k unfolding flight_keys_def flight_key_def by fastforce
  then have "card (set (map fst ?f)) \<le> card {i, ''force:'' @ i}" by (intro card_mono) simp_all
  also have "\<dots> \<le> 2" by (simp add: card_insert_if)
  finally show ?thesis .
qed

section \<open>What can go wrong\<close>

lemma stuck_step:
  "token_step k s s' \<Longrightarrow> ts_stuck s \<Longrightarrow> ts_stuck s' \<and> ts_handed s' = ts_handed s \<and> ts_manager s' = ts_manager s"
  by (erule token_step.cases) simp_all

lemma stuck_forever:
  "(token_step k)\<^sup>*\<^sup>* s s' \<Longrightarrow> ts_stuck s \<Longrightarrow> ts_stuck s' \<and> ts_handed s' = ts_handed s \<and> ts_manager s' = ts_manager s"
proof (induction rule: rtranclp_induct)
  case base then show ?case by simp
next
  case (step y z) then show ?case using stuck_step[of k y z] by simp
qed

definition sample_upstream :: "string \<Rightarrow> string \<Rightarrow> Upstream" where
  "sample_upstream i provider = \<lparr>up_ID = i, up_Provider = provider, up_Name = '''', up_BaseURL = '''', up_APIKeyEncrypted = [], up_ProxyMode = '''',
     up_SocksProxyURL = '''', up_SupportedModels = [], up_ModelMap = None, up_Weight = 1, up_MaxConcurrent = 0, up_ReadTimeout = 0, up_TestModel = '''', up_Status = ''active''\<rparr>"

definition sample_codex :: CodexCredentials where
  "sample_codex = \<lparr>cx_IDToken = '''', cx_AccessToken = ''at'', cx_RefreshToken = ''rt'', cx_ChatGPTAccountID = '''', cx_ExpiresAt = 0, cx_ClientID = ''''\<rparr>"

definition sample_claude :: ClaudeCodeCredentials where
  "sample_claude = \<lparr>cc_AccessToken = ''at'', cc_RefreshToken = ''rt'', cc_ExpiresAt = 0, cc_ClientID = ''''\<rparr>"

lemma loaded_state:
  fixes k :: "('c, 'r) oauth_kind"
  assumes "ok_parse k ''x'' = Some c" "ok_provider k = provider"
  shows "\<exists>s. (token_step k)\<^sup>*\<^sup>* token_initial s \<and> tm_credentials (ts_manager s) = [''u'' \<mapsto> c] \<and> ts_flights s = [] \<and> \<not> ts_stuck s
     \<and> ts_rows s = [''u'' \<mapsto> c] \<and> ts_answers s = [] \<and> ts_handed s = [] \<and> ts_logins s = [(''u'', c)]"
proof -
  let ?s0 = "token_initial :: ('c, 'r) token_system" and ?keys = "[''u'' \<mapsto> ''x'']" and ?us = "[sample_upstream ''u'' provider]"
  let ?s1 = "?s0\<lparr>ts_rows := (ts_rows ?s0)(''u'' \<mapsto> c), ts_logins := (''u'', c) # ts_logins ?s0\<rparr>"
  let ?s2 = "?s1\<lparr>ts_snapshots := (?us, ?keys) # ts_snapshots ?s1\<rparr>"
  let ?s3 = "?s2\<lparr>ts_manager := Reload_manager k ?us ?keys (ts_manager ?s2)\<rparr>"
  have 1: "token_step k ?s0 ?s1" by (rule token_step.login)
  have 2: "token_step k ?s1 ?s2" using assms(1) by (intro token_step.snapshot) (auto simp: token_initial_def)
  have 3: "token_step k ?s2 ?s3" by (intro token_step.reload) (simp_all add: token_initial_def)
  have "tm_credentials (ts_manager ?s3) = [''u'' \<mapsto> c]" using assms
    by (auto simp: Reload_manager_def load_one_cases token_initial_def New_manager_def sample_upstream_def fun_eq_iff Let_def split: option.splits)
  moreover have "(token_step k)\<^sup>*\<^sup>* ?s0 ?s3"
    by (rule converse_rtranclp_into_rtranclp[OF 1 converse_rtranclp_into_rtranclp[OF 2 r_into_rtranclp[of "token_step k", OF 3]]])
  ultimately show ?thesis by (intro exI[of _ ?s3]) (simp add: token_initial_def)
qed

text \<open>A refresh of a Codex token that is under way when a reload drops its upstream dereferences a nil pointer with the
  mutex held, and the mutex stays locked: from that moment no token of any Codex upstream is handed out again, whatever
  happens.\<close>
lemma codex_refresh_can_lock_up:
  "\<exists>s. (token_step (codex_kind (\<lambda>_. Some sample_codex) claim))\<^sup>*\<^sup>* token_initial s \<and> ts_stuck s
     \<and> (\<forall>s'. (token_step (codex_kind (\<lambda>_. Some sample_codex) claim))\<^sup>*\<^sup>* s s' \<longrightarrow> ts_handed s' = ts_handed s)"
proof -
  let ?k = "codex_kind (\<lambda>_. Some sample_codex) claim"
  obtain s0 where s0: "(token_step ?k)\<^sup>*\<^sup>* token_initial s0" "tm_credentials (ts_manager s0) = [''u'' \<mapsto> sample_codex]" "ts_flights s0 = []" "\<not> ts_stuck s0"
    using loaded_state[of ?k sample_codex] by (auto simp: codex_kind_def)
  let ?c = "ok_default_client ?k" and ?r = "\<lparr>xa_IDToken = None, xa_AccessToken = None, xa_RefreshToken = None, xa_ExpiresIn = 0\<rparr>"
  let ?s1 = "s0\<lparr>ts_flights := (''u'', ''u'', Asked ?c ''rt'') # ts_flights s0\<rparr>"
  let ?s2 = "?s1\<lparr>ts_flights := (''u'', ''u'', Answered ?c ?r) # remove1 (''u'', ''u'', Asked ?c ''rt'') (ts_flights ?s1), ts_answers := (''u'', ''rt'', ?r) # ts_answers ?s1\<rparr>"
  let ?s3 = "?s2\<lparr>ts_snapshots := ([], Map.empty) # ts_snapshots ?s2\<rparr>"
  let ?s4 = "?s3\<lparr>ts_manager := Reload_manager ?k [] Map.empty (ts_manager ?s3)\<rparr>"
  let ?s5 = "?s4\<lparr>ts_flights := remove1 (''u'', ''u'', Answered ?c ?r) (ts_flights ?s4), ts_stuck := True\<rparr>"
  have "refresh_request ?k None ''u'' (ts_manager s0) = Some (?c, ''rt'')" using s0(2) by (simp add: refresh_request_def codex_kind_def sample_codex_def)
  then have 1: "token_step ?k s0 ?s1" using s0(3,4) by (intro token_step.begin_refresh) auto
  have 2: "token_step ?k ?s1 ?s2" by (intro token_step.answer) simp
  have 3: "token_step ?k ?s2 ?s3" by (intro token_step.snapshot) simp
  have 4: "token_step ?k ?s3 ?s4" using s0(4) by (intro token_step.reload) simp_all
  have "tm_credentials (ts_manager ?s4) ''u'' = None" by (simp add: Reload_manager_def New_manager_def Let_def)
  then have "refresh_store ?k 0 ''u'' ?c ?r (ts_manager ?s4) = None" by (simp add: refresh_store_def codex_kind_def codex_update_def)
  then have 5: "token_step ?k ?s4 ?s5" using s0(4) by (intro token_step.panic) simp_all
  have "(token_step ?k)\<^sup>*\<^sup>* s0 ?s5"
    by (rule converse_rtranclp_into_rtranclp[OF 1 converse_rtranclp_into_rtranclp[OF 2 converse_rtranclp_into_rtranclp[OF 3 converse_rtranclp_into_rtranclp[OF 4 r_into_rtranclp[of "token_step ?k", OF 5]]]]])
  then have reach: "(token_step ?k)\<^sup>*\<^sup>* token_initial ?s5" by (rule rtranclp_trans[OF s0(1)])
  have stuck: "ts_stuck ?s5" by simp
  show ?thesis
    by (rule exI[of _ ?s5], intro conjI allI impI, rule reach, rule stuck)
      (drule stuck_forever, rule stuck, erule conjunct1[OF conjunct2])
qed

text \<open>The two keys of the single-flight group do not exclude each other: an expired and a forced refresh can both send the
  same refresh token, and the token endpoint may refuse the second one or revoke the pair.\<close>
lemma refresh_token_sent_twice:
  "\<exists>s r. (token_step (claude_kind (\<lambda>_. Some sample_claude)))\<^sup>*\<^sup>* token_initial s \<and> ts_answers s = [(''u'', ''rt'', r), (''u'', ''rt'', r)]"
proof -
  let ?k = "claude_kind (\<lambda>_. Some sample_claude)"
  obtain s0 where s0: "(token_step ?k)\<^sup>*\<^sup>* token_initial s0" "tm_credentials (ts_manager s0) = [''u'' \<mapsto> sample_claude]" "ts_flights s0 = []" "\<not> ts_stuck s0"
      "ts_answers s0 = []"
    using loaded_state[of ?k sample_claude] by (auto simp: claude_kind_def)
  let ?c = "ok_default_client ?k" and ?r = "\<lparr>ca_AccessToken = ''n'', ca_RefreshToken = ''m'', ca_ExpiresIn = 0\<rparr>"
  let ?s1 = "s0\<lparr>ts_flights := (''u'', ''u'', Asked ?c ''rt'') # ts_flights s0\<rparr>"
  let ?s2 = "?s1\<lparr>ts_flights := (''force:u'', ''u'', Asked ?c ''rt'') # ts_flights ?s1\<rparr>"
  let ?s3 = "?s2\<lparr>ts_flights := (''u'', ''u'', Answered ?c ?r) # remove1 (''u'', ''u'', Asked ?c ''rt'') (ts_flights ?s2), ts_answers := (''u'', ''rt'', ?r) # ts_answers ?s2\<rparr>"
  let ?s4 = "?s3\<lparr>ts_flights := (''force:u'', ''u'', Answered ?c ?r) # remove1 (''force:u'', ''u'', Asked ?c ''rt'') (ts_flights ?s3), ts_answers := (''u'', ''rt'', ?r) # ts_answers ?s3\<rparr>"
  have "refresh_request ?k None ''u'' (ts_manager s0) = Some (?c, ''rt'')" using s0(2) by (simp add: refresh_request_def claude_kind_def sample_claude_def)
  then have 1: "token_step ?k s0 ?s1" and 2: "token_step ?k ?s1 ?s2"
    using s0(3,4) by (intro token_step.begin_refresh[where outbound = None]; simp)+
  have 3: "token_step ?k ?s2 ?s3" by (intro token_step.answer) simp
  have 4: "token_step ?k ?s3 ?s4" by (intro token_step.answer) simp
  have "(token_step ?k)\<^sup>*\<^sup>* s0 ?s4"
    by (rule converse_rtranclp_into_rtranclp[OF 1 converse_rtranclp_into_rtranclp[OF 2 converse_rtranclp_into_rtranclp[OF 3 r_into_rtranclp[of "token_step ?k", OF 4]]]])
  then have reach: "(token_step ?k)\<^sup>*\<^sup>* token_initial ?s4" by (rule rtranclp_trans[OF s0(1)])
  have "ts_answers ?s4 = [(''u'', ''rt'', ?r), (''u'', ''rt'', ?r)]" using s0(5) by simp
  then show ?thesis by (intro exI conjI) (rule reach)
qed

text \<open>Credentials entered with an earlier expiry than those in memory are ignored until a restart.\<close>
lemma earlier_login_is_ignored:
  assumes "keys i = Some raw" "raw \<noteq> ''''" "ok_parse k raw = Some entered" "u \<in> set us" "up_ID u = i" "up_Provider u = ok_provider k"
    and "tm_credentials m i = Some old" "ok_expires k entered < ok_expires k old"
  shows "tm_credentials (Reload_manager k us keys m) i = Some old"
proof -
  have "\<exists>c. tm_credentials (Reload_manager k us keys m) i = Some c \<and> ok_expires k entered \<le> ok_expires k c
     \<and> (\<forall>existing. tm_credentials m i = Some existing \<longrightarrow> ok_expires k existing \<le> ok_expires k c)
     \<and> (c = entered \<or> tm_credentials m i = Some c)"
    using assms(1-6) by (intro reload_keeps_the_newest) auto
  then show ?thesis using assms(7,8) by auto
qed

text \<open>An answer without a refresh token leaves a Claude Code upstream without one, a Codex upstream with the one it had.\<close>
lemma answer_without_refresh_token:
  "claude_update now cl \<lparr>ca_AccessToken = a, ca_RefreshToken = '''', ca_ExpiresIn = n\<rparr> cur = Some c \<Longrightarrow> cc_RefreshToken c = ''''"
  "codex_update claim now cl \<lparr>xa_IDToken = t, xa_AccessToken = b, xa_RefreshToken = None, xa_ExpiresIn = n\<rparr> (Some c0) = Some c2 \<Longrightarrow>
     cx_RefreshToken c2 = cx_RefreshToken c0"
  by (auto simp: claude_update_def codex_update_def codex_merge_def Let_def)


lemma refreshes_bounded_witness:
  "\<exists>s. (token_step (claude_kind (\<lambda>_. Some sample_claude)))\<^sup>*\<^sup>* token_initial s \<and> ts_flights s \<noteq> []
     \<and> length (filter (\<lambda>f. fst (snd f) = ''u'') (ts_flights s)) \<le> 2"
proof -
  let ?k = "claude_kind (\<lambda>_. Some sample_claude)"
  obtain s0 where s0: "(token_step ?k)\<^sup>*\<^sup>* token_initial s0" "tm_credentials (ts_manager s0) = [''u'' \<mapsto> sample_claude]" "\<not> ts_stuck s0" "ts_flights s0 = []"
    using loaded_state[of ?k sample_claude] by (auto simp: claude_kind_def)
  have "refresh_request ?k None ''u'' (ts_manager s0) = Some (ok_default_client ?k, ''rt'')" using s0(2) by (simp add: refresh_request_def claude_kind_def sample_claude_def)
  then have "token_step ?k s0 (s0\<lparr>ts_flights := (''u'', ''u'', Asked (ok_default_client ?k) ''rt'') # ts_flights s0\<rparr>)"
    using s0(3,4) by (intro token_step.begin_refresh) auto
  then obtain s where s: "(token_step ?k)\<^sup>*\<^sup>* token_initial s" "ts_flights s \<noteq> []"
    using s0(1) by (force dest: rtranclp.rtrancl_into_rtrancl)
  then show ?thesis using refreshes_bounded[OF s(1), of "''u''"] by blast
qed

end
