(* ===== verification/OAuthAdmin.thy ===== *)
theory OAuthAdmin
  imports Billing GoUrl TokenManager
begin

text \<open>
  The administrators' side of the OAuth upstreams: admin/handle_claudecode_oauth.go and admin/handle_codex_oauth.go.
  They start an authorization with a proof key, exchange its code for credentials, show and refresh the credentials in
  an upstream's row, and refresh them on the way to the provider's usage page. The usage page itself, which fills
  the provider's JSON with local sums, is not modelled. Requests to the provider, the choice of the outbound proxy,
  JSON, SHA-256, random draws and the database's success are parameters.
\<close>

section \<open>Starting an authorization\<close>

record oauth_start =
  oa_auth_url :: string
  oa_state :: string
  oa_code_verifier :: string
  oa_redirect_uri :: string

definition ClaudeCodeScopes :: string where
  "ClaudeCodeScopes = ''user:profile user:inference user:sessions:claude_code user:mcp_servers user:file_upload''"

definition CodexScopes :: string where
  "CodexScopes = ''openid profile email offline_access api.connectors.read api.connectors.invoke''"

text \<open>\<^term>\<open>redirect\<close> is empty when the body has none; the draws are the 64 and the 32 random bytes.\<close>
definition handleClaudeCodeOAuthStart :: "(bytes \<Rightarrow> bytes) \<Rightarrow> bytes option \<Rightarrow> bytes option \<Rightarrow> string \<Rightarrow> oauth_start response" where
  "handleClaudeCodeOAuthStart sha256 verifierBytes stateBytes redirect =
     (let redirectURI = (if redirect = '''' then ''http://localhost:54545/callback'' else redirect) in
      case verifierBytes of None \<Rightarrow> Failure 500 ''internal''
      | Some vb \<Rightarrow>
          (let codeVerifier = base64_raw_encode vb; codeChallenge = base64_raw_encode (sha256 (string_bytes codeVerifier)) in
           case stateBytes of None \<Rightarrow> Failure 500 ''internal''
           | Some sb \<Rightarrow>
               (let state = base64_raw_encode sb;
                    params = [(''response_type'', ''code''), (''client_id'', ''9d1c250a-e61b-44d9-88ed-5944d1962f5e''), (''redirect_uri'', redirectURI),
                      (''scope'', ClaudeCodeScopes), (''code_challenge'', codeChallenge), (''code_challenge_method'', ''S256''), (''state'', state)]
                in Success 200 \<lparr>oa_auth_url = ''https://claude.ai/oauth/authorize'' @ ''?'' @ Values_Encode params, oa_state = state,
                     oa_code_verifier = codeVerifier, oa_redirect_uri = redirectURI\<rparr>)))"

definition handleCodexOAuthStart :: "(bytes \<Rightarrow> bytes) \<Rightarrow> bytes option \<Rightarrow> bytes option \<Rightarrow> string \<Rightarrow> oauth_start response" where
  "handleCodexOAuthStart sha256 verifierBytes stateBytes redirect =
     (let redirectURI = (if redirect = '''' then ''http://localhost:1455/auth/callback'' else redirect) in
      case verifierBytes of None \<Rightarrow> Failure 500 ''internal''
      | Some vb \<Rightarrow>
          (let codeVerifier = base64_raw_encode vb; codeChallenge = base64_raw_encode (sha256 (string_bytes codeVerifier)) in
           case stateBytes of None \<Rightarrow> Failure 500 ''internal''
           | Some sb \<Rightarrow>
               (let state = base64_raw_encode sb;
                    params = [(''response_type'', ''code''), (''client_id'', ''app_EMoamEEZ73f0CkXaXp7hrann''), (''redirect_uri'', redirectURI),
                      (''scope'', CodexScopes), (''code_challenge'', codeChallenge), (''code_challenge_method'', ''S256''), (''state'', state),
                      (''id_token_add_organizations'', ''true''), (''codex_cli_simplified_flow'', ''true''), (''originator'', ''codex_cli_rs'')]
                in Success 200 \<lparr>oa_auth_url = ''https://auth.openai.com/oauth/authorize'' @ ''?'' @ Values_Encode params, oa_state = state,
                     oa_code_verifier = codeVerifier, oa_redirect_uri = redirectURI\<rparr>)))"

section \<open>Exchanging the code\<close>

record exchange_body =
  eb_code :: string
  eb_callback_url :: string
  eb_state :: string
  eb_code_verifier :: string
  eb_redirect_uri :: string

text \<open>The code of the body or of the callback URL in it; None where that URL does not parse.\<close>
definition exchange_body_code :: "url_lib \<Rightarrow> exchange_body \<Rightarrow> string option" where
  "exchange_body_code ul b =
     (if eb_code b = '''' \<and> eb_callback_url b \<noteq> ''''
      then map_option (\<lambda>u. Values_Get ''code'' (ParseQuery (url_RawQuery u))) (ul_Parse ul (eb_callback_url b))
      else Some (eb_code b))"

text \<open>\<^term>\<open>post\<close>: the endpoint's status and decoded answer to a form.\<close>
definition handleClaudeCodeOAuthExchange ::
  "url_lib \<Rightarrow> bool \<Rightarrow> ((string \<times> string) list \<Rightarrow> (int \<times> claude_answer option) option) \<Rightarrow> go_time \<Rightarrow> exchange_body option \<Rightarrow> ClaudeCodeCredentials response" where
  "handleClaudeCodeOAuthExchange ul client post now body =
     (case body of None \<Rightarrow> Failure 400 ''bad_request''
      | Some b \<Rightarrow>
          (case exchange_body_code ul b of None \<Rightarrow> Failure 400 ''bad_request''
           | Some code \<Rightarrow>
               if code = '''' \<or> eb_code_verifier b = '''' then Failure 400 ''bad_request''
               else if \<not> client then Failure 400 ''bad_request''
               else (case post [(''grant_type'', ''authorization_code''), (''code'', code), (''client_id'', ''9d1c250a-e61b-44d9-88ed-5944d1962f5e''),
                       (''redirect_uri'', if eb_redirect_uri b = '''' then ''http://localhost:54545/callback'' else eb_redirect_uri b),
                       (''code_verifier'', eb_code_verifier b), (''state'', eb_state b)] of
                  None \<Rightarrow> Failure 502 ''upstream_error''
                | Some (status, answer) \<Rightarrow>
                    if status \<noteq> 200 then Failure 502 ''upstream_error''
                    else (case answer of None \<Rightarrow> Failure 500 ''internal''
                      | Some r \<Rightarrow> Success 200 \<lparr>cc_AccessToken = ca_AccessToken r, cc_RefreshToken = ca_RefreshToken r,
                          cc_ExpiresAt = i64 (unix_time now + ca_ExpiresIn r), cc_ClientID = ''9d1c250a-e61b-44d9-88ed-5944d1962f5e''\<rparr>))))"

text \<open>strings.Split for one character.\<close>
function strings_split :: "char \<Rightarrow> string \<Rightarrow> string list" where
  "strings_split sep s =
     (case dropWhile (\<lambda>c. c \<noteq> sep) s of [] \<Rightarrow> [s] | _ # r \<Rightarrow> takeWhile (\<lambda>c. c \<noteq> sep) s # strings_split sep r)"
  by pat_completeness auto
termination
proof (relation "measure (\<lambda>(sep, s). length s)", goal_cases)
  case (2 sep s x r)
  then show ?case using length_dropWhile_le[of "\<lambda>c. c \<noteq> sep" s] by simp
qed simp

declare strings_split.simps [simp del]

definition extractCodexAccountID :: "(bytes \<Rightarrow> string option) \<Rightarrow> string \<Rightarrow> string" where
  "extractCodexAccountID claim idToken =
     (case strings_split (CHR ''.'') idToken of
        [_, payload, _] \<Rightarrow> (case base64_raw_decode payload of None \<Rightarrow> '''' | Some p \<Rightarrow> the_or '''' (claim p))
      | _ \<Rightarrow> '''')"

text \<open>The answer's id token is not kept; an absent string decodes to the empty one.\<close>
definition handleCodexOAuthExchange ::
  "url_lib \<Rightarrow> (bytes \<Rightarrow> string option) \<Rightarrow> bool \<Rightarrow> ((string \<times> string) list \<Rightarrow> (int \<times> codex_answer option) option) \<Rightarrow> go_time \<Rightarrow> exchange_body option
   \<Rightarrow> CodexCredentials response" where
  "handleCodexOAuthExchange ul claim client post now body =
     (case body of None \<Rightarrow> Failure 400 ''bad_request''
      | Some b \<Rightarrow>
          (case exchange_body_code ul b of None \<Rightarrow> Failure 400 ''bad_request''
           | Some code \<Rightarrow>
               if code = '''' \<or> eb_code_verifier b = '''' then Failure 400 ''bad_request''
               else if \<not> client then Failure 400 ''bad_request''
               else (case post [(''grant_type'', ''authorization_code''), (''code'', code), (''client_id'', ''app_EMoamEEZ73f0CkXaXp7hrann''),
                       (''redirect_uri'', if eb_redirect_uri b = '''' then ''http://localhost:1455/auth/callback'' else eb_redirect_uri b),
                       (''code_verifier'', eb_code_verifier b)] of
                  None \<Rightarrow> Failure 502 ''upstream_error''
                | Some (status, answer) \<Rightarrow>
                    if status \<noteq> 200 then Failure 502 ''upstream_error''
                    else (case answer of None \<Rightarrow> Failure 500 ''internal''
                      | Some r \<Rightarrow> Success 200 \<lparr>cx_IDToken = '''', cx_AccessToken = the_or '''' (xa_AccessToken r),
                          cx_RefreshToken = the_or '''' (xa_RefreshToken r), cx_ChatGPTAccountID = extractCodexAccountID claim (the_or '''' (xa_IDToken r)),
                          cx_ExpiresAt = i64 (unix_time now + xa_ExpiresIn r), cx_ClientID = ''app_EMoamEEZ73f0CkXaXp7hrann''\<rparr>))))"

section \<open>Credentials in the rows\<close>

type_synonym upstream_rows = "string \<Rightarrow> Upstream option"

text \<open>What lies outside of one request. \<^term>\<open>aw_post\<close>: the endpoint's answer for a client id and a refresh token.\<close>
record 'r oauth_world =
  aw_up :: "string \<Rightarrow> bool"
  aw_newGCM :: "bytes \<Rightarrow> aead option"
  aw_rand :: "nat \<Rightarrow> bytes option"
  aw_key :: bytes
  aw_client :: bool
  aw_post :: "string \<Rightarrow> string \<Rightarrow> (int \<times> 'r option) option"
  aw_now :: go_time

text \<open>The beginning the handlers share: the row, its provider, the decrypted and parsed credentials.\<close>
definition row_credentials ::
  "string \<Rightarrow> (string \<Rightarrow> 'c option) \<Rightarrow> 'r oauth_world \<Rightarrow> string \<Rightarrow> upstream_rows \<Rightarrow> int \<times> string + Upstream \<times> 'c" where
  "row_credentials provider parse w i rows =
     (case (if aw_up w ''Get'' then rows i else None) of None \<Rightarrow> Inl (404, ''not_found'')
      | Some u \<Rightarrow>
          if up_Provider u \<noteq> provider then Inl (400, ''bad_request'')
          else (case Decrypt (aw_newGCM w) (aw_key w) (up_APIKeyEncrypted u) of Inl _ \<Rightarrow> Inl (500, ''internal'')
            | Inr plaintext \<Rightarrow> (case parse (bytes_string plaintext) of None \<Rightarrow> Inl (500, ''internal'') | Some c \<Rightarrow> Inr (u, c))))"

text \<open>UpdateUpstream of the one column.\<close>
definition put_key :: "string \<Rightarrow> bytes \<Rightarrow> upstream_rows \<Rightarrow> upstream_rows" where
  "put_key i sealed rows = rows(i := map_option (\<lambda>u. u\<lparr>up_APIKeyEncrypted := sealed\<rparr>) (rows i))"

definition handleClaudeCodeTokenStatus ::
  "(string \<Rightarrow> ClaudeCodeCredentials option) \<Rightarrow> 'r oauth_world \<Rightarrow> string \<Rightarrow> upstream_rows \<Rightarrow> (int \<times> bool) response" where
  "handleClaudeCodeTokenStatus parse w i rows =
     (case row_credentials ''claudecode'' parse w i rows of Inl (st, e) \<Rightarrow> Failure st e
      | Inr (u, c) \<Rightarrow> Success 200 (cc_ExpiresAt c, cc_RefreshToken c \<noteq> ''''))"

definition handleCodexTokenStatus ::
  "(string \<Rightarrow> CodexCredentials option) \<Rightarrow> 'r oauth_world \<Rightarrow> string \<Rightarrow> upstream_rows \<Rightarrow> (int \<times> bool \<times> string) response" where
  "handleCodexTokenStatus parse w i rows =
     (case row_credentials ''codex'' parse w i rows of Inl (st, e) \<Rightarrow> Failure st e
      | Inr (u, c) \<Rightarrow> Success 200 (cx_ExpiresAt c, cx_RefreshToken c \<noteq> '''', cx_ChatGPTAccountID c))"

definition handleClaudeCodeTokenRefresh ::
  "(string \<Rightarrow> ClaudeCodeCredentials option) \<Rightarrow> (ClaudeCodeCredentials \<Rightarrow> string) \<Rightarrow> claude_answer oauth_world \<Rightarrow> string \<Rightarrow> upstream_rows
   \<Rightarrow> (int \<times> bool) response \<times> upstream_rows" where
  "handleClaudeCodeTokenRefresh parse marshal w i rows =
     (case row_credentials ''claudecode'' parse w i rows of Inl (st, e) \<Rightarrow> (Failure st e, rows)
      | Inr (u, c) \<Rightarrow>
          if cc_RefreshToken c = '''' then (Failure 400 ''bad_request'', rows)
          else (let clientID = (if cc_ClientID c = '''' then ''9d1c250a-e61b-44d9-88ed-5944d1962f5e'' else cc_ClientID c) in
            if \<not> aw_client w then (Failure 502 ''upstream_error'', rows)
            else case aw_post w clientID (cc_RefreshToken c) of None \<Rightarrow> (Failure 502 ''upstream_error'', rows)
              | Some (status, answer) \<Rightarrow>
                  if status \<noteq> 200 then (Failure 502 ''upstream_error'', rows)
                  else (case answer of None \<Rightarrow> (Failure 500 ''internal'', rows)
                    | Some r \<Rightarrow>
                        (let new = \<lparr>cc_AccessToken = ca_AccessToken r, cc_RefreshToken = ca_RefreshToken r,
                              cc_ExpiresAt = i64 (unix_time (aw_now w) + ca_ExpiresIn r), cc_ClientID = clientID\<rparr>
                         in case Encrypt (aw_newGCM w) (aw_rand w) (aw_key w) (string_bytes (marshal new)) of
                              Inl _ \<Rightarrow> (Failure 500 ''internal'', rows)
                            | Inr sealed \<Rightarrow>
                                if \<not> aw_up w ''Update'' then (Failure 500 ''internal'', rows)
                                else (Success 200 (cc_ExpiresAt new, cc_RefreshToken new \<noteq> ''''), put_key i sealed rows)))))"

text \<open>The merge as the handlers of this file write it.\<close>
definition codex_admin_merge :: "(bytes \<Rightarrow> string option) \<Rightarrow> go_time \<Rightarrow> string \<Rightarrow> codex_answer \<Rightarrow> CodexCredentials \<Rightarrow> CodexCredentials" where
  "codex_admin_merge claim now clientID r creds =
     (let c1 = (case xa_AccessToken r of None \<Rightarrow> creds | Some t \<Rightarrow> creds\<lparr>cx_AccessToken := t\<rparr>);
          c2 = (case xa_RefreshToken r of None \<Rightarrow> c1 | Some t \<Rightarrow> c1\<lparr>cx_RefreshToken := t\<rparr>);
          c3 = (case xa_IDToken r of None \<Rightarrow> c2
                | Some t \<Rightarrow> (let id = extractCodexAccountID claim t; c = c2\<lparr>cx_IDToken := t\<rparr>
                     in if id \<noteq> '''' then c\<lparr>cx_ChatGPTAccountID := id\<rparr> else c));
          c4 = (if xa_ExpiresIn r > 0 then c3\<lparr>cx_ExpiresAt := i64 (unix_time now + xa_ExpiresIn r)\<rparr> else c3)
      in c4\<lparr>cx_ClientID := clientID\<rparr>)"

definition handleCodexTokenRefresh ::
  "(string \<Rightarrow> CodexCredentials option) \<Rightarrow> (CodexCredentials \<Rightarrow> string) \<Rightarrow> (bytes \<Rightarrow> string option) \<Rightarrow> codex_answer oauth_world \<Rightarrow> string \<Rightarrow> upstream_rows
   \<Rightarrow> (int \<times> bool \<times> string) response \<times> upstream_rows" where
  "handleCodexTokenRefresh parse marshal claim w i rows =
     (case row_credentials ''codex'' parse w i rows of Inl (st, e) \<Rightarrow> (Failure st e, rows)
      | Inr (u, c) \<Rightarrow>
          if cx_RefreshToken c = '''' then (Failure 400 ''bad_request'', rows)
          else (let clientID = (if cx_ClientID c = '''' then ''app_EMoamEEZ73f0CkXaXp7hrann'' else cx_ClientID c) in
            if \<not> aw_client w then (Failure 502 ''upstream_error'', rows)
            else case aw_post w clientID (cx_RefreshToken c) of None \<Rightarrow> (Failure 502 ''upstream_error'', rows)
              | Some (status, answer) \<Rightarrow>
                  if status \<noteq> 200 then (Failure 502 ''upstream_error'', rows)
                  else (case answer of None \<Rightarrow> (Failure 500 ''internal'', rows)
                    | Some r \<Rightarrow>
                        (let new = codex_admin_merge claim (aw_now w) clientID r c
                         in case Encrypt (aw_newGCM w) (aw_rand w) (aw_key w) (string_bytes (marshal new)) of
                              Inl _ \<Rightarrow> (Failure 500 ''internal'', rows)
                            | Inr sealed \<Rightarrow>
                                if \<not> aw_up w ''Update'' then (Failure 500 ''internal'', rows)
                                else (Success 200 (cx_ExpiresAt new, cx_RefreshToken new \<noteq> '''', cx_ChatGPTAccountID new), put_key i sealed rows)))))"

text \<open>On the way to the usage page; whatever fails, the credentials stay as they were.\<close>
definition refreshCodexCredentialsIfNeeded ::
  "(CodexCredentials \<Rightarrow> string) \<Rightarrow> (bytes \<Rightarrow> string option) \<Rightarrow> codex_answer oauth_world \<Rightarrow> string \<Rightarrow> CodexCredentials \<Rightarrow> upstream_rows
   \<Rightarrow> CodexCredentials \<times> upstream_rows" where
  "refreshCodexCredentialsIfNeeded marshal claim w i c rows =
     (if unix_time (aw_now w) \<le> i64 (cx_ExpiresAt c - 300) \<or> cx_RefreshToken c = '''' then (c, rows)
      else (let clientID = (if cx_ClientID c = '''' then ''app_EMoamEEZ73f0CkXaXp7hrann'' else cx_ClientID c) in
        if \<not> aw_client w then (c, rows)
        else case aw_post w clientID (cx_RefreshToken c) of
               Some (status, Some r) \<Rightarrow>
                 if status \<noteq> 200 then (c, rows)
                 else (let new = codex_admin_merge claim (aw_now w) clientID r c
                       in (new, case Encrypt (aw_newGCM w) (aw_rand w) (aw_key w) (string_bytes (marshal new)) of
                                  Inl _ \<Rightarrow> rows | Inr sealed \<Rightarrow> if aw_up w ''Update'' then put_key i sealed rows else rows))
             | _ \<Rightarrow> (c, rows)))"

text \<open>The same step of handleClaudeCodeUtilization; None: the proxy lookup fails and the page answers 502. An answer without an
  access token is ignored here.\<close>
definition claude_utilization_refresh ::
  "(ClaudeCodeCredentials \<Rightarrow> string) \<Rightarrow> claude_answer oauth_world \<Rightarrow> string \<Rightarrow> ClaudeCodeCredentials \<Rightarrow> upstream_rows \<Rightarrow> (string \<times> upstream_rows) option" where
  "claude_utilization_refresh marshal w i c rows =
     (if unix_time (aw_now w) > i64 (cc_ExpiresAt c - 300) \<and> cc_RefreshToken c \<noteq> '''' then
        (let clientID = (if cc_ClientID c = '''' then ''9d1c250a-e61b-44d9-88ed-5944d1962f5e'' else cc_ClientID c) in
         if \<not> aw_client w then None
         else case aw_post w clientID (cc_RefreshToken c) of
                Some (status, Some r) \<Rightarrow>
                  if status = 200 \<and> ca_AccessToken r \<noteq> '''' then
                    (let new = \<lparr>cc_AccessToken = ca_AccessToken r, cc_RefreshToken = ca_RefreshToken r,
                           cc_ExpiresAt = i64 (unix_time (aw_now w) + ca_ExpiresIn r), cc_ClientID = clientID\<rparr>
                     in Some (ca_AccessToken r, case Encrypt (aw_newGCM w) (aw_rand w) (aw_key w) (string_bytes (marshal new)) of
                          Inl _ \<Rightarrow> rows | Inr sealed \<Rightarrow> if aw_up w ''Update'' then put_key i sealed rows else rows))
                  else Some (cc_AccessToken c, rows)
              | _ \<Rightarrow> Some (cc_AccessToken c, rows))
      else Some (cc_AccessToken c, rows))"

definition codexWindowTypeFromSeconds :: "int \<Rightarrow> string" where
  "codexWindowTypeFromSeconds seconds =
     (if seconds = 18000 then ''5h'' else if seconds = 604800 then ''7d'' else '''')"

section \<open>The parsers agree\<close>

lemma strings_split_step:
  "strings_split sep (c # s) = (if c = sep then [] # strings_split sep s
     else (case strings_split sep s of p # ps \<Rightarrow> (c # p) # ps | [] \<Rightarrow> []))"
proof (cases "c = sep")
  case True
  then show ?thesis by (simp add: strings_split.simps[of sep "sep # s"])
next
  case False
  then show ?thesis
    by (cases "dropWhile (\<lambda>c. c \<noteq> sep) s") (simp_all add: strings_split.simps[of sep "c # s"] strings_split.simps[of sep s] del: dropWhile_eq_Nil_conv)
qed

lemma strings_split_nonempty: "strings_split sep s \<noteq> []"
  by (simp add: strings_split.simps[of sep s] split: list.split)

lemma strings_split_Nil: "strings_split sep [] = [[]]"
  by (simp add: strings_split.simps[of sep "[]"])

lemma split_dots_strings_split:
  "split_dots part s = (case strings_split (CHR ''.'') s of p # ps \<Rightarrow> (part @ p) # ps | [] \<Rightarrow> [])"
proof (induction part s rule: split_dots.induct)
  case (1 part)
  show ?case by (simp add: strings_split_Nil)
next
  case (2 part c s)
  show ?case
  proof (cases "c = CHR ''.''")
    case True
    then show ?thesis using 2(1) strings_split_nonempty[of "CHR ''.''" s]
      by (simp add: strings_split_step split: list.splits)
  next
    case False
    then show ?thesis using 2(2) by (simp add: strings_split_step split: list.splits)
  qed
qed

lemma splitJWT_is_split: "splitJWT token = strings_split (CHR ''.'') token"
  using strings_split_nonempty[of "CHR ''.''" token] by (simp add: splitJWT_def split_dots_strings_split split: list.splits)

lemma account_id_agrees: "extractCodexAccountID claim t = extractChatGPTAccountIDFromIDToken claim t"
  by (simp add: extractCodexAccountID_def extractChatGPTAccountIDFromIDToken_def splitJWT_is_split)

lemma admin_merge_agrees: "codex_admin_merge claim now clientID r c = codex_merge claim now clientID r c"
  by (simp add: codex_admin_merge_def codex_merge_def account_id_agrees Let_def the_or_def split: option.split)

section \<open>The rows and the managers\<close>

text \<open>The credentials the managers' system sees in the rows.\<close>
definition abs_rows :: "string \<Rightarrow> (string \<Rightarrow> 'c option) \<Rightarrow> 'r oauth_world \<Rightarrow> upstream_rows \<Rightarrow> string \<Rightarrow> 'c option" where
  "abs_rows provider parse w rows i =
     (case rows i of None \<Rightarrow> None
      | Some u \<Rightarrow>
          if up_Provider u \<noteq> provider then None
          else (case Decrypt (aw_newGCM w) (aw_key w) (up_APIKeyEncrypted u) of Inl _ \<Rightarrow> None | Inr plaintext \<Rightarrow> parse (bytes_string plaintext)))"

definition aead_ok :: "'r oauth_world \<Rightarrow> bool" where
  "aead_ok w \<longleftrightarrow> (\<forall>n r. aw_rand w n = Some r \<longrightarrow> length r = n)
     \<and> (\<forall>g n p. aw_newGCM w (aw_key w) = Some g \<longrightarrow> unseal g n (seal g n p) = Some p)"

text \<open>Steps of the system, in which nothing but the rows moves, lead from one content of the rows to the other.\<close>
definition row_steps :: "('c, 'r) oauth_kind \<Rightarrow> (string \<Rightarrow> 'c option) \<Rightarrow> (string \<Rightarrow> 'c option) \<Rightarrow> bool" where
  "row_steps k before after \<longleftrightarrow>
     (\<forall>s. ts_rows s = before \<longrightarrow>
        (\<exists>s'. (token_step k)\<^sup>*\<^sup>* s s' \<and> ts_rows s' = after \<and> ts_manager s' = ts_manager s \<and> ts_flights s' = ts_flights s
           \<and> ts_manual s' = ts_manual s \<and> ts_logins s' = ts_logins s \<and> ts_handed s' = ts_handed s \<and> ts_stuck s' = ts_stuck s))"

lemma row_steps_refl: "row_steps k rows rows"
  unfolding row_steps_def by blast

lemma row_steps_update:
  assumes "before i = Some c" "ok_update k now (manual_client k c) r (Some c) = Some c'"
  shows "row_steps k before (before(i \<mapsto> c'))"
  unfolding row_steps_def
proof (intro allI impI)
  fix s :: "('a, 'b) token_system" assume b: "ts_rows s = before"
  let ?s1 = "s\<lparr>ts_manual := (i, c, None) # ts_manual s\<rparr>"
  let ?s2 = "?s1\<lparr>ts_manual := (i, c, Some r) # remove1 (i, c, None) (ts_manual ?s1), ts_answers := (i, ok_refresh k c, r) # ts_answers ?s1\<rparr>"
  let ?s3 = "?s2\<lparr>ts_manual := remove1 (i, c, Some r) (ts_manual ?s2), ts_rows := (ts_rows ?s2)(i \<mapsto> c')\<rparr>"
  have 1: "token_step k s ?s1" using assms(1) b by (intro token_step.manual_read) simp
  have 2: "token_step k ?s1 ?s2" by (intro token_step.manual_answer) simp
  have 3: "token_step k ?s2 ?s3" using assms(2) by (intro token_step.manual_write) simp_all
  have "(token_step k)\<^sup>*\<^sup>* s ?s3"
    by (rule converse_rtranclp_into_rtranclp[OF 1 converse_rtranclp_into_rtranclp[OF 2 r_into_rtranclp[of "token_step k", OF 3]]])
  then show "\<exists>s'. (token_step k)\<^sup>*\<^sup>* s s' \<and> ts_rows s' = before(i \<mapsto> c') \<and> ts_manager s' = ts_manager s \<and> ts_flights s' = ts_flights s
      \<and> ts_manual s' = ts_manual s \<and> ts_logins s' = ts_logins s \<and> ts_handed s' = ts_handed s \<and> ts_stuck s' = ts_stuck s"
    by (intro exI[of _ ?s3] conjI) (simp_all add: b)
qed

lemma row_credentials_Inr:
  assumes "row_credentials provider parse w i rows = Inr (u, c)"
  shows "rows i = Some u \<and> up_Provider u = provider \<and> abs_rows provider parse w rows i = Some c"
  using assms by (auto simp: row_credentials_def abs_rows_def split: if_splits option.splits sum.splits)

lemma abs_rows_put:
  assumes "aead_ok w" "\<And>c. parse (marshal c) = Some c"
    and "Encrypt (aw_newGCM w) (aw_rand w) (aw_key w) (string_bytes (marshal c)) = Inr sealed" "rows i = Some u" "up_Provider u = provider"
  shows "abs_rows provider parse w (put_key i sealed rows) = (abs_rows provider parse w rows)(i \<mapsto> c)"
proof -
  have "Decrypt (aw_newGCM w) (aw_key w) sealed = Inr (string_bytes (marshal c))"
    using assms(1,3) unfolding aead_ok_def by (intro Encrypt_Decrypt[of "aw_rand w"]) auto
  then show ?thesis using assms(2,4,5) by (simp add: fun_eq_iff abs_rows_def put_key_def)
qed

text \<open>The common end of the handlers: seal the updated credentials and write the column.\<close>
lemma sealed_row_steps:
  assumes "aead_ok w" "\<And>c. parse (marshal c) = Some c" "row_credentials provider parse w i rows = Inr (u, c)"
    and "ok_update k now (manual_client k c) r (Some c) = Some c'"
    and "Encrypt (aw_newGCM w) (aw_rand w) (aw_key w) (string_bytes (marshal c')) = Inr sealed"
  shows "row_steps k (abs_rows provider parse w rows) (abs_rows provider parse w (put_key i sealed rows))"
proof -
  note r = row_credentials_Inr[OF assms(3)]
  have "abs_rows provider parse w (put_key i sealed rows) = (abs_rows provider parse w rows)(i \<mapsto> c')"
    using r by (intro abs_rows_put[where marshal = marshal] assms(1,2,5)) auto
  then show ?thesis using r assms(4) by (auto intro: row_steps_update)
qed

lemma claude_client: "(if cc_ClientID c = '''' then ''9d1c250a-e61b-44d9-88ed-5944d1962f5e'' else cc_ClientID c) = manual_client (claude_kind parse) c"
  by (simp add: manual_client_def claude_kind_def)

lemma codex_client: "(if cx_ClientID c = '''' then ''app_EMoamEEZ73f0CkXaXp7hrann'' else cx_ClientID c) = manual_client (codex_kind parse claim) c"
  by (simp add: manual_client_def codex_kind_def)

lemma claude_kind_update:
  "ok_update (claude_kind parse) now clientID r (Some c) = Some \<lparr>cc_AccessToken = ca_AccessToken r, cc_RefreshToken = ca_RefreshToken r,
     cc_ExpiresAt = i64 (unix_time now + ca_ExpiresIn r), cc_ClientID = clientID\<rparr>"
  by (simp add: claude_kind_def claude_update_def)

lemma codex_kind_update: "ok_update (codex_kind parse claim) now clientID r (Some c) = Some (codex_admin_merge claim now clientID r c)"
  by (simp add: codex_kind_def codex_update_def admin_merge_agrees)

lemma claude_refresh_steps:
  assumes "aead_ok w" "\<And>c. parse (marshal c) = Some c"
  shows "row_steps (claude_kind parse) (abs_rows ''claudecode'' parse w rows)
     (abs_rows ''claudecode'' parse w (snd (handleClaudeCodeTokenRefresh parse marshal w i rows)))"
  unfolding handleClaudeCodeTokenRefresh_def claude_client[of _ parse] Let_def
  by (auto simp: row_steps_refl intro: sealed_row_steps[OF assms _ claude_kind_update] split: sum.split option.split)

lemma codex_refresh_steps:
  assumes "aead_ok w" "\<And>c. parse (marshal c) = Some c"
  shows "row_steps (codex_kind parse claim) (abs_rows ''codex'' parse w rows)
     (abs_rows ''codex'' parse w (snd (handleCodexTokenRefresh parse marshal claim w i rows)))"
  unfolding handleCodexTokenRefresh_def codex_client[of _ parse claim] Let_def
  by (auto simp: row_steps_refl intro: sealed_row_steps[OF assms _ codex_kind_update] split: sum.split option.split)

lemma claude_usage_steps:
  assumes "aead_ok w" "\<And>c. parse (marshal c) = Some c" "row_credentials ''claudecode'' parse w i rows = Inr (u, c)"
    and "claude_utilization_refresh marshal w i c rows = Some (t, rows')"
  shows "row_steps (claude_kind parse) (abs_rows ''claudecode'' parse w rows) (abs_rows ''claudecode'' parse w rows')"
  using assms(4) unfolding claude_utilization_refresh_def claude_client[of _ parse] Let_def
  by (auto simp: row_steps_refl intro: sealed_row_steps[OF assms(1-3) claude_kind_update] split: sum.splits option.splits if_splits)

lemma codex_usage_steps:
  assumes "aead_ok w" "\<And>c. parse (marshal c) = Some c" "row_credentials ''codex'' parse w i rows = Inr (u, c)"
  shows "row_steps (codex_kind parse claim) (abs_rows ''codex'' parse w rows)
     (abs_rows ''codex'' parse w (snd (refreshCodexCredentialsIfNeeded marshal claim w i c rows)))"
  unfolding refreshCodexCredentialsIfNeeded_def codex_client[of _ parse claim] Let_def
  by (auto simp: row_steps_refl intro: sealed_row_steps[OF assms codex_kind_update] split: sum.split option.split)


section \<open>A marshaller for the witness\<close>

definition enc_str :: "string \<Rightarrow> string" where
  "enc_str s = concat (map (\<lambda>c. [CHR ''0'', c]) s) @ ''1''"

fun dec_str :: "string \<Rightarrow> (string \<times> string) option" where
  "dec_str [] = None"
| "dec_str [c] = (if c = CHR ''1'' then Some ([], []) else None)"
| "dec_str (c # d # r) = (if c = CHR ''1'' then Some ([], d # r) else map_option (apfst ((#) d)) (dec_str r))"

definition enc_int :: "int \<Rightarrow> string" where
  "enc_int n = (if n < 0 then CHR ''-'' else CHR ''+'') # replicate (nat \<bar>n\<bar>) (CHR ''0'')"

definition dec_int :: "string \<Rightarrow> int" where
  "dec_int s = (if hd s = CHR ''-'' then - int (length (tl s)) else int (length (tl s)))"

lemma dec_enc_str: "dec_str (enc_str s @ r) = Some (s, r)"
proof (induction s)
  case Nil then show ?case by (cases r) (simp_all add: enc_str_def)
next
  case (Cons c s) then show ?case by (simp add: enc_str_def)
qed

lemma dec_enc_int: "dec_int (enc_int n) = n"
  by (simp add: dec_int_def enc_int_def)

fun dec_all :: "nat \<Rightarrow> string \<Rightarrow> string list option" where
  "dec_all 0 s = Some []"
| "dec_all (Suc n) s = (case dec_str s of None \<Rightarrow> None | Some (a, r) \<Rightarrow> map_option ((#) a) (dec_all n r))"

lemma dec_all_enc: "dec_all (length ss) (concat (map enc_str ss)) = Some ss"
  by (induction ss) (simp_all add: dec_enc_str)

definition marshal_claude :: "ClaudeCodeCredentials \<Rightarrow> string" where
  "marshal_claude c = concat (map enc_str [cc_AccessToken c, cc_RefreshToken c, enc_int (cc_ExpiresAt c), cc_ClientID c])"

definition parse_claude :: "string \<Rightarrow> ClaudeCodeCredentials option" where
  "parse_claude s = (case dec_all 4 s of
     Some [a, r, e, i] \<Rightarrow> Some \<lparr>cc_AccessToken = a, cc_RefreshToken = r, cc_ExpiresAt = dec_int e, cc_ClientID = i\<rparr> | _ \<Rightarrow> None)"

definition marshal_codex :: "CodexCredentials \<Rightarrow> string" where
  "marshal_codex c = concat (map enc_str [cx_IDToken c, cx_AccessToken c, cx_RefreshToken c, cx_ChatGPTAccountID c, enc_int (cx_ExpiresAt c), cx_ClientID c])"

definition parse_codex :: "string \<Rightarrow> CodexCredentials option" where
  "parse_codex s = (case dec_all 6 s of
     Some [t, a, r, g, e, i] \<Rightarrow> Some \<lparr>cx_IDToken = t, cx_AccessToken = a, cx_RefreshToken = r, cx_ChatGPTAccountID = g,
       cx_ExpiresAt = dec_int e, cx_ClientID = i\<rparr> | _ \<Rightarrow> None)"

lemma parse_marshal_claude: "parse_claude (marshal_claude c) = Some c"
proof -
  let ?l = "[cc_AccessToken c, cc_RefreshToken c, enc_int (cc_ExpiresAt c), cc_ClientID c]"
  have "dec_all 4 (marshal_claude c) = Some ?l" using dec_all_enc[of ?l] unfolding marshal_claude_def by (simp only: list.size) (simp add: numeral_eq_Suc)
  then show ?thesis by (simp add: parse_claude_def dec_enc_int)
qed

lemma parse_marshal_codex: "parse_codex (marshal_codex c) = Some c"
proof -
  let ?l = "[cx_IDToken c, cx_AccessToken c, cx_RefreshToken c, cx_ChatGPTAccountID c, enc_int (cx_ExpiresAt c), cx_ClientID c]"
  have "dec_all 6 (marshal_codex c) = Some ?l" using dec_all_enc[of ?l] unfolding marshal_codex_def by (simp only: list.size) (simp add: numeral_eq_Suc)
  then show ?thesis by (simp add: parse_codex_def dec_enc_int)
qed

definition sample_oauth_world :: "'r \<Rightarrow> 'r oauth_world" where
  "sample_oauth_world r = \<lparr>aw_up = (\<lambda>_. True), aw_newGCM = (\<lambda>k. Some \<lparr>seal = (\<lambda>n p. map ((+) 1) p), unseal = (\<lambda>n c. Some (map (\<lambda>x. x - 1) c)), nonceSize = 2\<rparr>),
     aw_rand = (\<lambda>n. Some (replicate n 0)), aw_key = [5], aw_client = True, aw_post = (\<lambda>_ _. Some (200, Some r)), aw_now = 0\<rparr>"

lemma sample_oauth_world_ok: "aead_ok (sample_oauth_world r)"
  by (auto simp: aead_ok_def sample_oauth_world_def comp_def)

definition sealed_by :: "'r oauth_world \<Rightarrow> string \<Rightarrow> bytes" where
  "sealed_by w s = (case Encrypt (aw_newGCM w) (aw_rand w) (aw_key w) (string_bytes s) of Inl _ \<Rightarrow> [] | Inr c \<Rightarrow> c)"

definition sample_rows :: upstream_rows where
  "sample_rows = [''a'' \<mapsto> (sample_upstream ''a'' ''claudecode'')\<lparr>up_APIKeyEncrypted := sealed_by (sample_oauth_world ()) (marshal_claude sample_claude)\<rparr>,
     ''b'' \<mapsto> (sample_upstream ''b'' ''codex'')\<lparr>up_APIKeyEncrypted := sealed_by (sample_oauth_world ()) (marshal_codex sample_codex)\<rparr>]"

lemma sample_sealed: "Decrypt (aw_newGCM (sample_oauth_world r)) (aw_key (sample_oauth_world r)) (sealed_by (sample_oauth_world ()) s) = Inr (string_bytes s)"
  by (simp add: Decrypt_def sealed_by_def Encrypt_def sample_oauth_world_def comp_def)



end
