(* ===== verification/ExtraUsageApi.thy ===== *)
theory ExtraUsageApi
  imports Billing Authz
begin

text \<open>
  The extra-usage endpoints on both management APIs: the handlers of admin/handle_extra_usage.go that Billing does not
  have (the reading ones) with the project middleware in front of them (admin/routes.go), and the typed endpoints that
  replace them all (api/admin/v1/extra_usage.go) with their access policies and their resource resolver
  (resolvers/extra_usage_topup.go). Of an answer the formatted times and messages are left out.
\<close>

section \<open>Listing (store/extra_usage.go)\<close>

text \<open>Newest first; the order of rows of the same time is the database's choice, here the order of insertion.\<close>
definition matching_txs :: "string \<Rightarrow> string \<Rightarrow> database \<Rightarrow> ExtraUsageTransaction list" where
  "matching_txs p typeFilter db = filter (\<lambda>t. eut_ProjectID t = p \<and> (typeFilter = '''' \<or> eut_Type t = typeFilter)) (db_txs db)"

definition ListExtraUsageTransactions ::
  "database \<Rightarrow> bool \<Rightarrow> string \<Rightarrow> PaginationParams \<Rightarrow> string \<Rightarrow> (ExtraUsageTransaction list \<times> int) option" where
  "ListExtraUsageTransactions db up p pg typeFilter =
     (if \<not> up \<or> Offset pg < 0 then None
      else (let ts = matching_txs p typeFilter db
            in Some (take (nat (Limit pg)) (drop (nat (Offset pg)) (sort_key (\<lambda>t. - eut_CreatedAt t) ts)), int (length ts))))"

definition SumRecentExtraUsageSpendCredits :: "database \<Rightarrow> bool \<Rightarrow> string \<Rightarrow> int \<Rightarrow> go_time \<Rightarrow> int option" where
  "SumRecentExtraUsageSpendCredits db up p lookbackDays now =
     (if \<not> up then None
      else Some (sum_list (map (\<lambda>t. - eut_AmountCredits t)
        (filter (\<lambda>t. eut_ProjectID t = p \<and> eut_Type t = ''deduction'' \<and> now - lookbackDays * 86400000000000 \<le> eut_CreatedAt t) (db_txs db)))))"

section \<open>The reading handlers (admin/handle_extra_usage.go)\<close>

record extra_usage_view =
  xv_Enabled :: bool
  xv_BalanceCredits :: int
  xv_MonthlyLimitCredits :: int
  xv_MonthlySpentCredits :: int
  xv_MonthlyWindowStart :: go_time
  xv_BypassBalanceCheck :: bool
  xv_CNYFenPerMillion :: int
  xv_USDCentsPerMillion :: int
  xv_ImplicitUSDToCNY :: float64
  xv_MinTopup :: "int \<times> int"
  xv_MaxTopup :: "int \<times> int"
  xv_DailyTopupLimit :: int

definition handleGetExtraUsage :: "(string \<Rightarrow> bool) \<Rightarrow> ExtraUsageConfig \<Rightarrow> database \<Rightarrow> string \<Rightarrow> go_time \<Rightarrow> extra_usage_view response" where
  "handleGetExtraUsage up cfg db projectID now =
     (case GetExtraUsageSettings db (up ''GetExtraUsageSettings'') projectID of Inl _ \<Rightarrow> Failure 500 ''internal''
      | Inr settings \<Rightarrow>
          (let monthStart = MonthWindowStart now in
           case GetMonthlyExtraSpendCredits db (up ''GetMonthlyExtraSpendCredits'') projectID monthStart of Inl _ \<Rightarrow> Failure 500 ''internal''
           | Inr spent \<Rightarrow>
               (let rate = (if euc_CreditPriceUSDCents cfg > 0 then fdiv (float_of (euc_CreditPriceCNYFen cfg)) (float_of (euc_CreditPriceUSDCents cfg)) else 0);
                    resp = \<lparr>xv_Enabled = False, xv_BalanceCredits = 0, xv_MonthlyLimitCredits = 0, xv_MonthlySpentCredits = 0,
                      xv_MonthlyWindowStart = monthStart, xv_BypassBalanceCheck = False, xv_CNYFenPerMillion = euc_CreditPriceCNYFen cfg,
                      xv_USDCentsPerMillion = euc_CreditPriceUSDCents cfg, xv_ImplicitUSDToCNY = rate,
                      xv_MinTopup = (euc_MinTopupCNYFen cfg, euc_MinTopupUSDCents cfg), xv_MaxTopup = (euc_MaxTopupCNYFen cfg, euc_MaxTopupUSDCents cfg),
                      xv_DailyTopupLimit = euc_DailyTopupLimitCredits cfg\<rparr>;
                    resp1 = (case settings of None \<Rightarrow> resp
                      | Some s \<Rightarrow> resp\<lparr>xv_Enabled := eus_Enabled s, xv_BalanceCredits := eus_BalanceCredits s,
                          xv_MonthlyLimitCredits := eus_MonthlyLimitCredits s, xv_BypassBalanceCheck := eus_BypassBalanceCheck s\<rparr>)
                in Success 200 (resp1\<lparr>xv_MonthlySpentCredits := spent\<rparr>))))"

text \<open>The rows, their number, the page, its size and the number of pages (writeList).\<close>
definition handleListExtraUsageTransactions ::
  "(string \<Rightarrow> bool) \<Rightarrow> database \<Rightarrow> string \<Rightarrow> PaginationParams \<Rightarrow> string \<Rightarrow> (ExtraUsageTransaction list \<times> int \<times> int \<times> int \<times> int) response" where
  "handleListExtraUsageTransactions up db projectID p typeFilter =
     (case ListExtraUsageTransactions db (up ''ListExtraUsageTransactions'') projectID p typeFilter of None \<Rightarrow> Failure 500 ''internal''
      | Some (txs, n) \<Rightarrow> Success 200 (txs, n, Page p, Limit p, n div Limit p + (if n mod Limit p \<noteq> 0 then 1 else 0)))"

definition handleGetExtraUsageTopup :: "(string \<Rightarrow> bool) \<Rightarrow> (string \<Rightarrow> 'u option) \<Rightarrow> database \<Rightarrow> string \<Rightarrow> string \<Rightarrow> Order response" where
  "handleGetExtraUsageTopup up parse db projectID orderID =
     (case (if up ''GetOrderByID'' then GetOrderByID db orderID else None) of None \<Rightarrow> Failure 404 ''not_found''
      | Some ord \<Rightarrow>
          if \<not> sameProjectID parse (order_ProjectID ord) projectID then Failure 404 ''not_found''
          else if order_OrderType ord \<noteq> ''extra_usage_topup'' then Failure 404 ''not_found''
          else Success 200 ord)"

text \<open>\<^term>\<open>spend\<close>: the sum of one project, which may fail.\<close>
fun overview_rows :: "(string \<Rightarrow> int option) \<Rightarrow> ExtraUsageSettings list \<Rightarrow> (ExtraUsageSettings \<times> int) list option" where
  "overview_rows spend [] = Some []"
| "overview_rows spend (s # ss) =
     (case spend (eus_ProjectID s) of None \<Rightarrow> None
      | Some n \<Rightarrow> map_option ((#) (s, n)) (overview_rows spend ss))"

text \<open>\<^term>\<open>listing\<close>: the settings rows as the query returns them, None when it fails.\<close>
definition handleAdminExtraUsageOverview ::
  "(string \<Rightarrow> bool) \<Rightarrow> database \<Rightarrow> ExtraUsageSettings list option \<Rightarrow> go_time \<Rightarrow> (ExtraUsageSettings \<times> int) list response" where
  "handleAdminExtraUsageOverview up db listing now =
     (case listing of None \<Rightarrow> Failure 500 ''internal''
      | Some ss \<Rightarrow>
          (case overview_rows (\<lambda>p. SumRecentExtraUsageSpendCredits db (up (''Sum '' @ p)) p 7 now) ss of
             None \<Rightarrow> Failure 500 ''internal'' | Some out \<Rightarrow> Success 200 out))"

section \<open>Who may (admin/routes.go)\<close>

text \<open>The member put in the context, None for a superadmin. \<^term>\<open>getMember\<close>: Inl when the lookup fails.\<close>
definition projectAccessMiddleware ::
  "(string \<Rightarrow> string \<Rightarrow> unit + ProjectMember option) \<Rightarrow> User option \<Rightarrow> string \<Rightarrow> int \<times> string + ProjectMember option" where
  "projectAccessMiddleware getMember user projectID =
     (case user of None \<Rightarrow> Inl (401, ''unauthorized'')
      | Some u \<Rightarrow>
          if projectID = '''' then Inl (400, ''bad_request'')
          else if user_IsSuperadmin u then Inr None
          else (case getMember projectID (user_ID u) of Inr (Some m) \<Rightarrow> Inr (Some m) | _ \<Rightarrow> Inl (403, ''forbidden'')))"

section \<open>The typed endpoints (api/admin/v1/extra_usage.go)\<close>

text \<open>The access policy of an operation.\<close>
definition registerExtraUsageOperations :: "string \<Rightarrow> AccessPolicy option" where
  "registerExtraUsageOperations = map_of
     (let read = Project_access ''project.extra_usage.read'' ''projectID'' [];
          write = Project_access ''project.extra_usage.write'' ''projectID'' [];
          topup = Project_access ''project.extra_usage.topup'' ''projectID'' [RequireProjectMembership]
      in [(''getExtraUsage'', read), (''updateExtraUsage'', write), (''listExtraUsageTransactions'', read), (''createExtraUsageTopup'', topup),
          (''getExtraUsageTopup'', Project_access ''project.extra_usage.read'' ''projectID'' [WithResource ''extra-usage-topup'' ''orderID'']),
          (''adminExtraUsageOverview'', System_access ''system.extra_usage.read'' []),
          (''adminExtraUsageDirectTopup'', SystemOnProjectPath ''system.extra_usage.manage'' ''projectID''),
          (''adminExtraUsageSetBypass'', SystemOnProjectPath ''system.extra_usage.manage'' ''projectID'')])"

text \<open>An order that is missing or of another type resolves to the zero resource; Inl when the lookup fails.\<close>
definition ExtraUsageTopupResolver :: "(string \<Rightarrow> bool) \<Rightarrow> database \<Rightarrow> string \<Rightarrow> unit + Resource" where
  "ExtraUsageTopupResolver up db orderID =
     (let zero = \<lparr>res_Type = '''', res_ID = '''', res_ProjectID = '''', res_OwnerID = ''''\<rparr> in
      if \<not> up ''Resolve'' then Inl ()
      else (case GetOrderByID db orderID of None \<Rightarrow> Inr zero
        | Some ord \<Rightarrow> if order_OrderType ord \<noteq> ''extra_usage_topup'' then Inr zero
            else Inr (zero\<lparr>res_Type := ''extra-usage-topup'', res_ID := order_ID ord, res_ProjectID := order_ProjectID ord\<rparr>)))"

definition v1_getExtraUsage :: "(string \<Rightarrow> bool) \<Rightarrow> ExtraUsageConfig \<Rightarrow> database \<Rightarrow> string \<Rightarrow> go_time \<Rightarrow> extra_usage_view response" where
  "v1_getExtraUsage up cfg db projectID now =
     (case GetExtraUsageSettings db (up ''GetExtraUsageSettings'') projectID of Inl _ \<Rightarrow> Failure 500 ''internal''
      | Inr settings \<Rightarrow>
          (case GetMonthlyExtraSpendCredits db (up ''GetMonthlyExtraSpendCredits'') projectID (MonthWindowStart now) of Inl _ \<Rightarrow> Failure 500 ''internal''
           | Inr spent \<Rightarrow> Success 200
               \<lparr>xv_Enabled = (case settings of None \<Rightarrow> False | Some s \<Rightarrow> eus_Enabled s),
                xv_BalanceCredits = (case settings of None \<Rightarrow> 0 | Some s \<Rightarrow> eus_BalanceCredits s),
                xv_MonthlyLimitCredits = (case settings of None \<Rightarrow> 0 | Some s \<Rightarrow> eus_MonthlyLimitCredits s), xv_MonthlySpentCredits = spent,
                xv_MonthlyWindowStart = MonthWindowStart now,
                xv_BypassBalanceCheck = (case settings of None \<Rightarrow> False | Some s \<Rightarrow> eus_BypassBalanceCheck s),
                xv_CNYFenPerMillion = euc_CreditPriceCNYFen cfg, xv_USDCentsPerMillion = euc_CreditPriceUSDCents cfg,
                xv_ImplicitUSDToCNY = (if euc_CreditPriceUSDCents cfg > 0 then fdiv (float_of (euc_CreditPriceCNYFen cfg)) (float_of (euc_CreditPriceUSDCents cfg)) else 0),
                xv_MinTopup = (euc_MinTopupCNYFen cfg, euc_MinTopupUSDCents cfg), xv_MaxTopup = (euc_MaxTopupCNYFen cfg, euc_MaxTopupUSDCents cfg),
                xv_DailyTopupLimit = euc_DailyTopupLimitCredits cfg\<rparr>))"

definition v1_updateExtraUsage :: "(string \<Rightarrow> bool) \<Rightarrow> database \<Rightarrow> string \<Rightarrow> bool option \<Rightarrow> int option \<Rightarrow> ExtraUsageSettings response \<times> database" where
  "v1_updateExtraUsage up db projectID bEnabled bLimit =
     (case GetExtraUsageSettings db (up ''GetExtraUsageSettings'') projectID of Inl _ \<Rightarrow> (Failure 500 ''internal'', db)
      | Inr existing \<Rightarrow>
          (let (enabled0, limit0) = (case existing of None \<Rightarrow> (False, 0) | Some s \<Rightarrow> (eus_Enabled s, eus_MonthlyLimitCredits s));
               enabled = (case bEnabled of None \<Rightarrow> enabled0 | Some e \<Rightarrow> e)
           in case (case bLimit of None \<Rightarrow> Some limit0 | Some l \<Rightarrow> if l < 0 then None else Some l) of
                None \<Rightarrow> (Failure 400 ''bad_request'', db)
              | Some limit \<Rightarrow>
                  (case UpsertExtraUsageSettings db (up ''Upsert'') projectID enabled limit of
                     (Inl _, db') \<Rightarrow> (Failure 500 ''internal'', db') | (Inr s, db') \<Rightarrow> (Success 200 s, db'))))"

text \<open>The switch over the channel; the inner None is the panic of a division by a zero price.\<close>
definition v1_topup_channel :: "ExtraUsageConfig \<Rightarrow> topup_body \<Rightarrow> (int option \<times> string \<times> int) option" where
  "v1_topup_channel cfg b =
     (if tb_Channel b \<in> {''wechat'', ''alipay''} then
        (case (tb_AmountFen b, tb_AmountCents b) of
           (Some amt, None) \<Rightarrow>
             if amt < euc_MinTopupCNYFen cfg \<or> amt > euc_MaxTopupCNYFen cfg then None
             else Some (go_quot (i64 (amt * 1000000)) (euc_CreditPriceCNYFen cfg), ''CNY'', amt)
         | _ \<Rightarrow> None)
      else if tb_Channel b = ''stripe'' then
        (case (tb_AmountCents b, tb_AmountFen b) of
           (Some amt, None) \<Rightarrow>
             if amt < euc_MinTopupUSDCents cfg \<or> amt > euc_MaxTopupUSDCents cfg then None
             else Some (go_quot (i64 (amt * 1000000)) (euc_CreditPriceUSDCents cfg), ''USD'', amt)
         | _ \<Rightarrow> None)
      else None)"

definition v1_createExtraUsageTopup ::
  "(string \<Rightarrow> bool) \<Rightarrow> ExtraUsageConfig \<Rightarrow> (PaymentRequest \<Rightarrow> PaymentResponse option) option
   \<Rightarrow> string \<Rightarrow> database \<Rightarrow> string \<Rightarrow> string \<Rightarrow> topup_body \<Rightarrow> go_time \<Rightarrow> (Order response \<times> database) option" where
  "v1_createExtraUsageTopup up cfg payClient returnURL db newID projectID b now =
     (case v1_topup_channel cfg b of
        None \<Rightarrow> Some (Failure 400 ''bad_request'', db)
      | Some (None, _, _) \<Rightarrow> None
      | Some (Some credits, currency, paymentAmount) \<Rightarrow> Some
          (if \<not> up ''SumDaily'' then (Failure 500 ''internal'', db)
           else if 0 < euc_DailyTopupLimitCredits cfg
             \<and> euc_DailyTopupLimitCredits cfg < i64 (SumDailyExtraUsageTopupCredits db projectID (DayWindowStart now) + credits)
           then (Failure 409 ''daily_topup_limit'', db)
           else (case CreateOrder db (up ''CreateOrder'') newID
                   \<lparr>order_ID = '''', order_ProjectID = projectID, order_PlanID = '''', order_Periods = 1,
                    order_UnitPrice = paymentAmount, order_Amount = paymentAmount, order_Currency = currency, order_Status = ''pending'',
                    order_Channel = tb_Channel b, order_PaymentRef = '''', order_PaymentURL = '''',
                    order_ExistingSubscriptionID = '''', order_Metadata = ''{}'', order_OrderType = ''extra_usage_topup'',
                    order_ExtraUsageAmountCredits = credits, order_CreatedAt = 0\<rparr> now of
                   None \<Rightarrow> (Failure 500 ''internal'', db)
                 | Some (ord, db1) \<Rightarrow>
                     (case payClient of
                        None \<Rightarrow> (Failure 503 ''payment_not_configured'', if up ''UpdateOrderStatus'' then UpdateOrderStatus db1 newID ''failed'' else db1)
                      | Some createPayment \<Rightarrow>
                          (case createPayment \<lparr>pr_OrderID = newID, pr_Channel = tb_Channel b, pr_Currency = currency, pr_Amount = paymentAmount,
                                 pr_ReturnURL = returnURL\<rparr> of
                             None \<Rightarrow> (Failure 503 ''payment_provider_error'', if up ''UpdateOrderStatus'' then UpdateOrderStatus db1 newID ''failed'' else db1)
                           | Some resp \<Rightarrow>
                               if \<not> up ''UpdateOrderPayment'' then (Failure 500 ''internal'', db1)
                               else (Success 201 (ord\<lparr>order_PaymentRef := PaymentRef resp, order_PaymentURL := PaymentURL resp, order_Status := ''paying''\<rparr>),
                                     UpdateOrderPayment db1 newID (PaymentRef resp) (PaymentURL resp) ''paying''))))))"

definition v1_getExtraUsageTopup :: "(string \<Rightarrow> bool) \<Rightarrow> database \<Rightarrow> string \<Rightarrow> Order response" where
  "v1_getExtraUsageTopup up db orderID =
     (case (if up ''GetOrderByID'' then GetOrderByID db orderID else None) of None \<Rightarrow> Failure 404 ''not_found'' | Some ord \<Rightarrow> Success 200 ord)"

definition paginationMeta :: "int \<Rightarrow> PaginationParams \<Rightarrow> int \<times> int \<times> int \<times> int" where
  "paginationMeta n p = (let perPage = Limit p in (n, Page p, perPage, if n > 0 then i64 (i64 (n + perPage) - 1) div perPage else 0))"

definition v1_listExtraUsageTransactions ::
  "(string \<Rightarrow> bool) \<Rightarrow> database \<Rightarrow> string \<Rightarrow> PaginationParams \<Rightarrow> string \<Rightarrow> (ExtraUsageTransaction list \<times> int \<times> int \<times> int \<times> int) response" where
  "v1_listExtraUsageTransactions up db projectID p typeFilter =
     (case ListExtraUsageTransactions db (up ''ListExtraUsageTransactions'') projectID p typeFilter of None \<Rightarrow> Failure 500 ''internal''
      | Some (txs, n) \<Rightarrow> Success 200 (txs, paginationMeta n p))"

text \<open>The loop with its early return.\<close>
definition v1_adminExtraUsageOverview ::
  "(string \<Rightarrow> bool) \<Rightarrow> database \<Rightarrow> ExtraUsageSettings list option \<Rightarrow> go_time \<Rightarrow> (ExtraUsageSettings \<times> int) list response" where
  "v1_adminExtraUsageOverview up db listing now =
     (case listing of None \<Rightarrow> Failure 500 ''internal''
      | Some ss \<Rightarrow>
          (case foldl (\<lambda>out row. case out of None \<Rightarrow> None
               | Some xs \<Rightarrow> map_option (\<lambda>n. xs @ [(row, n)])
                   (SumRecentExtraUsageSpendCredits db (up (''Sum '' @ eus_ProjectID row)) (eus_ProjectID row) 7 now)) (Some []) ss of
             None \<Rightarrow> Failure 500 ''internal'' | Some out \<Rightarrow> Success 200 out))"

definition v1_adminExtraUsageDirectTopup :: "(string \<Rightarrow> bool) \<Rightarrow> database \<Rightarrow> string \<Rightarrow> int \<Rightarrow> string \<Rightarrow> go_time \<Rightarrow> int response \<times> database" where
  "v1_adminExtraUsageDirectTopup up db projectID amount description now =
     (if amount \<le> 0 then (Failure 400 ''bad_request'', db)
      else (let r = TopUpExtraUsage db (up ''TopUp'') \<lparr>top_ProjectID = projectID, top_AmountCredits = amount, top_OrderID = '''',
                  top_Reason = ''admin_adjust'', top_Description = description\<rparr> now
            in (case fst r of Inl _ \<Rightarrow> Failure 500 ''internal'' | Inr bal \<Rightarrow> Success 200 bal, snd r)))"

definition v1_adminExtraUsageSetBypass :: "(string \<Rightarrow> bool) \<Rightarrow> database \<Rightarrow> string \<Rightarrow> bool option \<Rightarrow> ExtraUsageSettings response \<times> database" where
  "v1_adminExtraUsageSetBypass up db projectID bypass =
     (case bypass of None \<Rightarrow> (Failure 400 ''bad_request'', db)
      | Some b \<Rightarrow> (let r = SetExtraUsageBypass db (up ''SetBypass'') projectID b
                  in (case fst r of Inl _ \<Rightarrow> Failure 500 ''internal'' | Inr s \<Rightarrow> Success 200 s, snd r)))"

section \<open>The typed endpoints answer as the old ones\<close>

lemma v1_view_agrees: "v1_getExtraUsage up cfg db p now = handleGetExtraUsage up cfg db p now"
  by (simp add: v1_getExtraUsage_def handleGetExtraUsage_def Let_def split: sum.split option.split)

lemma v1_update_agrees:
  "requireRole user mem [''owner'', ''maintainer''] \<Longrightarrow>
     v1_updateExtraUsage up db p e l = handleUpdateExtraUsage up user mem db p (Some (e, l))"
  by (simp add: v1_updateExtraUsage_def handleUpdateExtraUsage_def Let_def the_or_def split: sum.split option.split prod.split)

lemma v1_channel_agrees:
  "topup_credits cfg b =
     (case v1_topup_channel cfg b of None \<Rightarrow> Some (Inl (400, ''bad_request''))
      | Some (credits, currency, amt) \<Rightarrow> map_option (\<lambda>c. Inr (c, currency, amt)) credits)"
  by (simp add: topup_credits_def topup_amount_def v1_topup_channel_def split: option.split)

lemma CreateOrder_channel: "CreateOrder db up i order now = Some (ord, db') \<Longrightarrow>
   order_Channel ord = order_Channel order \<and> order_Currency ord = order_Currency order \<and> order_Amount ord = order_Amount order"
  by (auto simp: CreateOrder_def Let_def split: if_splits)

lemma v1_create_agrees:
  assumes "requireRole user mem [''owner'', ''maintainer'']"
  shows "v1_createExtraUsageTopup up cfg pay returnURL db i p b now = handleCreateExtraUsageTopup up user mem cfg pay returnURL db i p (Some b) now"
proof (cases "v1_topup_channel cfg b")
  case None
  then show ?thesis using assms by (simp add: v1_createExtraUsageTopup_def handleCreateExtraUsageTopup_def v1_channel_agrees)
next
  case (Some x)
  then show ?thesis using assms
    by (cases x; cases "fst x")
      (auto simp: v1_createExtraUsageTopup_def handleCreateExtraUsageTopup_def v1_channel_agrees place_order_def Let_def
        dest: CreateOrder_channel split: option.split)
qed

lemma overview_fold:
  "foldl (\<lambda>out row. case out of None \<Rightarrow> None | Some xs \<Rightarrow> map_option (\<lambda>n. xs @ [(row, n)]) (spend (eus_ProjectID row))) (Some acc) ss
     = map_option ((@) acc) (overview_rows spend ss)"
proof (induction ss arbitrary: acc)
  case Nil then show ?case by simp
next
  case (Cons row ss)
  have none: "foldl (\<lambda>out row. case out of None \<Rightarrow> None | Some xs \<Rightarrow> map_option (\<lambda>n. xs @ [(row, n)]) (spend (eus_ProjectID row))) None ss = None"
    by (induction ss) simp_all
  show ?case
    by (cases "spend (eus_ProjectID row)") (simp_all add: none Cons.IH option.map_comp comp_def)
qed

lemma v1_overview_agrees: "v1_adminExtraUsageOverview up db listing now = handleAdminExtraUsageOverview up db listing now"
  using overview_fold[of "\<lambda>p. SumRecentExtraUsageSpendCredits db (up (''Sum '' @ p)) p 7 now" "[]"]
  by (auto simp: v1_adminExtraUsageOverview_def handleAdminExtraUsageOverview_def option.map_id0 cong: option.case_cong split: option.split)

text \<open>Every typed endpoint answers as the handler it replaces, on every branch, with the same effect on the rows: the view, the
  change of the settings and the top-up of someone the old handler lets in, the overview, the superadmins' top-up and
  bypass.\<close>
theorem v1_extra_usage_agrees:
  assumes "requireRole user mem [''owner'', ''maintainer'']"
  shows "v1_createExtraUsageTopup up cfg pay returnURL db i p b now = handleCreateExtraUsageTopup up user mem cfg pay returnURL db i p (Some b) now
    \<and> v1_updateExtraUsage up db p e l = handleUpdateExtraUsage up user mem db p (Some (e, l))
    \<and> v1_getExtraUsage up cfg db p now = handleGetExtraUsage up cfg db p now
    \<and> v1_adminExtraUsageOverview up db listing now = handleAdminExtraUsageOverview up db listing now
    \<and> v1_adminExtraUsageDirectTopup up db p amount description now = handleAdminExtraUsageDirectTopup up db p (Some (amount, description)) now
    \<and> v1_adminExtraUsageSetBypass up db p bypass = handleAdminExtraUsageSetBypass up db p (Some bypass)"
  using v1_create_agrees[OF assms] v1_update_agrees[OF assms] v1_view_agrees v1_overview_agrees
  by (auto simp: v1_adminExtraUsageDirectTopup_def handleAdminExtraUsageDirectTopup_def v1_adminExtraUsageSetBypass_def
      handleAdminExtraUsageSetBypass_def Let_def split: option.split prod.split sum.split)

section \<open>The typed endpoints let in whom the old ones do\<close>

definition typed_allows :: "authz_env \<Rightarrow> string \<Rightarrow> requestAuthorization \<Rightarrow> bool" where
  "typed_allows env operation auth \<longleftrightarrow>
     (case registerExtraUsageOperations operation of None \<Rightarrow> False
      | Some access \<Rightarrow> (case authorizeRBAC env access auth of Inl _ \<Rightarrow> False | Inr _ \<Rightarrow> True))"

definition legacy_allows :: "(string \<Rightarrow> string \<Rightarrow> unit + ProjectMember option) \<Rightarrow> User \<Rightarrow> string \<Rightarrow> string list \<Rightarrow> bool" where
  "legacy_allows getMember user projectID roles \<longleftrightarrow>
     (case projectAccessMiddleware getMember (Some user) projectID of Inl _ \<Rightarrow> False | Inr mem \<Rightarrow> requireRole (Some user) mem roles)"

lemma extra_usage_permissions:
  "Permission_Scope ''project.extra_usage.read'' = (''project'', True)" "Permission_Scope ''project.extra_usage.write'' = (''project'', True)"
  "Permission_Scope ''project.extra_usage.topup'' = (''project'', True)" "Permission_Scope ''system.extra_usage.manage'' = (''system'', True)"
  "Permission_Scope ''system.extra_usage.read'' = (''system'', True)"
  "List.member developerPermissions ''project.extra_usage.read''" "\<not> List.member developerPermissions ''project.extra_usage.write''"
  "\<not> List.member developerPermissions ''project.extra_usage.topup''" "List.member maintainerPermissions ''project.extra_usage.write''"
  "List.member maintainerPermissions ''project.extra_usage.topup''" "List.member maintainerPermissions ''project.extra_usage.read''"
  by code_simp+

lemma role_has:
  assumes "Role_Valid r" "Authenticated u"
  shows "HasProjectPermission u r ''project.extra_usage.read''"
    and "HasProjectPermission u r ''project.extra_usage.write'' \<longleftrightarrow> pr_Superadmin u \<or> r \<in> {''owner'', ''maintainer''}"
    and "HasProjectPermission u r ''project.extra_usage.topup'' \<longleftrightarrow> pr_Superadmin u \<or> r \<in> {''owner'', ''maintainer''}"
proof -
  note perms = extra_usage_permissions[unfolded List.member_iff]
  have sets: "set developerPermissions \<subseteq> set maintainerPermissions" "set maintainerPermissions \<subseteq> set ownerPermissions" by (fact role_subset)+
  have r: "r = ''developer'' \<or> r = ''maintainer'' \<or> r = ''owner''" using assms(1) by (auto simp: Role_Valid_def)
  show "HasProjectPermission u r ''project.extra_usage.read''"
    unfolding HasProjectPermission_iff using r perms sets assms(2) by (elim disjE) (simp_all only: role_capabilities, blast+)
  show "HasProjectPermission u r ''project.extra_usage.write'' \<longleftrightarrow> pr_Superadmin u \<or> r \<in> {''owner'', ''maintainer''}"
    unfolding HasProjectPermission_iff using r perms(2,7,9) sets assms(2) by (elim disjE; simp add: role_capabilities subsetD)
  show "HasProjectPermission u r ''project.extra_usage.topup'' \<longleftrightarrow> pr_Superadmin u \<or> r \<in> {''owner'', ''maintainer''}"
    unfolding HasProjectPermission_iff using r perms(3,8,10) sets assms(2) by (elim disjE; simp add: role_capabilities subsetD)
qed

lemma project_rbac:
  assumes "pr_UserID (ra_Principal auth) = user_ID u" "pr_Superadmin (ra_Principal auth) = user_IsSuperadmin u"
    and "Authenticated (ra_Principal auth)" "ae_Param env ''projectID'' = p" "p \<noteq> ''''" "ae_uuid_ok env p" "ae_GetProjectMember env = getMember"
    and "\<And>m. getMember p (user_ID u) = Inr (Some m) \<Longrightarrow> Role_Valid (member_Role m)"
    and "roles = (if perm = ''project.extra_usage.read'' then AllProjectRoles else [''owner'', ''maintainer''])"
    and "perm \<in> {''project.extra_usage.read'', ''project.extra_usage.write'', ''project.extra_usage.topup''}"
  shows "(\<exists>a. authorizeRBAC env (Project_access perm ''projectID'' []) auth = Inr a) \<longleftrightarrow> legacy_allows getMember u p roles"
    and "(\<exists>a. authorizeRBAC env (Project_access perm ''projectID'' [RequireProjectMembership]) auth = Inr a)
       \<longleftrightarrow> legacy_allows getMember u p roles \<and> (\<exists>m. getMember p (user_ID u) = Inr (Some m))"
proof -
  have has: "HasProjectPermission (ra_Principal auth) r perm \<longleftrightarrow> user_IsSuperadmin u \<or> r \<in> set roles" if "Role_Valid r" for r
    using role_has[OF that assms(3)] assms(2,9,10) that by (auto simp: Role_Valid_def AllProjectRoles_def)
  note s = authorizeRBAC_def Project_access_def RequireProjectMembership_def resolveAndEvaluatePolicies_def resolve_resource_def assms(1,2,4-7) Let_def
  have typed: "(\<exists>a. authorizeRBAC env (Project_access perm ''projectID'' os) auth = Inr a) \<longleftrightarrow>
      (user_IsSuperadmin u \<and> os = []) \<or> (\<exists>m. getMember p (user_ID u) = Inr (Some m) \<and> (user_IsSuperadmin u \<or> member_Role m \<in> set roles))"
    if "os = [] \<or> os = [RequireProjectMembership]" for os
  proof (cases "user_IsSuperadmin u \<and> os = []")
    case True then show ?thesis by (simp add: s)
  next
    case False
    show ?thesis
    proof (cases "getMember p (user_ID u)")
      case (Inl e) then show ?thesis using that False by (elim disjE) (simp_all add: s)
    next
      case (Inr mem)
      then show ?thesis using that False has assms(8) by (cases mem) (elim disjE; simp add: s)+
    qed
  qed
  have legacy: "legacy_allows getMember u p roles \<longleftrightarrow> user_IsSuperadmin u \<or> (\<exists>m. getMember p (user_ID u) = Inr (Some m) \<and> member_Role m \<in> set roles)"
    using assms(5) by (simp add: legacy_allows_def projectAccessMiddleware_def requireRole_def split: sum.split option.split)
  show "(\<exists>a. authorizeRBAC env (Project_access perm ''projectID'' []) auth = Inr a) \<longleftrightarrow> legacy_allows getMember u p roles"
    using typed[of "[]"] unfolding legacy by auto
  show "(\<exists>a. authorizeRBAC env (Project_access perm ''projectID'' [RequireProjectMembership]) auth = Inr a)
       \<longleftrightarrow> legacy_allows getMember u p roles \<and> (\<exists>m. getMember p (user_ID u) = Inr (Some m))"
    using typed[of "[RequireProjectMembership]"] unfolding legacy by auto
qed

lemma system_rbac:
  assumes "Authenticated (ra_Principal auth)" "perm \<in> {''system.extra_usage.manage'', ''system.extra_usage.read''}"
  shows "(\<exists>a. authorizeRBAC env (System_access perm []) auth = Inr a) \<longleftrightarrow> pr_Superadmin (ra_Principal auth)"
    and "(\<exists>a. authorizeRBAC env (SystemOnProjectPath perm pp) auth = Inr a) \<longleftrightarrow> pr_Superadmin (ra_Principal auth)"
  using assms extra_usage_permissions
  by (auto simp: authorizeRBAC_def System_access_def SystemOnProjectPath_def HasSystemPermission_iff)

lemma typed_allows_iff:
  "typed_allows env operation auth \<longleftrightarrow> (\<exists>access a. registerExtraUsageOperations operation = Some access \<and> authorizeRBAC env access auth = Inr a)"
  by (auto simp: typed_allows_def split: option.splits sum.splits)

text \<open>The typed top-up of one order: the resource resolver finds what the old handler checks itself.\<close>
lemma topup_read_agrees:
  assumes "ae_Resolvers env ''extra-usage-topup'' = Some (\<lambda>rid p. ExtraUsageTopupResolver up db rid)" "up ''Resolve''"
    and "GetOrderByID db i = Some ord" "order_ID ord = i" "i \<noteq> ''''" "order_OrderType ord = ''extra_usage_topup''"
    and "order_ProjectID ord = ra_ProjectID auth" "ae_Param env ''orderID'' = i"
  shows "(\<exists>a. resolve_resource env (Project_access perm pp [WithResource ''extra-usage-topup'' ''orderID'']) auth = Inr a)
    \<and> v1_getExtraUsageTopup up db i = handleGetExtraUsageTopup up parse db (ra_ProjectID auth) i"
  using assms by (auto simp: resolve_resource_def Project_access_def WithResource_def ExtraUsageTopupResolver_def
      v1_getExtraUsageTopup_def handleGetExtraUsageTopup_def sameProjectID_def)

text \<open>C17: the access policies of the typed endpoints admit exactly whom the old middleware and role checks admit: reading is for
  every member and superadmins, changing the settings for owners, maintainers and superadmins, the overview, direct
  top-ups and the bypass for superadmins only; the one difference is that the typed top-up asks a superadmin, too, to
  be a member of the project.\<close>
theorem extra_usage_access:
  assumes "pr_UserID (ra_Principal auth) = user_ID u" "pr_Superadmin (ra_Principal auth) = user_IsSuperadmin u"
    and "Authenticated (ra_Principal auth)" "ae_Param env ''projectID'' = p" "p \<noteq> ''''" "ae_uuid_ok env p" "ae_GetProjectMember env = getMember"
    and "\<And>m. getMember p (user_ID u) = Inr (Some m) \<Longrightarrow> Role_Valid (member_Role m)"
  shows "(typed_allows env ''getExtraUsage'' auth \<longleftrightarrow> legacy_allows getMember u p AllProjectRoles)
    \<and> (typed_allows env ''listExtraUsageTransactions'' auth \<longleftrightarrow> legacy_allows getMember u p AllProjectRoles)
    \<and> (typed_allows env ''updateExtraUsage'' auth \<longleftrightarrow> legacy_allows getMember u p [''owner'', ''maintainer''])
    \<and> (typed_allows env ''createExtraUsageTopup'' auth
        \<longleftrightarrow> legacy_allows getMember u p [''owner'', ''maintainer''] \<and> (\<exists>m. getMember p (user_ID u) = Inr (Some m)))
    \<and> (typed_allows env ''adminExtraUsageOverview'' auth \<longleftrightarrow> user_IsSuperadmin u)
    \<and> (typed_allows env ''adminExtraUsageDirectTopup'' auth \<longleftrightarrow> user_IsSuperadmin u)
    \<and> (typed_allows env ''adminExtraUsageSetBypass'' auth \<longleftrightarrow> user_IsSuperadmin u)"
proof -
  note a = project_rbac[OF assms refl, where perm = "''project.extra_usage.read''", simplified]
    and w = project_rbac[OF assms refl, where perm = "''project.extra_usage.write''", simplified]
    and t = project_rbac[OF assms refl, where perm = "''project.extra_usage.topup''", simplified]
    and sys = system_rbac[OF assms(3)]
  show ?thesis
    using a w t sys[of "''system.extra_usage.read''"] sys[of "''system.extra_usage.manage''"] assms(2)
    by (simp add: typed_allows_iff registerExtraUsageOperations_def Let_def)
qed

definition sample_auth :: requestAuthorization where
  "sample_auth = \<lparr>ra_Principal = \<lparr>pr_UserID = ''u1'', pr_Superadmin = False\<rparr>, ra_ProjectID = '''', ra_Role = '''', ra_Resource = None\<rparr>"

lemma extra_usage_access_witness:
  "typed_allows (sample_env ''maintainer'') ''createExtraUsageTopup'' sample_auth
    \<and> \<not> typed_allows (sample_env ''maintainer'') ''adminExtraUsageDirectTopup'' sample_auth"
  using extra_usage_access[where env = "sample_env ''maintainer''" and auth = sample_auth and u = "sample_user ''u1'' False" and p = "''p1''",
      OF _ _ _ _ _ _ refl]
  by (simp add: sample_auth_def sample_user_def sample_env_def Authenticated_def trim_space_def is_space_def char_in_def Role_Valid_def
      legacy_allows_def projectAccessMiddleware_def requireRole_def)

lemma v1_extra_usage_agrees_witness:
  "v1_updateExtraUsage (\<lambda>_. True) empty_db ''p'' (Some True) None
     = handleUpdateExtraUsage (\<lambda>_. True) (Some (sample_user ''u1'' True)) None empty_db ''p'' (Some (Some True, None))"
  using v1_extra_usage_agrees[of "Some (sample_user ''u1'' True)" None "\<lambda>_. True" undefined None undefined empty_db undefined "''p''" undefined 0
     "Some True" None]
  by (simp add: requireRole_def sample_user_def)

end
