(* ===== verification/CatalogAdmin.thy ===== *)
theory CatalogAdmin
  imports Catalog Billing Authz Crypto
begin

text \<open>
  Administration of the model catalog: the tables of the routing configuration with the triggers that guard them
  (store/migrations/016_model_catalog.sql), the model statements (store/models.go), the handlers of
  admin/handle_models.go and the typed endpoints that replace them (api/admin/v1/models.go, model_helpers.go). A
  row of a table is the record the code scans it into, with the columns that record does not keep; JSON columns of
  the code's own types hold the value they decode to. \<^term>\<open>up\<close> says which statements the database
  answers, by name. Statements run one at a time. Of an error only its status and code are kept.
\<close>

section \<open>JSON bodies decoded into maps\<close>

datatype jval = VNull | VBool bool | VNum float64 | VStr string | VArr "jval list" | VObj "(string \<times> jval) list"

type_synonym json_body = "string \<rightharpoonup> jval"

definition string_of :: "jval \<Rightarrow> string option" where
  "string_of v = (case v of VStr s \<Rightarrow> Some s | _ \<Rightarrow> None)"

fun string_elements :: "jval list \<Rightarrow> string list option" where
  "string_elements [] = Some []"
| "string_elements (e # es) = (case string_of e of None \<Rightarrow> None | Some s \<Rightarrow> map_option ((#) s) (string_elements es))"

definition toStringSlice :: "jval \<Rightarrow> string list option" where
  "toStringSlice v = (case v of VArr es \<Rightarrow> string_elements es | VNull \<Rightarrow> Some [] | _ \<Rightarrow> None)"

definition toInt64 :: "jval \<Rightarrow> int option" where
  "toInt64 v = (case v of VNum x \<Rightarrow> Some (int_of_float x) | VNull \<Rightarrow> Some 0 | _ \<Rightarrow> None)"

text \<open>What the driver (github.com/jackc/pgx) stores for a decoded value that is passed on as it is: in a text column, in
  an integer column (None: refused), and what a JSON column reads back as a map of strings.\<close>
record pg_driver =
  pg_text :: "jval \<Rightarrow> string option"
  pg_int :: "jval \<Rightarrow> int option"
  pg_strings :: "jval \<Rightarrow> (string \<rightharpoonup> string)"

text \<open>A nullable text column: null and strings are stored as such.\<close>
definition text_column :: "pg_driver \<Rightarrow> jval \<Rightarrow> string option option" where
  "text_column d v = (case v of VNull \<Rightarrow> Some None | VStr s \<Rightarrow> Some (Some s) | _ \<Rightarrow> map_option Some (pg_text d v))"

section \<open>The tables and their triggers (migrations 003, 016, 065)\<close>

record UpstreamRow = Upstream +
  upr_SocksProxyUsername :: string
  upr_SocksProxyPasswordEncrypted :: bytes

text \<open>The group column of a route may be NULL; \<^term>\<open>route_UpstreamGroupID\<close> of a row is not used.\<close>
record RouteRow = Route +
  rr_Group :: "string option"

text \<open>Of the keys, plans and rate limit policies, the models each of them names.\<close>
record routing_db =
  rd_models :: "Model list"
  rd_upstreams :: "UpstreamRow list"
  rd_groups :: "UpstreamGroup list"
  rd_members :: "UpstreamGroupMember list"
  rd_routes :: "RouteRow list"
  rd_keyModels :: "string list list"
  rd_planRates :: "string list list"
  rd_policyRates :: "string list list"

definition model_names :: "Model \<Rightarrow> string list" where "model_names m = model_Name m # model_Aliases m"

text \<open>BEFORE INSERT OR UPDATE ON models.\<close>
definition assert_model_names_unique :: "Model list \<Rightarrow> Model \<Rightarrow> bool" where
  "assert_model_names_unique ms new =
     (distinct (model_Aliases new) \<and> \<not> List.member (model_Aliases new) (model_Name new)
      \<and> list_all (\<lambda>m. model_Name m = model_Name new \<or> \<not> list_ex (List.member (model_names m)) (model_names new)) ms)"

text \<open>BEFORE INSERT OR UPDATE ON upstreams, routes and api_keys.\<close>
definition assert_model_names_in_catalog :: "Model list \<Rightarrow> string list \<Rightarrow> bool" where
  "assert_model_names_in_catalog ms names = list_all (List.member (map model_Name ms)) names"

text \<open>BEFORE DELETE ON models.\<close>
definition trg_block_referenced_model_delete :: "routing_db \<Rightarrow> string \<Rightarrow> bool" where
  "trg_block_referenced_model_delete db name =
     (list_ex (\<lambda>u. List.member (up_SupportedModels u) name) (rd_upstreams db)
      \<or> list_ex (\<lambda>r. List.member (route_ModelNames r) name) (rd_routes db)
      \<or> list_ex (\<lambda>ns. List.member ns name) (rd_keyModels db))"

section \<open>The statements (store/models.go)\<close>

datatype insert_error = UniqueViolation | OtherError

definition CreateModel :: "routing_db \<Rightarrow> bool \<Rightarrow> Model \<Rightarrow> insert_error + routing_db" where
  "CreateModel db up m =
     (let row = (if model_Status m = '''' then m\<lparr>model_Status := ''active''\<rparr> else m) in
      if \<not> up \<or> \<not> assert_model_names_unique (rd_models db) row then Inl OtherError
      else if List.member (map model_Name (rd_models db)) (model_Name row) then Inl UniqueViolation
      else Inr (db\<lparr>rd_models := rd_models db @ [row]\<rparr>))"

definition GetModelByName :: "routing_db \<Rightarrow> bool \<Rightarrow> string \<Rightarrow> unit + Model option" where
  "GetModelByName db up name = (if \<not> up then Inl () else Inr (find (\<lambda>m. model_Name m = name) (rd_models db)))"

definition ListModels :: "routing_db \<Rightarrow> bool \<Rightarrow> Model list option" where
  "ListModels db up = (if \<not> up then None else Some (sort_key model_Name (rd_models db)))"

definition ListModelsByStatus :: "routing_db \<Rightarrow> bool \<Rightarrow> string \<Rightarrow> Model list option" where
  "ListModelsByStatus db up status = (if \<not> up then None else Some (sort_key model_Name (filter (\<lambda>m. model_Status m = status) (rd_models db))))"

text \<open>The map of column updates: None for a column that is not set. The two columns whose value is not checked hold the
  decoded value; a rate is removed by Some None.\<close>
record model_patch =
  mp_DisplayName :: "jval option"
  mp_Description :: "jval option"
  mp_Status :: "string option"
  mp_Aliases :: "string list option"
  mp_DefaultCreditRate :: "CreditRate option option"
  mp_DefaultImageCreditRate :: "ImageCreditRate option option"
  mp_Publisher :: "string option"
  mp_Metadata :: "ModelMetadata option"

definition no_model_patch :: model_patch where
  "no_model_patch = \<lparr>mp_DisplayName = None, mp_Description = None, mp_Status = None, mp_Aliases = None, mp_DefaultCreditRate = None,
     mp_DefaultImageCreditRate = None, mp_Publisher = None, mp_Metadata = None\<rparr>"

text \<open>The row after the update; None when a value is refused: display_name is NOT NULL, and a NULL description reads as
  the empty string.\<close>
definition patched_model :: "pg_driver \<Rightarrow> model_patch \<Rightarrow> Model \<Rightarrow> Model option" where
  "patched_model d p m =
     (case (case mp_DisplayName p of None \<Rightarrow> Some (Some (model_DisplayName m)) | Some v \<Rightarrow> text_column d v) of
        Some (Some display) \<Rightarrow>
          (case (case mp_Description p of None \<Rightarrow> Some (Some (model_Description m)) | Some v \<Rightarrow> text_column d v) of
             None \<Rightarrow> None
           | Some description \<Rightarrow> Some (m\<lparr>model_DisplayName := display, model_Description := the_or '''' description,
               model_Status := the_or (model_Status m) (mp_Status p), model_Aliases := the_or (model_Aliases m) (mp_Aliases p),
               model_DefaultCreditRate := the_or (model_DefaultCreditRate m) (mp_DefaultCreditRate p),
               model_DefaultImageCreditRate := the_or (model_DefaultImageCreditRate m) (mp_DefaultImageCreditRate p),
               model_Publisher := the_or (model_Publisher m) (mp_Publisher p),
               model_Metadata := the_or (model_Metadata m) (mp_Metadata p)\<rparr>))
      | _ \<Rightarrow> None)"

definition UpdateModel :: "routing_db \<Rightarrow> bool \<Rightarrow> pg_driver \<Rightarrow> string \<Rightarrow> model_patch \<Rightarrow> routing_db option" where
  "UpdateModel db up d name p =
     (if p = no_model_patch then Some db
      else if \<not> up then None
      else (case find (\<lambda>m. model_Name m = name) (rd_models db) of None \<Rightarrow> Some db
        | Some m \<Rightarrow>
            (case patched_model d p m of None \<Rightarrow> None
             | Some m' \<Rightarrow>
                 if \<not> assert_model_names_unique (rd_models db) m' then None
                 else Some (db\<lparr>rd_models := map (\<lambda>x. if model_Name x = name then m' else x) (rd_models db)\<rparr>))))"

definition DeleteModel :: "routing_db \<Rightarrow> bool \<Rightarrow> string \<Rightarrow> routing_db option" where
  "DeleteModel db up name =
     (if \<not> up \<or> (List.member (map model_Name (rd_models db)) name \<and> trg_block_referenced_model_delete db name) then None
      else Some (db\<lparr>rd_models := filter (\<lambda>m. model_Name m \<noteq> name) (rd_models db)\<rparr>))"

record ModelReferenceCounts =
  rc_Upstreams :: nat
  rc_Routes :: nat
  rc_Plans :: nat
  rc_Policies :: nat
  rc_APIKeys :: nat

definition Total :: "ModelReferenceCounts \<Rightarrow> nat" where
  "Total c = rc_Upstreams c + rc_Routes c + rc_Plans c + rc_Policies c + rc_APIKeys c"

definition naming :: "('a \<Rightarrow> string list) \<Rightarrow> string \<Rightarrow> 'a list \<Rightarrow> nat" where
  "naming f name xs = length (filter (\<lambda>x. List.member (f x) name) xs)"

definition ModelReferenceCountsFor :: "routing_db \<Rightarrow> (string \<Rightarrow> bool) \<Rightarrow> string \<Rightarrow> ModelReferenceCounts option" where
  "ModelReferenceCountsFor db up name =
     (if \<not> up ''count upstreams'' then None
      else if \<not> up ''count routes'' then None
      else if \<not> up ''count plans'' then None
      else if \<not> up ''count policies'' then None
      else if \<not> up ''count keys'' then None
      else Some \<lparr>rc_Upstreams = naming up_SupportedModels name (rd_upstreams db), rc_Routes = naming route_ModelNames name (rd_routes db),
        rc_Plans = naming id name (rd_planRates db), rc_Policies = naming id name (rd_policyRates db),
        rc_APIKeys = naming id name (rd_keyModels db)\<rparr>)"

section \<open>Validation (handle_models.go; model_helpers.go is a copy)\<close>

definition modelLegalChars :: string where "modelLegalChars = ''abcdefghijklmnopqrstuvwxyz0123456789._-''"

text \<open>The checks answer whether there is no error. A byte outside ASCII is part of a rune that is not legal.\<close>
definition validateModelName :: "string \<Rightarrow> bool" where
  "validateModelName s = (s = to_lower s \<and> list_all (List.member modelLegalChars) s)"

fun alias_loop :: "string \<Rightarrow> string list \<Rightarrow> string list \<Rightarrow> bool" where
  "alias_loop canonical seen [] = True"
| "alias_loop canonical seen (a # as) =
     (if \<not> validateModelName a then False
      else if a = canonical then False
      else if List.member seen a then False
      else alias_loop canonical (a # seen) as)"

definition validateAliases :: "string \<Rightarrow> string list \<Rightarrow> bool" where
  "validateAliases canonical aliases = alias_loop canonical [] aliases"

definition validatePublisher :: "string \<Rightarrow> bool" where "validatePublisher p = (p \<noteq> '''')"

definition validateCreditRate :: "CreditRate option \<Rightarrow> bool" where
  "validateCreditRate rate =
     (case rate of None \<Rightarrow> True
      | Some r \<Rightarrow>
          if InputRate r < 0 \<or> OutputRate r < 0 \<or> CacheCreationRate r < 0 \<or> CacheReadRate r < 0 then False
          else (case LongContext r of None \<Rightarrow> True
            | Some lc \<Rightarrow>
                if ThresholdInputTokens lc \<le> 0 then False
                else if InputMultiplier lc \<le> 0 \<or> OutputMultiplier lc \<le> 0 then False
                else True))"

definition validateImageCreditRate :: "ImageCreditRate option \<Rightarrow> bool" where
  "validateImageCreditRate rate =
     (case rate of None \<Rightarrow> True
      | Some r \<Rightarrow> \<not> (TextInputRate r < 0 \<or> TextCachedInputRate r < 0 \<or> TextOutputRate r < 0 \<or> ImageInputRate r < 0
          \<or> ImageCachedInputRate r < 0 \<or> ImageOutputRate r < 0))"

definition validateModelPayload :: "string \<Rightarrow> string list \<Rightarrow> string \<Rightarrow> CreditRate option \<Rightarrow> ImageCreditRate option \<Rightarrow> bool" where
  "validateModelPayload name aliases status rate imageRate =
     (if name = '''' then False
      else if \<not> validateModelName name then False
      else if \<not> validateAliases name aliases then False
      else if status \<noteq> '''' \<and> status \<noteq> ''active'' \<and> status \<noteq> ''disabled'' then False
      else if \<not> validateCreditRate rate then False
      else validateImageCreditRate imageRate)"

definition refreshCatalog :: "(string \<Rightarrow> bool) \<Rightarrow> routing_db \<Rightarrow> catalog \<Rightarrow> catalog" where
  "refreshCatalog up db cat = (case ListModels db (up ''ListModels'') of None \<Rightarrow> cat | Some ms \<Rightarrow> Swap cat ms)"

section \<open>The handlers (admin/handle_models.go)\<close>

text \<open>The columns a project member is shown.\<close>
definition handleListProjectModels :: "(string \<Rightarrow> bool) \<Rightarrow> routing_db \<Rightarrow> (string \<times> string \<times> string \<times> string list \<times> string \<times> ModelMetadata) list response" where
  "handleListProjectModels up db =
     (case ListModelsByStatus db (up ''ListModelsByStatus'') ''active'' of None \<Rightarrow> Failure 500 ''internal''
      | Some ms \<Rightarrow> Success 200 (map (\<lambda>m. (model_Name m, model_DisplayName m, model_Description m, model_Aliases m, model_Publisher m, model_Metadata m)) ms))"

fun counted_rows :: "(string \<Rightarrow> ModelReferenceCounts option) \<Rightarrow> Model list \<Rightarrow> (Model \<times> ModelReferenceCounts) list option" where
  "counted_rows counts [] = Some []"
| "counted_rows counts (m # ms) =
     (case counts (model_Name m) of None \<Rightarrow> None
      | Some c \<Rightarrow> map_option ((#) (m, c)) (counted_rows counts ms))"

text \<open>\<^term>\<open>upOf\<close>: which statements are answered while the references of one model are counted.\<close>
definition handleListModels ::
  "(string \<Rightarrow> bool) \<Rightarrow> (string \<Rightarrow> string \<Rightarrow> bool) \<Rightarrow> routing_db \<Rightarrow> string \<Rightarrow> (Model \<times> ModelReferenceCounts) list response" where
  "handleListModels up upOf db status =
     (case (if status \<noteq> '''' then ListModelsByStatus db (up ''ListModelsByStatus'') status else ListModels db (up ''ListModels'')) of
        None \<Rightarrow> Failure 500 ''internal''
      | Some ms \<Rightarrow> (case counted_rows (\<lambda>name. ModelReferenceCountsFor db (upOf name) name) ms of
            None \<Rightarrow> Failure 500 ''internal'' | Some out \<Rightarrow> Success 200 out))"

definition handleGetModel :: "(string \<Rightarrow> bool) \<Rightarrow> routing_db \<Rightarrow> string \<Rightarrow> Model response" where
  "handleGetModel up db name =
     (case GetModelByName db (up ''GetModelByName'') name of
        Inl _ \<Rightarrow> Failure 500 ''internal''
      | Inr None \<Rightarrow> Failure 404 ''not_found''
      | Inr (Some m) \<Rightarrow> Success 200 m)"

text \<open>The body has the members of a model row. The answer is the row as it was sent, not as it was stored.\<close>
definition handleCreateModel :: "(string \<Rightarrow> bool) \<Rightarrow> routing_db \<Rightarrow> catalog \<Rightarrow> Model option \<Rightarrow> Model response \<times> routing_db \<times> catalog" where
  "handleCreateModel up db cat body =
     (case body of None \<Rightarrow> (Failure 400 ''bad_request'', db, cat)
      | Some b \<Rightarrow>
          if \<not> validateModelPayload (model_Name b) (model_Aliases b) (model_Status b) (model_DefaultCreditRate b) (model_DefaultImageCreditRate b)
          then (Failure 400 ''bad_request'', db, cat)
          else if \<not> validatePublisher (model_Publisher b) then (Failure 400 ''bad_request'', db, cat)
          else (let m = (if model_DisplayName b = '''' then b\<lparr>model_DisplayName := model_Name b\<rparr> else b) in
            case CreateModel db (up ''CreateModel'') m of
              Inl UniqueViolation \<Rightarrow> (Failure 409 ''conflict'', db, cat)
            | Inl OtherError \<Rightarrow> (Failure 400 ''bad_request'', db, cat)
            | Inr db' \<Rightarrow> (Success 201 m, db', refreshCatalog up db' cat)))"

text \<open>The decoders of encoding/json for the values of three columns: None when a rate does not decode; metadata is stored
  unchecked and reads back as what decodes.\<close>
record rate_json =
  rj_Credit :: "jval \<Rightarrow> CreditRate option"
  rj_Image :: "jval \<Rightarrow> ImageCreditRate option"
  rj_Metadata :: "jval \<Rightarrow> ModelMetadata"

text \<open>The value of a rate column: null removes it, another value must decode and be valid; None is an error.\<close>
definition rate_update :: "(jval \<Rightarrow> 'r option) \<Rightarrow> ('r option \<Rightarrow> bool) \<Rightarrow> jval \<Rightarrow> 'r option option" where
  "rate_update decode valid v =
     (if v = VNull then Some None
      else (case decode v of None \<Rightarrow> None | Some rate \<Rightarrow> if \<not> valid (Some rate) then None else Some (Some rate)))"

text \<open>A member of the body that is absent sets nothing; the inner None of the argument is an error.\<close>
definition member_update :: "json_body \<Rightarrow> string \<Rightarrow> (jval \<Rightarrow> 'a option) \<Rightarrow> 'a option option" where
  "member_update body field f = (case body field of None \<Rightarrow> Some None | Some v \<Rightarrow> map_option Some (f v))"

definition model_updates :: "rate_json \<Rightarrow> Model \<Rightarrow> json_body \<Rightarrow> model_patch option" where
  "model_updates rj existing body =
     (case member_update body ''status'' (\<lambda>v. let status = the_or '''' (string_of v) in
             if status \<noteq> ''active'' \<and> status \<noteq> ''disabled'' then None else Some status) of None \<Rightarrow> None
      | Some status \<Rightarrow>
     (case member_update body ''aliases'' (\<lambda>v. case toStringSlice v of None \<Rightarrow> None
             | Some as \<Rightarrow> if \<not> validateAliases (model_Name existing) as then None else Some as) of None \<Rightarrow> None
      | Some aliases \<Rightarrow>
     (case member_update body ''default_credit_rate'' (rate_update (rj_Credit rj) validateCreditRate) of None \<Rightarrow> None
      | Some credit \<Rightarrow>
     (case member_update body ''default_image_credit_rate'' (rate_update (rj_Image rj) validateImageCreditRate) of None \<Rightarrow> None
      | Some img \<Rightarrow>
     (case member_update body ''publisher'' (\<lambda>v. let pub = the_or '''' (string_of v) in
             if \<not> validatePublisher pub then None else Some pub) of None \<Rightarrow> None
      | Some pub \<Rightarrow>
          Some \<lparr>mp_DisplayName = body ''display_name'', mp_Description = body ''description'', mp_Status = status, mp_Aliases = aliases,
             mp_DefaultCreditRate = credit, mp_DefaultImageCreditRate = img, mp_Publisher = pub,
             mp_Metadata = map_option (rj_Metadata rj) (body ''metadata'')\<rparr>)))))"

text \<open>The row the handlers answer with is read again; None when that fails.\<close>
definition reread :: "(string \<Rightarrow> bool) \<Rightarrow> routing_db \<Rightarrow> string \<Rightarrow> Model option" where
  "reread up db name = (case GetModelByName db (up ''reread'') name of Inl _ \<Rightarrow> None | Inr m \<Rightarrow> m)"

definition handleUpdateModel ::
  "(string \<Rightarrow> bool) \<Rightarrow> pg_driver \<Rightarrow> rate_json \<Rightarrow> routing_db \<Rightarrow> catalog \<Rightarrow> string \<Rightarrow> json_body option
   \<Rightarrow> Model option response \<times> routing_db \<times> catalog" where
  "handleUpdateModel up d rj db cat name body =
     (case GetModelByName db (up ''GetModelByName'') name of
        Inr (Some existing) \<Rightarrow>
          (case body of None \<Rightarrow> (Failure 400 ''bad_request'', db, cat)
           | Some b \<Rightarrow>
               if b ''name'' \<noteq> None then (Failure 400 ''bad_request'', db, cat)
               else (case model_updates rj existing b of
                  None \<Rightarrow> (Failure 400 ''bad_request'', db, cat)
                | Some updates \<Rightarrow>
                    if updates = no_model_patch then (Failure 400 ''bad_request'', db, cat)
                    else (case UpdateModel db (up ''UpdateModel'') d name updates of
                       None \<Rightarrow> (Failure 400 ''bad_request'', db, cat)
                     | Some db' \<Rightarrow> (Success 200 (reread up db' name), db', refreshCatalog up db' cat))))
      | _ \<Rightarrow> (Failure 404 ''not_found'', db, cat))"

definition handleDeleteModel :: "(string \<Rightarrow> bool) \<Rightarrow> routing_db \<Rightarrow> catalog \<Rightarrow> string \<Rightarrow> unit response \<times> routing_db \<times> catalog" where
  "handleDeleteModel up db cat name =
     (case GetModelByName db (up ''GetModelByName'') name of
        Inr (Some existing) \<Rightarrow>
          (case ModelReferenceCountsFor db up name of
             None \<Rightarrow> (Failure 500 ''internal'', db, cat)
           | Some counts \<Rightarrow>
               if Total counts > 0 then (Failure 409 ''conflict'', db, cat)
               else (case DeleteModel db (up ''DeleteModel'') name of
                  None \<Rightarrow> (Failure 400 ''bad_request'', db, cat)
                | Some db' \<Rightarrow> (Success 204 (), db', refreshCatalog up db' cat)))
      | _ \<Rightarrow> (Failure 404 ''not_found'', db, cat))"

section \<open>The typed endpoints (api/admin/v1/models.go)\<close>

definition registerModelOperations :: "string \<Rightarrow> AccessPolicy option" where
  "registerModelOperations = map_of
     (let read = System_access ''system.models.read'' []; write = System_access ''system.models.manage'' []
      in [(''listModels'', read), (''getModel'', read), (''createModel'', write), (''updateModel'', write), (''updateModelPut'', write),
          (''deleteModel'', write)])"

definition v1_listModels ::
  "(string \<Rightarrow> bool) \<Rightarrow> (string \<Rightarrow> string \<Rightarrow> bool) \<Rightarrow> routing_db \<Rightarrow> string \<Rightarrow> (Model \<times> ModelReferenceCounts) list response" where
  "v1_listModels up upOf db status =
     (case (if status \<noteq> '''' then ListModelsByStatus db (up ''ListModelsByStatus'') status else ListModels db (up ''ListModels'')) of
        None \<Rightarrow> Failure 500 ''internal''
      | Some ms \<Rightarrow>
          (case foldl (\<lambda>rs m. case rs of None \<Rightarrow> None
               | Some xs \<Rightarrow> map_option (\<lambda>c. xs @ [(m, c)]) (ModelReferenceCountsFor db (upOf (model_Name m)) (model_Name m))) (Some []) ms of
             None \<Rightarrow> Failure 500 ''internal'' | Some out \<Rightarrow> Success 200 out))"

definition v1_createModel :: "(string \<Rightarrow> bool) \<Rightarrow> routing_db \<Rightarrow> catalog \<Rightarrow> Model \<Rightarrow> Model response \<times> routing_db \<times> catalog" where
  "v1_createModel up db cat b =
     (if \<not> (validateModelPayload (model_Name b) (model_Aliases b) (model_Status b) (model_DefaultCreditRate b) (model_DefaultImageCreditRate b)
          \<and> validatePublisher (model_Publisher b)) then (Failure 400 ''bad_request'', db, cat)
      else (let m = b\<lparr>model_DisplayName := (if model_DisplayName b = '''' then model_Name b else model_DisplayName b)\<rparr> in
        case CreateModel db (up ''CreateModel'') m of
          Inl e \<Rightarrow> (if e = UniqueViolation then Failure 409 ''conflict'' else Failure 400 ''bad_request'', db, cat)
        | Inr db' \<Rightarrow> (Success 201 m, db', refreshCatalog up db' cat)))"

text \<open>Raw JSON members hold the decoded value; a raw null is the value null.\<close>
record update_model_body =
  um_Name :: "string option"
  um_DisplayName :: "string option"
  um_Description :: "string option"
  um_Status :: "string option"
  um_Aliases :: "string list option"
  um_DefaultCreditRate :: "jval option"
  um_DefaultImageCreditRate :: "jval option"
  um_Publisher :: "string option"
  um_Metadata :: "jval option"

definition v1_rate :: "(jval \<Rightarrow> 'r option) \<Rightarrow> ('r option \<Rightarrow> bool) \<Rightarrow> jval option \<Rightarrow> 'r option option option" where
  "v1_rate decode valid raw =
     (case raw of None \<Rightarrow> Some None
      | Some v \<Rightarrow>
          if v = VNull then Some (Some None)
          else (case decode v of None \<Rightarrow> None | Some rate \<Rightarrow> if valid (Some rate) then Some (Some (Some rate)) else None))"

definition v1_updateModel ::
  "(string \<Rightarrow> bool) \<Rightarrow> pg_driver \<Rightarrow> rate_json \<Rightarrow> Model \<Rightarrow> routing_db \<Rightarrow> catalog \<Rightarrow> string \<Rightarrow> update_model_body
   \<Rightarrow> Model option response \<times> routing_db \<times> catalog" where
  "v1_updateModel up d rj zero db cat name b =
     (case GetModelByName db (up ''GetModelByName'') name of
        Inl _ \<Rightarrow> (Failure 404 ''not_found'', db, cat)
      | Inr None \<Rightarrow> (Failure 404 ''not_found'', db, cat)
      | Inr (Some existing) \<Rightarrow>
          if um_Name b \<noteq> None then (Failure 400 ''bad_request'', db, cat)
          else if (case um_Status b of None \<Rightarrow> False | Some s \<Rightarrow> s \<noteq> ''active'' \<and> s \<noteq> ''disabled'') then (Failure 400 ''bad_request'', db, cat)
          else if (case um_Aliases b of None \<Rightarrow> False | Some as \<Rightarrow> \<not> validateAliases (model_Name existing) as) then (Failure 400 ''bad_request'', db, cat)
          else (case (v1_rate (rj_Credit rj) validateCreditRate (um_DefaultCreditRate b),
                      v1_rate (rj_Image rj) validateImageCreditRate (um_DefaultImageCreditRate b)) of
             (Some credit, Some img) \<Rightarrow>
               if (case um_Publisher b of None \<Rightarrow> False | Some p \<Rightarrow> \<not> validatePublisher p) then (Failure 400 ''bad_request'', db, cat)
               else (let updates = \<lparr>mp_DisplayName = map_option VStr (um_DisplayName b), mp_Description = map_option VStr (um_Description b),
                        mp_Status = um_Status b, mp_Aliases = um_Aliases b, mp_DefaultCreditRate = credit, mp_DefaultImageCreditRate = img,
                        mp_Publisher = um_Publisher b, mp_Metadata = map_option (rj_Metadata rj) (um_Metadata b)\<rparr> in
                 if updates = no_model_patch then (Failure 400 ''bad_request'', db, cat)
                 else (case UpdateModel db (up ''UpdateModel'') d name updates of
                    None \<Rightarrow> (Failure 400 ''bad_request'', db, cat)
                  | Some db' \<Rightarrow> (Success 200 (Some (the_or zero (reread up db' name))), db', refreshCatalog up db' cat)))
           | _ \<Rightarrow> (Failure 400 ''bad_request'', db, cat)))"

definition v1_getModel :: "(string \<Rightarrow> bool) \<Rightarrow> routing_db \<Rightarrow> string \<Rightarrow> Model response" where
  "v1_getModel up db name =
     (case GetModelByName db (up ''GetModelByName'') name of Inl _ \<Rightarrow> Failure 500 ''internal''
      | Inr r \<Rightarrow> (case r of None \<Rightarrow> Failure 404 ''not_found'' | Some m \<Rightarrow> Success 200 m))"

definition v1_deleteModel :: "(string \<Rightarrow> bool) \<Rightarrow> routing_db \<Rightarrow> catalog \<Rightarrow> string \<Rightarrow> unit response \<times> routing_db \<times> catalog" where
  "v1_deleteModel up db cat name =
     (if (case GetModelByName db (up ''GetModelByName'') name of Inl _ \<Rightarrow> True | Inr r \<Rightarrow> r = None) then (Failure 404 ''not_found'', db, cat)
      else (case ModelReferenceCountsFor db up name of None \<Rightarrow> (Failure 500 ''internal'', db, cat)
        | Some counts \<Rightarrow>
            if Total counts > 0 then (Failure 409 ''conflict'', db, cat)
            else (case DeleteModel db (up ''DeleteModel'') name of None \<Rightarrow> (Failure 400 ''bad_request'', db, cat)
              | Some db' \<Rightarrow> (Success 204 (), db', refreshCatalog up db' cat))))"

section \<open>Names of the catalog never collide\<close>

text \<open>What the rows of the table satisfy: legal names, not empty, and no name or alias used twice.\<close>
definition models_ok :: "Model list \<Rightarrow> bool" where
  "models_ok ms = (distinct (map model_Name ms)
     \<and> (\<forall>m \<in> set ms. model_Name m \<noteq> '''' \<and> list_all validateModelName (model_names m)
          \<and> distinct (model_names m))
     \<and> (\<forall>m \<in> set ms. \<forall>m' \<in> set ms. model_Name m \<noteq> model_Name m' \<longrightarrow> set (model_names m) \<inter> set (model_names m') = {}))"

lemma alias_loop_iff:
  "alias_loop canonical seen as \<longleftrightarrow> list_all validateModelName as \<and> canonical \<notin> set as \<and> distinct as \<and> set seen \<inter> set as = {}"
  by (induction as arbitrary: seen) auto

lemma validateAliases_iff:
  "validateAliases canonical as \<longleftrightarrow> list_all validateModelName as \<and> canonical \<notin> set as \<and> distinct as"
  by (simp add: validateAliases_def alias_loop_iff)

lemma unique_trigger_iff:
  "assert_model_names_unique ms new \<longleftrightarrow> distinct (model_names new)
     \<and> (\<forall>m \<in> set ms. model_Name m = model_Name new \<or> set (model_names m) \<inter> set (model_names new) = {})"
  by (auto simp: assert_model_names_unique_def model_names_def list_all_iff list_ex_iff)

lemma legal_lower: "validateModelName s \<Longrightarrow> to_lower s = s"
  by (simp add: validateModelName_def)

lemma row_keys_legal: "list_all validateModelName (model_names m) \<Longrightarrow> row_keys m = set (model_names m)"
  by (force simp: row_keys_def model_names_def list_all_iff legal_lower)

lemma models_ok_disjoint:
  "models_ok ms \<Longrightarrow> m \<in> set ms \<Longrightarrow> m' \<in> set ms \<Longrightarrow> x \<in> set (model_names m) \<Longrightarrow> x \<in> set (model_names m')
     \<Longrightarrow> model_Name m = model_Name m'"
  unfolding models_ok_def by blast

lemma models_ok_row_keys: "models_ok ms \<Longrightarrow> m \<in> set ms \<Longrightarrow> row_keys m = set (model_names m)"
  by (simp add: models_ok_def row_keys_legal)

lemma models_ok_collision_free:
  assumes "models_ok ms"
  shows "collision_free ms"
  unfolding collision_free_def
proof (intro allI impI)
  fix i j assume ij: "i < length ms" "j < length ms" "row_keys (ms ! i) \<inter> row_keys (ms ! j) \<noteq> {}"
  then have "model_Name (ms ! i) = model_Name (ms ! j)"
    using models_ok_disjoint[OF assms nth_mem[OF ij(1)] nth_mem[OF ij(2)]] models_ok_row_keys[OF assms] ij by auto
  then show "ms ! i = ms ! j" using assms ij(1,2) nth_eq_iff_index_eq[of "map model_Name ms" i j] by (simp add: models_ok_def)
qed

lemma models_ok_mset: "mset ms = mset ms' \<Longrightarrow> models_ok ms = models_ok ms'"
proof -
  assume a: "mset ms = mset ms'"
  then have "distinct (map model_Name ms) = distinct (map model_Name ms')"
    by (metis mset_map mset_eq_imp_distinct_iff)
  then show ?thesis using mset_eq_setD[OF a] by (simp add: models_ok_def)
qed

lemma models_ok_sorted: "models_ok (sort_key model_Name ms) = models_ok ms"
  by (rule models_ok_mset) simp

lemma models_ok_snoc:
  assumes "models_ok ms" "assert_model_names_unique ms m" "model_Name m \<notin> set (map model_Name ms)" "model_Name m \<noteq> ''''"
    "list_all validateModelName (model_names m)"
  shows "models_ok (ms @ [m])"
proof -
  have "set (model_names x) \<inter> set (model_names m) = {}" if "x \<in> set ms" for x
  proof -
    have "model_Name x \<noteq> model_Name m" using that assms(3) by (metis image_eqI list.set_map)
    then show ?thesis using assms(2) that unfolding unique_trigger_iff by blast
  qed
  then show ?thesis using assms unfolding models_ok_def unique_trigger_iff by auto
qed

lemma models_ok_replace:
  assumes "models_ok ms" "assert_model_names_unique ms m" "model_Name m = name" "name \<noteq> ''''" "list_all validateModelName (model_names m)"
  shows "models_ok (map (\<lambda>x. if model_Name x = name then m else x) ms)"
proof -
  have n: "map model_Name (map (\<lambda>x. if model_Name x = name then m else x) ms) = map model_Name ms" using assms(3) by auto
  have s: "y \<in> set (map (\<lambda>x. if model_Name x = name then m else x) ms) \<Longrightarrow> y = m \<or> (y \<in> set ms \<and> model_Name y \<noteq> name)" for y by auto
  show ?thesis
    unfolding models_ok_def n
  proof (intro conjI ballI impI)
    show "distinct (map model_Name ms)" using assms(1) by (simp add: models_ok_def)
  next
    fix x assume "x \<in> set (map (\<lambda>x. if model_Name x = name then m else x) ms)"
    from s[OF this] have "model_Name x \<noteq> '''' \<and> list_all validateModelName (model_names x) \<and> distinct (model_names x)"
      using assms by (auto simp: models_ok_def unique_trigger_iff)
    then show "model_Name x \<noteq> ''''" "list_all validateModelName (model_names x)" "distinct (model_names x)" by simp_all
  next
    fix x y assume "x \<in> set (map (\<lambda>x. if model_Name x = name then m else x) ms)" "y \<in> set (map (\<lambda>x. if model_Name x = name then m else x) ms)"
      "model_Name x \<noteq> model_Name y"
    with s[of x] s[of y] show "set (model_names x) \<inter> set (model_names y) = {}"
      using assms(1,2,3) unfolding models_ok_def unique_trigger_iff by (metis Int_commute)
  qed
qed

lemma models_ok_filter: "models_ok ms \<Longrightarrow> models_ok (filter P ms)"
  by (auto simp: models_ok_def distinct_map inj_on_def)

lemma CreateModel_ok:
  assumes "CreateModel db up m = Inr db'" "models_ok (rd_models db)" "model_Name m \<noteq> ''''" "list_all validateModelName (model_names m)"
  shows "models_ok (rd_models db') \<and> set (map model_Name (rd_models db)) \<subseteq> set (map model_Name (rd_models db'))
    \<and> db' = db\<lparr>rd_models := rd_models db'\<rparr>"
proof -
  let ?row = "if model_Status m = '''' then m\<lparr>model_Status := ''active''\<rparr> else m"
  have row: "model_Name ?row = model_Name m" "model_names ?row = model_names m" by (simp_all add: model_names_def)
  have "db' = db\<lparr>rd_models := rd_models db @ [?row]\<rparr>" "assert_model_names_unique (rd_models db) ?row"
      "model_Name ?row \<notin> set (map model_Name (rd_models db))"
    using assms(1) by (auto simp: CreateModel_def Let_def split: if_splits)
  then show ?thesis using models_ok_snoc[OF assms(2), of ?row] assms(3,4) row by auto
qed

lemma find_named: "find (\<lambda>m. model_Name m = name) ms = Some m \<Longrightarrow> m \<in> set ms \<and> model_Name m = name"
  by (auto simp: find_Some_iff)

lemma patched_model_names:
  "patched_model d p m = Some m' \<Longrightarrow> model_Name m' = model_Name m \<and> model_Aliases m' = the_or (model_Aliases m) (mp_Aliases p)"
  by (auto simp: patched_model_def split: option.splits)

lemma UpdateModel_ok:
  assumes "UpdateModel db up d name p = Some db'" "models_ok (rd_models db)"
    "\<And>as. mp_Aliases p = Some as \<Longrightarrow> list_all validateModelName as"
  shows "models_ok (rd_models db') \<and> map model_Name (rd_models db') = map model_Name (rd_models db)
    \<and> db' = db\<lparr>rd_models := rd_models db'\<rparr>"
proof (cases "db' = db")
  case True then show ?thesis using assms(2) by simp
next
  case False
  then obtain m m' where m: "find (\<lambda>m. model_Name m = name) (rd_models db) = Some m" "patched_model d p m = Some m'"
      "assert_model_names_unique (rd_models db) m'"
      "db' = db\<lparr>rd_models := map (\<lambda>x. if model_Name x = name then m' else x) (rd_models db)\<rparr>"
    using assms(1) by (auto simp: UpdateModel_def split: if_splits option.splits)
  note f = find_named[OF m(1)] and n = patched_model_names[OF m(2)]
  have "model_Name m \<noteq> ''''" "list_all validateModelName (model_names m)" using f assms(2) by (auto simp: models_ok_def)
  then have "list_all validateModelName (model_names m')"
    using n assms(3) by (cases "mp_Aliases p") (auto simp: model_names_def)
  then show ?thesis
    using models_ok_replace[OF assms(2) m(3), of name] f n \<open>model_Name m \<noteq> ''''\<close> m(4) by auto
qed

lemma DeleteModel_ok:
  assumes "DeleteModel db up name = Some db'" "models_ok (rd_models db)"
  shows "models_ok (rd_models db') \<and> (\<not> trg_block_referenced_model_delete db name \<or> name \<notin> set (map model_Name (rd_models db)))
    \<and> db' = db\<lparr>rd_models := filter (\<lambda>m. model_Name m \<noteq> name) (rd_models db)\<rparr>"
  using assms by (auto simp: DeleteModel_def models_ok_filter split: if_splits)

lemma model_updates_aliases:
  "model_updates rj existing b = Some p \<Longrightarrow> mp_Aliases p = Some as \<Longrightarrow> list_all validateModelName as"
  by (auto simp: model_updates_def member_update_def validateAliases_iff split: option.splits if_splits)

lemma payload_names: "validateModelPayload n as s r ir \<Longrightarrow> n \<noteq> '''' \<and> validateModelName n \<and> list_all validateModelName as"
  by (auto simp: validateModelPayload_def validateAliases_iff split: if_splits)

lemma handleCreateModel_ok:
  assumes "models_ok (rd_models db)"
  shows "models_ok (rd_models (fst (snd (handleCreateModel up db cat body))))"
    and "set (map model_Name (rd_models db)) \<subseteq> set (map model_Name (rd_models (fst (snd (handleCreateModel up db cat body)))))"
    and "fst (snd (handleCreateModel up db cat body)) = db\<lparr>rd_models := rd_models (fst (snd (handleCreateModel up db cat body)))\<rparr>"
proof -
  have "fst (snd (handleCreateModel up db cat body)) = db \<or> (\<exists>m. CreateModel db (up ''CreateModel'') m = Inr (fst (snd (handleCreateModel up db cat body)))
      \<and> model_Name m \<noteq> '''' \<and> list_all validateModelName (model_names m))"
    (is "?d = db \<or> ?ex")
  proof (cases body)
    case None then show ?thesis by (simp add: handleCreateModel_def)
  next
    case (Some b)
    let ?m = "if model_DisplayName b = '''' then b\<lparr>model_DisplayName := model_Name b\<rparr> else b"
    have n: "model_names ?m = model_names b" "model_Name ?m = model_Name b" by (simp_all add: model_names_def)
    show ?thesis
    proof (cases "validateModelPayload (model_Name b) (model_Aliases b) (model_Status b) (model_DefaultCreditRate b) (model_DefaultImageCreditRate b)
        \<and> validatePublisher (model_Publisher b)")
      case False then show ?thesis using Some by (auto simp: handleCreateModel_def)
    next
      case True
      note v = payload_names[OF conjunct1[OF True]]
      show ?thesis
      proof (cases "CreateModel db (up ''CreateModel'') ?m")
        case (Inl e) then show ?thesis using Some True by (cases e) (simp_all add: handleCreateModel_def Let_def)
      next
        case (Inr db')
        then have "?d = db'" using Some True by (simp add: handleCreateModel_def Let_def)
        then have ?ex using Inr n v by (intro exI[of _ ?m]) (simp add: model_names_def del: if_split)
        then show ?thesis ..
      qed
    qed
  qed
  then have "models_ok (rd_models ?d) \<and> set (map model_Name (rd_models db)) \<subseteq> set (map model_Name (rd_models ?d))
      \<and> ?d = db\<lparr>rd_models := rd_models ?d\<rparr>"
  proof
    assume "?d = db" then show ?thesis using assms by simp
  next
    assume ?ex then show ?thesis using CreateModel_ok[OF _ assms] by blast
  qed
  then show "models_ok (rd_models ?d)" "set (map model_Name (rd_models db)) \<subseteq> set (map model_Name (rd_models ?d))"
    "?d = db\<lparr>rd_models := rd_models ?d\<rparr>" by blast+
qed

lemma handleUpdateModel_ok:
  assumes "models_ok (rd_models db)"
  shows "models_ok (rd_models (fst (snd (handleUpdateModel up d rj db cat name body))))"
    and "map model_Name (rd_models (fst (snd (handleUpdateModel up d rj db cat name body)))) = map model_Name (rd_models db)"
    and "fst (snd (handleUpdateModel up d rj db cat name body)) = db\<lparr>rd_models := rd_models (fst (snd (handleUpdateModel up d rj db cat name body)))\<rparr>"
proof -
  have "fst (snd (handleUpdateModel up d rj db cat name body)) = db
      \<or> (\<exists>p. UpdateModel db (up ''UpdateModel'') d name p = Some (fst (snd (handleUpdateModel up d rj db cat name body)))
          \<and> (\<forall>as. mp_Aliases p = Some as \<longrightarrow> list_all validateModelName as))"
    by (auto simp: handleUpdateModel_def dest: model_updates_aliases split: option.splits sum.splits)
  then show "models_ok (rd_models (fst (snd (handleUpdateModel up d rj db cat name body))))"
    and "map model_Name (rd_models (fst (snd (handleUpdateModel up d rj db cat name body)))) = map model_Name (rd_models db)"
    and "fst (snd (handleUpdateModel up d rj db cat name body)) = db\<lparr>rd_models := rd_models (fst (snd (handleUpdateModel up d rj db cat name body)))\<rparr>"
    using UpdateModel_ok[OF _ assms] assms by auto
qed

lemma handleDeleteModel_ok:
  assumes "models_ok (rd_models db)"
  shows "models_ok (rd_models (fst (snd (handleDeleteModel up db cat name))))"
    and "fst (snd (handleDeleteModel up db cat name)) = db \<or> (\<not> trg_block_referenced_model_delete db name
      \<and> fst (snd (handleDeleteModel up db cat name)) = db\<lparr>rd_models := filter (\<lambda>m. model_Name m \<noteq> name) (rd_models db)\<rparr>)"
proof -
  have "fst (snd (handleDeleteModel up db cat name)) = db
      \<or> (name \<in> set (map model_Name (rd_models db)) \<and> DeleteModel db (up ''DeleteModel'') name = Some (fst (snd (handleDeleteModel up db cat name))))"
    by (auto simp: handleDeleteModel_def GetModelByName_def dest!: find_named split: option.splits sum.splits if_splits)
  then show "models_ok (rd_models (fst (snd (handleDeleteModel up db cat name))))"
    and "fst (snd (handleDeleteModel up db cat name)) = db \<or> (\<not> trg_block_referenced_model_delete db name
      \<and> fst (snd (handleDeleteModel up db cat name)) = db\<lparr>rd_models := filter (\<lambda>m. model_Name m \<noteq> name) (rd_models db)\<rparr>)"
    using DeleteModel_ok[OF _ assms] assms by auto
qed

section \<open>The typed endpoints answer as the old ones\<close>

lemma counted_fold:
  "foldl (\<lambda>rs m. case rs of None \<Rightarrow> None | Some xs \<Rightarrow> map_option (\<lambda>c. xs @ [(m, c)]) (counts (model_Name m))) (Some acc) ms
     = map_option ((@) acc) (counted_rows counts ms)"
proof (induction ms arbitrary: acc)
  case Nil then show ?case by simp
next
  case (Cons m ms)
  have none: "foldl (\<lambda>rs m. case rs of None \<Rightarrow> None | Some xs \<Rightarrow> map_option (\<lambda>c. xs @ [(m, c)]) (counts (model_Name m))) None ms = None"
    by (induction ms) simp_all
  show ?case by (cases "counts (model_Name m)") (simp_all add: none Cons.IH option.map_comp comp_def)
qed

lemma v1_listModels_agrees: "v1_listModels up upOf db status = handleListModels up upOf db status"
  using counted_fold[of "\<lambda>name. ModelReferenceCountsFor db (upOf name) name" "[]"]
  by (auto simp: v1_listModels_def handleListModels_def option.map_id0 cong: option.case_cong split: option.split)

lemma v1_createModel_agrees: "v1_createModel up db cat b = handleCreateModel up db cat (Some b)"
proof -
  have "b\<lparr>model_DisplayName := (if model_DisplayName b = '''' then model_Name b else model_DisplayName b)\<rparr>
      = (if model_DisplayName b = '''' then b\<lparr>model_DisplayName := model_Name b\<rparr> else b)" by simp
  then show ?thesis
    unfolding v1_createModel_def handleCreateModel_def Let_def by (auto split: sum.split insert_error.split)
qed

lemma v1_deleteModel_agrees: "v1_deleteModel up db cat name = handleDeleteModel up db cat name"
  by (auto simp: v1_deleteModel_def handleDeleteModel_def split: sum.split option.split)

text \<open>The members of the old body that a typed body stands for.\<close>
definition legacy_body :: "update_model_body \<Rightarrow> json_body" where
  "legacy_body b field =
     (if field = ''name'' then map_option VStr (um_Name b)
      else if field = ''display_name'' then map_option VStr (um_DisplayName b)
      else if field = ''description'' then map_option VStr (um_Description b)
      else if field = ''status'' then map_option VStr (um_Status b)
      else if field = ''aliases'' then map_option (\<lambda>as. VArr (map VStr as)) (um_Aliases b)
      else if field = ''default_credit_rate'' then um_DefaultCreditRate b
      else if field = ''default_image_credit_rate'' then um_DefaultImageCreditRate b
      else if field = ''publisher'' then map_option VStr (um_Publisher b)
      else if field = ''metadata'' then um_Metadata b
      else None)"

lemma string_elements_map [simp]: "string_elements (map VStr as) = Some as"
  by (induction as) (simp_all add: string_of_def)

lemma v1_rate_member: "v1_rate decode valid (body field) = member_update body field (rate_update decode valid)"
  by (simp add: v1_rate_def member_update_def rate_update_def split: option.split)

lemma legacy_updates:
  "model_updates rj existing (legacy_body b) =
     (if (case um_Status b of None \<Rightarrow> False | Some s \<Rightarrow> s \<noteq> ''active'' \<and> s \<noteq> ''disabled'') then None
      else if (case um_Aliases b of None \<Rightarrow> False | Some as \<Rightarrow> \<not> validateAliases (model_Name existing) as) then None
      else (case v1_rate (rj_Credit rj) validateCreditRate (um_DefaultCreditRate b) of None \<Rightarrow> None
      | Some credit \<Rightarrow>
          (case v1_rate (rj_Image rj) validateImageCreditRate (um_DefaultImageCreditRate b) of None \<Rightarrow> None
           | Some img \<Rightarrow>
               if (case um_Publisher b of None \<Rightarrow> False | Some p \<Rightarrow> \<not> validatePublisher p) then None
               else Some \<lparr>mp_DisplayName = map_option VStr (um_DisplayName b), mp_Description = map_option VStr (um_Description b),
                        mp_Status = um_Status b, mp_Aliases = um_Aliases b, mp_DefaultCreditRate = credit, mp_DefaultImageCreditRate = img,
                        mp_Publisher = um_Publisher b, mp_Metadata = map_option (rj_Metadata rj) (um_Metadata b)\<rparr>)))"
proof -
  have s: "member_update (legacy_body b) ''status'' (\<lambda>v. let status = the_or '''' (string_of v) in
             if status \<noteq> ''active'' \<and> status \<noteq> ''disabled'' then None else Some status)
      = (if (case um_Status b of None \<Rightarrow> False | Some s \<Rightarrow> s \<noteq> ''active'' \<and> s \<noteq> ''disabled'') then None else Some (um_Status b))"
    by (cases "um_Status b") (simp_all add: member_update_def legacy_body_def string_of_def)
  have a: "member_update (legacy_body b) ''aliases'' (\<lambda>v. case toStringSlice v of None \<Rightarrow> None
             | Some as \<Rightarrow> if \<not> validateAliases (model_Name existing) as then None else Some as)
      = (if (case um_Aliases b of None \<Rightarrow> False | Some as \<Rightarrow> \<not> validateAliases (model_Name existing) as) then None else Some (um_Aliases b))"
    by (cases "um_Aliases b") (simp_all add: member_update_def legacy_body_def toStringSlice_def)
  have p: "member_update (legacy_body b) ''publisher'' (\<lambda>v. let pub = the_or '''' (string_of v) in
             if \<not> validatePublisher pub then None else Some pub)
      = (if (case um_Publisher b of None \<Rightarrow> False | Some p \<Rightarrow> \<not> validatePublisher p) then None else Some (um_Publisher b))"
    by (cases "um_Publisher b") (simp_all add: member_update_def legacy_body_def string_of_def)
  have r: "legacy_body b ''default_credit_rate'' = um_DefaultCreditRate b" "legacy_body b ''default_image_credit_rate'' = um_DefaultImageCreditRate b"
    "legacy_body b ''display_name'' = map_option VStr (um_DisplayName b)" "legacy_body b ''description'' = map_option VStr (um_Description b)"
    "legacy_body b ''metadata'' = um_Metadata b"
    by (simp_all add: legacy_body_def)
  show ?thesis
    unfolding model_updates_def s a p r v1_rate_member[of _ _ "legacy_body b" "''default_credit_rate''", symmetric]
      v1_rate_member[of _ _ "legacy_body b" "''default_image_credit_rate''", symmetric]
    by (simp split: option.split)
qed

lemma find_after_update:
  assumes "find (\<lambda>m. model_Name m = name) ms = Some m" "model_Name m' = name"
  shows "\<exists>x. find (\<lambda>m. model_Name m = name) (map (\<lambda>x. if model_Name x = name then m' else x) ms) = Some x"
  using assms by (induction ms) (auto split: if_splits)

lemma reread_updated:
  assumes "find (\<lambda>m. model_Name m = name) (rd_models db) = Some m" "UpdateModel db up d name p = Some db'" "upf ''reread''"
  shows "reread upf db' name \<noteq> None"
  using assms find_named[OF assms(1)] find_after_update[OF assms(1)] patched_model_names
  by (fastforce simp: reread_def GetModelByName_def UpdateModel_def split: if_splits option.splits)

lemma v1_updateModel_agrees:
  assumes "up ''reread''"
  shows "v1_updateModel up d rj zero db cat name b = handleUpdateModel up d rj db cat name (Some (legacy_body b))"
proof -
  have n: "legacy_body b ''name'' = map_option VStr (um_Name b)" by (simp add: legacy_body_def)
  have rr: "Some (the_or zero (reread up db' name)) = reread up db' name"
    if "find (\<lambda>m. model_Name m = name) (rd_models db) = Some m" "UpdateModel db u d name p = Some db'" for m p db' u
    using reread_updated[where upf = up, OF that assms] by (cases "reread up db' name") simp_all
  show ?thesis
  proof (cases "up ''GetModelByName'' \<and> um_Name b = None")
    case False
    then show ?thesis by (auto simp: v1_updateModel_def handleUpdateModel_def GetModelByName_def n split: option.split)
  next
    case up: True
    show ?thesis
    proof (cases "find (\<lambda>m. model_Name m = name) (rd_models db)")
      case None
      then show ?thesis by (simp add: v1_updateModel_def handleUpdateModel_def GetModelByName_def)
    next
      case (Some m)
      note f = this
      let ?st = "case um_Status b of None \<Rightarrow> False | Some s \<Rightarrow> s \<noteq> ''active'' \<and> s \<noteq> ''disabled''"
      let ?al = "case um_Aliases b of None \<Rightarrow> False | Some as \<Rightarrow> \<not> validateAliases (model_Name m) as"
      let ?pu = "case um_Publisher b of None \<Rightarrow> False | Some p \<Rightarrow> \<not> validatePublisher p"
      let ?c = "v1_rate (rj_Credit rj) validateCreditRate (um_DefaultCreditRate b)"
      let ?i = "v1_rate (rj_Image rj) validateImageCreditRate (um_DefaultImageCreditRate b)"
      have v1: "v1_updateModel up d rj zero db cat name b =
          (case model_updates rj m (legacy_body b) of None \<Rightarrow> (Failure 400 ''bad_request'', db, cat)
           | Some updates \<Rightarrow> if updates = no_model_patch then (Failure 400 ''bad_request'', db, cat)
               else (case UpdateModel db (up ''UpdateModel'') d name updates of
                    None \<Rightarrow> (Failure 400 ''bad_request'', db, cat)
                  | Some db' \<Rightarrow> (Success 200 (Some (the_or zero (reread up db' name))), db', refreshCatalog up db' cat)))"
        unfolding v1_updateModel_def legacy_updates
        by (cases ?st; cases ?al; cases ?c; cases ?i; cases ?pu) (simp_all add: GetModelByName_def up f Let_def)
      show ?thesis
        unfolding v1 handleUpdateModel_def using rr[OF f]
        by (simp add: GetModelByName_def up f n split: option.split)
    qed
  qed
qed


lemma handleCreateModel_201:
  assumes "handleCreateModel up db cat (Some b) = (Success 201 m, db', cat')"
  shows "\<exists>row. rd_models db' = rd_models db @ [row] \<and> model_names row = model_names b
    \<and> model_Status row = (if model_Status b = '''' then ''active'' else model_Status b)
    \<and> cat' = refreshCatalog up db' cat"
proof -
  define m' where "m' = (if model_DisplayName b = '''' then b\<lparr>model_DisplayName := model_Name b\<rparr> else b)"
  then have "model_names m' = model_names b" "model_Status m' = model_Status b" by (simp_all add: model_names_def)
  moreover have "CreateModel db (up ''CreateModel'') m' = Inr db' \<and> cat' = refreshCatalog up db' cat"
    using assms by (auto simp: handleCreateModel_def m'_def[symmetric] Let_def split: if_splits sum.splits insert_error.splits)
  ultimately show ?thesis by (auto simp: CreateModel_def Let_def model_names_def split: if_splits)
qed

text \<open>C14: creating a model makes it usable at once and disturbs no other: if the names of the catalog table do not collide and
  the refresh is answered, a request that names the new model or one of its aliases, in any letter case, resolves to the
  new row, every name and alias of the earlier rows resolves to its own row as before, and the names still do not collide.\<close>
theorem created_model_resolves:
  assumes "models_ok (rd_models db)" "handleCreateModel up db cat (Some b) = (Success 201 m, db', cat')" "up ''ListModels''"
  shows "models_ok (rd_models db')
    \<and> (\<forall>raw. to_lower raw \<in> set (model_names b) \<longrightarrow> (\<exists>row. snd (Lookup cat' raw) = Some row \<and> model_Name row = model_Name b
          \<and> (model_Status b = '''' \<longrightarrow> model_Status row = ''active'')))
    \<and> (\<forall>old \<in> set (rd_models db). \<forall>n \<in> set (model_names old). snd (Lookup cat' n) = Some old)"
proof -
  obtain row where row: "rd_models db' = rd_models db @ [row]" "model_names row = model_names b"
      "model_Status row = (if model_Status b = '''' then ''active'' else model_Status b)" "cat' = refreshCatalog up db' cat"
    using handleCreateModel_201[OF assms(2)] by blast
  have ok: "models_ok (rd_models db')" using handleCreateModel_ok(1)[OF assms(1), of up cat "Some b"] assms(2) by simp
  have swap: "cat' = Swap cat (sort_key model_Name (rd_models db'))" using row(4) assms(3) by (simp add: refreshCatalog_def ListModels_def)
  have cf: "collision_free (sort_key model_Name (rd_models db'))" using ok models_ok_collision_free models_ok_sorted by blast
  have look: "snd (Lookup cat' n) = Some x \<longleftrightarrow> x \<in> set (rd_models db') \<and> to_lower n \<in> row_keys x" for n x
    using lookup_after_swap[OF cf, of cat "[]" n x] by (simp add: swap)
  have keys: "x \<in> set (rd_models db') \<Longrightarrow> row_keys x = set (model_names x)" for x using models_ok_row_keys[OF ok] by blast
  have lower: "x \<in> set (rd_models db') \<Longrightarrow> n \<in> set (model_names x) \<Longrightarrow> to_lower n = n" for x n
    using ok by (auto simp: models_ok_def list_all_iff legal_lower)
  have "model_Name row = model_Name b" using row(2) by (simp add: model_names_def)
  then have new: "snd (Lookup cat' raw) = Some row \<and> model_Name row = model_Name b" if "to_lower raw \<in> set (model_names b)" for raw
    using look[of raw row] keys[of row] row(1,2) that by simp
  have old: "snd (Lookup cat' n) = Some x" if "x \<in> set (rd_models db)" "n \<in> set (model_names x)" for x n
    using look[of n x] keys[of x] lower[of x n] row(1) that by simp
  show ?thesis using ok new old row(3) by auto
qed

definition no_routing :: routing_db where
  "no_routing = \<lparr>rd_models = [], rd_upstreams = [], rd_groups = [], rd_members = [], rd_routes = [], rd_keyModels = [], rd_planRates = [],
     rd_policyRates = []\<rparr>"

definition new_opus :: Model where "new_opus = (sample_model ''opus'' [''best''])\<lparr>model_Status := '''', model_DefaultCreditRate := None\<rparr>"

lemma create_opus:
  "handleCreateModel (\<lambda>_. True) no_routing (New []) (Some new_opus)
     = (Success 201 new_opus, no_routing\<lparr>rd_models := [new_opus\<lparr>model_Status := ''active''\<rparr>]\<rparr>,
        Swap (New []) [new_opus\<lparr>model_Status := ''active''\<rparr>])"
proof -
  have v: "validateModelName ''opus''" "validateModelName ''best''" by code_simp+
  have "CreateModel no_routing True new_opus = Inr (no_routing\<lparr>rd_models := [new_opus\<lparr>model_Status := ''active''\<rparr>]\<rparr>)"
    by (simp add: CreateModel_def no_routing_def new_opus_def sample_model_def assert_model_names_unique_def)
  moreover have "refreshCatalog (\<lambda>_. True) (no_routing\<lparr>rd_models := [new_opus\<lparr>model_Status := ''active''\<rparr>]\<rparr>) (New [])
      = Swap (New []) [new_opus\<lparr>model_Status := ''active''\<rparr>]"
    by (simp add: refreshCatalog_def ListModels_def)
  ultimately show ?thesis
    using v by (simp add: handleCreateModel_def validateModelPayload_def validateAliases_def validateCreditRate_def validateImageCreditRate_def
        validatePublisher_def new_opus_def sample_model_def)
qed

lemma created_model_resolves_witness:
  "\<exists>row. snd (Lookup (Swap (New []) [new_opus\<lparr>model_Status := ''active''\<rparr>]) ''BEST'') = Some row \<and> model_Name row = ''opus''"
proof -
  have "to_lower ''BEST'' = ''best''" by code_simp
  then show ?thesis
    using created_model_resolves[OF _ create_opus] by (auto simp: models_ok_def no_routing_def model_names_def new_opus_def sample_model_def)
qed


text \<open>A model is only deleted when nothing names it: no upstream, route, key, plan or policy.\<close>
lemma deleted_model_unused:
  assumes "handleDeleteModel up db cat name = (Success 204 (), db', cat')"
  shows "db' = db\<lparr>rd_models := filter (\<lambda>m. model_Name m \<noteq> name) (rd_models db)\<rparr>
    \<and> (\<forall>u \<in> set (rd_upstreams db). name \<notin> set (up_SupportedModels u)) \<and> (\<forall>r \<in> set (rd_routes db). name \<notin> set (route_ModelNames r))
    \<and> (\<forall>ns \<in> set (rd_keyModels db) \<union> set (rd_planRates db) \<union> set (rd_policyRates db). name \<notin> set ns)"
  using assms by (auto simp: handleDeleteModel_def DeleteModel_def ModelReferenceCountsFor_def Total_def naming_def filter_empty_conv
      split: sum.splits option.splits if_splits)

text \<open>An empty alias passes every check of a model's names.\<close>
lemma empty_alias_accepted: "validateModelPayload ''opus'' [''''] '''' None None"
  by code_simp

end
