(* ===== verification/OutboundClient.thy ===== *)
theory OutboundClient
  imports CatalogAdmin GoText
begin

text \<open>
  The clients that talk to upstreams (proxy/outbound_client.go): validation of an outbound proxy configuration, and
  the factory whose cached transports keep the connection pools. A transport is the value of its settings; the
  parts of a URL that url.Parse finds, the hexadecimal SHA-256 digest and the AEAD are parameters. The factory's mutex
  makes the cache's look-up and insertion one step.
\<close>

section \<open>Configurations\<close>

record OutboundProxyConfig =
  opc_Mode :: string
  opc_URL :: string
  opc_Username :: string
  opc_Password :: string

text \<open>What the code reads of a parsed URL.\<close>
record proxy_url =
  pu_Scheme :: string
  pu_Hostname :: string
  pu_Port :: string
  pu_User :: "(string \<times> string) option"
  pu_Path :: string
  pu_RawQuery :: string
  pu_Fragment :: string

type_synonym url_parser = "string \<Rightarrow> proxy_url option"

definition NormalizeProxyMode :: "string \<Rightarrow> string" where
  "NormalizeProxyMode mode = (if mode = '''' then ''environment'' else mode)"

definition parseSOCKSProxyURL :: "url_parser \<Rightarrow> string \<Rightarrow> proxy_url option" where
  "parseSOCKSProxyURL parse raw =
     (case parse raw of None \<Rightarrow> None
      | Some u0 \<Rightarrow>
          (let u = u0\<lparr>pu_Scheme := to_lower (pu_Scheme u0)\<rparr> in
           if pu_Scheme u \<noteq> ''socks5'' \<and> pu_Scheme u \<noteq> ''socks5h'' then None
           else if pu_Hostname u = '''' then None
           else if pu_User u \<noteq> None then None
           else if pu_Path u \<noteq> '''' \<and> pu_Path u \<noteq> ''/'' then None
           else if pu_RawQuery u \<noteq> '''' \<or> pu_Fragment u \<noteq> '''' then None
           else if pu_Port u = '''' then None
           else (case ParseInt (pu_Port u) of None \<Rightarrow> None
             | Some n \<Rightarrow> if n < 1 \<or> n > 65535 then None else Some (u\<lparr>pu_Path := ''''\<rparr>))))"

text \<open>Whether there is no error.\<close>
definition ValidateOutboundProxyConfig :: "url_parser \<Rightarrow> OutboundProxyConfig \<Rightarrow> bool" where
  "ValidateOutboundProxyConfig parse cfg0 =
     (let cfg = cfg0\<lparr>opc_Mode := NormalizeProxyMode (opc_Mode cfg0)\<rparr> in
      if opc_Mode cfg \<notin> {''environment'', ''direct'', ''socks5''} then False
      else if length (opc_Username cfg) > 255 then False
      else if length (opc_Password cfg) > 255 then False
      else if opc_Mode cfg = ''socks5'' then
        (if opc_Password cfg \<noteq> '''' \<and> opc_Username cfg = '''' then False
         else if opc_URL cfg = '''' then False
         else parseSOCKSProxyURL parse (opc_URL cfg) \<noteq> None)
      else True)"

section \<open>The factory\<close>

datatype proxy_choice = ProxyFromEnvironment | NoProxy | ProxyURL proxy_url

record transport =
  tr_Proxy :: proxy_choice
  tr_MaxIdleConnsPerHost :: int
  tr_IdleConnTimeout :: duration
  tr_DisableCompression :: bool

definition newOutboundTransport :: "proxy_choice \<Rightarrow> transport" where
  "newOutboundTransport proxyFn =
     \<lparr>tr_Proxy = proxyFn, tr_MaxIdleConnsPerHost = 100, tr_IdleConnTimeout = 90 * 1000000000, tr_DisableCompression = True\<rparr>"

record OutboundClientFactory =
  ocf_encryptionKey :: bytes
  ocf_environment :: transport
  ocf_direct :: transport
  ocf_transports :: "string \<rightharpoonup> transport"

definition NewOutboundClientFactory :: "bytes \<Rightarrow> OutboundClientFactory" where
  "NewOutboundClientFactory encryptionKey =
     \<lparr>ocf_encryptionKey = encryptionKey, ocf_environment = newOutboundTransport ProxyFromEnvironment,
      ocf_direct = newOutboundTransport NoProxy, ocf_transports = Map.empty\<rparr>"

text \<open>The bytes that are hashed.\<close>
definition transport_key :: "OutboundProxyConfig \<Rightarrow> string" where
  "transport_key cfg = opc_URL cfg @ [CHR 0x00] @ opc_Username cfg @ [CHR 0x00] @ opc_Password cfg"

definition socksTransport :: "(string \<Rightarrow> string) \<Rightarrow> url_parser \<Rightarrow> OutboundClientFactory \<Rightarrow> OutboundProxyConfig \<Rightarrow> transport option \<times> OutboundClientFactory" where
  "socksTransport digest parse f cfg =
     (let key = digest (transport_key cfg) in
      case ocf_transports f key of
        Some tr \<Rightarrow> (Some tr, f)
      | None \<Rightarrow>
          (case parseSOCKSProxyURL parse (opc_URL cfg) of
             None \<Rightarrow> (None, f)
           | Some proxyURL \<Rightarrow>
               (let u = (if opc_Username cfg \<noteq> '''' then proxyURL\<lparr>pu_User := Some (opc_Username cfg, opc_Password cfg)\<rparr> else proxyURL);
                    tr = newOutboundTransport (ProxyURL u)
                in (Some tr, f\<lparr>ocf_transports := (ocf_transports f)(key \<mapsto> tr)\<rparr>))))"

text \<open>The transport and the time limit of the client; None is an error.\<close>
definition ClientForConfig ::
  "(string \<Rightarrow> string) \<Rightarrow> url_parser \<Rightarrow> OutboundClientFactory \<Rightarrow> OutboundProxyConfig \<Rightarrow> duration
   \<Rightarrow> (transport \<times> duration) option \<times> OutboundClientFactory" where
  "ClientForConfig digest parse f cfg0 timeout =
     (let cfg = cfg0\<lparr>opc_Mode := NormalizeProxyMode (opc_Mode cfg0)\<rparr> in
      if \<not> ValidateOutboundProxyConfig parse cfg then (None, f)
      else if opc_Mode cfg = ''environment'' then (Some (ocf_environment f, timeout), f)
      else if opc_Mode cfg = ''direct'' then (Some (ocf_direct f, timeout), f)
      else (case socksTransport digest parse f cfg of
          (None, f') \<Rightarrow> (None, f')
        | (Some tr, f') \<Rightarrow> (Some (tr, timeout), f')))"

text \<open>The configuration an upstream row stands for; None when its password does not decrypt.\<close>
definition stored_config :: "(bytes \<Rightarrow> aead option) \<Rightarrow> bytes \<Rightarrow> UpstreamRow \<Rightarrow> OutboundProxyConfig option" where
  "stored_config newGCM key u =
     (let cfg = \<lparr>opc_Mode = EffectiveProxyMode (Upstream.truncate u), opc_URL = up_SocksProxyURL u, opc_Username = upr_SocksProxyUsername u,
                opc_Password = ''''\<rparr> in
      if opc_Mode cfg = ''socks5'' \<and> length (upr_SocksProxyPasswordEncrypted u) > 0 then
        (case Decrypt newGCM key (upr_SocksProxyPasswordEncrypted u) of
           Inl _ \<Rightarrow> None | Inr p \<Rightarrow> Some (cfg\<lparr>opc_Password := bytes_string p\<rparr>))
      else Some cfg)"

definition ClientFor ::
  "(bytes \<Rightarrow> aead option) \<Rightarrow> (string \<Rightarrow> string) \<Rightarrow> url_parser \<Rightarrow> OutboundClientFactory \<Rightarrow> UpstreamRow option \<Rightarrow> duration
   \<Rightarrow> (transport \<times> duration) option \<times> OutboundClientFactory" where
  "ClientFor newGCM digest parse f upstream timeout =
     (case upstream of None \<Rightarrow> (None, f)
      | Some u \<Rightarrow>
          (case stored_config newGCM (ocf_encryptionKey f) u of
             None \<Rightarrow> (None, f)
           | Some cfg \<Rightarrow> ClientForConfig digest parse f cfg timeout))"

section \<open>Every client goes through the proxy of its own configuration\<close>

text \<open>The proxy a valid configuration asks for, with its own credentials.\<close>
definition own_proxy :: "url_parser \<Rightarrow> OutboundProxyConfig \<Rightarrow> proxy_choice" where
  "own_proxy parse cfg =
     (if NormalizeProxyMode (opc_Mode cfg) = ''environment'' then ProxyFromEnvironment
      else if opc_Mode cfg = ''direct'' then NoProxy
      else (let u = the (parseSOCKSProxyURL parse (opc_URL cfg))
            in ProxyURL (if opc_Username cfg \<noteq> '''' then u\<lparr>pu_User := Some (opc_Username cfg, opc_Password cfg)\<rparr> else u)))"

lemma NormalizeProxyMode_idem [simp]: "NormalizeProxyMode (NormalizeProxyMode m) = NormalizeProxyMode m"
  by (simp add: NormalizeProxyMode_def)

lemma Validate_normalized [simp]:
  "ValidateOutboundProxyConfig parse (cfg\<lparr>opc_Mode := NormalizeProxyMode (opc_Mode cfg)\<rparr>) = ValidateOutboundProxyConfig parse cfg"
  by (simp add: ValidateOutboundProxyConfig_def Let_def)

lemma cut_at: "c \<notin> set x \<Longrightarrow> c \<notin> set x' \<Longrightarrow> x @ c # y = x' @ c # y' \<longleftrightarrow> x = x' \<and> y = y'"
proof (induction x arbitrary: x')
  case Nil then show ?case by (cases x') auto
next
  case (Cons a x) then show ?case by (cases x') auto
qed

lemma transport_key_inj:
  assumes "CHR 0x00 \<notin> set (opc_URL a)" "CHR 0x00 \<notin> set (opc_URL b)" "CHR 0x00 \<notin> set (opc_Username a)" "CHR 0x00 \<notin> set (opc_Username b)"
    "transport_key a = transport_key b"
  shows "opc_URL a = opc_URL b \<and> opc_Username a = opc_Username b \<and> opc_Password a = opc_Password b"
  using assms by (auto simp: transport_key_def cut_at)

text \<open>What the cache holds after clients for the configurations of a list have been made.\<close>
definition cached_for :: "(string \<Rightarrow> string) \<Rightarrow> url_parser \<Rightarrow> OutboundProxyConfig set \<Rightarrow> OutboundClientFactory \<Rightarrow> bool" where
  "cached_for digest parse cfgs f \<longleftrightarrow>
     ocf_environment f = newOutboundTransport ProxyFromEnvironment \<and> ocf_direct f = newOutboundTransport NoProxy
     \<and> (\<forall>k tr. ocf_transports f k = Some tr \<longrightarrow>
          (\<exists>cfg \<in> cfgs. opc_Mode cfg = ''socks5'' \<and> ValidateOutboundProxyConfig parse cfg \<and> k = digest (transport_key cfg)
             \<and> tr = newOutboundTransport (own_proxy parse cfg)))"

lemma cached_for_New: "cached_for digest parse {} (NewOutboundClientFactory key)"
  by (simp add: cached_for_def NewOutboundClientFactory_def)

lemma valid_socks_parses:
  "ValidateOutboundProxyConfig parse cfg \<Longrightarrow> opc_Mode cfg = ''socks5'' \<Longrightarrow> \<exists>u. parseSOCKSProxyURL parse (opc_URL cfg) = Some u"
  by (auto simp: ValidateOutboundProxyConfig_def NormalizeProxyMode_def Let_def split: if_splits)

lemma valid_mode:
  "ValidateOutboundProxyConfig parse cfg \<Longrightarrow> NormalizeProxyMode (opc_Mode cfg) = ''environment'' \<or> opc_Mode cfg = ''direct'' \<or> opc_Mode cfg = ''socks5''"
  by (auto simp: ValidateOutboundProxyConfig_def NormalizeProxyMode_def Let_def split: if_splits)

lemma ClientForConfig_step:
  assumes "cached_for digest parse cfgs f" "inj_on digest (transport_key ` insert cfg cfgs)"
    and "\<And>s. parse s \<noteq> None \<Longrightarrow> CHR 0x00 \<notin> set s" "\<And>c. c \<in> insert cfg cfgs \<Longrightarrow> CHR 0x00 \<notin> set (opc_Username c)"
  shows "fst (ClientForConfig digest parse f cfg timeout)
       = (if ValidateOutboundProxyConfig parse cfg then Some (newOutboundTransport (own_proxy parse cfg), timeout) else None)"
    and "cached_for digest parse (insert cfg cfgs) (snd (ClientForConfig digest parse f cfg timeout))"
proof -
  have mono: "cached_for digest parse (insert cfg cfgs) f" using assms(1) unfolding cached_for_def by blast
  have "fst (ClientForConfig digest parse f cfg timeout)
       = (if ValidateOutboundProxyConfig parse cfg then Some (newOutboundTransport (own_proxy parse cfg), timeout) else None)
     \<and> cached_for digest parse (insert cfg cfgs) (snd (ClientForConfig digest parse f cfg timeout))"
  proof (cases "ValidateOutboundProxyConfig parse cfg \<and> opc_Mode cfg = ''socks5''")
    case False
    show ?thesis
    proof (cases "ValidateOutboundProxyConfig parse cfg")
      case False then show ?thesis using mono by (simp add: ClientForConfig_def Let_def)
    next
      case valid: True
      have pools: "ocf_environment f = newOutboundTransport ProxyFromEnvironment" "ocf_direct f = newOutboundTransport NoProxy"
        using assms(1) by (simp_all add: cached_for_def)
      have v: "ValidateOutboundProxyConfig parse (cfg\<lparr>opc_Mode := NormalizeProxyMode (opc_Mode cfg)\<rparr>)" using valid by simp
      consider "NormalizeProxyMode (opc_Mode cfg) = ''environment''" | "opc_Mode cfg = ''direct''" "NormalizeProxyMode (opc_Mode cfg) = ''direct''"
        using valid_mode[OF valid] False valid by (auto simp: NormalizeProxyMode_def)
      then show ?thesis
        by cases (use valid v mono pools in \<open>simp_all add: ClientForConfig_def Let_def own_proxy_def\<close>)
    qed
  next
    case True
    obtain u where u: "parseSOCKSProxyURL parse (opc_URL cfg) = Some u" using valid_socks_parses True by blast
    let ?k = "digest (transport_key cfg)"
    have n: "NormalizeProxyMode (opc_Mode cfg) = ''socks5''" "cfg\<lparr>opc_Mode := ''socks5''\<rparr> = cfg" using True by (simp_all add: NormalizeProxyMode_def)
    have own: "own_proxy parse cfg = ProxyURL (if opc_Username cfg \<noteq> '''' then u\<lparr>pu_User := Some (opc_Username cfg, opc_Password cfg)\<rparr> else u)"
      using True u by (simp add: own_proxy_def NormalizeProxyMode_def)
    have run: "ClientForConfig digest parse f cfg timeout = (case socksTransport digest parse f cfg of
          (None, f') \<Rightarrow> (None, f') | (Some tr, f') \<Rightarrow> (Some (tr, timeout), f'))"
      using True unfolding ClientForConfig_def Let_def n by simp
    show ?thesis
    proof (cases "ocf_transports f ?k")
      case None
      let ?tr = "newOutboundTransport (own_proxy parse cfg)" and ?f = "f\<lparr>ocf_transports := (ocf_transports f)(?k \<mapsto> newOutboundTransport (own_proxy parse cfg))\<rparr>"
      have "ClientForConfig digest parse f cfg timeout = (Some (?tr, timeout), ?f)"
        unfolding run socksTransport_def Let_def None own using u by simp
      moreover have "cached_for digest parse (insert cfg cfgs) ?f"
        unfolding cached_for_def
      proof (intro conjI allI impI)
        fix k tr assume "ocf_transports ?f k = Some tr"
        then show "\<exists>c \<in> insert cfg cfgs. opc_Mode c = ''socks5'' \<and> ValidateOutboundProxyConfig parse c \<and> k = digest (transport_key c)
             \<and> tr = newOutboundTransport (own_proxy parse c)"
          using True mono unfolding cached_for_def by (cases "k = ?k") (auto simp del: bex_simps)
      qed (use mono in \<open>simp_all add: cached_for_def\<close>)
      ultimately show ?thesis using True by simp
    next
      case (Some tr)
      then obtain c where c: "c \<in> cfgs" "opc_Mode c = ''socks5''" "ValidateOutboundProxyConfig parse c" "?k = digest (transport_key c)"
          "tr = newOutboundTransport (own_proxy parse c)"
        using assms(1) unfolding cached_for_def by blast
      have key: "transport_key cfg = transport_key c" using assms(2) c(1,4) by (auto simp: inj_on_def)
      have parsed: "CHR 0x00 \<notin> set (opc_URL x)" if "parseSOCKSProxyURL parse (opc_URL x) = Some v" for x v
        using that by (intro assms(3)) (cases "parse (opc_URL x)"; simp add: parseSOCKSProxyURL_def)
      obtain v where "parseSOCKSProxyURL parse (opc_URL c) = Some v" using valid_socks_parses[OF c(3,2)] by blast
      from transport_key_inj[OF parsed[OF u] parsed[OF this] assms(4) assms(4) key] c(1)
      have "opc_URL cfg = opc_URL c \<and> opc_Username cfg = opc_Username c \<and> opc_Password cfg = opc_Password c" by simp
      then have "own_proxy parse c = own_proxy parse cfg" using True c(2) by (simp add: own_proxy_def NormalizeProxyMode_def Let_def)
      then show ?thesis using Some c(5) True mono by (simp add: run socksTransport_def Let_def)
    qed
  qed
  then show "fst (ClientForConfig digest parse f cfg timeout)
       = (if ValidateOutboundProxyConfig parse cfg then Some (newOutboundTransport (own_proxy parse cfg), timeout) else None)"
    and "cached_for digest parse (insert cfg cfgs) (snd (ClientForConfig digest parse f cfg timeout))" by blast+
qed

definition use_clients :: "(string \<Rightarrow> string) \<Rightarrow> url_parser \<Rightarrow> OutboundClientFactory \<Rightarrow> (OutboundProxyConfig \<times> duration) list \<Rightarrow> OutboundClientFactory" where
  "use_clients digest parse f0 uses = foldl (\<lambda>f (cfg, timeout). snd (ClientForConfig digest parse f cfg timeout)) f0 uses"

lemma use_clients_cached:
  assumes "inj_on digest (transport_key ` fst ` set uses)" "\<And>s. parse s \<noteq> None \<Longrightarrow> CHR 0x00 \<notin> set s"
    "\<And>c. c \<in> fst ` set uses \<Longrightarrow> CHR 0x00 \<notin> set (opc_Username c)"
  shows "cached_for digest parse (fst ` set uses) (use_clients digest parse (NewOutboundClientFactory key) uses)"
  using assms
proof (induction uses rule: rev_induct)
  case Nil then show ?case by (simp add: use_clients_def cached_for_New)
next
  case (snoc x uses)
  obtain cfg t where x: "x = (cfg, t)" by (cases x)
  have ih: "cached_for digest parse (fst ` set uses) (use_clients digest parse (NewOutboundClientFactory key) uses)"
    using snoc.prems by (intro snoc.IH) (auto intro: inj_on_subset)
  have "cached_for digest parse (insert cfg (fst ` set uses))
      (snd (ClientForConfig digest parse (use_clients digest parse (NewOutboundClientFactory key) uses) cfg t))"
    using snoc.prems x by (intro ClientForConfig_step(2)[OF ih]) simp_all
  then show ?case by (simp add: use_clients_def x)
qed

text \<open>C16: every client goes through the proxy of its own configuration, whatever clients have been made before and whichever of
  them left a transport in the cache: an invalid configuration gets no client, environment and direct get those pools,
  and a SOCKS configuration gets a transport for exactly its own URL, user name and password. Assumed: the digests of
  the configurations used differ when their bytes differ, url.Parse refuses a NUL byte, and no user name contains one
  (the text columns of the database cannot hold it).\<close>
theorem client_uses_own_proxy:
  assumes "inj_on digest (transport_key ` insert cfg (fst ` set uses))" and "\<And>s. parse s \<noteq> None \<Longrightarrow> CHR 0x00 \<notin> set s"
    and "\<And>c. c \<in> insert cfg (fst ` set uses) \<Longrightarrow> CHR 0x00 \<notin> set (opc_Username c)"
  shows "fst (ClientForConfig digest parse (use_clients digest parse (NewOutboundClientFactory key) uses) cfg timeout)
    = (if ValidateOutboundProxyConfig parse cfg then Some (newOutboundTransport (own_proxy parse cfg), timeout) else None)"
proof (rule ClientForConfig_step(1))
  show "cached_for digest parse (fst ` set uses) (use_clients digest parse (NewOutboundClientFactory key) uses)"
    using assms by (intro use_clients_cached) (auto intro: inj_on_subset)
qed (use assms in blast)+

definition sample_parse :: url_parser where
  "sample_parse s = (if s = ''socks5://h:1'' then Some \<lparr>pu_Scheme = ''socks5'', pu_Hostname = ''h'', pu_Port = ''1'', pu_User = None, pu_Path = '''',
     pu_RawQuery = '''', pu_Fragment = ''''\<rparr> else None)"

definition socks_config :: "string \<Rightarrow> string \<Rightarrow> OutboundProxyConfig" where
  "socks_config user password = \<lparr>opc_Mode = ''socks5'', opc_URL = ''socks5://h:1'', opc_Username = user, opc_Password = password\<rparr>"

lemma sample_socks:
  "parseSOCKSProxyURL sample_parse ''socks5://h:1'' = Some \<lparr>pu_Scheme = ''socks5'', pu_Hostname = ''h'', pu_Port = ''1'', pu_User = None, pu_Path = '''',
     pu_RawQuery = '''', pu_Fragment = ''''\<rparr>"
proof -
  have "to_lower ''socks5'' = ''socks5''" "ParseInt ''1'' = Some 1" by code_simp+
  then show ?thesis by (simp add: parseSOCKSProxyURL_def sample_parse_def)
qed

lemma socks_config_valid:
  "length user \<le> 255 \<Longrightarrow> length password \<le> 255 \<Longrightarrow> user \<noteq> '''' \<Longrightarrow> ValidateOutboundProxyConfig sample_parse (socks_config user password)"
  by (simp add: ValidateOutboundProxyConfig_def socks_config_def NormalizeProxyMode_def sample_socks)

lemma client_uses_own_proxy_witness:
  "fst (ClientForConfig id sample_parse (use_clients id sample_parse (NewOutboundClientFactory []) [(socks_config ''eve'' ''x'', 5)]) (socks_config ''ann'' ''pw'') 9)
    = Some (newOutboundTransport (own_proxy sample_parse (socks_config ''ann'' ''pw'')), 9)"
proof -
  have n: "CHR 0x00 \<notin> set ''socks5://h:1''" by code_simp
  have "fst (ClientForConfig id sample_parse (use_clients id sample_parse (NewOutboundClientFactory []) [(socks_config ''eve'' ''x'', 5)]) (socks_config ''ann'' ''pw'') 9)
    = (if ValidateOutboundProxyConfig sample_parse (socks_config ''ann'' ''pw'')
       then Some (newOutboundTransport (own_proxy sample_parse (socks_config ''ann'' ''pw'')), 9) else None)"
  proof (rule client_uses_own_proxy)
    show "\<And>s. sample_parse s \<noteq> None \<Longrightarrow> CHR 0x00 \<notin> set s" using n by (auto simp: sample_parse_def split: if_splits)
  qed (auto simp: socks_config_def)
  then show ?thesis using socks_config_valid[of "''ann''" "''pw''"] by simp
qed

text \<open>With a NUL byte in a user name, two valid configurations with different credentials share a transport: the second
  client below authenticates as the first.\<close>
lemma nul_username_shares_transport:
  defines "a \<equiv> socks_config (''a'' @ [CHR 0x00] @ ''b'') '''' " and "b \<equiv> socks_config ''a'' (''b'' @ [CHR 0x00])"
  shows "ValidateOutboundProxyConfig sample_parse a \<and> ValidateOutboundProxyConfig sample_parse b \<and> own_proxy sample_parse a \<noteq> own_proxy sample_parse b
    \<and> fst (ClientForConfig digest sample_parse (use_clients digest sample_parse (NewOutboundClientFactory key) [(a, t)]) b t)
        = Some (newOutboundTransport (own_proxy sample_parse a), t)"
proof -
  have v: "ValidateOutboundProxyConfig sample_parse a" "ValidateOutboundProxyConfig sample_parse b"
    unfolding a_def b_def by (rule socks_config_valid; simp)+
  have k: "transport_key a = transport_key b" by (simp add: a_def b_def transport_key_def socks_config_def)
  have ab: "opc_Mode a = ''socks5''" "opc_Mode b = ''socks5''" "a\<lparr>opc_Mode := ''socks5''\<rparr> = a" "b\<lparr>opc_Mode := ''socks5''\<rparr> = b"
    "NormalizeProxyMode ''socks5'' = ''socks5''"
    by (simp_all add: a_def b_def socks_config_def NormalizeProxyMode_def)
  obtain u where u: "parseSOCKSProxyURL sample_parse (opc_URL a) = Some u" using valid_socks_parses[OF v(1) ab(1)] by blast
  have own: "own_proxy sample_parse a = ProxyURL (if opc_Username a \<noteq> '''' then u\<lparr>pu_User := Some (opc_Username a, opc_Password a)\<rparr> else u)"
    using u by (simp add: own_proxy_def ab)
  have "snd (ClientForConfig digest sample_parse (NewOutboundClientFactory key) a t)
      = (NewOutboundClientFactory key)\<lparr>ocf_transports := [digest (transport_key a) \<mapsto> newOutboundTransport (own_proxy sample_parse a)]\<rparr>"
    unfolding ClientForConfig_def Let_def ab socksTransport_def u own using v(1) by (simp add: NewOutboundClientFactory_def)
  then have "fst (ClientForConfig digest sample_parse (use_clients digest sample_parse (NewOutboundClientFactory key) [(a, t)]) b t)
        = Some (newOutboundTransport (own_proxy sample_parse a), t)"
    using v(2) k by (simp add: use_clients_def) (simp add: ClientForConfig_def Let_def ab socksTransport_def)
  moreover have "own_proxy sample_parse a \<noteq> own_proxy sample_parse b"
    by (simp add: own_proxy_def a_def b_def socks_config_def NormalizeProxyMode_def sample_socks)
  ultimately show ?thesis using v by blast
qed

end
