(* ===== verification/RoutingAdmin.thy ===== *)
theory RoutingAdmin
  imports OutboundClient RouterEngine
begin

text \<open>
  Administration of upstreams, upstream groups and routes: their statements (store/upstreams.go, upstream_groups.go,
  routes.go) with the constraints of the tables (migrations 001, 003, 016, 021, 065, 076) and the handlers
  (admin/handle_upstreams.go, handle_upstream_groups.go, handle_routing_routes.go), and the reload that gives the rows
  to the running router and catalog (cmd/modelserver/main.go). A record of the world holds what the handlers ask for:
  which statements the database answers, the AEAD, the random bytes of the two encryptions, the URL parser,
  the driver and the next generated row id.
\<close>

record routing_world =
  rw_up :: "string \<Rightarrow> bool"
  rw_newGCM :: "bytes \<Rightarrow> aead option"
  rw_rand :: "nat \<Rightarrow> bytes option"
  rw_rand2 :: "nat \<Rightarrow> bytes option"
  rw_key :: bytes
  rw_parse :: url_parser
  rw_driver :: pg_driver
  rw_retry :: "jval \<Rightarrow> RetryPolicy option"
  rw_newID :: string

definition int4 :: "int \<Rightarrow> bool" where "int4 i = (-2147483648 \<le> i \<and> i \<le> 2147483647)"

text \<open>NOT NULL columns that take a decoded value as it is.\<close>
definition notnull_text :: "pg_driver \<Rightarrow> string \<Rightarrow> jval option \<Rightarrow> string option" where
  "notnull_text d old v = (case v of None \<Rightarrow> Some old | Some x \<Rightarrow> (case text_column d x of Some (Some s) \<Rightarrow> Some s | _ \<Rightarrow> None))"

definition notnull_int :: "pg_driver \<Rightarrow> int \<Rightarrow> jval option \<Rightarrow> int option" where
  "notnull_int d old v =
     (case v of None \<Rightarrow> Some old
      | Some x \<Rightarrow> if x = VNull then None else (case pg_int d x of None \<Rightarrow> None | Some i \<Rightarrow> if int4 i then Some i else None))"

section \<open>Upstreams: statements (store/upstreams.go)\<close>

text \<open>The CHECK constraint of migration 065, the trigger of migration 016 and the ranges of the integer columns.\<close>
definition upstream_row_ok :: "routing_db \<Rightarrow> UpstreamRow \<Rightarrow> bool" where
  "upstream_row_ok db u =
     (List.member [''environment'', ''direct'', ''socks5''] (up_ProxyMode u)
      \<and> assert_model_names_in_catalog (rd_models db) (up_SupportedModels u) \<and> int4 (up_Weight u) \<and> int4 (up_MaxConcurrent u))"

text \<open>The driver writes a nil slice as NULL, which the column of the supported models refuses; it is nil when it is empty, as
  NormalizeNames answers nil for no names.\<close>
definition CreateUpstream :: "routing_db \<Rightarrow> bool \<Rightarrow> string \<Rightarrow> UpstreamRow \<Rightarrow> (UpstreamRow \<times> routing_db) option" where
  "CreateUpstream db up newID u =
     (let row = u\<lparr>up_ID := newID, up_ProxyMode := EffectiveProxyMode (Upstream.truncate u),
                  up_ModelMap := (case up_ModelMap u of None \<Rightarrow> Some Map.empty | Some m \<Rightarrow> Some m)\<rparr> in
      if \<not> up \<or> up_SupportedModels u = [] \<or> \<not> upstream_row_ok db row then None
      else Some (u\<lparr>up_ID := newID\<rparr>, db\<lparr>rd_upstreams := rd_upstreams db @ [row]\<rparr>))"

text \<open>Inl: the query fails.\<close>
definition GetUpstreamByID :: "routing_db \<Rightarrow> bool \<Rightarrow> string \<Rightarrow> unit + UpstreamRow option" where
  "GetUpstreamByID db up i = (if \<not> up then Inl () else Inr (find (\<lambda>u. up_ID u = i) (rd_upstreams db)))"

definition ListUpstreams :: "routing_db \<Rightarrow> bool \<Rightarrow> UpstreamRow list option" where
  "ListUpstreams db up = (if \<not> up then None else Some (sort_key up_Name (rd_upstreams db)))"

definition ListActiveUpstreamsForModel :: "routing_db \<Rightarrow> bool \<Rightarrow> string \<Rightarrow> UpstreamRow list option" where
  "ListActiveUpstreamsForModel db up model =
     (if \<not> up then None
      else Some (sort_key (\<lambda>u. - up_Weight u) (filter (\<lambda>u. up_Status u = ''active'' \<and> List.member (up_SupportedModels u) model) (rd_upstreams db))))"

text \<open>The columns to set. A column whose value is not checked holds the decoded value; an empty password removes it.\<close>
record upstream_patch =
  xp_Name :: "jval option"
  xp_BaseURL :: "jval option"
  xp_Provider :: "string option"
  xp_SupportedModels :: "string list option"
  xp_ModelMap :: "(string \<rightharpoonup> string) option"
  xp_Weight :: "jval option"
  xp_MaxConcurrent :: "jval option"
  xp_TestModel :: "jval option"
  xp_ReadTimeout :: "duration option"
  xp_Status :: "jval option"
  xp_ProxyMode :: "string option"
  xp_SocksProxyURL :: "string option"
  xp_SocksProxyUsername :: "string option"
  xp_SocksProxyPassword :: "bytes option"
  xp_APIKey :: "bytes option"

definition no_upstream_patch :: upstream_patch where
  "no_upstream_patch = \<lparr>xp_Name = None, xp_BaseURL = None, xp_Provider = None, xp_SupportedModels = None, xp_ModelMap = None, xp_Weight = None,
     xp_MaxConcurrent = None, xp_TestModel = None, xp_ReadTimeout = None, xp_Status = None, xp_ProxyMode = None, xp_SocksProxyURL = None,
     xp_SocksProxyUsername = None, xp_SocksProxyPassword = None, xp_APIKey = None\<rparr>"

text \<open>The row after the update; None when a value is refused, among them the nil slice that an empty list of models is
  normalized to.\<close>
definition patched_upstream :: "pg_driver \<Rightarrow> upstream_patch \<Rightarrow> UpstreamRow \<Rightarrow> UpstreamRow option" where
  "patched_upstream d p u =
     (case (notnull_text d (up_Name u) (xp_Name p), notnull_text d (up_BaseURL u) (xp_BaseURL p), notnull_int d (up_Weight u) (xp_Weight p),
            notnull_int d (up_MaxConcurrent u) (xp_MaxConcurrent p), notnull_text d (up_TestModel u) (xp_TestModel p),
            notnull_text d (up_Status u) (xp_Status p)) of
        (Some name, Some baseURL, Some weight, Some maxConcurrent, Some testModel, Some status) \<Rightarrow>
          if xp_SupportedModels p = Some [] then None
          else Some (u\<lparr>up_Name := name, up_BaseURL := baseURL, up_Weight := weight, up_MaxConcurrent := maxConcurrent, up_TestModel := testModel,
             up_Status := status, up_Provider := the_or (up_Provider u) (xp_Provider p),
             up_SupportedModels := the_or (up_SupportedModels u) (xp_SupportedModels p),
             up_ModelMap := (case xp_ModelMap p of None \<Rightarrow> up_ModelMap u | Some m \<Rightarrow> Some m),
             up_ReadTimeout := the_or (up_ReadTimeout u) (xp_ReadTimeout p), up_ProxyMode := the_or (up_ProxyMode u) (xp_ProxyMode p),
             up_SocksProxyURL := the_or (up_SocksProxyURL u) (xp_SocksProxyURL p),
             up_APIKeyEncrypted := the_or (up_APIKeyEncrypted u) (xp_APIKey p),
             upr_SocksProxyUsername := the_or (upr_SocksProxyUsername u) (xp_SocksProxyUsername p),
             upr_SocksProxyPasswordEncrypted := the_or (upr_SocksProxyPasswordEncrypted u) (xp_SocksProxyPassword p)\<rparr>)
      | _ \<Rightarrow> None)"

definition UpdateUpstream :: "routing_db \<Rightarrow> bool \<Rightarrow> pg_driver \<Rightarrow> string \<Rightarrow> upstream_patch \<Rightarrow> routing_db option" where
  "UpdateUpstream db up d i p =
     (if \<not> up then None
      else (case find (\<lambda>u. up_ID u = i) (rd_upstreams db) of None \<Rightarrow> Some db
        | Some u \<Rightarrow>
            (case patched_upstream d p u of None \<Rightarrow> None
             | Some u' \<Rightarrow>
                 if \<not> upstream_row_ok db u' then None
                 else Some (db\<lparr>rd_upstreams := map (\<lambda>x. if up_ID x = i then u' else x) (rd_upstreams db)\<rparr>))))"

text \<open>The members of the upstream go with it (ON DELETE CASCADE).\<close>
definition DeleteUpstream :: "routing_db \<Rightarrow> bool \<Rightarrow> string \<Rightarrow> routing_db option" where
  "DeleteUpstream db up i =
     (if \<not> up then None
      else Some (db\<lparr>rd_upstreams := filter (\<lambda>u. up_ID u \<noteq> i) (rd_upstreams db),
                    rd_members := filter (\<lambda>m. mem_UpstreamID m \<noteq> i) (rd_members db)\<rparr>))"

section \<open>Upstreams: handlers (admin/handle_upstreams.go)\<close>

text \<open>The map is given by its entries in the order Go iterates over them; entries whose names have the same
  canonical name overwrite one another in that order.\<close>
definition normalizeModelMapKeys :: "catalog \<Rightarrow> (string \<times> string) list \<Rightarrow> string list + (string \<rightharpoonup> string)" where
  "normalizeModelMapKeys cat entries =
     (if entries = [] then Inr Map.empty
      else (case NormalizeNames cat (map fst entries) of
              Inl unknown_names \<Rightarrow> Inl unknown_names
            | Inr canonical \<Rightarrow> Inr (foldl (\<lambda>m (c, v). m(c \<mapsto> v)) Map.empty (zip canonical (map snd entries)))))"

record upstream_body =
  ub_Provider :: string
  ub_Name :: string
  ub_BaseURL :: string
  ub_APIKey :: string
  ub_ProxyMode :: string
  ub_SocksProxyURL :: string
  ub_SocksProxyUsername :: string
  ub_SocksProxyPassword :: string
  ub_SupportedModels :: "string list"
  ub_ModelMap :: "(string \<times> string) list option"
  ub_Weight :: int
  ub_MaxConcurrent :: int
  ub_TestModel :: string
  ub_ReadTimeout :: duration

definition body_proxy :: "upstream_body \<Rightarrow> OutboundProxyConfig" where
  "body_proxy b = \<lparr>opc_Mode = NormalizeProxyMode (ub_ProxyMode b), opc_URL = ub_SocksProxyURL b,
     opc_Username = ub_SocksProxyUsername b, opc_Password = ub_SocksProxyPassword b\<rparr>"

text \<open>The composite literal of the new upstream; the id is not set.\<close>
definition body_upstream :: "upstream_body \<Rightarrow> OutboundProxyConfig \<Rightarrow> bytes \<Rightarrow> bytes \<Rightarrow> string list \<Rightarrow> (string \<rightharpoonup> string) option \<Rightarrow> UpstreamRow" where
  "body_upstream b proxyCfg encrypted encryptedProxyPassword supported modelMap =
     \<lparr>up_ID = '''', up_Provider = ub_Provider b, up_Name = ub_Name b, up_BaseURL = ub_BaseURL b, up_APIKeyEncrypted = encrypted,
      up_ProxyMode = opc_Mode proxyCfg, up_SocksProxyURL = opc_URL proxyCfg, up_SupportedModels = supported, up_ModelMap = modelMap,
      up_Weight = (if ub_Weight b \<le> 0 then 1 else ub_Weight b), up_MaxConcurrent = ub_MaxConcurrent b,
      up_ReadTimeout = ub_ReadTimeout b, up_TestModel = ub_TestModel b, up_Status = ''active'',
      upr_SocksProxyUsername = opc_Username proxyCfg, upr_SocksProxyPasswordEncrypted = encryptedProxyPassword\<rparr>"

definition handleCreateUpstream :: "routing_world \<Rightarrow> routing_db \<Rightarrow> catalog \<Rightarrow> upstream_body option \<Rightarrow> UpstreamRow response \<times> routing_db" where
  "handleCreateUpstream w db cat body =
     (case body of None \<Rightarrow> (Failure 400 ''bad_request'', db)
      | Some b \<Rightarrow>
          if ub_Name b = '''' \<or> ub_Provider b = '''' \<or> ub_APIKey b = '''' then (Failure 400 ''bad_request'', db)
          else if \<not> IsValidProvider (ub_Provider b) then (Failure 400 ''bad_request'', db)
          else if \<not> ValidateOutboundProxyConfig (rw_parse w) (body_proxy b) then (Failure 400 ''bad_request'', db)
          else (case NormalizeNames cat (ub_SupportedModels b) of Inl _ \<Rightarrow> (Failure 400 ''unknown_model'', db)
           | Inr supported \<Rightarrow>
          (case normalizeModelMapKeys cat (the_or [] (ub_ModelMap b)) of Inl _ \<Rightarrow> (Failure 400 ''unknown_model'', db)
           | Inr modelMap \<Rightarrow>
          (case Encrypt (rw_newGCM w) (rw_rand w) (rw_key w) (string_bytes (ub_APIKey b)) of Inl _ \<Rightarrow> (Failure 500 ''internal'', db)
           | Inr encrypted \<Rightarrow>
          (case (if opc_Password (body_proxy b) \<noteq> ''''
                 then Encrypt (rw_newGCM w) (rw_rand2 w) (rw_key w) (string_bytes (opc_Password (body_proxy b))) else Inr []) of
             Inl _ \<Rightarrow> (Failure 500 ''internal'', db)
           | Inr encryptedProxyPassword \<Rightarrow>
          (case CreateUpstream db (rw_up w ''CreateUpstream'') (rw_newID w)
             (body_upstream b (body_proxy b) encrypted encryptedProxyPassword supported (if ub_ModelMap b = None then None else Some modelMap)) of
             None \<Rightarrow> (Failure 500 ''internal'', db)
           | Some (u, db') \<Rightarrow> (Success 201 u, db')))))))"

definition handleGetUpstream :: "routing_world \<Rightarrow> routing_db \<Rightarrow> string \<Rightarrow> UpstreamRow response" where
  "handleGetUpstream w db i =
     (case GetUpstreamByID db (rw_up w ''GetUpstreamByID'') i of Inr (Some u) \<Rightarrow> Success 200 u | _ \<Rightarrow> Failure 404 ''not_found'')"

fun string_values :: "(string \<times> jval) list \<Rightarrow> (string \<times> string) list option" where
  "string_values [] = Some []"
| "string_values ((k, v) # es) = (case string_of v of None \<Rightarrow> None | Some s \<Rightarrow> map_option ((#) (k, s)) (string_values es))"

text \<open>One member of the body that must be a string; Inl is the answer of the handler.\<close>
definition string_member :: "json_body \<Rightarrow> string \<Rightarrow> (int \<times> string) + string option" where
  "string_member body field =
     (case body field of None \<Rightarrow> Inr None
      | Some v \<Rightarrow> (case string_of v of None \<Rightarrow> Inl (400, ''bad_request'') | Some s \<Rightarrow> Inr (Some s)))"

text \<open>The loop over the fields, of which four are checked.\<close>
definition upstream_field_updates :: "catalog \<Rightarrow> json_body \<Rightarrow> (int \<times> string) + upstream_patch" where
  "upstream_field_updates cat body =
     (case (case string_member body ''provider'' of Inl e \<Rightarrow> Inl e
            | Inr None \<Rightarrow> Inr None | Inr (Some s) \<Rightarrow> if \<not> IsValidProvider s then Inl (400, ''bad_request'') else Inr (Some s)) of Inl e \<Rightarrow> Inl e
      | Inr provider \<Rightarrow>
     (case (case body ''supported_models'' of None \<Rightarrow> Inr None
            | Some v \<Rightarrow> (case toStringSlice v of None \<Rightarrow> Inl (400, ''bad_request'')
                | Some names \<Rightarrow> (case NormalizeNames cat names of Inl _ \<Rightarrow> Inl (400, ''unknown_model'') | Inr ns \<Rightarrow> Inr (Some ns)))) of Inl e \<Rightarrow> Inl e
      | Inr supported \<Rightarrow>
     (case (case body ''model_map'' of None \<Rightarrow> Inr None
            | Some (VObj raw) \<Rightarrow> (case string_values raw of None \<Rightarrow> Inl (400, ''bad_request'')
                | Some es \<Rightarrow> (case normalizeModelMapKeys cat es of Inl _ \<Rightarrow> Inl (400, ''unknown_model'') | Inr m \<Rightarrow> Inr (Some m)))
            | Some _ \<Rightarrow> Inl (400, ''bad_request'')) of Inl e \<Rightarrow> Inl e
      | Inr modelMap \<Rightarrow>
     (case (case body ''read_timeout'' of None \<Rightarrow> Inr None
            | Some v \<Rightarrow> (case toInt64 v of None \<Rightarrow> Inl (400, ''bad_request'') | Some ns \<Rightarrow> Inr (Some (if ns \<le> 0 then 0 else ns)))) of Inl e \<Rightarrow> Inl e
      | Inr readTimeout \<Rightarrow>
          Inr (no_upstream_patch\<lparr>xp_Name := body ''name'', xp_BaseURL := body ''base_url'', xp_Provider := provider, xp_SupportedModels := supported,
             xp_ModelMap := modelMap, xp_Weight := body ''weight'', xp_MaxConcurrent := body ''max_concurrent'', xp_TestModel := body ''test_model'',
             xp_ReadTimeout := readTimeout, xp_Status := body ''status''\<rparr>)))))"

text \<open>The proxy members, validated against the row as it will be.\<close>
definition upstream_proxy_updates :: "routing_world \<Rightarrow> UpstreamRow \<Rightarrow> json_body \<Rightarrow> upstream_patch \<Rightarrow> (int \<times> string) + upstream_patch" where
  "upstream_proxy_updates w existing body p =
     (case string_member body ''proxy_mode'' of Inl e \<Rightarrow> Inl e
      | Inr mode \<Rightarrow>
     (case string_member body ''socks_proxy_url'' of Inl e \<Rightarrow> Inl e
      | Inr proxyURL \<Rightarrow>
     (case string_member body ''socks_proxy_username'' of Inl e \<Rightarrow> Inl e
      | Inr username \<Rightarrow>
     (case string_member body ''socks_proxy_password'' of Inl e \<Rightarrow> Inl e
      | Inr password \<Rightarrow>
         (let cfg = \<lparr>opc_Mode = (case mode of None \<Rightarrow> EffectiveProxyMode (Upstream.truncate existing) | Some s \<Rightarrow> NormalizeProxyMode s),
                     opc_URL = the_or (up_SocksProxyURL existing) proxyURL,
                     opc_Username = the_or (upr_SocksProxyUsername existing) username, opc_Password = the_or '''' password\<rparr>;
              touched = (mode \<noteq> None \<or> proxyURL \<noteq> None \<or> username \<noteq> None);
              p1 = p\<lparr>xp_ProxyMode := map_option NormalizeProxyMode mode, xp_SocksProxyURL := proxyURL, xp_SocksProxyUsername := username\<rparr>
          in case (case password of
                 Some s \<Rightarrow>
                   (if s = '''' then Inr (cfg, True, p1\<lparr>xp_SocksProxyPassword := Some []\<rparr>)
                    else (case Encrypt (rw_newGCM w) (rw_rand2 w) (rw_key w) (string_bytes s) of
                            Inl _ \<Rightarrow> Inl (500, ''internal'') | Inr encrypted \<Rightarrow> Inr (cfg, True, p1\<lparr>xp_SocksProxyPassword := Some encrypted\<rparr>)))
               | None \<Rightarrow>
                   (if touched \<and> opc_Mode cfg = ''socks5'' \<and> length (upr_SocksProxyPasswordEncrypted existing) > 0
                    then (case Decrypt (rw_newGCM w) (rw_key w) (upr_SocksProxyPasswordEncrypted existing) of
                            Inl _ \<Rightarrow> Inl (500, ''internal'') | Inr plaintext \<Rightarrow> Inr (cfg\<lparr>opc_Password := bytes_string plaintext\<rparr>, touched, p1))
                    else Inr (cfg, touched, p1))) of
               Inl e \<Rightarrow> Inl e
             | Inr (cfg', proxyTouched, p2) \<Rightarrow>
                 if proxyTouched \<and> \<not> ValidateOutboundProxyConfig (rw_parse w) cfg' then Inl (400, ''bad_request'') else Inr p2)))))"

text \<open>A new API key; a value that is not a string, or is empty, is ignored.\<close>
definition upstream_key_update :: "routing_world \<Rightarrow> json_body \<Rightarrow> upstream_patch \<Rightarrow> (int \<times> string) + upstream_patch" where
  "upstream_key_update w body p =
     (case body ''api_key'' of
        Some (VStr rawKey) \<Rightarrow>
          if rawKey = '''' then Inr p
          else (case Encrypt (rw_newGCM w) (rw_rand w) (rw_key w) (string_bytes rawKey) of
                  Inl _ \<Rightarrow> Inl (500, ''internal'') | Inr encrypted \<Rightarrow> Inr (p\<lparr>xp_APIKey := Some encrypted\<rparr>))
      | _ \<Rightarrow> Inr p)"

definition upstream_updates :: "routing_world \<Rightarrow> catalog \<Rightarrow> UpstreamRow \<Rightarrow> json_body \<Rightarrow> (int \<times> string) + upstream_patch" where
  "upstream_updates w cat existing body =
     (case upstream_field_updates cat body of Inl e \<Rightarrow> Inl e
      | Inr p \<Rightarrow> (case upstream_proxy_updates w existing body p of Inl e \<Rightarrow> Inl e | Inr p2 \<Rightarrow> upstream_key_update w body p2))"

definition handleUpdateUpstream ::
  "routing_world \<Rightarrow> routing_db \<Rightarrow> catalog \<Rightarrow> string \<Rightarrow> json_body option \<Rightarrow> UpstreamRow option response \<times> routing_db" where
  "handleUpdateUpstream w db cat i body =
     (case GetUpstreamByID db (rw_up w ''GetUpstreamByID'') i of Inl _ \<Rightarrow> (Failure 500 ''internal'', db)
      | Inr None \<Rightarrow> (Failure 404 ''not_found'', db)
      | Inr (Some existing) \<Rightarrow>
          (case body of None \<Rightarrow> (Failure 400 ''bad_request'', db)
           | Some b \<Rightarrow>
          (case upstream_updates w cat existing b of Inl (st, code) \<Rightarrow> (Failure st code, db)
           | Inr updates \<Rightarrow>
               if updates = no_upstream_patch then (Failure 400 ''bad_request'', db)
               else (case UpdateUpstream db (rw_up w ''UpdateUpstream'') (rw_driver w) i updates of
                  None \<Rightarrow> (Failure 500 ''internal'', db)
                | Some db' \<Rightarrow> (Success 200 (case GetUpstreamByID db' (rw_up w ''reread'') i of Inl _ \<Rightarrow> None | Inr u \<Rightarrow> u), db')))))"

definition handleDeleteUpstream :: "routing_world \<Rightarrow> routing_db \<Rightarrow> string \<Rightarrow> unit response \<times> routing_db" where
  "handleDeleteUpstream w db i =
     (case DeleteUpstream db (rw_up w ''DeleteUpstream'') i of None \<Rightarrow> (Failure 500 ''internal'', db) | Some db' \<Rightarrow> (Success 204 (), db'))"

section \<open>Groups and members (store/upstream_groups.go, admin/handle_upstream_groups.go)\<close>

definition zero_retry :: RetryPolicy where "zero_retry = \<lparr>MaxRetries = 0, RetryOn = [], RetryDelay = 0\<rparr>"

text \<open>No policy is stored as an empty JSON object, which reads as the zero policy.\<close>
definition CreateUpstreamGroup :: "routing_db \<Rightarrow> bool \<Rightarrow> string \<Rightarrow> UpstreamGroup \<Rightarrow> (UpstreamGroup \<times> routing_db) option" where
  "CreateUpstreamGroup db up newID g =
     (if \<not> up then None
      else Some (g\<lparr>grp_ID := newID\<rparr>,
        db\<lparr>rd_groups := rd_groups db @ [g\<lparr>grp_ID := newID, grp_RetryPolicy := Some (the_or zero_retry (grp_RetryPolicy g))\<rparr>]\<rparr>))"

definition GetUpstreamGroupByID :: "routing_db \<Rightarrow> bool \<Rightarrow> string \<Rightarrow> unit + UpstreamGroup option" where
  "GetUpstreamGroupByID db up i = (if \<not> up then Inl () else Inr (find (\<lambda>g. grp_ID g = i) (rd_groups db)))"

definition ListUpstreamGroups :: "routing_db \<Rightarrow> bool \<Rightarrow> UpstreamGroup list option" where
  "ListUpstreamGroups db up = (if \<not> up then None else Some (sort_key grp_Name (rd_groups db)))"

record group_patch =
  gp_Name :: "jval option"
  gp_LBPolicy :: "jval option"
  gp_RetryPolicy :: "jval option"
  gp_Status :: "jval option"

definition patched_group :: "routing_world \<Rightarrow> group_patch \<Rightarrow> UpstreamGroup \<Rightarrow> UpstreamGroup option" where
  "patched_group w p g =
     (case (notnull_text (rw_driver w) (grp_Name g) (gp_Name p), notnull_text (rw_driver w) (grp_LBPolicy g) (gp_LBPolicy p),
            notnull_text (rw_driver w) (grp_Status g) (gp_Status p)) of
        (Some name, Some policy, Some status) \<Rightarrow>
          if gp_RetryPolicy p = Some VNull then None
          else Some (g\<lparr>grp_Name := name, grp_LBPolicy := policy, grp_Status := status,
             grp_RetryPolicy := (case gp_RetryPolicy p of None \<Rightarrow> grp_RetryPolicy g | Some v \<Rightarrow> rw_retry w v)\<rparr>)
      | _ \<Rightarrow> None)"

definition UpdateUpstreamGroup :: "routing_world \<Rightarrow> routing_db \<Rightarrow> string \<Rightarrow> group_patch \<Rightarrow> routing_db option" where
  "UpdateUpstreamGroup w db i p =
     (if \<not> rw_up w ''UpdateUpstreamGroup'' then None
      else (case find (\<lambda>g. grp_ID g = i) (rd_groups db) of None \<Rightarrow> Some db
        | Some g \<Rightarrow> (case patched_group w p g of None \<Rightarrow> None
            | Some g' \<Rightarrow> Some (db\<lparr>rd_groups := map (\<lambda>x. if grp_ID x = i then g' else x) (rd_groups db)\<rparr>))))"

text \<open>The members go with the group (ON DELETE CASCADE); routes to it stay, with no group (ON DELETE SET NULL).\<close>
definition DeleteUpstreamGroup :: "routing_db \<Rightarrow> bool \<Rightarrow> string \<Rightarrow> routing_db option" where
  "DeleteUpstreamGroup db up i =
     (if \<not> up then None
      else Some (db\<lparr>rd_groups := filter (\<lambda>g. grp_ID g \<noteq> i) (rd_groups db),
                    rd_members := filter (\<lambda>m. mem_UpstreamGroupID m \<noteq> i) (rd_members db),
                    rd_routes := map (\<lambda>r. if rr_Group r = Some i then r\<lparr>rr_Group := None\<rparr> else r) (rd_routes db)\<rparr>))"

text \<open>Both columns are foreign keys and together the primary key.\<close>
definition AddUpstreamGroupMember :: "routing_db \<Rightarrow> bool \<Rightarrow> UpstreamGroupMember \<Rightarrow> routing_db option" where
  "AddUpstreamGroupMember db up m =
     (if \<not> up \<or> \<not> List.member (map grp_ID (rd_groups db)) (mem_UpstreamGroupID m)
         \<or> \<not> List.member (map up_ID (rd_upstreams db)) (mem_UpstreamID m)
         \<or> list_ex (\<lambda>x. mem_UpstreamGroupID x = mem_UpstreamGroupID m \<and> mem_UpstreamID x = mem_UpstreamID m) (rd_members db)
         \<or> (case mem_Weight m of None \<Rightarrow> False | Some weight \<Rightarrow> \<not> int4 weight) then None
      else Some (db\<lparr>rd_members := rd_members db @ [m]\<rparr>))"

definition RemoveUpstreamGroupMember :: "routing_db \<Rightarrow> bool \<Rightarrow> string \<Rightarrow> string \<Rightarrow> routing_db option" where
  "RemoveUpstreamGroupMember db up groupID upstreamID =
     (if \<not> up then None
      else Some (db\<lparr>rd_members := filter (\<lambda>m. \<not> (mem_UpstreamGroupID m = groupID \<and> mem_UpstreamID m = upstreamID)) (rd_members db)\<rparr>))"

definition ListUpstreamGroupMembers :: "routing_db \<Rightarrow> bool \<Rightarrow> string \<Rightarrow> UpstreamGroupMember list option" where
  "ListUpstreamGroupMembers db up groupID = (if \<not> up then None else Some (filter (\<lambda>m. mem_UpstreamGroupID m = groupID) (rd_members db)))"

text \<open>The members of one group joined with their upstreams, by the upstreams' names.\<close>
definition members_with_upstreams :: "routing_db \<Rightarrow> string \<Rightarrow> (UpstreamGroupMember \<times> UpstreamRow) list" where
  "members_with_upstreams db groupID =
     sort_key (\<lambda>(m, u). up_Name u)
       (concat (map (\<lambda>m. map (\<lambda>u. (m, u)) (filter (\<lambda>u. up_ID u = mem_UpstreamID m) (rd_upstreams db)))
          (filter (\<lambda>m. mem_UpstreamGroupID m = groupID) (rd_members db))))"

text \<open>Two queries, each on the rows of its own moment.\<close>
definition ListUpstreamGroupsWithMembers ::
  "routing_db \<Rightarrow> routing_db \<Rightarrow> (string \<Rightarrow> bool) \<Rightarrow> (UpstreamGroup \<times> (UpstreamGroupMember \<times> UpstreamRow) list) list option" where
  "ListUpstreamGroupsWithMembers db1 db2 up =
     (case ListUpstreamGroups db1 (up ''ListUpstreamGroups'') of None \<Rightarrow> None
      | Some gs \<Rightarrow> if \<not> up ''list members'' then None else Some (map (\<lambda>g. (g, members_with_upstreams db2 (grp_ID g))) gs))"

record group_body =
  gb_Name :: string
  gb_LBPolicy :: string
  gb_RetryPolicy :: "RetryPolicy option"
  gb_Status :: string

definition handleCreateUpstreamGroup :: "routing_world \<Rightarrow> routing_db \<Rightarrow> group_body option \<Rightarrow> UpstreamGroup response \<times> routing_db" where
  "handleCreateUpstreamGroup w db body =
     (case body of None \<Rightarrow> (Failure 400 ''bad_request'', db)
      | Some b \<Rightarrow>
          if gb_Name b = '''' then (Failure 400 ''bad_request'', db)
          else (case CreateUpstreamGroup db (rw_up w ''CreateUpstreamGroup'') (rw_newID w)
             \<lparr>grp_ID = '''', grp_Name = gb_Name b, grp_LBPolicy = (if gb_LBPolicy b = '''' then ''weighted_random'' else gb_LBPolicy b),
              grp_RetryPolicy = gb_RetryPolicy b, grp_Status = (if gb_Status b = '''' then ''active'' else gb_Status b)\<rparr> of
             None \<Rightarrow> (Failure 500 ''internal'', db)
           | Some (g, db') \<Rightarrow> (Success 201 g, db')))"

definition handleGetUpstreamGroup :: "routing_world \<Rightarrow> routing_db \<Rightarrow> string \<Rightarrow> UpstreamGroup response" where
  "handleGetUpstreamGroup w db i =
     (case GetUpstreamGroupByID db (rw_up w ''GetUpstreamGroupByID'') i of Inr (Some g) \<Rightarrow> Success 200 g | _ \<Rightarrow> Failure 404 ''not_found'')"

text \<open>The members are passed on unchecked.\<close>
definition handleUpdateUpstreamGroup :: "routing_world \<Rightarrow> routing_db \<Rightarrow> string \<Rightarrow> json_body option \<Rightarrow> UpstreamGroup option response \<times> routing_db" where
  "handleUpdateUpstreamGroup w db i body =
     (case body of None \<Rightarrow> (Failure 400 ''bad_request'', db)
      | Some b \<Rightarrow>
          if list_all (\<lambda>field. b field = None) [''name'', ''lb_policy'', ''retry_policy'', ''status''] then (Failure 400 ''bad_request'', db)
          else (case UpdateUpstreamGroup w db i
             \<lparr>gp_Name = b ''name'', gp_LBPolicy = b ''lb_policy'', gp_RetryPolicy = b ''retry_policy'', gp_Status = b ''status''\<rparr> of
             None \<Rightarrow> (Failure 500 ''internal'', db)
           | Some db' \<Rightarrow> (Success 200 (case GetUpstreamGroupByID db' (rw_up w ''reread'') i of Inl _ \<Rightarrow> None | Inr g \<Rightarrow> g), db')))"

definition handleDeleteUpstreamGroup :: "routing_world \<Rightarrow> routing_db \<Rightarrow> string \<Rightarrow> unit response \<times> routing_db" where
  "handleDeleteUpstreamGroup w db i =
     (case DeleteUpstreamGroup db (rw_up w ''DeleteUpstreamGroup'') i of None \<Rightarrow> (Failure 500 ''internal'', db) | Some db' \<Rightarrow> (Success 204 (), db'))"

record member_body =
  mb_UpstreamID :: string
  mb_Weight :: "int option"
  mb_IsBackup :: bool

definition handleAddGroupMember :: "routing_world \<Rightarrow> routing_db \<Rightarrow> string \<Rightarrow> member_body option \<Rightarrow> UpstreamGroupMember response \<times> routing_db" where
  "handleAddGroupMember w db groupID body =
     (case body of None \<Rightarrow> (Failure 400 ''bad_request'', db)
      | Some b \<Rightarrow>
          if mb_UpstreamID b = '''' then (Failure 400 ''bad_request'', db)
          else (let m = \<lparr>mem_UpstreamGroupID = groupID, mem_UpstreamID = mb_UpstreamID b, mem_Weight = mb_Weight b, mem_IsBackup = mb_IsBackup b\<rparr>
            in case AddUpstreamGroupMember db (rw_up w ''AddUpstreamGroupMember'') m of
                 None \<Rightarrow> (Failure 500 ''internal'', db) | Some db' \<Rightarrow> (Success 201 m, db')))"

definition handleRemoveGroupMember :: "routing_world \<Rightarrow> routing_db \<Rightarrow> string \<Rightarrow> string \<Rightarrow> unit response \<times> routing_db" where
  "handleRemoveGroupMember w db groupID upstreamID =
     (case RemoveUpstreamGroupMember db (rw_up w ''RemoveUpstreamGroupMember'') groupID upstreamID of
        None \<Rightarrow> (Failure 500 ''internal'', db) | Some db' \<Rightarrow> (Success 204 (), db'))"

definition handleListGroupMembers :: "routing_world \<Rightarrow> routing_db \<Rightarrow> string \<Rightarrow> UpstreamGroupMember list response" where
  "handleListGroupMembers w db groupID =
     (case ListUpstreamGroupMembers db (rw_up w ''ListUpstreamGroupMembers'') groupID of
        None \<Rightarrow> Failure 500 ''internal'' | Some ms \<Rightarrow> Success 200 ms)"

section \<open>Routes (store/routes.go, admin/handle_routing_routes.go)\<close>

text \<open>A row is scanned into a record whose group is a string: NULL is an error.\<close>
definition scanRoute :: "RouteRow \<Rightarrow> Route option" where
  "scanRoute r = (case rr_Group r of None \<Rightarrow> None | Some g \<Rightarrow> Some ((Route.truncate r)\<lparr>route_UpstreamGroupID := g\<rparr>))"

fun scan_all :: "RouteRow list \<Rightarrow> Route list option" where
  "scan_all [] = Some []"
| "scan_all (r # rs) = (case scanRoute r of None \<Rightarrow> None | Some x \<Rightarrow> map_option ((#) x) (scan_all rs))"

text \<open>The trigger of migration 016, the CHECK constraint of 076, the foreign keys (\<^term>\<open>projects\<close>: the project rows) and the
  range of the priority.\<close>
definition route_row_ok :: "routing_db \<Rightarrow> (string \<Rightarrow> bool) \<Rightarrow> RouteRow \<Rightarrow> bool" where
  "route_row_ok db projects r =
     (assert_model_names_in_catalog (rd_models db) (route_ModelNames r)
      \<and> list_all IsValidRequestKind (route_RequestKinds r) \<and> route_RequestKinds r \<noteq> []
      \<and> (route_ProjectID r = '''' \<or> projects (route_ProjectID r))
      \<and> (case rr_Group r of None \<Rightarrow> True | Some g \<Rightarrow> List.member (map grp_ID (rd_groups db)) g)
      \<and> int4 (route_MatchPriority r))"

definition CreateRoute :: "routing_db \<Rightarrow> bool \<Rightarrow> (string \<Rightarrow> bool) \<Rightarrow> string \<Rightarrow> Route \<Rightarrow> (Route \<times> routing_db) option" where
  "CreateRoute db up projects newID r =
     (let row = Route.extend (r\<lparr>route_ID := newID\<rparr>) (RouteRow.fields (Some (route_UpstreamGroupID r))) in
      if \<not> up \<or> \<not> route_row_ok db projects row then None
      else Some (r\<lparr>route_ID := newID\<rparr>, db\<lparr>rd_routes := rd_routes db @ [row]\<rparr>))"

text \<open>Inl: the query or the scan fails.\<close>
definition GetRouteByID :: "routing_db \<Rightarrow> bool \<Rightarrow> string \<Rightarrow> unit + Route option" where
  "GetRouteByID db up i =
     (if \<not> up then Inl ()
      else (case find (\<lambda>r. route_ID r = i) (rd_routes db) of None \<Rightarrow> Inr None
        | Some row \<Rightarrow> (case scanRoute row of None \<Rightarrow> Inl () | Some r \<Rightarrow> Inr (Some r))))"

definition ListRoutes :: "routing_db \<Rightarrow> bool \<Rightarrow> Route list option" where
  "ListRoutes db up = (if \<not> up then None else scan_all (sort_key (\<lambda>r. - route_MatchPriority r) (rd_routes db)))"

definition ListRoutesForProject :: "routing_db \<Rightarrow> bool \<Rightarrow> string \<Rightarrow> Route list option" where
  "ListRoutesForProject db up projectID =
     (if \<not> up then None
      else scan_all (sort_key (\<lambda>r. (if route_ProjectID r \<noteq> '''' then 0 else 1 :: int, - route_MatchPriority r))
        (filter (\<lambda>r. (route_ProjectID r = projectID \<or> route_ProjectID r = '''') \<and> route_Status r = ''active'') (rd_routes db))))"

record route_patch =
  tp_ProjectID :: "jval option"
  tp_ModelNames :: "string list option"
  tp_RequestKinds :: "string list option"
  tp_Clients :: "string list option"
  tp_Group :: "jval option"
  tp_MatchPriority :: "jval option"
  tp_Conditions :: "jval option"
  tp_Status :: "jval option"

definition no_route_patch :: route_patch where
  "no_route_patch = \<lparr>tp_ProjectID = None, tp_ModelNames = None, tp_RequestKinds = None, tp_Clients = None, tp_Group = None, tp_MatchPriority = None,
     tp_Conditions = None, tp_Status = None\<rparr>"

text \<open>project_id and upstream_group_id are nullable; conditions is JSON and NOT NULL, as are the model names, of which none are
  normalized to a nil slice.\<close>
definition patched_route :: "pg_driver \<Rightarrow> route_patch \<Rightarrow> RouteRow \<Rightarrow> RouteRow option" where
  "patched_route d p r =
     (case (case tp_ProjectID p of None \<Rightarrow> Some (Some (route_ProjectID r)) | Some v \<Rightarrow> text_column d v,
            case tp_Group p of None \<Rightarrow> Some (rr_Group r) | Some v \<Rightarrow> text_column d v,
            notnull_int d (route_MatchPriority r) (tp_MatchPriority p), notnull_text d (route_Status r) (tp_Status p)) of
        (Some project, Some grp, Some priority, Some status) \<Rightarrow>
          if tp_Conditions p = Some VNull \<or> tp_ModelNames p = Some [] then None
          else Some (r\<lparr>route_ProjectID := the_or '''' project, route_ModelNames := the_or (route_ModelNames r) (tp_ModelNames p),
             route_RequestKinds := the_or (route_RequestKinds r) (tp_RequestKinds p), route_Clients := the_or (route_Clients r) (tp_Clients p),
             route_MatchPriority := priority, route_Status := status, rr_Group := grp,
             route_Conditions := (case tp_Conditions p of None \<Rightarrow> route_Conditions r | Some v \<Rightarrow> pg_strings d v)\<rparr>)
      | _ \<Rightarrow> None)"

definition UpdateRoute :: "routing_db \<Rightarrow> bool \<Rightarrow> (string \<Rightarrow> bool) \<Rightarrow> pg_driver \<Rightarrow> string \<Rightarrow> route_patch \<Rightarrow> routing_db option" where
  "UpdateRoute db up projects d i p =
     (if \<not> up then None
      else (case find (\<lambda>r. route_ID r = i) (rd_routes db) of None \<Rightarrow> Some db
        | Some r \<Rightarrow>
            (case patched_route d p r of None \<Rightarrow> None
             | Some r' \<Rightarrow>
                 if \<not> route_row_ok db projects r' then None
                 else Some (db\<lparr>rd_routes := map (\<lambda>x. if route_ID x = i then r' else x) (rd_routes db)\<rparr>))))"

definition DeleteRoute :: "routing_db \<Rightarrow> bool \<Rightarrow> string \<Rightarrow> routing_db option" where
  "DeleteRoute db up i = (if \<not> up then None else Some (db\<lparr>rd_routes := filter (\<lambda>r. route_ID r \<noteq> i) (rd_routes db)\<rparr>))"

definition handleGetRoutingRoute :: "routing_world \<Rightarrow> routing_db \<Rightarrow> string \<Rightarrow> Route response" where
  "handleGetRoutingRoute w db i =
     (case GetRouteByID db (rw_up w ''GetRouteByID'') i of Inl _ \<Rightarrow> Failure 500 ''internal''
      | Inr None \<Rightarrow> Failure 404 ''not_found'' | Inr (Some r) \<Rightarrow> Success 200 r)"

text \<open>The body has the members of a route.\<close>
definition handleCreateRoutingRoute ::
  "routing_world \<Rightarrow> (string \<Rightarrow> bool) \<Rightarrow> routing_db \<Rightarrow> catalog \<Rightarrow> Route option \<Rightarrow> Route response \<times> routing_db" where
  "handleCreateRoutingRoute w projects db cat body =
     (case body of None \<Rightarrow> (Failure 400 ''bad_request'', db)
      | Some b \<Rightarrow>
          if route_ModelNames b = [] \<or> route_UpstreamGroupID b = '''' then (Failure 400 ''bad_request'', db)
          else if route_RequestKinds b = [] then (Failure 400 ''bad_request'', db)
          else if \<not> list_all IsValidRequestKind (route_RequestKinds b) then (Failure 400 ''bad_request'', db)
          else if \<not> list_all IsValidClientBucket (route_Clients b) then (Failure 400 ''bad_request'', db)
          else (case NormalizeNames cat (route_ModelNames b) of Inl _ \<Rightarrow> (Failure 400 ''unknown_model'', db)
           | Inr canonical \<Rightarrow>
               (case CreateRoute db (rw_up w ''CreateRoute'') projects (rw_newID w)
                  (b\<lparr>route_ID := '''', route_ModelNames := canonical, route_Status := (if route_Status b = '''' then ''active'' else route_Status b)\<rparr>) of
                  None \<Rightarrow> (Failure 500 ''internal'', db)
                | Some (r, db') \<Rightarrow> (Success 201 r, db'))))"

text \<open>A member that must be an array of strings with the given check; null is the empty array.\<close>
definition strings_member :: "json_body \<Rightarrow> string \<Rightarrow> (string list \<Rightarrow> bool) \<Rightarrow> (int \<times> string) + string list option" where
  "strings_member body field valid =
     (case body field of None \<Rightarrow> Inr None
      | Some v \<Rightarrow> (case toStringSlice v of None \<Rightarrow> Inl (400, ''bad_request'')
          | Some xs \<Rightarrow> if valid xs then Inr (Some xs) else Inl (400, ''bad_request'')))"

definition route_updates :: "catalog \<Rightarrow> json_body \<Rightarrow> (int \<times> string) + route_patch" where
  "route_updates cat body =
     (case (case strings_member body ''model_names'' (\<lambda>_. True) of Inl e \<Rightarrow> Inl e
            | Inr None \<Rightarrow> Inr None
            | Inr (Some names) \<Rightarrow> (case NormalizeNames cat names of Inl _ \<Rightarrow> Inl (400, ''unknown_model'') | Inr ns \<Rightarrow> Inr (Some ns))) of Inl e \<Rightarrow> Inl e
      | Inr models \<Rightarrow>
     (case strings_member body ''request_kinds'' (\<lambda>ks. ks \<noteq> [] \<and> list_all IsValidRequestKind ks) of Inl e \<Rightarrow> Inl e
      | Inr kinds \<Rightarrow>
     (case strings_member body ''clients'' (list_all IsValidClientBucket) of Inl e \<Rightarrow> Inl e
      | Inr clients \<Rightarrow>
          Inr \<lparr>tp_ProjectID = (case body ''project_id'' of Some (VStr s) \<Rightarrow> Some (if s = '''' then VNull else VStr s) | v \<Rightarrow> v),
             tp_ModelNames = models, tp_RequestKinds = kinds, tp_Clients = clients, tp_Group = body ''upstream_group_id'',
             tp_MatchPriority = body ''match_priority'', tp_Conditions = body ''conditions'', tp_Status = body ''status''\<rparr>)))"

definition handleUpdateRoutingRoute ::
  "routing_world \<Rightarrow> (string \<Rightarrow> bool) \<Rightarrow> routing_db \<Rightarrow> catalog \<Rightarrow> string \<Rightarrow> json_body option \<Rightarrow> Route option response \<times> routing_db" where
  "handleUpdateRoutingRoute w projects db cat i body =
     (case body of None \<Rightarrow> (Failure 400 ''bad_request'', db)
      | Some b \<Rightarrow>
          (case route_updates cat b of Inl (st, code) \<Rightarrow> (Failure st code, db)
           | Inr updates \<Rightarrow>
               if updates = no_route_patch then (Failure 400 ''bad_request'', db)
               else (case UpdateRoute db (rw_up w ''UpdateRoute'') projects (rw_driver w) i updates of
                  None \<Rightarrow> (Failure 500 ''internal'', db)
                | Some db' \<Rightarrow> (Success 200 (case GetRouteByID db' (rw_up w ''reread'') i of Inl _ \<Rightarrow> None | Inr r \<Rightarrow> r), db'))))"

definition handleDeleteRoutingRoute :: "routing_world \<Rightarrow> routing_db \<Rightarrow> string \<Rightarrow> unit response \<times> routing_db" where
  "handleDeleteRoutingRoute w db i =
     (case DeleteRoute db (rw_up w ''DeleteRoute'') i of None \<Rightarrow> (Failure 500 ''internal'', db) | Some db' \<Rightarrow> (Success 204 (), db'))"

definition handleListRequestKinds :: "string list response" where "handleListRequestKinds = Success 200 AllRequestKinds"

definition handleListClientBuckets :: "string list response" where "handleListClientBuckets = Success 200 AllClientBuckets"

section \<open>The reload (cmd/modelserver/main.go)\<close>

text \<open>One round of the ticker: four queries, each on the rows of its own moment; any of the first three failing
  leaves router and catalog as they are, the fourth only the catalog. The router and the routing code share the catalog.\<close>
definition reload_round ::
  "(bytes \<Rightarrow> bytes option) \<Rightarrow> bytes \<Rightarrow> (string \<Rightarrow> bool) \<Rightarrow> routing_db list \<Rightarrow> Router \<Rightarrow> catalog \<Rightarrow> Router \<times> catalog" where
  "reload_round decrypt encKey up dbs r cat =
     (case (ListUpstreams (dbs ! 0) (up ''ListUpstreams''), ListUpstreamGroupsWithMembers (dbs ! 1) (dbs ! 2) up, ListRoutes (dbs ! 3) (up ''ListRoutes'')) of
        (Some us, Some gs, Some rts) \<Rightarrow>
          (let cat' = (case ListModels (dbs ! 4) (up ''ListModels'') of None \<Rightarrow> cat | Some ms \<Rightarrow> Swap cat ms)
           in ((Reload decrypt r (map Upstream.truncate us) (map (\<lambda>(g, ms). (g, map fst ms)) gs) rts encKey)
                 \<lparr>rt_catalog := Some cat'\<rparr>, cat'))
      | _ \<Rightarrow> (r, cat))"

section \<open>What every row satisfies\<close>

definition names_of :: "routing_db \<Rightarrow> string set" where "names_of db = set (map model_Name (rd_models db))"

definition catalog_refs :: "routing_db \<Rightarrow> string set" where
  "catalog_refs db = (\<Union>u \<in> set (rd_upstreams db). set (up_SupportedModels u)) \<union> (\<Union>r \<in> set (rd_routes db). set (route_ModelNames r))
     \<union> (\<Union>ns \<in> set (rd_keyModels db). set ns)"

text \<open>The AEAD opens what it sealed, its nonces are not empty, and the random source returns as many bytes as asked for.\<close>
definition aead_sound :: "(bytes \<Rightarrow> aead option) \<Rightarrow> bytes \<Rightarrow> bool" where
  "aead_sound newGCM key \<longleftrightarrow> (\<forall>g. newGCM key = Some g \<longrightarrow> 0 < nonceSize g \<and> (\<forall>n p. unseal g n (seal g n p) = Some p))"

definition world_of :: "(bytes \<Rightarrow> aead option) \<Rightarrow> bytes \<Rightarrow> url_parser \<Rightarrow> routing_world \<Rightarrow> bool" where
  "world_of newGCM key parse w \<longleftrightarrow> rw_newGCM w = newGCM \<and> rw_key w = key \<and> rw_parse w = parse
     \<and> (\<forall>n b. rw_rand w n = Some b \<longrightarrow> length b = n) \<and> (\<forall>n b. rw_rand2 w n = Some b \<longrightarrow> length b = n)"

text \<open>The outbound proxy of a row can be used: see \<^term>\<open>proxy_row_usable\<close>.\<close>
definition proxy_row_ok :: "(bytes \<Rightarrow> aead option) \<Rightarrow> bytes \<Rightarrow> url_parser \<Rightarrow> UpstreamRow \<Rightarrow> bool" where
  "proxy_row_ok newGCM key parse u \<longleftrightarrow>
     up_ProxyMode u \<in> {''environment'', ''direct'', ''socks5''} \<and> length (upr_SocksProxyUsername u) \<le> 255
     \<and> (upr_SocksProxyPasswordEncrypted u = [] \<or>
          (\<exists>p. Decrypt newGCM key (upr_SocksProxyPasswordEncrypted u) = Inr p \<and> length p \<le> 255))
     \<and> (up_ProxyMode u = ''socks5'' \<longrightarrow> (\<exists>cfg. stored_config newGCM key u = Some cfg \<and> ValidateOutboundProxyConfig parse cfg))"

text \<open>The rows of a running system: names of models do not collide and every model named by an upstream, a route or a key is
  in the catalog; identifiers are unique; members and routes refer to rows that exist; routes carry known kinds and
  clients; and every upstream has a usable proxy configuration.\<close>
definition routing_ok :: "(bytes \<Rightarrow> aead option) \<Rightarrow> bytes \<Rightarrow> url_parser \<Rightarrow> routing_db \<Rightarrow> bool" where
  "routing_ok newGCM key parse db \<longleftrightarrow>
     models_ok (rd_models db) \<and> catalog_refs db \<subseteq> names_of db
     \<and> distinct (map up_ID (rd_upstreams db)) \<and> distinct (map grp_ID (rd_groups db)) \<and> distinct (map route_ID (rd_routes db))
     \<and> distinct (map (\<lambda>m. (mem_UpstreamGroupID m, mem_UpstreamID m)) (rd_members db))
     \<and> (\<forall>m \<in> set (rd_members db). mem_UpstreamGroupID m \<in> grp_ID ` set (rd_groups db) \<and> mem_UpstreamID m \<in> up_ID ` set (rd_upstreams db))
     \<and> (\<forall>r \<in> set (rd_routes db). (\<forall>g. rr_Group r = Some g \<longrightarrow> g \<in> grp_ID ` set (rd_groups db))
          \<and> route_RequestKinds r \<noteq> [] \<and> list_all IsValidRequestKind (route_RequestKinds r) \<and> list_all IsValidClientBucket (route_Clients r))
     \<and> (\<forall>u \<in> set (rd_upstreams db). proxy_row_ok newGCM key parse u)"

lemma in_catalog_iff: "assert_model_names_in_catalog (rd_models db) ns \<longleftrightarrow> set ns \<subseteq> names_of db"
  by (auto simp: assert_model_names_in_catalog_def names_of_def list_all_iff)

lemma length_bytes [simp]: "length (string_bytes s) = length s" "length (bytes_string b) = length b"
  by (simp_all add: string_bytes_def bytes_string_def)

lemma proxy_row_usable:
  assumes "proxy_row_ok newGCM key parse u"
  shows "\<exists>cfg. stored_config newGCM key u = Some cfg \<and> ValidateOutboundProxyConfig parse cfg"
proof (cases "up_ProxyMode u = ''socks5''")
  case True then show ?thesis using assms by (simp add: proxy_row_ok_def)
next
  case False
  then have m: "EffectiveProxyMode (Upstream.truncate u) = up_ProxyMode u" "up_ProxyMode u \<noteq> ''socks5''"
    using assms by (auto simp: proxy_row_ok_def EffectiveProxyMode_def Upstream.defs)
  then show ?thesis
    using assms by (auto simp: stored_config_def Let_def proxy_row_ok_def ValidateOutboundProxyConfig_def NormalizeProxyMode_def)
qed

lemma encrypted_opens:
  assumes "aead_sound newGCM key" "world_of newGCM key parse w" "Encrypt (rw_newGCM w) rand (rw_key w) p = Inr c"
    "rand = rw_rand w \<or> rand = rw_rand2 w"
  shows "Decrypt newGCM key c = Inr p \<and> c \<noteq> []"
proof -
  obtain g n where g: "newGCM key = Some g" "rand (nonceSize g) = Some n" "c = n @ seal g n p"
    using assms(2,3) by (auto simp: Encrypt_def world_of_def split: option.splits)
  then have "length n = nonceSize g" using assms(2,4) by (auto simp: world_of_def)
  then show ?thesis using g assms(1) by (auto simp: Decrypt_def aead_sound_def)
qed

lemma valid_facts:
  assumes "ValidateOutboundProxyConfig parse cfg"
  shows "NormalizeProxyMode (opc_Mode cfg) \<in> {''environment'', ''direct'', ''socks5''}" "length (opc_Username cfg) \<le> 255" "length (opc_Password cfg) \<le> 255"
  using assms by (auto simp: ValidateOutboundProxyConfig_def Let_def split: if_splits)

text \<open>A row whose columns come from a validated configuration.\<close>
lemma proxy_row_from_config:
  assumes "ValidateOutboundProxyConfig parse cfg" "up_ProxyMode u = NormalizeProxyMode (opc_Mode cfg)" "up_SocksProxyURL u = opc_URL cfg"
    "upr_SocksProxyUsername u = opc_Username cfg"
    and "(upr_SocksProxyPasswordEncrypted u = [] \<and> opc_Password cfg = '''') \<or>
      (upr_SocksProxyPasswordEncrypted u \<noteq> [] \<and> Decrypt newGCM key (upr_SocksProxyPasswordEncrypted u) = Inr p \<and> bytes_string p = opc_Password cfg)"
  shows "proxy_row_ok newGCM key parse u"
proof -
  note v = valid_facts[OF assms(1)]
  have len: "upr_SocksProxyPasswordEncrypted u \<noteq> [] \<Longrightarrow> length p \<le> 255" using assms(5) v(3) length_bytes(2)[of p] by auto
  have "\<exists>c. stored_config newGCM key u = Some c \<and> ValidateOutboundProxyConfig parse c" if m: "up_ProxyMode u = ''socks5''"
  proof -
    have "EffectiveProxyMode (Upstream.truncate u) = ''socks5''" using m by (simp add: EffectiveProxyMode_def Upstream.defs)
    then have "stored_config newGCM key u = Some (cfg\<lparr>opc_Mode := NormalizeProxyMode (opc_Mode cfg)\<rparr>)"
      using assms(2-5) m by (auto simp: stored_config_def Let_def)
    then show ?thesis using assms(1) by simp
  qed
  then show ?thesis using v(1,2) len assms(2,4,5) unfolding proxy_row_ok_def by auto
qed

lemma create_upstream_changes:
  assumes "snd (handleCreateUpstream w db cat body) \<noteq> db"
  shows "\<exists>b enc pw supported mm u. ValidateOutboundProxyConfig (rw_parse w) (body_proxy b)
    \<and> (if opc_Password (body_proxy b) \<noteq> '''' then Encrypt (rw_newGCM w) (rw_rand2 w) (rw_key w) (string_bytes (opc_Password (body_proxy b))) else Inr []) = Inr pw
    \<and> CreateUpstream db (rw_up w ''CreateUpstream'') (rw_newID w) (body_upstream b (body_proxy b) enc pw supported mm)
        = Some (u, snd (handleCreateUpstream w db cat body))"
proof -
  obtain b where b: "body = Some b" using assms by (cases body) (simp_all add: handleCreateUpstream_def)
  have ok: "\<not> (ub_Name b = '''' \<or> ub_Provider b = '''' \<or> ub_APIKey b = '''')" "IsValidProvider (ub_Provider b)"
      "ValidateOutboundProxyConfig (rw_parse w) (body_proxy b)"
    using assms b by (simp_all add: handleCreateUpstream_def split: if_splits)
  obtain supported where s: "NormalizeNames cat (ub_SupportedModels b) = Inr supported"
    using assms b ok by (cases "NormalizeNames cat (ub_SupportedModels b)") (simp_all add: handleCreateUpstream_def)
  obtain mm where mm: "normalizeModelMapKeys cat (the_or [] (ub_ModelMap b)) = Inr mm"
    using assms b ok s by (cases "normalizeModelMapKeys cat (the_or [] (ub_ModelMap b))") (simp_all add: handleCreateUpstream_def)
  obtain enc where enc: "Encrypt (rw_newGCM w) (rw_rand w) (rw_key w) (string_bytes (ub_APIKey b)) = Inr enc"
    using assms b ok s mm by (cases "Encrypt (rw_newGCM w) (rw_rand w) (rw_key w) (string_bytes (ub_APIKey b))") (simp_all add: handleCreateUpstream_def)
  let ?e = "if opc_Password (body_proxy b) \<noteq> '''' then Encrypt (rw_newGCM w) (rw_rand2 w) (rw_key w) (string_bytes (opc_Password (body_proxy b))) else Inr []"
  obtain pw where pw: "?e = Inr pw"
    using assms b ok s mm enc by (cases ?e) (simp_all add: handleCreateUpstream_def split del: if_split)
  let ?row = "body_upstream b (body_proxy b) enc pw supported (if ub_ModelMap b = None then None else Some mm)"
  have run: "handleCreateUpstream w db cat body = (case CreateUpstream db (rw_up w ''CreateUpstream'') (rw_newID w) ?row of
      None \<Rightarrow> (Failure 500 ''internal'', db) | Some (u, db') \<Rightarrow> (Success 201 u, db'))"
    unfolding handleCreateUpstream_def b using ok s mm enc pw by (simp split del: if_split)
  then obtain u where "CreateUpstream db (rw_up w ''CreateUpstream'') (rw_newID w) ?row = Some (u, snd (handleCreateUpstream w db cat body))"
    using assms by (cases "CreateUpstream db (rw_up w ''CreateUpstream'') (rw_newID w) ?row") auto
  then show ?thesis using ok(3) pw by blast
qed

lemma CreateUpstream_row:
  assumes "CreateUpstream db up newID u = Some (u', db')"
  shows "\<exists>row. db' = db\<lparr>rd_upstreams := rd_upstreams db @ [row]\<rparr> \<and> upstream_row_ok db row \<and> up_ID row = newID
    \<and> up_ProxyMode row = NormalizeProxyMode (up_ProxyMode u) \<and> up_SocksProxyURL row = up_SocksProxyURL u
    \<and> upr_SocksProxyUsername row = upr_SocksProxyUsername u \<and> upr_SocksProxyPasswordEncrypted row = upr_SocksProxyPasswordEncrypted u"
proof -
  let ?row = "u\<lparr>up_ID := newID, up_ProxyMode := EffectiveProxyMode (Upstream.truncate u),
                  up_ModelMap := (case up_ModelMap u of None \<Rightarrow> Some Map.empty | Some m \<Rightarrow> Some m)\<rparr>"
  have "db' = db\<lparr>rd_upstreams := rd_upstreams db @ [?row]\<rparr> \<and> upstream_row_ok db ?row"
    using assms unfolding CreateUpstream_def Let_def by (auto split: if_splits)
  then show ?thesis by (intro exI[of _ ?row]) (simp add: EffectiveProxyMode_def Upstream.defs NormalizeProxyMode_def)
qed

lemma create_upstream_effect:
  assumes "aead_sound newGCM key" "world_of newGCM key parse w"
  shows "snd (handleCreateUpstream w db cat body) = db \<or>
    (\<exists>row. snd (handleCreateUpstream w db cat body) = db\<lparr>rd_upstreams := rd_upstreams db @ [row]\<rparr> \<and> up_ID row = rw_newID w
       \<and> upstream_row_ok db row \<and> proxy_row_ok newGCM key parse row)"
proof (cases "snd (handleCreateUpstream w db cat body) = db")
  case True then show ?thesis ..
next
  case False
  from create_upstream_changes[OF False] obtain b enc pw supported mm u where h:
    "ValidateOutboundProxyConfig (rw_parse w) (body_proxy b)"
    "(if opc_Password (body_proxy b) \<noteq> '''' then Encrypt (rw_newGCM w) (rw_rand2 w) (rw_key w) (string_bytes (opc_Password (body_proxy b))) else Inr []) = Inr pw"
    "CreateUpstream db (rw_up w ''CreateUpstream'') (rw_newID w) (body_upstream b (body_proxy b) enc pw supported mm)
        = Some (u, snd (handleCreateUpstream w db cat body))"
    by blast
  from CreateUpstream_row[OF h(3)] obtain row where row: "snd (handleCreateUpstream w db cat body) = db\<lparr>rd_upstreams := rd_upstreams db @ [row]\<rparr>"
      "upstream_row_ok db row" "up_ID row = rw_newID w" "up_ProxyMode row = NormalizeProxyMode (opc_Mode (body_proxy b))"
      "up_SocksProxyURL row = opc_URL (body_proxy b)" "upr_SocksProxyUsername row = opc_Username (body_proxy b)" "upr_SocksProxyPasswordEncrypted row = pw"
    by (auto simp: body_upstream_def)
  have "(pw = [] \<and> opc_Password (body_proxy b) = '''') \<or>
      (pw \<noteq> [] \<and> Decrypt newGCM key pw = Inr (string_bytes (opc_Password (body_proxy b)))
        \<and> bytes_string (string_bytes (opc_Password (body_proxy b))) = opc_Password (body_proxy b))"
    using h(2) encrypted_opens[OF assms] by (auto split: if_splits)
  then have "proxy_row_ok newGCM key parse row"
    using proxy_row_from_config[of parse "body_proxy b" row newGCM key "string_bytes (opc_Password (body_proxy b))"] row h(1) assms(2)
    by (simp add: world_of_def)
  then show ?thesis using row by blast
qed

text \<open>What the update of an upstream leaves of the proxy columns: none is set, or they come from one validated configuration.\<close>
lemma proxy_updates_valid:
  assumes "aead_sound newGCM key" "world_of newGCM key parse w" "proxy_row_ok newGCM key parse existing"
    "upstream_proxy_updates w existing body p = Inr p'" "xp_ProxyMode p = None" "xp_SocksProxyURL p = None" "xp_SocksProxyUsername p = None"
    "xp_SocksProxyPassword p = None"
    and "up_ProxyMode u = the_or (up_ProxyMode existing) (xp_ProxyMode p')" "up_SocksProxyURL u = the_or (up_SocksProxyURL existing) (xp_SocksProxyURL p')"
    "upr_SocksProxyUsername u = the_or (upr_SocksProxyUsername existing) (xp_SocksProxyUsername p')"
    "upr_SocksProxyPasswordEncrypted u = the_or (upr_SocksProxyPasswordEncrypted existing) (xp_SocksProxyPassword p')"
  shows "proxy_row_ok newGCM key parse u"
proof -
  obtain mode url name pw where m: "string_member body ''proxy_mode'' = Inr mode" "string_member body ''socks_proxy_url'' = Inr url"
      "string_member body ''socks_proxy_username'' = Inr name" "string_member body ''socks_proxy_password'' = Inr pw"
    using assms(4) unfolding upstream_proxy_updates_def by (auto split: sum.splits)
  have emode: "EffectiveProxyMode (Upstream.truncate existing) = up_ProxyMode existing"
    using assms(3) by (auto simp: proxy_row_ok_def EffectiveProxyMode_def Upstream.defs)
  define cfg where "cfg = \<lparr>opc_Mode = (case mode of None \<Rightarrow> EffectiveProxyMode (Upstream.truncate existing) | Some s \<Rightarrow> NormalizeProxyMode s),
                     opc_URL = the_or (up_SocksProxyURL existing) url,
                     opc_Username = the_or (upr_SocksProxyUsername existing) name, opc_Password = the_or '''' pw\<rparr>"
  define touched where "touched = (mode \<noteq> None \<or> url \<noteq> None \<or> name \<noteq> None)"
  define p1 where "p1 = p\<lparr>xp_ProxyMode := map_option NormalizeProxyMode mode, xp_SocksProxyURL := url, xp_SocksProxyUsername := name\<rparr>"
  have run: "upstream_proxy_updates w existing body p =
      (case (case pw of
                 Some s \<Rightarrow>
                   (if s = '''' then Inr (cfg, True, p1\<lparr>xp_SocksProxyPassword := Some []\<rparr>)
                    else (case Encrypt (rw_newGCM w) (rw_rand2 w) (rw_key w) (string_bytes s) of
                            Inl _ \<Rightarrow> Inl (500, ''internal'') | Inr encrypted \<Rightarrow> Inr (cfg, True, p1\<lparr>xp_SocksProxyPassword := Some encrypted\<rparr>)))
               | None \<Rightarrow>
                   (if touched \<and> opc_Mode cfg = ''socks5'' \<and> length (upr_SocksProxyPasswordEncrypted existing) > 0
                    then (case Decrypt (rw_newGCM w) (rw_key w) (upr_SocksProxyPasswordEncrypted existing) of
                            Inl _ \<Rightarrow> Inl (500, ''internal'') | Inr plaintext \<Rightarrow> Inr (cfg\<lparr>opc_Password := bytes_string plaintext\<rparr>, touched, p1))
                    else Inr (cfg, touched, p1))) of
               Inl e \<Rightarrow> Inl e
             | Inr (cfg', proxyTouched, p2) \<Rightarrow>
                 if proxyTouched \<and> \<not> ValidateOutboundProxyConfig (rw_parse w) cfg' then Inl (400, ''bad_request'') else Inr p2)"
    by (simp only: upstream_proxy_updates_def m sum.case Let_def cfg_def touched_def p1_def)
  have w: "rw_newGCM w = newGCM" "rw_key w = key" "rw_parse w = parse" using assms(2) by (simp_all add: world_of_def)
  have modes: "up_ProxyMode u = NormalizeProxyMode (opc_Mode cfg) \<and> up_SocksProxyURL u = opc_URL cfg \<and> upr_SocksProxyUsername u = opc_Username cfg"
    if "xp_ProxyMode p' = xp_ProxyMode p1" "xp_SocksProxyURL p' = xp_SocksProxyURL p1" "xp_SocksProxyUsername p' = xp_SocksProxyUsername p1"
    using that assms(3,9-11) emode by (cases mode) (auto simp: p1_def cfg_def proxy_row_ok_def NormalizeProxyMode_def)
  show ?thesis
  proof (cases pw)
    case (Some s)
    show ?thesis
    proof (cases "s = ''''")
      case True
      then have "p' = p1\<lparr>xp_SocksProxyPassword := Some []\<rparr>" "ValidateOutboundProxyConfig parse cfg"
        using assms(4) unfolding run Some by (simp_all add: w split: if_splits)
      then show ?thesis
        using modes assms(12) Some True by (intro proxy_row_from_config[of parse cfg u newGCM key "[]"]) (simp_all add: cfg_def)
    next
      case False
      then obtain c where c: "Encrypt (rw_newGCM w) (rw_rand2 w) (rw_key w) (string_bytes s) = Inr c"
          "p' = p1\<lparr>xp_SocksProxyPassword := Some c\<rparr>" "ValidateOutboundProxyConfig parse cfg"
        using assms(4) unfolding run Some
        by (cases "Encrypt (rw_newGCM w) (rw_rand2 w) (rw_key w) (string_bytes s)") (auto simp: w split: if_splits)
      then show ?thesis
        using modes assms(12) Some encrypted_opens[OF assms(1,2) c(1)]
        by (intro proxy_row_from_config[of parse cfg u newGCM key "string_bytes s"]) (simp_all add: cfg_def)
    qed
  next
    case None
    note none = this
    have pw: "xp_SocksProxyPassword p1 = None" using assms(8) by (simp add: p1_def)
    show ?thesis
    proof (cases "touched \<and> opc_Mode cfg = ''socks5'' \<and> upr_SocksProxyPasswordEncrypted existing \<noteq> []")
      case True
      then obtain t where t: "Decrypt newGCM key (upr_SocksProxyPasswordEncrypted existing) = Inr t" "p' = p1"
          "ValidateOutboundProxyConfig parse (cfg\<lparr>opc_Password := bytes_string t\<rparr>)"
        using assms(4) unfolding run None
        by (cases "Decrypt (rw_newGCM w) (rw_key w) (upr_SocksProxyPasswordEncrypted existing)") (auto simp: w split: if_splits)
      then show ?thesis
        using modes assms(12) True pw by (intro proxy_row_from_config[of parse "cfg\<lparr>opc_Password := bytes_string t\<rparr>" u newGCM key t]) simp_all
    next
      case False
      then have r: "p' = p1" "touched \<Longrightarrow> ValidateOutboundProxyConfig parse cfg"
        using assms(4) unfolding run None by (simp_all add: w split: if_splits)
      show ?thesis
      proof (cases touched)
        case False
        then have "mode = None" "url = None" "name = None" by (simp_all add: touched_def)
        then have same: "up_ProxyMode u = up_ProxyMode existing" "up_SocksProxyURL u = up_SocksProxyURL existing"
            "upr_SocksProxyUsername u = upr_SocksProxyUsername existing" "upr_SocksProxyPasswordEncrypted u = upr_SocksProxyPasswordEncrypted existing"
          using assms(9-12) r(1) pw by (simp_all add: p1_def)
        have "EffectiveProxyMode (Upstream.truncate u) = EffectiveProxyMode (Upstream.truncate existing)"
          using same(1) by (simp add: EffectiveProxyMode_def Upstream.defs)
        then have "stored_config newGCM key u = stored_config newGCM key existing" by (simp only: stored_config_def same)
        then show ?thesis using assms(3) same by (simp add: proxy_row_ok_def)
      next
        case True
        note v = r(2)[OF True]
        show ?thesis
        proof (cases "opc_Mode cfg = ''socks5''")
          case socks: True
          then have "upr_SocksProxyPasswordEncrypted existing = []" using False True by simp
          then show ?thesis
            using modes r(1) assms(12) pw v none by (intro proxy_row_from_config[of parse cfg u newGCM key "[]"]) (simp_all add: cfg_def)
        next
          case other: False
          then have "up_ProxyMode u \<noteq> ''socks5''" using modes r(1) by (auto simp: NormalizeProxyMode_def)
          then show ?thesis
            using modes r(1) assms(3,12) pw valid_facts[OF v] by (simp add: proxy_row_ok_def)
        qed
      qed
    qed
  qed
qed

lemma field_updates_no_proxy:
  "upstream_field_updates cat body = Inr p \<Longrightarrow> xp_ProxyMode p = None \<and> xp_SocksProxyURL p = None \<and> xp_SocksProxyUsername p = None \<and> xp_SocksProxyPassword p = None"
  unfolding upstream_field_updates_def by (auto simp: no_upstream_patch_def split: sum.splits)

lemma key_update_proxy:
  "upstream_key_update w body p = Inr p' \<Longrightarrow> xp_ProxyMode p' = xp_ProxyMode p \<and> xp_SocksProxyURL p' = xp_SocksProxyURL p
     \<and> xp_SocksProxyUsername p' = xp_SocksProxyUsername p \<and> xp_SocksProxyPassword p' = xp_SocksProxyPassword p"
  unfolding upstream_key_update_def by (auto split: option.splits jval.splits sum.splits if_splits)

lemma patched_upstream_facts:
  assumes "patched_upstream d p u = Some row"
  shows "up_ID row = up_ID u" "up_ProxyMode row = the_or (up_ProxyMode u) (xp_ProxyMode p)" "up_SocksProxyURL row = the_or (up_SocksProxyURL u) (xp_SocksProxyURL p)"
    "upr_SocksProxyUsername row = the_or (upr_SocksProxyUsername u) (xp_SocksProxyUsername p)"
    "upr_SocksProxyPasswordEncrypted row = the_or (upr_SocksProxyPasswordEncrypted u) (xp_SocksProxyPassword p)"
  using assms unfolding patched_upstream_def by (auto split: option.splits if_splits)

lemma found_upstream: "find (\<lambda>u. up_ID u = i) us = Some u \<Longrightarrow> u \<in> set us \<and> up_ID u = i"
  by (auto simp: find_Some_iff)

lemma UpdateUpstream_row:
  "UpdateUpstream db up d i p = Some db' \<Longrightarrow> find (\<lambda>u. up_ID u = i) (rd_upstreams db) = Some existing \<Longrightarrow>
     \<exists>row. patched_upstream d p existing = Some row \<and> upstream_row_ok db row
       \<and> db' = db\<lparr>rd_upstreams := map (\<lambda>x. if up_ID x = i then row else x) (rd_upstreams db)\<rparr>"
  unfolding UpdateUpstream_def by (auto split: if_splits option.splits)

lemma update_upstream_effect:
  assumes "aead_sound newGCM key" "world_of newGCM key parse w" "\<And>u. u \<in> set (rd_upstreams db) \<Longrightarrow> proxy_row_ok newGCM key parse u"
  shows "snd (handleUpdateUpstream w db cat i body) = db \<or>
    (\<exists>row. snd (handleUpdateUpstream w db cat i body) = db\<lparr>rd_upstreams := map (\<lambda>x. if up_ID x = i then row else x) (rd_upstreams db)\<rparr>
       \<and> up_ID row = i \<and> upstream_row_ok db row \<and> proxy_row_ok newGCM key parse row)"
proof (cases "snd (handleUpdateUpstream w db cat i body) = db")
  case True then show ?thesis ..
next
  case False
  then obtain existing b where e: "find (\<lambda>u. up_ID u = i) (rd_upstreams db) = Some existing" "rw_up w ''GetUpstreamByID''" "body = Some b"
    by (auto simp: handleUpdateUpstream_def GetUpstreamByID_def split: sum.splits option.splits if_splits)
  obtain p where p: "upstream_updates w cat existing b = Inr p"
    using False e by (cases "upstream_updates w cat existing b") (auto simp: handleUpdateUpstream_def GetUpstreamByID_def)
  have upd: "UpdateUpstream db (rw_up w ''UpdateUpstream'') (rw_driver w) i p = Some (snd (handleUpdateUpstream w db cat i body))"
    using False e p by (cases "p = no_upstream_patch"; cases "UpdateUpstream db (rw_up w ''UpdateUpstream'') (rw_driver w) i p")
      (simp_all add: handleUpdateUpstream_def GetUpstreamByID_def)
  obtain p0 p1 where parts: "upstream_field_updates cat b = Inr p0" "upstream_proxy_updates w existing b p0 = Inr p1" "upstream_key_update w b p1 = Inr p"
    using p unfolding upstream_updates_def by (auto split: sum.splits)
  obtain row where row: "patched_upstream (rw_driver w) p existing = Some row" "upstream_row_ok db row"
      "snd (handleUpdateUpstream w db cat i body) = db\<lparr>rd_upstreams := map (\<lambda>x. if up_ID x = i then row else x) (rd_upstreams db)\<rparr>"
    using UpdateUpstream_row[OF upd e(1)] by blast
  note f = patched_upstream_facts[OF row(1)] and n = field_updates_no_proxy[OF parts(1)] and k = key_update_proxy[OF parts(3)]
  have pe: "proxy_row_ok newGCM key parse existing" using assms(3) found_upstream[OF e(1)] by blast
  have "proxy_row_ok newGCM key parse row"
    by (rule proxy_updates_valid[OF assms(1,2) pe parts(2)]) (use f n k in simp_all)
  moreover have "up_ID row = i" using f(1) found_upstream[OF e(1)] by simp
  ultimately show ?thesis using row by blast
qed

lemma scanRoute_row: "CreateRoute db up projects newID r = Some (r', db') \<Longrightarrow>
   \<exists>row. db' = db\<lparr>rd_routes := rd_routes db @ [row]\<rparr> \<and> route_row_ok db projects row \<and> route_ID row = newID \<and> scanRoute row = Some r'
     \<and> r' = r\<lparr>route_ID := newID\<rparr> \<and> route_RequestKinds row = route_RequestKinds r \<and> route_Clients row = route_Clients r
     \<and> route_ModelNames row = route_ModelNames r"
  by (auto simp: CreateRoute_def Let_def scanRoute_def Route.defs RouteRow.defs split: if_splits)

lemma create_route_effect:
  "snd (handleCreateRoutingRoute w projects db cat body) = db \<or>
    (\<exists>row. snd (handleCreateRoutingRoute w projects db cat body) = db\<lparr>rd_routes := rd_routes db @ [row]\<rparr> \<and> route_row_ok db projects row
       \<and> route_ID row = rw_newID w \<and> list_all IsValidClientBucket (route_Clients row))"
proof (cases "snd (handleCreateRoutingRoute w projects db cat body) = db")
  case True then show ?thesis ..
next
  case False
  then obtain b cs r where b: "list_all IsValidClientBucket (route_Clients b)"
      "CreateRoute db (rw_up w ''CreateRoute'') projects (rw_newID w)
                  (b\<lparr>route_ID := '''', route_ModelNames := cs, route_Status := (if route_Status b = '''' then ''active'' else route_Status b)\<rparr>)
        = Some (r, snd (handleCreateRoutingRoute w projects db cat body))"
    unfolding handleCreateRoutingRoute_def by (auto split: option.splits sum.splits if_splits)
  then show ?thesis using scanRoute_row[OF b(2)] by auto
qed

lemma patched_route_facts:
  "patched_route d p r = Some row \<Longrightarrow> route_ID row = route_ID r \<and> route_Clients row = the_or (route_Clients r) (tp_Clients p)"
  unfolding patched_route_def by (auto split: option.splits if_splits)

lemma route_updates_clients: "route_updates cat b = Inr p \<Longrightarrow> tp_Clients p = Some cs \<Longrightarrow> list_all IsValidClientBucket cs"
  unfolding route_updates_def strings_member_def by (auto split: sum.splits option.splits if_splits)

lemma UpdateRoute_row:
  "UpdateRoute db up projects d i p = Some db' \<Longrightarrow> db' = db \<or> (\<exists>r row. find (\<lambda>r. route_ID r = i) (rd_routes db) = Some r \<and>
     patched_route d p r = Some row \<and> route_row_ok db projects row
       \<and> db' = db\<lparr>rd_routes := map (\<lambda>x. if route_ID x = i then row else x) (rd_routes db)\<rparr>)"
  unfolding UpdateRoute_def by (auto split: if_splits option.splits)

lemma update_route_effect:
  assumes "\<And>r. r \<in> set (rd_routes db) \<Longrightarrow> list_all IsValidClientBucket (route_Clients r)"
  shows "snd (handleUpdateRoutingRoute w projects db cat i body) = db \<or>
    (\<exists>row. snd (handleUpdateRoutingRoute w projects db cat i body) = db\<lparr>rd_routes := map (\<lambda>x. if route_ID x = i then row else x) (rd_routes db)\<rparr>
       \<and> route_row_ok db projects row \<and> route_ID row = i \<and> list_all IsValidClientBucket (route_Clients row))"
proof (cases "snd (handleUpdateRoutingRoute w projects db cat i body) = db")
  case True then show ?thesis ..
next
  case False
  then obtain b p where p: "route_updates cat b = Inr p"
      "UpdateRoute db (rw_up w ''UpdateRoute'') projects (rw_driver w) i p = Some (snd (handleUpdateRoutingRoute w projects db cat i body))"
    unfolding handleUpdateRoutingRoute_def by (auto split: option.splits sum.splits if_splits)
  then obtain r row where r: "find (\<lambda>r. route_ID r = i) (rd_routes db) = Some r" "patched_route (rw_driver w) p r = Some row" "route_row_ok db projects row"
      "snd (handleUpdateRoutingRoute w projects db cat i body) = db\<lparr>rd_routes := map (\<lambda>x. if route_ID x = i then row else x) (rd_routes db)\<rparr>"
    using UpdateRoute_row[OF p(2)] False by blast
  have f: "r \<in> set (rd_routes db)" "route_ID r = i" using r(1) by (auto simp: find_Some_iff)
  have "list_all IsValidClientBucket (route_Clients row)"
    using patched_route_facts[OF r(2)] assms[OF f(1)] route_updates_clients[OF p(1)] by (cases "tp_Clients p") auto
  then show ?thesis using r patched_route_facts[OF r(2)] f by auto
qed

section \<open>Every reachable configuration is well formed\<close>

text \<open>The system: the rows and the catalogs of the processes that share them. Any process may handle any request with the
  catalog it has; other components write keys (through the same trigger) and the rates of plans and policies. Identifiers
  that the database generates are fresh.\<close>
inductive routing_step ::
  "(bytes \<Rightarrow> aead option) \<Rightarrow> bytes \<Rightarrow> url_parser \<Rightarrow> routing_db \<times> (nat \<Rightarrow> catalog) \<Rightarrow> routing_db \<times> (nat \<Rightarrow> catalog) \<Rightarrow> bool"
  for newGCM :: "bytes \<Rightarrow> aead option" and key :: bytes and parse :: url_parser where
  create_model: "handleCreateModel up db (cats i) body = (resp, db', cat') \<Longrightarrow> routing_step newGCM key parse (db, cats) (db', cats(i := cat'))"
| update_model: "handleUpdateModel up d rj db (cats i) name json = (answer, db', cat') \<Longrightarrow>
    routing_step newGCM key parse (db, cats) (db', cats(i := cat'))"
| delete_model: "handleDeleteModel up db (cats i) name = (reply, db', cat') \<Longrightarrow> routing_step newGCM key parse (db, cats) (db', cats(i := cat'))"
| refresh: "routing_step newGCM key parse (db, cats) (db, cats(i := refreshCatalog up db (cats i)))"
| create_upstream: "world_of newGCM key parse w \<Longrightarrow> rw_newID w \<notin> up_ID ` set (rd_upstreams db) \<Longrightarrow>
    routing_step newGCM key parse (db, cats) (snd (handleCreateUpstream w db (cats i) ubody), cats)"
| update_upstream: "world_of newGCM key parse w \<Longrightarrow>
    routing_step newGCM key parse (db, cats) (snd (handleUpdateUpstream w db (cats i) uid json), cats)"
| delete_upstream: "routing_step newGCM key parse (db, cats) (snd (handleDeleteUpstream w db uid), cats)"
| create_group: "rw_newID w \<notin> grp_ID ` set (rd_groups db) \<Longrightarrow> routing_step newGCM key parse (db, cats) (snd (handleCreateUpstreamGroup w db gbody), cats)"
| update_group: "routing_step newGCM key parse (db, cats) (snd (handleUpdateUpstreamGroup w db gid json), cats)"
| delete_group: "routing_step newGCM key parse (db, cats) (snd (handleDeleteUpstreamGroup w db gid), cats)"
| add_member: "routing_step newGCM key parse (db, cats) (snd (handleAddGroupMember w db gid mbody), cats)"
| remove_member: "routing_step newGCM key parse (db, cats) (snd (handleRemoveGroupMember w db gid uid), cats)"
| create_route: "rw_newID w \<notin> route_ID ` set (rd_routes db) \<Longrightarrow>
    routing_step newGCM key parse (db, cats) (snd (handleCreateRoutingRoute w projects db (cats i) rbody), cats)"
| update_route: "routing_step newGCM key parse (db, cats) (snd (handleUpdateRoutingRoute w projects db (cats i) rid json), cats)"
| delete_route: "routing_step newGCM key parse (db, cats) (snd (handleDeleteRoutingRoute w db rid), cats)"
| write_keys: "list_all (assert_model_names_in_catalog (rd_models db)) nss \<Longrightarrow> routing_step newGCM key parse (db, cats) (db\<lparr>rd_keyModels := nss\<rparr>, cats)"
| write_rates: "routing_step newGCM key parse (db, cats) (db\<lparr>rd_planRates := ps, rd_policyRates := qs\<rparr>, cats)"

lemma ok_models:
  "routing_ok newGCM key parse db \<Longrightarrow> models_ok ms \<Longrightarrow> catalog_refs db \<subseteq> set (map model_Name ms) \<Longrightarrow> routing_ok newGCM key parse (db\<lparr>rd_models := ms\<rparr>)"
  by (simp add: routing_ok_def catalog_refs_def names_of_def)

lemma ok_add_upstream:
  assumes "routing_ok newGCM key parse db" "upstream_row_ok db row" "proxy_row_ok newGCM key parse row" "up_ID row \<notin> up_ID ` set (rd_upstreams db)"
  shows "routing_ok newGCM key parse (db\<lparr>rd_upstreams := rd_upstreams db @ [row]\<rparr>)"
proof -
  have "set (up_SupportedModels row) \<subseteq> names_of db" using assms(2) by (simp add: upstream_row_ok_def in_catalog_iff)
  then show ?thesis using assms(1,3,4) by (auto simp: routing_ok_def catalog_refs_def names_of_def)
qed

lemma map_replace_ids: "f row = i \<Longrightarrow> map f (map (\<lambda>x. if f x = i then row else x) xs) = map f xs"
  by auto

lemma in_replaced: "y \<in> set (map (\<lambda>x. if f x = i then row else x) xs) \<Longrightarrow> y = row \<or> y \<in> set xs"
  by (auto split: if_splits)

lemma ok_replace_upstream:
  assumes "routing_ok newGCM key parse db" "upstream_row_ok db row" "proxy_row_ok newGCM key parse row" "up_ID row = i"
  shows "routing_ok newGCM key parse (db\<lparr>rd_upstreams := map (\<lambda>x. if up_ID x = i then row else x) (rd_upstreams db)\<rparr>)"
proof -
  let ?us = "map (\<lambda>x. if up_ID x = i then row else x) (rd_upstreams db)"
  have ids: "map up_ID ?us = map up_ID (rd_upstreams db)" using assms(4) by (intro map_replace_ids) simp
  have "set (up_SupportedModels row) \<subseteq> names_of db" using assms(2) by (simp add: upstream_row_ok_def in_catalog_iff)
  then have refs: "catalog_refs (db\<lparr>rd_upstreams := ?us\<rparr>) \<subseteq> names_of db"
    using assms(1) in_replaced[of _ up_ID i row "rd_upstreams db"] unfolding routing_ok_def catalog_refs_def by (simp, blast)
  have rows: "\<forall>u \<in> set ?us. proxy_row_ok newGCM key parse u"
    using assms(1,3) in_replaced[of _ up_ID i row "rd_upstreams db"] unfolding routing_ok_def by blast
  have "up_ID ` set ?us = up_ID ` set (rd_upstreams db)" using ids by (metis list.set_map)
  then show ?thesis
    using assms(1) refs rows ids unfolding routing_ok_def by (simp add: names_of_def del: set_map map_map)
qed

lemma ok_delete_upstream:
  assumes "routing_ok newGCM key parse db"
  shows "routing_ok newGCM key parse (db\<lparr>rd_upstreams := filter (\<lambda>u. up_ID u \<noteq> i) (rd_upstreams db),
      rd_members := filter (\<lambda>m. mem_UpstreamID m \<noteq> i) (rd_members db)\<rparr>)"
  using assms by (auto simp: routing_ok_def catalog_refs_def names_of_def distinct_map inj_on_def)

lemma ok_groups:
  assumes "routing_ok newGCM key parse db" "distinct (map grp_ID gs)" "set (map grp_ID (rd_groups db)) \<subseteq> set (map grp_ID gs)"
  shows "routing_ok newGCM key parse (db\<lparr>rd_groups := gs\<rparr>)"
  using assms by (auto simp: routing_ok_def catalog_refs_def names_of_def)

lemma ok_delete_group:
  assumes "routing_ok newGCM key parse db"
  shows "routing_ok newGCM key parse (db\<lparr>rd_groups := filter (\<lambda>g. grp_ID g \<noteq> i) (rd_groups db),
                    rd_members := filter (\<lambda>m. mem_UpstreamGroupID m \<noteq> i) (rd_members db),
                    rd_routes := map (\<lambda>r. if rr_Group r = Some i then r\<lparr>rr_Group := None\<rparr> else r) (rd_routes db)\<rparr>)"
proof -
  let ?rs = "map (\<lambda>r. if rr_Group r = Some i then r\<lparr>rr_Group := None\<rparr> else r) (rd_routes db)"
  let ?ms = "filter (\<lambda>m. mem_UpstreamGroupID m \<noteq> i) (rd_members db)" and ?gs = "filter (\<lambda>g. grp_ID g \<noteq> i) (rd_groups db)"
  have ids: "map route_ID ?rs = map route_ID (rd_routes db)" by simp
  have old: "\<exists>r0 \<in> set (rd_routes db). route_ModelNames r = route_ModelNames r0 \<and> route_RequestKinds r = route_RequestKinds r0
      \<and> route_Clients r = route_Clients r0 \<and> (\<forall>g. rr_Group r = Some g \<longrightarrow> rr_Group r0 = Some g \<and> g \<noteq> i)" if "r \<in> set ?rs" for r
    using that by (auto split: if_splits)
  have rs: "\<forall>r \<in> set ?rs. (\<forall>g. rr_Group r = Some g \<longrightarrow> g \<in> grp_ID ` set ?gs)
          \<and> route_RequestKinds r \<noteq> [] \<and> list_all IsValidRequestKind (route_RequestKinds r) \<and> list_all IsValidClientBucket (route_Clients r)"
  proof
    fix r assume "r \<in> set ?rs"
    from old[OF this] obtain r0 where r0: "r0 \<in> set (rd_routes db)" "route_RequestKinds r = route_RequestKinds r0" "route_Clients r = route_Clients r0"
        "\<forall>g. rr_Group r = Some g \<longrightarrow> rr_Group r0 = Some g \<and> g \<noteq> i" by blast
    then show "(\<forall>g. rr_Group r = Some g \<longrightarrow> g \<in> grp_ID ` set ?gs)
          \<and> route_RequestKinds r \<noteq> [] \<and> list_all IsValidRequestKind (route_RequestKinds r) \<and> list_all IsValidClientBucket (route_Clients r)"
      using assms unfolding routing_ok_def by fastforce
  qed
  have refs: "(\<Union>r \<in> set ?rs. set (route_ModelNames r)) \<subseteq> (\<Union>r \<in> set (rd_routes db). set (route_ModelNames r))"
  proof
    fix n assume "n \<in> (\<Union>r \<in> set ?rs. set (route_ModelNames r))"
    then obtain r where r: "r \<in> set ?rs" "n \<in> set (route_ModelNames r)" by blast
    from old[OF r(1)] r(2) show "n \<in> (\<Union>r \<in> set (rd_routes db). set (route_ModelNames r))" by auto
  qed
  have ms: "\<forall>m \<in> set ?ms. mem_UpstreamGroupID m \<in> grp_ID ` set ?gs \<and> mem_UpstreamID m \<in> up_ID ` set (rd_upstreams db)"
    using assms unfolding routing_ok_def by auto
  have dist: "distinct (map grp_ID ?gs)" "distinct (map (\<lambda>m. (mem_UpstreamGroupID m, mem_UpstreamID m)) ?ms)"
    using assms unfolding routing_ok_def by (auto simp: distinct_map_filter)
  let ?db = "db\<lparr>rd_groups := ?gs, rd_members := ?ms, rd_routes := ?rs\<rparr>"
  have sel: "rd_models ?db = rd_models db" "rd_upstreams ?db = rd_upstreams db" "rd_groups ?db = ?gs" "rd_members ?db = ?ms" "rd_routes ?db = ?rs"
    "rd_keyModels ?db = rd_keyModels db" "names_of ?db = names_of db"
    by (simp_all add: names_of_def del: set_map)
  have "catalog_refs ?db \<subseteq> catalog_refs db" unfolding catalog_refs_def sel by (intro Un_mono refs subset_refl)
  then have "catalog_refs ?db \<subseteq> names_of db" using assms unfolding routing_ok_def by (meson subset_trans)
  then show ?thesis
    using assms rs ms dist unfolding routing_ok_def sel ids by (elim conjE, intro conjI)
qed

lemma ok_members:
  assumes "routing_ok newGCM key parse db" "distinct (map (\<lambda>m. (mem_UpstreamGroupID m, mem_UpstreamID m)) ms)"
    "\<And>m. m \<in> set ms \<Longrightarrow> mem_UpstreamGroupID m \<in> grp_ID ` set (rd_groups db) \<and> mem_UpstreamID m \<in> up_ID ` set (rd_upstreams db)"
  shows "routing_ok newGCM key parse (db\<lparr>rd_members := ms\<rparr>)"
  using assms by (simp add: routing_ok_def catalog_refs_def names_of_def)

lemma route_row_facts:
  assumes "route_row_ok db projects row"
  shows "set (route_ModelNames row) \<subseteq> names_of db" "route_RequestKinds row \<noteq> []" "list_all IsValidRequestKind (route_RequestKinds row)"
    "\<And>g. rr_Group row = Some g \<Longrightarrow> g \<in> grp_ID ` set (rd_groups db)"
  using assms by (auto simp: route_row_ok_def in_catalog_iff)

lemma ok_routes:
  assumes "routing_ok newGCM key parse db" "distinct (map route_ID rs)"
    "\<And>r. r \<in> set rs \<Longrightarrow> r \<in> set (rd_routes db) \<or> (route_row_ok db projects r \<and> list_all IsValidClientBucket (route_Clients r))"
  shows "routing_ok newGCM key parse (db\<lparr>rd_routes := rs\<rparr>)"
proof -
  have new: "set (route_ModelNames r) \<subseteq> names_of db \<and> (\<forall>g. rr_Group r = Some g \<longrightarrow> g \<in> grp_ID ` set (rd_groups db))
          \<and> route_RequestKinds r \<noteq> [] \<and> list_all IsValidRequestKind (route_RequestKinds r) \<and> list_all IsValidClientBucket (route_Clients r)"
    if "r \<in> set rs" for r
  proof (cases "r \<in> set (rd_routes db)")
    case True
    then have "set (route_ModelNames r) \<subseteq> catalog_refs db" by (auto simp: catalog_refs_def)
    then show ?thesis using True assms(1) unfolding routing_ok_def by blast
  next
    case False
    then have r: "route_row_ok db projects r" "list_all IsValidClientBucket (route_Clients r)" using assms(3)[OF that] by auto
    show ?thesis using route_row_facts[OF r(1)] r(2) by blast
  qed
  have "catalog_refs db \<subseteq> names_of db" using assms(1) by (simp add: routing_ok_def)
  then have "catalog_refs (db\<lparr>rd_routes := rs\<rparr>) \<subseteq> names_of db"
    using new by (auto simp: catalog_refs_def)
  then show ?thesis using assms(1,2) new unfolding routing_ok_def by (simp add: names_of_def)
qed

lemma AddUpstreamGroupMember_row:
  "AddUpstreamGroupMember db up m = Some db' \<Longrightarrow> db' = db\<lparr>rd_members := rd_members db @ [m]\<rparr>
     \<and> mem_UpstreamGroupID m \<in> grp_ID ` set (rd_groups db) \<and> mem_UpstreamID m \<in> up_ID ` set (rd_upstreams db)
     \<and> (\<forall>x \<in> set (rd_members db). \<not> (mem_UpstreamGroupID x = mem_UpstreamGroupID m \<and> mem_UpstreamID x = mem_UpstreamID m))"
  by (simp add: AddUpstreamGroupMember_def list_ex_iff split: if_splits)

lemma routing_step_ok:
  assumes "routing_step newGCM key parse c c'" "aead_sound newGCM key" "routing_ok newGCM key parse (fst c)"
  shows "routing_ok newGCM key parse (fst c')"
  using assms
proof (induction rule: routing_step.induct)
  case (create_model up db cats i body resp db' cat')
  have m: "models_ok (rd_models db)" "catalog_refs db \<subseteq> names_of db" using create_model.prems(2) by (simp_all add: routing_ok_def)
  note h = handleCreateModel_ok[OF m(1), of up "cats i" body, unfolded create_model.hyps, simplified]
  have "routing_ok newGCM key parse (db\<lparr>rd_models := rd_models db'\<rparr>)"
    using create_model.prems(2) h(1,2) m(2) by (intro ok_models) (auto simp: names_of_def)
  then show ?case using h(3) by simp
next
  case (update_model up d rj db cats i name json answer db' cat')
  have m: "models_ok (rd_models db)" "catalog_refs db \<subseteq> names_of db" using update_model.prems(2) by (simp_all add: routing_ok_def)
  note h = handleUpdateModel_ok[OF m(1), of up d rj "cats i" name json, unfolded update_model.hyps, simplified]
  have "set (map model_Name (rd_models db')) = names_of db" using h(2) by (simp only: names_of_def)
  then have "routing_ok newGCM key parse (db\<lparr>rd_models := rd_models db'\<rparr>)"
    using update_model.prems(2) h(1) m(2) by (intro ok_models) simp_all
  then show ?case using h(3) by simp
next
  case (delete_model up db cats i name reply db' cat')
  have m: "models_ok (rd_models db)" "catalog_refs db \<subseteq> names_of db" using delete_model.prems(2) by (simp_all add: routing_ok_def)
  note h = handleDeleteModel_ok[OF m(1), of up "cats i" name, unfolded delete_model.hyps, simplified]
  show ?case
  proof (cases "db' = db")
    case True then show ?thesis using delete_model.prems(2) by simp
  next
    case False
    then have d: "\<not> trg_block_referenced_model_delete db name" "db' = db\<lparr>rd_models := filter (\<lambda>m. model_Name m \<noteq> name) (rd_models db)\<rparr>" using h(2) by auto
    have "name \<notin> catalog_refs db" using d(1) by (auto simp: trg_block_referenced_model_delete_def catalog_refs_def list_ex_iff)
    then have "catalog_refs db \<subseteq> set (map model_Name (filter (\<lambda>m. model_Name m \<noteq> name) (rd_models db)))"
      using m(2) by (auto simp: names_of_def)
    then show ?thesis using delete_model.prems(2) h(1) d(2) by (simp add: ok_models)
  qed
next
  case (create_upstream w db cats i ubody)
  then show ?case
    using create_upstream_effect[OF create_upstream.prems(1) create_upstream.hyps(1), of db "cats i" ubody]
      ok_add_upstream[of newGCM key parse db] by auto
next
  case (update_upstream w db cats i uid json)
  have "\<And>u. u \<in> set (rd_upstreams db) \<Longrightarrow> proxy_row_ok newGCM key parse u" using update_upstream.prems(2) by (simp add: routing_ok_def)
  then show ?case
    using update_upstream_effect[OF update_upstream.prems(1) update_upstream.hyps(1), of db "cats i" uid json]
      ok_replace_upstream[of newGCM key parse db] update_upstream.prems(2) by auto
next
  case (delete_upstream db cats w uid)
  then show ?case using ok_delete_upstream[of newGCM key parse db uid] by (simp add: handleDeleteUpstream_def DeleteUpstream_def)
next
  case (create_group w db cats gbody)
  have d: "distinct (map grp_ID (rd_groups db))" using create_group.prems(2) by (simp add: routing_ok_def)
  have "snd (handleCreateUpstreamGroup w db gbody) = db \<or>
      (\<exists>g. snd (handleCreateUpstreamGroup w db gbody) = db\<lparr>rd_groups := rd_groups db @ [g]\<rparr> \<and> grp_ID g = rw_newID w)"
    by (auto simp: handleCreateUpstreamGroup_def CreateUpstreamGroup_def split: option.splits)
  then show ?case using create_group.prems(2) create_group.hyps d by (auto intro!: ok_groups)
next
  case (update_group db cats w gid json)
  have d: "distinct (map grp_ID (rd_groups db))" using update_group.prems(2) by (simp add: routing_ok_def)
  have "snd (handleUpdateUpstreamGroup w db gid json) = db \<or>
      (\<exists>p. UpdateUpstreamGroup w db gid p = Some (snd (handleUpdateUpstreamGroup w db gid json)))"
    by (auto simp: handleUpdateUpstreamGroup_def split: option.splits)
  then show ?case
  proof
    assume "\<exists>p. UpdateUpstreamGroup w db gid p = Some (snd (handleUpdateUpstreamGroup w db gid json))"
    then obtain p where p: "UpdateUpstreamGroup w db gid p = Some (snd (handleUpdateUpstreamGroup w db gid json))" by blast
    show ?thesis
    proof (cases "snd (handleUpdateUpstreamGroup w db gid json) = db")
      case True then show ?thesis using update_group.prems(2) by simp
    next
      case False
      then obtain g g' where g: "find (\<lambda>g. grp_ID g = gid) (rd_groups db) = Some g" "patched_group w p g = Some g'"
          "snd (handleUpdateUpstreamGroup w db gid json) = db\<lparr>rd_groups := map (\<lambda>x. if grp_ID x = gid then g' else x) (rd_groups db)\<rparr>"
        using p unfolding UpdateUpstreamGroup_def by (auto split: option.splits if_splits)
      have "grp_ID g' = gid" using g(1,2) by (auto simp: patched_group_def find_Some_iff split: option.splits if_splits)
      then have "map grp_ID (map (\<lambda>x. if grp_ID x = gid then g' else x) (rd_groups db)) = map grp_ID (rd_groups db)" by (intro map_replace_ids)
      then show ?thesis unfolding fst_conv g(3) using update_group.prems(2) d by (intro ok_groups) (simp_all del: map_map)
    qed
  qed (use update_group.prems(2) in simp)
next
  case (delete_group db cats w gid)
  then show ?case using ok_delete_group[of newGCM key parse db gid] by (simp add: handleDeleteUpstreamGroup_def DeleteUpstreamGroup_def)
next
  case (add_member db cats w gid mbody)
  have "snd (handleAddGroupMember w db gid mbody) = db \<or> (\<exists>m. AddUpstreamGroupMember db (rw_up w ''AddUpstreamGroupMember'') m = Some (snd (handleAddGroupMember w db gid mbody)))"
    by (auto simp: handleAddGroupMember_def Let_def split: option.splits)
  then show ?case
  proof
    assume "\<exists>m. AddUpstreamGroupMember db (rw_up w ''AddUpstreamGroupMember'') m = Some (snd (handleAddGroupMember w db gid mbody))"
    then obtain m where m: "snd (handleAddGroupMember w db gid mbody) = db\<lparr>rd_members := rd_members db @ [m]\<rparr>"
        "mem_UpstreamGroupID m \<in> grp_ID ` set (rd_groups db)" "mem_UpstreamID m \<in> up_ID ` set (rd_upstreams db)"
        "\<forall>x \<in> set (rd_members db). \<not> (mem_UpstreamGroupID x = mem_UpstreamGroupID m \<and> mem_UpstreamID x = mem_UpstreamID m)"
      using AddUpstreamGroupMember_row by blast
    have old: "distinct (map (\<lambda>m. (mem_UpstreamGroupID m, mem_UpstreamID m)) (rd_members db))"
        "\<forall>m \<in> set (rd_members db). mem_UpstreamGroupID m \<in> grp_ID ` set (rd_groups db) \<and> mem_UpstreamID m \<in> up_ID ` set (rd_upstreams db)"
      using add_member.prems(2) by (simp_all add: routing_ok_def)
    have "routing_ok newGCM key parse (db\<lparr>rd_members := rd_members db @ [m]\<rparr>)"
    proof (rule ok_members)
      show "distinct (map (\<lambda>m. (mem_UpstreamGroupID m, mem_UpstreamID m)) (rd_members db @ [m]))" using old(1) m(4) by auto
    qed (use add_member.prems(2) old(2) m(2,3) in auto)
    then show ?thesis using m(1) by simp
  qed (use add_member.prems(2) in simp)
next
  case (remove_member db cats w gid uid)
  have "routing_ok newGCM key parse (db\<lparr>rd_members := filter (\<lambda>m. \<not> (mem_UpstreamGroupID m = gid \<and> mem_UpstreamID m = uid)) (rd_members db)\<rparr>)"
    using remove_member.prems(2) by (intro ok_members) (auto simp: routing_ok_def distinct_map_filter)
  then show ?case using remove_member.prems(2) by (simp add: handleRemoveGroupMember_def RemoveUpstreamGroupMember_def)
next
  case (create_route w db cats projects i rbody)
  have d: "distinct (map route_ID (rd_routes db))" using create_route.prems(2) by (simp add: routing_ok_def)
  then show ?case
    using create_route_effect[of w projects db "cats i" rbody] create_route.hyps create_route.prems(2) by (auto intro!: ok_routes)
next
  case (update_route db cats w projects i rid json)
  have d: "distinct (map route_ID (rd_routes db))" and c: "\<And>r. r \<in> set (rd_routes db) \<Longrightarrow> list_all IsValidClientBucket (route_Clients r)"
    using update_route.prems(2) by (simp_all add: routing_ok_def)
  have "snd (handleUpdateRoutingRoute w projects db (cats i) rid json) = db \<or>
    (\<exists>row. snd (handleUpdateRoutingRoute w projects db (cats i) rid json) = db\<lparr>rd_routes := map (\<lambda>x. if route_ID x = rid then row else x) (rd_routes db)\<rparr>
       \<and> route_row_ok db projects row \<and> route_ID row = rid \<and> list_all IsValidClientBucket (route_Clients row))"
    by (rule update_route_effect[OF c])
  then show ?case
  proof (elim disjE exE conjE)
    fix row assume row: "snd (handleUpdateRoutingRoute w projects db (cats i) rid json)
        = db\<lparr>rd_routes := map (\<lambda>x. if route_ID x = rid then row else x) (rd_routes db)\<rparr>" "route_row_ok db projects row" "route_ID row = rid"
        "list_all IsValidClientBucket (route_Clients row)"
    have "map route_ID (map (\<lambda>x. if route_ID x = rid then row else x) (rd_routes db)) = map route_ID (rd_routes db)" using row(3) by (intro map_replace_ids)
    then show ?thesis unfolding fst_conv row(1)
      using update_route.prems(2) d row(2,4) in_replaced[of _ route_ID rid row "rd_routes db"] by (intro ok_routes) (simp_all del: map_map, blast?)
  qed (use update_route.prems(2) in simp_all)
next
  case (delete_route db cats w rid)
  have "routing_ok newGCM key parse (db\<lparr>rd_routes := filter (\<lambda>r. route_ID r \<noteq> rid) (rd_routes db)\<rparr>)"
    using delete_route.prems(2) by (intro ok_routes) (auto simp: routing_ok_def distinct_map_filter)
  then show ?case using delete_route.prems(2) by (simp add: handleDeleteRoutingRoute_def DeleteRoute_def)
next
  case (write_keys db nss cats)
  have "\<And>ns. ns \<in> set nss \<Longrightarrow> set ns \<subseteq> names_of db" using write_keys.hyps by (simp add: list_all_iff in_catalog_iff)
  then show ?case using write_keys.prems(2) by (auto simp: routing_ok_def catalog_refs_def names_of_def)
qed (simp_all add: routing_ok_def catalog_refs_def names_of_def)

lemma routing_reachable_ok:
  assumes "(routing_step newGCM key parse)\<^sup>*\<^sup>* c c'" "aead_sound newGCM key" "routing_ok newGCM key parse (fst c)"
  shows "routing_ok newGCM key parse (fst c')"
  using assms by (induction rule: rtranclp_induct) (auto intro: routing_step_ok)

lemma no_routing_ok: "routing_ok newGCM key parse no_routing"
  by (simp add: routing_ok_def no_routing_def models_ok_def catalog_refs_def)

text \<open>C11: whatever requests the processes of the service handle, one after the other in whatever order and each with a catalog as
  stale as it may be, starting from empty tables: the names and aliases of the models never collide, every model that an upstream, a route or
  a key names is in the catalog table, members and routes only refer to groups and upstreams that exist, routes carry
  valid kinds and clients, and the outbound proxy of every upstream is usable.\<close>
theorem routing_always_well_formed:
  assumes "(routing_step newGCM key parse)\<^sup>*\<^sup>* (no_routing, cats) (db, cats')" "aead_sound newGCM key"
  shows "routing_ok newGCM key parse db"
  using routing_reachable_ok[OF assms] by (simp add: no_routing_ok)

definition sample_gcm :: "bytes \<Rightarrow> aead option" where
  "sample_gcm k = Some \<lparr>seal = (\<lambda>n p. p), unseal = (\<lambda>n c. Some c), nonceSize = 1\<rparr>"

lemma sample_gcm_sound: "aead_sound sample_gcm k"
  by (simp add: aead_sound_def sample_gcm_def)

lemma routing_always_well_formed_witness:
  "routing_ok sample_gcm [1] sample_parse (no_routing\<lparr>rd_models := [new_opus\<lparr>model_Status := ''active''\<rparr>]\<rparr>)"
proof -
  have "routing_step sample_gcm [1] sample_parse (no_routing, \<lambda>_. New [])
      (no_routing\<lparr>rd_models := [new_opus\<lparr>model_Status := ''active''\<rparr>]\<rparr>, (\<lambda>_. New [])(0 := Swap (New []) [new_opus\<lparr>model_Status := ''active''\<rparr>]))"
    by (rule routing_step.create_model[where up = "\<lambda>_. True" and body = "Some new_opus"]) (simp add: create_opus)
  from routing_always_well_formed[OF r_into_rtranclp[of "routing_step sample_gcm [1] sample_parse", OF this] sample_gcm_sound] show ?thesis .
qed

section \<open>What a reload makes of the rows\<close>

lemma foldl_upd_None: "foldl (\<lambda>m x. m(k x \<mapsto> f x)) m0 xs i = None \<longleftrightarrow> m0 i = None \<and> i \<notin> k ` set xs"
  by (induction xs arbitrary: m0) auto

lemma foldl_upd_distinct:
  assumes "distinct (map k xs)" "x \<in> set xs"
  shows "foldl (\<lambda>m x. m(k x \<mapsto> f x)) m0 xs (k x) = Some (f x)"
  using assms
proof (induction xs arbitrary: m0)
  case Nil then show ?case by simp
next
  case (Cons a xs)
  show ?case
  proof (cases "x \<in> set xs")
    case True then show ?thesis using Cons by simp
  next
    case False
    then have x: "x = a" using Cons.prems(2) by simp
    have keep: "foldl (\<lambda>m x. m(k x \<mapsto> f x)) m xs i = m i" if "i \<notin> k ` set xs" for m i
      using that by (induction xs arbitrary: m) auto
    show ?thesis using Cons.prems(1) x keep[of "k a" "m0(k a \<mapsto> f a)"] by (simp add: fun_upd_def)
  qed
qed

lemma Reload_maps:
  "rt_upstreams (Reload decrypt r us gs rts key) = foldl (\<lambda>m u. m(up_ID u \<mapsto> u)) Map.empty us"
  "rt_groups (Reload decrypt r us gs rts key) = foldl (\<lambda>m (g, ms). m(grp_ID g \<mapsto>
     \<lparr>rg_group = g, rg_members = resolve_members (foldl (\<lambda>m u. m(up_ID u \<mapsto> u)) Map.empty us) ms\<rparr>)) Map.empty gs"
  "rt_routes (Reload decrypt r us gs rts key) = sort_key (\<lambda>rt. - route_MatchPriority rt) rts"
  by (simp_all add: Reload_def buildMaps_def Let_def)

lemma Reload_group_None: "rt_groups (Reload decrypt r us gs rts key) i = None \<longleftrightarrow> i \<notin> (\<lambda>x. grp_ID (fst x)) ` set gs"
  unfolding Reload_maps case_prod_unfold foldl_upd_None by simp

lemma scan_all_Some: "scan_all rs = Some xs \<Longrightarrow> map Some xs = map scanRoute rs"
  by (induction rs arbitrary: xs) (auto split: option.splits)

lemma scan_all_None: "scan_all rs = None \<longleftrightarrow> (\<exists>r \<in> set rs. rr_Group r = None)"
  by (induction rs) (auto simp: scanRoute_def split: option.splits)

lemma ListRoutes_None: "ListRoutes db True = None \<longleftrightarrow> (\<exists>r \<in> set (rd_routes db). rr_Group r = None)"
  by (simp add: ListRoutes_def scan_all_None)

lemma scanned_route:
  assumes "scan_all rs = Some xs" "x \<in> set xs"
  shows "\<exists>r \<in> set rs. rr_Group r = Some (route_UpstreamGroupID x) \<and> route_ModelNames x = route_ModelNames r"
proof -
  have "Some x \<in> set (map Some xs)" using assms(2) by simp
  then obtain r where "r \<in> set rs" "scanRoute r = Some x" unfolding scan_all_Some[OF assms(1)] by auto
  then show ?thesis by (auto simp: scanRoute_def Route.defs split: option.splits intro!: bexI[of _ r])
qed

text \<open>A route whose group is gone stops every reload: neither the router nor the catalog sees any change of the rows until
  the route is given a group again.\<close>
lemma lost_group_blocks_reload:
  assumes "r0 \<in> set (rd_routes (dbs ! 3))" "rr_Group r0 = None"
  shows "reload_round decrypt encKey up dbs r cat = (r, cat)"
proof -
  have "ListRoutes (dbs ! 3) (up ''ListRoutes'') = None"
    using ListRoutes_None[of "dbs ! 3"] assms by (cases "up ''ListRoutes''") (auto simp: ListRoutes_def)
  then show ?thesis by (simp add: reload_round_def split: option.split)
qed

lemma deleting_group_blocks_reload:
  assumes "r0 \<in> set (rd_routes db)" "rr_Group r0 = Some g" "rw_up w ''DeleteUpstreamGroup''"
  shows "handleDeleteUpstreamGroup w db g = (Success 204 (), snd (handleDeleteUpstreamGroup w db g))
    \<and> reload_round decrypt encKey up (replicate 5 (snd (handleDeleteUpstreamGroup w db g))) r cat = (r, cat)"
proof -
  let ?db = "snd (handleDeleteUpstreamGroup w db g)"
  have "r0\<lparr>rr_Group := None\<rparr> \<in> set (rd_routes ?db)" using assms by (force simp: handleDeleteUpstreamGroup_def DeleteUpstreamGroup_def)
  then have "reload_round decrypt encKey up (replicate 5 ?db) r cat = (r, cat)"
    by (intro lost_group_blocks_reload[where ?r0.0 = "r0\<lparr>rr_Group := None\<rparr>"]) (simp_all del: replicate.simps)
  then show ?thesis using assms(3) by (simp add: handleDeleteUpstreamGroup_def DeleteUpstreamGroup_def)
qed

text \<open>The same follows from a change of the route that sets its group to null, which the handler passes on.\<close>
lemma null_group_accepted: "route_updates cat [''upstream_group_id'' \<mapsto> VNull] = Inr (no_route_patch\<lparr>tp_Group := Some VNull\<rparr>)"
  by (simp add: route_updates_def strings_member_def no_route_patch_def)

lemma canonical_resolves:
  assumes "models_ok (rd_models db)" "n \<in> names_of db"
  shows "\<exists>x. snd (Lookup (Swap cat (sort_key model_Name (rd_models db))) n) = Some x \<and> model_Name x = n"
proof -
  have cf: "collision_free (sort_key model_Name (rd_models db))" using assms(1) models_ok_collision_free models_ok_sorted by blast
  from assms(2) obtain x where x: "x \<in> set (rd_models db)" "model_Name x = n" by (auto simp: names_of_def)
  then have "to_lower n = n" using assms(1) by (auto simp: models_ok_def model_names_def legal_lower)
  moreover have "n \<in> row_keys x" using models_ok_row_keys[OF assms(1) x(1)] x(2) by (simp add: model_names_def)
  ultimately show ?thesis using lookup_after_swap[OF cf, of cat "[]" n x] x by auto
qed

lemma reloaded_upstream:
  fixes us :: "UpstreamRow list"
  assumes "distinct (map up_ID us)" "u \<in> set us"
  shows "rt_upstreams (Reload decrypt r (map Upstream.truncate (sort_key up_Name us)) gs rts key) (up_ID u) = Some (Upstream.truncate u)"
proof -
  let ?us = "map Upstream.truncate (sort_key up_Name us)"
  have id: "up_ID (Upstream.truncate x) = up_ID x" for x :: UpstreamRow by (simp add: Upstream.defs)
  have "distinct (map up_ID (sort_key up_Name us))" using assms(1) by (metis mset_eq_imp_distinct_iff mset_map mset_sort)
  then have "distinct (map up_ID ?us)" by (simp add: comp_def id)
  moreover have "Upstream.truncate u \<in> set ?us" using assms(2) by simp
  ultimately show ?thesis using foldl_upd_distinct[of up_ID ?us "Upstream.truncate u" "\<lambda>u. u" Map.empty] by (simp add: Reload_maps id)
qed


definition sample_world :: routing_world where
  "sample_world = \<lparr>rw_up = (\<lambda>_. True), rw_newGCM = sample_gcm, rw_rand = (\<lambda>n. Some (replicate n 0)), rw_rand2 = (\<lambda>n. Some (replicate n 0)), rw_key = [1],
     rw_parse = sample_parse, rw_driver = \<lparr>pg_text = (\<lambda>_. None), pg_int = (\<lambda>_. None), pg_strings = (\<lambda>_. Map.empty)\<rparr>, rw_retry = (\<lambda>_. None), rw_newID = ''id''\<rparr>"

definition opus_row :: Model where "opus_row = new_opus\<lparr>model_Status := ''active''\<rparr>"

definition group_row :: UpstreamGroup where
  "group_row = \<lparr>grp_ID = ''id'', grp_Name = ''g'', grp_LBPolicy = ''weighted_random'', grp_RetryPolicy = Some zero_retry, grp_Status = ''active''\<rparr>"

definition opus_route :: "string \<Rightarrow> Route" where
  "opus_route name = \<lparr>route_ID = '''', route_ProjectID = '''', route_ModelNames = [name], route_RequestKinds = [''anthropic_messages''], route_Clients = [],
     route_UpstreamGroupID = ''id'', route_MatchPriority = 0, route_Conditions = Map.empty, route_Status = ''''\<rparr>"

definition route_row :: RouteRow where
  "route_row = Route.extend ((opus_route ''opus'')\<lparr>route_ID := ''id'', route_Status := ''active''\<rparr>) (RouteRow.fields (Some ''id''))"

definition opus_db :: routing_db where "opus_db = no_routing\<lparr>rd_models := [opus_row], rd_groups := [group_row]\<rparr>"

lemma opus_create_group:
  "snd (handleCreateUpstreamGroup sample_world (no_routing\<lparr>rd_models := [opus_row]\<rparr>)
     (Some \<lparr>gb_Name = ''g'', gb_LBPolicy = '''', gb_RetryPolicy = None, gb_Status = ''''\<rparr>)) = opus_db"
  by (simp add: handleCreateUpstreamGroup_def CreateUpstreamGroup_def sample_world_def opus_db_def no_routing_def group_row_def the_or_def)

lemma opus_create_route:
  "handleCreateRoutingRoute sample_world (\<lambda>_. False) opus_db (Swap (New []) [opus_row]) (Some (opus_route ''BEST''))
     = (Success 201 ((opus_route ''opus'')\<lparr>route_ID := ''id'', route_Status := ''active''\<rparr>), opus_db\<lparr>rd_routes := [route_row]\<rparr>)"
proof -
  have l: "to_lower ''BEST'' = ''best''" "to_lower ''best'' = ''best''" "to_lower ''opus'' = ''opus''" by code_simp+
  have n: "NormalizeNames (Swap (New []) [opus_row]) [''BEST''] = Inr [''opus'']"
    using l by (simp add: NormalizeNames_def Swap_def index_row_def opus_row_def new_opus_def sample_model_def)
  have k: "IsValidRequestKind ''anthropic_messages''" by code_simp
  have d: "map model_Name (rd_models opus_db) = [''opus'']" "map grp_ID (rd_groups opus_db) = [''id'']" "rd_routes opus_db = []"
    by (simp_all add: opus_db_def no_routing_def opus_row_def new_opus_def sample_model_def group_row_def)
  have "CreateRoute opus_db (rw_up sample_world ''CreateRoute'') (\<lambda>_. False) (rw_newID sample_world)
      ((opus_route ''opus'')\<lparr>route_Status := ''active''\<rparr>)
    = Some ((opus_route ''opus'')\<lparr>route_ID := ''id'', route_Status := ''active''\<rparr>, opus_db\<lparr>rd_routes := [route_row]\<rparr>)"
    using k by (simp add: CreateRoute_def route_row_def route_row_ok_def assert_model_names_in_catalog_def d sample_world_def opus_route_def
        Route.defs RouteRow.defs int4_def)
  then show ?thesis
    using k n by (simp add: handleCreateRoutingRoute_def opus_route_def)
qed

lemma opus_reachable:
  "(routing_step sample_gcm [1] sample_parse)\<^sup>*\<^sup>* (no_routing, \<lambda>_. New [])
     (opus_db\<lparr>rd_routes := [route_row]\<rparr>, (\<lambda>_. New [])(0 := Swap (New []) [opus_row]))"
proof -
  let ?R = "routing_step sample_gcm [1] sample_parse" and ?c = "(\<lambda>_. New [])(0 := Swap (New []) [opus_row]) :: nat \<Rightarrow> catalog"
  have "?R (no_routing, \<lambda>_. New []) (no_routing\<lparr>rd_models := [opus_row]\<rparr>, ?c)"
    by (rule routing_step.create_model[where up = "\<lambda>_. True" and body = "Some new_opus"]) (simp add: create_opus opus_row_def)
  moreover have "?R (no_routing\<lparr>rd_models := [opus_row]\<rparr>, ?c) (opus_db, ?c)"
    using routing_step.create_group[of sample_world "no_routing\<lparr>rd_models := [opus_row]\<rparr>" sample_gcm "[1]" sample_parse ?c
      "Some \<lparr>gb_Name = ''g'', gb_LBPolicy = '''', gb_RetryPolicy = None, gb_Status = ''''\<rparr>"] opus_create_group
    by (simp add: no_routing_def)
  moreover have "?R (opus_db, ?c) (opus_db\<lparr>rd_routes := [route_row]\<rparr>, ?c)"
    using routing_step.create_route[of sample_world opus_db sample_gcm "[1]" sample_parse ?c "\<lambda>_. False" 0 "Some (opus_route ''BEST'')"] opus_create_route
    by (simp add: opus_db_def no_routing_def)
  ultimately show ?thesis by (meson converse_rtranclp_into_rtranclp r_into_rtranclp)
qed


text \<open>An upstream cannot be created without supported models: the statement fails, and the answer is 500.\<close>
lemma upstream_needs_models:
  assumes "body = Some b" "ub_SupportedModels b = []"
  shows "snd (handleCreateUpstream w db cat body) = db \<and> (\<forall>u. fst (handleCreateUpstream w db cat body) \<noteq> Success 201 u)"
  using assms by (auto simp: handleCreateUpstream_def CreateUpstream_def NormalizeNames_def body_upstream_def split: sum.split)

section \<open>Created routes match\<close>

text \<open>C13: a route created with any spelling of model names (aliases, any letter case) matches the requests it is meant for: a
  request whose model resolves, through the same catalog, to the row that one of the given names resolves to, with a kind
  and client the route was created for, matches the route that is answered and that the database holds.\<close>
theorem created_route_matches:
  assumes "handleCreateRoutingRoute w projects db cat (Some b) = (Success 201 r, db')"
    and "raw \<in> set (route_ModelNames b)" "snd (Lookup cat raw) = Some m" "snd (Lookup cat asked) = Some m"
    and "kind \<in> set (route_RequestKinds b)" "route_Clients b = [] \<or> client \<in> set (route_Clients b)" "route_Status b = '''' \<or> route_Status b = ''active''"
  shows "matchesGlobalRoute r (route_ProjectID b) (model_Name m) kind client \<and> route_ID r = rw_newID w
    \<and> (\<exists>row. rd_routes db' = rd_routes db @ [row] \<and> scanRoute row = Some r)"
proof -
  obtain cs where cs: "NormalizeNames cat (route_ModelNames b) = Inr cs"
      "CreateRoute db (rw_up w ''CreateRoute'') projects (rw_newID w)
                  (b\<lparr>route_ID := '''', route_ModelNames := cs, route_Status := (if route_Status b = '''' then ''active'' else route_Status b)\<rparr>) = Some (r, db')"
    using assms(1) unfolding handleCreateRoutingRoute_def by (auto split: sum.splits option.splits if_splits)
  have "index cat (to_lower raw) = Some m" using assms(3) by simp
  then have "model_Name m \<in> set cs"
    using cs(1) assms(2) by (force simp: NormalizeNames_def Let_def split: if_splits)
  then show ?thesis
    using scanRoute_row[OF cs(2)] assms(5-7) by (auto simp: matchesGlobalRoute_def)
qed

lemma created_route_matches_witness:
  "matchesGlobalRoute ((opus_route ''opus'')\<lparr>route_ID := ''id'', route_Status := ''active''\<rparr>) '''' ''opus'' ''anthropic_messages'' ''other''"
proof -
  have l: "to_lower ''BEST'' = ''best''" "to_lower ''best'' = ''best''" "to_lower ''opus'' = ''opus''" by code_simp+
  have "snd (Lookup (Swap (New []) [opus_row]) ''BEST'') = Some opus_row" "snd (Lookup (Swap (New []) [opus_row]) ''opus'') = Some opus_row"
    using l by (simp_all add: Swap_def index_row_def opus_row_def new_opus_def sample_model_def)
  from created_route_matches[OF opus_create_route _ this, of "''anthropic_messages''" "''other''"] show ?thesis
    by (simp add: opus_route_def opus_row_def new_opus_def sample_model_def sample_world_def)
qed

end
