(* ===== verification/HttpLog.thy ===== *)
theory HttpLog
  imports CatalogAdmin Headers RequestLog GoText GoTime
begin

text \<open>
  The HTTP log (httplog/*.go): the reader that keeps a copy of a streamed answer, the reassembly of the event streams
  of the three protocols into the answer they stand for, the document that is stored with its redacted headers, and the
  logger, whose queue and workers upload documents to a bucket and write their paths into the request rows. What
  encoding/json makes of a text, and of a value, is a parameter; the object storage is a map that may fail.
\<close>

section \<open>JSON\<close>

type_synonym json_members = "(string \<times> jval) list"

text \<open>The usage of an Anthropic message, the parts of its events (sse* of reassemble.go) and the message put together.\<close>
record sseUsage =
  hu_InputTokens :: int
  hu_OutputTokens :: int
  hu_CacheCreationInputTokens :: int
  hu_CacheReadInputTokens :: int

record sseMessage =
  hm_ID :: string
  hm_Model :: string
  hm_Role :: string
  hm_Usage :: sseUsage

record sseBlock =
  hb_Type :: string
  hb_ID :: string
  hb_Name :: string

record sseDelta =
  hd_Type :: string
  hd_Text :: string
  hd_PartialJSON :: string
  hd_Thinking :: string
  hd_StopReason :: string

record sseEvent =
  he_Type :: string
  he_Message :: "sseMessage option"
  he_ContentBlock :: "sseBlock option"
  he_Delta :: "sseDelta option"
  he_Usage :: sseUsage

text \<open>A member of a content block: a decoded value, or text that is passed on as JSON.\<close>
datatype block_value = Decoded jval | RawMessage string

record reassembledMessage =
  rm_ID :: string
  rm_Type :: string
  rm_Role :: string
  rm_Content :: "(string \<times> block_value) list list"
  rm_Model :: string
  rm_StopReason :: string
  rm_Usage :: sseUsage

text \<open>The chunks of the chat completions API.\<close>
record chatToolCall =
  ht_Index :: int
  ht_ID :: string
  ht_Type :: string
  ht_Name :: string
  ht_Arguments :: string

record chatChoice =
  hc_Index :: int
  hc_Role :: string
  hc_Content :: string
  hc_ToolCalls :: "chatToolCall list"
  hc_FinishReason :: "string option"

record chatUsage =
  cu_PromptTokens :: int
  cu_CompletionTokens :: int
  cu_TotalTokens :: int
  cu_PromptTokensDetails :: json_members
  cu_CompletionTokensDetails :: json_members

record chatChunk =
  hk_ID :: string
  hk_Model :: string
  hk_Object :: string
  hk_SystemFingerprint :: string
  hk_Choices :: "chatChoice list"
  hk_Usage :: "chatUsage option"

text \<open>A value that is put together to be marshalled; the order of the members of an object does not matter, as json.Marshal
  sorts them.\<close>
datatype json_out = OVal jval | OInt int | OArr "json_out list" | OObj "(string \<times> json_out) list"

text \<open>encoding/json: what a text is decoded to as each of the types above, as the type member alone (empty when there is none), as the
  members response, output_index with item, and output_index with delta, and as any value; whether a text is valid JSON; and
  the texts of values.\<close>
record http_json =
  hj_event :: "string \<Rightarrow> sseEvent option"
  hj_chunk :: "string \<Rightarrow> chatChunk option"
  hj_type :: "string \<Rightarrow> string"
  hj_response :: "string \<Rightarrow> json_members option option"
  hj_item :: "string \<Rightarrow> (int \<times> json_members option) option"
  hj_delta :: "string \<Rightarrow> (int \<times> string) option"
  hj_any :: "string \<Rightarrow> jval option"
  hj_valid :: "string \<Rightarrow> bool"
  hj_message :: "reassembledMessage \<Rightarrow> string"
  hj_out :: "json_out \<Rightarrow> string"
  hj_string :: "string \<Rightarrow> string"

section \<open>Lines (lineScanner)\<close>

text \<open>The lines that Scan yields: without their newline; a last line without one is a line unless it is empty.\<close>
function scan_lines :: "string \<Rightarrow> string list" where
  "scan_lines data =
     (if data = '''' then []
      else takeWhile (\<lambda>c. c \<noteq> CHR 0x0A) data # scan_lines (drop 1 (dropWhile (\<lambda>c. c \<noteq> CHR 0x0A) data)))"
  by pat_completeness auto
termination
proof (relation "measure length")
  fix data :: string assume "data \<noteq> ''''"
  then show "(drop 1 (dropWhile (\<lambda>c. c \<noteq> CHR 0x0A) data), data) \<in> measure length"
    using length_dropWhile_le[of "\<lambda>c. c \<noteq> CHR 0x0A" data] by (cases data) auto
qed simp

declare scan_lines.simps [simp del]

section \<open>Anthropic messages (reassemble.go)\<close>

record contentBlock =
  cb_Type :: string
  cb_ID :: string
  cb_Name :: string
  cb_textBuf :: string
  cb_jsonBuf :: string

definition finalize :: "http_json \<Rightarrow> contentBlock \<Rightarrow> (string \<times> block_value) list" where
  "finalize js b = (''type'', Decoded (VStr (cb_Type b))) #
     (if cb_Type b = ''text'' then [(''text'', Decoded (VStr (cb_textBuf b)))]
      else if cb_Type b = ''thinking'' then [(''thinking'', Decoded (VStr (cb_textBuf b)))]
      else if cb_Type b = ''tool_use'' then
        [(''id'', Decoded (VStr (cb_ID b))), (''name'', Decoded (VStr (cb_Name b))),
         (''input'', case hj_any js (cb_jsonBuf b) of Some v \<Rightarrow> Decoded v | None \<Rightarrow> RawMessage (cb_jsonBuf b))]
      else [])"

definition no_usage :: sseUsage where
  "no_usage = \<lparr>hu_InputTokens = 0, hu_OutputTokens = 0, hu_CacheCreationInputTokens = 0, hu_CacheReadInputTokens = 0\<rparr>"

definition empty_message :: reassembledMessage where
  "empty_message = \<lparr>rm_ID = '''', rm_Type = ''message'', rm_Role = ''assistant'', rm_Content = [], rm_Model = '''', rm_StopReason = '''',
     rm_Usage = no_usage\<rparr>"

text \<open>The payload of a line, unless it is none or the end marker.\<close>
definition anthropic_payload :: "string \<Rightarrow> string option" where
  "anthropic_payload raw =
     (let line = trim_space raw in
      if \<not> has_prefix line ''data: '' then None
      else let data = drop 6 line in if data = ''[DONE]'' then None else Some data)"

type_synonym anthropic_state = "reassembledMessage \<times> contentBlock option"

text \<open>The switch over the event's type, with the message and the current block.\<close>
definition anthropic_event :: "http_json \<Rightarrow> sseEvent \<Rightarrow> anthropic_state \<Rightarrow> anthropic_state" where
  "anthropic_event js evt = (\<lambda>(msg, cur).
     if he_Type evt = ''message_start'' then
       (case he_Message evt of None \<Rightarrow> (msg, cur)
        | Some m \<Rightarrow>
            (msg\<lparr>rm_ID := hm_ID m, rm_Model := hm_Model m, rm_Role := (if hm_Role m \<noteq> '''' then hm_Role m else rm_Role msg),
                 rm_Usage := (rm_Usage msg)\<lparr>hu_InputTokens := hu_InputTokens (hm_Usage m),
                   hu_CacheCreationInputTokens := hu_CacheCreationInputTokens (hm_Usage m),
                   hu_CacheReadInputTokens := hu_CacheReadInputTokens (hm_Usage m)\<rparr>\<rparr>, cur))
     else if he_Type evt = ''content_block_start'' then
       (case he_ContentBlock evt of None \<Rightarrow> (msg, cur)
        | Some b \<Rightarrow>
            (msg, Some (if hb_Type b = ''tool_use''
                        then \<lparr>cb_Type = hb_Type b, cb_ID = hb_ID b, cb_Name = hb_Name b, cb_textBuf = '''', cb_jsonBuf = ''''\<rparr>
                        else \<lparr>cb_Type = hb_Type b, cb_ID = '''', cb_Name = '''', cb_textBuf = '''', cb_jsonBuf = ''''\<rparr>)))
     else if he_Type evt = ''content_block_delta'' then
       (case (cur, he_Delta evt) of
          (Some b, Some d) \<Rightarrow>
            (msg, Some (if hd_Type d = ''text_delta'' then b\<lparr>cb_textBuf := cb_textBuf b @ hd_Text d\<rparr>
                        else if hd_Type d = ''input_json_delta'' then b\<lparr>cb_jsonBuf := cb_jsonBuf b @ hd_PartialJSON d\<rparr>
                        else if hd_Type d = ''thinking_delta'' then b\<lparr>cb_textBuf := cb_textBuf b @ hd_Thinking d\<rparr>
                        else b))
        | _ \<Rightarrow> (msg, cur))
     else if he_Type evt = ''content_block_stop'' then
       (case cur of None \<Rightarrow> (msg, cur) | Some b \<Rightarrow> (msg\<lparr>rm_Content := rm_Content msg @ [finalize js b]\<rparr>, None))
     else if he_Type evt = ''message_delta'' then
       (let msg1 = (case he_Delta evt of None \<Rightarrow> msg | Some d \<Rightarrow> msg\<lparr>rm_StopReason := hd_StopReason d\<rparr>)
        in (msg1\<lparr>rm_Usage := (rm_Usage msg1)\<lparr>hu_OutputTokens := hu_OutputTokens (he_Usage evt)\<rparr>\<rparr>, cur))
     else (msg, cur))"

definition anthropic_sse_line :: "http_json \<Rightarrow> anthropic_state \<Rightarrow> string \<Rightarrow> anthropic_state" where
  "anthropic_sse_line js st line =
     (case anthropic_payload line of None \<Rightarrow> st
      | Some data \<Rightarrow> (case hj_event js data of None \<Rightarrow> st | Some evt \<Rightarrow> anthropic_event js evt st))"

text \<open>json.Marshal of the message: text that is passed on must be valid JSON.\<close>
definition marshal_message :: "http_json \<Rightarrow> reassembledMessage \<Rightarrow> string option" where
  "marshal_message js msg =
     (if list_all (list_all (\<lambda>(k, v). case v of RawMessage s \<Rightarrow> hj_valid js s | Decoded _ \<Rightarrow> True)) (rm_Content msg)
      then Some (hj_message js msg) else None)"

definition ReassembleAnthropicSSE :: "http_json \<Rightarrow> string \<Rightarrow> string option" where
  "ReassembleAnthropicSSE js sseData = marshal_message js (fst (foldl (anthropic_sse_line js) (empty_message, None) (scan_lines sseData)))"

section \<open>Chat completions (reassemble_openai.go)\<close>

record toolCall =
  tl_id :: string
  tl_typ :: string
  tl_name :: string
  tl_argsBuf :: string

record choiceState =
  ch_role :: string
  ch_contentBuf :: string
  ch_finishReason :: string
  ch_toolCalls :: "(int \<times> toolCall) list"

record chat_state =
  cs_id :: string
  cs_model :: string
  cs_systemFingerprint :: string
  cs_choices :: "(int \<times> choiceState) list"
  cs_usage :: "chatUsage option"
  cs_sawAny :: bool

definition new_toolCall :: toolCall where "new_toolCall = \<lparr>tl_id = '''', tl_typ = '''', tl_name = '''', tl_argsBuf = ''''\<rparr>"

definition new_choice :: choiceState where
  "new_choice = \<lparr>ch_role = '''', ch_contentBuf = '''', ch_finishReason = '''', ch_toolCalls = []\<rparr>"

definition unless_empty :: "string \<Rightarrow> string \<Rightarrow> string" where "unless_empty v old = (if v \<noteq> '''' then v else old)"

definition chat_tool :: "toolCall \<Rightarrow> chatToolCall \<Rightarrow> toolCall" where
  "chat_tool tc d = tc\<lparr>tl_id := unless_empty (ht_ID d) (tl_id tc), tl_typ := unless_empty (ht_Type d) (tl_typ tc),
     tl_name := unless_empty (ht_Name d) (tl_name tc), tl_argsBuf := tl_argsBuf tc @ ht_Arguments d\<rparr>"

text \<open>What is kept under an index is created on first use.\<close>
definition at_index :: "('a \<Rightarrow> 'a) \<Rightarrow> 'a \<Rightarrow> int \<Rightarrow> (int \<times> 'a) list \<Rightarrow> (int \<times> 'a) list" where
  "at_index f new i m = alist_set i (f (the_or new (map_of m i))) m"

definition chat_delta :: "choiceState \<Rightarrow> chatChoice \<Rightarrow> choiceState" where
  "chat_delta c d = c\<lparr>ch_role := unless_empty (hc_Role d) (ch_role c), ch_contentBuf := ch_contentBuf c @ hc_Content d,
     ch_finishReason := unless_empty (the_or '''' (hc_FinishReason d)) (ch_finishReason c),
     ch_toolCalls := foldl (\<lambda>m t. at_index (\<lambda>tc. chat_tool tc t) new_toolCall (ht_Index t) m) (ch_toolCalls c) (hc_ToolCalls d)\<rparr>"

definition chat_choice :: "(int \<times> choiceState) list \<Rightarrow> chatChoice \<Rightarrow> (int \<times> choiceState) list" where
  "chat_choice m d = at_index (\<lambda>c. chat_delta c d) new_choice (hc_Index d) m"

definition chat_start :: chat_state where
  "chat_start = \<lparr>cs_id = '''', cs_model = '''', cs_systemFingerprint = '''', cs_choices = [], cs_usage = None, cs_sawAny = False\<rparr>"

definition data_payload :: "string \<Rightarrow> string option" where
  "data_payload line =
     (if \<not> has_prefix line ''data:'' then None
      else let data = trim_space (drop 5 line) in if data = ''[DONE]'' \<or> data = '''' then None else Some data)"

definition chat_event :: "chatChunk \<Rightarrow> chat_state \<Rightarrow> chat_state" where
  "chat_event evt s =
     (if hk_Object evt = '''' \<and> hk_Choices evt = [] \<and> hk_Usage evt = None then s
      else s\<lparr>cs_sawAny := True, cs_id := unless_empty (hk_ID evt) (cs_id s), cs_model := unless_empty (hk_Model evt) (cs_model s),
             cs_systemFingerprint := unless_empty (hk_SystemFingerprint evt) (cs_systemFingerprint s),
             cs_usage := (case hk_Usage evt of None \<Rightarrow> cs_usage s | Some u \<Rightarrow> Some u),
             cs_choices := foldl chat_choice (cs_choices s) (hk_Choices evt)\<rparr>)"

definition chat_sse_line :: "http_json \<Rightarrow> chat_state \<Rightarrow> string \<Rightarrow> chat_state" where
  "chat_sse_line js s line =
     (case data_payload (trim_space line) of None \<Rightarrow> s
      | Some data \<Rightarrow> (case hj_chunk js data of None \<Rightarrow> s | Some evt \<Rightarrow> chat_event evt s))"

definition firstNonEmpty :: "string \<Rightarrow> string \<Rightarrow> string" where "firstNonEmpty a b = (if a \<noteq> '''' then a else b)"

definition in_order :: "(int \<times> 'a) list \<Rightarrow> (int \<times> 'a) list" where
  "in_order m = map (\<lambda>i. (i, the (map_of m i))) (sort (map fst m))"

definition tool_out :: "toolCall \<Rightarrow> json_out" where
  "tool_out tc = OObj [(''id'', OVal (VStr (tl_id tc))), (''type'', OVal (VStr (firstNonEmpty (tl_typ tc) ''function''))),
     (''function'', OObj [(''name'', OVal (VStr (tl_name tc))), (''arguments'', OVal (VStr (tl_argsBuf tc)))])]"

definition choice_out :: "int \<times> choiceState \<Rightarrow> json_out" where
  "choice_out = (\<lambda>(i, c). OObj [(''index'', OInt i),
     (''message'', OObj ([(''role'', OVal (VStr (firstNonEmpty (ch_role c) ''assistant''))), (''content'', OVal (VStr (ch_contentBuf c)))] @
        (if ch_toolCalls c = [] then [] else [(''tool_calls'', OArr (map (\<lambda>(k, tc). tool_out tc) (in_order (ch_toolCalls c))))]))),
     (''finish_reason'', OVal (VStr (ch_finishReason c)))])"

text \<open>The usage structure; empty details are omitted.\<close>
definition usage_out :: "chatUsage \<Rightarrow> json_out" where
  "usage_out u = OObj ([(''prompt_tokens'', OInt (cu_PromptTokens u)), (''completion_tokens'', OInt (cu_CompletionTokens u)),
      (''total_tokens'', OInt (cu_TotalTokens u))]
     @ (if cu_PromptTokensDetails u = [] then [] else [(''prompt_tokens_details'', OVal (VObj (cu_PromptTokensDetails u)))])
     @ (if cu_CompletionTokensDetails u = [] then [] else [(''completion_tokens_details'', OVal (VObj (cu_CompletionTokensDetails u)))]))"

definition ReassembleOpenAIChatCompletionsSSE :: "http_json \<Rightarrow> string \<Rightarrow> string option" where
  "ReassembleOpenAIChatCompletionsSSE js sseData =
     (let s = foldl (chat_sse_line js) chat_start (scan_lines sseData) in
      if \<not> cs_sawAny s then None
      else Some (hj_out js (OObj ([(''id'', OVal (VStr (cs_id s))), (''model'', OVal (VStr (cs_model s))), (''object'', OVal (VStr ''chat.completion''))]
        @ (if cs_systemFingerprint s = '''' then [] else [(''system_fingerprint'', OVal (VStr (cs_systemFingerprint s)))])
        @ [(''choices'', OArr (map choice_out (in_order (cs_choices s))))]
        @ (case cs_usage s of None \<Rightarrow> [] | Some u \<Rightarrow> [(''usage'', usage_out u)])))))"

section \<open>Responses (reassemble_openai.go)\<close>

record outputItem =
  oi_raw :: "json_members option"
  oi_textBuf :: string
  oi_reasoningTextBuf :: string
  oi_reasoningSummaryBuf :: string
  oi_argsBuf :: string
  oi_typ :: string

definition new_item :: outputItem where
  "new_item = \<lparr>oi_raw = None, oi_textBuf = '''', oi_reasoningTextBuf = '''', oi_reasoningSummaryBuf = '''', oi_argsBuf = '''', oi_typ = ''''\<rparr>"

record resp_state =
  rs_items :: "(int \<times> outputItem) list"
  rs_respID :: string
  rs_model :: string
  rs_status :: string
  rs_usage :: "json_members option"
  rs_envelope :: "json_members option"
  rs_sawAny :: bool
  rs_currentEvent :: string

definition resp_start :: resp_state where
  "resp_start = \<lparr>rs_items = [], rs_respID = '''', rs_model = '''', rs_status = '''', rs_usage = None, rs_envelope = None,
     rs_sawAny = False, rs_currentEvent = ''''\<rparr>"

definition string_at :: "json_members \<Rightarrow> string \<Rightarrow> string \<Rightarrow> string" where
  "string_at m k old = (case map_of m k of Some (VStr s) \<Rightarrow> s | _ \<Rightarrow> old)"

definition put_raw :: "json_members \<Rightarrow> outputItem \<Rightarrow> outputItem" where
  "put_raw m it = it\<lparr>oi_raw := Some m, oi_typ := string_at m ''type'' (oi_typ it)\<rparr>"

text \<open>The items of a terminal event's output, in place of those collected; an element that is no object leaves its index out.\<close>
fun output_items :: "int \<Rightarrow> jval list \<Rightarrow> (int \<times> outputItem) list" where
  "output_items i [] = []"
| "output_items i (raw # out) =
     (case raw of VObj m \<Rightarrow> (i, put_raw m new_item) # output_items (i + 1) out | _ \<Rightarrow> output_items (i + 1) out)"

definition resp_delta :: "http_json \<Rightarrow> string \<Rightarrow> (string \<Rightarrow> outputItem \<Rightarrow> outputItem) \<Rightarrow> resp_state \<Rightarrow> resp_state" where
  "resp_delta js data put s =
     (case hj_delta js data of None \<Rightarrow> s | Some (i, delta) \<Rightarrow> s\<lparr>rs_items := at_index (put delta) new_item i (rs_items s)\<rparr>)"

text \<open>The switch over the name of the event.\<close>
definition resp_event :: "http_json \<Rightarrow> string \<Rightarrow> string \<Rightarrow> resp_state \<Rightarrow> resp_state" where
  "resp_event js name data s =
     (if List.member [''response.created'', ''response.in_progress''] name then
        (case hj_response js data of Some (Some r) \<Rightarrow>
            s\<lparr>rs_sawAny := True, rs_respID := string_at r ''id'' (rs_respID s), rs_model := string_at r ''model'' (rs_model s), rs_envelope := Some r\<rparr>
         | _ \<Rightarrow> s\<lparr>rs_sawAny := True\<rparr>)
      else if name = ''response.output_item.added'' then
        (case hj_item js data of Some (i, Some m) \<Rightarrow> s\<lparr>rs_sawAny := True, rs_items := at_index (put_raw m) new_item i (rs_items s)\<rparr>
         | _ \<Rightarrow> s\<lparr>rs_sawAny := True\<rparr>)
      else if name = ''response.output_text.delta'' then
        resp_delta js data (\<lambda>d it. it\<lparr>oi_textBuf := oi_textBuf it @ d\<rparr>) (s\<lparr>rs_sawAny := True\<rparr>)
      else if name = ''response.reasoning_text.delta'' then
        resp_delta js data (\<lambda>d it. it\<lparr>oi_reasoningTextBuf := oi_reasoningTextBuf it @ d\<rparr>) (s\<lparr>rs_sawAny := True\<rparr>)
      else if name = ''response.reasoning_summary_text.delta'' then
        resp_delta js data (\<lambda>d it. it\<lparr>oi_reasoningSummaryBuf := oi_reasoningSummaryBuf it @ d\<rparr>) (s\<lparr>rs_sawAny := True\<rparr>)
      else if name = ''response.function_call_arguments.delta'' then
        resp_delta js data (\<lambda>d it. it\<lparr>oi_argsBuf := oi_argsBuf it @ d\<rparr>) (s\<lparr>rs_sawAny := True\<rparr>)
      else if name = ''response.output_item.done'' then
        (case hj_item js data of Some (i, Some m) \<Rightarrow>
            s\<lparr>rs_sawAny := True, rs_items := at_index (\<lambda>it. (put_raw m it)\<lparr>oi_textBuf := '''', oi_reasoningTextBuf := '''',
                oi_reasoningSummaryBuf := '''', oi_argsBuf := ''''\<rparr>) new_item i (rs_items s)\<rparr>
         | _ \<Rightarrow> s\<lparr>rs_sawAny := True\<rparr>)
      else if List.member [''response.completed'', ''response.incomplete'', ''response.failed''] name then
        (case hj_response js data of Some (Some r) \<Rightarrow>
            s\<lparr>rs_sawAny := True, rs_respID := string_at r ''id'' (rs_respID s), rs_model := string_at r ''model'' (rs_model s),
              rs_status := string_at r ''status'' (rs_status s),
              rs_usage := (case map_of r ''usage'' of Some (VObj u) \<Rightarrow> Some u | _ \<Rightarrow> rs_usage s),
              rs_items := (case map_of r ''output'' of Some (VArr (x # xs)) \<Rightarrow> output_items 0 (x # xs) | _ \<Rightarrow> rs_items s),
              rs_envelope := Some r\<rparr>
         | _ \<Rightarrow> s\<lparr>rs_sawAny := True\<rparr>)
      else s)"

text \<open>One line; the event's name is forgotten at a blank line and after its data. The prefixes are those of the untrimmed line.\<close>
definition resp_line :: "http_json \<Rightarrow> resp_state \<Rightarrow> string \<Rightarrow> resp_state" where
  "resp_line js s line =
     (if trim_space line = '''' then s\<lparr>rs_currentEvent := ''''\<rparr>
      else if has_prefix line ''event:'' then s\<lparr>rs_currentEvent := trim_space (drop 6 line)\<rparr>
      else (case data_payload line of None \<Rightarrow> s
        | Some data \<Rightarrow>
            (let name = (if rs_currentEvent s = '''' then hj_type js data else rs_currentEvent s)
             in (resp_event js name data s)\<lparr>rs_currentEvent := ''''\<rparr>)))"

text \<open>The first output_text entry gets the text; None when there is none.\<close>
fun inject_text :: "string \<Rightarrow> jval list \<Rightarrow> jval list option" where
  "inject_text t [] = None"
| "inject_text t (c # cs) =
     (case c of
        VObj cm \<Rightarrow> if map_of cm ''type'' = Some (VStr ''output_text'') then Some (VObj (alist_set ''text'' (VStr t) cm) # cs)
                  else map_option ((#) c) (inject_text t cs)
      | _ \<Rightarrow> map_option ((#) c) (inject_text t cs))"

definition item_out :: "outputItem \<Rightarrow> json_members" where
  "item_out it =
     (case oi_raw it of None \<Rightarrow> [(''type'', VStr (oi_typ it))]
      | Some merged \<Rightarrow>
          if oi_typ it = ''message'' then
            (if oi_textBuf it = '''' then merged
             else let content = (case map_of merged ''content'' of Some (VArr xs) \<Rightarrow> xs | _ \<Rightarrow> []) in
               alist_set ''content'' (VArr (case inject_text (oi_textBuf it) content of Some xs \<Rightarrow> xs
                 | None \<Rightarrow> content @ [VObj [(''type'', VStr ''output_text''), (''text'', VStr (oi_textBuf it))]])) merged)
          else if oi_typ it = ''reasoning'' then
            (let m1 = (if oi_reasoningTextBuf it = '''' then merged else alist_set ''text'' (VStr (oi_reasoningTextBuf it)) merged)
             in if oi_reasoningSummaryBuf it = '''' then m1
                else alist_set ''summary'' (VArr [VObj [(''type'', VStr ''summary_text''), (''text'', VStr (oi_reasoningSummaryBuf it))]]) m1)
          else if oi_typ it = ''function_call'' then
            (if oi_argsBuf it = '''' then merged else alist_set ''arguments'' (VStr (oi_argsBuf it)) merged)
          else merged)"

definition resp_output :: "resp_state \<Rightarrow> jval list" where
  "resp_output s = map (\<lambda>(i, it). VObj (item_out it)) (in_order (rs_items s))"

definition set_unless_empty :: "string \<Rightarrow> string \<Rightarrow> json_members \<Rightarrow> json_members" where
  "set_unless_empty k v m = (if v = '''' then m else alist_set k (VStr v) m)"

definition ReassembleOpenAIResponsesSSE :: "http_json \<Rightarrow> string \<Rightarrow> string option" where
  "ReassembleOpenAIResponsesSSE js sseData =
     (let s = foldl (resp_line js) resp_start (scan_lines sseData) in
      if \<not> rs_sawAny s then None
      else let m = set_unless_empty ''status'' (rs_status s) (set_unless_empty ''model'' (rs_model s)
                     (set_unless_empty ''id'' (rs_respID s) (the_or [] (rs_envelope s))));
               m1 = (case rs_usage s of None \<Rightarrow> m | Some u \<Rightarrow> alist_set ''usage'' (VObj u) m)
           in Some (hj_out js (OVal (VObj (alist_set ''output'' (VArr (resp_output s)) m1)))))"

section \<open>Records and documents (types.go, document.go)\<close>

record HttpRecord =
  hr_RequestID :: string
  hr_ProjectID :: string
  hr_RequestKind :: string
  hr_RequestHeaders :: headers
  hr_RequestBody :: string
  hr_ResponseHeaders :: headers
  hr_ResponseBody :: string
  hr_ResponseStatus :: int
  hr_Streaming :: bool
  hr_Truncated :: bool

record document =
  doc_RequestHeaders :: headers
  doc_RequestBody :: string
  doc_ResponseHeaders :: headers
  doc_ResponseBody :: string
  doc_ResponseStatus :: int
  doc_Truncated :: bool

text \<open>utf8.Valid: every rune decodes to something other than the error of width 1.\<close>
function utf8_valid :: "nat list \<Rightarrow> bool" where
  "utf8_valid [] = True"
| "utf8_valid (b # bs) =
     (case decode_rune b bs of (r, width) \<Rightarrow> \<not> (r = 0xFFFD \<and> width \<le> 1) \<and> utf8_valid (drop (width - 1) bs))"
  by pat_completeness auto
termination by (relation "measure length") auto

definition toRawJSON :: "http_json \<Rightarrow> string \<Rightarrow> string" where
  "toRawJSON js body =
     (if body = '''' then ''null''
      else if hj_valid js body then body
      else if utf8_valid (map of_char body) then hj_string js body
      else hj_string js (base64_encode (string_bytes body)))"

definition sanitizeHeaders :: "headers \<Rightarrow> headers" where
  "sanitizeHeaders h = (\<lambda>k. case h k of None \<Rightarrow> None
     | Some v \<Rightarrow> Some (if List.member [''X-Api-Key'', ''Authorization''] (CanonicalHeaderKey k) then [''[REDACTED]''] else v))"

definition buildDocument :: "http_json \<Rightarrow> HttpRecord \<Rightarrow> document" where
  "buildDocument js r = \<lparr>doc_RequestHeaders = sanitizeHeaders (hr_RequestHeaders r), doc_RequestBody = toRawJSON js (hr_RequestBody r),
     doc_ResponseHeaders = sanitizeHeaders (hr_ResponseHeaders r), doc_ResponseBody = toRawJSON js (hr_ResponseBody r),
     doc_ResponseStatus = hr_ResponseStatus r, doc_Truncated = hr_Truncated r\<rparr>"

section \<open>The reader that keeps a copy (tee.go)\<close>

text \<open>The calls of onComplete that have been made are listed.\<close>
record TeeReadCloser =
  te_buf :: string
  te_maxBytes :: int
  te_overflow :: bool
  te_closed :: bool
  te_calls :: "(string \<times> bool) list"

definition NewTeeReadCloser :: "int \<Rightarrow> TeeReadCloser" where
  "NewTeeReadCloser maxBytes = \<lparr>te_buf = '''', te_maxBytes = maxBytes, te_overflow = False, te_closed = False, te_calls = []\<rparr>"

text \<open>Read: p is what the inner reader has read, and what the caller gets.\<close>
definition tee_Read :: "TeeReadCloser \<Rightarrow> string \<Rightarrow> TeeReadCloser" where
  "tee_Read t p =
     (if p \<noteq> '''' \<and> \<not> te_overflow t then
        (let remaining = te_maxBytes t - int (length (te_buf t)) in
         if remaining \<le> 0 then t\<lparr>te_overflow := True\<rparr>
         else if int (length p) > remaining then t\<lparr>te_overflow := True, te_buf := te_buf t @ take (nat remaining) p\<rparr>
         else t\<lparr>te_buf := te_buf t @ p\<rparr>)
      else t)"

definition tee_Close :: "TeeReadCloser \<Rightarrow> TeeReadCloser" where
  "tee_Close t = (if te_closed t then t else t\<lparr>te_closed := True, te_calls := te_calls t @ [(te_buf t, te_overflow t)]\<rparr>)"

section \<open>The logger (logger.go)\<close>

definition reassembleSSE :: "http_json \<Rightarrow> HttpRecord \<Rightarrow> string" where
  "reassembleSSE js r =
     (if hr_RequestKind r = ''openai_chat_completions'' then the_or (hr_ResponseBody r) (ReassembleOpenAIChatCompletionsSSE js (hr_ResponseBody r))
      else if List.member [''openai_responses'', ''openai_responses_websocket'', ''openai_responses_compact''] (hr_RequestKind r)
      then the_or (hr_ResponseBody r) (ReassembleOpenAIResponsesSSE js (hr_ResponseBody r))
      else if hr_RequestKind r = ''anthropic_messages'' \<or> hr_RequestKind r = ''''
      then the_or (hr_ResponseBody r) (ReassembleAnthropicSSE js (hr_ResponseBody r))
      else hr_ResponseBody r)"

text \<open>time.Format of the layout 2006-01-02, for years of at most four digits.\<close>
definition pad_digits :: "nat \<Rightarrow> int \<Rightarrow> string" where
  "pad_digits n i = (let s = itoa i in replicate (n - length s) CHR ''0'' @ s)"

definition format_day :: "int \<Rightarrow> string" where
  "format_day t = pad_digits 4 (year t) @ ''-'' @ pad_digits 2 (month t) @ ''-'' @ pad_digits 2 (mday t)"

definition S3Key :: "int \<Rightarrow> HttpRecord \<Rightarrow> string" where
  "S3Key now r = format_day now @ ''/'' @ hr_ProjectID r @ ''/'' @ hr_RequestID r @ ''.json''"

text \<open>The first part of upload: a streamed answer is put together, and the document is made of the record.\<close>
definition upload_document :: "http_json \<Rightarrow> HttpRecord \<Rightarrow> document" where
  "upload_document js r =
     buildDocument js (if hr_Streaming r then r\<lparr>hr_ResponseBody := reassembleSSE js r, hr_Streaming := False\<rparr> else r)"

text \<open>The queue, the number of workers that wait for a record, the records in the hands of a worker, before and after their
  upload (with their key), those the workers are done with, the bucket and the request rows.\<close>
record http_logger =
  hl_capacity :: nat
  hl_queue :: "HttpRecord list"
  hl_closed :: bool
  hl_idle :: nat
  hl_busy :: "HttpRecord list"
  hl_uploaded :: "(HttpRecord \<times> string) list"
  hl_finished :: "HttpRecord list"
  hl_bucket :: "string \<rightharpoonup> document"
  hl_table :: request_table

text \<open>New and Start.\<close>
definition Start_logger :: "int \<Rightarrow> int \<Rightarrow> request_table \<Rightarrow> http_logger" where
  "Start_logger bufSize workers tab =
     \<lparr>hl_capacity = nat (if bufSize \<le> 0 then 1000 else bufSize), hl_queue = [], hl_closed = False,
      hl_idle = nat (if workers \<le> 0 then 4 else workers), hl_busy = [], hl_uploaded = [], hl_finished = [],
      hl_bucket = Map.empty, hl_table = tab\<rparr>"

text \<open>Whether the record was accepted; a send on the closed channel panics.\<close>
definition Enqueue :: "HttpRecord \<Rightarrow> http_logger \<Rightarrow> (bool \<times> http_logger) option" where
  "Enqueue r l =
     (if hl_closed l then None
      else if length (hl_queue l) < hl_capacity l then Some (True, l\<lparr>hl_queue := hl_queue l @ [r]\<rparr>)
      else Some (False, l))"

text \<open>A worker takes a record; None when it has to wait, or no worker does.\<close>
definition worker_take :: "http_logger \<Rightarrow> http_logger option" where
  "worker_take l =
     (case hl_queue l of
        r # rest \<Rightarrow> if hl_idle l = 0 then None else Some (l\<lparr>hl_queue := rest, hl_idle := hl_idle l - 1, hl_busy := hl_busy l @ [r]\<rparr>)
      | [] \<Rightarrow> None)"

text \<open>A worker's loop ends when the channel is closed and drained.\<close>
definition worker_exit :: "http_logger \<Rightarrow> http_logger option" where
  "worker_exit l = (if hl_closed l \<and> hl_queue l = [] \<and> 0 < hl_idle l then Some (l\<lparr>hl_idle := hl_idle l - 1\<rparr>) else None)"

definition without :: "nat \<Rightarrow> 'a list \<Rightarrow> 'a list" where "without n xs = take n xs @ drop (Suc n) xs"

text \<open>PutObject of the n-th record in hand; when it fails the worker is done with the record.\<close>
definition upload_put :: "http_json \<Rightarrow> bool \<Rightarrow> int \<Rightarrow> nat \<Rightarrow> http_logger \<Rightarrow> http_logger option" where
  "upload_put js ok now n l =
     (if n \<ge> length (hl_busy l) then None
      else let r = hl_busy l ! n; l1 = l\<lparr>hl_busy := without n (hl_busy l)\<rparr>; key = S3Key now r in
        Some (if ok then l1\<lparr>hl_bucket := (hl_bucket l)(key \<mapsto> upload_document js r), hl_uploaded := hl_uploaded l @ [(r, key)]\<rparr>
              else l1\<lparr>hl_finished := hl_finished l @ [r], hl_idle := hl_idle l + 1\<rparr>))"

text \<open>The path is written into the request row, if the database answers; either way the worker is done with the record.\<close>
definition upload_path :: "bool \<Rightarrow> nat \<Rightarrow> http_logger \<Rightarrow> http_logger option" where
  "upload_path ok n l =
     (if n \<ge> length (hl_uploaded l) then None
      else let (r, key) = hl_uploaded l ! n in
        Some (l\<lparr>hl_uploaded := without n (hl_uploaded l), hl_finished := hl_finished l @ [r], hl_idle := hl_idle l + 1,
               hl_table := (if ok then UpdateHttpLogPath (hl_table l) (hr_RequestID r) key else hl_table l)\<rparr>))"

text \<open>Stop closes the channel, which panics the second time; it returns when every worker has ended.\<close>
definition Stop_logger :: "http_logger \<Rightarrow> http_logger option" where
  "Stop_logger l = (if hl_closed l then None else Some (l\<lparr>hl_closed := True\<rparr>))"

text \<open>The answer to a request for a log (admin/handle_http_log.go, retriever.go); the route is open to the members of the project
  in the path. \<^term>\<open>up\<close>: which of the database and the storage answer.\<close>
definition handleGetHttpLog :: "(string \<Rightarrow> bool) \<Rightarrow> http_logger option \<Rightarrow> bool \<Rightarrow> string \<Rightarrow> string \<Rightarrow> document response" where
  "handleGetHttpLog up bl superadmin projectID requestID =
     (case bl of None \<Rightarrow> Failure 503 ''unavailable''
      | Some l \<Rightarrow>
          if requestID = '''' then Failure 400 ''bad_request''
          else if \<not> up ''GetRequest'' then Failure 404 ''not_found''
          else (case hl_table l requestID of None \<Rightarrow> Failure 404 ''not_found''
            | Some req \<Rightarrow>
                if \<not> superadmin \<and> req_ProjectID req \<noteq> projectID then Failure 403 ''forbidden''
                else if req_HttpLogPath req = '''' then Failure 404 ''not_found''
                else if \<not> up ''Retrieve'' then Failure 500 ''internal''
                else (case hl_bucket l (req_HttpLogPath req) of None \<Rightarrow> Failure 500 ''internal'' | Some doc \<Rightarrow> Success 200 doc)))"

section \<open>Reading events off lines\<close>

text \<open>A reader that takes an event from some lines and passes over the others.\<close>
locale sse_reader =
  fixes decoded :: "string \<Rightarrow> 'e option" and apply_event :: "'e \<Rightarrow> 's \<Rightarrow> 's" and feed :: "'s \<Rightarrow> string \<Rightarrow> 's"
  assumes feed_event: "feed s line = (case decoded line of None \<Rightarrow> s | Some e \<Rightarrow> apply_event e s)"
begin

lemma feed_lines: "foldl feed s ls = foldl (\<lambda>s e. apply_event e s) s (List.map_filter decoded ls)"
  by (induction ls arbitrary: s) (auto simp: feed_event List.map_filter_def split: option.split)

lemma idle_events:
  assumes "\<And>e s. \<not> P e \<Longrightarrow> apply_event e s = s"
  shows "foldl (\<lambda>s e. apply_event e s) s es = foldl (\<lambda>s e. apply_event e s) s (filter P es)"
  using assms by (induction es arbitrary: s) auto

lemma feed_relevant:
  assumes "\<And>e s. \<not> P e \<Longrightarrow> apply_event e s = s"
  shows "foldl feed s ls = foldl (\<lambda>s e. apply_event e s) s (filter P (List.map_filter decoded ls))"
  unfolding feed_lines by (rule idle_events) (rule assms)

end

definition anthropic_decoded :: "http_json \<Rightarrow> string \<Rightarrow> sseEvent option" where
  "anthropic_decoded js line = (case anthropic_payload line of None \<Rightarrow> None | Some data \<Rightarrow> hj_event js data)"

definition chat_decoded :: "http_json \<Rightarrow> string \<Rightarrow> chatChunk option" where
  "chat_decoded js line = (case data_payload (trim_space line) of None \<Rightarrow> None | Some data \<Rightarrow> hj_chunk js data)"

interpretation anthropic: sse_reader "anthropic_decoded js" "anthropic_event js" "anthropic_sse_line js" for js
  by unfold_locales (simp add: anthropic_sse_line_def anthropic_decoded_def split: option.split)

interpretation chat: sse_reader "chat_decoded js" chat_event "chat_sse_line js" for js
  by unfold_locales (simp add: chat_sse_line_def chat_decoded_def split: option.split)

section \<open>A message survives streaming\<close>

datatype message_block = TextBlock string | ThinkingBlock string | ToolUseBlock string string string

text \<open>The JSON of a block in an answer that is not streamed.\<close>
fun block_json :: "http_json \<Rightarrow> message_block \<Rightarrow> (string \<times> block_value) list" where
  "block_json js (TextBlock t) = [(''type'', Decoded (VStr ''text'')), (''text'', Decoded (VStr t))]"
| "block_json js (ThinkingBlock t) = [(''type'', Decoded (VStr ''thinking'')), (''thinking'', Decoded (VStr t))]"
| "block_json js (ToolUseBlock i n input) =
     [(''type'', Decoded (VStr ''tool_use'')), (''id'', Decoded (VStr i)), (''name'', Decoded (VStr n)),
      (''input'', case hj_any js input of Some v \<Rightarrow> Decoded v | None \<Rightarrow> RawMessage input)]"

definition deltas_of :: "string \<Rightarrow> (sseDelta \<Rightarrow> string) \<Rightarrow> sseEvent list \<Rightarrow> string \<Rightarrow> bool" where
  "deltas_of type f es t \<longleftrightarrow> (\<exists>ds. list_all2 (\<lambda>e d. he_Type e = ''content_block_delta'' \<and> he_Delta e = Some d \<and> hd_Type d = type) es ds \<and> concat (map f ds) = t)"

text \<open>The events that stream a block: its start, its text in any number of pieces, its stop.\<close>
fun streams_block :: "message_block \<Rightarrow> sseBlock \<Rightarrow> sseEvent list \<Rightarrow> bool" where
  "streams_block (TextBlock t) b es = (hb_Type b = ''text'' \<and> deltas_of ''text_delta'' hd_Text es t)"
| "streams_block (ThinkingBlock t) b es = (hb_Type b = ''thinking'' \<and> deltas_of ''thinking_delta'' hd_Thinking es t)"
| "streams_block (ToolUseBlock i n input) b es =
     (hb_Type b = ''tool_use'' \<and> hb_ID b = i \<and> hb_Name b = n \<and> deltas_of ''input_json_delta'' hd_PartialJSON es input)"

definition streams :: "message_block \<Rightarrow> sseEvent list \<Rightarrow> bool" where
  "streams mb es \<longleftrightarrow> (\<exists>s b ds e. es = s # ds @ [e] \<and> he_Type s = ''content_block_start'' \<and> he_ContentBlock s = Some b
     \<and> streams_block mb b ds \<and> he_Type e = ''content_block_stop'')"

abbreviation run_events :: "http_json \<Rightarrow> sseEvent list \<Rightarrow> anthropic_state \<Rightarrow> anthropic_state" where
  "run_events js es st \<equiv> foldl (\<lambda>s e. anthropic_event js e s) st es"

lemma text_deltas: "deltas_of ''text_delta'' hd_Text es t \<Longrightarrow>
    run_events js es (msg, Some b) = (msg, Some (b\<lparr>cb_textBuf := cb_textBuf b @ t\<rparr>))"
  unfolding deltas_of_def
proof (elim exE conjE)
  fix ds assume "list_all2 (\<lambda>e d. he_Type e = ''content_block_delta'' \<and> he_Delta e = Some d \<and> hd_Type d = ''text_delta'') es ds" "concat (map hd_Text ds) = t"
  then show ?thesis
    by (induction es ds arbitrary: b t rule: list_all2_induct) (auto simp: anthropic_event_def)
qed

lemma thinking_deltas: "deltas_of ''thinking_delta'' hd_Thinking es t \<Longrightarrow>
    run_events js es (msg, Some b) = (msg, Some (b\<lparr>cb_textBuf := cb_textBuf b @ t\<rparr>))"
  unfolding deltas_of_def
proof (elim exE conjE)
  fix ds assume "list_all2 (\<lambda>e d. he_Type e = ''content_block_delta'' \<and> he_Delta e = Some d \<and> hd_Type d = ''thinking_delta'') es ds"
    "concat (map hd_Thinking ds) = t"
  then show ?thesis
    by (induction es ds arbitrary: b t rule: list_all2_induct) (auto simp: anthropic_event_def)
qed

lemma input_deltas: "deltas_of ''input_json_delta'' hd_PartialJSON es t \<Longrightarrow>
    run_events js es (msg, Some b) = (msg, Some (b\<lparr>cb_jsonBuf := cb_jsonBuf b @ t\<rparr>))"
  unfolding deltas_of_def
proof (elim exE conjE)
  fix ds assume "list_all2 (\<lambda>e d. he_Type e = ''content_block_delta'' \<and> he_Delta e = Some d \<and> hd_Type d = ''input_json_delta'') es ds"
    "concat (map hd_PartialJSON ds) = t"
  then show ?thesis
    by (induction es ds arbitrary: b t rule: list_all2_induct) (auto simp: anthropic_event_def)
qed

lemma run_block:
  assumes "streams mb es"
  shows "run_events js es (msg, cur) = (msg\<lparr>rm_Content := rm_Content msg @ [block_json js mb]\<rparr>, None)"
proof -
  obtain s b ds e where d: "es = s # ds @ [e]" "he_Type s = ''content_block_start''" "he_ContentBlock s = Some b"
      "streams_block mb b ds" "he_Type e = ''content_block_stop''"
    using assms unfolding streams_def by blast
  show ?thesis using d
    by (cases mb) (auto simp: anthropic_event_def[of js s] anthropic_event_def[of js e] finalize_def text_deltas thinking_deltas input_deltas
        cong: option.case_cong)
qed

lemma run_blocks:
  assumes "list_all2 streams bs ess"
  shows "run_events js (concat ess) (msg, None) = (msg\<lparr>rm_Content := rm_Content msg @ map (block_json js) bs\<rparr>, None)"
  using assms by (induction bs ess arbitrary: msg rule: list_all2_induct) (auto simp: run_block)

definition known_event :: "sseEvent \<Rightarrow> bool" where
  "known_event e \<longleftrightarrow> List.member [''message_start'', ''content_block_start'', ''content_block_delta'', ''content_block_stop'', ''message_delta''] (he_Type e)"

lemma unknown_event: "\<not> known_event e \<Longrightarrow> anthropic_event js e s = s"
  by (cases s) (auto simp: known_event_def anthropic_event_def)

text \<open>C28: a message survives streaming: if the events of the five kinds that a text contains are the start of a message, its
  blocks, each in any number of pieces, and its end, then what is put together of the text is the message, with its
  blocks in their order, its stop reason and its usage, however many pings, comments and other lines are in between;
  only if the input of a tool is not JSON the result is refused.\<close>
theorem reassembly_restores_message:
  assumes "filter known_event (List.map_filter (anthropic_decoded js) (scan_lines sse)) = first # concat ess @ [final]"
    and "he_Type first = ''message_start''" "he_Message first = Some m" "list_all2 streams bs ess"
    and "he_Type final = ''message_delta''" "he_Delta final = Some d"
  shows "ReassembleAnthropicSSE js sse = marshal_message js
    \<lparr>rm_ID = hm_ID m, rm_Type = ''message'', rm_Role = (if hm_Role m = '''' then ''assistant'' else hm_Role m),
     rm_Content = map (block_json js) bs, rm_Model = hm_Model m, rm_StopReason = hd_StopReason d,
     rm_Usage = (hm_Usage m)\<lparr>hu_OutputTokens := hu_OutputTokens (he_Usage final)\<rparr>\<rparr>"
proof -
  have "foldl (anthropic_sse_line js) (empty_message, None) (scan_lines sse)
      = run_events js (filter known_event (List.map_filter (anthropic_decoded js) (scan_lines sse))) (empty_message, None)"
    by (rule anthropic.feed_relevant) (rule unknown_event)
  also have "\<dots> = run_events js (first # concat ess @ [final]) (empty_message, None)" by (simp only: assms(1))
  also have "\<dots> = run_events js [final] (run_events js (concat ess) (anthropic_event js first (empty_message, None)))" by simp
  finally show ?thesis
    unfolding ReassembleAnthropicSSE_def using assms(2-)
    by (cases "hm_Usage m") (simp add: anthropic_event_def[of js first] anthropic_event_def[of js final] run_blocks empty_message_def no_usage_def cong: if_cong)
qed

text \<open>A tool whose input is no JSON, as that of a tool without any input or of one that was cut off, makes the whole answer
  unprintable, and the raw events are stored.\<close>
lemma unfinished_tool_stores_raw:
  assumes "hj_any js input = None" "\<not> hj_valid js input" "ToolUseBlock i n input \<in> set bs"
  shows "marshal_message js (msg\<lparr>rm_Content := map (block_json js) bs\<rparr>) = None"
proof -
  have "\<not> list_all (\<lambda>(k, v). case v of RawMessage s \<Rightarrow> hj_valid js s | Decoded _ \<Rightarrow> True) (block_json js (ToolUseBlock i n input))"
    using assms(1,2) by simp
  then show ?thesis using assms(3) unfolding marshal_message_def by (auto simp: list_all_iff simp del: block_json.simps)
qed

section \<open>The pieces of a choice\<close>

lemma map_of_at_index: "map_of (at_index f new i m) j = (if j = i then Some (f (the_or new (map_of m i))) else map_of m j)"
  by (simp add: at_index_def)

lemma map_of_indexed:
  "map_of (foldl (\<lambda>m x. at_index (\<lambda>c. f c x) new (ix x) m) m xs) i =
     (case filter (\<lambda>x. ix x = i) xs of [] \<Rightarrow> map_of m i | ds \<Rightarrow> Some (foldl f (the_or new (map_of m i)) ds))"
  by (induction xs arbitrary: m) (auto simp: map_of_at_index split: list.split)

text \<open>What is kept of a choice is folded from the pieces with its index alone, however the choices are interleaved.\<close>
lemma chat_choice_of_own_pieces:
  "map_of (foldl chat_choice [] cs) i =
     (case filter (\<lambda>c. hc_Index c = i) cs of [] \<Rightarrow> None | ds \<Rightarrow> Some (foldl chat_delta new_choice ds))"
  using map_of_indexed[of chat_delta new_choice hc_Index "[]" cs i]
  by (simp add: chat_choice_def[abs_def] split: list.split)

lemma chat_delta_content: "ch_contentBuf (foldl chat_delta c ds) = ch_contentBuf c @ concat (map hc_Content ds)"
  by (induction ds arbitrary: c) (simp_all add: chat_delta_def)

lemma chat_delta_tools:
  "ch_toolCalls (foldl chat_delta c ds)
     = foldl (\<lambda>m t. at_index (\<lambda>tc. chat_tool tc t) new_toolCall (ht_Index t) m) (ch_toolCalls c) (concat (map hc_ToolCalls ds))"
  by (induction ds arbitrary: c) (simp_all add: chat_delta_def)

lemma chat_tool_argument [simp]: "tl_argsBuf (chat_tool tc t) = tl_argsBuf tc @ ht_Arguments t"
  by (simp add: chat_tool_def)

lemma chat_tool_arguments: "tl_argsBuf (foldl chat_tool tc ts) = tl_argsBuf tc @ concat (map ht_Arguments ts)"
  by (induction ts arbitrary: tc) simp_all

lemma chat_event_choices: "cs_choices (chat_event e s) = foldl chat_choice (cs_choices s) (hk_Choices e)"
  by (simp add: chat_event_def)

lemma chat_choices: "cs_choices (foldl (\<lambda>s e. chat_event e s) s es) = foldl chat_choice (cs_choices s) (concat (map hk_Choices es))"
  by (induction es arbitrary: s) (simp_all add: chat_event_choices)

text \<open>Each choice of a chat completion has the content that its own pieces add up to, and each of its tool calls the arguments
  that the pieces with its index add up to, in the order of the text and however choices and calls are interleaved.\<close>
lemma chat_pieces_add_up:
  assumes "map_of (cs_choices (foldl (chat_sse_line js) chat_start (scan_lines sse))) i = Some c"
    and "own = filter (\<lambda>d. hc_Index d = i) (concat (map hk_Choices (List.map_filter (chat_decoded js) (scan_lines sse))))"
  shows "ch_contentBuf c = concat (map hc_Content own)
    \<and> (\<forall>k tc. map_of (ch_toolCalls c) k = Some tc \<longrightarrow>
         tl_argsBuf tc = concat (map ht_Arguments (filter (\<lambda>t. ht_Index t = k) (concat (map hc_ToolCalls own)))))"
proof -
  have "map_of (foldl chat_choice [] (concat (map hk_Choices (List.map_filter (chat_decoded js) (scan_lines sse))))) i = Some c"
    using assms(1) by (simp add: chat.feed_lines chat_choices chat_start_def)
  then have c: "c = foldl chat_delta new_choice own"
    unfolding chat_choice_of_own_pieces assms(2) by (simp split: list.splits)
  have "ch_contentBuf c = concat (map hc_Content own)" by (simp add: c chat_delta_content new_choice_def)
  moreover have "tl_argsBuf tc = concat (map ht_Arguments (filter (\<lambda>t. ht_Index t = k) (concat (map hc_ToolCalls own))))"
    if "map_of (ch_toolCalls c) k = Some tc" for k tc
    using that unfolding c chat_delta_tools map_of_indexed
    by (auto simp: new_choice_def new_toolCall_def chat_tool_arguments split: list.splits)
  ultimately show ?thesis by blast
qed

section \<open>The definitive output of a response\<close>

lemma output_items_keys: "k \<in> fst ` set (output_items i out) \<Longrightarrow> i \<le> k"
proof (induction i out rule: output_items.induct)
  case (2 i raw out)
  then have "k = i \<or> k \<in> fst ` set (output_items (i + 1) out)" by (auto split: jval.splits)
  then show ?case using 2 by (cases raw) force+
qed simp

lemma sorted_output_items: "sorted (map fst (output_items i out)) \<and> distinct (map fst (output_items i out))"
proof (induction i out rule: output_items.induct)
  case (2 i raw out)
  have "\<forall>k \<in> fst ` set (output_items (i + 1) out). i < k" using output_items_keys[of _ "i + 1" out] by force
  then show ?case using 2 by (cases raw) auto
qed simp

lemma in_order_sorted: "sorted (map fst m) \<Longrightarrow> distinct (map fst m) \<Longrightarrow> in_order m = m"
  by (simp add: in_order_def sorted_sort_id comp_def) (rule map_idI, auto)

lemma output_items_out: "map (\<lambda>(i, it). VObj (item_out it)) (output_items i out) = filter (\<lambda>v. \<exists>m. v = VObj m) out"
  by (induction i out rule: output_items.induct) (auto simp: put_raw_def new_item_def item_out_def Let_def split: jval.splits)

text \<open>The output of a terminal event, when it has one, replaces whatever was collected before.\<close>
lemma terminal_output_wins:
  assumes "hj_response js data = Some (Some r)" "map_of r ''output'' = Some (VArr out)" "out \<noteq> []"
    and "List.member [''response.completed'', ''response.incomplete'', ''response.failed''] name"
  shows "resp_output (resp_event js name data s) = filter (\<lambda>v. \<exists>m. v = VObj m) out"
proof -
  have n: "name \<in> {''response.completed'', ''response.incomplete'', ''response.failed''}" using assms(4) by simp
  obtain x xs where out: "out = x # xs" using assms(3) by (cases out) simp_all
  have "rs_items (resp_event js name data s) = output_items 0 out"
    using n assms(1,2) out by (auto simp: resp_event_def)
  then show ?thesis using sorted_output_items[of 0 out] by (simp add: resp_output_def in_order_sorted output_items_out)
qed

section \<open>The copy of a stream is bounded and exact\<close>

lemma foldl_tee:
  assumes "te_overflow t \<longleftrightarrow> te_maxBytes t < int (length b)" "te_buf t = take (nat (te_maxBytes t)) b" "0 \<le> te_maxBytes t"
  shows "te_overflow (foldl tee_Read t ps) = (te_maxBytes t < int (length (b @ concat ps)))
    \<and> te_buf (foldl tee_Read t ps) = take (nat (te_maxBytes t)) (b @ concat ps)
    \<and> te_closed (foldl tee_Read t ps) = te_closed t \<and> te_calls (foldl tee_Read t ps) = te_calls t"
  using assms
proof (induction ps arbitrary: t b)
  case (Cons p ps)
  have len: "length (te_buf t) = min (length b) (nat (te_maxBytes t))" using Cons.prems(2) by simp
  have step: "te_maxBytes (tee_Read t p) = te_maxBytes t \<and> te_closed (tee_Read t p) = te_closed t \<and> te_calls (tee_Read t p) = te_calls t"
    by (simp add: tee_Read_def Let_def)
  have "te_overflow (tee_Read t p) \<longleftrightarrow> te_maxBytes t < int (length (b @ p))"
    using Cons.prems(1,3) len by (auto simp: tee_Read_def Let_def)
  moreover have "te_buf (tee_Read t p) = take (nat (te_maxBytes t)) (b @ p)"
    using Cons.prems len by (auto simp: tee_Read_def Let_def nat_diff_distrib)
  ultimately show ?case using Cons.IH[of "tee_Read t p" "b @ p"] step Cons.prems(3) by simp
qed simp

lemma close_again: "te_closed t \<Longrightarrow> (tee_Close ^^ n) t = t"
  by (induction n) (simp_all add: tee_Close_def)

text \<open>The copy of a stream is bounded and exact: however the stream is cut into reads and however often it is closed, the
  callback runs once, with the first maxBytes bytes of what was read, and with the truncation flag set exactly when there
  were more.\<close>
lemma tee_keeps_bounded_copy:
  assumes "0 \<le> maxBytes"
  shows "te_calls ((tee_Close ^^ Suc n) (foldl tee_Read (NewTeeReadCloser maxBytes) ps))
    = [(take (nat maxBytes) (concat ps), maxBytes < int (length (concat ps)))]"
proof -
  let ?t = "foldl tee_Read (NewTeeReadCloser maxBytes) ps"
  have t: "te_overflow ?t = (maxBytes < int (length (concat ps)))" "te_buf ?t = take (nat maxBytes) (concat ps)" "\<not> te_closed ?t" "te_calls ?t = []"
    using foldl_tee[of "NewTeeReadCloser maxBytes" "[]" ps] assms by (simp_all add: NewTeeReadCloser_def)
  have "(tee_Close ^^ Suc n) ?t = (tee_Close ^^ n) (tee_Close ?t)" by (simp add: funpow_swap1)
  also have "\<dots> = tee_Close ?t" using t(3) by (intro close_again) (simp add: tee_Close_def)
  finally show ?thesis using t by (simp add: tee_Close_def)
qed

section \<open>The logger's runs\<close>

text \<open>A run of the logger of a new service with its workers, the callers of Enqueue and the other statements on the request rows
  interleaved: the state reached, and the records accepted.\<close>
inductive logs :: "http_json \<Rightarrow> int \<Rightarrow> int \<Rightarrow> http_logger \<Rightarrow> HttpRecord list \<Rightarrow> bool" for js bufSize workers where
  start: "\<forall>i row. tab i = Some row \<longrightarrow> req_HttpLogPath row = '''' \<Longrightarrow> logs js bufSize workers (Start_logger bufSize workers tab) []"
| accept: "logs js bufSize workers l acc \<Longrightarrow> Enqueue r l = Some (True, l') \<Longrightarrow> logs js bufSize workers l' (acc @ [r])"
| refuse: "logs js bufSize workers l acc \<Longrightarrow> Enqueue r l = Some (False, l') \<Longrightarrow> logs js bufSize workers l' acc"
| take_record: "logs js bufSize workers l acc \<Longrightarrow> worker_take l = Some l' \<Longrightarrow> logs js bufSize workers l' acc"
| put: "logs js bufSize workers l acc \<Longrightarrow> upload_put js ok now n l = Some l' \<Longrightarrow> logs js bufSize workers l' acc"
| path: "logs js bufSize workers l acc \<Longrightarrow> upload_path ok n l = Some l' \<Longrightarrow> logs js bufSize workers l' acc"
| exit_worker: "logs js bufSize workers l acc \<Longrightarrow> worker_exit l = Some l' \<Longrightarrow> logs js bufSize workers l' acc"
| stop: "logs js bufSize workers l acc \<Longrightarrow> Stop_logger l = Some l' \<Longrightarrow> logs js bufSize workers l' acc"
| statement: "logs js bufSize workers l acc \<Longrightarrow>
    \<forall>i row. tab i = Some row \<longrightarrow> req_HttpLogPath row = '''' \<or> (\<exists>old. hl_table l i = Some old \<and> req_HttpLogPath old = req_HttpLogPath row) \<Longrightarrow>
    logs js bufSize workers (l\<lparr>hl_table := tab\<rparr>) acc"

lemma key_names_request:
  assumes "S3Key t r = S3Key t' r'" "CHR ''/'' \<notin> set (hr_RequestID r)" "CHR ''/'' \<notin> set (hr_RequestID r')"
  shows "hr_RequestID r = hr_RequestID r'"
proof -
  have k: "takeWhile (\<lambda>c. c \<noteq> CHR ''/'') (drop 5 (rev (S3Key u x))) = rev (hr_RequestID x)" if "CHR ''/'' \<notin> set (hr_RequestID x)" for u x
    using that by (simp add: S3Key_def) (subst takeWhile_append2, auto)
  show ?thesis using k[OF assms(2), of t] k[OF assms(3), of t'] assms(1) by simp
qed

lemma mset_without: "n < length xs \<Longrightarrow> mset (without n xs) + {#xs ! n#} = mset xs"
  unfolding without_def by (subst id_take_nth_drop[of n xs]) simp_all

lemma set_without: "set (without n xs) \<subseteq> set xs"
  unfolding without_def using set_take_subset[of n xs] set_drop_subset[of "Suc n" xs] by auto

lemma length_without: "n < length xs \<Longrightarrow> length (without n xs) = length xs - 1"
  by (simp add: without_def)

definition conserves :: "http_logger \<Rightarrow> HttpRecord list \<Rightarrow> bool" where
  "conserves l acc \<longleftrightarrow> mset acc = mset (hl_queue l) + mset (hl_busy l) + mset (map fst (hl_uploaded l)) + mset (hl_finished l)"

lemma logs_conserve: "logs js bufSize workers l acc \<Longrightarrow> conserves l acc"
proof (induction rule: logs.induct)
  case (put l acc ok now n l')
  then have n: "n < length (hl_busy l)" by (auto simp: upload_put_def split: if_splits)
  then show ?case using put mset_without[OF n] by (auto simp: conserves_def upload_put_def Let_def split: if_splits)
next
  case (path l acc ok n l')
  then have n: "n < length (hl_uploaded l)" by (auto simp: upload_path_def split: if_splits)
  have "mset (map fst (without n (hl_uploaded l))) + {#fst (hl_uploaded l ! n)#} = mset (map fst (hl_uploaded l))"
    using arg_cong[OF mset_without[OF n], of "image_mset fst"] by simp
  then show ?case using path n by (auto simp: conserves_def upload_path_def case_prod_beta Let_def split: if_splits)
qed (auto simp: conserves_def Start_logger_def Enqueue_def worker_take_def worker_exit_def Stop_logger_def split: if_splits list.splits)

definition bounded :: "int \<Rightarrow> int \<Rightarrow> http_logger \<Rightarrow> bool" where
  "bounded bufSize workers l \<longleftrightarrow> length (hl_queue l) \<le> hl_capacity l \<and> hl_capacity l = nat (if bufSize \<le> 0 then 1000 else bufSize)
     \<and> hl_idle l + length (hl_busy l) + length (hl_uploaded l) \<le> nat (if workers \<le> 0 then 4 else workers)"

lemma logs_bounded: "logs js bufSize workers l acc \<Longrightarrow> bounded bufSize workers l"
proof (induction rule: logs.induct)
  case (put l acc ok now n l')
  then have "n < length (hl_busy l)" by (auto simp: upload_put_def split: if_splits)
  then show ?case using put by (auto simp: bounded_def upload_put_def Let_def length_without split: if_splits)
next
  case (path l acc ok n l')
  then have "n < length (hl_uploaded l)" by (auto simp: upload_path_def split: if_splits)
  then show ?case using path by (auto simp: bounded_def upload_path_def case_prod_beta Let_def length_without split: if_splits)
qed (auto simp: bounded_def Start_logger_def Enqueue_def worker_take_def worker_exit_def Stop_logger_def split: if_splits list.splits)

text \<open>The object of a key holds the document of an accepted record of a request.\<close>
definition stored :: "http_json \<Rightarrow> http_logger \<Rightarrow> HttpRecord list \<Rightarrow> string \<Rightarrow> string \<Rightarrow> bool" where
  "stored js l acc i key \<longleftrightarrow>
     (\<exists>r \<in> set acc. hr_RequestID r = i \<and> hl_bucket l key = Some (upload_document js r) \<and> (\<exists>now. key = S3Key now r))"

definition paths_ok :: "http_json \<Rightarrow> http_logger \<Rightarrow> HttpRecord list \<Rightarrow> bool" where
  "paths_ok js l acc \<longleftrightarrow> (\<forall>(r, key) \<in> set (hl_uploaded l). stored js l acc (hr_RequestID r) key)
     \<and> (\<forall>i row. hl_table l i = Some row \<and> req_HttpLogPath row \<noteq> '''' \<longrightarrow> stored js l acc i (req_HttpLogPath row))"

lemma object_stored_mono: "stored js l acc i key \<Longrightarrow> hl_bucket l' = hl_bucket l \<Longrightarrow> set acc \<subseteq> set acc' \<Longrightarrow> stored js l' acc' i key"
  unfolding stored_def by auto

lemma paths_ok_mono:
  assumes "paths_ok js l acc" "hl_bucket l' = hl_bucket l" "set acc \<subseteq> set acc'" "set (hl_uploaded l') \<subseteq> set (hl_uploaded l)"
    and "\<And>i row. hl_table l' i = Some row \<Longrightarrow> req_HttpLogPath row \<noteq> '''' \<Longrightarrow>
      \<exists>old. hl_table l i = Some old \<and> req_HttpLogPath old = req_HttpLogPath row"
  shows "paths_ok js l' acc'"
  unfolding paths_ok_def
proof (intro conjI ballI allI impI, clarsimp)
  fix r key assume "(r, key) \<in> set (hl_uploaded l')"
  then have "stored js l acc (hr_RequestID r) key" using assms(1,4) by (auto simp: paths_ok_def)
  then show "stored js l' acc' (hr_RequestID r) key" using assms(2,3) by (rule object_stored_mono)
next
  fix i row assume row: "hl_table l' i = Some row \<and> req_HttpLogPath row \<noteq> ''''"
  then obtain old where "hl_table l i = Some old" "req_HttpLogPath old = req_HttpLogPath row" using assms(5) by blast
  then have "stored js l acc i (req_HttpLogPath row)" using assms(1) row unfolding paths_ok_def by metis
  then show "stored js l' acc' i (req_HttpLogPath row)" using assms(2,3) by (rule object_stored_mono)
qed

lemma put_keeps_stored:
  assumes "\<forall>r \<in> set acc. CHR ''/'' \<notin> set (hr_RequestID r)" "r \<in> set acc" "stored js l acc i key"
    and "hl_bucket l' = (hl_bucket l)(S3Key now r \<mapsto> upload_document js r)"
  shows "stored js l' acc i key"
proof (cases "key = S3Key now r")
  case True
  obtain r0 t where r0: "r0 \<in> set acc" "hr_RequestID r0 = i" "key = S3Key t r0" using assms(3) unfolding stored_def by blast
  then have "hr_RequestID r = i" using key_names_request[of now r t r0] True assms(1,2) by auto
  then show ?thesis using True assms(2,4) unfolding stored_def by auto
next
  case False
  then show ?thesis using assms(3,4) unfolding stored_def by auto
qed

lemma in_hand_accepted: "logs js bufSize workers l acc \<Longrightarrow> n < length (hl_busy l) \<Longrightarrow> hl_busy l ! n \<in> set acc"
  using logs_conserve[of js bufSize workers l acc] nth_mem[of n "hl_busy l"]
  unfolding conserves_def by (metis set_mset_mset set_mset_union UnI1 UnI2)

lemma put_keeps_paths:
  assumes ok: "paths_ok js l acc" and put: "upload_put js up now n l = Some l'"
    and slash: "\<forall>r \<in> set acc. CHR ''/'' \<notin> set (hr_RequestID r)" and acc: "n < length (hl_busy l) \<Longrightarrow> hl_busy l ! n \<in> set acc"
  shows "paths_ok js l' acc"
proof (cases up)
  case True
  let ?r = "hl_busy l ! n"
  have r: "?r \<in> set acc" using put acc by (auto simp: upload_put_def split: if_splits)
  have l': "hl_bucket l' = (hl_bucket l)(S3Key now ?r \<mapsto> upload_document js ?r)" "hl_uploaded l' = hl_uploaded l @ [(?r, S3Key now ?r)]"
      "hl_table l' = hl_table l"
    using put True by (auto simp: upload_put_def Let_def split: if_splits)
  have "stored js l' acc (hr_RequestID ?r) (S3Key now ?r)" using r l'(1) unfolding stored_def by auto
  then show ?thesis using ok put_keeps_stored[OF slash r _ l'(1)] l'(2,3) unfolding paths_ok_def by auto
next
  case False
  then show ?thesis using put by (intro paths_ok_mono[OF ok]) (auto simp: upload_put_def Let_def split: if_splits)
qed

lemma path_keeps_paths:
  assumes ok: "paths_ok js l acc" and path: "upload_path up n l = Some l'"
  shows "paths_ok js l' acc"
proof -
  have n: "n < length (hl_uploaded l)" using path by (auto simp: upload_path_def split: if_splits)
  obtain r key where u: "hl_uploaded l ! n = (r, key)" by force
  have st: "stored js l acc (hr_RequestID r) key" using ok nth_mem[OF n] u unfolding paths_ok_def by auto
  have l': "hl_bucket l' = hl_bucket l" "hl_uploaded l' = without n (hl_uploaded l)"
      "hl_table l' = (if up then UpdateHttpLogPath (hl_table l) (hr_RequestID r) key else hl_table l)"
    using path n u by (auto simp: upload_path_def Let_def)
  have "stored js l acc i (req_HttpLogPath row)" if "hl_table l' i = Some row" "req_HttpLogPath row \<noteq> ''''" for i row
    using that st ok l'(3) unfolding paths_ok_def by (auto simp: UpdateHttpLogPath_def split: if_splits option.splits)
  moreover have "stored js l acc (hr_RequestID x) k" if "(x, k) \<in> set (hl_uploaded l')" for x k
    using that ok l'(2) set_without[of n "hl_uploaded l"] unfolding paths_ok_def by auto
  ultimately show ?thesis using l'(1) unfolding paths_ok_def stored_def by (simp add: split_beta)
qed

lemma logs_paths: "logs js bufSize workers l acc \<Longrightarrow> \<forall>r \<in> set acc. CHR ''/'' \<notin> set (hr_RequestID r) \<Longrightarrow> paths_ok js l acc"
proof (induction rule: logs.induct)
  case (put l acc ok now n l')
  then have "paths_ok js l acc" by blast
  then show ?case using put.hyps(2) put.prems in_hand_accepted[OF put.hyps(1)] by (rule put_keeps_paths)
next
  case (path l acc ok n l')
  then have "paths_ok js l acc" by blast
  then show ?case using path.hyps(2) by (rule path_keeps_paths)
next
  case (start tab)
  then show ?case by (auto simp: paths_ok_def Start_logger_def)
next
  case (accept l acc r l')
  then have "paths_ok js l acc" by simp
  then show ?case by (rule paths_ok_mono) (use accept.hyps(2) in \<open>auto simp: Enqueue_def split: if_splits\<close>)
next
  case (statement l acc tab)
  then have "paths_ok js l acc" by blast
  then show ?case by (rule paths_ok_mono) (use statement.hyps(2) in auto)
qed (auto simp: Enqueue_def worker_take_def worker_exit_def Stop_logger_def paths_ok_def stored_def split: if_splits list.splits)

text \<open>The path in a request row leads to the log of that request: whatever the order in which callers, workers and other
  statements run and whichever uploads and writes fail, the object that a path names holds the document of an accepted
  record of the very request; the queue and the workers stay within their bounds; and every accepted record is
  in exactly one place: queued, in hand, uploaded or done with.\<close>
lemma logger_sound:
  assumes "logs js bufSize workers l acc" "\<forall>r \<in> set acc. CHR ''/'' \<notin> set (hr_RequestID r)"
  shows "(\<forall>i row. hl_table l i = Some row \<and> req_HttpLogPath row \<noteq> '''' \<longrightarrow>
        (\<exists>r \<in> set acc. hr_RequestID r = i \<and> hl_bucket l (req_HttpLogPath row) = Some (upload_document js r)))
    \<and> mset acc = mset (hl_queue l) + mset (hl_busy l) + mset (map fst (hl_uploaded l)) + mset (hl_finished l)
    \<and> length (hl_queue l) \<le> nat (if bufSize \<le> 0 then 1000 else bufSize)
    \<and> length (hl_busy l) + length (hl_uploaded l) \<le> nat (if workers \<le> 0 then 4 else workers)"
  using logs_paths[OF assms] logs_conserve[OF assms(1)] logs_bounded[OF assms(1)]
  unfolding paths_ok_def stored_def conserves_def bounded_def by (intro conjI) (blast, auto)

section \<open>What is redacted\<close>

text \<open>The key that Gemini clients authenticate with is accepted by the gateway and logged as it is.\<close>
lemma google_key_is_logged: "doc_RequestHeaders (buildDocument js r) ''X-Goog-Api-Key'' = hr_RequestHeaders r ''X-Goog-Api-Key''"
proof -
  have "CanonicalHeaderKey ''X-Goog-Api-Key'' = ''X-Goog-Api-Key''" by code_simp
  then show ?thesis by (simp add: buildDocument_def sanitizeHeaders_def split: option.split)
qed

lemma redacted_headers:
  "CanonicalHeaderKey k \<in> {''X-Api-Key'', ''Authorization''} \<Longrightarrow> doc_RequestHeaders (buildDocument js r) k \<in> {None, Some [''[REDACTED]'']}"
  by (auto simp: buildDocument_def sanitizeHeaders_def split: option.split)


section \<open>Concrete runs\<close>

definition demo_sse_event :: "string \<Rightarrow> sseEvent" where
  "demo_sse_event t = \<lparr>he_Type = t, he_Message = None, he_ContentBlock = None, he_Delta = None, he_Usage = no_usage\<rparr>"

definition demo_sse_delta :: "string \<Rightarrow> string \<Rightarrow> string \<Rightarrow> sseDelta" where
  "demo_sse_delta t body stop = \<lparr>hd_Type = t, hd_Text = body, hd_PartialJSON = '''', hd_Thinking = '''', hd_StopReason = stop\<rparr>"

definition demo_message :: sseMessage where
  "demo_message = \<lparr>hm_ID = ''m1'', hm_Model = ''opus'', hm_Role = '''', hm_Usage = no_usage\<rparr>"

definition demo_first :: sseEvent where "demo_first = (demo_sse_event ''message_start'')\<lparr>he_Message := Some demo_message\<rparr>"

definition demo_open :: sseEvent where
  "demo_open = (demo_sse_event ''content_block_start'')\<lparr>he_ContentBlock := Some \<lparr>hb_Type = ''text'', hb_ID = '''', hb_Name = ''''\<rparr>\<rparr>"

definition demo_piece :: "string \<Rightarrow> sseEvent" where
  "demo_piece t = (demo_sse_event ''content_block_delta'')\<lparr>he_Delta := Some (demo_sse_delta ''text_delta'' t '''')\<rparr>"

definition demo_final :: sseEvent where
  "demo_final = (demo_sse_event ''message_delta'')\<lparr>he_Delta := Some (demo_sse_delta '''' '''' ''end_turn'')\<rparr>"

definition demo_http_json :: http_json where
  "demo_http_json = \<lparr>hj_event = map_of [(''s'', demo_first), (''o'', demo_open), (''a'', demo_piece ''Hel''), (''p'', demo_sse_event ''ping''),
       (''b'', demo_piece ''lo''), (''c'', demo_sse_event ''content_block_stop''), (''f'', demo_final)],
     hj_chunk = (\<lambda>_. None), hj_type = (\<lambda>_. ''''), hj_response = (\<lambda>_. None), hj_item = (\<lambda>_. None), hj_delta = (\<lambda>_. None),
     hj_any = (\<lambda>_. None), hj_valid = (\<lambda>_. False), hj_message = rm_StopReason, hj_out = (\<lambda>_. ''''), hj_string = id\<rparr>"

definition demo_sse :: string where
  "demo_sse = concat (map (\<lambda>l. l @ [CHR 0x0A]) [''event: message_start'', ''data: s'', '''', ''data: o'', ''data: a'', '': keepalive'', ''data: p'',
     ''data: b'', ''data: c'', ''data: f'', ''data: [DONE]''])"

lemma demo_decoded:
  "List.map_filter (anthropic_decoded demo_http_json) (scan_lines demo_sse)
     = [demo_first, demo_open, demo_piece ''Hel'', demo_sse_event ''ping'', demo_piece ''lo'', demo_sse_event ''content_block_stop'', demo_final]"
  by code_simp

lemma reassembly_restores_message_witness:
  "ReassembleAnthropicSSE demo_http_json demo_sse = marshal_message demo_http_json
    \<lparr>rm_ID = ''m1'', rm_Type = ''message'', rm_Role = ''assistant'', rm_Content = [[(''type'', Decoded (VStr ''text'')), (''text'', Decoded (VStr ''Hello''))]],
     rm_Model = ''opus'', rm_StopReason = ''end_turn'', rm_Usage = no_usage\<rparr>"
proof -
  let ?block = "[demo_open, demo_piece ''Hel'', demo_piece ''lo'', demo_sse_event ''content_block_stop'']"
  note defs = demo_first_def demo_open_def demo_piece_def demo_final_def demo_sse_event_def demo_sse_delta_def demo_message_def
  have f: "filter known_event (List.map_filter (anthropic_decoded demo_http_json) (scan_lines demo_sse)) = demo_first # concat [?block] @ [demo_final]"
    unfolding demo_decoded by (simp add: known_event_def defs)
  have "deltas_of ''text_delta'' hd_Text [demo_piece ''Hel'', demo_piece ''lo''] ''Hello''"
    unfolding deltas_of_def
    by (rule exI[of _ "[demo_sse_delta ''text_delta'' ''Hel'' '''', demo_sse_delta ''text_delta'' ''lo'' '''']"]) (simp add: defs)
  then have "streams (TextBlock ''Hello'') ?block" unfolding streams_def
    by (intro exI[of _ demo_open] exI[of _ "\<lparr>hb_Type = ''text'', hb_ID = '''', hb_Name = ''''\<rparr>"] exI[of _ "[demo_piece ''Hel'', demo_piece ''lo'']"]
        exI[of _ "demo_sse_event ''content_block_stop''"]) (simp add: demo_open_def demo_sse_event_def)
  then have b: "list_all2 streams [TextBlock ''Hello''] [?block]" by simp
  have "he_Type demo_first = ''message_start''" "he_Message demo_first = Some demo_message" "he_Type demo_final = ''message_delta''"
    "he_Delta demo_final = Some (demo_sse_delta '''' '''' ''end_turn'')" by (simp_all add: defs)
  from reassembly_restores_message[OF f this(1,2) b this(3,4)] show ?thesis
    by (simp add: demo_message_def demo_final_def demo_sse_event_def demo_sse_delta_def no_usage_def)
qed

definition demo_log :: HttpRecord where
  "demo_log = \<lparr>hr_RequestID = ''r'', hr_ProjectID = ''p'', hr_RequestKind = '''', hr_RequestHeaders = Map.empty, hr_RequestBody = '''',
     hr_ResponseHeaders = Map.empty, hr_ResponseBody = '''', hr_ResponseStatus = 200, hr_Streaming = False, hr_Truncated = False\<rparr>"

lemma demo_logged: "\<exists>l row. logs js 0 1 l [demo_log] \<and> hl_table l ''r'' = Some row \<and> req_HttpLogPath row = S3Key 0 demo_log
    \<and> hl_bucket l (S3Key 0 demo_log) = Some (upload_document js demo_log)"
proof -
  let ?l = "Start_logger 0 1 [''r'' \<mapsto> zero_request]"
  have "logs js 0 1 ?l []" by (rule logs.start) (simp add: zero_request_def)
  from logs.accept[OF this, of demo_log] have "logs js 0 1 (?l\<lparr>hl_queue := [demo_log]\<rparr>) [demo_log]" by (simp add: Enqueue_def Start_logger_def)
  from logs.take_record[OF this] have "logs js 0 1 (?l\<lparr>hl_idle := 0, hl_busy := [demo_log]\<rparr>) [demo_log]" by (simp add: worker_take_def Start_logger_def)
  from logs.put[OF this, of True 0 0]
  have "logs js 0 1 (?l\<lparr>hl_idle := 0, hl_bucket := [S3Key 0 demo_log \<mapsto> upload_document js demo_log], hl_uploaded := [(demo_log, S3Key 0 demo_log)]\<rparr>) [demo_log]"
    by (simp add: upload_put_def Start_logger_def without_def Let_def)
  from logs.path[OF this, of True 0] show ?thesis
    by (fastforce simp: upload_path_def Start_logger_def without_def UpdateHttpLogPath_def demo_log_def)
qed


end
