(* ===== verification/Spec2Isabelle.thy ===== *)
theory Spec2Isabelle
  imports Crypto Authz Billing Completion Collector Pipeline Login OAuthAdmin ExtraUsageApi RoutingAdmin HttpLog
begin

text \<open>
  Modelserver (internal/ of the repository): an LLM API gateway. A client request is authenticated
  (Auth), classified and its model resolved (Gateway), admitted against rate limits and extra-usage credits (Admission over RateLimit
  and Ledger), routed to a group of upstreams (RouterEngine over LoadBalancer) and proxied with retries
  (Executor); the response is copied to the client while its usage is read from it (Streams, ImageStream),
  priced (Types), settled against the project's ledger (Ledger) and logged (Completion, RequestLog, HttpLog). The
  management side keeps projects, members and keys (Members over Accounts and Crypto), logs browsers and command-line
  clients in (Login, Device), keeps the tokens of OAuth upstreams fresh (TokenManager, OAuthAdmin), authorizes operations (Authz), maintains the model catalog
  (Catalog, CatalogAdmin) and the upstreams, groups and routes (RoutingAdmin, OutboundClient), and sells subscriptions and credits (Billing
  over Ledger, ExtraUsageApi).

  Theories, each opening with the files it models:
    \<^item> Prelude: int64 wrap-around, Go maps as association lists, Go's strings and runes.
    \<^item> GoFloat, GoTime: the parts of Go's standard library the code computes with: float64 as rationals
      rounded to nearest even, time.Duration, the calendar and ParseDuration.
    \<^item> Crypto: crypto/*.go and the key generation of handleCreateKey; HMAC and AEAD are parameters.
    \<^item> Types: the structs of types/*.go as records, and the credit arithmetic.
    \<^item> Catalog: modelcatalog/*.go; the edit distance against a relational specification.
    \<^item> Authz: authz/*.go and the middleware of api/admin/v1/server.go.
    \<^item> LoadBalancer: proxy/lb; the policies meet the locale selection_policy; Release is also given as a
      small-step relation, so its compare-and-swap loop interleaves.
    \<^item> RouterEngine: proxy/router_engine.go.
    \<^item> RateLimit: ratelimit/*.go.
    \<^item> Auth: proxy/auth_middleware.go; its three caches meet the locale ttl_store.
    \<^item> Ledger: the transactions of store/extra_usage.go, store/orders.go and store/subscriptions.go on the
      rows they touch.
    \<^item> Billing: the order, payment and refund handlers of admin/ and billing/.
    \<^item> GoText: strconv, encoding/hex, encoding/base64 and url.QueryEscape.
    \<^item> Accounts: the rows of users, projects, members, keys and grants (store/users.go, projects.go, keys.go,
      oauth_grants.go). Members: the handlers over them in admin/handle_projects.go, handle_keys.go and
      handle_oauth_grants.go, and any sequence of them.
    \<^item> Device: the device authorization flow (admin/device_flow.go, store/device_codes.go), its requests split at the
      lookup so that they interleave.
    \<^item> GoUrl: the queries of net/url; Parse and String are parameters. Login: the identity providers (auth/*.go), the
      callback and the token pairs (admin/handle_auth.go), the login and consent pages of the OAuth server
      (admin/hydra_*.go) and the typed endpoints that replace them (api/admin/v1/auth.go).
    \<^item> TokenManager: proxy/claudecode_oauth.go and codex_oauth.go, one model over the locale oauth_refresh that both
      meet, and the interleaving of refreshes, reloads, logins and administrators. OAuthAdmin:
      admin/handle_claudecode_oauth.go and handle_codex_oauth.go, whose effect on the rows refines that system.
    \<^item> ExtraUsageApi: the reading handlers of admin/handle_extra_usage.go, and the typed endpoints of
      api/admin/v1/extra_usage.go with their access policies, which answer as the old ones and let in whom those let in.
    \<^item> CatalogAdmin: the tables of the routing configuration with the triggers of migration 016, store/models.go,
      admin/handle_models.go and the typed endpoints of api/admin/v1/models.go.
    \<^item> OutboundClient: proxy/outbound_client.go, with its cache of transports.
    \<^item> RoutingAdmin: store/upstreams.go, upstream_groups.go and routes.go, the handlers over them, any sequence of these
      and of the model handlers (the step relation routing_step, each handler one step), and the reload of cmd/modelserver/main.go.
    \<^item> Admission: the chain of middlewares in front of the executor and the settlement behind it; the
      composite limiter meets the locale rate_limiter.
    \<^item> Executor: the retry loop of proxy/executor.go.
    \<^item> Gateway: the client classification, the early model resolution and the handlers of proxy/.
    \<^item> Headers: the headers sent to each provider: the client's, the SetUpstream of provider_*.go, the allow list.
    \<^item> Streams, ImageStream: the interceptors that read usage from server-sent events as they pass, the copy
      loop that drives them, the parsers of complete bodies, and the look-ahead for capacity errors; both kinds of
      interceptor meet the locale stream_reader, so the result does not depend on how the bytes are cut into reads.
    \<^item> RequestLog: the rows of store/requests.go. Collector: collector/collector.go, its goroutine as steps that
      interleave with the callers of Record.
    \<^item> Completion: the second half of executor.go, from a committed response to the settled ledger and the final row.
    \<^item> HttpLog: httplog/*.go and admin/handle_http_log.go: the copies of requests and answers that are kept in an object
      storage. The three readers of streamed answers put messages together; two of them meet the locale sse_reader. Callers,
      workers and the other statements on the request rows interleave (the step relation logs).
    \<^item> Pipeline: the composition of Auth, Gateway, Admission and Executor as router.go composes them, on one
      request and on any sequence of requests.

  Conventions. A struct is a record, a nil pointer None, a map a function to option, an error a value of
  a sum or the HTTP status the handler answers with; a panic is None. int64 arithmetic wraps where the
  code can overflow. Times are integer nanoseconds, the clock an argument read once per operation unless
  the text says otherwise. Calls that may fail outside the program (database, providers) are arguments,
  as are random draws. Database transactions are atomic. Loops are structural recursions or functions
  with a measure; no fuel is used.

  The numbered properties stand in their component's theory. They show: no credit is lost or made in the
  ledger, whatever calls fail or repeat (Ledger, Billing), and what is settled is what was served
  (Admission, Pipeline); who is let in, to what and at whose cost (Auth, Authz, Gateway, Admission,
  Pipeline); requests go to the right upstreams, at most once each, and leave no trace in the counters
  (RouterEngine, LoadBalancer, Executor, Pipeline); no credential of a client goes upstream (Headers); the
  usage recorded is the usage of the bytes read, a committed response releases its connection, settles once
  and finishes its row (Streams, ImageStream, Completion, RequestLog, Collector); a message put together from a stream is the one streamed, and who reads the log of a request reads that request's (HttpLog); memberships stay well formed, an
  active key has a member behind it and a removed member keeps nothing (Members); tokens reach the device whose
  user approved it, once (Device); the OAuth server is told of a login only when one has taken place (Login); a token handed out for an upstream was entered or answered for it
  (TokenManager, OAuthAdmin); the routing configuration stays well formed, whatever administrators do, and what they
  enter is what requests are routed by after a reload (CatalogAdmin, RoutingAdmin), each upstream through its own proxy
  (OutboundClient); the typed endpoints answer and admit as the old ones (Login, CatalogAdmin, ExtraUsageApi); the computed answers equal their specification
  (Crypto, Streams, ImageStream, RouterEngine); and some behaviours that surprise, listed as findings
  of the manifest with the ones that are lemmas of the theories.

  Not modelled: JSON decoding, which is an argument, and the provider-specific rewriting of request bodies and
  URLs, which rests on a third-party JSON editor; the AWS event-stream reader; the websocket clients and the token source of vertex_auth.go, goroutines over third-party
  libraries; paginated SQL listings, the usage views, the handlers of plans, policies and users, the
  connection test of an upstream; logging, metrics emission and the set-up of the object storage's client.
\<close>

end
